(* ===== verification/Prelude.thy ===== *)
theory Prelude
  imports Main "HOL-Library.Word" "HOL-Library.Multiset" "HOL-Library.Char_ord"
    "HOL-Library.List_Lexorder"
begin

text \<open>
  What the components of the gateway share: the types of time and identifiers, the string
  functions of Go's \<^verbatim>\<open>strings\<close> package that the code calls, the "seen map" loop that removes
  duplicates, and the lemmas about them.

  Go strings are byte sequences, so a \<^typ>\<open>string\<close> here is the list of its bytes. Times and
  durations are integers in nanoseconds (as \<^verbatim>\<open>time.Duration\<close> counts them); instants count from
  the Unix epoch.  Row identifiers (\<^verbatim>\<open>uint64\<close> columns that are only compared) are naturals;
  integers that the code computes with keep their width.
\<close>

type_synonym u64 = "64 word"
type_synonym gotime = int
type_synonym duration = int
type_synonym id = nat

named_theorems dedup_simps "rewrite rules for the loop that skips keys already seen"
named_theorems trim_simps "rewrite rules for trimming"

abbreviation nano_per_sec :: int where "nano_per_sec \<equiv> 1000000000"

definition seconds :: "int \<Rightarrow> duration" where
  "seconds n = n * nano_per_sec"

definition milliseconds :: "int \<Rightarrow> duration" where
  "milliseconds n = n * 1000000"

definition minutes :: "int \<Rightarrow> duration" where
  "minutes n = seconds (60 * n)"

definition hours :: "int \<Rightarrow> duration" where
  "hours n = minutes (60 * n)"

lemmas duration_defs = hours_def minutes_def seconds_def milliseconds_def

subsection \<open>Strings\<close>

text \<open>Bytes of a literal that is not ASCII.\<close>

definition bytes :: "nat list \<Rightarrow> string" where
  "bytes = map char_of"

text \<open>
  The UTF-8 encodings of the runes with the Unicode property White\_Space, which
  \<^verbatim>\<open>strings.TrimSpace\<close> cuts from both ends: the ASCII blanks, U+0085, U+00A0, U+1680,
  U+2000 to U+200A, U+2028, U+2029, U+202F, U+205F and U+3000.
\<close>

definition space_seqs :: "string list" where
  "space_seqs =
     map bytes ([[9], [10], [11], [12], [13], [32], [0xC2, 0x85], [0xC2, 0xA0], [0xE1, 0x9A, 0x80]]
       @ map (\<lambda>b. [0xE2, 0x80, b]) [0x80, 0x81, 0x82, 0x83, 0x84, 0x85, 0x86, 0x87, 0x88, 0x89, 0x8A, 0xA8, 0xA9, 0xAF]
       @ [[0xE2, 0x81, 0x9F], [0xE3, 0x80, 0x80]])"

definition hasPrefix :: "'a list \<Rightarrow> 'a list \<Rightarrow> bool" where
  "hasPrefix s p = (take (length p) s = p)"

lemma space_seqs_nonempty: "p \<in> set space_seqs \<Longrightarrow> p \<noteq> []"
  by (auto simp: space_seqs_def bytes_def)

lemma hasPrefix_append [simp]: "hasPrefix (p @ s) p"
  by (simp add: hasPrefix_def)

lemma hasPrefix_iff: "hasPrefix s p \<longleftrightarrow> (\<exists>t. s = p @ t)"
  unfolding hasPrefix_def by (metis append_eq_conv_conj append_take_drop_id)

lemma hasPrefix_length: "hasPrefix s p \<Longrightarrow> length p \<le> length s"
  by (auto simp: hasPrefix_iff)

lemma find_prefix_SomeD:
  "find (\<lambda>p. p \<noteq> [] \<and> hasPrefix s p) ps = Some q \<Longrightarrow> q \<in> set ps \<and> q \<noteq> [] \<and> hasPrefix s q"
  by (auto simp: find_Some_iff in_set_conv_nth)

function trimSeqs :: "string list \<Rightarrow> string \<Rightarrow> string" where
  "trimSeqs ps s =
     (case find (\<lambda>p. p \<noteq> [] \<and> hasPrefix s p) ps of
        None \<Rightarrow> s
      | Some p \<Rightarrow> trimSeqs ps (drop (length p) s))"
  by pat_completeness auto
termination
  by (relation "measure (\<lambda>(ps, s). length s)")
    (auto dest!: find_prefix_SomeD dest: hasPrefix_length intro!: diff_less)

declare trimSeqs.simps [simp del]

definition trimSpace :: "string \<Rightarrow> string" where
  "trimSpace s = rev (trimSeqs (map rev space_seqs) (rev (trimSeqs space_seqs s)))"

text \<open>Case mapping, on ASCII letters (the case mapping of other letters is not modelled).\<close>

definition lowerChar :: "char \<Rightarrow> char" where
  "lowerChar c = (let n = of_char c :: nat in if 65 \<le> n \<and> n \<le> 90 then char_of (n + 32) else c)"

definition upperChar :: "char \<Rightarrow> char" where
  "upperChar c = (let n = of_char c :: nat in if 97 \<le> n \<and> n \<le> 122 then char_of (n - 32) else c)"

definition toLower :: "string \<Rightarrow> string" where
  "toLower = map lowerChar"

definition toUpper :: "string \<Rightarrow> string" where
  "toUpper = map upperChar"

fun containsSub :: "string \<Rightarrow> string \<Rightarrow> bool" where
  "containsSub [] p = (p = [])"
| "containsSub (c # cs) p = (hasPrefix (c # cs) p \<or> containsSub cs p)"

fun joinStr :: "string \<Rightarrow> string list \<Rightarrow> string" where
  "joinStr sep [] = []"
| "joinStr sep [x] = x"
| "joinStr sep (x # y # ys) = x @ sep @ joinStr sep (y # ys)"

definition isDigit :: "char \<Rightarrow> bool" where
  "isDigit c = (let n = of_char c :: nat in 48 \<le> n \<and> n \<le> 57)"

definition digitVal :: "char \<Rightarrow> nat" where
  "digitVal c = of_char c - 48"

lemma containsSub_iff: "containsSub s p \<longleftrightarrow> (\<exists>u v. s = u @ p @ v)"
proof (induction s)
  case Nil
  then show ?case by simp
next
  case (Cons c cs)
  note IH = Cons.IH
  show ?case
  proof
    assume "containsSub (c # cs) p"
    then consider t where "c # cs = p @ t" | u v where "cs = u @ p @ v"
      using Cons.IH by (auto simp: hasPrefix_iff)
    then show "\<exists>u v. c # cs = u @ p @ v"
      by cases (metis append_Nil, metis append_Cons)
  next
    assume "\<exists>u v. c # cs = u @ p @ v"
    then obtain u v where uv: "c # cs = u @ p @ v" by blast
    show "containsSub (c # cs) p"
    proof (cases u)
      case Nil
      with uv have "hasPrefix (c # cs) p" by (simp add: hasPrefix_iff)
      then show ?thesis by simp
    next
      case (Cons a u')
      with uv have "\<exists>u v. cs = u @ p @ v" by auto
      then have "containsSub cs p" by (simp add: IH)
      then show ?thesis by simp
    qed
  qed
qed

lemma trimSeqs_no_prefix: "p \<in> set ps \<Longrightarrow> p \<noteq> [] \<Longrightarrow> \<not> hasPrefix (trimSeqs ps s) p"
proof (induction ps s rule: trimSeqs.induct)
  case (1 ps s)
  show ?case
  proof (cases "find (\<lambda>p. p \<noteq> [] \<and> hasPrefix s p) ps")
    case None
    moreover from this have "\<not> hasPrefix s p" using "1.prems" by (auto simp: find_None_iff)
    ultimately show ?thesis by (simp add: trimSeqs.simps [of ps s])
  next
    case (Some q)
    with 1 show ?thesis by (simp add: trimSeqs.simps [of ps s])
  qed
qed

lemma trimSeqs_fixed:
  assumes "\<And>p. p \<in> set ps \<Longrightarrow> p \<noteq> [] \<Longrightarrow> \<not> hasPrefix s p"
  shows "trimSeqs ps s = s"
proof -
  have "find (\<lambda>p. p \<noteq> [] \<and> hasPrefix s p) ps = None"
    using assms by (auto simp: find_None_iff)
  then show ?thesis by (simp add: trimSeqs.simps [of ps s])
qed

lemma trimSeqs_suffix: "\<exists>u. s = u @ trimSeqs ps s"
proof (induction ps s rule: trimSeqs.induct)
  case (1 ps s)
  show ?case
  proof (cases "find (\<lambda>p. p \<noteq> [] \<and> hasPrefix s p) ps")
    case None
    then show ?thesis by (simp add: trimSeqs.simps [of ps s])
  next
    case (Some q)
    with "1.IH" obtain u where "drop (length q) s = u @ trimSeqs ps (drop (length q) s)" by blast
    then have "s = (take (length q) s @ u) @ trimSeqs ps (drop (length q) s)"
      by (metis append.assoc append_take_drop_id)
    moreover have "trimSeqs ps s = trimSeqs ps (drop (length q) s)"
      using Some by (simp add: trimSeqs.simps [of ps s])
    ultimately show ?thesis by metis
  qed
qed

lemma trimSpace_idem [simp, trim_simps]: "trimSpace (trimSpace s) = trimSpace s"
proof -
  let ?l = "trimSeqs space_seqs s"
  let ?r = "trimSeqs (map rev space_seqs) (rev ?l)"
  have noR: "\<And>p. p \<in> set (map rev space_seqs) \<Longrightarrow> p \<noteq> [] \<Longrightarrow> \<not> hasPrefix ?r p"
    by (rule trimSeqs_no_prefix)
  obtain u where u: "rev ?l = u @ ?r" using trimSeqs_suffix by blast
  then have l: "?l = rev ?r @ rev u" by (metis rev_append rev_rev_ident)
  have "\<And>p. p \<in> set space_seqs \<Longrightarrow> p \<noteq> [] \<Longrightarrow> \<not> hasPrefix (rev ?r) p"
  proof
    fix p assume p: "p \<in> set space_seqs" "p \<noteq> []" "hasPrefix (rev ?r) p"
    then have "hasPrefix ?l p" using l by (auto simp: hasPrefix_iff)
    with p trimSeqs_no_prefix show False by blast
  qed
  then have "trimSeqs space_seqs (rev ?r) = rev ?r" by (rule trimSeqs_fixed)
  moreover have "trimSeqs (map rev space_seqs) ?r = ?r" using noR by (rule trimSeqs_fixed)
  ultimately show ?thesis by (simp add: trimSpace_def)
qed

lemma trimSpace_Nil [simp, trim_simps]: "trimSpace [] = []"
  by (simp add: trimSpace_def trimSeqs_fixed hasPrefix_def)

subsection \<open>The seen-map loop\<close>

text \<open>
  Many functions of the code walk a slice with a \<^verbatim>\<open>seen\<close> map and keep the first element of
  every key.  They are all instances of \<open>dedupOn\<close>.
\<close>

fun dedupGo :: "('a \<Rightarrow> 'k) \<Rightarrow> 'k list \<Rightarrow> 'a list \<Rightarrow> 'a list" where
  "dedupGo f seen [] = []"
| "dedupGo f seen (x # xs) =
     (if f x \<in> set seen then dedupGo f seen xs else x # dedupGo f (f x # seen) xs)"

definition dedupOn :: "('a \<Rightarrow> 'k) \<Rightarrow> 'a list \<Rightarrow> 'a list" where
  "dedupOn f xs = dedupGo f [] xs"

lemma dedupGo_keys: "f ` set (dedupGo f seen xs) = f ` set xs - set seen"
  by (induction f seen xs rule: dedupGo.induct) auto

lemma dedupGo_subset: "set (dedupGo f seen xs) \<subseteq> set xs"
  by (induction f seen xs rule: dedupGo.induct) auto

lemma dedupGo_distinct: "distinct (map f (dedupGo f seen xs))"
proof (induction f seen xs rule: dedupGo.induct)
  case (2 f seen x xs)
  then show ?case using dedupGo_keys [of f "f x # seen" xs] by auto
qed simp

lemma dedupGo_fixed:
  "distinct (map f xs) \<Longrightarrow> f ` set xs \<inter> set seen = {} \<Longrightarrow> dedupGo f seen xs = xs"
  by (induction f seen xs rule: dedupGo.induct) auto

lemma dedupGo_mset: "mset (dedupGo f seen xs) \<subseteq># mset xs"
  by (induction f seen xs rule: dedupGo.induct)
    (auto intro: subset_mset.order_trans [OF _ subset_mset.less_imp_le])

lemma dedupOn_keys [dedup_simps]: "f ` set (dedupOn f xs) = f ` set xs"
  by (simp add: dedupOn_def dedupGo_keys)

lemma dedupOn_subset: "set (dedupOn f xs) \<subseteq> set xs"
  by (simp add: dedupOn_def dedupGo_subset)

lemma dedupOn_distinct [dedup_simps]: "distinct (map f (dedupOn f xs))"
  by (simp add: dedupOn_def dedupGo_distinct)

lemma dedupOn_fixed: "distinct (map f xs) \<Longrightarrow> dedupOn f xs = xs"
  by (simp add: dedupOn_def dedupGo_fixed)

lemma dedupOn_idem [dedup_simps]: "dedupOn f (dedupOn f xs) = dedupOn f xs"
  by (rule dedupOn_fixed) (rule dedupOn_distinct)

lemma dedupOn_Nil [simp]: "dedupOn f [] = []"
  by (simp add: dedupOn_def)

lemma dedupOn_eq_Nil [simp]: "dedupOn f xs = [] \<longleftrightarrow> xs = []"
  by (cases xs) (simp_all add: dedupOn_def)

lemma dedupOn_set_id [dedup_simps]: "set (dedupOn id xs) = set xs" "set (dedupOn (\<lambda>x. x) xs) = set xs"
  using dedupOn_keys [of id xs] dedupOn_keys [of "\<lambda>x. x" xs] by auto

lemma dedupOn_mset: "mset (dedupOn f xs) \<subseteq># mset xs"
  by (simp add: dedupOn_def dedupGo_mset)

lemma dedupOn_inj_set: "inj_on f (set xs) \<Longrightarrow> set (dedupOn f xs) = set xs"
  by (metis dedupOn_keys dedupOn_subset inj_on_image_eq_iff subset_refl)

lemma trimSeqs_set: "set s \<subseteq> set (trimSeqs ps s) \<union> (\<Union>p \<in> set ps. set p)"
proof (induction ps s rule: trimSeqs.induct)
  case (1 ps s)
  show ?case
  proof (cases "find (\<lambda>p. p \<noteq> [] \<and> hasPrefix s p) ps")
    case None
    then show ?thesis by (auto simp: trimSeqs.simps [of ps s])
  next
    case (Some q)
    then have q: "q \<in> set ps" "hasPrefix s q" by (auto dest: find_prefix_SomeD)
    then have "s = q @ drop (length q) s" by (metis append_take_drop_id hasPrefix_def)
    then have "set s = set q \<union> set (drop (length q) s)" by (metis set_append)
    then show ?thesis using "1.IH" [OF Some] q Some by (auto simp: trimSeqs.simps [of ps s])
  qed
qed

lemma trimSpace_set: "set s \<subseteq> set (trimSpace s) \<union> (\<Union>p \<in> set space_seqs. set p)"
  using trimSeqs_set [of s space_seqs]
    trimSeqs_set [of "rev (trimSeqs space_seqs s)" "map rev space_seqs"]
  by (fastforce simp: trimSpace_def)

lemma append_sep_inject:
  "x \<notin> set a \<Longrightarrow> x \<notin> set c \<Longrightarrow> a @ x # b = c @ x # d \<longleftrightarrow> a = c \<and> b = d"
proof (induction a arbitrary: c)
  case Nil
  then show ?case by (cases c) auto
next
  case (Cons y a)
  then show ?case by (cases c) auto
qed

lemma find_append_last: "find P (xs @ ys) = (case find P xs of None \<Rightarrow> find P ys | Some x \<Rightarrow> Some x)"
  by (induction xs) auto

text \<open>A string that starts and ends with a printable ASCII character has nothing to trim.\<close>

definition plainChar :: "char \<Rightarrow> bool" where
  "plainChar c = (let n = of_char c :: nat in 33 \<le> n \<and> n < 127)"

lemma space_seqs_no_plain: "p \<in> set space_seqs \<Longrightarrow> c \<in> set p \<Longrightarrow> \<not> plainChar c"
  unfolding space_seqs_def bytes_def by (auto simp: plainChar_def of_char_of)

lemma space_seqs_not_plain: "p \<in> set space_seqs \<Longrightarrow> \<not> plainChar (hd p) \<and> \<not> plainChar (last p)"
  using space_seqs_no_plain space_seqs_nonempty by (metis hd_in_set last_in_set)

lemma trimSpace_plain:
  assumes "plainChar (hd s)" "plainChar (last s)"
  shows "trimSpace s = s"
proof (cases "s = []")
  case False
  have "\<not> hasPrefix s p" if "p \<in> set space_seqs" "p \<noteq> []" for p
    using that assms space_seqs_not_plain [of p] by (auto simp: hasPrefix_iff)
  then have left: "trimSeqs space_seqs s = s" by (rule trimSeqs_fixed)
  have "\<not> hasPrefix (rev s) p" if "p \<in> set (map rev space_seqs)" "p \<noteq> []" for p
  proof
    assume "hasPrefix (rev s) p"
    then obtain t where "rev s = p @ t" by (auto simp: hasPrefix_iff)
    then have "s = rev t @ rev p" by (metis rev_append rev_rev_ident)
    then have "last s = last (rev p)" using that(2) by simp
    moreover have "rev p \<in> set space_seqs" using that(1) by auto
    ultimately show False using assms(2) space_seqs_not_plain by metis
  qed
  then have "trimSeqs (map rev space_seqs) (rev s) = rev s" by (rule trimSeqs_fixed)
  with left show ?thesis by (simp add: trimSpace_def)
qed simp

lemmas plain_eval = trimSpace_plain plainChar_def Let_def

text \<open>Removing one position of a slice: \<^verbatim>\<open>append(xs[:i], xs[i+1:]...)\<close>.\<close>

definition removeNth :: "nat \<Rightarrow> 'a list \<Rightarrow> 'a list" where
  "removeNth i xs = take i xs @ drop (Suc i) xs"

lemma length_removeNth: "i < length xs \<Longrightarrow> length (removeNth i xs) < length xs"
  by (simp add: removeNth_def)

lemma mset_removeNth: "i < length xs \<Longrightarrow> add_mset (xs ! i) (mset (removeNth i xs)) = mset xs"
  unfolding removeNth_def by (metis id_take_nth_drop mset.simps(2) mset_append union_mset_add_mset_right)

lemma removeNth_subset: "i < length xs \<Longrightarrow> mset (removeNth i xs) \<subseteq># mset xs"
  by (simp add: mset_removeNth [symmetric])

end
