(* ===== verification/Json.thy ===== *)
theory Json
  imports Prelude
begin

text \<open>
  JSON documents as \<^verbatim>\<open>encoding/json\<close> sees them once the text has been split into tokens, and the
  conversions of a document into Go values that the code relies on: a value of the wrong kind is
  an error, \<^verbatim>\<open>null\<close> leaves the zero value, an unknown field of an object is skipped and a field
  name is matched without regard to case.  The step between text and document is an argument of
  the definitions that use it.  Numbers keep their source text, as the decoder keeps it until it
  knows the type of the target.
\<close>

datatype json =
    JNull
  | JBool bool
  | JNum string
  | JStr string
  | JArr "json list"
  | JObj "(string \<times> json) list"

subsection \<open>Numbers as text\<close>

fun digitsVal :: "nat \<Rightarrow> string \<Rightarrow> nat option" where
  "digitsVal acc [] = Some acc"
| "digitsVal acc (c # cs) = (if isDigit c then digitsVal (10 * acc + digitVal c) cs else None)"

definition parseNat :: "string \<Rightarrow> nat option" where
  "parseNat s = (if s = [] then None else digitsVal 0 s)"

text \<open>\<^verbatim>\<open>strconv.ParseInt(s, 10, 64)\<close>: an optional sign, decimal digits, the range of \<^verbatim>\<open>int64\<close>.\<close>

definition parseInt :: "string \<Rightarrow> int option" where
  "parseInt s =
     (let (neg, body) = (case s of c # cs \<Rightarrow> if c = CHR ''-'' then (True, cs) else if c = CHR ''+'' then (False, cs) else (False, s) | [] \<Rightarrow> (False, s))
      in case parseNat body of
           None \<Rightarrow> None
         | Some n \<Rightarrow> (let v = (if neg then - int n else int n)
                      in if - (2 ^ 63) \<le> v \<and> v < 2 ^ 63 then Some v else None))"

text \<open>\<^verbatim>\<open>strconv.ParseUint(s, 10, bits)\<close>: decimal digits only, the value below \<open>2 ^ bits\<close>.\<close>

definition parseUint :: "nat \<Rightarrow> string \<Rightarrow> nat option" where
  "parseUint bits s = (case parseNat s of None \<Rightarrow> None | Some n \<Rightarrow> if n < 2 ^ bits then Some n else None)"

fun showNat :: "nat \<Rightarrow> string" where
  "showNat n = (if n < 10 then [char_of (48 + n)] else showNat (n div 10) @ [char_of (48 + n mod 10)])"

declare showNat.simps [simp del]

definition showInt :: "int \<Rightarrow> string" where
  "showInt i = (if i < 0 then CHR ''-'' # showNat (nat (- i)) else showNat (nat i))"

lemma of_char_digit: "n < 10 \<Longrightarrow> (of_char (char_of (48 + n) :: char) :: nat) = 48 + n"
  by (simp add: of_char_of)

lemma digit_char [simp]:
  "n < 10 \<Longrightarrow> isDigit (char_of (48 + n))" "n < 10 \<Longrightarrow> digitVal (char_of (48 + n)) = n"
  by (simp_all add: isDigit_def digitVal_def of_char_digit Let_def)

lemma digitsVal_append:
  "digitsVal acc (s @ t) = (case digitsVal acc s of None \<Rightarrow> None | Some a \<Rightarrow> digitsVal a t)"
  by (induction acc s rule: digitsVal.induct) auto

lemma digitsVal_showNat: "digitsVal 0 (showNat n) = Some n"
proof (induction n rule: showNat.induct)
  case (1 n)
  show ?case
  proof (cases "n < 10")
    case True
    then show ?thesis by (simp add: showNat.simps [of n])
  next
    case False
    with 1 show ?thesis by (simp add: showNat.simps [of n] digitsVal_append)
  qed
qed

lemma showNat_nonempty [simp]: "showNat n \<noteq> []"
  by (simp add: showNat.simps [of n])

lemma parseNat_showNat [simp]: "parseNat (showNat n) = Some n"
  by (simp add: parseNat_def digitsVal_showNat)

lemma showNat_all_digits: "c \<in> set (showNat n) \<Longrightarrow> isDigit c"
proof (induction n rule: showNat.induct)
  case (1 n)
  then show ?case by (cases "n < 10") (auto simp: showNat.simps [of n])
qed

lemma not_digit_signs [simp]: "\<not> isDigit (CHR ''-'')" "\<not> isDigit (CHR ''+'')" "\<not> isDigit (CHR '':'')"
  by (simp_all add: isDigit_def)

lemma parseInt_showInt:
  assumes "- (2 ^ 63) \<le> i" "i < 2 ^ 63"
  shows "parseInt (showInt i) = Some i"
proof (cases "i < 0")
  case True
  with assms show ?thesis by (simp add: parseInt_def showInt_def)
next
  case False
  obtain c cs where s: "showNat (nat i) = c # cs" by (cases "showNat (nat i)") auto
  then have "isDigit c" using showNat_all_digits [of c "nat i"] by simp
  then have "c \<noteq> CHR ''-''" "c \<noteq> CHR ''+''" using not_digit_signs by metis+
  moreover have "parseNat (c # cs) = Some (nat i)" using parseNat_showNat [of "nat i"] s by simp
  ultimately show ?thesis using False assms s by (simp add: parseInt_def showInt_def)
qed

lemma showNat_inject [simp]: "showNat m = showNat n \<longleftrightarrow> m = n"
  by (metis option.inject parseNat_showNat)

lemma showInt_inject [simp]: "showInt i = showInt j \<longleftrightarrow> i = j"
proof -
  have "showNat m \<noteq> CHR ''-'' # t" for m t
    using showNat_all_digits [of "CHR ''-''" m] not_digit_signs by auto
  then show ?thesis by (auto simp: showInt_def dest: sym)
qed

lemma showInt_no_colon: "CHR '':'' \<notin> set (showInt i)"
  using showNat_all_digits [of "CHR '':''"] not_digit_signs(3) by (auto simp: showInt_def)

subsection \<open>Decoding into Go values\<close>

text \<open>The elements of a slice; an element that is null keeps its zero value.\<close>

fun decodeAll :: "(json \<Rightarrow> 'a option) \<Rightarrow> json list \<Rightarrow> 'a list option" where
  "decodeAll f [] = Some []"
| "decodeAll f (x # xs) =
     (case f x of None \<Rightarrow> None
      | Some y \<Rightarrow> (case decodeAll f xs of None \<Rightarrow> None | Some ys \<Rightarrow> Some (y # ys)))"

fun decodeString :: "json \<Rightarrow> string option" where
  "decodeString JNull = Some []"
| "decodeString (JStr s) = Some s"
| "decodeString _ = None"

fun decodeInt :: "json \<Rightarrow> int option" where
  "decodeInt JNull = Some 0"
| "decodeInt (JNum t) = parseInt t"
| "decodeInt _ = None"

fun decodeSlice :: "(json \<Rightarrow> 'a option) \<Rightarrow> json \<Rightarrow> 'a list option" where
  "decodeSlice f JNull = Some []"
| "decodeSlice f (JArr xs) = decodeAll f xs"
| "decodeSlice f _ = None"

lemma decodeAll_map:
  "(\<And>x. x \<in> set xs \<Longrightarrow> f (g x) = Some x) \<Longrightarrow> decodeAll f (map g xs) = Some xs"
  by (induction xs) auto

lemma decodeSlice_strings [simp]: "decodeSlice decodeString (JArr (map JStr xs)) = Some xs"
  by (simp add: decodeAll_map)

text \<open>
  Encoding then decoding a document gives it back, and the text of an object or array starts
  with its bracket (\<^verbatim>\<open>json.Marshal\<close> and \<^verbatim>\<open>json.Unmarshal\<close>), for one document.
\<close>

definition faithfulText :: "(string \<Rightarrow> json option) \<Rightarrow> (json \<Rightarrow> string) \<Rightarrow> json \<Rightarrow> bool" where
  "faithfulText tree enc d \<longleftrightarrow>
     tree (trimSpace (enc d)) = Some d \<and>
     (case d of JObj _ \<Rightarrow> hasPrefix (trimSpace (enc d)) ''{''
      | JArr _ \<Rightarrow> hasPrefix (trimSpace (enc d)) ''[''
      | _ \<Rightarrow> True)"

end
