(* ===== verification/Time_Window.thy ===== *)
theory Time_Window
  imports Json
begin

text \<open>
  Package \<^verbatim>\<open>internal/logic/timewindow\<close>: time windows made of a time zone, ISO weekdays and clock
  ranges.  They close a channel model at given hours and decide when a price rule applies.

  Arguments of the model: \<open>tree\<close> and \<open>enc\<close>, the step of \<^verbatim>\<open>encoding/json\<close> between text and
  document, and the time-zone database \<open>zones\<close>, which gives for a zone name the offset from UTC
  in seconds that is in force at a Unix second (\<^verbatim>\<open>time.LoadLocation\<close>).
\<close>

record Window =
  TZ :: string
  Weekdays :: "int list"
  Ranges :: "string list list"

type_synonym zonedb = "string \<Rightarrow> (int \<Rightarrow> int) option"

datatype tw_error = TWInvalidJson | TWTimezone string | TWWeekday int | TWRangeShape | TWClock string | TWPanic

definition DefaultTimezone :: string where
  "DefaultTimezone = ''Asia/Shanghai''"

definition zeroWindow :: Window where
  "zeroWindow = \<lparr>TZ = [], Weekdays = [], Ranges = []\<rparr>"

subsection \<open>Clocks and weekdays\<close>

text \<open>
  The length and colon checks leave only the form \<^verbatim>\<open>dd:dd\<close> for \<^verbatim>\<open>time.Parse("15:04", _)\<close>, which
  then bounds the hour by 23 and the minute by 59.
\<close>

definition parseClock :: "string \<Rightarrow> int option" where
  "parseClock value =
     (case trimSpace value of
        [a, b, c, d, e] \<Rightarrow>
          if c \<noteq> CHR '':'' then None
          else if isDigit a \<and> isDigit b \<and> isDigit d \<and> isDigit e then
            (let h = 10 * digitVal a + digitVal b; m = 10 * digitVal d + digitVal e
             in if h < 24 \<and> m < 60 then Some (int (h * 60 + m)) else None)
          else None
      | _ \<Rightarrow> None)"

definition matchesClock :: "int \<Rightarrow> int \<Rightarrow> int \<Rightarrow> bool" where
  "matchesClock minute start end' =
     (if start = end' then True
      else if start < end' then minute \<ge> start \<and> minute < end'
      else minute \<ge> start \<or> minute < end')"

text \<open>A local time is its Unix second plus the offset of the zone.\<close>

definition localHour :: "int \<Rightarrow> int" where
  "localHour l = (l mod 86400) div 3600"

definition localMinute :: "int \<Rightarrow> int" where
  "localMinute l = (l mod 3600) div 60"

text \<open>\<^verbatim>\<open>time.Weekday\<close>: Sunday is 0; 1970-01-01 was a Thursday.\<close>

definition goWeekday :: "int \<Rightarrow> int" where
  "goWeekday l = (l div 86400 + 4) mod 7"

definition isoWeekday :: "int \<Rightarrow> int" where
  "isoWeekday l = (if goWeekday l = 0 then 7 else goWeekday l)"

fun containsWeekday :: "int list \<Rightarrow> int \<Rightarrow> bool" where
  "containsWeekday [] weekday = False"
| "containsWeekday (v # vs) weekday = (v = weekday \<or> containsWeekday vs weekday)"

fun coversRanges :: "string list list \<Rightarrow> int \<Rightarrow> bool" where
  "coversRanges [] minute = False"
| "coversRanges (item # items) minute =
     (case item of
        [s, e] \<Rightarrow>
          (case parseClock s of None \<Rightarrow> coversRanges items minute
           | Some start \<Rightarrow>
             (case parseClock e of None \<Rightarrow> coversRanges items minute
              | Some end' \<Rightarrow> matchesClock minute start end' \<or> coversRanges items minute))
      | _ \<Rightarrow> coversRanges items minute)"

definition coversClock :: "string list list \<Rightarrow> int \<Rightarrow> bool" where
  "coversClock ranges l =
     (if ranges = [] then False else coversRanges ranges (localHour l * 60 + localMinute l))"

subsection \<open>Normalisation\<close>

definition normalizeWeekdays :: "int list \<Rightarrow> int list" where
  "normalizeWeekdays ws = sort (dedupOn (\<lambda>w. w) ws)"

text \<open>The code reads \<^verbatim>\<open>item[0]\<close> and \<^verbatim>\<open>item[1]\<close> of every item: None is the index panic.\<close>

definition rangeKey :: "string list \<Rightarrow> string" where
  "rangeKey item = item ! 0 @ ''-'' @ item ! 1"

definition normalizeRanges :: "string list list \<Rightarrow> string list list option" where
  "normalizeRanges rs =
     (if list_all (\<lambda>item. 2 \<le> length item) rs
      then Some (map (\<lambda>item. [item ! 0, item ! 1]) (dedupOn rangeKey rs)) else None)"

definition IsZero :: "Window \<Rightarrow> bool" where
  "IsZero w =
     (if Ranges w \<noteq> [] then False
      else let ws = normalizeWeekdays (Weekdays w) in length ws = 0 \<or> length ws = 7)"

subsection \<open>Validation, decoding, encoding\<close>

fun validateWeekdays :: "int list \<Rightarrow> tw_error option" where
  "validateWeekdays [] = None"
| "validateWeekdays (w # ws) = (if w < 1 \<or> 7 < w then Some (TWWeekday w) else validateWeekdays ws)"

fun validateClocks :: "string list \<Rightarrow> tw_error option" where
  "validateClocks [] = None"
| "validateClocks (v # vs) = (case parseClock v of None \<Rightarrow> Some (TWClock v) | Some _ \<Rightarrow> validateClocks vs)"

fun validateRanges :: "string list list \<Rightarrow> tw_error option" where
  "validateRanges [] = None"
| "validateRanges (item # items) =
     (if length item \<noteq> 2 then Some TWRangeShape
      else case validateClocks item of Some e \<Rightarrow> Some e | None \<Rightarrow> validateRanges items)"

definition Validate :: "zonedb \<Rightarrow> Window \<Rightarrow> tw_error option" where
  "Validate zones w =
     (if trimSpace (TZ w) \<noteq> [] \<and> zones (trimSpace (TZ w)) = None then Some (TWTimezone (TZ w))
      else case validateWeekdays (Weekdays w) of
             Some e \<Rightarrow> Some e
           | None \<Rightarrow> validateRanges (Ranges w))"

fun setWindowField :: "string \<times> json \<Rightarrow> Window \<Rightarrow> Window option" where
  "setWindowField (key, v) w =
     (if v = JNull then
        (if toLower key = ''weekdays'' then Some (w\<lparr>Weekdays := []\<rparr>)
         else if toLower key = ''ranges'' then Some (w\<lparr>Ranges := []\<rparr>) else Some w)
      else if toLower key = ''tz'' then map_option (\<lambda>s. w\<lparr>TZ := s\<rparr>) (decodeString v)
      else if toLower key = ''weekdays'' then map_option (\<lambda>ws. w\<lparr>Weekdays := ws\<rparr>) (decodeSlice decodeInt v)
      else if toLower key = ''ranges'' then
        map_option (\<lambda>rs. w\<lparr>Ranges := rs\<rparr>) (decodeSlice (decodeSlice decodeString) v)
      else Some w)"

fun setWindowFields :: "(string \<times> json) list \<Rightarrow> Window \<Rightarrow> Window option" where
  "setWindowFields [] w = Some w"
| "setWindowFields (kv # kvs) w =
     (case setWindowField kv w of None \<Rightarrow> None | Some w' \<Rightarrow> setWindowFields kvs w')"

fun unmarshalWindow :: "json \<Rightarrow> Window option" where
  "unmarshalWindow JNull = Some zeroWindow"
| "unmarshalWindow (JObj kvs) = setWindowFields kvs zeroWindow"
| "unmarshalWindow _ = None"

definition marshalWindow :: "Window \<Rightarrow> json" where
  "marshalWindow w = JObj
     ((if TZ w = [] then [] else [(''tz'', JStr (TZ w))])
      @ (if Weekdays w = [] then [] else [(''weekdays'', JArr (map (\<lambda>d. JNum (showInt d)) (Weekdays w)))])
      @ (if Ranges w = [] then [] else [(''ranges'', JArr (map (\<lambda>r. JArr (map JStr r)) (Ranges w)))]))"

definition Parse :: "(string \<Rightarrow> json option) \<Rightarrow> zonedb \<Rightarrow> string \<Rightarrow> tw_error + Window" where
  "Parse tree zones raw =
     (let trimmed = trimSpace raw in
      if trimmed = [] \<or> trimmed = ''null'' then Inr zeroWindow
      else case Option.bind (tree trimmed) unmarshalWindow of
             None \<Rightarrow> Inl TWInvalidJson
           | Some w \<Rightarrow>
               (let w' = w\<lparr>TZ := trimSpace (TZ w)\<rparr>
                in case Validate zones w' of Some e \<Rightarrow> Inl e | None \<Rightarrow> Inr w'))"

definition normalizeFields :: "Window \<Rightarrow> tw_error + Window" where
  "normalizeFields w =
     (case normalizeRanges (Ranges w) of
        None \<Rightarrow> Inl TWPanic
      | Some rs \<Rightarrow> Inr (w\<lparr>Weekdays := normalizeWeekdays (Weekdays w), Ranges := rs\<rparr>))"

definition Normalize :: "(string \<Rightarrow> json option) \<Rightarrow> (json \<Rightarrow> string) \<Rightarrow> zonedb \<Rightarrow> string \<Rightarrow> tw_error + string" where
  "Normalize tree enc zones raw =
     (case Parse tree zones raw of
        Inl e \<Rightarrow> Inl e
      | Inr w \<Rightarrow>
          if IsZero w then Inr []
          else case normalizeFields w of Inl e \<Rightarrow> Inl e | Inr n \<Rightarrow> Inr (enc (marshalWindow n)))"

definition NormalizeWindow :: "(json \<Rightarrow> string) \<Rightarrow> zonedb \<Rightarrow> Window \<Rightarrow> tw_error + string" where
  "NormalizeWindow enc zones w =
     (case Validate zones w of
        Some e \<Rightarrow> Inl e
      | None \<Rightarrow>
          if IsZero w then Inr []
          else case normalizeFields w of Inl e \<Rightarrow> Inl e | Inr n \<Rightarrow> Inr (enc (marshalWindow n)))"

subsection \<open>Whether an instant lies in a window\<close>

definition Location :: "zonedb \<Rightarrow> Window \<Rightarrow> int \<Rightarrow> int" where
  "Location zones w =
     (case (if trimSpace (TZ w) \<noteq> [] then zones (trimSpace (TZ w)) else None) of
        Some loc \<Rightarrow> loc
      | None \<Rightarrow> (case zones DefaultTimezone of Some loc \<Rightarrow> loc | None \<Rightarrow> (\<lambda>_. 0)))"

definition localSecond :: "zonedb \<Rightarrow> Window \<Rightarrow> gotime \<Rightarrow> int" where
  "localSecond zones w at = (let u = at div nano_per_sec in u + Location zones w u)"

definition Contains :: "zonedb \<Rightarrow> Window \<Rightarrow> gotime \<Rightarrow> bool" where
  "Contains zones w at =
     (if Ranges w = [] then False
      else let l = localSecond zones w at
           in if Weekdays w \<noteq> [] \<and> \<not> containsWeekday (Weekdays w) (isoWeekday l) then False
              else coversClock (Ranges w) l)"

definition Allows :: "zonedb \<Rightarrow> Window \<Rightarrow> gotime \<Rightarrow> bool" where
  "Allows zones w at =
     (if IsZero w then True
      else let l = localSecond zones w at
           in if Weekdays w \<noteq> [] \<and> \<not> containsWeekday (Weekdays w) (isoWeekday l) then False
              else if Ranges w = [] then True
              else coversClock (Ranges w) l)"

subsection \<open>Lists of windows (\<^verbatim>\<open>list.go\<close>)\<close>

fun unmarshalWindows :: "json \<Rightarrow> Window list option" where
  "unmarshalWindows JNull = Some []"
| "unmarshalWindows (JArr xs) = decodeAll unmarshalWindow xs"
| "unmarshalWindows _ = None"

fun validateList :: "zonedb \<Rightarrow> Window list \<Rightarrow> tw_error + Window list" where
  "validateList zones [] = Inr []"
| "validateList zones (w # ws) =
     (let w' = w\<lparr>TZ := trimSpace (TZ w)\<rparr>
      in case Validate zones w' of
           Some e \<Rightarrow> Inl e
         | None \<Rightarrow> (case validateList zones ws of Inl e \<Rightarrow> Inl e | Inr ws' \<Rightarrow> Inr (w' # ws')))"

definition ParseList :: "(string \<Rightarrow> json option) \<Rightarrow> zonedb \<Rightarrow> string \<Rightarrow> tw_error + Window list" where
  "ParseList tree zones raw =
     (let trimmed = trimSpace raw in
      if trimmed = [] \<or> trimmed = ''null'' then Inr []
      else if \<not> hasPrefix trimmed ''['' then
        (case Parse tree zones trimmed of Inl e \<Rightarrow> Inl e | Inr w \<Rightarrow> Inr [w])
      else case Option.bind (tree trimmed) unmarshalWindows of
             None \<Rightarrow> Inl TWInvalidJson
           | Some ws \<Rightarrow> validateList zones ws)"

fun normalizeAll :: "zonedb \<Rightarrow> Window list \<Rightarrow> tw_error + Window list" where
  "normalizeAll zones [] = Inr []"
| "normalizeAll zones (w # ws) =
     (case Validate zones w of
        Some e \<Rightarrow> Inl e
      | None \<Rightarrow>
          if IsZero w then normalizeAll zones ws
          else case normalizeFields w of
                 Inl e \<Rightarrow> Inl e
               | Inr n \<Rightarrow> (case normalizeAll zones ws of Inl e \<Rightarrow> Inl e | Inr ns \<Rightarrow> Inr (n # ns)))"

definition NormalizeWindows :: "(json \<Rightarrow> string) \<Rightarrow> zonedb \<Rightarrow> Window list \<Rightarrow> tw_error + string" where
  "NormalizeWindows enc zones ws =
     (case normalizeAll zones ws of
        Inl e \<Rightarrow> Inl e
      | Inr ns \<Rightarrow> if ns = [] then Inr [] else Inr (enc (JArr (map marshalWindow ns))))"

fun AnyContains :: "zonedb \<Rightarrow> Window list \<Rightarrow> gotime \<Rightarrow> bool" where
  "AnyContains zones [] at = False"
| "AnyContains zones (w # ws) at = (if Contains zones w at then True else AnyContains zones ws at)"

subsection \<open>Membership\<close>

lemma parseClock_bounds: "parseClock v = Some m \<Longrightarrow> 0 \<le> m \<and> m < 1440"
  by (auto simp: parseClock_def Let_def split: list.splits if_splits)

lemma containsWeekday_iff [simp]: "containsWeekday ws d \<longleftrightarrow> d \<in> set ws"
  by (induction ws) auto

lemma localClock_bounds: "0 \<le> localHour l * 60 + localMinute l \<and> localHour l * 60 + localMinute l < 1440"
proof -
  have "0 \<le> localHour l" "localHour l < 24" "0 \<le> localMinute l" "localMinute l < 60"
    by (auto simp: localHour_def localMinute_def div_less_iff_less_mult)
  then show ?thesis by linarith
qed

text \<open>On the 24 hour circle, membership is one comparison of distances from the start.\<close>

lemma matchesClock_circle:
  assumes "0 \<le> m" "m < 1440" "0 \<le> s" "s < 1440" "0 \<le> e" "e < 1440"
  shows "matchesClock m s e \<longleftrightarrow> s = e \<or> (m - s) mod 1440 < (e - s) mod 1440"
proof -
  have md: "(x - y) mod 1440 = (if y \<le> x then x - y else x - y + 1440)"
    if "0 \<le> x" "x < 1440" "0 \<le> y" "y < 1440" for x y :: int
  proof (cases "y \<le> x")
    case True
    with that show ?thesis by simp
  next
    case False
    with that have "(x - y) mod 1440 = (x - y + 1440) mod 1440" by simp
    also have "\<dots> = x - y + 1440" using that False by (intro mod_pos_pos_trivial) auto
    finally show ?thesis using False by simp
  qed
  show ?thesis unfolding matchesClock_def using assms by (auto simp: md)
qed

lemma coversRanges_iff:
  "coversRanges items m \<longleftrightarrow>
     (\<exists>s e a b. [s, e] \<in> set items \<and> parseClock s = Some a \<and> parseClock e = Some b \<and> matchesClock m a b)"
proof (induction items)
  case Nil
  then show ?case by simp
next
  case (Cons item items)
  show ?case
  proof (cases "\<exists>s e. item = [s, e]")
    case True
    then obtain s e where "item = [s, e]" by blast
    then show ?thesis using Cons.IH by (auto split: option.splits)
  next
    case False
    then have "coversRanges (item # items) m = coversRanges items m" by (auto split: list.splits)
    then show ?thesis using Cons.IH False by auto
  qed
qed

lemma coversClock_iff:
  "coversClock ranges l \<longleftrightarrow> coversRanges ranges (localHour l * 60 + localMinute l)"
  by (simp add: coversClock_def)

lemma Contains_imp_Allows: "Contains zones w at \<Longrightarrow> Allows zones w at"
  by (auto simp: Contains_def Allows_def Let_def split: if_splits)

subsection \<open>Validation\<close>

lemma validateWeekdays_None: "validateWeekdays ws = None \<longleftrightarrow> (\<forall>w \<in> set ws. 1 \<le> w \<and> w \<le> 7)"
  by (induction ws) auto

lemma validateClocks_None: "validateClocks vs = None \<longleftrightarrow> (\<forall>v \<in> set vs. parseClock v \<noteq> None)"
  by (induction vs) (auto split: option.splits)

lemma validateRanges_None:
  "validateRanges rs = None \<longleftrightarrow> (\<forall>r \<in> set rs. length r = 2 \<and> (\<forall>v \<in> set r. parseClock v \<noteq> None))"
proof (induction rs)
  case (Cons r rs)
  have "validateRanges (r # rs) = None \<longleftrightarrow> length r = 2 \<and> validateClocks r = None \<and> validateRanges rs = None"
    by (auto split: option.splits)
  with Cons show ?case by (simp add: validateClocks_None)
qed simp

lemma Validate_None:
  "Validate zones w = None \<longleftrightarrow>
     (trimSpace (TZ w) = [] \<or> zones (trimSpace (TZ w)) \<noteq> None) \<and>
     validateWeekdays (Weekdays w) = None \<and> validateRanges (Ranges w) = None"
  by (auto simp: Validate_def split: option.splits)

lemma Validate_trim [trim_simps]:
  "Validate zones (w\<lparr>TZ := trimSpace (TZ w)\<rparr>) = None \<longleftrightarrow> Validate zones w = None"
  by (simp add: Validate_None)

lemma Location_trim [trim_simps]: "Location zones (w\<lparr>TZ := trimSpace (TZ w)\<rparr>) = Location zones w"
  by (simp add: Location_def)

subsection \<open>Normalisation keeps the meaning\<close>

lemma space_bytes_no_dash: "p \<in> set space_seqs \<Longrightarrow> CHR ''-'' \<notin> set p"
  using space_seqs_no_plain [of p "CHR ''-''"] by (auto simp: plainChar_def)

lemma parseClock_no_dash:
  assumes "parseClock v = Some m"
  shows "CHR ''-'' \<notin> set v"
proof -
  have "CHR ''-'' \<notin> set (trimSpace v)"
    using assms not_digit_signs
    by (auto simp: parseClock_def Let_def split: list.splits if_splits)
  then show ?thesis using trimSpace_set [of v] space_bytes_no_dash by blast
qed

lemma rangeKey_inj:
  assumes "validateRanges rs = None"
  shows "inj_on rangeKey (set rs)"
proof (rule inj_onI)
  fix x y assume "x \<in> set rs" "y \<in> set rs" and key: "rangeKey x = rangeKey y"
  with assms have x: "length x = 2" "\<forall>v \<in> set x. parseClock v \<noteq> None"
    and y: "length y = 2" "\<forall>v \<in> set y. parseClock v \<noteq> None"
    by (auto simp: validateRanges_None)
  obtain a b c d where xy: "x = [a, b]" "y = [c, d]"
    using x(1) y(1) by (auto simp: numeral_2_eq_2 length_Suc_conv)
  have "CHR ''-'' \<notin> set a" "CHR ''-'' \<notin> set c"
    using x y xy parseClock_no_dash by (auto simp: not_None_eq)
  with key xy show "x = y" by (simp add: rangeKey_def append_sep_inject)
qed

lemma normalizeRanges_valid:
  assumes "validateRanges rs = None"
  obtains ns where "normalizeRanges rs = Some ns" "set ns = set rs"
proof -
  have len: "\<forall>r \<in> set rs. length r = 2" using assms by (simp add: validateRanges_None)
  then have eta: "\<forall>r \<in> set rs. [r ! 0, r ! 1] = r"
    by (auto simp: numeral_2_eq_2 length_Suc_conv)
  have "normalizeRanges rs = Some (map (\<lambda>r. [r ! 0, r ! 1]) (dedupOn rangeKey rs))"
    using len by (auto simp: normalizeRanges_def list_all_iff)
  moreover have "set (map (\<lambda>r. [r ! 0, r ! 1]) (dedupOn rangeKey rs)) = set rs"
    using eta dedupOn_inj_set [OF rangeKey_inj [OF assms]] by force
  ultimately show ?thesis by (rule that)
qed

lemma set_normalizeWeekdays [simp]: "set (normalizeWeekdays ws) = set ws"
  by (simp add: normalizeWeekdays_def dedup_simps)

lemma normalizeWeekdays_Nil [simp]: "normalizeWeekdays ws = [] \<longleftrightarrow> ws = []"
  by (metis set_empty set_normalizeWeekdays)

lemma normalizeWeekdays_idem [simp]: "normalizeWeekdays (normalizeWeekdays ws) = normalizeWeekdays ws"
proof -
  have "distinct (normalizeWeekdays ws)"
    using dedupOn_distinct [of "\<lambda>w. w" ws] by (simp add: normalizeWeekdays_def)
  then have "dedupOn (\<lambda>w. w) (normalizeWeekdays ws) = normalizeWeekdays ws"
    by (intro dedupOn_fixed) simp
  then show ?thesis by (simp add: normalizeWeekdays_def sorted_sort_id [OF sorted_sort])
qed

text \<open>Two windows with the same zone, weekdays and ranges, up to order and repetition.\<close>

definition sameWindow :: "zonedb \<Rightarrow> Window \<Rightarrow> Window \<Rightarrow> bool" where
  "sameWindow zones v w \<longleftrightarrow>
     Location zones v = Location zones w \<and> set (Weekdays v) = set (Weekdays w) \<and>
     set (Ranges v) = set (Ranges w)"

lemma sameWindow_Contains: "sameWindow zones v w \<Longrightarrow> Contains zones v at = Contains zones w at"
proof -
  assume same: "sameWindow zones v w"
  then have "Weekdays v = [] \<longleftrightarrow> Weekdays w = []" "Ranges v = [] \<longleftrightarrow> Ranges w = []"
    by (metis sameWindow_def set_empty)+
  with same show ?thesis
    by (simp add: sameWindow_def Contains_def localSecond_def coversClock_iff coversRanges_iff)
qed

lemma normalizeFields_same:
  assumes "Validate zones w = None"
  obtains n where "normalizeFields w = Inr n" "sameWindow zones n w" "Validate zones n = None"
    "TZ n = TZ w"
proof -
  have ok: "validateRanges (Ranges w) = None" using assms by (simp add: Validate_None)
  then obtain ns where ns: "normalizeRanges (Ranges w) = Some ns" "set ns = set (Ranges w)"
    by (rule normalizeRanges_valid)
  let ?n = "w\<lparr>Weekdays := normalizeWeekdays (Weekdays w), Ranges := ns\<rparr>"
  have "validateRanges ns = None" using ok ns(2) by (simp add: validateRanges_None)
  with assms have "Validate zones ?n = None" by (simp add: Validate_None validateWeekdays_None)
  moreover have "sameWindow zones ?n w" using ns(2) by (simp add: sameWindow_def Location_def)
  moreover have "normalizeFields w = Inr ?n" using ns(1) by (simp add: normalizeFields_def)
  ultimately show ?thesis by (intro that [of ?n]) simp_all
qed

subsection \<open>Stored windows read back\<close>

lemma lower_keys [simp]:
  "toLower ''tz'' = ''tz''" "toLower ''weekdays'' = ''weekdays''" "toLower ''ranges'' = ''ranges''"
  by (simp_all add: toLower_def lowerChar_def Let_def)

lemma decode_weekdays:
  assumes "validateWeekdays ws = None"
  shows "decodeSlice decodeInt (JArr (map (\<lambda>d. JNum (showInt d)) ws)) = Some ws"
proof -
  have "decodeInt (JNum (showInt d)) = Some d" if "d \<in> set ws" for d
    using that assms by (auto simp: validateWeekdays_None intro!: parseInt_showInt)
  then show ?thesis by (simp add: decodeAll_map)
qed

lemma decode_ranges:
  "decodeSlice (decodeSlice decodeString) (JArr (map (\<lambda>r. JArr (map JStr r)) rs)) = Some rs"
  by (simp add: decodeAll_map del: decodeSlice.simps(2) add: decodeSlice.simps(2) [where f = "decodeSlice decodeString"])

lemma unmarshal_marshal:
  "validateWeekdays (Weekdays w) = None \<Longrightarrow> unmarshalWindow (marshalWindow w) = Some w"
  by (cases w) (simp add: marshalWindow_def zeroWindow_def decode_weekdays decode_ranges
      del: decodeSlice.simps)

lemma AnyContains_iff: "AnyContains zones ws at \<longleftrightarrow> (\<exists>w \<in> set ws. Contains zones w at)"
  by (induction ws) auto

lemma IsZero_Contains: "IsZero w \<Longrightarrow> \<not> Contains zones w at"
  by (auto simp: IsZero_def Contains_def split: if_splits)

lemma normalizeAll_meaning:
  "normalizeAll zones ws = Inr ns \<Longrightarrow>
     AnyContains zones ns at = AnyContains zones ws at \<and> (\<forall>n \<in> set ns. Validate zones n = None)"
proof (induction ws arbitrary: ns)
  case Nil
  then show ?case by simp
next
  case (Cons w ws)
  then have valid: "Validate zones w = None" by (auto split: option.splits)
  show ?case
  proof (cases "IsZero w")
    case True
    with Cons valid show ?thesis by (auto simp: IsZero_Contains)
  next
    case False
    obtain n where n: "normalizeFields w = Inr n" "sameWindow zones n w" "Validate zones n = None"
      using normalizeFields_same [OF valid] by blast
    with Cons.prems valid False obtain ns' where ns': "normalizeAll zones ws = Inr ns'" "ns = n # ns'"
      by (auto split: sum.splits)
    with Cons.IH n show ?thesis by (simp add: sameWindow_Contains)
  qed
qed

lemma Validate_trimmed: "Validate zones w = None \<Longrightarrow> Validate zones (w\<lparr>TZ := trimSpace (TZ w)\<rparr>) = None"
  by (simp add: trim_simps)

lemma validateList_trim:
  "\<forall>n \<in> set ns. Validate zones n = None \<Longrightarrow>
     validateList zones ns = Inr (map (\<lambda>w. w\<lparr>TZ := trimSpace (TZ w)\<rparr>) ns)"
  by (induction ns) (simp_all add: Validate_trimmed Let_def)

lemma sameWindow_trim: "sameWindow zones (w\<lparr>TZ := trimSpace (TZ w)\<rparr>) w"
  by (simp add: sameWindow_def trim_simps)

lemma AnyContains_trim:
  "AnyContains zones (map (\<lambda>w. w\<lparr>TZ := trimSpace (TZ w)\<rparr>) ns) at = AnyContains zones ns at"
  by (simp add: AnyContains_iff sameWindow_Contains [OF sameWindow_trim])

lemma unmarshal_marshal_list:
  "\<forall>n \<in> set ns. Validate zones n = None \<Longrightarrow>
     unmarshalWindows (JArr (map marshalWindow ns)) = Some ns"
  by (simp add: decodeAll_map unmarshal_marshal Validate_None)

lemma bracket_text:
  "hasPrefix s ''['' \<Longrightarrow> s \<noteq> [] \<and> s \<noteq> ''null''" "hasPrefix s ''{'' \<Longrightarrow> s \<noteq> [] \<and> s \<noteq> ''null'' \<and> \<not> hasPrefix s ''[''"
  by (auto simp: hasPrefix_def)

subsection \<open>Properties\<close>

text \<open>
  C15: an instant lies in a window exactly when its local weekday is one of the window's (or
  none is given) and its local minute of day lies, on the 24 hour circle, in one of the
  well-formed clock ranges: closer to the start, counting forward, than the end is, or
  anywhere when both ends are equal.  Ranges that cross midnight need no separate case.
\<close>

theorem Contains_spec:
  "Contains zones w at \<longleftrightarrow>
     (let l = localSecond zones w at; m = localHour l * 60 + localMinute l in
        (Weekdays w = [] \<or> isoWeekday l \<in> set (Weekdays w)) \<and>
        (\<exists>s e a b. [s, e] \<in> set (Ranges w) \<and> parseClock s = Some a \<and> parseClock e = Some b \<and>
           (a = b \<or> (m - a) mod 1440 < (b - a) mod 1440)))"
proof -
  have circle: "matchesClock (localHour l * 60 + localMinute l) a b \<longleftrightarrow>
      a = b \<or> (localHour l * 60 + localMinute l - a) mod 1440 < (b - a) mod 1440"
    if "parseClock s = Some a" "parseClock e = Some b" for l a b s e
    using that parseClock_bounds localClock_bounds [of l] by (intro matchesClock_circle) auto
  show ?thesis
    unfolding Contains_def coversClock_iff coversRanges_iff Let_def
    by (auto simp: circle) (metis circle)+
qed

text \<open>
  Storing the closed windows of a model and reading them back gives windows that contain
  the same instants: the windows dropped as unrestricted, the sorted weekdays and the ranges
  with repetitions removed change nothing.
\<close>

theorem closed_windows_roundtrip:
  assumes stored: "NormalizeWindows enc zones ws = Inr raw"
    and json: "\<And>ns. normalizeAll zones ws = Inr ns \<Longrightarrow> faithfulText tree enc (JArr (map marshalWindow ns))"
  shows "\<exists>vs. ParseList tree zones raw = Inr vs \<and> (\<forall>at. AnyContains zones vs at = AnyContains zones ws at)"
proof -
  from stored obtain ns where ns: "normalizeAll zones ws = Inr ns"
    and raw: "raw = (if ns = [] then [] else enc (JArr (map marshalWindow ns)))"
    by (auto simp: NormalizeWindows_def split: sum.splits if_splits)
  have meaning: "AnyContains zones ns at = AnyContains zones ws at" for at
    using normalizeAll_meaning [OF ns] by blast
  have valid: "\<forall>n \<in> set ns. Validate zones n = None"
    using normalizeAll_meaning [OF ns] by blast
  show ?thesis
  proof (cases "ns = []")
    case True
    with raw meaning show ?thesis by (auto simp: ParseList_def)
  next
    case False
    let ?vs = "map (\<lambda>w. w\<lparr>TZ := trimSpace (TZ w)\<rparr>) ns"
    from json [OF ns] False raw have "tree (trimSpace raw) = Some (JArr (map marshalWindow ns))"
      and "hasPrefix (trimSpace raw) ''[''"
      by (simp_all add: faithfulText_def)
    then have "ParseList tree zones raw = Inr ?vs"
      using bracket_text(1) [of "trimSpace raw"] valid
      by (simp add: ParseList_def Let_def validateList_trim unmarshal_marshal_list del: unmarshalWindows.simps)
    then show ?thesis using meaning by (auto simp: AnyContains_trim)
  qed
qed

definition exampleWindows :: "Window list" where
  "exampleWindows =
     [\<lparr>TZ = ''UTC'', Weekdays = [5, 1, 5], Ranges = [[''22:00'', ''06:00''], [''22:00'', ''06:00'']]\<rparr>,
      \<lparr>TZ = [], Weekdays = [], Ranges = []\<rparr>]"

definition exampleZones :: zonedb where
  "exampleZones name = (if name = ''UTC'' then Some (\<lambda>_. 0) else if name = DefaultTimezone then Some (\<lambda>_. 28800) else None)"

definition exampleNormal :: "Window list" where
  "exampleNormal = [\<lparr>TZ = ''UTC'', Weekdays = [1, 5], Ranges = [[''22:00'', ''06:00'']]\<rparr>]"

lemma exampleClocks: "parseClock ''22:00'' = Some 1320" "parseClock ''06:00'' = Some 360"
  by (simp_all add: parseClock_def plain_eval isDigit_def digitVal_def)

lemma exampleWindows_normal: "normalizeAll exampleZones exampleWindows = Inr exampleNormal"
  by (simp add: exampleWindows_def exampleNormal_def Validate_def exampleClocks exampleZones_def
      plain_eval IsZero_def normalizeFields_def normalizeRanges_def normalizeWeekdays_def dedupOn_def
      rangeKey_def)

theorem closed_windows_roundtrip_witness:
  "\<exists>vs. ParseList (\<lambda>_. Some (JArr (map marshalWindow exampleNormal))) exampleZones ''[{}]'' = Inr vs \<and>
     (\<forall>at. AnyContains exampleZones vs at = AnyContains exampleZones exampleWindows at)"
proof (rule closed_windows_roundtrip [where enc = "\<lambda>_. ''[{}]''"])
  show "NormalizeWindows (\<lambda>_. ''[{}]'') exampleZones exampleWindows = Inr ''[{}]''"
    by (simp add: NormalizeWindows_def exampleWindows_normal) (simp add: exampleNormal_def)
next
  fix ns assume "normalizeAll exampleZones exampleWindows = Inr ns"
  then have "ns = exampleNormal" by (simp add: exampleWindows_normal)
  moreover have "hasPrefix (trimSpace ''[{}]'') ''[''" by (simp add: plain_eval hasPrefix_def)
  ultimately show "faithfulText (\<lambda>_. Some (JArr (map marshalWindow exampleNormal))) (\<lambda>_. ''[{}]'')
      (JArr (map marshalWindow ns))"
    by (simp add: faithfulText_def)
qed

end
