(* ===== verification/Weighted_Choice.thy ===== *)
theory Weighted_Choice
  imports Prelude
begin

text \<open>
  Drawing one element of a list with a chance proportional to its weight: the loop that walks the
  list subtracting weights from a random number is written twice in the program, once over
  \<^verbatim>\<open>uint64\<close> (\<^verbatim>\<open>weightedOrder\<close> of the router) and once over \<^verbatim>\<open>int\<close> (\<^verbatim>\<open>weightedSelect\<close> of the
  channel service).  The interface states what both promise: position \<open>i\<close> is drawn for the random
  numbers from the sum of the weights before it up to that sum plus its own weight.
\<close>

definition weightBefore :: "('a \<Rightarrow> nat) \<Rightarrow> 'a list \<Rightarrow> nat \<Rightarrow> nat" where
  "weightBefore w xs i = sum_list (map w (take i xs))"

abbreviation totalWeight :: "('a \<Rightarrow> nat) \<Rightarrow> 'a list \<Rightarrow> nat" where
  "totalWeight w xs \<equiv> sum_list (map w xs)"

lemma weightBefore_simps [simp]:
  "weightBefore w xs 0 = 0" "weightBefore w [] i = 0"
  "weightBefore w (x # xs) (Suc i) = w x + weightBefore w xs i"
  by (simp_all add: weightBefore_def)

lemma weightBefore_Suc: "i < length xs \<Longrightarrow> weightBefore w xs (Suc i) = weightBefore w xs i + w (xs ! i)"
  by (simp add: weightBefore_def take_Suc_conv_app_nth)

lemma weightBefore_mono: "i \<le> j \<Longrightarrow> weightBefore w xs i \<le> weightBefore w xs j"
  unfolding weightBefore_def
  by (metis le_add1 map_append min.absorb1 min_def sum_list_append take_add le_add_diff_inverse)

lemma weightBefore_le_total: "weightBefore w xs i \<le> totalWeight w xs"
  unfolding weightBefore_def by (metis append_take_drop_id le_add1 map_append sum_list_append)

lemma weightBefore_Suc_le: "i < length xs \<Longrightarrow> weightBefore w xs i + w (xs ! i) \<le> totalWeight w xs"
  using weightBefore_le_total [of w xs "Suc i"] by (simp add: weightBefore_Suc)

locale weighted_choice =
  fixes weight :: "'a \<Rightarrow> nat" and draw :: "'a list \<Rightarrow> nat \<Rightarrow> nat" and fits :: "'a list \<Rightarrow> bool"
  assumes weight_pos: "0 < weight x"
    and chosen: "fits xs \<Longrightarrow> i < length xs \<Longrightarrow>
      weightBefore weight xs i \<le> r \<Longrightarrow> r < weightBefore weight xs i + weight (xs ! i) \<Longrightarrow> draw xs r = i"
begin

lemma position_exists:
  "r < totalWeight weight xs \<Longrightarrow>
     \<exists>i < length xs. weightBefore weight xs i \<le> r \<and> r < weightBefore weight xs i + weight (xs ! i)"
proof (induction xs arbitrary: r)
  case (Cons x xs)
  show ?case
  proof (cases "r < weight x")
    case False
    then have "r - weight x < totalWeight weight xs" using Cons.prems by simp
    then obtain i where "i < length xs" "weightBefore weight xs i \<le> r - weight x"
      "r - weight x < weightBefore weight xs i + weight (xs ! i)"
      using Cons.IH by blast
    with False show ?thesis by (intro exI [of _ "Suc i"]) auto
  qed (auto intro: exI [of _ 0])
qed simp

lemma draw_range: "fits xs \<Longrightarrow> r < totalWeight weight xs \<Longrightarrow> draw xs r < length xs"
  using position_exists chosen by metis

text \<open>Exactly \<open>weight (xs ! i)\<close> of the random numbers draw position \<open>i\<close>.\<close>

lemma share:
  assumes fits: "fits xs" and i: "i < length xs"
  shows "{r. r < totalWeight weight xs \<and> draw xs r = i} =
      {weightBefore weight xs i ..< weightBefore weight xs i + weight (xs ! i)}"
proof (intro set_eqI iffI)
  fix r assume "r \<in> {r. r < totalWeight weight xs \<and> draw xs r = i}"
  then have r: "r < totalWeight weight xs" "draw xs r = i" by auto
  then obtain j where "j < length xs" "weightBefore weight xs j \<le> r"
    "r < weightBefore weight xs j + weight (xs ! j)"
    using position_exists by blast
  with chosen [OF fits] r(2) show "r \<in> {weightBefore weight xs i ..< weightBefore weight xs i + weight (xs ! i)}"
    by auto
next
  fix r assume "r \<in> {weightBefore weight xs i ..< weightBefore weight xs i + weight (xs ! i)}"
  with chosen [OF fits i] weightBefore_Suc_le [OF i, of weight]
  show "r \<in> {r. r < totalWeight weight xs \<and> draw xs r = i}" by auto
qed

lemma share_card:
  "fits xs \<Longrightarrow> i < length xs \<Longrightarrow> card {r. r < totalWeight weight xs \<and> draw xs r = i} = weight (xs ! i)"
  by (simp add: share)

lemma share_pos: "fits xs \<Longrightarrow> i < length xs \<Longrightarrow> \<exists>r < totalWeight weight xs. draw xs r = i"
  using share [of xs i] weight_pos [of "xs ! i"] by (metis (mono_tags, lifting) atLeastLessThan_iff le_refl less_add_same_cancel1 mem_Collect_eq)

end

end
