(* ===== verification/Credentials.thy ===== *)
theory Credentials
  imports Weighted_Choice
begin

text \<open>
  Choosing the upstream key of a request (\<^verbatim>\<open>internal/logic/channel/credentials.go\<close>,
  \<^verbatim>\<open>credential_affinity.go\<close>, \<^verbatim>\<open>credential_diagnosis.go\<close>): the keys of a channel that are enabled
  and not cooling down, the health of each pair of model and key, the weighted draw, the key a
  conversation stays with, and the key an API key is bound to.

  The database and Redis are arguments (\<open>credEnv\<close>): what each query answers, None when it fails.
  The rows and cache entries the code writes itself are the state \<open>credState\<close>.  A Redis entry may
  expire at any time, which the properties allow for by not assuming that it is still there.
\<close>

subsection \<open>Data\<close>

record RouteCredential =
  rcID :: id
  rcCipher :: string

record credentialRow =
  crId :: id
  crKeyPrefix :: string
  crApiKeyCipher :: string

text \<open>The outcome of the diagnosis; the code keeps the text that each constructor stands for.\<close>

datatype skip_reason =
    NoneEnabled | AllCooling nat | SomeCooling nat nat | ReasonAvailable | ReasonUnknown
  | ComboCooling nat | AllExcluded | NoReason

datatype cred_error = CredentialUnavailableError id skip_reason | StoreError string

record comboHealth =
  score :: int
  cooling :: bool

record comboRow =
  cmcCredentialId :: id
  cmcHealthScore :: int
  cmcCooldownUntil :: "gotime option"

record credEnv =
  cachedRows :: "id \<Rightarrow> credentialRow list option"
  enabledRows :: "id \<Rightarrow> credentialRow list option"
  keyCooling :: "id \<Rightarrow> bool"
  keyCooldownTTL :: "id \<Rightarrow> duration option"
  comboRows :: "id \<Rightarrow> id \<Rightarrow> comboRow list option"
  credNow :: gotime
  redisUp :: bool
  bindingReadable :: bool
  bindingWritable :: bool

record credState =
  affinityMemory :: "string \<times> id \<times> id \<Rightarrow> id option"
  bindingTable :: "id \<times> id \<Rightarrow> id option"
  bindingCache :: "id \<times> id \<Rightarrow> id option"

definition ModelHealthMaxScore :: int where "ModelHealthMaxScore = 100"

subsection \<open>The keys of a channel\<close>

definition isExcluded :: "id set option \<Rightarrow> id \<Rightarrow> bool" where
  "isExcluded excluded i = (case excluded of None \<Rightarrow> False | Some s \<Rightarrow> i \<in> s)"

definition availableCredentials :: "credEnv \<Rightarrow> id \<Rightarrow> id set option \<Rightarrow> cred_error + credentialRow list" where
  "availableCredentials env channelID excluded =
     (case (case cachedRows env channelID of Some rows \<Rightarrow> Some rows | None \<Rightarrow> enabledRows env channelID) of
        None \<Rightarrow> Inl (StoreError ''list available channel credentials'')
      | Some rows \<Rightarrow> Inr (filter (\<lambda>r. \<not> isExcluded excluded (crId r) \<and> \<not> keyCooling env (crId r)) rows))"

definition HasAvailableCredential :: "credEnv \<Rightarrow> id \<Rightarrow> cred_error + bool" where
  "HasAvailableCredential env channelID =
     (case availableCredentials env channelID None of Inl e \<Rightarrow> Inl e | Inr rows \<Rightarrow> Inr (rows \<noteq> []))"

text \<open>Later rows of the same key replace earlier ones, as in the Go map.\<close>

definition comboHealthByCredential :: "credEnv \<Rightarrow> id \<Rightarrow> id \<Rightarrow> id \<Rightarrow> comboHealth option" where
  "comboHealthByCredential env channelID modelID =
     (if modelID = 0 then Map.empty
      else case comboRows env channelID modelID of
        None \<Rightarrow> Map.empty
      | Some rows \<Rightarrow> foldl (\<lambda>m row. m(cmcCredentialId row \<mapsto>
          \<lparr>score = cmcHealthScore row,
           cooling = (case cmcCooldownUntil row of None \<Rightarrow> False | Some t \<Rightarrow> credNow env < t)\<rparr>)) Map.empty rows)"

definition comboCooling :: "(id \<Rightarrow> comboHealth option) \<Rightarrow> credentialRow \<Rightarrow> bool" where
  "comboCooling combo row = (case combo (crId row) of None \<Rightarrow> False | Some ch \<Rightarrow> cooling ch)"

subsection \<open>The weighted draw\<close>

definition selectWeight :: "(id \<Rightarrow> comboHealth option) \<Rightarrow> credentialRow \<Rightarrow> int" where
  "selectWeight combo row =
     (let w = (case combo (crId row) of None \<Rightarrow> ModelHealthMaxScore | Some ch \<Rightarrow> score ch)
      in if w < 1 then 1 else w)"

fun selectLoop :: "int \<Rightarrow> nat \<Rightarrow> int list \<Rightarrow> nat option" where
  "selectLoop r i [] = None"
| "selectLoop r i (w # ws) = (if r - w < 0 then Some i else selectLoop (r - w) (Suc i) ws)"

text \<open>
  \<open>rnd n\<close> is what \<^verbatim>\<open>rand.IntN(n)\<close> draws.  The branch of the code for a total of 0 cannot be
  reached, as every weight is at least 1 (lemma \<open>total_select_weight_pos\<close>); it is kept.
\<close>

definition weightedIndex :: "(int \<Rightarrow> int) \<Rightarrow> credentialRow list \<Rightarrow> (id \<Rightarrow> comboHealth option) \<Rightarrow> nat" where
  "weightedIndex rnd available combo =
     (if length available = 1 then 0
      else let weights = map (selectWeight combo) available; total = sum_list weights in
        if total \<le> 0 then nat (rnd (int (length available)))
        else case selectLoop (rnd total) 0 weights of None \<Rightarrow> length available - 1 | Some i \<Rightarrow> i)"

definition weightedSelect :: "(int \<Rightarrow> int) \<Rightarrow> credentialRow list \<Rightarrow> (id \<Rightarrow> comboHealth option) \<Rightarrow> credentialRow" where
  "weightedSelect rnd available combo = available ! weightedIndex rnd available combo"

subsection \<open>The key of a conversation\<close>

definition selectConversationCredential :: "(int \<Rightarrow> int) \<Rightarrow> credentialRow list \<Rightarrow> id \<Rightarrow> id set option \<Rightarrow>
    (id \<Rightarrow> comboHealth option) \<Rightarrow> (credentialRow option \<times> bool)" where
  "selectConversationCredential rnd available affinityID excluded combo =
     (let usable = filter (\<lambda>r. \<not> isExcluded excluded (crId r)) available in
      if usable = [] then (None, False)
      else if 0 < affinityID then
        (case find (\<lambda>r. crId r = affinityID) available of
           Some _ \<Rightarrow> (case find (\<lambda>r. crId r = affinityID) usable of
               Some candidate \<Rightarrow> (Some candidate, False)
             | None \<Rightarrow> (Some (weightedSelect rnd usable combo), False))
         | None \<Rightarrow> (Some (weightedSelect rnd usable combo), True))
      else (Some (weightedSelect rnd usable combo), True))"

definition readCredentialAffinity :: "credEnv \<Rightarrow> credState \<Rightarrow> string \<times> id \<times> id \<Rightarrow> id" where
  "readCredentialAffinity env st key =
     (if redisUp env then (case affinityMemory st key of None \<Rightarrow> 0 | Some v \<Rightarrow> v) else 0)"

definition writeCredentialAffinity :: "credEnv \<Rightarrow> credState \<Rightarrow> string \<times> id \<times> id \<Rightarrow> id \<Rightarrow> credState" where
  "writeCredentialAffinity env st key credentialID =
     (if \<not> redisUp env \<or> credentialID = 0 then st
      else st\<lparr>affinityMemory := (affinityMemory st)(key \<mapsto> credentialID)\<rparr>)"

definition selectCredentialForConversation :: "credEnv \<Rightarrow> (int \<Rightarrow> int) \<Rightarrow> string \<Rightarrow> credState \<Rightarrow> id \<Rightarrow> id \<Rightarrow>
    id set option \<Rightarrow> RouteCredential option \<times> credState" where
  "selectCredentialForConversation env rnd conversation st channelID modelID excluded =
     (let conversationKey = trimSpace conversation in
      if conversationKey = [] then (None, st)
      else case availableCredentials env channelID None of
        Inl _ \<Rightarrow> (None, st)
      | Inr rows \<Rightarrow>
          (let combo = comboHealthByCredential env channelID modelID;
               available = filter (\<lambda>r. \<not> comboCooling combo r) rows in
           if available = [] then (None, st)
           else let key = (conversationKey, channelID, modelID);
                    affinityID = readCredentialAffinity env st key in
             (case selectConversationCredential rnd available affinityID excluded combo of
                (None, _) \<Rightarrow> (None, st)
              | (Some selected, persist) \<Rightarrow>
                  if crId selected = 0 then (None, st)
                  else (Some \<lparr>rcID = crId selected, rcCipher = crApiKeyCipher selected\<rparr>,
                        if persist \<and> crId selected \<noteq> affinityID
                        then writeCredentialAffinity env st key (crId selected) else st))))"

subsection \<open>Why no key is available\<close>

definition CredentialSkipReason :: "credEnv \<Rightarrow> id \<Rightarrow> skip_reason option" where
  "CredentialSkipReason env channelID =
     (case enabledRows env channelID of None \<Rightarrow> None
      | Some rows \<Rightarrow> Some
          (if rows = [] then NoneEnabled
           else let n = length (filter (\<lambda>r. case keyCooldownTTL env (crId r) of None \<Rightarrow> False | Some v \<Rightarrow> 0 < v) rows) in
             if n = length rows then AllCooling n
             else if 0 < n then SomeCooling n (length rows)
             else ReasonAvailable))"

definition credentialUnavailableReasonText :: "nat \<Rightarrow> nat \<Rightarrow> skip_reason \<Rightarrow> skip_reason" where
  "credentialUnavailableReasonText afterChannelFilters excludedCount channelReason =
     (if 0 < afterChannelFilters then ComboCooling afterChannelFilters
      else if 0 < excludedCount \<and> channelReason = ReasonAvailable then AllExcluded
      else channelReason)"

definition credentialUnavailableError :: "credEnv \<Rightarrow> id \<Rightarrow> nat \<Rightarrow> nat \<Rightarrow> cred_error" where
  "credentialUnavailableError env channelID afterChannelFilters excludedCount =
     (let channelReason =
        (if afterChannelFilters = 0 then
           (case CredentialSkipReason env channelID of None \<Rightarrow> ReasonUnknown | Some r \<Rightarrow> r)
         else NoReason)
      in CredentialUnavailableError channelID
           (credentialUnavailableReasonText afterChannelFilters excludedCount channelReason))"

subsection \<open>The key an API key is bound to\<close>

definition writeCredentialBindingCache :: "credEnv \<Rightarrow> credState \<Rightarrow> id \<Rightarrow> id \<Rightarrow> id \<Rightarrow> credState" where
  "writeCredentialBindingCache env st apiKeyID channelID credentialID =
     (if redisUp env then st\<lparr>bindingCache := (bindingCache st)((apiKeyID, channelID) \<mapsto> credentialID)\<rparr> else st)"

definition replaceCredentialBinding :: "credEnv \<Rightarrow> credState \<Rightarrow> id \<Rightarrow> id \<Rightarrow> id \<Rightarrow>
    cred_error option \<times> credState" where
  "replaceCredentialBinding env st apiKeyID channelID credentialID =
     (if \<not> bindingWritable env then (Some (StoreError ''update channel credential binding''), st)
      else let st' = (if bindingTable st (apiKeyID, channelID) = None then st
                      else st\<lparr>bindingTable := (bindingTable st)((apiKeyID, channelID) \<mapsto> credentialID)\<rparr>)
           in (None, writeCredentialBindingCache env st' apiKeyID channelID credentialID))"

definition bindFirstCredential :: "credEnv \<Rightarrow> credState \<Rightarrow> id \<Rightarrow> id \<Rightarrow> credentialRow \<Rightarrow> credentialRow list \<Rightarrow>
    (cred_error + credentialRow) \<times> credState" where
  "bindFirstCredential env st apiKeyID channelID selected available =
     (if \<not> bindingWritable env then (Inl (StoreError ''create channel credential binding''), st)
      else case bindingTable st (apiKeyID, channelID) of
        None \<Rightarrow>
          (Inr selected, writeCredentialBindingCache env
            (st\<lparr>bindingTable := (bindingTable st)((apiKeyID, channelID) \<mapsto> crId selected)\<rparr>)
            apiKeyID channelID (crId selected))
      | Some bound \<Rightarrow>
          if \<not> bindingReadable env then (Inl (StoreError ''load concurrent channel credential binding''), st)
          else let st' = writeCredentialBindingCache env st apiKeyID channelID bound in
            (case find (\<lambda>r. crId r = bound) available of
               Some credential \<Rightarrow> (Inr credential, st')
             | None \<Rightarrow> (case replaceCredentialBinding env st' apiKeyID channelID (crId selected) of
                   (Some e, st'') \<Rightarrow> (Inl e, st'')
                 | (None, st'') \<Rightarrow> (Inr selected, st''))))"

text \<open>The binding that the request starts from: of the cache, else of the table; 0 when there is none.\<close>

definition loadBinding :: "credEnv \<Rightarrow> credState \<Rightarrow> id \<Rightarrow> id \<Rightarrow> (cred_error + id) \<times> credState" where
  "loadBinding env st apiKeyID channelID =
     (case (if redisUp env then bindingCache st (apiKeyID, channelID) else None) of
        Some bound \<Rightarrow> (Inr bound, st)
      | None \<Rightarrow>
          if \<not> bindingReadable env then (Inl (StoreError ''load channel credential binding''), st)
          else let bound = (case bindingTable st (apiKeyID, channelID) of None \<Rightarrow> 0 | Some b \<Rightarrow> b)
               in (Inr bound, if 0 < bound then writeCredentialBindingCache env st apiKeyID channelID bound else st))"

text \<open>
  \<open>others\<close> is what concurrent requests do to the tables between the read of the binding and the
  write of a new one.
\<close>

definition selectBound :: "credEnv \<Rightarrow> (int \<Rightarrow> int) \<Rightarrow> (credState \<Rightarrow> credState) \<Rightarrow> credState \<Rightarrow> id \<Rightarrow> id \<Rightarrow>
    id set option \<Rightarrow> credentialRow list \<Rightarrow> (id \<Rightarrow> comboHealth option) \<Rightarrow> (cred_error + credentialRow) \<times> credState" where
  "selectBound env rnd others st apiKeyID channelID excluded available combo =
     (case (if excluded = None then loadBinding env st apiKeyID channelID else (Inr 0, st)) of
        (Inl e, st1) \<Rightarrow> (Inl e, st1)
      | (Inr bound, st1) \<Rightarrow>
          (case (if 0 < bound then find (\<lambda>r. crId r = bound) available else None) of
             Some credential \<Rightarrow> (Inr credential, st1)
           | None \<Rightarrow>
               (let selected = weightedSelect rnd available combo; st2 = others st1 in
                if excluded = None \<and> bound = 0
                then bindFirstCredential env st2 apiKeyID channelID selected available
                else (case replaceCredentialBinding env st2 apiKeyID channelID (crId selected) of
                        (Some e, st3) \<Rightarrow> (Inl e, st3)
                      | (None, st3) \<Rightarrow> (Inr selected, st3)))))"

definition SelectCredential :: "credEnv \<Rightarrow> (int \<Rightarrow> int) \<Rightarrow> (credState \<Rightarrow> credState) \<Rightarrow> string \<Rightarrow> credState \<Rightarrow>
    id \<Rightarrow> id \<Rightarrow> id \<Rightarrow> id set option \<Rightarrow> (cred_error + RouteCredential) \<times> credState" where
  "SelectCredential env rnd others conversation st apiKeyID channelID modelID excluded =
     (case selectCredentialForConversation env rnd conversation st channelID modelID excluded of
        (Some credential, st') \<Rightarrow> (Inr credential, st')
      | (None, st') \<Rightarrow>
          (case availableCredentials env channelID excluded of
             Inl e \<Rightarrow> (Inl e, st')
           | Inr credentials \<Rightarrow>
               (let combo = comboHealthByCredential env channelID modelID;
                    available = filter (\<lambda>r. \<not> comboCooling combo r) credentials in
                if available = [] then
                  (Inl (credentialUnavailableError env channelID (length credentials)
                     (case excluded of None \<Rightarrow> 0 | Some s \<Rightarrow> card s)), st')
                else (case selectBound env rnd others st' apiKeyID channelID excluded available combo of
                        (Inl e, st'') \<Rightarrow> (Inl e, st'')
                      | (Inr selected, st'') \<Rightarrow>
                          (Inr \<lparr>rcID = crId selected, rcCipher = crApiKeyCipher selected\<rparr>, st'')))))"

subsection \<open>The draw is fair\<close>

lemma selectWeight_pos: "0 < selectWeight combo row"
  by (simp add: selectWeight_def Let_def)

lemma total_select_weight_pos: "xs \<noteq> [] \<Longrightarrow> 0 < sum_list (map (selectWeight combo) xs)"
proof (induction xs)
  case (Cons x xs)
  then show ?case using selectWeight_pos [of combo x] by (cases "xs = []") auto
qed simp

lemma selectLoop_range: "selectLoop r k ws = Some i \<Longrightarrow> k \<le> i \<and> i < k + length ws"
  by (induction r k ws rule: selectLoop.induct) (auto split: if_splits)

lemma weightedIndex_range: "xs \<noteq> [] \<Longrightarrow> weightedIndex rnd xs combo < length xs"
  using selectLoop_range [of "rnd (sum_list (map (selectWeight combo) xs))" 0 "map (selectWeight combo) xs"]
    total_select_weight_pos [of xs combo]
  by (auto simp: weightedIndex_def Let_def split: option.splits)

lemma weightedSelect_in: "xs \<noteq> [] \<Longrightarrow> weightedSelect rnd xs combo \<in> set xs"
  by (simp add: weightedSelect_def weightedIndex_range)

abbreviation rowWeight :: "(id \<Rightarrow> comboHealth option) \<Rightarrow> credentialRow \<Rightarrow> nat" where
  "rowWeight combo row \<equiv> nat (selectWeight combo row)"

lemma selectLoop_chosen:
  "i < length xs \<Longrightarrow> int (weightBefore (rowWeight combo) xs i) \<le> r \<Longrightarrow>
     r < int (weightBefore (rowWeight combo) xs i) + selectWeight combo (xs ! i) \<Longrightarrow>
     selectLoop r k (map (selectWeight combo) xs) = Some (k + i)"
proof (induction xs arbitrary: i r k)
  case (Cons x xs)
  show ?case
  proof (cases i)
    case 0
    with Cons.prems show ?thesis by simp
  next
    case (Suc j)
    have "selectLoop (r - selectWeight combo x) (Suc k) (map (selectWeight combo) xs) = Some (Suc k + j)"
      using Cons.prems Suc selectWeight_pos [of combo x] by (intro Cons.IH) auto
    moreover have "\<not> r - selectWeight combo x < 0"
      using Cons.prems Suc selectWeight_pos [of combo x] by auto
    ultimately show ?thesis using Suc by simp
  qed
qed simp

lemma nat_sum_list: "int (totalWeight (rowWeight combo) xs) = sum_list (map (selectWeight combo) xs)"
  using selectWeight_pos by (induction xs) (auto simp: less_imp_le)

interpretation keyDraw: weighted_choice "rowWeight combo" "\<lambda>xs r. weightedIndex (\<lambda>_. int r) xs combo" "\<lambda>_. True"
  for combo
proof (unfold_locales, goal_cases)
  case (1 x)
  then show ?case using selectWeight_pos [of combo x] by simp
next
  case (2 xs i r)
  have "0 < sum_list (map (selectWeight combo) xs)" using 2 by (intro total_select_weight_pos) auto
  moreover have "selectLoop (int r) 0 (map (selectWeight combo) xs) = Some (0 + i)"
    using 2 selectWeight_pos [of combo "xs ! i"] by (intro selectLoop_chosen) auto
  ultimately show ?case using 2 by (auto simp: weightedIndex_def)
qed

subsection \<open>Which key is selected\<close>

text \<open>The rows the selection starts from, and the ones it may choose.\<close>

definition poolOf :: "credEnv \<Rightarrow> id \<Rightarrow> credentialRow list" where
  "poolOf env channelID =
     (case cachedRows env channelID of Some rows \<Rightarrow> rows
      | None \<Rightarrow> (case enabledRows env channelID of Some rows \<Rightarrow> rows | None \<Rightarrow> []))"

definition usableKey :: "credEnv \<Rightarrow> id \<Rightarrow> id \<Rightarrow> id set option \<Rightarrow> credentialRow \<Rightarrow> bool" where
  "usableKey env channelID modelID excluded row \<longleftrightarrow>
     row \<in> set (poolOf env channelID) \<and> \<not> isExcluded excluded (crId row) \<and> \<not> keyCooling env (crId row) \<and>
     \<not> comboCooling (comboHealthByCredential env channelID modelID) row"

lemma isExcluded_None [simp]: "\<not> isExcluded None i"
  by (simp add: isExcluded_def)

lemma availableCredentials_Inr:
  "availableCredentials env ch ex = Inr rows \<Longrightarrow>
     rows = filter (\<lambda>r. \<not> isExcluded ex (crId r) \<and> \<not> keyCooling env (crId r)) (poolOf env ch)"
  by (auto simp: availableCredentials_def poolOf_def split: option.splits)

lemma availableCredentials_Inl:
  "availableCredentials env ch ex = Inl e \<Longrightarrow> poolOf env ch = []"
  by (auto simp: availableCredentials_def poolOf_def split: option.splits)

lemma find_row: "find P xs = Some r \<Longrightarrow> r \<in> set xs \<and> P r"
  by (auto simp: find_Some_iff)

lemma find_row_exists: "row \<in> set xs \<Longrightarrow> crId row = i \<Longrightarrow> \<exists>r. find (\<lambda>r. crId r = i) xs = Some r \<and> crId r = i"
  by (induction xs) auto

lemma selectConversation_total:
  "filter (\<lambda>r. \<not> isExcluded ex (crId r)) available \<noteq> [] \<Longrightarrow>
     \<exists>r p. selectConversationCredential rnd available aff ex combo = (Some r, p)"
  unfolding selectConversationCredential_def Let_def by (auto split: option.split)

lemma selectConversation_usable:
  "selectConversationCredential rnd available aff ex combo = (Some row, p) \<Longrightarrow>
     row \<in> set available \<and> \<not> isExcluded ex (crId row)"
  using weightedSelect_in [of "filter (\<lambda>r. \<not> isExcluded ex (crId r)) available" rnd combo]
  by (auto simp: selectConversationCredential_def Let_def dest: find_row split: if_splits option.splits)

lemma conversation_usable:
  assumes "selectCredentialForConversation env rnd conv st ch m ex = (Some c, st')"
  obtains row where "usableKey env ch m ex row" "c = \<lparr>rcID = crId row, rcCipher = crApiKeyCipher row\<rparr>"
proof -
  from assms obtain rows row p where
    rows: "availableCredentials env ch None = Inr rows"
    and sel: "selectConversationCredential rnd (filter (\<lambda>r. \<not> comboCooling (comboHealthByCredential env ch m) r) rows)
        (readCredentialAffinity env st (trimSpace conv, ch, m)) ex (comboHealthByCredential env ch m) = (Some row, p)"
    and c: "c = \<lparr>rcID = crId row, rcCipher = crApiKeyCipher row\<rparr>"
    by (auto simp: selectCredentialForConversation_def Let_def split: if_splits sum.splits prod.splits option.splits)
  from selectConversation_usable [OF sel] availableCredentials_Inr [OF rows]
  have "usableKey env ch m ex row" by (auto simp: usableKey_def)
  then show ?thesis using c by (rule that)
qed

lemma bindFirst_in:
  "bindFirstCredential env st a ch sel available = (Inr row, st') \<Longrightarrow> sel \<in> set available \<Longrightarrow> row \<in> set available"
  by (auto simp: bindFirstCredential_def Let_def dest: find_row split: if_splits option.splits prod.splits)

lemma selectBound_in:
  assumes "selectBound env rnd others st a ch ex available combo = (Inr row, st')" "available \<noteq> []"
  shows "row \<in> set available"
proof -
  have "weightedSelect rnd available combo \<in> set available" using assms(2) by (rule weightedSelect_in)
  with assms(1) show ?thesis
    by (auto simp: selectBound_def Let_def dest: find_row bindFirst_in
        split: if_splits option.splits prod.splits sum.splits)
qed

lemma SelectCredential_usable:
  assumes "SelectCredential env rnd others conv st apiKey ch m ex = (Inr c, st')"
  shows "\<exists>row. usableKey env ch m ex row \<and> c = \<lparr>rcID = crId row, rcCipher = crApiKeyCipher row\<rparr>"
proof (cases "selectCredentialForConversation env rnd conv st ch m ex")
  case (Pair picked st1)
  show ?thesis
  proof (cases picked)
    case (Some c')
    with Pair assms have "selectCredentialForConversation env rnd conv st ch m ex = (Some c, st')"
      by (simp add: SelectCredential_def)
    then show ?thesis using conversation_usable by metis
  next
    case None
    let ?combo = "comboHealthByCredential env ch m"
    from None Pair assms obtain rows row where
      rows: "availableCredentials env ch ex = Inr rows"
      and some: "filter (\<lambda>r. \<not> comboCooling ?combo r) rows \<noteq> []"
      and bound: "selectBound env rnd others st1 apiKey ch ex (filter (\<lambda>r. \<not> comboCooling ?combo r) rows) ?combo = (Inr row, st')"
      and c: "c = \<lparr>rcID = crId row, rcCipher = crApiKeyCipher row\<rparr>"
      by (auto simp: SelectCredential_def Let_def split: if_splits sum.splits prod.splits)
    from selectBound_in [OF bound some] availableCredentials_Inr [OF rows]
    have "usableKey env ch m ex row" by (auto simp: usableKey_def)
    with c show ?thesis by blast
  qed
qed


definition exampleRows :: "credentialRow list" where
  "exampleRows = [\<lparr>crId = 4, crKeyPrefix = [], crApiKeyCipher = ''a''\<rparr>, \<lparr>crId = 5, crKeyPrefix = [], crApiKeyCipher = ''b''\<rparr>,
     \<lparr>crId = 6, crKeyPrefix = [], crApiKeyCipher = ''c''\<rparr>]"

definition exampleCredEnv :: credEnv where
  "exampleCredEnv = \<lparr>cachedRows = \<lambda>_. None, enabledRows = \<lambda>_. Some exampleRows, keyCooling = \<lambda>i. i = 4,
     keyCooldownTTL = \<lambda>_. None, comboRows = \<lambda>_ _. Some [], credNow = 0, redisUp = True,
     bindingReadable = True, bindingWritable = True\<rparr>"

definition emptyCredState :: credState where
  "emptyCredState = \<lparr>affinityMemory = Map.empty, bindingTable = Map.empty, bindingCache = Map.empty\<rparr>"

lemma example_available:
  "availableCredentials exampleCredEnv ch ex = Inr (filter (\<lambda>r. \<not> isExcluded ex (crId r) \<and> crId r \<noteq> 4) exampleRows)"
  "comboHealthByCredential exampleCredEnv ch m = Map.empty"
  by (simp_all add: availableCredentials_def exampleCredEnv_def comboHealthByCredential_def)


text \<open>
  among several usable keys, of the random numbers below the total weight exactly as many
  draw a key as its health score on this model says (at least one, and 100 when the pair has no
  score): the draw is fair, a low score makes a key rare, and none is starved.
\<close>

theorem key_draw_is_fair:
  assumes "i < length available"
  shows "card {r. r < totalWeight (rowWeight combo) available \<and> weightedIndex (\<lambda>_. int r) available combo = i}
      = nat (max 1 (case combo (crId (available ! i)) of None \<Rightarrow> ModelHealthMaxScore | Some ch \<Rightarrow> score ch))"
  using keyDraw.share_card [where xs = available and i = i and combo = combo] assms
  by (auto simp: selectWeight_def Let_def max_def)

theorem key_draw_is_fair_witness:
  "card {r. r < totalWeight (rowWeight [5 \<mapsto> \<lparr>score = 0, cooling = False\<rparr>]) exampleRows \<and>
       weightedIndex (\<lambda>_. int r) exampleRows [5 \<mapsto> \<lparr>score = 0, cooling = False\<rparr>] = 2}
     = nat (max 1 (case [5 \<mapsto> \<lparr>score = 0, cooling = False\<rparr>] (crId (exampleRows ! 2)) of
         None \<Rightarrow> ModelHealthMaxScore | Some ch \<Rightarrow> score ch))"
  by (rule key_draw_is_fair) (simp add: exampleRows_def)

subsection \<open>A conversation stays with its key\<close>

lemma conversation_kept:
  assumes conv: "trimSpace conv \<noteq> []" and up: "redisUp env"
    and memory: "affinityMemory st (trimSpace conv, ch, m) = Some (crId row)"
    and row: "usableKey env ch m ex row" "crId row \<noteq> 0"
  shows "\<exists>c. SelectCredential env rnd others conv st apiKey ch m ex = (Inr c, st) \<and> rcID c = crId row"
proof -
  let ?combo = "comboHealthByCredential env ch m"
  have "poolOf env ch \<noteq> []" using row by (auto simp: usableKey_def)
  then obtain rows where rows: "availableCredentials env ch None = Inr rows"
    using availableCredentials_Inl by (cases "availableCredentials env ch None") auto
  let ?available = "filter (\<lambda>r. \<not> comboCooling ?combo r) rows"
  let ?usable = "filter (\<lambda>r. \<not> isExcluded ex (crId r)) ?available"
  have member: "row \<in> set ?usable" using row availableCredentials_Inr [OF rows] by (auto simp: usableKey_def)
  then obtain r1 where r1: "find (\<lambda>r. crId r = crId row) ?usable = Some r1" and same: "crId r1 = crId row"
    using find_row_exists [OF _ refl] by blast
  have avail: "row \<in> set ?available" using member by simp
  then obtain r2 where r2: "find (\<lambda>r. crId r = crId row) ?available = Some r2"
    using find_row_exists [OF _ refl] by blast
  have nonempty: "?usable \<noteq> []" "?available \<noteq> []"
    using member avail by (metis empty_iff empty_set)+
  have sel: "selectConversationCredential rnd ?available (crId row) ex ?combo = (Some r1, False)"
    using nonempty r1 r2 row(2) by (simp add: selectConversationCredential_def Let_def del: filter_filter)
  have aff: "readCredentialAffinity env st (trimSpace conv, ch, m) = crId row"
    using up memory by (simp add: readCredentialAffinity_def)
  have "selectCredentialForConversation env rnd conv st ch m ex =
      (Some \<lparr>rcID = crId r1, rcCipher = crApiKeyCipher r1\<rparr>, st)"
    unfolding selectCredentialForConversation_def Let_def rows aff
    using conv nonempty(2) sel same row(2) by (simp del: filter_filter)
  with same show ?thesis by (simp add: SelectCredential_def)
qed

lemma conversation_remembers:
  assumes sel: "selectCredentialForConversation env rnd conv st ch m ex = (Some c, st')"
    and up: "redisUp env" and empty: "affinityMemory st (trimSpace conv, ch, m) = None"
  shows "affinityMemory st' (trimSpace conv, ch, m) = Some (rcID c) \<and> rcID c \<noteq> 0"
  using sel empty up
  by (auto simp: selectCredentialForConversation_def Let_def readCredentialAffinity_def
      writeCredentialAffinity_def selectConversationCredential_def split: if_splits sum.splits)

text \<open>When the conversation path gives no key, neither does the rest of the selection.\<close>

lemma no_conversation_no_key:
  assumes none: "selectCredentialForConversation env rnd conv st ch m ex = (None, st1)"
    and conv: "trimSpace conv \<noteq> []" and ids: "\<forall>r \<in> set (poolOf env ch). crId r \<noteq> 0"
  shows "\<not> usableKey env ch m ex row"
proof
  assume row: "usableKey env ch m ex row"
  let ?combo = "comboHealthByCredential env ch m"
  have "poolOf env ch \<noteq> []" using row by (auto simp: usableKey_def)
  then obtain rows where rows: "availableCredentials env ch None = Inr rows"
    using availableCredentials_Inl by (cases "availableCredentials env ch None") auto
  let ?available = "filter (\<lambda>r. \<not> comboCooling ?combo r) rows"
  let ?sel = "selectConversationCredential rnd ?available (readCredentialAffinity env st (trimSpace conv, ch, m)) ex ?combo"
  have member: "row \<in> set (filter (\<lambda>r. \<not> isExcluded ex (crId r)) ?available)"
    using row availableCredentials_Inr [OF rows] by (auto simp: usableKey_def)
  moreover from this have "row \<in> set ?available" by simp
  ultimately have nonempty: "filter (\<lambda>r. \<not> isExcluded ex (crId r)) ?available \<noteq> []" "?available \<noteq> []"
    by (metis empty_iff empty_set)+
  then obtain r p where sel: "?sel = (Some r, p)" using selectConversation_total by blast
  from selectConversation_usable [OF this] have "r \<in> set ?available" by simp
  then have "crId r \<noteq> 0" using ids availableCredentials_Inr [OF rows] by auto
  with none conv rows sel nonempty(2) show False
    by (simp add: selectCredentialForConversation_def Let_def del: filter_filter)
qed

text \<open>
  a conversation without a remembered key remembers the key it is given, and as long as that
  key stays usable every later request of the conversation on the same channel and model gets it
  again, whatever the random numbers, the binding of the API key and other requests do, and the
  memory is left as it is.
\<close>

theorem conversation_keeps_key:
  assumes first: "SelectCredential env rnd others conv st apiKey ch m ex = (Inr c, st')"
    and conv: "trimSpace conv \<noteq> []" and up: "redisUp env" "redisUp env'"
    and fresh: "affinityMemory st (trimSpace conv, ch, m) = None"
    and ids: "\<forall>r \<in> set (poolOf env ch). crId r \<noteq> 0"
    and still: "usableKey env' ch m ex' row" "crId row = rcID c"
    and kept: "affinityMemory st'' = affinityMemory st'"
  shows "\<exists>c'. SelectCredential env' rnd' others' conv st'' apiKey' ch m ex' = (Inr c', st'') \<and> rcID c' = rcID c"
proof -
  obtain picked st1 where conv_sel: "selectCredentialForConversation env rnd conv st ch m ex = (picked, st1)"
    by fastforce
  have "picked \<noteq> None"
  proof
    assume "picked = None"
    with no_conversation_no_key conv_sel conv ids have "\<not> usableKey env ch m ex r" for r by blast
    then show False using SelectCredential_usable [OF first] by blast
  qed
  with conv_sel first have "selectCredentialForConversation env rnd conv st ch m ex = (Some c, st')"
    by (auto simp: SelectCredential_def)
  from conversation_remembers [OF this up(1) fresh]
  have "affinityMemory st'' (trimSpace conv, ch, m) = Some (crId row)" "crId row \<noteq> 0"
    using still(2) kept by auto
  from conversation_kept [OF conv up(2) this(1) still(1) this(2), of rnd' others' apiKey'] still(2)
  show ?thesis by simp
qed

theorem conversation_keeps_key_witness:
  "\<exists>c'. SelectCredential exampleCredEnv (\<lambda>_. 0) id ''s''
       (emptyCredState\<lparr>affinityMemory := [(''s'', 1, 2) \<mapsto> 6]\<rparr>) 8 1 2 None =
       (Inr c', emptyCredState\<lparr>affinityMemory := [(''s'', 1, 2) \<mapsto> 6]\<rparr>) \<and> rcID c' = rcID \<lparr>rcID = 6, rcCipher = ''c''\<rparr>"
proof (rule conversation_keeps_key)
  show "SelectCredential exampleCredEnv (\<lambda>_. 150) id ''s'' emptyCredState 9 1 2 None =
      (Inr \<lparr>rcID = 6, rcCipher = ''c''\<rparr>, emptyCredState\<lparr>affinityMemory := [(''s'', 1, 2) \<mapsto> 6]\<rparr>)"
    by (simp add: SelectCredential_def selectCredentialForConversation_def example_available plain_eval
        exampleRows_def comboCooling_def selectConversationCredential_def weightedSelect_def weightedIndex_def
        selectWeight_def ModelHealthMaxScore_def readCredentialAffinity_def writeCredentialAffinity_def emptyCredState_def)
      (simp add: exampleCredEnv_def)
  show "trimSpace ''s'' \<noteq> []" by (simp add: plain_eval)
  show "redisUp exampleCredEnv" "redisUp exampleCredEnv" by (simp_all add: exampleCredEnv_def)
  show "affinityMemory emptyCredState (trimSpace ''s'', 1, 2) = None" by (simp add: emptyCredState_def)
  show "\<forall>r \<in> set (poolOf exampleCredEnv 1). crId r \<noteq> 0"
    by (simp add: poolOf_def exampleCredEnv_def exampleRows_def)
  show "usableKey exampleCredEnv 1 2 None \<lparr>crId = 6, crKeyPrefix = [], crApiKeyCipher = ''c''\<rparr>"
    unfolding usableKey_def example_available
    by (simp add: poolOf_def exampleCredEnv_def exampleRows_def comboCooling_def)
qed simp_all

end
