(* ===== verification/Channel_Config.thy ===== *)
theory Channel_Config
  imports Json
begin

text \<open>
  The advanced configuration of a channel (\<^verbatim>\<open>internal/logic/channel/advanced.go\<close>): its defaults,
  how the stored text is read (deprecated fields are dropped, any other unknown field is an
  error), the checks on the result, and the list of upstream addresses.
\<close>

record AdvancedConfig =
  BackupBaseURLs :: "string list"
  ForceOpenAIFormat :: bool
  PassthroughRequestBody :: bool
  PassthroughPromptCache :: bool
  SkipAsyncPollingDelay :: bool
  SystemPrompt :: string
  AppendSystemPrompt :: bool
  AllowServiceTier :: bool
  BlockStore :: bool
  AllowSafetyIdentifier :: bool
  AllowInclude :: bool
  AllowInferenceGeo :: bool
  ConcurrencyLimit :: int
  ProtocolConversion :: "bool option"
  PromptCacheMode :: string

datatype config_error = ConfigDecode | SystemPromptTooLong | PromptCacheModeInvalid | ConcurrencyLimitInvalid

definition maxSystemPromptLength :: nat where "maxSystemPromptLength = 16384"
definition maxConcurrencyLimit :: int where "maxConcurrencyLimit = 1024"

definition DefaultAdvancedConfig :: AdvancedConfig where
  "DefaultAdvancedConfig = \<lparr>BackupBaseURLs = [], ForceOpenAIFormat = False, PassthroughRequestBody = False,
     PassthroughPromptCache = False, SkipAsyncPollingDelay = False, SystemPrompt = [], AppendSystemPrompt = False,
     AllowServiceTier = False, BlockStore = True, AllowSafetyIdentifier = False, AllowInclude = False,
     AllowInferenceGeo = False, ConcurrencyLimit = 0, ProtocolConversion = None, PromptCacheMode = []\<rparr>"

text \<open>One field of the document, read into its Go type; None is a decoding error.\<close>

definition boolField :: "json \<Rightarrow> bool \<Rightarrow> bool option" where
  "boolField v old = (case v of JNull \<Rightarrow> Some old | JBool b \<Rightarrow> Some b | _ \<Rightarrow> None)"

definition stringField :: "json \<Rightarrow> string \<Rightarrow> string option" where
  "stringField v old = (case v of JNull \<Rightarrow> Some old | JStr s \<Rightarrow> Some s | _ \<Rightarrow> None)"

definition intField :: "json \<Rightarrow> int \<Rightarrow> int option" where
  "intField v old = (case v of JNull \<Rightarrow> Some old | JNum t \<Rightarrow> parseInt t | _ \<Rightarrow> None)"

definition setConfigField :: "string \<Rightarrow> json \<Rightarrow> AdvancedConfig \<Rightarrow> AdvancedConfig option" where
  "setConfigField key v c =
     (let k = toLower key; bool = (\<lambda>old put. map_option put (boolField v old)) in
      if k = ''backupbaseurls'' then map_option (\<lambda>u. c\<lparr>BackupBaseURLs := u\<rparr>) (decodeSlice decodeString v)
      else if k = ''forceopenaiformat'' then bool (ForceOpenAIFormat c) (\<lambda>b. c\<lparr>ForceOpenAIFormat := b\<rparr>)
      else if k = ''passthroughrequestbody'' then bool (PassthroughRequestBody c) (\<lambda>b. c\<lparr>PassthroughRequestBody := b\<rparr>)
      else if k = ''passthroughpromptcache'' then bool (PassthroughPromptCache c) (\<lambda>b. c\<lparr>PassthroughPromptCache := b\<rparr>)
      else if k = ''skipasyncpollingdelay'' then bool (SkipAsyncPollingDelay c) (\<lambda>b. c\<lparr>SkipAsyncPollingDelay := b\<rparr>)
      else if k = ''systemprompt'' then map_option (\<lambda>s. c\<lparr>SystemPrompt := s\<rparr>) (stringField v (SystemPrompt c))
      else if k = ''appendsystemprompt'' then bool (AppendSystemPrompt c) (\<lambda>b. c\<lparr>AppendSystemPrompt := b\<rparr>)
      else if k = ''allowservicetier'' then bool (AllowServiceTier c) (\<lambda>b. c\<lparr>AllowServiceTier := b\<rparr>)
      else if k = ''blockstore'' then bool (BlockStore c) (\<lambda>b. c\<lparr>BlockStore := b\<rparr>)
      else if k = ''allowsafetyidentifier'' then bool (AllowSafetyIdentifier c) (\<lambda>b. c\<lparr>AllowSafetyIdentifier := b\<rparr>)
      else if k = ''allowinclude'' then bool (AllowInclude c) (\<lambda>b. c\<lparr>AllowInclude := b\<rparr>)
      else if k = ''allowinferencegeo'' then bool (AllowInferenceGeo c) (\<lambda>b. c\<lparr>AllowInferenceGeo := b\<rparr>)
      else if k = ''concurrencylimit'' then map_option (\<lambda>n. c\<lparr>ConcurrencyLimit := n\<rparr>) (intField v (ConcurrencyLimit c))
      else if k = ''protocolconversion'' then
        (case v of JNull \<Rightarrow> Some (c\<lparr>ProtocolConversion := None\<rparr>)
         | JBool b \<Rightarrow> Some (c\<lparr>ProtocolConversion := Some b\<rparr>) | _ \<Rightarrow> None)
      else if k = ''promptcachemode'' then map_option (\<lambda>s. c\<lparr>PromptCacheMode := s\<rparr>) (stringField v (PromptCacheMode c))
      else None)"

fun setConfigFields :: "(string \<times> json) list \<Rightarrow> AdvancedConfig \<Rightarrow> AdvancedConfig option" where
  "setConfigFields [] c = Some c"
| "setConfigFields ((k, v) # kvs) c =
     (case setConfigField k v c of None \<Rightarrow> None | Some c' \<Rightarrow> setConfigFields kvs c')"

text \<open>
  Decoding into a Go map keeps the last value of a repeated key, and encoding a map writes its
  keys in order.
\<close>

definition rawFields :: "(string \<times> json) list \<Rightarrow> (string \<times> json) list" where
  "rawFields kvs = sort_key fst (dedupOn fst (rev kvs))"

definition deprecatedFields :: "string list" where
  "deprecatedFields = [''enableProtocolConversion'', ''reasoningToContent'']"

text \<open>\<open>tree\<close> reads the first document of the text, as \<^verbatim>\<open>json.Decoder\<close> does.\<close>

definition ParseAdvancedConfig :: "(string \<Rightarrow> json option) \<Rightarrow> string \<Rightarrow> config_error + AdvancedConfig" where
  "ParseAdvancedConfig tree raw =
     (if trimSpace raw = [] \<or> trimSpace raw = ''null'' then Inr DefaultAdvancedConfig
      else case (case tree raw of Some JNull \<Rightarrow> Some [] | Some (JObj kvs) \<Rightarrow> Some kvs | _ \<Rightarrow> None) of
        None \<Rightarrow> Inl ConfigDecode
      | Some kvs \<Rightarrow>
          (case setConfigFields (filter (\<lambda>kv. fst kv \<notin> set deprecatedFields) (rawFields kvs)) DefaultAdvancedConfig of
             None \<Rightarrow> Inl ConfigDecode
           | Some parsed \<Rightarrow>
               (let config = parsed\<lparr>SystemPrompt := trimSpace (SystemPrompt parsed)\<rparr> in
                if maxSystemPromptLength < length (SystemPrompt config) then Inl SystemPromptTooLong
                else let config = config\<lparr>PromptCacheMode := trimSpace (PromptCacheMode config)\<rparr> in
                  if PromptCacheMode config \<notin> set [[], ''stable'', ''off'', ''passthrough''] then Inl PromptCacheModeInvalid
                  else if ConcurrencyLimit config < 0 \<or> maxConcurrencyLimit < ConcurrencyLimit config
                  then Inl ConcurrencyLimitInvalid
                  else Inr config)))"

definition trimRightSlash :: "string \<Rightarrow> string" where
  "trimRightSlash s = rev (dropWhile (\<lambda>c. c = CHR ''/'') (rev s))"

definition UpstreamBaseURLs :: "string list \<Rightarrow> string \<Rightarrow> string list" where
  "UpstreamBaseURLs backups primary =
     dedupOn (\<lambda>u. u) (filter (\<lambda>u. u \<noteq> []) (map (\<lambda>v. trimRightSlash (trimSpace v)) (primary # backups)))"

lemma UpstreamBaseURLs_distinct: "distinct (UpstreamBaseURLs backups primary)"
  unfolding UpstreamBaseURLs_def by (metis dedupOn_distinct map_idI)

lemma UpstreamBaseURLs_length: "length (UpstreamBaseURLs backups primary) \<le> Suc (length backups)"
proof -
  have "length (dedupOn f xs) \<le> length xs" for f :: "string \<Rightarrow> string" and xs
    using size_mset_mono [OF dedupOn_mset [of f xs]] by simp
  then show ?thesis
    unfolding UpstreamBaseURLs_def by (metis (no_types, lifting) le_trans length_Cons length_filter_le length_map)
qed

lemma UpstreamBaseURLs_set:
  "set (UpstreamBaseURLs backups primary) = (\<lambda>v. trimRightSlash (trimSpace v)) ` set (primary # backups) - {[]}"
  by (auto simp: UpstreamBaseURLs_def dedup_simps)

lemma dedupGo_filter_keys:
  "filter (\<lambda>x. P (f x)) (dedupGo f seen xs) = dedupGo f seen (filter (\<lambda>x. P (f x)) xs)"
proof (induction f seen xs rule: dedupGo.induct)
  case (2 f seen x xs)
  have other: "dedupGo f (f x # seen) (filter (\<lambda>x. P (f x)) xs) = dedupGo f seen (filter (\<lambda>x. P (f x)) xs)"
    if "\<not> P (f x)"
  proof -
    have "dedupGo f (k # s) ys = dedupGo f s ys" if "k \<notin> f ` set ys" for k s and ys :: "'a list"
      using that
    proof (induction ys arbitrary: s)
      case (Cons y ys)
      have "dedupGo f (f y # k # s) ys = dedupGo f (k # f y # s) ys" for s
      proof -
        have "set a = set b \<Longrightarrow> dedupGo f a zs = dedupGo f b zs" for a b and zs :: "'a list"
        proof (induction zs arbitrary: a b)
          case (Cons z zs)
          from Cons.IH [of "f z # a" "f z # b"] Cons.IH [of a b] Cons.prems show ?case by simp
        qed simp
        then show ?thesis by (metis insert_commute list.simps(15))
      qed
      with Cons show ?case by auto
    qed simp
    with that show ?thesis by force
  qed
  with 2 show ?case by auto
qed simp

lemma rawFields_filter: "filter (\<lambda>kv. P (fst kv)) (rawFields kvs) = rawFields (filter (\<lambda>kv. P (fst kv)) kvs)"
  by (simp add: rawFields_def filter_sort dedupOn_def dedupGo_filter_keys rev_filter)

text \<open>
  A configuration that is accepted obeys the limits of the program (concurrency between 0 and
  1024, a system prompt of at most 16 KiB without blanks around it, a known cache mode), and the
  deprecated switches have no effect on what is read: the same document without them gives the
  same configuration.
\<close>

theorem advanced_config_checked:
  assumes parsed: "ParseAdvancedConfig tree raw = Inr config"
    and doc: "tree raw = Some (JObj kvs)" "trimSpace raw \<noteq> []" "trimSpace raw \<noteq> ''null''"
    and doc': "tree raw' = Some (JObj (filter (\<lambda>kv. fst kv \<notin> set deprecatedFields) kvs))"
      "trimSpace raw' \<noteq> []" "trimSpace raw' \<noteq> ''null''"
  shows "0 \<le> ConcurrencyLimit config \<and> ConcurrencyLimit config \<le> 1024 \<and>
    length (SystemPrompt config) \<le> 16384 \<and> trimSpace (SystemPrompt config) = SystemPrompt config \<and>
    PromptCacheMode config \<in> {[], ''stable'', ''off'', ''passthrough''} \<and>
    ParseAdvancedConfig tree raw' = Inr config"
proof -
  let ?live = "\<lambda>kv :: string \<times> json. fst kv \<notin> set deprecatedFields"
  have "filter ?live (rawFields (filter ?live kvs)) = filter ?live (rawFields kvs)"
    using rawFields_filter [of "\<lambda>k. k \<notin> set deprecatedFields" kvs, symmetric] by simp
  then have "ParseAdvancedConfig tree raw' = ParseAdvancedConfig tree raw"
    using doc doc' by (simp add: ParseAdvancedConfig_def)
  moreover have "0 \<le> ConcurrencyLimit config \<and> ConcurrencyLimit config \<le> 1024 \<and>
    length (SystemPrompt config) \<le> 16384 \<and> trimSpace (SystemPrompt config) = SystemPrompt config \<and>
    PromptCacheMode config \<in> {[], ''stable'', ''off'', ''passthrough''}"
    using parsed doc
    by (auto simp: ParseAdvancedConfig_def Let_def maxSystemPromptLength_def maxConcurrencyLimit_def
        split: option.splits if_splits)
  ultimately show ?thesis using parsed by simp
qed

theorem advanced_config_checked_witness:
  "let config = DefaultAdvancedConfig\<lparr>ConcurrencyLimit := 15\<rparr>;
       tree = (\<lambda>raw. if raw = ''{x}'' then Some (JObj [(''concurrencyLimit'', JNum ''15''), (''reasoningToContent'', JBool True)])
                else Some (JObj [(''concurrencyLimit'', JNum ''15'')])) in
   0 \<le> ConcurrencyLimit config \<and> ConcurrencyLimit config \<le> 1024 \<and>
    length (SystemPrompt config) \<le> 16384 \<and> trimSpace (SystemPrompt config) = SystemPrompt config \<and>
    PromptCacheMode config \<in> {[], ''stable'', ''off'', ''passthrough''} \<and>
    ParseAdvancedConfig tree ''{y}'' = Inr config"
  unfolding Let_def
proof (rule advanced_config_checked [where raw = "''{x}''"
      and kvs = "[(''concurrencyLimit'', JNum ''15''), (''reasoningToContent'', JBool True)]"])
  have lower: "toLower ''concurrencyLimit'' = ''concurrencylimit''"
    by code_simp
  have num: "parseInt ''15'' = Some 15"
    by (simp add: parseInt_def parseNat_def isDigit_def digitVal_def)
  show "ParseAdvancedConfig (\<lambda>raw. if raw = ''{x}'' then Some (JObj [(''concurrencyLimit'', JNum ''15''), (''reasoningToContent'', JBool True)])
                else Some (JObj [(''concurrencyLimit'', JNum ''15'')])) ''{x}'' =
      Inr (DefaultAdvancedConfig\<lparr>ConcurrencyLimit := 15\<rparr>)"
    by (simp add: ParseAdvancedConfig_def plain_eval rawFields_def dedupOn_def deprecatedFields_def
        setConfigField_def lower num intField_def)
      (simp add: DefaultAdvancedConfig_def maxSystemPromptLength_def maxConcurrencyLimit_def)
qed (simp_all add: plain_eval deprecatedFields_def)

end
