(* ===== verification/Routing.thy ===== *)
theory Routing
  imports Credentials Channel_Config Time_Window
begin

text \<open>
  Which channels may serve a request and in which order (\<^verbatim>\<open>internal/logic/relay/routing.go\<close>,
  \<^verbatim>\<open>closed_window.go\<close>, \<^verbatim>\<open>route_cache.go\<close> and the ordering part of \<^verbatim>\<open>conversation_affinity.go\<close>): the
  candidates of a model, their cache in Redis, the filters by closed windows, groups and allowed
  models, the weighted order within a priority, and the order a conversation stays with.

  The answers of the database are arguments (\<open>routeEnv\<close>, None when a query fails).
\<close>

subsection \<open>Data\<close>

record Candidate =
  ChannelModelID :: id
  ChannelID :: id
  ChannelName :: string
  ChannelType :: string
  BaseURL :: string
  CandBackupBaseURLs :: "string list"
  ChannelCredentialID :: id
  APIKeyCipher :: string
  ManagementKeyCipher :: string
  OrganizationID :: string
  ProjectID :: string
  ProxyURLCipher :: string
  DirectHTTP :: bool
  CandAdvancedConfig :: string
  Priority :: int
  Weight :: u64
  PublicName :: string
  UpstreamName :: string
  ClosedWindow :: string
  CandConcurrencyLimit :: int
  HealthScore :: "int option"
  GroupIDs :: "id list"
  CreatedByUserID :: id
  ReasoningEffort :: string

record AuthKey =
  keyId :: id
  keyUserId :: id
  AllowedModels :: "string list"
  UserChannelGroupIDs :: "id list"

record ChannelModelRow =
  cmId :: id
  cmChannelId :: id
  cmPublicName :: string
  cmUpstreamName :: string
  cmHealthScore :: int
  cmClosedWindowsJson :: string

record ChannelRow =
  chId :: id
  chName :: string
  chType :: string
  chBaseUrl :: string
  chManagementKeyCipher :: string
  chOrganizationId :: string
  chProjectId :: string
  chProxyUrlCipher :: string
  chAdvancedConfig :: string
  chPriority :: int
  chWeight :: u64
  chCreatedByUserId :: id

datatype route_error =
    RouteLoad string | RouteConfig config_error | RouteCred cred_error | ModelNotAllowed string | RoutePanic

text \<open>
  The queries of the router: the enabled rows of a model name, the active ones of a list of
  channels, the groups of a channel, the active ones of a list of groups.
\<close>

record routeEnv =
  modelRows :: "string \<Rightarrow> ChannelModelRow list option"
  channelRows :: "id list \<Rightarrow> ChannelRow list option"
  memberRows :: "id \<Rightarrow> id list option"
  activeGroups :: "id list \<Rightarrow> id list option"
  routeCredEnv :: credEnv
  routeTree :: "string \<Rightarrow> json option"

subsection \<open>Weighted order\<close>

definition ModelHealthWeightThreshold :: int where "ModelHealthWeightThreshold = 80"

definition candidateWeight :: "Candidate \<Rightarrow> u64" where
  "candidateWeight candidate =
     (let weight = (if Weight candidate < 1 then 1 else Weight candidate) in
      case HealthScore candidate of
        None \<Rightarrow> weight
      | Some hs \<Rightarrow>
          if ModelHealthWeightThreshold \<le> hs then weight
          else let hs0 = (if hs < 0 then 0 else hs);
                   scaled = weight * word_of_int hs0 div word_of_int ModelHealthWeightThreshold
               in if scaled = 0 then 1 else scaled)"

fun pickLoop :: "u64 \<Rightarrow> nat \<Rightarrow> Candidate list \<Rightarrow> nat option" where
  "pickLoop pick index [] = None"
| "pickLoop pick index (item # items) =
     (let weight = candidateWeight item in
      if pick < weight then Some index else pickLoop (pick - weight) (Suc index) items)"

definition selectIndex :: "u64 \<Rightarrow> Candidate list \<Rightarrow> nat" where
  "selectIndex pick pool = (case pickLoop pick 0 pool of None \<Rightarrow> 0 | Some i \<Rightarrow> i)"

lemma pickLoop_range: "pickLoop pick k pool = Some i \<Longrightarrow> k \<le> i \<and> i < k + length pool"
  by (induction pick k pool rule: pickLoop.induct) (auto simp: Let_def split: if_splits)

lemma selectIndex_range: "pool \<noteq> [] \<Longrightarrow> selectIndex pick pool < length pool"
  using pickLoop_range [of pick 0 pool] by (auto simp: selectIndex_def split: option.split)

text \<open>
  \<open>rnd k total\<close> is the answer of the \<open>k\<close>th call of \<^verbatim>\<open>rand.Uint64N(total)\<close>, which panics (None) for
  a total of 0.
\<close>

function orderPool :: "(nat \<Rightarrow> u64 \<Rightarrow> u64) \<Rightarrow> nat \<Rightarrow> Candidate list \<Rightarrow> Candidate list option" where
  "orderPool rnd k pool =
     (if pool = [] then Some []
      else let total = sum_list (map candidateWeight pool) in
        if total = 0 then None
        else let selected = selectIndex (rnd k total) pool in
          map_option (Cons (pool ! selected))
            (orderPool rnd (Suc k) (removeNth selected pool)))"
  by pat_completeness auto
termination
  by (relation "measure (\<lambda>(_, _, pool). length pool)") (simp_all add: length_removeNth selectIndex_range)

declare orderPool.simps [simp del]

fun orderGroups :: "(nat \<Rightarrow> u64 \<Rightarrow> u64) \<Rightarrow> nat \<Rightarrow> Candidate list \<Rightarrow> int list \<Rightarrow> Candidate list option" where
  "orderGroups rnd k candidates [] = Some []"
| "orderGroups rnd k candidates (p # ps) =
     (case orderPool rnd k (filter (\<lambda>c. Priority c = p) candidates) of
        None \<Rightarrow> None
      | Some ordered \<Rightarrow> map_option (append ordered) (orderGroups rnd (k + length ordered) candidates ps))"

definition weightedOrder :: "(nat \<Rightarrow> u64 \<Rightarrow> u64) \<Rightarrow> Candidate list \<Rightarrow> Candidate list option" where
  "weightedOrder rnd candidates =
     orderGroups rnd 0 candidates (rev (sort (dedupOn (\<lambda>p. p) (map Priority candidates))))"

subsection \<open>Filters\<close>

definition candidateClosedAt :: "(string \<Rightarrow> json option) \<Rightarrow> zonedb \<Rightarrow> Candidate \<Rightarrow> gotime \<Rightarrow> bool" where
  "candidateClosedAt tree zones candidate at =
     (if ClosedWindow candidate = [] then False
      else case ParseList tree zones (ClosedWindow candidate) of
             Inl _ \<Rightarrow> False
           | Inr windows \<Rightarrow> AnyContains zones windows at)"

definition filterClosedCandidates :: "(string \<Rightarrow> json option) \<Rightarrow> zonedb \<Rightarrow> gotime \<Rightarrow> Candidate list \<Rightarrow> Candidate list" where
  "filterClosedCandidates tree zones at candidates =
     (if candidates = [] then candidates
      else filter (\<lambda>c. \<not> candidateClosedAt tree zones c at) candidates)"

fun containsString :: "string list \<Rightarrow> string \<Rightarrow> bool" where
  "containsString [] target = False"
| "containsString (v # vs) target = (v = target \<or> containsString vs target)"

definition filterCandidatesByAllowedModels :: "AuthKey \<Rightarrow> string \<Rightarrow> Candidate list \<Rightarrow> Candidate list" where
  "filterCandidatesByAllowedModels key requestedModel candidates =
     (if AllowedModels key = [] \<or> containsString (AllowedModels key) requestedModel then candidates
      else filter (\<lambda>c. containsString (AllowedModels key) (PublicName c)) candidates)"

definition keyAllowsGroupPolicy :: "AuthKey \<Rightarrow> id \<Rightarrow> id list \<Rightarrow> id list \<Rightarrow> bool" where
  "keyAllowsGroupPolicy key createdBy groupIDs userGroupIDs =
     (if createdBy \<noteq> 0 \<and> createdBy = keyUserId key then True
      else if groupIDs = [] then False
      else list_ex (\<lambda>groupID. list_ex (\<lambda>allowed. allowed = groupID) userGroupIDs) groupIDs)"

definition keyAllowsGroups :: "AuthKey \<Rightarrow> id list \<Rightarrow> bool" where
  "keyAllowsGroups key groupIDs = keyAllowsGroupPolicy key 0 groupIDs (UserChannelGroupIDs key)"

definition filterCandidates :: "(nat \<Rightarrow> u64 \<Rightarrow> u64) \<Rightarrow> Candidate list \<Rightarrow> AuthKey \<Rightarrow> string list \<Rightarrow> Candidate list option" where
  "filterCandidates rnd candidates key adminRoles =
     weightedOrder rnd
       (filter (\<lambda>c. keyAllowsGroupPolicy key (CreatedByUserID c) (GroupIDs c) (UserChannelGroupIDs key)) candidates)"

fun routeCacheCarriesCreator :: "Candidate list \<Rightarrow> bool" where
  "routeCacheCarriesCreator [] = True"
| "routeCacheCarriesCreator (c # cs) = (if CreatedByUserID c = 0 then False else routeCacheCarriesCreator cs)"

fun allOwned :: "Candidate list \<Rightarrow> id \<Rightarrow> bool" where
  "allOwned [] userID = True"
| "allOwned (c # cs) userID =
     (if CreatedByUserID c = 0 \<or> CreatedByUserID c \<noteq> userID then False else allOwned cs userID)"

definition candidatesAllOwnedBy :: "Candidate list \<Rightarrow> id \<Rightarrow> bool" where
  "candidatesAllOwnedBy candidates userID =
     (if userID = 0 \<or> candidates = [] then False else allOwned candidates userID)"

subsection \<open>Candidates of a model\<close>

definition sortedRouteIDs :: "id list \<Rightarrow> id list" where
  "sortedRouteIDs values = sort (dedupOn (\<lambda>v. v) values)"

text \<open>Later rows replace earlier ones of the same id, as in the Go map.\<close>

definition activeRouteChannels :: "routeEnv \<Rightarrow> id list \<Rightarrow> (id \<Rightarrow> ChannelRow option) option" where
  "activeRouteChannels env channelIDs =
     (if channelIDs = [] then Some Map.empty
      else case channelRows env channelIDs of
             None \<Rightarrow> None
           | Some rows \<Rightarrow> Some (foldl (\<lambda>m row. m(chId row \<mapsto> row)) Map.empty rows))"

definition channelGroupIDs :: "routeEnv \<Rightarrow> id \<Rightarrow> route_error + id list" where
  "channelGroupIDs env channelID =
     (case memberRows env channelID of
        None \<Rightarrow> Inl (RouteLoad ''load channel group memberships'')
      | Some memberships \<Rightarrow>
          if memberships = [] then Inr []
          else case activeGroups env memberships of
                 None \<Rightarrow> Inl (RouteLoad ''load active channel groups'')
               | Some groups \<Rightarrow> Inr groups)"

definition newCandidate :: "ChannelModelRow \<Rightarrow> ChannelRow \<Rightarrow> AdvancedConfig \<Rightarrow> id list \<Rightarrow> Candidate" where
  "newCandidate row channel config groupIDs =
     \<lparr>ChannelModelID = cmId row, ChannelID = chId channel, ChannelName = chName channel,
      ChannelType = chType channel, BaseURL = chBaseUrl channel, CandBackupBaseURLs = BackupBaseURLs config,
      ChannelCredentialID = 0, APIKeyCipher = [], ManagementKeyCipher = chManagementKeyCipher channel,
      OrganizationID = chOrganizationId channel, ProjectID = chProjectId channel,
      ProxyURLCipher = chProxyUrlCipher channel, DirectHTTP = False,
      CandAdvancedConfig = chAdvancedConfig channel, Priority = chPriority channel, Weight = chWeight channel,
      PublicName = cmPublicName row, UpstreamName = cmUpstreamName row,
      ClosedWindow = cmClosedWindowsJson row, CandConcurrencyLimit = ConcurrencyLimit config,
      HealthScore = Some (cmHealthScore row), GroupIDs = groupIDs,
      CreatedByUserID = chCreatedByUserId channel, ReasoningEffort = []\<rparr>"

fun collectCandidates :: "routeEnv \<Rightarrow> (id \<Rightarrow> ChannelRow option) \<Rightarrow> ChannelModelRow list \<Rightarrow> route_error + Candidate list" where
  "collectCandidates env channels [] = Inr []"
| "collectCandidates env channels (row # rows) =
     (case channels (cmChannelId row) of
        None \<Rightarrow> collectCandidates env channels rows
      | Some channel \<Rightarrow>
          (case ParseAdvancedConfig (routeTree env) (chAdvancedConfig channel) of
             Inl e \<Rightarrow> Inl (RouteConfig e)
           | Inr config \<Rightarrow>
               (case channelGroupIDs env (cmChannelId row) of
                  Inl e \<Rightarrow> Inl e
                | Inr groupIDs \<Rightarrow>
                    (case HasAvailableCredential (routeCredEnv env) (cmChannelId row) of
                       Inl e \<Rightarrow> Inl (RouteCred e)
                     | Inr hasCredential \<Rightarrow>
                         if \<not> hasCredential then collectCandidates env channels rows
                         else (case collectCandidates env channels rows of
                                 Inl e \<Rightarrow> Inl e
                               | Inr cs \<Rightarrow> Inr (newCandidate row channel config groupIDs # cs))))))"

definition routeStatic :: "routeEnv \<Rightarrow> string \<Rightarrow> route_error + Candidate list" where
  "routeStatic env model =
     (case modelRows env model of
        None \<Rightarrow> Inl (RouteLoad ''load model routes'')
      | Some models \<Rightarrow>
          (case activeRouteChannels env (sortedRouteIDs (map cmChannelId models)) of
             None \<Rightarrow> Inl (RouteLoad ''load active route channels'')
           | Some channels \<Rightarrow> collectCandidates env channels models))"

subsection \<open>The cache\<close>

record routeStore =
  routeVersion :: int
  routeEntries :: "string \<Rightarrow> Candidate list option"

definition routeCacheKey :: "string \<Rightarrow> int \<Rightarrow> string" where
  "routeCacheKey model version = ''aiferry:routes:'' @ model @ '':'' @ showInt version"

definition InvalidateRouteCache :: "routeStore \<Rightarrow> routeStore" where
  "InvalidateRouteCache s = s\<lparr>routeVersion := routeVersion s + 1\<rparr>"

definition readRouteCache :: "routeStore \<Rightarrow> string \<Rightarrow> int \<Rightarrow> Candidate list option" where
  "readRouteCache s model version = routeEntries s (routeCacheKey model version)"

definition writeRouteCache :: "routeStore \<Rightarrow> string \<Rightarrow> int \<Rightarrow> Candidate list \<Rightarrow> routeStore" where
  "writeRouteCache s model version candidates =
     (if candidates = [] then s
      else s\<lparr>routeEntries := (routeEntries s)(routeCacheKey model version \<mapsto> candidates)\<rparr>)"

definition orPanic :: "'a option \<Rightarrow> route_error + 'a" where
  "orPanic r = (case r of None \<Rightarrow> Inl RoutePanic | Some x \<Rightarrow> Inr x)"

definition routeCached :: "routeEnv \<Rightarrow> zonedb \<Rightarrow> gotime \<Rightarrow> (nat \<Rightarrow> u64 \<Rightarrow> u64) \<Rightarrow> routeStore \<Rightarrow> string \<Rightarrow> AuthKey \<Rightarrow>
    (route_error + Candidate list) \<times> routeStore" where
  "routeCached env zones at rnd store model key =
     (let version = routeVersion store;
          finish = (\<lambda>cs. orPanic (filterCandidates rnd (filterClosedCandidates (routeTree env) zones at cs) key []))
      in case (case readRouteCache store model version of
                 Some cs \<Rightarrow> if routeCacheCarriesCreator cs then Some cs else None
               | None \<Rightarrow> None) of
           Some cs \<Rightarrow> (finish cs, store)
         | None \<Rightarrow>
             (case routeStatic env model of
                Inl e \<Rightarrow> (Inl e, store)
              | Inr cs \<Rightarrow> (finish cs, writeRouteCache store model version cs)))"

definition routeWithPolicy :: "routeEnv \<Rightarrow> zonedb \<Rightarrow> gotime \<Rightarrow> (nat \<Rightarrow> u64 \<Rightarrow> u64) \<Rightarrow> routeStore \<Rightarrow> AuthKey \<Rightarrow> string \<Rightarrow>
    (route_error + Candidate list) \<times> routeStore" where
  "routeWithPolicy env zones at rnd store key model =
     (case routeCached env zones at rnd store model key of
        (Inl e, store') \<Rightarrow> (Inl e, store')
      | (Inr candidates, store') \<Rightarrow>
          (let filtered = filterCandidatesByAllowedModels key model candidates in
           if filtered = [] \<and> candidates \<noteq> [] then (Inl (ModelNotAllowed model), store')
           else (Inr filtered, store')))"

subsection \<open>The order of a conversation\<close>

fun candidateQueue :: "id \<Rightarrow> Candidate list \<Rightarrow> Candidate list" where
  "candidateQueue ch candidates = filter (\<lambda>c. ChannelID c = ch) candidates"

text \<open>Both loops of the code: take the next candidate of a channel while one is pending.\<close>

fun takePending :: "id list \<Rightarrow> (id \<Rightarrow> Candidate list) \<Rightarrow> Candidate list \<times> (id \<Rightarrow> Candidate list)" where
  "takePending [] pending = ([], pending)"
| "takePending (ch # chs) pending =
     (case pending ch of
        [] \<Rightarrow> takePending chs pending
      | c # queue \<Rightarrow> (let (ordered, pending') = takePending chs (pending(ch := queue)) in (c # ordered, pending')))"

definition applyConversationChannelAffinity :: "Candidate list \<Rightarrow> id list \<Rightarrow> Candidate list" where
  "applyConversationChannelAffinity candidates pinned =
     (if pinned = [] \<or> candidates = [] then candidates
      else let (first, pending) = takePending pinned (\<lambda>ch. candidateQueue ch candidates);
               (rest, _) = takePending (map ChannelID candidates) pending
           in first @ rest)"

definition candidateChannelIDs :: "Candidate list \<Rightarrow> id list" where
  "candidateChannelIDs candidates = dedupOn (\<lambda>ch. ch) (map ChannelID candidates)"

subsection \<open>Lemmas on the weights\<close>

lemma candidateWeight_pos: "0 < candidateWeight c"
  by (auto simp: candidateWeight_def Let_def word_gt_0 split: option.split)

abbreviation candWeight :: "Candidate \<Rightarrow> nat" where
  "candWeight c \<equiv> unat (candidateWeight c)"

definition weightsFit :: "Candidate list \<Rightarrow> bool" where
  "weightsFit cs \<longleftrightarrow> totalWeight candWeight cs < 2 ^ 64"

lemma candWeight_pos: "0 < candWeight c"
  using candidateWeight_pos by (simp add: unat_gt_0 word_gt_0)

lemma unat_total: "weightsFit cs \<Longrightarrow> unat (sum_list (map candidateWeight cs)) = totalWeight candWeight cs"
proof (induction cs)
  case (Cons c cs)
  then have "weightsFit cs" by (simp add: weightsFit_def)
  with Cons show ?case by (simp add: weightsFit_def unat_add_lem [THEN iffD1])
qed simp

lemma total_nonzero: "weightsFit cs \<Longrightarrow> cs \<noteq> [] \<Longrightarrow> sum_list (map candidateWeight cs) \<noteq> 0"
proof
  assume fit: "weightsFit cs" and some: "cs \<noteq> []" and zero: "sum_list (map candidateWeight cs) = 0"
  from unat_total [OF fit] have "totalWeight candWeight cs = 0" unfolding zero by simp
  moreover obtain c rest where "cs = c # rest" using some by (cases cs) auto
  ultimately show False using candWeight_pos [of c] by simp
qed

lemma weightsFit_mset: "mset xs \<subseteq># mset ys \<Longrightarrow> weightsFit ys \<Longrightarrow> weightsFit xs"
proof -
  assume sub: "mset xs \<subseteq># mset ys" and fit: "weightsFit ys"
  have "totalWeight candWeight zs = sum_mset (image_mset candWeight (mset zs))" for zs
    by (metis mset_map sum_mset_sum_list)
  moreover have "sum_mset (image_mset candWeight (mset xs)) \<le> sum_mset (image_mset candWeight (mset ys))"
    using sub by (metis image_mset_union le_add1 subset_mset.add_diff_inverse sum_mset.union)
  ultimately show ?thesis using fit by (simp add: weightsFit_def)
qed

lemma pickLoop_chosen:
  "i < length xs \<Longrightarrow> weightBefore candWeight xs i \<le> r \<Longrightarrow> r < weightBefore candWeight xs i + candWeight (xs ! i) \<Longrightarrow>
     r < 2 ^ 64 \<Longrightarrow> pickLoop (of_nat r) k xs = Some (k + i)"
proof (induction xs arbitrary: i r k)
  case (Cons x xs)
  have r: "unat (of_nat r :: u64) = r" using Cons.prems(4) by (simp add: unat_of_nat)
  show ?case
  proof (cases i)
    case 0
    with Cons.prems r show ?thesis by (simp add: word_less_nat_alt)
  next
    case (Suc j)
    then have ge: "candWeight x \<le> r" using Cons.prems by simp
    have "(of_nat r :: u64) - candidateWeight x = of_nat (r - candWeight x)" using ge by (simp add: of_nat_diff)
    moreover have "pickLoop (of_nat (r - candWeight x)) (Suc k) xs = Some (Suc k + j)"
      using Cons.prems Suc ge by (intro Cons.IH) auto
    ultimately show ?thesis using Suc ge r by (simp add: word_less_nat_alt)
  qed
qed simp

interpretation routeDraw: weighted_choice candWeight "\<lambda>xs r. selectIndex (of_nat r) xs" weightsFit
proof (unfold_locales, goal_cases)
  case (1 x)
  then show ?case by (rule candWeight_pos)
next
  case (2 xs i r)
  have "r < 2 ^ 64"
    using 2 weightBefore_Suc_le [of i xs candWeight] by (simp add: weightsFit_def)
  with 2 pickLoop_chosen [of i xs r 0] show ?case by (simp add: selectIndex_def)
qed

text \<open>The weight column is a 32 bit integer, so the sums of a list of any practical size fit.\<close>

lemma unat_scaled:
  fixes w :: u64
  assumes w: "unat w < 2 ^ 32" and s: "0 \<le> s" "s < 80"
  shows "unat (w * word_of_int s div word_of_int ModelHealthWeightThreshold) = unat w * nat s div 80"
proof -
  have "(word_of_int s :: u64) = of_nat (nat s)" using s by simp
  then have "unat (word_of_int s :: u64) = nat s mod 2 ^ 64" by (simp add: unat_of_nat)
  then have us: "unat (word_of_int s :: u64) = nat s" using s by simp
  have "unat w * nat s < 2 ^ 32 * 80" using w s by (intro mult_strict_mono) auto
  then have small: "unat w * nat s < 2 ^ 64" by simp
  have "unat (w * word_of_int s) = unat w * nat s"
    using small us by (subst unat_mult_lem [THEN iffD1]) auto
  then show ?thesis by (simp add: unat_div ModelHealthWeightThreshold_def)
qed

lemma candWeight_eq:
  assumes "unat (Weight c) < 2 ^ 32"
  shows "candWeight c = (let w = max 1 (unat (Weight c)) in
     case HealthScore c of None \<Rightarrow> w | Some hs \<Rightarrow> if 80 \<le> hs then w else max 1 (w * nat hs div 80))"
proof -
  define w where "w = (if Weight c < 1 then 1 else Weight c)"
  have w: "unat w < 2 ^ 32" "unat w = max 1 (unat (Weight c))"
    using assms unat_gt_0 [of "Weight c"] by (auto simp: w_def max_def)
  have weight: "candidateWeight c = (case HealthScore c of None \<Rightarrow> w
      | Some hs \<Rightarrow> if 80 \<le> hs then w
          else let scaled = w * word_of_int (if hs < 0 then 0 else hs) div word_of_int ModelHealthWeightThreshold
               in if scaled = 0 then 1 else scaled)"
    unfolding candidateWeight_def Let_def w_def [symmetric] ModelHealthWeightThreshold_def by (rule refl)
  show ?thesis
  proof (cases "HealthScore c")
    case (Some hs)
    let ?scaled = "w * word_of_int (if hs < 0 then 0 else hs) div word_of_int ModelHealthWeightThreshold"
    have "unat (if ?scaled = 0 then 1 else ?scaled) = max 1 (unat w * nat hs div 80)" if "hs < 80"
    proof -
      have "unat ?scaled = unat w * nat hs div 80"
        using unat_scaled [OF w(1), of "if hs < 0 then 0 else hs"] that by auto
      then show ?thesis using unat_eq_0 [of ?scaled] by (auto simp: max_def)
    qed
    then show ?thesis unfolding weight Some w(2) [symmetric] by (simp add: Let_def)
  qed (simp add: weight w(2))
qed

lemma candWeight_bound:
  assumes "unat (Weight c) < 2 ^ 32"
  shows "candWeight c < 2 ^ 32"
proof -
  have "max 1 (unat (Weight c)) * nat hs div 80 \<le> max 1 (unat (Weight c)) * 80 div 80" if "hs < 80" for hs
    using that by (intro div_le_mono mult_le_mono) auto
  then show ?thesis
    using assms unfolding candWeight_eq [OF assms] Let_def
    by (cases "HealthScore c") (auto simp: max_def not_le, metis le_less_trans)
qed

lemma weightsFit_small:
  assumes "\<forall>c \<in> set cs. unat (Weight c) < 2 ^ 32" "length cs < 2 ^ 32"
  shows "weightsFit cs"
proof -
  have "totalWeight candWeight xs \<le> length xs * 2 ^ 32" if "\<forall>c \<in> set xs. unat (Weight c) < 2 ^ 32" for xs
    using that
  proof (induction xs)
    case (Cons c xs)
    then show ?case using candWeight_bound [of c] by simp
  qed simp
  moreover have "length cs * 2 ^ 32 < 2 ^ 32 * 2 ^ 32" using assms(2) by simp
  ultimately have "totalWeight candWeight cs < 2 ^ 32 * 2 ^ 32"
    using assms(1) le_less_trans by blast
  then show ?thesis by (simp add: weightsFit_def)
qed

subsection \<open>The order\<close>

text \<open>
  A step of the router never invents or duplicates a candidate; a step that only orders keeps
  them all.
\<close>

locale candidate_filter =
  fixes pass :: "'e \<Rightarrow> Candidate list \<Rightarrow> Candidate list option"
  assumes keeps: "pass e xs = Some ys \<Longrightarrow> mset ys \<subseteq># mset xs"
begin

lemma passed_subset: "pass e xs = Some ys \<Longrightarrow> set ys \<subseteq> set xs"
  using keeps by (metis set_mset_mono set_mset_mset)

lemma passed_fits: "pass e xs = Some ys \<Longrightarrow> weightsFit xs \<Longrightarrow> weightsFit ys"
  using keeps weightsFit_mset by blast

lemma passed_distinct: "pass e xs = Some ys \<Longrightarrow> distinct xs \<Longrightarrow> distinct ys"
proof -
  assume "pass e xs = Some ys" "distinct xs"
  then have "count (mset ys) c \<le> 1" for c
    using keeps [of e xs ys] mset_subset_eq_count [of "mset ys" "mset xs" c]
    by (metis distinct_count_atmost_1 le_trans order_refl zero_le)
  then show "distinct ys"
    by (metis (no_types, lifting) count_eq_zero_iff distinct_count_atmost_1 le_antisym less_one linorder_not_le set_mset_mset)
qed

end

locale candidate_reorder =
  fixes reorder :: "'e \<Rightarrow> Candidate list \<Rightarrow> Candidate list option"
  assumes same: "reorder e xs = Some ys \<Longrightarrow> mset ys = mset xs"

sublocale candidate_reorder \<subseteq> candidate_filter reorder
  by unfold_locales (simp add: same)

context candidate_reorder
begin

lemma reordered_set: "reorder e xs = Some ys \<Longrightarrow> set ys = set xs"
  using same by (metis set_mset_mset)

lemma reordered_length: "reorder e xs = Some ys \<Longrightarrow> length ys = length xs"
  using same by (metis size_mset)

end

lemma orderPool_mset: "orderPool rnd k pool = Some os \<Longrightarrow> mset os = mset pool"
proof (induction rnd k pool arbitrary: os rule: orderPool.induct)
  case (1 rnd k pool)
  show ?case
  proof (cases "pool = []")
    case False
    let ?total = "sum_list (map candidateWeight pool)"
    let ?i = "selectIndex (rnd k ?total) pool"
    from 1(2) False obtain os' where total: "?total \<noteq> 0"
      and os': "orderPool rnd (Suc k) (removeNth ?i pool) = Some os'" "os = pool ! ?i # os'"
      by (auto simp: orderPool.simps [of rnd k pool] Let_def split: if_splits)
    from 1(1) [OF False refl total refl os'(1)] os'(2) show ?thesis
      using mset_removeNth [OF selectIndex_range [OF False]] by simp
  qed (use 1 in \<open>simp add: orderPool.simps [of rnd k "[]"]\<close>)
qed

lemma orderPool_total: "weightsFit pool \<Longrightarrow> \<exists>os. orderPool rnd k pool = Some os"
proof (induction rnd k pool rule: orderPool.induct)
  case (1 rnd k pool)
  show ?case
  proof (cases "pool = []")
    case False
    let ?total = "sum_list (map candidateWeight pool)"
    let ?i = "selectIndex (rnd k ?total) pool"
    have total: "?total \<noteq> 0" using total_nonzero 1(2) False by blast
    have "mset (removeNth ?i pool) \<subseteq># mset pool"
      by (rule removeNth_subset [OF selectIndex_range [OF False]])
    then have "weightsFit (removeNth ?i pool)" using 1(2) weightsFit_mset by blast
    from 1(1) [OF False refl total refl this] total False show ?thesis
      by (auto simp: orderPool.simps [of rnd k pool] Let_def)
  qed (simp add: orderPool.simps [of rnd k "[]"])
qed

lemma orderGroups_spec:
  "orderGroups rnd k cs ps = Some os \<Longrightarrow> sorted_wrt (>) ps \<Longrightarrow>
     mset os = mset (filter (\<lambda>c. Priority c \<in> set ps) cs) \<and> sorted_wrt (\<lambda>a b. Priority b \<le> Priority a) os"
proof (induction ps arbitrary: k os)
  case (Cons p ps)
  from Cons.prems(1) obtain first rest where
    first: "orderPool rnd k (filter (\<lambda>c. Priority c = p) cs) = Some first"
    and rest: "orderGroups rnd (k + length first) cs ps = Some rest" and os: "os = first @ rest"
    by (auto split: option.splits)
  have IH: "mset rest = mset (filter (\<lambda>c. Priority c \<in> set ps) cs)" "sorted_wrt (\<lambda>a b. Priority b \<le> Priority a) rest"
    using Cons.IH [OF rest] Cons.prems(2) by auto
  have mfirst: "mset first = mset (filter (\<lambda>c. Priority c = p) cs)" using orderPool_mset [OF first] .
  have pfirst: "\<forall>c \<in> set first. Priority c = p" using mfirst by (metis (mono_tags, lifting) mem_Collect_eq set_filter set_mset_mset)
  have prest: "\<forall>c \<in> set rest. Priority c \<in> set ps" using IH(1) by (metis (mono_tags, lifting) mem_Collect_eq set_filter set_mset_mset)
  have "p \<notin> set ps" using Cons.prems(2) by auto
  then have "mset (filter (\<lambda>c. Priority c \<in> set (p # ps)) cs) =
      mset (filter (\<lambda>c. Priority c = p) cs) + mset (filter (\<lambda>c. Priority c \<in> set ps) cs)"
    by (induction cs) auto
  moreover have "sorted_wrt (\<lambda>a b. Priority b \<le> Priority a) first"
    using pfirst by (induction first) auto
  ultimately show ?case
    using os IH mfirst pfirst prest Cons.prems(2) by (auto simp: sorted_wrt_append intro: less_imp_le)
qed simp

lemma sorted_priorities: "sorted_wrt (>) (rev (sort (dedupOn (\<lambda>p. p) (xs :: int list))))"
proof -
  have "distinct (sort (dedupOn (\<lambda>p. p) xs))" using dedupOn_distinct [of "\<lambda>p. p" xs] by simp
  then have "sorted_wrt (<) (sort (dedupOn (\<lambda>p. p) xs))" by (simp add: strict_sorted_iff)
  then show ?thesis by (simp add: sorted_wrt_rev)
qed

lemma weightedOrder_spec:
  assumes "weightedOrder rnd cs = Some os"
  shows "mset os = mset cs" "sorted_wrt (\<lambda>a b. Priority b \<le> Priority a) os"
proof -
  let ?ps = "rev (sort (dedupOn (\<lambda>p. p) (map Priority cs)))"
  have all: "filter (\<lambda>c. Priority c \<in> set ?ps) cs = cs" by (simp add: dedup_simps)
  note spec = orderGroups_spec [OF assms [unfolded weightedOrder_def] sorted_priorities]
  from spec have "mset os = mset (filter (\<lambda>c. Priority c \<in> set ?ps) cs)" by (rule conjunct1)
  then show "mset os = mset cs" unfolding all .
  from spec show "sorted_wrt (\<lambda>a b. Priority b \<le> Priority a) os" by (rule conjunct2)
qed

lemma orderGroups_total: "weightsFit cs \<Longrightarrow> \<exists>os. orderGroups rnd k cs ps = Some os"
proof (induction ps arbitrary: k)
  case (Cons p ps)
  have "weightsFit (filter (\<lambda>c. Priority c = p) cs)"
    using Cons.prems weightsFit_mset by (metis mset_filter multiset_filter_subset)
  then obtain first where "orderPool rnd k (filter (\<lambda>c. Priority c = p) cs) = Some first"
    using orderPool_total by blast
  moreover obtain rest where "orderGroups rnd (k + length first) cs ps = Some rest"
    using Cons by blast
  ultimately show ?case by simp
qed simp

lemma weightedOrder_total: "weightsFit cs \<Longrightarrow> \<exists>os. weightedOrder rnd cs = Some os"
  by (simp add: weightedOrder_def orderGroups_total)

interpretation order: candidate_reorder weightedOrder
  by unfold_locales (rule weightedOrder_spec(1))

interpretation groupFilter: candidate_filter "\<lambda>(rnd, key, roles) cs. filterCandidates rnd cs key roles"
proof (unfold_locales, goal_cases)
  case (1 e xs ys)
  obtain rnd key roles where e: "e = (rnd, key, roles)" by (cases e)
  with 1 have "mset ys = mset (filter (\<lambda>c. keyAllowsGroupPolicy key (CreatedByUserID c) (GroupIDs c) (UserChannelGroupIDs key)) xs)"
    by (auto simp: filterCandidates_def dest: weightedOrder_spec(1))
  then show ?case by (metis mset_filter multiset_filter_subset)
qed

interpretation closedFilter: candidate_filter "\<lambda>(tree, zones, at) cs. Some (filterClosedCandidates tree zones at cs)"
  by unfold_locales (auto simp: filterClosedCandidates_def multiset_filter_subset split: if_splits prod.splits)

interpretation allowedFilter: candidate_filter "\<lambda>(key, model) cs. Some (filterCandidatesByAllowedModels key model cs)"
  by unfold_locales (auto simp: filterCandidatesByAllowedModels_def multiset_filter_subset split: if_splits prod.splits)

subsection \<open>The cache never serves a superseded configuration\<close>

lemma routeCacheKey_inject [simp]: "routeCacheKey m v = routeCacheKey m' v' \<longleftrightarrow> m = m' \<and> v = v'"
proof
  assume "routeCacheKey m v = routeCacheKey m' v'"
  then have "rev (m @ '':'' @ showInt v) = rev (m' @ '':'' @ showInt v')" by (simp add: routeCacheKey_def)
  then have "rev (showInt v) @ CHR '':'' # rev m = rev (showInt v') @ CHR '':'' # rev m'" by simp
  then show "m = m' \<and> v = v'"
    using append_sep_inject [of "CHR '':''" "rev (showInt v)" "rev (showInt v')" "rev m" "rev m'"]
      showInt_no_colon by auto
qed simp

text \<open>
  Requests and configuration changes interleave.  A request reads the version, then (when the
  cache has nothing for it) the tables, then writes what it found under the version it read; a
  change writes the tables and increments the version afterwards (\<^verbatim>\<open>invalidateRoutes\<close>).  Redis may
  drop an entry at any time.  \<open>pendingChanges\<close> counts the changes that have not incremented the version
  yet, \<open>liveLoads\<close> holds the requests between their reads and their write.
\<close>

datatype routeLoad = RouteLoading string int | RouteLoaded string int "Candidate list"

record route_sys =
  liveTables :: routeEnv
  liveStore :: routeStore
  pendingChanges :: nat
  liveLoads :: "routeLoad set"

inductive routeStep :: "route_sys \<Rightarrow> route_sys \<Rightarrow> bool" where
  beginLoad: "routeStep s (s\<lparr>liveLoads := insert (RouteLoading m (routeVersion (liveStore s))) (liveLoads s)\<rparr>)"
| load: "RouteLoading m v \<in> liveLoads s \<Longrightarrow> routeStatic (liveTables s) m = Inr cs \<Longrightarrow>
    routeStep s (s\<lparr>liveLoads := insert (RouteLoaded m v cs) (liveLoads s)\<rparr>)"
| save: "RouteLoaded m v cs \<in> liveLoads s \<Longrightarrow>
    routeStep s (s\<lparr>liveStore := writeRouteCache (liveStore s) m v cs\<rparr>)"
| change: "routeStep s (s\<lparr>liveTables := env, pendingChanges := pendingChanges s + 1\<rparr>)"
| invalidate: "0 < pendingChanges s \<Longrightarrow>
    routeStep s (s\<lparr>liveStore := InvalidateRouteCache (liveStore s), pendingChanges := pendingChanges s - 1\<rparr>)"
| drop: "routeStep s (s\<lparr>liveStore := (liveStore s)\<lparr>routeEntries := (routeEntries (liveStore s))(k := None)\<rparr>\<rparr>)"

inductive routeReachable :: "route_sys \<Rightarrow> bool" where
  start: "routeReachable \<lparr>liveTables = env, liveStore = \<lparr>routeVersion = 0, routeEntries = Map.empty\<rparr>, pendingChanges = 0, liveLoads = {}\<rparr>"
| step: "routeReachable s \<Longrightarrow> routeStep s t \<Longrightarrow> routeReachable t"

inductive_cases routeStepE: "routeStep s t"

definition cacheFresh :: "route_sys \<Rightarrow> bool" where
  "cacheFresh s \<longleftrightarrow>
     (\<forall>m v. RouteLoading m v \<in> liveLoads s \<longrightarrow> v \<le> routeVersion (liveStore s)) \<and>
     (\<forall>m v cs. RouteLoaded m v cs \<in> liveLoads s \<longrightarrow> v \<le> routeVersion (liveStore s) \<and>
        (pendingChanges s = 0 \<and> v = routeVersion (liveStore s) \<longrightarrow> routeStatic (liveTables s) m = Inr cs)) \<and>
     (\<forall>m v cs. readRouteCache (liveStore s) m v = Some cs \<longrightarrow> v \<le> routeVersion (liveStore s) \<and>
        (pendingChanges s = 0 \<and> v = routeVersion (liveStore s) \<longrightarrow> routeStatic (liveTables s) m = Inr cs))"

lemma readRouteCache_write:
  "readRouteCache (writeRouteCache s m v cs) m' v' =
     (if cs \<noteq> [] \<and> m' = m \<and> v' = v then Some cs else readRouteCache s m' v')"
  by (auto simp: readRouteCache_def writeRouteCache_def)

lemma routeVersion_write [simp]: "routeVersion (writeRouteCache s m v cs) = routeVersion s"
  by (simp add: writeRouteCache_def)

lemma readRouteCache_invalidate [simp]: "readRouteCache (InvalidateRouteCache s) m v = readRouteCache s m v"
  by (simp add: InvalidateRouteCache_def readRouteCache_def)

lemma cacheFresh_step: "routeStep s t \<Longrightarrow> cacheFresh s \<Longrightarrow> cacheFresh t"
proof (erule routeStepE, goal_cases)
  case (3 m v cs)
  then show ?case unfolding cacheFresh_def by (simp add: readRouteCache_write)
next
  case 5
  then show ?case unfolding cacheFresh_def by (auto simp: InvalidateRouteCache_def [of "liveStore s"] readRouteCache_def; fastforce)
next
  case (6 k)
  then show ?case unfolding cacheFresh_def by (auto simp: readRouteCache_def split: if_splits)
qed (auto simp: cacheFresh_def)

lemma routeReachable_fresh: "routeReachable s \<Longrightarrow> cacheFresh s"
proof (induction rule: routeReachable.induct)
  case (start env)
  show ?case by (simp add: cacheFresh_def readRouteCache_def)
qed (rule cacheFresh_step)


definition exampleChannel :: "id \<Rightarrow> int \<Rightarrow> u64 \<Rightarrow> ChannelRow" where
  "exampleChannel i p w = \<lparr>chId = i, chName = ''c'', chType = ''openai'', chBaseUrl = ''u'', chManagementKeyCipher = [],
     chOrganizationId = [], chProjectId = [], chProxyUrlCipher = [], chAdvancedConfig = [], chPriority = p,
     chWeight = w, chCreatedByUserId = 3\<rparr>"

definition exampleModelRow :: "id \<Rightarrow> id \<Rightarrow> int \<Rightarrow> ChannelModelRow" where
  "exampleModelRow i ch hs = \<lparr>cmId = i, cmChannelId = ch, cmPublicName = ''m'', cmUpstreamName = ''up'',
     cmHealthScore = hs, cmClosedWindowsJson = []\<rparr>"

definition exampleRouteEnv :: routeEnv where
  "exampleRouteEnv = \<lparr>modelRows = \<lambda>_. Some [exampleModelRow 10 7 100, exampleModelRow 11 2 40],
     channelRows = \<lambda>_. Some [exampleChannel 7 5 3, exampleChannel 2 9 4], memberRows = \<lambda>_. Some [],
     activeGroups = \<lambda>_. Some [], routeCredEnv = exampleCredEnv, routeTree = \<lambda>_. None\<rparr>"

definition exampleCandidate :: "id \<Rightarrow> id \<Rightarrow> int \<Rightarrow> u64 \<Rightarrow> int \<Rightarrow> Candidate" where
  "exampleCandidate i ch p w hs =
     newCandidate (exampleModelRow i ch hs) (exampleChannel ch p w) DefaultAdvancedConfig []"

lemma example_static:
  "routeStatic exampleRouteEnv ''m'' = Inr [exampleCandidate 10 7 5 3 100, exampleCandidate 11 2 9 4 40]"
  by (simp add: routeStatic_def exampleRouteEnv_def activeRouteChannels_def exampleModelRow_def
      exampleChannel_def ParseAdvancedConfig_def channelGroupIDs_def HasAvailableCredential_def
      example_available exampleRows_def exampleCandidate_def sortedRouteIDs_def dedupOn_def)

definition exampleKey :: AuthKey where
  "exampleKey = \<lparr>keyId = 1, keyUserId = 3, AllowedModels = [''m''], UserChannelGroupIDs = []\<rparr>"


text \<open>
  C13: a routed request gets exactly the candidates of the model that are not closed at that
  moment, that the caller's group policy allows (its own channels, and channels with an active
  group it belongs to; a channel without groups is only its creator's), and that the key's list
  of models allows by the requested or the public name; each once, highest priority first.
\<close>

theorem routed_candidates:
  assumes "routeWithPolicy env zones at rnd st key model = (Inr cs, st')"
  shows "\<exists>base. (readRouteCache st model (routeVersion st) = Some base \<or> routeStatic env model = Inr base) \<and>
    mset cs = mset (filter (\<lambda>c.
        \<not> candidateClosedAt (routeTree env) zones c at \<and>
        (CreatedByUserID c \<noteq> 0 \<and> CreatedByUserID c = keyUserId key \<or>
         set (GroupIDs c) \<inter> set (UserChannelGroupIDs key) \<noteq> {}) \<and>
        (AllowedModels key = [] \<or> model \<in> set (AllowedModels key) \<or> PublicName c \<in> set (AllowedModels key))) base) \<and>
    sorted_wrt (\<lambda>a b. Priority b \<le> Priority a) cs"
proof -
  have contains: "containsString vs v \<longleftrightarrow> v \<in> set vs" for vs v by (induction vs) auto
  have policy: "keyAllowsGroupPolicy key i gs us \<longleftrightarrow> (i \<noteq> 0 \<and> i = keyUserId key \<or> set gs \<inter> set us \<noteq> {})" for i gs us
    by (auto simp: keyAllowsGroupPolicy_def list_ex_iff)
  have closed: "filterClosedCandidates tree zones at xs = filter (\<lambda>c. \<not> candidateClosedAt tree zones c at) xs" for tree xs
    by (auto simp: filterClosedCandidates_def)
  from assms obtain ordered where
    ordered: "routeCached env zones at rnd st model key = (Inr ordered, st')"
    and cs: "cs = filterCandidatesByAllowedModels key model ordered"
    by (auto simp: routeWithPolicy_def Let_def split: prod.splits sum.splits if_splits)
  from ordered obtain base where
    base: "readRouteCache st model (routeVersion st) = Some base \<or> routeStatic env model = Inr base"
    and fin: "filterCandidates rnd (filterClosedCandidates (routeTree env) zones at base) key [] = Some ordered"
    by (auto simp: routeCached_def orPanic_def Let_def split: option.splits sum.splits if_splits)
  note spec = weightedOrder_spec [OF fin [unfolded filterCandidates_def]]
  have allowed: "cs = filter (\<lambda>c. AllowedModels key = [] \<or> model \<in> set (AllowedModels key) \<or>
      PublicName c \<in> set (AllowedModels key)) ordered"
    unfolding cs filterCandidatesByAllowedModels_def contains by auto
  have "sorted_wrt (\<lambda>a b. Priority b \<le> Priority a) cs"
    unfolding allowed using spec(2) by (rule sorted_wrt_filter)
  moreover have "mset cs = mset (filter (\<lambda>c.
        \<not> candidateClosedAt (routeTree env) zones c at \<and>
        (CreatedByUserID c \<noteq> 0 \<and> CreatedByUserID c = keyUserId key \<or>
         set (GroupIDs c) \<inter> set (UserChannelGroupIDs key) \<noteq> {}) \<and>
        (AllowedModels key = [] \<or> model \<in> set (AllowedModels key) \<or> PublicName c \<in> set (AllowedModels key))) base)"
    unfolding allowed mset_filter spec(1) by (simp add: closed policy filter_filter_mset conj_commute conj_left_commute)
  ultimately show ?thesis using base by blast
qed

text \<open>
  Within a priority the first pick is fair.  With weights as the database stores them, of the
  random numbers below the total exactly this many draw a candidate: its weight (at least 1),
  cut in proportion to its health score when that is known and below 80, but never below 1.
\<close>

theorem route_draw_is_fair:
  assumes "\<forall>c \<in> set pool. unat (Weight c) < 2 ^ 32" "length pool < 2 ^ 32" "i < length pool"
  shows "card {r. r < totalWeight candWeight pool \<and> selectIndex (of_nat r) pool = i} =
    (let c = pool ! i; w = max 1 (unat (Weight c)) in
     case HealthScore c of None \<Rightarrow> w
     | Some hs \<Rightarrow> if 80 \<le> hs then w else max 1 (w * nat hs div 80))"
  using routeDraw.share_card [of pool i] weightsFit_small [of pool] assms candWeight_eq [of "pool ! i"]
  unfolding Let_def by simp


theorem route_draw_is_fair_witness:
  "card {r. r < totalWeight candWeight [exampleCandidate 10 7 5 3 100, exampleCandidate 11 2 5 4 40] \<and>
      selectIndex (of_nat r) [exampleCandidate 10 7 5 3 100, exampleCandidate 11 2 5 4 40] = 1} =
    (let c = [exampleCandidate 10 7 5 3 100, exampleCandidate 11 2 5 4 40] ! 1; w = max 1 (unat (Weight c)) in
     case HealthScore c of None \<Rightarrow> w
     | Some hs \<Rightarrow> if 80 \<le> hs then w else max 1 (w * nat hs div 80))"
  by (rule route_draw_is_fair) (simp_all add: exampleCandidate_def newCandidate_def exampleChannel_def)

lemma example_weights:
  "candidateWeight (exampleCandidate 10 7 5 3 100) = 3" "candidateWeight (exampleCandidate 11 2 9 4 40) = 2"
  by (simp_all add: candidateWeight_def exampleCandidate_def newCandidate_def exampleChannel_def
      exampleModelRow_def ModelHealthWeightThreshold_def)

lemma example_order:
  "weightedOrder (\<lambda>_ _. 0) [exampleCandidate 10 7 5 3 100, exampleCandidate 11 2 9 4 40] =
     Some [exampleCandidate 11 2 9 4 40, exampleCandidate 10 7 5 3 100]"
proof -
  have prio: "Priority (exampleCandidate 10 7 5 3 100) = 5" "Priority (exampleCandidate 11 2 9 4 40) = 9"
    by (simp_all add: exampleCandidate_def newCandidate_def exampleChannel_def)
  have single: "orderPool (\<lambda>_ _. 0) k [c] = Some [c]" for k c
    using candidateWeight_pos [of c]
    by (simp add: orderPool.simps [of _ _ "[c]"] orderPool.simps [of _ _ "[]"] selectIndex_def removeNth_def word_gt_0)
  show ?thesis by (simp add: weightedOrder_def prio dedupOn_def single)
qed

theorem routed_candidates_witness:
  "\<exists>base. (readRouteCache \<lparr>routeVersion = 0, routeEntries = Map.empty\<rparr> ''m'' (routeVersion \<lparr>routeVersion = 0, routeEntries = Map.empty\<rparr>) = Some base \<or>
       routeStatic exampleRouteEnv ''m'' = Inr base) \<and>
    mset [exampleCandidate 11 2 9 4 40, exampleCandidate 10 7 5 3 100] = mset (filter (\<lambda>c.
        \<not> candidateClosedAt (routeTree exampleRouteEnv) exampleZones c 0 \<and>
        (CreatedByUserID c \<noteq> 0 \<and> CreatedByUserID c = keyUserId exampleKey \<or>
         set (GroupIDs c) \<inter> set (UserChannelGroupIDs exampleKey) \<noteq> {}) \<and>
        (AllowedModels exampleKey = [] \<or> ''m'' \<in> set (AllowedModels exampleKey) \<or>
         PublicName c \<in> set (AllowedModels exampleKey))) base) \<and>
    sorted_wrt (\<lambda>a b. Priority b \<le> Priority a) [exampleCandidate 11 2 9 4 40, exampleCandidate 10 7 5 3 100]"
proof (rule routed_candidates)
  let ?st = "\<lparr>routeVersion = 0, routeEntries = Map.empty\<rparr> :: routeStore"
  let ?cs = "[exampleCandidate 10 7 5 3 100, exampleCandidate 11 2 9 4 40]"
  have pass: "filter (\<lambda>c. keyAllowsGroupPolicy exampleKey (CreatedByUserID c) (GroupIDs c) (UserChannelGroupIDs exampleKey)) ?cs = ?cs"
    and open': "filterClosedCandidates (routeTree exampleRouteEnv) exampleZones 0 ?cs = ?cs"
    by (simp_all add: keyAllowsGroupPolicy_def exampleKey_def filterClosedCandidates_def candidateClosedAt_def
        exampleCandidate_def newCandidate_def exampleChannel_def exampleModelRow_def)
  have cached: "routeCached exampleRouteEnv exampleZones 0 (\<lambda>_ _. 0) ?st ''m'' exampleKey =
      (Inr (rev ?cs), writeRouteCache ?st ''m'' 0 ?cs)"
    unfolding routeCached_def Let_def filterCandidates_def
    by (simp add: readRouteCache_def example_static open' pass orPanic_def example_order del: filter.simps)
  show "routeWithPolicy exampleRouteEnv exampleZones 0 (\<lambda>_ _. 0) ?st exampleKey ''m'' =
      (Inr [exampleCandidate 11 2 9 4 40, exampleCandidate 10 7 5 3 100], writeRouteCache ?st ''m'' 0 ?cs)"
    unfolding routeWithPolicy_def cached
    by (simp add: filterCandidatesByAllowedModels_def exampleKey_def)
qed

text \<open>
  With weights as the database stores them the order never panics on an empty total, keeps
  every candidate exactly once and puts higher priorities first, whatever is drawn.
\<close>

theorem weighted_order_total:
  assumes "\<forall>c \<in> set cs. unat (Weight c) < 2 ^ 32" "length cs < 2 ^ 32"
  shows "\<exists>os. weightedOrder rnd cs = Some os \<and> mset os = mset cs \<and>
    sorted_wrt (\<lambda>a b. Priority b \<le> Priority a) os"
  using weightedOrder_total [OF weightsFit_small [OF assms], of rnd] weightedOrder_spec by blast

theorem weighted_order_total_witness:
  "\<exists>os. weightedOrder (\<lambda>_ _. 2) [exampleCandidate 10 7 5 3 100, exampleCandidate 11 2 5 0 (- 4)] = Some os \<and>
    mset os = mset [exampleCandidate 10 7 5 3 100, exampleCandidate 11 2 5 0 (- 4)] \<and>
    sorted_wrt (\<lambda>a b. Priority b \<le> Priority a) os"
  by (rule weighted_order_total) (simp_all add: exampleCandidate_def newCandidate_def exampleChannel_def)

subsection \<open>The order of a conversation is kept\<close>

definition ownQueues :: "(id \<Rightarrow> Candidate list) \<Rightarrow> bool" where
  "ownQueues pending \<longleftrightarrow> (\<forall>ch. \<forall>c \<in> set (pending ch). ChannelID c = ch)"

lemma ownQueues_start: "ownQueues (\<lambda>ch. candidateQueue ch cs)"
  by (simp add: ownQueues_def)

text \<open>Taking \<open>n\<close> times from a channel takes the first \<open>n\<close> of its queue, in order.\<close>

lemma takePending_spec:
  "ownQueues pending \<Longrightarrow> takePending chs pending = (taken, pending') \<Longrightarrow>
     ownQueues pending' \<and> (\<forall>ch. filter (\<lambda>c. ChannelID c = ch) taken @ pending' ch = pending ch \<and>
       pending' ch = drop (count_list chs ch) (pending ch))"
proof (induction chs arbitrary: pending taken pending')
  case (Cons x chs)
  show ?case
  proof (cases "pending x")
    case Nil
    with Cons.prems(2) have "takePending chs pending = (taken, pending')" by simp
    note IH = Cons.IH [OF Cons.prems(1) this]
    show ?thesis
    proof (intro conjI allI)
      fix ch
      show "pending' ch = drop (count_list (x # chs) ch) (pending ch)"
        using IH Nil by (cases "ch = x") auto
    qed (use IH in blast)+
  next
    case (Cons c queue)
    note head = this
    let ?next = "pending(x := queue)"
    obtain taken0 where rec: "takePending chs ?next = (taken0, pending')" and taken: "taken = c # taken0"
      using Cons.prems(2) head by (auto split: prod.splits)
    have own: "ownQueues ?next" and c: "ChannelID c = x"
      using Cons.prems(1) head by (auto simp: ownQueues_def)
    note IH = Cons.IH [OF own rec]
    show ?thesis
    proof (intro conjI allI)
      fix ch
      from IH have "filter (\<lambda>c. ChannelID c = ch) taken0 @ pending' ch = ?next ch" by blast
      then show "filter (\<lambda>c. ChannelID c = ch) taken @ pending' ch = pending ch"
        using head c taken by (auto split: if_splits)
      show "pending' ch = drop (count_list (x # chs) ch) (pending ch)"
        using IH head by auto
    qed (use IH in blast)
  qed
qed simp

lemma affinity_per_channel:
  "filter (\<lambda>c. ChannelID c = ch) (applyConversationChannelAffinity cs pinned) = filter (\<lambda>c. ChannelID c = ch) cs"
proof (cases "pinned = [] \<or> cs = []")
  case False
  let ?queues = "\<lambda>ch. candidateQueue ch cs"
  obtain first p1 where one: "takePending pinned ?queues = (first, p1)" by fastforce
  obtain rest p2 where two: "takePending (map ChannelID cs) p1 = (rest, p2)" by fastforce
  from takePending_spec [OF ownQueues_start one] have own: "ownQueues p1"
    and q1: "\<And>ch. filter (\<lambda>c. ChannelID c = ch) first @ p1 ch = ?queues ch"
      "\<And>ch. p1 ch = drop (count_list pinned ch) (?queues ch)" by blast+
  from takePending_spec [OF own two] have q2: "filter (\<lambda>c. ChannelID c = ch) rest @ p2 ch = p1 ch"
    "p2 ch = drop (count_list (map ChannelID cs) ch) (p1 ch)" by blast+
  have "count_list (map ChannelID cs) ch = length (?queues ch)" by (induction cs) auto
  then have "p2 ch = []" using q2(2) q1(2) [of ch] by simp
  moreover have "applyConversationChannelAffinity cs pinned = first @ rest"
    using False one two by (simp add: applyConversationChannelAffinity_def del: candidateQueue.simps)
  ultimately show ?thesis using q1(1) [of ch] q2(1) by simp
qed (auto simp: applyConversationChannelAffinity_def)

interpretation affinity: candidate_reorder "\<lambda>pinned cs. Some (applyConversationChannelAffinity cs pinned)"
proof (unfold_locales, goal_cases)
  case (1 pinned xs ys)
  then have ys: "ys = applyConversationChannelAffinity xs pinned" by simp
  have "count (mset zs) c = count (mset (filter (\<lambda>d. ChannelID d = ChannelID c) zs)) c" for zs c
    by (simp add: count_mset)
  then show ?case using affinity_per_channel unfolding ys by (metis multiset_eqI)
qed

lemma takePending_single:
  "\<forall>ch. length (pending ch) \<le> 1 \<Longrightarrow> ownQueues pending \<Longrightarrow> \<forall>ch \<in> set seen. pending ch = [] \<Longrightarrow>
     map ChannelID (fst (takePending chs pending)) = filter (\<lambda>ch. pending ch \<noteq> []) (dedupGo (\<lambda>ch. ch) seen chs)"
proof (induction chs arbitrary: pending seen)
  case (Cons x chs)
  show ?case
  proof (cases "pending x")
    case Nil
    with Cons.prems show ?thesis using Cons.IH [of pending seen] Cons.IH [of pending "x # seen"] by auto
  next
    case (Cons c queue)
    then have single: "pending x = [c]" "queue = []" using Cons.prems(1) [rule_format, of x] by auto
    let ?next = "pending(x := [])"
    have "map ChannelID (fst (takePending chs ?next)) = filter (\<lambda>ch. ?next ch \<noteq> []) (dedupGo (\<lambda>ch. ch) (x # seen) chs)"
      using Cons.prems by (intro Cons.IH) (auto simp: ownQueues_def)
    moreover have "x \<notin> set (dedupGo (\<lambda>ch. ch) (x # seen) chs)"
      using dedupGo_keys [of "\<lambda>ch. ch" "x # seen" chs] by auto
    then have "filter (\<lambda>ch. ?next ch \<noteq> []) (dedupGo (\<lambda>ch. ch) (x # seen) chs) =
        filter (\<lambda>ch. pending ch \<noteq> []) (dedupGo (\<lambda>ch. ch) (x # seen) chs)"
      by (intro filter_cong) auto
    moreover have "ChannelID c = x" "x \<notin> set seen"
      using Cons.prems(2,3) single by (auto simp: ownQueues_def)
    ultimately show ?thesis using single by (simp add: case_prod_beta)
  qed
qed simp

text \<open>
  A conversation keeps its channel order.  The candidates are only reordered (none is lost or
  served twice, and candidates of one channel stay in order), and when every channel appears
  once, the channels of the remembered order that are available come first, in that order, and
  the others follow in the order of this request: a channel that recovers is back in its place.
\<close>

theorem conversation_order_kept:
  "mset (applyConversationChannelAffinity cs pinned) = mset cs \<and>
   (distinct (map ChannelID cs) \<longrightarrow>
     map ChannelID (applyConversationChannelAffinity cs pinned) =
       filter (\<lambda>ch. ch \<in> ChannelID ` set cs) (dedupOn (\<lambda>ch. ch) pinned) @
       filter (\<lambda>ch. ch \<notin> set pinned) (map ChannelID cs))"
proof (intro conjI impI)
  show "mset (applyConversationChannelAffinity cs pinned) = mset cs" using affinity.same by blast
next
  assume dist: "distinct (map ChannelID cs)"
  show "map ChannelID (applyConversationChannelAffinity cs pinned) =
       filter (\<lambda>ch. ch \<in> ChannelID ` set cs) (dedupOn (\<lambda>ch. ch) pinned) @
       filter (\<lambda>ch. ch \<notin> set pinned) (map ChannelID cs)"
  proof (cases "pinned = [] \<or> cs = []")
    case False
    let ?queues = "\<lambda>ch. candidateQueue ch cs"
    obtain first p1 where one: "takePending pinned ?queues = (first, p1)" by fastforce
    obtain rest p2 where two: "takePending (map ChannelID cs) p1 = (rest, p2)" by fastforce
    have len: "\<forall>ch. length (?queues ch) \<le> 1"
      using dist by (induction cs) (fastforce simp: filter_empty_conv image_iff)+
    from takePending_spec [OF ownQueues_start one] have own: "ownQueues p1"
      and p1: "\<And>ch. p1 ch = drop (count_list pinned ch) (?queues ch)" by auto
    have some: "?queues ch \<noteq> [] \<longleftrightarrow> ch \<in> ChannelID ` set cs" for ch by (auto simp: filter_empty_conv)
    have first: "map ChannelID first = filter (\<lambda>ch. ch \<in> ChannelID ` set cs) (dedupOn (\<lambda>ch. ch) pinned)"
      using takePending_single [OF len ownQueues_start, of "[]" pinned] one some by (simp add: dedupOn_def)
    have left: "p1 ch \<noteq> [] \<longleftrightarrow> ch \<in> ChannelID ` set cs \<and> ch \<notin> set pinned" for ch
    proof -
      have "count_list pinned ch = 0 \<longleftrightarrow> ch \<notin> set pinned" by (simp add: count_list_0_iff)
      then show ?thesis using p1 [of ch] some [of ch] len [rule_format, of ch] by auto
    qed
    have "\<forall>ch. length (p1 ch) \<le> 1" by (metis p1 len diff_le_self le_trans length_drop)
    from takePending_single [OF this own, of "[]" "map ChannelID cs"] two
    have "map ChannelID rest = filter (\<lambda>ch. p1 ch \<noteq> []) (dedupOn (\<lambda>ch. ch) (map ChannelID cs))"
      by (simp add: dedupOn_def)
    also have "dedupOn (\<lambda>ch. ch) (map ChannelID cs) = map ChannelID cs"
      using dist by (intro dedupOn_fixed) simp
    also have "filter (\<lambda>ch. p1 ch \<noteq> []) (map ChannelID cs) = filter (\<lambda>ch. ch \<notin> set pinned) (map ChannelID cs)"
      using left by (intro filter_cong) auto
    finally have "map ChannelID rest = filter (\<lambda>ch. ch \<notin> set pinned) (map ChannelID cs)" .
    moreover have "applyConversationChannelAffinity cs pinned = first @ rest"
      using False one two by (simp add: applyConversationChannelAffinity_def del: candidateQueue.simps)
    ultimately show ?thesis using first by simp
  qed (auto simp: applyConversationChannelAffinity_def)
qed

theorem conversation_order_kept_witness:
  "mset (applyConversationChannelAffinity [exampleCandidate 10 7 5 3 100, exampleCandidate 11 2 9 4 40] [2, 9]) =
     mset [exampleCandidate 10 7 5 3 100, exampleCandidate 11 2 9 4 40] \<and>
   map ChannelID (applyConversationChannelAffinity [exampleCandidate 10 7 5 3 100, exampleCandidate 11 2 9 4 40] [2, 9]) = [2, 7]"
  using conversation_order_kept [of "[exampleCandidate 10 7 5 3 100, exampleCandidate 11 2 9 4 40]" "[2, 9]"]
  by (simp add: exampleCandidate_def newCandidate_def exampleChannel_def dedupOn_def)

end
