(* ===== verification/Key_Slots.thy ===== *)
theory Key_Slots
  imports Credentials
begin

text \<open>
  \<^verbatim>\<open>internal/logic/relay/concurrency.go\<close>: the counters of requests in flight per channel and
  upstream key, and the loop that takes a slot or waits for one.

  The code keeps \<^verbatim>\<open>*keySlotEntry\<close> pointers in a map and in the release closures, so the model
  has an explicit heap of entries.  The \<^verbatim>\<open>released\<close> channel, closed and replaced by every
  release, is a generation number: the channel of generation \<open>g\<close> is closed when the current
  generation is larger.  Every operation runs under the mutex and is one step.
\<close>

definition keyConcurrencyWaitWindow :: duration where
  "keyConcurrencyWaitWindow = seconds 60"

definition candidateConcurrencyWaitWindow :: "bool \<Rightarrow> duration" where
  "candidateConcurrencyWaitWindow isLastCandidate = (if isLastCandidate then keyConcurrencyWaitWindow else 0)"

definition keySlotIdleTTL :: duration where
  "keySlotIdleTTL = minutes 10"

definition keySlotSweepInterval :: duration where
  "keySlotSweepInterval = minutes 1"

datatype slot_key = KeySlotKey (channelID: id) (credentialID: id)

type_synonym addr = nat

record keySlotEntry =
  active :: int
  lastSeenAt :: gotime

record keySlots =
  entries :: "slot_key \<rightharpoonup> addr"
  heap :: "addr \<Rightarrow> keySlotEntry"
  nextAddr :: addr
  released :: nat
  lastSweep :: gotime

text \<open>The zero \<^verbatim>\<open>time.Time\<close> is 0001-01-01, the Unix second -62135596800.\<close>

definition zeroTime :: gotime where
  "zeroTime = seconds (- 62135596800)"

definition newKeySlots :: keySlots where
  "newKeySlots = \<lparr>entries = (\<lambda>_. None), heap = (\<lambda>_. \<lparr>active = 0, lastSeenAt = zeroTime\<rparr>),
     nextAddr = 0, released = 0, lastSweep = zeroTime\<rparr>"

definition Notify :: "keySlots \<Rightarrow> nat" where
  "Notify l = released l"

definition chanClosed :: "keySlots \<Rightarrow> nat \<Rightarrow> bool" where
  "chanClosed l g \<longleftrightarrow> g < released l"

definition entryFor :: "keySlots \<Rightarrow> slot_key \<Rightarrow> gotime \<Rightarrow> keySlots \<times> addr" where
  "entryFor l key now =
     (case entries l key of
        None \<Rightarrow>
          (let a = nextAddr l
           in (l\<lparr>entries := (entries l)(key \<mapsto> a),
                 heap := (heap l)(a := \<lparr>active = 0, lastSeenAt = now\<rparr>), nextAddr := Suc a\<rparr>, a))
      | Some a \<Rightarrow> (l\<lparr>heap := (heap l)(a := (heap l a)\<lparr>lastSeenAt := now\<rparr>)\<rparr>, a))"

definition sweep :: "keySlots \<Rightarrow> gotime \<Rightarrow> keySlots" where
  "sweep l now =
     (if now - lastSweep l < keySlotSweepInterval then l
      else l\<lparr>lastSweep := now,
             entries := (\<lambda>key. case entries l key of
                 None \<Rightarrow> None
               | Some a \<Rightarrow> if active (heap l a) = 0 \<and> now - lastSeenAt (heap l a) \<ge> keySlotIdleTTL
                           then None else Some a)\<rparr>)"

definition setActive :: "keySlots \<Rightarrow> addr \<Rightarrow> int \<Rightarrow> keySlots" where
  "setActive l a n = l\<lparr>heap := (heap l)(a := (heap l a)\<lparr>active := n\<rparr>)\<rparr>"

text \<open>The answer of \<^verbatim>\<open>TryAcquire\<close>: no limit to count against, a full key, or the entry whose
  counter the returned closure gives back.\<close>

datatype 'a grant = Unlimited | Full | Granted 'a

definition TryAcquire :: "keySlots \<Rightarrow> slot_key \<Rightarrow> int \<Rightarrow> gotime \<Rightarrow> keySlots \<times> addr grant" where
  "TryAcquire l key limit now =
     (if limit \<le> 0 then (l, Unlimited)
      else let (l', a) = entryFor (sweep l now) key now
           in if active (heap l' a) \<ge> limit then (l', Full)
              else (setActive l' a (active (heap l' a) + 1), Granted a))"

definition release :: "keySlots \<Rightarrow> addr \<Rightarrow> keySlots" where
  "release l a =
     (if active (heap l a) > 0 then setActive l a (active (heap l a) - 1) else l)\<lparr>released := Suc (released l)\<rparr>"

subsection \<open>What a table of slots promises\<close>

text \<open>
  The interface between the counters and whoever takes slots from them: \<open>used\<close> counts the slots
  taken of a key and \<open>holds\<close> says that giving back the grant reaches the counter of the key.
\<close>

locale slot_table =
  fixes tryAcq :: "'s \<Rightarrow> 'k \<Rightarrow> int \<Rightarrow> gotime \<Rightarrow> 's \<times> 'a grant"
    and give :: "'s \<Rightarrow> 'a \<Rightarrow> 's"
    and used :: "'s \<Rightarrow> 'k \<Rightarrow> nat"
    and holds :: "'s \<Rightarrow> 'k \<Rightarrow> 'a \<Rightarrow> bool"
    and invar :: "'s \<Rightarrow> bool"
  assumes invar_try: "invar s \<Longrightarrow> tryAcq s k l t = (s', g) \<Longrightarrow> invar s'"
    and invar_give: "invar s \<Longrightarrow> invar (give s a)"
    and try_granted: "invar s \<Longrightarrow> tryAcq s k l t = (s', Granted a) \<Longrightarrow>
      holds s' k a \<and> used s k < nat l \<and> used s' k = Suc (used s k)"
    and try_refused: "invar s \<Longrightarrow> tryAcq s k l t = (s', g) \<Longrightarrow> (\<And>a. g \<noteq> Granted a) \<Longrightarrow> used s' k = used s k"
    and try_full: "invar s \<Longrightarrow> tryAcq s k l t = (s', Full) \<Longrightarrow> nat l \<le> used s k"
    and try_frame: "invar s \<Longrightarrow> tryAcq s k l t = (s', g) \<Longrightarrow> k' \<noteq> k \<Longrightarrow> used s' k' = used s k'"
    and holds_try: "invar s \<Longrightarrow> holds s k a \<Longrightarrow> 0 < used s k \<Longrightarrow> tryAcq s k' l t = (s', g) \<Longrightarrow> holds s' k a"
    and holds_give: "holds s k a \<Longrightarrow> holds (give s b) k a"
    and give_used: "invar s \<Longrightarrow> holds s k a \<Longrightarrow> 0 < used s k \<Longrightarrow>
      used (give s a) = (used s)(k := used s k - 1)"
begin

text \<open>The counters agree with the grants handed out and not yet given back.\<close>

definition agrees :: "'s \<Rightarrow> ('k \<times> 'a) multiset \<Rightarrow> bool" where
  "agrees s T \<longleftrightarrow> invar s \<and> (\<forall>k. used s k = size (filter_mset (\<lambda>t. fst t = k) T)) \<and> (\<forall>(k, a) \<in># T. holds s k a)"

lemma agrees_used_pos: "agrees s T \<Longrightarrow> (k, a) \<in># T \<Longrightarrow> 0 < used s k"
  by (auto simp: agrees_def) (metis (mono_tags, lifting) filter_mset_eq_conv fst_conv nonempty_has_size
      set_mset_empty equals0D mem_Collect_eq set_mset_filter)

lemma agrees_holds: "agrees s T \<Longrightarrow> (k, a) \<in># T \<Longrightarrow> holds s k a"
  by (auto simp: agrees_def)

lemma agrees_granted:
  assumes "agrees s T" "tryAcq s k l t = (s', Granted a)"
  shows "agrees s' (add_mset (k, a) T)"
proof -
  have "used s' k' = size (filter_mset (\<lambda>t. fst t = k') (add_mset (k, a) T))" for k'
    using assms try_granted [OF _ assms(2)] try_frame [OF _ assms(2)] by (auto simp: agrees_def)
  moreover have "holds s' k' b" if "(k', b) \<in># T" for k' b
    using that assms(1) agrees_holds agrees_used_pos [OF assms(1) that]
    by (intro holds_try [OF _ _ _ assms(2)]) (auto simp: agrees_def)
  ultimately show ?thesis
    using assms invar_try [OF _ assms(2)] try_granted [OF _ assms(2)] by (auto simp: agrees_def)
qed

lemma agrees_refused:
  assumes "agrees s T" "tryAcq s k l t = (s', g)" "\<And>a. g \<noteq> Granted a"
  shows "agrees s' T"
proof -
  have "used s' k' = used s k'" for k'
    using assms try_refused [OF _ assms(2,3)] try_frame [OF _ assms(2)]
    by (cases "k' = k") (auto simp: agrees_def)
  moreover have "holds s' k' b" if "(k', b) \<in># T" for k' b
    using that assms(1) agrees_holds agrees_used_pos [OF assms(1) that]
    by (intro holds_try [OF _ _ _ assms(2)]) (auto simp: agrees_def)
  ultimately show ?thesis using assms invar_try [OF _ assms(2)] by (auto simp: agrees_def)
qed

lemma agrees_give:
  assumes "agrees s T" "(k, a) \<in># T"
  shows "agrees (give s a) (T - {#(k, a)#})"
proof -
  have "used (give s a) = (used s)(k := used s k - 1)"
    using assms agrees_used_pos by (intro give_used) (auto simp: agrees_def)
  moreover obtain T' where T: "T = add_mset (k, a) T'" using assms(2) by (meson multi_member_split)
  ultimately show ?thesis
    using assms invar_give by (auto simp: agrees_def holds_give)
qed

end

subsection \<open>The counters keep the promise\<close>

definition slotInvar :: "keySlots \<Rightarrow> bool" where
  "slotInvar l \<longleftrightarrow>
     (\<forall>k a. entries l k = Some a \<longrightarrow> a < nextAddr l \<and> 0 \<le> active (heap l a)) \<and>
     (\<forall>k k' a. entries l k = Some a \<longrightarrow> entries l k' = Some a \<longrightarrow> k = k')"

definition slotUsed :: "keySlots \<Rightarrow> slot_key \<Rightarrow> nat" where
  "slotUsed l k = (case entries l k of None \<Rightarrow> 0 | Some a \<Rightarrow> nat (active (heap l a)))"

definition slotHolds :: "keySlots \<Rightarrow> slot_key \<Rightarrow> addr \<Rightarrow> bool" where
  "slotHolds l k a \<longleftrightarrow> entries l k = Some a"

lemma sweep_props:
  assumes "slotInvar l"
  shows "slotInvar (sweep l now)" "slotUsed (sweep l now) = slotUsed l"
    "slotHolds l k a \<Longrightarrow> 0 < slotUsed l k \<Longrightarrow> slotHolds (sweep l now) k a"
  using assms
  by (auto simp: sweep_def slotInvar_def slotUsed_def slotHolds_def fun_eq_iff
      split: option.splits if_splits)

lemma slotInvar_fresh: "slotInvar l \<Longrightarrow> entries l k \<noteq> Some (nextAddr l)"
  by (auto simp: slotInvar_def)

lemma slotInvar_inj: "slotInvar l \<Longrightarrow> entries l k = Some a \<Longrightarrow> entries l k' = Some a \<Longrightarrow> k = k'"
  by (auto simp: slotInvar_def)

lemma slotInvar_entry: "slotInvar l \<Longrightarrow> entries l k = Some a \<Longrightarrow> a < nextAddr l \<and> 0 \<le> active (heap l a)"
  by (auto simp: slotInvar_def)

lemma entryFor_props:
  assumes "slotInvar l" "entryFor l key now = (l', a)"
  shows "slotInvar l'" "slotUsed l' = slotUsed l" "slotHolds l' key a" "a < nextAddr l'"
    "slotHolds l k b \<Longrightarrow> slotHolds l' k b"
proof -
  have "slotInvar l' \<and> slotUsed l' = slotUsed l \<and> slotHolds l' key a \<and> a < nextAddr l' \<and>
      (slotHolds l k b \<longrightarrow> slotHolds l' k b)"
  proof (cases "entries l key")
    case None
    with assms(2) [symmetric] have l': "a = nextAddr l"
      "l' = l\<lparr>entries := (entries l)(key \<mapsto> a), heap := (heap l)(a := \<lparr>active = 0, lastSeenAt = now\<rparr>), nextAddr := Suc a\<rparr>"
      by (simp_all add: entryFor_def Let_def)
    note old = slotInvar_entry [OF assms(1)] slotInvar_fresh [OF assms(1)] slotInvar_inj [OF assms(1)]
    have "slotInvar l'"
      using old by (auto simp: slotInvar_def l' less_Suc_eq)
    moreover have "slotUsed l' k = slotUsed l k" for k
      using old(2) [of k] None by (auto simp: slotUsed_def l' split: option.splits)
    ultimately show ?thesis using None by (auto simp: l' slotHolds_def fun_eq_iff)
  next
    case (Some b)
    with assms(2) have "l' = l\<lparr>heap := (heap l)(b := (heap l b)\<lparr>lastSeenAt := now\<rparr>)\<rparr>" "a = b"
      by (auto simp: entryFor_def)
    with assms(1) Some show ?thesis
      by (auto simp: slotInvar_def slotHolds_def slotUsed_def fun_eq_iff split: option.splits)
  qed
  then show "slotInvar l'" "slotUsed l' = slotUsed l" "slotHolds l' key a" "a < nextAddr l'"
    "slotHolds l k b \<Longrightarrow> slotHolds l' k b" by auto
qed

lemma setActive_props:
  assumes "slotInvar l" "slotHolds l key a" "0 \<le> n"
  shows "slotInvar (setActive l a n)" "slotUsed (setActive l a n) = (slotUsed l)(key := nat n)"
    "slotHolds (setActive l a n) = slotHolds l"
proof -
  show "slotInvar (setActive l a n)" using assms by (auto simp: slotInvar_def setActive_def)
  show "slotHolds (setActive l a n) = slotHolds l" by (simp add: setActive_def slotHolds_def fun_eq_iff)
  have "slotUsed (setActive l a n) k = ((slotUsed l)(key := nat n)) k" for k
  proof (cases "k = key")
    case True
    with assms(2) show ?thesis by (simp add: slotUsed_def slotHolds_def setActive_def)
  next
    case False
    then have "entries l k \<noteq> Some a"
      using assms(2) slotInvar_inj [OF assms(1), of k a key] by (auto simp: slotHolds_def)
    with False show ?thesis by (auto simp: slotUsed_def setActive_def split: option.split)
  qed
  then show "slotUsed (setActive l a n) = (slotUsed l)(key := nat n)" by blast
qed

lemma slotUsed_held: "slotHolds l k a \<Longrightarrow> slotUsed l k = nat (active (heap l a))"
  by (simp add: slotHolds_def slotUsed_def)

lemma TryAcquire_cases:
  assumes "slotInvar l" "TryAcquire l key limit now = (l', g)"
  shows "(g = Unlimited \<and> l' = l) \<or>
    (\<exists>m a. slotInvar m \<and> slotUsed m = slotUsed l \<and> slotHolds m key a \<and> 0 < limit \<and>
       (\<forall>k b. slotHolds l k b \<longrightarrow> 0 < slotUsed l k \<longrightarrow> slotHolds m k b) \<and>
       (if limit \<le> active (heap m a) then g = Full \<and> l' = m
        else g = Granted a \<and> l' = setActive m a (active (heap m a) + 1)))"
proof (cases "limit \<le> 0")
  case True
  with assms(2) show ?thesis by (simp add: TryAcquire_def)
next
  case False
  obtain m a where m: "entryFor (sweep l now) key now = (m, a)" by fastforce
  note props = entryFor_props [OF sweep_props(1) [OF assms(1)] m]
  have "\<forall>k b. slotHolds l k b \<longrightarrow> 0 < slotUsed l k \<longrightarrow> slotHolds m k b"
    using props(5) sweep_props(3) [OF assms(1)] by blast
  moreover have "slotUsed m = slotUsed l" using props(2) sweep_props(2) [OF assms(1)] by simp
  moreover have "if limit \<le> active (heap m a) then g = Full \<and> l' = m
        else g = Granted a \<and> l' = setActive m a (active (heap m a) + 1)"
    using assms(2) m False by (auto simp: TryAcquire_def split: if_splits)
  ultimately show ?thesis using props(1,3) False by (intro disjI2 exI [of _ m] exI [of _ a]) simp
qed

lemma TryAcquire_laws:
  assumes inv: "slotInvar l" and acq: "TryAcquire l key limit now = (l', g)"
  shows "slotInvar l'"
    and "g = Granted a \<Longrightarrow> slotHolds l' key a \<and> slotUsed l key < nat limit \<and> slotUsed l' key = Suc (slotUsed l key)"
    and "(\<And>a. g \<noteq> Granted a) \<Longrightarrow> slotUsed l' key = slotUsed l key"
    and "g = Full \<Longrightarrow> nat limit \<le> slotUsed l key"
    and "k' \<noteq> key \<Longrightarrow> slotUsed l' k' = slotUsed l k'"
    and "slotHolds l k' b \<Longrightarrow> 0 < slotUsed l k' \<Longrightarrow> slotHolds l' k' b"
proof -
  consider "g = Unlimited" "l' = l"
    | m c where "slotInvar m" "slotUsed m = slotUsed l" "slotHolds m key c" "0 < limit"
        "\<forall>k b. slotHolds l k b \<longrightarrow> 0 < slotUsed l k \<longrightarrow> slotHolds m k b"
        "if limit \<le> active (heap m c) then g = Full \<and> l' = m
         else g = Granted c \<and> l' = setActive m c (active (heap m c) + 1)"
    using TryAcquire_cases [OF inv acq] by blast
  then have "slotInvar l' \<and>
    (g = Granted a \<longrightarrow> slotHolds l' key a \<and> slotUsed l key < nat limit \<and> slotUsed l' key = Suc (slotUsed l key)) \<and>
    ((\<forall>a. g \<noteq> Granted a) \<longrightarrow> slotUsed l' key = slotUsed l key) \<and> (g = Full \<longrightarrow> nat limit \<le> slotUsed l key) \<and>
    (k' \<noteq> key \<longrightarrow> slotUsed l' k' = slotUsed l k') \<and>
    (slotHolds l k' b \<longrightarrow> 0 < slotUsed l k' \<longrightarrow> slotHolds l' k' b)"
  proof cases
    case 1
    with inv show ?thesis by simp
  next
    case 2
    have used: "slotUsed l key = nat (active (heap m c))" using 2(2) slotUsed_held [OF 2(3)] by simp
    have pos: "0 \<le> active (heap m c)" using slotInvar_entry [OF 2(1)] 2(3) by (auto simp: slotHolds_def)
    show ?thesis
    proof (cases "limit \<le> active (heap m c)")
      case True
      with 2 used show ?thesis by auto
    next
      case False
      have "0 \<le> active (heap m c) + 1" using pos by simp
      note set = setActive_props [OF 2(1,3) this]
      from 2 False set used pos show ?thesis by (auto simp: nat_add_distrib)
    qed
  qed
  then show "slotInvar l'"
    and "g = Granted a \<Longrightarrow> slotHolds l' key a \<and> slotUsed l key < nat limit \<and> slotUsed l' key = Suc (slotUsed l key)"
    and "(\<And>a. g \<noteq> Granted a) \<Longrightarrow> slotUsed l' key = slotUsed l key"
    and "g = Full \<Longrightarrow> nat limit \<le> slotUsed l key"
    and "k' \<noteq> key \<Longrightarrow> slotUsed l' k' = slotUsed l k'"
    and "slotHolds l k' b \<Longrightarrow> 0 < slotUsed l k' \<Longrightarrow> slotHolds l' k' b"
    by blast+
qed

lemma released_frame [simp]:
  "slotInvar (l\<lparr>released := r\<rparr>) = slotInvar l" "slotUsed (l\<lparr>released := r\<rparr>) = slotUsed l"
  "slotHolds (l\<lparr>released := r\<rparr>) = slotHolds l"
  by (auto simp: slotInvar_def slotUsed_def slotHolds_def fun_eq_iff split: option.split)

lemma release_laws:
  shows "slotInvar l \<Longrightarrow> slotInvar (release l a)"
    and "slotHolds (release l b) = slotHolds l"
    and "slotInvar l \<Longrightarrow> slotHolds l k a \<Longrightarrow> 0 < slotUsed l k \<Longrightarrow>
      slotUsed (release l a) = (slotUsed l)(k := slotUsed l k - 1)"
proof -
  show "slotInvar l \<Longrightarrow> slotInvar (release l a)"
    by (auto simp: release_def slotInvar_def setActive_def)
  show "slotHolds (release l b) = slotHolds l"
    by (auto simp: release_def slotHolds_def setActive_def fun_eq_iff)
  assume inv: "slotInvar l" "slotHolds l k a" "0 < slotUsed l k"
  then have pos: "0 < active (heap l a)" by (simp add: slotUsed_held)
  then have "0 \<le> active (heap l a) - 1" by simp
  note set = setActive_props(2) [OF inv(1,2) this]
  from pos set inv show "slotUsed (release l a) = (slotUsed l)(k := slotUsed l k - 1)"
    by (simp add: release_def slotUsed_held nat_diff_distrib)
qed

interpretation slots: slot_table TryAcquire release slotUsed slotHolds slotInvar
proof (unfold_locales, goal_cases)
  case 1
  then show ?case by (rule TryAcquire_laws(1))
next
  case 2
  then show ?case by (rule release_laws(1))
next
  case 3
  then show ?case by (rule TryAcquire_laws(2) [OF _ _ refl])
next
  case 4
  then show ?case by (rule TryAcquire_laws(3))
next
  case 5
  then show ?case by (rule TryAcquire_laws(4) [OF _ _ refl])
next
  case 6
  then show ?case by (rule TryAcquire_laws(5))
next
  case 7
  then show ?case by (metis TryAcquire_laws(6))
next
  case 8
  then show ?case by (simp add: release_laws(2))
next
  case 9
  then show ?case by (rule release_laws(3))
qed

subsection \<open>Requests in flight\<close>

text \<open>
  The system of all requests: the counters and the grants that are held, each with its key.
  Requests interleave in any order and at any times; the limit of a channel is what its
  configuration says.
\<close>

record slot_sys =
  slotTable :: keySlots
  held :: "(slot_key \<times> addr) multiset"

inductive slotStep :: "(id \<Rightarrow> int) \<Rightarrow> slot_sys \<Rightarrow> slot_sys \<Rightarrow> bool" for limitOf where
  granted: "TryAcquire (slotTable s) k (limitOf (channelID k)) now = (l', Granted a) \<Longrightarrow>
    slotStep limitOf s \<lparr>slotTable = l', held = add_mset (k, a) (held s)\<rparr>"
| refused: "TryAcquire (slotTable s) k (limitOf (channelID k)) now = (l', g) \<Longrightarrow> g \<in> {Full, Unlimited} \<Longrightarrow>
    slotStep limitOf s (s\<lparr>slotTable := l'\<rparr>)"
| givenBack: "(k, a) \<in># held s \<Longrightarrow>
    slotStep limitOf s \<lparr>slotTable = release (slotTable s) a, held = held s - {#(k, a)#}\<rparr>"

inductive slotReachable :: "(id \<Rightarrow> int) \<Rightarrow> slot_sys \<Rightarrow> bool" for limitOf where
  start: "slotReachable limitOf \<lparr>slotTable = newKeySlots, held = {#}\<rparr>"
| step: "slotReachable limitOf s \<Longrightarrow> slotStep limitOf s t \<Longrightarrow> slotReachable limitOf t"

inductive_cases slotStepE: "slotStep limitOf s t"

definition inFlight :: "slot_sys \<Rightarrow> slot_key \<Rightarrow> nat" where
  "inFlight s k = size (filter_mset (\<lambda>t. fst t = k) (held s))"

lemma agrees_inFlight: "slots.agrees (slotTable s) (held s) \<Longrightarrow> slotUsed (slotTable s) k = inFlight s k"
  by (simp add: slots.agrees_def inFlight_def)

lemma slotReachable_agrees: "slotReachable limitOf s \<Longrightarrow> slots.agrees (slotTable s) (held s)"
proof (induction rule: slotReachable.induct)
  case start
  have "slotInvar newKeySlots" "slotUsed newKeySlots k = 0" for k
    by (auto simp: newKeySlots_def slotInvar_def slotUsed_def)
  then show ?case by (simp add: slots.agrees_def)
next
  case (step s t)
  from step.hyps(2) step.IH show ?case
    by (auto elim!: slotStepE intro: slots.agrees_granted slots.agrees_refused slots.agrees_give)
qed

lemma slotStep_bound:
  assumes "slotStep limitOf s t" "slots.agrees (slotTable s) (held s)"
    and "\<And>k. inFlight s k \<le> nat (limitOf (channelID k))"
  shows "inFlight t k \<le> nat (limitOf (channelID k))"
  using assms(1)
proof (cases rule: slotStep.cases)
  case (granted k' now l' a)
  have "slotInvar (slotTable s)" using assms(2) by (simp add: slots.agrees_def)
  then have "slotUsed (slotTable s) k' < nat (limitOf (channelID k'))"
    using slots.try_granted [OF _ granted(2)] by blast
  then show ?thesis
    using granted(1) assms(3) [of k] agrees_inFlight [OF assms(2)] by (auto simp: inFlight_def)
next
  case refused
  then show ?thesis using assms(3) [of k] by (simp add: inFlight_def)
next
  case (givenBack k' a)
  have "filter_mset (\<lambda>x. fst x = k) (held t) \<subseteq># filter_mset (\<lambda>x. fst x = k) (held s)"
    using givenBack by (intro multiset_filter_mono) simp
  then show ?thesis using assms(3) [of k] size_mset_mono by (force simp: inFlight_def)
qed

text \<open>
  C3: however requests of all channels and keys interleave, and whenever idle counters are
  swept, the requests in flight on a key never exceed the limit of its channel, and the counter
  of the key is exactly that number: no release reaches a counter created later under the
  same key, and none is lost.
\<close>

theorem key_concurrency_safe:
  assumes "slotReachable limitOf s"
  shows "inFlight s k \<le> nat (limitOf (channelID k)) \<and> slotUsed (slotTable s) k = inFlight s k"
proof -
  have "inFlight s k \<le> nat (limitOf (channelID k))" for k
    using assms
  proof (induction arbitrary: k rule: slotReachable.induct)
    case start
    show ?case by (simp add: inFlight_def)
  next
    case (step s t)
    then show ?case using slotStep_bound slotReachable_agrees by blast
  qed
  then show ?thesis using slotReachable_agrees [OF assms] agrees_inFlight by blast
qed

theorem key_concurrency_safe_witness:
  "\<exists>s. slotReachable (\<lambda>_. 2) s \<and> inFlight s (KeySlotKey 7 5) = 1 \<and>
     (inFlight s (KeySlotKey 7 5) \<le> nat 2 \<and> slotUsed (slotTable s) (KeySlotKey 7 5) = inFlight s (KeySlotKey 7 5))"
proof -
  let ?k = "KeySlotKey 7 5"
  have new: "slotInvar newKeySlots" "slotUsed newKeySlots ?k = 0"
    by (auto simp: newKeySlots_def slotInvar_def slotUsed_def)
  obtain l' g where "TryAcquire newKeySlots ?k 2 0 = (l', g)" by fastforce
  moreover from TryAcquire_laws(4) [OF new(1) this] new(2) have "g \<noteq> Full" by auto
  moreover have "g \<noteq> Unlimited"
    using calculation(1) by (auto simp: TryAcquire_def split: prod.splits if_splits)
  ultimately obtain a where acq: "TryAcquire newKeySlots ?k 2 0 = (l', Granted a)" by (cases g) auto
  let ?s = "\<lparr>slotTable = l', held = {#(?k, a)#}\<rparr>"
  have reach: "slotReachable (\<lambda>_. 2) ?s"
    by (rule slotReachable.step [OF slotReachable.start])
      (use slotStep.granted [of "\<lparr>slotTable = newKeySlots, held = {#}\<rparr>" ?k "\<lambda>_. 2", simplified, OF acq] in simp)
  show ?thesis
    using reach key_concurrency_safe [OF reach, of ?k] by (intro exI [of _ ?s]) (simp add: inFlight_def)
qed

subsection \<open>Taking a slot, or waiting for one\<close>

text \<open>
  What happens around one call of \<^verbatim>\<open>acquireKeySlotWith\<close>, at its \<open>n\<close>th step: what the picker answers
  for a set of excluded keys (None is the nil map), what other requests did to the counters
  before the step, the clock, and which case of the \<^verbatim>\<open>select\<close> fires.
\<close>

datatype wake = Woken | Cancelled | TimerFired

record 'e slot_env =
  pickAt :: "nat \<Rightarrow> id set option \<Rightarrow> 'e + RouteCredential"
  othersAt :: "nat \<Rightarrow> keySlots \<Rightarrow> keySlots"
  nowAt :: "nat \<Rightarrow> gotime"
  wakeAt :: "nat \<Rightarrow> wake"

datatype 'e scan = ScanErr 'e | ScanSaturated | ScanGot RouteCredential addr | ScanFuel

datatype 'e acquired = AcqOk RouteCredential "addr option" | AcqPickErr 'e | AcqExhausted | AcqCancelled | AcqFuel

definition mergeExcluded :: "id set option \<Rightarrow> id set \<Rightarrow> id set option" where
  "mergeExcluded base extra =
     (if extra = {} then base else Some ((case base of None \<Rightarrow> {} | Some b \<Rightarrow> b) \<union> extra))"

text \<open>The inner loop: one picked key after the other until one has room or none is left.\<close>

fun scanKeys :: "nat \<Rightarrow> 'e slot_env \<Rightarrow> id \<Rightarrow> int \<Rightarrow> id set option \<Rightarrow> nat \<Rightarrow> keySlots \<Rightarrow> id set \<Rightarrow>
    'e scan \<times> nat \<times> keySlots" where
  "scanKeys 0 env ch limit excluded n l saturated = (ScanFuel, n, l)"
| "scanKeys (Suc fuel) env ch limit excluded n l saturated =
     (case pickAt env n (mergeExcluded excluded saturated) of
        Inl e \<Rightarrow> (if saturated = {} then ScanErr e else ScanSaturated, Suc n, l)
      | Inr c \<Rightarrow>
          if rcID c \<in> saturated then (ScanSaturated, Suc n, l)
          else case TryAcquire (othersAt env n l) (KeySlotKey ch (rcID c)) limit (nowAt env n) of
                 (l', Granted a) \<Rightarrow> (ScanGot c a, Suc n, l')
               | (l', _) \<Rightarrow> scanKeys fuel env ch limit excluded (Suc n) l' (insert (rcID c) saturated))"

text \<open>The outer loop: wait for a release, the deadline or the end of the request, then scan again.\<close>

fun waitLoop :: "nat \<Rightarrow> nat \<Rightarrow> 'e slot_env \<Rightarrow> id \<Rightarrow> int \<Rightarrow> id set option \<Rightarrow> gotime \<Rightarrow> nat \<Rightarrow> keySlots \<Rightarrow>
    'e acquired \<times> keySlots" where
  "waitLoop 0 scanFuel env ch limit excluded deadline n l = (AcqFuel, l)"
| "waitLoop (Suc fuel) scanFuel env ch limit excluded deadline n l =
     (case scanKeys scanFuel env ch limit excluded n l {} of
        (ScanErr e, n', l') \<Rightarrow> (AcqPickErr e, l')
      | (ScanGot c a, n', l') \<Rightarrow> (AcqOk c (Some a), l')
      | (ScanFuel, n', l') \<Rightarrow> (AcqFuel, l')
      | (ScanSaturated, n', l') \<Rightarrow>
          if deadline - nowAt env n' \<le> 0 then (AcqExhausted, l')
          else case wakeAt env n' of
                 Woken \<Rightarrow> waitLoop fuel scanFuel env ch limit excluded deadline (Suc n') (othersAt env n' l')
               | Cancelled \<Rightarrow> (AcqCancelled, l')
               | TimerFired \<Rightarrow> (AcqExhausted, l'))"

definition acquireKeySlotWith :: "nat \<Rightarrow> nat \<Rightarrow> 'e slot_env \<Rightarrow> keySlots \<Rightarrow> id \<Rightarrow> int \<Rightarrow> duration \<Rightarrow> id set option \<Rightarrow>
    'e acquired \<times> keySlots" where
  "acquireKeySlotWith fuel scanFuel env l ch limit waitWindow excluded =
     (if limit \<le> 0
      then (case pickAt env 0 excluded of Inl e \<Rightarrow> AcqPickErr e | Inr c \<Rightarrow> AcqOk c None, l)
      else waitLoop fuel scanFuel env ch limit excluded (nowAt env 0 + waitWindow) 0 l)"

text \<open>The picker answers only keys of the channel that are not excluded.\<close>

definition honestPicker :: "'e slot_env \<Rightarrow> id set \<Rightarrow> bool" where
  "honestPicker env C \<longleftrightarrow>
     (\<forall>n X c. pickAt env n X = Inr c \<longrightarrow> rcID c \<in> C \<and> (\<forall>x. X = Some x \<longrightarrow> rcID c \<notin> x))"

lemma honestPickerD:
  "honestPicker env C \<Longrightarrow> pickAt env n (mergeExcluded ex sat) = Inr c \<Longrightarrow>
     rcID c \<in> C \<and> rcID c \<notin> sat \<and> (\<forall>x. ex = Some x \<longrightarrow> rcID c \<notin> x)"
  by (auto simp: honestPicker_def mergeExcluded_def split: if_splits option.splits)

lemma scanKeys_outcome:
  assumes "honestPicker env C" "finite C" "sat \<subseteq> C" "card (C - sat) < fuel" "0 < limit"
    and "scanKeys fuel env ch limit ex n l sat = (r, n', l')"
  shows "r \<noteq> ScanFuel \<and> n < n' \<and>
    (\<forall>e. r = ScanErr e \<longrightarrow> sat = {} \<and> pickAt env n ex = Inl e) \<and>
    (\<forall>c a. r = ScanGot c a \<longrightarrow> rcID c \<in> C \<and> (\<forall>x. ex = Some x \<longrightarrow> rcID c \<notin> x))"
  using assms
proof (induction fuel arbitrary: n l sat)
  case 0
  then show ?case by simp
next
  case (Suc fuel)
  show ?case
  proof (cases "pickAt env n (mergeExcluded ex sat)")
    case (Inl e)
    with Suc.prems(6) show ?thesis by (auto simp: mergeExcluded_def split: if_splits)
  next
    case (Inr c)
    then have c: "rcID c \<in> C" "rcID c \<notin> sat" "\<forall>x. ex = Some x \<longrightarrow> rcID c \<notin> x"
      using honestPickerD [OF Suc.prems(1)] by blast+
    obtain m g where acq: "TryAcquire (othersAt env n l) (KeySlotKey ch (rcID c)) limit (nowAt env n) = (m, g)"
      by fastforce
    show ?thesis
    proof (cases "\<exists>a. g = Granted a")
      case True
      then obtain a where "g = Granted a" by blast
      then have "r = ScanGot c a" "n' = Suc n"
        using Suc.prems(6) Inr c(2) acq by simp_all
      with c show ?thesis by simp
    next
      case False
      have "C - insert (rcID c) sat = (C - sat) - {rcID c}" by blast
      then have "card (C - insert (rcID c) sat) < card (C - sat)"
        using c Suc.prems(2) by (metis Diff_iff card_Diff1_less finite_Diff)
      then have "card (C - insert (rcID c) sat) < fuel" using Suc.prems(4) by simp
      moreover from False have "scanKeys fuel env ch limit ex (Suc n) m (insert (rcID c) sat) = (r, n', l')"
        using Suc.prems(6) Inr c(2) acq by (cases g) simp_all
      ultimately have "r \<noteq> ScanFuel \<and> Suc n < n' \<and>
          (\<forall>e. r = ScanErr e \<longrightarrow> insert (rcID c) sat = {} \<and> pickAt env (Suc n) ex = Inl e) \<and>
          (\<forall>c a. r = ScanGot c a \<longrightarrow> rcID c \<in> C \<and> (\<forall>x. ex = Some x \<longrightarrow> rcID c \<notin> x))"
        using Suc.prems(1,2,3,5) c(1) by (intro Suc.IH) auto
      then show ?thesis by auto
    qed
  qed
qed

text \<open>
  a candidate that may not queue (wait window 0) is decided in one pass over its keys:
  with a clock that does not run backwards the call ends without waiting, with a slot on a key
  of the channel that the request has not excluded, with the picker's own error when no key was
  found full, or with the exhaustion error; no key is tried twice.
\<close>

theorem acquire_without_queue:
  assumes "honestPicker env C" "finite C" "0 < limit" "waitWindow \<le> 0" "\<forall>n. nowAt env 0 \<le> nowAt env n"
  shows "case fst (acquireKeySlotWith 1 (Suc (card C)) env l ch limit waitWindow ex) of
      AcqOk c g \<Rightarrow> rcID c \<in> C \<and> (\<forall>x. ex = Some x \<longrightarrow> rcID c \<notin> x) \<and> g \<noteq> None
    | AcqPickErr e \<Rightarrow> pickAt env 0 ex = Inl e
    | AcqExhausted \<Rightarrow> True | AcqCancelled \<Rightarrow> False | AcqFuel \<Rightarrow> False"
proof -
  obtain r n' l' where scan: "scanKeys (Suc (card C)) env ch limit ex 0 l {} = (r, n', l')"
    by (metis prod_cases3)
  from scanKeys_outcome [OF assms(1,2) _ _ assms(3) this]
  have out: "r \<noteq> ScanFuel" "\<forall>e. r = ScanErr e \<longrightarrow> pickAt env 0 ex = Inl e"
    "\<forall>c a. r = ScanGot c a \<longrightarrow> rcID c \<in> C \<and> (\<forall>x. ex = Some x \<longrightarrow> rcID c \<notin> x)" by auto
  have "nowAt env 0 \<le> nowAt env n'" using assms(5) by blast
  with assms(4) have late: "nowAt env 0 + waitWindow - nowAt env n' \<le> 0" by linarith
  have start: "acquireKeySlotWith 1 (Suc (card C)) env l ch limit waitWindow ex =
      waitLoop (Suc 0) (Suc (card C)) env ch limit ex (nowAt env 0 + waitWindow) 0 l"
    using assms(3) by (simp add: acquireKeySlotWith_def)
  show ?thesis
    unfolding start waitLoop.simps scan using out late by (cases r) simp_all
qed

definition exampleSlotEnv :: "string slot_env" where
  "exampleSlotEnv =
     \<lparr>pickAt = (\<lambda>n X. if (case X of None \<Rightarrow> False | Some x \<Rightarrow> 3 \<in> x) then Inl ''none''
                       else Inr \<lparr>rcID = 3, rcCipher = ''k''\<rparr>),
      othersAt = (\<lambda>_ l. l), nowAt = (\<lambda>_. 0), wakeAt = (\<lambda>_. TimerFired)\<rparr>"

theorem acquire_without_queue_witness:
  "case fst (acquireKeySlotWith 1 (Suc (card {3::id})) exampleSlotEnv newKeySlots 7 1 0 None) of
      AcqOk c g \<Rightarrow> rcID c \<in> {3} \<and> (\<forall>x. None = Some x \<longrightarrow> rcID c \<notin> x) \<and> g \<noteq> None
    | AcqPickErr e \<Rightarrow> pickAt exampleSlotEnv 0 None = Inl e
    | AcqExhausted \<Rightarrow> True | AcqCancelled \<Rightarrow> False | AcqFuel \<Rightarrow> False"
  by (rule acquire_without_queue)
    (auto simp: honestPicker_def exampleSlotEnv_def split: option.splits if_splits)

end
