(* ===== verification/Resilience_Settings.thy ===== *)
theory Resilience_Settings
  imports Json
begin

text \<open>
  The resilience settings (\<^verbatim>\<open>internal/logic/system/service.go\<close>): rules for status codes such as
  \<^verbatim>\<open>401,500-599\<close>, keyword lists, the defaults and the validation of an update.
\<close>

subsection \<open>Splitting text\<close>

fun splitOn :: "char \<Rightarrow> string \<Rightarrow> string list" where
  "splitOn c [] = [[]]"
| "splitOn c (x # xs) =
     (if x = c then [] # splitOn c xs
      else case splitOn c xs of [] \<Rightarrow> [[x]] | h # t \<Rightarrow> (x # h) # t)"

lemma splitOn_nonempty [simp]: "splitOn c s \<noteq> []"
  by (induction c s rule: splitOn.induct) (auto split: list.split)

lemma splitOn_no_sep: "c \<notin> set s \<Longrightarrow> splitOn c s = [s]"
  by (induction c s rule: splitOn.induct) auto

lemma splitOn_append: "c \<notin> set s \<Longrightarrow> splitOn c (s @ c # t) = s # splitOn c t"
  by (induction c s rule: splitOn.induct) auto

lemma splitOn_join:
  "parts \<noteq> [] \<Longrightarrow> \<forall>p \<in> set parts. c \<notin> set p \<Longrightarrow> splitOn c (joinStr [c] parts) = parts"
  by (induction "[c]" parts rule: joinStr.induct) (auto simp: splitOn_no_sep splitOn_append)

subsection \<open>Rules for status codes\<close>

datatype statusCodeRange = StatusRange (rangeStart: int) (rangeEnd: int)

instantiation statusCodeRange :: linorder
begin

definition less_eq_statusCodeRange :: "statusCodeRange \<Rightarrow> statusCodeRange \<Rightarrow> bool" where
  "less_eq_statusCodeRange a b \<longleftrightarrow>
     (if rangeStart a = rangeStart b then rangeEnd a \<le> rangeEnd b else rangeStart a < rangeStart b)"

definition less_statusCodeRange :: "statusCodeRange \<Rightarrow> statusCodeRange \<Rightarrow> bool" where
  "less_statusCodeRange a b \<longleftrightarrow>
     (if rangeStart a = rangeStart b then rangeEnd a < rangeEnd b else rangeStart a < rangeStart b)"

instance
  by intro_classes
    (auto simp: less_eq_statusCodeRange_def less_statusCodeRange_def intro: statusCodeRange.expand split: if_splits)

end

datatype settings_error =
    RuleShape | RuleCode | RuleRange | SettingOutOfRange string

definition parseRule :: "string \<Rightarrow> settings_error + statusCodeRange option" where
  "parseRule item0 =
     (let item = trimSpace item0 in
      if item = [] then Inr None
      else let parts = splitOn (CHR ''-'') item in
        if 2 < length parts then Inl RuleShape
        else case parseInt (trimSpace (hd parts)) of
               None \<Rightarrow> Inl RuleCode
             | Some start \<Rightarrow>
                 if start < 100 \<or> 599 < start then Inl RuleCode
                 else if length parts = 2 then
                   (case parseInt (trimSpace (parts ! 1)) of
                      None \<Rightarrow> Inl RuleRange
                    | Some end' \<Rightarrow> if end' < start \<or> 599 < end' then Inl RuleRange
                                 else Inr (Some (StatusRange start end')))
                 else Inr (Some (StatusRange start start)))"

fun collectRules :: "string list \<Rightarrow> settings_error + statusCodeRange list" where
  "collectRules [] = Inr []"
| "collectRules (item # items) =
     (case parseRule item of
        Inl e \<Rightarrow> Inl e
      | Inr r \<Rightarrow>
          (case collectRules items of
             Inl e \<Rightarrow> Inl e
           | Inr rs \<Rightarrow> Inr (case r of None \<Rightarrow> rs | Some rule \<Rightarrow> rule # rs)))"

definition showRule :: "statusCodeRange \<Rightarrow> string" where
  "showRule r =
     (if rangeStart r = rangeEnd r then showInt (rangeStart r)
      else showInt (rangeStart r) @ ''-'' @ showInt (rangeEnd r))"

definition normalizeStatusCodeRules :: "string \<Rightarrow> settings_error + string \<times> statusCodeRange list" where
  "normalizeStatusCodeRules value =
     (case collectRules (splitOn (CHR '','') (trimSpace value)) of
        Inl e \<Rightarrow> Inl e
      | Inr parsed \<Rightarrow>
          (let rules = sort (dedupOn (\<lambda>r. r) parsed) in Inr (joinStr '','' (map showRule rules), rules)))"

definition MatchesStatusCodeRules :: "string \<Rightarrow> int \<Rightarrow> bool" where
  "MatchesStatusCodeRules rules status =
     (case normalizeStatusCodeRules rules of
        Inl _ \<Rightarrow> False
      | Inr (_, parsed) \<Rightarrow> list_ex (\<lambda>rule. rangeStart rule \<le> status \<and> status \<le> rangeEnd rule) parsed)"

definition normalizeKeywords :: "string list \<Rightarrow> string list" where
  "normalizeKeywords values =
     dedupOn toLower (filter (\<lambda>k. k \<noteq> [] \<and> length k \<le> 256) (map trimSpace values))"

definition truncateStr :: "string \<Rightarrow> nat \<Rightarrow> string" where
  "truncateStr value limit = (if length value \<le> limit then value else take limit value)"

subsection \<open>The settings\<close>

record ResilienceSettings =
  RetryStatusCodes :: string
  StreamFirstByteTimeoutSeconds :: int
  StreamIdleTimeoutSeconds :: int
  NonStreamTimeoutSeconds :: int
  HealthCheckEnabled :: bool
  HealthCheckMode :: string
  HealthCheckIntervalMinutes :: int
  RecoveryEnabled :: bool
  AutoDisableEnabled :: bool
  AutoDisableNotificationEnabled :: bool
  AutoDisableFailureThreshold :: int
  DisableLatencySeconds :: int
  DisableStatusCodes :: string
  FailureKeywords :: "string list"
  ModelQualityDetectionEnabled :: bool
  ProtocolConversionEnabled :: bool
  StreamFailureEventEnabled :: bool
  MessagesModels :: "string list"

definition DefaultResilienceSettings :: ResilienceSettings where
  "DefaultResilienceSettings = \<lparr>RetryStatusCodes = ''401,403,404,408,429,500-599'',
     StreamFirstByteTimeoutSeconds = 60, StreamIdleTimeoutSeconds = 180, NonStreamTimeoutSeconds = 600,
     HealthCheckEnabled = False, HealthCheckMode = ''passive'', HealthCheckIntervalMinutes = 5,
     RecoveryEnabled = True, AutoDisableEnabled = True, AutoDisableNotificationEnabled = False,
     AutoDisableFailureThreshold = 3, DisableLatencySeconds = 120, DisableStatusCodes = ''401,429'',
     FailureKeywords = [''Your credit balance is too low'', ''This organization has been disabled.'',
       ''You exceeded your current quota'', ''Permission denied'',
       ''The security token included in the request is invalid'', ''Operation not allowed'',
       ''Your account is not authorized'', ''daily usage limit exceeded'', ''Insufficient account balance''],
     ModelQualityDetectionEnabled = False, ProtocolConversionEnabled = True, StreamFailureEventEnabled = True,
     MessagesModels = []\<rparr>"

definition normalizeSettings :: "ResilienceSettings \<Rightarrow> settings_error + ResilienceSettings" where
  "normalizeSettings input =
     (case normalizeStatusCodeRules (RetryStatusCodes input) of
        Inl e \<Rightarrow> Inl e
      | Inr (retryCodes, _) \<Rightarrow>
          (let input = input\<lparr>RetryStatusCodes := retryCodes\<rparr> in
           if StreamFirstByteTimeoutSeconds input < 1 \<or> 120 < StreamFirstByteTimeoutSeconds input
           then Inl (SettingOutOfRange ''streamFirstByteTimeoutSeconds'')
           else if StreamIdleTimeoutSeconds input < 0 \<or> 600 < StreamIdleTimeoutSeconds input
           then Inl (SettingOutOfRange ''streamIdleTimeoutSeconds'')
           else if NonStreamTimeoutSeconds input < 60 \<or> 1200 < NonStreamTimeoutSeconds input
           then Inl (SettingOutOfRange ''nonStreamTimeoutSeconds'')
           else let input = (if HealthCheckMode input = [] then input\<lparr>HealthCheckMode := ''passive''\<rparr> else input) in
             if HealthCheckMode input \<noteq> ''passive'' \<and> HealthCheckMode input \<noteq> ''all''
             then Inl (SettingOutOfRange ''healthCheckMode'')
             else if HealthCheckIntervalMinutes input < 1 \<or> 1440 < HealthCheckIntervalMinutes input
             then Inl (SettingOutOfRange ''healthCheckIntervalMinutes'')
             else if AutoDisableFailureThreshold input < 1 \<or> 20 < AutoDisableFailureThreshold input
             then Inl (SettingOutOfRange ''autoDisableFailureThreshold'')
             else if DisableLatencySeconds input < 1 \<or> 3600 < DisableLatencySeconds input
             then Inl (SettingOutOfRange ''disableLatencySeconds'')
             else (case normalizeStatusCodeRules (DisableStatusCodes input) of
                     Inl e \<Rightarrow> Inl e
                   | Inr (disableCodes, _) \<Rightarrow>
                       Inr (input\<lparr>DisableStatusCodes := disableCodes,
                         FailureKeywords := normalizeKeywords (FailureKeywords input),
                         MessagesModels := normalizeKeywords (MessagesModels input)\<rparr>))))"

subsection \<open>Normal forms are stable\<close>

definition ruleOk :: "statusCodeRange \<Rightarrow> bool" where
  "ruleOk r \<longleftrightarrow> 100 \<le> rangeStart r \<and> rangeStart r \<le> rangeEnd r \<and> rangeEnd r \<le> 599"

lemma parseRule_ok: "parseRule item = Inr (Some r) \<Longrightarrow> ruleOk r"
  by (auto simp: parseRule_def ruleOk_def Let_def split: if_splits option.splits)

lemma collectRules_ok: "collectRules items = Inr rs \<Longrightarrow> \<forall>r \<in> set rs. ruleOk r"
proof (induction items arbitrary: rs)
  case (Cons item items)
  then obtain r rs' where "parseRule item = Inr r" "collectRules items = Inr rs'"
    "rs = (case r of None \<Rightarrow> rs' | Some rule \<Rightarrow> rule # rs')"
    by (auto split: sum.splits)
  with Cons.IH show ?case by (auto dest: parseRule_ok split: option.splits)
qed simp

lemma digit_plain: "isDigit c \<Longrightarrow> plainChar c"
  by (auto simp: isDigit_def plainChar_def Let_def)

lemma showNat_plain: "plainChar (hd (showNat n))" "plainChar (last (showNat n))"
  using showNat_all_digits showNat_nonempty digit_plain by (metis hd_in_set, metis last_in_set)

lemma showInt_pos:
  assumes "0 \<le> i"
  shows "showInt i = showNat (nat i)"
  using assms by (simp add: showInt_def)

lemma trim_showInt: "0 \<le> i \<Longrightarrow> trimSpace (showInt i) = showInt i"
  by (simp add: showInt_pos trimSpace_plain showNat_plain)

lemma showInt_no: "0 \<le> i \<Longrightarrow> \<not> isDigit c \<Longrightarrow> c \<notin> set (showInt i)"
  using showNat_all_digits by (auto simp: showInt_pos)

lemma parseRule_showRule:
  assumes "ruleOk r"
  shows "parseRule (showRule r) = Inr (Some r)"
proof -
  obtain a b where r: "r = StatusRange a b" by (cases r)
  with assms have ab: "100 \<le> a" "a \<le> b" "b \<le> 599" by (auto simp: ruleOk_def)
  have pa: "parseInt (showInt a) = Some a" "parseInt (showInt b) = Some b"
    using ab by (simp_all add: parseInt_showInt)
  have no: "CHR ''-'' \<notin> set (showInt a)" "CHR ''-'' \<notin> set (showInt b)"
    using ab by (simp_all add: showInt_no)
  have ne: "showInt a \<noteq> []" "showInt b \<noteq> []" using ab by (simp_all add: showInt_pos)
  show ?thesis
  proof (cases "a = b")
    case True
    with ab pa no ne r show ?thesis
      by (simp add: parseRule_def showRule_def trim_showInt splitOn_no_sep)
  next
    case False
    have "trimSpace (showInt a @ ''-'' @ showInt b) = showInt a @ ''-'' @ showInt b"
      using ab ne showNat_plain by (intro trimSpace_plain) (simp_all add: showInt_pos)
    with False ab pa no ne r show ?thesis
      by (simp add: parseRule_def showRule_def trim_showInt splitOn_append splitOn_no_sep)
  qed
qed

lemma collectRules_show: "\<forall>r \<in> set rs. ruleOk r \<Longrightarrow> collectRules (map showRule rs) = Inr rs"
  by (induction rs) (simp_all add: parseRule_showRule)

lemma showRule_chars: "ruleOk r \<Longrightarrow> c \<in> set (showRule r) \<Longrightarrow> isDigit c \<or> c = CHR ''-''"
  by (auto simp: showRule_def ruleOk_def showInt_pos dest: showNat_all_digits split: if_splits)

lemma showRule_ne: "ruleOk r \<Longrightarrow> showRule r \<noteq> []"
  by (auto simp: showRule_def ruleOk_def showInt_pos)

lemma set_joinStr: "set (joinStr sep xs) \<subseteq> set sep \<union> (\<Union>x \<in> set xs. set x)"
  by (induction sep xs rule: joinStr.induct) auto

lemma joinStr_ne: "xs \<noteq> [] \<Longrightarrow> [] \<notin> set xs \<Longrightarrow> joinStr sep xs \<noteq> []"
  by (induction sep xs rule: joinStr.induct) auto

lemma showRule_no_comma: "ruleOk r \<Longrightarrow> CHR '','' \<notin> set (showRule r)"
  using showRule_chars [of r "CHR '',''"] by (auto simp: isDigit_def)

lemma joined_plain:
  assumes "rs \<noteq> []" "\<forall>r \<in> set rs. ruleOk r"
  shows "plainChar (hd (joinStr '','' (map showRule rs)))" "plainChar (last (joinStr '','' (map showRule rs)))"
proof -
  have ch: "plainChar c" if "ruleOk r" "c \<in> set (showRule r)" for r c
    using showRule_chars [OF that] digit_plain by (auto simp: plainChar_def)
  then have "\<forall>c \<in> set (joinStr '','' (map showRule rs)). plainChar c"
    using assms(2) set_joinStr [of "'',''" "map showRule rs"] by (fastforce simp: plainChar_def)
  moreover have "joinStr '','' (map showRule rs) \<noteq> []"
    using assms showRule_ne by (intro joinStr_ne) force+
  ultimately show "plainChar (hd (joinStr '','' (map showRule rs)))" "plainChar (last (joinStr '','' (map showRule rs)))"
    by (metis hd_in_set, metis last_in_set)
qed

text \<open>
  storing status code rules in normal form changes nothing: the text that is stored is
  accepted, is its own normal form, and matches the same status codes as the text that was
  entered; every rule lies between 100 and 599.
\<close>

theorem status_rules_roundtrip:
  assumes "normalizeStatusCodeRules value = Inr (stored, rules)"
  shows "normalizeStatusCodeRules stored = Inr (stored, rules) \<and>
    (\<forall>status. MatchesStatusCodeRules stored status = MatchesStatusCodeRules value status) \<and>
    (\<forall>r \<in> set rules. 100 \<le> rangeStart r \<and> rangeStart r \<le> rangeEnd r \<and> rangeEnd r \<le> 599)"
proof -
  from assms obtain parsed where parsed: "collectRules (splitOn (CHR '','') (trimSpace value)) = Inr parsed"
    and rules: "rules = sort (dedupOn (\<lambda>r. r) parsed)" and stored: "stored = joinStr '','' (map showRule rules)"
    by (auto simp: normalizeStatusCodeRules_def Let_def split: sum.splits)
  have ok: "\<forall>r \<in> set rules. ruleOk r"
    using collectRules_ok [OF parsed] by (simp add: rules dedup_simps)
  have dist: "distinct rules" using dedupOn_distinct [of "\<lambda>r. r" parsed] by (simp add: rules)
  have again: "normalizeStatusCodeRules stored = Inr (stored, rules)"
  proof (cases "rules = []")
    case True
    then show ?thesis by (simp add: stored normalizeStatusCodeRules_def parseRule_def)
  next
    case False
    have "splitOn (CHR '','') stored = map showRule rules"
      unfolding stored using False ok showRule_no_comma by (intro splitOn_join) auto
    moreover have "trimSpace stored = stored"
      unfolding stored using joined_plain [OF False ok] by (rule trimSpace_plain)
    ultimately have "collectRules (splitOn (CHR '','') (trimSpace stored)) = Inr rules"
      using collectRules_show [OF ok] by simp
    moreover have "sort (dedupOn (\<lambda>r. r) rules) = rules"
      using dist by (subst dedupOn_fixed) (simp_all add: rules sorted_sort_id [OF sorted_sort])
    ultimately show ?thesis by (simp add: normalizeStatusCodeRules_def stored)
  qed
  then show ?thesis using assms ok by (simp add: MatchesStatusCodeRules_def ruleOk_def)
qed

theorem status_rules_roundtrip_witness:
  "normalizeStatusCodeRules ''401,500-599'' = Inr (''401,500-599'', [StatusRange 401 401, StatusRange 500 599]) \<and>
    (\<forall>status. MatchesStatusCodeRules ''401,500-599'' status = MatchesStatusCodeRules ''500-599,,401,401'' status)"
proof -
  have nums: "parseInt ''401'' = Some 401" "parseInt ''500'' = Some 500" "parseInt ''599'' = Some 599"
    by (simp_all add: parseInt_def parseNat_def isDigit_def digitVal_def)
  have show': "showInt 401 = ''401''" "showInt 500 = ''500''" "showInt 599 = ''599''"
    by code_simp+
  have "normalizeStatusCodeRules ''500-599,,401,401'' = Inr (''401,500-599'', [StatusRange 401 401, StatusRange 500 599])"
    by (simp add: normalizeStatusCodeRules_def plain_eval parseRule_def nums show' dedupOn_def showRule_def
        less_eq_statusCodeRange_def)
  from status_rules_roundtrip [OF this] show ?thesis by (intro conjI) (elim conjE, assumption)+
qed

end
