(* ===== verification/Usage_Types.thy ===== *)
theory Usage_Types
  imports Prelude
begin

text \<open>
  The data of \<^verbatim>\<open>internal/logic/usage\<close> that the relay and the billing share: token counts, price
  rates, and the items of a bill.
\<close>

record TokenUsage =
  tkInput :: "u64 option"
  tkCachedInput :: "u64 option"
  tkCacheWrite :: "u64 option"
  tkCacheMiss :: "u64 option"
  tkImageInput :: "u64 option"
  tkAudioInput :: "u64 option"
  tkOutput :: "u64 option"
  tkAudioOutput :: "u64 option"
  tkTotal :: "u64 option"

record 'f PriceRates =
  prInput :: "'f option"
  prCachedInput :: "'f option"
  prCacheWrite :: "'f option"
  prOutput :: "'f option"
  prImageInput :: "'f option"
  prAudioInput :: "'f option"
  prAudioOutput :: "'f option"
  prRequest :: "'f option"

record BillingItem =
  itType :: string
  itQuantity :: u64
  itUnit :: string
  itUnitPrice :: string
  itPriceSource :: string
  itAmount :: string

record BillingRuleSnapshot =
  snapID :: id
  snapName :: string
  snapSource :: string
  snapPriority :: int
  snapConditions :: string

record BillingBreakdown =
  bbMode :: string
  bbCurrency :: string
  bbCharged :: bool
  bbReconstructed :: bool
  bbRule :: "BillingRuleSnapshot option"
  bbItems :: "BillingItem list"
  bbSubtotal :: string
  bbTotal :: string

definition noTokens :: TokenUsage where
  "noTokens = \<lparr>tkInput = None, tkCachedInput = None, tkCacheWrite = None, tkCacheMiss = None, tkImageInput = None,
     tkAudioInput = None, tkOutput = None, tkAudioOutput = None, tkTotal = None\<rparr>"

end
