(* ===== verification/Relay_Attempt.thy ===== *)
theory Relay_Attempt
  imports Routing Key_Slots Resilience_Settings Usage_Types
begin

text \<open>
  The attempts of one request on one channel (\<^verbatim>\<open>internal/logic/relay/credential_retry.go\<close>,
  \<^verbatim>\<open>retry_policy.go\<close>, \<^verbatim>\<open>attempt_result.go\<close>, \<^verbatim>\<open>quota_failure.go\<close>): over the keys of the channel and
  its addresses, with the waits before a retry of the last channel.

  What surrounds the loop is the argument \<open>attemptEnv\<close>, over a state \<open>'w\<close> of the world: taking a key
  with its slot, the call of the upstream, scoring a failure, waiting, and the texts of error
  messages.  \<open>Relay_Flow\<close> connects the key selection to the model of \<open>Credentials\<close> and \<open>Key_Slots\<close>.
\<close>

subsection \<open>Data\<close>

record AttemptFlowStep =
  stepChannelName :: string
  stepEndpoint :: string
  stepDurationMs :: int
  stepFirstTokenMs :: "int option"
  stepStatus :: "int option"
  stepError :: string

text \<open>The headers and the texts kept for the payload and quality logs are left out.\<close>

record attemptResult =
  status :: int
  body :: string
  resTokens :: TokenUsage
  firstTokenMs :: "int option"
  errorMessage :: string
  latency :: duration
  wroteBytes :: bool
  timedOut :: bool
  upstreamEndpoint :: string
  protocolConversion :: string
  streamCompleted :: bool
  attemptFlow :: "AttemptFlowStep list"
  precedingFlow :: "AttemptFlowStep list"
  writerFailed :: bool

definition zeroResult :: attemptResult where
  "zeroResult = \<lparr>status = 0, body = [], resTokens = noTokens, firstTokenMs = None, errorMessage = [], latency = 0, wroteBytes = False,
     timedOut = False, upstreamEndpoint = [], protocolConversion = [], streamCompleted = False, attemptFlow = [], precedingFlow = [],
     writerFailed = False\<rparr>"

record attemptOptions =
  ignoreComboCooldown :: bool
  concurrencyWaitWindow :: duration
  throttleRetry :: bool
  riskControlRetry :: bool
  transientRetry :: bool

datatype attempt_skip = SkipCredential skip_reason | SkipConcurrency

record channelAttempt =
  caCandidate :: Candidate
  caResult :: attemptResult
  handled :: bool
  attempts :: nat
  flow :: "AttemptFlowStep list"
  concurrencyExhausted :: bool
  skipReason :: "attempt_skip option"
  channelDead :: bool

datatype acquire_error = AcquirePick cred_error | AcquireExhausted | AcquireCancelled

text \<open>An error of the upstream call: its text, and whether it is a timeout (\<^verbatim>\<open>isUpstreamTimeout\<close>).\<close>

datatype call_error = CallError (callErrorText: string) (isUpstreamTimeout: bool)

record 'w attemptEnv =
  acquireSlot :: "'w \<Rightarrow> Candidate \<Rightarrow> id set \<Rightarrow> bool \<Rightarrow> duration \<Rightarrow> (acquire_error + RouteCredential) \<times> 'w"
  releaseSlot :: "'w \<Rightarrow> Candidate \<Rightarrow> 'w"
  upstream :: "'w \<Rightarrow> Candidate \<Rightarrow> attemptResult \<times> call_error option \<times> 'w"
  maybeAutoDisable :: "'w \<Rightarrow> Candidate \<Rightarrow> attemptResult \<Rightarrow> 'w"
  ctxDone :: "'w \<Rightarrow> bool"
  waitForRetry :: "'w \<Rightarrow> duration \<Rightarrow> bool \<times> 'w"
  worldNow :: "'w \<Rightarrow> gotime"
  upstreamErrorText :: "string \<Rightarrow> string \<Rightarrow> string"
  acquireErrorText :: "acquire_error \<Rightarrow> string"
  openAIError :: "string \<Rightarrow> string \<Rightarrow> string"
  flowErrorText :: "string \<Rightarrow> string"
  jsonTree :: "string \<Rightarrow> json option"

subsection \<open>Classes of failures\<close>

definition isTransientUpstreamFailure :: "attemptResult \<Rightarrow> bool" where
  "isTransientUpstreamFailure r = (status r \<in> {500, 502, 503, 504})"

text \<open>\<^verbatim>\<open>code=11128\<close>, \<^verbatim>\<open>request illegal\<close>, and the UTF-8 bytes of the Chinese text of the same message.\<close>

definition riskControlBlockedMarkers :: "string list" where
  "riskControlBlockedMarkers =
     [''code=11128'', ''request illegal'',
      bytes [0xE8, 0xAF, 0xB7, 0xE6, 0xB1, 0x82, 0xE8, 0xA2, 0xAB, 0xE6, 0x8B, 0xA6, 0xE6, 0x88, 0xAA]]"

definition isRiskControlBlockedResult :: "attemptResult \<Rightarrow> bool" where
  "isRiskControlBlockedResult r =
     (if status r \<noteq> 400 \<and> status r \<noteq> 422 then False
      else let message = (if trimSpace (errorMessage r) = [] then body r else errorMessage r)
           in list_ex (\<lambda>marker. containsSub message marker) riskControlBlockedMarkers)"

text \<open>The field \<^verbatim>\<open>error.type\<close> of the decoded envelope; a value of another kind is a decoding error.\<close>

fun envelopeInner :: "(string \<times> json) list \<Rightarrow> string \<Rightarrow> string option" where
  "envelopeInner [] t = Some t"
| "envelopeInner ((k, v) # kvs) t =
     (if toLower k = ''type'' then
        (case v of JStr s \<Rightarrow> envelopeInner kvs s | JNull \<Rightarrow> envelopeInner kvs t | _ \<Rightarrow> None)
      else envelopeInner kvs t)"

fun envelopeFields :: "(string \<times> json) list \<Rightarrow> string \<Rightarrow> string option" where
  "envelopeFields [] t = Some t"
| "envelopeFields ((k, v) # kvs) t =
     (if toLower k = ''error'' then
        (case v of JObj inner \<Rightarrow> (case envelopeInner inner t of None \<Rightarrow> None | Some t' \<Rightarrow> envelopeFields kvs t')
         | JNull \<Rightarrow> envelopeFields kvs t | _ \<Rightarrow> None)
      else envelopeFields kvs t)"

fun envelopeType :: "json \<Rightarrow> string option" where
  "envelopeType (JObj kvs) = envelopeFields kvs []"
| "envelopeType JNull = Some []"
| "envelopeType _ = None"

definition isQuotaExhaustedResult :: "'w attemptEnv \<Rightarrow> attemptResult \<Rightarrow> bool" where
  "isQuotaExhaustedResult env r =
     (if status r \<noteq> 429 then False
      else if Option.bind (jsonTree env (body r)) envelopeType = Some ''FreeUsageLimitError'' then True
      else containsSub (errorMessage r) (''type='' @ [CHR 0x22] @ ''FreeUsageLimitError'' @ [CHR 0x22]))"

definition candidateThrottleRetryDelay :: duration where "candidateThrottleRetryDelay = milliseconds 1500"

definition riskControlRetryDelays :: "duration list" where "riskControlRetryDelays = [seconds 2, seconds 8]"

definition transientRetryDelays :: "duration list" where
  "transientRetryDelays = [milliseconds 1500, seconds 5, seconds 10]"

definition sameCandidateRetryDelay :: "'w attemptEnv \<Rightarrow> attemptOptions \<Rightarrow> nat \<Rightarrow> channelAttempt \<Rightarrow> bool \<Rightarrow> duration option" where
  "sameCandidateRetryDelay env options retries prev ctxErr =
     (let r = caResult prev in
      if ChannelCredentialID (caCandidate prev) = 0 \<or> ctxErr \<or> wroteBytes r \<or> writerFailed r then None
      else if throttleRetry options \<and> status r = 429 \<and> \<not> isQuotaExhaustedResult env r then
        (if retries = 0 then Some candidateThrottleRetryDelay else None)
      else if riskControlRetry options \<and> isRiskControlBlockedResult r \<and> retries < length riskControlRetryDelays
      then Some (riskControlRetryDelays ! retries)
      else if transientRetry options \<and> \<not> channelDead prev \<and> \<not> streamCompleted r \<and> isTransientUpstreamFailure r \<and>
          retries < length transientRetryDelays
      then Some (transientRetryDelays ! retries)
      else None)"

definition failedAttemptResult :: "'w attemptEnv \<Rightarrow> attemptResult \<Rightarrow> string \<Rightarrow> attemptResult" where
  "failedAttemptResult env r fallback =
     (let r = (if trimSpace (errorMessage r) = [] then r\<lparr>errorMessage := upstreamErrorText env (body r) fallback\<rparr> else r);
          r = (if trimSpace (errorMessage r) = [] then r\<lparr>errorMessage := bytes [0xE4, 0xB8, 0x8A, 0xE6, 0xB8, 0xB8, 0xE6,
                 0xB8, 0xA0, 0xE9, 0x81, 0x93, 0xE8, 0xAF, 0xB7, 0xE6, 0xB1, 0x82, 0xE5, 0xA4, 0xB1, 0xE8, 0xB4, 0xA5]\<rparr> else r);
          r = (if status r = 0 \<or> (200 \<le> status r \<and> status r < 300) then r\<lparr>status := 502\<rparr> else r)
      in if body r = [] then r\<lparr>body := openAIError env ''upstream_error'' (errorMessage r)\<rparr> else r)"

definition attemptCompleted :: "attemptResult \<Rightarrow> bool \<Rightarrow> bool \<Rightarrow> bool" where
  "attemptCompleted r attemptErr stream =
     (if wroteBytes r \<or> writerFailed r then True
      else if attemptErr \<or> status r \<noteq> 200 then False
      else if stream \<and> \<not> streamCompleted r then False
      else True)"

definition channelDeadFailure :: "attemptResult \<Rightarrow> ResilienceSettings \<Rightarrow> bool" where
  "channelDeadFailure r settings =
     (if wroteBytes r then False
      else if 400 \<le> status r \<and> MatchesStatusCodeRules (DisableStatusCodes settings) (status r) then True
      else let message = toLower (errorMessage r) in
        if message = [] then False
        else list_ex (\<lambda>keyword. containsSub message (toLower keyword)) (FailureKeywords settings))"

definition candidateBaseURLs :: "Candidate \<Rightarrow> string list" where
  "candidateBaseURLs candidate =
     dedupOn (\<lambda>u. u) (filter (\<lambda>u. u \<noteq> [])
       (map (\<lambda>v. trimRightSlash (trimSpace v)) (BaseURL candidate # CandBackupBaseURLs candidate)))"

subsection \<open>The flow of a request\<close>

definition newAttemptFlowStep :: "'w attemptEnv \<Rightarrow> string \<Rightarrow> attemptResult \<Rightarrow> AttemptFlowStep" where
  "newAttemptFlowStep env channelName r =
     (let failed = status r \<noteq> 0 \<and> (status r < 200 \<or> 300 \<le> status r) in
      \<lparr>stepChannelName = channelName, stepEndpoint = upstreamEndpoint r, stepDurationMs = latency r div 1000000,
       stepFirstTokenMs = firstTokenMs r, stepStatus = (if failed then Some (status r) else None),
       stepError = (if failed then flowErrorText env (errorMessage r) else [])\<rparr>)"

definition attemptFlowSteps :: "'w attemptEnv \<Rightarrow> string \<Rightarrow> attemptResult \<Rightarrow> AttemptFlowStep list" where
  "attemptFlowSteps env channelName r = precedingFlow r @ [newAttemptFlowStep env channelName r]"

definition credentialSkipReasonFromError :: "acquire_error \<Rightarrow> attempt_skip option" where
  "credentialSkipReasonFromError e =
     (case e of AcquirePick (CredentialUnavailableError _ reason) \<Rightarrow> Some (SkipCredential reason) | _ \<Rightarrow> None)"

text \<open>
  What follows one upstream call: the result with its latency and its error text, the score of a
  failure that wrote nothing, and the attempt it adds to the ones before.
\<close>

definition finishCall :: "'w attemptEnv \<Rightarrow> gotime \<Rightarrow> 'w \<Rightarrow> attemptResult \<Rightarrow> call_error option \<Rightarrow> attemptResult" where
  "finishCall env startedAt w1 called err =
     (let r = called\<lparr>latency := worldNow env w1 - startedAt\<rparr> in
      case err of None \<Rightarrow> r
      | Some e \<Rightarrow> (failedAttemptResult env r (callErrorText e))\<lparr>timedOut := isUpstreamTimeout e\<rparr>)"

definition scoreCall :: "'w attemptEnv \<Rightarrow> 'w \<Rightarrow> Candidate \<Rightarrow> attemptResult \<Rightarrow> call_error option \<Rightarrow> 'w" where
  "scoreCall env w1 current r err =
     (if \<not> wroteBytes r \<and> \<not> writerFailed r \<and> \<not> ctxDone env w1 \<and> (status r \<noteq> 200 \<or> err \<noteq> None)
      then maybeAutoDisable env w1 current r else w1)"

definition addAttempt :: "'w attemptEnv \<Rightarrow> Candidate \<Rightarrow> attemptResult \<Rightarrow> channelAttempt \<Rightarrow> channelAttempt" where
  "addAttempt env current r attempted =
     (let steps = attemptFlowSteps env (ChannelName current) r in
      \<lparr>caCandidate = current, caResult = r, handled = False, attempts = attempts attempted + length steps,
       flow = flow attempted @ steps, concurrencyExhausted = False, skipReason = None, channelDead = False\<rparr>)"

text \<open>The loop over the addresses with one key.\<close>

fun tryAddresses :: "'w attemptEnv \<Rightarrow> ResilienceSettings \<Rightarrow> bool \<Rightarrow> Candidate \<Rightarrow> string list \<Rightarrow>
    channelAttempt \<Rightarrow> 'w \<Rightarrow> channelAttempt \<times> 'w" where
  "tryAddresses env settings stream current [] attempted w = (attempted, w)"
| "tryAddresses env settings stream current (url # urls) attempted w =
     (let current = current\<lparr>BaseURL := url\<rparr>;
          (called, err, w1) = upstream env w current;
          r = finishCall env (worldNow env w) w1 called err;
          w2 = scoreCall env w1 current r err;
          attempted = addAttempt env current r attempted
      in if attemptCompleted r (err \<noteq> None) stream then (attempted\<lparr>handled := True\<rparr>, w2)
         else if channelDeadFailure r settings then (attempted\<lparr>channelDead := True\<rparr>, w2)
         else tryAddresses env settings stream current urls attempted w2)"

text \<open>
  The loop over the keys.  None means that the fuel is used up; theorem \<open>channel_attempts_bounded\<close>
  gives the fuel that is always enough.
\<close>

fun attemptLoop :: "nat \<Rightarrow> 'w attemptEnv \<Rightarrow> ResilienceSettings \<Rightarrow> attemptOptions \<Rightarrow> bool \<Rightarrow> Candidate \<Rightarrow>
    nat \<Rightarrow> bool \<Rightarrow> id set \<Rightarrow> channelAttempt \<Rightarrow> 'w \<Rightarrow> (channelAttempt \<times> id set \<times> 'w) option" where
  "attemptLoop 0 env settings options stream candidate retries bypass excluded prev w = None"
| "attemptLoop (Suc fuel) env settings options stream candidate retries bypass excluded prev w =
     (case acquireSlot env w candidate excluded bypass (concurrencyWaitWindow options) of
        (Inl e, w1) \<Rightarrow>
          (let fail = (\<lambda>excl w'.
                 if e = AcquireExhausted then
                   Some (prev\<lparr>concurrencyExhausted := True, skipReason := Some SkipConcurrency,
                     caResult := zeroResult\<lparr>status := 429, errorMessage := acquireErrorText env e, attemptFlow := flow prev\<rparr>\<rparr>, excl, w')
                 else
                   let r = (if status (caResult prev) = 0
                            then (caResult prev)\<lparr>status := 502, errorMessage := acquireErrorText env e,
                              body := openAIError env ''upstream_error'' (acquireErrorText env e)\<rparr>
                            else caResult prev)
                   in Some (prev\<lparr>skipReason := credentialSkipReasonFromError e, caResult := r\<lparr>attemptFlow := flow prev\<rparr>\<rparr>, excl, w'))
           in case sameCandidateRetryDelay env options retries prev (ctxDone env w1) of
                None \<Rightarrow> fail excluded w1
              | Some delay \<Rightarrow>
                  (let excl = excluded - {ChannelCredentialID (caCandidate prev)};
                       (go, w2) = waitForRetry env w1 delay
                   in if go then attemptLoop fuel env settings options stream candidate (Suc retries) True excl prev w2
                      else fail excl w2))
      | (Inr credential, w1) \<Rightarrow>
          (let current = candidate\<lparr>ChannelCredentialID := rcID credential, APIKeyCipher := rcCipher credential\<rparr>;
               (tried, w2) = tryAddresses env settings stream current (candidateBaseURLs current) prev w1;
               w3 = releaseSlot env w2 current
           in if handled tried then Some (tried\<lparr>caResult := (caResult tried)\<lparr>attemptFlow := flow tried\<rparr>\<rparr>, excluded, w3)
              else if channelDead tried then
                (case sameCandidateRetryDelay env options retries tried (ctxDone env w3) of
                   None \<Rightarrow> Some (tried\<lparr>caResult := (caResult tried)\<lparr>attemptFlow := flow tried\<rparr>\<rparr>, excluded, w3)
                 | Some delay \<Rightarrow>
                     (let tried' = tried\<lparr>channelDead := False\<rparr>; (go, w4) = waitForRetry env w3 delay
                      in if go then attemptLoop fuel env settings options stream candidate (Suc retries) True excluded tried' w4
                         else Some (tried'\<lparr>caResult := (caResult tried')\<lparr>attemptFlow := flow tried'\<rparr>\<rparr>, excluded, w4)))
              else attemptLoop fuel env settings options stream candidate retries bypass
                     (insert (rcID credential) excluded) tried w3))"

definition startAttempt :: "Candidate \<Rightarrow> channelAttempt" where
  "startAttempt candidate = \<lparr>caCandidate = candidate, caResult = zeroResult, handled = False, attempts = 0, flow = [],
     concurrencyExhausted = False, skipReason = None, channelDead = False\<rparr>"

definition attemptChannel :: "nat \<Rightarrow> 'w attemptEnv \<Rightarrow> ResilienceSettings \<Rightarrow> attemptOptions \<Rightarrow> bool \<Rightarrow> string \<Rightarrow> Candidate \<Rightarrow>
    id set \<Rightarrow> 'w \<Rightarrow> (channelAttempt \<times> id set \<times> 'w) option" where
  "attemptChannel fuel env settings options stream effort candidate0 excluded w =
     (let candidate = candidate0\<lparr>ReasoningEffort := effort\<rparr> in
      attemptLoop fuel env settings options stream candidate 0 (ignoreComboCooldown options) excluded
        (startAttempt candidate) w)"

subsection \<open>The attempts on a channel are bounded\<close>

text \<open>
  What the loop relies on: the key selection answers with keys of a set \<open>K\<close> and respects the keys
  excluded; a call reports at most \<open>k\<close> hops before its own (the fallback to another protocol).
\<close>

definition honestSlots :: "'w attemptEnv \<Rightarrow> id set \<Rightarrow> bool" where
  "honestSlots env K \<longleftrightarrow> (\<forall>w c ex b d cred w'. acquireSlot env w c ex b d = (Inr cred, w') \<longrightarrow> rcID cred \<in> K - ex)"

definition hopsAtMost :: "'w attemptEnv \<Rightarrow> nat \<Rightarrow> bool" where
  "hopsAtMost env k \<longleftrightarrow> (\<forall>w c r e w'. upstream env w c = (r, e, w') \<longrightarrow> length (precedingFlow r) \<le> k)"

lemma failedAttemptResult_keeps [simp]:
  "precedingFlow (failedAttemptResult env r m) = precedingFlow r"
  "wroteBytes (failedAttemptResult env r m) = wroteBytes r"
  "writerFailed (failedAttemptResult env r m) = writerFailed r"
  by (simp_all add: failedAttemptResult_def Let_def)

lemma retryDelay_bounded: "sameCandidateRetryDelay env options retries prev done = Some d \<Longrightarrow> retries < 3"
  by (auto simp: sameCandidateRetryDelay_def Let_def riskControlRetryDelays_def transientRetryDelays_def split: if_splits)

lemma candidateBaseURLs_length: "length (candidateBaseURLs c) \<le> Suc (length (CandBackupBaseURLs c))"
  using UpstreamBaseURLs_length [of "CandBackupBaseURLs c" "BaseURL c"]
  by (simp add: candidateBaseURLs_def UpstreamBaseURLs_def)

lemma finishCall_keeps [simp]:
  "precedingFlow (finishCall env t w1 called err) = precedingFlow called"
  "wroteBytes (finishCall env t w1 called err) = wroteBytes called"
  "writerFailed (finishCall env t w1 called err) = writerFailed called"
  by (simp_all add: finishCall_def Let_def split: option.split)

lemma addAttempt_fields [simp]:
  "attempts (addAttempt env c r a) = attempts a + Suc (length (precedingFlow r))" "\<not> handled (addAttempt env c r a)"
  "caCandidate (addAttempt env c r a) = c" "caResult (addAttempt env c r a) = r"
  by (simp_all add: addAttempt_def attemptFlowSteps_def Let_def)

lemma tryAddresses_attempts:
  "hopsAtMost env k \<Longrightarrow> tryAddresses env settings stream current urls a w = (a', w') \<Longrightarrow>
     attempts a' \<le> attempts a + length urls * Suc k"
proof (induction urls arbitrary: current a w)
  case (Cons url urls)
  obtain called err w1 where call: "upstream env w (current\<lparr>BaseURL := url\<rparr>) = (called, err, w1)"
    by (cases "upstream env w (current\<lparr>BaseURL := url\<rparr>)") auto
  have hops: "length (precedingFlow called) \<le> k"
    using Cons.prems(1) [unfolded hopsAtMost_def, rule_format, OF call] .
  show ?case
    using Cons.prems(2) call hops by (auto simp: Let_def split: if_splits dest!: Cons.IH [OF Cons.prems(1)])
qed simp

lemma card_excluded:
  assumes "finite K"
  shows "card (K - (ex - {x})) \<le> Suc (card (K - ex))" "x \<in> K - ex \<Longrightarrow> Suc (card (K - insert x ex)) = card (K - ex)"
proof -
  have "K - (ex - {x}) \<subseteq> insert x (K - ex)" by auto
  then have "card (K - (ex - {x})) \<le> card (insert x (K - ex))" using assms by (intro card_mono) auto
  also have "\<dots> \<le> Suc (card (K - ex))" using assms by (simp add: card_insert_if)
  finally show "card (K - (ex - {x})) \<le> Suc (card (K - ex))" .
  assume "x \<in> K - ex"
  moreover have "K - insert x ex = (K - ex) - {x}" by auto
  ultimately show "Suc (card (K - insert x ex)) = card (K - ex)" using assms by (metis card_Suc_Diff1 finite_Diff)
qed

lemma bound_step: "m \<le> a + B \<Longrightarrow> Suc n = n' \<Longrightarrow> m + n * B \<le> a + n' * (B :: nat)"
  by auto

lemma bound_end: "m \<le> a + B \<Longrightarrow> 0 < n' \<Longrightarrow> m \<le> a + n' * (B :: nat)"
  by (cases n') auto

text \<open>
  Every turn of the loop uses up a key or one of at most three retries; a retry may give one key
  back.
\<close>

lemma attemptLoop_bounded:
  assumes fin: "finite K" and honest: "honestSlots env K" and hops: "hopsAtMost env k"
    and B: "B = Suc (length (CandBackupBaseURLs candidate)) * Suc k"
  shows "card (K - excluded) + 2 * (3 - retries) < fuel \<Longrightarrow>
    \<exists>out ex w'. attemptLoop fuel env settings options stream candidate retries bypass excluded prev w = Some (out, ex, w') \<and>
      attempts out \<le> attempts prev + (card (K - excluded) + (3 - retries)) * B"
proof (induction fuel arbitrary: retries bypass excluded prev w)
  case (Suc fuel)
  obtain got w1 where acq: "acquireSlot env w candidate excluded bypass (concurrencyWaitWindow options) = (got, w1)"
    by fastforce
  show ?case
  proof (cases got)
    case (Inl e)
    show ?thesis
    proof (cases "sameCandidateRetryDelay env options retries prev (ctxDone env w1)")
      case None
      with acq Inl show ?thesis by (auto simp: Let_def)
    next
      case (Some delay)
      let ?x = "ChannelCredentialID (caCandidate prev)"
      obtain go w2 where wait: "waitForRetry env w1 delay = (go, w2)" by fastforce
      show ?thesis
      proof (cases go)
        case False
        with acq Inl Some wait show ?thesis by (auto simp: Let_def)
      next
        case True
        note card = card_excluded(1) [OF fin, of excluded ?x]
        have r: "Suc (3 - Suc retries) = 3 - retries" using retryDelay_bounded [OF Some] by simp
        have "\<exists>out ex w'. attemptLoop fuel env settings options stream candidate (Suc retries) True (excluded - {?x}) prev w2 = Some (out, ex, w') \<and>
            attempts out \<le> attempts prev + (card (K - (excluded - {?x})) + (3 - Suc retries)) * B"
          using Suc.prems card r by (intro Suc.IH) linarith
        then obtain out ex w' where rec: "attemptLoop fuel env settings options stream candidate (Suc retries) True (excluded - {?x}) prev w2 = Some (out, ex, w')"
          and le: "attempts out \<le> attempts prev + (card (K - (excluded - {?x})) + (3 - Suc retries)) * B" by blast
        have "(card (K - (excluded - {?x})) + (3 - Suc retries)) * B \<le> (card (K - excluded) + (3 - retries)) * B"
          using card r by (intro mult_le_mono1) linarith
        with le have "attempts out \<le> attempts prev + (card (K - excluded) + (3 - retries)) * B" by linarith
        moreover have "attemptLoop (Suc fuel) env settings options stream candidate retries bypass excluded prev w = Some (out, ex, w')"
          using acq Inl Some wait True rec by (simp add: Let_def)
        ultimately show ?thesis by blast
      qed
    qed
  next
    case (Inr cred)
    have key: "rcID cred \<in> K - excluded" using honest acq Inr unfolding honestSlots_def by blast
    let ?current = "candidate\<lparr>ChannelCredentialID := rcID cred, APIKeyCipher := rcCipher cred\<rparr>"
    obtain tried w2 where tried: "tryAddresses env settings stream ?current (candidateBaseURLs ?current) prev w1 = (tried, w2)"
      by fastforce
    let ?w3 = "releaseSlot env w2 ?current"
    have "length (candidateBaseURLs ?current) * Suc k \<le> B"
      using candidateBaseURLs_length [of ?current] unfolding B by (intro mult_le_mono1) simp
    then have more: "attempts tried \<le> attempts prev + B" using tryAddresses_attempts [OF hops tried] by linarith
    have card: "Suc (card (K - insert (rcID cred) excluded)) = card (K - excluded)"
      by (rule card_excluded(2) [OF fin key])
    have ends: "attempts tried \<le> attempts prev + (card (K - excluded) + (3 - retries)) * B"
      using card by (intro bound_end [OF more]) linarith
    show ?thesis
    proof (cases "handled tried")
      case True
      with acq Inr tried ends show ?thesis by (auto simp: Let_def)
    next
      case open': False
      show ?thesis
      proof (cases "channelDead tried")
        case False
        have "\<exists>out ex w'. attemptLoop fuel env settings options stream candidate retries bypass (insert (rcID cred) excluded) tried ?w3 = Some (out, ex, w') \<and>
            attempts out \<le> attempts tried + (card (K - insert (rcID cred) excluded) + (3 - retries)) * B"
          using Suc.prems card by (intro Suc.IH) linarith
        then obtain out ex w' where rec: "attemptLoop fuel env settings options stream candidate retries bypass (insert (rcID cred) excluded) tried ?w3 = Some (out, ex, w')"
          and le: "attempts out \<le> attempts tried + (card (K - insert (rcID cred) excluded) + (3 - retries)) * B" by blast
        have "attempts tried + (card (K - insert (rcID cred) excluded) + (3 - retries)) * B \<le>
            attempts prev + (card (K - excluded) + (3 - retries)) * B"
          using card by (intro bound_step [OF more]) linarith
        with le have "attempts out \<le> attempts prev + (card (K - excluded) + (3 - retries)) * B" by linarith
        moreover have "attemptLoop (Suc fuel) env settings options stream candidate retries bypass excluded prev w = Some (out, ex, w')"
          using acq Inr tried open' False rec by (simp add: Let_def)
        ultimately show ?thesis by blast
      next
        case dead: True
        show ?thesis
        proof (cases "sameCandidateRetryDelay env options retries tried (ctxDone env ?w3)")
          case None
          with acq Inr tried open' dead ends show ?thesis by (auto simp: Let_def)
        next
          case (Some delay)
          obtain go w4 where wait: "waitForRetry env ?w3 delay = (go, w4)" by fastforce
          have r: "Suc (3 - Suc retries) = 3 - retries" using retryDelay_bounded [OF Some] by simp
          show ?thesis
          proof (cases go)
            case False
            with acq Inr tried open' dead Some wait ends show ?thesis by (auto simp: Let_def)
          next
            case True
            let ?tried = "tried\<lparr>channelDead := False\<rparr>"
            have "\<exists>out ex w'. attemptLoop fuel env settings options stream candidate (Suc retries) True excluded ?tried w4 = Some (out, ex, w') \<and>
                attempts out \<le> attempts ?tried + (card (K - excluded) + (3 - Suc retries)) * B"
              using Suc.prems r by (intro Suc.IH) linarith
            then obtain out ex w' where rec: "attemptLoop fuel env settings options stream candidate (Suc retries) True excluded ?tried w4 = Some (out, ex, w')"
              and le: "attempts out \<le> attempts ?tried + (card (K - excluded) + (3 - Suc retries)) * B" by blast
            have "attempts tried + (card (K - excluded) + (3 - Suc retries)) * B \<le>
                attempts prev + (card (K - excluded) + (3 - retries)) * B"
              by (rule bound_step [OF more]) (use r in linarith)
            moreover have "attempts ?tried = attempts tried" by simp
            ultimately have "attempts ?tried + (card (K - excluded) + (3 - Suc retries)) * B \<le>
                attempts prev + (card (K - excluded) + (3 - retries)) * B" by (simp only:)
            with le have "attempts out \<le> attempts prev + (card (K - excluded) + (3 - retries)) * B" by linarith
            moreover have "attemptLoop (Suc fuel) env settings options stream candidate retries bypass excluded prev w = Some (out, ex, w')"
              using acq Inr tried open' dead Some wait True rec by (simp add: Let_def)
            ultimately show ?thesis by blast
          qed
        qed
      qed
    qed
  qed
qed simp

text \<open>
  C9: one request makes a bounded number of upstream calls on one channel: with enough fuel the
  loop returns, after at most (keys left + 3 retries) * (addresses) calls, each counted with the
  hop of a protocol fallback.
\<close>

theorem channel_attempts_bounded:
  assumes "finite K" "honestSlots env K" "hopsAtMost env k" "card K + 6 < fuel"
  shows "\<exists>out excluded' w'. attemptChannel fuel env settings options stream effort candidate excluded w = Some (out, excluded', w') \<and>
    attempts out \<le> (card (K - excluded) + 3) * (Suc (length (CandBackupBaseURLs candidate)) * Suc k)"
proof -
  let ?c = "candidate\<lparr>ReasoningEffort := effort\<rparr>"
  have "card (K - excluded) \<le> card K" using assms(1) by (intro card_mono) auto
  with assms(4) have "card (K - excluded) + 2 * (3 - 0) < fuel" by simp
  from attemptLoop_bounded [OF assms(1-3) refl this, of settings options stream ?c "ignoreComboCooldown options" "startAttempt ?c" w]
  show ?thesis by (simp add: attemptChannel_def startAttempt_def Let_def)
qed

subsection \<open>Nothing is called again once output reached the client\<close>

text \<open>\<open>calls\<close> reads off the world the results of the upstream calls made so far.\<close>

definition logsCalls :: "'w attemptEnv \<Rightarrow> ('w \<Rightarrow> attemptResult list) \<Rightarrow> bool" where
  "logsCalls env calls \<longleftrightarrow>
     (\<forall>w c r e w'. upstream env w c = (r, e, w') \<longrightarrow> calls w' = calls w @ [r]) \<and>
     (\<forall>w c ex b d got w'. acquireSlot env w c ex b d = (got, w') \<longrightarrow> calls w' = calls w) \<and>
     (\<forall>w c. calls (releaseSlot env w c) = calls w) \<and>
     (\<forall>w c r. calls (maybeAutoDisable env w c r) = calls w) \<and>
     (\<forall>w d go w'. waitForRetry env w d = (go, w') \<longrightarrow> calls w' = calls w)"

definition silent :: "attemptResult \<Rightarrow> bool" where
  "silent r \<longleftrightarrow> \<not> wroteBytes r \<and> \<not> writerFailed r"

lemma tryAddresses_log:
  "logsCalls env calls \<Longrightarrow> tryAddresses env settings stream current urls a w = (a', w') \<Longrightarrow> \<not> handled a \<Longrightarrow>
     \<exists>rs. calls w' = calls w @ rs \<and> (\<forall>r \<in> set (butlast rs). silent r) \<and> (handled a' \<or> (\<forall>r \<in> set rs. silent r))"
proof (induction urls arbitrary: current a w)
  case (Cons url urls)
  obtain called err w1 where call: "upstream env w (current\<lparr>BaseURL := url\<rparr>) = (called, err, w1)"
    by (cases "upstream env w (current\<lparr>BaseURL := url\<rparr>)") auto
  let ?c = "current\<lparr>BaseURL := url\<rparr>" and ?r = "finishCall env (worldNow env w) w1 called err"
  let ?w2 = "scoreCall env w1 ?c ?r err"
  have w2: "calls ?w2 = calls w @ [called]" using Cons.prems(1) call by (auto simp: logsCalls_def scoreCall_def)
  show ?case
  proof (cases "attemptCompleted ?r (err \<noteq> None) stream")
    case True
    with Cons.prems(2) call w2 show ?thesis by (auto simp: Let_def intro!: exI [of _ "[called]"])
  next
    case False
    then have quiet: "silent called" by (auto simp: attemptCompleted_def silent_def split: if_splits)
    show ?thesis
    proof (cases "channelDeadFailure ?r settings")
      case True
      with False Cons.prems(2) call w2 quiet show ?thesis by (auto simp: Let_def intro!: exI [of _ "[called]"])
    next
      case alive: False
      with False Cons.prems(2) call have "tryAddresses env settings stream ?c urls (addAttempt env ?c ?r a) ?w2 = (a', w')"
        by (simp add: Let_def)
      from Cons.IH [OF Cons.prems(1) this] obtain rs where
        "calls w' = calls ?w2 @ rs" "\<forall>r \<in> set (butlast rs). silent r" "handled a' \<or> (\<forall>r \<in> set rs. silent r)" by auto
      with w2 quiet show ?thesis by (intro exI [of _ "called # rs"]) auto
    qed
  qed
qed auto

lemma logsCallsD:
  assumes "logsCalls env calls"
  shows "acquireSlot env w c ex b d = (got, w') \<Longrightarrow> calls w' = calls w" "calls (releaseSlot env w c) = calls w"
    "waitForRetry env w d = (go, w') \<Longrightarrow> calls w' = calls w"
  using assms unfolding logsCalls_def by blast+

lemma attemptLoop_log:
  assumes "logsCalls env calls"
  shows "attemptLoop fuel env settings options stream candidate retries bypass excluded prev w = Some (out, ex', w') \<Longrightarrow>
    \<not> handled prev \<Longrightarrow>
    \<exists>rs. calls w' = calls w @ rs \<and> (\<forall>r \<in> set (butlast rs). silent r) \<and> (handled out \<or> (\<forall>r \<in> set rs. silent r))"
proof (induction fuel arbitrary: retries bypass excluded prev w)
  case (Suc fuel)
  obtain got w1 where acq: "acquireSlot env w candidate excluded bypass (concurrencyWaitWindow options) = (got, w1)"
    by fastforce
  note c1 = logsCallsD(1) [OF assms acq]
  show ?case
  proof (cases got)
    case (Inl e)
    show ?thesis
    proof (cases "sameCandidateRetryDelay env options retries prev (ctxDone env w1)")
      case None
      with Suc.prems acq Inl c1 show ?thesis by (auto simp: Let_def split: if_splits)
    next
      case (Some delay)
      obtain go w2 where wait: "waitForRetry env w1 delay = (go, w2)" by fastforce
      note c2 = logsCallsD(3) [OF assms wait]
      show ?thesis
      proof (cases go)
        case False
        with Suc.prems acq Inl Some wait c1 c2 show ?thesis by (auto simp: Let_def split: if_splits)
      next
        case True
        with Suc.prems acq Inl Some wait have
          "attemptLoop fuel env settings options stream candidate (Suc retries) True
             (excluded - {ChannelCredentialID (caCandidate prev)}) prev w2 = Some (out, ex', w')"
          by (simp add: Let_def)
        from Suc.IH [OF this Suc.prems(2)] c1 c2 show ?thesis by simp
      qed
    qed
  next
    case (Inr cred)
    let ?current = "candidate\<lparr>ChannelCredentialID := rcID cred, APIKeyCipher := rcCipher cred\<rparr>"
    obtain tried w2 where tried: "tryAddresses env settings stream ?current (candidateBaseURLs ?current) prev w1 = (tried, w2)"
      by fastforce
    let ?w3 = "releaseSlot env w2 ?current"
    from tryAddresses_log [OF assms tried Suc.prems(2)] obtain rs where
      rs: "calls w2 = calls w1 @ rs" "\<forall>r \<in> set (butlast rs). silent r" "handled tried \<or> (\<forall>r \<in> set rs. silent r)" by blast
    have c3: "calls ?w3 = calls w @ rs" using rs(1) c1 logsCallsD(2) [OF assms] by simp
    have continue: ?thesis if "attemptLoop fuel env settings options stream candidate n b x p w4 = Some (out, ex', w')"
      "calls w4 = calls ?w3" "\<not> handled p" "\<not> handled tried" for n b x p w4
    proof -
      from Suc.IH [OF that(1,3)] obtain rs' where
        "calls w' = calls w4 @ rs'" "\<forall>r \<in> set (butlast rs'). silent r" "handled out \<or> (\<forall>r \<in> set rs'. silent r)" by blast
      with that(2,4) c3 rs(3) show ?thesis
        by (intro exI [of _ "rs @ rs'"]) (auto simp: butlast_append dest: in_set_butlastD)
    qed
    show ?thesis
    proof (cases "handled tried")
      case True
      with Suc.prems acq Inr tried c3 rs show ?thesis by (auto simp: Let_def)
    next
      case open': False
      show ?thesis
      proof (cases "channelDead tried")
        case False
        with Suc.prems acq Inr tried open' have
          "attemptLoop fuel env settings options stream candidate retries bypass (insert (rcID cred) excluded) tried ?w3 = Some (out, ex', w')"
          by (simp add: Let_def)
        from continue [OF this refl open' open'] show ?thesis .
      next
        case dead: True
        show ?thesis
        proof (cases "sameCandidateRetryDelay env options retries tried (ctxDone env ?w3)")
          case None
          with Suc.prems acq Inr tried open' dead c3 rs show ?thesis by (auto simp: Let_def)
        next
          case (Some delay)
          obtain go w4 where wait: "waitForRetry env ?w3 delay = (go, w4)" by fastforce
          note c4 = logsCallsD(3) [OF assms wait]
          show ?thesis
          proof (cases go)
            case False
            with Suc.prems acq Inr tried open' dead Some wait c3 c4 rs show ?thesis by (auto simp: Let_def)
          next
            case True
            with Suc.prems acq Inr tried open' dead Some wait have
              "attemptLoop fuel env settings options stream candidate (Suc retries) True excluded (tried\<lparr>channelDead := False\<rparr>) w4 = Some (out, ex', w')"
              by (simp add: Let_def)
            from continue [OF this c4] open' show ?thesis by simp
          qed
        qed
      qed
    qed
  qed
qed simp

text \<open>
  C8: a request is never replayed once something of an answer reached the client, or the client
  is gone: of all the calls made on a channel only the last one can have written output or failed
  to write it, and then the channel's outcome is final.
\<close>

theorem no_replay_after_output:
  assumes "logsCalls env calls"
    and "attemptChannel fuel env settings options stream effort candidate excluded w = Some (out, excluded', w')"
  shows "\<exists>rs. calls w' = calls w @ rs \<and>
    (\<forall>r \<in> set (butlast rs). \<not> wroteBytes r \<and> \<not> writerFailed r) \<and>
    (handled out \<or> (\<forall>r \<in> set rs. \<not> wroteBytes r \<and> \<not> writerFailed r))"
  using attemptLoop_log [OF assms(1), of fuel settings options stream "candidate\<lparr>ReasoningEffort := effort\<rparr>" 0
      "ignoreComboCooldown options" excluded] assms(2)
  by (fastforce simp: attemptChannel_def startAttempt_def silent_def Let_def)

text \<open>A channel with one key, and an upstream that answers with a given result.\<close>

definition exampleAttemptEnv :: "attemptResult \<Rightarrow> attemptResult list attemptEnv" where
  "exampleAttemptEnv r = \<lparr>
     acquireSlot = \<lambda>w c ex b d. (if 5 \<in> ex then Inl AcquireCancelled else Inr \<lparr>rcID = 5, rcCipher = []\<rparr>, w),
     releaseSlot = \<lambda>w c. w, upstream = \<lambda>w c. (r, None, w @ [r]), maybeAutoDisable = \<lambda>w c r. w,
     ctxDone = \<lambda>w. False, waitForRetry = \<lambda>w d. (True, w), worldNow = \<lambda>w. 0, upstreamErrorText = \<lambda>b f. f,
     acquireErrorText = \<lambda>e. ''no key'', openAIError = \<lambda>k m. m, flowErrorText = \<lambda>m. m, jsonTree = \<lambda>_. None\<rparr>"

definition exampleOptions :: attemptOptions where
  "exampleOptions = \<lparr>ignoreComboCooldown = False, concurrencyWaitWindow = 0, throttleRetry = True,
     riskControlRetry = True, transientRetry = True\<rparr>"

theorem channel_attempts_bounded_witness:
  "\<exists>out excluded' w'. attemptChannel 8 (exampleAttemptEnv (zeroResult\<lparr>status := 503\<rparr>)) DefaultResilienceSettings exampleOptions
      False [] (exampleCandidate 10 7 5 3 100) {} [] = Some (out, excluded', w') \<and>
    attempts out \<le> (card ({5 :: id} - {}) + 3) * (Suc (length (CandBackupBaseURLs (exampleCandidate 10 7 5 3 100))) * Suc 0)"
  by (rule channel_attempts_bounded)
    (auto simp: honestSlots_def hopsAtMost_def exampleAttemptEnv_def zeroResult_def split: if_splits)

theorem no_replay_after_output_witness:
  "\<exists>rs. [zeroResult\<lparr>status := 200, wroteBytes := True\<rparr>] = [] @ rs \<and>
    (\<forall>r \<in> set (butlast rs). \<not> wroteBytes r \<and> \<not> writerFailed r) \<and>
    (True \<or> (\<forall>r \<in> set rs. \<not> wroteBytes r \<and> \<not> writerFailed r))"
proof -
  let ?r = "zeroResult\<lparr>status := 200, wroteBytes := True\<rparr>"
  let ?env = "exampleAttemptEnv ?r"
  have log: "logsCalls ?env (\<lambda>w. w)" by (simp add: logsCalls_def exampleAttemptEnv_def)
  have urls: "candidateBaseURLs (c\<lparr>ChannelCredentialID := i, APIKeyCipher := k\<rparr>) = [''u'']"
    if "c = (exampleCandidate 10 7 5 3 100)\<lparr>ReasoningEffort := []\<rparr>" for c i k
    using that by (simp add: candidateBaseURLs_def exampleCandidate_def newCandidate_def exampleChannel_def
        DefaultAdvancedConfig_def plain_eval trimRightSlash_def dedupOn_def)
  have run: "\<exists>out. attemptChannel 1 ?env DefaultResilienceSettings exampleOptions True [] (exampleCandidate 10 7 5 3 100) {} [] =
      Some (out, {}, [?r]) \<and> handled out"
    unfolding attemptChannel_def Let_def One_nat_def
    by (simp add: urls attemptCompleted_def Let_def exampleAttemptEnv_def zeroResult_def scoreCall_def)
  then obtain out where run: "attemptChannel 1 ?env DefaultResilienceSettings exampleOptions True [] (exampleCandidate 10 7 5 3 100) {} [] =
      Some (out, {}, [?r])" by blast
  from no_replay_after_output [OF log run] show ?thesis by simp
qed

end
