(* ===== verification/Relay_Flow.thy ===== *)
theory Relay_Flow
  imports Relay_Attempt
begin

text \<open>
  One request over all its candidates (\<^verbatim>\<open>Handle\<close> of \<^verbatim>\<open>internal/logic/relay/service.go\<close> from the
  routed candidates on, \<^verbatim>\<open>availability_error.go\<close>, \<^verbatim>\<open>failed_request.go\<close>, \<^verbatim>\<open>acquireKeySlot\<close> of
  \<^verbatim>\<open>concurrency.go\<close>): the two passes over the candidates, the retry of a result that cannot be
  billed, the accounting, the scoring, and the answer to the client.
\<close>

subsection \<open>Errors for the client\<close>

datatype relay_error =
    ErrNoAvailableChannel string | ErrEligibleChannelsExhausted | ErrChannelConcurrencyExhausted string id
  | ErrInsufficientBalance | ErrRoute route_error | ErrModelRequired

definition IsRetryableAvailabilityError :: "relay_error \<Rightarrow> bool" where
  "IsRetryableAvailabilityError e =
     (case e of ErrNoAvailableChannel _ \<Rightarrow> True | ErrEligibleChannelsExhausted \<Rightarrow> True | _ \<Rightarrow> False)"

definition IsConcurrencyExhaustedError :: "relay_error \<Rightarrow> bool" where
  "IsConcurrencyExhaustedError e = (case e of ErrChannelConcurrencyExhausted _ _ \<Rightarrow> True | _ \<Rightarrow> False)"

record ClientErrorResponse =
  errStatus :: int
  errType :: string
  errMessage :: string
  errRetryAfter :: string

definition RetryableAvailabilityClientError :: ClientErrorResponse where
  "RetryableAvailabilityClientError = \<lparr>errStatus = 503, errType = ''server_error'',
     errMessage = ''All eligible channels are temporarily unavailable. Please retry shortly.'', errRetryAfter = ''2''\<rparr>"

definition ConcurrencyExhaustedClientError :: ClientErrorResponse where
  "ConcurrencyExhaustedClientError = \<lparr>errStatus = 429, errType = ''rate_limit_exceeded'',
     errMessage = ''Channel upstream key concurrency limit reached. Please retry shortly.'', errRetryAfter = ''5''\<rparr>"

subsection \<open>The surroundings of the request\<close>

datatype record_error = NotBillable | InsufficientBalance string | RecordFailed string

record 'w relayEnv = "'w attemptEnv" +
  missingBillableUsage :: "Candidate \<Rightarrow> attemptResult \<Rightarrow> bool"
  recordUsage :: "'w \<Rightarrow> Candidate \<Rightarrow> nat \<Rightarrow> attemptResult \<Rightarrow> record_error option \<times> 'w"
  noteSuccess :: "'w \<Rightarrow> Candidate \<Rightarrow> attemptResult \<Rightarrow> 'w"
  writeResponse :: "'w \<Rightarrow> int \<Rightarrow> string \<Rightarrow> 'w"
  savePayloadLog :: "'w \<Rightarrow> Candidate \<Rightarrow> attemptResult \<Rightarrow> 'w"
  restoreSensitive :: "string \<Rightarrow> string"

text \<open>The fields of \<open>attemptEnv\<close> inside \<open>relayEnv\<close>.\<close>

abbreviation attemptPart :: "'w relayEnv \<Rightarrow> 'w attemptEnv" where
  "attemptPart env \<equiv> attemptEnv.truncate env"

record 'w relayState =
  rsWorld :: 'w
  rsExcluded :: "id set"
  rsAttempts :: nat
  rsLast :: attemptResult
  rsLastCandidate :: "Candidate option"
  rsFlow :: "AttemptFlowStep list"
  rsSkips :: "id \<Rightarrow> attempt_skip option"

datatype 'w step = StepDone "relay_error option" 'w | StepNext "'w relayState" | StepFuel

subsection \<open>The answer\<close>

definition streamTruncated :: "bool \<Rightarrow> attemptResult \<Rightarrow> bool" where
  "streamTruncated stream r = (stream \<and> wroteBytes r \<and> \<not> streamCompleted r)"

fun hasStandardErrorEnvelope :: "json option \<Rightarrow> bool" where
  "hasStandardErrorEnvelope (Some (JObj kvs)) =
     (case map_of (rev kvs) ''error'' of None \<Rightarrow> False | Some JNull \<Rightarrow> False | Some _ \<Rightarrow> True)"
| "hasStandardErrorEnvelope _ = False"

definition clientVisibleErrorBody :: "'w attemptEnv \<Rightarrow> attemptResult \<Rightarrow> string" where
  "clientVisibleErrorBody env r =
     (let fallback = ''upstream returned HTTP '' @ showInt (status r) in
      if trimSpace (body r) = [] then
        openAIError env ''upstream_error'' (if trimSpace (errorMessage r) = [] then fallback else errorMessage r)
      else if hasStandardErrorEnvelope (jsonTree env (body r)) then body r
      else openAIError env ''upstream_error'' (upstreamErrorText env (body r) fallback))"

definition finishFailedRequest :: "'w relayEnv \<Rightarrow> 'w \<Rightarrow> Candidate \<Rightarrow> attemptResult \<Rightarrow> 'w" where
  "finishFailedRequest env w candidate r =
     (let w1 = (if \<not> wroteBytes r \<and> 400 \<le> status r
                then writeResponse env w (status r) (restoreSensitive env (clientVisibleErrorBody (attemptPart env) r))
                else w)
      in savePayloadLog env w1 candidate r)"

definition streamTruncatedReason :: string where
  "streamTruncatedReason = bytes [0xE4, 0xB8, 0x8A, 0xE6, 0xB8, 0xB8, 0xE6, 0xB5, 0x81, 0xE5, 0xBC, 0x8F, 0xE5, 0x93, 0x8D, 0xE5,
    0xBA, 0x94, 0xE6, 0x9C, 0xAA, 0xE6, 0xAD, 0xA3, 0xE5, 0xB8, 0xB8, 0xE7, 0xBB, 0x93, 0xE6, 0x9D, 0x9F,
    0xEF, 0xBC, 0x88, 0xE7, 0xBC, 0xBA, 0xE5, 0xB0, 0x91, 0xE7, 0xBB, 0x93, 0xE6, 0x9D, 0x9F, 0xE6, 0xA0,
    0x87, 0xE8, 0xAE, 0xB0, 0xEF, 0xBC, 0x89]"

definition accountingErrorMessage :: string where
  "accountingErrorMessage = bytes [0xE7, 0x94, 0xA8, 0xE9, 0x87, 0x8F, 0xE8, 0xAE, 0xB0, 0xE8, 0xB4, 0xA6, 0xE5, 0xA4, 0xB1, 0xE8, 0xB4, 0xA5]"

definition answered :: "attemptResult \<Rightarrow> bool \<Rightarrow> bool" where
  "answered r truncated =
     (\<not> truncated \<and> 200 \<le> status r \<and> status r < 300 \<and> errorMessage r = [] \<and> \<not> timedOut r)"

text \<open>What follows a completed and recorded attempt.\<close>

definition finishAnswered :: "'w relayEnv \<Rightarrow> bool \<Rightarrow> 'w \<Rightarrow> Candidate \<Rightarrow> attemptResult \<Rightarrow> 'w" where
  "finishAnswered env isStream w candidate r =
     (let truncated = streamTruncated isStream r;
          w1 = (if truncated \<and> \<not> writerFailed r \<and> \<not> ctxDone env w
                then maybeAutoDisable env w candidate (failedAttemptResult (attemptPart env) r streamTruncatedReason)
                else if answered r truncated then noteSuccess env w candidate r
                else w);
          w2 = (if isStream then w1
                else writeResponse env w1 (status r)
                       (if 200 \<le> status r \<and> status r < 300 then restoreSensitive env (body r) else body r))
      in savePayloadLog env w2 candidate r)"

definition accountingFailure :: "'w relayEnv \<Rightarrow> bool \<Rightarrow> 'w \<Rightarrow> record_error \<Rightarrow> 'w" where
  "accountingFailure env isStream w e =
     (if isStream then w
      else case e of
             InsufficientBalance m \<Rightarrow> writeResponse env w 402 (openAIError env ''insufficient_balance'' m)
           | _ \<Rightarrow> writeResponse env w 500 (openAIError env ''accounting_error'' accountingErrorMessage))"

subsection \<open>One candidate\<close>

definition candidateOptions :: "nat \<Rightarrow> bool \<Rightarrow> attemptOptions" where
  "candidateOptions pass isLastCandidate = \<lparr>ignoreComboCooldown = (0 < pass),
     concurrencyWaitWindow = candidateConcurrencyWaitWindow isLastCandidate,
     throttleRetry = isLastCandidate, riskControlRetry = isLastCandidate, transientRetry = isLastCandidate\<rparr>"

definition rejectUnbillable :: "'w relayEnv \<Rightarrow> string \<Rightarrow> Candidate \<Rightarrow> attemptResult \<Rightarrow> 'w relayState \<Rightarrow> 'w relayState" where
  "rejectUnbillable env reason candidate r rs =
     (let failed = failedAttemptResult (attemptPart env) r reason in
      rs\<lparr>rsLast := failed, rsLastCandidate := Some candidate,
        rsWorld := maybeAutoDisable env (rsWorld rs) candidate failed,
        rsExcluded := insert (ChannelCredentialID candidate) (rsExcluded rs)\<rparr>)"

definition notBillableText :: string where
  "notBillableText = bytes [0xE4, 0xB8, 0x8A, 0xE6, 0xB8, 0xB8, 0xE5, 0x93, 0x8D, 0xE5, 0xBA, 0x94, 0xE6, 0x9C, 0xAA, 0xE8,
    0xBF, 0x94, 0xE5, 0x9B, 0x9E, 0xE5, 0x8F, 0xAF, 0xE8, 0xAE, 0xA1, 0xE8, 0xB4, 0xB9, 0xE7, 0x9A, 0x84,
    0xE7, 0x94, 0xA8, 0xE9, 0x87, 0x8F, 0xE4, 0xBF, 0xA1, 0xE6, 0x81, 0xAF]"

text \<open>The bookkeeping after the attempts on a channel.\<close>

definition noteOutcome :: "Candidate \<Rightarrow> channelAttempt \<Rightarrow> 'w relayState \<Rightarrow> 'w relayState" where
  "noteOutcome candidate outcome rs0 =
     (let rs1 = (if attempts outcome = 0 \<and> skipReason outcome \<noteq> None
                 then rs0\<lparr>rsSkips := (rsSkips rs0)(ChannelID candidate := skipReason outcome)\<rparr> else rs0);
          rs2 = rs1\<lparr>rsAttempts := rsAttempts rs1 + attempts outcome\<rparr>
      in if 0 < attempts outcome
         then rs2\<lparr>rsLast := caResult outcome, rsLastCandidate := Some (caCandidate outcome),
                rsFlow := rsFlow rs2 @ attemptFlow (caResult outcome)\<rparr>
         else rs2)"

text \<open>A completed attempt: accounted and answered, or rejected because it cannot be billed.\<close>

datatype 'w settled = SettledDone 'w | SettledRetry "'w relayState"

definition settleHandled :: "'w relayEnv \<Rightarrow> bool \<Rightarrow> 'w relayState \<Rightarrow> Candidate \<Rightarrow> attemptResult \<Rightarrow> 'w settled" where
  "settleHandled env isStream rs used r0 =
     (if \<not> wroteBytes r0 \<and> missingBillableUsage env used r0
      then SettledRetry (rejectUnbillable env notBillableText used r0 rs)
      else let r = r0\<lparr>attemptFlow := rsFlow rs\<rparr> in
        case recordUsage env (rsWorld rs) used (rsAttempts rs) r of
          (Some e, w1) \<Rightarrow>
            if \<not> wroteBytes r \<and> e = NotBillable
            then SettledRetry (rejectUnbillable env notBillableText used r (rs\<lparr>rsWorld := w1\<rparr>))
            else SettledDone (accountingFailure env isStream w1 e)
        | (None, w1) \<Rightarrow> SettledDone (finishAnswered env isStream w1 used r))"

fun candidateLoop :: "nat \<Rightarrow> nat \<Rightarrow> 'w relayEnv \<Rightarrow> ResilienceSettings \<Rightarrow> bool \<Rightarrow> string \<Rightarrow> nat \<Rightarrow> bool \<Rightarrow> Candidate \<Rightarrow>
    'w relayState \<Rightarrow> 'w step" where
  "candidateLoop 0 afuel env settings isStream effort pass isLast candidate rs = StepFuel"
| "candidateLoop (Suc fuel) afuel env settings isStream effort pass isLast candidate rs =
     (case attemptChannel afuel (attemptPart env) settings (candidateOptions pass isLast) isStream effort candidate
             (rsExcluded rs) (rsWorld rs) of
        None \<Rightarrow> StepFuel
      | Some (outcome, excluded, w) \<Rightarrow>
          (let rs = rs\<lparr>rsWorld := w, rsExcluded := excluded\<rparr> in
           if concurrencyExhausted outcome then
             (if \<not> isLast then StepNext (rs\<lparr>rsSkips := (rsSkips rs)(ChannelID candidate := skipReason outcome)\<rparr>)
              else StepDone (Some (ErrChannelConcurrencyExhausted (ChannelName candidate) (ChannelID candidate))) w)
           else if \<not> handled outcome then StepNext (noteOutcome candidate outcome rs)
           else case settleHandled env isStream (noteOutcome candidate outcome rs) (caCandidate outcome) (caResult outcome) of
                  SettledDone w1 \<Rightarrow> StepDone None w1
                | SettledRetry rs' \<Rightarrow> candidateLoop fuel afuel env settings isStream effort pass isLast candidate rs'))"

fun candidatePass :: "nat \<Rightarrow> nat \<Rightarrow> 'w relayEnv \<Rightarrow> ResilienceSettings \<Rightarrow> bool \<Rightarrow> string \<Rightarrow> nat \<Rightarrow> Candidate list \<Rightarrow>
    'w relayState \<Rightarrow> 'w step" where
  "candidatePass fuel afuel env settings isStream effort pass [] rs = StepNext rs"
| "candidatePass fuel afuel env settings isStream effort pass (c # cs) rs =
     (case candidateLoop fuel afuel env settings isStream effort pass (cs = []) c rs of
        StepNext rs' \<Rightarrow> candidatePass fuel afuel env settings isStream effort pass cs rs'
      | done \<Rightarrow> done)"

definition skippedPrefix :: string where
  "skippedPrefix = bytes [0xE5, 0x85, 0xA8, 0xE9, 0x83, 0xA8, 0xE5, 0x80, 0x99, 0xE9, 0x80, 0x89, 0xE6, 0xB8, 0xA0, 0xE9,
    0x81, 0x93, 0xE5, 0x9C, 0xA8, 0xE9, 0x80, 0x89, 0xE5, 0x87, 0xAD, 0xE8, 0xAF, 0x81, 0xE9, 0x98, 0xB6,
    0xE6, 0xAE, 0xB5, 0xE8, 0xA2, 0xAB, 0xE8, 0xB7, 0xB3, 0xE8, 0xBF, 0x87, 0xEF, 0xBC, 0x9A]"

definition unknownReason :: string where
  "unknownReason = bytes [0xE5, 0x8E, 0x9F, 0xE5, 0x9B, 0xA0, 0xE6, 0x9C, 0xAA, 0xE7, 0x9F, 0xA5]"

definition summarizeCandidateSkips :: "Candidate list \<Rightarrow> (id \<Rightarrow> string) \<Rightarrow> string" where
  "summarizeCandidateSkips candidates reasons =
     joinStr (bytes [0xEF, 0xBC, 0x9B])
       (map (\<lambda>c. let reason = (if reasons (ChannelID c) = [] then unknownReason else reasons (ChannelID c))
             in ChannelName c @ ''(#'' @ showNat (ChannelID c) @ ''): '' @ reason)
         (dedupOn ChannelID candidates))"

text \<open>
  The passes: the second one, which ignores the cool-down of pairs of model and key, runs only
  when the first made no upstream call at all.  \<open>skipText\<close> is the text of a skip reason.
\<close>

definition relayCandidates :: "nat \<Rightarrow> nat \<Rightarrow> 'w relayEnv \<Rightarrow> (attempt_skip option \<Rightarrow> string) \<Rightarrow> ResilienceSettings \<Rightarrow> bool \<Rightarrow> string \<Rightarrow>
    Candidate list \<Rightarrow> 'w \<Rightarrow> (relay_error option \<times> 'w) option" where
  "relayCandidates fuel afuel env skipText settings isStream effort candidates w0 =
     (let start = \<lparr>rsWorld = w0, rsExcluded = {}, rsAttempts = 0, rsLast = zeroResult, rsLastCandidate = None,
                   rsFlow = [], rsSkips = Map.empty\<rparr>;
          first = candidatePass fuel afuel env settings isStream effort 0 candidates start;
          final = (case first of
              StepNext rs \<Rightarrow> if rsAttempts rs = 0 then candidatePass fuel afuel env settings isStream effort 1 candidates rs
                            else StepNext rs
            | done \<Rightarrow> done)
      in case final of
           StepFuel \<Rightarrow> None
         | StepDone e w \<Rightarrow> Some (e, w)
         | StepNext rs \<Rightarrow>
             (let failed = (failedAttemptResult (attemptPart env) (rsLast rs) ''All eligible channels failed'')\<lparr>attemptFlow := rsFlow rs\<rparr>
              in if 0 < rsAttempts rs then
                   (case rsLastCandidate rs of
                      None \<Rightarrow> Some (None, rsWorld rs)
                    | Some c \<Rightarrow>
                        (let (_, w1) = recordUsage env (rsWorld rs) c (rsAttempts rs) failed
                         in Some (None, finishFailedRequest env w1 c failed)))
                 else
                   (let failed = failed\<lparr>status := 503,
                           body := openAIError env ''server_error'' (errMessage RetryableAvailabilityClientError),
                           errorMessage := skippedPrefix @ summarizeCandidateSkips candidates (\<lambda>ch. skipText (rsSkips rs ch))\<rparr>;
                        c = (hd candidates)\<lparr>ChannelCredentialID := 0, APIKeyCipher := []\<rparr>;
                        (_, w1) = recordUsage env (rsWorld rs) c 0 failed
                    in Some (Some ErrEligibleChannelsExhausted, w1))))"

subsection \<open>Answered once, accounted once\<close>

text \<open>What every operation but the call, the accounting and the answer leaves as it is.\<close>

definition keepsWorld :: "'w attemptEnv \<Rightarrow> ('w \<Rightarrow> 'x) \<Rightarrow> bool" where
  "keepsWorld env f \<longleftrightarrow>
     (\<forall>w c ex b d got w'. acquireSlot env w c ex b d = (got, w') \<longrightarrow> f w' = f w) \<and>
     (\<forall>w c. f (releaseSlot env w c) = f w) \<and>
     (\<forall>w c r e w'. upstream env w c = (r, e, w') \<longrightarrow> f w' = f w) \<and>
     (\<forall>w c r. f (maybeAutoDisable env w c r) = f w) \<and>
     (\<forall>w d go w'. waitForRetry env w d = (go, w') \<longrightarrow> f w' = f w)"

lemma keepsWorldD:
  assumes "keepsWorld env f"
  shows "acquireSlot env w c ex b d = (got, w') \<Longrightarrow> f w' = f w" "f (releaseSlot env w c) = f w"
    "upstream env w c = (r, e, w') \<Longrightarrow> f w' = f w" "f (maybeAutoDisable env w c r) = f w"
    "waitForRetry env w d = (go, w') \<Longrightarrow> f w' = f w"
  using assms by (unfold keepsWorld_def) (metis (no_types))+

lemma tryAddresses_keeps:
  "keepsWorld env f \<Longrightarrow> tryAddresses env settings stream current urls a w = (a', w') \<Longrightarrow> f w' = f w"
proof (induction urls arbitrary: current a w)
  case (Cons url urls)
  obtain called err w1 where call: "upstream env w (current\<lparr>BaseURL := url\<rparr>) = (called, err, w1)"
    by (cases "upstream env w (current\<lparr>BaseURL := url\<rparr>)") auto
  have "f (scoreCall env w1 c r err) = f w" for c r
    using keepsWorldD(3) [OF Cons.prems(1) call] keepsWorldD(4) [OF Cons.prems(1)] by (simp add: scoreCall_def)
  with Cons.prems(2) call show ?case
    by (auto simp: Let_def split: if_splits dest!: Cons.IH [OF Cons.prems(1)])
qed simp

lemma attemptLoop_keeps:
  assumes keeps: "keepsWorld env f"
  shows "attemptLoop fuel env settings options stream candidate retries bypass excluded prev w = Some (out, ex', w') \<Longrightarrow> f w' = f w"
proof (induction fuel arbitrary: retries bypass excluded prev w)
  case (Suc fuel)
  note D = keepsWorldD [OF keeps]
  obtain got w1 where acq: "acquireSlot env w candidate excluded bypass (concurrencyWaitWindow options) = (got, w1)"
    by fastforce
  show ?case
  proof (cases got)
    case (Inl e)
    have wait: "waitForRetry env w1 d = (fst (waitForRetry env w1 d), snd (waitForRetry env w1 d))" for d by simp
    have f2: "f (snd (waitForRetry env w1 d)) = f w" for d using D(1) [OF acq] D(5) [OF wait] by simp
    from Suc acq Inl D(1) [OF acq] f2 show ?thesis
      by (auto simp: Let_def case_prod_beta split: option.splits if_splits)
  next
    case (Inr cred)
    let ?current = "candidate\<lparr>ChannelCredentialID := rcID cred, APIKeyCipher := rcCipher cred\<rparr>"
    obtain tried w2 where tried: "tryAddresses env settings stream ?current (candidateBaseURLs ?current) prev w1 = (tried, w2)"
      by fastforce
    have f3: "f (releaseSlot env w2 ?current) = f w"
      using tryAddresses_keeps [OF keeps tried] D(1) [OF acq] D(2) by simp
    have wait: "waitForRetry env w d = (fst (waitForRetry env w d), snd (waitForRetry env w d))" for w d by simp
    have f4: "f (snd (waitForRetry env (releaseSlot env w2 ?current) d)) = f w" for d using f3 D(5) [OF wait] by simp
    have "Some (out, ex', w') = (if handled tried then Some (tried\<lparr>caResult := (caResult tried)\<lparr>attemptFlow := flow tried\<rparr>\<rparr>, excluded, releaseSlot env w2 ?current)
       else if channelDead tried then
         (case sameCandidateRetryDelay env options retries tried (ctxDone env (releaseSlot env w2 ?current)) of
            None \<Rightarrow> Some (tried\<lparr>caResult := (caResult tried)\<lparr>attemptFlow := flow tried\<rparr>\<rparr>, excluded, releaseSlot env w2 ?current)
          | Some delay \<Rightarrow>
              (let tried' = tried\<lparr>channelDead := False\<rparr>; (go, w4) = waitForRetry env (releaseSlot env w2 ?current) delay
               in if go then attemptLoop fuel env settings options stream candidate (Suc retries) True excluded tried' w4
                  else Some (tried'\<lparr>caResult := (caResult tried')\<lparr>attemptFlow := flow tried'\<rparr>\<rparr>, excluded, w4)))
       else attemptLoop fuel env settings options stream candidate retries bypass (insert (rcID cred) excluded) tried (releaseSlot env w2 ?current))"
      using Suc.prems acq Inr tried by (simp add: Let_def)
    then show ?thesis
      using f3 f4 Suc.IH by (auto simp: Let_def case_prod_beta split: option.splits if_splits)
  qed
qed simp

definition countsOnce :: "'w relayEnv \<Rightarrow> ('w \<Rightarrow> nat) \<Rightarrow> ('w \<Rightarrow> nat) \<Rightarrow> bool" where
  "countsOnce env bills answers \<longleftrightarrow>
     keepsWorld (attemptPart env) (\<lambda>w. (bills w, answers w)) \<and>
     (\<forall>w c n r e w'. recordUsage env w c n r = (e, w') \<longrightarrow>
        bills w' = bills w + (if e = None then 1 else 0) \<and> answers w' = answers w) \<and>
     (\<forall>w s b. bills (writeResponse env w s b) = bills w \<and> answers (writeResponse env w s b) = Suc (answers w)) \<and>
     (\<forall>w c r. bills (noteSuccess env w c r) = bills w \<and> answers (noteSuccess env w c r) = answers w) \<and>
     (\<forall>w c r. bills (savePayloadLog env w c r) = bills w \<and> answers (savePayloadLog env w c r) = answers w)"

lemma truncate_fields [simp]:
  "maybeAutoDisable (attemptPart env) = maybeAutoDisable env" "openAIError (attemptPart env) = openAIError env"
  by (simp_all add: attemptEnv.truncate_def)

lemma countsOnceD:
  assumes "countsOnce env bills answers"
  shows "recordUsage env w c n r = (e, w') \<Longrightarrow> bills w' = bills w + (if e = None then 1 else 0)"
    "recordUsage env w c n r = (e, w') \<Longrightarrow> answers w' = answers w"
    "bills (writeResponse env w s b) = bills w" "answers (writeResponse env w s b) = Suc (answers w)"
    "bills (noteSuccess env w c r) = bills w" "answers (noteSuccess env w c r) = answers w"
    "bills (savePayloadLog env w c r) = bills w" "answers (savePayloadLog env w c r) = answers w"
    "bills (maybeAutoDisable env w c r) = bills w" "answers (maybeAutoDisable env w c r) = answers w"
    "attemptLoop fuel (attemptPart env) settings options stream c' n' bp ex p w = Some (out, ex', w'') \<Longrightarrow>
       bills w'' = bills w \<and> answers w'' = answers w"
proof -
  have k: "keepsWorld (attemptPart env) (\<lambda>w. (bills w, answers w))" using assms by (simp add: countsOnce_def)
  from keepsWorldD(4) [OF k, of w c r]
  show "bills (maybeAutoDisable env w c r) = bills w" "answers (maybeAutoDisable env w c r) = answers w" by simp_all
  from attemptLoop_keeps [OF k]
  show "attemptLoop fuel (attemptPart env) settings options stream c' n' bp ex p w = Some (out, ex', w'') \<Longrightarrow>
       bills w'' = bills w \<and> answers w'' = answers w" by blast
qed (use assms in \<open>unfold countsOnce_def, blast\<close>)+

lemma finishAnswered_counts:
  assumes "countsOnce env bills answers"
  shows "bills (finishAnswered env isStream w c r) = bills w" "answers (finishAnswered env isStream w c r) \<le> Suc (answers w)"
  by (simp_all add: finishAnswered_def Let_def countsOnceD [OF assms])

lemma accountingFailure_counts:
  assumes "countsOnce env bills answers"
  shows "bills (accountingFailure env isStream w e) = bills w" "answers (accountingFailure env isStream w e) \<le> Suc (answers w)"
  by (cases e; simp add: accountingFailure_def countsOnceD [OF assms])+

lemma finishFailedRequest_counts:
  assumes "countsOnce env bills answers"
  shows "bills (finishFailedRequest env w c r) = bills w" "answers (finishFailedRequest env w c r) \<le> Suc (answers w)"
  by (simp_all add: finishFailedRequest_def Let_def countsOnceD [OF assms])

fun stepCounts :: "('w \<Rightarrow> nat) \<Rightarrow> ('w \<Rightarrow> nat) \<Rightarrow> 'w relayState \<Rightarrow> 'w step \<Rightarrow> bool" where
  "stepCounts bills answers rs (StepNext rs') \<longleftrightarrow>
     bills (rsWorld rs') = bills (rsWorld rs) \<and> answers (rsWorld rs') = answers (rsWorld rs)"
| "stepCounts bills answers rs (StepDone e w) \<longleftrightarrow>
     bills w \<le> Suc (bills (rsWorld rs)) \<and> answers w \<le> Suc (answers (rsWorld rs))"
| "stepCounts bills answers rs StepFuel \<longleftrightarrow> True"

lemma stepCounts_cong:
  "bills (rsWorld rs) = bills (rsWorld rs') \<Longrightarrow> answers (rsWorld rs) = answers (rsWorld rs') \<Longrightarrow>
     stepCounts bills answers rs s = stepCounts bills answers rs' s"
  by (cases s) simp_all

lemma noteOutcome_keeps [simp]:
  "rsWorld (noteOutcome c out rs) = rsWorld rs" "rsExcluded (noteOutcome c out rs) = rsExcluded rs"
  "rsAttempts (noteOutcome c out rs) = rsAttempts rs + attempts out"
  by (simp_all add: noteOutcome_def Let_def)

lemma settleHandled_counts:
  assumes counts: "countsOnce env bills answers"
  shows "settleHandled env isStream rs used r = SettledDone w \<Longrightarrow>
      bills w \<le> Suc (bills (rsWorld rs)) \<and> answers w \<le> Suc (answers (rsWorld rs))"
    "settleHandled env isStream rs used r = SettledRetry rs' \<Longrightarrow>
      bills (rsWorld rs') = bills (rsWorld rs) \<and> answers (rsWorld rs') = answers (rsWorld rs)"
proof -
  note D = countsOnceD [OF counts]
  let ?r = "r\<lparr>attemptFlow := rsFlow rs\<rparr>"
  obtain e w1 where rec: "recordUsage env (rsWorld rs) used (rsAttempts rs) ?r = (e, w1)" by fastforce
  note counted = D(1) [OF rec] D(2) [OF rec]
  show "settleHandled env isStream rs used r = SettledDone w \<Longrightarrow>
      bills w \<le> Suc (bills (rsWorld rs)) \<and> answers w \<le> Suc (answers (rsWorld rs))"
    using counted rec finishAnswered_counts [OF counts, of isStream w1 used ?r]
      accountingFailure_counts [OF counts, of isStream w1]
    by (auto simp: settleHandled_def Let_def split: if_splits option.splits)
  show "settleHandled env isStream rs used r = SettledRetry rs' \<Longrightarrow>
      bills (rsWorld rs') = bills (rsWorld rs) \<and> answers (rsWorld rs') = answers (rsWorld rs)"
    using counted rec
    by (auto simp: settleHandled_def rejectUnbillable_def D(9,10) Let_def split: if_splits option.splits)
qed

lemma candidateLoop_counts:
  assumes counts: "countsOnce env bills answers"
  shows "stepCounts bills answers rs (candidateLoop fuel afuel env settings isStream effort pass isLast c rs)"
proof (induction fuel arbitrary: rs)
  case (Suc fuel)
  show ?case
  proof (cases "attemptChannel afuel (attemptPart env) settings (candidateOptions pass isLast) isStream effort c (rsExcluded rs) (rsWorld rs)")
    case (Some res)
    obtain out excluded w where res: "res = (out, excluded, w)" by (cases res)
    have same: "bills w = bills (rsWorld rs)" "answers w = answers (rsWorld rs)"
      using Some res countsOnceD(11) [OF counts] unfolding attemptChannel_def Let_def by blast+
    let ?rs = "noteOutcome c out (rs\<lparr>rsWorld := w, rsExcluded := excluded\<rparr>)"
    have settled: "stepCounts bills answers rs
        (case settleHandled env isStream ?rs (caCandidate out) (caResult out) of
           SettledDone w1 \<Rightarrow> StepDone None w1
         | SettledRetry rs' \<Rightarrow> candidateLoop fuel afuel env settings isStream effort pass isLast c rs')"
    proof (cases "settleHandled env isStream ?rs (caCandidate out) (caResult out)")
      case (SettledDone w1)
      with settleHandled_counts(1) [OF counts SettledDone] same show ?thesis by simp
    next
      case (SettledRetry rs')
      with settleHandled_counts(2) [OF counts SettledRetry] same Suc.IH [of rs'] stepCounts_cong [of bills rs' rs answers]
      show ?thesis by simp
    qed
    with Some res same show ?thesis by (simp add: Let_def)
  qed simp
qed simp

lemma candidatePass_counts:
  assumes counts: "countsOnce env bills answers"
  shows "stepCounts bills answers rs (candidatePass fuel afuel env settings isStream effort pass cs rs)"
proof (induction cs arbitrary: rs)
  case (Cons c cs)
  have one: "stepCounts bills answers rs (candidateLoop fuel afuel env settings isStream effort pass (cs = []) c rs)"
    by (rule candidateLoop_counts [OF counts])
  show ?case
  proof (cases "candidateLoop fuel afuel env settings isStream effort pass (cs = []) c rs")
    case (StepNext rs')
    with one Cons.IH [of rs'] stepCounts_cong [of bills rs' rs answers] show ?thesis by simp
  qed (use one in simp_all)
qed simp

text \<open>
  C1: whatever the upstreams, the keys and the retries do, a request is accounted successfully at
  most once and the gateway writes at most one response of its own to the client.
\<close>

theorem answered_and_billed_once:
  assumes counts: "countsOnce env bills answers"
    and run: "relayCandidates fuel afuel env skipText settings isStream effort candidates w0 = Some (e, w)"
  shows "bills w \<le> bills w0 + 1 \<and> answers w \<le> answers w0 + 1"
proof -
  note D = countsOnceD [OF counts]
  define start where "start = \<lparr>rsWorld = w0, rsExcluded = {}, rsAttempts = 0, rsLast = zeroResult, rsLastCandidate = None,
      rsFlow = [], rsSkips = Map.empty\<rparr>"
  let ?pass = "candidatePass fuel afuel env settings isStream effort"
  define final where "final = (case ?pass 0 candidates start of
      StepNext rs \<Rightarrow> if rsAttempts rs = 0 then ?pass 1 candidates rs else StepNext rs | done \<Rightarrow> done)"
  have one: "stepCounts bills answers start (?pass 0 candidates start)" by (rule candidatePass_counts [OF counts])
  have two: "stepCounts bills answers start final"
  proof (cases "?pass 0 candidates start")
    case (StepNext rs)
    with one have "bills (rsWorld rs) = bills (rsWorld start)" "answers (rsWorld rs) = answers (rsWorld start)" by simp_all
    from stepCounts_cong [OF this] candidatePass_counts [OF counts, of rs fuel afuel settings isStream effort 1 candidates]
    have "stepCounts bills answers start (?pass 1 candidates rs)" by simp
    with one show ?thesis by (simp add: final_def StepNext)
  qed (use one in \<open>simp_all add: final_def\<close>)
  have w0: "rsWorld start = w0" by (simp add: start_def)
  show ?thesis
  proof (cases final)
    case (StepDone e' w')
    with run two w0 show ?thesis
      unfolding relayCandidates_def Let_def start_def [symmetric] final_def [symmetric] by simp
  next
    case (StepNext rs)
    have counted: "bills (snd (recordUsage env w u n r)) \<le> Suc (bills w)" "answers (snd (recordUsage env w u n r)) = answers w" for w u n r
      using D(1) [of w u n r "fst (recordUsage env w u n r)" "snd (recordUsage env w u n r)"]
        D(2) [of w u n r "fst (recordUsage env w u n r)" "snd (recordUsage env w u n r)"] by simp_all
    have here: "bills (snd (recordUsage env (rsWorld rs) u n r)) \<le> Suc (bills w0)"
      "answers (snd (recordUsage env (rsWorld rs) u n r)) = answers w0" for u n r
      using counted [of "rsWorld rs" u n r] two StepNext w0 by simp_all
    from StepNext run show ?thesis
      unfolding relayCandidates_def Let_def start_def [symmetric] final_def [symmetric]
      using here finishFailedRequest_counts [OF counts] two w0
      by (auto simp: case_prod_beta split: if_splits option.splits intro: le_trans [OF finishFailedRequest_counts(2) [OF counts]])
  next
    case StepFuel
    with run show ?thesis
      unfolding relayCandidates_def Let_def start_def [symmetric] final_def [symmetric] by simp
  qed
qed

subsection \<open>Every request ends\<close>

text \<open>
  While a channel is tried, the keys excluded before stay excluded: a retry only gives back the
  key it failed with, and that key was free at the start.
\<close>

definition freshKey :: "id set \<Rightarrow> channelAttempt \<Rightarrow> bool" where
  "freshKey E a \<longleftrightarrow> status (caResult a) = 0 \<or> ChannelCredentialID (caCandidate a) \<notin> E"

lemma retryDelay_status: "sameCandidateRetryDelay env options retries a done = Some d \<Longrightarrow> status (caResult a) \<noteq> 0"
  by (auto simp: sameCandidateRetryDelay_def Let_def isRiskControlBlockedResult_def isTransientUpstreamFailure_def split: if_splits)

lemma tryAddresses_key:
  "tryAddresses env settings stream current urls a w = (a', w') \<Longrightarrow> \<not> handled a \<Longrightarrow>
     (a' = a \<or> ChannelCredentialID (caCandidate a') = ChannelCredentialID current) \<and>
     (handled a' \<longrightarrow> ChannelCredentialID (caCandidate a') = ChannelCredentialID current)"
proof (induction urls arbitrary: current a w)
  case (Cons url urls)
  let ?c = "current\<lparr>BaseURL := url\<rparr>"
  obtain called err w1 where call: "upstream env w ?c = (called, err, w1)"
    by (cases "upstream env w ?c") auto
  let ?r = "finishCall env (worldNow env w) w1 called err"
  have step: "tryAddresses env settings stream ?c urls (addAttempt env ?c ?r a) w2 = (a', w') \<Longrightarrow>
      ChannelCredentialID (caCandidate a') = ChannelCredentialID current" for w2
    using Cons.IH [of ?c "addAttempt env ?c ?r a" w2] by auto
  show ?case using Cons.prems(1) call step by (auto simp: Let_def split: if_splits)
qed simp

lemma attemptLoop_keys:
  assumes honest: "honestSlots env K"
  shows "attemptLoop fuel env settings options stream candidate retries bypass excluded prev w = Some (out, ex', w') \<Longrightarrow>
    E \<subseteq> excluded \<Longrightarrow> freshKey E prev \<Longrightarrow> \<not> handled prev \<Longrightarrow>
    E \<subseteq> ex' \<and> (handled out \<longrightarrow> ChannelCredentialID (caCandidate out) \<in> K - E)"
proof (induction fuel arbitrary: retries bypass excluded prev w)
  case (Suc fuel)
  obtain got w1 where acq: "acquireSlot env w candidate excluded bypass (concurrencyWaitWindow options) = (got, w1)"
    by fastforce
  show ?case
  proof (cases got)
    case (Inl e)
    show ?thesis
    proof (cases "sameCandidateRetryDelay env options retries prev (ctxDone env w1)")
      case None
      with Suc.prems acq Inl show ?thesis by (auto simp: Let_def split: if_splits)
    next
      case (Some delay)
      have keep: "E \<subseteq> excluded - {ChannelCredentialID (caCandidate prev)}"
        using Suc.prems(2,3) retryDelay_status [OF Some] by (auto simp: freshKey_def)
      with Suc.prems acq Inl Some show ?thesis
        by (auto simp: Let_def case_prod_beta split: if_splits dest!: Suc.IH)
    qed
  next
    case (Inr cred)
    have key: "rcID cred \<in> K - excluded" using honest acq Inr unfolding honestSlots_def by blast
    let ?current = "candidate\<lparr>ChannelCredentialID := rcID cred, APIKeyCipher := rcCipher cred\<rparr>"
    obtain tried w2 where tried: "tryAddresses env settings stream ?current (candidateBaseURLs ?current) prev w1 = (tried, w2)"
      by fastforce
    from tryAddresses_key [OF tried Suc.prems(4)] key Suc.prems(2,3)
    have fresh: "freshKey E tried" "handled tried \<Longrightarrow> ChannelCredentialID (caCandidate tried) \<in> K - E"
      by (auto simp: freshKey_def)
    then have fresh': "freshKey E (tried\<lparr>channelDead := False\<rparr>)" by (simp add: freshKey_def)
    have grow: "E \<subseteq> insert (rcID cred) excluded" using Suc.prems(2) by auto
    show ?thesis
    proof (cases "handled tried")
      case True
      with Suc.prems acq Inr tried fresh(2) show ?thesis by (auto simp: Let_def)
    next
      case open': False
      show ?thesis
      proof (cases "channelDead tried")
        case False
        with Suc.prems(1) acq Inr tried open' have
          "attemptLoop fuel env settings options stream candidate retries bypass (insert (rcID cred) excluded) tried (releaseSlot env w2 ?current) = Some (out, ex', w')"
          by (simp add: Let_def)
        from Suc.IH [OF this grow fresh(1) open'] show ?thesis .
      next
        case True
        with Suc.prems acq Inr tried open' fresh' show ?thesis
          by (auto simp: Let_def case_prod_beta split: if_splits option.splits dest!: Suc.IH)
      qed
    qed
  qed
qed simp

lemma attemptChannel_keys:
  assumes "honestSlots env K" "attemptChannel fuel env settings options stream effort candidate E w = Some (out, ex', w')"
  shows "E \<subseteq> ex'" "handled out \<Longrightarrow> ChannelCredentialID (caCandidate out) \<in> K - E"
  using attemptLoop_keys [OF assms(1), of fuel settings options stream "candidate\<lparr>ReasoningEffort := effort\<rparr>" 0
      "ignoreComboCooldown options" E "startAttempt (candidate\<lparr>ReasoningEffort := effort\<rparr>)" w out ex' w' E] assms(2)
  by (auto simp: attemptChannel_def Let_def freshKey_def startAttempt_def zeroResult_def)

lemma settleRetry_excluded:
  "settleHandled env isStream rs used r = SettledRetry rs' \<Longrightarrow> rsExcluded rs' = insert (ChannelCredentialID used) (rsExcluded rs)"
  by (auto simp: settleHandled_def rejectUnbillable_def Let_def split: if_splits option.splits prod.splits)

lemma candidateLoop_ends:
  assumes fin: "finite K" and honest: "honestSlots (attemptPart env) K" and hops: "hopsAtMost (attemptPart env) k"
    and afuel: "card K + 6 < afuel"
  shows "card (K - rsExcluded rs) < fuel \<Longrightarrow>
    candidateLoop fuel afuel env settings isStream effort pass isLast c rs \<noteq> StepFuel"
proof (induction fuel arbitrary: rs)
  case (Suc fuel)
  obtain out ex w where run: "attemptChannel afuel (attemptPart env) settings (candidateOptions pass isLast) isStream effort c
      (rsExcluded rs) (rsWorld rs) = Some (out, ex, w)"
    using channel_attempts_bounded [OF fin honest hops afuel] by blast
  let ?rs = "noteOutcome c out (rs\<lparr>rsWorld := w, rsExcluded := ex\<rparr>)"
  have retry: "candidateLoop fuel afuel env settings isStream effort pass isLast c rs' \<noteq> StepFuel"
    if "settleHandled env isStream ?rs (caCandidate out) (caResult out) = SettledRetry rs'" "handled out" for rs'
  proof (rule Suc.IH)
    have "rsExcluded rs' = insert (ChannelCredentialID (caCandidate out)) ex"
      using settleRetry_excluded [OF that(1)] by simp
    then have "K - rsExcluded rs' \<subset> K - rsExcluded rs"
      using attemptChannel_keys [OF honest run] that(2) by auto
    then have "card (K - rsExcluded rs') < card (K - rsExcluded rs)" using fin by (intro psubset_card_mono) auto
    then show "card (K - rsExcluded rs') < fuel" using Suc.prems by simp
  qed
  show ?case using run retry by (auto simp: Let_def split: settled.split)
qed simp

lemma candidatePass_ends:
  assumes "finite K" "honestSlots (attemptPart env) K" "hopsAtMost (attemptPart env) k" "card K + 6 < afuel" "card K < fuel"
  shows "candidatePass fuel afuel env settings isStream effort pass cs rs \<noteq> StepFuel"
proof (induction cs arbitrary: rs)
  case (Cons c cs)
  have "card (K - rsExcluded rs) \<le> card K" using assms(1) by (intro card_mono) auto
  then have "card (K - rsExcluded rs) < fuel" using assms(5) by simp
  from candidateLoop_ends [OF assms(1-4) this] Cons.IH show ?case
    by (auto split: step.split)
qed simp


text \<open>A channel with one key, an upstream that answers with a result, and a ledger that counts the accountings and the answers.\<close>

definition exampleRelayEnv :: "attemptResult \<Rightarrow> (nat \<times> nat) relayEnv" where
  "exampleRelayEnv r = \<lparr>
     acquireSlot = \<lambda>w c ex b d. (if 5 \<in> ex then Inl AcquireCancelled else Inr \<lparr>rcID = 5, rcCipher = []\<rparr>, w),
     releaseSlot = \<lambda>w c. w, upstream = \<lambda>w c. (r, None, w), maybeAutoDisable = \<lambda>w c r. w,
     ctxDone = \<lambda>w. False, waitForRetry = \<lambda>w d. (True, w), worldNow = \<lambda>w. 0, upstreamErrorText = \<lambda>b f. f,
     acquireErrorText = \<lambda>e. ''no key'', openAIError = \<lambda>k m. m, flowErrorText = \<lambda>m. m, jsonTree = \<lambda>_. None,
     missingBillableUsage = \<lambda>c r. False, recordUsage = \<lambda>(b, a) c n r. (None, (Suc b, a)),
     noteSuccess = \<lambda>w c r. w, writeResponse = \<lambda>(b, a) s t. (b, Suc a), savePayloadLog = \<lambda>w c r. w,
     restoreSensitive = \<lambda>t. t\<rparr>"

lemma example_countsOnce: "countsOnce (exampleRelayEnv r) fst snd"
  by (auto simp: countsOnce_def keepsWorld_def exampleRelayEnv_def attemptEnv.truncate_def)

lemma example_flow_urls:
  "c = (exampleCandidate 10 7 5 3 100)\<lparr>ReasoningEffort := []\<rparr> \<Longrightarrow>
     candidateBaseURLs (c\<lparr>ChannelCredentialID := i, APIKeyCipher := k\<rparr>) = [''u'']"
  by (simp add: candidateBaseURLs_def exampleCandidate_def newCandidate_def exampleChannel_def
      DefaultAdvancedConfig_def plain_eval trimRightSlash_def dedupOn_def)

theorem answered_and_billed_once_witness:
  "\<exists>b a. relayCandidates 2 2 (exampleRelayEnv (zeroResult\<lparr>status := 200, body := ''ok''\<rparr>)) (\<lambda>_. []) DefaultResilienceSettings False []
       [exampleCandidate 10 7 5 3 100] (4, 6) = Some (None, (b, a)) \<and> b \<le> 4 + 1 \<and> a \<le> 6 + 1"
proof -
  let ?env = "exampleRelayEnv (zeroResult\<lparr>status := 200, body := ''ok''\<rparr>)"
  have loop: "\<exists>w. candidateLoop (Suc 1) (Suc 1) ?env DefaultResilienceSettings False [] 0 True (exampleCandidate 10 7 5 3 100)
      \<lparr>rsWorld = (4, 6), rsExcluded = {}, rsAttempts = 0, rsLast = zeroResult, rsLastCandidate = None, rsFlow = [], rsSkips = Map.empty\<rparr> =
      StepDone None w"
    by (simp add: attemptChannel_def Let_def example_flow_urls finishCall_def attemptCompleted_def exampleRelayEnv_def zeroResult_def scoreCall_def
        attemptEnv.truncate_def settleHandled_def addAttempt_def attemptFlowSteps_def)
  then obtain b a where run: "relayCandidates 2 2 ?env (\<lambda>_. []) DefaultResilienceSettings False []
      [exampleCandidate 10 7 5 3 100] (4, 6) = Some (None, (b, a))"
    by (auto simp: relayCandidates_def Let_def numeral_2_eq_2)
  from answered_and_billed_once [OF example_countsOnce run] run show ?thesis by simp
qed


subsection \<open>The key selection of the program\<close>

text \<open>
  \<^verbatim>\<open>acquireKeySlot\<close>: the picker is the selection of the channel service; model 0 skips the
  cool-downs of pairs.  The \<open>n\<close>th pick sees the stores, the random numbers and the concurrent writes of
  that moment.
\<close>

record pickWorld =
  pwEnv :: credEnv
  pwRnd :: "int \<Rightarrow> int"
  pwOthers :: "credState \<Rightarrow> credState"
  pwState :: credState

definition keyPicker :: "(nat \<Rightarrow> pickWorld) \<Rightarrow> string \<Rightarrow> id \<Rightarrow> Candidate \<Rightarrow> bool \<Rightarrow> nat \<Rightarrow> id set option \<Rightarrow> cred_error + RouteCredential" where
  "keyPicker pw conversation apiKeyID candidate ignoreCombo n excluded =
     (let modelID = (if ignoreCombo then 0 else ChannelModelID candidate) in
      fst (SelectCredential (pwEnv (pw n)) (pwRnd (pw n)) (pwOthers (pw n)) conversation (pwState (pw n)) apiKeyID
             (ChannelID candidate) modelID excluded))"

definition acquireKeySlot :: "nat \<Rightarrow> nat \<Rightarrow> (nat \<Rightarrow> pickWorld) \<Rightarrow> cred_error slot_env \<Rightarrow> keySlots \<Rightarrow> string \<Rightarrow> id \<Rightarrow> Candidate \<Rightarrow>
    id set option \<Rightarrow> bool \<Rightarrow> duration \<Rightarrow> cred_error acquired \<times> keySlots" where
  "acquireKeySlot fuel scanFuel pw env l conversation apiKeyID candidate excluded ignoreCombo waitWindow =
     acquireKeySlotWith fuel scanFuel (env\<lparr>pickAt := keyPicker pw conversation apiKeyID candidate ignoreCombo\<rparr>) l
       (ChannelID candidate) (CandConcurrencyLimit candidate) waitWindow excluded"

lemma keyPicker_usable:
  "keyPicker pw conv a cand ig n X = Inr c \<Longrightarrow>
     \<exists>row. usableKey (pwEnv (pw n)) (ChannelID cand) (if ig then 0 else ChannelModelID cand) X row \<and> rcID c = crId row"
  unfolding keyPicker_def Let_def
  by (metis RouteCredential.select_convs(1) SelectCredential_usable prod.collapse)

end
