(* ===== verification/Usage_Billing.thy ===== *)
theory Usage_Billing
  imports Complex_Main Time_Window Usage_Types "HOL-Library.Product_Lexorder"
begin

text \<open>
  The price of a request (\<^verbatim>\<open>internal/logic/usage/billing.go\<close>, \<^verbatim>\<open>failure_billing.go\<close>,
  \<^verbatim>\<open>legacy_billing.go\<close>, \<^verbatim>\<open>pricing.go\<close>): the items of a bill with their rounding, the bills of
  failures, and the choice of the price rule of a model.

  Decimal numbers are a package of their own (\<^verbatim>\<open>shopspring/decimal\<close>), JSON paths another
  (\<^verbatim>\<open>gjson\<close>): both are arguments of the definitions.  \<open>decimalLaws\<close> states what the first one documents,
  over the value of a decimal as a rational number.
\<close>

subsection \<open>The packages around the code\<close>

record ('d, 'f) decimalOps =
  dZero :: 'd
  dAdd :: "'d \<Rightarrow> 'd \<Rightarrow> 'd"
  dSub :: "'d \<Rightarrow> 'd \<Rightarrow> 'd"
  dMul :: "'d \<Rightarrow> 'd \<Rightarrow> 'd"
  dDiv :: "'d \<Rightarrow> 'd \<Rightarrow> 'd"
  dRound8 :: "'d \<Rightarrow> 'd"
  dOfInt :: "int \<Rightarrow> 'd"
  dOfFloat :: "'f \<Rightarrow> 'd"
  dToFloat :: "'d \<Rightarrow> 'f"
  dString :: "'d \<Rightarrow> string"
  dFixed8 :: "'d \<Rightarrow> string"
  dParse :: "string \<Rightarrow> 'd option"
  dIsZero :: "'d \<Rightarrow> bool"
  dLe :: "'d \<Rightarrow> 'd \<Rightarrow> bool"

text \<open>
  Sums, differences and products are exact; a quotient is rounded to 16 places and \<^verbatim>\<open>Round(8)\<close> to 8;
  a printed decimal reads back with the same value, printed with 8 places one that has no more.
\<close>

definition places8 :: "rat \<Rightarrow> bool" where
  "places8 x \<longleftrightarrow> (\<exists>k :: int. x = of_int k / 10 ^ 8)"

definition decimalLaws :: "('d, 'f) decimalOps \<Rightarrow> ('d \<Rightarrow> rat) \<Rightarrow> bool" where
  "decimalLaws ops value \<longleftrightarrow>
     value (dZero ops) = 0 \<and>
     (\<forall>a b. value (dAdd ops a b) = value a + value b) \<and>
     (\<forall>a b. value (dSub ops a b) = value a - value b) \<and>
     (\<forall>a b. value (dMul ops a b) = value a * value b) \<and>
     (\<forall>a b. value b \<noteq> 0 \<longrightarrow> \<bar>value (dDiv ops a b) - value a / value b\<bar> \<le> 1 / (2 * 10 ^ 16)) \<and>
     (\<forall>a. places8 (value (dRound8 ops a)) \<and> \<bar>value (dRound8 ops a) - value a\<bar> \<le> 1 / (2 * 10 ^ 8)) \<and>
     (\<forall>n. value (dOfInt ops n) = of_int n) \<and>
     (\<forall>a. \<exists>a'. dParse ops (dString ops a) = Some a' \<and> value a' = value a) \<and>
     (\<forall>a. trimSpace (dFixed8 ops a) \<noteq> []) \<and>
     (\<forall>a. places8 (value a) \<longrightarrow> (\<exists>a'. dParse ops (dFixed8 ops a) = Some a' \<and> value a' = value a)) \<and>
     (\<forall>a. dIsZero ops a \<longleftrightarrow> value a = 0) \<and>
     (\<forall>a b. dLe ops a b \<longleftrightarrow> value a \<le> value b)"

lemma decimalLawsD:
  assumes "decimalLaws ops value"
  shows "value (dZero ops) = 0" "value (dAdd ops a b) = value a + value b" "value (dSub ops a b) = value a - value b"
    "value (dMul ops a b) = value a * value b"
    "value b \<noteq> 0 \<Longrightarrow> \<bar>value (dDiv ops a b) - value a / value b\<bar> \<le> 1 / (2 * 10 ^ 16)"
    "places8 (value (dRound8 ops a))" "\<bar>value (dRound8 ops a) - value a\<bar> \<le> 1 / (2 * 10 ^ 8)"
    "value (dOfInt ops n) = of_int n" "\<exists>a'. dParse ops (dString ops a) = Some a' \<and> value a' = value a"
    "trimSpace (dFixed8 ops a) \<noteq> []"
    "places8 (value a) \<Longrightarrow> \<exists>a'. dParse ops (dFixed8 ops a) = Some a' \<and> value a' = value a"
    "dIsZero ops a \<longleftrightarrow> value a = 0" "dLe ops a b \<longleftrightarrow> value a \<le> value b"
  using assms unfolding decimalLaws_def by blast+

text \<open>A document of \<^verbatim>\<open>gjson\<close> and what the code asks of it.\<close>

record ('g, 'f) gjsonOps =
  gParse :: "string \<Rightarrow> 'g"
  gGet :: "'g \<Rightarrow> string \<Rightarrow> 'g"
  gExists :: "'g \<Rightarrow> bool"
  gString :: "'g \<Rightarrow> string"
  gUint :: "'g \<Rightarrow> u64"
  gRaw :: "'g \<Rightarrow> string"
  gIsNumber :: "'g \<Rightarrow> bool"
  gFloat :: "'g \<Rightarrow> 'f"

subsection \<open>Units\<close>

definition billingUnitPerMillionTokens :: string where "billingUnitPerMillionTokens = ''per_million_tokens''"
definition billingUnitPerRequest :: string where "billingUnitPerRequest = ''per_request''"
definition billingUnitSettlement :: string where "billingUnitSettlement = ''settlement''"

subsection \<open>The items of a bill\<close>

definition tokenCount :: "u64 option \<Rightarrow> u64" where
  "tokenCount v = (case v of None \<Rightarrow> 0 | Some n \<Rightarrow> n)"

definition boundedTokenCount :: "u64 option \<Rightarrow> u64 option \<Rightarrow> u64" where
  "boundedTokenCount v remaining =
     (let quantity = tokenCount v in
      case remaining of Some r \<Rightarrow> if quantity > r then r else quantity | None \<Rightarrow> quantity)"

definition preferredPrice :: "string \<Rightarrow> 'f option \<Rightarrow> 'f option \<Rightarrow> string \<Rightarrow> 'f option \<times> string" where
  "preferredPrice kind preferred fallback fallbackSource =
     (if preferred \<noteq> None then (preferred, kind) else (fallback, fallbackSource))"

text \<open>The running bill: its cost, whether anything has a price, and its items.\<close>

record 'd runningBill =
  rbCost :: 'd
  rbPriced :: bool
  rbItems :: "BillingItem list"

definition addTokenItem :: "('d, 'f) decimalOps \<Rightarrow> 'd runningBill \<Rightarrow> string \<Rightarrow> u64 \<Rightarrow> 'f \<Rightarrow> string \<Rightarrow> 'd runningBill" where
  "addTokenItem ops bill kind quantity rate source =
     (let price = dOfFloat ops rate;
          amount = dDiv ops (dMul ops (dOfInt ops (sint quantity)) price) (dOfInt ops 1000000)
      in bill\<lparr>rbItems := rbItems bill @ [\<lparr>itType = kind, itQuantity = quantity, itUnit = billingUnitPerMillionTokens,
                itUnitPrice = dString ops price, itPriceSource = source, itAmount = dString ops amount\<rparr>],
              rbCost := dAdd ops (rbCost bill) amount, rbPriced := True\<rparr>)"

text \<open>
  \<^verbatim>\<open>chargeInput\<close> and \<^verbatim>\<open>chargeOutput\<close>: the tokens of a kind are taken from those remaining even when they
  have no price.
\<close>

definition chargeTokens :: "('d, 'f) decimalOps \<Rightarrow> bool \<Rightarrow> string \<Rightarrow> string \<Rightarrow> u64 option \<Rightarrow> 'f option \<Rightarrow> 'f option \<Rightarrow>
    u64 option \<times> 'd runningBill \<Rightarrow> u64 option \<times> 'd runningBill" where
  "chargeTokens ops keepZero fallbackSource kind v preferred fallback rb =
     (case rb of (remaining, bill) \<Rightarrow>
       (let quantity = boundedTokenCount v remaining;
            remaining' = map_option (\<lambda>r. r - quantity) remaining;
            (price, source) = preferredPrice kind preferred fallback fallbackSource
        in case price of
             None \<Rightarrow> (remaining', bill)
           | Some rate \<Rightarrow>
               if quantity = 0 \<and> \<not> (keepZero \<and> preferred \<noteq> None) then (remaining', bill)
               else (remaining', addTokenItem ops bill kind quantity rate source)))"

definition chargeRest :: "('d, 'f) decimalOps \<Rightarrow> bool \<Rightarrow> string \<Rightarrow> 'f option \<Rightarrow> u64 option \<times> 'd runningBill \<Rightarrow> 'd runningBill" where
  "chargeRest ops keepZero kind rate rb =
     (case rb of (remaining, bill) \<Rightarrow>
        (case rate of
           None \<Rightarrow> bill
         | Some p \<Rightarrow> if keepZero \<or> tokenCount remaining > 0 then addTokenItem ops bill kind (tokenCount remaining) p kind
                     else bill))"

definition chargeRequest :: "('d, 'f) decimalOps \<Rightarrow> 'f option \<Rightarrow> 'd runningBill \<Rightarrow> 'd runningBill" where
  "chargeRequest ops rate bill =
     (case rate of
        None \<Rightarrow> bill
      | Some p \<Rightarrow>
          (let amount = dOfFloat ops p in
           bill\<lparr>rbItems := rbItems bill @ [\<lparr>itType = ''request'', itQuantity = 1, itUnit = billingUnitPerRequest,
                  itUnitPrice = dString ops amount, itPriceSource = ''request'', itAmount = dString ops amount\<rparr>],
                rbCost := dAdd ops (rbCost bill) amount, rbPriced := True\<rparr>))"

definition chargeInputs :: "('d, 'f) decimalOps \<Rightarrow> bool \<Rightarrow> TokenUsage \<Rightarrow> 'f PriceRates \<Rightarrow> 'd runningBill \<Rightarrow> 'd runningBill" where
  "chargeInputs ops keepZero tokens rates bill =
     (let charge = chargeTokens ops keepZero ''input'';
          s1 = charge ''cached_input'' (tkCachedInput tokens) (prCachedInput rates) (prInput rates) (tkInput tokens, bill);
          s2 = charge ''cache_write'' (tkCacheWrite tokens) (prCacheWrite rates) (prInput rates) s1;
          s3 = charge ''image_input'' (tkImageInput tokens) (prImageInput rates) (prInput rates) s2;
          s4 = charge ''audio_input'' (tkAudioInput tokens) (prAudioInput rates) (prInput rates) s3
      in chargeRest ops keepZero ''input'' (prInput rates) s4)"

definition chargeOutputs :: "('d, 'f) decimalOps \<Rightarrow> bool \<Rightarrow> TokenUsage \<Rightarrow> 'f PriceRates \<Rightarrow> 'd runningBill \<Rightarrow> 'd runningBill" where
  "chargeOutputs ops keepZero tokens rates bill =
     chargeRest ops keepZero ''output'' (prOutput rates)
       (chargeTokens ops keepZero ''output'' ''audio_output'' (tkAudioOutput tokens) (prAudioOutput rates) (prOutput rates)
          (tkOutput tokens, bill))"

definition settleBill :: "('d, 'f) decimalOps \<Rightarrow> 'd runningBill \<Rightarrow> BillingBreakdown" where
  "settleBill ops bill =
     (let total = dRound8 ops (rbCost bill);
          adjustment = dSub ops total (rbCost bill);
          items = (if dIsZero ops adjustment then rbItems bill
                   else rbItems bill @ [\<lparr>itType = ''rounding'', itQuantity = 1, itUnit = billingUnitSettlement,
                          itUnitPrice = dString ops adjustment, itPriceSource = ''settlement'', itAmount = dString ops adjustment\<rparr>])
      in \<lparr>bbMode = ''token'', bbCurrency = ''USD'', bbCharged = False, bbReconstructed = False, bbRule = None,
          bbItems = items, bbSubtotal = dString ops (rbCost bill), bbTotal = dFixed8 ops total\<rparr>)"

definition runBill :: "('d, 'f) decimalOps \<Rightarrow> TokenUsage \<Rightarrow> 'f PriceRates \<Rightarrow> bool \<Rightarrow> 'd runningBill" where
  "runBill ops tokens rates keepZero =
     chargeRequest ops (prRequest rates)
       (chargeOutputs ops keepZero tokens rates
         (chargeInputs ops keepZero tokens rates \<lparr>rbCost = dZero ops, rbPriced = False, rbItems = []\<rparr>))"

definition estimateBreakdown :: "('d, 'f) decimalOps \<Rightarrow> TokenUsage \<Rightarrow> 'f PriceRates \<Rightarrow> bool \<Rightarrow> BillingBreakdown option" where
  "estimateBreakdown ops tokens rates keepZero =
     (let bill = runBill ops tokens rates keepZero
      in if \<not> rbPriced bill then None else Some (settleBill ops bill))"

definition EstimateBreakdown :: "('d, 'f) decimalOps \<Rightarrow> TokenUsage \<Rightarrow> 'f PriceRates \<Rightarrow> BillingBreakdown option" where
  "EstimateBreakdown ops tokens rates = estimateBreakdown ops tokens rates False"

definition EstimateFailureBreakdown :: "('d, 'f) decimalOps \<Rightarrow> TokenUsage \<Rightarrow> 'f PriceRates \<Rightarrow> BillingBreakdown option" where
  "EstimateFailureBreakdown ops tokens rates = estimateBreakdown ops tokens rates True"

text \<open>\<^verbatim>\<open>Cost\<close>: the inner None is the panic of a total that is not a number.\<close>

definition billCost :: "('d, 'f) decimalOps \<Rightarrow> BillingBreakdown option \<Rightarrow> 'd option" where
  "billCost ops b =
     (case b of None \<Rightarrow> Some (dZero ops)
      | Some b \<Rightarrow> if trimSpace (bbTotal b) = [] then Some (dZero ops) else dParse ops (bbTotal b))"

definition EstimateCost :: "('d, 'f) decimalOps \<Rightarrow> TokenUsage \<Rightarrow> 'f PriceRates \<Rightarrow> 'd option option" where
  "EstimateCost ops tokens rates =
     (case EstimateBreakdown ops tokens rates of None \<Rightarrow> None | Some b \<Rightarrow> Some (billCost ops (Some b)))"

subsection \<open>Every token is billed once\<close>

definition inputKinds :: "string list" where
  "inputKinds = [''cached_input'', ''cache_write'', ''image_input'', ''audio_input'', ''input'']"

definition outputKinds :: "string list" where "outputKinds = [''audio_output'', ''output'']"

definition billedTokens :: "string list \<Rightarrow> BillingItem list \<Rightarrow> nat" where
  "billedTokens kinds items = sum_list (map (\<lambda>i. unat (itQuantity i)) (filter (\<lambda>i. itType i \<in> set kinds) items))"

lemma billedTokens_simps [simp]:
  "billedTokens kinds [] = 0"
  "billedTokens kinds (xs @ ys) = billedTokens kinds xs + billedTokens kinds ys"
  "billedTokens kinds (i # xs) = (if itType i \<in> set kinds then unat (itQuantity i) else 0) + billedTokens kinds xs"
  by (simp_all add: billedTokens_def)

lemma addTokenItem_billed:
  "billedTokens kinds (rbItems (addTokenItem ops bill kind q rate source)) =
     billedTokens kinds (rbItems bill) + (if kind \<in> set kinds then unat q else 0)"
  by (simp add: addTokenItem_def Let_def)

lemma boundedTokenCount_le: "boundedTokenCount v (Some r) \<le> r"
  by (simp add: boundedTokenCount_def Let_def linorder_not_less)

text \<open>Charging one kind moves its tokens from those remaining into the bill.\<close>

lemma chargeTokens_billed:
  assumes "kind \<in> set kinds"
    and "chargeTokens ops keepZero src kind v preferred fallback (Some r, bill) = (remaining', bill')"
  obtains r' where "remaining' = Some r'"
    "billedTokens kinds (rbItems bill') + unat r' \<le> billedTokens kinds (rbItems bill) + unat r"
    "fallback \<noteq> None \<Longrightarrow> billedTokens kinds (rbItems bill') + unat r' = billedTokens kinds (rbItems bill) + unat r"
proof
  let ?q = "boundedTokenCount v (Some r)"
  have sub: "unat (r - ?q) = unat r - unat ?q" "unat ?q \<le> unat r"
    using boundedTokenCount_le [of v r] by (simp_all add: unat_sub word_le_nat_alt)
  show "remaining' = Some (r - ?q)" using assms(2)
    by (auto simp: chargeTokens_def Let_def case_prod_beta split: option.splits if_splits)
  show "billedTokens kinds (rbItems bill') + unat (r - ?q) \<le> billedTokens kinds (rbItems bill) + unat r"
    using assms sub by (auto simp: chargeTokens_def Let_def addTokenItem_billed case_prod_beta split: option.splits if_splits)
  show "billedTokens kinds (rbItems bill') + unat (r - ?q) = billedTokens kinds (rbItems bill) + unat r" if "fallback \<noteq> None"
    using assms sub that
    by (auto simp: chargeTokens_def Let_def addTokenItem_billed case_prod_beta preferredPrice_def split: option.splits if_splits)
qed

lemma chargeTokens_other:
  "kind \<notin> set kinds \<Longrightarrow>
     billedTokens kinds (rbItems (snd (chargeTokens ops keepZero src kind v preferred fallback rb))) = billedTokens kinds (rbItems (snd rb))"
  by (auto simp: chargeTokens_def Let_def addTokenItem_billed case_prod_beta split: option.splits if_splits prod.splits)

lemma chargeRest_billed:
  assumes "kind \<in> set kinds"
  shows "billedTokens kinds (rbItems (chargeRest ops keepZero kind rate (Some r, bill))) \<le> billedTokens kinds (rbItems bill) + unat r"
    "rate \<noteq> None \<Longrightarrow> billedTokens kinds (rbItems (chargeRest ops keepZero kind rate (Some r, bill))) = billedTokens kinds (rbItems bill) + unat r"
  using assms by (auto simp: chargeRest_def addTokenItem_billed tokenCount_def word_gt_0 split: option.splits)

lemma chargeRest_other:
  "kind \<notin> set kinds \<Longrightarrow> billedTokens kinds (rbItems (chargeRest ops keepZero kind rate rb)) = billedTokens kinds (rbItems (snd rb))"
  by (auto simp: chargeRest_def addTokenItem_billed split: option.splits prod.splits)

lemma chargeInputs_billed:
  assumes "tkInput tokens = Some n"
  shows "billedTokens inputKinds (rbItems (chargeInputs ops keepZero tokens rates bill)) \<le> billedTokens inputKinds (rbItems bill) + unat n"
    "prInput rates \<noteq> None \<Longrightarrow>
       billedTokens inputKinds (rbItems (chargeInputs ops keepZero tokens rates bill)) = billedTokens inputKinds (rbItems bill) + unat n"
proof -
  let ?c = "chargeTokens ops keepZero ''input''" and ?f = "prInput rates"
  obtain m1 b1 where s1: "?c ''cached_input'' (tkCachedInput tokens) (prCachedInput rates) ?f (Some n, bill) = (m1, b1)" by fastforce
  obtain r1 where r1: "m1 = Some r1"
    "billedTokens inputKinds (rbItems b1) + unat r1 \<le> billedTokens inputKinds (rbItems bill) + unat n"
    "?f \<noteq> None \<Longrightarrow> billedTokens inputKinds (rbItems b1) + unat r1 = billedTokens inputKinds (rbItems bill) + unat n"
    using chargeTokens_billed [OF _ s1, of inputKinds] by (auto simp: inputKinds_def)
  obtain m2 b2 where s2: "?c ''cache_write'' (tkCacheWrite tokens) (prCacheWrite rates) ?f (Some r1, b1) = (m2, b2)" by fastforce
  obtain r2 where r2: "m2 = Some r2"
    "billedTokens inputKinds (rbItems b2) + unat r2 \<le> billedTokens inputKinds (rbItems b1) + unat r1"
    "?f \<noteq> None \<Longrightarrow> billedTokens inputKinds (rbItems b2) + unat r2 = billedTokens inputKinds (rbItems b1) + unat r1"
    using chargeTokens_billed [OF _ s2, of inputKinds] by (auto simp: inputKinds_def)
  obtain m3 b3 where s3: "?c ''image_input'' (tkImageInput tokens) (prImageInput rates) ?f (Some r2, b2) = (m3, b3)" by fastforce
  obtain r3 where r3: "m3 = Some r3"
    "billedTokens inputKinds (rbItems b3) + unat r3 \<le> billedTokens inputKinds (rbItems b2) + unat r2"
    "?f \<noteq> None \<Longrightarrow> billedTokens inputKinds (rbItems b3) + unat r3 = billedTokens inputKinds (rbItems b2) + unat r2"
    using chargeTokens_billed [OF _ s3, of inputKinds] by (auto simp: inputKinds_def)
  obtain m4 b4 where s4: "?c ''audio_input'' (tkAudioInput tokens) (prAudioInput rates) ?f (Some r3, b3) = (m4, b4)" by fastforce
  obtain r4 where r4: "m4 = Some r4"
    "billedTokens inputKinds (rbItems b4) + unat r4 \<le> billedTokens inputKinds (rbItems b3) + unat r3"
    "?f \<noteq> None \<Longrightarrow> billedTokens inputKinds (rbItems b4) + unat r4 = billedTokens inputKinds (rbItems b3) + unat r3"
    using chargeTokens_billed [OF _ s4, of inputKinds] by (auto simp: inputKinds_def)
  have eq: "chargeInputs ops keepZero tokens rates bill = chargeRest ops keepZero ''input'' ?f (Some r4, b4)"
    using assms s1 s2 s3 s4 r1(1) r2(1) r3(1) r4(1) by (simp add: chargeInputs_def)
  have input: "''input'' \<in> set inputKinds" by (simp add: inputKinds_def)
  show "billedTokens inputKinds (rbItems (chargeInputs ops keepZero tokens rates bill)) \<le> billedTokens inputKinds (rbItems bill) + unat n"
    using chargeRest_billed(1) [OF input, of ops keepZero ?f r4 b4] r1(2) r2(2) r3(2) r4(2) unfolding eq by linarith
  show "billedTokens inputKinds (rbItems (chargeInputs ops keepZero tokens rates bill)) = billedTokens inputKinds (rbItems bill) + unat n"
    if "?f \<noteq> None"
    using chargeRest_billed(2) [OF input that, of ops keepZero r4 b4] r1(3) r2(3) r3(3) r4(3) that unfolding eq by linarith
qed

lemma chargeOutputs_billed:
  assumes "tkOutput tokens = Some n"
  shows "billedTokens outputKinds (rbItems (chargeOutputs ops keepZero tokens rates bill)) \<le> billedTokens outputKinds (rbItems bill) + unat n"
    "prOutput rates \<noteq> None \<Longrightarrow>
       billedTokens outputKinds (rbItems (chargeOutputs ops keepZero tokens rates bill)) = billedTokens outputKinds (rbItems bill) + unat n"
proof -
  let ?f = "prOutput rates"
  obtain m1 b1 where s1: "chargeTokens ops keepZero ''output'' ''audio_output'' (tkAudioOutput tokens) (prAudioOutput rates) ?f (Some n, bill) = (m1, b1)"
    by fastforce
  obtain r1 where r1: "m1 = Some r1"
    "billedTokens outputKinds (rbItems b1) + unat r1 \<le> billedTokens outputKinds (rbItems bill) + unat n"
    "?f \<noteq> None \<Longrightarrow> billedTokens outputKinds (rbItems b1) + unat r1 = billedTokens outputKinds (rbItems bill) + unat n"
    using chargeTokens_billed [OF _ s1, of outputKinds] by (auto simp: outputKinds_def)
  have eq: "chargeOutputs ops keepZero tokens rates bill = chargeRest ops keepZero ''output'' ?f (Some r1, b1)"
    using assms s1 r1(1) by (simp add: chargeOutputs_def)
  have outp: "''output'' \<in> set outputKinds" by (simp add: outputKinds_def)
  show "billedTokens outputKinds (rbItems (chargeOutputs ops keepZero tokens rates bill)) \<le> billedTokens outputKinds (rbItems bill) + unat n"
    using chargeRest_billed(1) [OF outp, of ops keepZero ?f r1 b1] r1(2) unfolding eq by linarith
  show "billedTokens outputKinds (rbItems (chargeOutputs ops keepZero tokens rates bill)) = billedTokens outputKinds (rbItems bill) + unat n"
    if "?f \<noteq> None"
    using chargeRest_billed(2) [OF outp that, of ops keepZero r1 b1] r1(3) that unfolding eq by linarith
qed

lemma chargeInputs_other: "billedTokens outputKinds (rbItems (chargeInputs ops keepZero tokens rates bill)) = billedTokens outputKinds (rbItems bill)"
  by (simp add: chargeInputs_def Let_def chargeRest_other chargeTokens_other outputKinds_def)

lemma chargeOutputs_other: "billedTokens inputKinds (rbItems (chargeOutputs ops keepZero tokens rates bill)) = billedTokens inputKinds (rbItems bill)"
  by (simp add: chargeOutputs_def Let_def chargeRest_other chargeTokens_other inputKinds_def)

lemma chargeRequest_other:
  "''request'' \<notin> set kinds \<Longrightarrow> billedTokens kinds (rbItems (chargeRequest ops rate bill)) = billedTokens kinds (rbItems bill)"
  by (simp add: chargeRequest_def Let_def split: option.split)

lemma settleBill_other: "''rounding'' \<notin> set kinds \<Longrightarrow> billedTokens kinds (bbItems (settleBill ops bill)) = billedTokens kinds (rbItems bill)"
  by (simp add: settleBill_def Let_def)

text \<open>
  C6: no token is billed twice: the quantities billed for the kinds of input never exceed the
  input tokens the upstream reported, and are exactly those when the model has an input price; the
  same holds for the output.
\<close>

theorem tokens_billed_once:
  assumes "estimateBreakdown ops tokens rates keepZero = Some b"
  shows "(\<forall>n. tkInput tokens = Some n \<longrightarrow> billedTokens inputKinds (bbItems b) \<le> unat n \<and>
            (prInput rates \<noteq> None \<longrightarrow> billedTokens inputKinds (bbItems b) = unat n)) \<and>
         (\<forall>n. tkOutput tokens = Some n \<longrightarrow> billedTokens outputKinds (bbItems b) \<le> unat n \<and>
            (prOutput rates \<noteq> None \<longrightarrow> billedTokens outputKinds (bbItems b) = unat n))"
proof -
  have b: "b = settleBill ops (runBill ops tokens rates keepZero)"
    using assms by (auto simp: estimateBreakdown_def Let_def split: if_splits)
  let ?z = "\<lparr>rbCost = dZero ops, rbPriced = False, rbItems = []\<rparr>"
  have inp: "billedTokens inputKinds (bbItems b) = billedTokens inputKinds (rbItems (chargeInputs ops keepZero tokens rates ?z))"
    unfolding b runBill_def by (simp add: settleBill_other chargeRequest_other chargeOutputs_other inputKinds_def [THEN arg_cong, of set])
  have out: "billedTokens outputKinds (bbItems b) =
      billedTokens outputKinds (rbItems (chargeOutputs ops keepZero tokens rates (chargeInputs ops keepZero tokens rates ?z)))"
    unfolding b runBill_def by (simp add: settleBill_other chargeRequest_other outputKinds_def [THEN arg_cong, of set])
  show ?thesis
    using chargeInputs_billed [where tokens = tokens and ops = ops and keepZero = keepZero and rates = rates and bill = ?z] chargeInputs_other [of ops keepZero tokens rates ?z]
      chargeOutputs_billed [where tokens = tokens and ops = ops and keepZero = keepZero and rates = rates
        and bill = "chargeInputs ops keepZero tokens rates ?z"]
    unfolding inp out by simp
qed

subsection \<open>The bill adds up\<close>

definition itemValue :: "('d, 'f) decimalOps \<Rightarrow> ('d \<Rightarrow> rat) \<Rightarrow> BillingItem \<Rightarrow> rat" where
  "itemValue ops val i = (case dParse ops (itAmount i) of None \<Rightarrow> 0 | Some a \<Rightarrow> val a)"

definition itemsValue :: "('d, 'f) decimalOps \<Rightarrow> ('d \<Rightarrow> rat) \<Rightarrow> BillingItem list \<Rightarrow> rat" where
  "itemsValue ops val items = sum_list (map (itemValue ops val) items)"

text \<open>An item for tokens costs its tokens at its price for a million, up to the rounding of the quotient.\<close>

definition itemPriced :: "('d, 'f) decimalOps \<Rightarrow> ('d \<Rightarrow> rat) \<Rightarrow> BillingItem \<Rightarrow> bool" where
  "itemPriced ops val i \<longleftrightarrow> itUnit i = billingUnitPerMillionTokens \<longrightarrow>
     (\<exists>p. dParse ops (itUnitPrice i) = Some p \<and>
        \<bar>itemValue ops val i - of_int (sint (itQuantity i)) * val p / 1000000\<bar> \<le> 1 / (2 * 10 ^ 16))"

definition soundBill :: "('d, 'f) decimalOps \<Rightarrow> ('d \<Rightarrow> rat) \<Rightarrow> 'd runningBill \<Rightarrow> bool" where
  "soundBill ops val bill \<longleftrightarrow> itemsValue ops val (rbItems bill) = val (rbCost bill) \<and> list_all (itemPriced ops val) (rbItems bill)"

lemma itemValue_string:
  "decimalLaws ops val \<Longrightarrow> itAmount i = dString ops a \<Longrightarrow> itemValue ops val i = val a"
  using decimalLawsD(9) [of ops val a] by (auto simp: itemValue_def)

lemma addTokenItem_sound:
  assumes laws: "decimalLaws ops val" and bill: "soundBill ops val bill"
  shows "soundBill ops val (addTokenItem ops bill kind q rate source)"
proof -
  note D = decimalLawsD [OF laws]
  let ?p = "dOfFloat ops rate"
  let ?a = "dDiv ops (dMul ops (dOfInt ops (sint q)) ?p) (dOfInt ops 1000000)"
  let ?i = "\<lparr>itType = kind, itQuantity = q, itUnit = billingUnitPerMillionTokens,
    itUnitPrice = dString ops ?p, itPriceSource = source, itAmount = dString ops ?a\<rparr>"
  have v: "itemValue ops val ?i = val ?a" by (rule itemValue_string [OF laws]) simp
  obtain p' where p': "dParse ops (dString ops ?p) = Some p'" "val p' = val ?p" using D(9) by blast
  have "\<bar>val ?a - val (dMul ops (dOfInt ops (sint q)) ?p) / val (dOfInt ops 1000000)\<bar> \<le> 1 / (2 * 10 ^ 16)"
    by (rule D(5)) (simp add: D(8))
  then have "itemPriced ops val ?i" using p' v by (simp add: itemPriced_def D(4,8))
  then show ?thesis using bill v by (simp add: soundBill_def addTokenItem_def Let_def itemsValue_def D(2))
qed

lemma charge_sound:
  assumes "decimalLaws ops val"
  shows "soundBill ops val (snd rb) \<Longrightarrow> soundBill ops val (snd (chargeTokens ops keepZero src kind v preferred fallback rb))"
    "soundBill ops val (snd rb) \<Longrightarrow> soundBill ops val (chargeRest ops keepZero kind rate rb)"
  using addTokenItem_sound [OF assms]
  by (auto simp: chargeTokens_def chargeRest_def Let_def case_prod_beta split: option.splits if_splits prod.splits)

lemma chargeRequest_sound:
  assumes "decimalLaws ops val" "soundBill ops val bill"
  shows "soundBill ops val (chargeRequest ops rate bill)"
proof (cases rate)
  case (Some p)
  let ?a = "dOfFloat ops p"
  have "itemValue ops val \<lparr>itType = ''request'', itQuantity = 1, itUnit = billingUnitPerRequest,
    itUnitPrice = dString ops ?a, itPriceSource = ''request'', itAmount = dString ops ?a\<rparr> = val ?a"
    by (rule itemValue_string [OF assms(1)]) simp
  with assms(2) Some show ?thesis
    by (simp add: chargeRequest_def soundBill_def itemsValue_def decimalLawsD(2) [OF assms(1)] itemPriced_def
        billingUnitPerRequest_def billingUnitPerMillionTokens_def Let_def)
qed (use assms in \<open>simp add: chargeRequest_def\<close>)

lemma chargeSides_sound:
  assumes "decimalLaws ops val" "soundBill ops val bill"
  shows "soundBill ops val (chargeInputs ops keepZero tokens rates bill)" "soundBill ops val (chargeOutputs ops keepZero tokens rates bill)"
  unfolding chargeInputs_def chargeOutputs_def Let_def using assms by (auto intro!: charge_sound)

lemma runBill_sound: "decimalLaws ops val \<Longrightarrow> soundBill ops val (runBill ops tokens rates keepZero)"
  unfolding runBill_def
  by (intro chargeRequest_sound chargeSides_sound) (simp_all add: soundBill_def itemsValue_def decimalLawsD(1))

text \<open>
  C7: a bill adds up: the amounts of its items, the rounding item included, sum up exactly to the
  total that is charged, which has eight places and differs from the unrounded subtotal by at most half a unit of the
  last place; and every item for tokens costs its tokens at its price for a million.
\<close>

theorem bill_adds_up:
  assumes laws: "decimalLaws ops val" and est: "estimateBreakdown ops tokens rates keepZero = Some b"
  shows "\<exists>total sub. billCost ops (Some b) = Some total \<and> dParse ops (bbSubtotal b) = Some sub \<and>
    itemsValue ops val (bbItems b) = val total \<and> places8 (val total) \<and> \<bar>val total - val sub\<bar> \<le> 1 / (2 * 10 ^ 8) \<and>
    list_all (itemPriced ops val) (bbItems b)"
proof -
  note D = decimalLawsD [OF laws]
  let ?r = "runBill ops tokens rates keepZero" and ?t = "dRound8 ops (rbCost (runBill ops tokens rates keepZero))"
  have b: "b = settleBill ops ?r" using est by (auto simp: estimateBreakdown_def Let_def split: if_splits)
  have sound: "itemsValue ops val (rbItems ?r) = val (rbCost ?r)" "list_all (itemPriced ops val) (rbItems ?r)"
    using runBill_sound [OF laws] by (simp_all add: soundBill_def)
  obtain total where total: "dParse ops (dFixed8 ops ?t) = Some total" "val total = val ?t" using D(11) D(6) by blast
  obtain sub where sub: "dParse ops (dString ops (rbCost ?r)) = Some sub" "val sub = val (rbCost ?r)" using D(9) by blast
  let ?adj = "dSub ops ?t (rbCost ?r)"
  have adj: "itemValue ops val \<lparr>itType = ''rounding'', itQuantity = 1, itUnit = billingUnitSettlement,
     itUnitPrice = dString ops ?adj, itPriceSource = ''settlement'', itAmount = dString ops ?adj\<rparr> = val ?t - val (rbCost ?r)"
    using itemValue_string [OF laws, of "\<lparr>itType = ''rounding'', itQuantity = 1, itUnit = billingUnitSettlement,
     itUnitPrice = dString ops ?adj, itPriceSource = ''settlement'', itAmount = dString ops ?adj\<rparr>" ?adj] by (simp add: D(3))
  have "billCost ops (Some b) = Some total" using total D(10) by (simp add: b settleBill_def Let_def billCost_def)
  moreover have "dParse ops (bbSubtotal b) = Some sub" using sub by (simp add: b settleBill_def Let_def)
  moreover have "itemsValue ops val (bbItems b) = val total"
    using total(2) sound adj D(12) [of ?adj] D(3) by (simp add: b settleBill_def Let_def itemsValue_def)
  moreover have "places8 (val total)" using total(2) D(6) by simp
  moreover have "\<bar>val total - val sub\<bar> \<le> 1 / (2 * 10 ^ 8)" using total(2) sub(2) D(7) by simp
  moreover have "list_all (itemPriced ops val) (bbItems b)"
    using sound(2) by (simp add: b settleBill_def Let_def itemPriced_def billingUnitSettlement_def billingUnitPerMillionTokens_def)
  ultimately show ?thesis by blast
qed

subsection \<open>Decimals as fractions\<close>

text \<open>An instance of the laws: exact fractions, printed as numerator and denominator.\<close>

definition ratText :: "rat \<Rightarrow> string" where
  "ratText a = (case quotient_of a of (p, q) \<Rightarrow>
     (if p < 0 then ''-'' else ''+'') @ showNat (nat \<bar>p\<bar>) @ CHR ''/'' # showNat (nat q))"

definition ratParse :: "string \<Rightarrow> rat option" where
  "ratParse s =
     (case s of [] \<Rightarrow> None
      | c # cs \<Rightarrow>
          (case (parseNat (takeWhile isDigit cs), parseNat (drop 1 (dropWhile isDigit cs))) of
             (Some p, Some q) \<Rightarrow> Some ((if c = CHR ''-'' then - of_nat p else of_nat p) / of_nat q)
           | _ \<Rightarrow> None))"

lemma ratParse_ratText: "ratParse (ratText a) = Some a"
proof -
  obtain p q where pq: "quotient_of a = (p, q)" by fastforce
  have q: "0 < q" and a: "a = of_int p / of_int q"
    using quotient_of_denom_pos [OF pq] quotient_of_div [OF pq] by simp_all
  have digits: "takeWhile isDigit (showNat n @ CHR ''/'' # t) = showNat n"
    "dropWhile isDigit (showNat n @ CHR ''/'' # t) = CHR ''/'' # t" for n t
  proof -
    have all: "\<And>c. c \<in> set (showNat n) \<Longrightarrow> isDigit c" and slash: "\<not> isDigit (CHR ''/'')"
      using showNat_all_digits by (auto simp: isDigit_def)
    show "takeWhile isDigit (showNat n @ CHR ''/'' # t) = showNat n"
      "dropWhile isDigit (showNat n @ CHR ''/'' # t) = CHR ''/'' # t"
      using all slash by (simp_all add: takeWhile_append2 dropWhile_append2)
  qed
  have "ratText a = (if p < 0 then CHR ''-'' else CHR ''+'') # showNat (nat \<bar>p\<bar>) @ CHR ''/'' # showNat (nat q)"
    by (simp add: ratText_def pq)
  then have "ratParse (ratText a) = Some (of_int p / of_int q)"
    using q by (simp add: ratParse_def digits)
  then show ?thesis by (simp add: a)
qed

definition ratOps :: "(rat, rat) decimalOps" where
  "ratOps = \<lparr>dZero = 0, dAdd = (+), dSub = (-), dMul = (*), dDiv = (/),
     dRound8 = (\<lambda>a. of_int (round (a * 10 ^ 8)) / 10 ^ 8), dOfInt = of_int, dOfFloat = (\<lambda>f. f), dToFloat = (\<lambda>d. d),
     dString = ratText, dFixed8 = ratText, dParse = ratParse, dIsZero = (\<lambda>a. a = 0), dLe = (\<le>)\<rparr>"

lemma ratText_visible: "trimSpace (ratText a) \<noteq> []"
proof
  assume "trimSpace (ratText a) = []"
  then have "set (ratText a) \<subseteq> (\<Union>p \<in> set space_seqs. set p)" using trimSpace_set [of "ratText a"] by simp
  moreover have "CHR ''/'' \<in> set (ratText a)" by (simp add: ratText_def case_prod_beta)
  moreover have "plainChar (CHR ''/'')" by (simp add: plainChar_def)
  ultimately show False using space_seqs_no_plain by blast
qed

lemma ratOps_laws: "decimalLaws ratOps (\<lambda>a. a)"
proof -
  have "\<bar>of_int (round (a * 10 ^ 8)) / 10 ^ 8 - a\<bar> \<le> 1 / (2 * 10 ^ 8)" for a :: rat
    using of_int_round_abs_le [of "a * 10 ^ 8"] by (simp add: abs_le_iff field_simps)
  then show ?thesis
    by (auto simp: decimalLaws_def ratOps_def ratParse_ratText ratText_visible places8_def)
qed

definition exampleTokens :: TokenUsage where
  "exampleTokens = \<lparr>tkInput = Some 100, tkCachedInput = Some 30, tkCacheWrite = None, tkCacheMiss = None,
     tkImageInput = None, tkAudioInput = None, tkOutput = Some 20, tkAudioOutput = None, tkTotal = Some 120\<rparr>"

definition exampleRates :: "rat PriceRates" where
  "exampleRates = \<lparr>prInput = Some 2, prCachedInput = Some (1 / 3), prCacheWrite = None, prOutput = Some 8,
     prImageInput = None, prAudioInput = None, prAudioOutput = None, prRequest = None\<rparr>"

definition exampleBill :: BillingBreakdown where
  "exampleBill = settleBill ratOps (runBill ratOps exampleTokens exampleRates False)"

lemma exampleBill: "estimateBreakdown ratOps exampleTokens exampleRates False = Some exampleBill"
  by (simp add: estimateBreakdown_def exampleBill_def runBill_def chargeRequest_def chargeOutputs_def chargeRest_def chargeTokens_def
      exampleTokens_def exampleRates_def addTokenItem_def Let_def tokenCount_def boundedTokenCount_def preferredPrice_def)

theorem tokens_billed_once_witness:
  "billedTokens inputKinds (bbItems exampleBill) = 100 \<and> billedTokens outputKinds (bbItems exampleBill) = 20"
  using tokens_billed_once [OF exampleBill] by (simp add: exampleTokens_def exampleRates_def)

theorem bill_adds_up_witness:
  "\<exists>total sub. billCost ratOps (Some exampleBill) = Some total \<and> dParse ratOps (bbSubtotal exampleBill) = Some sub \<and>
    itemsValue ratOps (\<lambda>a. a) (bbItems exampleBill) = total \<and> places8 total \<and> \<bar>total - sub\<bar> \<le> 1 / (2 * 10 ^ 8) \<and>
    list_all (itemPriced ratOps (\<lambda>a. a)) (bbItems exampleBill)"
  using bill_adds_up [OF ratOps_laws exampleBill] by simp

subsection \<open>Bills of failures and of old records\<close>

record FailedBillingDetails =
  fbMode :: string
  fbCurrency :: string
  fbRule :: "BillingRuleSnapshot option"
  fbItems :: "BillingItem list"

definition FailureCost :: "('d, 'f) decimalOps \<Rightarrow> 'd" where "FailureCost ops = dZero ops"

definition NewFailedBillingDetails :: "FailedBillingDetails option \<Rightarrow> BillingBreakdown option" where
  "NewFailedBillingDetails input =
     (case input of None \<Rightarrow> None
      | Some i \<Rightarrow>
          if fbItems i = [] \<and> fbRule i = None then None
          else Some \<lparr>bbMode = (if fbMode i = [] then ''token'' else fbMode i),
                 bbCurrency = (if fbCurrency i = [] then ''USD'' else fbCurrency i), bbCharged = False,
                 bbReconstructed = False, bbRule = fbRule i,
                 bbItems = map (\<lambda>item. item\<lparr>itAmount := ''0''\<rparr>) (fbItems i), bbSubtotal = ''0'', bbTotal = ''0.00000000''\<rparr>)"

text \<open>\<^verbatim>\<open>failedUsageBilling\<close> of \<^verbatim>\<open>internal/logic/relay/usage.go\<close>.\<close>

definition failedUsageBilling :: "('d, 'f) decimalOps \<Rightarrow> BillingBreakdown option \<Rightarrow> 'd \<times> BillingBreakdown option" where
  "failedUsageBilling ops details =
     (FailureCost ops,
      case details of None \<Rightarrow> None
      | Some b \<Rightarrow> NewFailedBillingDetails (Some \<lparr>fbMode = bbMode b, fbCurrency = bbCurrency b, fbRule = bbRule b, fbItems = bbItems b\<rparr>))"

definition isFailureStatus :: "int \<Rightarrow> bool" where
  "isFailureStatus status \<longleftrightarrow> status < 200 \<or> 300 \<le> status"

definition systemUserID :: id where "systemUserID = 1"

text \<open>
  \<^verbatim>\<open>verifiedLegacyBillingDetails\<close>: a reconstructed bill is shown only when its cost is the recorded
  one.  \<open>recorded\<close> is the column of the log; the panic of an unreadable total is None outside.
\<close>

definition verifiedLegacyBillingDetails :: "('d, 'f) decimalOps \<Rightarrow> id \<Rightarrow> 'f option \<Rightarrow> BillingBreakdown option \<Rightarrow> BillingBreakdown option option" where
  "verifiedLegacyBillingDetails ops userID recorded details =
     (case (details, recorded) of
        (Some b, Some f) \<Rightarrow>
          (case billCost ops (Some b) of
             None \<Rightarrow> None
           | Some cost \<Rightarrow>
               let r = dRound8 ops (dOfFloat ops f) in
               if \<not> (dLe ops cost r \<and> dLe ops r cost) then Some None
               else Some (Some (b\<lparr>bbCharged := (userID \<noteq> systemUserID), bbReconstructed := True\<rparr>)))
      | _ \<Rightarrow> Some None)"

end
