(* ===== verification/Usage_Pricing.thy ===== *)
theory Usage_Pricing
  imports Usage_Billing
begin

text \<open>
  Which price a model has (\<^verbatim>\<open>internal/logic/usage/pricing.go\<close>, over the stored tables) and the
  snapshot of all prices the relay bills with (\<^verbatim>\<open>internal/logic/pricingcache/service.go\<close>).  The two
  are separate code; \<open>pricing_cache_agrees\<close> states when they give the same bill.
\<close>

record ('d, 'f, 'g) priceEnv =
  peDecimal :: "('d, 'f) decimalOps"
  peJson :: "('g, 'f) gjsonOps"
  peTree :: "string \<Rightarrow> json option"
  peZones :: zonedb

subsection \<open>The conditions of a rule\<close>

definition matchesTokenRange :: "('g, 'f) gjsonOps \<Rightarrow> 'g \<Rightarrow> string \<Rightarrow> u64 \<Rightarrow> bool" where
  "matchesTokenRange js conditions prefix v =
     (let lo = gGet js conditions (prefix @ ''AtLeast''); hi = gGet js conditions (prefix @ ''AtMost'') in
      if gExists js lo \<and> v < gUint js lo then False
      else if gExists js hi \<and> v > gUint js hi then False
      else True)"

definition matchesTimeCondition :: "('d, 'f, 'g) priceEnv \<Rightarrow> 'g \<Rightarrow> gotime \<Rightarrow> bool" where
  "matchesTimeCondition env conditions atTime =
     (let block = gGet (peJson env) conditions ''time'' in
      if \<not> gExists (peJson env) block then True
      else case Parse (peTree env) (peZones env) (gRaw (peJson env) block) of
             Inl _ \<Rightarrow> False
           | Inr window \<Rightarrow> Allows (peZones env) window atTime)"

definition RuleMatches :: "('d, 'f, 'g) priceEnv \<Rightarrow> string \<Rightarrow> string \<Rightarrow> TokenUsage \<Rightarrow> gotime \<Rightarrow> bool" where
  "RuleMatches env conditionsJSON endpoint tokens atTime =
     (let js = peJson env;
          conditions = gParse js conditionsJSON;
          configured = trimSpace (gString js (gGet js conditions ''endpoint''));
          inp = tokenCount (tkInput tokens); outp = tokenCount (tkOutput tokens)
      in if configured \<noteq> [] \<and> configured \<noteq> endpoint then False
         else if \<not> matchesTokenRange js conditions ''inputTokens'' inp \<or> \<not> matchesTokenRange js conditions ''outputTokens'' outp \<or>
             \<not> matchesTokenRange js conditions ''totalTokens'' (inp + outp) then False
         else matchesTimeCondition env conditions atTime)"

definition priceRate :: "('g, 'f) gjsonOps \<Rightarrow> 'g \<Rightarrow> 'f option" where
  "priceRate js v = (if \<not> gExists js v \<or> \<not> gIsNumber js v then None else Some (gFloat js v))"

definition rulePriceRates :: "('g, 'f) gjsonOps \<Rightarrow> string \<Rightarrow> 'f PriceRates" where
  "rulePriceRates js ratesJSON =
     (let rates = gParse js ratesJSON; rate = (\<lambda>k. priceRate js (gGet js rates k)) in
      \<lparr>prInput = rate ''inputPerMillion'', prCachedInput = rate ''cachedInputPerMillion'',
       prCacheWrite = rate ''cacheWritePerMillion'', prOutput = rate ''outputPerMillion'',
       prImageInput = rate ''imageInputPerMillion'', prAudioInput = rate ''audioInputPerMillion'',
       prAudioOutput = rate ''audioOutputPerMillion'', prRequest = rate ''request''\<rparr>)"

definition RuleBreakdown :: "('d, 'f, 'g) priceEnv \<Rightarrow> bool \<Rightarrow> string \<Rightarrow> string \<Rightarrow> string \<Rightarrow> TokenUsage \<Rightarrow> gotime \<Rightarrow> BillingBreakdown option" where
  "RuleBreakdown env failure conditionsJSON ratesJSON endpoint tokens atTime =
     (if \<not> RuleMatches env conditionsJSON endpoint tokens atTime then None
      else if failure then EstimateFailureBreakdown (peDecimal env) tokens (rulePriceRates (peJson env) ratesJSON)
      else EstimateBreakdown (peDecimal env) tokens (rulePriceRates (peJson env) ratesJSON))"

subsection \<open>The stored prices\<close>

record 'f publicModelPrice =
  mpName :: string
  mpMode :: string
  mpRates :: "'f PriceRates"

record ModelPriceRule =
  mrId :: id
  mrModel :: string
  mrName :: string
  mrSource :: string
  mrPriority :: int
  mrCurrency :: string
  mrConditions :: string
  mrRates :: string
  mrStatus :: int

text \<open>The rows of both tables, and whether their queries fail.\<close>

record 'f priceTables =
  ptPrices :: "'f publicModelPrice list"
  ptRules :: "ModelPriceRule list"
  ptPricesFail :: bool
  ptRulesFail :: bool

definition ruleKey :: "ModelPriceRule \<Rightarrow> int \<times> bool \<times> int" where
  "ruleKey r = (- mrPriority r, mrSource r \<noteq> ''manual'', - int (mrId r))"

definition ruleSnapshot :: "ModelPriceRule \<Rightarrow> BillingRuleSnapshot" where
  "ruleSnapshot r = \<lparr>snapID = mrId r, snapName = mrName r, snapSource = mrSource r, snapPriority = mrPriority r,
     snapConditions = mrConditions r\<rparr>"

fun firstRule :: "('d, 'f, 'g) priceEnv \<Rightarrow> bool \<Rightarrow> (string \<Rightarrow> string) \<Rightarrow> string \<Rightarrow> TokenUsage \<Rightarrow> gotime \<Rightarrow> ModelPriceRule list \<Rightarrow>
    BillingBreakdown option" where
  "firstRule env failure currency endpoint tokens atTime [] = None"
| "firstRule env failure currency endpoint tokens atTime (r # rs) =
     (case RuleBreakdown env failure (mrConditions r) (mrRates r) endpoint tokens atTime of
        None \<Rightarrow> firstRule env failure currency endpoint tokens atTime rs
      | Some b \<Rightarrow> Some (b\<lparr>bbMode := ''rules'', bbCurrency := currency (mrCurrency r), bbRule := Some (ruleSnapshot r)\<rparr>))"

definition storedCurrency :: "string \<Rightarrow> string" where
  "storedCurrency c = (let u = toUpper (trimSpace c) in if u = [] then ''USD'' else u)"

definition estimateRuleBreakdown :: "('d, 'f, 'g) priceEnv \<Rightarrow> 'f priceTables \<Rightarrow> string \<Rightarrow> string \<Rightarrow> TokenUsage \<Rightarrow> gotime \<Rightarrow> bool \<Rightarrow>
    BillingBreakdown option" where
  "estimateRuleBreakdown env t modelName endpoint tokens atTime failure =
     (if ptRulesFail t then None
      else firstRule env failure storedCurrency endpoint tokens atTime
             (sort_key ruleKey (filter (\<lambda>r. mrModel r = modelName \<and> mrStatus r = 1) (ptRules t))))"

definition estimateFor :: "('d, 'f, 'g) priceEnv \<Rightarrow> bool \<Rightarrow> TokenUsage \<Rightarrow> 'f PriceRates \<Rightarrow> BillingBreakdown option" where
  "estimateFor env failure tokens rates =
     (if failure then EstimateFailureBreakdown (peDecimal env) tokens rates else EstimateBreakdown (peDecimal env) tokens rates)"

definition requestRates :: "'f PriceRates \<Rightarrow> 'f PriceRates" where
  "requestRates rates = \<lparr>prInput = None, prCachedInput = None, prCacheWrite = None, prOutput = None, prImageInput = None,
     prAudioInput = None, prAudioOutput = None, prRequest = prRequest rates\<rparr>"

definition estimatePublicModelBreakdown :: "('d, 'f, 'g) priceEnv \<Rightarrow> 'f priceTables \<Rightarrow> string \<Rightarrow> string \<Rightarrow> TokenUsage \<Rightarrow> gotime \<Rightarrow>
    bool \<Rightarrow> BillingBreakdown option" where
  "estimatePublicModelBreakdown env t modelName endpoint tokens atTime failure =
     (case (if ptPricesFail t then None else find (\<lambda>p. mpName p = modelName) (ptPrices t)) of
        None \<Rightarrow> None
      | Some p \<Rightarrow>
          if mpName p = [] then None
          else if mpMode p = ''rules'' then estimateRuleBreakdown env t modelName endpoint tokens atTime failure
          else if mpMode p = ''request'' then
            map_option (\<lambda>b. b\<lparr>bbMode := ''request''\<rparr>) (estimateFor env failure tokens (requestRates (mpRates p)))
          else estimateFor env failure tokens ((mpRates p)\<lparr>prRequest := None\<rparr>))"

subsection \<open>The snapshot of prices\<close>

record 'f modelPrice =
  cpMode :: string
  cpRates :: "'f PriceRates"
  cpRules :: "ModelPriceRule list"

type_synonym 'f priceSnapshot = "string \<Rightarrow> 'f modelPrice option"

definition noRates :: "'f PriceRates" where
  "noRates = \<lparr>prInput = None, prCachedInput = None, prCacheWrite = None, prOutput = None, prImageInput = None,
     prAudioInput = None, prAudioOutput = None, prRequest = None\<rparr>"

definition normalizeBillingMode :: "string \<Rightarrow> string" where
  "normalizeBillingMode v = (if v = ''request'' \<or> v = ''rules'' then v else ''token'')"

definition normalizeCurrency :: "string \<Rightarrow> string" where
  "normalizeCurrency v = (if v = [] then ''USD'' else v)"

definition cacheRuleLess :: "ModelPriceRule \<Rightarrow> ModelPriceRule \<Rightarrow> bool" where
  "cacheRuleLess a b =
     (if mrPriority a \<noteq> mrPriority b then mrPriority a > mrPriority b
      else if mrSource a \<noteq> mrSource b then mrSource a = ''manual''
      else mrId a > mrId b)"

text \<open>
  \<^verbatim>\<open>sort.SliceStable\<close> inserts each element to the left of all it precedes, which for the
  lists of up to twenty rules of one model is all it does.
\<close>

definition insertBack :: "('a \<Rightarrow> 'a \<Rightarrow> bool) \<Rightarrow> 'a list \<Rightarrow> 'a \<Rightarrow> 'a list" where
  "insertBack lt xs x = rev (dropWhile (lt x) (rev xs)) @ x # rev (takeWhile (lt x) (rev xs))"

definition sliceStable :: "('a \<Rightarrow> 'a \<Rightarrow> bool) \<Rightarrow> 'a list \<Rightarrow> 'a list" where
  "sliceStable lt xs = foldl (insertBack lt) [] xs"

fun loadPriceRows :: "'f publicModelPrice list \<Rightarrow> 'f priceSnapshot \<Rightarrow> 'f priceSnapshot" where
  "loadPriceRows [] s = s"
| "loadPriceRows (p # ps) s =
     loadPriceRows ps (s(mpName p \<mapsto> \<lparr>cpMode = normalizeBillingMode (mpMode p), cpRates = mpRates p, cpRules = []\<rparr>))"

fun loadRuleRows :: "ModelPriceRule list \<Rightarrow> 'f priceSnapshot \<Rightarrow> 'f priceSnapshot" where
  "loadRuleRows [] s = s"
| "loadRuleRows (r # rs) s =
     (let price = (case s (mrModel r) of Some p \<Rightarrow> p | None \<Rightarrow> \<lparr>cpMode = ''rules'', cpRates = noRates, cpRules = []\<rparr>)
      in loadRuleRows rs (s(mrModel r \<mapsto> price\<lparr>cpRules := cpRules price @ [r]\<rparr>)))"

text \<open>\<^verbatim>\<open>Load\<close>: an error keeps the snapshot there was.\<close>

definition Load :: "'f priceTables \<Rightarrow> 'f priceSnapshot \<Rightarrow> 'f priceSnapshot \<times> bool" where
  "Load t current =
     (if ptPricesFail t \<or> ptRulesFail t then (current, False)
      else let loaded = loadRuleRows (filter (\<lambda>r. mrStatus r = 1) (ptRules t)) (loadPriceRows (ptPrices t) Map.empty)
           in (\<lambda>name. map_option (\<lambda>p. p\<lparr>cpRules := sliceStable cacheRuleLess (cpRules p)\<rparr>) (loaded name), True))"

definition IsPriced :: "'f priceSnapshot \<Rightarrow> string \<Rightarrow> bool" where
  "IsPriced snapshot modelName =
     (case snapshot modelName of None \<Rightarrow> False
      | Some p \<Rightarrow>
          if cpMode p = ''rules'' then cpRules p \<noteq> []
          else if cpMode p = ''request'' then prRequest (cpRates p) \<noteq> None
          else prInput (cpRates p) \<noteq> None \<or> prCachedInput (cpRates p) \<noteq> None \<or> prCacheWrite (cpRates p) \<noteq> None \<or>
            prOutput (cpRates p) \<noteq> None \<or> prImageInput (cpRates p) \<noteq> None \<or> prAudioInput (cpRates p) \<noteq> None \<or>
            prAudioOutput (cpRates p) \<noteq> None)"

definition cacheEstimate :: "('d, 'f, 'g) priceEnv \<Rightarrow> 'f priceSnapshot \<Rightarrow> string \<Rightarrow> string \<Rightarrow> TokenUsage \<Rightarrow> gotime \<Rightarrow> bool \<Rightarrow>
    BillingBreakdown option" where
  "cacheEstimate env snapshot modelName endpoint tokens atTime failure =
     (case snapshot modelName of
        None \<Rightarrow> None
      | Some p \<Rightarrow>
          if cpMode p = ''rules'' then firstRule env failure normalizeCurrency endpoint tokens atTime (cpRules p)
          else if cpMode p = ''request'' then
            map_option (\<lambda>b. b\<lparr>bbMode := ''request''\<rparr>) (estimateFor env failure tokens (requestRates (cpRates p)))
          else estimateFor env failure tokens (cpRates p))"

subsection \<open>Sorting\<close>

lemma insertBack_mset [simp]: "mset (insertBack lt xs x) = add_mset x (mset xs)"
proof -
  have "mset (rev (dropWhile (lt x) (rev xs))) + mset (rev (takeWhile (lt x) (rev xs))) = mset xs"
    by (metis mset_append mset_rev add.commute takeWhile_dropWhile_id)
  then show ?thesis by (simp add: insertBack_def)
qed

lemma sliceStable_mset [simp]: "mset (sliceStable lt xs) = mset xs"
proof -
  have "mset (foldl (insertBack lt) acc xs) = mset acc + mset xs" for acc
    by (induction xs arbitrary: acc) auto
  then show ?thesis by (simp add: sliceStable_def)
qed

lemma insertBack_sorted:
  fixes k :: "'a \<Rightarrow> 'b :: linorder"
  assumes "\<And>y. y \<in> set xs \<Longrightarrow> lt x y \<longleftrightarrow> k x < k y" "sorted (map k xs)"
  shows "sorted (map k (insertBack lt xs x))"
proof -
  let ?pre = "rev (dropWhile (lt x) (rev xs))" and ?suf = "rev (takeWhile (lt x) (rev xs))"
  have xs: "xs = ?pre @ ?suf" by (metis rev_append rev_rev_ident takeWhile_dropWhile_id)
  have late: "k x < k y" if "y \<in> set ?suf" for y
    using that assms(1) by (metis (no_types) set_rev set_takeWhileD)
  have early: "k y \<le> k x" if "y \<in> set ?pre" for y
  proof -
    from that have "dropWhile (lt x) (rev xs) \<noteq> []" by (metis empty_iff empty_set set_rev)
    then obtain z zs where z: "dropWhile (lt x) (rev xs) = z # zs" by (cases "dropWhile (lt x) (rev xs)") auto
    then have "\<not> lt x z" by (metis hd_dropWhile list.sel(1) list.distinct(1))
    moreover have "z \<in> set xs" using z by (metis list.set_intros(1) set_dropWhileD set_rev)
    ultimately have "k z \<le> k x" using assms(1) by auto
    moreover have "sorted (map k (rev zs @ [z]))"
      using assms(2) z by (subst (asm) xs) (simp add: sorted_append)
    ultimately show ?thesis using that z by (auto simp: sorted_append)
  qed
  have "sorted (map k (?pre @ ?suf))" using assms(2) xs by simp
  then have "sorted (map k ?pre)" "sorted (map k ?suf)" by (simp_all add: sorted_append)
  moreover have "k y \<le> k z" if "y \<in> set ?pre" "z \<in> set ?suf" for y z
    using early [OF that(1)] late [OF that(2)] by simp
  ultimately show ?thesis using late early unfolding insertBack_def
    by (simp add: sorted_append less_imp_le)
qed

lemma sliceStable_sorted:
  fixes k :: "'a \<Rightarrow> 'b :: linorder"
  assumes "\<And>x y. x \<in> set xs \<Longrightarrow> y \<in> set xs \<Longrightarrow> lt x y \<longleftrightarrow> k x < k y"
  shows "sorted (map k (sliceStable lt xs))"
proof -
  have "sorted (map k (foldl (insertBack lt) acc ys))"
    if "sorted (map k acc)" "set acc \<subseteq> set xs" "set ys \<subseteq> set xs" for acc ys
    using that
  proof (induction ys arbitrary: acc)
    case (Cons y ys)
    have "set (insertBack lt acc y) = insert y (set acc)"
      by (metis insertBack_mset set_mset_add_mset_insert set_mset_mset)
    moreover have "sorted (map k (insertBack lt acc y))"
      using Cons.prems assms by (intro insertBack_sorted) auto
    ultimately show ?case using Cons by auto
  qed simp
  from this [of "[]" xs] show ?thesis by (simp add: sliceStable_def)
qed

text \<open>A sort by a key that tells the elements apart has one result.\<close>

lemma sorted_by_key_unique:
  fixes k :: "'a \<Rightarrow> 'b :: linorder"
  assumes "inj_on k (set xs)" "mset xs = mset ys" "sorted (map k xs)" "sorted (map k ys)"
  shows "xs = ys"
proof -
  have "mset (map k xs) = mset (map k ys)" using assms(2) by simp
  then have m: "map k xs = map k ys" using assms(3,4) by (metis properties_for_sort sorted_sort_id)
  moreover have "set xs = set ys" using assms(2) by (metis set_mset_mset)
  ultimately show ?thesis using assms(1) by (metis inj_on_map_eq_map sup.idem)
qed

subsection \<open>The choice of a rule\<close>

lemma firstRule_Some:
  "firstRule env failure currency endpoint tokens atTime rs = Some b \<Longrightarrow>
     \<exists>before r rest b0. rs = before @ r # rest \<and>
       (\<forall>r' \<in> set before. RuleBreakdown env failure (mrConditions r') (mrRates r') endpoint tokens atTime = None) \<and>
       RuleBreakdown env failure (mrConditions r) (mrRates r) endpoint tokens atTime = Some b0 \<and>
       b = b0\<lparr>bbMode := ''rules'', bbCurrency := currency (mrCurrency r), bbRule := Some (ruleSnapshot r)\<rparr>"
proof (induction rs)
  case (Cons r rs)
  show ?case
  proof (cases "RuleBreakdown env failure (mrConditions r) (mrRates r) endpoint tokens atTime")
    case None
    with Cons.prems have "firstRule env failure currency endpoint tokens atTime rs = Some b" by simp
    from Cons.IH [OF this] obtain before r1 rest b0 where "rs = before @ r1 # rest"
      "\<forall>r' \<in> set before. RuleBreakdown env failure (mrConditions r') (mrRates r') endpoint tokens atTime = None"
      "RuleBreakdown env failure (mrConditions r1) (mrRates r1) endpoint tokens atTime = Some b0"
      "b = b0\<lparr>bbMode := ''rules'', bbCurrency := currency (mrCurrency r1), bbRule := Some (ruleSnapshot r1)\<rparr>" by blast
    with None show ?thesis by (intro exI [of _ "r # before"] exI [of _ r1] exI [of _ rest] exI [of _ b0]) simp
  next
    case (Some b0)
    with Cons.prems show ?thesis by (intro exI [of _ "[]"] exI [of _ r] exI [of _ rs] exI [of _ b0]) simp
  qed
qed simp

lemma ruleKey_inj: "distinct (map mrId rs) \<Longrightarrow> inj_on ruleKey (set rs)"
  by (auto simp: inj_on_def ruleKey_def distinct_map)

lemma sort_rules_unique:
  assumes "distinct (map mrId rs)" "mset rs' = mset rs" "sorted (map ruleKey rs')"
  shows "rs' = sort_key ruleKey rs"
proof (rule sorted_by_key_unique [of ruleKey])
  show "inj_on ruleKey (set rs')" using ruleKey_inj [OF assms(1)] assms(2) by (metis set_mset_mset)
qed (use assms in simp_all)

text \<open>
  the rule a model is billed by does not depend on the order in which the database returns the
  rules: it is a matching active rule such that no rule before it (higher priority, then manual
  before synced, then newest) gives a price.
\<close>

theorem price_rule_choice:
  assumes ids: "distinct (map mrId (ptRules t))" and perm: "mset (ptRules t') = mset (ptRules t)"
    and fail: "ptRulesFail t' = ptRulesFail t"
  shows "estimateRuleBreakdown env t' modelName endpoint tokens atTime failure = estimateRuleBreakdown env t modelName endpoint tokens atTime failure \<and>
    (\<forall>b. estimateRuleBreakdown env t modelName endpoint tokens atTime failure = Some b \<longrightarrow>
       (\<exists>r \<in> set (ptRules t). mrModel r = modelName \<and> mrStatus r = 1 \<and> RuleMatches env (mrConditions r) endpoint tokens atTime \<and>
          bbRule b = Some (ruleSnapshot r) \<and>
          (\<forall>r' \<in> set (ptRules t). mrModel r' = modelName \<and> mrStatus r' = 1 \<and> ruleKey r' < ruleKey r \<longrightarrow>
             RuleBreakdown env failure (mrConditions r') (mrRates r') endpoint tokens atTime = None)))"
proof (intro conjI allI impI)
  let ?P = "\<lambda>r. mrModel r = modelName \<and> mrStatus r = 1"
  let ?rs = "filter ?P (ptRules t)"
  have ids': "distinct (map mrId ?rs)" using ids by (simp add: distinct_map_filter)
  have "mset (filter ?P (ptRules t')) = mset ?rs" using perm by (simp add: mset_filter)
  then have "sort_key ruleKey (filter ?P (ptRules t')) = sort_key ruleKey ?rs"
    by (intro sort_rules_unique [OF ids']) simp_all
  then show "estimateRuleBreakdown env t' modelName endpoint tokens atTime failure = estimateRuleBreakdown env t modelName endpoint tokens atTime failure"
    by (simp add: estimateRuleBreakdown_def fail)
  fix b
  assume "estimateRuleBreakdown env t modelName endpoint tokens atTime failure = Some b"
  then have "firstRule env failure storedCurrency endpoint tokens atTime (sort_key ruleKey ?rs) = Some b"
    by (simp add: estimateRuleBreakdown_def split: if_splits)
  from firstRule_Some [OF this] obtain before r rest b0 where split: "sort_key ruleKey ?rs = before @ r # rest"
    and none: "\<forall>r' \<in> set before. RuleBreakdown env failure (mrConditions r') (mrRates r') endpoint tokens atTime = None"
    and some: "RuleBreakdown env failure (mrConditions r) (mrRates r) endpoint tokens atTime = Some b0"
    and b: "b = b0\<lparr>bbMode := ''rules'', bbCurrency := storedCurrency (mrCurrency r), bbRule := Some (ruleSnapshot r)\<rparr>" by blast
  have sorted: "sorted (map ruleKey (before @ r # rest))" by (metis split sorted_sort_key)
  have members: "set (before @ r # rest) = set ?rs" by (metis split set_sort)
  show "\<exists>r \<in> set (ptRules t). mrModel r = modelName \<and> mrStatus r = 1 \<and> RuleMatches env (mrConditions r) endpoint tokens atTime \<and>
      bbRule b = Some (ruleSnapshot r) \<and>
      (\<forall>r' \<in> set (ptRules t). mrModel r' = modelName \<and> mrStatus r' = 1 \<and> ruleKey r' < ruleKey r \<longrightarrow>
         RuleBreakdown env failure (mrConditions r') (mrRates r') endpoint tokens atTime = None)"
  proof (intro bexI [of _ r] conjI ballI impI)
    have r: "r \<in> set ?rs" using members by auto
    then show "r \<in> set (ptRules t)" "mrModel r = modelName" "mrStatus r = 1" by auto
    show "RuleMatches env (mrConditions r) endpoint tokens atTime" using some by (simp add: RuleBreakdown_def split: if_splits)
    show "bbRule b = Some (ruleSnapshot r)" by (simp add: b)
    fix r'
    assume r': "r' \<in> set (ptRules t)" "mrModel r' = modelName \<and> mrStatus r' = 1 \<and> ruleKey r' < ruleKey r"
    then have "r' \<in> set (before @ r # rest)" using members by auto
    moreover have "r' \<notin> set (r # rest)" using sorted r' by (auto simp: sorted_append)
    ultimately show "RuleBreakdown env failure (mrConditions r') (mrRates r') endpoint tokens atTime = None" using none by auto
  qed
qed

subsection \<open>The snapshot gives the stored prices\<close>

lemma loadPriceRows_lookup:
  "distinct (map mpName ps) \<Longrightarrow> loadPriceRows ps s name =
     (case find (\<lambda>p. mpName p = name) ps of
        Some p \<Rightarrow> Some \<lparr>cpMode = normalizeBillingMode (mpMode p), cpRates = mpRates p, cpRules = []\<rparr>
      | None \<Rightarrow> s name)"
proof (induction ps arbitrary: s)
  case (Cons p ps)
  have "find (\<lambda>q. mpName q = mpName p) ps = None"
    using Cons.prems by (auto simp: find_None_iff) (metis imageI)
  with Cons show ?case by (auto split: option.splits)
qed simp

lemma loadRuleRows_lookup:
  "s name = Some p \<Longrightarrow> loadRuleRows rs s name = Some (p\<lparr>cpRules := cpRules p @ filter (\<lambda>r. mrModel r = name) rs\<rparr>)"
proof (induction rs arbitrary: s p)
  case (Cons r rs)
  show ?case
  proof (cases "mrModel r = name")
    case True
    have "loadRuleRows rs (s(name \<mapsto> p\<lparr>cpRules := cpRules p @ [r]\<rparr>)) name =
        Some (p\<lparr>cpRules := cpRules p @ [r]\<rparr>\<lparr>cpRules := cpRules (p\<lparr>cpRules := cpRules p @ [r]\<rparr>) @ filter (\<lambda>r. mrModel r = name) rs\<rparr>)"
      by (rule Cons.IH) simp
    with True Cons.prems show ?thesis by (simp add: Let_def del: fun_upd_apply)
  next
    case False
    then show ?thesis using Cons by (simp add: Let_def)
  qed
qed simp

text \<open>The snapshot of a model with a row.\<close>

lemma Load_lookup:
  assumes "distinct (map mpName (ptPrices t))" "\<not> ptPricesFail t" "\<not> ptRulesFail t"
    and "find (\<lambda>p. mpName p = modelName) (ptPrices t) = Some p"
  shows "fst (Load t current) modelName = Some \<lparr>cpMode = normalizeBillingMode (mpMode p), cpRates = mpRates p,
    cpRules = sliceStable cacheRuleLess (filter (\<lambda>r. mrModel r = modelName \<and> mrStatus r = 1) (ptRules t))\<rparr>"
proof -
  have "loadPriceRows (ptPrices t) Map.empty modelName = Some \<lparr>cpMode = normalizeBillingMode (mpMode p), cpRates = mpRates p, cpRules = []\<rparr>"
    using loadPriceRows_lookup [OF assms(1)] assms(4) by simp
  from loadRuleRows_lookup [of "loadPriceRows (ptPrices t) Map.empty" modelName, OF this, of "filter (\<lambda>r. mrStatus r = 1) (ptRules t)"] assms(2,3)
  show ?thesis by (simp add: Load_def Let_def conj_commute)
qed

text \<open>What the code that saves rules keeps: two sources, and a currency in capitals.\<close>

definition ruleSaved :: "ModelPriceRule \<Rightarrow> bool" where
  "ruleSaved r \<longleftrightarrow> mrSource r \<in> {''manual'', ''sync''} \<and> mrCurrency r = toUpper (trimSpace (mrCurrency r))"

lemma cacheRuleLess_key:
  "ruleSaved a \<Longrightarrow> ruleSaved b \<Longrightarrow> cacheRuleLess a b \<longleftrightarrow> ruleKey a < ruleKey b"
  by (auto simp: cacheRuleLess_def ruleKey_def ruleSaved_def)

lemma firstRule_currency:
  "(\<And>r. r \<in> set rs \<Longrightarrow> cur1 (mrCurrency r) = cur2 (mrCurrency r)) \<Longrightarrow>
     firstRule env failure cur1 endpoint tokens atTime rs = firstRule env failure cur2 endpoint tokens atTime rs"
  by (induction rs) (auto split: option.splits)

text \<open>
  C5: a request is billed with the stored prices: for a model with a row, whose request price is
  empty unless the model is billed by request, and rules as the code saves them, the snapshot gives the same
  bill as the tables it was loaded from.
\<close>

theorem pricing_cache_agrees:
  assumes names: "distinct (map mpName (ptPrices t))" and ids: "distinct (map mrId (ptRules t))"
    and ok: "\<not> ptPricesFail t" "\<not> ptRulesFail t" and saved: "\<forall>r \<in> set (ptRules t). ruleSaved r"
    and row: "find (\<lambda>p. mpName p = modelName) (ptPrices t) = Some p" and named: "modelName \<noteq> []"
    and fresh: "mpMode p \<noteq> ''request'' \<Longrightarrow> prRequest (mpRates p) = None"
  shows "cacheEstimate env (fst (Load t current)) modelName endpoint tokens atTime failure =
    estimatePublicModelBreakdown env t modelName endpoint tokens atTime failure"
proof -
  let ?rs = "filter (\<lambda>r. mrModel r = modelName \<and> mrStatus r = 1) (ptRules t)"
  have name: "mpName p = modelName" using row by (auto simp: find_Some_iff)
  have "sorted (map ruleKey (sliceStable cacheRuleLess ?rs))"
    using saved by (intro sliceStable_sorted cacheRuleLess_key) auto
  moreover have "distinct (map mrId ?rs)" using ids by (simp add: distinct_map_filter)
  ultimately have order: "sliceStable cacheRuleLess ?rs = sort_key ruleKey ?rs"
    by (intro sort_rules_unique) simp_all
  have currency: "firstRule env failure normalizeCurrency endpoint tokens atTime (sort_key ruleKey ?rs) =
      firstRule env failure storedCurrency endpoint tokens atTime (sort_key ruleKey ?rs)"
    using saved by (intro firstRule_currency) (auto simp: normalizeCurrency_def storedCurrency_def Let_def ruleSaved_def)
  have rates: "(mpRates p)\<lparr>prRequest := None\<rparr> = mpRates p" if "mpMode p \<noteq> ''request''"
    using fresh [OF that] by simp
  show ?thesis
    using Load_lookup [OF names ok row, of current] row ok named name order currency rates
    by (simp add: cacheEstimate_def estimatePublicModelBreakdown_def estimateRuleBreakdown_def normalizeBillingMode_def)
qed

lemma runBill_unpriced:
  "prInput r = None \<Longrightarrow> prCachedInput r = None \<Longrightarrow> prCacheWrite r = None \<Longrightarrow> prOutput r = None \<Longrightarrow> prImageInput r = None \<Longrightarrow>
     prAudioInput r = None \<Longrightarrow> prAudioOutput r = None \<Longrightarrow> prRequest r = None \<Longrightarrow> \<not> rbPriced (runBill ops tokens r keepZero)"
  by (simp add: runBill_def chargeRequest_def chargeOutputs_def chargeInputs_def chargeRest_def chargeTokens_def
      preferredPrice_def Let_def)

lemma firstRule_Nil: "firstRule env failure cur endpoint tokens atTime rs = Some b \<Longrightarrow> rs \<noteq> []"
  by auto

text \<open>
  only models with a price are charged, so every charged request has passed the check of the
  balance: if the snapshot gives a bill and no request price is left over from another mode, then
  the model counts as priced.
\<close>

theorem charged_only_if_priced:
  assumes "cacheEstimate env snapshot modelName endpoint tokens atTime failure = Some b"
    and "\<And>p. snapshot modelName = Some p \<Longrightarrow> cpMode p \<noteq> ''request'' \<Longrightarrow> prRequest (cpRates p) = None"
  shows "IsPriced snapshot modelName"
proof -
  obtain p where p: "snapshot modelName = Some p" using assms(1) by (auto simp: cacheEstimate_def split: option.splits)
  have unpriced: "estimateFor env failure tokens r = None"
    if "prInput r = None" "prCachedInput r = None" "prCacheWrite r = None" "prOutput r = None" "prImageInput r = None"
      "prAudioInput r = None" "prAudioOutput r = None" "prRequest r = None" for r
    by (simp add: runBill_unpriced [OF that] estimateFor_def EstimateFailureBreakdown_def EstimateBreakdown_def estimateBreakdown_def Let_def)
  show ?thesis
  proof (rule ccontr)
    assume "\<not> IsPriced snapshot modelName"
    then show False
      using assms p unpriced [of "cpRates p"] unpriced [of "requestRates (cpRates p)"]
      by (auto simp: IsPriced_def cacheEstimate_def requestRates_def split: if_splits)
  qed
qed

text \<open>
  a model switched from request to token billing keeps its request price in the table, and
  the snapshot then charges it on top of the tokens, which the stored-price estimate does not.
\<close>

theorem stale_request_price_charged:
  assumes "distinct (map mpName (ptPrices t))" "\<not> ptPricesFail t" "\<not> ptRulesFail t"
    and "find (\<lambda>p. mpName p = modelName) (ptPrices t) = Some p" "mpMode p = ''token''" "prRequest (mpRates p) \<noteq> None"
  shows "(\<exists>b. cacheEstimate env (fst (Load t current)) modelName endpoint tokens atTime failure = Some b \<and>
       billedTokens [''request''] (bbItems b) = 1) \<and>
    (\<forall>b. estimatePublicModelBreakdown env t modelName endpoint tokens atTime failure = Some b \<longrightarrow>
       billedTokens [''request''] (bbItems b) = 0)"
proof -
  let ?ops = "peDecimal env" and ?z = "\<lparr>rbCost = dZero (peDecimal env), rbPriced = False, rbItems = []\<rparr>"
  have sides: "billedTokens [''request''] (rbItems (chargeOutputs ?ops kz tokens r (chargeInputs ?ops kz tokens r ?z))) = 0" for kz r
    by (simp add: chargeOutputs_def chargeInputs_def Let_def chargeRest_other chargeTokens_other)
  obtain c where c: "prRequest (mpRates p) = Some c" using assms(6) by blast
  have one: "billedTokens [''request''] (bbItems (settleBill ?ops (runBill ?ops tokens (mpRates p) kz))) = 1"
    "rbPriced (runBill ?ops tokens (mpRates p) kz)" for kz
    by (simp_all add: settleBill_other runBill_def chargeRequest_def c Let_def sides)
  have none: "billedTokens [''request''] (bbItems (settleBill ?ops (runBill ?ops tokens ((mpRates p)\<lparr>prRequest := None\<rparr>) kz))) = 0" for kz
    by (simp add: settleBill_other runBill_def chargeRequest_def sides)
  have name: "mpName p = modelName" using assms(4) by (auto simp: find_Some_iff)
  have cached: "cacheEstimate env (fst (Load t current)) modelName endpoint tokens atTime failure = estimateFor env failure tokens (mpRates p)"
    using Load_lookup [OF assms(1-4), of current] assms(5) by (simp add: cacheEstimate_def normalizeBillingMode_def)
  have stored: "estimatePublicModelBreakdown env t modelName endpoint tokens atTime failure = Some b \<Longrightarrow>
      estimateFor env failure tokens ((mpRates p)\<lparr>prRequest := None\<rparr>) = Some b" for b
    using assms(2,4,5) by (simp add: estimatePublicModelBreakdown_def split: if_splits)
  show ?thesis
    using one none stored
    by (auto simp: cached estimateFor_def EstimateFailureBreakdown_def EstimateBreakdown_def estimateBreakdown_def Let_def split: if_splits)
qed

subsection \<open>Examples\<close>

definition exampleJson :: "(json option, rat) gjsonOps" where
  "exampleJson = \<lparr>gParse = \<lambda>s. Some (JObj (if s = ''r'' then [(''inputPerMillion'', JNum ''2'')] else [])),
     gGet = \<lambda>g k. (case g of Some (JObj kvs) \<Rightarrow> map_of kvs k | _ \<Rightarrow> None), gExists = \<lambda>g. g \<noteq> None,
     gString = \<lambda>g. (case g of Some (JStr s) \<Rightarrow> s | _ \<Rightarrow> []), gUint = \<lambda>g. 0, gRaw = \<lambda>g. [],
     gIsNumber = \<lambda>g. (case g of Some (JNum _) \<Rightarrow> True | _ \<Rightarrow> False), gFloat = \<lambda>g. 2\<rparr>"

definition examplePriceEnv :: "(rat, rat, json option) priceEnv" where
  "examplePriceEnv = \<lparr>peDecimal = ratOps, peJson = exampleJson, peTree = \<lambda>_. None, peZones = \<lambda>_. None\<rparr>"

definition exampleRule :: "id \<Rightarrow> string \<Rightarrow> ModelPriceRule" where
  "exampleRule i source = \<lparr>mrId = i, mrModel = ''m'', mrName = ''n'', mrSource = source, mrPriority = 0, mrCurrency = ''USD'',
     mrConditions = ''{}'', mrRates = ''r'', mrStatus = 1\<rparr>"

definition exampleTables :: "string \<Rightarrow> rat option \<Rightarrow> ModelPriceRule list \<Rightarrow> rat priceTables" where
  "exampleTables mode request rules = \<lparr>ptPrices = [\<lparr>mpName = ''m'', mpMode = mode, mpRates = exampleRates\<lparr>prRequest := request\<rparr>\<rparr>],
     ptRules = rules, ptPricesFail = False, ptRulesFail = False\<rparr>"

lemma exampleRule_saved: "ruleSaved (exampleRule i ''sync'')" "ruleSaved (exampleRule i ''manual'')"
proof -
  have "trimSpace ''USD'' = ''USD''" by (simp add: plain_eval)
  moreover have "toUpper ''USD'' = ''USD''" by code_simp
  ultimately show "ruleSaved (exampleRule i ''sync'')" "ruleSaved (exampleRule i ''manual'')"
    by (simp_all add: ruleSaved_def exampleRule_def)
qed

theorem price_rule_choice_witness:
  "estimateRuleBreakdown examplePriceEnv (exampleTables ''rules'' None [exampleRule 4 ''manual'', exampleRule 9 ''sync'']) ''m'' ''/e'' exampleTokens 0 False =
   estimateRuleBreakdown examplePriceEnv (exampleTables ''rules'' None [exampleRule 9 ''sync'', exampleRule 4 ''manual'']) ''m'' ''/e'' exampleTokens 0 False"
  by (rule conjunct1 [OF price_rule_choice]) (simp_all add: exampleTables_def exampleRule_def)

theorem pricing_cache_agrees_witness:
  "cacheEstimate examplePriceEnv (fst (Load (exampleTables ''rules'' None [exampleRule 9 ''sync'', exampleRule 4 ''manual'']) Map.empty)) ''m'' ''/e'' exampleTokens 0 False =
   estimatePublicModelBreakdown examplePriceEnv (exampleTables ''rules'' None [exampleRule 9 ''sync'', exampleRule 4 ''manual'']) ''m'' ''/e'' exampleTokens 0 False"
  by (rule pricing_cache_agrees) (simp_all add: exampleTables_def exampleRule_saved exampleRates_def, simp_all add: exampleRule_def)

lemma exampleLoad:
  "fst (Load (exampleTables ''token'' request []) Map.empty) ''m'' =
     Some \<lparr>cpMode = ''token'', cpRates = exampleRates\<lparr>prRequest := request\<rparr>, cpRules = []\<rparr>"
  by (simp add: Load_def Let_def exampleTables_def normalizeBillingMode_def sliceStable_def)

theorem charged_only_if_priced_witness:
  "IsPriced (fst (Load (exampleTables ''token'' None []) Map.empty)) ''m''"
proof (rule charged_only_if_priced)
  show "cacheEstimate examplePriceEnv (fst (Load (exampleTables ''token'' None []) Map.empty)) ''m'' ''/e'' exampleTokens 0 False =
      Some exampleBill"
    using exampleBill by (simp add: cacheEstimate_def exampleLoad estimateFor_def EstimateBreakdown_def examplePriceEnv_def exampleRates_def)
qed (simp add: exampleLoad exampleRates_def)

theorem stale_request_price_charged_witness:
  "\<exists>b. cacheEstimate examplePriceEnv (fst (Load (exampleTables ''token'' (Some 5) []) Map.empty)) ''m'' ''/e'' exampleTokens 0 False = Some b \<and>
     billedTokens [''request''] (bbItems b) = 1"
  by (rule conjunct1 [OF stale_request_price_charged]) (simp_all add: exampleTables_def, simp_all)

end
