(* ===== verification/Relay_Billing.thy ===== *)
theory Relay_Billing
  imports Relay_Flow Usage_Pricing
begin

text \<open>
  Charging a request (\<^verbatim>\<open>internal/logic/relay/usage.go\<close>, \<^verbatim>\<open>internal/logic/user/debit.go\<close>,
  \<^verbatim>\<open>internal/logic/apikey/spending.go\<close> and \<^verbatim>\<open>daily_limit.go\<close>): the debit of the balance, the spend
  of the API key and the usage row, in one database transaction.

  The database is the record \<open>ledgerDb\<close>: balances, API keys and usage rows, whose request ids are
  unique (\<^verbatim>\<open>uk_usage_logs_request\<close>).  Which statements fail is an argument.  A transaction that
  returns an error leaves the database as it was.
\<close>

subsection \<open>Data\<close>

record 'f floatOps =
  fAdd :: "'f \<Rightarrow> 'f \<Rightarrow> 'f"
  fSub :: "'f \<Rightarrow> 'f \<Rightarrow> 'f"
  fZero :: 'f
  fLe :: "'f \<Rightarrow> 'f \<Rightarrow> bool"

record 'f apiKeyRow =
  akSpent :: 'f
  akDailySpent :: 'f
  akDailyDate :: "int option"

record 'd RecordInput =
  riRequestID :: string
  riUserID :: id
  riAPIKeyID :: id
  riChannelID :: id
  riChannelCredentialID :: id
  riEndpoint :: string
  riUpstreamEndpoint :: string
  riProtocolConversion :: string
  riRequestedModel :: string
  riUpstreamModel :: string
  riReasoningEffort :: string
  riHealthScore :: "int option"
  riHTTPStatus :: int
  riStream :: bool
  riTokens :: TokenUsage
  riEstimatedCost :: "'d option"
  riBillingDetails :: "BillingBreakdown option"
  riDurationMs :: int
  riFirstTokenMs :: "int option"
  riAttempts :: nat
  riAttemptFlow :: "AttemptFlowStep list"
  riErrorMessage :: string

record ('d, 'f) ledgerDb =
  ldBalances :: "id \<Rightarrow> 'f option"
  ldKeys :: "id \<Rightarrow> 'f apiKeyRow option"
  ldLogs :: "'d RecordInput list"
  ldChannelCosts :: "(id \<times> id \<times> 'd) list"
  ldMails :: "id list"

record dbFaults =
  failLock :: bool
  failUpdate :: bool
  failSpend :: bool
  failInsert :: bool
  failChannelCost :: bool

datatype debit_error = DebitInsufficient | DebitFailed

subsection \<open>The balance\<close>

definition debit :: "('d, 'f) decimalOps \<Rightarrow> dbFaults \<Rightarrow> ('d, 'f) ledgerDb \<Rightarrow> id \<Rightarrow> 'd \<Rightarrow> bool \<Rightarrow> debit_error option \<times> ('d, 'f) ledgerDb" where
  "debit ops faults db uid amount0 allowDebt =
     (if dLe ops amount0 (dZero ops) then (None, db)
      else let amount = dRound8 ops amount0 in
        if dLe ops amount (dZero ops) then (None, db)
        else if failLock faults then (Some DebitFailed, db)
        else case ldBalances db uid of
               None \<Rightarrow> (Some DebitFailed, db)
             | Some stored \<Rightarrow>
                 let balance = dRound8 ops (dOfFloat ops stored) in
                 if \<not> allowDebt \<and> \<not> dLe ops amount balance then (Some DebitInsufficient, db)
                 else if failUpdate faults then (Some DebitFailed, db)
                 else (None, db\<lparr>ldBalances := (ldBalances db)(uid \<mapsto> dToFloat ops (dRound8 ops (dSub ops balance amount)))\<rparr>))"

definition Debit :: "('d, 'f) decimalOps \<Rightarrow> dbFaults \<Rightarrow> ('d, 'f) ledgerDb \<Rightarrow> id \<Rightarrow> 'd \<Rightarrow> debit_error option \<times> ('d, 'f) ledgerDb" where
  "Debit ops faults db uid amount = debit ops faults db uid amount False"

definition SettleUsage :: "('d, 'f) decimalOps \<Rightarrow> dbFaults \<Rightarrow> ('d, 'f) ledgerDb \<Rightarrow> id \<Rightarrow> 'd \<Rightarrow> debit_error option \<times> ('d, 'f) ledgerDb" where
  "SettleUsage ops faults db uid amount = debit ops faults db uid amount True"

subsection \<open>The spend of an API key\<close>

text \<open>\<open>today\<close> is the local calendar day.\<close>

definition dailySpentToday :: "'f floatOps \<Rightarrow> 'f apiKeyRow \<Rightarrow> int \<Rightarrow> 'f" where
  "dailySpentToday fl row today = (if akDailyDate row \<noteq> Some today then fZero fl else akDailySpent row)"

definition dailyLimitReached :: "'f floatOps \<Rightarrow> 'f option \<Rightarrow> 'f apiKeyRow \<Rightarrow> int \<Rightarrow> bool" where
  "dailyLimitReached fl limit row today =
     (case limit of None \<Rightarrow> False | Some l \<Rightarrow> fLe fl l (dailySpentToday fl row today))"

definition dailyRemaining :: "'f floatOps \<Rightarrow> 'f \<Rightarrow> 'f apiKeyRow \<Rightarrow> int \<Rightarrow> 'f" where
  "dailyRemaining fl limit row today =
     (let remaining = fSub fl limit (dailySpentToday fl row today)
      in if \<not> fLe fl (fZero fl) remaining then fZero fl else remaining)"

definition spendRow :: "'f floatOps \<Rightarrow> 'f apiKeyRow \<Rightarrow> 'f \<Rightarrow> int \<Rightarrow> 'f apiKeyRow" where
  "spendRow fl row amount today =
     \<lparr>akSpent = fAdd fl (akSpent row) amount,
      akDailySpent = (if akDailyDate row = Some today then fAdd fl amount (akDailySpent row) else amount),
      akDailyDate = Some today\<rparr>"

definition addSpend :: "'f floatOps \<Rightarrow> dbFaults \<Rightarrow> ('d, 'f) ledgerDb \<Rightarrow> id \<Rightarrow> 'f \<Rightarrow> int \<Rightarrow> bool \<times> ('d, 'f) ledgerDb" where
  "addSpend fl faults db keyID amount today =
     (if fLe fl amount (fZero fl) then (True, db)
      else if failSpend faults then (False, db)
      else case ldKeys db keyID of
             None \<Rightarrow> (False, db)
           | Some row \<Rightarrow> (True, db\<lparr>ldKeys := (ldKeys db)(keyID \<mapsto> spendRow fl row amount today)\<rparr>))"

subsection \<open>The usage row\<close>

definition logIds :: "('d, 'f) ledgerDb \<Rightarrow> string set" where
  "logIds db = riRequestID ` set (ldLogs db)"

definition Record :: "dbFaults \<Rightarrow> ('d, 'f) ledgerDb \<Rightarrow> 'd RecordInput \<Rightarrow> bool \<times> ('d, 'f) ledgerDb" where
  "Record faults db input =
     (if failInsert faults \<or> riRequestID input \<in> riRequestID ` set (ldLogs db) then (False, db)
      else (True, db\<lparr>ldLogs := ldLogs db @ [input\<lparr>riErrorMessage := truncateStr (riErrorMessage input) 1024\<rparr>]\<rparr>))"

subsection \<open>Accounting for a request\<close>

record ('d, 'f, 'g) recordEnv =
  rePrices :: "('d, 'f, 'g) priceEnv"
  reSnapshot :: "'f priceSnapshot"
  reFloats :: "'f floatOps"
  reFaults :: dbFaults
  reToday :: int
  reHealthScore :: "Candidate \<Rightarrow> int option"
  reFailureLog :: "attemptResult \<Rightarrow> int \<Rightarrow> string \<Rightarrow> bool \<Rightarrow> nat \<Rightarrow> int \<Rightarrow> string"
  reDurationMs :: int
  reHasChannels :: bool
  reHasMail :: bool

text \<open>What is known of the request, besides the result.\<close>

record requestInfo =
  rqID :: string
  rqKey :: AuthKey
  rqEndpoint :: string
  rqModel :: string
  rqStream :: bool
  rqStartedAt :: gotime

text \<open>The outer None is the panic of a bill whose total is not a number.\<close>

definition pricedUsageCost :: "('d, 'f) decimalOps \<Rightarrow> bool \<Rightarrow> BillingBreakdown option \<Rightarrow> ('d option \<times> bool) option" where
  "pricedUsageCost ops priced details =
     (case details of
        Some b \<Rightarrow> map_option (\<lambda>cost. (Some cost, True)) (billCost ops (Some b))
      | None \<Rightarrow> if \<not> priced then Some (Some (dZero ops), False) else Some (None, False))"

definition reEndpoint :: "requestInfo \<Rightarrow> attemptResult \<Rightarrow> string" where
  "reEndpoint rq r = (if upstreamEndpoint r = [] then rqEndpoint rq else upstreamEndpoint r)"

definition reBreakdown :: "('d, 'f, 'g) recordEnv \<Rightarrow> requestInfo \<Rightarrow> Candidate \<Rightarrow> attemptResult \<Rightarrow> bool \<Rightarrow> BillingBreakdown option" where
  "reBreakdown env rq c r failure =
     cacheEstimate (rePrices env) (reSnapshot env) (PublicName c) (reEndpoint rq r) (resTokens r) (rqStartedAt rq) failure"

definition missingBillable :: "('d, 'f, 'g) recordEnv \<Rightarrow> requestInfo \<Rightarrow> gotime \<Rightarrow> Candidate \<Rightarrow> attemptResult \<Rightarrow> bool" where
  "missingBillable env rq nowTime c r =
     (if status r < 200 \<or> 300 \<le> status r then False
      else if \<not> IsPriced (reSnapshot env) (PublicName c) then False
      else cacheEstimate (rePrices env) (reSnapshot env) (PublicName c) (reEndpoint rq r) (resTokens r) nowTime False = None)"

text \<open>The statements inside \<^verbatim>\<open>persist\<close>, after the decision what is billable and what it costs.\<close>

definition persistRow :: "('d, 'f, 'g) recordEnv \<Rightarrow> requestInfo \<Rightarrow> Candidate \<Rightarrow> nat \<Rightarrow> attemptResult \<Rightarrow>
    int \<Rightarrow> string \<Rightarrow> 'd option \<Rightarrow> BillingBreakdown option \<Rightarrow> ('d, 'f) ledgerDb \<Rightarrow> bool \<times> ('d, 'f) ledgerDb" where
  "persistRow env rq c n r recordStatus recordError cost details db =
     Record (reFaults env) db
       \<lparr>riRequestID = rqID rq, riUserID = keyUserId (rqKey rq), riAPIKeyID = keyId (rqKey rq), riChannelID = ChannelID c,
        riChannelCredentialID = ChannelCredentialID c, riEndpoint = rqEndpoint rq, riUpstreamEndpoint = reEndpoint rq r,
        riProtocolConversion = protocolConversion r, riRequestedModel = rqModel rq, riUpstreamModel = UpstreamName c,
        riReasoningEffort = ReasoningEffort c, riHealthScore = reHealthScore env c, riHTTPStatus = recordStatus,
        riStream = rqStream rq, riTokens = resTokens r, riEstimatedCost = cost, riBillingDetails = details,
        riDurationMs = reDurationMs env, riFirstTokenMs = firstTokenMs r, riAttempts = n, riAttemptFlow = attemptFlow r,
        riErrorMessage = reFailureLog env r recordStatus recordError (rqStream rq) n (reDurationMs env)\<rparr>"

definition insufficientText :: string where
  "insufficientText = bytes [0xE8, 0xB4, 0xA6, 0xE6, 0x88, 0xB7, 0xE4, 0xBD, 0x99, 0xE9, 0xA2, 0x9D, 0xE4, 0xB8, 0x8D, 0xE8,
    0xB6, 0xB3, 0xEF, 0xBC, 0x8C, 0xE8, 0xAF, 0xB7, 0xE5, 0x85, 0x88, 0xE5, 0x85, 0x85, 0xE5, 0x80,
    0xBC, 0xE5, 0x90, 0x8E, 0xE5, 0x86, 0x8D, 0xE4, 0xBD, 0xBF, 0xE7, 0x94, 0xA8, 0xE6, 0xA8, 0xA1, 0xE5, 0x9E, 0x8B]"

datatype charge = Uncharged | Charged | Refused record_error | ChargeError string

text \<open>The charge of a billable result: nothing, the debit with the spend, or a refusal that is still recorded.\<close>

definition chargeUser :: "('d, 'f, 'g) recordEnv \<Rightarrow> requestInfo \<Rightarrow> bool \<Rightarrow> bool \<Rightarrow> 'd option \<Rightarrow> ('d, 'f) ledgerDb \<Rightarrow> charge \<times> ('d, 'f) ledgerDb" where
  "chargeUser env rq chargeable ownChannel cost db =
     (let ops = peDecimal (rePrices env) in
      case cost of
        None \<Rightarrow> (Refused NotBillable, db)
      | Some amount \<Rightarrow>
          if chargeable \<and> \<not> ownChannel then
            (case Debit ops (reFaults env) db (keyUserId (rqKey rq)) amount of
               (Some DebitInsufficient, db1) \<Rightarrow> (Refused (InsufficientBalance insufficientText), db1)
             | (Some DebitFailed, db1) \<Rightarrow> (ChargeError ''debit relay usage'', db1)
             | (None, db1) \<Rightarrow>
                 (case addSpend (reFloats env) (reFaults env) db1 (keyId (rqKey rq)) (dToFloat ops amount) (reToday env) of
                    (False, db2) \<Rightarrow> (ChargeError ''add relay API key spend'', db2)
                  | (True, db2) \<Rightarrow> (Charged, db2)))
          else (Uncharged, db))"

fun recordErrorText :: "record_error \<Rightarrow> string" where
  "recordErrorText NotBillable = notBillableText"
| "recordErrorText (InsufficientBalance m) = m"
| "recordErrorText (RecordFailed m) = m"

text \<open>What is decided before the database is touched.\<close>

record 'd recordPlan =
  rpBillable :: bool
  rpChargeable :: bool
  rpOwn :: bool
  rpStatus :: int
  rpError :: string
  rpCost :: "'d option"
  rpDetails :: "BillingBreakdown option"

definition planRecord :: "('d, 'f, 'g) recordEnv \<Rightarrow> requestInfo \<Rightarrow> Candidate \<Rightarrow> attemptResult \<Rightarrow> 'd recordPlan option" where
  "planRecord env rq c r =
     (let ops = peDecimal (rePrices env); details = reBreakdown env rq c r False in
      case pricedUsageCost ops (IsPriced (reSnapshot env) (PublicName c)) details of
        None \<Rightarrow> None
      | Some (cost, chargeable) \<Rightarrow>
          (let ok = (200 \<le> status r \<and> status r < 300);
               cut = (ok \<and> streamTruncated (rqStream rq) r);
               billable = (ok \<and> \<not> cut);
               failed = failedUsageBilling ops (reBreakdown env rq c r True)
           in Some \<lparr>rpBillable = billable, rpChargeable = chargeable,
                rpOwn = (CreatedByUserID c \<noteq> 0 \<and> CreatedByUserID c = keyUserId (rqKey rq)),
                rpStatus = (if cut then 502 else status r),
                rpError = (if cut \<and> trimSpace (errorMessage r) = [] then streamTruncatedReason else errorMessage r),
                rpCost = (if billable then cost else Some (fst failed)),
                rpDetails = (if billable then details else snd failed)\<rparr>))"

text \<open>\<^verbatim>\<open>persist\<close>: the error and the refusal, and the database after the statements that ran.\<close>

definition persist :: "('d, 'f, 'g) recordEnv \<Rightarrow> requestInfo \<Rightarrow> Candidate \<Rightarrow> nat \<Rightarrow> attemptResult \<Rightarrow> 'd recordPlan \<Rightarrow>
    ('d, 'f) ledgerDb \<Rightarrow> string option \<times> charge \<times> ('d, 'f) ledgerDb" where
  "persist env rq c n r plan db =
     (let (ch, db1) = (if rpBillable plan then chargeUser env rq (rpChargeable plan) (rpOwn plan) (rpCost plan) db else (Uncharged, db));
          save = persistRow env rq c n r
      in case ch of
           ChargeError m \<Rightarrow> (Some m, ch, db1)
         | _ \<Rightarrow>
             (let (saved, db2) =
                (case ch of
                   Charged \<Rightarrow> save (rpStatus plan) (rpError plan) (rpCost plan) (map_option (\<lambda>b. b\<lparr>bbCharged := True\<rparr>) (rpDetails plan)) db1
                 | Refused e \<Rightarrow> save 402 (recordErrorText e) (rpCost plan) (rpDetails plan) db1
                 | _ \<Rightarrow> save (rpStatus plan) (rpError plan) (rpCost plan) (rpDetails plan) db1)
              in if saved then (None, ch, db2) else (Some ''persist relay usage'', ch, db2)))"

text \<open>What follows the commit.\<close>

definition afterRecord :: "('d, 'f, 'g) recordEnv \<Rightarrow> requestInfo \<Rightarrow> Candidate \<Rightarrow> 'd recordPlan \<Rightarrow> charge \<Rightarrow> ('d, 'f) ledgerDb \<Rightarrow> ('d, 'f) ledgerDb" where
  "afterRecord env rq c plan ch db =
     (let db1 = (case rpCost plan of
             Some cost \<Rightarrow>
               if rpBillable plan \<and> rpChargeable plan \<and> reHasChannels env \<and> \<not> failChannelCost (reFaults env)
               then db\<lparr>ldChannelCosts := ldChannelCosts db @ [(ChannelID c, ChannelCredentialID c, cost)]\<rparr> else db
           | None \<Rightarrow> db)
      in if ch = Charged \<and> reHasMail env then db1\<lparr>ldMails := ldMails db1 @ [keyUserId (rqKey rq)]\<rparr> else db1)"

definition inTransaction :: "('d, 'f, 'g) recordEnv \<Rightarrow> 'd recordPlan \<Rightarrow> bool" where
  "inTransaction env plan \<longleftrightarrow> rpBillable plan \<and> rpChargeable plan \<and> \<not> rpOwn plan \<and>
     (case rpCost plan of None \<Rightarrow> False | Some cost \<Rightarrow> \<not> dLe (peDecimal (rePrices env)) cost (dZero (peDecimal (rePrices env))))"

definition recordUsage :: "('d, 'f, 'g) recordEnv \<Rightarrow> ('d, 'f) ledgerDb \<Rightarrow> requestInfo \<Rightarrow> Candidate \<Rightarrow> nat \<Rightarrow> attemptResult \<Rightarrow>
    (record_error option \<times> ('d, 'f) ledgerDb) option" where
  "recordUsage env db rq c n r =
     (case planRecord env rq c r of
        None \<Rightarrow> None
      | Some plan \<Rightarrow>
          (case persist env rq c n r plan db of
             (Some m, ch, db1) \<Rightarrow> Some (Some (RecordFailed m), if inTransaction env plan then db else db1)
           | (None, ch, db1) \<Rightarrow>
               Some (case ch of Refused e \<Rightarrow> Some e | _ \<Rightarrow> None, afterRecord env rq c plan ch db1)))"

subsection \<open>Charged once, with its usage row, or not at all\<close>

lemma failedBill_free:
  "failedUsageBilling ops details = (cost, failed) \<Longrightarrow> cost = dZero ops \<and>
     (\<forall>b. failed = Some b \<longrightarrow> \<not> bbCharged b \<and> (\<forall>i \<in> set (bbItems b). itAmount i = ''0''))"
  by (auto simp: failedUsageBilling_def FailureCost_def NewFailedBillingDetails_def split: option.splits if_splits)

lemma cacheEstimate_uncharged: "cacheEstimate env s m ep t a f = Some b \<Longrightarrow> \<not> bbCharged b"
proof -
  have est: "estimateFor env f t r = Some b' \<Longrightarrow> \<not> bbCharged b'" for r b'
    by (auto simp: estimateFor_def EstimateFailureBreakdown_def EstimateBreakdown_def estimateBreakdown_def settleBill_def Let_def split: if_splits)
  have rule: "firstRule env f cur ep t a rs = Some b' \<Longrightarrow> \<not> bbCharged b'" for cur rs b'
  proof -
    assume "firstRule env f cur ep t a rs = Some b'"
    from firstRule_Some [OF this] obtain b0 c rt src where
      "RuleBreakdown env f c rt ep t a = Some b0" "bbCharged b' = bbCharged b0" by auto
    then show ?thesis
      using est [of "rulePriceRates (peJson env) rt" b0] by (auto simp: RuleBreakdown_def estimateFor_def split: if_splits)
  qed
  show "cacheEstimate env s m ep t a f = Some b \<Longrightarrow> \<not> bbCharged b"
    using est rule by (auto simp: cacheEstimate_def split: option.splits if_splits)
qed

definition rowCharged :: "'d RecordInput \<Rightarrow> bool" where
  "rowCharged row = (case riBillingDetails row of None \<Rightarrow> False | Some b \<Rightarrow> bbCharged b)"

lemma planRecord_uncharged:
  assumes "planRecord env rq c r = Some plan" "rpDetails plan = Some b"
  shows "\<not> bbCharged b"
proof -
  obtain fc fd where failed: "failedUsageBilling (peDecimal (rePrices env)) (reBreakdown env rq c r True) = (fc, fd)" by fastforce
  show ?thesis
    using assms failed failedBill_free [OF failed]
    by (auto simp: planRecord_def Let_def reBreakdown_def split: option.splits prod.splits if_splits dest: cacheEstimate_uncharged)
qed

lemma planRecord_billable:
  "planRecord env rq c r = Some plan \<Longrightarrow> rpBillable plan \<longleftrightarrow> 200 \<le> status r \<and> status r < 300 \<and> \<not> streamTruncated (rqStream rq) r"
  "planRecord env rq c r = Some plan \<Longrightarrow> rpOwn plan \<longleftrightarrow> CreatedByUserID c \<noteq> 0 \<and> CreatedByUserID c = keyUserId (rqKey rq)"
  by (auto simp: planRecord_def Let_def split: option.splits prod.splits)

lemma planRecord_chargeable:
  "planRecord env rq c r = Some plan \<Longrightarrow> rpBillable plan \<Longrightarrow> rpChargeable plan \<Longrightarrow> rpDetails plan \<noteq> None \<and> rpCost plan \<noteq> None"
  by (auto simp: planRecord_def Let_def pricedUsageCost_def split: option.splits prod.splits if_splits)

lemma Record_cases:
  "Record faults db input = (ok, db') \<Longrightarrow>
     (if ok then riRequestID input \<notin> logIds db \<and> (\<exists>msg. db' = db\<lparr>ldLogs := ldLogs db @ [input\<lparr>riErrorMessage := msg\<rparr>]\<rparr>) else db' = db)"
  by (auto simp: Record_def logIds_def split: if_splits)

lemma debit_logs [simp]: "ldLogs (snd (debit ops faults db uid amount allow)) = ldLogs db"
  "ldKeys (snd (debit ops faults db uid amount allow)) = ldKeys db"
  by (simp_all add: debit_def Let_def split: option.split)

lemma debit_failed: "debit ops faults db uid amount allow = (Some e, db') \<Longrightarrow> db' = db"
  by (auto simp: debit_def Let_def split: if_splits option.splits)

lemma addSpend_keeps [simp]: "ldLogs (snd (addSpend fl faults db k amount day)) = ldLogs db"
  "ldBalances (snd (addSpend fl faults db k amount day)) = ldBalances db"
  by (simp_all add: addSpend_def split: option.split)

lemma ledger_logs:
  "debit ops faults db uid amount allow = (e, db') \<Longrightarrow> ldLogs db' = ldLogs db"
  "addSpend fl faults db k x day = (ok, db') \<Longrightarrow> ldLogs db' = ldLogs db"
  by (metis debit_logs(1) snd_conv) (metis addSpend_keeps(1) snd_conv)

text \<open>\<open>chargeUser\<close> on each of its ways.\<close>

lemma chargeUser_cases:
  assumes "chargeUser env rq chargeable own cost db = (ch, db1)"
  shows "ldLogs db1 = ldLogs db"
    "ch = Uncharged \<or> (\<exists>e. ch = Refused e) \<Longrightarrow> db1 = db"
    "ch = Charged \<Longrightarrow> chargeable \<and> \<not> own \<and> (\<exists>amount. cost = Some amount \<and>
       fst (Debit (peDecimal (rePrices env)) (reFaults env) db (keyUserId (rqKey rq)) amount) = None \<and>
       ldBalances db1 = ldBalances (snd (Debit (peDecimal (rePrices env)) (reFaults env) db (keyUserId (rqKey rq)) amount)) \<and>
       ldKeys db1 = ldKeys (snd (addSpend (reFloats env) (reFaults env) db (keyId (rqKey rq))
          (dToFloat (peDecimal (rePrices env)) amount) (reToday env))))"
proof -
  let ?ops = "peDecimal (rePrices env)"
  have keys: "ldKeys (snd (addSpend fl f d1 k x day)) = ldKeys (snd (addSpend fl f d2 k x day))"
    if "ldKeys d1 = ldKeys d2" for fl f d1 d2 k x day
    using that by (simp add: addSpend_def split: option.split)
  note split = chargeUser_def Let_def Debit_def
  show "ldLogs db1 = ldLogs db"
    using assms by (auto simp: split split: option.splits if_splits prod.splits debit_error.splits bool.splits dest!: ledger_logs)
  show "ch = Uncharged \<or> (\<exists>e. ch = Refused e) \<Longrightarrow> db1 = db"
    using assms by (auto simp: split split: option.splits if_splits prod.splits debit_error.splits bool.splits dest: debit_failed)
  assume "ch = Charged"
  with assms obtain amount d1 where c: "chargeable" "\<not> own" "cost = Some amount"
    "debit ?ops (reFaults env) db (keyUserId (rqKey rq)) amount False = (None, d1)"
    "addSpend (reFloats env) (reFaults env) d1 (keyId (rqKey rq)) (dToFloat ?ops amount) (reToday env) = (True, db1)"
    by (auto simp: split split: option.splits if_splits prod.splits debit_error.splits bool.splits)
  have d1: "ldKeys d1 = ldKeys db" using debit_logs(2) [of ?ops "reFaults env" db "keyUserId (rqKey rq)" amount False] c(4) by simp
  have "ldBalances db1 = ldBalances d1" using addSpend_keeps(2) c(5) by (metis snd_conv)
  moreover have "ldKeys db1 = ldKeys (snd (addSpend (reFloats env) (reFaults env) db (keyId (rqKey rq)) (dToFloat ?ops amount) (reToday env)))"
    using keys [OF d1] c(5) by (metis snd_conv)
  ultimately show "chargeable \<and> \<not> own \<and> (\<exists>amount. cost = Some amount \<and>
       fst (Debit ?ops (reFaults env) db (keyUserId (rqKey rq)) amount) = None \<and>
       ldBalances db1 = ldBalances (snd (Debit ?ops (reFaults env) db (keyUserId (rqKey rq)) amount)) \<and>
       ldKeys db1 = ldKeys (snd (addSpend (reFloats env) (reFaults env) db (keyId (rqKey rq)) (dToFloat ?ops amount) (reToday env))))"
    using c by (simp add: Debit_def)
qed

lemma chargeUser_same:
  "chargeUser env rq chargeable own cost db = (Uncharged, db1) \<Longrightarrow> db1 = db"
  "chargeUser env rq chargeable own cost db = (Refused e, db1) \<Longrightarrow> db1 = db"
  using chargeUser_cases(2) by blast+

text \<open>Outside the transaction nothing but the row can change: an amount that is not positive debits and spends nothing.\<close>

lemma chargeUser_outside:
  assumes "chargeUser env rq (rpChargeable plan) (rpOwn plan) (rpCost plan) db = (ch, db1)" "rpBillable plan" "\<not> inTransaction env plan"
    and float: "\<And>d. dLe (peDecimal (rePrices env)) d (dZero (peDecimal (rePrices env))) \<Longrightarrow>
      fLe (reFloats env) (dToFloat (peDecimal (rePrices env)) d) (fZero (reFloats env))"
  shows "db1 = db"
  using assms(1-3) float
  by (auto simp: chargeUser_def inTransaction_def Debit_def debit_def addSpend_def Let_def split: option.splits if_splits)

lemma afterRecord_keeps [simp]:
  "ldLogs (afterRecord env rq c plan ch db) = ldLogs db" "ldBalances (afterRecord env rq c plan ch db) = ldBalances db"
  "ldKeys (afterRecord env rq c plan ch db) = ldKeys db"
  by (simp_all add: afterRecord_def Let_def split: option.split)

lemma persistRow_cases:
  assumes "persistRow env rq c n r st err cost details db = (ok, db')"
  shows "if ok then rqID rq \<notin> logIds db \<and> (\<exists>row. db' = db\<lparr>ldLogs := ldLogs db @ [row]\<rparr> \<and> riRequestID row = rqID rq \<and>
      riEstimatedCost row = cost \<and> riBillingDetails row = details \<and> riHTTPStatus row = st) else db' = db"
  using Record_cases [OF assms [unfolded persistRow_def]] by (auto split: if_splits)

text \<open>What one accounting can do to the database.\<close>

definition recordedAtomically :: "('d, 'f, 'g) recordEnv \<Rightarrow> ('d, 'f) ledgerDb \<Rightarrow> requestInfo \<Rightarrow> Candidate \<Rightarrow> attemptResult \<Rightarrow>
    record_error option \<Rightarrow> ('d, 'f) ledgerDb \<Rightarrow> bool" where
  "recordedAtomically env db rq c r e db' \<longleftrightarrow>
     (db' = db \<and> (\<exists>m. e = Some (RecordFailed m))) \<or>
     (\<exists>row. ldLogs db' = ldLogs db @ [row] \<and> riRequestID row = rqID rq \<and> rqID rq \<notin> logIds db \<and>
        (if rowCharged row
         then e = None \<and> 200 \<le> status r \<and> status r < 300 \<and> \<not> streamTruncated (rqStream rq) r \<and>
           \<not> (CreatedByUserID c \<noteq> 0 \<and> CreatedByUserID c = keyUserId (rqKey rq)) \<and>
           (\<exists>cost. riEstimatedCost row = Some cost \<and>
              fst (Debit (peDecimal (rePrices env)) (reFaults env) db (keyUserId (rqKey rq)) cost) = None \<and>
              ldBalances db' = ldBalances (snd (Debit (peDecimal (rePrices env)) (reFaults env) db (keyUserId (rqKey rq)) cost)) \<and>
              ldKeys db' = ldKeys (snd (addSpend (reFloats env) (reFaults env) db (keyId (rqKey rq))
                 (dToFloat (peDecimal (rePrices env)) cost) (reToday env))))
         else ldBalances db' = ldBalances db \<and> ldKeys db' = ldKeys db))"

lemma persist_recorded:
  assumes plan: "planRecord env rq c r = Some plan" and run: "persist env rq c n r plan db = (None, ch, db1)"
  shows "recordedAtomically env db rq c r (case ch of Refused e \<Rightarrow> Some e | _ \<Rightarrow> None) db1"
proof -
  obtain ch0 db0 where charge: "(if rpBillable plan then chargeUser env rq (rpChargeable plan) (rpOwn plan) (rpCost plan) db else (Uncharged, db)) = (ch0, db0)"
    by fastforce
  have logs0: "ldLogs db0 = ldLogs db" using charge chargeUser_cases(1) by (auto split: if_splits)
  show ?thesis
  proof (cases ch0)
    case Uncharged
    have db0: "db0 = db" using charge Uncharged by (auto split: if_splits dest: chargeUser_same)
    from run charge Uncharged obtain db2 where
      saved: "persistRow env rq c n r (rpStatus plan) (rpError plan) (rpCost plan) (rpDetails plan) db0 = (True, db2)" "db1 = db2" "ch = Uncharged"
      by (auto simp: persist_def Let_def split: prod.splits if_splits)
    with persistRow_cases [OF saved(1)] planRecord_uncharged [OF plan] db0 show ?thesis
      by (auto simp: recordedAtomically_def rowCharged_def split: option.split)
  next
    case Charged
    from charge Charged have b: "rpBillable plan" and charge': "chargeUser env rq (rpChargeable plan) (rpOwn plan) (rpCost plan) db = (Charged, db0)"
      by (auto split: if_splits)
    from chargeUser_cases(3) [OF charge'] obtain amount where amount: "rpChargeable plan" "\<not> rpOwn plan" "rpCost plan = Some amount"
      "fst (Debit (peDecimal (rePrices env)) (reFaults env) db (keyUserId (rqKey rq)) amount) = None"
      "ldBalances db0 = ldBalances (snd (Debit (peDecimal (rePrices env)) (reFaults env) db (keyUserId (rqKey rq)) amount))"
      "ldKeys db0 = ldKeys (snd (addSpend (reFloats env) (reFaults env) db (keyId (rqKey rq)) (dToFloat (peDecimal (rePrices env)) amount) (reToday env)))"
      by blast
    obtain b0 where b0: "rpDetails plan = Some b0" using planRecord_chargeable [OF plan b amount(1)] by blast
    from run charge Charged obtain db2 where
      saved: "persistRow env rq c n r (rpStatus plan) (rpError plan) (rpCost plan) (map_option (\<lambda>b. b\<lparr>bbCharged := True\<rparr>) (rpDetails plan)) db0 = (True, db2)"
        "db1 = db2" "ch = Charged"
      by (auto simp: persist_def Let_def split: prod.splits if_splits)
    obtain row where row: "rqID rq \<notin> logIds db0" "db2 = db0\<lparr>ldLogs := ldLogs db0 @ [row]\<rparr>" "riRequestID row = rqID rq"
      "riEstimatedCost row = Some amount" "riBillingDetails row = Some (b0\<lparr>bbCharged := True\<rparr>)"
      using persistRow_cases [OF saved(1)] b0 amount(3) by auto
    have "rowCharged row" using row(5) by (simp add: rowCharged_def)
    with row saved logs0 amount planRecord_billable [OF plan] b show ?thesis
      by (auto simp: recordedAtomically_def logIds_def intro!: exI [of _ row])
  next
    case (Refused e)
    have db0: "db0 = db" using charge Refused by (auto split: if_splits dest: chargeUser_same)
    from run charge Refused obtain db2 where
      saved: "persistRow env rq c n r 402 (recordErrorText e) (rpCost plan) (rpDetails plan) db0 = (True, db2)" "db1 = db2" "ch = Refused e"
      by (auto simp: persist_def Let_def split: prod.splits if_splits)
    with persistRow_cases [OF saved(1)] planRecord_uncharged [OF plan] db0 show ?thesis
      by (auto simp: recordedAtomically_def rowCharged_def split: option.split)
  next
    case (ChargeError m)
    with run charge show ?thesis by (simp add: persist_def Let_def)
  qed
qed

lemma persist_failed_outside:
  assumes run: "persist env rq c n r plan db = (Some m, ch, db1)" and outside: "\<not> inTransaction env plan"
    and float: "\<And>d. dLe (peDecimal (rePrices env)) d (dZero (peDecimal (rePrices env))) \<Longrightarrow>
      fLe (reFloats env) (dToFloat (peDecimal (rePrices env)) d) (fZero (reFloats env))"
  shows "db1 = db"
proof -
  obtain ch0 db0 where charge: "(if rpBillable plan then chargeUser env rq (rpChargeable plan) (rpOwn plan) (rpCost plan) db else (Uncharged, db)) = (ch0, db0)"
    by fastforce
  have db0: "db0 = db"
  proof (cases "rpBillable plan")
    case True
    with charge have "chargeUser env rq (rpChargeable plan) (rpOwn plan) (rpCost plan) db = (ch0, db0)" by simp
    from chargeUser_outside [OF this True outside float] show ?thesis by blast
  qed (use charge in simp)
  then show ?thesis using run charge
    by (auto simp: persist_def Let_def split: prod.splits if_splits charge.splits dest!: persistRow_cases)
qed

lemma recordedAtomically_after:
  "recordedAtomically env db rq c r e db1 \<Longrightarrow> ldLogs db1 \<noteq> ldLogs db \<Longrightarrow> recordedAtomically env db rq c r e (afterRecord env rq c plan ch db1)"
  by (auto simp: recordedAtomically_def)

lemma recordUsage_atomic:
  assumes run: "recordUsage env db rq c n r = Some (e, db')"
    and float: "\<And>d. dLe (peDecimal (rePrices env)) d (dZero (peDecimal (rePrices env))) \<Longrightarrow>
      fLe (reFloats env) (dToFloat (peDecimal (rePrices env)) d) (fZero (reFloats env))"
  shows "recordedAtomically env db rq c r e db'"
proof -
  obtain plan where plan: "planRecord env rq c r = Some plan" using run by (auto simp: recordUsage_def split: option.splits)
  obtain m ch db1 where p: "persist env rq c n r plan db = (m, ch, db1)" by (cases "persist env rq c n r plan db") auto
  show ?thesis
  proof (cases m)
    case None
    let ?e = "case ch of Refused e \<Rightarrow> Some e | _ \<Rightarrow> None"
    have rec: "recordedAtomically env db rq c r ?e db1" using persist_recorded [OF plan] p None by simp
    have "e = ?e" "db' = afterRecord env rq c plan ch db1" using run plan p None by (simp_all add: recordUsage_def)
    moreover have "ldLogs db1 \<noteq> ldLogs db"
    proof
      assume "ldLogs db1 = ldLogs db"
      with rec obtain msg where "?e = Some (RecordFailed msg)" by (auto simp: recordedAtomically_def)
      then have "ch = Refused (RecordFailed msg)" by (auto split: charge.splits)
      with p None show False
        by (auto simp: persist_def chargeUser_def Let_def split: prod.splits if_splits option.splits charge.splits debit_error.splits bool.splits)
    qed
    ultimately show ?thesis using recordedAtomically_after [OF rec] by simp
  next
    case (Some msg)
    have "db' = db"
      using run plan p Some persist_failed_outside [OF p [unfolded Some] _ float] by (auto simp: recordUsage_def split: if_splits)
    then show ?thesis using run plan p Some by (auto simp: recordedAtomically_def recordUsage_def)
  qed
qed


lemma recordUsage_duplicate:
  assumes "recordUsage env db rq c n r = Some (e, db')" "rqID rq \<in> logIds db"
    and "\<And>d. dLe (peDecimal (rePrices env)) d (dZero (peDecimal (rePrices env))) \<Longrightarrow>
      fLe (reFloats env) (dToFloat (peDecimal (rePrices env)) d) (fZero (reFloats env))"
  shows "db' = db \<and> (\<exists>m. e = Some (RecordFailed m))"
  using recordUsage_atomic [OF assms(1,3)] assms(2) by (auto simp: recordedAtomically_def)

text \<open>
  a request is charged at most once: accounting for a request id that has a usage row fails
  and changes nothing.
\<close>

theorem request_recorded_once:
  assumes "recordUsage env db rq c n r = Some (e, db')" "rqID rq \<in> logIds db"
    and "\<And>d. dLe (peDecimal (rePrices env)) d (dZero (peDecimal (rePrices env))) \<Longrightarrow>
      fLe (reFloats env) (dToFloat (peDecimal (rePrices env)) d) (fZero (reFloats env))"
  shows "db' = db \<and> (\<exists>m. e = Some (RecordFailed m))"
  using assms by (rule recordUsage_duplicate)

text \<open>
  a result that turns out not to be billable while it is accounted for takes the request id:
  its row is stored, and every later accounting of the same request fails, although \<^verbatim>\<open>Handle\<close> goes on to
  the next key and answers from there.
\<close>

theorem unbillable_row_blocks_retry:
  assumes first: "recordUsage env db rq c n r = Some (Some NotBillable, db1)"
    and later: "recordUsage env' db2 rq c' n' r' = Some (e, db3)" "logIds db1 \<subseteq> logIds db2"
    and float: "\<And>d. dLe (peDecimal (rePrices env)) d (dZero (peDecimal (rePrices env))) \<Longrightarrow>
      fLe (reFloats env) (dToFloat (peDecimal (rePrices env)) d) (fZero (reFloats env))"
    and float': "\<And>d. dLe (peDecimal (rePrices env')) d (dZero (peDecimal (rePrices env'))) \<Longrightarrow>
      fLe (reFloats env') (dToFloat (peDecimal (rePrices env')) d) (fZero (reFloats env'))"
  shows "db3 = db2 \<and> (\<exists>m. e = Some (RecordFailed m))"
proof -
  have "rqID rq \<in> logIds db1"
    using recordUsage_atomic [OF first float] by (auto simp: recordedAtomically_def logIds_def)
  with later(2) have "rqID rq \<in> logIds db2" by blast
  from recordUsage_duplicate [OF later(1) this float'] show ?thesis .
qed

text \<open>
  failures are free: a result that is not a complete success is recorded, if at all, with cost
  zero and items of amount zero, and no balance and no spend changes.
\<close>

lemma planRecord_failed:
  assumes "planRecord env rq c r = Some plan" "\<not> rpBillable plan"
  shows "rpCost plan = Some (dZero (peDecimal (rePrices env)))"
    "rpDetails plan = Some b \<Longrightarrow> i \<in> set (bbItems b) \<Longrightarrow> itAmount i = ''0''"
proof -
  obtain fc fd where failed: "failedUsageBilling (peDecimal (rePrices env)) (reBreakdown env rq c r True) = (fc, fd)" by fastforce
  note free = failedBill_free [OF failed]
  show "rpCost plan = Some (dZero (peDecimal (rePrices env)))"
    using assms failed free by (auto simp: planRecord_def Let_def split: option.splits prod.splits)
  show "rpDetails plan = Some b \<Longrightarrow> i \<in> set (bbItems b) \<Longrightarrow> itAmount i = ''0''"
    using assms failed free by (auto simp: planRecord_def Let_def split: option.splits prod.splits if_splits)
qed

theorem failed_request_is_free:
  assumes run: "recordUsage env db rq c n r = Some (e, db')"
    and bad: "status r < 200 \<or> 300 \<le> status r \<or> streamTruncated (rqStream rq) r"
  shows "ldBalances db' = ldBalances db \<and> ldKeys db' = ldKeys db \<and>
    (\<forall>row. row \<in> set (ldLogs db') - set (ldLogs db) \<longrightarrow> riEstimatedCost row = Some (dZero (peDecimal (rePrices env))) \<and> \<not> rowCharged row \<and>
       (\<forall>b. riBillingDetails row = Some b \<longrightarrow> (\<forall>i \<in> set (bbItems b). itAmount i = ''0'')))"
proof -
  obtain plan where plan: "planRecord env rq c r = Some plan" using run by (auto simp: recordUsage_def split: option.splits)
  have nb: "\<not> rpBillable plan" using planRecord_billable(1) [OF plan] bad by auto
  note zero = planRecord_failed(1) [OF plan nb] and items = planRecord_failed(2) [OF plan nb]
  obtain ok db1 where save: "persistRow env rq c n r (rpStatus plan) (rpError plan) (rpCost plan) (rpDetails plan) db = (ok, db1)" by fastforce
  have db': "ldBalances db' = ldBalances db1 \<and> ldKeys db' = ldKeys db1 \<and> ldLogs db' = ldLogs db1"
    using run plan nb save by (auto simp: recordUsage_def persist_def inTransaction_def Let_def split: if_splits)
  note row = persistRow_cases [OF save]
  show ?thesis
  proof (cases ok)
    case True
    with row obtain x where x: "db1 = db\<lparr>ldLogs := ldLogs db @ [x]\<rparr>" "riEstimatedCost x = rpCost plan" "riBillingDetails x = rpDetails plan" by auto
    moreover from x have "\<not> rowCharged x" using planRecord_uncharged [OF plan] by (auto simp: rowCharged_def split: option.split)
    moreover have "\<forall>b. riBillingDetails x = Some b \<longrightarrow> (\<forall>i \<in> set (bbItems b). itAmount i = ''0'')" using items x(3) by metis
    moreover have "set (ldLogs db') - set (ldLogs db) \<subseteq> {x}" using db' x(1) by auto
    ultimately show ?thesis using db' zero by (metis (no_types, lifting) ledgerDb.select_convs(1,2) ledgerDb.surjective ledgerDb.update_convs(3) singletonD subsetD)
  next
    case False
    with row db' show ?thesis by auto
  qed
qed

lemma places8_diff: "places8 x \<Longrightarrow> places8 y \<Longrightarrow> places8 (x - y)"
  unfolding places8_def by (metis diff_divide_distrib of_int_diff)

lemma places8_close:
  assumes "places8 x" "places8 y" "\<bar>x - y\<bar> \<le> 1 / (2 * 10 ^ 8)"
  shows "x = y"
proof -
  obtain j k :: int where jk: "x = of_int j / 10 ^ 8" "y = of_int k / 10 ^ 8" using assms by (auto simp: places8_def)
  then have "x - y = (of_int j - of_int k) / 10 ^ 8" by (simp add: diff_divide_distrib)
  with assms(3) have "\<bar>of_int j - of_int k\<bar> / 10 ^ 8 \<le> 1 / (2 * 10 ^ 8 :: rat)" by (simp add: abs_divide)
  then have "\<bar>of_int j - of_int k\<bar> \<le> (1 / 2 :: rat)" by (simp add: field_simps)
  then have "of_int \<bar>j - k\<bar> < (1 :: rat)" by simp
  then have "\<bar>j - k\<bar> < 1" by linarith
  then show ?thesis using jk by simp
qed

lemma round8_same: "decimalLaws ops val \<Longrightarrow> places8 (val d) \<Longrightarrow> val (dRound8 ops d) = val d"
  by (rule places8_close [OF decimalLawsD(6) _ decimalLawsD(7)])

text \<open>
  a debit takes exactly its amount, rounded to eight places: the new balance is the old one less the
  amount, no other balance changes, and unless debts are allowed it is refused when the balance is
  smaller and never leaves a negative balance.
\<close>

theorem debit_exact:
  assumes laws: "decimalLaws ops val" and pos: "0 < val amount" "0 < val (dRound8 ops amount)"
    and stored: "ldBalances db uid = Some stored" and ok: "\<not> failLock faults" "\<not> failUpdate faults"
    and exact: "\<And>d. places8 (val d) \<Longrightarrow> \<bar>val d\<bar> \<le> 10 ^ 7 \<Longrightarrow> val (dOfFloat ops (dToFloat ops d)) = val d"
    and range: "\<bar>val (dOfFloat ops stored) - val (dRound8 ops amount)\<bar> < 10 ^ 7" and places: "places8 (val (dOfFloat ops stored))"
  shows "case debit ops faults db uid amount allowDebt of
      (e, db') \<Rightarrow>
        if \<not> allowDebt \<and> val (dRound8 ops (dOfFloat ops stored)) < val (dRound8 ops amount) then e = Some DebitInsufficient \<and> db' = db
        else e = None \<and> (\<exists>stored'. ldBalances db' = (ldBalances db)(uid \<mapsto> stored') \<and>
          val (dOfFloat ops stored') = val (dRound8 ops (dOfFloat ops stored)) - val (dRound8 ops amount) \<and>
          (\<not> allowDebt \<longrightarrow> 0 \<le> val (dOfFloat ops stored')))"
proof -
  note D = decimalLawsD [OF laws]
  let ?amount = "dRound8 ops amount" and ?balance = "dRound8 ops (dOfFloat ops stored)"
  let ?left = "dRound8 ops (dSub ops ?balance ?amount)"
  have pos': "\<not> dLe ops amount (dZero ops)" "\<not> dLe ops ?amount (dZero ops)" using pos by (simp_all add: D(1,13))
  have balance: "val ?balance = val (dOfFloat ops stored)" by (rule round8_same [OF laws places])
  have "places8 (val ?balance - val ?amount)" by (rule places8_diff) (rule D(6))+
  then have left: "val ?left = val ?balance - val ?amount" using round8_same [OF laws, of "dSub ops ?balance ?amount"] by (simp add: D(3))
  have "val (dOfFloat ops (dToFloat ops ?left)) = val ?left"
    by (rule exact [OF D(6)]) (use range left balance in simp)
  with left have new: "val (dOfFloat ops (dToFloat ops ?left)) = val ?balance - val ?amount" by simp
  show ?thesis
    using pos' stored ok new by (auto simp: debit_def Let_def D(13) not_less intro!: exI [of _ "dToFloat ops ?left"])
qed

subsection \<open>Examples\<close>

definition ratFloats :: "rat floatOps" where
  "ratFloats = \<lparr>fAdd = (+), fSub = (-), fZero = 0, fLe = (\<le>)\<rparr>"

definition noFaults :: dbFaults where
  "noFaults = \<lparr>failLock = False, failUpdate = False, failSpend = False, failInsert = False, failChannelCost = False\<rparr>"

definition exampleRecordEnv :: "rat priceTables \<Rightarrow> (rat, rat, json option) recordEnv" where
  "exampleRecordEnv t = \<lparr>rePrices = examplePriceEnv, reSnapshot = fst (Load t Map.empty), reFloats = ratFloats, reFaults = noFaults,
     reToday = 20000, reHealthScore = \<lambda>_. None, reFailureLog = \<lambda>r st m stream n d. m, reDurationMs = 7,
     reHasChannels = True, reHasMail = True\<rparr>"

definition exampleRequest :: requestInfo where
  "exampleRequest = \<lparr>rqID = ''q1'', rqKey = exampleKey, rqEndpoint = ''/e'', rqModel = ''m'', rqStream = False, rqStartedAt = 0\<rparr>"

definition exampleLedger :: "(rat, rat) ledgerDb" where
  "exampleLedger = \<lparr>ldBalances = [3 \<mapsto> 10], ldKeys = [1 \<mapsto> \<lparr>akSpent = 4, akDailySpent = 2, akDailyDate = Some 20000\<rparr>],
     ldLogs = [], ldChannelCosts = [], ldMails = []\<rparr>"

definition exampleResult :: attemptResult where
  "exampleResult = zeroResult\<lparr>status := 200, body := ''ok'', resTokens := exampleTokens\<rparr>"

lemma exampleFloats:
  "dLe (peDecimal (rePrices (exampleRecordEnv t))) d (dZero (peDecimal (rePrices (exampleRecordEnv t)))) \<Longrightarrow>
     fLe (reFloats (exampleRecordEnv t)) (dToFloat (peDecimal (rePrices (exampleRecordEnv t))) d) (fZero (reFloats (exampleRecordEnv t)))"
  by (simp add: exampleRecordEnv_def examplePriceEnv_def ratFloats_def ratOps_def)

lemma settleBill_cost: "billCost ratOps (Some (settleBill ratOps bill)) = None \<Longrightarrow> False"
proof -
  obtain t where "bbTotal (settleBill ratOps bill) = ratText t" by (auto simp: settleBill_def Let_def ratOps_def)
  then show "billCost ratOps (Some (settleBill ratOps bill)) = None \<Longrightarrow> False"
    by (simp add: billCost_def ratOps_def ratParse_ratText split: if_splits)
qed

text \<open>With token prices every accounting of the example comes to an end.\<close>

lemma exampleRecord_runs:
  "\<exists>e db'. recordUsage (exampleRecordEnv (exampleTables ''token'' None [])) db exampleRequest (exampleCandidate 10 7 5 3 100) 1 r = Some (e, db')"
proof -
  have "cacheEstimate examplePriceEnv (fst (Load (exampleTables ''token'' None []) Map.empty)) ''m'' ep tk a f = Some b \<Longrightarrow>
      billCost ratOps (Some b) = None \<Longrightarrow> False" for ep tk a f b
    by (auto simp: cacheEstimate_def exampleLoad estimateFor_def EstimateFailureBreakdown_def EstimateBreakdown_def estimateBreakdown_def
        examplePriceEnv_def Let_def split: if_splits dest: settleBill_cost)
  then have "planRecord (exampleRecordEnv (exampleTables ''token'' None [])) exampleRequest (exampleCandidate 10 7 5 3 100) r = None \<Longrightarrow> False"
    by (auto simp: planRecord_def Let_def reBreakdown_def pricedUsageCost_def exampleRecordEnv_def
        exampleCandidate_def newCandidate_def exampleModelRow_def split: option.splits if_splits simp flip: not_None_eq) (auto simp: examplePriceEnv_def)
  then show ?thesis by (auto simp: recordUsage_def split: option.splits prod.splits)
qed


definition exampleRow :: "rat RecordInput" where
  "exampleRow = \<lparr>riRequestID = ''q1'', riUserID = 3, riAPIKeyID = 1, riChannelID = 7, riChannelCredentialID = 5, riEndpoint = ''/e'',
     riUpstreamEndpoint = ''/e'', riProtocolConversion = [], riRequestedModel = ''m'', riUpstreamModel = ''up'', riReasoningEffort = [],
     riHealthScore = None, riHTTPStatus = 402, riStream = False, riTokens = noTokens, riEstimatedCost = None, riBillingDetails = None,
     riDurationMs = 7, riFirstTokenMs = None, riAttempts = 1, riAttemptFlow = [], riErrorMessage = []\<rparr>"

theorem request_recorded_once_witness:
  "\<exists>e. recordUsage (exampleRecordEnv (exampleTables ''token'' None [])) (exampleLedger\<lparr>ldLogs := [exampleRow]\<rparr>) exampleRequest
      (exampleCandidate 10 7 5 3 100) 1 exampleResult = Some (Some (RecordFailed e), exampleLedger\<lparr>ldLogs := [exampleRow]\<rparr>)"
proof -
  let ?db = "exampleLedger\<lparr>ldLogs := [exampleRow]\<rparr>"
  from exampleRecord_runs obtain e db' where run: "recordUsage (exampleRecordEnv (exampleTables ''token'' None [])) ?db exampleRequest
      (exampleCandidate 10 7 5 3 100) 1 exampleResult = Some (e, db')" by blast
  have dup: "rqID exampleRequest \<in> logIds ?db" by (simp add: logIds_def exampleRequest_def exampleRow_def)
  from request_recorded_once [OF run dup exampleFloats] run show ?thesis by auto
qed

text \<open>A model priced by a rule that does not match at the start of the request: priced, and not billable.\<close>

lemma exampleUnbillable:
  "\<exists>db1. recordUsage (exampleRecordEnv (exampleTables ''rules'' None [(exampleRule 4 ''manual'')\<lparr>mrRates := []\<rparr>])) exampleLedger
     exampleRequest (exampleCandidate 10 7 5 3 100) 1 exampleResult = Some (Some NotBillable, db1)"
proof -
  let ?r = "(exampleRule 4 ''manual'')\<lparr>mrRates := []\<rparr>"
  let ?env = "exampleRecordEnv (exampleTables ''rules'' None [?r])" and ?c = "exampleCandidate 10 7 5 3 100"
  have snapshot: "reSnapshot ?env ''m'' = Some \<lparr>cpMode = ''rules'', cpRates = exampleRates\<lparr>prRequest := None\<rparr>, cpRules = [?r]\<rparr>"
    by (simp add: exampleRecordEnv_def Load_def Let_def exampleTables_def normalizeBillingMode_def sliceStable_def insertBack_def exampleRule_def)
  have rule: "RuleBreakdown examplePriceEnv f (mrConditions ?r) [] ep tk a = None" for f ep tk a
  proof -
    have "rulePriceRates exampleJson [] = noRates"
      by (simp add: rulePriceRates_def Let_def priceRate_def exampleJson_def noRates_def)
    then show ?thesis
      by (simp add: RuleBreakdown_def EstimateFailureBreakdown_def EstimateBreakdown_def estimateBreakdown_def Let_def runBill_unpriced noRates_def examplePriceEnv_def)
  qed
  have "reBreakdown ?env exampleRequest ?c exampleResult f = None" for f
    using rule by (simp add: reBreakdown_def cacheEstimate_def snapshot exampleCandidate_def newCandidate_def exampleModelRow_def)
      (simp add: exampleRecordEnv_def)
  moreover have "IsPriced (reSnapshot ?env) (PublicName ?c)"
    by (simp add: IsPriced_def snapshot exampleCandidate_def newCandidate_def exampleModelRow_def)
  ultimately have "planRecord ?env exampleRequest ?c exampleResult = Some \<lparr>rpBillable = True, rpChargeable = False, rpOwn = rpOwn
      (the (planRecord ?env exampleRequest ?c exampleResult)), rpStatus = 200, rpError = [], rpCost = None, rpDetails = None\<rparr>"
    by (simp add: planRecord_def Let_def pricedUsageCost_def exampleResult_def zeroResult_def streamTruncated_def)
  then obtain own where plan: "planRecord ?env exampleRequest ?c exampleResult = Some \<lparr>rpBillable = True, rpChargeable = False, rpOwn = own,
      rpStatus = 200, rpError = [], rpCost = None, rpDetails = None\<rparr>" by blast
  have free: "rqID exampleRequest \<notin> riRequestID ` set (ldLogs exampleLedger)" "\<not> failInsert (reFaults ?env)"
    by (simp_all add: exampleLedger_def exampleRecordEnv_def noFaults_def)
  show ?thesis
    using plan free by (simp add: recordUsage_def persist_def chargeUser_def persistRow_def Record_def Let_def)
qed

theorem unbillable_row_blocks_retry_witness:
  "\<exists>db1 m. recordUsage (exampleRecordEnv (exampleTables ''rules'' None [(exampleRule 4 ''manual'')\<lparr>mrRates := []\<rparr>])) exampleLedger
       exampleRequest (exampleCandidate 10 7 5 3 100) 1 exampleResult = Some (Some NotBillable, db1) \<and>
     recordUsage (exampleRecordEnv (exampleTables ''token'' None [])) db1 exampleRequest (exampleCandidate 10 7 5 3 100) 1 exampleResult =
       Some (Some (RecordFailed m), db1)"
proof -
  from exampleUnbillable obtain db1 where first: "recordUsage (exampleRecordEnv (exampleTables ''rules'' None [(exampleRule 4 ''manual'')\<lparr>mrRates := []\<rparr>]))
      exampleLedger exampleRequest (exampleCandidate 10 7 5 3 100) 1 exampleResult = Some (Some NotBillable, db1)" by blast
  from exampleRecord_runs obtain e db3 where later: "recordUsage (exampleRecordEnv (exampleTables ''token'' None [])) db1 exampleRequest
      (exampleCandidate 10 7 5 3 100) 1 exampleResult = Some (e, db3)" by blast
  from unbillable_row_blocks_retry [OF first later order.refl exampleFloats exampleFloats] first later show ?thesis by auto
qed

theorem failed_request_is_free_witness:
  "\<exists>e db'. recordUsage (exampleRecordEnv (exampleTables ''token'' None [])) exampleLedger exampleRequest (exampleCandidate 10 7 5 3 100) 1
      (zeroResult\<lparr>status := 503\<rparr>) = Some (e, db') \<and> ldBalances db' = ldBalances exampleLedger \<and> ldKeys db' = ldKeys exampleLedger"
proof -
  from exampleRecord_runs obtain e db' where run: "recordUsage (exampleRecordEnv (exampleTables ''token'' None [])) exampleLedger exampleRequest
      (exampleCandidate 10 7 5 3 100) 1 (zeroResult\<lparr>status := 503\<rparr>) = Some (e, db')" by blast
  from failed_request_is_free [OF run] run show ?thesis by simp
qed

theorem debit_exact_witness:
  "case debit ratOps noFaults exampleLedger 3 (5 / 2) False of
     (e, db') \<Rightarrow>
       if \<not> False \<and> dRound8 ratOps 10 < dRound8 ratOps (5 / 2) then e = Some DebitInsufficient \<and> db' = exampleLedger
       else e = None \<and> (\<exists>stored'. ldBalances db' = (ldBalances exampleLedger)(3 \<mapsto> stored') \<and>
         stored' = dRound8 ratOps 10 - dRound8 ratOps (5 / 2) \<and> (\<not> False \<longrightarrow> 0 \<le> stored'))"
proof -
  have r: "round (250000000 :: rat) = 250000000" "round (1000000000 :: rat) = 1000000000" by simp_all
  have "places8 10" unfolding places8_def by (rule exI [of _ "1000000000"]) simp
  with debit_exact [OF ratOps_laws, of "5 / 2" exampleLedger 3 10 noFaults False] show ?thesis
    by (simp add: ratOps_def exampleLedger_def noFaults_def r)
qed

end
