(* ===== verification/Usage_Wire.thy ===== *)
theory Usage_Wire
  imports Relay_Billing
begin

text \<open>
  The usage rows that a worker node sends to the master
  (\<^verbatim>\<open>internal/logic/cluster/usage_validate.go\<close>, and \<^verbatim>\<open>usageCostOf\<close> and \<^verbatim>\<open>uintValueOf\<close> of
  \<^verbatim>\<open>usage_ingest.go\<close>): what the master accepts of a batch, and the columns it writes.

  A row is a Go map from column names to values of type \<^verbatim>\<open>any\<close>; it is given here by its fields in the
  order in which the loop over the map meets them, which Go leaves open.
\<close>

subsection \<open>Values\<close>

datatype goFloat = FNaN | FInf | FFin rat

datatype goIntKind = Kint | Kint32 | Kint64 | Kuint | Kuint32 | Kuint64

datatype 't goValue =
    GNil
  | GNumber string
  | GString string
  | GInt goIntKind int
  | GIntPtr "int option"
  | GFloat goFloat
  | GTime 't
  | GOther

datatype 't cleanValue = CText string | CNum nat | CTime 't

type_synonym 't wireRow = "(string \<times> 't goValue) list"
type_synonym 't cleanRow = "string \<Rightarrow> 't cleanValue option"

datatype usage_error =
    BadString string
  | TooLarge string
  | BadInteger string
  | BadCostType | BadCostFormat | BadCostExponent | BadCostRange
  | BadCreatedAt | BadCreatedAtRange
  | Forbidden string
  | BadRequestID
  | MissingIdentity string
  | BadDetailsType | BadDetails | BadCharged
  | MissingCost
  | BadBatchID
  | TooManyRows

text \<open>
  What the definitions take from outside: decimals, the reading of a JSON text, times with their parser and
  calendar year, and the shortest text of a finite float.
\<close>

record ('d, 'f, 't) usageEnv =
  ueDecimal :: "('d, 'f) decimalOps"
  ueTree :: "string \<Rightarrow> json option"
  ueParseTime :: "string \<Rightarrow> 't option"
  ueYear :: "'t \<Rightarrow> int"
  ueFloatText :: "rat \<Rightarrow> string"

subsection \<open>UTF-8\<close>

text \<open>\<^verbatim>\<open>utf8.ValidString\<close> and \<^verbatim>\<open>utf8.RuneCountInString\<close> in one walk: None for a string that is not valid.\<close>

definition byteIn :: "nat \<Rightarrow> nat \<Rightarrow> char \<Rightarrow> bool" where
  "byteIn lo hi c = (let n = of_char c :: nat in lo \<le> n \<and> n \<le> hi)"

abbreviation contByte :: "char \<Rightarrow> bool" where "contByte \<equiv> byteIn 0x80 0xBF"

text \<open>The accepted range of the second byte and the number of bytes, by the first byte.\<close>

definition runeLead :: "char \<Rightarrow> (nat \<times> nat \<times> nat) option" where
  "runeLead c =
     (if byteIn 0xC2 0xDF c then Some (2, 0x80, 0xBF)
      else if byteIn 0xE0 0xE0 c then Some (3, 0xA0, 0xBF)
      else if byteIn 0xE1 0xEC c \<or> byteIn 0xEE 0xEF c then Some (3, 0x80, 0xBF)
      else if byteIn 0xED 0xED c then Some (3, 0x80, 0x9F)
      else if byteIn 0xF0 0xF0 c then Some (4, 0x90, 0xBF)
      else if byteIn 0xF1 0xF3 c then Some (4, 0x80, 0xBF)
      else if byteIn 0xF4 0xF4 c then Some (4, 0x80, 0x8F)
      else None)"

fun utf8Count :: "string \<Rightarrow> nat option" where
  "utf8Count [] = Some 0"
| "utf8Count (c # cs) =
     (if byteIn 0 0x7F c then map_option Suc (utf8Count cs)
      else case runeLead c of
             None \<Rightarrow> None
           | Some (n, lo, hi) \<Rightarrow>
               if length cs < n - 1 \<or> \<not> byteIn lo hi (hd cs) \<or> \<not> list_all contByte (take (n - 2) (tl cs)) then None
               else map_option Suc (utf8Count (drop (n - 1) cs)))"

subsection \<open>The columns\<close>

definition usageBatchMaxRows :: nat where "usageBatchMaxRows = 1000"

definition usageStringLimits :: "(string \<times> nat) list" where
  "usageStringLimits =
     [(''request_id'', 64), (''endpoint'', 64), (''upstream_endpoint'', 64), (''protocol_conversion'', 64), (''client_ip'', 45),
      (''ip_location'', 255), (''requested_model'', 191), (''upstream_model'', 191), (''reasoning_effort'', 32),
      (''billing_details_json'', 65535), (''attempt_flow_json'', 65535), (''error_message'', 1024)]"

definition maxInt64 :: nat where "maxInt64 = 2 ^ 63 - 1"

definition usageIntegerLimits :: "(string \<times> nat) list" where
  "usageIntegerLimits =
     [(''user_id'', maxInt64), (''api_key_id'', maxInt64), (''channel_id'', maxInt64), (''channel_credential_id'', maxInt64),
      (''http_status'', 65535), (''is_stream'', 1), (''attempts'', 255), (''input_tokens'', maxInt64),
      (''cached_input_tokens'', maxInt64), (''output_tokens'', maxInt64), (''total_tokens'', maxInt64), (''duration_ms'', maxInt64),
      (''first_token_ms'', maxInt64), (''health_score_at_request'', 100)]"

subsection \<open>Single values\<close>

definition identityChar :: "char \<Rightarrow> bool" where
  "identityChar c \<longleftrightarrow> byteIn 97 122 c \<or> byteIn 65 90 c \<or> isDigit c \<or> c \<in> set ''-_.:''"

definition usageIdentity :: "string \<Rightarrow> nat \<Rightarrow> bool" where
  "usageIdentity s limit = (s \<noteq> [] \<and> length s \<le> limit \<and> list_all identityChar s)"

text \<open>\<^verbatim>\<open>usageUint\<close>; a finite float must be an integer from 0 to \<open>2 ^ 53\<close>. None is any of its errors.\<close>

definition floatUintText :: "goFloat \<Rightarrow> string option" where
  "floatUintText x =
     (case x of
        FFin q \<Rightarrow> if q < 0 \<or> 2 ^ 53 < q \<or> of_int \<lfloor>q\<rfloor> \<noteq> q then None else Some (showInt \<lfloor>q\<rfloor>)
      | _ \<Rightarrow> None)"

definition usageUint :: "'t goValue \<Rightarrow> nat option" where
  "usageUint v =
     (case (case v of GNumber t \<Rightarrow> Some t | GInt k i \<Rightarrow> Some (showInt i) | GFloat x \<Rightarrow> floatUintText x | _ \<Rightarrow> None) of
        None \<Rightarrow> None
      | Some t \<Rightarrow> parseUint 63 t)"

text \<open>The fields of a text between separators, none of them empty (\<^verbatim>\<open>strings.FieldsFunc\<close>).\<close>

fun fieldsGo :: "('a \<Rightarrow> bool) \<Rightarrow> 'a list \<Rightarrow> 'a list \<Rightarrow> 'a list list" where
  "fieldsGo sep cur [] = (if cur = [] then [] else [rev cur])"
| "fieldsGo sep cur (c # cs) =
     (if sep c then (if cur = [] then fieldsGo sep [] cs else rev cur # fieldsGo sep [] cs)
      else fieldsGo sep (c # cur) cs)"

definition FieldsFunc :: "('a \<Rightarrow> bool) \<Rightarrow> 'a list \<Rightarrow> 'a list list" where
  "FieldsFunc sep s = fieldsGo sep [] s"

definition usageCostMax :: string where "usageCostMax = ''999999999999.99999999''"

definition exponentChar :: "char \<Rightarrow> bool" where "exponentChar c \<longleftrightarrow> c = CHR ''e'' \<or> c = CHR ''E''"

text \<open>An exponent that could make the decimal package allocate without bound is refused before it parses.\<close>

definition exponentAllowed :: "string \<Rightarrow> bool" where
  "exponentAllowed t =
     (let parts = FieldsFunc exponentChar t in
      if length parts > 1
      then (case parseInt (last parts) of None \<Rightarrow> False | Some e \<Rightarrow> - 32 \<le> e \<and> e \<le> 12)
      else True)"

definition amountText :: "('d, 'f, 't) usageEnv \<Rightarrow> 't goValue \<Rightarrow> usage_error + string" where
  "amountText env v =
     (case v of
        GNumber t \<Rightarrow> Inr t
      | GString t \<Rightarrow> Inr t
      | GFloat (FFin q) \<Rightarrow> Inr (ueFloatText env q)
      | GFloat _ \<Rightarrow> Inl BadCostRange
      | GInt k i \<Rightarrow> if k \<in> {Kint, Kint64, Kuint64} then Inr (showInt i) else Inl BadCostType
      | _ \<Rightarrow> Inl BadCostType)"

definition usageAmount :: "('d, 'f, 't) usageEnv \<Rightarrow> 't goValue \<Rightarrow> usage_error + 'd" where
  "usageAmount env v =
     (let ops = ueDecimal env in
      case amountText env v of
        Inl e \<Rightarrow> Inl e
      | Inr t \<Rightarrow>
          if length t > 64 then Inl BadCostFormat
          else if \<not> exponentAllowed t then Inl BadCostExponent
          else case (dParse ops t, dParse ops usageCostMax) of
                 (Some amount, Some most) \<Rightarrow>
                   if \<not> dLe ops (dZero ops) amount \<or> \<not> dLe ops amount most then Inl BadCostRange
                   else Inr (dRound8 ops amount)
               | _ \<Rightarrow> Inl BadCostRange)"

text \<open>\<^verbatim>\<open>usageCharged\<close>: only an explicit boolean says that a row was charged.\<close>

definition usageCharged :: "('d, 'f, 't) usageEnv \<Rightarrow> 't goValue \<Rightarrow> usage_error + bool" where
  "usageCharged env v =
     (case v of
        GNil \<Rightarrow> Inr False
      | GString raw \<Rightarrow>
          if raw = [] then Inr False
          else (case ueTree env raw of
                  Some (JObj fs) \<Rightarrow>
                    (case map_of (rev fs) ''charged'' of
                       None \<Rightarrow> Inr False
                     | Some (JBool b) \<Rightarrow> Inr b
                     | Some _ \<Rightarrow> Inl BadCharged)
                | _ \<Rightarrow> Inl BadDetails)
      | _ \<Rightarrow> Inl BadDetailsType)"

subsection \<open>A row\<close>

definition validateString :: "string \<Rightarrow> nat \<Rightarrow> 't goValue \<Rightarrow> usage_error + 't cleanValue option" where
  "validateString key limit v =
     (if v = GNil \<and> key \<noteq> ''request_id'' then Inr None
      else case v of
             GString t \<Rightarrow>
               (case utf8Count t of
                  None \<Rightarrow> Inl (BadString key)
                | Some n \<Rightarrow>
                    if n > limit \<or> CHR 0x00 \<in> set t then Inl (BadString key)
                    else if key \<in> {''billing_details_json'', ''attempt_flow_json''} \<and> length t > limit then Inl (TooLarge key)
                    else Inr (Some (CText t)))
           | _ \<Rightarrow> Inl (BadString key))"

definition validateInteger :: "string \<Rightarrow> nat \<Rightarrow> 't goValue \<Rightarrow> usage_error + 't cleanValue option" where
  "validateInteger key limit v =
     (if v = GNil \<and> key \<noteq> ''user_id'' \<and> key \<noteq> ''api_key_id'' then Inr None
      else let number = (\<lambda>w. case usageUint w of
                 None \<Rightarrow> Inl (BadInteger key)
               | Some n \<Rightarrow> if n > limit then Inl (BadInteger key) else Inr (Some (CNum n)))
        in case v of
             GIntPtr p \<Rightarrow>
               if key = ''health_score_at_request''
               then (case p of None \<Rightarrow> Inr None | Some i \<Rightarrow> number (GInt Kint i))
               else number v
           | _ \<Rightarrow> number v)"

definition validateCreatedAt :: "('d, 'f, 't) usageEnv \<Rightarrow> 't goValue \<Rightarrow> usage_error + 't cleanValue option" where
  "validateCreatedAt env v =
     (case (case v of GTime t \<Rightarrow> Some t | GString s \<Rightarrow> ueParseTime env s | _ \<Rightarrow> None) of
        None \<Rightarrow> Inl BadCreatedAt
      | Some t \<Rightarrow> if ueYear env t < 1000 \<or> ueYear env t > 9999 then Inl BadCreatedAtRange else Inr (Some (CTime t)))"

definition validateField :: "('d, 'f, 't) usageEnv \<Rightarrow> string \<Rightarrow> 't goValue \<Rightarrow> usage_error + 't cleanValue option" where
  "validateField env key v =
     (case map_of usageStringLimits key of
        Some limit \<Rightarrow> validateString key limit v
      | None \<Rightarrow>
          (case map_of usageIntegerLimits key of
             Some limit \<Rightarrow> validateInteger key limit v
           | None \<Rightarrow>
               if key = ''estimated_cost'' then
                 (case usageAmount env v of
                    Inl e \<Rightarrow> Inl e
                  | Inr amount \<Rightarrow> Inr (Some (CText (dFixed8 (ueDecimal env) amount))))
               else if key = ''created_at'' then validateCreatedAt env v
               else Inl (Forbidden key)))"

fun validateFields :: "('d, 'f, 't) usageEnv \<Rightarrow> 't wireRow \<Rightarrow> 't cleanRow \<Rightarrow> usage_error + 't cleanRow" where
  "validateFields env [] clean = Inr clean"
| "validateFields env ((key, v) # fs) clean =
     (case validateField env key v of
        Inl e \<Rightarrow> Inl e
      | Inr None \<Rightarrow> validateFields env fs clean
      | Inr (Some c) \<Rightarrow> validateFields env fs (clean(key \<mapsto> c)))"

text \<open>Reading a column of a clean row back as a value of type \<^verbatim>\<open>any\<close>.\<close>

definition columnValue :: "'t cleanRow \<Rightarrow> string \<Rightarrow> 't goValue" where
  "columnValue clean key =
     (case clean key of
        None \<Rightarrow> GNil
      | Some (CText t) \<Rightarrow> GString t
      | Some (CNum n) \<Rightarrow> GInt Kuint64 (int n)
      | Some (CTime t) \<Rightarrow> GTime t)"

definition uintValueOf :: "'t goValue \<Rightarrow> nat" where
  "uintValueOf v = (case usageUint v of None \<Rightarrow> 0 | Some n \<Rightarrow> n)"

definition rowRequestID :: "'t cleanRow \<Rightarrow> string" where
  "rowRequestID clean = (case clean ''request_id'' of Some (CText t) \<Rightarrow> t | _ \<Rightarrow> [])"

definition finishRow :: "('d, 'f, 't) usageEnv \<Rightarrow> 't cleanRow \<Rightarrow> usage_error + 't cleanRow" where
  "finishRow env clean =
     (if \<not> usageIdentity (rowRequestID clean) 64 then Inl BadRequestID
      else if uintValueOf (columnValue clean ''user_id'') = 0 then Inl (MissingIdentity ''user_id'')
      else if uintValueOf (columnValue clean ''api_key_id'') = 0 then Inl (MissingIdentity ''api_key_id'')
      else case usageCharged env (columnValue clean ''billing_details_json'') of
             Inl e \<Rightarrow> Inl e
           | Inr charged \<Rightarrow>
               if clean ''estimated_cost'' = None
               then if charged then Inl MissingCost else Inr (clean(''estimated_cost'' \<mapsto> CText ''0.00000000''))
               else Inr clean)"

definition validateUsageRow :: "('d, 'f, 't) usageEnv \<Rightarrow> 't wireRow \<Rightarrow> usage_error + 't cleanRow" where
  "validateUsageRow env row =
     (case validateFields env row Map.empty of Inl e \<Rightarrow> Inl e | Inr clean \<Rightarrow> finishRow env clean)"

subsection \<open>A batch\<close>

record 't usageBatch =
  BatchID :: string
  BatchRows :: "'t wireRow list"

fun validateRows :: "('d, 'f, 't) usageEnv \<Rightarrow> string list \<Rightarrow> 't wireRow list \<Rightarrow> usage_error + 't cleanRow list" where
  "validateRows env seen [] = Inr []"
| "validateRows env seen (row # rows) =
     (case validateUsageRow env row of
        Inl e \<Rightarrow> Inl e
      | Inr clean \<Rightarrow>
          if rowRequestID clean \<in> set seen then validateRows env seen rows
          else case validateRows env (rowRequestID clean # seen) rows of
                 Inl e \<Rightarrow> Inl e
               | Inr cleans \<Rightarrow> Inr (clean # cleans))"

definition validateUsageBatch :: "('d, 'f, 't) usageEnv \<Rightarrow> 't usageBatch \<Rightarrow> usage_error + 't cleanRow list" where
  "validateUsageBatch env batch =
     (if \<not> usageIdentity (BatchID batch) 64 then Inl BadBatchID
      else if length (BatchRows batch) > usageBatchMaxRows then Inl TooManyRows
      else validateRows env [] (BatchRows batch))"

text \<open>\<^verbatim>\<open>usageCostOf\<close>: what a row is charged, None when it is not charged.\<close>

definition usageCostOf :: "('d, 'f, 't) usageEnv \<Rightarrow> 't cleanRow \<Rightarrow> 'd option" where
  "usageCostOf env row =
     (case usageCharged env (columnValue row ''billing_details_json'') of
        Inr True \<Rightarrow>
          (case usageAmount env (columnValue row ''estimated_cost'') of
             Inl e \<Rightarrow> None
           | Inr cost \<Rightarrow> Some cost)
      | _ \<Rightarrow> None)"

subsection \<open>What is accepted does not depend on the order of the map\<close>

definition cleanField :: "('d, 'f, 't) usageEnv \<Rightarrow> string \<Rightarrow> 't goValue \<Rightarrow> 't cleanValue option" where
  "cleanField env k v = (case validateField env k v of Inr r \<Rightarrow> r | Inl e \<Rightarrow> None)"

definition fieldsAccepted :: "('d, 'f, 't) usageEnv \<Rightarrow> 't wireRow \<Rightarrow> bool" where
  "fieldsAccepted env fs \<longleftrightarrow> (\<forall>(k, v) \<in> set fs. validateField env k v = Inr (cleanField env k v))"

definition cleanFields :: "('d, 'f, 't) usageEnv \<Rightarrow> 't wireRow \<Rightarrow> 't cleanRow" where
  "cleanFields env fs k = (case map_of fs k of None \<Rightarrow> None | Some v \<Rightarrow> cleanField env k v)"

lemma validateFields_iff:
  "distinct (map fst fs) \<Longrightarrow> fst ` set fs \<inter> dom clean0 = {} \<Longrightarrow>
   validateFields env fs clean0 = Inr clean \<longleftrightarrow> fieldsAccepted env fs \<and> clean = clean0 ++ cleanFields env fs"
proof (induction fs arbitrary: clean0)
  case Nil
  have "cleanFields env [] = Map.empty" by (rule ext) (simp add: cleanFields_def)
  then show ?case by (auto simp: fieldsAccepted_def)
next
  case (Cons f fs)
  obtain k v where f: "f = (k, v)" by fastforce
  have new: "k \<notin> fst ` set fs" "k \<notin> dom clean0" using Cons.prems f by auto
  have none: "map_of fs k = None" using new(1) by (simp add: map_of_eq_None_iff)
  have step: "clean1 ++ cleanFields env fs = clean0 ++ cleanFields env (f # fs)"
    if "clean1 = (case cleanField env k v of None \<Rightarrow> clean0 | Some c \<Rightarrow> clean0(k \<mapsto> c))" for clean1
  proof (rule ext)
    fix x
    show "(clean1 ++ cleanFields env fs) x = (clean0 ++ cleanFields env (f # fs)) x"
      using none new(2) by (cases "x = k") (auto simp: that f map_add_def cleanFields_def split: option.splits)
  qed
  show ?case
  proof (cases "validateField env k v")
    case (Inl e)
    then show ?thesis by (simp add: f fieldsAccepted_def cleanField_def)
  next
    case (Inr r)
    then have r: "cleanField env k v = r" by (simp add: cleanField_def)
    show ?thesis
    proof (cases r)
      case None
      with Cons.IH [of clean0] Cons.prems step [of clean0] Inr r show ?thesis
        by (simp add: f fieldsAccepted_def)
    next
      case (Some c)
      have dis: "fst ` set fs \<inter> dom (clean0(k \<mapsto> c)) = {}" using Cons.prems new(1) f by auto
      have "validateFields env fs (clean0(k \<mapsto> c)) = Inr clean \<longleftrightarrow>
          fieldsAccepted env fs \<and> clean = clean0(k \<mapsto> c) ++ cleanFields env fs"
        by (rule Cons.IH [OF _ dis]) (use Cons.prems(1) f in simp)
      then show ?thesis using Inr r Some step [of "clean0(k \<mapsto> c)"] by (simp add: f fieldsAccepted_def)
    qed
  qed
qed

lemma validateFields_accepted:
  "distinct (map fst fs) \<Longrightarrow> validateFields env fs Map.empty = Inr clean \<longleftrightarrow> fieldsAccepted env fs \<and> clean = cleanFields env fs"
  using validateFields_iff [of fs Map.empty env clean] by simp

lemma validateUsageRow_iff:
  "distinct (map fst row) \<Longrightarrow> validateUsageRow env row = Inr clean \<longleftrightarrow> fieldsAccepted env row \<and> finishRow env (cleanFields env row) = Inr clean"
proof (cases "validateFields env row Map.empty")
  case (Inl e)
  moreover assume "distinct (map fst row)"
  ultimately have "\<not> fieldsAccepted env row" using validateFields_accepted [of row env "cleanFields env row"] by auto
  with Inl show ?thesis by (simp add: validateUsageRow_def)
next
  case (Inr c)
  moreover assume "distinct (map fst row)"
  ultimately have "fieldsAccepted env row" "c = cleanFields env row" using validateFields_accepted [of row env c] by auto
  with Inr show ?thesis by (simp add: validateUsageRow_def)
qed

text \<open>
  Whether the master accepts a usage row, and what it writes for it, does not depend on the order in
  which Go happens to walk the columns of the row.
\<close>

theorem row_order_irrelevant:
  assumes "distinct (map fst row)" "mset row = mset row'"
  shows "validateUsageRow env row = Inr clean \<longleftrightarrow> validateUsageRow env row' = Inr clean"
proof -
  have "mset (map fst row) = mset (map fst row')" using assms(2) by simp
  then have d: "distinct (map fst row')" using assms(1) mset_eq_imp_distinct_iff by blast
  have s: "set row = set row'" using assms(2) by (rule mset_eq_setD)
  have "cleanFields env row = cleanFields env row'"
    by (rule ext) (metis assms(1) cleanFields_def d map_of_eqI map_of_inject_set s set_map)
  with s show ?thesis by (simp add: validateUsageRow_iff assms(1) d fieldsAccepted_def)
qed

subsection \<open>What an accepted row holds\<close>

definition columnOk :: "('d, 'f, 't) usageEnv \<Rightarrow> string \<Rightarrow> 't cleanValue \<Rightarrow> bool" where
  "columnOk env key c =
     (case c of
        CText t \<Rightarrow>
          (case map_of usageStringLimits key of
             Some limit \<Rightarrow> (case utf8Count t of Some n \<Rightarrow> n \<le> limit | None \<Rightarrow> False) \<and> CHR 0x00 \<notin> set t
           | None \<Rightarrow> key = ''estimated_cost'')
      | CNum n \<Rightarrow> (case map_of usageIntegerLimits key of Some limit \<Rightarrow> n \<le> limit | None \<Rightarrow> False)
      | CTime t \<Rightarrow> key = ''created_at'' \<and> 1000 \<le> ueYear env t \<and> ueYear env t \<le> 9999)"

lemma limits_disjoint: "map_of usageIntegerLimits k = Some n \<Longrightarrow> map_of usageStringLimits k = None"
  by (auto simp: usageIntegerLimits_def usageStringLimits_def split: if_splits)

lemma validateField_ok:
  assumes "validateField env k v = Inr (Some c)"
  shows "columnOk env k c"
proof -
  consider (s) l where "map_of usageStringLimits k = Some l"
    | (i) l where "map_of usageStringLimits k = None" "map_of usageIntegerLimits k = Some l"
    | (other) "map_of usageStringLimits k = None" "map_of usageIntegerLimits k = None"
    by (metis option.exhaust)
  then show ?thesis
  proof cases
    case s
    with assms show ?thesis
      by (auto simp: validateField_def validateString_def columnOk_def split: if_splits goValue.splits option.splits)
  next
    case i
    with assms show ?thesis
      by (auto simp: validateField_def validateInteger_def Let_def columnOk_def split: if_splits goValue.splits option.splits)
  next
    case other
    with assms show ?thesis
      by (auto simp: validateField_def validateCreatedAt_def columnOk_def split: if_splits sum.splits option.splits)
  qed
qed

lemma cleanFields_ok: "cleanFields env fs k = Some c \<Longrightarrow> columnOk env k c"
  by (auto simp: cleanFields_def cleanField_def dest: validateField_ok split: option.splits sum.splits)

lemma cleanFields_number:
  assumes "cleanFields env fs k = Some c" "map_of usageIntegerLimits k = Some n"
  shows "\<exists>i. c = CNum i \<and> i \<le> n"
proof -
  have "columnOk env k c" using assms(1) by (rule cleanFields_ok)
  moreover have "map_of usageStringLimits k = None" using assms(2) by (rule limits_disjoint)
  moreover have "k \<noteq> ''estimated_cost''" "k \<noteq> ''created_at''" using assms(2) by (auto simp: usageIntegerLimits_def)
  ultimately show ?thesis using assms(2) by (auto simp: columnOk_def split: cleanValue.splits)
qed

text \<open>The shape of a clean row.\<close>

definition cleanRowOk :: "('d, 'f, 't) usageEnv \<Rightarrow> 't cleanRow \<Rightarrow> bool" where
  "cleanRowOk env clean \<longleftrightarrow>
     (\<forall>k c. clean k = Some c \<longrightarrow> columnOk env k c) \<and>
     (\<exists>i. clean ''request_id'' = Some (CText i) \<and> usageIdentity i 64) \<and>
     (\<exists>u. clean ''user_id'' = Some (CNum u) \<and> 0 < u \<and> u \<le> maxInt64) \<and>
     (\<exists>u. clean ''api_key_id'' = Some (CNum u) \<and> 0 < u \<and> u \<le> maxInt64) \<and>
     (\<exists>t. clean ''estimated_cost'' = Some (CText t))"

lemma parseUint_showInt: "n < 2 ^ 63 \<Longrightarrow> parseUint 63 (showInt (int n)) = Some n"
  by (simp add: parseUint_def showInt_def)

lemma uintValueOf_nil [simp]: "uintValueOf GNil = 0"
  by (simp add: uintValueOf_def usageUint_def)

lemma uintValueOf_column: "clean k = Some (CNum n) \<Longrightarrow> n \<le> maxInt64 \<Longrightarrow> uintValueOf (columnValue clean k) = n"
  by (simp add: uintValueOf_def usageUint_def columnValue_def parseUint_showInt maxInt64_def)

lemma usageIdentity_nonempty: "\<not> usageIdentity [] n"
  by (simp add: usageIdentity_def)

lemma finishRow_cases:
  assumes "finishRow env clean = Inr clean'"
  shows "usageIdentity (rowRequestID clean) 64" "uintValueOf (columnValue clean ''user_id'') \<noteq> 0"
    "uintValueOf (columnValue clean ''api_key_id'') \<noteq> 0"
    "clean' = (if clean ''estimated_cost'' = None then clean(''estimated_cost'' \<mapsto> CText ''0.00000000'') else clean)"
    "\<exists>b. usageCharged env (columnValue clean ''billing_details_json'') = Inr b \<and> (b \<longrightarrow> clean ''estimated_cost'' \<noteq> None)"
  using assms by (auto simp: finishRow_def split: if_splits sum.splits)

lemma usageCostColumn: "cleanFields env fs ''estimated_cost'' = Some c \<Longrightarrow> \<exists>t. c = CText t"
  by (drule cleanFields_ok) (auto simp: columnOk_def usageIntegerLimits_def split: cleanValue.splits)

lemma validateUsageRow_ok:
  assumes "distinct (map fst row)" "validateUsageRow env row = Inr clean"
  shows "cleanRowOk env clean"
proof -
  let ?c = "cleanFields env row"
  have fin: "finishRow env ?c = Inr clean" using assms validateUsageRow_iff by blast
  note f = finishRow_cases [OF fin]
  have ident: "\<exists>u. ?c k = Some (CNum u) \<and> 0 < u \<and> u \<le> maxInt64"
    if "map_of usageIntegerLimits k = Some maxInt64" "uintValueOf (columnValue ?c k) \<noteq> 0" for k
  proof (cases "?c k")
    case None
    with that(2) show ?thesis by (simp add: columnValue_def)
  next
    case (Some c)
    with cleanFields_number [OF Some that(1)] uintValueOf_column [of ?c k] that(2) show ?thesis by auto
  qed
  have id: "\<exists>i. ?c ''request_id'' = Some (CText i) \<and> usageIdentity i 64"
    using f(1) by (auto simp: rowRequestID_def usageIdentity_nonempty split: option.splits cleanValue.splits)
  have ids: "\<exists>u. ?c ''user_id'' = Some (CNum u) \<and> 0 < u \<and> u \<le> maxInt64"
    "\<exists>u. ?c ''api_key_id'' = Some (CNum u) \<and> 0 < u \<and> u \<le> maxInt64"
    using ident [of "''user_id''"] ident [of "''api_key_id''"] f(2,3) by (simp_all add: usageIntegerLimits_def)
  have cost: "columnOk env ''estimated_cost'' (CText t)" for t by (simp add: columnOk_def usageStringLimits_def)
  show ?thesis
    using f(4) id ids cost usageCostColumn [of env row] cleanFields_ok [of env row]
    by (auto simp: cleanRowOk_def split: if_splits)
qed

text \<open>
  C22: every row the master writes from a worker has only the listed columns, each of its type and within
  the width of the table's column, a request id of 1 to 64 plain characters, a user and an API key that are
  positive 63-bit numbers, and a cost: a worker can set neither the row id nor the node id, and nothing it
  sends ends in the SQL text.
\<close>

theorem accepted_row_typed:
  assumes "distinct (map fst row)" "validateUsageRow env row = Inr clean"
  shows "cleanRowOk env clean \<and> dom clean \<subseteq> fst ` set usageStringLimits \<union> fst ` set usageIntegerLimits \<union> {''estimated_cost'', ''created_at''}"
proof (rule conjI)
  show ok: "cleanRowOk env clean" using assms by (rule validateUsageRow_ok)
  show "dom clean \<subseteq> fst ` set usageStringLimits \<union> fst ` set usageIntegerLimits \<union> {''estimated_cost'', ''created_at''}"
  proof
    fix k assume "k \<in> dom clean"
    then obtain c where "clean k = Some c" by blast
    with ok have "columnOk env k c" by (simp add: cleanRowOk_def)
    then show "k \<in> fst ` set usageStringLimits \<union> fst ` set usageIntegerLimits \<union> {''estimated_cost'', ''created_at''}"
      by (auto simp: columnOk_def split: cleanValue.splits option.splits dest: map_of_SomeD intro: rev_image_eqI)
  qed
qed

subsection \<open>The cost in the log is the cost that is billed\<close>

definition maxCost :: rat where "maxCost = (10 ^ 20 - 1) / 10 ^ 8"

text \<open>
  Of the decimal package: \<^verbatim>\<open>StringFixed\<close> writes no exponent and as many digits as the number has, and the
  literal of the largest cost reads as that number.
\<close>

definition plainDecimals :: "('d, 'f) decimalOps \<Rightarrow> ('d \<Rightarrow> rat) \<Rightarrow> bool" where
  "plainDecimals ops value \<longleftrightarrow>
     (\<forall>a. places8 (value a) \<longrightarrow> 0 \<le> value a \<longrightarrow> value a \<le> maxCost \<longrightarrow>
        length (dFixed8 ops a) \<le> 64 \<and> list_all (\<lambda>c. \<not> exponentChar c) (dFixed8 ops a)) \<and>
     (\<exists>m. dParse ops usageCostMax = Some m \<and> value m = maxCost)"

lemma fieldsGo_none: "list_all (\<lambda>c. \<not> sep c) s \<Longrightarrow> length (fieldsGo sep cur s) \<le> 1"
  by (induction sep cur s rule: fieldsGo.induct) auto

lemma exponentAllowed_plain: "list_all (\<lambda>c. \<not> exponentChar c) t \<Longrightarrow> exponentAllowed t"
  using fieldsGo_none [of exponentChar t "[]"] by (simp add: exponentAllowed_def FieldsFunc_def Let_def)

lemma places8_near:
  assumes "places8 a" "places8 b" "\<bar>a - b\<bar> < 1 / 10 ^ 8"
  shows "a = b"
proof -
  obtain j k where jk: "a = of_int j / 10 ^ 8" "b = of_int k / 10 ^ 8" using assms(1,2) by (auto simp: places8_def)
  have "\<bar>of_int (j - k) :: rat\<bar> < 1" using assms(3) unfolding jk
    by (simp add: abs_less_iff field_simps)
  then have "\<bar>j - k\<bar> < 1" by (metis of_int_1_less_iff of_int_abs of_int_less_1_iff)
  then show ?thesis by (simp add: jk)
qed

lemma places8_maxCost: "places8 maxCost"
  unfolding places8_def maxCost_def by (rule exI [of _ "10 ^ 20 - 1"]) simp

lemma places8_round_range:
  assumes "places8 r" "\<bar>r - a\<bar> \<le> 1 / (2 * 10 ^ 8)" "0 \<le> a" "a \<le> maxCost"
  shows "0 \<le> r" "r \<le> maxCost"
proof -
  have near: "- (1 / (2 * 10 ^ 8)) \<le> r" "r \<le> maxCost + 1 / (2 * 10 ^ 8)" using assms(2-4) by linarith+
  obtain k where k: "r = of_int k / 10 ^ 8" using assms(1) by (auto simp: places8_def)
  have "- 1 < (of_int k :: rat)" using near(1) unfolding k by (simp add: field_simps)
  then have "0 \<le> k" by linarith
  then show "0 \<le> r" by (simp add: k)
  have "of_int k < (10 ^ 20 :: rat)" using near(2) unfolding k maxCost_def by (simp add: field_simps)
  then have "(of_int k :: rat) < of_int (10 ^ 20)" by simp
  then have "k \<le> 10 ^ 20 - 1" by (simp only: of_int_less_iff)
  then have "(of_int k :: rat) \<le> of_int (10 ^ 20 - 1)" by (simp only: of_int_le_iff)
  then show "r \<le> maxCost" unfolding k maxCost_def by (simp add: field_simps)
qed

lemma usageAmount_ok:
  assumes laws: "decimalLaws (ueDecimal env) value" and plain: "plainDecimals (ueDecimal env) value"
    and amount: "usageAmount env v = Inr amount"
  shows "places8 (value amount)" "0 \<le> value amount" "value amount \<le> maxCost"
proof -
  note d = decimalLawsD [OF laws]
  obtain m where m: "dParse (ueDecimal env) usageCostMax = Some m" "value m = maxCost" using plain by (auto simp: plainDecimals_def)
  obtain a where a: "amount = dRound8 (ueDecimal env) a" "0 \<le> value a" "value a \<le> maxCost"
    using amount m by (auto simp: usageAmount_def Let_def d split: sum.splits if_splits option.splits)
  show p: "places8 (value amount)" unfolding a(1) by (rule d(6))
  show "0 \<le> value amount" "value amount \<le> maxCost"
    using places8_round_range [OF p, of "value a"] a d(7) by (simp_all add: a(1))
qed

lemma usageAmount_reread:
  assumes laws: "decimalLaws (ueDecimal env) value" and plain: "plainDecimals (ueDecimal env) value"
    and amount: "usageAmount env v = Inr amount"
  shows "\<exists>cost. usageAmount env (GString (dFixed8 (ueDecimal env) amount)) = Inr cost \<and> value cost = value amount"
proof -
  let ?ops = "ueDecimal env"
  note d = decimalLawsD [OF laws]
  note ok = usageAmount_ok [OF assms]
  obtain m where m: "dParse ?ops usageCostMax = Some m" "value m = maxCost" using plain by (auto simp: plainDecimals_def)
  have shown: "length (dFixed8 ?ops amount) \<le> 64" "exponentAllowed (dFixed8 ?ops amount)"
    using plain ok exponentAllowed_plain by (auto simp: plainDecimals_def)
  obtain a' where a': "dParse ?ops (dFixed8 ?ops amount) = Some a'" "value a' = value amount" using d(11) [OF ok(1)] by blast
  have "usageAmount env (GString (dFixed8 ?ops amount)) = Inr (dRound8 ?ops a')"
    using shown a' m ok by (simp add: usageAmount_def amountText_def d)
  moreover have "value (dRound8 ?ops a') = value amount"
    using d(6) [of a'] d(7) [of a'] ok(1) by (intro places8_near) (auto simp: a'(2) field_simps)
  ultimately show ?thesis by blast
qed

lemma cleanFields_cost:
  assumes "fieldsAccepted env row" "distinct (map fst row)" "cleanFields env row ''estimated_cost'' = Some c"
  shows "\<exists>v amount. (''estimated_cost'', v) \<in> set row \<and> usageAmount env v = Inr amount \<and> c = CText (dFixed8 (ueDecimal env) amount)"
proof -
  from assms(3) obtain v where v: "map_of row ''estimated_cost'' = Some v" "cleanField env ''estimated_cost'' v = Some c"
    by (auto simp: cleanFields_def split: option.splits)
  then have "validateField env ''estimated_cost'' v = Inr (Some c)"
    by (auto simp: cleanField_def split: sum.splits)
  then have "\<exists>amount. usageAmount env v = Inr amount \<and> c = CText (dFixed8 (ueDecimal env) amount)"
    by (auto simp: validateField_def usageStringLimits_def usageIntegerLimits_def split: sum.splits)
  with v(1) show ?thesis by (blast dest: map_of_SomeD)
qed

text \<open>
  C21: a row that a worker marks as charged is billed: its cost is found again in the column the master
  wrote, with the same value to the last of its 8 places, never negative and never more than the column
  holds; a row without an explicit true is not billed at all.
\<close>

theorem logged_cost_is_billed:
  assumes "decimalLaws (ueDecimal env) value" "plainDecimals (ueDecimal env) value"
    and "distinct (map fst row)" "validateUsageRow env row = Inr clean"
  shows "if usageCharged env (columnValue clean ''billing_details_json'') = Inr True
     then \<exists>v amount cost t. (''estimated_cost'', v) \<in> set row \<and> usageAmount env v = Inr amount \<and>
       clean ''estimated_cost'' = Some (CText (dFixed8 (ueDecimal env) amount)) \<and> usageCostOf env clean = Some cost \<and>
       value cost = value amount \<and> places8 (value cost) \<and> 0 \<le> value cost \<and> value cost \<le> maxCost
     else usageCostOf env clean = None"
proof (cases "usageCharged env (columnValue clean ''billing_details_json'') = Inr True")
  case False
  then show ?thesis by (auto simp: usageCostOf_def split: sum.splits bool.splits)
next
  case True
  let ?c = "cleanFields env row"
  have acc: "fieldsAccepted env row" and fin: "finishRow env ?c = Inr clean"
    using validateUsageRow_iff [OF assms(3)] assms(4) by auto
  note f = finishRow_cases [OF fin]
  have "columnValue ?c ''billing_details_json'' = columnValue clean ''billing_details_json''"
    using f(4) by (auto simp: columnValue_def)
  with True f(5) obtain c where c: "?c ''estimated_cost'' = Some c" by auto
  with f(4) have clean: "clean = ?c" by simp
  from cleanFields_cost [OF acc assms(3) c] obtain v amount where
    v: "(''estimated_cost'', v) \<in> set row" "usageAmount env v = Inr amount" "c = CText (dFixed8 (ueDecimal env) amount)" by blast
  from usageAmount_reread [OF assms(1,2) v(2)] obtain cost where
    cost: "usageAmount env (GString (dFixed8 (ueDecimal env) amount)) = Inr cost" "value cost = value amount" by blast
  have "usageCostOf env clean = Some cost"
    using True cost c v(3) by (simp add: usageCostOf_def clean columnValue_def)
  with True v cost c clean usageAmount_ok [OF assms(1,2) v(2)] show ?thesis by auto
qed

subsection \<open>Decimals with the texts of the package, on rational numbers\<close>

definition decFixed8 :: "rat \<Rightarrow> string" where
  "decFixed8 a =
     (let k = round (a * 10 ^ 8); n = nat \<bar>k\<bar>
      in (if k < 0 then ''-'' else []) @ showNat (n div 10 ^ 8) @ CHR ''.'' # drop 1 (showNat (10 ^ 8 + n mod 10 ^ 8)))"

definition decDigits :: "string \<Rightarrow> rat option" where
  "decDigits s =
     (let whole = takeWhile isDigit s; frac = drop 1 (dropWhile isDigit s)
      in map_option (\<lambda>n. of_nat n / 10 ^ length frac) (parseNat (whole @ frac)))"

definition decParse :: "string \<Rightarrow> rat option" where
  "decParse s =
     (if CHR ''/'' \<in> set s then ratParse s
      else case s of
             c # cs \<Rightarrow> if c = CHR ''-'' then map_option uminus (decDigits cs) else decDigits s
           | [] \<Rightarrow> None)"

definition decOps :: "(rat, rat) decimalOps" where
  "decOps = ratOps\<lparr>dFixed8 := decFixed8, dParse := decParse\<rparr>"

lemma digitsVal_shift: "digitsVal a s = map_option (\<lambda>v. a * 10 ^ length s + v) (digitsVal 0 s)"
proof (induction s arbitrary: a)
  case (Cons c s)
  show ?case
    using Cons.IH [of "10 * a + digitVal c"] Cons.IH [of "digitVal c"]
    by (cases "digitsVal 0 s") (auto simp: algebra_simps)
qed simp

lemma length_showNat_le: "0 < k \<Longrightarrow> n < 10 ^ k \<Longrightarrow> length (showNat n) \<le> k"
proof (induction k arbitrary: n)
  case (Suc k)
  show ?case
  proof (cases "n < 10")
    case False
    then have "0 < k" using Suc.prems by (cases k) auto
    moreover have "n div 10 < 10 ^ k" using Suc.prems by (simp add: less_mult_imp_div_less)
    ultimately have "length (showNat (n div 10)) \<le> k" by (rule Suc.IH)
    with False show ?thesis by (simp add: showNat.simps [of n])
  qed (simp add: showNat.simps [of n])
qed simp

lemma length_showNat_ge: "10 ^ k \<le> n \<Longrightarrow> k < length (showNat n)"
proof (induction k arbitrary: n)
  case 0
  then show ?case by (cases "showNat n") auto
next
  case (Suc k)
  have "k < length (showNat (n div 10))" using Suc.prems by (intro Suc.IH) (simp add: less_eq_div_iff_mult_less_eq)
  moreover have "\<not> n < 10" using Suc.prems le_trans [of 10 "10 * 10 ^ k" n] by simp
  ultimately show ?case by (simp add: showNat.simps [of n])
qed

text \<open>The 8 digits after the point.\<close>

lemma fraction_digits:
  assumes "r < 10 ^ 8"
  shows "length (drop 1 (showNat (10 ^ 8 + r))) = 8" "digitsVal m (drop 1 (showNat (10 ^ 8 + r))) = Some (m * 10 ^ 8 + r)"
    "list_all isDigit (drop 1 (showNat (10 ^ 8 + r)))"
proof -
  let ?s = "showNat (10 ^ 8 + r)"
  have len: "length ?s = 9"
    using length_showNat_le [of 9 "10 ^ 8 + r"] length_showNat_ge [of 8 "10 ^ 8 + r"] assms by simp
  then show frac: "length (drop 1 ?s) = 8" by simp
  obtain c cs where c: "?s = c # cs" using len by (cases ?s) auto
  have cs: "length cs = 8" using len c by simp
  have dig: "isDigit c" using showNat_all_digits [of c "10 ^ 8 + r"] c by simp
  have "digitsVal 0 (c # cs) = Some (10 ^ 8 + r)" using digitsVal_showNat [of "10 ^ 8 + r"] c by simp
  then obtain v where v: "digitsVal 0 cs = Some v" "digitVal c * 10 ^ 8 + v = 10 ^ 8 + r"
    using dig digitsVal_shift [of "digitVal c" cs] cs by (auto split: if_splits)
  have bound: "v < 10 ^ 8"
  proof -
    have "digitsVal 0 t = Some w \<Longrightarrow> w < 10 ^ length t" for t w
    proof (induction t arbitrary: w)
      case (Cons d t)
      then have d: "isDigit d" "digitsVal (digitVal d) t = Some w" by (auto split: if_splits)
      then obtain u where u: "digitsVal 0 t = Some u" "w = digitVal d * 10 ^ length t + u"
        using digitsVal_shift [of "digitVal d" t] by auto
      have "digitVal d \<le> 9" using d(1) unfolding isDigit_def digitVal_def Let_def by linarith
      then have "digitVal d * 10 ^ length t \<le> 9 * 10 ^ length t" by simp
      with Cons.IH [OF u(1)] u(2) have "w < 10 * 10 ^ length t" by linarith
      then show ?case by simp
    qed simp
    from this [OF v(1)] cs show ?thesis by simp
  qed
  have "digitVal c = 1"
  proof -
    have "(digitVal c * 10 ^ 8 + v) div 10 ^ 8 = digitVal c" "(10 ^ 8 + r) div 10 ^ 8 = 1" using bound assms by simp_all
    with v(2) show ?thesis by metis
  qed
  with v have "v = r" by simp
  with v(1) show "digitsVal m (drop 1 ?s) = Some (m * 10 ^ 8 + r)" using digitsVal_shift [of m cs] c cs by simp
  show "list_all isDigit (drop 1 ?s)" using showNat_all_digits [of _ "10 ^ 8 + r"] by (auto simp: list_all_iff dest: in_set_dropD)
qed

lemma decDigits_text:
  assumes "r < 10 ^ 8"
  shows "decDigits (showNat m @ CHR ''.'' # drop 1 (showNat (10 ^ 8 + r))) = Some (of_nat (m * 10 ^ 8 + r) / 10 ^ 8)"
proof -
  let ?f = "drop 1 (showNat (10 ^ 8 + r))"
  have all: "\<And>c. c \<in> set (showNat m) \<Longrightarrow> isDigit c" and dot: "\<not> isDigit (CHR ''.'')"
    using showNat_all_digits by (auto simp: isDigit_def)
  have "takeWhile isDigit (showNat m @ CHR ''.'' # ?f) = showNat m" "dropWhile isDigit (showNat m @ CHR ''.'' # ?f) = CHR ''.'' # ?f"
    using all dot by (simp_all add: takeWhile_append2 dropWhile_append2)
  moreover have "parseNat (showNat m @ ?f) = Some (m * 10 ^ 8 + r)"
    using fraction_digits(2) [OF assms] digitsVal_showNat [of m] by (simp add: parseNat_def digitsVal_append)
  ultimately show ?thesis using fraction_digits(1) [OF assms] by (simp add: decDigits_def Let_def)
qed

lemma decFixed8_chars: "c \<in> set (decFixed8 a) \<Longrightarrow> isDigit c \<or> c = CHR ''-'' \<or> c = CHR ''.''"
proof -
  let ?n = "nat \<bar>round (a * 10 ^ 8)\<bar>"
  have "?n mod 10 ^ 8 < 10 ^ 8" by simp
  then have "list_all isDigit (drop 1 (showNat (10 ^ 8 + ?n mod 10 ^ 8)))" by (rule fraction_digits(3))
  then show "c \<in> set (decFixed8 a) \<Longrightarrow> isDigit c \<or> c = CHR ''-'' \<or> c = CHR ''.''"
    using showNat_all_digits by (auto simp: decFixed8_def Let_def list_all_iff split: if_splits)
qed

lemma decParse_fixed: "decParse (decFixed8 a) = Some (of_int (round (a * 10 ^ 8)) / 10 ^ 8)"
proof -
  let ?k = "round (a * 10 ^ 8)"
  let ?n = "nat \<bar>?k\<bar>"
  let ?t = "showNat (?n div 10 ^ 8) @ CHR ''.'' # drop 1 (showNat (10 ^ 8 + ?n mod 10 ^ 8))"
  have slash: "CHR ''/'' \<notin> set (decFixed8 a)"
    using decFixed8_chars [of "CHR ''/''" a] by (auto simp: isDigit_def)
  have val: "decDigits ?t = Some (of_nat ?n / 10 ^ 8)"
    using decDigits_text [of "?n mod 10 ^ 8" "?n div 10 ^ 8"] by (simp add: div_mult_mod_eq)
  obtain c cs where c: "showNat (?n div 10 ^ 8) = c # cs" by (cases "showNat (?n div 10 ^ 8)") auto
  then have "isDigit c" using showNat_all_digits [of c "?n div 10 ^ 8"] by simp
  then have neq: "c \<noteq> CHR ''-''" by (auto simp: isDigit_def)
  show ?thesis
  proof (cases "?k < 0")
    case True
    then have "decParse (decFixed8 a) = map_option uminus (decDigits ?t)"
      using slash by (simp add: decParse_def) (simp add: decFixed8_def Let_def)
    with val True show ?thesis by simp
  next
    case False
    then have "decFixed8 a = ?t" by (simp add: decFixed8_def Let_def)
    moreover have "decParse ?t = decDigits ?t"
    proof -
      have "?t = c # cs @ CHR ''.'' # drop 1 (showNat (10 ^ 8 + ?n mod 10 ^ 8))" by (simp only: c append_Cons)
      moreover have "CHR ''/'' \<notin> set ?t" using slash unfolding \<open>decFixed8 a = ?t\<close> .
      ultimately show ?thesis using neq unfolding decParse_def by (simp only: list.case simp_thms not_False_eq_True if_False)
    qed
    ultimately show ?thesis using val False by simp
  qed
qed

lemma decParse_ratText: "decParse (ratText a) = Some a"
  by (simp add: decParse_def ratParse_ratText) (simp add: ratText_def case_prod_beta)

lemma decFixed8_visible: "trimSpace (decFixed8 a) \<noteq> []"
proof
  assume "trimSpace (decFixed8 a) = []"
  then have "set (decFixed8 a) \<subseteq> (\<Union>p \<in> set space_seqs. set p)" using trimSpace_set [of "decFixed8 a"] by simp
  moreover have "CHR ''.'' \<in> set (decFixed8 a)" by (simp add: decFixed8_def Let_def)
  moreover have "plainChar (CHR ''.'')" by (simp add: plainChar_def)
  ultimately show False using space_seqs_no_plain by blast
qed

lemma decOps_laws: "decimalLaws decOps (\<lambda>a. a)"
proof -
  have "places8 a \<Longrightarrow> \<exists>a'. decParse (decFixed8 a) = Some a' \<and> a' = a" for a :: rat
    by (auto simp: places8_def decParse_fixed)
  then show ?thesis
    using ratOps_laws unfolding decimalLaws_def decOps_def
    by (simp add: decFixed8_visible) (simp add: ratOps_def decParse_ratText)
qed

lemma decOps_plain: "plainDecimals decOps (\<lambda>a. a)"
proof -
  have "length (decFixed8 a) \<le> 64" if range: "0 \<le> a" "a \<le> maxCost" "places8 a" for a
  proof -
    obtain k where k: "a = of_int k / 10 ^ 8" using range(3) by (auto simp: places8_def)
    have "0 \<le> k" using range(1) by (simp add: k zero_le_divide_iff)
    have "(of_int k :: rat) \<le> of_int (10 ^ 20 - 1)" using range(2) by (simp add: k maxCost_def field_simps)
    then have "k \<le> 10 ^ 20 - 1" by (simp only: of_int_le_iff)
    then have "nat k div 10 ^ 8 < 10 ^ 12" using \<open>0 \<le> k\<close> by (simp add: less_mult_imp_div_less nat_less_iff)
    then have "length (showNat (nat k div 10 ^ 8)) \<le> 12" by (intro length_showNat_le) simp_all
    moreover have "nat k mod 10 ^ 8 < 10 ^ 8" by simp
    ultimately show ?thesis using \<open>0 \<le> k\<close> fraction_digits(1) [of "nat k mod 10 ^ 8"] by (simp add: decFixed8_def k Let_def)
  qed
  moreover have "list_all (\<lambda>c. \<not> exponentChar c) (decFixed8 a)" for a
  proof -
    have "isDigit c \<or> c = CHR ''-'' \<or> c = CHR ''.'' \<Longrightarrow> \<not> exponentChar c" for c
      by (auto simp: exponentChar_def isDigit_def)
    with decFixed8_chars [of _ a] show ?thesis unfolding list_all_iff by blast
  qed
  moreover have "decParse usageCostMax = Some maxCost"
    by (simp add: decParse_def usageCostMax_def decDigits_def parseNat_def isDigit_def digitVal_def maxCost_def)
  ultimately show ?thesis by (simp add: plainDecimals_def decOps_def)
qed

subsection \<open>Examples\<close>

definition chargedText :: string where "chargedText = ''{\"charged\":true}''"

definition exampleUsageEnv :: "(rat, rat, int) usageEnv" where
  "exampleUsageEnv = \<lparr>ueDecimal = decOps,
     ueTree = (\<lambda>s. if s = chargedText then Some (JObj [(''charged'', JBool True)]) else None),
     ueParseTime = (\<lambda>s. None), ueYear = (\<lambda>t. 2024), ueFloatText = ratText\<rparr>"

definition wireRow :: "string \<Rightarrow> int wireRow" where
  "wireRow rid =
     [(''request_id'', GString rid), (''user_id'', GNumber ''3''), (''api_key_id'', GNumber ''1''),
      (''estimated_cost'', GNumber ''0.5''), (''billing_details_json'', GString chargedText)]"

lemma wireRow_distinct: "distinct (map fst (wireRow rid))"
  by (simp add: wireRow_def)

lemmas wire_eval = validateField_def validateString_def validateInteger_def usageUint_def usageStringLimits_def usageIntegerLimits_def
  maxInt64_def parseUint_def parseNat_def isDigit_def digitVal_def byteIn_def Let_def

lemma wireRow_fields:
  "validateField exampleUsageEnv ''user_id'' (GNumber ''3'' :: int goValue) = Inr (Some (CNum 3))"
  "validateField exampleUsageEnv ''api_key_id'' (GNumber ''1'' :: int goValue) = Inr (Some (CNum 1))"
  by (simp_all add: wire_eval)

lemma wireRow_details:
  "validateField exampleUsageEnv ''billing_details_json'' (GString chargedText :: int goValue) = Inr (Some (CText chargedText))"
  by (simp add: wire_eval chargedText_def)

lemma showNat_digits: "showNat 0 = ''0''" "showNat 150000000 = ''150000000''"
  by (simp_all add: showNat.simps [of 0] showNat.simps [of 150000000] showNat.simps [of 15000000] showNat.simps [of 1500000] showNat.simps [of 150000]
      showNat.simps [of 15000] showNat.simps [of 1500] showNat.simps [of 150] showNat.simps [of 15] showNat.simps [of "Suc 0"] char_of_def bit_Suc_0_iff)

lemma half_fixed: "decFixed8 (1 / 2) = ''0.50000000''" "decParse ''0.5'' = Some (1 / 2)" "decParse ''0.50000000'' = Some (1 / 2)"
  "decParse usageCostMax = Some maxCost"
  by (simp_all add: decFixed8_def Let_def showNat_digits decParse_def decDigits_def parseNat_def isDigit_def digitVal_def usageCostMax_def maxCost_def)

lemma half_amount:
  "t \<in> {''0.5'', ''0.50000000''} \<Longrightarrow> usageAmount exampleUsageEnv (GNumber t :: int goValue) = Inr (1 / 2)"
  "usageAmount exampleUsageEnv (GString ''0.50000000'' :: int goValue) = Inr (1 / 2)"
  by (auto simp: usageAmount_def amountText_def exampleUsageEnv_def decOps_def ratOps_def half_fixed exponentAllowed_def FieldsFunc_def
      exponentChar_def maxCost_def)

lemma wireRow_cost:
  "validateField exampleUsageEnv ''estimated_cost'' (GNumber ''0.5'' :: int goValue) = Inr (Some (CText ''0.50000000''))"
  using half_amount(1) [of "''0.5''"]
  by (simp add: validateField_def usageStringLimits_def usageIntegerLimits_def) (simp add: exampleUsageEnv_def decOps_def half_fixed)

lemma wireRow_charged: "usageCharged exampleUsageEnv (GString chargedText :: int goValue) = Inr True"
  by (simp add: usageCharged_def exampleUsageEnv_def chargedText_def)

definition wireClean :: "string \<Rightarrow> int cleanRow" where
  "wireClean rid = [''request_id'' \<mapsto> CText rid, ''user_id'' \<mapsto> CNum 3, ''api_key_id'' \<mapsto> CNum 1,
     ''estimated_cost'' \<mapsto> CText ''0.50000000'', ''billing_details_json'' \<mapsto> CText chargedText]"

lemma wireClean_columns:
  "rowRequestID (wireClean rid) = rid" "columnValue (wireClean rid) ''user_id'' = GInt Kuint64 3"
  "columnValue (wireClean rid) ''api_key_id'' = GInt Kuint64 1" "columnValue (wireClean rid) ''estimated_cost'' = GString ''0.50000000''"
  "columnValue (wireClean rid) ''billing_details_json'' = GString chargedText"
  by (simp_all add: wireClean_def rowRequestID_def columnValue_def)

lemma example_uints: "uintValueOf (GInt Kuint64 3 :: int goValue) = 3" "uintValueOf (GInt Kuint64 1 :: int goValue) = 1"
  by (simp_all add: uintValueOf_def usageUint_def parseUint_showInt [of 3, simplified] parseUint_showInt [of 1, simplified])

lemma wireRow_ok:
  assumes "validateField exampleUsageEnv ''request_id'' (GString rid :: int goValue) = Inr (Some (CText rid))" "usageIdentity rid 64"
  shows "validateUsageRow exampleUsageEnv (wireRow rid) = Inr (wireClean rid)"
proof -
  have "validateFields exampleUsageEnv (wireRow rid) Map.empty = Inr (wireClean rid)"
    by (simp add: wireRow_def wireRow_fields wireRow_cost wireRow_details assms(1)) (simp add: wireClean_def)
  moreover have "finishRow exampleUsageEnv (wireClean rid) = Inr (wireClean rid)"
    using assms(2) by (simp add: finishRow_def wireClean_columns example_uints wireRow_charged) (simp add: wireClean_def)
  ultimately show ?thesis by (simp add: validateUsageRow_def)
qed

lemma exampleWire:
  "validateField exampleUsageEnv ''request_id'' (GString ''q1'' :: int goValue) = Inr (Some (CText ''q1''))" "usageIdentity ''q1'' 64"
  "validateField exampleUsageEnv ''request_id'' (GString ''q2'' :: int goValue) = Inr (Some (CText ''q2''))" "usageIdentity ''q2'' 64"
  by (simp_all add: wire_eval usageIdentity_def identityChar_def)

lemmas exampleWire_ok = wireRow_ok [OF exampleWire(1,2)] wireRow_ok [OF exampleWire(3,4)]

theorem row_order_irrelevant_witness: "validateUsageRow exampleUsageEnv (rev (wireRow ''q1'')) = Inr (wireClean ''q1'')"
  using row_order_irrelevant [of "wireRow ''q1''" "rev (wireRow ''q1'')" exampleUsageEnv "wireClean ''q1''"]
  by (simp add: wireRow_distinct exampleWire_ok)

theorem accepted_row_typed_witness: "cleanRowOk exampleUsageEnv (wireClean ''q1'')"
  using accepted_row_typed [OF wireRow_distinct exampleWire_ok(1)] by simp

theorem logged_cost_is_billed_witness: "\<exists>cost. usageCostOf exampleUsageEnv (wireClean ''q1'') = Some cost \<and> 0 \<le> cost \<and> cost \<le> maxCost"
proof -
  have laws: "decimalLaws (ueDecimal exampleUsageEnv) (\<lambda>a. a)" "plainDecimals (ueDecimal exampleUsageEnv) (\<lambda>a. a)"
    using decOps_laws decOps_plain by (simp_all add: exampleUsageEnv_def)
  show ?thesis
    using logged_cost_is_billed [OF laws wireRow_distinct exampleWire_ok(1)] by (auto simp: wireClean_columns wireRow_charged)
qed

end
