(* ===== verification/Cluster_Ledger.thy ===== *)
theory Cluster_Ledger
  imports Usage_Wire
begin

text \<open>
  The accounts of a cluster: a worker keeps the usage rows of its requests until the master has confirmed
  them (\<^verbatim>\<open>internal/logic/cluster/usage_flush.go\<close>, \<^verbatim>\<open>usage_wire.go\<close>, \<^verbatim>\<open>entityRow\<close> of \<^verbatim>\<open>snapshot_build.go\<close>,
  \<^verbatim>\<open>SyncOnce\<close> of \<^verbatim>\<open>worker.go\<close>), the master writes the rows and charges them in one transaction
  (\<^verbatim>\<open>usage_ingest.go\<close>, with the settlement of \<^verbatim>\<open>internal/cmd/billing.go\<close>).

  SHA-256 is a parameter.  Every statement of a transaction may fail (the record \<open>clusterFaults\<close>), a commit
  may also succeed without the caller learning of it, and messages may be lost, delayed or delivered again.
\<close>

subsection \<open>The master's database\<close>

record ('d, 'f, 't) masterDb =
  mdLedger :: "('d, 'f) ledgerDb"
  mdBatches :: "id \<times> string \<Rightarrow> nat option"
  mdRows :: "(id \<times> 't cleanRow) list"

datatype commitResult = Committed | RolledBack | CommitUnknown

record clusterFaults =
  cfClaim :: bool
  cfRead :: bool
  cfGone :: bool
  cfInsert :: "nat \<Rightarrow> bool"
  cfBilling :: "nat \<Rightarrow> dbFaults"
  cfComplete :: bool
  cfCommit :: commitResult

record ('d, 'f, 't) ingestEnv =
  ieUsage :: "('d, 'f, 't) usageEnv"
  ieFloats :: "'f floatOps"
  ieToday :: int
  ieBilling :: bool

datatype ingest_error =
    NoNode
  | BadBatch usage_error
  | ClaimFailed | ClaimReadFailed | ClaimMissing
  | InsertFailed
  | NoBilling | DebitError debit_error | SpendError
  | CompleteFailed | CommitFailed

record UsageAck =
  Accepted :: nat
  Replayed :: bool

text \<open>The unique index on the request ids covers the master's own rows and those of all workers.\<close>

definition takenIds :: "('d, 'f, 't) masterDb \<Rightarrow> string set" where
  "takenIds db = logIds (mdLedger db) \<union> (rowRequestID \<circ> snd) ` set (mdRows db)"

subsection \<open>Receiving a batch\<close>

text \<open>\<^verbatim>\<open>claimUsageBatch\<close>: the count of an earlier commit of the batch, None when this transaction has claimed it.\<close>

definition claimUsageBatch :: "clusterFaults \<Rightarrow> ('d, 'f, 't) masterDb \<Rightarrow> id \<Rightarrow> string \<Rightarrow>
    ingest_error + nat option \<times> ('d, 'f, 't) masterDb" where
  "claimUsageBatch faults db node bid =
     (if cfClaim faults then Inl ClaimFailed
      else case mdBatches db (node, bid) of
             None \<Rightarrow> Inr (None, db\<lparr>mdBatches := (mdBatches db)((node, bid) \<mapsto> 0)\<rparr>)
           | Some rows \<Rightarrow>
               if cfRead faults then Inl ClaimReadFailed
               else if cfGone faults then Inl ClaimMissing
               else Inr (Some rows, db))"

text \<open>\<^verbatim>\<open>insertUsageRows\<close>: a row whose request id is taken is skipped, every other error ends the batch.\<close>

fun insertUsageRows :: "clusterFaults \<Rightarrow> nat \<Rightarrow> id \<Rightarrow> 't cleanRow list \<Rightarrow> ('d, 'f, 't) masterDb \<Rightarrow>
    ingest_error + 't cleanRow list \<times> ('d, 'f, 't) masterDb" where
  "insertUsageRows faults i node [] db = Inr ([], db)"
| "insertUsageRows faults i node (row # rows) db =
     (if cfInsert faults i then Inl InsertFailed
      else if rowRequestID row \<in> takenIds db then insertUsageRows faults (Suc i) node rows db
      else case insertUsageRows faults (Suc i) node rows (db\<lparr>mdRows := mdRows db @ [(node, row)]\<rparr>) of
             Inl e \<Rightarrow> Inl e
           | Inr (inserted, db') \<Rightarrow> Inr (row # inserted, db'))"

text \<open>One turn of \<^verbatim>\<open>billUsageRows\<close>, with the debit and the spend of \<^verbatim>\<open>clusterBilling\<close>.\<close>

definition billUsageRow :: "('d, 'f, 't) ingestEnv \<Rightarrow> dbFaults \<Rightarrow> ('d, 'f) ledgerDb \<Rightarrow> 't cleanRow \<Rightarrow> ingest_error + ('d, 'f) ledgerDb" where
  "billUsageRow env faults l row =
     (let ops = ueDecimal (ieUsage env) in
      case usageCostOf (ieUsage env) row of
        None \<Rightarrow> Inr l
      | Some cost \<Rightarrow>
          if \<not> ieBilling env then Inl NoBilling
          else if dIsZero ops cost then Inr l
          else case SettleUsage ops faults l (uintValueOf (columnValue row ''user_id'')) cost of
                 (Some e, l1) \<Rightarrow> Inl (DebitError e)
               | (None, l1) \<Rightarrow>
                   (case addSpend (ieFloats env) faults l1 (uintValueOf (columnValue row ''api_key_id'')) (dToFloat ops cost) (ieToday env) of
                      (False, l2) \<Rightarrow> Inl SpendError
                    | (True, l2) \<Rightarrow> Inr l2))"

fun billUsageRows :: "('d, 'f, 't) ingestEnv \<Rightarrow> clusterFaults \<Rightarrow> nat \<Rightarrow> 't cleanRow list \<Rightarrow> ('d, 'f) ledgerDb \<Rightarrow>
    ingest_error + ('d, 'f) ledgerDb" where
  "billUsageRows env faults i [] l = Inr l"
| "billUsageRows env faults i (row # rows) l =
     (case billUsageRow env (cfBilling faults i) l row of
        Inl e \<Rightarrow> Inl e
      | Inr l' \<Rightarrow> billUsageRows env faults (Suc i) rows l')"

text \<open>The body of the transaction, then \<^verbatim>\<open>HandleUsage\<close>.\<close>

definition ingestBatch :: "('d, 'f, 't) ingestEnv \<Rightarrow> clusterFaults \<Rightarrow> ('d, 'f, 't) masterDb \<Rightarrow> id \<Rightarrow> string \<Rightarrow> 't cleanRow list \<Rightarrow>
    ingest_error + UsageAck \<times> ('d, 'f, 't) masterDb" where
  "ingestBatch env faults db node bid rows =
     (case claimUsageBatch faults db node bid of
        Inl e \<Rightarrow> Inl e
      | Inr (Some n, db1) \<Rightarrow> Inr (\<lparr>Accepted = n, Replayed = True\<rparr>, db1)
      | Inr (None, db1) \<Rightarrow>
          (case insertUsageRows faults 0 node rows db1 of
             Inl e \<Rightarrow> Inl e
           | Inr (inserted, db2) \<Rightarrow>
               (case billUsageRows env faults 0 inserted (mdLedger db2) of
                  Inl e \<Rightarrow> Inl e
                | Inr l \<Rightarrow>
                    if cfComplete faults then Inl CompleteFailed
                    else Inr (\<lparr>Accepted = length inserted, Replayed = False\<rparr>,
                      db2\<lparr>mdLedger := l, mdBatches := (mdBatches db2)((node, bid) \<mapsto> length inserted)\<rparr>))))"

definition HandleUsage :: "('d, 'f, 't) ingestEnv \<Rightarrow> clusterFaults \<Rightarrow> ('d, 'f, 't) masterDb \<Rightarrow> id \<Rightarrow> 't usageBatch \<Rightarrow>
    (ingest_error + UsageAck) \<times> ('d, 'f, 't) masterDb" where
  "HandleUsage env faults db node batch =
     (if node = 0 then (Inl NoNode, db)
      else case validateUsageBatch (ieUsage env) batch of
             Inl e \<Rightarrow> (Inl (BadBatch e), db)
           | Inr rows \<Rightarrow>
               (case ingestBatch env faults db node (BatchID batch) rows of
                  Inl e \<Rightarrow> (Inl e, db)
                | Inr (ack, db') \<Rightarrow>
                    (case cfCommit faults of
                       Committed \<Rightarrow> (Inr ack, db')
                     | RolledBack \<Rightarrow> (Inl CommitFailed, db)
                     | CommitUnknown \<Rightarrow> (Inl CommitFailed, db'))))"

subsection \<open>The worker's rows on the wire\<close>

text \<open>
  A field of an entity, as reflection finds it: a plain value, a pointer, or a time, which may be zero.
  \<open>SqlNull\<close> is the raw SQL text \<^verbatim>\<open>NULL\<close>.
\<close>

datatype 'v fieldValue = Plain 'v | Pointer "'v option" | Stamp 'v bool

datatype 'v sqlValue = SqlNull | SqlValue 'v

definition fieldSql :: "'v fieldValue \<Rightarrow> 'v sqlValue" where
  "fieldSql x =
     (case x of
        Plain v \<Rightarrow> SqlValue v
      | Pointer None \<Rightarrow> SqlNull
      | Pointer (Some v) \<Rightarrow> SqlValue v
      | Stamp v isZero \<Rightarrow> if isZero then SqlNull else SqlValue v)"

definition entityRow :: "string list \<Rightarrow> (string \<times> 'v fieldValue) list \<Rightarrow> (string \<times> 'v sqlValue) list" where
  "entityRow drops fs =
     map (\<lambda>(column, x). (column, fieldSql x)) (filter (\<lambda>(column, x). column \<noteq> [] \<and> column \<noteq> ''-'' \<and> column \<notin> set drops) fs)"

definition entityRows :: "string list \<Rightarrow> (string \<times> 'v fieldValue) list list \<Rightarrow> (string \<times> 'v sqlValue) list list" where
  "entityRows drops items = map (entityRow drops) items"

text \<open>A row of the worker's \<^verbatim>\<open>usage_logs\<close>: its two identities and the remaining columns.\<close>

datatype 't localValue = LUint nat | LInt int | LText string | LFloat rat | LTime 't

record 't UsageLogs =
  ulId :: nat
  ulRequestId :: string
  ulColumns :: "(string \<times> 't localValue fieldValue) list"

definition usageRowReservedFields :: "string list" where
  "usageRowReservedFields = [''id'', ''node_id'']"

definition usageFields :: "'t UsageLogs \<Rightarrow> (string \<times> 't localValue fieldValue) list" where
  "usageFields r = (''id'', Plain (LUint (ulId r))) # (''request_id'', Plain (LText (ulRequestId r))) # ulColumns r"

definition sqlSome :: "'v sqlValue \<Rightarrow> 'v option" where
  "sqlSome x = (case x of SqlNull \<Rightarrow> None | SqlValue v \<Rightarrow> Some v)"

text \<open>The raw \<^verbatim>\<open>NULL\<close>s are taken out of the rows.\<close>

definition usageRows :: "'t UsageLogs list \<Rightarrow> (string \<times> 't localValue) list list" where
  "usageRows rows =
     map (List.map_filter (\<lambda>(column, x). map_option (Pair column) (sqlSome x)))
       (entityRows usageRowReservedFields (map usageFields rows))"

text \<open>
  \<^verbatim>\<open>json.Marshal\<close> and its decoding with \<^verbatim>\<open>UseNumber\<close>, for one value: numbers keep their text, and a byte of a
  string that is not UTF-8 arrives as U+FFFD.
\<close>

fun coerceUtf8 :: "string \<Rightarrow> string" where
  "coerceUtf8 [] = []"
| "coerceUtf8 (c # cs) =
     (if byteIn 0 0x7F c then c # coerceUtf8 cs
      else case runeLead c of
             None \<Rightarrow> bytes [0xEF, 0xBF, 0xBD] @ coerceUtf8 cs
           | Some (n, lo, hi) \<Rightarrow>
               if length cs < n - 1 \<or> \<not> byteIn lo hi (hd cs) \<or> \<not> list_all contByte (take (n - 2) (tl cs))
               then bytes [0xEF, 0xBF, 0xBD] @ coerceUtf8 cs
               else c # take (n - 1) cs @ coerceUtf8 (drop (n - 1) cs))"

record 't workerEnv =
  weSha :: "string \<Rightarrow> string"
  weFloatJson :: "rat \<Rightarrow> string"
  weTimeText :: "'t \<Rightarrow> string"
  weBatchSize :: int

definition wireValue :: "'t workerEnv \<Rightarrow> 't localValue \<Rightarrow> 't goValue" where
  "wireValue we v =
     (case v of
        LUint n \<Rightarrow> GNumber (showNat n)
      | LInt i \<Rightarrow> GNumber (showInt i)
      | LText s \<Rightarrow> GString (coerceUtf8 s)
      | LFloat x \<Rightarrow> GNumber (weFloatJson we x)
      | LTime t \<Rightarrow> GString (weTimeText we t))"

text \<open>\<^verbatim>\<open>stableBatchID\<close> over the text it hashes.\<close>

definition batchText :: "'t UsageLogs list \<Rightarrow> string" where
  "batchText rows = concat (map (\<lambda>r. showNat (ulId r) @ CHR '':'' # ulRequestId r @ [CHR 0x0A]) rows)"

definition stableBatchID :: "'t workerEnv \<Rightarrow> 't UsageLogs list \<Rightarrow> string" where
  "stableBatchID we rows = weSha we (batchText rows)"

definition outBatch :: "'t workerEnv \<Rightarrow> 't UsageLogs list \<Rightarrow> 't usageBatch" where
  "outBatch we rows = \<lparr>BatchID = stableBatchID we rows, BatchRows = map (map (\<lambda>(column, v). (column, wireValue we v))) (usageRows rows)\<rparr>"

subsection \<open>Flushing\<close>

definition pendingUsage :: "int \<Rightarrow> 't UsageLogs list \<Rightarrow> 't UsageLogs list" where
  "pendingUsage limit outbox = take (nat (if limit \<le> 0 then 200 else limit)) outbox"

text \<open>\<^verbatim>\<open>deleteUsageRows\<close>: one statement for each 200 ids.\<close>

function deleteUsageRows :: "(nat \<Rightarrow> bool) \<Rightarrow> nat \<Rightarrow> nat list \<Rightarrow> 't UsageLogs list \<Rightarrow> bool \<times> 't UsageLogs list" where
  "deleteUsageRows fails i ids outbox =
     (if ids = [] then (True, outbox)
      else if fails i then (False, outbox)
      else deleteUsageRows fails (Suc i) (drop 200 ids) (filter (\<lambda>r. ulId r \<notin> set (take 200 ids)) outbox))"
  by pat_completeness auto
termination
  by (relation "measure (\<lambda>(fails, i, ids, outbox). length ids)") auto

declare deleteUsageRows.simps [simp del]

datatype response = RespLost | RespStatus nat | RespUndecodable | RespAck int bool

datatype flushResult = FlushIdle | NoBatchID | PostFailed | BatchRejected nat | AckUndecodable | AckOutOfRange | DeleteFailed | Flushed int

definition flushUsage :: "'t workerEnv \<Rightarrow> 't UsageLogs list \<Rightarrow> response \<Rightarrow> (nat \<Rightarrow> bool) \<Rightarrow> flushResult \<times> 't UsageLogs list" where
  "flushUsage we outbox resp fails =
     (let rows = pendingUsage (weBatchSize we) outbox in
      if rows = [] then (FlushIdle, outbox)
      else if stableBatchID we rows = [] then (NoBatchID, outbox)
      else case resp of
             RespLost \<Rightarrow> (PostFailed, outbox)
           | RespUndecodable \<Rightarrow> (AckUndecodable, outbox)
           | RespStatus code \<Rightarrow> (BatchRejected code, outbox)
           | RespAck accepted replayed \<Rightarrow>
               if accepted < 0 \<or> int (length rows) < accepted then (AckOutOfRange, outbox)
               else (case deleteUsageRows fails 0 (map ulId rows) outbox of
                       (True, outbox') \<Rightarrow> (Flushed accepted, outbox')
                     | (False, outbox') \<Rightarrow> (DeleteFailed, outbox')))"

definition flushOk :: "flushResult \<Rightarrow> bool" where
  "flushOk r \<longleftrightarrow> r = FlushIdle \<or> (\<exists>n. r = Flushed n)"

subsection \<open>The contract: every consumption is settled once\<close>

text \<open>
  What the accounts of a cluster are, without batches, transactions and failures: the set of request ids
  that have been settled and the ledger.  Settling a row again changes nothing.
\<close>

definition settleLedger :: "('d, 'f, 't) ingestEnv \<Rightarrow> ('d, 'f) ledgerDb \<Rightarrow> 't cleanRow \<Rightarrow> ('d, 'f) ledgerDb" where
  "settleLedger env l row = (case billUsageRow env noFaults l row of Inr l' \<Rightarrow> l' | Inl e \<Rightarrow> l)"

type_synonym ('d, 'f) accounts = "string set \<times> ('d, 'f) ledgerDb"

definition settleRow :: "('d, 'f, 't) ingestEnv \<Rightarrow> ('d, 'f) accounts \<Rightarrow> 't cleanRow \<Rightarrow> ('d, 'f) accounts" where
  "settleRow env a row =
     (if rowRequestID row \<in> fst a then a else (insert (rowRequestID row) (fst a), settleLedger env (snd a) row))"

definition settleAll :: "('d, 'f, 't) ingestEnv \<Rightarrow> ('d, 'f) accounts \<Rightarrow> 't cleanRow list \<Rightarrow> ('d, 'f) accounts" where
  "settleAll env = foldl (settleRow env)"

definition absAccounts :: "('d, 'f, 't) masterDb \<Rightarrow> ('d, 'f) accounts" where
  "absAccounts db = (takenIds db, mdLedger db)"

lemma settleAll_simps [simp]:
  "settleAll env a [] = a" "settleAll env a (row # rows) = settleAll env (settleRow env a row) rows"
  by (simp_all add: settleAll_def)

lemma settleAll_ids: "fst (settleAll env a rows) = fst a \<union> rowRequestID ` set rows"
  by (induction rows arbitrary: a) (auto simp: settleRow_def)

lemma settleAll_known: "rowRequestID ` set rows \<subseteq> fst a \<Longrightarrow> settleAll env a rows = a"
  by (induction rows) (auto simp: settleRow_def)

text \<open>Settling is idempotent: what a repeated delivery relies on.\<close>

lemma settleAll_idem: "settleAll env (settleAll env a rows) rows = settleAll env a rows"
  by (rule settleAll_known) (simp add: settleAll_ids)

lemma debit_noFaults:
  "debit ops faults l u amount debt = (None, l') \<Longrightarrow> debit ops noFaults l u amount debt = (None, l')"
  by (auto simp: debit_def Let_def noFaults_def split: if_splits option.splits)

lemma addSpend_noFaults:
  "addSpend fl faults l k x day = (True, l') \<Longrightarrow> addSpend fl noFaults l k x day = (True, l')"
  by (auto simp: addSpend_def noFaults_def split: if_splits option.splits)

lemma billUsageRow_Inr:
  "billUsageRow env faults l row = Inr l' \<longleftrightarrow>
     (case usageCostOf (ieUsage env) row of
        None \<Rightarrow> l' = l
      | Some cost \<Rightarrow> ieBilling env \<and>
          (if dIsZero (ueDecimal (ieUsage env)) cost then l' = l
           else \<exists>l1. debit (ueDecimal (ieUsage env)) faults l (uintValueOf (columnValue row ''user_id'')) cost True = (None, l1) \<and>
             addSpend (ieFloats env) faults l1 (uintValueOf (columnValue row ''api_key_id'')) (dToFloat (ueDecimal (ieUsage env)) cost) (ieToday env) = (True, l')))"
  by (cases "usageCostOf (ieUsage env) row")
    (auto simp: billUsageRow_def Let_def SettleUsage_def split: option.split prod.split bool.split)

lemma billUsageRow_settles:
  assumes "billUsageRow env faults l row = Inr l'"
  shows "settleLedger env l row = l'" "ldLogs l' = ldLogs l"
proof -
  have "billUsageRow env noFaults l row = Inr l'"
    using assms by (auto simp: billUsageRow_Inr split: option.splits if_splits dest: debit_noFaults addSpend_noFaults)
  then show "settleLedger env l row = l'" by (simp add: settleLedger_def)
  show "ldLogs l' = ldLogs l"
    using assms by (auto simp: billUsageRow_Inr split: option.splits if_splits dest!: ledger_logs)
qed

lemma billUsageRows_settle:
  "billUsageRows env faults i rows l = Inr l' \<Longrightarrow> foldl (settleLedger env) l rows = l' \<and> ldLogs l' = ldLogs l"
  by (induction env faults i rows l rule: billUsageRows.induct)
    (auto split: sum.splits dest: billUsageRow_settles)

lemma takenIds_row [simp]:
  "takenIds (db\<lparr>mdRows := mdRows db @ [(node, row)]\<rparr>) = insert (rowRequestID row) (takenIds db)"
  "takenIds (db\<lparr>mdBatches := b\<rparr>) = takenIds db"
  by (auto simp: takenIds_def)

lemma takenIds_ledger: "ldLogs l = ldLogs (mdLedger db) \<Longrightarrow> takenIds (db\<lparr>mdLedger := l, mdBatches := b\<rparr>) = takenIds db"
  by (simp add: takenIds_def logIds_def)

text \<open>What the insertion does to the database, and that the rows it returns are those the contract settles.\<close>

lemma insertUsageRows_spec:
  "insertUsageRows faults i node rows db = Inr (inserted, db') \<Longrightarrow>
     mdLedger db' = mdLedger db \<and> mdBatches db' = mdBatches db \<and> mdRows db' = mdRows db @ map (Pair node) inserted \<and>
     takenIds db' = takenIds db \<union> rowRequestID ` set rows \<and> length inserted \<le> length rows \<and>
     distinct (map rowRequestID inserted) \<and> rowRequestID ` set inserted \<inter> takenIds db = {} \<and>
     (\<forall>l. settleAll env (takenIds db, l) rows = (takenIds db', foldl (settleLedger env) l inserted))"
proof (induction faults i node rows db arbitrary: inserted db' rule: insertUsageRows.induct)
  case (2 faults i node row rows db)
  show ?case
  proof (cases "rowRequestID row \<in> takenIds db")
    case True
    with "2.prems" have "insertUsageRows faults (Suc i) node rows db = Inr (inserted, db')" by (auto split: if_splits)
    from "2.IH"(1) [OF _ True this] "2.prems" True show ?thesis
      by (auto simp: settleRow_def split: if_splits)
  next
    case False
    let ?db = "db\<lparr>mdRows := mdRows db @ [(node, row)]\<rparr>"
    from "2.prems" False obtain ins where ins: "insertUsageRows faults (Suc i) node rows ?db = Inr (ins, db')" "inserted = row # ins"
      by (auto split: if_splits sum.splits)
    from "2.IH"(2) [OF _ False ins(1)] "2.prems" False ins(2) show ?thesis
      by (auto simp: settleRow_def split: if_splits)
  qed
qed simp

text \<open>What a committed transaction leaves behind.\<close>

lemma ingestBatch_replayed:
  assumes "ingestBatch env faults db node bid rows = Inr (ack, db')" "Replayed ack"
  shows "db' = db" "mdBatches db (node, bid) = Some (Accepted ack)"
  using assms by (auto simp: ingestBatch_def claimUsageBatch_def split: sum.splits option.splits if_splits prod.splits)

lemma ingestBatch_fresh:
  assumes "ingestBatch env faults db node bid rows = Inr (ack, db')" "\<not> Replayed ack"
  shows "mdBatches db (node, bid) = None \<and> mdBatches db' = (mdBatches db)((node, bid) \<mapsto> Accepted ack) \<and>
    absAccounts db' = settleAll env (absAccounts db) rows \<and> takenIds db' = takenIds db \<union> rowRequestID ` set rows \<and>
    (\<exists>inserted. mdRows db' = mdRows db @ map (Pair node) inserted \<and> mdLedger db' = foldl (settleLedger env) (mdLedger db) inserted \<and>
       Accepted ack = length inserted \<and> length inserted \<le> length rows \<and>
       distinct (map rowRequestID inserted) \<and> rowRequestID ` set inserted \<inter> takenIds db = {})"
proof -
  let ?db1 = "db\<lparr>mdBatches := (mdBatches db)((node, bid) \<mapsto> 0)\<rparr>"
  from assms obtain inserted db2 l where run: "mdBatches db (node, bid) = None"
    "insertUsageRows faults 0 node rows ?db1 = Inr (inserted, db2)" "billUsageRows env faults 0 inserted (mdLedger db2) = Inr l"
    "ack = \<lparr>Accepted = length inserted, Replayed = False\<rparr>"
    "db' = db2\<lparr>mdLedger := l, mdBatches := (mdBatches db2)((node, bid) \<mapsto> length inserted)\<rparr>"
    by (auto simp: ingestBatch_def claimUsageBatch_def split: sum.splits option.splits if_splits)
  note i = insertUsageRows_spec [OF run(2), of env]
  have l: "foldl (settleLedger env) (mdLedger db) inserted = l" "ldLogs l = ldLogs (mdLedger db2)"
    using billUsageRows_settle [OF run(3)] i by auto
  have "takenIds db' = takenIds db2" unfolding run(5) by (rule takenIds_ledger) (rule l(2))
  with run i l show ?thesis by (auto simp: absAccounts_def)
qed

lemma HandleUsage_cases:
  assumes "HandleUsage env faults db node batch = (r, db')"
  obtains (unchanged) e where "r = Inl e" "db' = db"
    | (unknown) rows ack where "r = Inl CommitFailed" "validateUsageBatch (ieUsage env) batch = Inr rows" "node \<noteq> 0"
        "ingestBatch env faults db node (BatchID batch) rows = Inr (ack, db')"
    | (acked) rows ack where "r = Inr ack" "validateUsageBatch (ieUsage env) batch = Inr rows" "node \<noteq> 0"
        "ingestBatch env faults db node (BatchID batch) rows = Inr (ack, db')"
  using assms by (auto simp: HandleUsage_def split: if_splits sum.splits commitResult.splits)

subsection \<open>What the wire carries\<close>

text \<open>The columns of the table are distinct, and the identities are not among the rest.\<close>

definition wfUsageLogs :: "'t UsageLogs \<Rightarrow> bool" where
  "wfUsageLogs r \<longleftrightarrow> distinct (map fst (ulColumns r)) \<and> ''id'' \<notin> fst ` set (ulColumns r) \<and> ''request_id'' \<notin> fst ` set (ulColumns r)"

definition wireRowOf :: "'t workerEnv \<Rightarrow> 't UsageLogs \<Rightarrow> 't wireRow" where
  "wireRowOf we r = map (\<lambda>(column, v). (column, wireValue we v))
     (List.map_filter (\<lambda>(column, x). map_option (Pair column) (sqlSome x)) (entityRow usageRowReservedFields (usageFields r)))"

lemma outBatch_rows: "BatchRows (outBatch we rows) = map (wireRowOf we) rows"
  by (simp add: outBatch_def usageRows_def entityRows_def wireRowOf_def)

lemma outBatch_id [simp]: "BatchID (outBatch we rows) = stableBatchID we rows"
  by (simp add: outBatch_def)

lemma map_filter_pairs:
  "(k, v) \<in> set (List.map_filter (\<lambda>(k, x). map_option (Pair k) (f x)) xs) \<longleftrightarrow> (\<exists>x. (k, x) \<in> set xs \<and> f x = Some v)"
  by (induction xs) (auto simp: List.map_filter_simps split: option.split)

lemma map_filter_distinct:
  "distinct (map fst xs) \<Longrightarrow> distinct (map fst (List.map_filter (\<lambda>(k, x). map_option (Pair k) (f x)) xs))"
proof (induction xs)
  case (Cons a xs)
  obtain k x where a: "a = (k, x)" by fastforce
  have "k \<notin> fst ` set (List.map_filter (\<lambda>(k, x). map_option (Pair k) (f x)) xs)"
  proof
    assume "k \<in> fst ` set (List.map_filter (\<lambda>(k, x). map_option (Pair k) (f x)) xs)"
    then obtain v where "(k, v) \<in> set (List.map_filter (\<lambda>(k, x). map_option (Pair k) (f x)) xs)" by fastforce
    then obtain y where "(k, y) \<in> set xs" unfolding map_filter_pairs by blast
    with Cons.prems a show False by (auto intro: rev_image_eqI)
  qed
  with Cons a show ?case by (auto simp: List.map_filter_simps split: option.split)
qed (simp add: List.map_filter_simps)

lemma wireRowOf_distinct:
  assumes "wfUsageLogs r"
  shows "distinct (map fst (wireRowOf we r))" "map_of (wireRowOf we r) ''request_id'' = Some (GString (coerceUtf8 (ulRequestId r)))"
proof -
  have d: "distinct (map fst (entityRow usageRowReservedFields (usageFields r)))"
  proof -
    have all: "distinct (map fst (usageFields r))" using assms by (simp add: usageFields_def wfUsageLogs_def)
    have "map fst (entityRow ds fs) = map fst (filter (\<lambda>(column, x). column \<noteq> [] \<and> column \<noteq> ''-'' \<and> column \<notin> set ds) fs)"
      for ds and fs :: "(string \<times> 'a localValue fieldValue) list"
      by (simp add: entityRow_def case_prod_beta comp_def)
    with all show ?thesis by (simp add: distinct_map_filter)
  qed
  have keys: "map fst (map (\<lambda>(column, v). (column, wireValue we v)) ys) = map fst ys" for ys :: "(string \<times> 'a localValue) list"
    by auto
  from map_filter_distinct [OF d, of sqlSome] show dd: "distinct (map fst (wireRowOf we r))" unfolding wireRowOf_def keys .
  have "(''request_id'', GString (coerceUtf8 (ulRequestId r))) \<in> set (wireRowOf we r)"
    unfolding wireRowOf_def
    by (simp add: entityRow_def usageFields_def usageRowReservedFields_def List.map_filter_simps fieldSql_def sqlSome_def wireValue_def)
  with dd show "map_of (wireRowOf we r) ''request_id'' = Some (GString (coerceUtf8 (ulRequestId r)))" by (simp add: map_of_eq_Some_iff)
qed

lemma identityChar_ascii: "identityChar c \<Longrightarrow> byteIn 0 0x7F c"
  by (auto simp: identityChar_def byteIn_def isDigit_def Let_def)

lemma coerceUtf8_ascii: "list_all (byteIn 0 0x7F) (coerceUtf8 s) \<Longrightarrow> coerceUtf8 s = s"
proof (induction s rule: coerceUtf8.induct)
  case (2 c cs)
  show ?case
  proof (cases "byteIn 0 0x7F c")
    case True
    with 2 show ?thesis by simp
  next
    case False
    have "\<not> byteIn 0 0x7F (char_of (0xEF :: nat))" by (simp add: byteIn_def of_char_of)
    with False "2.prems" show ?thesis by (auto simp: bytes_def split: option.splits prod.splits if_splits)
  qed
qed simp

text \<open>A row the master accepts arrives with the request id that the worker gave it.\<close>

lemma wireRow_requestID:
  assumes "wfUsageLogs r" "validateUsageRow env (wireRowOf we r) = Inr clean"
  shows "rowRequestID clean = ulRequestId r" "usageIdentity (ulRequestId r) 64"
proof -
  let ?w = "wireRowOf we r"
  have acc: "fieldsAccepted env ?w" and fin: "finishRow env (cleanFields env ?w) = Inr clean"
    using validateUsageRow_iff [OF wireRowOf_distinct(1) [OF assms(1)]] assms(2) by auto
  note f = finishRow_cases [OF fin]
  have "validateField env ''request_id'' (GString (coerceUtf8 (ulRequestId r))) = Inr (cleanField env ''request_id'' (GString (coerceUtf8 (ulRequestId r))))"
    using acc wireRowOf_distinct(2) [OF assms(1), of we] by (auto simp: fieldsAccepted_def dest!: map_of_SomeD)
  then have "cleanField env ''request_id'' (GString (coerceUtf8 (ulRequestId r))) = Some (CText (coerceUtf8 (ulRequestId r)))"
    by (auto simp: validateField_def validateString_def usageStringLimits_def split: option.splits if_splits)
  then have "cleanFields env ?w ''request_id'' = Some (CText (coerceUtf8 (ulRequestId r)))"
    using wireRowOf_distinct(2) [OF assms(1), of we] by (simp add: cleanFields_def)
  then have id: "rowRequestID (cleanFields env ?w) = coerceUtf8 (ulRequestId r)" by (simp add: rowRequestID_def)
  with f(1) have ident: "usageIdentity (coerceUtf8 (ulRequestId r)) 64" by simp
  then have "coerceUtf8 (ulRequestId r) = ulRequestId r"
    by (intro coerceUtf8_ascii) (auto simp: usageIdentity_def list_all_iff identityChar_ascii)
  with id ident f(4) show "rowRequestID clean = ulRequestId r" "usageIdentity (ulRequestId r) 64" by (auto simp: rowRequestID_def)
qed

lemma validateRows_ids:
  assumes "\<forall>r \<in> set rows. wfUsageLogs r"
  shows "validateRows env seen (map (wireRowOf we) rows) = Inr cleans \<Longrightarrow>
    rowRequestID ` set cleans \<union> set seen = ulRequestId ` set rows \<union> set seen \<and> length cleans \<le> length rows \<and>
    (\<forall>r \<in> set rows. usageIdentity (ulRequestId r) 64)"
  using assms
proof (induction rows arbitrary: seen cleans)
  case (Cons r rows)
  from Cons.prems(1) obtain c where c: "validateUsageRow env (wireRowOf we r) = Inr c" by (auto split: sum.splits)
  note id = wireRow_requestID [OF _ c]
  show ?case
  proof (cases "rowRequestID c \<in> set seen")
    case True
    then have "validateRows env seen (map (wireRowOf we) rows) = Inr cleans" using Cons.prems(1) c by simp
    from Cons.IH [OF this] Cons.prems(2) id True show ?thesis by auto
  next
    case False
    then obtain cs where cs: "validateRows env (rowRequestID c # seen) (map (wireRowOf we) rows) = Inr cs" "cleans = c # cs"
      using Cons.prems(1) c by (auto split: sum.splits)
    from Cons.IH [OF cs(1)] Cons.prems(2) id cs(2) show ?thesis by auto
  qed
qed simp

lemma outBatch_valid:
  assumes "validateUsageBatch env (outBatch we rows) = Inr cleans" "\<forall>r \<in> set rows. wfUsageLogs r"
  shows "rowRequestID ` set cleans = ulRequestId ` set rows" "length cleans \<le> length rows" "\<forall>r \<in> set rows. usageIdentity (ulRequestId r) 64"
proof -
  have v: "validateRows env [] (map (wireRowOf we) rows) = Inr cleans"
    using assms(1) by (auto simp: validateUsageBatch_def outBatch_rows split: if_splits)
  from validateRows_ids [OF assms(2) v] show "rowRequestID ` set cleans = ulRequestId ` set rows" "length cleans \<le> length rows"
    "\<forall>r \<in> set rows. usageIdentity (ulRequestId r) 64" by auto
qed

text \<open>The text under the hash determines the identities of the rows, once they are plain.\<close>

lemma usageIdentity_newline: "usageIdentity s n \<Longrightarrow> CHR 0x0A \<notin> set s"
  by (auto simp: usageIdentity_def list_all_iff identityChar_def byteIn_def isDigit_def Let_def)

lemma showNat_no: "CHR '':'' \<notin> set (showNat n)" "CHR 0x0A \<notin> set (showNat n)"
  using showNat_all_digits [of "CHR '':''" n] showNat_all_digits [of "CHR 0x0A" n] by (auto simp: isDigit_def)

lemma batchText_inject:
  assumes "\<forall>r \<in> set rows. usageIdentity (ulRequestId r) 64" "\<forall>r \<in> set rows'. usageIdentity (ulRequestId r) 64"
    and "batchText rows = batchText rows'"
  shows "map (\<lambda>r. (ulId r, ulRequestId r)) rows = map (\<lambda>r. (ulId r, ulRequestId r)) rows'"
  using assms
proof (induction rows arbitrary: rows')
  case Nil
  then show ?case by (cases rows') (auto simp: batchText_def)
next
  case (Cons r rows)
  then obtain q qs where q: "rows' = q # qs" by (cases rows') (auto simp: batchText_def)
  let ?line = "\<lambda>r. showNat (ulId r) @ CHR '':'' # ulRequestId r"
  have eq: "?line r @ CHR 0x0A # batchText rows = ?line q @ CHR 0x0A # batchText qs"
    using Cons.prems(3) by (simp add: q batchText_def)
  have no: "CHR 0x0A \<notin> set (?line r)" "CHR 0x0A \<notin> set (?line q)"
    using Cons.prems showNat_no(2) by (auto simp: q usageIdentity_newline)
  from append_sep_inject [OF no, THEN iffD1, OF eq]
  have line: "?line r = ?line q" and rest: "batchText rows = batchText qs" by simp_all
  from append_sep_inject [OF showNat_no(1) showNat_no(1), THEN iffD1, OF line]
  have "ulId r = ulId q" "ulRequestId r = ulRequestId q" by simp_all
  with rest show ?case using Cons.IH [of qs] Cons.prems by (simp add: q)
qed

end
