(* ===== verification/Cluster_System.thy ===== *)
theory Cluster_System
  imports Cluster_Ledger
begin

text \<open>
  Workers and master together: the synchronisation of a worker
  (\<^verbatim>\<open>SyncOnce\<close> and \<^verbatim>\<open>applyAndPersist\<close> of \<^verbatim>\<open>internal/logic/cluster/worker.go\<close>), and a step relation in which
  requests are recorded on the workers and on the master, batches are sent, delivered any number of times
  and in any order, and answers arrive or are lost.
\<close>

subsection \<open>The flush removes only what was sent\<close>

lemma deleteUsageRows_sub:
  "deleteUsageRows fails i ids outbox = (ok, outbox') \<Longrightarrow>
     set outbox' \<subseteq> set outbox \<and> (\<forall>r \<in> set outbox. ulId r \<notin> set ids \<longrightarrow> r \<in> set outbox')"
proof (induction fails i ids outbox rule: deleteUsageRows.induct)
  case (1 fails i ids outbox)
  show ?case
  proof (cases "ids = [] \<or> fails i")
    case True
    with "1.prems" show ?thesis by (auto simp: deleteUsageRows.simps [of fails i ids outbox] split: if_splits)
  next
    case False
    let ?out = "filter (\<lambda>r. ulId r \<notin> set (take 200 ids)) outbox"
    have "deleteUsageRows fails (Suc i) (drop 200 ids) ?out = (ok, outbox')"
      using "1.prems" False by (simp add: deleteUsageRows.simps [of fails i ids outbox])
    from "1.IH" [OF _ _ this] False have "set outbox' \<subseteq> set ?out"
      "\<forall>r \<in> set ?out. ulId r \<notin> set (drop 200 ids) \<longrightarrow> r \<in> set outbox'" by auto
    then show ?thesis by (auto dest: in_set_takeD in_set_dropD)
  qed
qed

lemma deleteUsageRows_ok:
  "deleteUsageRows fails i ids outbox = (True, outbox') \<Longrightarrow> outbox' = filter (\<lambda>r. ulId r \<notin> set ids) outbox"
proof (induction fails i ids outbox rule: deleteUsageRows.induct)
  case (1 fails i ids outbox)
  show ?case
  proof (cases "ids = []")
    case True
    with "1.prems" deleteUsageRows.simps [of fails i ids outbox] show ?thesis by simp
  next
    case False
    let ?out = "filter (\<lambda>r. ulId r \<notin> set (take 200 ids)) outbox"
    have f: "\<not> fails i" "deleteUsageRows fails (Suc i) (drop 200 ids) ?out = (True, outbox')"
      using "1.prems" False by (auto simp: deleteUsageRows.simps [of fails i ids outbox] split: if_splits)
    have "set ids = set (take 200 ids) \<union> set (drop 200 ids)" by (metis append_take_drop_id set_append)
    with "1.IH" [OF False f] show ?thesis by (auto intro: filter_cong)
  qed
qed

lemma deleteUsageRows_noFaults:
  "deleteUsageRows (\<lambda>i. False) i ids outbox = (True, filter (\<lambda>r. ulId r \<notin> set ids) outbox)"
proof -
  have "fst (deleteUsageRows (\<lambda>i. False) i ids outbox)"
  proof (induction "\<lambda>i :: nat. False" i ids outbox rule: deleteUsageRows.induct)
    case (1 i ids outbox)
    then show ?case using deleteUsageRows.simps [of "\<lambda>i. False" i ids outbox] by (cases "ids = []") simp_all
  qed
  then show ?thesis using deleteUsageRows_ok [of "\<lambda>i. False" i ids outbox "snd (deleteUsageRows (\<lambda>i. False) i ids outbox)"]
    by (metis prod.collapse)
qed

lemma pendingUsage_set: "set (pendingUsage limit outbox) \<subseteq> set outbox"
  by (simp add: pendingUsage_def set_take_subset)

lemma pendingUsage_Nil [simp]: "pendingUsage limit outbox = [] \<longleftrightarrow> outbox = []"
  by (auto simp: pendingUsage_def)

text \<open>Rows leave the outbox only in answer to an acknowledgment of the batch that held them.\<close>

lemma flushUsage_kept:
  assumes "flushUsage we outbox resp fails = (res, outbox')"
  shows "set outbox' \<subseteq> set outbox"
    "r \<in> set outbox \<Longrightarrow> r \<notin> set outbox' \<Longrightarrow> ulId r \<in> ulId ` set (pendingUsage (weBatchSize we) outbox) \<and> (\<exists>a rep. resp = RespAck a rep)"
  using assms
  by (auto simp: flushUsage_def Let_def split: if_splits response.splits prod.splits bool.splits dest!: deleteUsageRows_sub)

lemma flushUsage_noAck: "(\<And>a rep. resp \<noteq> RespAck a rep) \<Longrightarrow> snd (flushUsage we outbox resp fails) = outbox"
  by (auto simp: flushUsage_def Let_def split: response.splits)

lemma flushUsage_Flushed:
  assumes "flushUsage we outbox resp fails = (Flushed n, outbox')"
  shows "outbox' = filter (\<lambda>r. ulId r \<notin> ulId ` set (pendingUsage (weBatchSize we) outbox)) outbox"
  using assms
  by (auto simp: flushUsage_def Let_def split: if_splits response.splits prod.splits bool.splits dest!: deleteUsageRows_ok)

lemma flushUsage_shrinks:
  assumes "flushUsage we outbox resp fails = (Flushed n, outbox')" "outbox \<noteq> []"
  shows "length outbox' < length outbox"
proof -
  have "hd outbox \<in> set (pendingUsage (weBatchSize we) outbox)"
    using assms(2) by (cases outbox) (auto simp: pendingUsage_def take_Cons' nat_eq_iff)
  then show ?thesis unfolding flushUsage_Flushed [OF assms(1)]
    using assms(2) by (intro length_filter_less [of "hd outbox"]) auto
qed

lemma flushUsage_idle: "fst (flushUsage we outbox resp fails) = FlushIdle \<longleftrightarrow> outbox = []"
  by (auto simp: flushUsage_def Let_def split: response.splits prod.splits bool.splits)

subsection \<open>Synchronisation\<close>

text \<open>
  The loop of \<^verbatim>\<open>SyncOnce\<close> that settles every local row first.  The arguments give, for each turn, whether
  counting fails, what the master answers and which deletions fail.
\<close>

function drainOutbox :: "'t workerEnv \<Rightarrow> (nat \<Rightarrow> bool) \<Rightarrow> (nat \<Rightarrow> response) \<Rightarrow> (nat \<Rightarrow> nat \<Rightarrow> bool) \<Rightarrow> nat \<Rightarrow> 't UsageLogs list \<Rightarrow>
    bool \<times> 't UsageLogs list" where
  "drainOutbox we countFails resp fails i outbox =
     (if countFails i then (False, outbox)
      else if outbox = [] then (True, outbox)
      else case flushUsage we outbox (resp i) (fails i) of
             (Flushed n, outbox') \<Rightarrow> drainOutbox we countFails resp fails (Suc i) outbox'
           | (_, outbox') \<Rightarrow> (False, outbox'))"
  by pat_completeness auto
termination
  by (relation "measure (\<lambda>(we, countFails, resp, fails, i, outbox). length outbox)") (auto dest: flushUsage_shrinks [OF sym])

declare drainOutbox.simps [simp del]

record ('t, 'm) workerDb =
  wkOutbox :: "'t UsageLogs list"
  wkMirror :: 'm
  wkVersion :: int

datatype 'm configResponse =
  ConfigLost | ConfigEmpty | ConfigNotModified | ConfigStatus nat | ConfigUndecodable | ConfigSnapshot int 'm

datatype syncResult =
  NotDrained | VersionUnreadable | ConfigFailed | ConfigRejected nat | SyncUnchanged | ApplyFailed | VersionNotSaved | SyncApplied

record 'm syncWorld =
  swCountFails :: "nat \<Rightarrow> bool"
  swResponses :: "nat \<Rightarrow> response"
  swDeleteFails :: "nat \<Rightarrow> nat \<Rightarrow> bool"
  swVersionFails :: bool
  swConfig :: "int \<Rightarrow> 'm configResponse"
  swApplyFails :: bool
  swSaveFails :: bool

text \<open>The mirror is written before the version, in a transaction of its own.\<close>

definition applyAndPersist :: "'m syncWorld \<Rightarrow> int \<Rightarrow> 'm \<Rightarrow> ('t, 'm) workerDb \<Rightarrow> syncResult \<times> ('t, 'm) workerDb" where
  "applyAndPersist w version snapshot db =
     (if swApplyFails w then (ApplyFailed, db)
      else if swSaveFails w then (VersionNotSaved, db\<lparr>wkMirror := snapshot\<rparr>)
      else (SyncApplied, db\<lparr>wkMirror := snapshot, wkVersion := version\<rparr>))"

definition SyncOnce :: "'t workerEnv \<Rightarrow> 'm syncWorld \<Rightarrow> ('t, 'm) workerDb \<Rightarrow> syncResult \<times> ('t, 'm) workerDb" where
  "SyncOnce we w db =
     (let (drained, outbox) = drainOutbox we (swCountFails w) (swResponses w) (swDeleteFails w) 0 (wkOutbox db);
          db1 = db\<lparr>wkOutbox := outbox\<rparr>
      in if \<not> drained then (NotDrained, db1)
         else if swVersionFails w then (VersionUnreadable, db1)
         else case swConfig w (wkVersion db1) of
                ConfigLost \<Rightarrow> (ConfigFailed, db1)
              | ConfigEmpty \<Rightarrow> (ConfigFailed, db1)
              | ConfigNotModified \<Rightarrow> (SyncUnchanged, db1)
              | ConfigStatus code \<Rightarrow> (ConfigRejected code, db1)
              | ConfigUndecodable \<Rightarrow> (ConfigFailed, db1)
              | ConfigSnapshot version snapshot \<Rightarrow> applyAndPersist w version snapshot db1)"

lemma drainOutbox_done: "drainOutbox we c resp fails i outbox = (True, outbox') \<Longrightarrow> outbox' = []"
proof (induction we c resp fails i outbox rule: drainOutbox.induct)
  case (1 we c resp fails i outbox)
  show ?case
  proof (cases "c i \<or> outbox = []")
    case True
    with "1.prems" show ?thesis by (auto simp: drainOutbox.simps [of we c resp fails i outbox] split: if_splits)
  next
    case False
    obtain res out where f: "flushUsage we outbox (resp i) (fails i) = (res, out)" by fastforce
    show ?thesis
    proof (cases "\<exists>n. res = Flushed n")
      case True
      then obtain n where n: "res = Flushed n" by blast
      with "1.prems" False f have "drainOutbox we c resp fails (Suc i) out = (True, outbox')"
        by (simp add: drainOutbox.simps [of we c resp fails i outbox])
      with "1.IH" [OF _ _ f [symmetric] n] False show ?thesis by auto
    next
      case False
      with "1.prems" \<open>\<not> (c i \<or> outbox = [])\<close> f show ?thesis
        by (cases res) (auto simp: drainOutbox.simps [of we c resp fails i outbox])
    qed
  qed
qed

text \<open>
  the balances and keys of a worker are only replaced once every usage row it holds has been accepted
  by the master: a synchronisation that changes the mirror ends with an empty outbox, and one that does not
  succeed in settling the rows leaves the old mirror and its version in place.
\<close>

theorem snapshot_only_after_settlement:
  "case SyncOnce we w db of (res, db') \<Rightarrow>
     (res = SyncApplied \<or> wkMirror db' \<noteq> wkMirror db \<or> wkVersion db' \<noteq> wkVersion db \<or> res = SyncUnchanged \<longrightarrow> wkOutbox db' = []) \<and>
     (res \<noteq> SyncApplied \<longrightarrow> wkVersion db' = wkVersion db) \<and>
     (res = NotDrained \<longrightarrow> wkMirror db' = wkMirror db)"
  by (auto simp: SyncOnce_def applyAndPersist_def Let_def split: prod.splits configResponse.splits dest: drainOutbox_done)

subsection \<open>The cluster as a system of steps\<close>

text \<open>
  The history of the master's ledger: settled rows of workers, and requests that the master itself has
  accounted for (\<^const>\<open>recordUsage\<close>).
\<close>

datatype ('d, 'f, 't, 'g) ledgerEntry =
    Remote "'t cleanRow"
  | Own "('d, 'f, 'g) recordEnv" requestInfo Candidate nat attemptResult

fun applyEntry :: "('d, 'f, 't) ingestEnv \<Rightarrow> ('d, 'f) ledgerDb \<Rightarrow> ('d, 'f, 't, 'g) ledgerEntry \<Rightarrow> ('d, 'f) ledgerDb" where
  "applyEntry env l (Remote row) = settleLedger env l row"
| "applyEntry env l (Own renv rq c n r) = (case recordUsage renv l rq c n r of Some (e, l') \<Rightarrow> l' | None \<Rightarrow> l)"

fun remoteRow :: "('d, 'f, 't, 'g) ledgerEntry \<Rightarrow> 't cleanRow option" where
  "remoteRow (Remote row) = Some row"
| "remoteRow (Own renv rq c n r) = None"

text \<open>
  The workers are numbered; \<open>sySent\<close> holds every batch that has ever been sent, \<open>syAcks\<close> every answer.
  \<open>syRecorded\<close> and \<open>syHistory\<close> only observe.
\<close>

record ('d, 'f, 't, 'g) clusterSys =
  syMaster :: "('d, 'f, 't) masterDb"
  syOutbox :: "nat \<Rightarrow> 't UsageLogs list"
  sySent :: "'t UsageLogs list set"
  syAcks :: "('t UsageLogs list \<times> UsageAck) set"
  syRecorded :: "nat \<Rightarrow> string set"
  syHistory :: "('d, 'f, 't, 'g) ledgerEntry list"

text \<open>
  A delivery may carry any registered node's identity and any batch sent so far, also one whose sender has
  given up.  A response reaches a worker as an answer to the batch it is waiting for, or as any failure.
\<close>

inductive clusterStep :: "('d, 'f, 't) ingestEnv \<Rightarrow> 't workerEnv \<Rightarrow> ('d, 'f, 't, 'g) clusterSys \<Rightarrow> ('d, 'f, 't, 'g) clusterSys \<Rightarrow> bool"
  for env we where
  record_local: "\<lbrakk>wfUsageLogs r; \<forall>q \<in> set (syOutbox s w). ulId q < ulId r\<rbrakk> \<Longrightarrow>
     clusterStep env we s (s\<lparr>syOutbox := (syOutbox s)(w := syOutbox s w @ [r]),
       syRecorded := (syRecorded s)(w := insert (ulRequestId r) (syRecorded s w))\<rparr>)"
| send: "\<lbrakk>pendingUsage (weBatchSize we) (syOutbox s w) = rows; rows \<noteq> []\<rbrakk> \<Longrightarrow>
     clusterStep env we s (s\<lparr>sySent := insert rows (sySent s)\<rparr>)"
| deliver: "\<lbrakk>rows \<in> sySent s; HandleUsage env faults (syMaster s) node (outBatch we rows) = (res, db)\<rbrakk> \<Longrightarrow>
     clusterStep env we s (s\<lparr>syMaster := db,
       syAcks := (case res of Inr ack \<Rightarrow> insert (rows, ack) (syAcks s) | Inl e \<Rightarrow> syAcks s),
       syHistory := syHistory s @ map (Remote \<circ> snd) (drop (length (mdRows (syMaster s))) (mdRows db))\<rparr>)"
| respond: "\<lbrakk>flushUsage we (syOutbox s w) resp fails = (res, outbox);
      \<And>a rep. resp = RespAck a rep \<Longrightarrow>
        \<exists>ack. (pendingUsage (weBatchSize we) (syOutbox s w), ack) \<in> syAcks s \<and> a = int (Accepted ack) \<and> rep = Replayed ack\<rbrakk> \<Longrightarrow>
     clusterStep env we s (s\<lparr>syOutbox := (syOutbox s)(w := outbox)\<rparr>)"
| own: "\<lbrakk>recordUsage renv (mdLedger (syMaster s)) rq c n r = Some (e, l); rqID rq \<notin> (rowRequestID \<circ> snd) ` set (mdRows (syMaster s))\<rbrakk> \<Longrightarrow>
     clusterStep env we s (s\<lparr>syMaster := (syMaster s)\<lparr>mdLedger := l\<rparr>, syHistory := syHistory s @ [Own renv rq c n r]\<rparr>)"

definition initialSys :: "('d, 'f) ledgerDb \<Rightarrow> ('d, 'f, 't, 'g) clusterSys" where
  "initialSys l = \<lparr>syMaster = \<lparr>mdLedger = l, mdBatches = Map.empty, mdRows = []\<rparr>, syOutbox = (\<lambda>w. []), sySent = {},
     syAcks = {}, syRecorded = (\<lambda>w. {}), syHistory = []\<rparr>"

definition reachableSys :: "('d, 'f, 't) ingestEnv \<Rightarrow> 't workerEnv \<Rightarrow> ('d, 'f) ledgerDb \<Rightarrow> ('d, 'f, 't, 'g) clusterSys \<Rightarrow> bool" where
  "reachableSys env we l s \<longleftrightarrow> (clusterStep env we)\<^sup>*\<^sup>* (initialSys l) s"

text \<open>Two different batches of a run do not have the same hash.\<close>

definition hashInjective :: "'t workerEnv \<Rightarrow> ('d, 'f, 't, 'g) clusterSys \<Rightarrow> bool" where
  "hashInjective we s \<longleftrightarrow> inj_on (weSha we) (batchText ` sySent s)"

subsection \<open>The invariant\<close>

definition idsOf :: "'t UsageLogs list \<Rightarrow> string set" where
  "idsOf rows = ulRequestId ` set rows"

definition claimsOk :: "('d, 'f, 't) ingestEnv \<Rightarrow> 't workerEnv \<Rightarrow> ('d, 'f, 't, 'g) clusterSys \<Rightarrow> bool" where
  "claimsOk env we s \<longleftrightarrow>
     (\<forall>node bid k. mdBatches (syMaster s) (node, bid) = Some k \<longrightarrow>
        (\<exists>rows cleans. rows \<in> sySent s \<and> stableBatchID we rows = bid \<and> validateUsageBatch (ieUsage env) (outBatch we rows) = Inr cleans \<and>
           idsOf rows \<subseteq> takenIds (syMaster s) \<and> k \<le> length rows))"

definition acksOk :: "('d, 'f, 't, 'g) clusterSys \<Rightarrow> bool" where
  "acksOk s \<longleftrightarrow> (\<forall>(rows, ack) \<in> syAcks s. rows \<in> sySent s \<and> idsOf rows \<subseteq> takenIds (syMaster s) \<and> Accepted ack \<le> length rows)"

definition rowsOk :: "('d, 'f, 't, 'g) clusterSys \<Rightarrow> bool" where
  "rowsOk s \<longleftrightarrow> (\<forall>w. \<forall>r \<in> set (syOutbox s w). wfUsageLogs r) \<and> (\<forall>w. distinct (map ulId (syOutbox s w))) \<and>
     (\<forall>rows \<in> sySent s. \<forall>r \<in> set rows. wfUsageLogs r)"

definition ledgerOk :: "('d, 'f, 't) ingestEnv \<Rightarrow> ('d, 'f) ledgerDb \<Rightarrow> ('d, 'f, 't, 'g) clusterSys \<Rightarrow> bool" where
  "ledgerOk env l s \<longleftrightarrow> mdLedger (syMaster s) = foldl (applyEntry env) l (syHistory s) \<and>
     List.map_filter remoteRow (syHistory s) = map snd (mdRows (syMaster s)) \<and>
     distinct (map (rowRequestID \<circ> snd) (mdRows (syMaster s))) \<and>
     logIds (mdLedger (syMaster s)) \<inter> (rowRequestID \<circ> snd) ` set (mdRows (syMaster s)) = {}"

definition keptOk :: "('d, 'f, 't, 'g) clusterSys \<Rightarrow> bool" where
  "keptOk s \<longleftrightarrow> (\<forall>w. syRecorded s w \<subseteq> idsOf (syOutbox s w) \<union> takenIds (syMaster s))"

definition clusterInv :: "('d, 'f, 't) ingestEnv \<Rightarrow> 't workerEnv \<Rightarrow> ('d, 'f) ledgerDb \<Rightarrow> ('d, 'f, 't, 'g) clusterSys \<Rightarrow> bool" where
  "clusterInv env we l s \<longleftrightarrow> claimsOk env we s \<and> acksOk s \<and> rowsOk s \<and> ledgerOk env l s \<and> keptOk s"

lemmas inv_defs = claimsOk_def acksOk_def rowsOk_def ledgerOk_def keptOk_def

lemma initial_inv: "clusterInv env we l (initialSys l)"
  by (simp add: clusterInv_def inv_defs initialSys_def List.map_filter_simps)

text \<open>Only \<open>sySent\<close> is under the hypothesis on the hash, and it grows.\<close>

lemma clusterStep_sent: "clusterStep env we s s' \<Longrightarrow> sySent s \<subseteq> sySent s'"
  by (induction rule: clusterStep.induct) auto

lemma clusterStep_injective: "clusterStep env we s s' \<Longrightarrow> hashInjective we s' \<Longrightarrow> hashInjective we s"
  unfolding hashInjective_def by (drule clusterStep_sent) (meson image_mono inj_on_subset)

lemma recordUsage_logs:
  assumes "recordUsage env db rq c n r = Some (e, db')"
  shows "ldLogs db' = ldLogs db \<or> (\<exists>row. ldLogs db' = ldLogs db @ [row] \<and> riRequestID row = rqID rq)"
proof -
  obtain plan where plan: "planRecord env rq c r = Some plan" using assms by (auto simp: recordUsage_def split: option.splits)
  obtain m ch db1 where p: "persist env rq c n r plan db = (m, ch, db1)" by (cases "persist env rq c n r plan db") auto
  obtain ch0 db0 where charge: "(if rpBillable plan then chargeUser env rq (rpChargeable plan) (rpOwn plan) (rpCost plan) db else (Uncharged, db)) = (ch0, db0)"
    by fastforce
  have logs0: "ldLogs db0 = ldLogs db" using charge chargeUser_cases(1) by (auto split: if_splits)
  have row: "persistRow env rq c n r st err cost details db0 = (ok, db2) \<Longrightarrow>
      ldLogs db2 = ldLogs db \<or> (\<exists>row. ldLogs db2 = ldLogs db @ [row] \<and> riRequestID row = rqID rq)" for st err cost details ok db2
    using logs0 by (auto dest!: persistRow_cases split: if_splits)
  have "ldLogs db1 = ldLogs db \<or> (\<exists>row. ldLogs db1 = ldLogs db @ [row] \<and> riRequestID row = rqID rq)"
    using p charge logs0 by (auto simp: persist_def Let_def split: prod.splits charge.splits if_splits dest!: row)
  then show ?thesis using assms plan p by (auto simp: recordUsage_def split: option.splits if_splits)
qed

lemma replay_of_same_batch:
  assumes inv: "claimsOk env we s" "rowsOk s" "hashInjective we s" and rows: "rows \<in> sySent s"
    and valid: "validateUsageBatch (ieUsage env) (outBatch we rows) = Inr cleans"
    and claimed: "mdBatches (syMaster s) (node, stableBatchID we rows) = Some k"
  shows "idsOf rows \<subseteq> takenIds (syMaster s)" "k \<le> length rows"
proof -
  from inv(1) claimed obtain rows0 cleans0 where r0: "rows0 \<in> sySent s" "stableBatchID we rows0 = stableBatchID we rows"
    "validateUsageBatch (ieUsage env) (outBatch we rows0) = Inr cleans0" "idsOf rows0 \<subseteq> takenIds (syMaster s)" "k \<le> length rows0"
    unfolding claimsOk_def by meson
  have wf: "\<forall>r \<in> set rows. wfUsageLogs r" "\<forall>r \<in> set rows0. wfUsageLogs r" using inv(2) rows r0(1) by (auto simp: rowsOk_def)
  have "batchText rows0 = batchText rows"
    using inv(3) rows r0(1,2) unfolding hashInjective_def stableBatchID_def by (meson image_eqI inj_onD)
  then have same: "map (\<lambda>r. (ulId r, ulRequestId r)) rows0 = map (\<lambda>r. (ulId r, ulRequestId r)) rows"
    using batchText_inject outBatch_valid(3) [OF valid wf(1)] outBatch_valid(3) [OF r0(3) wf(2)] by blast
  have "length rows0 = length rows" using arg_cong [OF same, of length] by simp
  with r0(5) show "k \<le> length rows" by simp
  have "map ulRequestId rows0 = map ulRequestId rows" using arg_cong [OF same, of "map snd"] by (simp add: comp_def)
  then have "idsOf rows0 = idsOf rows" unfolding idsOf_def by (metis set_map)
  with r0(4) show "idsOf rows \<subseteq> takenIds (syMaster s)" by simp
qed

lemma map_filter_append: "List.map_filter f (xs @ ys) = List.map_filter f xs @ List.map_filter f ys"
  by (induction xs) (auto simp: List.map_filter_simps split: option.split)

lemma map_filter_remote: "List.map_filter remoteRow (xs @ map Remote ys) = List.map_filter remoteRow xs @ ys"
proof -
  have "List.map_filter remoteRow (map Remote ys) = ys" by (induction ys) (simp_all add: List.map_filter_simps)
  then show ?thesis by (simp add: map_filter_append)
qed

lemma foldl_remote: "foldl (applyEntry env) l (map Remote rows) = foldl (settleLedger env) l rows"
  by (induction rows arbitrary: l) simp_all

lemma comp_Pair [simp]: "f \<circ> snd \<circ> Pair n = f" "snd \<circ> Pair n = id"
  by auto

text \<open>A delivery whose transaction commits, seen through the contract; a repeated one changes nothing.\<close>

lemma committed_delivery:
  assumes inv: "clusterInv env we l s" "hashInjective we s" and rows: "rows \<in> sySent s"
    and valid: "validateUsageBatch (ieUsage env) (outBatch we rows) = Inr cleans"
    and run: "ingestBatch env faults (syMaster s) node (stableBatchID we rows) cleans = Inr (ack, db)"
  shows "absAccounts db = settleAll env (absAccounts (syMaster s)) cleans"
    "takenIds (syMaster s) \<subseteq> takenIds db" "idsOf rows \<subseteq> takenIds db" "Accepted ack \<le> length rows"
    "claimsOk env we (s\<lparr>syMaster := db\<rparr>)"
    "ledgerOk env l (s\<lparr>syMaster := db, syHistory := syHistory s @ map (Remote \<circ> snd) (drop (length (mdRows (syMaster s))) (mdRows db))\<rparr>)"
proof -
  let ?m = "syMaster s"
  have parts: "claimsOk env we s" "rowsOk s" "ledgerOk env l s" using inv(1) by (auto simp: clusterInv_def)
  have wf: "\<forall>r \<in> set rows. wfUsageLogs r" using parts(2) rows by (auto simp: rowsOk_def)
  note ids = outBatch_valid [OF valid wf]
  have "absAccounts db = settleAll env (absAccounts ?m) cleans \<and> takenIds ?m \<subseteq> takenIds db \<and> idsOf rows \<subseteq> takenIds db \<and> Accepted ack \<le> length rows \<and>
    claimsOk env we (s\<lparr>syMaster := db\<rparr>) \<and>
    ledgerOk env l (s\<lparr>syMaster := db, syHistory := syHistory s @ map (Remote \<circ> snd) (drop (length (mdRows ?m)) (mdRows db))\<rparr>)"
  proof (cases "Replayed ack")
    case True
    note r = ingestBatch_replayed [OF run True]
    note known = replay_of_same_batch [OF parts(1,2) inv(2) rows valid r(2)]
    have "settleAll env (absAccounts ?m) cleans = absAccounts ?m"
      using known(1) ids(1) by (intro settleAll_known) (auto simp: absAccounts_def idsOf_def)
    with r known parts show ?thesis by simp
  next
    case False
    from ingestBatch_fresh [OF run False] obtain ins where f: "mdBatches db = (mdBatches ?m)((node, stableBatchID we rows) \<mapsto> Accepted ack)"
      "absAccounts db = settleAll env (absAccounts ?m) cleans" "takenIds db = takenIds ?m \<union> rowRequestID ` set cleans"
      "mdRows db = mdRows ?m @ map (Pair node) ins" "mdLedger db = foldl (settleLedger env) (mdLedger ?m) ins"
      "Accepted ack = length ins" "length ins \<le> length cleans" "distinct (map rowRequestID ins)" "rowRequestID ` set ins \<inter> takenIds ?m = {}" by blast
    have taken: "idsOf rows \<subseteq> takenIds db" using f(3) ids(1) by (auto simp: idsOf_def)
    have len: "Accepted ack \<le> length rows" using f(6,7) ids(2) by simp
    have "claimsOk env we (s\<lparr>syMaster := db\<rparr>)"
      unfolding claimsOk_def
    proof (intro allI impI)
      fix n bid k assume claim: "mdBatches (syMaster (s\<lparr>syMaster := db\<rparr>)) (n, bid) = Some k"
      show "\<exists>rows cleans. rows \<in> sySent (s\<lparr>syMaster := db\<rparr>) \<and> stableBatchID we rows = bid \<and>
          validateUsageBatch (ieUsage env) (outBatch we rows) = Inr cleans \<and> idsOf rows \<subseteq> takenIds (syMaster (s\<lparr>syMaster := db\<rparr>)) \<and> k \<le> length rows"
      proof (cases "(n, bid) = (node, stableBatchID we rows)")
        case True
        then have "k = Accepted ack" using claim f(1) by simp
        with True rows valid taken len show ?thesis by auto
      next
        case False
        then have "mdBatches ?m (n, bid) = Some k" using claim f(1) by auto
        with parts(1) obtain rows0 cleans0 where "rows0 \<in> sySent s" "stableBatchID we rows0 = bid"
          "validateUsageBatch (ieUsage env) (outBatch we rows0) = Inr cleans0" "idsOf rows0 \<subseteq> takenIds ?m" "k \<le> length rows0"
          unfolding claimsOk_def by meson
        with f(3) show ?thesis by auto
      qed
    qed
    moreover have "ledgerOk env l (s\<lparr>syMaster := db, syHistory := syHistory s @ map (Remote \<circ> snd) (drop (length (mdRows ?m)) (mdRows db))\<rparr>)"
    proof -
      have logs: "logIds (mdLedger db) = logIds (mdLedger ?m)"
      proof -
        have "ldLogs (settleLedger env l0 row) = ldLogs l0" for l0 row
          using billUsageRow_settles(2) by (auto simp: settleLedger_def split: sum.split)
        then have "ldLogs (foldl (settleLedger env) l0 rs) = ldLogs l0" for l0 rs by (induction rs arbitrary: l0) auto
        then show ?thesis by (simp add: logIds_def f(5))
      qed
      have remote: "List.map_filter remoteRow (syHistory s) = map snd (mdRows ?m)" "mdLedger ?m = foldl (applyEntry env) l (syHistory s)"
        "distinct (map (rowRequestID \<circ> snd) (mdRows ?m))" "logIds (mdLedger ?m) \<inter> (rowRequestID \<circ> snd) ` set (mdRows ?m) = {}"
        using parts(3) unfolding ledgerOk_def by blast+
      have new: "map (rowRequestID \<circ> snd) (map (Pair node) ins) = map rowRequestID ins" by simp
      have "distinct (map (rowRequestID \<circ> snd) (mdRows db))"
        using f(8,9) remote(3) new by (auto simp: f(4) takenIds_def comp_def)
      moreover have "logIds (mdLedger db) \<inter> (rowRequestID \<circ> snd) ` set (mdRows db) = {}"
        using remote(4) f(9) by (auto simp: logs f(4) takenIds_def)
      ultimately show ?thesis
        using remote(1,2) by (simp add: ledgerOk_def f(4,5) map_filter_remote foldl_remote)
    qed
    ultimately show ?thesis using f(2,3) taken len by auto
  qed
  then show "absAccounts db = settleAll env (absAccounts ?m) cleans" "takenIds ?m \<subseteq> takenIds db" "idsOf rows \<subseteq> takenIds db"
    "Accepted ack \<le> length rows" "claimsOk env we (s\<lparr>syMaster := db\<rparr>)"
    "ledgerOk env l (s\<lparr>syMaster := db, syHistory := syHistory s @ map (Remote \<circ> snd) (drop (length (mdRows ?m)) (mdRows db))\<rparr>)"
    by blast+
qed

lemma ledgerOk_cong: "syMaster s' = syMaster s \<Longrightarrow> syHistory s' = syHistory s \<Longrightarrow> ledgerOk env l s' = ledgerOk env l s"
  by (simp only: ledgerOk_def)

lemma keptOk_mono:
  assumes "keptOk s" "takenIds (syMaster s) \<subseteq> takenIds (syMaster s')" "syRecorded s' = syRecorded s" "syOutbox s' = syOutbox s"
  shows "keptOk s'"
  unfolding keptOk_def
proof
  fix w
  have "syRecorded s w \<subseteq> idsOf (syOutbox s w) \<union> takenIds (syMaster s)" using assms(1) by (simp add: keptOk_def)
  with assms(2-4) show "syRecorded s' w \<subseteq> idsOf (syOutbox s' w) \<union> takenIds (syMaster s')" by auto
qed

lemma claimsOk_mono:
  assumes "claimsOk env we s" "takenIds (syMaster s) \<subseteq> takenIds (syMaster s')" "mdBatches (syMaster s') = mdBatches (syMaster s)" "sySent s \<subseteq> sySent s'"
  shows "claimsOk env we s'"
  unfolding claimsOk_def
proof (intro allI impI)
  fix node bid k assume "mdBatches (syMaster s') (node, bid) = Some k"
  with assms(1,3) obtain rows cleans where "rows \<in> sySent s" "stableBatchID we rows = bid"
    "validateUsageBatch (ieUsage env) (outBatch we rows) = Inr cleans" "idsOf rows \<subseteq> takenIds (syMaster s)" "k \<le> length rows"
    unfolding claimsOk_def by metis
  with assms(2,4) show "\<exists>rows cleans. rows \<in> sySent s' \<and> stableBatchID we rows = bid \<and>
      validateUsageBatch (ieUsage env) (outBatch we rows) = Inr cleans \<and> idsOf rows \<subseteq> takenIds (syMaster s') \<and> k \<le> length rows"
    by blast
qed

lemma acksOk_mono:
  assumes "acksOk s" "takenIds (syMaster s) \<subseteq> takenIds (syMaster s')" "sySent s' = sySent s" "syAcks s' = syAcks s"
  shows "acksOk s'"
  unfolding acksOk_def
proof (rule ballI, rule case_prodI2)
  fix x rows ack assume "x \<in> syAcks s'" "x = (rows, ack)"
  then have "rows \<in> sySent s \<and> idsOf rows \<subseteq> takenIds (syMaster s) \<and> Accepted ack \<le> length rows"
    using assms(1,4) by (auto simp: acksOk_def)
  with assms(2,3) show "rows \<in> sySent s' \<and> idsOf rows \<subseteq> takenIds (syMaster s') \<and> Accepted ack \<le> length rows" by auto
qed

lemma acksOk_insert:
  "acksOk s \<Longrightarrow> rows \<in> sySent s \<Longrightarrow> idsOf rows \<subseteq> takenIds (syMaster s) \<Longrightarrow> Accepted ack \<le> length rows \<Longrightarrow>
   acksOk (s\<lparr>syAcks := insert (rows, ack) (syAcks s)\<rparr>)"
  by (simp add: acksOk_def)

lemma deliver_inv:
  assumes inv: "clusterInv env we l s" "hashInjective we s" and rows: "rows \<in> sySent s"
    and run: "HandleUsage env faults (syMaster s) node (outBatch we rows) = (res, db)"
  shows "clusterInv env we l (s\<lparr>syMaster := db, syAcks := (case res of Inr ack \<Rightarrow> insert (rows, ack) (syAcks s) | Inl e \<Rightarrow> syAcks s),
       syHistory := syHistory s @ map (Remote \<circ> snd) (drop (length (mdRows (syMaster s))) (mdRows db))\<rparr>)"
proof -
  have parts: "claimsOk env we s" "acksOk s" "rowsOk s" "ledgerOk env l s" "keptOk s" using inv(1) by (auto simp: clusterInv_def)
  have ledger: "ledgerOk env l (s\<lparr>syMaster := db, syHistory := h\<rparr>) \<Longrightarrow> ledgerOk env l (s\<lparr>syMaster := db, syAcks := A, syHistory := h\<rparr>)" for A h
    by (subst ledgerOk_cong [of _ "s\<lparr>syMaster := db, syHistory := h\<rparr>"]) simp_all
  from run show ?thesis
  proof (cases rule: HandleUsage_cases)
    case (unchanged e)
    then have "s\<lparr>syMaster := db, syAcks := (case res of Inr ack \<Rightarrow> insert (rows, ack) (syAcks s) | Inl e \<Rightarrow> syAcks s),
       syHistory := syHistory s @ map (Remote \<circ> snd) (drop (length (mdRows (syMaster s))) (mdRows db))\<rparr> = s"
      by simp
    then show ?thesis using inv(1) by simp
  next
    case (unknown cleans ack)
    from unknown(4) have run': "ingestBatch env faults (syMaster s) node (stableBatchID we rows) cleans = Inr (ack, db)" by simp
    note c = committed_delivery [OF inv rows unknown(2) run']
    have "acksOk (s\<lparr>syMaster := db, syAcks := syAcks s, syHistory := syHistory s @ map (Remote \<circ> snd) (drop (length (mdRows (syMaster s))) (mdRows db))\<rparr>)"
      by (rule acksOk_mono [OF parts(2)]) (use c(2) in simp_all)
    moreover have "keptOk (s\<lparr>syMaster := db, syAcks := syAcks s, syHistory := syHistory s @ map (Remote \<circ> snd) (drop (length (mdRows (syMaster s))) (mdRows db))\<rparr>)"
      by (rule keptOk_mono [OF parts(5)]) (use c(2) in simp_all)
    ultimately show ?thesis using c(5) parts(3) unknown(1) ledger [OF c(6), of "syAcks s"]
      by (simp add: clusterInv_def claimsOk_def rowsOk_def)
  next
    case (acked cleans ack)
    from acked(4) have run': "ingestBatch env faults (syMaster s) node (stableBatchID we rows) cleans = Inr (ack, db)" by simp
    note c = committed_delivery [OF inv rows acked(2) run']
    have "acksOk (s\<lparr>syMaster := db\<rparr>)" by (rule acksOk_mono [OF parts(2)]) (use c(2) in simp_all)
    from acksOk_insert [OF this, of rows ack] have "acksOk (s\<lparr>syMaster := db, syAcks := insert (rows, ack) (syAcks s)\<rparr>)"
      using rows c(3,4) by simp
    then have "acksOk (s\<lparr>syMaster := db, syAcks := insert (rows, ack) (syAcks s),
        syHistory := syHistory s @ map (Remote \<circ> snd) (drop (length (mdRows (syMaster s))) (mdRows db))\<rparr>)"
      by (rule acksOk_mono) simp_all
    moreover have "keptOk (s\<lparr>syMaster := db, syAcks := insert (rows, ack) (syAcks s),
        syHistory := syHistory s @ map (Remote \<circ> snd) (drop (length (mdRows (syMaster s))) (mdRows db))\<rparr>)"
      by (rule keptOk_mono [OF parts(5)]) (use c(2) in simp_all)
    ultimately show ?thesis using c(5) parts(3) acked(1) ledger [OF c(6), of "insert (rows, ack) (syAcks s)"]
      by (simp add: clusterInv_def claimsOk_def rowsOk_def)
  qed
qed

lemma distinct_deleted: "deleteUsageRows fails i ids outbox = (ok, out) \<Longrightarrow> distinct (map ulId outbox) \<Longrightarrow> distinct (map ulId out)"
proof (induction fails i ids outbox rule: deleteUsageRows.induct)
  case (1 fails i ids outbox)
  show ?case
  proof (cases "ids = [] \<or> fails i")
    case True
    with "1.prems" deleteUsageRows.simps [of fails i ids outbox] show ?thesis by (auto split: if_splits)
  next
    case False
    with "1.prems" "1.IH" deleteUsageRows.simps [of fails i ids outbox] show ?thesis by (auto simp: distinct_map_filter)
  qed
qed

lemma respond_inv:
  assumes inv: "clusterInv env we l s" and run: "flushUsage we (syOutbox s w) resp fails = (res, outbox)"
    and answer: "\<And>a rep. resp = RespAck a rep \<Longrightarrow>
        \<exists>ack. (pendingUsage (weBatchSize we) (syOutbox s w), ack) \<in> syAcks s \<and> a = int (Accepted ack) \<and> rep = Replayed ack"
  shows "clusterInv env we l (s\<lparr>syOutbox := (syOutbox s)(w := outbox)\<rparr>)"
proof -
  have parts: "claimsOk env we s" "acksOk s" "rowsOk s" "ledgerOk env l s" "keptOk s" using inv by (auto simp: clusterInv_def)
  let ?p = "pendingUsage (weBatchSize we) (syOutbox s w)"
  note kept = flushUsage_kept [OF run]
  have dist: "distinct (map ulId (syOutbox s w))" using parts(3) by (auto simp: rowsOk_def)
  then have "distinct (map ulId outbox)"
    using run by (auto simp: flushUsage_def Let_def split: if_splits response.splits prod.splits bool.splits dest: distinct_deleted)
  then have rows: "rowsOk (s\<lparr>syOutbox := (syOutbox s)(w := outbox)\<rparr>)" using parts(3) kept(1) by (auto simp: rowsOk_def)
  have gone: "ulRequestId r \<in> takenIds (syMaster s)" if r: "r \<in> set (syOutbox s w)" "r \<notin> set outbox" for r
  proof -
    from kept(2) [OF r] obtain a rep where a: "ulId r \<in> ulId ` set ?p" "resp = RespAck a rep" by blast
    from answer [OF a(2)] obtain ack where "(?p, ack) \<in> syAcks s" by blast
    then have taken: "idsOf ?p \<subseteq> takenIds (syMaster s)" using parts(2) by (auto simp: acksOk_def)
    from a(1) obtain q where q: "q \<in> set ?p" "ulId q = ulId r" by auto
    have "q \<in> set (syOutbox s w)" using q(1) pendingUsage_set [of "weBatchSize we" "syOutbox s w"] by blast
    then have "q = r" using dist r(1) q(2) by (auto simp: distinct_map inj_on_def)
    with q(1) taken show ?thesis by (auto simp: idsOf_def)
  qed
  have "keptOk (s\<lparr>syOutbox := (syOutbox s)(w := outbox)\<rparr>)"
    unfolding keptOk_def
  proof (intro allI subsetI)
    fix v i assume "i \<in> syRecorded (s\<lparr>syOutbox := (syOutbox s)(w := outbox)\<rparr>) v"
    then have "i \<in> idsOf (syOutbox s v) \<union> takenIds (syMaster s)" using parts(5) by (auto simp: keptOk_def)
    then show "i \<in> idsOf (syOutbox (s\<lparr>syOutbox := (syOutbox s)(w := outbox)\<rparr>) v) \<union> takenIds (syMaster (s\<lparr>syOutbox := (syOutbox s)(w := outbox)\<rparr>))"
      using gone by (cases "v = w") (auto simp: idsOf_def)
  qed
  with parts rows ledgerOk_cong [of "s\<lparr>syOutbox := (syOutbox s)(w := outbox)\<rparr>" s] show ?thesis
    by (simp add: clusterInv_def claimsOk_def acksOk_def)
qed

lemma disjoint_insert_sub: "A \<inter> R = {} \<Longrightarrow> B \<subseteq> insert x A \<Longrightarrow> x \<notin> R \<Longrightarrow> B \<inter> R = {}"
  by blast

lemma clusterStep_inv:
  "clusterStep env we s s' \<Longrightarrow> hashInjective we s' \<Longrightarrow> clusterInv env we l s \<Longrightarrow> clusterInv env we l s'"
proof (induction rule: clusterStep.induct)
  case (record_local r s w)
  let ?s = "s\<lparr>syOutbox := (syOutbox s)(w := syOutbox s w @ [r]), syRecorded := (syRecorded s)(w := insert (ulRequestId r) (syRecorded s w))\<rparr>"
  have "rowsOk ?s" using record_local by (fastforce simp: clusterInv_def rowsOk_def)
  moreover have "keptOk ?s" using record_local.prems(2) by (auto simp: clusterInv_def keptOk_def idsOf_def)
  ultimately show ?case
    using record_local.prems(2) ledgerOk_cong [of ?s s] by (simp add: clusterInv_def claimsOk_def acksOk_def)
next
  case (send s w rows)
  then have "\<forall>r \<in> set rows. wfUsageLogs r"
    using pendingUsage_set [of "weBatchSize we" "syOutbox s w"] by (auto simp: clusterInv_def rowsOk_def)
  moreover have "claimsOk env we (s\<lparr>sySent := insert rows (sySent s)\<rparr>)"
    by (rule claimsOk_mono [of env we s]) (simp_all add: send.prems(2) [unfolded clusterInv_def] subset_insertI)
  ultimately show ?case
    using send.prems(2) ledgerOk_cong [of "s\<lparr>sySent := insert rows (sySent s)\<rparr>" s]
    by (auto simp: clusterInv_def acksOk_def rowsOk_def keptOk_def)
next
  case (deliver rows s faults node res db)
  from deliver.prems(1) have inj: "hashInjective we s" by (simp add: hashInjective_def)
  show ?case by (rule deliver_inv [OF deliver.prems(2) inj deliver.hyps])
next
  case (respond s w resp fails res outbox)
  from respond_inv [OF respond.prems(2) respond.hyps(1)] respond.hyps(2) show ?case by blast
next
  case (own renv s rq c n r e lg)
  let ?m = "syMaster s"
  from recordUsage_logs [OF own.hyps(1)] have logs: "logIds (mdLedger ?m) \<subseteq> logIds lg" "logIds lg \<subseteq> insert (rqID rq) (logIds (mdLedger ?m))"
    by (auto simp: logIds_def)
  then have taken: "takenIds ?m \<subseteq> takenIds (?m\<lparr>mdLedger := lg\<rparr>)" by (auto simp: takenIds_def)
  have "claimsOk env we (s\<lparr>syMaster := ?m\<lparr>mdLedger := lg\<rparr>, syHistory := syHistory s @ [Own renv rq c n r]\<rparr>)"
    by (rule claimsOk_mono [of env we s]) (simp_all add: own.prems(2) [unfolded clusterInv_def] taken)
  moreover have "acksOk (s\<lparr>syMaster := ?m\<lparr>mdLedger := lg\<rparr>, syHistory := syHistory s @ [Own renv rq c n r]\<rparr>)"
    by (rule acksOk_mono [of s]) (simp_all add: own.prems(2) [unfolded clusterInv_def] taken)
  moreover have "keptOk (s\<lparr>syMaster := ?m\<lparr>mdLedger := lg\<rparr>, syHistory := syHistory s @ [Own renv rq c n r]\<rparr>)"
    by (rule keptOk_mono [of s]) (simp_all add: own.prems(2) [unfolded clusterInv_def] taken)
  moreover have "ledgerOk env l (s\<lparr>syMaster := ?m\<lparr>mdLedger := lg\<rparr>, syHistory := syHistory s @ [Own renv rq c n r]\<rparr>)"
  proof -
    have lo: "ledgerOk env l s" using own.prems(2) by (simp add: clusterInv_def)
    then have "logIds (mdLedger ?m) \<inter> (rowRequestID \<circ> snd) ` set (mdRows ?m) = {}" unfolding ledgerOk_def by blast
    from disjoint_insert_sub [OF this logs(2) own.hyps(2)] have "logIds lg \<inter> (rowRequestID \<circ> snd) ` set (mdRows ?m) = {}" .
    moreover from lo have "mdLedger ?m = foldl (applyEntry env) l (syHistory s)" unfolding ledgerOk_def by blast
    then have "lg = foldl (applyEntry env) l (syHistory s @ [Own renv rq c n r])" using own.hyps(1) by simp
    ultimately show ?thesis using lo by (simp add: ledgerOk_def map_filter_append List.map_filter_simps)
  qed
  ultimately show ?case using own.prems(2) by (auto simp: clusterInv_def rowsOk_def)
qed

lemma reachable_inv:
  assumes "reachableSys env we l s" "hashInjective we s"
  shows "clusterInv env we l s"
  using assms unfolding reachableSys_def
proof (induction rule: rtranclp_induct)
  case base
  show ?case by (rule initial_inv)
next
  case (step s s')
  then have "hashInjective we s" by (rule_tac clusterStep_injective)
  with step show ?case by (rule_tac clusterStep_inv) auto
qed

subsection \<open>What the accounts of a cluster promise\<close>

text \<open>
  C16: no consumption is lost: whatever is lost, delayed or delivered again, every request that a worker
  has ever recorded is still in its outbox or has its row at the master.
\<close>

theorem nothing_lost:
  assumes "reachableSys env we l s" "hashInjective we s"
  shows "syRecorded s w \<subseteq> idsOf (syOutbox s w) \<union> takenIds (syMaster s)"
  using reachable_inv [OF assms] by (auto simp: clusterInv_def keptOk_def)

text \<open>
  C17: nothing is counted twice: the master's ledger is the result of settling the rows it has written for
  the workers and its own requests one after the other, each once: no two rows have the same request id, also
  not a worker's and the master's own.
\<close>

theorem consumption_settled_once:
  assumes "reachableSys env we l s" "hashInjective we s"
  shows "mdLedger (syMaster s) = foldl (applyEntry env) l (syHistory s) \<and>
     List.map_filter remoteRow (syHistory s) = map snd (mdRows (syMaster s)) \<and>
     distinct (map (rowRequestID \<circ> snd) (mdRows (syMaster s))) \<and>
     logIds (mdLedger (syMaster s)) \<inter> (rowRequestID \<circ> snd) ` set (mdRows (syMaster s)) = {}"
  using reachable_inv [OF assms] unfolding clusterInv_def ledgerOk_def by blast


subsection \<open>Progress\<close>

definition noClusterFaults :: clusterFaults where
  "noClusterFaults = \<lparr>cfClaim = False, cfRead = False, cfGone = False, cfInsert = (\<lambda>i. False), cfBilling = (\<lambda>i. noFaults),
     cfComplete = False, cfCommit = Committed\<rparr>"

definition accountsExist :: "('d, 'f, 't) ingestEnv \<Rightarrow> ('d, 'f) ledgerDb \<Rightarrow> 't cleanRow \<Rightarrow> bool" where
  "accountsExist env l row \<longleftrightarrow>
     usageCostOf (ieUsage env) row = None \<or>
     (ieBilling env \<and> uintValueOf (columnValue row ''user_id'') \<in> dom (ldBalances l) \<and>
      uintValueOf (columnValue row ''api_key_id'') \<in> dom (ldKeys l))"

lemma debit_dom: "debit ops faults l u amount debt = (r, l') \<Longrightarrow> dom (ldBalances l') = dom (ldBalances l) \<and> ldKeys l' = ldKeys l"
  by (auto simp: debit_def Let_def split: if_splits option.splits)

lemma addSpend_dom: "addSpend fl faults l k x day = (ok, l') \<Longrightarrow> dom (ldKeys l') = dom (ldKeys l) \<and> ldBalances l' = ldBalances l"
  by (auto simp: addSpend_def split: if_splits option.splits)

lemma billUsageRow_dom:
  "billUsageRow env faults l row = Inr l' \<Longrightarrow> dom (ldBalances l') = dom (ldBalances l) \<and> dom (ldKeys l') = dom (ldKeys l)"
  unfolding billUsageRow_Inr
  by (cases "usageCostOf (ieUsage env) row"; simp split: if_splits) (elim conjE exE, drule debit_dom, drule addSpend_dom, simp)

lemma billUsageRow_works:
  assumes "accountsExist env l row"
  shows "\<exists>l'. billUsageRow env noFaults l row = Inr l'"
proof (cases "usageCostOf (ieUsage env) row")
  case (Some cost)
  let ?u = "uintValueOf (columnValue row ''user_id'')" and ?k = "uintValueOf (columnValue row ''api_key_id'')" and ?ops = "ueDecimal (ieUsage env)"
  obtain b where b: "ldBalances l ?u = Some b" using assms Some by (auto simp: accountsExist_def)
  have "\<exists>l1. debit ?ops noFaults l ?u cost True = (None, l1)" by (simp add: debit_def b noFaults_def Let_def)
  then obtain l1 where l1: "debit ?ops noFaults l ?u cost True = (None, l1)" by blast
  obtain k where k: "ldKeys l1 ?k = Some k" using assms Some debit_dom [OF l1] by (auto simp: accountsExist_def)
  have "\<exists>l2. addSpend (ieFloats env) noFaults l1 ?k (dToFloat ?ops cost) (ieToday env) = (True, l2)" by (simp add: addSpend_def k noFaults_def)
  with l1 Some assms show ?thesis by (auto simp: billUsageRow_Inr accountsExist_def)
qed (simp add: billUsageRow_def Let_def)

lemma billUsageRows_works:
  "\<forall>row \<in> set rows. accountsExist env l row \<Longrightarrow> \<exists>l'. billUsageRows env noClusterFaults i rows l = Inr l'"
proof (induction rows arbitrary: i l)
  case (Cons row rows)
  then obtain l1 where l1: "billUsageRow env noFaults l row = Inr l1" using billUsageRow_works [of env l row] by auto
  have "\<forall>row \<in> set rows. accountsExist env l1 row" using Cons.prems billUsageRow_dom [OF l1] by (auto simp: accountsExist_def)
  from Cons.IH [OF this, of "Suc i"] l1 show ?case by (auto simp: noClusterFaults_def)
qed simp

lemma insertUsageRows_works: "\<exists>ins db'. insertUsageRows noClusterFaults i node rows db = Inr (ins, db') \<and> set ins \<subseteq> set rows"
proof (induction rows arbitrary: i db)
  case (Cons row rows)
  from Cons.IH [of "Suc i" db] Cons.IH [of "Suc i" "db\<lparr>mdRows := mdRows db @ [(node, row)]\<rparr>"] show ?case
    by (auto simp: noClusterFaults_def)
qed simp

lemma HandleUsage_works:
  assumes "node \<noteq> 0" "validateUsageBatch (ieUsage env) batch = Inr cleans" "\<forall>row \<in> set cleans. accountsExist env (mdLedger db) row"
  shows "\<exists>ack db'. HandleUsage env noClusterFaults db node batch = (Inr ack, db')"
proof -
  let ?db = "db\<lparr>mdBatches := (mdBatches db)((node, BatchID batch) \<mapsto> 0)\<rparr>"
  obtain ins db' where ins: "insertUsageRows noClusterFaults 0 node cleans ?db = Inr (ins, db')" "set ins \<subseteq> set cleans"
    using insertUsageRows_works by blast
  have "mdLedger db' = mdLedger db" using insertUsageRows_spec [OF ins(1), of env] by simp
  with assms(3) ins(2) obtain l' where "billUsageRows env noClusterFaults 0 ins (mdLedger db') = Inr l'"
    using billUsageRows_works [of ins env "mdLedger db'" 0] by auto
  with ins assms(1,2) show ?thesis
    by (cases "mdBatches db (node, BatchID batch)")
      (simp_all add: HandleUsage_def ingestBatch_def claimUsageBatch_def, simp_all add: noClusterFaults_def)
qed

lemma filter_not_take:
  "distinct (map f xs) \<Longrightarrow> filter (\<lambda>r. f r \<notin> f ` set (take n xs)) xs = drop n xs"
proof -
  assume d: "distinct (map f xs)"
  then have d': "distinct (map f (take n xs @ drop n xs))" by simp
  have "filter (\<lambda>r. f r \<notin> f ` set (take n xs)) (take n xs @ drop n xs) = drop n xs"
    using d' unfolding filter_append map_append distinct_append by (auto simp: filter_empty_conv intro!: filter_True)
  then show ?thesis by simp
qed


subsection \<open>A deleted key stops a worker\<close>

lemma billUsageRow_needs_key:
  assumes "billUsageRow env faults l row = Inr l'" "usageCostOf (ieUsage env) row = Some cost" "\<not> dIsZero (ueDecimal (ieUsage env)) cost"
    "\<not> fLe (ieFloats env) (dToFloat (ueDecimal (ieUsage env)) cost) (fZero (ieFloats env))"
  shows "uintValueOf (columnValue row ''api_key_id'') \<in> dom (ldKeys l)"
proof -
  from assms(1-3) obtain l1 where l1: "debit (ueDecimal (ieUsage env)) faults l (uintValueOf (columnValue row ''user_id'')) cost True = (None, l1)"
    "addSpend (ieFloats env) faults l1 (uintValueOf (columnValue row ''api_key_id'')) (dToFloat (ueDecimal (ieUsage env)) cost) (ieToday env) = (True, l')"
    unfolding billUsageRow_Inr by auto
  with assms(4) have "uintValueOf (columnValue row ''api_key_id'') \<in> dom (ldKeys l1)"
    by (auto simp: addSpend_def split: if_splits option.splits)
  then show ?thesis using debit_dom [OF l1(1)] by simp
qed

lemma billUsageRows_need_keys:
  "billUsageRows env faults i rows l = Inr l' \<Longrightarrow> row \<in> set rows \<Longrightarrow> usageCostOf (ieUsage env) row = Some cost \<Longrightarrow>
   \<not> dIsZero (ueDecimal (ieUsage env)) cost \<Longrightarrow>
   \<not> fLe (ieFloats env) (dToFloat (ueDecimal (ieUsage env)) cost) (fZero (ieFloats env)) \<Longrightarrow>
   uintValueOf (columnValue row ''api_key_id'') \<in> dom (ldKeys l)"
proof (induction env faults i rows l rule: billUsageRows.induct)
  case (2 env faults i r rows l)
  obtain l1 where l1: "billUsageRow env (cfBilling faults i) l r = Inr l1" using "2.prems"(1) by (auto split: sum.splits)
  show ?case
  proof (cases "row = r")
    case True
    then show ?thesis using billUsageRow_needs_key [OF l1] "2.prems"(3-5) by blast
  next
    case False
    then have "uintValueOf (columnValue row ''api_key_id'') \<in> dom (ldKeys l1)" using 2 l1 by auto
    then show ?thesis using billUsageRow_dom [OF l1] by simp
  qed
qed simp

lemma validateRows_distinct:
  "validateRows env seen rows = Inr cleans \<Longrightarrow> distinct (map rowRequestID cleans) \<and> rowRequestID ` set cleans \<inter> set seen = {}"
proof (induction env seen rows arbitrary: cleans rule: validateRows.induct)
  case (2 env seen row rows)
  then obtain c where c: "validateUsageRow env row = Inr c" by (auto split: sum.splits)
  with 2 show ?case by (cases "rowRequestID c \<in> set seen") (fastforce split: sum.splits)+
qed simp

lemma insertUsageRows_new:
  "insertUsageRows faults i node rows db = Inr (ins, db') \<Longrightarrow> distinct (map rowRequestID rows) \<Longrightarrow> row \<in> set rows \<Longrightarrow>
   rowRequestID row \<notin> takenIds db \<Longrightarrow> row \<in> set ins"
proof (induction faults i node rows db arbitrary: ins db' rule: insertUsageRows.induct)
  case (2 faults i node r rows db)
  show ?case
  proof (cases "rowRequestID r \<in> takenIds db")
    case True
    with 2 show ?thesis by (auto split: if_splits)
  next
    case False
    let ?db = "db\<lparr>mdRows := mdRows db @ [(node, r)]\<rparr>"
    from "2.prems"(1) False obtain rest where rest: "insertUsageRows faults (Suc i) node rows ?db = Inr (rest, db')" "ins = r # rest"
      by (auto split: if_splits sum.splits)
    have "rowRequestID row \<noteq> rowRequestID r" if "row \<noteq> r" using "2.prems"(2,3) that by (auto intro: rev_image_eqI)
    with "2.IH"(2) [OF _ False rest(1)] "2.prems" rest(2) show ?thesis by (auto split: if_splits)
  qed
qed simp

text \<open>
  C20: one row can hold up all the accounts of a worker: when the API key of a charged row has been deleted at
  the master before the row arrives, every delivery of a batch with that row is refused as a whole and leaves
  no trace, whatever else happens; the worker keeps sending the same batch, as its flush drops rows only
  after an acknowledgment.
\<close>

theorem deleted_key_blocks_batch:
  assumes "validateUsageBatch (ieUsage env) batch = Inr cleans" "row \<in> set cleans" "usageCostOf (ieUsage env) row = Some cost"
    and "\<not> dIsZero (ueDecimal (ieUsage env)) cost" "\<not> fLe (ieFloats env) (dToFloat (ueDecimal (ieUsage env)) cost) (fZero (ieFloats env))"
    and "ldKeys (mdLedger db) (uintValueOf (columnValue row ''api_key_id'')) = None"
    and "rowRequestID row \<notin> takenIds db" "mdBatches db (node, BatchID batch) = None"
  shows "(\<exists>e. HandleUsage env faults db node batch = (Inl e, db)) \<and>
     snd (flushUsage we outbox (RespStatus code) fails) = outbox"
proof
  show "snd (flushUsage we outbox (RespStatus code) fails) = outbox" by (rule flushUsage_noAck) simp
  have distinct: "distinct (map rowRequestID cleans)"
    using assms(1) validateRows_distinct by (auto simp: validateUsageBatch_def split: if_splits)
  have "ingestBatch env faults db node (BatchID batch) cleans = Inr (ack, db') \<Longrightarrow> False" for ack db'
  proof -
    assume "ingestBatch env faults db node (BatchID batch) cleans = Inr (ack, db')"
    with assms(8) obtain ins db2 l where run:
      "insertUsageRows faults 0 node cleans (db\<lparr>mdBatches := (mdBatches db)((node, BatchID batch) \<mapsto> 0)\<rparr>) = Inr (ins, db2)"
      "billUsageRows env faults 0 ins (mdLedger db2) = Inr l"
      by (auto simp: ingestBatch_def claimUsageBatch_def split: sum.splits if_splits)
    have "row \<in> set ins" using insertUsageRows_new [OF run(1) distinct assms(2)] assms(7) by simp
    from billUsageRows_need_keys [OF run(2) this assms(3-5)] insertUsageRows_spec [OF run(1), of env] assms(6) show False by auto
  qed
  then show "\<exists>e. HandleUsage env faults db node batch = (Inl e, db)"
    by (auto simp: HandleUsage_def assms(1) split: sum.splits)
qed

subsection \<open>Examples\<close>

definition exampleIngest :: "(rat, rat, int) ingestEnv" where
  "exampleIngest = \<lparr>ieUsage = exampleUsageEnv, ieFloats = ratFloats, ieToday = 20000, ieBilling = True\<rparr>"

definition exampleWorker :: "int workerEnv" where
  "exampleWorker = \<lparr>weSha = (\<lambda>t. ''b1''), weFloatJson = (\<lambda>x. ''0.5''), weTimeText = (\<lambda>t. []), weBatchSize = 200\<rparr>"

definition exampleUsageLog :: "int UsageLogs" where
  "exampleUsageLog = \<lparr>ulId = 1, ulRequestId = ''q1'',
     ulColumns = [(''user_id'', Plain (LUint 3)), (''api_key_id'', Plain (LUint 1)), (''estimated_cost'', Plain (LFloat (1 / 2))),
       (''billing_details_json'', Plain (LText chargedText)), (''first_token_ms'', Pointer None)]\<rparr>"

lemma exampleUsageLog_wf: "wfUsageLogs exampleUsageLog"
  by (simp add: wfUsageLogs_def exampleUsageLog_def)

lemma ascii_coerce: "list_all (byteIn 0 0x7F) s \<Longrightarrow> coerceUtf8 s = s"
  by (induction s) auto

lemma exampleUsageLog_wire: "wireRowOf exampleWorker exampleUsageLog = wireRow ''q1''"
proof -
  have "coerceUtf8 ''q1'' = ''q1''" "coerceUtf8 chargedText = chargedText"
    by (rule ascii_coerce, simp add: byteIn_def chargedText_def)+
  then show ?thesis
    by (simp add: wireRowOf_def usageFields_def entityRow_def usageRowReservedFields_def exampleUsageLog_def List.map_filter_simps
        fieldSql_def sqlSome_def wireValue_def exampleWorker_def wireRow_def showNat.simps [of 3] showNat.simps [of "Suc 0"] char_of_def bit_Suc_0_iff)
qed

lemma exampleBatch_valid: "validateUsageBatch exampleUsageEnv (outBatch exampleWorker [exampleUsageLog]) = Inr [wireClean ''q1'']"
  by (simp add: validateUsageBatch_def outBatch_rows exampleUsageLog_wire exampleWire_ok usageBatchMaxRows_def)
    (simp add: stableBatchID_def exampleWorker_def usageIdentity_def identityChar_def byteIn_def isDigit_def Let_def)

definition exampleSys1 :: "(rat, rat, int, json option) clusterSys" where
  "exampleSys1 = (initialSys exampleLedger)\<lparr>syOutbox := (\<lambda>w. [])(0 := [exampleUsageLog]), syRecorded := (\<lambda>w. {})(0 := {''q1''})\<rparr>"

definition exampleSys2 :: "(rat, rat, int, json option) clusterSys" where
  "exampleSys2 = exampleSys1\<lparr>sySent := {[exampleUsageLog]}\<rparr>"

lemma examplePending: "pendingUsage (weBatchSize exampleWorker) (syOutbox exampleSys2 0) = [exampleUsageLog]"
  by (simp add: pendingUsage_def exampleWorker_def exampleSys2_def exampleSys1_def)

lemma exampleSys2_reachable: "reachableSys exampleIngest exampleWorker exampleLedger exampleSys2"
proof -
  have 1: "clusterStep exampleIngest exampleWorker (initialSys exampleLedger) exampleSys1"
    using clusterStep.record_local [of exampleUsageLog "initialSys exampleLedger" 0 exampleIngest exampleWorker] exampleUsageLog_wf
    by (simp add: exampleSys1_def initialSys_def) (simp add: exampleUsageLog_def)
  have 2: "clusterStep exampleIngest exampleWorker exampleSys1 exampleSys2"
    using clusterStep.send [of exampleWorker exampleSys1 0 "[exampleUsageLog]" exampleIngest]
    by (simp add: exampleSys2_def exampleSys1_def initialSys_def pendingUsage_def exampleWorker_def)
  from 1 2 show ?thesis unfolding reachableSys_def by (meson converse_rtranclp_into_rtranclp r_into_rtranclp)
qed

lemma exampleSys2_hash: "hashInjective exampleWorker exampleSys2"
  by (simp add: hashInjective_def exampleSys2_def)

theorem nothing_lost_witness: "{''q1''} \<subseteq> idsOf (syOutbox exampleSys2 0) \<union> takenIds (syMaster exampleSys2)"
  using nothing_lost [OF exampleSys2_reachable exampleSys2_hash, of 0] by (simp add: exampleSys2_def exampleSys1_def)

theorem consumption_settled_once_witness:
  "mdLedger (syMaster exampleSys2) = foldl (applyEntry exampleIngest) exampleLedger (syHistory exampleSys2)"
  using consumption_settled_once [OF exampleSys2_reachable exampleSys2_hash] by blast

lemma exampleAccounts: "\<forall>row \<in> set [wireClean ''q1'']. accountsExist exampleIngest (mdLedger (syMaster exampleSys2)) row"
  by (simp add: accountsExist_def exampleIngest_def wireClean_columns example_uints)
    (simp add: exampleSys2_def exampleSys1_def initialSys_def exampleLedger_def)

lemma exampleValid: "validateUsageBatch (ieUsage exampleIngest) (outBatch exampleWorker [exampleUsageLog]) = Inr [wireClean ''q1'']"
  using exampleBatch_valid by (simp add: exampleIngest_def)



text \<open>The master of the example without the key of the row.\<close>

definition exampleNoKey :: "(rat, rat, int) masterDb" where
  "exampleNoKey = \<lparr>mdLedger = exampleLedger\<lparr>ldKeys := Map.empty\<rparr>, mdBatches = Map.empty, mdRows = []\<rparr>"

theorem deleted_key_blocks_batch_witness:
  "\<exists>e. HandleUsage exampleIngest noClusterFaults exampleNoKey 5 (outBatch exampleWorker [exampleUsageLog]) = (Inl e, exampleNoKey)"
proof -
  have cost: "usageCostOf (ieUsage exampleIngest) (wireClean ''q1'') = Some (1 / 2)"
    by (simp add: exampleIngest_def usageCostOf_def wireClean_columns wireRow_charged half_amount)
  have pos: "\<not> dIsZero (ueDecimal (ieUsage exampleIngest)) (1 / 2)"
    "\<not> fLe (ieFloats exampleIngest) (dToFloat (ueDecimal (ieUsage exampleIngest)) (1 / 2)) (fZero (ieFloats exampleIngest))"
    by (simp_all add: exampleIngest_def exampleUsageEnv_def decOps_def ratOps_def ratFloats_def)
  have db: "ldKeys (mdLedger exampleNoKey) k = None" "rowRequestID (wireClean ''q1'') \<notin> takenIds exampleNoKey" "mdBatches exampleNoKey nb = None" for k nb
    by (simp_all add: exampleNoKey_def takenIds_def logIds_def exampleLedger_def)
  from deleted_key_blocks_batch [OF exampleValid _ cost pos db(1,2,3), where faults = noClusterFaults and node = 5 and we = exampleWorker and code = 400 and fails = "\<lambda>i. False"] show ?thesis by auto
qed

theorem snapshot_only_after_settlement_witness:
  "case SyncOnce exampleWorker
      \<lparr>swCountFails = (\<lambda>i. False), swResponses = (\<lambda>i. RespAck 1 False), swDeleteFails = (\<lambda>i j. False), swVersionFails = False,
       swConfig = (\<lambda>v. ConfigSnapshot 7 (2 :: nat)), swApplyFails = False, swSaveFails = False\<rparr>
      \<lparr>wkOutbox = [exampleUsageLog], wkMirror = 1, wkVersion = 6\<rparr> of (res, db') \<Rightarrow> res = SyncApplied \<and> wkOutbox db' = []"
proof -
  let ?w = "\<lparr>swCountFails = (\<lambda>i. False), swResponses = (\<lambda>i. RespAck 1 False), swDeleteFails = (\<lambda>i j. False), swVersionFails = False,
       swConfig = (\<lambda>v. ConfigSnapshot 7 (2 :: nat)), swApplyFails = False, swSaveFails = False\<rparr>"
  let ?db = "\<lparr>wkOutbox = [exampleUsageLog], wkMirror = 1 :: nat, wkVersion = 6\<rparr>"
  have "flushUsage exampleWorker [exampleUsageLog] (RespAck 1 False) (\<lambda>j. False) = (Flushed 1, [])"
    by (simp add: flushUsage_def Let_def deleteUsageRows_noFaults pendingUsage_def exampleWorker_def stableBatchID_def)
  then have "drainOutbox exampleWorker (\<lambda>i. False) (\<lambda>i. RespAck 1 False) (\<lambda>i j. False) 0 [exampleUsageLog] = (True, [])"
    by (simp add: drainOutbox.simps [of exampleWorker _ _ _ 0 "[exampleUsageLog]"] drainOutbox.simps [of exampleWorker _ _ _ "Suc 0" "[]"])
  then have "fst (SyncOnce exampleWorker ?w ?db) = SyncApplied" by (simp add: SyncOnce_def applyAndPersist_def)
  then show ?thesis using snapshot_only_after_settlement [where we = exampleWorker and w = ?w and db = ?db] by (auto split: prod.splits)
qed

end
