(* ===== verification/Health.thy ===== *)
theory Health
  imports Credentials Resilience_Settings
begin

text \<open>
  The health of upstreams (\<^verbatim>\<open>internal/logic/system/auto_disable.go\<close>, \<^verbatim>\<open>combo_health.go\<close>, \<^verbatim>\<open>model_health.go\<close>,
  \<^verbatim>\<open>credential_failure.go\<close>, \<^verbatim>\<open>recovery_schedule.go\<close>, \<^verbatim>\<open>auto_disable_notification.go\<close>): the score of every pair
  of model and key and its projection on the model, the cool-down of keys, automatic disabling and
  recovery of channels and keys.

  The database tables and the Redis entries are the record \<open>healthDb\<close>; which statements fail is a function of
  their names.  Transactions that fail leave the database as it was.  The time of a call is an argument; the
  calls of one operation that read the clock read the same time.  The deletions and increments in Redis whose
  error the code ignores are taken to succeed.
\<close>

subsection \<open>Data\<close>

record disableMark =
  dmAt :: gotime
  dmReason :: string
  dmStatusCode :: "int option"
  dmSource :: string

record channelState =
  chName :: string
  chEnabled :: bool
  chAutoDisableEnabled :: bool
  chMark :: "disableMark option"

record credentialState =
  csChannel :: id
  csKeyPrefix :: string
  csEnabled :: bool
  csMark :: "disableMark option"

record modelState =
  msChannel :: id
  msEnabled :: bool
  msHealthScore :: int
  msMark :: "disableMark option"

record comboState =
  cbChannel :: id
  cbHealthScore :: int
  cbCooldownUntil :: "gotime option"
  cbLastError :: "string option"

datatype failKey = ChannelKey id | CredentialKey id

datatype RecoveryTarget = TargetChannel | TargetCredential | TargetModel

record recoveryState =
  rsAttempts :: nat
  rsLastAttemptAt :: "gotime option"

datatype storedState = Undecodable | Stored recoveryState

record AutoDisableNotification =
  anRecovered :: bool
  anChannelID :: id
  anChannelName :: string
  anCredentialID :: id
  anCredentialKeyPrefix :: string
  anReason :: string
  anSource :: string
  anStatusCode :: nat

record healthDb =
  hdChannels :: "id \<Rightarrow> channelState option"
  hdCredentials :: "id \<Rightarrow> credentialState option"
  hdModels :: "id \<Rightarrow> modelState option"
  hdCombos :: "id \<times> id \<Rightarrow> comboState option"
  hdFailures :: "failKey \<Rightarrow> (nat \<times> gotime option) option"
  hdCooldowns :: "failKey \<Rightarrow> gotime option"
  hdRecovery :: "RecoveryTarget \<times> id \<Rightarrow> storedState option"
  hdLocks :: "RecoveryTarget \<times> id \<Rightarrow> gotime option"
  hdRoutesVersion :: nat
  hdChannelListCached :: bool
  hdNotes :: "AutoDisableNotification list"

text \<open>
  \<open>heScanMissing\<close>: whether the database layer reports a missing row as an error.  \<open>heDataMerges\<close>: whether a
  second call of its \<^verbatim>\<open>Data\<close> on the same statement keeps the columns of the first.  \<open>heCountersExpire\<close>: whether
  the cache can give a counter a lifetime, as the Redis of the master does and the tables of a worker do not
  (\<open>Cache_Store.counters_are_not_entries\<close>).
\<close>

record healthEnv =
  heFails :: "string \<Rightarrow> bool"
  heScanMissing :: bool
  heDataMerges :: bool
  heNow :: gotime
  heNotifier :: bool
  heCooldownSeconds :: int
  heCountersExpire :: bool

record AutoDisableInput =
  aiChannelID :: id
  aiCredentialID :: id
  aiModelID :: id
  aiSource :: string
  aiStatus :: int
  aiLatency :: duration
  aiMessage :: string
  aiTimedOut :: bool
  aiCommitted :: bool

record ModelDisableInput =
  miChannelID :: id
  miCredentialID :: id
  miModelID :: id
  miSource :: string
  miStatus :: int
  miMessage :: string
  miTimedOut :: bool
  miLatency :: duration
  miCommitted :: bool

text \<open>A single row of a table.\<close>

definition scanRow :: "healthEnv \<Rightarrow> string \<Rightarrow> 'r option \<Rightarrow> string + 'r option" where
  "scanRow env stmt row =
     (if heFails env stmt then Inl stmt
      else if row = None \<and> heScanMissing env then Inl ''no rows in result set''
      else Inr row)"

subsection \<open>Scores\<close>

definition ModelHealthInitialScore :: int where "ModelHealthInitialScore = 100"
definition ModelHealthFailurePenalty :: int where "ModelHealthFailurePenalty = 20"
definition ModelHealthRateLimitPenalty :: int where "ModelHealthRateLimitPenalty = 10"
definition ModelHealthCommittedFailurePenalty :: int where "ModelHealthCommittedFailurePenalty = 10"
definition ModelHealthDisableScore :: int where "ModelHealthDisableScore = 0"
definition ComboCooldownMinutes :: int where "ComboCooldownMinutes = 5"

definition ModelHealthRelaySuccessByLatency :: "duration \<Rightarrow> int" where
  "ModelHealthRelaySuccessByLatency latency =
     (if latency \<le> seconds 1 then 5 else if latency \<le> seconds 3 then 4 else if latency \<le> seconds 10 then 3
      else if latency \<le> seconds 30 then 2 else 1)"

definition modelHealthFailurePenalty :: "ModelDisableInput \<Rightarrow> int" where
  "modelHealthFailurePenalty input =
     (if miCommitted input then ModelHealthCommittedFailurePenalty else ModelHealthFailurePenalty)"

definition dailyQuotaExhaustionMarker :: string where "dailyQuotaExhaustionMarker = ''free-models-per-day''"

definition isDailyQuotaExhaustion :: "string \<Rightarrow> bool" where
  "isDailyQuotaExhaustion message = containsSub (toLower message) dailyQuotaExhaustionMarker"

text \<open>Instants count from the epoch, so a UTC day starts at every multiple of 24 hours.\<close>

definition nextUTCMidnight :: "gotime \<Rightarrow> gotime" where
  "nextUTCMidnight t = (t div hours 24 + 1) * hours 24"

text \<open>The ids of a table that satisfy a condition; the queries of the code range over the rows of one channel.\<close>

definition comboIsCooling :: "gotime \<Rightarrow> comboState \<Rightarrow> bool" where
  "comboIsCooling t combo = (case cbCooldownUntil combo of None \<Rightarrow> False | Some u \<Rightarrow> t < u)"

text \<open>
  \<^verbatim>\<open>updateModelHealthProjection\<close>: \<open>keys\<close> are the ids of the enabled keys of the model's channel, in the order in
  which the query returns them.
\<close>

definition projectionStep :: "gotime \<Rightarrow> (id \<Rightarrow> comboState option) \<Rightarrow> int \<Rightarrow> id \<Rightarrow> int" where
  "projectionStep t combos best key =
     (case combos key of
        None \<Rightarrow> 100
      | Some combo \<Rightarrow> if comboIsCooling t combo then best else max best (cbHealthScore combo))"

definition projectionScore :: "gotime \<Rightarrow> (id \<Rightarrow> comboState option) \<Rightarrow> id list \<Rightarrow> int" where
  "projectionScore t combos keys = foldl (projectionStep t combos) 0 keys"

definition enabledKeys :: "healthDb \<Rightarrow> id list \<Rightarrow> id \<Rightarrow> id list" where
  "enabledKeys db ids channel =
     filter (\<lambda>k. case hdCredentials db k of None \<Rightarrow> False | Some c \<Rightarrow> csChannel c = channel \<and> csEnabled c) ids"

text \<open>\<open>ids\<close> lists the ids of the table \<^verbatim>\<open>channel_credentials\<close>.\<close>

definition updateModelHealthProjection :: "healthEnv \<Rightarrow> id list \<Rightarrow> healthDb \<Rightarrow> id \<Rightarrow> modelState \<Rightarrow> string + healthDb" where
  "updateModelHealthProjection env ids db mid model =
     (if heFails env ''list credentials'' then Inl ''list credentials''
      else if heFails env ''list combos'' then Inl ''list combos''
      else let best = projectionScore (heNow env) (\<lambda>k. hdCombos db (mid, k)) (enabledKeys db ids (msChannel model)) in
        if heFails env ''update model'' then Inl ''update model''
        else Inr (db\<lparr>hdModels := (hdModels db)(mid := map_option (\<lambda>m. m\<lparr>msHealthScore := best, msMark := None\<rparr>) (hdModels db mid))\<rparr>))"

definition lastErrorText :: string where
  "lastErrorText = bytes [0xE4, 0xB8, 0x8A, 0xE6, 0xB8, 0xB8, 0xE8, 0xAF, 0xB7, 0xE6, 0xB1, 0x82, 0xE5, 0xA4, 0xB1, 0xE8, 0xB4, 0xA5]"

text \<open>The combination after the change, and the keys of the channel that cool down with it.\<close>

definition changedCombo :: "gotime \<Rightarrow> comboState \<Rightarrow> int \<Rightarrow> bool \<Rightarrow> bool \<Rightarrow> comboState" where
  "changedCombo t combo delta success dailyQuota =
     (let newScore = max 0 (min 100 (cbHealthScore combo + delta));
          until = (if \<not> success \<and> dailyQuota then Some (nextUTCMidnight t)
                   else if newScore = 0 then Some (t + minutes ComboCooldownMinutes)
                   else cbCooldownUntil combo)
      in combo\<lparr>cbHealthScore := newScore,
           cbCooldownUntil := (if success \<and> newScore > 0 then None else until),
           cbLastError := (if success then None else Some lastErrorText)\<rparr>)"

definition coolSiblings :: "gotime \<Rightarrow> id \<Rightarrow> id \<Rightarrow> (id \<times> id \<Rightarrow> comboState option) \<Rightarrow> id \<times> id \<Rightarrow> comboState option" where
  "coolSiblings t channel key combos =
     (\<lambda>(m, k). if k = key
        then map_option (\<lambda>c. if cbChannel c = channel then c\<lparr>cbCooldownUntil := Some (nextUTCMidnight t)\<rparr> else c) (combos (m, k))
        else combos (m, k))"

definition writeCombo :: "healthEnv \<Rightarrow> healthDb \<Rightarrow> id \<Rightarrow> id \<Rightarrow> id \<Rightarrow> int \<Rightarrow> bool \<Rightarrow> bool \<Rightarrow> string + healthDb" where
  "writeCombo env db channel mid key delta success dailyQuota =
     (let fresh = \<lparr>cbChannel = channel, cbHealthScore = 100, cbCooldownUntil = None, cbLastError = None\<rparr> in
      if heFails env ''lock combo'' then Inl ''lock combo''
      else if hdCombos db (mid, key) = None \<and> heFails env ''insert combo'' then Inl ''insert combo''
      else let combo = changedCombo (heNow env) (case hdCombos db (mid, key) of None \<Rightarrow> fresh | Some c \<Rightarrow> c) delta success dailyQuota;
               combos = (hdCombos db)((mid, key) \<mapsto> combo)
        in if heFails env ''update combo'' then Inl ''update combo''
           else if \<not> success \<and> dailyQuota \<and> heFails env ''cool siblings'' then Inl ''cool siblings''
           else if success \<and> cbHealthScore combo > 0 \<and> heFails env ''clear cooldown'' then Inl ''clear cooldown''
           else Inr (db\<lparr>hdCombos := (if \<not> success \<and> dailyQuota then coolSiblings (heNow env) channel key combos else combos)\<rparr>))"

text \<open>\<^verbatim>\<open>changeComboHealth\<close>: the body of the transaction, then the operation.\<close>

definition comboTransaction :: "healthEnv \<Rightarrow> id list \<Rightarrow> healthDb \<Rightarrow> id \<Rightarrow> id \<Rightarrow> id \<Rightarrow> int \<Rightarrow> bool \<Rightarrow> bool \<Rightarrow> string + healthDb" where
  "comboTransaction env ids db channelID mid key delta success dailyQuota =
     (case scanRow env ''lock model'' (hdModels db mid) of
        Inl e \<Rightarrow> Inl e
      | Inr None \<Rightarrow> Inr db
      | Inr (Some model) \<Rightarrow>
          if \<not> msEnabled model then Inr db
          else if channelID \<noteq> 0 \<and> msChannel model \<noteq> channelID then Inl (bytes [0xE7, 0xBB, 0x84, 0xE5, 0x90, 0x88, 0xE6, 0xA8, 0xA1, 0xE5, 0x9E, 0x8B, 0xE4, 0xB8, 0x8D, 0xE5, 0xB1, 0x9E, 0xE4, 0xBA, 0x8E, 0xE6, 0x8C, 0x87, 0xE5, 0xAE, 0x9A, 0xE6, 0xB8, 0xA0, 0xE9, 0x81, 0x93])
          else (case scanRow env ''find credential'' (case hdCredentials db key of None \<Rightarrow> None | Some c \<Rightarrow> if csChannel c = msChannel model then Some c else None) of
                  Inl e \<Rightarrow> Inl e
                | Inr None \<Rightarrow> Inl (bytes [0xE7, 0xBB, 0x84, 0xE5, 0x90, 0x88, 0xE5, 0x87, 0xAD, 0xE8, 0xAF, 0x81, 0xE4, 0xB8, 0x8D, 0xE5, 0xB1, 0x9E, 0xE4, 0xBA, 0x8E, 0xE6, 0xA8, 0xA1, 0xE5, 0x9E, 0x8B, 0xE6, 0xB8, 0xA0, 0xE9, 0x81, 0x93])
                | Inr (Some c) \<Rightarrow>
                    (case writeCombo env db (msChannel model) mid key delta success dailyQuota of
                       Inl e \<Rightarrow> Inl e
                     | Inr db1 \<Rightarrow> updateModelHealthProjection env ids db1 mid model)))"

definition changeComboHealth :: "healthEnv \<Rightarrow> id list \<Rightarrow> healthDb \<Rightarrow> id \<Rightarrow> id \<Rightarrow> id \<Rightarrow> int \<Rightarrow> bool \<Rightarrow> bool \<Rightarrow> string option \<times> healthDb" where
  "changeComboHealth env ids db channelID mid key delta success dailyQuota =
     (if key = 0 then (None, db)
      else case comboTransaction env ids db channelID mid key delta success dailyQuota of
             Inl e \<Rightarrow> (Some e, db)
           | Inr db1 \<Rightarrow> (None, db1\<lparr>hdRoutesVersion := hdRoutesVersion db1 + 1\<rparr>))"

definition ApplyModelHealthScore :: "healthEnv \<Rightarrow> id list \<Rightarrow> healthDb \<Rightarrow> ModelDisableInput \<Rightarrow> string option \<times> healthDb" where
  "ApplyModelHealthScore env ids db input =
     (if miCredentialID input = 0 \<or> miModelID input = 0 then (None, db)
      else let success = (200 \<le> miStatus input \<and> miStatus input < 300 \<and> miMessage input = [] \<and> \<not> miTimedOut input \<and> \<not> miCommitted input);
               limited = (miStatus input = 429 \<and> \<not> miCommitted input);
               delta = (if success then ModelHealthRelaySuccessByLatency (miLatency input)
                        else if limited then - ModelHealthRateLimitPenalty else - modelHealthFailurePenalty input);
               dailyQuota = (limited \<and> isDailyQuotaExhaustion (miMessage input))
        in changeComboHealth env ids db (miChannelID input) (miModelID input) (miCredentialID input) delta success dailyQuota)"

definition BumpComboHealthScore :: "healthEnv \<Rightarrow> id list \<Rightarrow> healthDb \<Rightarrow> id \<Rightarrow> id \<Rightarrow> int \<Rightarrow> string option \<times> healthDb" where
  "BumpComboHealthScore env ids db mid key delta = changeComboHealth env ids db 0 mid key (max 0 delta) True False"

text \<open>The manual reset of a model.\<close>

definition resetCombos :: "bool \<Rightarrow> id \<Rightarrow> (id \<times> id \<Rightarrow> comboState option) \<Rightarrow> id \<times> id \<Rightarrow> comboState option" where
  "resetCombos merges mid combos =
     (\<lambda>(m, k). if m = mid
        then map_option (\<lambda>c. if merges then c\<lparr>cbHealthScore := 100, cbCooldownUntil := None, cbLastError := None\<rparr>
               else c\<lparr>cbCooldownUntil := None\<rparr>) (combos (m, k))
        else combos (m, k))"

definition clearModelRouteCache :: "healthDb \<Rightarrow> healthDb" where
  "clearModelRouteCache db = db\<lparr>hdRoutesVersion := hdRoutesVersion db + 1\<rparr>"

definition ResetModelHealthScore :: "healthEnv \<Rightarrow> id list \<Rightarrow> healthDb \<Rightarrow> id \<Rightarrow> string option \<times> healthDb" where
  "ResetModelHealthScore env ids db mid =
     (case (case scanRow env ''lock model'' (hdModels db mid) of
              Inl e \<Rightarrow> Inl e
            | Inr None \<Rightarrow> Inr db
            | Inr (Some model) \<Rightarrow>
                if heFails env ''reset combos'' then Inl ''reset combos''
                else updateModelHealthProjection env ids (db\<lparr>hdCombos := resetCombos (heDataMerges env) mid (hdCombos db)\<rparr>) mid model) of
        Inl e \<Rightarrow> (Some e, db)
      | Inr db1 \<Rightarrow> (None, clearModelRouteCache db1))"

definition RecoverModelIfAllowed :: "healthEnv \<Rightarrow> id list \<Rightarrow> healthDb \<Rightarrow> id \<Rightarrow> string option \<times> bool \<times> healthDb" where
  "RecoverModelIfAllowed env ids db mid =
     (case scanRow env ''lock model'' (hdModels db mid) of
        Inl e \<Rightarrow> (Some e, False, db)
      | Inr None \<Rightarrow> (None, False, db)
      | Inr (Some model) \<Rightarrow>
          if \<not> msEnabled model \<or> msMark model = None then (None, False, db)
          else (case updateModelHealthProjection env ids db mid model of
                  Inl e \<Rightarrow> (Some e, True, db)
                | Inr db1 \<Rightarrow> (None, True, clearModelRouteCache db1)))"

subsection \<open>What counts as a failure\<close>

definition AutoDisableSourceRelayRequest :: string where "AutoDisableSourceRelayRequest = ''relay_request''"
definition AutoDisableSourceModelTest :: string where "AutoDisableSourceModelTest = ''model_test''"
definition autoDisableSourceUnknown :: string where "autoDisableSourceUnknown = ''unknown''"

definition matchesAutoDisable :: "ResilienceSettings \<Rightarrow> AutoDisableInput \<Rightarrow> bool" where
  "matchesAutoDisable settings input \<longleftrightarrow>
     aiCommitted input \<or> aiTimedOut input \<or>
     (aiStatus input > 0 \<and> MatchesStatusCodeRules (DisableStatusCodes settings) (aiStatus input)) \<or>
     aiLatency input \<ge> seconds (DisableLatencySeconds settings) \<or>
     list_ex (\<lambda>keyword. containsSub (toLower (aiMessage input)) (toLower keyword)) (FailureKeywords settings)"

definition IsAutoDisableMatch :: "ResilienceSettings \<Rightarrow> AutoDisableInput \<Rightarrow> bool" where
  "IsAutoDisableMatch settings input = (AutoDisableEnabled settings \<and> matchesAutoDisable settings input)"

definition definitiveWords :: "string list" where
  "definitiveWords =
    [''insufficient account balance'',
     ''insufficient balance'',
     ''insufficient_quota'',
     ''incorrect api key'',
     ''invalid api key'',
     bytes [0xE4, 0xBD, 0x99, 0xE9, 0xA2, 0x9D, 0xE4, 0xB8, 0x8D, 0xE8, 0xB6, 0xB3],
     bytes [0xE4, 0xBD, 0x99, 0xE9, 0xA2, 0x9D, 0xE8, 0x80, 0x97, 0xE5, 0xB0, 0xBD],
     bytes [0xE8, 0xB4, 0xA6, 0xE6, 0x88, 0xB7, 0xE5, 0xB7, 0xB2, 0xE6, 0xAC, 0xA0, 0xE8, 0xB4, 0xB9],
     bytes [0xE8, 0xB4, 0xA6, 0xE5, 0x8F, 0xB7, 0xE5, 0xB7, 0xB2, 0xE6, 0xAC, 0xA0, 0xE8, 0xB4, 0xB9],
     bytes [0xE5, 0xA5, 0x97, 0xE9, 0xA4, 0x90, 0xE5, 0xB7, 0xB2, 0xE5, 0x88, 0xB0, 0xE6, 0x9C, 0x9F],
     bytes [0xE5, 0xA5, 0x97, 0xE9, 0xA4, 0x90, 0xE5, 0xB7, 0xB2, 0xE8, 0xBF, 0x87, 0xE6, 0x9C, 0x9F]]"

definition definitiveCredentialFailure :: "AutoDisableInput \<Rightarrow> bool" where
  "definitiveCredentialFailure input \<longleftrightarrow>
     aiStatus input = 402 \<or> list_ex (\<lambda>word. containsSub (toLower (aiMessage input)) word) definitiveWords"

text \<open>
  \<^verbatim>\<open>time.Duration.String\<close>, for a positive duration that is a whole number of milliseconds, and the rounding
  to milliseconds, halves away from zero.
\<close>

definition pad3 :: "nat \<Rightarrow> string" where
  "pad3 n = drop 1 (showNat (1000 + n mod 1000))"

definition trimZeros :: "string \<Rightarrow> string" where
  "trimZeros s = rev (dropWhile (\<lambda>c. c = CHR ''0'') (rev s))"

definition durationText :: "nat \<Rightarrow> string" where
  "durationText ms =
     (if ms = 0 then ''0s''
      else if ms < 1000 then showNat ms @ ''ms''
      else let s = ms div 1000; frac = trimZeros (pad3 ms);
               secs = showNat (s mod 60) @ (if frac = [] then [] else CHR ''.'' # frac) @ ''s''
        in if s < 60 then secs
           else if s < 3600 then showNat (s div 60) @ ''m'' @ secs
           else showNat (s div 3600) @ ''h'' @ showNat (s div 60 mod 60) @ ''m'' @ secs)"

definition roundMs :: "duration \<Rightarrow> nat" where
  "roundMs d = nat ((d + 500000) div 1000000)"

definition autoDisableReason :: "AutoDisableInput \<Rightarrow> string" where
  "autoDisableReason input =
     truncateStr (joinStr '', ''
       ((if aiStatus input > 0 then [''status_code='' @ showInt (aiStatus input)] else []) @
        (if aiLatency input > 0 then [''latency='' @ durationText (roundMs (aiLatency input))] else []) @
        (if aiTimedOut input then [''timed_out=true''] else []) @
        (if trimSpace (aiMessage input) \<noteq> [] then [trimSpace (aiMessage input)] else []))) 1024"

definition autoDisableSource :: "string \<Rightarrow> string" where
  "autoDisableSource src =
     (if src = AutoDisableSourceRelayRequest \<or> src = AutoDisableSourceModelTest then src else autoDisableSourceUnknown)"

definition notificationStatusCode :: "int \<Rightarrow> nat" where
  "notificationStatusCode st = (if st \<le> 0 then 0 else nat st)"

subsection \<open>Consecutive failures and the recovery schedule\<close>

definition autoDisableFailureTTL :: duration where "autoDisableFailureTTL = minutes 10"
definition recoveryLockTTL :: duration where "recoveryLockTTL = minutes 3"

definition recoveryRetryIntervals :: "duration list" where
  "recoveryRetryIntervals = [seconds 30, minutes 1, minutes 2, minutes 4, minutes 5]"

definition RecoveryRetryInterval :: "nat \<Rightarrow> duration" where
  "RecoveryRetryInterval completed =
     (if completed = 0 then recoveryRetryIntervals ! 0
      else if completed \<ge> length recoveryRetryIntervals then recoveryRetryIntervals ! (length recoveryRetryIntervals - 1)
      else recoveryRetryIntervals ! completed)"

definition reachesAutoDisableFailureThreshold :: "nat \<Rightarrow> int \<Rightarrow> bool" where
  "reachesAutoDisableFailureThreshold n threshold = (int n \<ge> threshold)"

text \<open>A counter of Redis and its expiry, if it has one: gone once the clock has reached it.\<close>

definition liveEntry :: "gotime \<Rightarrow> (nat \<times> gotime option) option \<Rightarrow> nat \<times> gotime option" where
  "liveEntry t entry =
     (case entry of
        None \<Rightarrow> (0, None)
      | Some (n, None) \<Rightarrow> (n, None)
      | Some (n, Some expiry) \<Rightarrow> if t < expiry then (n, Some expiry) else (0, None))"

definition recordConsecutiveFailure :: "healthEnv \<Rightarrow> healthDb \<Rightarrow> failKey \<Rightarrow> int \<Rightarrow> (string + bool) \<times> healthDb" where
  "recordConsecutiveFailure env db key threshold =
     (if heFails env ''incr failures'' then (Inl ''increment automatic disable failure count'', db)
      else let (n, expiry) = liveEntry (heNow env) (hdFailures db key)
        in if heFails env ''expire failures''
           then (Inl ''expire automatic disable failure count'', db\<lparr>hdFailures := (hdFailures db)(key \<mapsto> (n + 1, expiry))\<rparr>)
           else let db1 = db\<lparr>hdFailures := (hdFailures db)(key \<mapsto> (n + 1, if heCountersExpire env then Some (heNow env + autoDisableFailureTTL) else expiry))\<rparr>
             in if \<not> reachesAutoDisableFailureThreshold (n + 1) threshold then (Inr False, db1)
                else if heFails env ''set cooldown'' then (Inl ''set automatic disable cooldown'', db1)
                else (Inr True, db1\<lparr>hdCooldowns := (hdCooldowns db1)(key \<mapsto> heNow env + seconds (heCooldownSeconds env))\<rparr>))"

definition recordAutoDisableFailure :: "healthEnv \<Rightarrow> healthDb \<Rightarrow> id \<Rightarrow> id \<Rightarrow> int \<Rightarrow> (string + bool) \<times> healthDb" where
  "recordAutoDisableFailure env db channelID credentialID threshold =
     recordConsecutiveFailure env db (if credentialID = 0 then ChannelKey channelID else CredentialKey credentialID)
       (if threshold < 1 then AutoDisableFailureThreshold DefaultResilienceSettings else threshold)"

definition ClearAutoDisableFailures :: "healthDb \<Rightarrow> id \<Rightarrow> healthDb" where
  "ClearAutoDisableFailures db key =
     (if key = 0 then db
      else db\<lparr>hdFailures := (hdFailures db)(CredentialKey key := None), hdCooldowns := (hdCooldowns db)(CredentialKey key := None)\<rparr>)"

definition ClearChannelAutoDisableFailures :: "healthDb \<Rightarrow> id \<Rightarrow> healthDb" where
  "ClearChannelAutoDisableFailures db channelID =
     (if channelID = 0 then db
      else db\<lparr>hdFailures := (hdFailures db)(ChannelKey channelID := None), hdCooldowns := (hdCooldowns db)(ChannelKey channelID := None)\<rparr>)"

definition clearRecoverySchedule :: "healthDb \<Rightarrow> RecoveryTarget \<Rightarrow> id \<Rightarrow> healthDb" where
  "clearRecoverySchedule db target i =
     (if i = 0 then db
      else db\<lparr>hdRecovery := (hdRecovery db)((target, i) := None), hdLocks := (hdLocks db)((target, i) := None)\<rparr>)"

definition loadRecoveryState :: "healthEnv \<Rightarrow> healthDb \<Rightarrow> RecoveryTarget \<Rightarrow> id \<Rightarrow> (string + recoveryState) \<times> healthDb" where
  "loadRecoveryState env db target i =
     (let none = \<lparr>rsAttempts = 0, rsLastAttemptAt = None\<rparr> in
      if heFails env ''read recovery'' then (Inl ''read recovery attempt state'', db)
      else case hdRecovery db (target, i) of
             None \<Rightarrow> (Inr none, db)
           | Some Undecodable \<Rightarrow> (Inr none, db\<lparr>hdRecovery := (hdRecovery db)((target, i) := None)\<rparr>)
           | Some (Stored st) \<Rightarrow> (Inr st, db))"

definition BeginRecoveryAttempt :: "healthEnv \<Rightarrow> healthDb \<Rightarrow> RecoveryTarget \<Rightarrow> id \<Rightarrow> gotime option \<Rightarrow> (string + bool) \<times> healthDb" where
  "BeginRecoveryAttempt env db target i disabledAt =
     (case disabledAt of
        None \<Rightarrow> (Inr False, db)
      | Some at0 \<Rightarrow>
          if i = 0 then (Inr False, db)
          else case loadRecoveryState env db target i of
                 (Inl e, db1) \<Rightarrow> (Inl e, db1)
               | (Inr st, db1) \<Rightarrow>
                   let base = (case rsLastAttemptAt st of None \<Rightarrow> at0 | Some t \<Rightarrow> t) in
                   if heNow env < base + RecoveryRetryInterval (rsAttempts st) then (Inr False, db1)
                   else if heFails env ''lock recovery'' then (Inl ''acquire recovery attempt lock'', db1)
                   else (case hdLocks db1 (target, i) of
                           Some expiry \<Rightarrow> if heNow env < expiry then (Inr False, db1)
                             else (Inr True, db1\<lparr>hdLocks := (hdLocks db1)((target, i) \<mapsto> heNow env + recoveryLockTTL)\<rparr>)
                         | None \<Rightarrow> (Inr True, db1\<lparr>hdLocks := (hdLocks db1)((target, i) \<mapsto> heNow env + recoveryLockTTL)\<rparr>)))"

definition FinishRecoveryAttempt :: "healthEnv \<Rightarrow> healthDb \<Rightarrow> RecoveryTarget \<Rightarrow> id \<Rightarrow> bool \<Rightarrow> healthDb" where
  "FinishRecoveryAttempt env db target i succeeded =
     (if succeeded then clearRecoverySchedule db target i
      else let (st, db1) = loadRecoveryState env db target i;
               db2 = (case st of
                 Inl e \<Rightarrow> db1
               | Inr r \<Rightarrow> if heFails env ''save recovery'' then db1
                   else db1\<lparr>hdRecovery := (hdRecovery db1)((target, i) \<mapsto> Stored \<lparr>rsAttempts = rsAttempts r + 1, rsLastAttemptAt = Some (heNow env)\<rparr>)\<rparr>)
        in if heFails env ''unlock recovery'' then db2 else db2\<lparr>hdLocks := (hdLocks db2)((target, i) := None)\<rparr>)"

subsection \<open>Disabling\<close>

definition notifyAutoDisableTransition :: "healthEnv \<Rightarrow> ResilienceSettings \<Rightarrow> AutoDisableNotification \<Rightarrow> healthDb \<Rightarrow> healthDb" where
  "notifyAutoDisableTransition env settings note db =
     (if \<not> AutoDisableNotificationEnabled settings \<or> \<not> heNotifier env then db else db\<lparr>hdNotes := hdNotes db @ [note]\<rparr>)"

definition clearTransient :: "failKey \<Rightarrow> healthDb \<Rightarrow> healthDb" where
  "clearTransient key db =
     db\<lparr>hdFailures := (hdFailures db)(key := None), hdCooldowns := (hdCooldowns db)(key := None),
        hdChannelListCached := False, hdRoutesVersion := hdRoutesVersion db + 1\<rparr>"

definition markOf :: "healthEnv \<Rightarrow> AutoDisableInput \<Rightarrow> disableMark" where
  "markOf env input = \<lparr>dmAt = heNow env, dmReason = autoDisableReason input,
     dmStatusCode = (if aiStatus input > 0 then Some (aiStatus input) else None), dmSource = autoDisableSource (aiSource input)\<rparr>"

definition disableCredentialNow :: "healthEnv \<Rightarrow> healthDb \<Rightarrow> channelState \<Rightarrow> ResilienceSettings \<Rightarrow> credentialState \<Rightarrow> AutoDisableInput \<Rightarrow>
    (string + bool) \<times> healthDb" where
  "disableCredentialNow env db channel settings credential input =
     (let key = aiCredentialID input in
      if heFails env ''disable credential'' then (Inl ''automatically disable channel credential'', db)
      else case hdCredentials db key of
             None \<Rightarrow> (Inr False, db)
           | Some c \<Rightarrow>
               if \<not> csEnabled c then (Inr False, db)
               else let db1 = db\<lparr>hdCredentials := (hdCredentials db)(key \<mapsto> c\<lparr>csEnabled := False, csMark := Some (markOf env input)\<rparr>)\<rparr>;
                        db2 = clearTransient (CredentialKey key) (clearRecoverySchedule db1 TargetCredential key)
                 in (Inr True, notifyAutoDisableTransition env settings
                      \<lparr>anRecovered = False, anChannelID = aiChannelID input, anChannelName = chName channel, anCredentialID = key,
                       anCredentialKeyPrefix = csKeyPrefix credential, anReason = autoDisableReason input,
                       anSource = autoDisableSource (aiSource input), anStatusCode = notificationStatusCode (aiStatus input)\<rparr> db2))"

text \<open>The key of a channel, as both queries of the code ask for it.\<close>

definition channelKey :: "healthDb \<Rightarrow> id \<Rightarrow> id \<Rightarrow> credentialState option" where
  "channelKey db key channelID = (case hdCredentials db key of None \<Rightarrow> None | Some c \<Rightarrow> if csChannel c = channelID then Some c else None)"

definition disableCredential :: "healthEnv \<Rightarrow> healthDb \<Rightarrow> channelState \<Rightarrow> ResilienceSettings \<Rightarrow> AutoDisableInput \<Rightarrow> (string + bool) \<times> healthDb" where
  "disableCredential env db channel settings input =
     (case scanRow env ''load credential'' (channelKey db (aiCredentialID input) (aiChannelID input)) of
        Inl e \<Rightarrow> (Inl e, db)
      | Inr None \<Rightarrow> (Inr False, db)
      | Inr (Some c) \<Rightarrow>
          if \<not> csEnabled c then (Inr False, db)
          else case recordAutoDisableFailure env db (aiChannelID input) (aiCredentialID input) (AutoDisableFailureThreshold settings) of
                 (Inl e, db1) \<Rightarrow> (Inl e, db1)
               | (Inr False, db1) \<Rightarrow> (Inr False, db1)
               | (Inr True, db1) \<Rightarrow> disableCredentialNow env db1 channel settings c input)"

definition disableChannel :: "healthEnv \<Rightarrow> healthDb \<Rightarrow> channelState \<Rightarrow> ResilienceSettings \<Rightarrow> AutoDisableInput \<Rightarrow> (string + bool) \<times> healthDb" where
  "disableChannel env db channel settings input =
     (let i = aiChannelID input in
      case recordAutoDisableFailure env db i 0 (AutoDisableFailureThreshold settings) of
        (Inl e, db1) \<Rightarrow> (Inl e, db1)
      | (Inr False, db1) \<Rightarrow> (Inr False, db1)
      | (Inr True, db1) \<Rightarrow>
          if heFails env ''disable channel'' then (Inl ''automatically disable channel'', db1)
          else case hdChannels db1 i of
                 None \<Rightarrow> (Inr False, db1)
               | Some c \<Rightarrow>
                   if \<not> chEnabled c then (Inr False, db1)
                   else let db2 = db1\<lparr>hdChannels := (hdChannels db1)(i \<mapsto> c\<lparr>chEnabled := False, chMark := Some (markOf env input)\<rparr>)\<rparr>;
                            db3 = clearTransient (ChannelKey i) (clearRecoverySchedule db2 TargetChannel i)
                     in (Inr True, notifyAutoDisableTransition env settings
                          \<lparr>anRecovered = False, anChannelID = i, anChannelName = chName channel, anCredentialID = 0, anCredentialKeyPrefix = [],
                           anReason = autoDisableReason input, anSource = autoDisableSource (aiSource input),
                           anStatusCode = notificationStatusCode (aiStatus input)\<rparr> db3))"

definition modelInput :: "AutoDisableInput \<Rightarrow> ModelDisableInput" where
  "modelInput input =
     \<lparr>miChannelID = aiChannelID input, miCredentialID = aiCredentialID input, miModelID = aiModelID input, miSource = aiSource input,
      miStatus = aiStatus input, miMessage = aiMessage input, miTimedOut = aiTimedOut input, miLatency = aiLatency input,
      miCommitted = aiCommitted input\<rparr>"

definition DisableIfNeededWithSettings :: "healthEnv \<Rightarrow> id list \<Rightarrow> healthDb \<Rightarrow> ResilienceSettings \<Rightarrow> AutoDisableInput \<Rightarrow>
    (string + bool) \<times> healthDb" where
  "DisableIfNeededWithSettings env ids db settings input =
     (if \<not> AutoDisableEnabled settings then (Inr False, db)
      else case scanRow env ''load channel'' (hdChannels db (aiChannelID input)) of
             Inl e \<Rightarrow> (Inl e, db)
           | Inr None \<Rightarrow> (Inl ''channel not found'', db)
           | Inr (Some channel) \<Rightarrow>
               if \<not> chAutoDisableEnabled channel \<or> \<not> chEnabled channel then (Inr False, db)
               else if \<not> aiCommitted input \<and> aiCredentialID input > 0 \<and> definitiveCredentialFailure input then
                 (case scanRow env ''load credential'' (channelKey db (aiCredentialID input) (aiChannelID input)) of
                    Inl e \<Rightarrow> (Inl e, db)
                  | Inr None \<Rightarrow> (Inr False, db)
                  | Inr (Some c) \<Rightarrow> if csEnabled c then disableCredentialNow env db channel settings c input else (Inr False, db))
               else if aiModelID input > 0 then
                 (case ApplyModelHealthScore env ids db (modelInput input) of (e, db1) \<Rightarrow> (case e of None \<Rightarrow> Inr False | Some m \<Rightarrow> Inl m, db1))
               else if \<not> IsAutoDisableMatch settings input then (Inr False, db)
               else if aiCommitted input then (Inr False, db)
               else if aiCredentialID input > 0 then disableCredential env db channel settings input
               else disableChannel env db channel settings input)"

subsection \<open>Recovery\<close>

definition recoveryNote :: "id \<Rightarrow> string \<Rightarrow> id \<Rightarrow> string \<Rightarrow> disableMark \<Rightarrow> AutoDisableNotification" where
  "recoveryNote channelID name key prefix mark =
     \<lparr>anRecovered = True, anChannelID = channelID, anChannelName = name, anCredentialID = key, anCredentialKeyPrefix = prefix,
      anReason = dmReason mark, anSource = dmSource mark, anStatusCode = (case dmStatusCode mark of None \<Rightarrow> 0 | Some c \<Rightarrow> nat c)\<rparr>"

definition RecoverIfAllowed :: "healthEnv \<Rightarrow> healthDb \<Rightarrow> ResilienceSettings \<Rightarrow> id \<Rightarrow> (string + bool) \<times> healthDb" where
  "RecoverIfAllowed env db settings i =
     (if \<not> RecoveryEnabled settings then (Inr False, db)
      else case scanRow env ''load channel'' (hdChannels db i) of
             Inl e \<Rightarrow> (Inl e, db)
           | Inr None \<Rightarrow> (Inl ''channel not found'', db)
           | Inr (Some c) \<Rightarrow>
               (case chMark c of
                  None \<Rightarrow> (Inr False, db)
                | Some mark \<Rightarrow>
                    if chEnabled c then (Inr False, db)
                    else if heFails env ''recover channel'' then (Inl ''automatically recover channel'', db)
                    else let db1 = db\<lparr>hdChannels := (hdChannels db)(i \<mapsto> c\<lparr>chEnabled := True, chMark := None\<rparr>)\<rparr>;
                             db2 = clearTransient (ChannelKey i) (clearRecoverySchedule db1 TargetChannel i)
                      in (Inr True, notifyAutoDisableTransition env settings (recoveryNote i (chName c) 0 [] mark) db2)))"

definition channelNameOf :: "healthEnv \<Rightarrow> healthDb \<Rightarrow> id \<Rightarrow> string" where
  "channelNameOf env db i =
     (if heFails env ''load channel name'' then [] else case hdChannels db i of None \<Rightarrow> [] | Some c \<Rightarrow> chName c)"

definition RecoverCredentialIfAllowed :: "healthEnv \<Rightarrow> healthDb \<Rightarrow> ResilienceSettings \<Rightarrow> id \<Rightarrow> (string + bool) \<times> healthDb" where
  "RecoverCredentialIfAllowed env db settings key =
     (if \<not> RecoveryEnabled settings then (Inr False, db)
      else case scanRow env ''load credential'' (hdCredentials db key) of
             Inl e \<Rightarrow> (Inl e, db)
           | Inr None \<Rightarrow> (Inr False, db)
           | Inr (Some c) \<Rightarrow>
               (case csMark c of
                  None \<Rightarrow> (Inr False, db)
                | Some mark \<Rightarrow>
                    if csEnabled c then (Inr False, db)
                    else if heFails env ''recover credential'' then (Inl ''automatically recover channel credential'', db)
                    else let db1 = db\<lparr>hdCredentials := (hdCredentials db)(key \<mapsto> c\<lparr>csEnabled := True, csMark := None\<rparr>)\<rparr>;
                             db2 = clearTransient (CredentialKey key) (clearRecoverySchedule db1 TargetCredential key)
                      in (Inr True, notifyAutoDisableTransition env settings
                           (recoveryNote (csChannel c) (channelNameOf env db2 (csChannel c)) key (csKeyPrefix c) mark) db2)))"

subsection \<open>Scores stay between 0 and 100\<close>

definition scoreOk :: "int \<Rightarrow> bool" where
  "scoreOk n \<longleftrightarrow> 0 \<le> n \<and> n \<le> 100"

definition healthOk :: "healthDb \<Rightarrow> bool" where
  "healthOk db \<longleftrightarrow> (\<forall>p c. hdCombos db p = Some c \<longrightarrow> scoreOk (cbHealthScore c)) \<and> (\<forall>m r. hdModels db m = Some r \<longrightarrow> scoreOk (msHealthScore r))"

text \<open>All that happens to the health of upstreams, with any failures and at any time.\<close>

inductive healthStep :: "ResilienceSettings \<Rightarrow> healthDb \<Rightarrow> healthDb \<Rightarrow> bool" for settings where
  disable: "DisableIfNeededWithSettings env ids db settings input = (r, db') \<Longrightarrow> healthStep settings db db'"
| apply_score: "ApplyModelHealthScore env ids db minput = (e, db') \<Longrightarrow> healthStep settings db db'"
| bump: "BumpComboHealthScore env ids db mid key delta = (e, db') \<Longrightarrow> healthStep settings db db'"
| reset: "ResetModelHealthScore env ids db mid = (e, db') \<Longrightarrow> healthStep settings db db'"
| recover_model: "RecoverModelIfAllowed env ids db mid = (e, b, db') \<Longrightarrow> healthStep settings db db'"
| recover_channel: "RecoverIfAllowed env db settings i = (r, db') \<Longrightarrow> healthStep settings db db'"
| recover_credential: "RecoverCredentialIfAllowed env db settings key = (r, db') \<Longrightarrow> healthStep settings db db'"
| begin_recovery: "BeginRecoveryAttempt env db target i since = (r, db') \<Longrightarrow> healthStep settings db db'"
| finish_recovery: "FinishRecoveryAttempt env db target i succeeded = db' \<Longrightarrow> healthStep settings db db'"
| clear_credential: "ClearAutoDisableFailures db key = db' \<Longrightarrow> healthStep settings db db'"
| clear_channel: "ClearChannelAutoDisableFailures db i = db' \<Longrightarrow> healthStep settings db db'"

lemma projectionStep_ok: "scoreOk best \<Longrightarrow> (\<And>c. combos k = Some c \<Longrightarrow> scoreOk (cbHealthScore c)) \<Longrightarrow> scoreOk (projectionStep t combos best k)"
  by (auto simp: projectionStep_def scoreOk_def split: option.split)

lemma projectionScore_ok:
  assumes "\<And>k c. combos k = Some c \<Longrightarrow> scoreOk (cbHealthScore c)"
  shows "scoreOk (projectionScore t combos keys)"
proof -
  have "scoreOk b \<Longrightarrow> scoreOk (foldl (projectionStep t combos) b keys)" for b
    by (induction keys arbitrary: b) (auto intro: projectionStep_ok assms)
  then show ?thesis by (simp add: projectionScore_def scoreOk_def)
qed

lemma updateProjection_ok: "updateModelHealthProjection env ids db mid model = Inr db' \<Longrightarrow> healthOk db \<Longrightarrow> healthOk db'"
  by (auto simp: updateModelHealthProjection_def Let_def healthOk_def split: if_splits intro!: projectionScore_ok)

lemma changedCombo_ok: "scoreOk (cbHealthScore (changedCombo t c delta success quota))"
  by (simp add: changedCombo_def Let_def scoreOk_def)

lemma writeCombo_ok: "writeCombo env db channel mid key delta success quota = Inr db' \<Longrightarrow> healthOk db \<Longrightarrow> healthOk db'"
  by (auto simp: writeCombo_def Let_def healthOk_def coolSiblings_def changedCombo_ok split: if_splits)

lemma comboTransaction_ok:
  "comboTransaction env ids db channelID mid key delta success quota = Inr db' \<Longrightarrow> healthOk db \<Longrightarrow> healthOk db'"
  by (auto simp: comboTransaction_def split: sum.splits option.splits if_splits dest: writeCombo_ok updateProjection_ok)

lemma changeComboHealth_ok: "changeComboHealth env ids db channelID mid key delta success quota = (e, db') \<Longrightarrow> healthOk db \<Longrightarrow> healthOk db'"
  by (auto simp: changeComboHealth_def split: if_splits sum.splits dest!: comboTransaction_ok) (auto simp: healthOk_def)

lemma ApplyModelHealthScore_ok: "ApplyModelHealthScore env ids db input = (e, db') \<Longrightarrow> healthOk db \<Longrightarrow> healthOk db'"
  by (auto simp: ApplyModelHealthScore_def Let_def split: if_splits dest: changeComboHealth_ok)

text \<open>What touches only Redis, the switches of channels and keys, or the notifications.\<close>

definition sameScores :: "healthDb \<Rightarrow> healthDb \<Rightarrow> bool" where
  "sameScores db db' \<longleftrightarrow> hdCombos db' = hdCombos db \<and> hdModels db' = hdModels db"

definition sameSwitches :: "healthDb \<Rightarrow> healthDb \<Rightarrow> bool" where
  "sameSwitches db db' \<longleftrightarrow> hdChannels db' = hdChannels db \<and> hdCredentials db' = hdCredentials db"

lemma sameScores_ok: "sameScores db db' \<Longrightarrow> healthOk db \<Longrightarrow> healthOk db'"
  by (simp add: sameScores_def healthOk_def)

lemma helper_keeps [simp]:
  "hdCombos (notifyAutoDisableTransition env settings note db) = hdCombos db" "hdModels (notifyAutoDisableTransition env settings note db) = hdModels db"
  "hdChannels (notifyAutoDisableTransition env settings note db) = hdChannels db"
  "hdCredentials (notifyAutoDisableTransition env settings note db) = hdCredentials db"
  "hdCombos (clearTransient key db) = hdCombos db" "hdModels (clearTransient key db) = hdModels db"
  "hdChannels (clearTransient key db) = hdChannels db" "hdCredentials (clearTransient key db) = hdCredentials db"
  "hdCombos (clearRecoverySchedule db target i) = hdCombos db" "hdModels (clearRecoverySchedule db target i) = hdModels db"
  "hdChannels (clearRecoverySchedule db target i) = hdChannels db" "hdCredentials (clearRecoverySchedule db target i) = hdCredentials db"
  by (simp_all add: notifyAutoDisableTransition_def clearTransient_def clearRecoverySchedule_def)

lemma recordAutoDisableFailure_keeps:
  "recordAutoDisableFailure env db i key threshold = (r, db') \<Longrightarrow> sameScores db db' \<and> sameSwitches db db'"
  by (auto simp: recordAutoDisableFailure_def recordConsecutiveFailure_def Let_def sameScores_def sameSwitches_def split: if_splits prod.splits)

lemma disable_same_scores:
  "disableCredentialNow env db channel settings c input = (r, db') \<Longrightarrow> sameScores db db'"
  by (auto simp: disableCredentialNow_def Let_def sameScores_def split: if_splits option.splits)

lemma disableCredential_scores: "disableCredential env db channel settings input = (r, db') \<Longrightarrow> sameScores db db'"
  by (auto simp: disableCredential_def sameScores_def split: sum.splits option.splits if_splits prod.splits bool.splits
      dest!: disable_same_scores [unfolded sameScores_def] recordAutoDisableFailure_keeps [unfolded sameScores_def])

lemma disableChannel_scores: "disableChannel env db channel settings input = (r, db') \<Longrightarrow> sameScores db db'"
  by (auto simp: disableChannel_def Let_def sameScores_def split: sum.splits option.splits if_splits prod.splits bool.splits
      dest!: recordAutoDisableFailure_keeps [unfolded sameScores_def])

lemma DisableIfNeeded_ok: "DisableIfNeededWithSettings env ids db settings input = (r, db') \<Longrightarrow> healthOk db \<Longrightarrow> healthOk db'"
  by (auto simp: DisableIfNeededWithSettings_def split: sum.splits option.splits if_splits prod.splits
      dest: disable_same_scores disableCredential_scores disableChannel_scores sameScores_ok ApplyModelHealthScore_ok)

lemma loadRecoveryState_keeps: "loadRecoveryState env db target i = (r, db') \<Longrightarrow> sameScores db db' \<and> sameSwitches db db'"
  by (auto simp: loadRecoveryState_def Let_def sameScores_def sameSwitches_def split: if_splits option.splits storedState.splits)

lemma recovery_keeps:
  "BeginRecoveryAttempt env db target i since = (r, db') \<Longrightarrow> sameScores db db' \<and> sameSwitches db db'"
  "sameScores db (FinishRecoveryAttempt env db target i succeeded) \<and> sameSwitches db (FinishRecoveryAttempt env db target i succeeded)"
proof -
  obtain st db1 where l: "loadRecoveryState env db target i = (st, db1)" by fastforce
  note k = loadRecoveryState_keeps [OF l, unfolded sameScores_def sameSwitches_def]
  show "BeginRecoveryAttempt env db target i since = (r, db') \<Longrightarrow> sameScores db db' \<and> sameSwitches db db'"
    using k by (auto simp: BeginRecoveryAttempt_def l Let_def sameScores_def sameSwitches_def split: option.splits if_splits sum.splits)
  show "sameScores db (FinishRecoveryAttempt env db target i succeeded) \<and> sameSwitches db (FinishRecoveryAttempt env db target i succeeded)"
    using k by (auto simp: FinishRecoveryAttempt_def l Let_def sameScores_def sameSwitches_def split: sum.split)
qed

lemma reset_ok: "ResetModelHealthScore env ids db mid = (e, db') \<Longrightarrow> healthOk db \<Longrightarrow> healthOk db'"
proof -
  assume run: "ResetModelHealthScore env ids db mid = (e, db')" and ok: "healthOk db"
  have "healthOk (db\<lparr>hdCombos := resetCombos b mid (hdCombos db)\<rparr>)" for b
    using ok by (auto simp: healthOk_def resetCombos_def scoreOk_def split: if_splits)
  with run ok show "healthOk db'"
    by (auto simp: ResetModelHealthScore_def clearModelRouteCache_def split: sum.splits option.splits if_splits dest!: updateProjection_ok)
      (auto simp: healthOk_def)
qed

lemma recover_model_ok: "RecoverModelIfAllowed env ids db mid = (e, b, db') \<Longrightarrow> healthOk db \<Longrightarrow> healthOk db'"
  by (auto simp: RecoverModelIfAllowed_def clearModelRouteCache_def split: sum.splits option.splits if_splits dest!: updateProjection_ok)
    (auto simp: healthOk_def)

lemma recover_scores:
  "RecoverIfAllowed env db settings i = (r, db') \<Longrightarrow> sameScores db db'"
  "RecoverCredentialIfAllowed env db settings key = (r, db') \<Longrightarrow> sameScores db db'"
  by (auto simp: RecoverIfAllowed_def RecoverCredentialIfAllowed_def Let_def sameScores_def split: sum.splits option.splits if_splits)

lemma healthStep_ok: "healthStep settings db db' \<Longrightarrow> healthOk db \<Longrightarrow> healthOk db'"
proof (induction rule: healthStep.induct)
  case (finish_recovery env db target i succeeded db')
  then show ?case using recovery_keeps(2) sameScores_ok by blast
next
  case (begin_recovery env db target i since r db')
  then show ?case using recovery_keeps(1) sameScores_ok by blast
qed (auto simp: BumpComboHealthScore_def ClearAutoDisableFailures_def ClearChannelAutoDisableFailures_def sameScores_def
    dest: DisableIfNeeded_ok ApplyModelHealthScore_ok changeComboHealth_ok reset_ok recover_model_ok recover_scores sameScores_ok
    intro: sameScores_ok [unfolded sameScores_def])

text \<open>
  C25: whatever happens to upstreams, in any order and with any database failures, the score of every pair of
  model and key and of every model stays between 0 and 100.
\<close>

theorem scores_bounded:
  assumes "(healthStep settings)\<^sup>*\<^sup>* db db'" "healthOk db"
  shows "healthOk db'"
  using assms by (induction rule: rtranclp_induct) (auto intro: healthStep_ok)

definition exampleHealthEnv :: healthEnv where
  "exampleHealthEnv = \<lparr>heFails = \<lambda>_. False, heScanMissing = True, heDataMerges = False, heNow = hours 25, heNotifier = False,
     heCooldownSeconds = 60, heCountersExpire = True\<rparr>"

definition exampleCombo :: "int \<Rightarrow> comboState" where
  "exampleCombo n = \<lparr>cbChannel = 1, cbHealthScore = n, cbCooldownUntil = None, cbLastError = None\<rparr>"

text \<open>Channel 1 with the keys 4 and 5 and the models 2 and 3; key 5 was never used, and key 4 only for model 2.\<close>

definition exampleHealthDb :: healthDb where
  "exampleHealthDb =
     \<lparr>hdChannels = [1 \<mapsto> \<lparr>chName = ''c'', chEnabled = True, chAutoDisableEnabled = True, chMark = None\<rparr>],
      hdCredentials = [4 \<mapsto> \<lparr>csChannel = 1, csKeyPrefix = [], csEnabled = True, csMark = None\<rparr>,
                       5 \<mapsto> \<lparr>csChannel = 1, csKeyPrefix = [], csEnabled = True, csMark = None\<rparr>],
      hdModels = [2 \<mapsto> \<lparr>msChannel = 1, msEnabled = True, msHealthScore = 100, msMark = None\<rparr>,
                  3 \<mapsto> \<lparr>msChannel = 1, msEnabled = True, msHealthScore = 100, msMark = None\<rparr>],
      hdCombos = [(2, 4) \<mapsto> exampleCombo 20], hdFailures = Map.empty, hdCooldowns = Map.empty, hdRecovery = Map.empty,
      hdLocks = Map.empty, hdRoutesVersion = 0, hdChannelListCached = True, hdNotes = []\<rparr>"

definition exampleFailure :: "int \<Rightarrow> string \<Rightarrow> ModelDisableInput" where
  "exampleFailure st msg = \<lparr>miChannelID = 1, miCredentialID = 4, miModelID = 2, miSource = AutoDisableSourceRelayRequest, miStatus = st,
     miMessage = msg, miTimedOut = False, miLatency = 0, miCommitted = False\<rparr>"

lemma exampleHealthDb_ok: "healthOk exampleHealthDb"
  by (auto simp: healthOk_def exampleHealthDb_def exampleCombo_def scoreOk_def)

theorem scores_bounded_witness:
  "healthOk (snd (ApplyModelHealthScore exampleHealthEnv [4, 5] exampleHealthDb (exampleFailure 502 ''bad gateway'')))"
proof (rule scores_bounded)
  show "healthOk exampleHealthDb" by (rule exampleHealthDb_ok)
  show "(healthStep DefaultResilienceSettings)\<^sup>*\<^sup>* exampleHealthDb
      (snd (ApplyModelHealthScore exampleHealthEnv [4, 5] exampleHealthDb (exampleFailure 502 ''bad gateway'')))"
    by (rule r_into_rtranclp, rule healthStep.apply_score, rule surjective_pairing)
qed

subsection \<open>The score of a model\<close>

text \<open>What a key can do for a model now.\<close>

definition keyScore :: "gotime \<Rightarrow> (id \<Rightarrow> comboState option) \<Rightarrow> id \<Rightarrow> int" where
  "keyScore t combos key =
     (case combos key of None \<Rightarrow> 100 | Some c \<Rightarrow> if comboIsCooling t c then 0 else cbHealthScore c)"

lemma projectionStep_max:
  assumes "\<And>c. combos k = Some c \<Longrightarrow> scoreOk (cbHealthScore c)" "scoreOk best"
  shows "projectionStep t combos best k = max best (keyScore t combos k)"
  using assms by (auto simp: projectionStep_def keyScore_def scoreOk_def split: option.split)

lemma projectionScore_Max:
  assumes "\<And>k c. combos k = Some c \<Longrightarrow> scoreOk (cbHealthScore c)"
  shows "projectionScore t combos keys = Max (insert 0 (keyScore t combos ` set keys))"
proof -
  have "foldl (projectionStep t combos) b keys = Max (insert b (keyScore t combos ` set keys))" if "scoreOk b" for b
    using that
  proof (induction keys arbitrary: b)
    case (Cons k keys)
    have "projectionStep t combos b k = max b (keyScore t combos k)"
      using assms Cons.prems by (rule projectionStep_max)
    moreover have "scoreOk (projectionStep t combos b k)" using assms Cons.prems by (auto intro: projectionStep_ok)
    ultimately show ?case
      by (simp add: Cons.IH) (cases "keys = []", simp, simp add: max.assoc)
  qed simp
  then show ?thesis by (simp add: projectionScore_def scoreOk_def)
qed

lemma in_enabledKeys:
  "set (enabledKeys db ids channel) =
     {k \<in> set ids. \<exists>c. hdCredentials db k = Some c \<and> csChannel c = channel \<and> csEnabled c}"
  by (auto simp: enabledKeys_def split: option.splits)

lemma writeCombo_keeps:
  "writeCombo env db channel mid key delta success quota = Inr db1 \<Longrightarrow>
     hdModels db1 = hdModels db \<and> hdCredentials db1 = hdCredentials db \<and> hdChannels db1 = hdChannels db \<and>
     hdFailures db1 = hdFailures db \<and> hdCooldowns db1 = hdCooldowns db"
  by (auto simp: writeCombo_def Let_def split: if_splits)

lemma updateProjection_keeps:
  "updateModelHealthProjection env ids db mid model = Inr db1 \<Longrightarrow>
     hdCombos db1 = hdCombos db \<and> hdCredentials db1 = hdCredentials db \<and> hdChannels db1 = hdChannels db \<and>
     hdFailures db1 = hdFailures db \<and> hdCooldowns db1 = hdCooldowns db"
  by (auto simp: updateModelHealthProjection_def Let_def split: if_splits)

text \<open>The two statements of a successful change of an enabled model.\<close>

lemma changeComboHealth_cases:
  assumes "changeComboHealth env ids db channelID mid key delta success quota = (None, db')" "key \<noteq> 0"
    and "hdModels db mid = Some m" "msEnabled m"
  obtains db1 db2 where "writeCombo env db (msChannel m) mid key delta success quota = Inr db1"
    "updateModelHealthProjection env ids db1 mid m = Inr db2" "db' = db2\<lparr>hdRoutesVersion := hdRoutesVersion db2 + 1\<rparr>"
  using assms by (auto simp: changeComboHealth_def comboTransaction_def scanRow_def split: sum.splits if_splits option.splits)

definition freshCombo :: "id \<Rightarrow> comboState option \<Rightarrow> comboState" where
  "freshCombo channel c = (case c of None \<Rightarrow> \<lparr>cbChannel = channel, cbHealthScore = 100, cbCooldownUntil = None, cbLastError = None\<rparr> | Some c \<Rightarrow> c)"

lemma writeCombo_combos:
  assumes "writeCombo env db channel mid key delta success quota = Inr db1"
  shows "hdCombos db1 =
     (let combos = (hdCombos db)((mid, key) \<mapsto> changedCombo (heNow env) (freshCombo channel (hdCombos db (mid, key))) delta success quota)
      in if \<not> success \<and> quota then coolSiblings (heNow env) channel key combos else combos)"
  using assms by (auto simp: writeCombo_def Let_def freshCombo_def split: if_splits)

lemma writeCombo_score:
  assumes "writeCombo env db channel mid key delta success quota = Inr db1"
  shows "map_option cbHealthScore (hdCombos db1 (mid, key)) =
     Some (max 0 (min 100 (cbHealthScore (freshCombo channel (hdCombos db (mid, key))) + delta)))"
  by (auto simp: writeCombo_combos [OF assms] Let_def coolSiblings_def changedCombo_def)

lemma change_updates_model:
  assumes run: "changeComboHealth env ids db channelID mid key delta success quota = (None, db')"
    and m: "key \<noteq> 0" "hdModels db mid = Some m" "msEnabled m" and ok: "healthOk db"
  shows "hdModels db' = (hdModels db)(mid \<mapsto> m\<lparr>msMark := None, msHealthScore :=
           Max (insert 0 (keyScore (heNow env) (\<lambda>k. hdCombos db' (mid, k)) `
             {k \<in> set ids. \<exists>c. hdCredentials db k = Some c \<and> csChannel c = msChannel m \<and> csEnabled c}))\<rparr>)"
    and "map_option cbHealthScore (hdCombos db' (mid, key)) =
           Some (max 0 (min 100 (cbHealthScore (freshCombo (msChannel m) (hdCombos db (mid, key))) + delta)))"
proof -
  obtain db1 db2 where w: "writeCombo env db (msChannel m) mid key delta success quota = Inr db1"
    and u: "updateModelHealthProjection env ids db1 mid m = Inr db2" and e: "db' = db2\<lparr>hdRoutesVersion := hdRoutesVersion db2 + 1\<rparr>"
    using changeComboHealth_cases [OF run m] by blast
  note kw = writeCombo_keeps [OF w] and ku = updateProjection_keeps [OF u]
  have "projectionScore (heNow env) (\<lambda>k. hdCombos db1 (mid, k)) keys = Max (insert 0 (keyScore (heNow env) (\<lambda>k. hdCombos db1 (mid, k)) ` set keys))" for keys
    using writeCombo_ok [OF w ok] by (intro projectionScore_Max) (auto simp: healthOk_def)
  then show "hdModels db' = (hdModels db)(mid \<mapsto> m\<lparr>msMark := None, msHealthScore :=
           Max (insert 0 (keyScore (heNow env) (\<lambda>k. hdCombos db' (mid, k)) `
             {k \<in> set ids. \<exists>c. hdCredentials db k = Some c \<and> csChannel c = msChannel m \<and> csEnabled c}))\<rparr>)"
    using u kw ku m(2) by (auto simp: updateModelHealthProjection_def e in_enabledKeys split: if_splits)
  show "map_option cbHealthScore (hdCombos db' (mid, key)) =
           Some (max 0 (min 100 (cbHealthScore (freshCombo (msChannel m) (hdCombos db (mid, key))) + delta)))"
    using writeCombo_score [OF w] ku by (simp add: e)
qed

text \<open>
  after a call on a pair of model and key was scored, the pair has its old score, 100 when it had none,
  changed by the given amount and cut off at 0 and 100.  The score of the model, with which routing weighs it, is
  that of the best enabled key of its channel: a key never used counts 100, one whose pair is cooling counts 0.
  No other model changes.
\<close>

theorem model_score_is_best_key:
  assumes "changeComboHealth env ids db channelID mid key delta success quota = (None, db')"
    and "key \<noteq> 0" "hdModels db mid = Some m" "msEnabled m" "healthOk db"
  shows "map_option cbHealthScore (hdCombos db' (mid, key)) =
           Some (max 0 (min 100 ((case hdCombos db (mid, key) of None \<Rightarrow> 100 | Some c \<Rightarrow> cbHealthScore c) + delta))) \<and>
         hdModels db' = (hdModels db)(mid \<mapsto> m\<lparr>msMark := None, msHealthScore :=
           Max (insert 0 (keyScore (heNow env) (\<lambda>k. hdCombos db' (mid, k)) `
             {k \<in> set ids. \<exists>c. hdCredentials db k = Some c \<and> csChannel c = msChannel m \<and> csEnabled c}))\<rparr>)"
  using change_updates_model [OF assms] by (simp add: freshCombo_def split: option.splits)

lemma example_scored:
  "changeComboHealth exampleHealthEnv [4, 5] exampleHealthDb 1 2 4 (- 20) False False =
     (None, snd (changeComboHealth exampleHealthEnv [4, 5] exampleHealthDb 1 2 4 (- 20) False False))"
  by (simp add: changeComboHealth_def comboTransaction_def scanRow_def writeCombo_def Let_def updateModelHealthProjection_def
      exampleHealthEnv_def exampleHealthDb_def exampleCombo_def)

theorem model_score_is_best_key_witness:
  "map_option cbHealthScore (hdCombos (snd (changeComboHealth exampleHealthEnv [4, 5] exampleHealthDb 1 2 4 (- 20) False False)) (2, 4)) = Some 0"
proof -
  have "healthOk exampleHealthDb" by (rule exampleHealthDb_ok)
  then show ?thesis
    using model_score_is_best_key [OF example_scored, of "\<lparr>msChannel = 1, msEnabled = True, msHealthScore = 100, msMark = None\<rparr>"]
    by (simp add: exampleHealthDb_def exampleCombo_def)
qed

subsection \<open>What is switched off, and why\<close>

text \<open>The failures of the last ten minutes in a row, this one included, have reached the threshold.\<close>

definition thresholdReached :: "healthEnv \<Rightarrow> healthDb \<Rightarrow> ResilienceSettings \<Rightarrow> failKey \<Rightarrow> bool" where
  "thresholdReached env db settings key \<longleftrightarrow>
     (if AutoDisableFailureThreshold settings < 1 then AutoDisableFailureThreshold DefaultResilienceSettings
      else AutoDisableFailureThreshold settings) \<le> int (fst (liveEntry (heNow env) (hdFailures db key)) + 1)"

definition keySwitchedOff :: "healthEnv \<Rightarrow> healthDb \<Rightarrow> AutoDisableInput \<Rightarrow> healthDb \<Rightarrow> bool" where
  "keySwitchedOff env db input db' \<longleftrightarrow>
     (\<exists>c. hdCredentials db (aiCredentialID input) = Some c \<and> csEnabled c \<and> csChannel c = aiChannelID input \<and>
        hdCredentials db' = (hdCredentials db)(aiCredentialID input \<mapsto> c\<lparr>csEnabled := False, csMark := Some (markOf env input)\<rparr>)) \<and>
     hdChannels db' = hdChannels db"

definition channelSwitchedOff :: "healthEnv \<Rightarrow> healthDb \<Rightarrow> AutoDisableInput \<Rightarrow> healthDb \<Rightarrow> bool" where
  "channelSwitchedOff env db input db' \<longleftrightarrow>
     (\<exists>c. hdChannels db (aiChannelID input) = Some c \<and> chEnabled c \<and>
        hdChannels db' = (hdChannels db)(aiChannelID input \<mapsto> c\<lparr>chEnabled := False, chMark := Some (markOf env input)\<rparr>)) \<and>
     hdCredentials db' = hdCredentials db"

lemma recordAutoDisableFailure_reached:
  "recordAutoDisableFailure env db i key threshold = (Inr True, db') \<Longrightarrow> threshold = AutoDisableFailureThreshold settings \<Longrightarrow>
     thresholdReached env db settings (if key = 0 then ChannelKey i else CredentialKey key)"
  by (auto simp: recordAutoDisableFailure_def recordConsecutiveFailure_def thresholdReached_def reachesAutoDisableFailureThreshold_def
      Let_def split: if_splits prod.splits)

lemma disableCredentialNow_effect:
  assumes "disableCredentialNow env db channel settings c input = (r, db')"
    and "channelKey db (aiCredentialID input) (aiChannelID input) = Some c'"
  shows "sameSwitches db db' \<or> keySwitchedOff env db input db'"
  using assms
  by (auto simp: disableCredentialNow_def channelKey_def keySwitchedOff_def sameSwitches_def Let_def split: if_splits option.splits)

lemma sameSwitches_refl [simp]: "sameSwitches db db" by (simp add: sameSwitches_def)

lemma channelKey_cong: "sameSwitches db db1 \<Longrightarrow> channelKey db1 key i = channelKey db key i"
  by (simp add: channelKey_def sameSwitches_def)

lemma switched_cong:
  "sameSwitches db db1 \<Longrightarrow> sameSwitches db1 db' \<Longrightarrow> sameSwitches db db'"
  "sameSwitches db db1 \<Longrightarrow> keySwitchedOff env db1 input db' \<Longrightarrow> keySwitchedOff env db input db'"
  "sameSwitches db db1 \<Longrightarrow> channelSwitchedOff env db1 input db' \<Longrightarrow> channelSwitchedOff env db input db'"
  by (simp_all add: sameSwitches_def keySwitchedOff_def channelSwitchedOff_def)

lemma disableCredential_effect:
  assumes run: "disableCredential env db channel settings input = (r, db')" and key: "aiCredentialID input > 0"
  shows "sameSwitches db db' \<or> keySwitchedOff env db input db' \<and> thresholdReached env db settings (CredentialKey (aiCredentialID input))"
proof -
  obtain res db1 where rec: "recordAutoDisableFailure env db (aiChannelID input) (aiCredentialID input) (AutoDisableFailureThreshold settings) = (res, db1)"
    by fastforce
  note same = recordAutoDisableFailure_keeps [OF rec, THEN conjunct2]
  show ?thesis
  proof (cases "sameSwitches db db'")
    case False
    with run rec same obtain c where c: "channelKey db (aiCredentialID input) (aiChannelID input) = Some c"
      and t: "res = Inr True" and now: "disableCredentialNow env db1 channel settings c input = (r, db')"
      by (auto simp: disableCredential_def scanRow_def split: sum.splits option.splits if_splits bool.splits)
    from disableCredentialNow_effect [OF now] c same False
    have "keySwitchedOff env db1 input db'" by (auto simp: channelKey_cong dest: switched_cong(1))
    with same have "keySwitchedOff env db input db'" by (rule switched_cong(2))
    with recordAutoDisableFailure_reached [OF rec [unfolded t] refl] key show ?thesis by simp
  qed simp
qed

lemma disableChannel_effect:
  assumes run: "disableChannel env db channel settings input = (r, db')"
  shows "sameSwitches db db' \<or> channelSwitchedOff env db input db' \<and> thresholdReached env db settings (ChannelKey (aiChannelID input))"
proof -
  obtain res db1 where rec: "recordAutoDisableFailure env db (aiChannelID input) 0 (AutoDisableFailureThreshold settings) = (res, db1)"
    by fastforce
  note same = recordAutoDisableFailure_keeps [OF rec, THEN conjunct2]
  show ?thesis
  proof (cases "sameSwitches db db'")
    case False
    with run rec same have t: "res = Inr True" and "channelSwitchedOff env db1 input db'"
      by (auto simp: disableChannel_def Let_def channelSwitchedOff_def sameSwitches_def split: sum.splits option.splits if_splits bool.splits)
    with same have "channelSwitchedOff env db input db'" by (simp add: switched_cong(3))
    with recordAutoDisableFailure_reached [OF rec [unfolded t] refl] show ?thesis by simp
  qed simp
qed

lemma ApplyModelHealthScore_keeps: "ApplyModelHealthScore env ids db input = (e, db') \<Longrightarrow> sameSwitches db db'"
  by (auto simp: ApplyModelHealthScore_def changeComboHealth_def comboTransaction_def sameSwitches_def Let_def
      split: if_splits sum.splits option.splits dest!: writeCombo_keeps updateProjection_keeps)


definition exampleOutcome :: "int \<Rightarrow> AutoDisableInput" where
  "exampleOutcome st = \<lparr>aiChannelID = 1, aiCredentialID = 4, aiModelID = 2, aiSource = AutoDisableSourceRelayRequest, aiStatus = st,
     aiLatency = 0, aiMessage = [], aiTimedOut = False, aiCommitted = False\<rparr>"

definition exampleSettings :: ResilienceSettings where
  "exampleSettings = DefaultResilienceSettings\<lparr>AutoDisableEnabled := True, AutoDisableNotificationEnabled := False\<rparr>"


subsection \<open>A key whose quota of the day is used up\<close>

lemma nextUTCMidnight_bounds: "t < nextUTCMidnight t" "nextUTCMidnight t \<le> t + hours 24" "nextUTCMidnight t mod hours 24 = 0"
proof -
  have p: "hours 24 > 0" by (simp add: duration_defs)
  have "t mod hours 24 < hours 24" "0 \<le> t mod hours 24" using p by simp_all
  moreover have "t = t div hours 24 * hours 24 + t mod hours 24" by simp
  ultimately show "t < nextUTCMidnight t" "nextUTCMidnight t \<le> t + hours 24"
    unfolding nextUTCMidnight_def distrib_right mult_1 by linarith+
  show "nextUTCMidnight t mod hours 24 = 0" by (simp add: nextUTCMidnight_def)
qed

lemma quota_cools:
  assumes run: "ApplyModelHealthScore env ids db input = (None, db')"
    and input: "miStatus input = 429" "\<not> miCommitted input" "isDailyQuotaExhaustion (miMessage input)"
    and ids: "miCredentialID input \<noteq> 0" "miModelID input \<noteq> 0"
    and m: "hdModels db (miModelID input) = Some m" "msEnabled m"
    and c: "hdCombos db' (mid, miCredentialID input) = Some c" "cbChannel c = msChannel m"
  shows "cbCooldownUntil c = Some (nextUTCMidnight (heNow env))"
proof -
  from run input ids have "changeComboHealth env ids db (miChannelID input) (miModelID input) (miCredentialID input)
      (- ModelHealthRateLimitPenalty) False True = (None, db')"
    by (simp add: ApplyModelHealthScore_def)
  then obtain db1 db2 where w: "writeCombo env db (msChannel m) (miModelID input) (miCredentialID input)
        (- ModelHealthRateLimitPenalty) False True = Inr db1"
    and u: "updateModelHealthProjection env ids db1 (miModelID input) m = Inr db2"
    and e: "db' = db2\<lparr>hdRoutesVersion := hdRoutesVersion db2 + 1\<rparr>"
    by (rule changeComboHealth_cases [OF _ ids(1) m]) blast
  from updateProjection_keeps [OF u] c e have "hdCombos db1 (mid, miCredentialID input) = Some c" by simp
  then show ?thesis using c(2)
    by (auto simp: writeCombo_combos [OF w] Let_def coolSiblings_def split: if_splits)
      (drule arg_cong [where f = cbCooldownUntil], simp)
qed

text \<open>What the selection of keys reads of the pairs of a model: the rows of the table.\<close>

definition comboRowsOf :: "healthDb \<Rightarrow> id list \<Rightarrow> id \<Rightarrow> id \<Rightarrow> comboRow list" where
  "comboRowsOf db keys channel mid =
     concat (map (\<lambda>k. case hdCombos db (mid, k) of
        None \<Rightarrow> []
      | Some c \<Rightarrow> if cbChannel c = channel
          then [\<lparr>cmcCredentialId = k, cmcHealthScore = cbHealthScore c, cmcCooldownUntil = cbCooldownUntil c\<rparr>] else []) keys)"

lemma combo_fold:
  assumes "\<And>row. row \<in> set rows \<Longrightarrow> cmcCredentialId row = k \<Longrightarrow> P (f row)"
    and "(\<exists>v. m k = Some v \<and> P v) \<or> (\<exists>row \<in> set rows. cmcCredentialId row = k)"
  shows "\<exists>v. foldl (\<lambda>m row. m(cmcCredentialId row \<mapsto> f row)) m rows k = Some v \<and> P v"
  using assms
proof (induction rows arbitrary: m)
  case (Cons row rows)
  show ?case
    unfolding foldl_Cons by (rule Cons.IH) (use Cons.prems in \<open>auto\<close>)
qed simp

lemma resting_pair_cools:
  assumes rows: "comboRows cenv channel mid = Some (comboRowsOf db keys channel mid)" and "mid \<noteq> 0" "key \<in> set keys"
    and c: "hdCombos db (mid, key) = Some c" "cbChannel c = channel" "cbCooldownUntil c = Some u" and "credNow cenv < u"
    and "crId row = key"
  shows "comboCooling (comboHealthByCredential cenv channel mid) row"
proof -
  let ?f = "\<lambda>row. \<lparr>score = cmcHealthScore row, cooling = (case cmcCooldownUntil row of None \<Rightarrow> False | Some t \<Rightarrow> credNow cenv < t)\<rparr>"
  have in_rows: "\<exists>r \<in> set (comboRowsOf db keys channel mid). cmcCredentialId r = key"
    using assms(3) c by (auto simp: comboRowsOf_def intro!: bexI [of _ key])
  have "\<exists>v. foldl (\<lambda>m row. m(cmcCredentialId row \<mapsto> ?f row)) Map.empty (comboRowsOf db keys channel mid) key = Some v \<and> cooling v"
  proof (rule combo_fold)
    show "cooling (?f r)" if "r \<in> set (comboRowsOf db keys channel mid)" "cmcCredentialId r = key" for r
      using that c \<open>credNow cenv < u\<close> by (auto simp: comboRowsOf_def split: option.splits if_splits)
  qed (use in_rows in blast)
  then show ?thesis using rows \<open>mid \<noteq> 0\<close> \<open>crId row = key\<close>
    by (auto simp: comboCooling_def comboHealthByCredential_def)
qed


definition exampleQuotaFailure :: ModelDisableInput where
  "exampleQuotaFailure = exampleFailure 429 ''Rate limit exceeded: free-models-per-day''"

definition exampleQuotaDb :: healthDb where
  "exampleQuotaDb = exampleHealthDb\<lparr>hdRoutesVersion := 1,
     hdCombos := [(2, 4) \<mapsto> \<lparr>cbChannel = 1, cbHealthScore = 10, cbCooldownUntil = Some (hours 48), cbLastError = Some lastErrorText\<rparr>],
     hdModels := (hdModels exampleHealthDb)(2 \<mapsto> \<lparr>msChannel = 1, msEnabled = True, msHealthScore = 100, msMark = None\<rparr>)\<rparr>"

lemma example_is_quota: "isDailyQuotaExhaustion ''Rate limit exceeded: free-models-per-day''"
  unfolding isDailyQuotaExhaustion_def by code_simp

lemma example_midnight: "nextUTCMidnight (hours 25) = hours 48"
  by (simp add: nextUTCMidnight_def duration_defs)

lemma example_quota_applied: "ApplyModelHealthScore exampleHealthEnv [4, 5] exampleHealthDb exampleQuotaFailure = (None, exampleQuotaDb)"
proof -
  have "coolSiblings (hours 25) 1 4 [(2, 4) \<mapsto> c] = [(2, 4) \<mapsto> c\<lparr>cbCooldownUntil := Some (hours 48)\<rparr>]" if "cbChannel c = 1" for c
    using that by (auto simp: coolSiblings_def fun_eq_iff example_midnight)
  then show ?thesis
    by (simp add: ApplyModelHealthScore_def exampleQuotaFailure_def exampleFailure_def example_is_quota changeComboHealth_def
        comboTransaction_def scanRow_def writeCombo_def changedCombo_def Let_def updateModelHealthProjection_def projectionScore_def
        projectionStep_def enabledKeys_def example_midnight ModelHealthRateLimitPenalty_def
        exampleHealthEnv_def exampleHealthDb_def exampleCombo_def exampleQuotaDb_def comboIsCooling_def duration_defs)
qed

definition exampleQuotaCredEnv :: credEnv where
  "exampleQuotaCredEnv = exampleCredEnv\<lparr>keyCooling := \<lambda>_. False, credNow := hours 26,
     comboRows := \<lambda>ch m. Some (comboRowsOf exampleQuotaDb [4, 5] ch m)\<rparr>"

lemma example_quota_rows:
  "availableCredentials exampleQuotaCredEnv 1 (Some {}) = Inr exampleRows"
  "comboHealthByCredential exampleQuotaCredEnv 1 2 = [4 \<mapsto> \<lparr>score = 10, cooling = True\<rparr>]"
  by (simp_all add: availableCredentials_def comboHealthByCredential_def exampleQuotaCredEnv_def exampleCredEnv_def comboRowsOf_def
      exampleQuotaDb_def isExcluded_def duration_defs)

lemma example_quota_selects:
  "SelectCredential exampleQuotaCredEnv (\<lambda>_. 0) id [] emptyCredState 9 1 2 (Some {}) =
     (Inr \<lparr>rcID = 5, rcCipher = ''b''\<rparr>, emptyCredState\<lparr>bindingCache := [(9, 1) \<mapsto> 5]\<rparr>)"
  by (simp add: SelectCredential_def selectCredentialForConversation_def example_quota_rows [unfolded One_nat_def]
      exampleRows_def isExcluded_def comboCooling_def selectBound_def weightedSelect_def weightedIndex_def
      replaceCredentialBinding_def emptyCredState_def Let_def selectWeight_def ModelHealthMaxScore_def)
    (simp add: exampleQuotaCredEnv_def exampleCredEnv_def writeCredentialBindingCache_def)


text \<open>
  The rest of a key whose quota is used up can be cut short: a later ordinary failure of a call that was already
  running, if it takes the score of the pair to 0, sets the cool-down to five minutes from now.
\<close>

lemma quota_rest_shortened:
  assumes "ApplyModelHealthScore exampleHealthEnv [4, 5] exampleQuotaDb (exampleFailure 502 ''bad gateway'') = (None, db')"
  shows "map_option cbCooldownUntil (hdCombos db' (2, 4)) = Some (Some (hours 25 + minutes 5))"
    "hours 25 + minutes 5 < nextUTCMidnight (hours 25)"
  using assms
  by (auto simp: ApplyModelHealthScore_def exampleFailure_def changeComboHealth_def isDailyQuotaExhaustion_def modelHealthFailurePenalty_def
        comboTransaction_def scanRow_def writeCombo_def changedCombo_def Let_def updateModelHealthProjection_def
        ModelHealthFailurePenalty_def ComboCooldownMinutes_def exampleHealthEnv_def exampleHealthDb_def exampleQuotaDb_def
        example_midnight)
    (simp add: duration_defs)

text \<open>
  A model of the channel for which the key has no row yet gets none, so that the key stays selectable for it.
\<close>

lemma quota_rest_misses_unused_pairs:
  "ApplyModelHealthScore exampleHealthEnv [4, 5] exampleHealthDb exampleQuotaFailure = (None, exampleQuotaDb) \<and>
   hdCombos exampleQuotaDb (3, 4) = None \<and> comboHealthByCredential exampleQuotaCredEnv 1 3 4 = None"
  by (simp add: example_quota_applied)
    (simp add: exampleQuotaDb_def comboHealthByCredential_def exampleQuotaCredEnv_def exampleCredEnv_def comboRowsOf_def)

text \<open>
  On a worker the failures in a row are counted without end: failures of a key that are days apart add up to the
  threshold as if they had come within ten minutes.
\<close>

lemma worker_failures_add_up:
  assumes "\<not> heCountersExpire env" "\<not> heFails env ''incr failures''" "\<not> heFails env ''expire failures''" "\<not> heFails env ''set cooldown''"
    and "hdFailures db key = Some (n, None)" "threshold \<le> int n + 1"
  shows "fst (recordConsecutiveFailure env db key threshold) = Inr True"
  using assms by (simp add: recordConsecutiveFailure_def liveEntry_def reachesAutoDisableFailureThreshold_def Let_def)

subsection \<open>Starting a recovery\<close>

lemma BeginRecoveryAttempt_locks:
  assumes "BeginRecoveryAttempt env db target i since = (Inr True, db')"
  shows "hdLocks db' (target, i) = Some (heNow env + recoveryLockTTL)"
    "\<exists>at0 st. since = Some at0 \<and> fst (loadRecoveryState env db target i) = Inr st \<and>
       (case rsLastAttemptAt st of None \<Rightarrow> at0 | Some t \<Rightarrow> t) + RecoveryRetryInterval (rsAttempts st) \<le> heNow env"
  using assms
  by (auto simp: BeginRecoveryAttempt_def Let_def split: option.splits if_splits prod.splits sum.splits)

lemma Begin_needs_free_lock:
  assumes "BeginRecoveryAttempt env db target i since = (Inr True, db')" "hdLocks db (target, i) = Some expiry"
  shows "expiry \<le> heNow env"
proof -
  obtain st db1 where l: "loadRecoveryState env db target i = (st, db1)" by fastforce
  then have "hdLocks db1 = hdLocks db"
    by (auto simp: loadRecoveryState_def Let_def split: if_splits option.splits storedState.splits)
  with assms l show ?thesis
    by (auto simp: BeginRecoveryAttempt_def Let_def split: option.splits if_splits sum.splits)
qed

text \<open>Several patrols try to start an attempt on the same target; the times at which one was let through.\<close>

fun attemptsLetThrough :: "RecoveryTarget \<Rightarrow> id \<Rightarrow> gotime option \<Rightarrow> healthEnv list \<Rightarrow> healthDb \<Rightarrow> gotime list" where
  "attemptsLetThrough target i since [] db = []"
| "attemptsLetThrough target i since (env # envs) db =
     (let (r, db') = BeginRecoveryAttempt env db target i since
      in (if r = Inr True then [heNow env] else []) @ attemptsLetThrough target i since envs db')"

lemma Begin_refused_keeps_lock:
  "BeginRecoveryAttempt env db target i since = (r, db') \<Longrightarrow> r \<noteq> Inr True \<Longrightarrow> hdLocks db' = hdLocks db"
  by (auto simp: BeginRecoveryAttempt_def loadRecoveryState_def Let_def
      split: option.splits if_splits prod.splits sum.splits storedState.splits)

lemma let_through_after_lock:
  "hdLocks db (target, i) = Some expiry \<Longrightarrow> t \<in> set (attemptsLetThrough target i since envs db) \<Longrightarrow> expiry \<le> t"
proof (induction envs arbitrary: db expiry)
  case (Cons env envs)
  obtain r db' where b: "BeginRecoveryAttempt env db target i since = (r, db')" by fastforce
  show ?case
  proof (cases "r = Inr True")
    case True
    have "expiry \<le> heNow env" using Begin_needs_free_lock b True Cons.prems(1) by blast
    moreover have "heNow env + recoveryLockTTL \<le> t" if "t \<in> set (attemptsLetThrough target i since envs db')"
      using Cons.IH [OF BeginRecoveryAttempt_locks(1) that] b True by blast
    moreover have "0 \<le> recoveryLockTTL" by (simp add: recoveryLockTTL_def duration_defs)
    ultimately show ?thesis using Cons.prems(2) b True by auto
  next
    case False
    then show ?thesis using Cons.IH [of db' expiry] Cons.prems b Begin_refused_keeps_lock [OF b False] by simp
  qed
qed simp

text \<open>
  however many gateways try, at most one recovery attempt on a target is let through in three minutes as
  long as none has been finished, so a disabled upstream is not flooded with test calls.
\<close>

theorem recovery_attempts_exclusive:
  "sorted_wrt (\<lambda>s t. s + minutes 3 \<le> t) (attemptsLetThrough target i since envs db)"
proof (induction envs arbitrary: db)
  case (Cons env envs)
  obtain r db' where b: "BeginRecoveryAttempt env db target i since = (r, db')" by fastforce
  have "heNow env + minutes 3 \<le> t" if "r = Inr True" "t \<in> set (attemptsLetThrough target i since envs db')" for t
    using let_through_after_lock [OF BeginRecoveryAttempt_locks(1) that(2)] b that(1) by (simp add: recoveryLockTTL_def)
  with Cons.IH [of db'] show ?case by (simp add: b)
qed simp

end
