(* ===== verification/Cache_Store.thy ===== *)
theory Cache_Store
  imports Json
begin

text \<open>
  The cache of a node (\<^verbatim>\<open>internal/logic/cache\<close>): the commands as \<^verbatim>\<open>sqlite.go\<close> implements them for workers in two
  tables of SQLite, the readings of their answers (\<^verbatim>\<open>cache.go\<close>), and the contract on which the code that uses a
  cache relies.  The master uses Redis through the thin wrappers of \<^verbatim>\<open>redis.go\<close>; Redis itself is not part of the
  repository, so what holds for both is stated of any store that keeps the contract.

  A statement of a command that fails is named by \<open>fails\<close>; a transaction that fails leaves the tables as they
  were.  The time of a command is an argument, in nanoseconds since the epoch.
\<close>

subsection \<open>Values and answers\<close>

datatype cacheValue = TextValue string | BytesValue string | IntValue int | NilValue

fun encodeValue :: "cacheValue \<Rightarrow> string" where
  "encodeValue (TextValue s) = s"
| "encodeValue (BytesValue s) = s"
| "encodeValue NilValue = []"
| "encodeValue (IntValue n) = showInt n"

datatype cacheError = ErrMiss | NotAnInteger | StatementFailed string

text \<open>\<^verbatim>\<open>String.Int64\<close>: the reading of an answer as a number.\<close>

definition answerInt64 :: "cacheError + string \<Rightarrow> cacheError + int" where
  "answerInt64 answer =
     (case answer of Inl e \<Rightarrow> Inl e
      | Inr s \<Rightarrow> (case parseInt s of None \<Rightarrow> Inl NotAnInteger | Some n \<Rightarrow> Inr n))"

subsection \<open>The commands on SQLite\<close>

record sqliteCache =
  cacheEntries :: "string \<Rightarrow> (string \<times> int) option"
  cacheCounters :: "string \<Rightarrow> int option"

definition nowUnix :: "gotime \<Rightarrow> int" where
  "nowUnix t = t div nano_per_sec"

definition expiryFor :: "gotime \<Rightarrow> duration \<Rightarrow> int" where
  "expiryFor t ttl = (if ttl \<le> 0 then 0 else nowUnix t + ttl div seconds 1)"

text \<open>The condition \<^verbatim>\<open>expires_at = 0 OR expires_at > now\<close> of the queries.\<close>

definition liveRow :: "gotime \<Rightarrow> string \<times> int \<Rightarrow> bool" where
  "liveRow t row \<longleftrightarrow> snd row = 0 \<or> nowUnix t < snd row"

definition expiredRow :: "gotime \<Rightarrow> string \<times> int \<Rightarrow> bool" where
  "expiredRow t row \<longleftrightarrow> 0 < snd row \<and> snd row \<le> nowUnix t"

definition liveValue :: "sqliteCache \<Rightarrow> gotime \<Rightarrow> string \<Rightarrow> string option" where
  "liveValue c t key = (case cacheEntries c key of None \<Rightarrow> None | Some row \<Rightarrow> if liveRow t row then Some (fst row) else None)"

definition sqliteGet :: "(string \<Rightarrow> bool) \<Rightarrow> sqliteCache \<Rightarrow> gotime \<Rightarrow> string \<Rightarrow> cacheError + string" where
  "sqliteGet fails c t key =
     (if fails ''select'' then Inl (StatementFailed ''select'')
      else case liveValue c t key of None \<Rightarrow> Inl ErrMiss | Some v \<Rightarrow> Inr v)"

definition sqliteGetDel :: "(string \<Rightarrow> bool) \<Rightarrow> sqliteCache \<Rightarrow> gotime \<Rightarrow> string \<Rightarrow> (cacheError + string) \<times> sqliteCache" where
  "sqliteGetDel fails c t key =
     (if fails ''select'' then (Inl (StatementFailed ''select''), c)
      else case liveValue c t key of
        None \<Rightarrow> (Inl ErrMiss, c)
      | Some v \<Rightarrow> if fails ''delete'' then (Inl (StatementFailed ''delete''), c)
          else (Inr v, c\<lparr>cacheEntries := (cacheEntries c)(key := None)\<rparr>))"

definition sqliteSet :: "(string \<Rightarrow> bool) \<Rightarrow> sqliteCache \<Rightarrow> gotime \<Rightarrow> string \<Rightarrow> cacheValue \<Rightarrow> duration \<Rightarrow> cacheError option \<times> sqliteCache" where
  "sqliteSet fails c t key v ttl =
     (if fails ''upsert'' then (Some (StatementFailed ''upsert''), c)
      else (None, c\<lparr>cacheEntries := (cacheEntries c)(key \<mapsto> (encodeValue v, expiryFor t ttl))\<rparr>))"

definition sqliteSetNX :: "(string \<Rightarrow> bool) \<Rightarrow> sqliteCache \<Rightarrow> gotime \<Rightarrow> string \<Rightarrow> cacheValue \<Rightarrow> duration \<Rightarrow> (cacheError + bool) \<times> sqliteCache" where
  "sqliteSetNX fails c t key v ttl =
     (if fails ''delete expired'' then (Inl (StatementFailed ''delete expired''), c)
      else let rows = (case cacheEntries c key of
                 Some row \<Rightarrow> if expiredRow t row then (cacheEntries c)(key := None) else cacheEntries c
               | None \<Rightarrow> cacheEntries c)
        in if fails ''count'' then (Inl (StatementFailed ''count''), c)
           else if rows key \<noteq> None then (Inr False, c\<lparr>cacheEntries := rows\<rparr>)
           else if fails ''insert'' then (Inl (StatementFailed ''insert''), c)
           else (Inr True, c\<lparr>cacheEntries := rows(key \<mapsto> (encodeValue v, expiryFor t ttl))\<rparr>))"

definition removeKeys :: "string list \<Rightarrow> (string \<Rightarrow> 'a option) \<Rightarrow> string \<Rightarrow> 'a option" where
  "removeKeys keys rows = (\<lambda>k. if k \<in> set keys then None else rows k)"

definition storedKeys :: "string list \<Rightarrow> (string \<Rightarrow> 'a option) \<Rightarrow> nat" where
  "storedKeys keys rows = length (filter (\<lambda>k. rows k \<noteq> None) (remdups keys))"

text \<open>The two deletions are not in one transaction.\<close>

definition sqliteDel :: "(string \<Rightarrow> bool) \<Rightarrow> sqliteCache \<Rightarrow> string list \<Rightarrow> (cacheError + nat) \<times> sqliteCache" where
  "sqliteDel fails c keys =
     (if keys = [] then (Inr 0, c)
      else if fails ''delete entries'' then (Inl (StatementFailed ''delete entries''), c)
      else let c1 = c\<lparr>cacheEntries := removeKeys keys (cacheEntries c)\<rparr> in
        if fails ''delete counters'' then (Inl (StatementFailed ''delete counters''), c1)
        else (Inr (storedKeys keys (cacheEntries c) + storedKeys keys (cacheCounters c)),
              c1\<lparr>cacheCounters := removeKeys keys (cacheCounters c)\<rparr>))"

definition sqliteExists :: "(string \<Rightarrow> bool) \<Rightarrow> sqliteCache \<Rightarrow> gotime \<Rightarrow> string \<Rightarrow> cacheError + nat" where
  "sqliteExists fails c t key =
     (if fails ''count'' then Inl (StatementFailed ''count'')
      else Inr (case liveValue c t key of None \<Rightarrow> 0 | Some _ \<Rightarrow> 1))"

definition sqliteIncr :: "(string \<Rightarrow> bool) \<Rightarrow> sqliteCache \<Rightarrow> string \<Rightarrow> (cacheError + int) \<times> sqliteCache" where
  "sqliteIncr fails c key =
     (if fails ''insert counter'' then (Inl (StatementFailed ''insert counter''), c)
      else if fails ''increment'' then (Inl (StatementFailed ''increment''), c)
      else if fails ''read counter'' then (Inl (StatementFailed ''read counter''), c)
      else let n = (case cacheCounters c key of None \<Rightarrow> 0 | Some n \<Rightarrow> n) + 1
        in (Inr n, c\<lparr>cacheCounters := (cacheCounters c)(key \<mapsto> n)\<rparr>))"

definition sqliteExpire :: "(string \<Rightarrow> bool) \<Rightarrow> sqliteCache \<Rightarrow> gotime \<Rightarrow> string \<Rightarrow> duration \<Rightarrow> (cacheError + bool) \<times> sqliteCache" where
  "sqliteExpire fails c t key ttl =
     (if fails ''update'' then (Inl (StatementFailed ''update''), c)
      else case cacheEntries c key of
        None \<Rightarrow> (Inr False, c)
      | Some (v, _) \<Rightarrow> (Inr True, c\<lparr>cacheEntries := (cacheEntries c)(key \<mapsto> (v, expiryFor t ttl))\<rparr>))"

definition sqliteTTL :: "(string \<Rightarrow> bool) \<Rightarrow> sqliteCache \<Rightarrow> gotime \<Rightarrow> string \<Rightarrow> cacheError + duration" where
  "sqliteTTL fails c t key =
     (if fails ''select'' then Inl (StatementFailed ''select'')
      else case cacheEntries c key of
        None \<Rightarrow> Inr (- 2 * seconds 1)
      | Some (_, expiresAt) \<Rightarrow>
          if expiresAt = 0 then Inr (- seconds 1)
          else if expiresAt - nowUnix t \<le> 0 then Inr (- 2 * seconds 1)
          else Inr (seconds (expiresAt - nowUnix t)))"

definition sqlitePurge :: "(string \<Rightarrow> bool) \<Rightarrow> sqliteCache \<Rightarrow> gotime \<Rightarrow> cacheError option \<times> sqliteCache" where
  "sqlitePurge fails c t =
     (if fails ''purge'' then (Some (StatementFailed ''purge''), c)
      else (None, c\<lparr>cacheEntries := (\<lambda>k. case cacheEntries c k of None \<Rightarrow> None | Some row \<Rightarrow> if expiredRow t row then None else Some row)\<rparr>))"

subsection \<open>The contract of a store of one-time keys\<close>

text \<open>
  What the users of one-time keys rely on.  \<open>holds s key t\<close>: the store keeps the key at time \<open>t\<close> if nothing more is
  done.  \<open>other s t s'\<close>: what the other users of the store may do at time \<open>t\<close>.  As the expiry counts whole seconds,
  a key may be lost up to two seconds early.
\<close>

locale once_store =
  fixes setnx :: "'s \<Rightarrow> gotime \<Rightarrow> string \<Rightarrow> cacheValue \<Rightarrow> duration \<Rightarrow> (cacheError + bool) \<times> 's"
    and holds :: "'s \<Rightarrow> string \<Rightarrow> gotime \<Rightarrow> bool"
    and other :: "'s \<Rightarrow> gotime \<Rightarrow> 's \<Rightarrow> bool"
    and owned :: "string \<Rightarrow> bool"
  assumes setnx_new: "setnx s t key v ttl = (Inr True, s') \<Longrightarrow> 0 \<le> t \<Longrightarrow> t \<le> u \<Longrightarrow> u + seconds 2 \<le> t + ttl \<Longrightarrow> holds s' key u"
    and setnx_old: "holds s key t \<Longrightarrow> fst (setnx s t key v ttl) \<noteq> Inr True"
    and setnx_keeps: "setnx s t key' v ttl = (r, s') \<Longrightarrow> t \<le> u \<Longrightarrow> holds s key u \<Longrightarrow> holds s' key u"
    and other_keeps: "other s t s' \<Longrightarrow> owned key \<Longrightarrow> t \<le> u \<Longrightarrow> holds s key u \<Longrightarrow> holds s' key u"

text \<open>What the rest of the program does with the same tables, if it keeps away from the owned keys.\<close>

inductive sqliteOther :: "(string \<Rightarrow> bool) \<Rightarrow> sqliteCache \<Rightarrow> gotime \<Rightarrow> sqliteCache \<Rightarrow> bool" for owned where
  get_del: "\<not> owned key \<Longrightarrow> sqliteGetDel fails c t key = (r, c') \<Longrightarrow> sqliteOther owned c t c'"
| set_value: "\<not> owned key \<Longrightarrow> sqliteSet fails c t key v ttl = (e, c') \<Longrightarrow> sqliteOther owned c t c'"
| set_nx: "sqliteSetNX fails c t key v ttl = (r, c') \<Longrightarrow> sqliteOther owned c t c'"
| del: "\<forall>key \<in> set keys. \<not> owned key \<Longrightarrow> sqliteDel fails c keys = (r, c') \<Longrightarrow> sqliteOther owned c t c'"
| incr: "sqliteIncr fails c key = (r, c') \<Longrightarrow> sqliteOther owned c t c'"
| expire: "\<not> owned key \<Longrightarrow> sqliteExpire fails c t key ttl = (r, c') \<Longrightarrow> sqliteOther owned c t c'"
| purge: "sqlitePurge fails c t = (e, c') \<Longrightarrow> sqliteOther owned c t c'"

definition sqliteHolds :: "sqliteCache \<Rightarrow> string \<Rightarrow> gotime \<Rightarrow> bool" where
  "sqliteHolds c key t \<longleftrightarrow> (\<exists>row. cacheEntries c key = Some row \<and> liveRow t row)"

lemma nowUnix_mono: "t \<le> u \<Longrightarrow> nowUnix t \<le> nowUnix u"
  by (simp add: nowUnix_def zdiv_mono1)

lemma live_not_expired: "liveRow u row \<Longrightarrow> t \<le> u \<Longrightarrow> \<not> expiredRow t row"
  using nowUnix_mono [of t u] by (auto simp: liveRow_def expiredRow_def)

lemma live_and_expired: "expiredRow t row \<Longrightarrow> liveRow u row \<Longrightarrow> t \<le> u \<Longrightarrow> False"
  using live_not_expired by blast

lemma expiryFor_live:
  assumes "0 \<le> t" "t \<le> u" "u + seconds 2 \<le> t + ttl"
  shows "liveRow u (v, expiryFor t ttl)"
proof (cases "ttl \<le> 0")
  case False
  have s: "seconds 2 = 2 * nano_per_sec" "seconds 1 = nano_per_sec" by (simp_all add: seconds_def)
  have "u div nano_per_sec \<le> (t + ttl - 2 * nano_per_sec) div nano_per_sec"
    using assms(3) s by (intro zdiv_mono1) auto
  also have "\<dots> < t div nano_per_sec + ttl div nano_per_sec" by linarith
  finally show ?thesis using False s by (simp add: liveRow_def expiryFor_def nowUnix_def)
qed (simp add: liveRow_def expiryFor_def)

lemma sqliteSetNX_result:
  "fst (sqliteSetNX fails c t key v ttl) = Inr True \<Longrightarrow>
     cacheEntries (snd (sqliteSetNX fails c t key v ttl)) key = Some (encodeValue v, expiryFor t ttl) \<and> \<not> sqliteHolds c key t"
  using live_not_expired [of t _ t]
  by (auto simp: sqliteSetNX_def Let_def sqliteHolds_def split: if_splits option.splits)

lemma sqliteSetNX_keeps:
  "sqliteSetNX fails c t key' v ttl = (r, c') \<Longrightarrow> t \<le> u \<Longrightarrow> sqliteHolds c key u \<Longrightarrow> sqliteHolds c' key u"
  by (auto simp: sqliteSetNX_def Let_def sqliteHolds_def split: if_splits option.splits dest: live_and_expired)

lemma sqliteOther_keeps:
  "sqliteOther owned c t c' \<Longrightarrow> owned key \<Longrightarrow> t \<le> u \<Longrightarrow> sqliteHolds c key u \<Longrightarrow> sqliteHolds c' key u"
proof (induction rule: sqliteOther.induct)
  case (set_nx fails c t key' v ttl r c')
  then show ?case using sqliteSetNX_keeps by blast
next
  case (purge fails c t e c')
  then show ?case by (auto simp: sqlitePurge_def sqliteHolds_def split: if_splits dest: live_and_expired)
qed (auto simp: sqliteGetDel_def sqliteSet_def sqliteDel_def sqliteIncr_def sqliteExpire_def removeKeys_def sqliteHolds_def Let_def
    split: if_splits option.splits)

interpretation sqliteOnce: once_store "sqliteSetNX fails" sqliteHolds "sqliteOther owned" owned for fails owned
proof (unfold_locales, goal_cases)
  case (1 s t key v ttl s' u)
  then show ?case using sqliteSetNX_result [of fails s t key v ttl] expiryFor_live [of t u ttl] by (auto simp: sqliteHolds_def)
next
  case (2 s key t v ttl)
  then show ?case using sqliteSetNX_result [of fails s t key v ttl] by blast
next
  case (3 s t key' v ttl r s' u key)
  then show ?case by (rule sqliteSetNX_keeps)
next
  case (4 s t s' key u)
  then show ?case by (rule sqliteOther_keeps)
qed

subsection \<open>What the tables promise\<close>

lemma liveValue_Set:
  assumes "sqliteSet fails c t key v ttl = (None, c')" "0 \<le> t" "t \<le> u" "u + seconds 2 \<le> t + ttl"
  shows "liveValue c' u key = Some (encodeValue v)"
  using assms expiryFor_live [OF assms(2-4), of "encodeValue v"] by (auto simp: sqliteSet_def liveValue_def split: if_splits)

text \<open>
  A value that was set is read back for its whole lifetime less two seconds, by every reading command and
  whatever other entries do; it is gone once its lifetime is over.
\<close>

theorem set_value_is_read:
  assumes "sqliteSet fails c t key v ttl = (None, c')" "seconds 1 \<le> t" "t \<le> u" "0 < ttl"
  shows "(u + seconds 2 \<le> t + ttl \<longrightarrow> sqliteGet (\<lambda>_. False) c' u key = Inr (encodeValue v) \<and> sqliteExists (\<lambda>_. False) c' u key = Inr 1) \<and>
     (t + ttl \<le> u \<longrightarrow> sqliteGet (\<lambda>_. False) c' u key = Inl ErrMiss \<and> sqliteExists (\<lambda>_. False) c' u key = Inr 0) \<and>
     (\<forall>k. k \<noteq> key \<longrightarrow> sqliteGet (\<lambda>_. False) c' u k = sqliteGet (\<lambda>_. False) c u k)"
proof (intro conjI)
  show "u + seconds 2 \<le> t + ttl \<longrightarrow> sqliteGet (\<lambda>_. False) c' u key = Inr (encodeValue v) \<and> sqliteExists (\<lambda>_. False) c' u key = Inr 1"
    using liveValue_Set [OF assms(1) _ assms(3)] assms(2) by (simp add: sqliteGet_def sqliteExists_def seconds_def)
  show "t + ttl \<le> u \<longrightarrow> sqliteGet (\<lambda>_. False) c' u key = Inl ErrMiss \<and> sqliteExists (\<lambda>_. False) c' u key = Inr 0"
  proof
    assume u: "t + ttl \<le> u"
    have "nowUnix t + ttl div nano_per_sec \<le> (t + ttl) div nano_per_sec" unfolding nowUnix_def by linarith
    also have "\<dots> \<le> nowUnix u" using u by (simp add: nowUnix_def zdiv_mono1)
    finally have "nowUnix t + ttl div nano_per_sec \<le> nowUnix u" .
    moreover have "1 \<le> nowUnix t" using zdiv_mono1 [of nano_per_sec t nano_per_sec] assms(2) by (simp add: nowUnix_def seconds_def)
    moreover have "0 \<le> ttl div nano_per_sec" using assms(4) by (simp add: pos_imp_zdiv_nonneg_iff)
    ultimately show "sqliteGet (\<lambda>_. False) c' u key = Inl ErrMiss \<and> sqliteExists (\<lambda>_. False) c' u key = Inr 0"
      using assms u by (auto simp: sqliteSet_def sqliteGet_def sqliteExists_def liveValue_def liveRow_def expiryFor_def seconds_def split: if_splits)
  qed
qed (use assms in \<open>auto simp: sqliteSet_def sqliteGet_def liveValue_def split: if_splits\<close>)

theorem set_value_is_read_witness:
  "sqliteGet (\<lambda>_. False) (snd (sqliteSet (\<lambda>_. False) \<lparr>cacheEntries = Map.empty, cacheCounters = Map.empty\<rparr> (seconds 5) ''k'' (IntValue 7) (seconds 10)))
     (seconds 13) ''k'' = Inr ''7''"
proof -
  let ?c = "\<lparr>cacheEntries = Map.empty, cacheCounters = Map.empty\<rparr>"
  have set: "sqliteSet (\<lambda>_. False) ?c (seconds 5) ''k'' (IntValue 7) (seconds 10) =
      (None, snd (sqliteSet (\<lambda>_. False) ?c (seconds 5) ''k'' (IntValue 7) (seconds 10)))"
    by (simp add: sqliteSet_def)
  have "showInt 7 = ''7''" by code_simp
  then show ?thesis using set_value_is_read [OF set, of "seconds 13"] by (simp add: seconds_def)
qed

text \<open>
  Numbers and values live in different tables, so that on a worker the commands do not act on one another as
  they do on Redis: a number that was counted up cannot be read, has no lifetime and cannot be given one.
\<close>

lemma counters_are_not_entries:
  assumes "sqliteIncr fails c key = (Inr n, c')" "cacheEntries c key = None"
  shows "sqliteGet (\<lambda>_. False) c' t key = Inl ErrMiss" "sqliteExists (\<lambda>_. False) c' t key = Inr 0"
    "sqliteExpire (\<lambda>_. False) c' t key ttl = (Inr False, c')" "fst (sqliteIncr (\<lambda>_. False) c' key) = Inr (n + 1)"
  using assms
  by (auto simp: sqliteIncr_def Let_def sqliteGet_def sqliteExists_def sqliteExpire_def liveValue_def split: if_splits option.splits)

end
