(* ===== verification/Worker_Cache.thy ===== *)
theory Worker_Cache
  imports Cache_Store Routing
begin

text \<open>
  The route cache of a worker: \<^verbatim>\<open>internal/logic/relay/route_cache.go\<close> over the tables of
  \<^verbatim>\<open>internal/logic/cache/sqlite.go\<close>.  \<open>routeStoreOf\<close> reads the tables as the store on which \<open>Routing\<close> models the
  cache.  The encoding of candidates as JSON is an argument.
\<close>

definition routeCacheTTL :: duration where "routeCacheTTL = minutes 30"

definition routeCacheVersionKey :: string where "routeCacheVersionKey = ''aiferry:routes:version''"

definition routeCacheVersion :: "(string \<Rightarrow> bool) \<Rightarrow> sqliteCache \<Rightarrow> gotime \<Rightarrow> int" where
  "routeCacheVersion fails c t =
     (case answerInt64 (sqliteGet fails c t routeCacheVersionKey) of Inl _ \<Rightarrow> 0 | Inr n \<Rightarrow> n)"

definition workerInvalidate :: "(string \<Rightarrow> bool) \<Rightarrow> sqliteCache \<Rightarrow> sqliteCache" where
  "workerInvalidate fails c = snd (sqliteIncr fails c routeCacheVersionKey)"

definition workerWriteRoutes :: "(string \<Rightarrow> bool) \<Rightarrow> (Candidate list \<Rightarrow> string) \<Rightarrow> sqliteCache \<Rightarrow> gotime \<Rightarrow> string \<Rightarrow> int \<Rightarrow>
    Candidate list \<Rightarrow> sqliteCache" where
  "workerWriteRoutes fails encode c t model version candidates =
     (if candidates = [] then c
      else snd (sqliteSet fails c t (routeCacheKey model version) (BytesValue (encode candidates)) routeCacheTTL))"

definition routeStoreOf :: "(string \<Rightarrow> Candidate list option) \<Rightarrow> sqliteCache \<Rightarrow> gotime \<Rightarrow> routeStore" where
  "routeStoreOf decode c t =
     \<lparr>routeVersion = routeCacheVersion (\<lambda>_. False) c t,
      routeEntries = (\<lambda>k. case liveValue c t k of None \<Rightarrow> None | Some v \<Rightarrow> decode v)\<rparr>"

lemma versionKey_not_routeKey [simp]: "routeCacheKey model v \<noteq> routeCacheVersionKey" "routeCacheVersionKey \<noteq> routeCacheKey model v"
proof -
  have "CHR '':'' \<in> set (drop 15 (routeCacheKey model v))" by (simp add: routeCacheKey_def)
  moreover have "CHR '':'' \<notin> set (drop 15 routeCacheVersionKey)" by (simp add: routeCacheVersionKey_def)
  ultimately show "routeCacheKey model v \<noteq> routeCacheVersionKey" "routeCacheVersionKey \<noteq> routeCacheKey model v" by metis+
qed

lemma workerInvalidate_entries [simp]: "cacheEntries (workerInvalidate fails c) = cacheEntries c"
  by (simp add: workerInvalidate_def sqliteIncr_def Let_def)

lemma invalidations_entries: "cacheEntries ((workerInvalidate fails ^^ n) c) = cacheEntries c"
  by (induction n) simp_all

lemma routeStoreOf_cong: "cacheEntries c = cacheEntries c' \<Longrightarrow> routeStoreOf decode c t = routeStoreOf decode c' t"
  by (simp add: routeStoreOf_def routeCacheVersion_def sqliteGet_def liveValue_def)

lemma version_always_0: "cacheEntries c routeCacheVersionKey = None \<Longrightarrow> routeCacheVersion fails c t = 0"
  by (simp add: routeCacheVersion_def sqliteGet_def liveValue_def answerInt64_def)

text \<open>
  On a worker invalidating the route cache has no effect.  The version is counted up in the table of numbers
  and read from the table of values, where it never is; so the candidates a worker has cached serve every request
  for half an hour, whatever configuration was applied and however often the cache was invalidated since.
\<close>

theorem worker_route_cache_stale:
  assumes "cacheEntries c routeCacheVersionKey = None" "\<not> fails ''upsert''" "cs \<noteq> []" "decode (encode cs) = Some cs"
    and "routeCacheCarriesCreator cs" "0 \<le> t" "t \<le> u" "u + seconds 2 \<le> t + minutes 30"
    and cached: "cached = workerWriteRoutes fails encode c t model (routeCacheVersion fails c t) cs"
  shows "routeStoreOf decode ((workerInvalidate fails ^^ n) cached) u = routeStoreOf decode cached u \<and>
     fst (routeCached newTables zones u rnd (routeStoreOf decode ((workerInvalidate fails ^^ n) cached) u) model key) =
       orPanic (filterCandidates rnd (filterClosedCandidates (routeTree newTables) zones u cs) key [])"
proof
  show same: "routeStoreOf decode ((workerInvalidate fails ^^ n) cached) u = routeStoreOf decode cached u"
    by (rule routeStoreOf_cong) (rule invalidations_entries)
  let ?key = "routeCacheKey model 0"
  from assms(1-3) have "sqliteSet fails c t ?key (BytesValue (encode cs)) routeCacheTTL = (None, cached)"
    by (simp add: cached workerWriteRoutes_def version_always_0 sqliteSet_def)
  from liveValue_Set [OF this assms(6,7)] assms(8) have "liveValue cached u ?key = Some (encode cs)"
    by (simp add: routeCacheTTL_def)
  moreover have "routeCacheVersion (\<lambda>_. False) cached u = 0"
    using assms(1) by (intro version_always_0) (simp add: cached workerWriteRoutes_def sqliteSet_def)
  ultimately have "readRouteCache (routeStoreOf decode cached u) model (routeVersion (routeStoreOf decode cached u)) = Some cs"
    using assms(4) by (simp add: readRouteCache_def routeStoreOf_def)
  then show "fst (routeCached newTables zones u rnd (routeStoreOf decode ((workerInvalidate fails ^^ n) cached) u) model key) =
       orPanic (filterCandidates rnd (filterClosedCandidates (routeTree newTables) zones u cs) key [])"
    using assms(5) by (simp add: same routeCached_def Let_def)
qed

definition emptyCache :: sqliteCache where
  "emptyCache = \<lparr>cacheEntries = Map.empty, cacheCounters = Map.empty\<rparr>"

theorem worker_route_cache_stale_witness:
  "fst (routeCached (exampleRouteEnv\<lparr>modelRows := \<lambda>_. Some []\<rparr>) exampleZones (minutes 29) (\<lambda>_ _. 0)
      (routeStoreOf (\<lambda>_. Some [exampleCandidate 10 7 5 3 100])
        ((workerInvalidate (\<lambda>_. False) ^^ 3)
          (workerWriteRoutes (\<lambda>_. False) (\<lambda>_. ''json'') emptyCache 0 ''m'' (routeCacheVersion (\<lambda>_. False) emptyCache 0) [exampleCandidate 10 7 5 3 100]))
        (minutes 29)) ''m'' exampleKey) =
   orPanic (filterCandidates (\<lambda>_ _. 0) (filterClosedCandidates (routeTree exampleRouteEnv) exampleZones (minutes 29) [exampleCandidate 10 7 5 3 100]) exampleKey [])"
proof -
  let ?cs = "[exampleCandidate 10 7 5 3 100]"
  have carries: "routeCacheCarriesCreator ?cs"
    by (simp add: exampleCandidate_def newCandidate_def exampleChannel_def)
  have tree: "routeTree exampleRouteEnv = routeTree (exampleRouteEnv\<lparr>modelRows := \<lambda>_. Some []\<rparr>)" by simp
  show ?thesis
    unfolding tree
    by (rule worker_route_cache_stale [THEN conjunct2, OF _ _ _ _ carries _ _ _ refl])
      (simp_all add: emptyCache_def duration_defs)
qed

end
