(* ===== verification/Cluster_Nodes.thy ===== *)
theory Cluster_Nodes
  imports Cache_Store Resilience_Settings
begin

text \<open>
  Who may talk to the master (\<^verbatim>\<open>internal/logic/cluster/sign.go\<close>, \<^verbatim>\<open>nodes.go\<close>, \<^verbatim>\<open>master_api.go\<close>) and how a change of
  the configuration gets a version (\<^verbatim>\<open>state.go\<close>): the signature of a request with its one-time key, the table of
  the nodes, and the version counter with the fingerprint of the tables.

  HMAC-SHA256 with its encoding and the hexadecimal SHA-256 digest are arguments; the store of one-time keys is any
  that keeps the contract \<open>once_store\<close>.
\<close>

subsection \<open>Signatures\<close>

record signer =
  sgSecret :: string
  sgMac :: "string \<Rightarrow> string \<Rightarrow> string"
  sgDigest :: "string \<Rightarrow> string"

text \<open>A request as the server sees it: the values of the four headers, the method, the URI and the body.\<close>

record clusterRequest =
  crNode :: string
  crTimestamp :: string
  crNonce :: string
  crSignature :: string
  crMethod :: string
  crURI :: string
  crBody :: string

datatype authError =
    MissingHeaders | InvalidTimestamp | OutOfWindow | SignatureMismatch | NonceNotRecorded cacheError | DuplicatedNonce
  | ClusterDisabled | NodeQueryFailed string | NodeNotRegistered | NotTheMaster

definition signWindow :: duration where "signWindow = minutes 5"
definition nonceTTL :: duration where "nonceTTL = minutes 15"
definition nonceKey :: string where "nonceKey = ''aiferry:cluster:nonce:''"

definition payload :: "signer \<Rightarrow> string \<Rightarrow> string \<Rightarrow> string \<Rightarrow> string \<Rightarrow> string \<Rightarrow> string \<Rightarrow> string" where
  "payload sg node timestamp nonce method path body =
     joinStr [CHR 0x0A] [node, timestamp, nonce, toUpper method, path, sgDigest sg body]"

definition signature :: "signer \<Rightarrow> string \<Rightarrow> string" where
  "signature sg txt = sgMac sg (sgSecret sg) txt"

text \<open>\<^verbatim>\<open>Headers\<close>: the request that a node sends at a time, with a fresh nonce.\<close>

definition Headers :: "signer \<Rightarrow> gotime \<Rightarrow> string \<Rightarrow> string \<Rightarrow> string \<Rightarrow> string \<Rightarrow> string \<Rightarrow> clusterRequest" where
  "Headers sg t nonce node method path body =
     (let timestamp = showInt (nowUnix t) in
      \<lparr>crNode = node, crTimestamp = timestamp, crNonce = nonce,
       crSignature = signature sg (payload sg node timestamp nonce method path body),
       crMethod = method, crURI = path, crBody = body\<rparr>)"

text \<open>\<open>setnx\<close> is the store of the signer, None when it has none.\<close>

definition Verify :: "signer \<Rightarrow> ('s \<Rightarrow> gotime \<Rightarrow> string \<Rightarrow> cacheValue \<Rightarrow> duration \<Rightarrow> (cacheError + bool) \<times> 's) option \<Rightarrow> 's \<Rightarrow> gotime \<Rightarrow>
    clusterRequest \<Rightarrow> (authError + string) \<times> 's" where
  "Verify sg store s t req =
     (let node = trimSpace (crNode req); timestamp = trimSpace (crTimestamp req);
          nonce = trimSpace (crNonce req); sig = trimSpace (crSignature req)
      in if node = [] \<or> timestamp = [] \<or> nonce = [] \<or> sig = [] then (Inl MissingHeaders, s)
         else case parseInt timestamp of
           None \<Rightarrow> (Inl InvalidTimestamp, s)
         | Some secs \<Rightarrow>
             let skew = t - seconds secs in
             if skew > signWindow \<or> skew < - signWindow then (Inl OutOfWindow, s)
             else if signature sg (payload sg node timestamp nonce (crMethod req) (crURI req) (crBody req)) \<noteq> sig
             then (Inl SignatureMismatch, s)
             else case store of
               None \<Rightarrow> (Inr node, s)
             | Some setnx \<Rightarrow>
                 (case setnx s t (nonceKey @ nonce) (TextValue node) nonceTTL of
                    (Inl e, s') \<Rightarrow> (Inl (NonceNotRecorded e), s')
                  | (Inr created, s') \<Rightarrow> if created then (Inr node, s') else (Inl DuplicatedNonce, s')))"

text \<open>
  A server over time: requests arrive and other parts of the program use the store.  The log holds every request
  with its time and its answer.
\<close>

inductive signerRun :: "signer \<Rightarrow> ('s \<Rightarrow> gotime \<Rightarrow> string \<Rightarrow> cacheValue \<Rightarrow> duration \<Rightarrow> (cacheError + bool) \<times> 's) \<Rightarrow>
    ('s \<Rightarrow> gotime \<Rightarrow> 's \<Rightarrow> bool) \<Rightarrow> (gotime \<times> clusterRequest \<times> (authError + string)) list \<Rightarrow> 's \<Rightarrow> gotime \<Rightarrow> bool"
  for sg setnx other where
  start: "0 \<le> t \<Longrightarrow> signerRun sg setnx other [] s t"
| arrive: "signerRun sg setnx other log s t \<Longrightarrow> t \<le> u \<Longrightarrow> Verify sg (Some setnx) s u req = (r, s') \<Longrightarrow>
    signerRun sg setnx other (log @ [(u, req, r)]) s' u"
| others: "signerRun sg setnx other log s t \<Longrightarrow> t \<le> u \<Longrightarrow> other s u s' \<Longrightarrow> signerRun sg setnx other log s' u"

definition isNonceKey :: "string \<Rightarrow> bool" where
  "isNonceKey key \<longleftrightarrow> hasPrefix key nonceKey"

subsection \<open>The table of the nodes\<close>

record nodeRow =
  nrId :: id
  nrName :: string
  nrAddress :: string
  nrVersion :: string
  nrConfigVersion :: int
  nrPendingRows :: int
  nrLastError :: string
  nrLastHeartbeat :: "gotime option"
  nrLastSync :: "gotime option"
  nrActive :: bool

record nodeDb =
  ndNodes :: "nodeRow list"
  ndNextId :: id

text \<open>\<open>neFold\<close> is the collation of the column \<^verbatim>\<open>name\<close>: two names are equal for the database when it maps them to the same.\<close>

record nodeEnv =
  neFails :: "string \<Rightarrow> bool"
  neFold :: "string \<Rightarrow> string"
  neEnabled :: bool
  neWorker :: bool
  neMasterNodeName :: string

definition insertNode :: "nodeEnv \<Rightarrow> gotime \<Rightarrow> string \<Rightarrow> string \<Rightarrow> string \<Rightarrow> nodeDb \<Rightarrow> authError option \<times> nodeDb" where
  "insertNode env t name address version db =
     (if neFails env ''insert node'' then (Some (NodeQueryFailed ''register cluster node''), db)
      else if \<exists>n \<in> set (ndNodes db). neFold env (nrName n) = neFold env name then (None, db)
      else (None, db\<lparr>ndNodes := ndNodes db @ [\<lparr>nrId = ndNextId db, nrName = name, nrAddress = truncateStr address 255,
              nrVersion = truncateStr version 32, nrConfigVersion = 0, nrPendingRows = 0, nrLastError = [],
              nrLastHeartbeat = Some t, nrLastSync = None, nrActive = True\<rparr>], ndNextId := ndNextId db + 1\<rparr>))"

definition updateNodes :: "(nodeRow \<Rightarrow> bool) \<Rightarrow> (nodeRow \<Rightarrow> nodeRow) \<Rightarrow> nodeDb \<Rightarrow> nodeDb" where
  "updateNodes P f db = db\<lparr>ndNodes := map (\<lambda>n. if P n then f n else n) (ndNodes db)\<rparr>"

definition refreshNode :: "nodeEnv \<Rightarrow> gotime \<Rightarrow> string \<Rightarrow> string \<Rightarrow> string \<Rightarrow> nodeDb \<Rightarrow> authError option \<times> nodeDb" where
  "refreshNode env t name address version db =
     (if neFails env ''refresh node'' then (Some (NodeQueryFailed ''refresh cluster node''), db)
      else (None, updateNodes (\<lambda>n. neFold env (nrName n) = neFold env name \<and> nrActive n)
             (\<lambda>n. n\<lparr>nrAddress := truncateStr address 255, nrVersion := truncateStr version 32, nrLastHeartbeat := Some t\<rparr>) db))"

definition FindNodeByName :: "nodeEnv \<Rightarrow> nodeDb \<Rightarrow> string \<Rightarrow> authError + nodeRow" where
  "FindNodeByName env db name =
     (if neFails env ''find node'' then Inl (NodeQueryFailed ''find cluster node'')
      else case find (\<lambda>n. neFold env (nrName n) = neFold env name \<and> nrActive n) (ndNodes db) of
        None \<Rightarrow> Inl NodeNotRegistered
      | Some n \<Rightarrow> if neFails env ''load node'' then Inl (NodeQueryFailed ''load cluster node'') else Inr n)"

definition RegisterNode :: "nodeEnv \<Rightarrow> gotime \<Rightarrow> string \<Rightarrow> string \<Rightarrow> string \<Rightarrow> nodeDb \<Rightarrow> (authError + nodeRow) \<times> nodeDb" where
  "RegisterNode env t name address version db =
     (case insertNode env t name address version db of
        (Some e, db1) \<Rightarrow> (Inl e, db1)
      | (None, db1) \<Rightarrow>
          (case refreshNode env t name address version db1 of
             (Some e, db2) \<Rightarrow> (Inl e, db2)
           | (None, db2) \<Rightarrow> (FindNodeByName env db2 name, db2)))"

definition FindNodeByID :: "nodeEnv \<Rightarrow> nodeDb \<Rightarrow> id \<Rightarrow> authError + nodeRow" where
  "FindNodeByID env db i =
     (if neFails env ''load node'' then Inl (NodeQueryFailed ''load cluster node'')
      else case find (\<lambda>n. nrId n = i) (ndNodes db) of
        None \<Rightarrow> Inl (NodeQueryFailed ''load cluster node'')
      | Some n \<Rightarrow> Inr n)"

definition ActiveNodes :: "nodeEnv \<Rightarrow> nodeDb \<Rightarrow> authError + nodeRow list" where
  "ActiveNodes env db =
     (if neFails env ''list nodes'' then Inl (NodeQueryFailed ''list active cluster nodes'')
      else Inr (sort_key nrId (filter nrActive (ndNodes db))))"

definition nodeUpdate :: "nodeEnv \<Rightarrow> string \<Rightarrow> id \<Rightarrow> (nodeRow \<Rightarrow> nodeRow) \<Rightarrow> nodeDb \<Rightarrow> authError option \<times> nodeDb" where
  "nodeUpdate env stmt i f db =
     (if neFails env stmt then (Some (NodeQueryFailed stmt), db) else (None, updateNodes (\<lambda>n. nrId n = i) f db))"

definition DeleteNode :: "nodeEnv \<Rightarrow> id \<Rightarrow> nodeDb \<Rightarrow> authError option \<times> nodeDb" where
  "DeleteNode env i db = nodeUpdate env ''delete cluster node'' i (\<lambda>n. n\<lparr>nrActive := False\<rparr>) db"

definition RecordHeartbeat :: "nodeEnv \<Rightarrow> gotime \<Rightarrow> id \<Rightarrow> int \<Rightarrow> int \<Rightarrow> string \<Rightarrow> nodeDb \<Rightarrow> authError option \<times> nodeDb" where
  "RecordHeartbeat env t i configVersion pendingRows lastError db =
     nodeUpdate env ''record node heartbeat'' i
       (\<lambda>n. n\<lparr>nrConfigVersion := configVersion, nrPendingRows := pendingRows, nrLastError := truncateStr lastError 512,
              nrLastHeartbeat := Some t\<rparr>) db"

definition RecordSync :: "nodeEnv \<Rightarrow> gotime \<Rightarrow> id \<Rightarrow> int \<Rightarrow> nodeDb \<Rightarrow> authError option \<times> nodeDb" where
  "RecordSync env t i configVersion db =
     nodeUpdate env ''record node sync'' i (\<lambda>n. n\<lparr>nrConfigVersion := configVersion, nrLastSync := Some t, nrLastError := []\<rparr>) db"

definition RecordNodeError :: "nodeEnv \<Rightarrow> id \<Rightarrow> string \<Rightarrow> nodeDb \<Rightarrow> authError option \<times> nodeDb" where
  "RecordNodeError env i message db =
     nodeUpdate env ''record node error'' i (\<lambda>n. n\<lparr>nrLastError := truncateStr message 512\<rparr>) db"

subsection \<open>Who is let in\<close>

definition VerifiedNodeName :: "nodeEnv \<Rightarrow> signer \<Rightarrow> ('s \<Rightarrow> gotime \<Rightarrow> string \<Rightarrow> cacheValue \<Rightarrow> duration \<Rightarrow> (cacheError + bool) \<times> 's) option \<Rightarrow> 's \<Rightarrow>
    gotime \<Rightarrow> clusterRequest \<Rightarrow> (authError + string) \<times> 's" where
  "VerifiedNodeName env sg store s t req = (if \<not> neEnabled env then (Inl ClusterDisabled, s) else Verify sg store s t req)"

definition Authorize :: "nodeEnv \<Rightarrow> nodeDb \<Rightarrow> signer \<Rightarrow> ('s \<Rightarrow> gotime \<Rightarrow> string \<Rightarrow> cacheValue \<Rightarrow> duration \<Rightarrow> (cacheError + bool) \<times> 's) option \<Rightarrow> 's \<Rightarrow>
    gotime \<Rightarrow> clusterRequest \<Rightarrow> (authError + nodeRow) \<times> 's" where
  "Authorize env db sg store s t req =
     (case VerifiedNodeName env sg store s t req of
        (Inl e, s') \<Rightarrow> (Inl e, s')
      | (Inr name, s') \<Rightarrow> (FindNodeByName env db name, s'))"

definition AuthorizeMaster :: "nodeEnv \<Rightarrow> signer \<Rightarrow> ('s \<Rightarrow> gotime \<Rightarrow> string \<Rightarrow> cacheValue \<Rightarrow> duration \<Rightarrow> (cacheError + bool) \<times> 's) option \<Rightarrow> 's \<Rightarrow>
    gotime \<Rightarrow> clusterRequest \<Rightarrow> authError option \<times> 's" where
  "AuthorizeMaster env sg store s t req =
     (case VerifiedNodeName env sg store s t req of
        (Inl e, s') \<Rightarrow> (Some e, s')
      | (Inr name, s') \<Rightarrow>
          (let expected = (if neMasterNodeName env = [] then ''master'' else neMasterNodeName env) in
           if \<not> neWorker env \<or> name \<noteq> expected then (Some NotTheMaster, s') else (None, s')))"

subsection \<open>A captured request is worthless\<close>

definition timestampOf :: "clusterRequest \<Rightarrow> int" where
  "timestampOf req = (case parseInt (trimSpace (crTimestamp req)) of None \<Rightarrow> 0 | Some n \<Rightarrow> n)"

definition oneTimeKey :: "clusterRequest \<Rightarrow> string" where
  "oneTimeKey req = nonceKey @ trimSpace (crNonce req)"

lemma Verify_accepted:
  assumes "Verify sg (Some setnx) s t req = (Inr node, s')"
  shows "\<bar>t - seconds (timestampOf req)\<bar> \<le> minutes 5" "\<exists>v. setnx s t (oneTimeKey req) v nonceTTL = (Inr True, s')"
    "node = trimSpace (crNode req)"
    "signature sg (payload sg node (trimSpace (crTimestamp req)) (trimSpace (crNonce req)) (crMethod req) (crURI req) (crBody req))
       = trimSpace (crSignature req)"
  using assms
  by (auto simp: Verify_def Let_def timestampOf_def oneTimeKey_def signWindow_def split: if_splits option.splits prod.splits sum.splits)

lemma Verify_store:
  "Verify sg (Some setnx) s t req = (r, s') \<Longrightarrow> s' = s \<or> (\<exists>key v ttl. s' = snd (setnx s t key v ttl))"
  by (auto simp: Verify_def Let_def split: if_splits option.splits prod.splits sum.splits) (metis snd_conv)+

text \<open>Two accepted requests with the same one-time key are almost a quarter of an hour apart.\<close>

definition farApart :: "gotime \<times> clusterRequest \<times> (authError + string) \<Rightarrow> gotime \<times> clusterRequest \<times> (authError + string) \<Rightarrow> bool" where
  "farApart a b \<longleftrightarrow> (case (a, b) of ((u, req, r), (u', req', r')) \<Rightarrow>
     (\<exists>n. r = Inr n) \<and> (\<exists>n. r' = Inr n) \<and> oneTimeKey req = oneTimeKey req' \<longrightarrow> u + nonceTTL < u' + seconds 2)"

context once_store
begin

lemma signerRun_keys:
  assumes "signerRun sg setnx other log s t" "\<And>req. owned (oneTimeKey req)"
  shows "0 \<le> t \<and> sorted_wrt farApart log \<and>
    (\<forall>u req n. (u, req, Inr n) \<in> set log \<longrightarrow> \<bar>u - seconds (timestampOf req)\<bar> \<le> minutes 5 \<and>
       (\<forall>v \<ge> t. v + seconds 2 \<le> u + nonceTTL \<longrightarrow> holds s (oneTimeKey req) v))"
  using assms(1)
proof (induction rule: signerRun.induct)
  case (arrive log s t u req r s')
  have kept: "holds s' key v" if "holds s key v" "u \<le> v" for key v
    using Verify_store [OF arrive.hyps(3)] setnx_keeps that by (metis prod.collapse)
  have far: "farApart x (u, req, r)" if x: "x \<in> set log" for x
  proof (cases x)
    case (fields u0 req0 r0)
    show ?thesis
    proof (cases "(\<exists>n. r0 = Inr n) \<and> (\<exists>n. r = Inr n) \<and> oneTimeKey req0 = oneTimeKey req")
      case True
      then obtain n n0 where r: "r = Inr n" "r0 = Inr n0" and same: "oneTimeKey req0 = oneTimeKey req" by blast
      obtain v where "setnx s u (oneTimeKey req) v nonceTTL = (Inr True, s')"
        using Verify_accepted(2) [OF arrive.hyps(3) [unfolded r(1)]] by blast
      then have "\<not> holds s (oneTimeKey req) u" using setnx_old by (metis fst_conv)
      then have "\<not> u + seconds 2 \<le> u0 + nonceTTL"
        using arrive.IH x fields r(2) same arrive.hyps(2) by (metis)
      then show ?thesis using fields by (simp add: farApart_def)
    qed (auto simp: farApart_def fields)
  qed
  have new: "\<bar>u - seconds (timestampOf req)\<bar> \<le> minutes 5 \<and>
      (\<forall>v \<ge> u. v + seconds 2 \<le> u + nonceTTL \<longrightarrow> holds s' (oneTimeKey req) v)" if "r = Inr n" for n
  proof -
    obtain w where "setnx s u (oneTimeKey req) w nonceTTL = (Inr True, s')"
      using Verify_accepted(2) [OF arrive.hyps(3) [unfolded \<open>r = Inr n\<close>]] by blast
    then have "holds s' (oneTimeKey req) v" if "u \<le> v" "v + seconds 2 \<le> u + nonceTTL" for v
      using setnx_new that arrive.IH arrive.hyps(2) by fastforce
    then show ?thesis using Verify_accepted(1) [OF arrive.hyps(3) [unfolded \<open>r = Inr n\<close>]] by blast
  qed
  have old: "\<bar>u0 - seconds (timestampOf q)\<bar> \<le> minutes 5 \<and>
      (\<forall>v \<ge> u. v + seconds 2 \<le> u0 + nonceTTL \<longrightarrow> holds s' (oneTimeKey q) v)" if "(u0, q, Inr n) \<in> set log" for u0 q n
    using arrive.IH that arrive.hyps(2) kept by (meson order_trans)
  show ?case
  proof (intro conjI allI impI)
    show "0 \<le> u" using arrive.IH arrive.hyps(2) by linarith
    show "sorted_wrt farApart (log @ [(u, req, r)])" using arrive.IH far by (simp add: sorted_wrt_append)
    fix u0 q n
    assume "(u0, q, Inr n) \<in> set (log @ [(u, req, r)])"
    then consider "(u0, q, Inr n) \<in> set log" | "u0 = u" "q = req" "r = Inr n" by auto
    then have both: "\<bar>u0 - seconds (timestampOf q)\<bar> \<le> minutes 5 \<and>
      (\<forall>v \<ge> u. v + seconds 2 \<le> u0 + nonceTTL \<longrightarrow> holds s' (oneTimeKey q) v)"
      using old new by cases blast+
    then show "\<bar>u0 - seconds (timestampOf q)\<bar> \<le> minutes 5" by blast
    fix v
    assume "u \<le> v" "v + seconds 2 \<le> u0 + nonceTTL"
    with both show "holds s' (oneTimeKey q) v" by blast
  qed
next
  case (others log s t u s')
  then have "holds s' (oneTimeKey req) v" if "holds s (oneTimeKey req) v" "u \<le> v" for req v
    using other_keeps assms(2) that by blast
  then show ?case using others by (meson order_trans)
qed simp

lemma accepted_once:
  assumes run: "signerRun sg setnx other log s t" and owned: "\<And>req. owned (oneTimeKey req)"
    and at: "i < j" "j < length log" "log ! i = (u, req, Inr node)" "log ! j = (u', req', r)"
    and same: "trimSpace (crNonce req') = trimSpace (crNonce req)" "trimSpace (crTimestamp req') = trimSpace (crTimestamp req)"
  shows "r \<noteq> Inr node'"
proof
  assume r: "r = Inr node'"
  note inv = signerRun_keys [OF run owned]
  have "(u, req, Inr node) \<in> set log" "(u', req', Inr node') \<in> set log"
    using at r by (metis nth_mem order.strict_trans)+
  then have "\<bar>u - seconds (timestampOf req)\<bar> \<le> minutes 5" "\<bar>u' - seconds (timestampOf req')\<bar> \<le> minutes 5"
    using inv by blast+
  moreover have "timestampOf req' = timestampOf req" using same by (simp add: timestampOf_def)
  ultimately have "u' \<le> u + minutes 10" by (simp add: duration_defs)
  moreover have "farApart (log ! i) (log ! j)" using inv at(1,2) unfolding sorted_wrt_iff_nth_less by blast
  then have "u + nonceTTL < u' + seconds 2" using at r same by (simp add: farApart_def oneTimeKey_def)
  ultimately show False by (simp add: nonceTTL_def duration_defs)
qed

end

lemma oneTimeKey_isNonceKey: "isNonceKey (oneTimeKey req)"
  by (simp add: isNonceKey_def oneTimeKey_def hasPrefix_def)

text \<open>
  C26: a captured request is worthless.  Whatever requests arrive and whatever else is done with the store, of two
  requests with the same nonce and the same timestamp at most one is let in, at any time.  The store may be any that
  keeps the contract of one-time keys; the tables of a worker do.
\<close>

theorem request_accepted_once:
  assumes "once_store setnx holds other isNonceKey" "signerRun sg setnx other log s t"
    and "i < j" "j < length log" "log ! i = (u, req, Inr node)" "log ! j = (u', req', r)"
    and "trimSpace (crNonce req') = trimSpace (crNonce req)" "trimSpace (crTimestamp req') = trimSpace (crTimestamp req)"
  shows "r \<noteq> Inr node'"
  using once_store.accepted_once [OF assms(1,2) oneTimeKey_isNonceKey assms(3-8)] .

text \<open>A text that the headers transport unchanged.\<close>

definition headerText :: "string \<Rightarrow> bool" where
  "headerText s \<longleftrightarrow> s \<noteq> [] \<and> trimSpace s = s"

lemma Verify_Headers:
  assumes "headerText node" "headerText nonce" "\<And>txt. headerText (sgMac sg (sgSecret sg) txt)"
    and "0 \<le> t" "nowUnix t < 2 ^ 63" "\<bar>u - t\<bar> \<le> minutes 5 - seconds 1"
  shows "Verify sg (Some setnx) s u (Headers sg t nonce node method path body) =
     (case setnx s u (nonceKey @ nonce) (TextValue node) nonceTTL of
        (Inl e, s') \<Rightarrow> (Inl (NonceNotRecorded e), s')
      | (Inr created, s') \<Rightarrow> if created then (Inr node, s') else (Inl DuplicatedNonce, s'))"
proof -
  have now: "0 \<le> nowUnix t" using assms(4) by (simp add: nowUnix_def pos_imp_zdiv_nonneg_iff)
  have ts: "trimSpace (showInt (nowUnix t)) = showInt (nowUnix t)" "parseInt (showInt (nowUnix t)) = Some (nowUnix t)"
    "showInt (nowUnix t) \<noteq> []"
    using now assms(5) trim_showInt [of "nowUnix t"] parseInt_showInt [of "nowUnix t"] by simp_all (simp add: showInt_def)
  have "seconds (nowUnix t) \<le> t" "t < seconds (nowUnix t) + seconds 1"
    unfolding nowUnix_def seconds_def by linarith+
  then have window: "\<not> u - seconds (nowUnix t) > signWindow" "\<not> u - seconds (nowUnix t) < - signWindow"
    using assms(6) by (auto simp: signWindow_def)
  show ?thesis
    using assms(1-3) ts window by (simp add: Verify_def Headers_def Let_def headerText_def signature_def)
qed

text \<open>
  what a node signs is let in.  A request sent with a fresh nonce is accepted under the name of its sender when
  it arrives within five minutes less one second, by the clock of the receiver, and the store can be reached.
\<close>

theorem signed_request_accepted:
  assumes "headerText node" "headerText nonce" "\<And>txt. headerText (sgMac sg (sgSecret sg) txt)"
    and "0 \<le> t" "nowUnix t < 2 ^ 63" "\<bar>u - t\<bar> \<le> minutes 5 - seconds 1"
    and "setnx s u (nonceKey @ nonce) (TextValue node) nonceTTL = (Inr True, s')"
  shows "Verify sg (Some setnx) s u (Headers sg t nonce node method path body) = (Inr node, s')"
  by (simp add: Verify_Headers [OF assms(1-6)] assms(7))

text \<open>A signer whose code of a text depends on its length only, for the examples.\<close>

definition exampleSigner :: signer where
  "exampleSigner = \<lparr>sgSecret = ''s'', sgMac = (\<lambda>secret txt. CHR ''m'' # map (\<lambda>_. CHR ''x'') txt), sgDigest = (\<lambda>body. ''d'')\<rparr>"

definition exampleSigned :: clusterRequest where
  "exampleSigned = Headers exampleSigner (seconds 1000) ''nonce'' ''node1'' ''POST'' ''/internal/cluster/usage'' ''{}''"

lemma example_headerText:
  "headerText ''node1''" "headerText ''nonce''" "headerText (sgMac exampleSigner (sgSecret exampleSigner) txt)"
  by (simp_all add: headerText_def exampleSigner_def plain_eval last_map)

definition emptyStore :: sqliteCache where
  "emptyStore = \<lparr>cacheEntries = Map.empty, cacheCounters = Map.empty\<rparr>"

abbreviation exampleSetNX :: "sqliteCache \<Rightarrow> gotime \<Rightarrow> string \<Rightarrow> cacheValue \<Rightarrow> duration \<Rightarrow> (cacheError + bool) \<times> sqliteCache" where
  "exampleSetNX \<equiv> sqliteSetNX (\<lambda>_. False)"

lemma example_claims:
  "fst (exampleSetNX emptyStore u key v ttl) = Inr True"
  by (simp add: sqliteSetNX_def emptyStore_def)

theorem signed_request_accepted_witness:
  "fst (Verify exampleSigner (Some exampleSetNX) emptyStore (seconds 1200) exampleSigned) = Inr ''node1''"
proof -
  have "exampleSetNX emptyStore (seconds 1200) (nonceKey @ ''nonce'') (TextValue ''node1'') nonceTTL =
      (Inr True, snd (exampleSetNX emptyStore (seconds 1200) (nonceKey @ ''nonce'') (TextValue ''node1'') nonceTTL))"
    using example_claims by (metis prod.collapse)
  then show ?thesis
    using signed_request_accepted [where setnx = exampleSetNX and s = emptyStore and u = "seconds 1200" and t = "seconds 1000",
        OF example_headerText]
    by (simp add: exampleSigned_def nowUnix_def duration_defs)
qed

theorem request_accepted_once_witness:
  "let (r1, s1) = Verify exampleSigner (Some exampleSetNX) emptyStore (seconds 1200) exampleSigned;
       (r2, s2) = Verify exampleSigner (Some exampleSetNX) s1 (seconds 1201) exampleSigned
   in r1 = Inr ''node1'' \<and> r2 \<noteq> Inr ''node1''"
proof -
  obtain r1 s1 where v1: "Verify exampleSigner (Some exampleSetNX) emptyStore (seconds 1200) exampleSigned = (r1, s1)" by fastforce
  obtain r2 s2 where v2: "Verify exampleSigner (Some exampleSetNX) s1 (seconds 1201) exampleSigned = (r2, s2)" by fastforce
  let ?setnx = exampleSetNX
  let ?other = "sqliteOther isNonceKey"
  have "Verify exampleSigner (Some ?setnx) emptyStore (seconds 1200) exampleSigned =
      (Inr ''node1'', snd (?setnx emptyStore (seconds 1200) (nonceKey @ ''nonce'') (TextValue ''node1'') nonceTTL))"
    using Verify_Headers [OF example_headerText, of "seconds 1000" "seconds 1200" ?setnx emptyStore]
      example_claims [of "seconds 1200" "nonceKey @ ''nonce''" "TextValue ''node1''" nonceTTL]
    by (auto simp: exampleSigned_def nowUnix_def duration_defs split: prod.split)
  with v1 have r1: "r1 = Inr ''node1''" by simp
  have "signerRun exampleSigner ?setnx ?other [] emptyStore (seconds 1200)"
    by (rule signerRun.start) (simp add: seconds_def)
  from signerRun.arrive [OF signerRun.arrive [OF this order_refl v1] _ v2]
  have run: "signerRun exampleSigner ?setnx ?other [(seconds 1200, exampleSigned, r1), (seconds 1201, exampleSigned, r2)] s2 (seconds 1201)"
    by (simp add: seconds_def)
  have "r2 \<noteq> Inr ''node1''"
    by (rule request_accepted_once [OF sqliteOnce.once_store_axioms run, of 0 1]) (simp_all add: r1)
  with r1 v1 v2 show ?thesis by simp
qed

subsection \<open>A revoked node stays out\<close>

text \<open>
  Everything that happens to the table, statement by statement, so that registrations, revocations and reports of
  nodes interleave; \<open>coll\<close> is the collation.
\<close>

inductive nodeStep :: "(string \<Rightarrow> string) \<Rightarrow> nodeDb \<Rightarrow> nodeDb \<Rightarrow> bool" for coll where
  insert: "neFold env = coll \<Longrightarrow> insertNode env t name address version db = (e, db') \<Longrightarrow> nodeStep coll db db'"
| refresh: "neFold env = coll \<Longrightarrow> refreshNode env t name address version db = (e, db') \<Longrightarrow> nodeStep coll db db'"
| delete: "DeleteNode env i db = (e, db') \<Longrightarrow> nodeStep coll db db'"
| heartbeat: "RecordHeartbeat env t i v n err db = (e, db') \<Longrightarrow> nodeStep coll db db'"
| sync: "RecordSync env t i v db = (e, db') \<Longrightarrow> nodeStep coll db db'"
| error: "RecordNodeError env i message db = (e, db') \<Longrightarrow> nodeStep coll db db'"

definition nodesOk :: "(string \<Rightarrow> string) \<Rightarrow> nodeDb \<Rightarrow> bool" where
  "nodesOk coll db \<longleftrightarrow> distinct (map (coll \<circ> nrName) (ndNodes db)) \<and> distinct (map nrId (ndNodes db)) \<and>
     (\<forall>n \<in> set (ndNodes db). nrId n < ndNextId db)"

definition nodeRevoked :: "(string \<Rightarrow> string) \<Rightarrow> string \<Rightarrow> nodeDb \<Rightarrow> bool" where
  "nodeRevoked coll name db \<longleftrightarrow> (\<exists>n \<in> set (ndNodes db). coll (nrName n) = coll name \<and> \<not> nrActive n)"

text \<open>An update that keeps ids and names and never activates a node keeps both.\<close>

lemma updateNodes_keeps:
  assumes "\<And>n. nrId (f n) = nrId n \<and> nrName (f n) = nrName n \<and> (nrActive (f n) \<longrightarrow> nrActive n)"
  shows "nodesOk coll db \<Longrightarrow> nodesOk coll (updateNodes P f db)"
    "nodeRevoked coll name db \<Longrightarrow> nodeRevoked coll name (updateNodes P f db)"
proof -
  have "map (coll \<circ> nrName) (map (\<lambda>n. if P n then f n else n) ns) = map (coll \<circ> nrName) ns"
    "map nrId (map (\<lambda>n. if P n then f n else n) ns) = map nrId ns" for ns
    using assms by (induction ns) auto
  then show "nodesOk coll db \<Longrightarrow> nodesOk coll (updateNodes P f db)"
    using assms by (auto simp: nodesOk_def updateNodes_def comp_assoc simp del: map_map)
  assume "nodeRevoked coll name db"
  then obtain n where n: "n \<in> set (ndNodes db)" "coll (nrName n) = coll name" "\<not> nrActive n"
    by (auto simp: nodeRevoked_def)
  have "(if P n then f n else n) \<in> set (ndNodes (updateNodes P f db))" using n(1) by (simp add: updateNodes_def)
  then show "nodeRevoked coll name (updateNodes P f db)" 
    using n assms [of n] unfolding nodeRevoked_def by - (rule bexI [of _ "if P n then f n else n"], auto)
qed

lemma nodeUpdate_keeps:
  assumes "nodeUpdate env stmt i f db = (e, db')"
    and "\<And>n. nrId (f n) = nrId n \<and> nrName (f n) = nrName n \<and> (nrActive (f n) \<longrightarrow> nrActive n)"
  shows "nodesOk coll db \<Longrightarrow> nodesOk coll db'" "nodeRevoked coll name db \<Longrightarrow> nodeRevoked coll name db'"
  using assms updateNodes_keeps [of f] by (auto simp: nodeUpdate_def split: if_splits)

lemma insertNode_keeps:
  assumes "insertNode env t name address version db = (e, db')" "nodesOk (neFold env) db"
  shows "nodesOk (neFold env) db'" "nodeRevoked (neFold env) name' db \<Longrightarrow> nodeRevoked (neFold env) name' db'"
  using assms by (fastforce simp: insertNode_def nodesOk_def nodeRevoked_def split: if_splits)+

lemma refreshNode_keeps:
  assumes "refreshNode env t name address version db = (e, db')"
  shows "nodesOk coll db \<Longrightarrow> nodesOk coll db'" "nodeRevoked coll name' db \<Longrightarrow> nodeRevoked coll name' db'"
  using assms updateNodes_keeps [of "\<lambda>n. n\<lparr>nrAddress := truncateStr address 255, nrVersion := truncateStr version 32, nrLastHeartbeat := Some t\<rparr>"]
  by (auto simp: refreshNode_def split: if_splits)

lemma nodeStep_keeps:
  "nodeStep coll db db' \<Longrightarrow> nodesOk coll db \<Longrightarrow> nodesOk coll db' \<and> (nodeRevoked coll name db \<longrightarrow> nodeRevoked coll name db')"
proof (induction rule: nodeStep.induct)
  case (insert env t name' address version db e db')
  then show ?case using insertNode_keeps by blast
next
  case (refresh env t name' address version db e db')
  then show ?case using refreshNode_keeps by blast
next
  case (delete env i db e db')
  show ?case using nodeUpdate_keeps [OF delete(1) [unfolded DeleteNode_def]] delete(2) by simp
next
  case (heartbeat env t i v n err db e db')
  show ?case using nodeUpdate_keeps [OF heartbeat(1) [unfolded RecordHeartbeat_def]] heartbeat(2) by simp
next
  case (sync env t i v db e db')
  show ?case using nodeUpdate_keeps [OF sync(1) [unfolded RecordSync_def]] sync(2) by simp
next
  case (error env i message db e db')
  show ?case using nodeUpdate_keeps [OF error(1) [unfolded RecordNodeError_def]] error(2) by simp
qed

lemma nodeSteps_keep:
  "(nodeStep coll)\<^sup>*\<^sup>* db db' \<Longrightarrow> nodesOk coll db \<Longrightarrow> nodesOk coll db' \<and> (nodeRevoked coll name db \<longrightarrow> nodeRevoked coll name db')"
  by (induction rule: rtranclp_induct) (auto dest: nodeStep_keeps)

lemma revoked_not_found:
  assumes "nodesOk (neFold env) db" "nodeRevoked (neFold env) name db"
  shows "\<exists>e. FindNodeByName env db name = Inl e"
proof -
  obtain r where r: "r \<in> set (ndNodes db)" "neFold env (nrName r) = neFold env name" "\<not> nrActive r"
    using assms(2) by (auto simp: nodeRevoked_def)
  have "\<not> (neFold env (nrName n) = neFold env name \<and> nrActive n)" if "n \<in> set (ndNodes db)" for n
    using assms(1) r that by (auto simp: nodesOk_def distinct_map inj_on_def)
  then have "find (\<lambda>n. neFold env (nrName n) = neFold env name \<and> nrActive n) (ndNodes db) = None"
    by (simp add: find_None_iff)
  then show ?thesis by (simp add: FindNodeByName_def)
qed

text \<open>
  C27: a revoked node stays out.  Once a node was deleted, and whatever registrations, reports and other revocations
  come after that in any order, no request under its name is authorized and it cannot register again: its row stays
  in the table as a tombstone, and a registration neither activates it nor adds another row of that name.
\<close>

theorem revoked_node_stays_out:
  assumes "nodesOk coll db" "n \<in> set (ndNodes db)" "nrId n = i" "DeleteNode env0 i db = (None, db1)"
    and "(nodeStep coll)\<^sup>*\<^sup>* db1 db2" "neFold env = coll" "coll name = coll (nrName n)"
  shows "(\<exists>e. FindNodeByName env db2 name = Inl e) \<and>
     (\<exists>e. fst (RegisterNode env t name address version db2) = Inl e) \<and>
     (trimSpace (crNode req) = name \<longrightarrow> (\<exists>e. fst (Authorize env db2 sg store s u req) = Inl e))"
proof -
  have "n\<lparr>nrActive := False\<rparr> \<in> set (ndNodes db1)"
    using assms(2-4) by (force simp: DeleteNode_def nodeUpdate_def updateNodes_def split: if_splits)
  then have "nodeRevoked coll name db1" 
    using assms(7) unfolding nodeRevoked_def by - (rule bexI [of _ "n\<lparr>nrActive := False\<rparr>"], simp_all)
  moreover have "nodesOk coll db1" using nodeUpdate_keeps(1) [OF assms(4) [unfolded DeleteNode_def] _ assms(1)] by simp
  ultimately have "nodesOk coll db1" "nodeRevoked coll name db1" by blast+
  with nodeSteps_keep [OF assms(5)] have ok: "nodesOk (neFold env) db2" and gone: "nodeRevoked (neFold env) name db2"
    using assms(6) by auto
  from revoked_not_found [OF ok gone] have find: "\<exists>e. FindNodeByName env db2 name = Inl e" .
  moreover have "\<exists>e. fst (RegisterNode env t name address version db2) = Inl e"
  proof -
    obtain e3 db3 where i: "insertNode env t name address version db2 = (e3, db3)" by fastforce
    obtain e4 db4 where r: "refreshNode env t name address version db3 = (e4, db4)" by fastforce
    have "nodesOk (neFold env) db4" "nodeRevoked (neFold env) name db4"
      using insertNode_keeps [OF i ok] gone refreshNode_keeps [OF r] by blast+
    from revoked_not_found [OF this] show ?thesis by (auto simp: RegisterNode_def i r split: option.split)
  qed
  moreover have "\<exists>e. fst (Authorize env db2 sg store s u req) = Inl e" if "trimSpace (crNode req) = name"
  proof -
    obtain r s' where v: "VerifiedNodeName env sg store s u req = (r, s')" by fastforce
    have "r = Inr nm \<Longrightarrow> nm = trimSpace (crNode req)" for nm
      using v by (auto simp: VerifiedNodeName_def Verify_def Let_def split: if_splits option.splits prod.splits sum.splits)
    then show ?thesis using find v that by (cases r) (auto simp: Authorize_def)
  qed
  ultimately show ?thesis by blast
qed

definition exampleNode :: nodeRow where
  "exampleNode = \<lparr>nrId = 1, nrName = ''node1'', nrAddress = [], nrVersion = [], nrConfigVersion = 0, nrPendingRows = 0,
     nrLastError = [], nrLastHeartbeat = None, nrLastSync = None, nrActive = True\<rparr>"

definition exampleNodeEnv :: nodeEnv where
  "exampleNodeEnv = \<lparr>neFails = \<lambda>_. False, neFold = toLower, neEnabled = True, neWorker = False, neMasterNodeName = []\<rparr>"

theorem revoked_node_stays_out_witness:
  "\<exists>e. fst (RegisterNode exampleNodeEnv 0 ''Node1'' [] []
      (snd (RecordHeartbeat exampleNodeEnv 0 1 7 0 [] (snd (DeleteNode exampleNodeEnv 1 \<lparr>ndNodes = [exampleNode], ndNextId = 2\<rparr>))))) = Inl e"
proof -
  let ?db = "\<lparr>ndNodes = [exampleNode], ndNextId = 2\<rparr>"
  let ?db1 = "snd (DeleteNode exampleNodeEnv 1 ?db)"
  let ?db2 = "snd (RecordHeartbeat exampleNodeEnv 0 1 7 0 [] ?db1)"
  have ok: "nodesOk toLower ?db" by (simp add: nodesOk_def exampleNode_def)
  have d: "DeleteNode exampleNodeEnv 1 ?db = (None, ?db1)" by (simp add: DeleteNode_def nodeUpdate_def exampleNodeEnv_def)
  have step: "(nodeStep toLower)\<^sup>*\<^sup>* ?db1 ?db2" by (rule r_into_rtranclp, rule nodeStep.heartbeat, rule surjective_pairing)
  have name: "toLower ''Node1'' = toLower (nrName exampleNode)" unfolding exampleNode_def by code_simp
  show ?thesis
    by (rule revoked_node_stays_out [THEN conjunct2, THEN conjunct1, OF ok _ _ d step _ name])
      (simp_all add: exampleNodeEnv_def exampleNode_def)
qed

subsection \<open>The version of the configuration\<close>

text \<open>
  The row of \<^verbatim>\<open>cluster_state\<close>, the events, the fingerprint the master remembers and the pushes it has started.  What
  the fingerprint of the tables is, and whether it can be computed, is an argument.
\<close>

record versionState =
  vsVersion :: "int option"
  vsEvents :: "(string \<times> string) list"
  vsFingerprint :: string
  vsPushes :: nat

definition ConfigVersion :: "nodeEnv \<Rightarrow> versionState \<Rightarrow> string + int" where
  "ConfigVersion env st =
     (if neFails env ''read version'' then Inl ''read cluster config version''
      else case vsVersion st of None \<Rightarrow> Inl ''cluster: cluster_state row is missing'' | Some v \<Rightarrow> Inr v)"

definition Mark :: "nodeEnv \<Rightarrow> versionState \<Rightarrow> string \<Rightarrow> string \<Rightarrow> string option \<times> versionState" where
  "Mark env st kind ref =
     (if \<not> neEnabled env \<or> neWorker env then (None, st)
      else if neFails env ''bump version'' \<or> neFails env ''record event'' then (Some ''mark cluster config change'', st)
      else (None, st\<lparr>vsVersion := map_option (\<lambda>v. v + 1) (vsVersion st), vsEvents := vsEvents st @ [(kind, truncateStr ref 64)],
                    vsPushes := vsPushes st + 1\<rparr>))"

definition WatchFingerprint :: "nodeEnv \<Rightarrow> string option \<Rightarrow> versionState \<Rightarrow> (string + bool) \<times> versionState" where
  "WatchFingerprint env fingerprint st =
     (case fingerprint of
        None \<Rightarrow> (Inl ''fingerprint table'', st)
      | Some f \<Rightarrow>
          let previous = vsFingerprint st; st1 = st\<lparr>vsFingerprint := f\<rparr> in
          if previous = [] \<or> previous = f then (Inr False, st1)
          else case Mark env st1 ''fingerprint'' [] of (Some e, st2) \<Rightarrow> (Inl e, st2) | (None, st2) \<Rightarrow> (Inr True, st2))"

text \<open>Whether a worker that holds the snapshot of a version is sent a new one, and whether a notice wakes it.\<close>

definition snapshotNeeded :: "int \<Rightarrow> bool \<Rightarrow> int \<Rightarrow> bool" where
  "snapshotNeeded since force version \<longleftrightarrow> \<not> (since > 0 \<and> since \<ge> version \<and> \<not> force)"

definition notifyWakes :: "int \<Rightarrow> int \<Rightarrow> bool" where
  "notifyWakes version localVersion \<longleftrightarrow> \<not> (version > 0 \<and> version \<le> localVersion)"

text \<open>A change of the tables that the patrol sees gets a version, so that every worker is sent a snapshot.\<close>

lemma drift_gets_version:
  assumes "WatchFingerprint env (Some f) st = (Inr True, st')" "vsVersion st = Some v"
    and "neEnabled env" "\<not> neWorker env"
  shows "vsVersion st' = Some (v + 1)" "since \<le> v \<Longrightarrow> snapshotNeeded since False (v + 1)" "l \<le> v \<Longrightarrow> notifyWakes (v + 1) l"
  using assms by (auto simp: WatchFingerprint_def Mark_def Let_def snapshotNeeded_def notifyWakes_def split: if_splits option.splits prod.splits)

text \<open>
  But the fingerprint is remembered before the version is counted up: when that fails once, the change is lost, for
  no later round sees a difference.
\<close>

lemma failed_mark_loses_drift:
  assumes "vsFingerprint st = g" "g \<noteq> []" "f \<noteq> g" "f \<noteq> []" "neEnabled env" "\<not> neWorker env" "neFails env ''bump version''"
    and "WatchFingerprint env (Some f) st = (r, st1)" "WatchFingerprint env' (Some f) st1 = (r', st2)"
  shows "r = Inl ''mark cluster config change''" "r' = Inr False" "vsVersion st2 = vsVersion st"
  using assms by (auto simp: WatchFingerprint_def Mark_def Let_def split: if_splits option.splits prod.splits)

end
