(* ===== verification/Accounts.thy ===== *)
theory Accounts
  imports Relay_Billing
begin

text \<open>
  Money and roles of users: credits, the balance check with its cache and the administrator's correction
  (\<^verbatim>\<open>internal/logic/user/service.go\<close>), the redemption of codes (\<^verbatim>\<open>internal/logic/redemption\<close>) and the local grant
  of the administrator role (\<^verbatim>\<open>SetAdmin\<close>).

  The balances are those of \<open>ledgerDb\<close>; decimals are the argument \<open>decimalOps\<close>.  Which statements fail is a function
  of their names, and \<open>acScanMissing\<close> says whether the database layer reports a row that a single-row query did not
  find as an error, as it does for a row that is read into a struct.  A transaction that fails leaves the tables as
  they were.
\<close>

subsection \<open>Data\<close>

record codeRow =
  cdCode :: string
  cdAmount :: string
  cdExpiresAt :: "gotime option"
  cdRedeemedBy :: "id option"
  cdRedeemedAt :: "gotime option"

record userRow =
  urRole :: string
  urActive :: bool
  urCasdoor :: bool

record ('d, 'f) accountsDb =
  acLedger :: "('d, 'f) ledgerDb"
  acBalanceOk :: "id \<Rightarrow> gotime option"
  acCodes :: "(id \<times> codeRow) list"
  acNextCode :: id
  acUsers :: "(id \<times> userRow) list"
  acOverrides :: "id \<Rightarrow> string option"

record ('d, 'f) accountsEnv =
  acOps :: "('d, 'f) decimalOps"
  acFails :: "string \<Rightarrow> bool"
  acScanMissing :: bool
  acCollation :: "string \<Rightarrow> string"
  acAdminRoles :: "string list"
  acPositive :: "'f \<Rightarrow> bool"

datatype accountError =
    InvalidAmount | QueryFailed string | NoSuchUser | InsufficientBalance | EmptyCode | NoSuchCode | CodeUsed | CodeExpired
  | AmountUnreadable | CodeTaken | SelfDemotion | NotCasdoor | GrantedByCasdoor | NotAdmin | LastAdmin

subsection \<open>Balances\<close>

definition balanceCacheTTL :: duration where "balanceCacheTTL = seconds 2"

definition invalidateBalanceCache :: "('d, 'f) accountsDb \<Rightarrow> id \<Rightarrow> ('d, 'f) accountsDb" where
  "invalidateBalanceCache db uid = db\<lparr>acBalanceOk := (acBalanceOk db)(uid := None)\<rparr>"

definition CheckBalance :: "('d, 'f) accountsEnv \<Rightarrow> gotime \<Rightarrow> ('d, 'f) accountsDb \<Rightarrow> id \<Rightarrow> accountError option \<times> ('d, 'f) accountsDb" where
  "CheckBalance env t db uid =
     (if \<not> acFails env ''read mark'' \<and> (case acBalanceOk db uid of None \<Rightarrow> False | Some expiry \<Rightarrow> t < expiry) then (None, db)
      else if acFails env ''count user'' then (Some (QueryFailed ''check user balance''), db)
      else if \<not> (case ldBalances (acLedger db) uid of None \<Rightarrow> False | Some b \<Rightarrow> acPositive env b) then (Some InsufficientBalance, db)
      else (None, if acFails env ''write mark'' then db else db\<lparr>acBalanceOk := (acBalanceOk db)(uid \<mapsto> t + balanceCacheTTL)\<rparr>))"

definition creditedBalance :: "('d, 'f) decimalOps \<Rightarrow> 'f \<Rightarrow> 'd \<Rightarrow> 'f" where
  "creditedBalance ops stored amount = dToFloat ops (dRound8 ops (dAdd ops (dOfFloat ops stored) amount))"

definition Credit :: "('d, 'f) accountsEnv \<Rightarrow> ('d, 'f) accountsDb \<Rightarrow> id \<Rightarrow> 'd \<Rightarrow> accountError option \<times> ('d, 'f) accountsDb" where
  "Credit env db uid amount0 =
     (let ops = acOps env; amount = dRound8 ops amount0 in
      if dLe ops amount (dZero ops) then (Some InvalidAmount, db)
      else if acFails env ''lock user'' then (Some (QueryFailed ''lock user balance for credit''), db)
      else case ldBalances (acLedger db) uid of
             None \<Rightarrow> (Some (if acScanMissing env then QueryFailed ''lock user balance for credit'' else NoSuchUser), db)
           | Some stored \<Rightarrow>
               if acFails env ''credit'' then (Some (QueryFailed ''credit user balance''), db)
               else (None, invalidateBalanceCache (db\<lparr>acLedger := (acLedger db)\<lparr>ldBalances :=
                       (ldBalances (acLedger db))(uid \<mapsto> creditedBalance ops stored amount)\<rparr>\<rparr>) uid))"

text \<open>\<open>valid\<close>: the amount is a number and not negative.\<close>

definition UpdateBalance :: "('d, 'f) accountsEnv \<Rightarrow> ('d, 'f) accountsDb \<Rightarrow> id \<Rightarrow> bool \<Rightarrow> 'f \<Rightarrow> accountError option \<times> ('d, 'f) accountsDb" where
  "UpdateBalance env db uid valid balance =
     (if \<not> valid then (Some InvalidAmount, db)
      else if acFails env ''find user'' then (Some (QueryFailed ''find user''), db)
      else if ldBalances (acLedger db) uid = None then (Some (if acScanMissing env then QueryFailed ''find user'' else NoSuchUser), db)
      else if acFails env ''update balance'' then (Some (QueryFailed ''update user balance''), db)
      else (None, db\<lparr>acLedger := (acLedger db)\<lparr>ldBalances := (ldBalances (acLedger db))(uid \<mapsto> balance)\<rparr>\<rparr>))"

subsection \<open>Redemption codes\<close>

datatype codeState = StatusActive | StatusUsed | StatusExpired

definition codeStatus :: "codeRow \<Rightarrow> gotime \<Rightarrow> codeState" where
  "codeStatus row t =
     (if cdRedeemedAt row \<noteq> None then StatusUsed
      else case cdExpiresAt row of None \<Rightarrow> StatusActive | Some e \<Rightarrow> if e \<le> t then StatusExpired else StatusActive)"

definition redeemText :: "string \<Rightarrow> string" where
  "redeemText input = toUpper (trimSpace input)"

text \<open>The first half of \<^verbatim>\<open>Redeem\<close>: the row of the code as the transaction reads it, and the checks on it.\<close>

definition findCode :: "('d, 'f) accountsEnv \<Rightarrow> gotime \<Rightarrow> ('d, 'f) accountsDb \<Rightarrow> string \<Rightarrow> accountError + id \<times> codeRow \<times> 'd" where
  "findCode env t db input =
     (let code = redeemText input in
      if code = [] then Inl EmptyCode
      else if acFails env ''find code'' then Inl (QueryFailed ''find redemption code'')
      else case find (\<lambda>(i, row). acCollation env (cdCode row) = acCollation env code) (acCodes db) of
             None \<Rightarrow> Inl (if acScanMissing env then QueryFailed ''find redemption code'' else NoSuchCode)
           | Some (i, row) \<Rightarrow>
               (case codeStatus row t of
                  StatusUsed \<Rightarrow> Inl CodeUsed
                | StatusExpired \<Rightarrow> Inl CodeExpired
                | StatusActive \<Rightarrow>
                    (case dParse (acOps env) (cdAmount row) of
                       None \<Rightarrow> Inl AmountUnreadable
                     | Some amount \<Rightarrow> Inr (i, row, amount))))"

definition claimable :: "gotime \<Rightarrow> codeRow \<Rightarrow> bool" where
  "claimable t row \<longleftrightarrow> cdRedeemedAt row = None \<and> (case cdExpiresAt row of None \<Rightarrow> True | Some e \<Rightarrow> t < e)"

text \<open>The second half: the conditional update of the row as it is now, and the credit.\<close>

definition claimCode :: "('d, 'f) accountsEnv \<Rightarrow> gotime \<Rightarrow> ('d, 'f) accountsDb \<Rightarrow> id \<Rightarrow> id \<Rightarrow> 'd \<Rightarrow> accountError option \<times> ('d, 'f) accountsDb" where
  "claimCode env t db uid i amount =
     (if acFails env ''claim code'' then (Some (QueryFailed ''redeem code''), db)
      else if \<not> list_ex (\<lambda>(j, row). j = i \<and> claimable t row) (acCodes db) then (Some CodeTaken, db)
      else case Credit env (db\<lparr>acCodes := map (\<lambda>(j, row). (j, if j = i \<and> claimable t row
                    then row\<lparr>cdRedeemedBy := Some uid, cdRedeemedAt := Some t\<rparr> else row)) (acCodes db)\<rparr>) uid amount of
             (Some e, _) \<Rightarrow> (Some e, db)
           | (None, db1) \<Rightarrow> (None, db1))"

definition Redeem :: "('d, 'f) accountsEnv \<Rightarrow> gotime \<Rightarrow> ('d, 'f) accountsDb \<Rightarrow> id \<Rightarrow> string \<Rightarrow> (accountError + string \<times> 'd) \<times> ('d, 'f) accountsDb" where
  "Redeem env t db uid input =
     (case findCode env t db input of
        Inl e \<Rightarrow> (Inl e, db)
      | Inr (i, row, amount) \<Rightarrow>
          (case claimCode env t db uid i amount of (Some e, db1) \<Rightarrow> (Inl e, db1) | (None, db1) \<Rightarrow> (Inr (cdCode row, amount), db1)))"

text \<open>Codes are created with fresh ids, and unused or used ones deleted when they are no longer valid.\<close>

definition createCode :: "('d, 'f) accountsDb \<Rightarrow> string \<Rightarrow> string \<Rightarrow> gotime option \<Rightarrow> ('d, 'f) accountsDb" where
  "createCode db code amount expires =
     db\<lparr>acCodes := acCodes db @ [(acNextCode db, \<lparr>cdCode = code, cdAmount = amount, cdExpiresAt = expires, cdRedeemedBy = None, cdRedeemedAt = None\<rparr>)],
        acNextCode := acNextCode db + 1\<rparr>"

definition DeleteInvalid :: "('d, 'f) accountsEnv \<Rightarrow> gotime \<Rightarrow> ('d, 'f) accountsDb \<Rightarrow> (accountError + nat) \<times> ('d, 'f) accountsDb" where
  "DeleteInvalid env t db =
     (let ids = map fst (filter (\<lambda>(i, row). codeStatus row t \<noteq> StatusActive) (acCodes db)) in
      if acFails env ''load codes'' then (Inl (QueryFailed ''load redemption codes for cleanup''), db)
      else if ids = [] then (Inr 0, db)
      else if acFails env ''delete codes'' then (Inl (QueryFailed ''delete invalid redemption codes''), db)
      else (Inr (length ids), db\<lparr>acCodes := filter (\<lambda>(i, row). i \<notin> set ids) (acCodes db)\<rparr>))"

subsection \<open>The administrator role\<close>

definition IsAdminRole :: "string list \<Rightarrow> string \<Rightarrow> bool" where
  "IsAdminRole adminRoles role = list_ex (\<lambda>configured. trimSpace role = configured) adminRoles"

text \<open>The ids of the active accounts of the identity provider that have an administrator role.\<close>

definition adminIDs :: "string list \<Rightarrow> (id \<times> userRow) list \<Rightarrow> id list" where
  "adminIDs adminRoles users = remdups (map fst (filter (\<lambda>(i, u). urCasdoor u \<and> urActive u \<and> IsAdminRole adminRoles (urRole u)) users))"

definition setRole :: "id \<Rightarrow> string \<Rightarrow> (id \<times> userRow) list \<Rightarrow> (id \<times> userRow) list" where
  "setRole uid role users = map (\<lambda>(i, u). (i, if i = uid then u\<lparr>urRole := role\<rparr> else u)) users"

definition localAdminRole :: "string list \<Rightarrow> string" where
  "localAdminRole adminRoles = (case adminRoles of [] \<Rightarrow> ''admin'' | role # _ \<Rightarrow> role)"

definition grantAdmin :: "('d, 'f) accountsEnv \<Rightarrow> ('d, 'f) accountsDb \<Rightarrow> id \<Rightarrow> userRow \<Rightarrow> accountError option \<times> ('d, 'f) accountsDb" where
  "grantAdmin env db uid target =
     (if acFails env ''insert override'' \<or> acOverrides db uid \<noteq> None then (Some (QueryFailed ''save original user role''), db)
      else let db1 = db\<lparr>acOverrides := (acOverrides db)(uid \<mapsto> urRole target)\<rparr> in
        if IsAdminRole (acAdminRoles env) (urRole target) then (None, db1)
        else if acFails env ''grant role'' then (Some (QueryFailed ''grant administrator role''), db)
        else (None, db1\<lparr>acUsers := setRole uid (localAdminRole (acAdminRoles env)) (acUsers db)\<rparr>))"

definition revokeAdmin :: "('d, 'f) accountsEnv \<Rightarrow> ('d, 'f) accountsDb \<Rightarrow> id list \<Rightarrow> id \<Rightarrow> string \<Rightarrow> accountError option \<times> ('d, 'f) accountsDb" where
  "revokeAdmin env db admins uid original =
     (if original = [] then (Some GrantedByCasdoor, db)
      else if uid \<notin> set admins then (Some NotAdmin, db)
      else if length admins \<le> 1 then (Some LastAdmin, db)
      else if acFails env ''delete override'' then (Some (QueryFailed ''remove local administrator override''), db)
      else if acFails env ''restore role'' then (Some (QueryFailed ''restore original user role''), db)
      else (None, db\<lparr>acOverrides := (acOverrides db)(uid := None), acUsers := setRole uid original (acUsers db)\<rparr>))"

definition SetAdmin :: "('d, 'f) accountsEnv \<Rightarrow> ('d, 'f) accountsDb \<Rightarrow> id \<Rightarrow> id \<Rightarrow> bool \<Rightarrow> accountError option \<times> ('d, 'f) accountsDb" where
  "SetAdmin env db uid operator enabled =
     (if uid = 0 then (Some NoSuchUser, db)
      else if uid = operator \<and> \<not> enabled then (Some SelfDemotion, db)
      else if acFails env ''lock roles'' then (Some (QueryFailed ''lock administrator role changes''), db)
      else if acFails env ''lock accounts'' then (Some (QueryFailed ''lock user accounts for role update''), db)
      else let admins = adminIDs (acAdminRoles env) (acUsers db) in
        if acFails env ''find target'' then (Some (QueryFailed ''find user for role update''), db)
        else case map_of (acUsers db) uid of
               None \<Rightarrow> (Some (if acScanMissing env then QueryFailed ''find user for role update'' else NotCasdoor), db)
             | Some target \<Rightarrow>
                 if \<not> urCasdoor target then (Some NotCasdoor, db)
                 else if acFails env ''load override'' \<or> acOverrides db uid = None \<and> acScanMissing env
                 then (Some (QueryFailed ''load original user role''), db)
                 else let original = (case acOverrides db uid of None \<Rightarrow> [] | Some role \<Rightarrow> role) in
                   if enabled then (if original \<noteq> [] then (None, db) else grantAdmin env db uid target)
                   else revokeAdmin env db admins uid original)"

subsection \<open>A code is redeemed once\<close>

text \<open>
  Redemptions of many users interleave with one another and with everything else: a transaction reads the code at
  one time and updates it at another, and what it has read may be stale by then.  \<open>rsFound\<close> holds the transactions
  between the two, \<open>rsEvents\<close> what has happened to the balances so far.
\<close>

datatype ('d, 'f) balanceEvent = Redeemed id id 'd | OtherChange "(id \<Rightarrow> 'f option) \<Rightarrow> id \<Rightarrow> 'f option"

record ('d, 'f) redeemSys =
  rsDb :: "('d, 'f) accountsDb"
  rsFound :: "(id \<times> id \<times> 'd) set"
  rsEvents :: "('d, 'f) balanceEvent list"

inductive redeemStep :: "('d, 'f) decimalOps \<Rightarrow> ('d, 'f) redeemSys \<Rightarrow> ('d, 'f) redeemSys \<Rightarrow> bool" for ops where
  find: "acOps env = ops \<Longrightarrow> findCode env t (rsDb s) input = Inr (i, row, amount) \<Longrightarrow>
    redeemStep ops s (s\<lparr>rsFound := insert (uid, i, amount) (rsFound s)\<rparr>)"
| claim: "acOps env = ops \<Longrightarrow> (uid, i, amount) \<in> rsFound s \<Longrightarrow> claimCode env t (rsDb s) uid i amount = (None, db') \<Longrightarrow>
    redeemStep ops s (s\<lparr>rsDb := db', rsEvents := rsEvents s @ [Redeemed i uid amount]\<rparr>)"
| refused: "acOps env = ops \<Longrightarrow> claimCode env t (rsDb s) uid i amount = (Some e, db') \<Longrightarrow> redeemStep ops s (s\<lparr>rsDb := db'\<rparr>)"
| create: "redeemStep ops s (s\<lparr>rsDb := createCode (rsDb s) code amount expires\<rparr>)"
| delete: "DeleteInvalid env t (rsDb s) = (r, db') \<Longrightarrow> redeemStep ops s (s\<lparr>rsDb := db'\<rparr>)"
| other: "acCodes db' = acCodes (rsDb s) \<Longrightarrow> acNextCode db' = acNextCode (rsDb s) \<Longrightarrow>
    ldBalances (acLedger db') = f (ldBalances (acLedger (rsDb s))) \<Longrightarrow>
    redeemStep ops s (s\<lparr>rsDb := db', rsEvents := rsEvents s @ [OtherChange f]\<rparr>)"

definition applyEvent :: "('d, 'f) decimalOps \<Rightarrow> (id \<Rightarrow> 'f option) \<Rightarrow> ('d, 'f) balanceEvent \<Rightarrow> id \<Rightarrow> 'f option" where
  "applyEvent ops balances event =
     (case event of
        Redeemed i uid amount \<Rightarrow> balances(uid := map_option (\<lambda>b. creditedBalance ops b (dRound8 ops amount)) (balances uid))
      | OtherChange f \<Rightarrow> f balances)"

definition redeemedCodes :: "('d, 'f) balanceEvent list \<Rightarrow> id list" where
  "redeemedCodes events = concat (map (\<lambda>e. case e of Redeemed i _ _ \<Rightarrow> [i] | OtherChange _ \<Rightarrow> []) events)"

definition codesOk :: "('d, 'f) accountsDb \<Rightarrow> bool" where
  "codesOk db \<longleftrightarrow> distinct (map fst (acCodes db)) \<and> (\<forall>p \<in> set (acCodes db). fst p < acNextCode db)"

definition redeemInv :: "('d, 'f) decimalOps \<Rightarrow> (id \<Rightarrow> 'f option) \<Rightarrow> ('d, 'f) redeemSys \<Rightarrow> bool" where
  "redeemInv ops balances s \<longleftrightarrow>
     codesOk (rsDb s) \<and> distinct (redeemedCodes (rsEvents s)) \<and> (\<forall>i \<in> set (redeemedCodes (rsEvents s)). i < acNextCode (rsDb s)) \<and>
     (\<forall>(uid, i, a) \<in> rsFound s. i < acNextCode (rsDb s) \<and> (\<forall>row. (i, row) \<in> set (acCodes (rsDb s)) \<longrightarrow> dParse ops (cdAmount row) = Some a)) \<and>
     (\<forall>i uid a row. Redeemed i uid a \<in> set (rsEvents s) \<and> (i, row) \<in> set (acCodes (rsDb s)) \<longrightarrow>
        cdRedeemedAt row \<noteq> None \<and> cdRedeemedBy row = Some uid \<and> dParse ops (cdAmount row) = Some a) \<and>
     ldBalances (acLedger (rsDb s)) = foldl (applyEvent ops) balances (rsEvents s)"

lemma Credit_effect:
  assumes "Credit env db uid amount = (None, db')"
  shows "acCodes db' = acCodes db" "acNextCode db' = acNextCode db"
    "ldBalances (acLedger db') = applyEvent (acOps env) (ldBalances (acLedger db)) (Redeemed i uid amount)"
    "ldBalances (acLedger db) uid \<noteq> None"
  using assms by (auto simp: Credit_def Let_def invalidateBalanceCache_def applyEvent_def split: if_splits option.splits)

lemma claimCode_effect:
  assumes "claimCode env t db uid i amount = (None, db')"
  shows "acCodes db' = map (\<lambda>(j, row). (j, if j = i \<and> claimable t row then row\<lparr>cdRedeemedBy := Some uid, cdRedeemedAt := Some t\<rparr> else row)) (acCodes db)"
    "acNextCode db' = acNextCode db" "\<exists>row. (i, row) \<in> set (acCodes db) \<and> claimable t row"
    "ldBalances (acLedger db') = applyEvent (acOps env) (ldBalances (acLedger db)) (Redeemed i uid amount)"
  using assms Credit_effect
  by (auto simp: claimCode_def list_ex_iff split: if_splits option.splits prod.splits dest: Credit_effect)

lemma claimCode_refused: "claimCode env t db uid i amount = (Some e, db') \<Longrightarrow> db' = db"
  by (auto simp: claimCode_def split: if_splits option.splits prod.splits)

lemma find_in_set: "List.find P xs = Some x \<Longrightarrow> x \<in> set xs"
  by (metis find_Some_iff nth_mem)

lemma findCode_found:
  "findCode env t db input = Inr (i, row, amount) \<Longrightarrow> (i, row) \<in> set (acCodes db) \<and> dParse (acOps env) (cdAmount row) = Some amount"
  by (auto simp: findCode_def Let_def split: if_splits option.splits codeState.splits dest: find_in_set)

lemma redeemedCodes_append [simp]:
  "redeemedCodes (es @ [Redeemed i uid a]) = redeemedCodes es @ [i]" "redeemedCodes (es @ [OtherChange f]) = redeemedCodes es"
  by (simp_all add: redeemedCodes_def)

lemma in_redeemedCodes: "i \<in> set (redeemedCodes es) \<longleftrightarrow> (\<exists>uid a. Redeemed i uid a \<in> set es)"
  by (force simp: redeemedCodes_def split: balanceEvent.splits)

lemma codesOk_unique: "codesOk db \<Longrightarrow> (i, r) \<in> set (acCodes db) \<Longrightarrow> (i, r') \<in> set (acCodes db) \<Longrightarrow> r = r'"
  by (auto simp: codesOk_def dest: eq_key_imp_eq_value)

lemma redeemInv_claim:
  assumes inv: "redeemInv (acOps env) balances s" and found: "(uid, i, a) \<in> rsFound s"
    and run: "claimCode env t (rsDb s) uid i a = (None, db')"
  shows "redeemInv (acOps env) balances (s\<lparr>rsDb := db', rsEvents := rsEvents s @ [Redeemed i uid a]\<rparr>)"
proof -
  note E = claimCode_effect [OF run]
  obtain row where row: "(i, row) \<in> set (acCodes (rsDb s))" "claimable t row" using E(3) by blast
  have ok: "codesOk (rsDb s)" using inv by (simp add: redeemInv_def)
  have new: "i \<notin> set (redeemedCodes (rsEvents s))"
    using inv row unfolding redeemInv_def in_redeemedCodes by (fastforce simp: claimable_def)
  have amount: "dParse (acOps env) (cdAmount row) = Some a" using inv found row(1) unfolding redeemInv_def by blast
  have bound: "i < acNextCode (rsDb s)" using inv found unfolding redeemInv_def by blast
  have keys: "map fst (acCodes db') = map fst (acCodes (rsDb s))" by (simp add: E(1) split_beta comp_def)
  have ok': "codesOk db'"
    using ok keys E(2) unfolding codesOk_def by (metis (no_types, lifting) imageE image_eqI set_map)
  have rows: "\<exists>r. (j, r) \<in> set (acCodes (rsDb s)) \<and> cdAmount r' = cdAmount r \<and>
      (j = i \<longrightarrow> cdRedeemedAt r' \<noteq> None \<and> cdRedeemedBy r' = Some uid) \<and> (j \<noteq> i \<longrightarrow> r' = r)"
    if "(j, r') \<in> set (acCodes db')" for j r'
  proof -
    from that obtain r where r: "(j, r) \<in> set (acCodes (rsDb s))"
      "r' = (if j = i \<and> claimable t r then r\<lparr>cdRedeemedBy := Some uid, cdRedeemedAt := Some t\<rparr> else r)"
      by (auto simp: E(1))
    moreover have "claimable t r" if "j = i" using codesOk_unique [OF ok row(1)] r(1) row(2) that by auto
    ultimately show ?thesis by (intro exI [of _ r]) auto
  qed
  have five: "cdRedeemedAt r' \<noteq> None \<and> cdRedeemedBy r' = Some u \<and> dParse (acOps env) (cdAmount r') = Some b"
    if ev: "Redeemed j u b \<in> set (rsEvents s @ [Redeemed i uid a])" and r': "(j, r') \<in> set (acCodes db')" for j u b r'
  proof -
    obtain r where r: "(j, r) \<in> set (acCodes (rsDb s))" "cdAmount r' = cdAmount r"
      "j = i \<longrightarrow> cdRedeemedAt r' \<noteq> None \<and> cdRedeemedBy r' = Some uid" "j \<noteq> i \<longrightarrow> r' = r"
      using rows [OF r'] by blast
    show ?thesis
    proof (cases "Redeemed j u b \<in> set (rsEvents s)")
      case True
      then have "j \<noteq> i" using new unfolding in_redeemedCodes by blast
      with True r inv show ?thesis unfolding redeemInv_def by blast
    next
      case False
      with ev have "j = i" "u = uid" "b = a" by auto
      with r amount codesOk_unique [OF ok row(1)] show ?thesis by auto
    qed
  qed
  show ?thesis
    unfolding redeemInv_def redeemSys.simps
  proof (intro conjI ballI allI impI, goal_cases)
    case 1
    show ?case by (simp add: ok')
  next
    case 2
    then show ?case using inv new by (simp add: redeemInv_def)
  next
    case (3 j)
    then show ?case using inv bound by (auto simp: redeemInv_def E(2))
  next
    case (4 x)
    then obtain u j b where x: "x = (u, j, b)" "(u, j, b) \<in> rsFound s" by (cases x) (auto)
    then have "j < acNextCode (rsDb s)" "\<And>r. (j, r) \<in> set (acCodes (rsDb s)) \<Longrightarrow> dParse (acOps env) (cdAmount r) = Some b"
      using inv unfolding redeemInv_def by blast+
    then show ?case using rows x(1) E(2) by fastforce
  next
    case (5 j u b r')
    then show ?case using five [of j u b r'] by simp
  next
    case (6 j u b r')
    then show ?case using five [of j u b r'] by simp
  next
    case (7 j u b r')
    then show ?case using five [of j u b r'] by simp
  next
    case 8
    then show ?case using inv E(4) by (simp add: redeemInv_def)
  qed
qed

lemma redeemInv_step: "redeemStep ops s s' \<Longrightarrow> redeemInv ops balances s \<Longrightarrow> redeemInv ops balances s'"
proof (induction rule: redeemStep.induct)
  case (find env t s input i row amount uid)
  then have f: "(i, row) \<in> set (acCodes (rsDb s))" "dParse ops (cdAmount row) = Some amount"
    using findCode_found [OF find.hyps(2)] find.hyps(1) by simp_all
  have ok: "codesOk (rsDb s)" using find.prems by (simp add: redeemInv_def)
  have "i < acNextCode (rsDb s)" using ok f(1) by (fastforce simp: codesOk_def)
  moreover have "dParse ops (cdAmount r) = Some amount" if "(i, r) \<in> set (acCodes (rsDb s))" for r
    using codesOk_unique [OF ok f(1) that] f(2) by simp
  ultimately show ?case using find.prems by (simp add: redeemInv_def)
next
  case (claim env uid i amount s t db')
  show ?case
    using redeemInv_claim [of env balances s uid i amount t db'] claim.hyps claim.prems by simp
next
  case (refused env t s uid i amount e db')
  then show ?case using claimCode_refused [OF refused.hyps(2)] by simp
next
  case (create s code amount expires)
  then have ids: "\<And>p. p \<in> set (acCodes (rsDb s)) \<Longrightarrow> fst p < acNextCode (rsDb s)" by (auto simp: redeemInv_def codesOk_def)
  have fresh: "acNextCode (rsDb s) \<notin> fst ` set (acCodes (rsDb s))" using ids by fastforce
  have "\<forall>i \<in> set (redeemedCodes (rsEvents s)). i < acNextCode (rsDb s)"
    using create by (simp add: redeemInv_def)
  then have events: "Redeemed i u a \<in> set (rsEvents s) \<Longrightarrow> i < acNextCode (rsDb s)" for i u a
    using in_redeemedCodes by blast
  show ?case using create ids fresh events
    by (fastforce simp: redeemInv_def createCode_def codesOk_def less_Suc_eq)
next
  case (delete env t s r db')
  then have "acNextCode db' = acNextCode (rsDb s)" "acLedger db' = acLedger (rsDb s)" "\<exists>P. acCodes db' = filter P (acCodes (rsDb s))"
    by (auto simp: DeleteInvalid_def Let_def split: if_splits intro: exI [of _ "\<lambda>_. True"])
  then show ?case using delete.prems by (auto simp: redeemInv_def codesOk_def distinct_map_filter)
next
  case (other db' s f)
  then show ?case by (auto simp: redeemInv_def codesOk_def applyEvent_def)
qed

text \<open>
  C28: a code is redeemed at most once, whatever users try at the same time.  However redemptions interleave with
  one another, with stale reads, new codes, clean-ups and other changes of balances: no code is redeemed twice, each
  was redeemed for the amount it was issued with and is marked with the user who got it, and the balances are what
  crediting every redeemed code once, between the other changes, gives.
\<close>

theorem code_redeemed_once:
  assumes "(redeemStep ops)\<^sup>*\<^sup>* \<lparr>rsDb = db, rsFound = {}, rsEvents = []\<rparr> s" "codesOk db"
  shows "distinct (redeemedCodes (rsEvents s)) \<and>
     (\<forall>i uid a row. Redeemed i uid a \<in> set (rsEvents s) \<and> (i, row) \<in> set (acCodes (rsDb s)) \<longrightarrow>
        cdRedeemedBy row = Some uid \<and> dParse ops (cdAmount row) = Some a) \<and>
     ldBalances (acLedger (rsDb s)) = foldl (applyEvent ops) (ldBalances (acLedger db)) (rsEvents s)"
proof -
  have "redeemInv ops (ldBalances (acLedger db)) s"
    using assms(1)
  proof (induction rule: rtranclp_induct)
    case base
    show ?case using assms(2) by (simp add: redeemInv_def redeemedCodes_def)
  next
    case (step y z)
    then show ?case using redeemInv_step by blast
  qed
  then show ?thesis unfolding redeemInv_def by blast
qed


subsection \<open>There is always an administrator\<close>

lemma map_of_setRole:
  "map_of (setRole uid role users) j = map_option (\<lambda>u. if j = uid then u\<lparr>urRole := role\<rparr> else u) (map_of users j)"
  by (induction users) (auto simp: setRole_def)

lemma setRole_keys [simp]: "map fst (setRole uid role users) = map fst users"
  by (simp add: setRole_def split_beta comp_def)

lemma in_adminIDs:
  "distinct (map fst users) \<Longrightarrow>
     j \<in> set (adminIDs roles users) \<longleftrightarrow>
       (case map_of users j of None \<Rightarrow> False | Some u \<Rightarrow> urCasdoor u \<and> urActive u \<and> IsAdminRole roles (urRole u))"
proof (cases "map_of users j")
  case None
  then have "j \<notin> fst ` set users" by (simp add: map_of_eq_None_iff)
  then show ?thesis using None by (force simp: adminIDs_def)
next
  case (Some u)
  assume "distinct (map fst users)"
  with Some show ?thesis by (auto simp: adminIDs_def image_iff dest: map_of_SomeD eq_key_imp_eq_value)
qed

lemma adminIDs_setRole:
  "distinct (map fst users) \<Longrightarrow> j \<noteq> uid \<Longrightarrow> j \<in> set (adminIDs roles (setRole uid role users)) \<longleftrightarrow> j \<in> set (adminIDs roles users)"
  by (simp add: in_adminIDs map_of_setRole split: option.splits)

lemma two_admins:
  assumes "uid \<in> set admins" "distinct admins" "1 < length admins"
  obtains other where "other \<in> set admins" "other \<noteq> uid"
proof -
  have "card (set admins) = length admins" using assms(2) by (rule distinct_card)
  then have "card (set admins - {uid}) > 0" using assms(1,3) by (simp add: card_Diff_singleton)
  then obtain other where "other \<in> set admins - {uid}" by (metis card_gt_0_iff ex_in_conv)
  then show thesis using that by blast
qed

lemma SetAdmin_users:
  assumes "SetAdmin env db uid op enabled = (e, db')"
  shows "acUsers db' = acUsers db \<or> (\<exists>role. acUsers db' = setRole uid role (acUsers db))"
  using assms
  by (auto simp: SetAdmin_def grantAdmin_def revokeAdmin_def Let_def split: if_splits option.splits)

lemma granting_takes_no_role:
  assumes "SetAdmin env db uid op True = (e, db')" "distinct (map fst (acUsers db))" "uid \<in> set (adminIDs (acAdminRoles env) (acUsers db))"
  shows "acUsers db' = acUsers db"
  using assms
  by (auto simp: SetAdmin_def grantAdmin_def Let_def in_adminIDs split: if_splits option.splits)

lemma revoking_needs_two:
  assumes "SetAdmin env db uid op False = (e, db')" "acUsers db' \<noteq> acUsers db"
  shows "uid \<noteq> op" "uid \<in> set (adminIDs (acAdminRoles env) (acUsers db))" "1 < length (adminIDs (acAdminRoles env) (acUsers db))"
  using assms
  by (auto simp: SetAdmin_def revokeAdmin_def Let_def split: if_splits option.splits)

text \<open>Why granting fails where a missing row is an error: an account without a local grant has no row to read.\<close>

lemma missing_override_blocks_grant:
  "acScanMissing env \<Longrightarrow> acOverrides db uid = None \<Longrightarrow> \<exists>e. SetAdmin env db uid op enabled = (Some e, db)"
  by (auto simp: SetAdmin_def Let_def split: option.splits)

text \<open>
  the local grant and withdrawal of the administrator role never lock everybody out.  Whatever the outcome, if
  there was an active administrator there still is one, only the role of the named account changes, nobody withdraws
  the role from himself, and an error leaves all as it was.
\<close>

theorem an_administrator_remains:
  assumes "SetAdmin env db uid op enabled = (e, db')" "distinct (map fst (acUsers db))"
  shows "(adminIDs (acAdminRoles env) (acUsers db) \<noteq> [] \<longrightarrow> adminIDs (acAdminRoles env) (acUsers db') \<noteq> []) \<and>
     (\<forall>j. j \<noteq> uid \<longrightarrow> map_of (acUsers db') j = map_of (acUsers db) j \<and> acOverrides db' j = acOverrides db j) \<and>
     (\<not> enabled \<and> uid = op \<longrightarrow> db' = db) \<and> (e \<noteq> None \<longrightarrow> db' = db)"
proof (intro conjI impI allI)
  let ?roles = "acAdminRoles env"
  assume some: "adminIDs ?roles (acUsers db) \<noteq> []"
  show "adminIDs ?roles (acUsers db') \<noteq> []"
  proof (cases "acUsers db' = acUsers db")
    case True
    then show ?thesis using some by simp
  next
    case False
    then obtain role where role: "acUsers db' = setRole uid role (acUsers db)" using SetAdmin_users [OF assms(1)] by blast
    obtain other where other: "other \<in> set (adminIDs ?roles (acUsers db))" "other \<noteq> uid"
    proof (cases enabled)
      case True
      then have "uid \<notin> set (adminIDs ?roles (acUsers db))" using granting_takes_no_role [of env db uid op e db'] assms False by auto
      then show ?thesis using some that by (metis list.set_intros(1) neq_Nil_conv)
    next
      case off: False
      have "distinct (adminIDs ?roles (acUsers db))" by (simp add: adminIDs_def)
      then show ?thesis using revoking_needs_two [of env db uid op e db'] assms(1) off False two_admins that by metis
    qed
    then have "other \<in> set (adminIDs ?roles (acUsers db'))" using adminIDs_setRole assms(2) role by simp
    then show ?thesis by auto
  qed
next
  fix j assume "j \<noteq> uid"
  then show "map_of (acUsers db') j = map_of (acUsers db) j" "acOverrides db' j = acOverrides db j"
    using SetAdmin_users [OF assms(1)] assms(1)
    by (auto simp: map_of_setRole option.map_ident SetAdmin_def grantAdmin_def revokeAdmin_def Let_def split: if_splits option.splits)
next
  assume "\<not> enabled \<and> uid = op"
  then show "db' = db" using assms(1) by (auto simp: SetAdmin_def split: if_splits)
next
  assume "e \<noteq> None"
  then show "db' = db"
    using assms(1) by (auto simp: SetAdmin_def grantAdmin_def revokeAdmin_def Let_def split: if_splits option.splits)
qed

subsection \<open>Witnesses\<close>

definition exampleAccounts :: "(rat, rat) accountsDb" where
  "exampleAccounts = \<lparr>acLedger = exampleLedger, acBalanceOk = Map.empty,
     acCodes = [(1, \<lparr>cdCode = ''GIFT'', cdAmount = ''5'', cdExpiresAt = None, cdRedeemedBy = None, cdRedeemedAt = None\<rparr>)],
     acNextCode = 2,
     acUsers = [(3, \<lparr>urRole = ''admin'', urActive = True, urCasdoor = True\<rparr>), (4, \<lparr>urRole = ''admin'', urActive = True, urCasdoor = True\<rparr>)],
     acOverrides = [4 \<mapsto> ''user'']\<rparr>"

definition exampleAccountsEnv :: "(rat, rat) accountsEnv" where
  "exampleAccountsEnv = \<lparr>acOps = ratOps\<lparr>dRound8 := (\<lambda>a. a), dParse := (\<lambda>s. if s = ''5'' then Some 5 else None)\<rparr>,
     acFails = (\<lambda>_. False), acScanMissing = False,
     acCollation = (\<lambda>s. s), acAdminRoles = [''admin''], acPositive = (\<lambda>x. 0 < x)\<rparr>"

text \<open>Two users read the same code before either claims it; the first gets the money.\<close>

definition exampleRaced :: "(rat, rat) redeemSys" where
  "exampleRaced = \<lparr>rsDb = snd (claimCode exampleAccountsEnv 7 exampleAccounts 3 1 5), rsFound = {(3, 1, 5), (4, 1, 5)},
     rsEvents = [Redeemed 1 3 5]\<rparr>"

lemma exampleFound:
  "findCode exampleAccountsEnv 6 exampleAccounts ''gift'' =
     Inr (1, \<lparr>cdCode = ''GIFT'', cdAmount = ''5'', cdExpiresAt = None, cdRedeemedBy = None, cdRedeemedAt = None\<rparr>, 5)"
proof -
  have "redeemText ''gift'' = ''GIFT''" proof -
    have "redeemText ''gift'' = toUpper ''gift''" by (simp add: redeemText_def plain_eval)
    also have "\<dots> = ''GIFT''" by code_simp
    finally show ?thesis .
  qed
  then show ?thesis by (simp add: findCode_def Let_def exampleAccounts_def exampleAccountsEnv_def codeStatus_def)
qed

lemma exampleClaimed: "fst (claimCode exampleAccountsEnv 7 exampleAccounts 3 1 5) = None"
  "fst (claimCode exampleAccountsEnv 7 (rsDb exampleRaced) 4 1 5) = Some CodeTaken"
  by (simp_all add: exampleRaced_def claimCode_def claimable_def Credit_def Let_def exampleAccounts_def exampleAccountsEnv_def ratOps_def
      exampleLedger_def invalidateBalanceCache_def)

lemma rtranclp_three: "R a b \<Longrightarrow> R b c \<Longrightarrow> R c d \<Longrightarrow> R\<^sup>*\<^sup>* a d"
  by (blast intro: converse_rtranclp_into_rtranclp)

lemma exampleRace:
  "(redeemStep (acOps exampleAccountsEnv))\<^sup>*\<^sup>* \<lparr>rsDb = exampleAccounts, rsFound = {}, rsEvents = []\<rparr> exampleRaced"
proof -
  let ?ops = "acOps exampleAccountsEnv" and ?db = exampleAccounts
  have "redeemStep ?ops \<lparr>rsDb = ?db, rsFound = {}, rsEvents = []\<rparr> \<lparr>rsDb = ?db, rsFound = {(4, 1, 5)}, rsEvents = []\<rparr>"
    using redeemStep.find [of exampleAccountsEnv ?ops 6 "\<lparr>rsDb = ?db, rsFound = {}, rsEvents = []\<rparr>", of _ 1 _ 5 4] exampleFound by simp
  moreover have "redeemStep ?ops \<lparr>rsDb = ?db, rsFound = {(4, 1, 5)}, rsEvents = []\<rparr> \<lparr>rsDb = ?db, rsFound = {(3, 1, 5), (4, 1, 5)}, rsEvents = []\<rparr>"
    using redeemStep.find [of exampleAccountsEnv ?ops 6 "\<lparr>rsDb = ?db, rsFound = {(4, 1, 5)}, rsEvents = []\<rparr>", of _ 1 _ 5 3] exampleFound by simp
  moreover have "redeemStep ?ops \<lparr>rsDb = ?db, rsFound = {(3, 1, 5), (4, 1, 5)}, rsEvents = []\<rparr> exampleRaced"
    using redeemStep.claim [of exampleAccountsEnv ?ops 3 1 5 "\<lparr>rsDb = ?db, rsFound = {(3, 1, 5), (4, 1, 5)}, rsEvents = []\<rparr>" 7] exampleClaimed(1)
    by (simp add: exampleRaced_def prod_eq_iff)
  ultimately show ?thesis by (rule rtranclp_three)
qed

theorem code_redeemed_once_witness:
  "distinct (redeemedCodes (rsEvents exampleRaced)) \<and> fst (claimCode exampleAccountsEnv 7 (rsDb exampleRaced) 4 1 5) = Some CodeTaken"
proof -
  have "codesOk exampleAccounts" by (simp add: codesOk_def exampleAccounts_def)
  from code_redeemed_once [OF exampleRace this] show ?thesis using exampleClaimed(2) by blast
qed

theorem an_administrator_remains_witness:
  "case SetAdmin exampleAccountsEnv exampleAccounts 4 3 False of
     (e, db') \<Rightarrow> e = None \<and> adminIDs [''admin''] (acUsers db') = [3] \<and> map_of (acUsers db') 3 = map_of (acUsers exampleAccounts) 3"
proof -
  obtain e db' where run: "SetAdmin exampleAccountsEnv exampleAccounts 4 3 False = (e, db')" by (cases "SetAdmin exampleAccountsEnv exampleAccounts 4 3 False") blast
  have "distinct (map fst (acUsers exampleAccounts))" by (simp add: exampleAccounts_def)
  from an_administrator_remains [OF run this] have other: "map_of (acUsers db') 3 = map_of (acUsers exampleAccounts) 3" by simp
  have trim: "trimSpace ''admin'' = ''admin''" "trimSpace ''user'' = ''user''" by (simp_all add: plain_eval)
  have "SetAdmin exampleAccountsEnv exampleAccounts 4 3 False =
      (None, exampleAccounts\<lparr>acOverrides := (acOverrides exampleAccounts)(4 := None), acUsers := setRole 4 ''user'' (acUsers exampleAccounts)\<rparr>)"
    by (simp add: SetAdmin_def revokeAdmin_def Let_def adminIDs_def IsAdminRole_def trim exampleAccounts_def exampleAccountsEnv_def)
  then show ?thesis using run other
    by (auto simp: adminIDs_def IsAdminRole_def trim setRole_def exampleAccounts_def)
qed

end
