(* ===== verification/Go_Json.thy ===== *)
theory Go_Json
  imports Json "HOL-Library.AList"
begin

text \<open>
  Untyped JSON as the gateway handles it: values of the type \<^verbatim>\<open>any\<close> that \<^verbatim>\<open>json.Unmarshal\<close> makes of a document, the
  accessors of \<^verbatim>\<open>internal/logic/protocol/protocol.go\<close> on them, and the paths of the package gjson, which reads a
  document without decoding it.

  A Go map is an association list with distinct keys; a missing entry and the value \<^verbatim>\<open>nil\<close> read alike.  The encoder
  sorts the keys of a map; as no code depends on their order, an object built by the code is written in the order of
  its source.  Decoding turns a number into a \<^verbatim>\<open>float64\<close>; the text with which it is written again is the argument
  \<open>num\<close>.
\<close>

type_synonym goMap = "(string \<times> json) list"

subsection \<open>Values of the type any\<close>

definition lastWins :: "goMap \<Rightarrow> goMap" where
  "lastWins = foldl (\<lambda>m (k, v). AList.update k v m) []"

primrec unmarshalAny :: "(string \<Rightarrow> string) \<Rightarrow> json \<Rightarrow> json" where
  "unmarshalAny num JNull = JNull"
| "unmarshalAny num (JBool b) = JBool b"
| "unmarshalAny num (JNum t) = JNum (num t)"
| "unmarshalAny num (JStr s) = JStr s"
| "unmarshalAny num (JArr xs) = JArr (map (unmarshalAny num) xs)"
| "unmarshalAny num (JObj fs) = JObj (lastWins (map (map_prod id (unmarshalAny num)) fs))"

text \<open>Decoding into a \<^verbatim>\<open>map[string]any\<close>: null makes the map nil, which reads as an empty one.\<close>

definition decodeProtocolObject :: "(string \<Rightarrow> json option) \<Rightarrow> (string \<Rightarrow> string) \<Rightarrow> string \<Rightarrow> goMap option" where
  "decodeProtocolObject parse num body =
     (case parse body of
        Some (JObj fs) \<Rightarrow> (case unmarshalAny num (JObj fs) of JObj m \<Rightarrow> Some m | _ \<Rightarrow> None)
      | Some JNull \<Rightarrow> Some []
      | _ \<Rightarrow> None)"

definition entry :: "goMap \<Rightarrow> string \<Rightarrow> json" where
  "entry m k = (case map_of m k of None \<Rightarrow> JNull | Some v \<Rightarrow> v)"

definition copyProtocolFields :: "goMap \<Rightarrow> string list \<Rightarrow> goMap" where
  "copyProtocolFields source fields = concat (map (\<lambda>f. case map_of source f of None \<Rightarrow> [] | Some v \<Rightarrow> [(f, v)]) fields)"

fun arrayValue :: "json \<Rightarrow> json list" where
  "arrayValue (JArr xs) = xs"
| "arrayValue _ = []"

fun objectValue :: "json \<Rightarrow> goMap option" where
  "objectValue (JObj m) = Some m"
| "objectValue _ = None"

fun stringValue :: "json \<Rightarrow> string" where
  "stringValue (JStr s) = s"
| "stringValue _ = []"

definition stringOr :: "json \<Rightarrow> string \<Rightarrow> string" where
  "stringOr v fallback = (if stringValue v \<noteq> [] then stringValue v else fallback)"

text \<open>The objects of an array, in its order; the loops of the code skip what is not an object.\<close>

definition objectsOf :: "json \<Rightarrow> goMap list" where
  "objectsOf v = concat (map (\<lambda>x. case objectValue x of None \<Rightarrow> [] | Some m \<Rightarrow> [m]) (arrayValue v))"

definition protocolText :: "json \<Rightarrow> string" where
  "protocolText v =
     (if stringValue v \<noteq> [] then stringValue v
      else concat (map (\<lambda>m. stringValue (entry m ''text'')) (objectsOf v)))"

lemma objectsOf_JArr [simp]:
  "objectsOf (JArr []) = []" "objectsOf (JArr (x # xs)) = (case objectValue x of None \<Rightarrow> [] | Some m \<Rightarrow> [m]) @ objectsOf (JArr xs)"
  by (simp_all add: objectsOf_def)

lemma objectsOf_append: "objectsOf (JArr (xs @ ys)) = objectsOf (JArr xs) @ objectsOf (JArr ys)"
  by (simp add: objectsOf_def)

lemma objectsOf_map_JObj [simp]: "objectsOf (JArr (map (\<lambda>x. JObj (f x)) xs)) = map f xs"
  by (induction xs) simp_all

lemma objectsOf_other [simp]: "objectsOf JNull = []" "objectsOf (JStr s) = []" "objectsOf (JObj m) = []" "objectsOf (JNum t) = []" "objectsOf (JBool b) = []"
  by (simp_all add: objectsOf_def)

lemma entry_Cons: "entry ((k, v) # m) k' = (if k = k' then v else entry m k')"
  by (simp add: entry_def)

lemma entry_Nil [simp]: "entry [] k = JNull"
  by (simp add: entry_def)

lemma map_of_copy: "map_of (copyProtocolFields source fields) k = (if k \<in> set fields then map_of source k else None)"
  by (induction fields) (auto simp: copyProtocolFields_def map_of_Cons_code split: option.splits)

lemma entry_copy: "entry (copyProtocolFields source fields) k = (if k \<in> set fields then entry source k else JNull)"
  by (simp add: entry_def map_of_copy)

lemma entry_update: "entry (AList.update k v m) k' = (if k = k' then v else entry m k')"
  by (simp add: entry_def update_conv')

subsection \<open>Paths of gjson\<close>

text \<open>
  A step of a path selects the first member of an object with the name, or the element of an array with the number;
  \<open>gjExists\<close> holds of every value that is found, of null too.  The reading of a value as a text or a number takes
  from the package how numbers are printed (\<open>gjNum\<close>), the source text of arrays and objects (\<open>gjRaw\<close>) and the number
  of what is not a decimal integer (\<open>gjInt\<close>).
\<close>

record gjsonEnv =
  gjNum :: "string \<Rightarrow> string"
  gjRaw :: "json \<Rightarrow> string"
  gjInt :: "json \<Rightarrow> int"

fun gjGet :: "json \<Rightarrow> string list \<Rightarrow> json option" where
  "gjGet j [] = Some j"
| "gjGet (JObj fs) (k # ks) = (case map_of fs k of None \<Rightarrow> None | Some v \<Rightarrow> gjGet v ks)"
| "gjGet (JArr xs) (k # ks) = (case parseNat k of None \<Rightarrow> None | Some i \<Rightarrow> if i < length xs then gjGet (xs ! i) ks else None)"
| "gjGet _ (_ # _) = None"

definition gjSub :: "json option \<Rightarrow> string list \<Rightarrow> json option" where
  "gjSub v path = (case v of None \<Rightarrow> None | Some j \<Rightarrow> gjGet j path)"

definition gjString :: "gjsonEnv \<Rightarrow> json option \<Rightarrow> string" where
  "gjString env v =
     (case v of
        None \<Rightarrow> []
      | Some JNull \<Rightarrow> []
      | Some (JBool b) \<Rightarrow> (if b then ''true'' else ''false'')
      | Some (JNum t) \<Rightarrow> gjNum env t
      | Some (JStr s) \<Rightarrow> s
      | Some j \<Rightarrow> gjRaw env j)"

definition gjInteger :: "gjsonEnv \<Rightarrow> json option \<Rightarrow> int" where
  "gjInteger env v =
     (case v of
        None \<Rightarrow> 0
      | Some JNull \<Rightarrow> 0
      | Some (JNum t) \<Rightarrow> (case parseInt t of Some n \<Rightarrow> n | None \<Rightarrow> gjInt env (JNum t))
      | Some j \<Rightarrow> gjInt env j)"

text \<open>\<^verbatim>\<open>Result.ForEach\<close>: the elements of an array, the values of an object, and a value of any other kind, null too, once.\<close>

definition gjEach :: "json option \<Rightarrow> json list" where
  "gjEach v = (case v of None \<Rightarrow> [] | Some (JArr xs) \<Rightarrow> xs | Some (JObj fs) \<Rightarrow> map snd fs | Some j \<Rightarrow> [j])"

text \<open>\<^verbatim>\<open>Result.Array\<close>: as before, but null counts as no element.\<close>

definition gjArray :: "json option \<Rightarrow> json list" where
  "gjArray v = (case v of None \<Rightarrow> [] | Some JNull \<Rightarrow> [] | Some (JArr xs) \<Rightarrow> xs | Some j \<Rightarrow> [j])"

fun isArray :: "json \<Rightarrow> bool" where
  "isArray (JArr _) = True"
| "isArray _ = False"

lemma gjSub_simps [simp]: "gjSub None path = None" "gjSub (Some j) path = gjGet j path"
  by (simp_all add: gjSub_def)

lemma gjString_simps [simp]: "gjString env None = []" "gjString env (Some (JStr s)) = s" "gjString env (Some JNull) = []"
  by (simp_all add: gjString_def)

lemma gjInteger_simps [simp]: "gjInteger env None = 0" "gjInteger env (Some JNull) = 0"
  by (simp_all add: gjInteger_def)

lemma gjEach_simps [simp]: "gjEach None = []" "gjEach (Some (JArr xs)) = xs" "gjEach (Some JNull) = [JNull]"
  by (simp_all add: gjEach_def)

end
