(* ===== verification/Protocol_Plan.thy ===== *)
theory Protocol_Plan
  imports Go_Json
begin

text \<open>
  Which conversion a request takes (\<^verbatim>\<open>internal/logic/protocol/protocol.go\<close>): the plans, the fallback to the other
  endpoint, and the test for an answer without anything to deliver.
\<close>

datatype conversion = NoConversion | ChatToResponses | ResponsesToChat | ChatToAnthropic | ResponsesToAnthropic

record plan =
  clientEndpoint :: string
  upstreamEndpoint :: string
  planConversion :: conversion

definition ChatCompletionsEndpoint :: string where "ChatCompletionsEndpoint = ''/chat/completions''"
definition ResponsesEndpoint :: string where "ResponsesEndpoint = ''/responses''"
definition MessagesEndpoint :: string where "MessagesEndpoint = ''/v1/messages''"

lemmas endpoint_defs = ChatCompletionsEndpoint_def ResponsesEndpoint_def MessagesEndpoint_def

definition directPlan :: "string \<Rightarrow> plan" where
  "directPlan endpoint = \<lparr>clientEndpoint = endpoint, upstreamEndpoint = endpoint, planConversion = NoConversion\<rparr>"

definition chatToResponsesPlan :: "string \<Rightarrow> plan" where
  "chatToResponsesPlan endpoint = \<lparr>clientEndpoint = endpoint, upstreamEndpoint = ResponsesEndpoint, planConversion = ChatToResponses\<rparr>"

definition responsesToChatPlan :: "string \<Rightarrow> plan" where
  "responsesToChatPlan endpoint = \<lparr>clientEndpoint = endpoint, upstreamEndpoint = ChatCompletionsEndpoint, planConversion = ResponsesToChat\<rparr>"

definition fallbackPlan :: "string \<Rightarrow> plan option" where
  "fallbackPlan endpoint =
     (if endpoint = ChatCompletionsEndpoint then Some (chatToResponsesPlan endpoint)
      else if endpoint = ResponsesEndpoint then Some (responsesToChatPlan endpoint)
      else None)"

definition isGPTModel :: "string \<Rightarrow> bool" where
  "isGPTModel model \<longleftrightarrow> hasPrefix (toLower (trimSpace model)) ''gpt-''"

definition PreferredPlan :: "string \<Rightarrow> string \<Rightarrow> plan" where
  "PreferredPlan endpoint upstreamModel =
     (if (endpoint = ChatCompletionsEndpoint \<and> isGPTModel upstreamModel) \<or> (endpoint = ResponsesEndpoint \<and> \<not> isGPTModel upstreamModel)
      then (case fallbackPlan endpoint of Some p \<Rightarrow> p | None \<Rightarrow> directPlan endpoint)
      else directPlan endpoint)"

definition PreferredResponsesPlan :: "string \<Rightarrow> plan" where
  "PreferredResponsesPlan endpoint = (if endpoint = ChatCompletionsEndpoint then chatToResponsesPlan endpoint else directPlan endpoint)"

definition PreferredChatCompletionsPlan :: "string \<Rightarrow> plan" where
  "PreferredChatCompletionsPlan endpoint = (if endpoint = ResponsesEndpoint then responsesToChatPlan endpoint else directPlan endpoint)"

definition PreferredAnthropicPlan :: "string \<Rightarrow> string \<Rightarrow> plan" where
  "PreferredAnthropicPlan endpoint messagesURL =
     (let upstream = (if trimSpace messagesURL = [] then MessagesEndpoint else trimSpace messagesURL) in
      \<lparr>clientEndpoint = endpoint, upstreamEndpoint = upstream,
       planConversion = (if endpoint = ResponsesEndpoint then ResponsesToAnthropic else ChatToAnthropic)\<rparr>)"

definition Converts :: "plan \<Rightarrow> bool" where
  "Converts p \<longleftrightarrow> planConversion p \<noteq> NoConversion"

definition IsAnthropicUpstream :: "plan \<Rightarrow> bool" where
  "IsAnthropicUpstream p \<longleftrightarrow> planConversion p = ChatToAnthropic \<or> planConversion p = ResponsesToAnthropic"

definition AlternatePlan :: "string \<Rightarrow> plan \<Rightarrow> plan option" where
  "AlternatePlan endpoint primary = (if Converts primary then Some (directPlan endpoint) else fallbackPlan endpoint)"

subsection \<open>Fallback and empty answers\<close>

definition fallbackMarkers :: "string list" where
  "fallbackMarkers = [''endpoint'', ''chat completions'', ''responses api'', ''responses endpoint'', ''not support'', ''unsupported'', ''not compatible'']"

text \<open>\<open>doc\<close> is the body as a document, if it is one.\<close>

definition ShouldFallback :: "gjsonEnv \<Rightarrow> int \<Rightarrow> string \<Rightarrow> json option \<Rightarrow> bool" where
  "ShouldFallback env status body doc =
     (if status \<in> {404, 405, 501} then True
      else if status \<in> {400, 422} then
        let message0 = toLower (gjString env (gjSub doc [''error'', ''message'']));
            message = (if message0 = [] then toLower body else message0)
        in if containsSub message ''error while downloading file'' \<or> containsSub message ''downloading file'' then False
           else list_ex (containsSub message) fallbackMarkers
      else False)"

definition EmptyCompletion :: "gjsonEnv \<Rightarrow> plan \<Rightarrow> json option \<Rightarrow> bool" where
  "EmptyCompletion env p doc =
     (case doc of
        None \<Rightarrow> False
      | Some d \<Rightarrow>
          if \<not> Converts p \<or> gjGet d [''error''] \<noteq> None then False
          else if upstreamEndpoint p = ChatCompletionsEndpoint then
            (case gjGet d [''choices''] of
               Some (JArr (c # _)) \<Rightarrow>
                 (case gjGet c [''message''] of
                    None \<Rightarrow> True
                  | Some message \<Rightarrow>
                      trimSpace (gjString env (gjGet message [''content''])) = [] \<and>
                      trimSpace (gjString env (gjGet message [''refusal''])) = [] \<and>
                      (case gjGet message [''tool_calls''] of Some (JArr calls) \<Rightarrow> calls = [] | _ \<Rightarrow> True))
             | _ \<Rightarrow> True)
          else if upstreamEndpoint p = ResponsesEndpoint then
            (case gjGet d [''output''] of Some (JArr output) \<Rightarrow> output = [] | _ \<Rightarrow> False)
          else False)"

text \<open>The alternate of an alternate is a plan for the same endpoint, and direct calls and conversions take turns.\<close>

lemma alternate_converts: "AlternatePlan endpoint p = Some q \<Longrightarrow> clientEndpoint q = endpoint \<and> Converts q \<noteq> Converts p"
  by (auto simp: AlternatePlan_def fallbackPlan_def directPlan_def chatToResponsesPlan_def responsesToChatPlan_def Converts_def split: if_splits)

end
