(* ===== verification/Protocol_Request.thy ===== *)
theory Protocol_Request
  imports Protocol_Plan
begin

text \<open>
  The conversion of requests between Chat Completions and Responses (\<^verbatim>\<open>protocol.go\<close>, \<^verbatim>\<open>request.go\<close> of
  \<^verbatim>\<open>internal/logic/protocol\<close>).  Objects that the code builds are written with the keys in the order of the
  source; \<open>parse\<close>, \<open>num\<close> and \<open>encode\<close> are the steps between text and document.
\<close>

subsection \<open>Tools\<close>

definition chatToolToResponses :: "json \<Rightarrow> json list" where
  "chatToolToResponses v =
     (case objectValue v of
        None \<Rightarrow> []
      | Some item \<Rightarrow>
          if stringValue (entry item ''type'') \<noteq> ''function'' then [JObj item]
          else case objectValue (entry item ''function'') of
                 None \<Rightarrow> []
               | Some function \<Rightarrow>
                   let converted = copyProtocolFields function [''name'', ''description'', ''parameters'', ''strict''];
                       strict = (if map_of function ''strict'' = None then AList.update ''strict'' (JBool False) converted else converted)
                   in [JObj (AList.update ''type'' (JStr ''function'') strict)])"

definition chatToolsToResponses :: "json \<Rightarrow> json list" where
  "chatToolsToResponses v = concat (map chatToolToResponses (arrayValue v))"

definition responsesToolToChat :: "json \<Rightarrow> json list" where
  "responsesToolToChat v =
     (case objectValue v of
        None \<Rightarrow> []
      | Some item \<Rightarrow>
          if stringValue (entry item ''type'') \<noteq> ''function'' then []
          else [JObj [(''type'', JStr ''function''),
                (''function'', JObj (copyProtocolFields item [''name'', ''description'', ''parameters'', ''strict'']))]])"

definition responsesToolsToChat :: "json \<Rightarrow> json list" where
  "responsesToolsToChat v = concat (map responsesToolToChat (arrayValue v))"

definition chatToolChoiceToResponses :: "json \<Rightarrow> json" where
  "chatToolChoiceToResponses v =
     (case objectValue v of
        None \<Rightarrow> v
      | Some choice \<Rightarrow>
          (case objectValue (entry choice ''function'') of
             None \<Rightarrow> JObj choice
           | Some function \<Rightarrow> JObj [(''type'', JStr ''function''), (''name'', JStr (stringValue (entry function ''name'')))]))"

definition responsesToolChoiceToChat :: "json \<Rightarrow> json" where
  "responsesToolChoiceToChat v =
     (case objectValue v of
        None \<Rightarrow> v
      | Some choice \<Rightarrow>
          if stringValue (entry choice ''type'') \<noteq> ''function'' then v
          else JObj [(''type'', JStr ''function''), (''function'', JObj [(''name'', JStr (stringValue (entry choice ''name'')))])])"

subsection \<open>Content\<close>

definition copyPromptCacheBreakpoint :: "goMap \<Rightarrow> goMap \<Rightarrow> goMap" where
  "copyPromptCacheBreakpoint source target =
     (case map_of source ''prompt_cache_breakpoint'' of None \<Rightarrow> target | Some v \<Rightarrow> AList.update ''prompt_cache_breakpoint'' v target)"

text \<open>The parts that the two directions of an image and a file share.\<close>

definition chatImage :: "goMap \<Rightarrow> goMap" where
  "chatImage item =
     (let imageURL = entry item ''image_url'' in
      case objectValue imageURL of
        None \<Rightarrow> [(''type'', JStr ''input_image''), (''image_url'', imageURL)]
      | Some img \<Rightarrow>
          [(''type'', JStr ''input_image''), (''image_url'', JStr (stringValue (entry img ''url'')))]
          @ (let detail = stringValue (entry img ''detail'') in if detail = [] then [] else [(''detail'', JStr detail)]))"

definition fileFields :: "string list" where "fileFields = [''file_id'', ''file_data'', ''filename'']"

definition chatFile :: "goMap \<Rightarrow> goMap" where
  "chatFile item =
     (let flat = copyProtocolFields item fileFields;
          merged = (case objectValue (entry item ''file'') of
             None \<Rightarrow> flat
           | Some file \<Rightarrow> foldl (\<lambda>m f. case map_of file f of None \<Rightarrow> m | Some v \<Rightarrow> AList.update f v m) flat fileFields)
      in AList.update ''type'' (JStr ''input_file'') merged)"

definition chatPartToResponses :: "goMap \<Rightarrow> json" where
  "chatPartToResponses item =
     (let kind = stringValue (entry item ''type'') in
      if kind = ''text'' then
        JObj (copyPromptCacheBreakpoint item [(''type'', JStr ''input_text''), (''text'', JStr (stringValue (entry item ''text'')))])
      else if kind = ''image_url'' then JObj (copyPromptCacheBreakpoint item (chatImage item))
      else if kind = ''file'' then JObj (copyPromptCacheBreakpoint item (chatFile item))
      else JObj item)"

fun chatContentToResponses :: "json \<Rightarrow> json" where
  "chatContentToResponses (JStr s) = JStr s"
| "chatContentToResponses v = JArr (map chatPartToResponses (objectsOf v))"

definition chatAssistantPartToResponses :: "goMap \<Rightarrow> json list" where
  "chatAssistantPartToResponses item =
     (let kind = stringValue (entry item ''type'') in
      if kind = ''text'' \<or> kind = ''input_text'' \<or> kind = ''output_text'' then
        [JObj (copyPromptCacheBreakpoint item [(''type'', JStr ''output_text''), (''text'', JStr (stringValue (entry item ''text'')))])]
      else if kind = ''image_url'' then [JObj (copyPromptCacheBreakpoint item (chatImage item))]
      else if kind = ''file'' then [JObj (copyPromptCacheBreakpoint item (chatFile item))]
      else if kind = ''input_audio'' then [JObj item]
      else if kind = ''refusal'' then
        (let refusal = stringOr (entry item ''refusal'') (stringValue (entry item ''text'')) in
         if refusal = [] then [] else [JObj [(''type'', JStr ''refusal''), (''refusal'', JStr refusal)]])
      else [])"

fun chatAssistantContentToResponses :: "json \<Rightarrow> json list" where
  "chatAssistantContentToResponses (JStr s) = [JObj [(''type'', JStr ''output_text''), (''text'', JStr s)]]"
| "chatAssistantContentToResponses v = concat (map chatAssistantPartToResponses (objectsOf v))"

definition responsesPartToChat :: "goMap \<Rightarrow> json" where
  "responsesPartToChat item =
     (let kind = stringValue (entry item ''type'') in
      if kind = ''input_text'' \<or> kind = ''output_text'' then
        JObj (copyPromptCacheBreakpoint item [(''type'', JStr ''text''), (''text'', JStr (stringValue (entry item ''text'')))])
      else if kind = ''input_image'' then
        (let detail = stringValue (entry item ''detail'');
             img = [(''url'', entry item ''image_url'')] @ (if detail = [] then [] else [(''detail'', JStr detail)])
         in JObj (copyPromptCacheBreakpoint item [(''type'', JStr ''image_url''), (''image_url'', JObj img)]))
      else if kind = ''input_file'' then
        JObj (copyPromptCacheBreakpoint item [(''type'', JStr ''file''), (''file'', JObj (copyProtocolFields item fileFields))])
      else JObj item)"

fun responsesContentToChat :: "json \<Rightarrow> json" where
  "responsesContentToChat (JStr s) = JStr s"
| "responsesContentToChat v = JArr (map responsesPartToChat (objectsOf v))"

text \<open>Nested content of tool results.\<close>

primrec normalizeNestedChatContent :: "json \<Rightarrow> json" where
  "normalizeNestedChatContent JNull = JNull"
| "normalizeNestedChatContent (JBool b) = JBool b"
| "normalizeNestedChatContent (JNum t) = JNum t"
| "normalizeNestedChatContent (JStr s) = JStr s"
| "normalizeNestedChatContent (JArr xs) = JArr (map normalizeNestedChatContent xs)"
| "normalizeNestedChatContent (JObj item) =
     (if stringValue (entry item ''type'') = ''image_url'' then JObj (chatImage item)
      else JObj (map (map_prod id normalizeNestedChatContent) item))"

subsection \<open>Chat to Responses\<close>

definition chatToolCallToResponses :: "nat \<Rightarrow> goMap \<Rightarrow> json list" where
  "chatToolCallToResponses made item =
     (if stringValue (entry item ''type'') \<noteq> ''function'' then []
      else case objectValue (entry item ''function'') of
             None \<Rightarrow> []
           | Some function \<Rightarrow>
               let given = trimSpace (stringValue (entry item ''id''));
                   callID = (if given = [] then ''call_aiferry_'' @ showNat (made + 1) else given)
               in [JObj [(''type'', JStr ''function_call''), (''id'', JStr callID), (''call_id'', JStr callID),
                     (''name'', JStr (stringValue (entry function ''name''))),
                     (''arguments'', JStr (stringValue (entry function ''arguments''))), (''status'', JStr ''completed'')]])"

fun toolCallsFrom :: "json list \<Rightarrow> goMap list \<Rightarrow> json list" where
  "toolCallsFrom made [] = made"
| "toolCallsFrom made (item # items) = toolCallsFrom (made @ chatToolCallToResponses (length made) item) items"

definition chatToolCallsToResponses :: "json \<Rightarrow> json list" where
  "chatToolCallsToResponses v = toolCallsFrom [] (objectsOf v)"

text \<open>One message: the instructions and the input so far are returned extended.\<close>

definition chatMessageToInput :: "goMap \<Rightarrow> string list \<times> json list \<Rightarrow> string list \<times> json list" where
  "chatMessageToInput message acc =
     (let (instructions, input) = acc; role = stringValue (entry message ''role''); content = entry message ''content'';
          plain = (instructions, input @ [JObj [(''role'', JStr (if role = [] then ''user'' else role)), (''content'', chatContentToResponses content)]])
      in if role = ''system'' \<or> role = ''developer'' then
           (if protocolText content \<noteq> [] then (instructions @ [protocolText content], input) else plain)
         else if role = ''tool'' then
           (let given = stringValue (entry message ''tool_call_id'');
                callID = (if trimSpace given = [] then ''call_aiferry_orphan_'' @ showNat (length input) else given)
            in (instructions, input @ [JObj [(''type'', JStr ''function_call_output''), (''call_id'', JStr callID),
                  (''output'', normalizeNestedChatContent content)]]))
         else if role = ''assistant'' then
           (let refusal = stringValue (entry message ''refusal'');
                assistantContent = chatAssistantContentToResponses content
                  @ (if refusal = [] then [] else [JObj [(''type'', JStr ''refusal''), (''refusal'', JStr refusal)]]);
                toolCalls = chatToolCallsToResponses (entry message ''tool_calls'');
                said = JObj [(''role'', JStr role), (''content'', JArr assistantContent)]
            in if toolCalls \<noteq> [] then (instructions, input @ (if assistantContent = [] then [] else [said]) @ toolCalls)
               else (instructions, input @ [said]))
         else plain)"

definition chatMessagesToInput :: "goMap list \<Rightarrow> string list \<times> json list" where
  "chatMessagesToInput messages = foldl (\<lambda>acc m. chatMessageToInput m acc) ([], []) messages"

definition optionalField :: "string \<Rightarrow> json option \<Rightarrow> goMap" where
  "optionalField k v = (case v of None \<Rightarrow> [] | Some j \<Rightarrow> [(k, j)])"

definition chatRequestObject :: "goMap \<Rightarrow> goMap" where
  "chatRequestObject source =
     (let (instructions, input) = chatMessagesToInput (objectsOf (entry source ''messages'')) in
      copyProtocolFields source [''model'', ''stream'', ''user'', ''temperature'', ''top_p'', ''parallel_tool_calls'', ''metadata'',
        ''prompt_cache_key'', ''prompt_cache_options'', ''prompt_cache_retention'']
      @ optionalField ''max_output_tokens'' (case map_of source ''max_completion_tokens'' of Some v \<Rightarrow> Some v | None \<Rightarrow> map_of source ''max_tokens'')
      @ optionalField ''tools'' (map_option (\<lambda>v. JArr (chatToolsToResponses v)) (map_of source ''tools''))
      @ optionalField ''tool_choice'' (map_option chatToolChoiceToResponses (map_of source ''tool_choice''))
      @ optionalField ''text'' (map_option (\<lambda>v. JObj [(''format'', v)]) (map_of source ''response_format''))
      @ (if instructions = [] then [] else [(''instructions'', JStr (joinStr [CHR 0x0A, CHR 0x0A] instructions))])
      @ (if input = [] then [] else [(''input'', JArr input)]))"

subsection \<open>Responses to Chat\<close>

definition responsesReasoningText :: "goMap \<Rightarrow> string" where
  "responsesReasoningText item =
     (let parts = concat (map (\<lambda>part. stringValue (entry part ''text'')) (objectsOf (entry item ''summary'') @ objectsOf (entry item ''content'')))
      in if parts \<noteq> [] then parts else stringValue (entry item ''text''))"

text \<open>The loop over the input items buffers an assistant message, its tool calls and its reasoning.\<close>

record chatBuffer =
  bfResult :: "json list"
  bfAssistant :: "goMap option"
  bfToolCalls :: "json list"
  bfReasoning :: string

definition flushChat :: "chatBuffer \<Rightarrow> chatBuffer" where
  "flushChat b =
     (let reasoning = (if bfReasoning b = [] then [] else [(''reasoning_content'', JStr (bfReasoning b))]);
          message = (if bfToolCalls b \<noteq> [] then
               [JObj ([(''role'', JStr ''assistant''),
                  (''content'', case bfAssistant b of None \<Rightarrow> JNull | Some m \<Rightarrow> entry m ''content''),
                  (''tool_calls'', JArr (bfToolCalls b))] @ reasoning)]
             else case bfAssistant b of None \<Rightarrow> [] | Some m \<Rightarrow> [JObj (m @ reasoning)])
      in \<lparr>bfResult = bfResult b @ message, bfAssistant = None, bfToolCalls = [], bfReasoning = []\<rparr>)"

definition pushChat :: "json \<Rightarrow> chatBuffer \<Rightarrow> chatBuffer" where
  "pushChat message b = b\<lparr>bfResult := bfResult b @ [message]\<rparr>"

definition functionCallToChat :: "goMap \<Rightarrow> json" where
  "functionCallToChat item =
     JObj [(''id'', JStr (stringOr (entry item ''call_id'') (stringValue (entry item ''id'')))), (''type'', JStr ''function''),
       (''function'', JObj [(''name'', JStr (stringValue (entry item ''name''))), (''arguments'', JStr (stringOr (entry item ''arguments'') ''{}''))])]"

definition responsesItemToChat :: "goMap \<Rightarrow> chatBuffer \<Rightarrow> chatBuffer" where
  "responsesItemToChat item b =
     (let kind = stringValue (entry item ''type'') in
      if kind = ''function_call'' then b\<lparr>bfToolCalls := bfToolCalls b @ [functionCallToChat item]\<rparr>
      else if kind = ''reasoning'' then
        (let r = responsesReasoningText item in if r = [] then b else b\<lparr>bfReasoning := r\<rparr>)
      else if kind = ''function_call_output'' then
        pushChat (JObj [(''role'', JStr ''tool''), (''tool_call_id'', JStr (stringValue (entry item ''call_id''))),
          (''content'', entry item ''output'')]) (flushChat b)
      else if kind \<noteq> [] \<and> kind \<noteq> ''message'' then b
      else
        (let role = stringOr (entry item ''role'') ''user'';
             message = [(''role'', JStr role), (''content'', responsesContentToChat (entry item ''content''))]
         in if role = ''assistant'' then
              (let b1 = (if bfToolCalls b \<noteq> [] \<or> bfAssistant b \<noteq> None then flushChat b else b) in b1\<lparr>bfAssistant := Some message\<rparr>)
            else pushChat (JObj message) (flushChat b)))"

definition emptyChatBuffer :: chatBuffer where
  "emptyChatBuffer = \<lparr>bfResult = [], bfAssistant = None, bfToolCalls = [], bfReasoning = []\<rparr>"

fun responsesInputToChat :: "json \<Rightarrow> json list" where
  "responsesInputToChat (JStr s) = [JObj [(''role'', JStr ''user''), (''content'', JStr s)]]"
| "responsesInputToChat v = bfResult (flushChat (foldl (\<lambda>b item. responsesItemToChat item b) emptyChatBuffer (objectsOf v)))"

definition responsesRequestObject :: "goMap \<Rightarrow> goMap" where
  "responsesRequestObject source =
     (let instructions = stringValue (entry source ''instructions'');
          messages = (if instructions = [] then [] else [JObj [(''role'', JStr ''system''), (''content'', JStr instructions)]])
            @ responsesInputToChat (entry source ''input'')
      in copyProtocolFields source [''model'', ''stream'', ''user'', ''temperature'', ''top_p'', ''parallel_tool_calls'',
           ''prompt_cache_key'', ''prompt_cache_options'', ''prompt_cache_retention'']
         @ optionalField ''max_completion_tokens'' (map_of source ''max_output_tokens'')
         @ optionalField ''tools'' (map_option (\<lambda>v. JArr (responsesToolsToChat v)) (map_of source ''tools''))
         @ optionalField ''tool_choice'' (map_option responsesToolChoiceToChat (map_of source ''tool_choice''))
         @ optionalField ''response_format'' (case objectValue (entry source ''text'') of None \<Rightarrow> None | Some m \<Rightarrow> map_of m ''format'')
         @ (if messages = [] then [] else [(''messages'', JArr messages)]))"


subsection \<open>Nothing of a conversation is lost on the way to Chat\<close>

text \<open>
  What happens in a conversation, in either form: somebody says something, a tool is called, a call is answered.
\<close>

datatype turn = Spoke string json | Called string string string | Answered string json

definition turnsOfItem :: "goMap \<Rightarrow> turn list" where
  "turnsOfItem item =
     (let kind = stringValue (entry item ''type'') in
      if kind = ''function_call'' then
        [Called (stringOr (entry item ''call_id'') (stringValue (entry item ''id''))) (stringValue (entry item ''name''))
          (stringOr (entry item ''arguments'') ''{}'')]
      else if kind = ''function_call_output'' then [Answered (stringValue (entry item ''call_id'')) (entry item ''output'')]
      else if kind = [] \<or> kind = ''message'' then [Spoke (stringOr (entry item ''role'') ''user'') (responsesContentToChat (entry item ''content''))]
      else [])"

definition turnOfCall :: "goMap \<Rightarrow> turn" where
  "turnOfCall c =
     (let function = (case objectValue (entry c ''function'') of None \<Rightarrow> [] | Some f \<Rightarrow> f) in
      Called (stringValue (entry c ''id'')) (stringValue (entry function ''name'')) (stringValue (entry function ''arguments'')))"

definition turnsOfMessage :: "goMap \<Rightarrow> turn list" where
  "turnsOfMessage m =
     (case map_of m ''tool_call_id'' of
        Some callId \<Rightarrow> [Answered (stringValue callId) (entry m ''content'')]
      | None \<Rightarrow>
          (if entry m ''content'' = JNull then [] else [Spoke (stringValue (entry m ''role'')) (entry m ''content'')])
          @ map turnOfCall (objectsOf (entry m ''tool_calls'')))"

definition turnsOfMessages :: "json list \<Rightarrow> turn list" where
  "turnsOfMessages ms = concat (map turnsOfMessage (objectsOf (JArr ms)))"

lemma turnsOfMessages_append [simp]: "turnsOfMessages (xs @ ys) = turnsOfMessages xs @ turnsOfMessages ys"
  by (simp add: turnsOfMessages_def objectsOf_append)

lemma turnsOfMessages_simps [simp]: "turnsOfMessages [] = []" "turnsOfMessages [JObj m] = turnsOfMessage m"
  by (simp_all add: turnsOfMessages_def)

lemma responsesContent_not_null [simp]: "responsesContentToChat v \<noteq> JNull"
  by (cases v) simp_all

lemma turnOfCall_functionCall:
  "objectsOf (JArr [functionCallToChat item]) = [c] \<Longrightarrow> turnOfCall c = Called (stringOr (entry item ''call_id'') (stringValue (entry item ''id'')))
     (stringValue (entry item ''name'')) (stringOr (entry item ''arguments'') ''{}'')"
  by (auto simp: functionCallToChat_def turnOfCall_def entry_Cons)

text \<open>What a buffer still holds back, and the form of what it holds.\<close>

definition heldTurns :: "chatBuffer \<Rightarrow> turn list" where
  "heldTurns b =
     (case bfAssistant b of None \<Rightarrow> [] | Some m \<Rightarrow> [Spoke ''assistant'' (entry m ''content'')])
     @ map turnOfCall (objectsOf (JArr (bfToolCalls b)))"

definition bufferOk :: "chatBuffer \<Rightarrow> bool" where
  "bufferOk b \<longleftrightarrow> (\<forall>m. bfAssistant b = Some m \<longrightarrow> (\<exists>v. m = [(''role'', JStr ''assistant''), (''content'', v)] \<and> v \<noteq> JNull))"

lemma flush_turns: "bufferOk b \<Longrightarrow> turnsOfMessages (bfResult (flushChat b)) = turnsOfMessages (bfResult b) @ heldTurns b"
  by (cases "bfAssistant b")
    (auto simp: flushChat_def heldTurns_def bufferOk_def turnsOfMessage_def entry_Cons Let_def)

lemma flush_empty [simp]: "bfAssistant (flushChat b) = None" "bfToolCalls (flushChat b) = []" "heldTurns (flushChat b) = []" "bufferOk (flushChat b)"
  by (simp_all add: flushChat_def heldTurns_def bufferOk_def Let_def)

lemma item_turns:
  assumes "bufferOk b"
  shows "bufferOk (responsesItemToChat item b) \<and>
     turnsOfMessages (bfResult (responsesItemToChat item b)) @ heldTurns (responsesItemToChat item b) =
       turnsOfMessages (bfResult b) @ heldTurns b @ turnsOfItem item"
proof -
  let ?kind = "stringValue (entry item ''type'')" and ?role = "stringOr (entry item ''role'') ''user''"
  consider (call) "?kind = ''function_call''" | (reasoning) "?kind = ''reasoning''" | (answer) "?kind = ''function_call_output''"
    | (unknown) "?kind \<notin> {''function_call'', ''reasoning'', ''function_call_output'', [], ''message''}"
    | (assistant) "?kind \<in> {[], ''message''}" "?role = ''assistant''" | (other) "?kind \<in> {[], ''message''}" "?role \<noteq> ''assistant''"
    by blast
  then show ?thesis
  proof cases
    case call
    moreover obtain c where "functionCallToChat item = JObj c" by (simp add: functionCallToChat_def)
    ultimately show ?thesis
      using assms turnOfCall_functionCall [of item c]
      by (simp add: responsesItemToChat_def turnsOfItem_def heldTurns_def bufferOk_def objectsOf_append)
  next
    case reasoning
    then show ?thesis using assms by (simp add: responsesItemToChat_def turnsOfItem_def heldTurns_def bufferOk_def Let_def)
  next
    case answer
    then show ?thesis using flush_turns [OF assms]
      by (simp add: responsesItemToChat_def turnsOfItem_def pushChat_def heldTurns_def bufferOk_def turnsOfMessage_def entry_Cons)
  next
    case unknown
    then show ?thesis using assms by (simp add: responsesItemToChat_def turnsOfItem_def)
  next
    case assistant
    then show ?thesis
      using assms flush_turns [OF assms]
      by (auto simp: responsesItemToChat_def turnsOfItem_def heldTurns_def bufferOk_def entry_Cons Let_def)
  next
    case other
    then show ?thesis using flush_turns [OF assms]
      by (auto simp: responsesItemToChat_def turnsOfItem_def pushChat_def heldTurns_def bufferOk_def turnsOfMessage_def entry_Cons Let_def)
  qed
qed

lemma items_turns:
  assumes "bufferOk b" "b' = foldl (\<lambda>b item. responsesItemToChat item b) b items"
  shows "bufferOk b' \<and> turnsOfMessages (bfResult b') @ heldTurns b' = turnsOfMessages (bfResult b) @ heldTurns b @ concat (map turnsOfItem items)"
  using assms
proof (induction items arbitrary: b)
  case Nil
  then show ?case by simp
next
  case (Cons item items)
  then show ?case using item_turns [OF Cons.prems(1), of item] Cons.IH [of "responsesItemToChat item b"] by simp
qed

lemma input_turns:
  "turnsOfMessages (responsesInputToChat (JArr items)) = concat (map turnsOfItem (objectsOf (JArr items)))"
proof -
  have ok: "bufferOk emptyChatBuffer" by (simp add: emptyChatBuffer_def bufferOk_def)
  define b where "b = foldl (\<lambda>b item. responsesItemToChat item b) emptyChatBuffer (objectsOf (JArr items))"
  have "bufferOk b" "turnsOfMessages (bfResult b) @ heldTurns b = concat (map turnsOfItem (objectsOf (JArr items)))"
    using items_turns [OF ok b_def] by (simp_all add: emptyChatBuffer_def heldTurns_def)
  with flush_turns [of b] show ?thesis by (simp add: b_def)
qed

text \<open>
  a conversation in the form of Responses keeps every turn on its way to Chat.  The messages made of the input
  say the same things in the same roles, call the same tools with the same arguments under the same ids and give the
  same answers, in the same order; items of other kinds are left out.
\<close>

theorem responses_turns_kept:
  "turnsOfMessages (responsesInputToChat (JArr items)) = concat (map turnsOfItem (objectsOf (JArr items)))"
  by (rule input_turns)

subsection \<open>There and back\<close>

text \<open>
  Messages as Chat clients send them: texts and images, tool calls with an id and arguments, answers with the id of
  their call.  The text of an assistant becomes a list with one text.
\<close>

fun isText :: "json \<Rightarrow> bool" where
  "isText (JStr _) = True"
| "isText _ = False"

fun imageOk :: "json \<Rightarrow> bool" where
  "imageOk (JObj [(k, JStr _)]) \<longleftrightarrow> k = ''url''"
| "imageOk (JObj [(k, JStr _), (l, JStr d)]) \<longleftrightarrow> k = ''url'' \<and> l = ''detail'' \<and> d \<noteq> []"
| "imageOk _ \<longleftrightarrow> False"

fun partOk :: "json \<Rightarrow> bool" where
  "partOk (JObj [(k, JStr kind), (l, v)]) \<longleftrightarrow>
     k = ''type'' \<and> l = kind \<and> (kind = ''text'' \<and> isText v \<or> kind = ''image_url'' \<and> imageOk v)"
| "partOk _ \<longleftrightarrow> False"

fun contentOk :: "json \<Rightarrow> bool" where
  "contentOk (JStr _) \<longleftrightarrow> True"
| "contentOk (JArr parts) \<longleftrightarrow> list_all partOk parts"
| "contentOk _ \<longleftrightarrow> False"

definition callOk :: "goMap \<Rightarrow> bool" where
  "callOk c \<longleftrightarrow>
     stringValue (entry c ''type'') = ''function'' \<and> objectValue (entry c ''function'') \<noteq> None \<and>
     trimSpace (stringValue (entry c ''id'')) = stringValue (entry c ''id'') \<and> stringValue (entry c ''id'') \<noteq> [] \<and>
     (case objectValue (entry c ''function'') of None \<Rightarrow> False | Some f \<Rightarrow> stringValue (entry f ''arguments'') \<noteq> [])"

definition chatMessageOk :: "goMap \<Rightarrow> bool" where
  "chatMessageOk m \<longleftrightarrow>
     (let role = stringValue (entry m ''role''); content = entry m ''content''; calls = objectsOf (entry m ''tool_calls'') in
      if role = ''system'' \<or> role = ''developer'' then protocolText content \<noteq> []
      else if role = ''tool'' then isText content \<and> trimSpace (stringValue (entry m ''tool_call_id'')) \<noteq> []
      else if role = ''assistant'' then
        map_of m ''tool_call_id'' = None \<and> stringValue (entry m ''refusal'') = [] \<and> list_all callOk calls \<and>
        (isText content \<or> content = JNull \<and> calls \<noteq> [])
      else role = ''user'' \<and> map_of m ''tool_call_id'' = None \<and> calls = [] \<and> contentOk content)"

definition textPart :: "string \<Rightarrow> json" where
  "textPart s = JObj [(''type'', JStr ''text''), (''text'', JStr s)]"

definition asParts :: "turn \<Rightarrow> turn" where
  "asParts t = (case t of Spoke role (JStr s) \<Rightarrow> if role = ''assistant'' then Spoke role (JArr [textPart s]) else t | _ \<Rightarrow> t)"

definition turnsOfChat :: "goMap \<Rightarrow> turn list" where
  "turnsOfChat m =
     (if stringValue (entry m ''role'') \<in> {''system'', ''developer''} then [] else map asParts (turnsOfMessage m))"

lemma imageOk_cases:
  "imageOk v \<Longrightarrow> (\<exists>u. v = JObj [(''url'', JStr u)]) \<or> (\<exists>u d. v = JObj [(''url'', JStr u), (''detail'', JStr d)] \<and> d \<noteq> [])"
  by (cases v rule: imageOk.cases) simp_all

lemma partOk_cases:
  assumes "partOk p"
  obtains (words) s where "p = JObj [(''type'', JStr ''text''), (''text'', JStr s)]"
    | (picture) v where "p = JObj [(''type'', JStr ''image_url''), (''image_url'', v)]" "imageOk v"
proof -
  from assms obtain kind v where p: "p = JObj [(''type'', JStr kind), (kind, v)]" "kind = ''text'' \<and> isText v \<or> kind = ''image_url'' \<and> imageOk v"
    by (cases p rule: partOk.cases) auto
  show thesis
  proof (cases "kind = ''text''")
    case True
    then show ?thesis using p words by (cases v) auto
  next
    case False
    then show ?thesis using p picture by simp
  qed
qed

lemma partOk_roundtrip: "partOk p \<Longrightarrow> \<exists>m m'. p = JObj m \<and> chatPartToResponses m = JObj m' \<and> responsesPartToChat m' = p"
proof (erule partOk_cases)
  fix s assume "p = JObj [(''type'', JStr ''text''), (''text'', JStr s)]"
  then show ?thesis
    by (simp add: chatPartToResponses_def responsesPartToChat_def copyPromptCacheBreakpoint_def entry_Cons Let_def)
next
  fix v assume "p = JObj [(''type'', JStr ''image_url''), (''image_url'', v)]" "imageOk v"
  then show ?thesis using imageOk_cases [of v]
    by (auto simp: chatPartToResponses_def responsesPartToChat_def copyPromptCacheBreakpoint_def chatImage_def entry_Cons Let_def)
qed

lemma parts_roundtrip: "list_all partOk ps \<Longrightarrow> map responsesPartToChat (objectsOf (JArr (map chatPartToResponses (objectsOf (JArr ps))))) = ps"
proof (induction ps)
  case (Cons p ps)
  then obtain m m' where "p = JObj m" "chatPartToResponses m = JObj m'" "responsesPartToChat m' = p"
    using partOk_roundtrip [of p] by auto
  with Cons show ?case by simp
qed simp

lemma content_roundtrip: "contentOk c \<Longrightarrow> responsesContentToChat (chatContentToResponses c) = c"
  by (cases c rule: contentOk.cases) (auto simp: parts_roundtrip)

lemma callOk_turn:
  assumes "callOk c"
  shows "\<exists>item. chatToolCallToResponses n c = [JObj item] \<and> turnsOfItem item = [turnOfCall c]"
proof -
  let ?id = "stringValue (entry c ''id'')"
  obtain f where f: "objectValue (entry c ''function'') = Some f" "stringValue (entry f ''arguments'') \<noteq> []"
    using assms by (auto simp: callOk_def split: option.splits)
  define item where "item = [(''type'', JStr ''function_call''), (''id'', JStr ?id), (''call_id'', JStr ?id),
      (''name'', JStr (stringValue (entry f ''name''))), (''arguments'', JStr (stringValue (entry f ''arguments''))), (''status'', JStr ''completed'')]"
  have "chatToolCallToResponses n c = [JObj item]" using assms f by (simp add: callOk_def chatToolCallToResponses_def item_def Let_def)
  moreover have "turnsOfItem item = [turnOfCall c]"
    using assms f by (simp add: callOk_def item_def turnsOfItem_def turnOfCall_def entry_Cons stringOr_def)
  ultimately show ?thesis by blast
qed

lemma toolCalls_turns:
  "list_all callOk cs \<Longrightarrow>
     concat (map turnsOfItem (objectsOf (JArr (toolCallsFrom made cs)))) = concat (map turnsOfItem (objectsOf (JArr made))) @ map turnOfCall cs \<and>
     (cs \<noteq> [] \<longrightarrow> toolCallsFrom made cs \<noteq> [])"
proof (induction cs arbitrary: made)
  case (Cons c cs)
  then obtain item where "chatToolCallToResponses (length made) c = [JObj item]" "turnsOfItem item = [turnOfCall c]"
    using callOk_turn [of c "length made"] by auto
  moreover have "toolCallsFrom made cs \<noteq> []" if "made \<noteq> []" for made
    using that by (induction cs arbitrary: made) simp_all
  ultimately show ?case using Cons by (simp add: objectsOf_append)
qed simp

lemma normalize_text [simp]: "isText c \<Longrightarrow> normalizeNestedChatContent c = c"
  by (cases c) simp_all

definition inputTurns :: "json list \<Rightarrow> turn list" where
  "inputTurns input = concat (map turnsOfItem (objectsOf (JArr input)))"

lemma inputTurns_simps [simp]:
  "inputTurns [] = []" "inputTurns (xs @ ys) = inputTurns xs @ inputTurns ys" "inputTurns (JObj m # xs) = turnsOfItem m @ inputTurns xs"
  by (simp_all add: inputTurns_def objectsOf_append)

lemma message_turns:
  assumes "chatMessageOk m" "chatMessageToInput m (ins, input) = (ins', input')"
  shows "inputTurns input' = inputTurns input @ turnsOfChat m"
proof -
  let ?role = "stringValue (entry m ''role'')" and ?calls = "objectsOf (entry m ''tool_calls'')"
  have "?role \<in> {''system'', ''developer'', ''tool'', ''assistant'', ''user''}"
    by (rule ccontr) (use assms(1) in \<open>simp add: chatMessageOk_def Let_def\<close>)
  then consider (system) "?role \<in> {''system'', ''developer''}" | (tool) "?role = ''tool''" | (assistant) "?role = ''assistant''" | (user) "?role = ''user''"
    by blast
  then show ?thesis
  proof cases
    case system
    then show ?thesis using assms by (auto simp: chatMessageOk_def chatMessageToInput_def turnsOfChat_def Let_def)
  next
    case tool
    then obtain i where "map_of m ''tool_call_id'' = Some i" "trimSpace (stringValue i) \<noteq> []"
      using assms(1) by (auto simp: chatMessageOk_def entry_def split: option.splits)
    with tool show ?thesis using assms
      by (auto simp: chatMessageOk_def chatMessageToInput_def turnsOfChat_def turnsOfMessage_def turnsOfItem_def asParts_def entry_Cons entry_def [of m] Let_def)
  next
    case user
    with assms have "contentOk (entry m ''content'')" by (simp add: chatMessageOk_def)
    moreover have "entry m ''content'' \<noteq> JNull" using calculation by auto
    ultimately show ?thesis using user assms content_roundtrip [of "entry m ''content''"]
      by (auto simp: chatMessageOk_def chatMessageToInput_def turnsOfChat_def turnsOfMessage_def turnsOfItem_def asParts_def entry_Cons stringOr_def Let_def
        split: json.splits)
  next
    case assistant
    have calls: "inputTurns (chatToolCallsToResponses (entry m ''tool_calls'')) = map turnOfCall ?calls"
      "?calls \<noteq> [] \<longrightarrow> chatToolCallsToResponses (entry m ''tool_calls'') \<noteq> []"
      using assistant assms(1) toolCalls_turns [of ?calls "[]"]
      by (simp_all add: chatMessageOk_def chatToolCallsToResponses_def inputTurns_def Let_def)
    have asP: "map asParts (map turnOfCall cs) = map turnOfCall cs" for cs by (simp add: asParts_def turnOfCall_def Let_def)
    show ?thesis
    proof (cases "entry m ''content'' = JNull")
      case True
      then show ?thesis using assistant assms calls asP [of ?calls]
        by (auto simp: chatMessageOk_def chatMessageToInput_def turnsOfChat_def turnsOfMessage_def Let_def)
    next
      case False
      then obtain s where "entry m ''content'' = JStr s" using assistant assms(1) by (auto simp: chatMessageOk_def elim: isText.elims)
      then show ?thesis using assistant assms calls asP [of ?calls]
        by (auto simp: chatMessageOk_def chatMessageToInput_def turnsOfChat_def turnsOfMessage_def turnsOfItem_def asParts_def textPart_def
          responsesPartToChat_def copyPromptCacheBreakpoint_def entry_Cons stringOr_def Let_def split: if_splits)
    qed
  qed
qed

lemma messages_turns:
  "list_all chatMessageOk ms \<Longrightarrow>
     inputTurns (snd (foldl (\<lambda>acc m. chatMessageToInput m acc) acc ms)) = inputTurns (snd acc) @ concat (map turnsOfChat ms)"
proof (induction ms arbitrary: acc)
  case (Cons m ms)
  obtain ins input ins' input' where acc: "acc = (ins, input)" "chatMessageToInput m (ins, input) = (ins', input')"
    by (cases acc, cases "chatMessageToInput m acc") auto
  show ?case using Cons message_turns [OF _ acc(2)] acc by simp
qed simp

text \<open>
  a Chat conversation that is converted to the form of Responses and back is the same conversation: texts and
  images, roles, tool calls with their ids and arguments, and answers, in their order.
\<close>

theorem conversation_roundtrip:
  assumes "list_all chatMessageOk ms"
  shows "turnsOfMessages (responsesInputToChat (JArr (snd (chatMessagesToInput ms)))) = concat (map turnsOfChat ms)"
proof -
  have "inputTurns (snd (chatMessagesToInput ms)) = concat (map turnsOfChat ms)"
    using messages_turns [OF assms, of "([], [])"] by (simp add: chatMessagesToInput_def)
  then show ?thesis by (simp only: input_turns inputTurns_def)
qed

definition exampleConversation :: "goMap list" where
  "exampleConversation =
     [[(''role'', JStr ''system''), (''content'', JStr ''short'')],
      [(''role'', JStr ''user''), (''content'', JArr [textPart ''look'',
          JObj [(''type'', JStr ''image_url''), (''image_url'', JObj [(''url'', JStr ''u''), (''detail'', JStr ''low'')])]])],
      [(''role'', JStr ''assistant''), (''content'', JNull),
       (''tool_calls'', JArr [JObj [(''id'', JStr ''c1''), (''type'', JStr ''function''),
          (''function'', JObj [(''name'', JStr ''f''), (''arguments'', JStr ''{}'')])]])],
      [(''role'', JStr ''tool''), (''tool_call_id'', JStr ''c1''), (''content'', JStr ''ok'')],
      [(''role'', JStr ''assistant''), (''content'', JStr ''done'')]]"

theorem conversation_roundtrip_witness:
  "turnsOfMessages (responsesInputToChat (JArr (snd (chatMessagesToInput exampleConversation)))) = concat (map turnsOfChat exampleConversation) \<and>
   length (concat (map turnsOfChat exampleConversation)) = 4"
proof -
  have "list_all chatMessageOk exampleConversation"
    by (simp add: exampleConversation_def chatMessageOk_def callOk_def textPart_def protocolText_def entry_Cons plain_eval)
  from conversation_roundtrip [OF this] show ?thesis
    by (simp add: exampleConversation_def turnsOfChat_def turnsOfMessage_def entry_Cons)
qed

end
