(* ===== verification/Protocol_Anthropic.thy ===== *)
theory Protocol_Anthropic
  imports Protocol_Request
begin

text \<open>
  The conversion of requests to the Messages protocol of Anthropic (\<^verbatim>\<open>anthropic_request.go\<close>).  The text of tool
  arguments is decoded again; \<open>parse\<close> and \<open>num\<close> are the steps between text and value.
\<close>

definition anthropicDefaultMaxTokens :: nat where "anthropicDefaultMaxTokens = 4096"

fun anthropicStopSequences :: "json \<Rightarrow> json list" where
  "anthropicStopSequences (JStr s) = (if s = [] then [] else [JStr s])"
| "anthropicStopSequences (JArr xs) = map JStr (filter (\<lambda>s. s \<noteq> []) (map stringValue xs))"
| "anthropicStopSequences _ = []"

definition textBlock :: "string \<Rightarrow> json" where
  "textBlock s = JObj [(''type'', JStr ''text''), (''text'', JStr s)]"

definition trimSuffix :: "string \<Rightarrow> string \<Rightarrow> string" where
  "trimSuffix s suf = (if hasPrefix (rev s) (rev suf) then take (length s - length suf) s else s)"

definition anthropicImageBlock :: "json \<Rightarrow> json list" where
  "anthropicImageBlock v =
     (let url = (case objectValue v of Some img \<Rightarrow> stringValue (entry img ''url'') | None \<Rightarrow> stringValue v) in
      if url = [] then []
      else if hasPrefix url ''data:'' then
        (let rest = drop 5 url; before = takeWhile (\<lambda>c. c \<noteq> CHR '','') rest in
         if CHR '','' \<in> set rest \<and> before \<noteq> [] then
           [JObj [(''type'', JStr ''image''), (''source'', JObj [(''type'', JStr ''base64''), (''media_type'', JStr (trimSuffix before '';base64'')),
              (''data'', JStr (drop (length before + 1) rest))])]]
         else [])
      else [JObj [(''type'', JStr ''image''), (''source'', JObj [(''type'', JStr ''url''), (''url'', JStr url)])]])"

definition anthropicUserPart :: "goMap \<Rightarrow> json list" where
  "anthropicUserPart item =
     (let kind = stringValue (entry item ''type'') in
      if kind = ''text'' then (let s = stringValue (entry item ''text'') in if s = [] then [] else [textBlock s])
      else if kind = ''image_url'' then anthropicImageBlock (entry item ''image_url'')
      else [])"

fun anthropicUserBlocks :: "json \<Rightarrow> json list" where
  "anthropicUserBlocks (JStr s) = (if s = [] then [] else [textBlock s])"
| "anthropicUserBlocks v = concat (map anthropicUserPart (objectsOf v))"

text \<open>
  The input of a tool call: an object as decoded, null as null, and an empty object for a text that is blank, not a
  document or a value of another kind.
\<close>

definition toolInput :: "(string \<Rightarrow> json option) \<Rightarrow> (string \<Rightarrow> string) \<Rightarrow> string \<Rightarrow> json" where
  "toolInput parse num raw =
     (if trimSpace raw = [] then JObj []
      else case parse raw of
             Some (JObj fs) \<Rightarrow> unmarshalAny num (JObj fs)
           | Some JNull \<Rightarrow> JNull
           | _ \<Rightarrow> JObj [])"

definition toolUseBlock :: "(string \<Rightarrow> json option) \<Rightarrow> (string \<Rightarrow> string) \<Rightarrow> goMap \<Rightarrow> json list" where
  "toolUseBlock parse num item =
     (if stringValue (entry item ''type'') \<noteq> ''function'' then []
      else case objectValue (entry item ''function'') of
             None \<Rightarrow> []
           | Some function \<Rightarrow>
               [JObj [(''type'', JStr ''tool_use''), (''id'', JStr (stringValue (entry item ''id''))),
                  (''name'', JStr (stringValue (entry function ''name''))), (''input'', toolInput parse num (stringValue (entry function ''arguments'')))]])"

definition anthropicAssistantText :: "json \<Rightarrow> json list" where
  "anthropicAssistantText content =
     (case content of
        JStr s \<Rightarrow> if s = [] then [] else [textBlock s]
      | _ \<Rightarrow> map textBlock (filter (\<lambda>s. s \<noteq> []) (map (\<lambda>item. stringValue (entry item ''text'')) (objectsOf content))))"

definition anthropicAssistantBlocks :: "(string \<Rightarrow> json option) \<Rightarrow> (string \<Rightarrow> string) \<Rightarrow> goMap \<Rightarrow> json list" where
  "anthropicAssistantBlocks parse num message =
     anthropicAssistantText (entry message ''content'') @ concat (map (toolUseBlock parse num) (objectsOf (entry message ''tool_calls'')))"

definition anthropicToolResultContent :: "json \<Rightarrow> json" where
  "anthropicToolResultContent v =
     (case v of
        JStr s \<Rightarrow> JStr s
      | _ \<Rightarrow> let blocks = anthropicAssistantText v in if blocks = [] then JStr [] else JArr blocks)"

subsection \<open>Messages\<close>

definition anthropicMessage :: "string \<Rightarrow> json list \<Rightarrow> goMap" where
  "anthropicMessage role blocks = [(''role'', JStr role), (''content'', JArr blocks)]"

text \<open>One message of Chat: the system text and the messages so far are returned extended.\<close>

definition toAnthropicMessage :: "(string \<Rightarrow> json option) \<Rightarrow> (string \<Rightarrow> string) \<Rightarrow> goMap \<Rightarrow> string \<times> goMap list \<Rightarrow> string \<times> goMap list" where
  "toAnthropicMessage parse num message acc =
     (let (sys, messages) = acc; role = stringValue (entry message ''role''); content = entry message ''content'' in
      if role = ''system'' \<or> role = ''developer'' then
        (let t = protocolText content in
         (if t = [] then sys else if sys = [] then t else sys @ [CHR 0x0A, CHR 0x0A] @ t, messages))
      else if role = ''tool'' then
        (sys, messages @ [anthropicMessage ''user'' [JObj [(''type'', JStr ''tool_result''),
           (''tool_use_id'', JStr (stringValue (entry message ''tool_call_id''))), (''content'', anthropicToolResultContent content)]]])
      else if role = ''assistant'' then
        (let blocks = anthropicAssistantBlocks parse num message in
         (sys, if blocks = [] then messages else messages @ [anthropicMessage ''assistant'' blocks]))
      else
        (let blocks = anthropicUserBlocks content in
         (sys, if blocks = [] then messages else messages @ [anthropicMessage (if role = [] then ''user'' else role) blocks])))"

definition mergeInto :: "goMap list \<Rightarrow> goMap \<Rightarrow> goMap list" where
  "mergeInto result message =
     (if result \<noteq> [] \<and> stringValue (entry (last result) ''role'') = stringValue (entry message ''role'')
      then butlast result @ [AList.update ''content'' (JArr (arrayValue (entry (last result) ''content'') @ arrayValue (entry message ''content''))) (last result)]
      else result @ [message])"

definition mergeAdjacentAnthropicMessages :: "goMap list \<Rightarrow> goMap list" where
  "mergeAdjacentAnthropicMessages = foldl mergeInto []"

definition toAnthropicMessages :: "(string \<Rightarrow> json option) \<Rightarrow> (string \<Rightarrow> string) \<Rightarrow> goMap list \<Rightarrow> string \<times> goMap list" where
  "toAnthropicMessages parse num messages =
     (let (sys, ms) = foldl (\<lambda>acc m. toAnthropicMessage parse num m acc) ([], []) messages in (sys, mergeAdjacentAnthropicMessages ms))"

definition anthropicTool :: "goMap \<Rightarrow> json list" where
  "anthropicTool item =
     (case objectValue (entry item ''function'') of
        None \<Rightarrow> []
      | Some function \<Rightarrow>
          let schema = (case objectValue (entry function ''parameters'') of Some m \<Rightarrow> JObj m | None \<Rightarrow> JObj [(''type'', JStr ''object''), (''properties'', JObj [])]);
              description = stringValue (entry function ''description'')
          in [JObj ([(''name'', JStr (stringValue (entry function ''name''))), (''input_schema'', schema)]
                @ (if description = [] then [] else [(''description'', JStr description)]))])"

definition anthropicTools :: "json \<Rightarrow> json list" where
  "anthropicTools v = concat (map anthropicTool (objectsOf v))"

definition anthropicToolChoice :: "json \<Rightarrow> json option" where
  "anthropicToolChoice v =
     (case objectValue v of
        None \<Rightarrow> None
      | Some choice \<Rightarrow>
          (case objectValue (entry choice ''function'') of
             None \<Rightarrow> None
           | Some function \<Rightarrow>
               let name = stringValue (entry function ''name'') in
               if name = [] then None else Some (JObj [(''type'', JStr ''tool''), (''name'', JStr name)])))"

definition anthropicRequestObject :: "(string \<Rightarrow> json option) \<Rightarrow> (string \<Rightarrow> string) \<Rightarrow> goMap \<Rightarrow> goMap" where
  "anthropicRequestObject parse num source =
     (let (sys, messages) = toAnthropicMessages parse num (objectsOf (entry source ''messages''));
          stops = anthropicStopSequences (entry source ''stop''); tools = anthropicTools (entry source ''tools'');
          forbidden = (stringValue (entry source ''tool_choice'') = ''none'')
      in copyProtocolFields source [''model'', ''stream'', ''temperature'', ''top_p'']
         @ [(''max_tokens'', case map_of source ''max_tokens'' of Some v \<Rightarrow> v
              | None \<Rightarrow> (case map_of source ''max_completion_tokens'' of Some v \<Rightarrow> v | None \<Rightarrow> JNum (showNat anthropicDefaultMaxTokens)))]
         @ (if stops = [] then [] else [(''stop_sequences'', JArr stops)])
         @ (if sys = [] then [] else [(''system'', JStr sys)])
         @ (if messages = [] then [] else [(''messages'', JArr (map JObj messages))])
         @ (if forbidden \<or> tools = [] then [] else [(''tools'', JArr tools)])
         @ (if forbidden then [] else optionalField ''tool_choice'' (anthropicToolChoice (entry source ''tool_choice''))))"

subsection \<open>Bytes in, bytes out\<close>

text \<open>\<^verbatim>\<open>Plan.ConvertRequest\<close>: None is an error.\<close>

definition ConvertRequest :: "(string \<Rightarrow> json option) \<Rightarrow> (string \<Rightarrow> string) \<Rightarrow> (json \<Rightarrow> string) \<Rightarrow> plan \<Rightarrow> string \<Rightarrow> string option" where
  "ConvertRequest parse num encode p body =
     (case planConversion p of
        NoConversion \<Rightarrow> Some body
      | ChatToResponses \<Rightarrow> map_option (\<lambda>m. encode (JObj (chatRequestObject m))) (decodeProtocolObject parse num body)
      | ResponsesToChat \<Rightarrow> map_option (\<lambda>m. encode (JObj (responsesRequestObject m))) (decodeProtocolObject parse num body)
      | ChatToAnthropic \<Rightarrow> map_option (\<lambda>m. encode (JObj (anthropicRequestObject parse num m))) (decodeProtocolObject parse num body)
      | ResponsesToAnthropic \<Rightarrow>
          (case decodeProtocolObject parse num body of
             None \<Rightarrow> None
           | Some m \<Rightarrow> map_option (\<lambda>c. encode (JObj (anthropicRequestObject parse num c)))
               (decodeProtocolObject parse num (encode (JObj (responsesRequestObject m))))))"

subsection \<open>Roles alternate and no block is lost\<close>

abbreviation msgRole :: "goMap \<Rightarrow> string" where "msgRole m \<equiv> stringValue (entry m ''role'')"
abbreviation msgBlocks :: "goMap \<Rightarrow> json list" where "msgBlocks m \<equiv> arrayValue (entry m ''content'')"

text \<open>The roles of the blocks of a list of messages, each block with the role of its message.\<close>

definition roledBlocks :: "goMap list \<Rightarrow> (string \<times> json) list" where
  "roledBlocks ms = concat (map (\<lambda>m. map (Pair (msgRole m)) (msgBlocks m)) ms)"

fun alternating :: "string list \<Rightarrow> bool" where
  "alternating (r # s # rs) \<longleftrightarrow> r \<noteq> s \<and> alternating (s # rs)"
| "alternating _ \<longleftrightarrow> True"

lemma alternating_snoc: "alternating (rs @ [r]) \<longleftrightarrow> alternating rs \<and> (rs \<noteq> [] \<longrightarrow> last rs \<noteq> r)"
  by (induction rs rule: alternating.induct) auto

lemma mergeInto_roles: "map msgRole (mergeInto result m) =
    (if result \<noteq> [] \<and> msgRole (last result) = msgRole m then map msgRole result else map msgRole result @ [msgRole m])"
  by (cases result rule: rev_cases) (auto simp: mergeInto_def entry_update)

lemma mergeInto_blocks: "roledBlocks (mergeInto result m) = roledBlocks result @ roledBlocks [m]"
  by (cases result rule: rev_cases) (auto simp: mergeInto_def roledBlocks_def entry_update)

lemma merge_alternates: "alternating (map msgRole result) \<Longrightarrow> alternating (map msgRole (foldl mergeInto result ms))"
proof (induction ms arbitrary: result)
  case (Cons m ms)
  have "alternating (map msgRole (mergeInto result m))"
    using Cons.prems by (auto simp: mergeInto_roles alternating_snoc last_map)
  then show ?case using Cons.IH by simp
qed simp

lemma roledBlocks_Cons: "roledBlocks (m # ms) = map (Pair (msgRole m)) (msgBlocks m) @ roledBlocks ms"
  by (simp add: roledBlocks_def)

lemma roledBlocks_Nil [simp]: "roledBlocks [] = []"
  by (simp add: roledBlocks_def)

lemma merge_blocks: "roledBlocks (foldl mergeInto result ms) = roledBlocks result @ roledBlocks ms"
  by (induction ms arbitrary: result) (simp_all add: mergeInto_blocks roledBlocks_Cons)

text \<open>What a Chat message gives: its blocks, each with its role.\<close>

definition blocksOfChat :: "(string \<Rightarrow> json option) \<Rightarrow> (string \<Rightarrow> string) \<Rightarrow> goMap \<Rightarrow> (string \<times> json) list" where
  "blocksOfChat parse num m =
     (let role = msgRole m; content = entry m ''content'' in
      if role = ''system'' \<or> role = ''developer'' then []
      else if role = ''tool'' then [(''user'', JObj [(''type'', JStr ''tool_result''), (''tool_use_id'', JStr (stringValue (entry m ''tool_call_id''))),
             (''content'', anthropicToolResultContent content)])]
      else if role = ''assistant'' then map (Pair ''assistant'') (anthropicAssistantBlocks parse num m)
      else map (Pair (if role = [] then ''user'' else role)) (anthropicUserBlocks content))"

lemma roledBlocks_snoc: "roledBlocks (ms @ [anthropicMessage r bs]) = roledBlocks ms @ map (Pair r) bs"
  by (simp add: roledBlocks_def anthropicMessage_def entry_Cons)

lemma toAnthropicMessage_blocks:
  "roledBlocks (snd (toAnthropicMessage parse num m acc)) = roledBlocks (snd acc) @ blocksOfChat parse num m"
  by (cases acc) (auto simp: toAnthropicMessage_def blocksOfChat_def roledBlocks_snoc Let_def)

lemma toAnthropic_blocks:
  "roledBlocks (snd (foldl (\<lambda>acc m. toAnthropicMessage parse num m acc) acc ms)) =
     roledBlocks (snd acc) @ concat (map (blocksOfChat parse num) ms)"
  by (induction ms arbitrary: acc) (simp_all add: toAnthropicMessage_blocks)

text \<open>
  a request for the Messages protocol never has two messages of one role in a row, and it has every block of
  the Chat messages once, with its role and in its order: merging messages loses and swaps nothing.
\<close>

theorem anthropic_roles_alternate:
  "alternating (map msgRole (snd (toAnthropicMessages parse num ms))) \<and>
   roledBlocks (snd (toAnthropicMessages parse num ms)) = concat (map (blocksOfChat parse num) ms)"
proof -
  obtain sys msgs where run: "foldl (\<lambda>acc m. toAnthropicMessage parse num m acc) ([], []) ms = (sys, msgs)"
    by (cases "foldl (\<lambda>acc m. toAnthropicMessage parse num m acc) ([], []) ms")
  have "roledBlocks msgs = concat (map (blocksOfChat parse num) ms)"
    using toAnthropic_blocks [of parse num "([], [])" ms] by (simp add: run roledBlocks_def)
  then show ?thesis
    using merge_alternates [of "[]" msgs] merge_blocks [of "[]" msgs]
    by (simp add: toAnthropicMessages_def run mergeAdjacentAnthropicMessages_def roledBlocks_def)
qed

end
