(* ===== verification/Protocol_Response.thy ===== *)
theory Protocol_Response
  imports Protocol_Anthropic Complex_Main
begin

text \<open>
  The conversion of complete answers (\<^verbatim>\<open>response.go\<close>, \<^verbatim>\<open>anthropic_response.go\<close>).  \<open>value\<close> gives the number that a
  number text stands for, \<open>now\<close> the time in seconds; the counts of tokens are far below the bounds of \<^verbatim>\<open>int\<close> and are
  kept as \<^typ>\<open>int\<close>.
\<close>

definition truncateRat :: "rat \<Rightarrow> int" where
  "truncateRat r = (if 0 \<le> r then \<lfloor>r\<rfloor> else \<lceil>r\<rceil>)"

definition protocolCreated :: "(string \<Rightarrow> rat) \<Rightarrow> int \<Rightarrow> goMap \<Rightarrow> string \<Rightarrow> int" where
  "protocolCreated val now payload field =
     (case entry payload field of JNum t \<Rightarrow> if 0 < val t then truncateRat (val t) else now | _ \<Rightarrow> now)"

definition jInt :: "int \<Rightarrow> json" where "jInt i = JNum (showInt i)"

subsection \<open>Usage\<close>

definition responseUsageToChat :: "goMap \<Rightarrow> goMap" where
  "responseUsageToChat usage =
     copyProtocolFields usage [''total_tokens'']
     @ optionalField ''prompt_tokens'' (map_of usage ''input_tokens'')
     @ optionalField ''completion_tokens'' (map_of usage ''output_tokens'')
     @ optionalField ''prompt_tokens_details'' (map_option JObj (objectValue (entry usage ''input_tokens_details'')))"

definition chatUsageToResponse :: "goMap \<Rightarrow> goMap" where
  "chatUsageToResponse usage =
     copyProtocolFields usage [''total_tokens'']
     @ optionalField ''input_tokens'' (map_of usage ''prompt_tokens'')
     @ optionalField ''output_tokens'' (map_of usage ''completion_tokens'')
     @ optionalField ''input_tokens_details'' (map_option JObj (objectValue (entry usage ''prompt_tokens_details'')))"

definition anthropicInt :: "(string \<Rightarrow> rat) \<Rightarrow> json \<Rightarrow> int" where
  "anthropicInt val v = (case v of JNum t \<Rightarrow> truncateRat (val t) | _ \<Rightarrow> 0)"

definition anthropicUsageToChat :: "(string \<Rightarrow> rat) \<Rightarrow> goMap \<Rightarrow> goMap" where
  "anthropicUsageToChat val usage =
     (let prompt = anthropicInt val (entry usage ''input_tokens''); completion = anthropicInt val (entry usage ''output_tokens'') in
      [(''prompt_tokens'', jInt prompt), (''completion_tokens'', jInt completion), (''total_tokens'', jInt (prompt + completion))]
      @ optionalField ''prompt_tokens_details'' (map_option (\<lambda>c. JObj [(''cached_tokens'', c)]) (map_of usage ''cache_read_input_tokens'')))"

subsection \<open>Responses to Chat\<close>

definition outputText :: "goMap \<Rightarrow> string" where
  "outputText item =
     (if stringValue (entry item ''type'') \<noteq> ''message'' then []
      else concat (map (\<lambda>part. if stringValue (entry part ''type'') \<in> {''output_text'', ''input_text'', ''text''} then stringValue (entry part ''text'') else [])
        (objectsOf (entry item ''content''))))"

definition outputRefusal :: "goMap \<Rightarrow> string" where
  "outputRefusal item =
     (if stringValue (entry item ''type'') \<noteq> ''message'' then []
      else concat (map (\<lambda>part. if stringValue (entry part ''type'') = ''refusal'' then stringValue (entry part ''refusal'') else [])
        (objectsOf (entry item ''content''))))"

definition chatCallFields :: "string \<Rightarrow> string \<Rightarrow> string \<Rightarrow> goMap" where
  "chatCallFields callID name arguments =
     [(''id'', JStr callID), (''type'', JStr ''function''), (''function'', JObj [(''name'', JStr name), (''arguments'', JStr arguments)])]"

definition chatToolCall :: "string \<Rightarrow> string \<Rightarrow> string \<Rightarrow> json" where
  "chatToolCall callID name arguments = JObj (chatCallFields callID name arguments)"

definition outputCall :: "goMap \<Rightarrow> json list" where
  "outputCall item =
     (if stringValue (entry item ''type'') \<noteq> ''function_call'' then []
      else [chatToolCall (stringOr (entry item ''call_id'') (stringValue (entry item ''id''))) (stringValue (entry item ''name''))
              (stringValue (entry item ''arguments''))])"

definition chatAnswerMessage :: "string \<Rightarrow> string \<Rightarrow> string \<Rightarrow> json list \<Rightarrow> goMap" where
  "chatAnswerMessage content refusal reasoning toolCalls =
     [(''role'', JStr ''assistant''), (''content'', if content \<noteq> [] \<or> toolCalls = [] then JStr content else JNull)]
     @ (if refusal = [] then [] else [(''refusal'', JStr refusal)])
     @ (if reasoning = [] then [] else [(''reasoning_content'', JStr reasoning)])
     @ (if toolCalls = [] then [] else [(''tool_calls'', JArr toolCalls)])"

definition chatCompletion :: "string \<Rightarrow> int \<Rightarrow> string \<Rightarrow> goMap \<Rightarrow> string \<Rightarrow> json option \<Rightarrow> goMap" where
  "chatCompletion ident created model message finishReason usage =
     [(''id'', JStr ident), (''object'', JStr ''chat.completion''), (''created'', jInt created), (''model'', JStr model),
      (''choices'', JArr [JObj [(''index'', jInt 0), (''message'', JObj message), (''finish_reason'', JStr finishReason)]])]
     @ optionalField ''usage'' usage"

definition responsesFinishReason :: "json list \<Rightarrow> string \<Rightarrow> string" where
  "responsesFinishReason toolCalls status =
     (if toolCalls \<noteq> [] then ''tool_calls'' else if status = ''incomplete'' then ''length'' else ''stop'')"

definition responsesResponseToChat :: "(string \<Rightarrow> rat) \<Rightarrow> int \<Rightarrow> goMap \<Rightarrow> goMap" where
  "responsesResponseToChat val now source =
     (let items = objectsOf (entry source ''output''); toolCalls = concat (map outputCall items) in
      chatCompletion (stringValue (entry source ''id'')) (protocolCreated val now source ''created_at'') (stringValue (entry source ''model''))
        (chatAnswerMessage (concat (map outputText items)) (concat (map outputRefusal items)) [] toolCalls)
        (responsesFinishReason toolCalls (stringValue (entry source ''status'')))
        (map_option (\<lambda>u. JObj (responseUsageToChat u)) (objectValue (entry source ''usage''))))"

subsection \<open>Chat to Responses\<close>

definition chatPartToOutput :: "goMap \<Rightarrow> json" where
  "chatPartToOutput item =
     (if stringValue (entry item ''type'') = ''text'' then JObj [(''type'', JStr ''output_text''), (''text'', JStr (stringValue (entry item ''text'')))]
      else JObj item)"

fun chatContentToResponseOutput :: "json \<Rightarrow> json list" where
  "chatContentToResponseOutput (JStr s) = [JObj [(''type'', JStr ''output_text''), (''text'', JStr s)]]"
| "chatContentToResponseOutput v = map chatPartToOutput (objectsOf v)"

definition chatToolItem :: "goMap \<Rightarrow> goMap" where
  "chatToolItem tool =
     (let function = (case objectValue (entry tool ''function'') of None \<Rightarrow> [] | Some f \<Rightarrow> f) in
      [(''type'', JStr ''function_call''), (''call_id'', JStr (stringValue (entry tool ''id''))), (''name'', JStr (stringValue (entry function ''name''))),
        (''arguments'', JStr (stringValue (entry function ''arguments''))), (''status'', JStr ''completed'')])"

definition chatMessageToOutput :: "goMap \<Rightarrow> json list" where
  "chatMessageToOutput message =
     (let refusal = stringValue (entry message ''refusal'');
          content = chatContentToResponseOutput (entry message ''content'') @ (if refusal = [] then [] else [JObj [(''type'', JStr ''refusal''), (''refusal'', JStr refusal)]])
      in JObj [(''type'', JStr ''message''), (''role'', JStr (stringOr (entry message ''role'') ''assistant'')), (''status'', JStr ''completed''), (''content'', JArr content)]
         # map (\<lambda>tool. JObj (chatToolItem tool)) (objectsOf (entry message ''tool_calls'')))"

definition chatOutput :: "goMap \<Rightarrow> json list" where
  "chatOutput source =
     concat (map (\<lambda>choice. case objectValue (entry choice ''message'') of None \<Rightarrow> [] | Some message \<Rightarrow> chatMessageToOutput message)
       (objectsOf (entry source ''choices'')))"

definition emptyCompletionError :: "string \<Rightarrow> goMap" where
  "emptyCompletionError message =
     [(''error'', JObj [(''message'', JStr message), (''type'', JStr ''upstream_error''), (''code'', JStr ''empty_completion'')])]"

definition chatResponseToResponses :: "(string \<Rightarrow> rat) \<Rightarrow> int \<Rightarrow> string \<Rightarrow> goMap \<Rightarrow> goMap" where
  "chatResponseToResponses val now emptyMessage source =
     (let output = chatOutput source in
      if output = [] then emptyCompletionError emptyMessage
      else [(''id'', JStr (stringOr (entry source ''id'') ''resp_aiferry'')), (''object'', JStr ''response''),
            (''created_at'', jInt (protocolCreated val now source ''created'')), (''status'', JStr ''completed''),
            (''model'', JStr (stringValue (entry source ''model''))), (''output'', JArr output)]
           @ optionalField ''usage'' (map_option (\<lambda>u. JObj (chatUsageToResponse u)) (objectValue (entry source ''usage''))))"

subsection \<open>Anthropic to Chat\<close>

definition anthropicFinishReason :: "string \<Rightarrow> bool \<Rightarrow> string" where
  "anthropicFinishReason stopReason hasToolCall =
     (if hasToolCall then ''tool_calls''
      else if stopReason = ''max_tokens'' then ''length''
      else if stopReason = ''refusal'' then ''content_filter''
      else ''stop'')"

definition blockField :: "string \<Rightarrow> string \<Rightarrow> goMap list \<Rightarrow> string" where
  "blockField kind field items = concat (map (\<lambda>item. if stringValue (entry item ''type'') = kind then stringValue (entry item field) else []) items)"

definition anthropicResponseToChat :: "(string \<Rightarrow> rat) \<Rightarrow> (json \<Rightarrow> string) \<Rightarrow> int \<Rightarrow> goMap \<Rightarrow> goMap" where
  "anthropicResponseToChat val encode now source =
     (let items = objectsOf (entry source ''content'');
          toolCalls = concat (map (\<lambda>item. if stringValue (entry item ''type'') = ''tool_use''
            then [chatToolCall (stringValue (entry item ''id'')) (stringValue (entry item ''name'')) (encode (entry item ''input''))] else []) items)
      in chatCompletion (stringValue (entry source ''id'')) now (stringValue (entry source ''model''))
           (chatAnswerMessage (blockField ''text'' ''text'' items) [] (blockField ''thinking'' ''thinking'' items) toolCalls)
           (anthropicFinishReason (stringValue (entry source ''stop_reason'')) (toolCalls \<noteq> []))
           (map_option (\<lambda>u. JObj (anthropicUsageToChat val u)) (objectValue (entry source ''usage''))))"

text \<open>\<^verbatim>\<open>Plan.ConvertResponse\<close>.  What is not a document, has an error, or is not an object, is passed on as it is.\<close>

definition ConvertResponse :: "(string \<Rightarrow> json option) \<Rightarrow> (string \<Rightarrow> string) \<Rightarrow> (json \<Rightarrow> string) \<Rightarrow> (string \<Rightarrow> rat) \<Rightarrow> int \<Rightarrow> string \<Rightarrow> plan \<Rightarrow> string \<Rightarrow> string" where
  "ConvertResponse parse num encode val now emptyMessage p body =
     (let through = (\<lambda>f text. case decodeProtocolObject parse num text of None \<Rightarrow> text | Some m \<Rightarrow> encode (JObj (f m))) in
      if \<not> Converts p \<or> parse body = None \<or> gjSub (parse body) [''error''] \<noteq> None then body
      else case planConversion p of
             NoConversion \<Rightarrow> body
           | ChatToResponses \<Rightarrow> through (responsesResponseToChat val now) body
           | ResponsesToChat \<Rightarrow> through (chatResponseToResponses val now emptyMessage) body
           | ChatToAnthropic \<Rightarrow> through (anthropicResponseToChat val encode now) body
           | ResponsesToAnthropic \<Rightarrow> through (chatResponseToResponses val now emptyMessage) (through (anthropicResponseToChat val encode now) body))"

subsection \<open>The answer a client reads\<close>

text \<open>Text, refusal and tool calls of an answer, in either form.\<close>

record answer =
  anText :: string
  anRefusal :: string
  anCalls :: "(string \<times> string \<times> string) list"

definition readCall :: "goMap \<Rightarrow> string \<times> string \<times> string" where
  "readCall c = (case turnOfCall c of Called i n a \<Rightarrow> (i, n, a))"

definition answerOfMessage :: "goMap \<Rightarrow> answer" where
  "answerOfMessage m =
     \<lparr>anText = stringValue (entry m ''content''), anRefusal = stringValue (entry m ''refusal''),
      anCalls = map readCall (objectsOf (entry m ''tool_calls''))\<rparr>"

definition outputCallOf :: "goMap \<Rightarrow> (string \<times> string \<times> string) list" where
  "outputCallOf item =
     (if stringValue (entry item ''type'') \<noteq> ''function_call'' then []
      else [(stringOr (entry item ''call_id'') (stringValue (entry item ''id'')), stringValue (entry item ''name''), stringValue (entry item ''arguments''))])"

definition answerOfOutput :: "goMap list \<Rightarrow> answer" where
  "answerOfOutput items =
     \<lparr>anText = concat (map outputText items), anRefusal = concat (map outputRefusal items), anCalls = concat (map outputCallOf items)\<rparr>"

definition firstMessage :: "goMap \<Rightarrow> goMap" where
  "firstMessage completion =
     (case objectsOf (entry completion ''choices'') of
        [] \<Rightarrow> []
      | choice # _ \<Rightarrow> (case objectValue (entry choice ''message'') of None \<Rightarrow> [] | Some m \<Rightarrow> m))"

lemma entry_append: "entry (xs @ ys) k = (if map_of xs k = None then entry ys k else entry xs k)"
  by (simp add: entry_def map_add_def split: option.splits)

lemma firstMessage_completion [simp]: "firstMessage (chatCompletion ident created model message finish usage) = message"
  by (simp add: firstMessage_def chatCompletion_def entry_Cons)

lemma readCall_fields [simp]: "readCall (chatCallFields i n a) = (i, n, a)"
  by (simp add: chatCallFields_def readCall_def turnOfCall_def entry_Cons)

lemma chatToolItem_silent [simp]: "outputText (chatToolItem tool) = []" "outputRefusal (chatToolItem tool) = []"
  by (simp_all add: chatToolItem_def outputText_def outputRefusal_def entry_Cons Let_def)

lemma chatToolItem_call [simp]: "outputCallOf (chatToolItem (chatCallFields i n a)) = [(i, n, a)]"
  by (simp add: chatToolItem_def chatCallFields_def outputCallOf_def entry_Cons stringOr_def Let_def)

lemma objectsOf_calls [simp]: "objectsOf (JArr [chatToolCall i n a. (i, n, a) \<leftarrow> calls]) = [chatCallFields i n a. (i, n, a) \<leftarrow> calls]"
  by (induction calls) (auto simp: chatToolCall_def)

lemma answer_chatAnswerMessage:
  "answerOfMessage (chatAnswerMessage content refusal reasoning calls) =
     \<lparr>anText = content, anRefusal = refusal, anCalls = map readCall (objectsOf (JArr calls))\<rparr>"
  by (auto simp: answerOfMessage_def chatAnswerMessage_def entry_Cons entry_append)

lemma outputCalls_read: "map readCall (objectsOf (JArr (concat (map outputCall items)))) = concat (map outputCallOf items)"
proof (induction items)
  case (Cons item items)
  then show ?case
    by (auto simp: outputCall_def outputCallOf_def objectsOf_append chatToolCall_def)
qed simp

lemma responses_answer: "answerOfMessage (firstMessage (responsesResponseToChat val now source)) = answerOfOutput (objectsOf (entry source ''output''))"
  by (simp add: responsesResponseToChat_def answer_chatAnswerMessage answerOfOutput_def outputCalls_read Let_def)

text \<open>
  a complete answer says the same to the client.  The Chat message made of an answer of Responses has its text,
  its refusal and its tool calls with their ids and arguments, and so has the output made of a Chat message with a
  text, one refusal and tool calls.
\<close>

theorem answers_kept:
  "answerOfMessage (firstMessage (responsesResponseToChat val now source)) = answerOfOutput (objectsOf (entry source ''output'')) \<and>
   answerOfOutput (objectsOf (JArr (chatMessageToOutput (chatAnswerMessage content refusal reasoning [chatToolCall i n a. (i, n, a) \<leftarrow> calls])))) =
     answerOfMessage (chatAnswerMessage content refusal reasoning [chatToolCall i n a. (i, n, a) \<leftarrow> calls])"
proof -
  let ?calls = "[chatCallFields i n a. (i, n, a) \<leftarrow> calls]"
  let ?m = "chatAnswerMessage content refusal reasoning [chatToolCall i n a. (i, n, a) \<leftarrow> calls]"
  have calls: "concat (map outputCallOf (map chatToolItem ?calls)) = calls" "map readCall ?calls = calls"
    by (induction calls) auto
  have silent: "concat (map outputText (map chatToolItem cs)) = []" "concat (map outputRefusal (map chatToolItem cs)) = []" for cs
    by simp_all
  have fields: "entry ?m ''content'' = (if content \<noteq> [] \<or> calls = [] then JStr content else JNull)" "stringValue (entry ?m ''refusal'') = refusal"
    "objectsOf (entry ?m ''tool_calls'') = ?calls"
    by (simp_all add: chatAnswerMessage_def entry_Cons entry_append)
  obtain said where said: "chatMessageToOutput ?m = JObj said # map (\<lambda>tool. JObj (chatToolItem tool)) ?calls"
    "outputText said = content" "outputRefusal said = refusal" "outputCallOf said = []"
    using fields
    by (simp add: chatMessageToOutput_def outputText_def outputRefusal_def outputCallOf_def entry_Cons objectsOf_append Let_def)
  then have "answerOfOutput (objectsOf (JArr (chatMessageToOutput ?m))) = \<lparr>anText = content, anRefusal = refusal, anCalls = calls\<rparr>"
    using calls(1) silent [of ?calls] by (simp add: answerOfOutput_def comp_def)
  then show ?thesis using calls(2) by (simp add: responses_answer answer_chatAnswerMessage)
qed

end
