(* ===== verification/Protocol_Stream.thy ===== *)
theory Protocol_Stream
  imports Protocol_Response
begin

text \<open>
  The conversion of streams (\<^verbatim>\<open>stream.go\<close>, \<^verbatim>\<open>stream_toolargs.go\<close>, \<^verbatim>\<open>anthropic_stream.go\<close>).  The converter is the record
  \<open>streamConverter\<close>; every method returns the events it writes and the converter after it.  An event is kept as the
  document it carries; the events that do not depend on the upstream are \<open>SseDone\<close>, the line \<^verbatim>\<open>data: [DONE]\<close>, and a
  line that is passed on as it is.
\<close>

datatype sseOut = SseData json | SseEvent string json | SseDone | SseLine string

record responsesToolState =
  rtOutputIndex :: nat
  rtItemID :: string
  rtCallID :: string
  rtName :: string
  rtArgs :: string
  rtSentArgs :: nat
  rtAnnounced :: bool

record streamConverter =
  scConversion :: conversion
  scID :: string
  scModel :: string
  scCreated :: int
  scStarted :: bool
  scChatRoleSent :: bool
  scAnthropicFinished :: bool
  scContentStarted :: bool
  scReasoningStarted :: bool
  scReasoningAfterMessage :: bool
  scReasoningText :: string
  scCompleted :: bool
  scSawToolCall :: bool
  scStopReason :: string
  scOutputText :: string
  scUsage :: "goMap option"
  scToolIndexes :: "(string \<times> nat) list"
  scToolCount :: nat
  scToolNameSent :: "string list"
  scToolArgs :: "(nat \<times> string) list"
  scToolArgsSent :: "nat \<Rightarrow> nat"
  scResponsesTools :: "(int \<times> responsesToolState) list"
  scResponsesToolSeq :: nat

definition NewStreamConverter :: "conversion \<Rightarrow> int \<Rightarrow> streamConverter" where
  "NewStreamConverter conv now =
     \<lparr>scConversion = conv, scID = [], scModel = [], scCreated = now, scStarted = False, scChatRoleSent = False, scAnthropicFinished = False,
      scContentStarted = False, scReasoningStarted = False, scReasoningAfterMessage = False, scReasoningText = [], scCompleted = False,
      scSawToolCall = False, scStopReason = [], scOutputText = [], scUsage = None, scToolIndexes = [], scToolCount = 0, scToolNameSent = [],
      scToolArgs = [], scToolArgsSent = (\<lambda>_. 0), scResponsesTools = [], scResponsesToolSeq = 0\<rparr>"

text \<open>\<^verbatim>\<open>jsonObject\<close>: the text of a value decoded into a map; null gives the nil map.\<close>

definition jsonObject :: "(string \<Rightarrow> string) \<Rightarrow> json \<Rightarrow> goMap option" where
  "jsonObject num j = (case j of JNull \<Rightarrow> None | _ \<Rightarrow> (case objectValue (unmarshalAny num j) of None \<Rightarrow> Some [] | Some m \<Rightarrow> Some m))"

definition mapJson :: "goMap option \<Rightarrow> json" where
  "mapJson m = (case m of None \<Rightarrow> JNull | Some fs \<Rightarrow> JObj fs)"

subsection \<open>Chunks of Chat\<close>

definition chatID :: "streamConverter \<Rightarrow> string" where
  "chatID c = (if scID c \<noteq> [] then scID c else ''chatcmpl-aiferry'')"

definition newChatChunk :: "streamConverter \<Rightarrow> goMap \<Rightarrow> string option \<Rightarrow> goMap option \<Rightarrow> json" where
  "newChatChunk c delta finishReason usage =
     JObj ([(''id'', JStr (chatID c)), (''object'', JStr ''chat.completion.chunk''), (''created'', jInt (scCreated c)), (''model'', JStr (scModel c)),
        (''choices'', JArr [JObj [(''index'', jInt 0), (''delta'', JObj delta), (''finish_reason'', case finishReason of None \<Rightarrow> JNull | Some r \<Rightarrow> JStr r)]])]
       @ optionalField ''usage'' (map_option JObj usage))"

definition chatChunk :: "streamConverter \<Rightarrow> goMap \<Rightarrow> string option \<Rightarrow> goMap option \<Rightarrow> sseOut list" where
  "chatChunk c delta finishReason usage = [SseData (newChatChunk c delta finishReason usage)]"

definition ensureChatRole :: "streamConverter \<Rightarrow> sseOut list \<times> streamConverter" where
  "ensureChatRole c =
     (if scStarted c then ([], c)
      else let c1 = c\<lparr>scStarted := True\<rparr> in (chatChunk c1 [(''role'', JStr ''assistant'')] None None, c1))"

text \<open>The chunk of a delta, after the chunk with the role.\<close>

definition roleAndChunk :: "streamConverter \<Rightarrow> goMap \<Rightarrow> sseOut list \<times> streamConverter" where
  "roleAndChunk c delta = (let (out, c1) = ensureChatRole c in (out @ chatChunk c1 delta None None, c1))"

definition chatToolIndex :: "streamConverter \<Rightarrow> string list \<Rightarrow> nat \<times> streamConverter" where
  "chatToolIndex c keys =
     (case find (\<lambda>k. k \<noteq> [] \<and> map_of (scToolIndexes c) k \<noteq> None) keys of
        Some k \<Rightarrow> (the (map_of (scToolIndexes c) k), c)
      | None \<Rightarrow>
          let index = scToolCount c in
          (index, c\<lparr>scToolCount := index + 1,
             scToolIndexes := foldl (\<lambda>m k. if k = [] then m else AList.update k index m) (scToolIndexes c) keys\<rparr>))"

text \<open>The arguments of a call that are known so far, and how many of them were sent.\<close>

definition toolArgs :: "streamConverter \<Rightarrow> nat \<Rightarrow> string" where
  "toolArgs c index = (case map_of (scToolArgs c) index of None \<Rightarrow> [] | Some a \<Rightarrow> a)"

definition sendToolTail :: "streamConverter \<Rightarrow> nat \<Rightarrow> string \<Rightarrow> string \<times> streamConverter" where
  "sendToolTail c index args =
     (let c1 = c\<lparr>scToolArgs := AList.update index args (scToolArgs c)\<rparr>; sent = scToolArgsSent c index in
      if length args \<le> sent then ([], c1)
      else (drop sent args, c1\<lparr>scToolArgsSent := (scToolArgsSent c)(index := length args)\<rparr>))"

definition chatToolAppendArgs :: "streamConverter \<Rightarrow> nat \<Rightarrow> string \<Rightarrow> string \<times> streamConverter" where
  "chatToolAppendArgs c index fragment =
     (if fragment = [] then ([], c) else sendToolTail c index (toolArgs c index @ fragment))"

definition chatToolRecordArgs :: "streamConverter \<Rightarrow> nat \<Rightarrow> string \<Rightarrow> string \<times> streamConverter" where
  "chatToolRecordArgs c index canonical =
     (if canonical = [] then ([], c)
      else sendToolTail c index (if hasPrefix canonical (toolArgs c index) then canonical else toolArgs c index))"

definition toolDelta :: "nat \<Rightarrow> string \<Rightarrow> goMap \<Rightarrow> goMap" where
  "toolDelta index callID function =
     [(''tool_calls'', JArr [JObj ([(''index'', jInt (int index)), (''type'', JStr ''function''), (''function'', JObj function)]
        @ (if callID = [] then [] else [(''id'', JStr callID)]))])]"

definition chatToolArgsChunk :: "streamConverter \<Rightarrow> nat \<Rightarrow> string \<Rightarrow> string \<Rightarrow> sseOut list" where
  "chatToolArgsChunk c index callID args = chatChunk c (toolDelta index callID [(''arguments'', JStr args)]) None None"

definition flushOne :: "sseOut list \<times> streamConverter \<Rightarrow> nat \<Rightarrow> sseOut list \<times> streamConverter" where
  "flushOne acc index =
     (let (out, c) = acc; args = toolArgs c index; sent = scToolArgsSent c index in
      if length args \<le> sent then (out, c)
      else let c1 = c\<lparr>scToolArgsSent := (scToolArgsSent c)(index := length args), scSawToolCall := True\<rparr> in
        (out @ chatToolArgsChunk c1 index [] (drop sent args), c1))"

definition chatToolFlushPendingArgs :: "streamConverter \<Rightarrow> sseOut list \<times> streamConverter" where
  "chatToolFlushPendingArgs c = foldl flushOne ([], c) (sort (map fst (scToolArgs c)))"

definition completeChatStream :: "streamConverter \<Rightarrow> sseOut list \<times> streamConverter" where
  "completeChatStream c =
     (let (out, c1) = chatToolFlushPendingArgs c;
          finishReason = (if scSawToolCall c1 then ''tool_calls'' else ''stop'')
      in (out @ chatChunk c1 [] (Some finishReason) (map_option responseUsageToChat (scUsage c1)) @ [SseDone], c1))"

subsection \<open>Responses to Chat\<close>

record streamEnv =
  seGjson :: gjsonEnv
  seNum :: "string \<Rightarrow> string"
  seValue :: "string \<Rightarrow> rat"

abbreviation textAt :: "streamEnv \<Rightarrow> json \<Rightarrow> string list \<Rightarrow> string" where
  "textAt env payload path \<equiv> gjString (seGjson env) (gjGet payload path)"

definition captureResponseMetadata :: "streamEnv \<Rightarrow> json \<Rightarrow> streamConverter \<Rightarrow> streamConverter" where
  "captureResponseMetadata env payload c =
     (case gjGet payload [''response''] of
        None \<Rightarrow> c
      | Some response \<Rightarrow>
          let created = gjInteger (seGjson env) (gjGet response [''created_at'']) in
          c\<lparr>scID := (if scID c = [] then textAt env response [''id''] else scID c),
            scModel := (if scModel c = [] then textAt env response [''model''] else scModel c),
            scCreated := (if 0 < created then created else scCreated c)\<rparr>)"

text \<open>A delta that is not empty, with the role before it.\<close>

definition chatDelta :: "streamConverter \<Rightarrow> string \<Rightarrow> string \<Rightarrow> sseOut list \<times> streamConverter" where
  "chatDelta c field delta = (if delta = [] then ([], c) else roleAndChunk c [(field, JStr delta)])"

definition announceCall :: "streamEnv \<Rightarrow> json \<Rightarrow> streamConverter \<Rightarrow> sseOut list \<times> streamConverter" where
  "announceCall env item c =
     (let itemID = textAt env item [''id'']; callID = textAt env item [''call_id''];
          (index, c1) = chatToolIndex c [itemID, callID];
          nameKey = (if itemID \<noteq> [] then itemID else callID);
          shownID = (if callID \<noteq> [] then callID else itemID);
          (out, c2) = (if nameKey \<in> set (scToolNameSent c1) then ([], c1)
            else roleAndChunk (c1\<lparr>scToolNameSent := nameKey # scToolNameSent c1, scSawToolCall := True\<rparr>)
              [(''tool_calls'', JArr [JObj [(''index'', jInt (int index)), (''id'', JStr shownID), (''type'', JStr ''function''),
                 (''function'', JObj [(''name'', JStr (textAt env item [''name'']))])]])]);
          (tail, c3) = chatToolRecordArgs c2 index (textAt env item [''arguments''])
      in if tail = [] then (out, c3)
         else let c4 = c3\<lparr>scSawToolCall := True\<rparr> in (out @ chatToolArgsChunk c4 index shownID tail, c4))"

definition argsDelta :: "streamEnv \<Rightarrow> json \<Rightarrow> streamConverter \<Rightarrow> sseOut list \<times> streamConverter" where
  "argsDelta env payload c =
     (let delta = textAt env payload [''delta'']; itemID = textAt env payload [''item_id'']; callID = textAt env payload [''call_id''] in
      if delta = [] then ([], c)
      else let (index, c1) = chatToolIndex c [itemID, callID];
               (tail, c2) = chatToolAppendArgs (c1\<lparr>scSawToolCall := True\<rparr>) index delta
        in if tail = [] then ([], c2)
           else let (out, c3) = ensureChatRole c2 in
             (out @ chatToolArgsChunk c3 index (if callID \<noteq> [] then callID else itemID) tail, c3))"

definition argsDone :: "streamEnv \<Rightarrow> json \<Rightarrow> streamConverter \<Rightarrow> sseOut list \<times> streamConverter" where
  "argsDone env payload c =
     (let itemID = textAt env payload [''item_id'']; callID = textAt env payload [''call_id''] in
      if itemID = [] \<and> callID = [] then ([], c)
      else let (index, c1) = chatToolIndex c [itemID, callID];
               (tail, c2) = chatToolRecordArgs c1 index (textAt env payload [''arguments''])
        in if tail = [] then ([], c2)
           else let (out, c3) = ensureChatRole (c2\<lparr>scSawToolCall := True\<rparr>) in
             (out @ chatToolArgsChunk c3 index (if callID \<noteq> [] then callID else itemID) tail, c3))"

text \<open>\<^verbatim>\<open>Complete\<close> of this direction, and the failure of an answer.\<close>

definition completeChat :: "streamConverter \<Rightarrow> sseOut list \<times> streamConverter" where
  "completeChat c = (if scCompleted c then ([], c) else completeChatStream (c\<lparr>scCompleted := True\<rparr>))"

definition failedResponse :: "streamEnv \<Rightarrow> json \<Rightarrow> streamConverter \<Rightarrow> sseOut list \<times> streamConverter" where
  "failedResponse env payload c =
     (if scCompleted c then ([], c)
      else let c1 = c\<lparr>scCompleted := True\<rparr>;
               err = (case gjGet payload [''response'', ''error''] of Some e \<Rightarrow> Some e | None \<Rightarrow> gjGet payload [''error''])
        in case err of
             None \<Rightarrow> ([], c1)
           | Some e \<Rightarrow> ([SseData (mapJson (jsonObject (seNum env) e)), SseDone], c1))"

definition responsesToChat :: "streamEnv \<Rightarrow> json \<Rightarrow> streamConverter \<Rightarrow> sseOut list \<times> streamConverter" where
  "responsesToChat env payload c0 =
     (let c = captureResponseMetadata env payload c0; kind = textAt env payload [''type''] in
      if kind \<in> {''response.reasoning_summary_text.delta'', ''response.reasoning_text.delta''}
      then chatDelta c ''reasoning_content'' (textAt env payload [''delta''])
      else if kind = ''response.output_text.delta'' then
        (let delta = textAt env payload [''delta''] in chatDelta (c\<lparr>scOutputText := scOutputText c @ delta\<rparr>) ''content'' delta)
      else if kind = ''response.refusal.delta'' then chatDelta c ''refusal'' (textAt env payload [''delta''])
      else if kind = ''response.output_item.added'' then
        (case gjGet payload [''item''] of
           None \<Rightarrow> ([], c)
         | Some item \<Rightarrow> if textAt env item [''type''] \<noteq> ''function_call'' then ([], c) else announceCall env item c)
      else if kind = ''response.function_call_arguments.delta'' then argsDelta env payload c
      else if kind = ''response.function_call_arguments.done'' then argsDone env payload c
      else if kind = ''response.completed'' then
        completeChat (case gjGet payload [''response'', ''usage''] of None \<Rightarrow> c | Some u \<Rightarrow> c\<lparr>scUsage := jsonObject (seNum env) u\<rparr>)
      else if kind = ''response.failed'' \<or> kind = ''response.incomplete'' then failedResponse env payload c
      else ([], c))"

end
