(* ===== verification/Stream_Convert.thy ===== *)
theory Stream_Convert
  imports Protocol_Stream
begin

text \<open>
  The streams of a Chat upstream to a Responses client, the streams of an Anthropic upstream to either, and the
  entry points \<^verbatim>\<open>Transform\<close> and \<^verbatim>\<open>Complete\<close> (\<^verbatim>\<open>stream.go\<close>, \<^verbatim>\<open>stream_toolargs.go\<close>, \<^verbatim>\<open>anthropic_stream.go\<close>).
\<close>

subsection \<open>Output items of Responses\<close>

definition responsesMessageIndex :: "streamConverter \<Rightarrow> nat" where
  "responsesMessageIndex c = (if scReasoningStarted c \<and> \<not> scReasoningAfterMessage c then 1 else 0)"

definition responsesReasoningIndex :: "streamConverter \<Rightarrow> nat" where
  "responsesReasoningIndex c = (if scReasoningAfterMessage c then 1 else 0)"

definition responseMessageID :: string where "responseMessageID = ''msg_aiferry''"
definition responseReasoningID :: string where "responseReasoningID = ''rs_aiferry''"

definition responseOutputItem :: "streamConverter \<Rightarrow> json" where
  "responseOutputItem c =
     JObj [(''id'', JStr responseMessageID), (''type'', JStr ''message''), (''status'', JStr ''completed''), (''role'', JStr ''assistant''),
       (''content'', JArr (if scContentStarted c then [JObj [(''type'', JStr ''output_text''), (''text'', JStr (scOutputText c))]] else []))]"

definition summaryPart :: "string \<Rightarrow> json" where
  "summaryPart text0 = JObj [(''type'', JStr ''summary_text''), (''text'', JStr text0)]"

definition responseReasoningItem :: "streamConverter \<Rightarrow> json" where
  "responseReasoningItem c =
     JObj [(''id'', JStr responseReasoningID), (''type'', JStr ''reasoning''),
       (''summary'', JArr (if scReasoningText c = [] then [] else [summaryPart (scReasoningText c)]))]"

definition finalizedArgs :: "responsesToolState \<Rightarrow> string" where
  "finalizedArgs t = (if trimSpace (rtArgs t) = [] then ''{}'' else rtArgs t)"

definition toolItem :: "responsesToolState \<Rightarrow> string \<Rightarrow> string \<Rightarrow> json" where
  "toolItem t status0 args =
     JObj [(''id'', JStr (rtItemID t)), (''type'', JStr ''function_call''), (''status'', JStr status0),
       (''call_id'', JStr (rtCallID t)), (''name'', JStr (rtName t)), (''arguments'', JStr args)]"

definition sortedResponsesTools :: "streamConverter \<Rightarrow> responsesToolState list" where
  "sortedResponsesTools c = sort_key rtOutputIndex (map snd (scResponsesTools c))"

definition responseOutput :: "streamConverter \<Rightarrow> json list" where
  "responseOutput c =
     (if scReasoningStarted c \<and> \<not> scReasoningAfterMessage c then [responseReasoningItem c] else [])
     @ [responseOutputItem c]
     @ (if scReasoningStarted c \<and> scReasoningAfterMessage c then [responseReasoningItem c] else [])
     @ map (\<lambda>t. toolItem t ''completed'' (finalizedArgs t)) (filter rtAnnounced (sortedResponsesTools c))"

definition responseObject :: "streamConverter \<Rightarrow> string \<Rightarrow> goMap" where
  "responseObject c status0 =
     [(''id'', JStr (if scID c = [] then ''resp_aiferry'' else scID c)), (''object'', JStr ''response''), (''created_at'', jInt (scCreated c)),
      (''status'', JStr status0), (''model'', JStr (scModel c)), (''output'', JArr (responseOutput c))]"

text \<open>An event with its type, the index of the output item and further fields.\<close>

definition itemEvent :: "string \<Rightarrow> nat \<Rightarrow> goMap \<Rightarrow> sseOut" where
  "itemEvent kind index fields0 = SseEvent kind (JObj ([(''type'', JStr kind), (''output_index'', jInt (int index))] @ fields0))"

definition itemAdded :: "nat \<Rightarrow> json \<Rightarrow> sseOut" where
  "itemAdded index item = itemEvent ''response.output_item.added'' index [(''item'', item)]"

definition itemDone :: "nat \<Rightarrow> json \<Rightarrow> sseOut" where
  "itemDone index item = itemEvent ''response.output_item.done'' index [(''item'', item)]"

definition responseCreated :: "streamConverter \<Rightarrow> sseOut" where
  "responseCreated c = SseEvent ''response.created'' (JObj [(''type'', JStr ''response.created''), (''response'', JObj (responseObject c ''in_progress''))])"

definition ensureResponsesStarted :: "streamConverter \<Rightarrow> sseOut list \<times> streamConverter" where
  "ensureResponsesStarted c =
     (if scStarted c then ([], c)
      else let c1 = c\<lparr>scStarted := True\<rparr> in ([responseCreated c1, itemAdded (responsesMessageIndex c1) (responseOutputItem c1)], c1))"

definition reasoningPart :: "string \<Rightarrow> nat \<Rightarrow> string \<Rightarrow> sseOut" where
  "reasoningPart kind index text0 =
     itemEvent kind index [(''summary_index'', jInt 0), (''item_id'', JStr responseReasoningID), (''part'', summaryPart text0)]"

definition ensureResponsesReasoningStarted :: "streamConverter \<Rightarrow> sseOut list \<times> streamConverter" where
  "ensureResponsesReasoningStarted c =
     (if scReasoningStarted c then (if scStarted c then ([], c) else ensureResponsesStarted c)
      else let c1 = c\<lparr>scReasoningStarted := True\<rparr> in
        if scStarted c1 then
          let c2 = c1\<lparr>scReasoningAfterMessage := True\<rparr>; index = responsesReasoningIndex c2
          in ([itemAdded index (responseReasoningItem c2), reasoningPart ''response.reasoning_summary_part.added'' index []], c2)
        else let c2 = c1\<lparr>scStarted := True\<rparr>
          in ([responseCreated c2, itemAdded 0 (responseReasoningItem c2), reasoningPart ''response.reasoning_summary_part.added'' 0 [],
               itemAdded (responsesMessageIndex c2) (responseOutputItem c2)], c2))"

definition textPartEvent :: "string \<Rightarrow> nat \<Rightarrow> string \<Rightarrow> sseOut" where
  "textPartEvent kind index text0 =
     itemEvent kind index [(''content_index'', jInt 0), (''item_id'', JStr responseMessageID),
       (''part'', JObj [(''type'', JStr ''output_text''), (''text'', JStr text0)])]"

definition ensureResponsesTextStarted :: "streamConverter \<Rightarrow> sseOut list \<times> streamConverter" where
  "ensureResponsesTextStarted c =
     (let (out, c1) = ensureResponsesStarted c in
      if scContentStarted c1 then (out, c1)
      else let c2 = c1\<lparr>scContentStarted := True\<rparr> in
        (out @ [textPartEvent ''response.content_part.added'' (responsesMessageIndex c2) []], c2))"

subsection \<open>Chat to Responses\<close>

text \<open>The state of the call with the index of the upstream, made when it is new.\<close>

definition responsesToolFor :: "streamEnv \<Rightarrow> json \<Rightarrow> streamConverter \<Rightarrow> int \<times> responsesToolState \<times> streamConverter" where
  "responsesToolFor env v c =
     (let upstreamIndex = gjInteger (seGjson env) (gjGet v [''index'']) in
      case map_of (scResponsesTools c) upstreamIndex of
        Some t \<Rightarrow> (upstreamIndex, t, c)
      | None \<Rightarrow>
          let nxt = responsesMessageIndex c + 1 + scResponsesToolSeq c;
              t = \<lparr>rtOutputIndex = nxt, rtItemID = ''fc_aiferry_'' @ showNat nxt, rtCallID = ''call_aiferry_'' @ showNat nxt,
                   rtName = [], rtArgs = [], rtSentArgs = 0, rtAnnounced = False\<rparr>
          in (upstreamIndex, t, c\<lparr>scResponsesToolSeq := scResponsesToolSeq c + 1,
                scResponsesTools := AList.update upstreamIndex t (scResponsesTools c)\<rparr>))"

definition setTool :: "int \<Rightarrow> responsesToolState \<Rightarrow> streamConverter \<Rightarrow> streamConverter" where
  "setTool i t c = c\<lparr>scResponsesTools := AList.update i t (scResponsesTools c)\<rparr>"

definition announceTool :: "responsesToolState \<Rightarrow> sseOut" where
  "announceTool t = itemAdded (rtOutputIndex t) (toolItem t ''in_progress'' [])"

definition toolArgsDelta :: "responsesToolState \<Rightarrow> string \<Rightarrow> sseOut" where
  "toolArgsDelta t delta =
     itemEvent ''response.function_call_arguments.delta'' (rtOutputIndex t)
       [(''item_id'', JStr (rtItemID t)), (''call_id'', JStr (rtCallID t)), (''delta'', JStr delta)]"

text \<open>One element of \<^verbatim>\<open>delta.tool_calls\<close>.\<close>

definition toolCallPiece :: "streamEnv \<Rightarrow> json \<Rightarrow> streamConverter \<Rightarrow> sseOut list \<times> streamConverter" where
  "toolCallPiece env v c0 =
     (let (i, t0, c1) = responsesToolFor env v (c0\<lparr>scSawToolCall := True\<rparr>);
          name = textAt env v [''function'', ''name'']; callID = textAt env v [''id'']; args = textAt env v [''function'', ''arguments''];
          t1 = t0\<lparr>rtName := (if name = [] then rtName t0 else name), rtCallID := (if callID = [] then rtCallID t0 else callID),
                 rtArgs := rtArgs t0 @ args\<rparr>;
          (out1, c2, t2) = (if \<not> rtAnnounced t1 \<and> rtName t1 \<noteq> [] then
              (let (o1, d1) = ensureResponsesStarted c1; t = t1\<lparr>rtAnnounced := True\<rparr> in (o1 @ [announceTool t], d1, t))
            else ([], c1, t1));
          pending = drop (rtSentArgs t2) (rtArgs t2);
          (out2, t3) = (if rtAnnounced t2 \<and> pending \<noteq> [] then ([toolArgsDelta t2 pending], t2\<lparr>rtSentArgs := length (rtArgs t2)\<rparr>) else ([], t2))
      in (out1 @ out2, setTool i t3 c2))"

fun toolCallPieces :: "streamEnv \<Rightarrow> json list \<Rightarrow> streamConverter \<Rightarrow> sseOut list \<times> streamConverter" where
  "toolCallPieces env [] c = ([], c)"
| "toolCallPieces env (v # vs) c =
     (let (out, c1) = toolCallPiece env v c; (outs, c2) = toolCallPieces env vs c1 in (out @ outs, c2))"

definition captureChatMetadata :: "streamEnv \<Rightarrow> json \<Rightarrow> streamConverter \<Rightarrow> streamConverter" where
  "captureChatMetadata env payload c =
     (let created = gjInteger (seGjson env) (gjGet payload [''created'']) in
      c\<lparr>scID := (if scID c = [] then textAt env payload [''id''] else scID c),
        scModel := (if scModel c = [] then textAt env payload [''model''] else scModel c),
        scCreated := (if 0 < created then created else scCreated c)\<rparr>)"

definition chatDeltaReasoning :: "streamEnv \<Rightarrow> json option \<Rightarrow> string" where
  "chatDeltaReasoning env delta =
     (let t = gjString (seGjson env) (gjSub delta [''reasoning_content'']) in
      if t \<noteq> [] then t else gjString (seGjson env) (gjSub delta [''reasoning'']))"

definition reasoningPiece :: "string \<Rightarrow> streamConverter \<Rightarrow> sseOut list \<times> streamConverter" where
  "reasoningPiece delta c =
     (if delta = [] then ([], c)
      else let (out, c1) = ensureResponsesReasoningStarted c in
        (out @ [itemEvent ''response.reasoning_summary_text.delta'' 0
            [(''delta'', JStr delta), (''summary_index'', jInt 0), (''item_id'', JStr responseReasoningID)]],
         c1\<lparr>scReasoningText := scReasoningText c1 @ delta\<rparr>))"

definition textPiece :: "string \<Rightarrow> streamConverter \<Rightarrow> sseOut list \<times> streamConverter" where
  "textPiece delta c =
     (if delta = [] then ([], c)
      else let (out, c1) = ensureResponsesTextStarted c in
        (out @ [itemEvent ''response.output_text.delta'' (responsesMessageIndex c1)
            [(''delta'', JStr delta), (''content_index'', jInt 0), (''item_id'', JStr responseMessageID)]],
         c1\<lparr>scOutputText := scOutputText c1 @ delta\<rparr>))"

definition chatToResponses :: "streamEnv \<Rightarrow> json \<Rightarrow> streamConverter \<Rightarrow> sseOut list \<times> streamConverter" where
  "chatToResponses env payload c0 =
     (let c = captureChatMetadata env payload c0 in
      case gjGet payload [''choices'', ''0''] of
        None \<Rightarrow> ([], c)
      | Some choice \<Rightarrow>
          let c1 = (case gjGet payload [''usage''] of None \<Rightarrow> c | Some u \<Rightarrow> c\<lparr>scUsage := jsonObject (seNum env) u\<rparr>);
              (out1, c2) = reasoningPiece (chatDeltaReasoning env (gjGet choice [''delta''])) c1;
              (out2, c3) = textPiece (textAt env choice [''delta'', ''content'']) c2;
              (out3, c4) = toolCallPieces env (gjEach (gjGet choice [''delta'', ''tool_calls''])) c3
          in (out1 @ out2 @ out3, c4))"

definition reasoningClosing :: "streamConverter \<Rightarrow> sseOut list" where
  "reasoningClosing c =
     (if scReasoningStarted c \<and> scReasoningText c \<noteq> [] then
        (let index = responsesReasoningIndex c in
         [reasoningPart ''response.reasoning_summary_part.done'' index (scReasoningText c),
          itemEvent ''response.reasoning_summary_text.done'' index
            [(''summary_index'', jInt 0), (''item_id'', JStr responseReasoningID), (''text'', JStr (scReasoningText c))],
          itemDone index (responseReasoningItem c)])
      else [])"

definition textClosing :: "streamConverter \<Rightarrow> sseOut list" where
  "textClosing c =
     (if scContentStarted c then
        [itemEvent ''response.output_text.done'' (responsesMessageIndex c)
           [(''content_index'', jInt 0), (''item_id'', JStr responseMessageID), (''text'', JStr (scOutputText c))],
         textPartEvent ''response.content_part.done'' (responsesMessageIndex c) (scOutputText c)]
      else [])"

definition toolClosing :: "responsesToolState \<Rightarrow> sseOut list" where
  "toolClosing t =
     (if rtAnnounced t then [] else [announceTool (t\<lparr>rtAnnounced := True\<rparr>)])
     @ [itemEvent ''response.function_call_arguments.done'' (rtOutputIndex t)
          [(''item_id'', JStr (rtItemID t)), (''call_id'', JStr (rtCallID t)), (''arguments'', JStr (finalizedArgs t))],
        itemDone (rtOutputIndex t) (toolItem t ''completed'' (finalizedArgs t))]"

text \<open>At the end every call counts as announced; the stream has been started before the calls are closed.\<close>

definition completeResponsesStream :: "streamConverter \<Rightarrow> sseOut list \<times> streamConverter" where
  "completeResponsesStream c =
     (let (out, c1) = ensureResponsesTextStarted c;
          c2 = c1\<lparr>scResponsesTools := map (\<lambda>(i, t). (i, t\<lparr>rtAnnounced := True\<rparr>)) (scResponsesTools c1)\<rparr>;
          response = responseObject c2 ''completed'' @ optionalField ''usage'' (map_option (\<lambda>u. JObj (chatUsageToResponse u)) (scUsage c2))
      in (reasoningClosing c @ out @ textClosing c1 @ concat (map toolClosing (sortedResponsesTools c1))
          @ [itemDone (responsesMessageIndex c2) (responseOutputItem c2),
             SseEvent ''response.completed'' (JObj [(''type'', JStr ''response.completed''), (''response'', JObj response)])], c2))"

subsection \<open>Anthropic to Chat\<close>

definition anthropicBlockKey :: "int \<Rightarrow> string" where "anthropicBlockKey i = ''block:'' @ showInt i"

definition captureAnthropicMetadata :: "streamEnv \<Rightarrow> json \<Rightarrow> streamConverter \<Rightarrow> streamConverter" where
  "captureAnthropicMetadata env payload c =
     (case gjGet payload [''message''] of
        None \<Rightarrow> c
      | Some message \<Rightarrow>
          c\<lparr>scID := (if scID c = [] then textAt env message [''id''] else scID c),
            scModel := (if scModel c = [] then textAt env message [''model''] else scModel c)\<rparr>)"

definition chatRoleChunks :: "streamConverter \<Rightarrow> json list \<times> streamConverter" where
  "chatRoleChunks c =
     (if scChatRoleSent c then ([], c)
      else let c1 = c\<lparr>scChatRoleSent := True\<rparr> in ([newChatChunk c1 [(''role'', JStr ''assistant'')] None None], c1))"

definition chatRoleAndChunk :: "goMap \<Rightarrow> streamConverter \<Rightarrow> json list \<times> streamConverter" where
  "chatRoleAndChunk delta c = (let (out, c1) = chatRoleChunks c in (out @ [newChatChunk c1 delta None None], c1))"

fun intOf :: "json \<Rightarrow> int" where
  "intOf (JNum t) = (case parseInt t of None \<Rightarrow> 0 | Some i \<Rightarrow> i)"
| "intOf _ = 0"

definition mergeAnthropicUsage :: "(string \<Rightarrow> rat) \<Rightarrow> goMap option \<Rightarrow> goMap \<Rightarrow> goMap" where
  "mergeAnthropicUsage val target0 delta =
     (let target = (case target0 of None \<Rightarrow> [] | Some m \<Rightarrow> m);
          t1 = (case map_of delta ''input_tokens'' of
             None \<Rightarrow> target
           | Some v \<Rightarrow>
               let t = AList.update ''prompt_tokens'' (jInt (anthropicInt val v)) target in
               (case map_of delta ''cache_read_input_tokens'' of
                  None \<Rightarrow> t
                | Some cached \<Rightarrow> AList.update ''prompt_tokens_details'' (JObj [(''cached_tokens'', cached)]) t));
          t2 = (case map_of delta ''output_tokens'' of None \<Rightarrow> t1 | Some v \<Rightarrow> AList.update ''completion_tokens'' (jInt (anthropicInt val v)) t1)
      in AList.update ''total_tokens'' (jInt (intOf (entry t2 ''prompt_tokens'') + intOf (entry t2 ''completion_tokens''))) t2)"

definition completeChunks :: "streamConverter \<Rightarrow> json list \<times> streamConverter" where
  "completeChunks c =
     (if scAnthropicFinished c then ([], c)
      else let c1 = c\<lparr>scAnthropicFinished := True\<rparr> in
        ([newChatChunk c1 [] (Some (anthropicFinishReason (scStopReason c1) (scSawToolCall c1))) (scUsage c1)], c1))"

definition anthropicToolStart :: "streamEnv \<Rightarrow> json \<Rightarrow> json option \<Rightarrow> streamConverter \<Rightarrow> json list \<times> streamConverter" where
  "anthropicToolStart env payload block c =
     (if gjString (seGjson env) (gjSub block [''type'']) \<noteq> ''tool_use'' then ([], c)
      else let callID = gjString (seGjson env) (gjSub block [''id'']);
               (index, c1) = chatToolIndex (c\<lparr>scSawToolCall := True\<rparr>)
                 [callID, anthropicBlockKey (gjInteger (seGjson env) (gjGet payload [''index'']))]
        in if callID \<in> set (scToolNameSent c1) then ([], c1)
           else chatRoleAndChunk [(''tool_calls'', JArr [JObj [(''index'', jInt (int index)), (''id'', JStr callID), (''type'', JStr ''function''),
                  (''function'', JObj [(''name'', JStr (gjString (seGjson env) (gjSub block [''name''])))])]])]
                  (c1\<lparr>scToolNameSent := callID # scToolNameSent c1\<rparr>))"

definition anthropicDelta :: "streamEnv \<Rightarrow> json \<Rightarrow> json option \<Rightarrow> streamConverter \<Rightarrow> json list \<times> streamConverter" where
  "anthropicDelta env payload delta c =
     (let kind = gjString (seGjson env) (gjSub delta [''type'']); field = (\<lambda>k. gjString (seGjson env) (gjSub delta [k])) in
      if kind = ''text_delta'' then
        (if field ''text'' = [] then ([], c)
         else chatRoleAndChunk [(''content'', JStr (field ''text''))] (c\<lparr>scOutputText := scOutputText c @ field ''text''\<rparr>))
      else if kind = ''thinking_delta'' then
        (if field ''thinking'' = [] then ([], c) else chatRoleAndChunk [(''reasoning_content'', JStr (field ''thinking''))] c)
      else if kind = ''input_json_delta'' then
        (if field ''partial_json'' = [] then ([], c)
         else let (index, c1) = chatToolIndex (c\<lparr>scSawToolCall := True\<rparr>)
                    [[], anthropicBlockKey (gjInteger (seGjson env) (gjGet payload [''index'']))]
           in chatRoleAndChunk (toolDelta index [] [(''arguments'', JStr (field ''partial_json''))]) c1)
      else ([], c))"

definition anthropicToChatChunks :: "streamEnv \<Rightarrow> json \<Rightarrow> streamConverter \<Rightarrow> json list \<times> streamConverter" where
  "anthropicToChatChunks env payload c0 =
     (let c = captureAnthropicMetadata env payload c0; kind = textAt env payload [''type'']; usageOf = gjGet payload [''usage''] in
      if kind = ''message_start'' then
        chatRoleChunks (case gjGet payload [''message'', ''usage''] of None \<Rightarrow> c
          | Some u \<Rightarrow> c\<lparr>scUsage := Some (anthropicUsageToChat (seValue env) (case jsonObject (seNum env) u of None \<Rightarrow> [] | Some m \<Rightarrow> m))\<rparr>)
      else if kind = ''content_block_start'' then anthropicToolStart env payload (gjGet payload [''content_block'']) c
      else if kind = ''content_block_delta'' then anthropicDelta env payload (gjGet payload [''delta'']) c
      else if kind = ''message_delta'' then
        (let reason = textAt env payload [''delta'', ''stop_reason''];
             c1 = (if reason = [] then c else c\<lparr>scStopReason := reason\<rparr>);
             c2 = (case usageOf of None \<Rightarrow> c1
               | Some u \<Rightarrow> c1\<lparr>scUsage := Some (mergeAnthropicUsage (seValue env) (scUsage c1) (case jsonObject (seNum env) u of None \<Rightarrow> [] | Some m \<Rightarrow> m))\<rparr>)
         in ([], c2))
      else if kind = ''message_stop'' then completeChunks c
      else if kind = ''error'' then
        (if scCompleted c then ([], c)
         else let (out, c1) = chatRoleChunks (c\<lparr>scCompleted := True\<rparr>);
                  err = (case gjGet payload [''error''] of None \<Rightarrow> [] | Some e \<Rightarrow> (case jsonObject (seNum env) e of None \<Rightarrow> [] | Some m \<Rightarrow> m))
           in (out @ [newChatChunk c1 err None None], c1))
      else ([], c))"

definition anthropicToChat :: "streamEnv \<Rightarrow> json \<Rightarrow> streamConverter \<Rightarrow> sseOut list \<times> streamConverter" where
  "anthropicToChat env payload c =
     (let (chunks, c1) = anthropicToChatChunks env payload c; kind = textAt env payload [''type''] in
      (map SseData chunks @ (if kind \<in> {''message_stop'', ''error''} \<and> chunks \<noteq> [] then [SseDone] else []), c1))"

fun chunksToResponses :: "streamEnv \<Rightarrow> json list \<Rightarrow> streamConverter \<Rightarrow> sseOut list \<times> streamConverter" where
  "chunksToResponses env [] c = ([], c)"
| "chunksToResponses env (chunk # chunks) c =
     (let (out, c1) = chatToResponses env chunk c; (outs, c2) = chunksToResponses env chunks c1 in (out @ outs, c2))"

definition anthropicToResponses :: "streamEnv \<Rightarrow> json \<Rightarrow> streamConverter \<Rightarrow> sseOut list \<times> streamConverter" where
  "anthropicToResponses env payload c = (let (chunks, c1) = anthropicToChatChunks env payload c in chunksToResponses env chunks c1)"

subsection \<open>Entry points\<close>

definition CompleteStream :: "streamEnv \<Rightarrow> streamConverter \<Rightarrow> sseOut list \<times> streamConverter" where
  "CompleteStream env c =
     (case scConversion c of
        NoConversion \<Rightarrow> (if scCompleted c then ([], c) else ([], c\<lparr>scCompleted := True\<rparr>))
      | ChatToResponses \<Rightarrow> completeChat c
      | ResponsesToChat \<Rightarrow> (if scCompleted c then ([], c) else completeResponsesStream (c\<lparr>scCompleted := True\<rparr>))
      | ChatToAnthropic \<Rightarrow>
          (let (chunks, c1) = completeChunks c in (map SseData chunks @ (if chunks = [] then [] else [SseDone]), c1))
      | ResponsesToAnthropic \<Rightarrow>
          (let (chunks, c1) = completeChunks c; (out, c2) = chunksToResponses env chunks c1; (closing, c3) = completeResponsesStream c2
           in (out @ closing, c3)))"

datatype sseLine = InvalidLine | DoneLine | PayloadLine json

text \<open>\<^verbatim>\<open>sseDataPayload\<close>.\<close>

definition sseDataPayload :: "(string \<Rightarrow> json option) \<Rightarrow> string \<Rightarrow> sseLine" where
  "sseDataPayload parse line =
     (let t = trimSpace line in
      if \<not> hasPrefix t ''data:'' then InvalidLine
      else let v = trimSpace (drop 5 t) in
        if v = ''[DONE]'' then DoneLine
        else case parse v of None \<Rightarrow> InvalidLine | Some j \<Rightarrow> PayloadLine j)"

definition Transform :: "(string \<Rightarrow> json option) \<Rightarrow> streamEnv \<Rightarrow> string \<Rightarrow> streamConverter \<Rightarrow> sseOut list \<times> streamConverter" where
  "Transform parse env line c =
     (case sseDataPayload parse line of
        InvalidLine \<Rightarrow> ([], c)
      | DoneLine \<Rightarrow> CompleteStream env c
      | PayloadLine payload \<Rightarrow>
          (case scConversion c of
             NoConversion \<Rightarrow> ([SseLine line], c)
           | ChatToResponses \<Rightarrow> responsesToChat env payload c
           | ResponsesToChat \<Rightarrow> chatToResponses env payload c
           | ChatToAnthropic \<Rightarrow> anthropicToChat env payload c
           | ResponsesToAnthropic \<Rightarrow> anthropicToResponses env payload c))"

end
