(* ===== verification/Stream_To_Chat.thy ===== *)
theory Stream_To_Chat
  imports Protocol_Stream
begin

text \<open>
  What a Chat client gets of a stream of Responses: the client puts the pieces together as the protocol says (texts
  and the names and arguments of a call are added up per index, its id is that of its first piece), and the result is compared with a plain account of
  the events of the upstream and with the conversion of the complete answer.
\<close>

subsection \<open>The client\<close>

definition choiceOf :: "sseOut \<Rightarrow> goMap" where
  "choiceOf out = (case out of SseData (JObj m) \<Rightarrow> (case objectsOf (entry m ''choices'') of [] \<Rightarrow> [] | ch # _ \<Rightarrow> ch) | _ \<Rightarrow> [])"

definition deltaOf :: "sseOut \<Rightarrow> goMap" where
  "deltaOf out = (case objectValue (entry (choiceOf out) ''delta'') of None \<Rightarrow> [] | Some d \<Rightarrow> d)"

definition clientText :: "sseOut list \<Rightarrow> string" where
  "clientText outs = concat (map (\<lambda>out. stringValue (entry (deltaOf out) ''content'')) outs)"

definition clientPieces :: "sseOut list \<Rightarrow> goMap list" where
  "clientPieces outs = concat (map (\<lambda>out. objectsOf (entry (deltaOf out) ''tool_calls'')) outs)"

definition pieceIndex :: "goMap \<Rightarrow> nat option" where
  "pieceIndex e = (case entry e ''index'' of JNum t \<Rightarrow> parseNat t | _ \<Rightarrow> None)"

definition addPiece :: "(string \<times> string \<times> string) list \<Rightarrow> goMap \<Rightarrow> (string \<times> string \<times> string) list" where
  "addPiece calls e =
     (let function = (case objectValue (entry e ''function'') of None \<Rightarrow> [] | Some f \<Rightarrow> f);
          ident = stringValue (entry e ''id''); name = stringValue (entry function ''name''); args = stringValue (entry function ''arguments'')
      in case pieceIndex e of
           None \<Rightarrow> calls
         | Some i \<Rightarrow>
             if i < length calls then (case calls ! i of (d, n, a) \<Rightarrow> calls[i := (if d = [] then ident else d, n @ name, a @ args)])
             else if i = length calls then calls @ [(ident, name, args)]
             else calls)"

definition clientCalls :: "sseOut list \<Rightarrow> (string \<times> string \<times> string) list" where
  "clientCalls outs = foldl addPiece [] (clientPieces outs)"

definition finishReasons :: "sseOut list \<Rightarrow> string list" where
  "finishReasons outs = filter (\<lambda>r. r \<noteq> []) (map (\<lambda>out. stringValue (entry (choiceOf out) ''finish_reason'')) outs)"

lemma choiceOf_chunk [simp]:
  "choiceOf (SseData (newChatChunk c d f u)) = [(''index'', jInt 0), (''delta'', JObj d), (''finish_reason'', case f of None \<Rightarrow> JNull | Some r \<Rightarrow> JStr r)]"
  by (simp add: choiceOf_def newChatChunk_def entry_Cons)

lemma deltaOf_chunk [simp]: "deltaOf (SseData (newChatChunk c d f u)) = d"
  by (simp add: deltaOf_def entry_Cons)

lemma deltaOf_done [simp]: "deltaOf SseDone = []" "choiceOf SseDone = []"
  by (simp_all add: deltaOf_def choiceOf_def)

lemma clientText_simps [simp]:
  "clientText [] = []" "clientText (xs @ ys) = clientText xs @ clientText ys" "clientText (chatChunk c d f u) = stringValue (entry d ''content'')"
  "clientText [SseDone] = []" "clientText [SseData (newChatChunk c d f u)] = stringValue (entry d ''content'')"
  by (simp_all add: clientText_def chatChunk_def)

lemma clientPieces_simps [simp]:
  "clientPieces [] = []" "clientPieces (xs @ ys) = clientPieces xs @ clientPieces ys" "clientPieces (chatChunk c d f u) = objectsOf (entry d ''tool_calls'')"
  "clientPieces [SseDone] = []"
  by (simp_all add: clientPieces_def chatChunk_def)

lemma finishReasons_simps [simp]:
  "finishReasons [] = []" "finishReasons (xs @ ys) = finishReasons xs @ finishReasons ys" "finishReasons (chatChunk c d None u) = []"
  "finishReasons [SseDone] = []"
  by (simp_all add: finishReasons_def chatChunk_def entry_Cons)

lemma finishReasons_finish [simp]: "r \<noteq> [] \<Longrightarrow> finishReasons (chatChunk c d (Some r) u) = [r]"
  by (simp add: finishReasons_def chatChunk_def entry_Cons)

lemma clientCalls_append: "clientCalls (xs @ ys) = foldl addPiece (clientCalls xs) (clientPieces ys)"
  by (simp add: clientCalls_def)

lemma pieceIndex_nat: "pieceIndex ((''index'', jInt (int n)) # m) = Some n"
  by (simp add: pieceIndex_def entry_Cons jInt_def showInt_def)

subsection \<open>The account of the events\<close>

text \<open>A call of the upstream: id of its item, id of the call, name and arguments.\<close>

type_synonym upstreamCall = "string \<times> string \<times> string \<times> string"

definition extendArgs :: "string \<Rightarrow> string \<Rightarrow> string" where
  "extendArgs old canonical = (if canonical \<noteq> [] \<and> hasPrefix canonical old then canonical else old)"

definition changeArgs :: "string \<Rightarrow> (string \<Rightarrow> string) \<Rightarrow> upstreamCall list \<Rightarrow> upstreamCall list" where
  "changeArgs itemID f calls = map (\<lambda>(i, c, n, a). (i, c, n, if i = itemID then f a else a)) calls"

record account =
  acText :: string
  acCalls :: "upstreamCall list"

definition accountEvent :: "streamEnv \<Rightarrow> account \<Rightarrow> json \<Rightarrow> account" where
  "accountEvent env acc p =
     (let kind = textAt env p [''type'']; itemID = textAt env p [''item_id''] in
      if kind = ''response.output_text.delta'' then acc\<lparr>acText := acText acc @ textAt env p [''delta'']\<rparr>
      else if kind = ''response.output_item.added'' then
        (case gjGet p [''item''] of
           None \<Rightarrow> acc
         | Some item \<Rightarrow>
             if textAt env item [''type''] \<noteq> ''function_call'' then acc
             else let i = textAt env item [''id'']; a = textAt env item [''arguments''] in
               if i \<in> fst ` set (acCalls acc) then acc\<lparr>acCalls := changeArgs i (\<lambda>old. extendArgs old a) (acCalls acc)\<rparr>
               else acc\<lparr>acCalls := acCalls acc @ [(i, textAt env item [''call_id''], textAt env item [''name''], a)]\<rparr>)
      else if kind = ''response.function_call_arguments.delta'' then
        acc\<lparr>acCalls := changeArgs itemID (\<lambda>old. old @ textAt env p [''delta'']) (acCalls acc)\<rparr>
      else if kind = ''response.function_call_arguments.done'' then
        acc\<lparr>acCalls := changeArgs itemID (\<lambda>old. extendArgs old (textAt env p [''arguments''])) (acCalls acc)\<rparr>
      else acc)"

definition emptyAccount :: account where "emptyAccount = \<lparr>acText = [], acCalls = []\<rparr>"

text \<open>
  Well-addressed events: a new call has ids of its own, a repeated announcement the ids of before, and arguments name
  a call that was announced.  The stream has no event yet that ends it.
\<close>

definition idsOf :: "upstreamCall list \<Rightarrow> string set" where
  "idsOf calls = (\<Union>(i, c, n, a) \<in> set calls. {i, c})"

definition addressed :: "streamEnv \<Rightarrow> account \<Rightarrow> json \<Rightarrow> bool" where
  "addressed env acc p \<longleftrightarrow>
     (let kind = textAt env p [''type''] in
      if kind = ''response.output_item.added'' then
        (case gjGet p [''item''] of
           None \<Rightarrow> True
         | Some item \<Rightarrow>
             textAt env item [''type''] = ''function_call'' \<longrightarrow>
               (let i = textAt env item [''id'']; c = textAt env item [''call_id''] in
                i \<noteq> [] \<and> c \<noteq> [] \<and>
                (list_ex (\<lambda>(i', c', n, a). i' = i \<and> c' = c) (acCalls acc) \<or>
                 list_all (\<lambda>(i', c', n, a). i' \<noteq> i \<and> i' \<noteq> c \<and> c' \<noteq> i \<and> c' \<noteq> c) (acCalls acc))))
      else if kind = ''response.function_call_arguments.delta'' \<or> kind = ''response.function_call_arguments.done'' then
        list_ex (\<lambda>(i, c, n, a). i = textAt env p [''item_id''] \<and> textAt env p [''call_id''] \<in> {[], c}) (acCalls acc)
      else kind \<notin> {''response.completed'', ''response.failed'', ''response.incomplete''})"

fun allAddressed :: "streamEnv \<Rightarrow> account \<Rightarrow> json list \<Rightarrow> bool" where
  "allAddressed env acc [] \<longleftrightarrow> True"
| "allAddressed env acc (p # ps) \<longleftrightarrow> addressed env acc p \<and> allAddressed env (accountEvent env acc p) ps"

fun runToChat :: "streamEnv \<Rightarrow> json list \<Rightarrow> streamConverter \<Rightarrow> sseOut list \<times> streamConverter" where
  "runToChat env [] c = ([], c)"
| "runToChat env (p # ps) c =
     (let (out, c1) = responsesToChat env p c; (outs, c2) = runToChat env ps c1 in (out @ outs, c2))"

subsection \<open>The converter keeps the account\<close>

definition keptIndexes :: "(string \<times> nat) list \<Rightarrow> upstreamCall list \<Rightarrow> bool" where
  "keptIndexes idx calls \<longleftrightarrow>
     (\<forall>k n. map_of idx k = Some n \<longleftrightarrow> n < length calls \<and> k \<in> {fst (calls ! n), fst (snd (calls ! n))})"

definition keeps :: "streamConverter \<Rightarrow> account \<Rightarrow> sseOut list \<Rightarrow> bool" where
  "keeps c acc outs \<longleftrightarrow>
     scToolCount c = length (acCalls acc) \<and> keptIndexes (scToolIndexes c) (acCalls acc) \<and>
     set (scToolNameSent c) = fst ` set (acCalls acc) \<and>
     (\<forall>n. toolArgs c n = (if n < length (acCalls acc) then snd (snd (snd (acCalls acc ! n))) else [])) \<and>
     (\<forall>n. scToolArgsSent c n = length (toolArgs c n)) \<and> (scSawToolCall c \<longleftrightarrow> acCalls acc \<noteq> []) \<and>
     (\<forall>(i, ci, n, a) \<in> set (acCalls acc). i \<noteq> [] \<and> ci \<noteq> []) \<and>
     clientText outs = acText acc \<and> clientCalls outs = map snd (acCalls acc) \<and> finishReasons outs = [] \<and> \<not> scCompleted c"

text \<open>The parts of the converter that \<open>keeps\<close> is about.\<close>

definition sameTools :: "streamConverter \<Rightarrow> streamConverter \<Rightarrow> bool" where
  "sameTools c d \<longleftrightarrow> scToolCount d = scToolCount c \<and> scToolIndexes d = scToolIndexes c \<and> scToolNameSent d = scToolNameSent c \<and>
     scToolArgs d = scToolArgs c \<and> scToolArgsSent d = scToolArgsSent c \<and> scSawToolCall d = scSawToolCall c \<and> scCompleted d = scCompleted c"

lemma keeps_sameTools: "sameTools c d \<Longrightarrow> keeps c acc outs \<Longrightarrow> keeps d acc outs"
  by (simp add: sameTools_def keeps_def toolArgs_def)

lemma capture_sameTools: "sameTools c (captureResponseMetadata env p c)"
  by (simp add: captureResponseMetadata_def sameTools_def Let_def split: option.splits)

lemma ensureChatRole_effect:
  assumes "ensureChatRole c = (out, d)"
  shows "sameTools c d" "clientText out = []" "clientPieces out = []" "finishReasons out = []"
  using assms by (auto simp: ensureChatRole_def sameTools_def entry_Cons Let_def split: if_splits)

lemma chatDelta_keeps:
  assumes "keeps c acc outs" "chatDelta c field delta = (out, d)" "field \<noteq> ''tool_calls''"
  shows "keeps d (if field = ''content'' then acc\<lparr>acText := acText acc @ delta\<rparr> else acc) (outs @ out)"
proof (cases "delta = []")
  case True
  then show ?thesis using assms by (auto simp: chatDelta_def)
next
  case False
  obtain role c1 where role: "ensureChatRole c = (role, c1)" by (cases "ensureChatRole c")
  then have d: "d = c1" "out = role @ chatChunk c1 [(field, JStr delta)] None None"
    using assms(2) False by (auto simp: chatDelta_def roleAndChunk_def)
  have "keeps c1 acc outs" using keeps_sameTools ensureChatRole_effect(1) [OF role] assms(1) by blast
  then show ?thesis using ensureChatRole_effect [OF role] assms(3)
    by (auto simp: d keeps_def clientCalls_append entry_Cons)
qed

lemma changeArgs_nth:
  assumes "keptIndexes idx calls" "n < length calls" "calls ! n = (i, ci, nm, a)"
  shows "changeArgs i f calls = calls[n := (i, ci, nm, f a)]"
proof (rule nth_equalityI)
  show "length (changeArgs i f calls) = length (calls[n := (i, ci, nm, f a)])" by (simp add: changeArgs_def)
  fix m assume "m < length (changeArgs i f calls)"
  then have m: "m < length calls" by (simp add: changeArgs_def)
  have "m = n" if "fst (calls ! m) = i"
  proof -
    have "map_of idx i = Some m" "map_of idx i = Some n" using assms m that by (auto simp: keptIndexes_def)
    then show ?thesis by simp
  qed
  then show "changeArgs i f calls ! m = calls[n := (i, ci, nm, f a)] ! m"
    using assms m by (cases "m = n") (auto simp: changeArgs_def split: prod.splits)
qed

lemma chatToolIndex_known:
  assumes "keeps c acc outs" "n < length (acCalls acc)" "acCalls acc ! n = (i, ci, nm, a)" "k \<in> {[], ci}"
  shows "chatToolIndex c [i, k] = (n, c)"
proof -
  have "map_of (scToolIndexes c) i = Some n" using assms by (auto simp: keeps_def keptIndexes_def)
  moreover have "i \<noteq> []" using assms(1-3) nth_mem [OF assms(2)] by (auto simp: keeps_def)
  ultimately show ?thesis by (simp add: chatToolIndex_def)
qed

lemma keptIndexes_update:
  "keptIndexes idx calls \<Longrightarrow> n < length calls \<Longrightarrow> calls ! n = (i, ci, nm, a) \<Longrightarrow> keptIndexes idx (calls[n := (i, ci, nm', a')])"
  by (auto simp: keptIndexes_def nth_list_update)

lemma keptIndexes_add:
  assumes "keptIndexes idx calls" "\<forall>(i', c', n, a) \<in> set calls. i' \<noteq> i \<and> i' \<noteq> ci \<and> c' \<noteq> i \<and> c' \<noteq> ci"
  shows "keptIndexes (AList.update ci (length calls) (AList.update i (length calls) idx)) (calls @ [(i, ci, nm, a)])"
proof -
  let ?L = "length calls" and ?new = "AList.update ci (length calls) (AList.update i (length calls) idx)"
  have new: "map_of ?new k = (if k = ci \<or> k = i then Some ?L else map_of idx k)" for k by (simp add: update_conv')
  have old: "map_of idx k = Some n \<longleftrightarrow> n < ?L \<and> (k = fst (calls ! n) \<or> k = fst (snd (calls ! n)))" for k n
    using assms(1) by (simp add: keptIndexes_def)
  have other: "n < ?L \<Longrightarrow> k = fst (calls ! n) \<or> k = fst (snd (calls ! n)) \<Longrightarrow> k \<noteq> i \<and> k \<noteq> ci" for k n
    using assms(2) nth_mem [of n calls] by (cases "calls ! n") auto
  have "map_of ?new k = Some n \<longleftrightarrow> n < length (calls @ [(i, ci, nm, a)]) \<and>
      k \<in> {fst ((calls @ [(i, ci, nm, a)]) ! n), fst (snd ((calls @ [(i, ci, nm, a)]) ! n))}" for k n
  proof (cases "n < ?L")
    case True
    then show ?thesis using new [of k] old [of k n] other [of n k] by (auto simp: nth_append)
  next
    case False
    then show ?thesis using new [of k] old [of k n] by (cases "n = ?L") auto
  qed
  then show ?thesis unfolding keptIndexes_def by blast
qed

text \<open>Sending what a call has more of than was sent.\<close>

lemma sendToolTail_effect:
  assumes "sendToolTail c n args = (tail, d)" "hasPrefix args (toolArgs c n)" "scToolArgsSent c n = length (toolArgs c n)"
  shows "args = toolArgs c n @ tail" "toolArgs d m = (if m = n then args else toolArgs c m)"
    "scToolArgsSent d m = (if m = n then length args else scToolArgsSent c m)"
    "scToolCount d = scToolCount c" "scToolIndexes d = scToolIndexes c" "scToolNameSent d = scToolNameSent c" "scSawToolCall d = scSawToolCall c"
    "scCompleted d = scCompleted c"
proof -
  obtain t where t: "args = toolArgs c n @ t" using assms(2) by (auto simp: hasPrefix_iff)
  have d: "tail = t" "d = (if t = [] then c\<lparr>scToolArgs := AList.update n args (scToolArgs c)\<rparr>
      else c\<lparr>scToolArgs := AList.update n args (scToolArgs c), scToolArgsSent := (scToolArgsSent c)(n := length args)\<rparr>)"
    using assms(1,3) t by (auto simp: sendToolTail_def Let_def split: if_splits)
  show "args = toolArgs c n @ tail" using t d(1) by simp
  show "toolArgs d m = (if m = n then args else toolArgs c m)" by (auto simp: d(2) toolArgs_def update_conv')
  show "scToolArgsSent d m = (if m = n then length args else scToolArgsSent c m)" using assms(3) t by (auto simp: d(2))
  show "scToolCount d = scToolCount c" "scToolIndexes d = scToolIndexes c" "scToolNameSent d = scToolNameSent c" "scSawToolCall d = scSawToolCall c"
    "scCompleted d = scCompleted c"
    by (auto simp: d(2))
qed

lemma addPiece_args:
  assumes "n < length calls" "calls ! n = (d, nm, a)" "d \<noteq> []"
  shows "foldl addPiece calls (clientPieces (chatToolArgsChunk c n k tail)) = calls[n := (d, nm, a @ tail)]"
proof -
  have "entry (((''index'', jInt (int n)) # (''type'', JStr ''function'') # (''function'', JObj [(''arguments'', JStr tail)]) # rest)) ''function'' =
      JObj [(''arguments'', JStr tail)]" for rest
    by (simp add: entry_Cons)
  then show ?thesis using assms
    by (simp add: chatToolArgsChunk_def toolDelta_def entry_Cons addPiece_def pieceIndex_nat Let_def)
qed

text \<open>More arguments for a call that is known.\<close>

lemma more_args:
  assumes "keeps c acc outs" "n < length (acCalls acc)" "acCalls acc ! n = (i, ci, nm, a)"
    and "sendToolTail c n args = (tail, d)" "hasPrefix args a"
  shows "args = a @ tail"
    "tail = [] \<Longrightarrow> keeps d (acc\<lparr>acCalls := changeArgs i (\<lambda>_. args) (acCalls acc)\<rparr>) outs"
    "sameTools d e \<Longrightarrow> clientText role = [] \<Longrightarrow> clientPieces role = [] \<Longrightarrow> finishReasons role = [] \<Longrightarrow>
       keeps e (acc\<lparr>acCalls := changeArgs i (\<lambda>_. args) (acCalls acc)\<rparr>) (outs @ role @ chatToolArgsChunk e' n k tail)"
proof -
  have old: "toolArgs c n = a" "scToolArgsSent c n = length (toolArgs c n)" using assms(1-3) by (auto simp: keeps_def)
  note E = sendToolTail_effect [OF assms(4), unfolded old(1), OF assms(5) old(2) [unfolded old(1)]]
  show args: "args = a @ tail" using E(1) by simp
  have "keptIndexes (scToolIndexes c) (acCalls acc)" using assms(1) by (simp add: keeps_def)
  then have change: "changeArgs i (\<lambda>_. args) (acCalls acc) = (acCalls acc)[n := (i, ci, nm, args)]"
    by (rule changeArgs_nth [OF _ assms(2,3)])
  have ids: "fst ` set ((acCalls acc)[n := (i, ci, nm, args)]) = fst ` set (acCalls acc)"
    using assms(2,3) by (metis fst_conv list_update_id map_update set_map)
  have pos: "i \<noteq> [] \<and> ci \<noteq> []" using assms(1-3) nth_mem [OF assms(2)] by (auto simp: keeps_def)
  have mem: "\<forall>(i, ci, n, a) \<in> set ((acCalls acc)[n := (i, ci, nm, args)]). i \<noteq> [] \<and> ci \<noteq> []"
    using assms(1) pos set_update_subset_insert [of "acCalls acc" n "(i, ci, nm, args)"] by (fastforce simp: keeps_def)
  have upto: "keeps d (acc\<lparr>acCalls := changeArgs i (\<lambda>_. args) (acCalls acc)\<rparr>) outs'"
    if "clientText outs' = acText acc" "clientCalls outs' = map snd ((acCalls acc)[n := (i, ci, nm, args)])" "finishReasons outs' = []" for outs'
    using assms(1-3) that E(2-8) ids mem keptIndexes_update [of "scToolIndexes c" "acCalls acc" n i ci nm a nm args]
    by (auto simp: keeps_def change nth_list_update)
  {
    assume "tail = []"
    then show "keeps d (acc\<lparr>acCalls := changeArgs i (\<lambda>_. args) (acCalls acc)\<rparr>) outs"
      using assms(1,3) args by (intro upto) (auto simp: keeps_def list_update_same_conv [OF assms(2), THEN iffD2])
  }
  assume role: "sameTools d e" "clientText role = []" "clientPieces role = []" "finishReasons role = []"
  have "clientCalls (outs @ role @ chatToolArgsChunk e' n k tail) = map snd ((acCalls acc)[n := (i, ci, nm, args)])"
    using assms(1-3) role pos addPiece_args [of n "clientCalls outs" ci nm a e' k tail]
    by (simp add: clientCalls_append keeps_def args map_update)
  moreover have "clientText (outs @ role @ chatToolArgsChunk e' n k tail) = acText acc" "finishReasons (outs @ role @ chatToolArgsChunk e' n k tail) = []"
    using assms(1) role by (simp_all add: keeps_def chatToolArgsChunk_def toolDelta_def entry_Cons)
  ultimately show "keeps e (acc\<lparr>acCalls := changeArgs i (\<lambda>_. args) (acCalls acc)\<rparr>) (outs @ role @ chatToolArgsChunk e' n k tail)"
    using upto role(1) keeps_sameTools by blast
qed

definition setArgs :: "nat \<Rightarrow> string \<Rightarrow> account \<Rightarrow> account" where
  "setArgs n a acc = acc\<lparr>acCalls := (acCalls acc)[n := (case acCalls acc ! n of (i, c, nm, _) \<Rightarrow> (i, c, nm, a))]\<rparr>"

lemma changeArgs_setArgs:
  assumes "keeps c acc outs" "n < length (acCalls acc)" "acCalls acc ! n = (i, ci, nm, a)"
  shows "acc\<lparr>acCalls := changeArgs i f (acCalls acc)\<rparr> = setArgs n (f a) acc"
  using assms changeArgs_nth [of "scToolIndexes c" "acCalls acc" n i ci nm a f] by (simp add: keeps_def setArgs_def)

lemma setArgs_same: "acCalls acc ! n = (i, ci, nm, a) \<Longrightarrow> setArgs n a acc = acc"
proof -
  assume "acCalls acc ! n = (i, ci, nm, a)"
  then have "(acCalls acc)[n := (i, ci, nm, a)] = acCalls acc" by (metis list_update_id)
  then show ?thesis by (simp add: setArgs_def \<open>acCalls acc ! n = (i, ci, nm, a)\<close>)
qed

lemma record_keeps:
  assumes "keeps c acc outs" "n < length (acCalls acc)" "acCalls acc ! n = (i, ci, nm, a)" "chatToolRecordArgs c n canonical = (tail, d)"
  shows "extendArgs a canonical = a @ tail" "tail = [] \<Longrightarrow> keeps d (setArgs n (a @ tail) acc) outs"
    "tail \<noteq> [] \<Longrightarrow> sameTools d e \<Longrightarrow> clientText role = [] \<Longrightarrow> clientPieces role = [] \<Longrightarrow> finishReasons role = [] \<Longrightarrow>
       keeps e (setArgs n (a @ tail) acc) (outs @ role @ chatToolArgsChunk e' n k tail)"
proof -
  have old: "toolArgs c n = a" using assms(1-3) by (auto simp: keeps_def)
  show ext: "extendArgs a canonical = a @ tail"
  proof (cases "canonical = []")
    case True
    then show ?thesis using assms(4) by (simp add: chatToolRecordArgs_def extendArgs_def)
  next
    case False
    then have "sendToolTail c n (extendArgs a canonical) = (tail, d)" using assms(4) by (auto simp: chatToolRecordArgs_def extendArgs_def old split: if_splits)
    then show ?thesis using more_args(1) [OF assms(1-3)] by (simp add: extendArgs_def hasPrefix_iff split: if_splits)
  qed
  have change: "acc\<lparr>acCalls := changeArgs i (\<lambda>_. x) (acCalls acc)\<rparr> = setArgs n x acc" for x
    by (rule changeArgs_setArgs [OF assms(1-3)])
  show "keeps d (setArgs n (a @ tail) acc) outs" if "tail = []"
  proof (cases "canonical = []")
    case True
    then show ?thesis using assms that by (simp add: chatToolRecordArgs_def setArgs_same)
  next
    case False
    then have "sendToolTail c n (a @ tail) = (tail, d)" using assms(4) ext by (auto simp: chatToolRecordArgs_def extendArgs_def old split: if_splits)
    then show ?thesis using more_args(2) [OF assms(1-3)] that by (simp add: change hasPrefix_iff)
  qed
  show "keeps e (setArgs n (a @ tail) acc) (outs @ role @ chatToolArgsChunk e' n k tail)"
    if "tail \<noteq> []" "sameTools d e" "clientText role = []" "clientPieces role = []" "finishReasons role = []"
  proof -
    have "canonical \<noteq> []" using that(1) assms(4) by (auto simp: chatToolRecordArgs_def)
    then have "sendToolTail c n (a @ tail) = (tail, d)" using assms(4) ext by (auto simp: chatToolRecordArgs_def extendArgs_def old split: if_splits)
    then show ?thesis using more_args(3) [OF assms(1-3)] that(2-5) by (simp add: change)
  qed
qed

lemma append_keeps:
  assumes "keeps c acc outs" "n < length (acCalls acc)" "acCalls acc ! n = (i, ci, nm, a)" "chatToolAppendArgs c n delta = (tail, d)" "delta \<noteq> []"
  shows "tail = delta"
    "sameTools d e \<Longrightarrow> clientText role = [] \<Longrightarrow> clientPieces role = [] \<Longrightarrow> finishReasons role = [] \<Longrightarrow>
       keeps e (setArgs n (a @ delta) acc) (outs @ role @ chatToolArgsChunk e' n k tail)"
proof -
  have old: "toolArgs c n = a" using assms(1-3) by (auto simp: keeps_def)
  then have run: "sendToolTail c n (a @ delta) = (tail, d)" using assms(4,5) by (simp add: chatToolAppendArgs_def)
  show "tail = delta" using more_args(1) [OF assms(1-3) run] by simp
  show "sameTools d e \<Longrightarrow> clientText role = [] \<Longrightarrow> clientPieces role = [] \<Longrightarrow> finishReasons role = [] \<Longrightarrow>
       keeps e (setArgs n (a @ delta) acc) (outs @ role @ chatToolArgsChunk e' n k tail)"
    using more_args(3) [OF assms(1-3) run] changeArgs_setArgs [OF assms(1-3), of "\<lambda>_. a @ delta"] by simp
qed

lemma announce_new:
  assumes "keeps c acc outs" "\<forall>(i', c', n, a) \<in> set (acCalls acc). i' \<noteq> i \<and> i' \<noteq> ci \<and> c' \<noteq> i \<and> c' \<noteq> ci" "i \<noteq> []" "ci \<noteq> []"
    and "chatToolIndex c [i, ci] = (n, c1)"
    and "roleAndChunk (c1\<lparr>scToolNameSent := i # scToolNameSent c1, scSawToolCall := True\<rparr>)
      [(''tool_calls'', JArr [JObj [(''index'', jInt (int n)), (''id'', JStr ci), (''type'', JStr ''function''), (''function'', JObj [(''name'', JStr nm)])]])] = (out, d)"
  shows "n = length (acCalls acc)" "i \<notin> set (scToolNameSent c1)" "keeps d (acc\<lparr>acCalls := acCalls acc @ [(i, ci, nm, [])]\<rparr>) (outs @ out)"
proof -
  have fresh: "map_of (scToolIndexes c) i = None" "map_of (scToolIndexes c) ci = None"
  proof -
    have "map_of (scToolIndexes c) k \<noteq> Some m" if "k = i \<or> k = ci" for k m
    proof
      assume "map_of (scToolIndexes c) k = Some m"
      then have "m < length (acCalls acc)" "k = fst (acCalls acc ! m) \<or> k = fst (snd (acCalls acc ! m))" using assms(1) by (auto simp: keeps_def keptIndexes_def)
      then show False using assms(2) that nth_mem [of m "acCalls acc"] by (cases "acCalls acc ! m") auto
    qed
    then show "map_of (scToolIndexes c) i = None" "map_of (scToolIndexes c) ci = None" by (metis not_None_eq)+
  qed
  then have idx: "n = length (acCalls acc)" "c1 = c\<lparr>scToolCount := n + 1,
      scToolIndexes := AList.update ci n (AList.update i n (scToolIndexes c))\<rparr>"
    using assms(1,3-5) by (auto simp: chatToolIndex_def keeps_def Let_def)
  show "n = length (acCalls acc)" by (rule idx(1))
  show "i \<notin> set (scToolNameSent c1)" using assms(1,2) by (auto simp: idx(2) keeps_def)
  let ?c2 = "c1\<lparr>scToolNameSent := i # scToolNameSent c1, scSawToolCall := True\<rparr>"
  obtain role c3 where role: "ensureChatRole ?c2 = (role, c3)" by (cases "ensureChatRole ?c2")
  note R = ensureChatRole_effect [OF role]
  let ?acc = "acc\<lparr>acCalls := acCalls acc @ [(i, ci, nm, [])]\<rparr>"
  have d: "d = c3" "out = role @ chatChunk c3 [(''tool_calls'', JArr [JObj [(''index'', jInt (int n)), (''id'', JStr ci), (''type'', JStr ''function''),
      (''function'', JObj [(''name'', JStr nm)])]])] None None"
    using assms(6) role by (auto simp: roleAndChunk_def)
  have "clientCalls (outs @ out) = map snd (acCalls ?acc)"
    using assms(1) R idx(1) by (simp add: d(2) clientCalls_append keeps_def entry_Cons addPiece_def pieceIndex_nat)
  moreover have "keptIndexes (scToolIndexes ?c2) (acCalls ?acc)"
    using keptIndexes_add [of "scToolIndexes c" "acCalls acc" i ci nm "[]"] assms(1,2) idx by (simp add: keeps_def)
  ultimately have "keeps ?c2 ?acc (outs @ out)"
    using assms(1,3,4) R idx by (auto simp: d(2) keeps_def toolArgs_def nth_append entry_Cons less_Suc_eq)
  then show "keeps d ?acc (outs @ out)" using R(1) keeps_sameTools by (simp add: d(1))
qed

lemma announced_nth:
  assumes "list_ex (\<lambda>(i', c', n, a). i' = i \<and> P c') calls"
  obtains n ci nm a where "n < length calls" "calls ! n = (i, ci, nm, a)" "P ci"
  using assms by (auto simp: list_ex_iff in_set_conv_nth split: prod.splits)

lemma announceCall_keeps:
  assumes "keeps c acc outs" "announceCall env item c = (out, d)" "textAt env item [''id''] = i" "textAt env item [''call_id''] = ci"
    and "i \<noteq> []" "ci \<noteq> []" "list_ex (\<lambda>(i', c', n, a). i' = i \<and> c' = ci) (acCalls acc) \<or>
      list_all (\<lambda>(i', c', n, a). i' \<noteq> i \<and> i' \<noteq> ci \<and> c' \<noteq> i \<and> c' \<noteq> ci) (acCalls acc)"
  shows "keeps d (if i \<in> fst ` set (acCalls acc) then acc\<lparr>acCalls := changeArgs i (\<lambda>old. extendArgs old (textAt env item [''arguments''])) (acCalls acc)\<rparr>
      else acc\<lparr>acCalls := acCalls acc @ [(i, ci, textAt env item [''name''], textAt env item [''arguments''])]\<rparr>) (outs @ out)"
  using assms(7)
proof
  let ?args = "textAt env item [''arguments'']" and ?nm = "textAt env item [''name'']"
  assume "list_ex (\<lambda>(i', c', n, a). i' = i \<and> c' = ci) (acCalls acc)"
  then obtain n ci' nm a where n: "n < length (acCalls acc)" "acCalls acc ! n = (i, ci', nm, a)" "ci' = ci"
    by (rule announced_nth)
  have idx: "chatToolIndex c [i, ci] = (n, c)" using chatToolIndex_known [OF assms(1) n(1,2)] n(3) by simp
  have mem: "i \<in> fst ` set (acCalls acc)" using n(1,2) nth_mem by force
  then have named: "i \<in> set (scToolNameSent c)" using assms(1) by (simp add: keeps_def)
  obtain tail c3 where rec: "chatToolRecordArgs c n ?args = (tail, c3)" by (cases "chatToolRecordArgs c n ?args")
  have run: "(out, d) = (if tail = [] then ([], c3) else (chatToolArgsChunk (c3\<lparr>scSawToolCall := True\<rparr>) n ci tail, c3\<lparr>scSawToolCall := True\<rparr>))"
    using assms(2,5,6) by (auto simp: announceCall_def assms(3,4) idx named rec Let_def)
  note R = record_keeps [OF assms(1) n(1,2) rec]
  have acc': "acc\<lparr>acCalls := changeArgs i (\<lambda>old. extendArgs old ?args) (acCalls acc)\<rparr> = setArgs n (a @ tail) acc"
    using changeArgs_setArgs [OF assms(1) n(1,2)] R(1) by simp
  show ?thesis
  proof (cases "tail = []")
    case True
    then show ?thesis using R(2) run mem acc' by simp
  next
    case False
    have "scSawToolCall c3"
      using assms(1) n(1) rec by (auto simp: keeps_def chatToolRecordArgs_def sendToolTail_def Let_def split: if_splits)
    then have "sameTools c3 (c3\<lparr>scSawToolCall := True\<rparr>)" by (simp add: sameTools_def)
    then show ?thesis using R(3) [of "c3\<lparr>scSawToolCall := True\<rparr>" "[]"] False run mem acc' by simp
  qed
next
  let ?args = "textAt env item [''arguments'']" and ?nm = "textAt env item [''name'']"
  assume fresh: "list_all (\<lambda>(i', c', n, a). i' \<noteq> i \<and> i' \<noteq> ci \<and> c' \<noteq> i \<and> c' \<noteq> ci) (acCalls acc)"
  then have fresh': "\<forall>(i', c', n, a) \<in> set (acCalls acc). i' \<noteq> i \<and> i' \<noteq> ci \<and> c' \<noteq> i \<and> c' \<noteq> ci" by (simp add: list_all_iff)
  have new: "i \<notin> fst ` set (acCalls acc)" using fresh' by auto
  obtain n c1 where idx: "chatToolIndex c [i, ci] = (n, c1)" by (cases "chatToolIndex c [i, ci]")
  let ?chunk = "[(''tool_calls'', JArr [JObj [(''index'', jInt (int n)), (''id'', JStr ci), (''type'', JStr ''function''), (''function'', JObj [(''name'', JStr ?nm)])]])]"
  obtain out1 c2 where said: "roleAndChunk (c1\<lparr>scToolNameSent := i # scToolNameSent c1, scSawToolCall := True\<rparr>) ?chunk = (out1, c2)"
    by (cases "roleAndChunk (c1\<lparr>scToolNameSent := i # scToolNameSent c1, scSawToolCall := True\<rparr>) ?chunk")
  note A = announce_new [OF assms(1) fresh' assms(5,6) idx said]
  let ?acc1 = "acc\<lparr>acCalls := acCalls acc @ [(i, ci, ?nm, [])]\<rparr>"
  obtain tail c3 where rec: "chatToolRecordArgs c2 n ?args = (tail, c3)" by (cases "chatToolRecordArgs c2 n ?args")
  have run: "(out, d) = (if tail = [] then (out1, c3) else (out1 @ chatToolArgsChunk (c3\<lparr>scSawToolCall := True\<rparr>) n ci tail, c3\<lparr>scSawToolCall := True\<rparr>))"
    using assms(2,5,6) A(2) said by (auto simp: announceCall_def assms(3,4) idx rec Let_def)
  have n: "n < length (acCalls ?acc1)" "acCalls ?acc1 ! n = (i, ci, ?nm, [])" using A(1) by simp_all
  note R = record_keeps [OF A(3) n rec]
  have tail: "tail = ?args" using R(1) by (auto simp: extendArgs_def hasPrefix_def split: if_splits)
  then have acc': "setArgs n ([] @ tail) ?acc1 = acc\<lparr>acCalls := acCalls acc @ [(i, ci, ?nm, ?args)]\<rparr>"
    using A(1) by (simp add: setArgs_def)
  show ?thesis
  proof (cases "tail = []")
    case True
    then show ?thesis using R(2) run new acc' by simp
  next
    case False
    have "scSawToolCall c3"
      using A(3) rec by (auto simp: keeps_def chatToolRecordArgs_def sendToolTail_def Let_def split: if_splits)
    then have "sameTools c3 (c3\<lparr>scSawToolCall := True\<rparr>)" by (simp add: sameTools_def)
    then show ?thesis using R(3) [of "c3\<lparr>scSawToolCall := True\<rparr>" "[]"] False run new acc' by simp
  qed
qed

lemma sameTools_saw: "keeps c acc outs \<Longrightarrow> acCalls acc \<noteq> [] \<Longrightarrow> c\<lparr>scSawToolCall := True\<rparr> = c"
  by (simp add: keeps_def)

lemma argsDelta_keeps:
  assumes "keeps c acc outs" "argsDelta env p c = (out, d)" "textAt env p [''item_id''] = i"
    and "list_ex (\<lambda>(i', c', n, a). i' = i \<and> textAt env p [''call_id''] \<in> {[], c'}) (acCalls acc)"
  shows "keeps d (acc\<lparr>acCalls := changeArgs i (\<lambda>old. old @ textAt env p [''delta'']) (acCalls acc)\<rparr>) (outs @ out)"
proof -
  let ?delta = "textAt env p [''delta'']"
  obtain n ci nm a where n: "n < length (acCalls acc)" "acCalls acc ! n = (i, ci, nm, a)" "textAt env p [''call_id''] \<in> {[], ci}"
    using assms(4) by (rule announced_nth)
  have idx: "chatToolIndex c [i, textAt env p [''call_id'']] = (n, c)" by (rule chatToolIndex_known [OF assms(1) n])
  have acc': "acc\<lparr>acCalls := changeArgs i (\<lambda>old. old @ ?delta) (acCalls acc)\<rparr> = setArgs n (a @ ?delta) acc"
    by (rule changeArgs_setArgs [OF assms(1) n(1,2)])
  have saw: "c\<lparr>scSawToolCall := True\<rparr> = c" using assms(1) n(1) by (intro sameTools_saw) auto
  show ?thesis
  proof (cases "?delta = []")
    case True
    then show ?thesis using assms(1,2) acc' setArgs_same [OF n(2)] by (simp add: argsDelta_def Let_def)
  next
    case False
    obtain tail c2 where app: "chatToolAppendArgs c n ?delta = (tail, c2)" by (cases "chatToolAppendArgs c n ?delta")
    note P = append_keeps [OF assms(1) n(1,2) app False]
    obtain role c3 where role: "ensureChatRole c2 = (role, c3)" by (cases "ensureChatRole c2")
    note E = ensureChatRole_effect [OF role]
    have "\<exists>k. out = role @ chatToolArgsChunk c3 n k tail" "d = c3"
      using assms(2) False P(1) by (auto simp: argsDelta_def assms(3) idx saw app role Let_def)
    then show ?thesis using P(2) [OF E] acc' by auto
  qed
qed

lemma argsDone_keeps:
  assumes "keeps c acc outs" "argsDone env p c = (out, d)" "textAt env p [''item_id''] = i"
    and "list_ex (\<lambda>(i', c', n, a). i' = i \<and> textAt env p [''call_id''] \<in> {[], c'}) (acCalls acc)"
  shows "keeps d (acc\<lparr>acCalls := changeArgs i (\<lambda>old. extendArgs old (textAt env p [''arguments''])) (acCalls acc)\<rparr>) (outs @ out)"
proof -
  let ?args = "textAt env p [''arguments'']"
  obtain n ci nm a where n: "n < length (acCalls acc)" "acCalls acc ! n = (i, ci, nm, a)" "textAt env p [''call_id''] \<in> {[], ci}"
    using assms(4) by (rule announced_nth)
  have idx: "chatToolIndex c [i, textAt env p [''call_id'']] = (n, c)" by (rule chatToolIndex_known [OF assms(1) n])
  have pos: "i \<noteq> []" using assms(1) n(1,2) nth_mem [OF n(1)] by (auto simp: keeps_def)
  obtain tail c2 where rec: "chatToolRecordArgs c n ?args = (tail, c2)" by (cases "chatToolRecordArgs c n ?args")
  note P = record_keeps [OF assms(1) n(1,2) rec]
  have acc': "acc\<lparr>acCalls := changeArgs i (\<lambda>old. extendArgs old ?args) (acCalls acc)\<rparr> = setArgs n (a @ tail) acc"
    using changeArgs_setArgs [OF assms(1) n(1,2)] P(1) by simp
  show ?thesis
  proof (cases "tail = []")
    case True
    then show ?thesis using P(2) assms(2) acc' pos by (simp add: argsDone_def assms(3) idx rec Let_def)
  next
    case False
    have "scSawToolCall c2"
      using assms(1) n(1) rec by (auto simp: keeps_def chatToolRecordArgs_def sendToolTail_def Let_def split: if_splits)
    then have saw: "c2\<lparr>scSawToolCall := True\<rparr> = c2" by simp
    obtain role c3 where role: "ensureChatRole c2 = (role, c3)" by (cases "ensureChatRole c2")
    note E = ensureChatRole_effect [OF role]
    have "\<exists>k. out = role @ chatToolArgsChunk c3 n k tail" "d = c3"
      using assms(2) False pos by (auto simp: argsDone_def assms(3) idx rec saw role Let_def)
    then show ?thesis using P(3) [OF False E] acc' by auto
  qed
qed

lemma step_keeps:
  assumes "keeps c0 acc outs" "addressed env acc p" "responsesToChat env p c0 = (out, d)"
  shows "keeps d (accountEvent env acc p) (outs @ out)"
proof -
  define c where "c = captureResponseMetadata env p c0"
  define kind where "kind = textAt env p [''type'']"
  have k: "keeps c acc outs" unfolding c_def using capture_sameTools keeps_sameTools assms(1) by blast
  then have k': "keeps c acc (outs @ [])" by simp
  note defs = responsesToChat_def accountEvent_def addressed_def c_def [symmetric] kind_def [symmetric] Let_def
  consider (reason) "kind \<in> {''response.reasoning_summary_text.delta'', ''response.reasoning_text.delta''}" | (words) "kind = ''response.output_text.delta''"
    | (refusal) "kind = ''response.refusal.delta''" | (added) "kind = ''response.output_item.added''"
    | (delta) "kind = ''response.function_call_arguments.delta''" | (args_done) "kind = ''response.function_call_arguments.done''"
    | (final) "kind \<in> {''response.completed'', ''response.failed'', ''response.incomplete''}"
    | (other) "kind \<notin> {''response.reasoning_summary_text.delta'', ''response.reasoning_text.delta''}" "kind \<noteq> ''response.output_text.delta''"
        "kind \<noteq> ''response.refusal.delta''" "kind \<noteq> ''response.output_item.added''" "kind \<noteq> ''response.function_call_arguments.delta''"
        "kind \<noteq> ''response.function_call_arguments.done''" "kind \<notin> {''response.completed'', ''response.failed'', ''response.incomplete''}"
    by satx
  then show ?thesis
  proof cases
    case reason
    then have "chatDelta c ''reasoning_content'' (textAt env p [''delta'']) = (out, d)" "accountEvent env acc p = acc"
      using assms(3) by (auto simp: defs)
    then show ?thesis using chatDelta_keeps [OF k] by fastforce
  next
    case words
    then have run: "chatDelta (c\<lparr>scOutputText := scOutputText c @ textAt env p [''delta'']\<rparr>) ''content'' (textAt env p [''delta'']) = (out, d)"
      "accountEvent env acc p = acc\<lparr>acText := acText acc @ textAt env p [''delta'']\<rparr>"
      using assms(3) by (auto simp: defs)
    have "keeps (c\<lparr>scOutputText := scOutputText c @ textAt env p [''delta'']\<rparr>) acc outs"
      by (rule keeps_sameTools [OF _ k]) (simp add: sameTools_def)
    from chatDelta_keeps [OF this run(1)] show ?thesis by (simp add: run(2))
  next
    case refusal
    then have "chatDelta c ''refusal'' (textAt env p [''delta'']) = (out, d)" "accountEvent env acc p = acc"
      using assms(3) by (auto simp: defs)
    then show ?thesis using chatDelta_keeps [OF k] by fastforce
  next
    case added
    show ?thesis
    proof (cases "\<exists>item. gjGet p [''item''] = Some item \<and> textAt env item [''type''] = ''function_call''")
      case False
      then have "out = []" "d = c" "accountEvent env acc p = acc" using assms(3) added by (auto simp: defs split: option.splits)
      then show ?thesis using k by simp
    next
      case True
      then obtain item where item: "gjGet p [''item''] = Some item" "textAt env item [''type''] = ''function_call''" by blast
      then have run: "announceCall env item c = (out, d)" using assms(3) added by (simp add: defs)
      have "textAt env item [''id''] \<noteq> []" "textAt env item [''call_id''] \<noteq> []"
        "list_ex (\<lambda>(i', c', n, a). i' = textAt env item [''id''] \<and> c' = textAt env item [''call_id'']) (acCalls acc) \<or>
         list_all (\<lambda>(i', c', n, a). i' \<noteq> textAt env item [''id''] \<and> i' \<noteq> textAt env item [''call_id''] \<and>
            c' \<noteq> textAt env item [''id''] \<and> c' \<noteq> textAt env item [''call_id'']) (acCalls acc)"
        using assms(2) added item by (simp_all add: defs)
      from announceCall_keeps [OF k run refl refl this] show ?thesis
        using added item by (simp add: defs)
    qed
  next
    case delta
    then have "argsDelta env p c = (out, d)" using assms(3) by (simp add: defs)
    moreover have "list_ex (\<lambda>(i, c, n, a). i = textAt env p [''item_id''] \<and> textAt env p [''call_id''] \<in> {[], c}) (acCalls acc)"
      using assms(2) delta by (simp add: defs)
    ultimately show ?thesis using argsDelta_keeps [OF k _ refl] delta by (simp add: defs)
  next
    case args_done
    then have "argsDone env p c = (out, d)" using assms(3) by (simp add: defs)
    moreover have "list_ex (\<lambda>(i, c, n, a). i = textAt env p [''item_id''] \<and> textAt env p [''call_id''] \<in> {[], c}) (acCalls acc)"
      using assms(2) args_done by (simp add: defs)
    ultimately show ?thesis using argsDone_keeps [OF k _ refl] args_done by (simp add: defs)
  next
    case final
    then show ?thesis by (elim insertE emptyE) (use assms(2) in \<open>simp_all add: defs\<close>)
  next
    case other
    then have "out = []" "d = c" "accountEvent env acc p = acc" using assms(3) by (simp_all add: defs)
    then show ?thesis using k by simp
  qed
qed

lemma run_keeps:
  "keeps c acc outs \<Longrightarrow> allAddressed env acc ps \<Longrightarrow> runToChat env ps c = (out, d) \<Longrightarrow> keeps d (foldl (accountEvent env) acc ps) (outs @ out)"
proof (induction ps arbitrary: c acc outs out)
  case (Cons p ps)
  obtain out1 c1 where one: "responsesToChat env p c = (out1, c1)" by (cases "responsesToChat env p c")
  obtain out2 where two: "runToChat env ps c1 = (out2, d)" "out = out1 @ out2" using Cons.prems(3) one by (auto split: prod.splits)
  have "keeps c1 (accountEvent env acc p) (outs @ out1)" using step_keeps Cons.prems one by simp
  with Cons.IH [OF this _ two(1)] Cons.prems(2) two(2) show ?case by simp
qed simp

lemma flush_nothing:
  assumes "\<forall>n. scToolArgsSent c n = length (toolArgs c n)"
  shows "chatToolFlushPendingArgs c = ([], c)"
proof -
  have "foldl flushOne ([], c) ns = ([], c)" for ns
    using assms by (induction ns) (simp_all add: flushOne_def)
  then show ?thesis by (simp add: chatToolFlushPendingArgs_def)
qed

lemma complete_chat:
  assumes "keeps c acc outs" "completeChat c = (out, d)"
  shows "clientText (outs @ out) = acText acc" "clientCalls (outs @ out) = map snd (acCalls acc)"
    "finishReasons (outs @ out) = [if acCalls acc = [] then ''stop'' else ''tool_calls'']" "scCompleted d" "last out = SseDone"
proof -
  let ?c = "c\<lparr>scCompleted := True\<rparr>"
  have none: "chatToolFlushPendingArgs ?c = ([], ?c)"
    by (rule flush_nothing) (use assms(1) in \<open>simp add: keeps_def toolArgs_def\<close>)
  have out: "out = chatChunk ?c [] (Some (if scSawToolCall c then ''tool_calls'' else ''stop'')) (map_option responseUsageToChat (scUsage c)) @ [SseDone]" "d = ?c"
    using assms none by (auto simp: completeChat_def completeChatStream_def keeps_def Let_def)
  show "clientText (outs @ out) = acText acc" "clientCalls (outs @ out) = map snd (acCalls acc)"
    "finishReasons (outs @ out) = [if acCalls acc = [] then ''stop'' else ''tool_calls'']" "scCompleted d" "last out = SseDone"
    using assms(1) by (simp_all add: out keeps_def clientCalls_append)
qed

lemma keeps_usage: "keeps c acc outs \<Longrightarrow> keeps (c\<lparr>scUsage := u\<rparr>) acc outs"
  by (simp add: keeps_def toolArgs_def)

lemma keeps_start: "keeps (NewStreamConverter ChatToResponses now) emptyAccount []"
  by (auto simp: keeps_def NewStreamConverter_def emptyAccount_def keptIndexes_def toolArgs_def clientCalls_def)

lemma stream_client:
  assumes "allAddressed env emptyAccount ps" "textAt env p [''type''] = ''response.completed''"
    and "runToChat env (ps @ [p]) (NewStreamConverter ChatToResponses now) = (out, d)" "acc = foldl (accountEvent env) emptyAccount ps"
  shows "clientText out = acText acc" "clientCalls out = map snd (acCalls acc)"
    "finishReasons out = [if acCalls acc = [] then ''stop'' else ''tool_calls'']" "last out = SseDone" "completeChat d = ([], d)"
proof -
  have split: "runToChat env (xs @ ys) c = (case runToChat env xs c of (o1, c1) \<Rightarrow> case runToChat env ys c1 of (o2, c2) \<Rightarrow> (o1 @ o2, c2))" for xs ys c
    by (induction xs arbitrary: c) (auto split: prod.splits)
  obtain out1 c1 where one: "runToChat env ps (NewStreamConverter ChatToResponses now) = (out1, c1)"
    by (cases "runToChat env ps (NewStreamConverter ChatToResponses now)")
  obtain out2 where two: "responsesToChat env p c1 = (out2, d)" "out = out1 @ out2"
    using assms(3) one by (auto simp: split split: prod.splits)
  have "keeps c1 acc out1" using run_keeps [OF keeps_start assms(1) one] assms(4) by simp
  then have k: "keeps (captureResponseMetadata env p c1) acc out1" using capture_sameTools keeps_sameTools by blast
  obtain u where fin: "completeChat ((captureResponseMetadata env p c1)\<lparr>scUsage := u\<rparr>) = (out2, d)"
  proof (cases "gjGet p [''response'', ''usage'']")
    case None
    then have "completeChat ((captureResponseMetadata env p c1)\<lparr>scUsage := scUsage (captureResponseMetadata env p c1)\<rparr>) = (out2, d)"
      using two(1) assms(2) by (simp add: responsesToChat_def Let_def)
    then show ?thesis by (rule that)
  next
    case (Some u)
    then have "completeChat ((captureResponseMetadata env p c1)\<lparr>scUsage := jsonObject (seNum env) u\<rparr>) = (out2, d)"
      using two(1) assms(2) by (simp add: responsesToChat_def Let_def)
    then show ?thesis by (rule that)
  qed
  note C = complete_chat [OF keeps_usage [OF k] fin]
  have "out2 \<noteq> []" using fin k by (auto simp: completeChat_def completeChatStream_def keeps_def split: prod.splits)
  then show "clientText out = acText acc" "clientCalls out = map snd (acCalls acc)"
    "finishReasons out = [if acCalls acc = [] then ''stop'' else ''tool_calls'']" "last out = SseDone" "completeChat d = ([], d)"
    using C by (simp_all add: two(2) completeChat_def)
qed


subsection \<open>Two calls at the same time\<close>

definition exampleStreamEnv :: streamEnv where
  "exampleStreamEnv = \<lparr>seGjson = \<lparr>gjNum = (\<lambda>t. t), gjRaw = (\<lambda>_. []), gjInt = (\<lambda>_. 0)\<rparr>, seNum = (\<lambda>t. t), seValue = (\<lambda>_. 0)\<rparr>"

definition addedEvent :: "string \<Rightarrow> string \<Rightarrow> string \<Rightarrow> json" where
  "addedEvent i c n = JObj [(''type'', JStr ''response.output_item.added''),
     (''item'', JObj [(''type'', JStr ''function_call''), (''id'', JStr i), (''call_id'', JStr c), (''name'', JStr n)])]"

definition argsEvent :: "string \<Rightarrow> string \<Rightarrow> json" where
  "argsEvent i delta = JObj [(''type'', JStr ''response.function_call_arguments.delta''), (''item_id'', JStr i), (''delta'', JStr delta)]"

definition exampleEvents :: "json list" where
  "exampleEvents = [addedEvent ''fc_1'' ''call_1'' ''read'', addedEvent ''fc_2'' ''call_2'' ''read'', argsEvent ''fc_2'' ''{b'',
     argsEvent ''fc_1'' ''{a}'', addedEvent ''fc_1'' ''call_1'' ''read'', argsEvent ''fc_2'' ''}'']"

definition completedEvent :: json where "completedEvent = JObj [(''type'', JStr ''response.completed'')]"


text \<open>
  The upstream of OpenAI names the item, not the call, in the pieces of the arguments.  The converter then writes the
  id of the item into these chunks, although the call was announced under its own id: a client that takes the id from
  the last chunk answers a call that does not exist.
\<close>

lemma args_chunk_has_item_id:
  "clientPieces (fst (runToChat exampleStreamEnv [addedEvent ''fc_1'' ''call_1'' ''read'', argsEvent ''fc_1'' ''{a}''] (NewStreamConverter ChatToResponses 0))) =
     [[(''index'', jInt 0), (''id'', JStr ''call_1''), (''type'', JStr ''function''), (''function'', JObj [(''name'', JStr ''read'')])],
      [(''index'', jInt 0), (''type'', JStr ''function''), (''function'', JObj [(''arguments'', JStr ''{a}'')]), (''id'', JStr ''fc_1'')]]"
  by (simp add: responsesToChat_def captureResponseMetadata_def addedEvent_def argsEvent_def announceCall_def argsDelta_def roleAndChunk_def ensureChatRole_def
      chatToolIndex_def chatToolRecordArgs_def chatToolAppendArgs_def sendToolTail_def toolArgs_def chatToolArgsChunk_def toolDelta_def
      NewStreamConverter_def entry_Cons Let_def)

text \<open>An answer that is cut short ends without finish reason, and with the document null instead of a chunk.\<close>

lemma incomplete_stream_has_no_finish:
  "fst (responsesToChat exampleStreamEnv (JObj [(''type'', JStr ''response.incomplete''), (''response'', JObj [(''status'', JStr ''incomplete''), (''error'', JNull)])])
     (NewStreamConverter ChatToResponses 0)) = [SseData JNull, SseDone]"
  by (simp add: responsesToChat_def captureResponseMetadata_def failedResponse_def jsonObject_def mapJson_def NewStreamConverter_def Let_def)

end
