(* ===== verification/Stream_To_Responses.thy ===== *)
theory Stream_To_Responses
  imports Stream_Convert
begin

text \<open>
  What a Responses client gets of a Chat stream.  The client is an automaton that accepts the events of a Responses
  stream in their order and puts the pieces of the output items together; the converter is shown to satisfy it.
\<close>

subsection \<open>The client\<close>

record openItem =
  oiID :: string
  oiText :: string
  oiPart :: bool
  oiDone :: bool

record respClient =
  rcOk :: bool
  rcCreated :: bool
  rcItems :: "(nat \<times> openItem) list"
  rcCompleted :: bool

definition newClient :: respClient where
  "newClient = \<lparr>rcOk = True, rcCreated = False, rcItems = [], rcCompleted = False\<rparr>"

definition evIndex :: "goMap \<Rightarrow> nat" where
  "evIndex m = (case entry m ''output_index'' of JNum t \<Rightarrow> (case parseNat t of Some n \<Rightarrow> n | None \<Rightarrow> 0) | _ \<Rightarrow> 0)"

text \<open>An event about an open item: it must be announced, not done, and named with its id.\<close>

definition onItem :: "goMap \<Rightarrow> string \<Rightarrow> (openItem \<Rightarrow> bool) \<Rightarrow> (openItem \<Rightarrow> openItem) \<Rightarrow> respClient \<Rightarrow> respClient" where
  "onItem m ident P f cl =
     (case map_of (rcItems cl) (evIndex m) of
        None \<Rightarrow> cl\<lparr>rcOk := False\<rparr>
      | Some it \<Rightarrow>
          if ident = oiID it \<and> \<not> oiDone it \<and> P it then cl\<lparr>rcItems := AList.update (evIndex m) (f it) (rcItems cl)\<rparr>
          else cl\<lparr>rcOk := False\<rparr>)"

definition itemIdent :: "goMap \<Rightarrow> string" where
  "itemIdent m = (case objectValue (entry m ''item'') of None \<Rightarrow> [] | Some item \<Rightarrow> stringValue (entry item ''id''))"

definition clientEvent :: "string \<Rightarrow> goMap \<Rightarrow> respClient \<Rightarrow> respClient" where
  "clientEvent kind m cl =
     (let item_id = stringValue (entry m ''item_id''); delta = stringValue (entry m ''delta'') in
      if rcCompleted cl then cl\<lparr>rcOk := False\<rparr>
      else if kind = ''response.created'' then cl\<lparr>rcOk := rcOk cl \<and> \<not> rcCreated cl, rcCreated := True\<rparr>
      else if \<not> rcCreated cl then cl\<lparr>rcOk := False\<rparr>
      else if kind = ''response.output_item.added'' then
        (if map_of (rcItems cl) (evIndex m) \<noteq> None then cl\<lparr>rcOk := False\<rparr>
         else cl\<lparr>rcItems := AList.update (evIndex m) \<lparr>oiID = itemIdent m, oiText = [], oiPart = False, oiDone = False\<rparr> (rcItems cl)\<rparr>)
      else if kind \<in> {''response.content_part.added'', ''response.reasoning_summary_part.added''} then
        onItem m item_id (\<lambda>it. \<not> oiPart it) (\<lambda>it. it\<lparr>oiPart := True\<rparr>) cl
      else if kind \<in> {''response.output_text.delta'', ''response.reasoning_summary_text.delta''} then
        onItem m item_id oiPart (\<lambda>it. it\<lparr>oiText := oiText it @ delta\<rparr>) cl
      else if kind = ''response.function_call_arguments.delta'' then
        onItem m item_id (\<lambda>it. \<not> oiPart it) (\<lambda>it. it\<lparr>oiText := oiText it @ delta\<rparr>) cl
      else if kind \<in> {''response.output_text.done'', ''response.reasoning_summary_text.done''} then
        onItem m item_id (\<lambda>it. oiPart it \<and> stringValue (entry m ''text'') = oiText it) (\<lambda>it. it) cl
      else if kind \<in> {''response.content_part.done'', ''response.reasoning_summary_part.done''} then onItem m item_id oiPart (\<lambda>it. it) cl
      else if kind = ''response.function_call_arguments.done'' then
        (let args = stringValue (entry m ''arguments'') in
         onItem m item_id (\<lambda>it. \<not> oiPart it \<and> (trimSpace (oiText it) = [] \<or> args = oiText it)) (\<lambda>it. it\<lparr>oiText := args\<rparr>) cl)
      else if kind = ''response.output_item.done'' then onItem m (itemIdent m) (\<lambda>_. True) (\<lambda>it. it\<lparr>oiDone := True\<rparr>) cl
      else if kind = ''response.completed'' then cl\<lparr>rcOk := rcOk cl \<and> list_all (\<lambda>(i, it). oiDone it) (rcItems cl), rcCompleted := True\<rparr>
      else cl\<lparr>rcOk := False\<rparr>)"

definition clientOut :: "respClient \<Rightarrow> sseOut \<Rightarrow> respClient" where
  "clientOut cl out = (case out of SseEvent kind (JObj m) \<Rightarrow> clientEvent kind m cl | _ \<Rightarrow> cl\<lparr>rcOk := False\<rparr>)"

definition clientReads :: "respClient \<Rightarrow> sseOut list \<Rightarrow> respClient" where
  "clientReads = foldl clientOut"

lemma clientReads_simps [simp]:
  "clientReads cl [] = cl" "clientReads cl (x # xs) = clientReads (clientOut cl x) xs" "clientReads cl (xs @ ys) = clientReads (clientReads cl xs) ys"
  by (simp_all add: clientReads_def)

lemma evIndex_item [simp]: "evIndex ([(''type'', t), (''output_index'', jInt (int n))] @ m) = n" "evIndex ((''type'', t) # (''output_index'', jInt (int n)) # m) = n"
  by (simp_all add: evIndex_def entry_Cons jInt_def showInt_def)

lemma evIndex_small [simp]: "evIndex ((''type'', t) # (''output_index'', jInt 0) # m) = 0" "evIndex ((''type'', t) # (''output_index'', jInt 1) # m) = 1"
  using evIndex_item(2) [of t 0 m] evIndex_item(2) [of t 1 m] by simp_all

subsection \<open>What the client holds of a converter\<close>

text \<open>
  The calls have the indexes after the message in the order of their creation, an announced call has been sent all
  its arguments and the others have no name and nothing sent.
\<close>

definition toolOk :: "responsesToolState \<Rightarrow> bool" where
  "toolOk t \<longleftrightarrow> (if rtAnnounced t then rtSentArgs t = length (rtArgs t) else rtSentArgs t = 0 \<and> rtName t = [])"

definition toolsOk :: "streamConverter \<Rightarrow> bool" where
  "toolsOk c \<longleftrightarrow> distinct (map fst (scResponsesTools c)) \<and> length (scResponsesTools c) = scResponsesToolSeq c \<and>
     map (rtOutputIndex \<circ> snd) (scResponsesTools c) = [responsesMessageIndex c + 1 ..< responsesMessageIndex c + 1 + scResponsesToolSeq c] \<and>
     (\<forall>(i, t) \<in> set (scResponsesTools c). toolOk t)"

definition expectedItem :: "streamConverter \<Rightarrow> nat \<Rightarrow> openItem option" where
  "expectedItem c idx =
     (let mi = responsesMessageIndex c in
      if \<not> scStarted c then None
      else if idx = mi then Some \<lparr>oiID = responseMessageID, oiText = scOutputText c, oiPart = scContentStarted c, oiDone = False\<rparr>
      else if idx < mi then Some \<lparr>oiID = responseReasoningID, oiText = scReasoningText c, oiPart = True, oiDone = False\<rparr>
      else if idx - (mi + 1) < length (scResponsesTools c) then
        (let t = snd (scResponsesTools c ! (idx - (mi + 1))) in
         if rtAnnounced t then Some \<lparr>oiID = rtItemID t, oiText = rtArgs t, oiPart = False, oiDone = False\<rparr> else None)
      else None)"

definition follows :: "streamConverter \<Rightarrow> respClient \<Rightarrow> bool" where
  "follows c cl \<longleftrightarrow>
     rcOk cl \<and> \<not> rcCompleted cl \<and> (rcCreated cl \<longleftrightarrow> scStarted c) \<and> \<not> scReasoningAfterMessage c \<and> toolsOk c \<and>
     (\<not> scStarted c \<longrightarrow> \<not> scContentStarted c \<and> \<not> scReasoningStarted c \<and> scOutputText c = [] \<and> scReasoningText c = [] \<and>
        (\<forall>(i, t) \<in> set (scResponsesTools c). \<not> rtAnnounced t)) \<and>
     distinct (map fst (rcItems cl)) \<and> (\<forall>idx. map_of (rcItems cl) idx = expectedItem c idx)"

lemma follows_start: "follows (NewStreamConverter ResponsesToChat now) newClient"
  by (simp add: follows_def NewStreamConverter_def newClient_def toolsOk_def expectedItem_def)

lemma clientOut_item: "clientOut cl (itemEvent kind n fs) = clientEvent kind ((''type'', JStr kind) # (''output_index'', jInt (int n)) # fs) cl"
  by (simp add: clientOut_def itemEvent_def)

text \<open>One item changes, or one is new.\<close>

lemma follows_change:
  assumes "follows c cl" "scStarted c' \<longleftrightarrow> scStarted c" "scStarted c" "\<not> scReasoningAfterMessage c'" "toolsOk c'"
    and "\<And>idx. expectedItem c' idx = (if idx = n then Some it else expectedItem c idx)"
  shows "follows c' (cl\<lparr>rcItems := AList.update n it (rcItems cl)\<rparr>)"
  using assms by (auto simp: follows_def update_conv' distinct_update)

lemma follows_same:
  assumes "follows c cl" "scStarted c' = scStarted c" "\<not> scReasoningAfterMessage c'" "toolsOk c'"
    and "\<not> scStarted c \<Longrightarrow> \<not> scContentStarted c' \<and> \<not> scReasoningStarted c' \<and> scOutputText c' = [] \<and> scReasoningText c' = [] \<and>
        (\<forall>(i, t) \<in> set (scResponsesTools c'). \<not> rtAnnounced t)"
    and "\<And>idx. expectedItem c' idx = expectedItem c idx"
  shows "follows c' cl"
  using assms by (auto simp: follows_def)

lemma ensureStarted_follows:
  assumes "follows c cl" "ensureResponsesStarted c = (out, d)"
  shows "follows d (clientReads cl out)" "scStarted d" "d = c\<lparr>scStarted := True\<rparr>"
proof -
  have "follows d (clientReads cl out) \<and> scStarted d \<and> d = c\<lparr>scStarted := True\<rparr>"
  proof (cases "scStarted c")
    case True
    then show ?thesis using assms by (auto simp: ensureResponsesStarted_def)
  next
    case False
    let ?d = "c\<lparr>scStarted := True\<rparr>"
    have run: "out = [responseCreated ?d, itemAdded (responsesMessageIndex ?d) (responseOutputItem ?d)]" "d = ?d"
      using assms(2) False by (auto simp: ensureResponsesStarted_def Let_def)
    have f: "rcOk cl" "\<not> rcCompleted cl" "\<not> rcCreated cl" "\<not> scReasoningAfterMessage c" "toolsOk c" "\<not> scContentStarted c" "\<not> scReasoningStarted c"
      "scOutputText c = []" "\<forall>(i, t) \<in> set (scResponsesTools c). \<not> rtAnnounced t" "distinct (map fst (rcItems cl))" "\<And>idx. map_of (rcItems cl) idx = None"
      using assms(1) False by (auto simp: follows_def expectedItem_def)
    have mi: "responsesMessageIndex ?d = 0" using f(7) by (simp add: responsesMessageIndex_def)
    have reads: "clientReads cl out = cl\<lparr>rcCreated := True,
        rcItems := AList.update 0 \<lparr>oiID = responseMessageID, oiText = [], oiPart = False, oiDone = False\<rparr> (rcItems cl)\<rparr>"
      using f by (cases cl) (simp add: run(1) mi clientOut_item itemAdded_def responseCreated_def clientOut_def [of _ "SseEvent _ _"] clientEvent_def itemIdent_def responseOutputItem_def entry_Cons)
    have "\<not> rtAnnounced (snd (scResponsesTools c ! k))" if "k < length (scResponsesTools c)" for k
      using f(9) nth_mem [OF that] by (cases "scResponsesTools c ! k") auto
    then have "expectedItem ?d idx = (if idx = 0 then Some \<lparr>oiID = responseMessageID, oiText = [], oiPart = False, oiDone = False\<rparr> else None)" for idx
      using f(6,8) mi by (auto simp: expectedItem_def Let_def)
    moreover have "toolsOk ?d" using f(5,7) mi by (simp add: toolsOk_def responsesMessageIndex_def)
    ultimately have "follows ?d (clientReads cl out)"
      using f by (auto simp: follows_def reads update_conv' distinct_update)
    then show ?thesis by (simp add: run(2))
  qed
  then show "follows d (clientReads cl out)" "d = c\<lparr>scStarted := True\<rparr>" by blast+
  then show "scStarted d" by simp
qed

lemma message_item: "follows c cl \<Longrightarrow> scStarted c \<Longrightarrow>
    map_of (rcItems cl) (responsesMessageIndex c) = Some \<lparr>oiID = responseMessageID, oiText = scOutputText c, oiPart = scContentStarted c, oiDone = False\<rparr>"
  by (simp add: follows_def expectedItem_def Let_def)

lemma follows_flags: "follows c cl \<Longrightarrow> scStarted c \<Longrightarrow> rcOk cl \<and> \<not> rcCompleted cl \<and> rcCreated cl"
  by (simp add: follows_def)

lemma toolsOk_cong:
  "scResponsesTools c' = scResponsesTools c \<Longrightarrow> scResponsesToolSeq c' = scResponsesToolSeq c \<Longrightarrow> responsesMessageIndex c' = responsesMessageIndex c \<Longrightarrow>
     toolsOk c \<Longrightarrow> toolsOk c'"
  by (simp add: toolsOk_def)

lemma ensureText_follows:
  assumes "follows c cl" "ensureResponsesTextStarted c = (out, d)"
  shows "follows d (clientReads cl out)" "scStarted d" "scContentStarted d" "d = c\<lparr>scStarted := True, scContentStarted := True\<rparr>"
proof -
  obtain o1 c1 where one: "ensureResponsesStarted c = (o1, c1)" by (cases "ensureResponsesStarted c")
  note S = ensureStarted_follows [OF assms(1) one]
  have "follows d (clientReads cl out) \<and> d = c\<lparr>scStarted := True, scContentStarted := True\<rparr>"
  proof (cases "scContentStarted c1")
    case True
    then have "c1\<lparr>scContentStarted := True\<rparr> = c1" by simp
    then show ?thesis using assms(2) one S True by (auto simp: ensureResponsesTextStarted_def)
  next
    case False
    let ?d = "c1\<lparr>scContentStarted := True\<rparr>" and ?cl = "clientReads cl o1"
    have run: "out = o1 @ [textPartEvent ''response.content_part.added'' (responsesMessageIndex ?d) []]" "d = ?d"
      using assms(2) one False by (auto simp: ensureResponsesTextStarted_def Let_def)
    have mi: "responsesMessageIndex ?d = responsesMessageIndex c1" by (simp add: responsesMessageIndex_def)
    note it = message_item [OF S(1,2)] and fl = follows_flags [OF S(1,2)]
    have "clientReads cl out = ?cl\<lparr>rcItems := AList.update (responsesMessageIndex c1)
        \<lparr>oiID = responseMessageID, oiText = scOutputText c1, oiPart = True, oiDone = False\<rparr> (rcItems ?cl)\<rparr>"
      using it fl False by (simp add: run(1) mi textPartEvent_def clientOut_item clientEvent_def onItem_def entry_Cons Let_def)
    moreover have "follows ?d \<dots>"
    proof (rule follows_change [OF S(1)])
      show "toolsOk ?d" by (rule toolsOk_cong [of _ c1]) (use S(1) mi in \<open>simp_all add: follows_def\<close>)
      show "expectedItem ?d idx = (if idx = responsesMessageIndex c1 then Some \<lparr>oiID = responseMessageID, oiText = scOutputText c1, oiPart = True, oiDone = False\<rparr>
          else expectedItem c1 idx)" for idx
        using S(2) by (simp add: expectedItem_def mi Let_def)
    qed (use S(1,2) in \<open>simp_all add: follows_def\<close>)
    ultimately show ?thesis using S(3) by (simp add: run(2))
  qed
  then show "follows d (clientReads cl out)" "d = c\<lparr>scStarted := True, scContentStarted := True\<rparr>" by blast+
  then show "scStarted d" "scContentStarted d" by simp_all
qed

lemma textPiece_follows:
  assumes "follows c cl" "textPiece delta c = (out, d)"
  shows "follows d (clientReads cl out)"
    "d = (if delta = [] then c else c\<lparr>scStarted := True, scContentStarted := True, scOutputText := scOutputText c @ delta\<rparr>)"
proof -
  have "follows d (clientReads cl out) \<and>
      d = (if delta = [] then c else c\<lparr>scStarted := True, scContentStarted := True, scOutputText := scOutputText c @ delta\<rparr>)"
  proof (cases "delta = []")
    case True
    then show ?thesis using assms by (auto simp: textPiece_def)
  next
    case False
    obtain o1 c1 where one: "ensureResponsesTextStarted c = (o1, c1)" by (cases "ensureResponsesTextStarted c")
    note S = ensureText_follows [OF assms(1) one]
    let ?d = "c1\<lparr>scOutputText := scOutputText c1 @ delta\<rparr>" and ?cl = "clientReads cl o1"
    have run: "out = o1 @ [itemEvent ''response.output_text.delta'' (responsesMessageIndex c1)
            [(''delta'', JStr delta), (''content_index'', jInt 0), (''item_id'', JStr responseMessageID)]]" "d = ?d"
      using assms(2) one False by (auto simp: textPiece_def)
    have mi: "responsesMessageIndex ?d = responsesMessageIndex c1" by (simp add: responsesMessageIndex_def)
    note it = message_item [OF S(1,2)] and fl = follows_flags [OF S(1,2)]
    have "clientReads cl out = ?cl\<lparr>rcItems := AList.update (responsesMessageIndex c1)
        \<lparr>oiID = responseMessageID, oiText = scOutputText c1 @ delta, oiPart = True, oiDone = False\<rparr> (rcItems ?cl)\<rparr>"
      using it fl S(3) by (simp add: run(1) clientOut_item clientEvent_def onItem_def entry_Cons Let_def)
    moreover have "follows ?d \<dots>"
    proof (rule follows_change [OF S(1)])
      show "toolsOk ?d" by (rule toolsOk_cong [of _ c1]) (use S(1) mi in \<open>simp_all add: follows_def\<close>)
      show "expectedItem ?d idx = (if idx = responsesMessageIndex c1 then Some \<lparr>oiID = responseMessageID, oiText = scOutputText c1 @ delta, oiPart = True, oiDone = False\<rparr>
          else expectedItem c1 idx)" for idx
        using S(2,3) by (simp add: expectedItem_def mi Let_def)
    qed (use S(1,2) in \<open>simp_all add: follows_def\<close>)
    ultimately show ?thesis using S(4) False by (simp add: run(2))
  qed
  then show "follows d (clientReads cl out)"
    "d = (if delta = [] then c else c\<lparr>scStarted := True, scContentStarted := True, scOutputText := scOutputText c @ delta\<rparr>)" by blast+
qed

lemma reasoning_item: "follows c cl \<Longrightarrow> scStarted c \<Longrightarrow> scReasoningStarted c \<Longrightarrow>
    map_of (rcItems cl) 0 = Some \<lparr>oiID = responseReasoningID, oiText = scReasoningText c, oiPart = True, oiDone = False\<rparr>"
  by (simp add: follows_def expectedItem_def Let_def responsesMessageIndex_def)

text \<open>Reasoning is the first item, when it starts before everything else.\<close>

definition mayReason :: "streamConverter \<Rightarrow> bool" where
  "mayReason c \<longleftrightarrow> scReasoningStarted c \<or> (\<not> scStarted c \<and> scResponsesTools c = [])"

lemma ensureReasoning_follows:
  assumes "follows c cl" "mayReason c" "ensureResponsesReasoningStarted c = (out, d)"
  shows "follows d (clientReads cl out)" "d = c\<lparr>scStarted := True, scReasoningStarted := True\<rparr>"
proof -
  have "follows d (clientReads cl out) \<and> d = c\<lparr>scStarted := True, scReasoningStarted := True\<rparr>"
  proof (cases "scReasoningStarted c")
    case True
    then have "scStarted c" using assms(1) by (auto simp: follows_def)
    then have "c\<lparr>scStarted := True, scReasoningStarted := True\<rparr> = c" using True by simp
    then show ?thesis using True \<open>scStarted c\<close> assms(1,3) by (auto simp: ensureResponsesReasoningStarted_def)
  next
    case False
    let ?d = "c\<lparr>scReasoningStarted := True, scStarted := True\<rparr>"
    have F: "\<not> scStarted c" "scResponsesTools c = []" using assms(2) False by (auto simp: mayReason_def)
    have f: "rcOk cl" "\<not> rcCompleted cl" "\<not> rcCreated cl" "\<not> scReasoningAfterMessage c" "toolsOk c" "\<not> scContentStarted c"
      "scOutputText c = []" "scReasoningText c = []" "distinct (map fst (rcItems cl))" "\<And>idx. map_of (rcItems cl) idx = None"
      using assms(1) F by (auto simp: follows_def expectedItem_def)
    have mi: "responsesMessageIndex ?d = 1" using f(4) by (simp add: responsesMessageIndex_def)
    have run: "out = [responseCreated ?d, itemAdded 0 (responseReasoningItem ?d), reasoningPart ''response.reasoning_summary_part.added'' 0 [],
               itemAdded 1 (responseOutputItem ?d)]" "d = ?d"
      using assms(3) False F mi by (auto simp: ensureResponsesReasoningStarted_def Let_def)
    have reads: "clientReads cl out = cl\<lparr>rcCreated := True, rcItems :=
        AList.update 1 \<lparr>oiID = responseMessageID, oiText = [], oiPart = False, oiDone = False\<rparr>
          (AList.update 0 \<lparr>oiID = responseReasoningID, oiText = [], oiPart = True, oiDone = False\<rparr>
          (AList.update 0 \<lparr>oiID = responseReasoningID, oiText = [], oiPart = False, oiDone = False\<rparr> (rcItems cl)))\<rparr>"
      using f by (cases cl) (simp add: run(1) clientOut_item itemAdded_def reasoningPart_def responseCreated_def clientOut_def [of _ "SseEvent _ _"]
          clientEvent_def onItem_def itemIdent_def responseOutputItem_def responseReasoningItem_def entry_Cons update_conv')
    have "expectedItem ?d idx = (if idx = 1 then Some \<lparr>oiID = responseMessageID, oiText = [], oiPart = False, oiDone = False\<rparr>
        else if idx = 0 then Some \<lparr>oiID = responseReasoningID, oiText = [], oiPart = True, oiDone = False\<rparr> else None)" for idx
      using f(6,7,8) F mi by (auto simp: expectedItem_def Let_def)
    moreover have "toolsOk ?d" using f(5) F by (simp add: toolsOk_def)
    ultimately have "follows ?d (clientReads cl out)"
      using f F by (auto simp: follows_def reads update_conv' distinct_update)
    then show ?thesis by (simp add: run(2))
  qed
  then show "follows d (clientReads cl out)" "d = c\<lparr>scStarted := True, scReasoningStarted := True\<rparr>" by blast+
qed

lemma reasoningPiece_follows:
  assumes "follows c cl" "delta \<noteq> [] \<Longrightarrow> mayReason c" "reasoningPiece delta c = (out, d)"
  shows "follows d (clientReads cl out)"
    "d = (if delta = [] then c else c\<lparr>scStarted := True, scReasoningStarted := True, scReasoningText := scReasoningText c @ delta\<rparr>)"
proof -
  have "follows d (clientReads cl out) \<and>
      d = (if delta = [] then c else c\<lparr>scStarted := True, scReasoningStarted := True, scReasoningText := scReasoningText c @ delta\<rparr>)"
  proof (cases "delta = []")
    case True
    then show ?thesis using assms by (auto simp: reasoningPiece_def)
  next
    case False
    obtain o1 c1 where one: "ensureResponsesReasoningStarted c = (o1, c1)" by (cases "ensureResponsesReasoningStarted c")
    note S = ensureReasoning_follows [OF assms(1) assms(2) [OF False] one]
    have st: "scStarted c1" "scReasoningStarted c1" using S(2) by simp_all
    let ?d = "c1\<lparr>scReasoningText := scReasoningText c1 @ delta\<rparr>" and ?cl = "clientReads cl o1"
    have run: "out = o1 @ [itemEvent ''response.reasoning_summary_text.delta'' 0
            [(''delta'', JStr delta), (''summary_index'', jInt 0), (''item_id'', JStr responseReasoningID)]]" "d = ?d"
      using assms(3) one False by (auto simp: reasoningPiece_def)
    have mi: "responsesMessageIndex ?d = responsesMessageIndex c1" by (simp add: responsesMessageIndex_def)
    have one: "responsesMessageIndex c1 = 1" using S(1) st by (simp add: responsesMessageIndex_def follows_def)
    note it = reasoning_item [OF S(1) st] and fl = follows_flags [OF S(1) st(1)]
    have "clientReads cl out = ?cl\<lparr>rcItems := AList.update 0
        \<lparr>oiID = responseReasoningID, oiText = scReasoningText c1 @ delta, oiPart = True, oiDone = False\<rparr> (rcItems ?cl)\<rparr>"
      using it fl by (simp add: run(1) clientOut_item clientEvent_def onItem_def entry_Cons Let_def)
    moreover have "follows ?d \<dots>"
    proof (rule follows_change [OF S(1)])
      show "toolsOk ?d" by (rule toolsOk_cong [of _ c1]) (use S(1) mi in \<open>simp_all add: follows_def\<close>)
      show "expectedItem ?d idx = (if idx = 0 then Some \<lparr>oiID = responseReasoningID, oiText = scReasoningText c1 @ delta, oiPart = True, oiDone = False\<rparr>
          else expectedItem c1 idx)" for idx
        using st one by (auto simp: expectedItem_def mi Let_def)
    qed (use S(1) st in \<open>simp_all add: follows_def\<close>)
    ultimately show ?thesis using S(2) False by (simp add: run(2))
  qed
  then show "follows d (clientReads cl out)"
    "d = (if delta = [] then c else c\<lparr>scStarted := True, scReasoningStarted := True, scReasoningText := scReasoningText c @ delta\<rparr>)" by blast+
qed

subsection \<open>Calls\<close>

lemma update_new: "k \<notin> fst ` set al \<Longrightarrow> AList.update k v al = al @ [(k, v)]"
  by (induction al) auto

lemma update_nth: "distinct (map fst al) \<Longrightarrow> j < length al \<Longrightarrow> fst (al ! j) = k \<Longrightarrow> AList.update k v al = al[j := (k, v)]"
  by (induction al arbitrary: j) (auto simp: nth_Cons' split: nat.splits intro!: nth_equalityI)

lemma map_update_same: "j < length xs \<Longrightarrow> f x = f (xs ! j) \<Longrightarrow> map f (xs[j := x]) = map f xs"
  by (simp add: list_eq_iff_nth_eq nth_list_update)

lemma toolsOk_nth:
  assumes "toolsOk c" "j < length (scResponsesTools c)"
  shows "rtOutputIndex (snd (scResponsesTools c ! j)) = responsesMessageIndex c + 1 + j" "toolOk (snd (scResponsesTools c ! j))"
proof -
  have "map (rtOutputIndex \<circ> snd) (scResponsesTools c) ! j = [responsesMessageIndex c + 1 ..< responsesMessageIndex c + 1 + length (scResponsesTools c)] ! j"
    using assms by (simp add: toolsOk_def)
  then show "rtOutputIndex (snd (scResponsesTools c ! j)) = responsesMessageIndex c + 1 + j" using assms(2) by (simp del: upt_Suc)
  have "\<forall>x \<in> set (scResponsesTools c). toolOk (snd x)" using assms(1) by (auto simp: toolsOk_def)
  then show "toolOk (snd (scResponsesTools c ! j))" using nth_mem [OF assms(2)] by blast
qed

text \<open>The call of the upstream's index gets a place in the list.\<close>

lemma toolFor_follows:
  assumes "follows c cl" "responsesToolFor env v c = (i, t, d)"
  shows "follows d cl" "\<exists>j < length (scResponsesTools d). scResponsesTools d ! j = (i, t)" "scStarted d = scStarted c"
    "responsesMessageIndex d = responsesMessageIndex c" "scReasoningStarted d = scReasoningStarted c" "scReasoningText d = scReasoningText c"
proof -
  have "follows d cl \<and> (\<exists>j < length (scResponsesTools d). scResponsesTools d ! j = (i, t)) \<and> scStarted d = scStarted c \<and>
      responsesMessageIndex d = responsesMessageIndex c \<and> scReasoningStarted d = scReasoningStarted c \<and> scReasoningText d = scReasoningText c"
  proof (cases "map_of (scResponsesTools c) i")
    case None
    let ?n = "responsesMessageIndex c + 1 + scResponsesToolSeq c"
    have i: "i = gjInteger (seGjson env) (gjGet v [''index''])"
      using assms(2) by (auto simp: responsesToolFor_def Let_def split: option.splits)
    have t: "rtOutputIndex t = ?n" "rtName t = []" "rtSentArgs t = 0" "\<not> rtAnnounced t" "rtArgs t = []"
      and d0: "d = c\<lparr>scResponsesToolSeq := scResponsesToolSeq c + 1, scResponsesTools := AList.update i t (scResponsesTools c)\<rparr>"
      using assms(2) None by (auto simp: responsesToolFor_def Let_def i split: option.splits)
    have fresh: "i \<notin> fst ` set (scResponsesTools c)" using None by (simp add: map_of_eq_None_iff)
    have d: "d = c\<lparr>scResponsesToolSeq := scResponsesToolSeq c + 1, scResponsesTools := scResponsesTools c @ [(i, t)]\<rparr>"
      using d0 by (simp add: update_new [OF fresh])
    have ok: "toolsOk c" using assms(1) by (simp add: follows_def)
    have mi: "responsesMessageIndex d = responsesMessageIndex c" by (simp add: d responsesMessageIndex_def)
    have "toolsOk d" using ok fresh t by (auto simp: toolsOk_def mi) (auto simp: d toolOk_def)
    moreover have "expectedItem d idx = expectedItem c idx" for idx
      using t(4) ok by (auto simp: expectedItem_def mi Let_def nth_append) (auto simp: d nth_append less_Suc_eq)
    ultimately have "follows d cl"
      using assms(1) t(4) by (intro follows_same [OF assms(1)]) (auto simp: d follows_def)
    moreover have "length (scResponsesTools c) < length (scResponsesTools d) \<and> scResponsesTools d ! length (scResponsesTools c) = (i, t)"
      by (simp add: d)
    ultimately show ?thesis using mi by (auto simp: d)
  next
    case (Some t')
    then have "t' = t" "d = c" "i = gjInteger (seGjson env) (gjGet v [''index''])"
      using assms(2) by (auto simp: responsesToolFor_def Let_def split: option.splits)
    moreover from this have "(i, t) \<in> set (scResponsesTools c)" using Some map_of_SomeD by fastforce
    then have "\<exists>j < length (scResponsesTools c). scResponsesTools c ! j = (i, t)" by (simp add: in_set_conv_nth)
    ultimately show ?thesis using assms(1) by simp
  qed
  then show "follows d cl" "\<exists>j < length (scResponsesTools d). scResponsesTools d ! j = (i, t)" "scStarted d = scStarted c"
    "responsesMessageIndex d = responsesMessageIndex c" "scReasoningStarted d = scReasoningStarted c" "scReasoningText d = scReasoningText c" by blast+
qed

lemma setTool_facts:
  assumes "toolsOk c" "j < length (scResponsesTools c)" "scResponsesTools c ! j = (i, t0)" "toolOk t" "rtOutputIndex t = rtOutputIndex t0"
  shows "toolsOk (setTool i t c)"
    and "scStarted c \<Longrightarrow> expectedItem (setTool i t c) idx =
          (if idx = rtOutputIndex t0 then (if rtAnnounced t then Some \<lparr>oiID = rtItemID t, oiText = rtArgs t, oiPart = False, oiDone = False\<rparr> else None)
           else expectedItem c idx)"
    and "setTool i t c = c\<lparr>scResponsesTools := (scResponsesTools c)[j := (i, t)]\<rparr>"
proof -
  have "AList.update i t (scResponsesTools c) = (scResponsesTools c)[j := (i, t)]"
    using assms(1-3) by (intro update_nth) (simp_all add: toolsOk_def)
  then show eq: "setTool i t c = c\<lparr>scResponsesTools := (scResponsesTools c)[j := (i, t)]\<rparr>" by (simp add: setTool_def)
  have mi: "responsesMessageIndex (setTool i t c) = responsesMessageIndex c" by (simp add: eq responsesMessageIndex_def)
  have ix: "rtOutputIndex t0 = responsesMessageIndex c + 1 + j" using toolsOk_nth(1) [OF assms(1,2)] assms(3) by simp
  have "map fst ((scResponsesTools c)[j := (i, t)]) = map fst (scResponsesTools c)"
    using map_update_same [of j "scResponsesTools c" fst] assms(2,3) by simp
  moreover have "map (rtOutputIndex \<circ> snd) ((scResponsesTools c)[j := (i, t)]) = map (rtOutputIndex \<circ> snd) (scResponsesTools c)"
    using map_update_same [of j "scResponsesTools c" "rtOutputIndex \<circ> snd"] assms(2,3,5) by simp
  moreover have "\<forall>(k, u) \<in> set ((scResponsesTools c)[j := (i, t)]). toolOk u"
    using assms(1,4) set_update_subset_insert [of "scResponsesTools c" j "(i, t)"] unfolding toolsOk_def by blast
  ultimately show "toolsOk (setTool i t c)"
    using assms(1) unfolding toolsOk_def mi by (simp add: eq del: upt_Suc)
  show "expectedItem (setTool i t c) idx =
          (if idx = rtOutputIndex t0 then (if rtAnnounced t then Some \<lparr>oiID = rtItemID t, oiText = rtArgs t, oiPart = False, oiDone = False\<rparr> else None)
           else expectedItem c idx)" if "scStarted c"
    using assms(2) that by (simp add: expectedItem_def mi Let_def ix) (simp add: eq nth_list_update; linarith?)
qed

text \<open>A call is announced, and its arguments that were not sent are.\<close>

lemma announce_follows:
  assumes "follows c cl" "scStarted c" "j < length (scResponsesTools c)" "scResponsesTools c ! j = (i, t0)" "\<not> rtAnnounced t0"
    "t = t0\<lparr>rtName := name, rtCallID := callID, rtArgs := [], rtSentArgs := 0, rtAnnounced := True\<rparr>"
  shows "follows (setTool i t c) (clientOut cl (announceTool (t\<lparr>rtArgs := args\<rparr>)))"
proof -
  have ok: "toolsOk c" using assms(1) by (simp add: follows_def)
  have t: "toolOk t" "rtOutputIndex t = rtOutputIndex t0" "rtAnnounced t" "rtArgs t = []" using assms(6) by (simp_all add: toolOk_def)
  note F = setTool_facts [OF ok assms(3,4) t(1,2)]
  have none: "map_of (rcItems cl) (rtOutputIndex t0) = None"
    using assms toolsOk_nth(1) [OF ok assms(3)] by (simp add: follows_def expectedItem_def Let_def)
  have "clientOut cl (announceTool (t\<lparr>rtArgs := args\<rparr>)) = cl\<lparr>rcItems := AList.update (rtOutputIndex t0)
      \<lparr>oiID = rtItemID t, oiText = [], oiPart = False, oiDone = False\<rparr> (rcItems cl)\<rparr>"
    using none follows_flags [OF assms(1,2)] t(2) by (simp add: announceTool_def itemAdded_def clientOut_item clientEvent_def itemIdent_def toolItem_def entry_Cons)
  moreover have "follows (setTool i t c) \<dots>"
    by (rule follows_change [OF assms(1)]) (use assms(1,2) F t in \<open>simp_all add: follows_def\<close>)
  ultimately show ?thesis by simp
qed

lemma args_follow:
  assumes "follows c cl" "scStarted c" "j < length (scResponsesTools c)" "scResponsesTools c ! j = (i, t0)" "rtAnnounced t0"
    "t = t0\<lparr>rtName := name, rtCallID := callID, rtArgs := rtArgs t0 @ args, rtSentArgs := length (rtArgs t0 @ args)\<rparr>"
    "out = (if args = [] then [] else [toolArgsDelta (t\<lparr>rtSentArgs := n\<rparr>) args])"
  shows "follows (setTool i t c) (clientReads cl out)"
proof -
  have ok: "toolsOk c" using assms(1) by (simp add: follows_def)
  have t: "toolOk t" "rtOutputIndex t = rtOutputIndex t0" "rtAnnounced t" "rtArgs t = rtArgs t0 @ args" "rtItemID t = rtItemID t0"
    using assms(5,6) by (simp_all add: toolOk_def)
  note F = setTool_facts [OF ok assms(3,4) t(1,2)]
  have old: "expectedItem c (rtOutputIndex t0) = Some \<lparr>oiID = rtItemID t0, oiText = rtArgs t0, oiPart = False, oiDone = False\<rparr>"
    using assms(2-5) toolsOk_nth(1) [OF ok assms(3)] by (simp add: expectedItem_def Let_def)
  show ?thesis
  proof (cases "args = []")
    case True
    show ?thesis
      by (rule follows_same [of c]) (use assms(1,2,7) F t old True in \<open>simp_all add: follows_def\<close>)
  next
    case False
    have "clientReads cl out = cl\<lparr>rcItems := AList.update (rtOutputIndex t0)
        \<lparr>oiID = rtItemID t, oiText = rtArgs t, oiPart = False, oiDone = False\<rparr> (rcItems cl)\<rparr>"
      using False old assms(1,7) follows_flags [OF assms(1,2)] t
      by (simp add: toolArgsDelta_def clientOut_item clientEvent_def onItem_def entry_Cons Let_def follows_def)
    moreover have "follows (setTool i t c) \<dots>"
      by (rule follows_change [OF assms(1)]) (use assms(1,2) F t in \<open>simp_all add: follows_def\<close>)
    ultimately show ?thesis by simp
  qed
qed

lemma setTool_twice: "setTool i t (setTool i u c) = setTool i t c"
  by (simp add: setTool_def)

lemma toolCallPiece_run:
  fixes env v c0
  defines "args \<equiv> textAt env v [''function'', ''arguments'']" and "nm \<equiv> textAt env v [''function'', ''name'']" and "cid \<equiv> textAt env v [''id'']"
  assumes "responsesToolFor env v (c0\<lparr>scSawToolCall := True\<rparr>) = (i, t0, c1)"
  shows "rtAnnounced t0 \<Longrightarrow> rtSentArgs t0 = length (rtArgs t0) \<Longrightarrow> \<exists>name callID. toolCallPiece env v c0 =
      ((if args = [] then [] else [toolArgsDelta (t0\<lparr>rtName := name, rtCallID := callID, rtArgs := rtArgs t0 @ args\<rparr>) args]),
       setTool i (t0\<lparr>rtName := name, rtCallID := callID, rtArgs := rtArgs t0 @ args, rtSentArgs := length (rtArgs t0 @ args)\<rparr>) c1)"
    and "\<not> rtAnnounced t0 \<Longrightarrow> rtName t0 = [] \<Longrightarrow> nm = [] \<Longrightarrow> \<exists>callID. toolCallPiece env v c0 =
      ([], setTool i (t0\<lparr>rtCallID := callID, rtArgs := rtArgs t0 @ args\<rparr>) c1)"
    and "\<not> rtAnnounced t0 \<Longrightarrow> rtSentArgs t0 = 0 \<Longrightarrow> nm \<noteq> [] \<Longrightarrow> ensureResponsesStarted c1 = (o1, c2) \<Longrightarrow> \<exists>callID. toolCallPiece env v c0 =
      (let t = t0\<lparr>rtName := nm, rtCallID := callID, rtArgs := rtArgs t0 @ args, rtAnnounced := True\<rparr> in
       (o1 @ announceTool t # (if rtArgs t = [] then [] else [toolArgsDelta t (rtArgs t)]),
        setTool i (t\<lparr>rtSentArgs := length (rtArgs t)\<rparr>) c2))"
proof -
  define name callID where "name = (if nm = [] then rtName t0 else nm)" and "callID = (if cid = [] then rtCallID t0 else cid)"
  note fold = nm_def [symmetric] cid_def [symmetric] args_def [symmetric] name_def [symmetric] callID_def [symmetric]
  { assume "rtAnnounced t0" "rtSentArgs t0 = length (rtArgs t0)"
    then have "toolCallPiece env v c0 =
      ((if args = [] then [] else [toolArgsDelta (t0\<lparr>rtName := name, rtCallID := callID, rtArgs := rtArgs t0 @ args\<rparr>) args]),
       setTool i (t0\<lparr>rtName := name, rtCallID := callID, rtArgs := rtArgs t0 @ args, rtSentArgs := length (rtArgs t0 @ args)\<rparr>) c1)"
      unfolding toolCallPiece_def assms(4) Let_def prod.case fold by (cases t0) simp
    then show "\<exists>name callID. toolCallPiece env v c0 =
      ((if args = [] then [] else [toolArgsDelta (t0\<lparr>rtName := name, rtCallID := callID, rtArgs := rtArgs t0 @ args\<rparr>) args]),
       setTool i (t0\<lparr>rtName := name, rtCallID := callID, rtArgs := rtArgs t0 @ args, rtSentArgs := length (rtArgs t0 @ args)\<rparr>) c1)" by blast }
  { assume "\<not> rtAnnounced t0" "rtName t0 = []" "nm = []"
    then have "toolCallPiece env v c0 = ([], setTool i (t0\<lparr>rtCallID := callID, rtArgs := rtArgs t0 @ args\<rparr>) c1)"
      unfolding toolCallPiece_def assms(4) Let_def prod.case fold by (cases t0) (simp add: name_def)
    then show "\<exists>callID. toolCallPiece env v c0 = ([], setTool i (t0\<lparr>rtCallID := callID, rtArgs := rtArgs t0 @ args\<rparr>) c1)" by blast }
  { assume "\<not> rtAnnounced t0" "rtSentArgs t0 = 0" "nm \<noteq> []" "ensureResponsesStarted c1 = (o1, c2)"
    then have "toolCallPiece env v c0 =
      (let t = t0\<lparr>rtName := nm, rtCallID := callID, rtArgs := rtArgs t0 @ args, rtAnnounced := True\<rparr> in
       (o1 @ announceTool t # (if rtArgs t = [] then [] else [toolArgsDelta t (rtArgs t)]),
        setTool i (t\<lparr>rtSentArgs := length (rtArgs t)\<rparr>) c2))"
      unfolding toolCallPiece_def assms(4) Let_def prod.case fold by (cases t0) (simp add: name_def)
    then show "\<exists>callID. toolCallPiece env v c0 =
      (let t = t0\<lparr>rtName := nm, rtCallID := callID, rtArgs := rtArgs t0 @ args, rtAnnounced := True\<rparr> in
       (o1 @ announceTool t # (if rtArgs t = [] then [] else [toolArgsDelta t (rtArgs t)]),
        setTool i (t\<lparr>rtSentArgs := length (rtArgs t)\<rparr>) c2))" by blast }
qed

lemma toolCallPiece_follows:
  assumes "follows c0 cl" "toolCallPiece env v c0 = (out, d)"
  shows "follows d (clientReads cl out)" "scReasoningStarted d = scReasoningStarted c0" "scOutputText d = scOutputText c0" "scReasoningText d = scReasoningText c0"
proof -
  let ?c0 = "c0\<lparr>scSawToolCall := True\<rparr>"
  let ?nm = "textAt env v [''function'', ''name'']" and ?args = "textAt env v [''function'', ''arguments'']"
  obtain i t0 c1 where for0: "responsesToolFor env v ?c0 = (i, t0, c1)" by (metis prod_cases3)
  have "follows ?c0 cl"
    by (rule follows_same [OF assms(1)]) (use assms(1) in \<open>auto simp: follows_def toolsOk_def expectedItem_def responsesMessageIndex_def Let_def\<close>)
  note T = toolFor_follows [OF this for0]
  have other: "scOutputText c1 = scOutputText c0"
    using for0 by (auto simp: responsesToolFor_def Let_def split: option.splits)
  obtain j where j: "j < length (scResponsesTools c1)" "scResponsesTools c1 ! j = (i, t0)" using T(2) by blast
  have ok: "toolsOk c1" using T(1) by (simp add: follows_def)
  have t0: "toolOk t0" using toolsOk_nth(2) [OF ok j(1)] j(2) by simp
  note run = toolCallPiece_run [OF for0]
  have "follows d (clientReads cl out) \<and> scReasoningStarted d = scReasoningStarted c0 \<and> scOutputText d = scOutputText c0 \<and> scReasoningText d = scReasoningText c0"
  proof (cases "rtAnnounced t0")
    case True
    have started: "scStarted c1"
    proof (rule ccontr)
      assume "\<not> scStarted c1"
      then have "\<forall>x \<in> set (scResponsesTools c1). \<not> rtAnnounced (snd x)" using T(1) by (auto simp: follows_def)
      then show False using True nth_mem [OF j(1)] j(2) by (metis snd_conv)
    qed
    have sent: "rtSentArgs t0 = length (rtArgs t0)" using t0 True by (simp add: toolOk_def)
    obtain name callID where d: "d = setTool i (t0\<lparr>rtName := name, rtCallID := callID, rtArgs := rtArgs t0 @ ?args, rtSentArgs := length (rtArgs t0 @ ?args)\<rparr>) c1"
      "out = (if ?args = [] then [] else [toolArgsDelta (t0\<lparr>rtName := name, rtCallID := callID, rtArgs := rtArgs t0 @ ?args\<rparr>) ?args])"
      using run(1) [OF True sent] assms(2) by auto
    have "follows d (clientReads cl out)"
      unfolding d by (intro args_follow [OF T(1) started j True refl, where n = 0]) (simp add: toolArgsDelta_def)
    then show ?thesis using T(5,6) other by (simp add: d setTool_def)
  next
    case False
    then have sent: "rtSentArgs t0 = 0" "rtName t0 = []" using t0 by (simp_all add: toolOk_def)
    show ?thesis
    proof (cases "?nm = []")
      case True
      obtain t1 callID where d: "d = setTool i t1 c1" "out = []" "t1 = t0\<lparr>rtCallID := callID, rtArgs := rtArgs t0 @ ?args\<rparr>"
        using run(2) [OF False sent(2) True] assms(2) by auto
      have t1: "toolOk t1" "rtOutputIndex t1 = rtOutputIndex t0" "\<not> rtAnnounced t1" using False sent d(3) by (simp_all add: toolOk_def)
      note F = setTool_facts [OF ok j t1(1,2)]
      have none: "scStarted c1 \<Longrightarrow> expectedItem c1 (rtOutputIndex t0) = None"
        using False j toolsOk_nth(1) [OF ok j(1)] by (simp add: expectedItem_def Let_def)
      have eq: "expectedItem d idx = expectedItem c1 idx" for idx
      proof (cases "scStarted c1")
        case True
        then show ?thesis using F(2) [of idx] t1(3) none by (simp add: d)
      next
        case False
        then show ?thesis by (simp add: d setTool_def expectedItem_def)
      qed
      have quiet: "\<forall>(k, u) \<in> set (scResponsesTools d). \<not> rtAnnounced u" if "\<not> scStarted c1"
        using that T(1) t1(3) set_update_subset_insert [of "scResponsesTools c1" j "(i, t1)"] unfolding d(1) F(3) follows_def by fastforce
      have "follows d cl"
        by (rule follows_same [OF T(1) _ _ _ _ eq]) (use T(1) F(1) quiet in \<open>auto simp: d(1) setTool_def follows_def\<close>)
      then show ?thesis using T(5,6) other by (simp add: d setTool_def)
    next
      case named: False
      obtain o1 c2 where one: "ensureResponsesStarted c1 = (o1, c2)" by (cases "ensureResponsesStarted c1")
      note S = ensureStarted_follows [OF T(1) one]
      let ?all = "rtArgs t0 @ ?args"
      obtain callID where go: "toolCallPiece env v c0 =
          (let t = t0\<lparr>rtName := ?nm, rtCallID := callID, rtArgs := ?all, rtAnnounced := True\<rparr> in
           (o1 @ announceTool t # (if rtArgs t = [] then [] else [toolArgsDelta t (rtArgs t)]), setTool i (t\<lparr>rtSentArgs := length (rtArgs t)\<rparr>) c2))"
        using run(3) [OF False sent(1) named one] by blast
      let ?tA = "t0\<lparr>rtName := ?nm, rtCallID := callID, rtArgs := [], rtSentArgs := 0, rtAnnounced := True\<rparr>"
      let ?t = "t0\<lparr>rtName := ?nm, rtCallID := callID, rtArgs := ?all, rtAnnounced := True\<rparr>"
      have d: "d = setTool i (?t\<lparr>rtSentArgs := length ?all\<rparr>) c2" "out = o1 @ announceTool ?t # (if ?all = [] then [] else [toolArgsDelta ?t ?all])"
        using assms(2) go by (auto simp: Let_def split: if_splits)
      have tA: "?tA\<lparr>rtArgs := ?all\<rparr> = ?t" using sent(1) by (cases t0) simp
      have j2: "j < length (scResponsesTools c2)" "scResponsesTools c2 ! j = (i, t0)" using j S(3) by simp_all
      have ok2: "toolsOk c2" using S(1) by (simp add: follows_def)
      let ?cl = "clientOut (clientReads cl o1) (announceTool ?t)"
      have A: "follows (setTool i ?tA c2) ?cl"
        unfolding tA [symmetric] by (rule announce_follows [OF S(1,2) j2 False]) simp
      have "toolOk ?tA" "rtOutputIndex ?tA = rtOutputIndex t0" by (simp_all add: toolOk_def)
      note F = setTool_facts(3) [OF ok2 j2 this]
      have "follows (setTool i (?t\<lparr>rtSentArgs := length ?all\<rparr>) (setTool i ?tA c2)) (clientReads ?cl (if ?all = [] then [] else [toolArgsDelta ?t ?all]))"
        by (rule args_follow [where n = 0 and j = j and ?t0.0 = ?tA and name = ?nm and callID = callID and args = ?all, OF A]) (use S(2) j2(1) in \<open>simp_all add: F toolArgsDelta_def\<close>)
      then have "follows d (clientReads cl out)" by (simp only: d setTool_twice clientReads_simps)
      moreover have "scReasoningStarted c2 = scReasoningStarted c0" "scOutputText c2 = scOutputText c0" "scReasoningText c2 = scReasoningText c0"
        using S(3) T(5,6) other by simp_all
      ultimately show ?thesis by (simp add: d setTool_def)
    qed
  qed
  then show "follows d (clientReads cl out)" "scReasoningStarted d = scReasoningStarted c0" "scOutputText d = scOutputText c0" "scReasoningText d = scReasoningText c0" by blast+
qed

lemma toolCallPieces_follows:
  assumes "follows c cl" "toolCallPieces env vs c = (out, d)"
  shows "follows d (clientReads cl out) \<and> scReasoningStarted d = scReasoningStarted c \<and> scOutputText d = scOutputText c \<and> scReasoningText d = scReasoningText c"
  using assms
proof (induction env vs c arbitrary: cl out d rule: toolCallPieces.induct)
  case (2 env v vs c)
  obtain o1 c1 where one: "toolCallPiece env v c = (o1, c1)" by (cases "toolCallPiece env v c")
  obtain o2 c2 where two: "toolCallPieces env vs c1 = (o2, c2)" by (cases "toolCallPieces env vs c1")
  note P = toolCallPiece_follows [OF 2(2) one]
  show ?case using 2(1) [OF one [symmetric] refl P(1) two] 2(3) P one two by auto
qed simp

subsection \<open>Chunks\<close>

text \<open>What a chunk says: its reasoning, its text and its pieces of calls.\<close>

definition chunkReason :: "streamEnv \<Rightarrow> json \<Rightarrow> string" where
  "chunkReason env p = (case gjGet p [''choices'', ''0''] of None \<Rightarrow> [] | Some choice \<Rightarrow> chatDeltaReasoning env (gjGet choice [''delta'']))"

definition chunkText :: "streamEnv \<Rightarrow> json \<Rightarrow> string" where
  "chunkText env p = (case gjGet p [''choices'', ''0''] of None \<Rightarrow> [] | Some choice \<Rightarrow> textAt env choice [''delta'', ''content''])"

definition chunkCalls :: "json \<Rightarrow> json list" where
  "chunkCalls p = (case gjGet p [''choices'', ''0''] of None \<Rightarrow> [] | Some choice \<Rightarrow> gjEach (gjGet choice [''delta'', ''tool_calls'']))"

text \<open>The reasoning starts before the text and the calls, as it does for every model that reasons.\<close>

fun reasonsFirst :: "streamEnv \<Rightarrow> json list \<Rightarrow> bool" where
  "reasonsFirst env [] = True"
| "reasonsFirst env (p # ps) =
     (if chunkReason env p \<noteq> [] then True
      else if chunkText env p \<noteq> [] \<or> chunkCalls p \<noteq> [] then list_all (\<lambda>q. chunkReason env q = []) ps
      else reasonsFirst env ps)"

definition sameFlow :: "streamConverter \<Rightarrow> streamConverter \<Rightarrow> bool" where
  "sameFlow d c \<longleftrightarrow> scStarted d = scStarted c \<and> scReasoningStarted d = scReasoningStarted c \<and> scReasoningAfterMessage d = scReasoningAfterMessage c \<and>
     scContentStarted d = scContentStarted c \<and> scOutputText d = scOutputText c \<and> scReasoningText d = scReasoningText c \<and>
     scResponsesTools d = scResponsesTools c \<and> scResponsesToolSeq d = scResponsesToolSeq c"

lemma follows_sameFlow:
  assumes "follows c cl" "sameFlow d c"
  shows "follows d cl" "mayReason d = mayReason c"
  using assms by (simp_all add: sameFlow_def follows_def toolsOk_def expectedItem_def responsesMessageIndex_def mayReason_def)

lemma chatToResponses_follows:
  assumes "follows c cl" "chunkReason env p \<noteq> [] \<Longrightarrow> mayReason c" "chatToResponses env p c = (out, d)"
  shows "follows d (clientReads cl out)" "scReasoningStarted d \<longleftrightarrow> scReasoningStarted c \<or> chunkReason env p \<noteq> []"
    "scOutputText d = scOutputText c @ chunkText env p" "scReasoningText d = scReasoningText c @ chunkReason env p"
    "chunkText env p = [] \<Longrightarrow> chunkCalls p = [] \<Longrightarrow> mayReason c \<Longrightarrow> mayReason d"
proof -
  have "follows d (clientReads cl out) \<and> (scReasoningStarted d \<longleftrightarrow> scReasoningStarted c \<or> chunkReason env p \<noteq> []) \<and>
      scOutputText d = scOutputText c @ chunkText env p \<and> scReasoningText d = scReasoningText c @ chunkReason env p \<and>
      (chunkText env p = [] \<and> chunkCalls p = [] \<and> mayReason c \<longrightarrow> mayReason d)"
  proof (cases "gjGet p [''choices'', ''0'']")
    case None
    have d: "d = captureChatMetadata env p c" "out = []" using assms(3) None by (simp_all add: chatToResponses_def)
    have same: "sameFlow d c" by (simp add: d captureChatMetadata_def sameFlow_def Let_def)
    have "chunkReason env p = []" "chunkText env p = []" using None by (simp_all add: chunkReason_def chunkText_def)
    then show ?thesis using follows_sameFlow [OF assms(1) same] same d(2) by (simp add: sameFlow_def)
  next
    case (Some choice)
    obtain c1 o1 c2 o2 c3 o3 where run: "sameFlow c1 c" "reasoningPiece (chunkReason env p) c1 = (o1, c2)" "textPiece (chunkText env p) c2 = (o2, c3)"
      "toolCallPieces env (chunkCalls p) c3 = (o3, d)" "out = o1 @ o2 @ o3"
    proof -
      let ?c = "captureChatMetadata env p c"
      let ?c1 = "case gjGet p [''usage''] of None \<Rightarrow> ?c | Some u \<Rightarrow> ?c\<lparr>scUsage := jsonObject (seNum env) u\<rparr>"
      have "sameFlow ?c c" by (simp add: sameFlow_def captureChatMetadata_def Let_def)
      then have "sameFlow ?c1 c" by (cases "gjGet p [''usage'']") (simp_all add: sameFlow_def)
      moreover obtain o1 c2 where R: "reasoningPiece (chunkReason env p) ?c1 = (o1, c2)" by fastforce
      moreover obtain o2 c3 where T: "textPiece (chunkText env p) c2 = (o2, c3)" by fastforce
      moreover obtain o3 c4 where C: "toolCallPieces env (chunkCalls p) c3 = (o3, c4)" by fastforce
      moreover have "out = o1 @ o2 @ o3" "d = c4"
        using assms(3) R T C by (simp_all only: chatToResponses_def Let_def chunkReason_def chunkText_def chunkCalls_def Some option.case prod.case prod.inject)
      ultimately show thesis using that [of ?c1 o1 c2 o2 c3 o3] by blast
    qed
    note F = follows_sameFlow [OF assms(1) run(1)]
    note R = reasoningPiece_follows [OF F(1) _ run(2)]
    have R1: "follows c2 (clientReads cl o1)" using R(1) F(2) assms(2) by blast
    have R2: "c2 = (if chunkReason env p = [] then c1 else c1\<lparr>scStarted := True, scReasoningStarted := True, scReasoningText := scReasoningText c1 @ chunkReason env p\<rparr>)"
      using R(2) F(2) assms(2) by blast
    note T = textPiece_follows [OF R1 run(3)]
    note C = toolCallPieces_follows [OF T(1) run(4)]
    have "mayReason d" if "chunkText env p = []" "chunkCalls p = []" "mayReason c"
    proof -
      have "d = c2" using T(2) run(4) that by simp
      then show ?thesis using R2 F(2) that(3) by (auto simp: mayReason_def)
    qed
    then show ?thesis using C T(2) R2 run(1,5) by (auto simp: sameFlow_def)
  qed
  then show "follows d (clientReads cl out)" "scReasoningStarted d \<longleftrightarrow> scReasoningStarted c \<or> chunkReason env p \<noteq> []"
    "scOutputText d = scOutputText c @ chunkText env p" "scReasoningText d = scReasoningText c @ chunkReason env p"
    "chunkText env p = [] \<Longrightarrow> chunkCalls p = [] \<Longrightarrow> mayReason c \<Longrightarrow> mayReason d" by blast+
qed

lemma chunksToResponses_follows:
  assumes "follows c cl" "scReasoningStarted c \<or> mayReason c \<and> reasonsFirst env ps \<or> list_all (\<lambda>q. chunkReason env q = []) ps"
    "scReasoningStarted c \<longleftrightarrow> scReasoningText c \<noteq> []" "chunksToResponses env ps c = (out, d)"
  shows "follows d (clientReads cl out) \<and> (scReasoningStarted d \<longleftrightarrow> scReasoningText d \<noteq> []) \<and>
    scOutputText d = scOutputText c @ concat (map (chunkText env) ps) \<and> scReasoningText d = scReasoningText c @ concat (map (chunkReason env) ps)"
  using assms
proof (induction env ps c arbitrary: cl out d rule: chunksToResponses.induct)
  case (2 env p ps c)
  obtain o1 c1 where one: "chatToResponses env p c = (o1, c1)" by (cases "chatToResponses env p c")
  obtain o2 c2 where two: "chunksToResponses env ps c1 = (o2, c2)" by (cases "chunksToResponses env ps c1")
  have may: "chunkReason env p \<noteq> [] \<Longrightarrow> mayReason c" using 2(3) by (auto simp: mayReason_def)
  note P = chatToResponses_follows [OF 2(2) may one]
  have "scReasoningStarted c1 \<or> mayReason c1 \<and> reasonsFirst env ps \<or> list_all (\<lambda>q. chunkReason env q = []) ps"
    using 2(3) P(2,5) by (auto simp: mayReason_def split: if_splits)
  then have "follows c2 (clientReads (clientReads cl o1) o2) \<and> (scReasoningStarted c2 \<longleftrightarrow> scReasoningText c2 \<noteq> []) \<and>
    scOutputText c2 = scOutputText c1 @ concat (map (chunkText env) ps) \<and> scReasoningText c2 = scReasoningText c1 @ concat (map (chunkReason env) ps)"
    using 2(1) [OF one [symmetric] refl P(1) _ _ two] 2(4) P(2,4) by simp
  moreover have "out = o1 @ o2" "d = c2" using 2(5) one two by simp_all
  ultimately show ?case using P(3,4) by simp
qed simp

subsection \<open>The end of the stream\<close>

lemma entry_event [simp]:
  "entry ((''type'', t) # (''output_index'', n) # m) ''item_id'' = entry m ''item_id''"
  "entry ((''type'', t) # (''output_index'', n) # m) ''item'' = entry m ''item''"
  "entry ((''type'', t) # (''output_index'', n) # m) ''text'' = entry m ''text''"
  "entry ((''type'', t) # (''output_index'', n) # m) ''arguments'' = entry m ''arguments''"
  by (simp_all add: entry_Cons)

lemma reasoningClosing_reads:
  assumes "follows c cl" "scReasoningStarted c \<longleftrightarrow> scReasoningText c \<noteq> []"
  shows "clientReads cl (reasoningClosing c) = (if \<not> scReasoningStarted c then cl else
      cl\<lparr>rcItems := AList.update 0 \<lparr>oiID = responseReasoningID, oiText = scReasoningText c, oiPart = True, oiDone = True\<rparr> (rcItems cl)\<rparr>)"
proof (cases "scReasoningStarted c")
  case True
  then have st: "scStarted c" using assms(1) by (auto simp: follows_def)
  have ix: "responsesReasoningIndex c = 0" using assms(1) by (simp add: follows_def responsesReasoningIndex_def)
  note it = reasoning_item [OF assms(1) st True] and fl = follows_flags [OF assms(1) st]
  show ?thesis
    using True assms(2) it fl update_triv [OF it]
    by (simp add: reasoningClosing_def ix reasoningPart_def itemDone_def clientOut_item clientEvent_def onItem_def itemIdent_def
        responseReasoningItem_def entry_Cons Let_def)
next
  case False
  then show ?thesis by (simp add: reasoningClosing_def)
qed

lemma opening_reads:
  assumes "follows c cl" "scReasoningStarted c \<longleftrightarrow> scReasoningText c \<noteq> []" "ensureResponsesTextStarted c = (out, d)"
  defines "cl' \<equiv> clientReads cl (reasoningClosing c @ out)"
  shows "rcOk cl' \<and> \<not> rcCompleted cl' \<and> rcCreated cl'" "distinct (map fst (rcItems cl'))"
    "map_of (rcItems cl') idx = (if idx < responsesMessageIndex d then map_option (oiDone_update (\<lambda>_. True)) (expectedItem d idx) else expectedItem d idx)"
    "toolsOk d" "d = c\<lparr>scStarted := True, scContentStarted := True\<rparr>" "\<not> scReasoningAfterMessage d"
proof -
  note E = ensureText_follows [OF assms(1,3)]
  show "toolsOk d" "d = c\<lparr>scStarted := True, scContentStarted := True\<rparr>" "\<not> scReasoningAfterMessage d" using E by (simp_all add: follows_def)
  have "(rcOk cl' \<and> \<not> rcCompleted cl' \<and> rcCreated cl') \<and> distinct (map fst (rcItems cl')) \<and>
    map_of (rcItems cl') idx = (if idx < responsesMessageIndex d then map_option (oiDone_update (\<lambda>_. True)) (expectedItem d idx) else expectedItem d idx)"
  proof (cases "scReasoningStarted c")
    case False
    have mi: "responsesMessageIndex d = 0" using False E(4) by (simp add: responsesMessageIndex_def)
    have "cl' = clientReads cl out" using False by (simp add: cl'_def reasoningClosing_def)
    then show ?thesis using E(1,2) follows_flags [OF E(1,2)] mi by (simp add: follows_def)
  next
    case True
    then have st: "scStarted c" using assms(1) by (auto simp: follows_def)
    have mi: "responsesMessageIndex c = 1" "responsesMessageIndex d = 1" using True assms(1) E(4) by (simp_all add: responsesMessageIndex_def follows_def)
    let ?done = "\<lparr>oiID = responseReasoningID, oiText = scReasoningText c, oiPart = True, oiDone = True\<rparr>"
    let ?cl = "cl\<lparr>rcItems := AList.update 0 ?done (rcItems cl)\<rparr>"
    have cl': "cl' = clientReads ?cl out" using reasoningClosing_reads [OF assms(1,2)] True by (simp add: cl'_def)
    have out: "out = (if scContentStarted c then [] else [textPartEvent ''response.content_part.added'' 1 []])"
      using assms(3) st mi by (auto simp: responsesMessageIndex_def ensureResponsesTextStarted_def ensureResponsesStarted_def Let_def split: if_splits)
    let ?msg = "\<lparr>oiID = responseMessageID, oiText = scOutputText c, oiPart = True, oiDone = False\<rparr>"
    note it = message_item [OF assms(1) st, unfolded mi] and fl = follows_flags [OF assms(1) st]
    have reads: "cl' = (if scContentStarted c then ?cl else ?cl\<lparr>rcItems := AList.update 1 ?msg (rcItems ?cl)\<rparr>)"
      using it fl by (simp add: cl' out textPartEvent_def clientOut_item clientEvent_def onItem_def Let_def entry_Cons update_conv')
    have old: "map_of (rcItems cl) idx = expectedItem c idx" "distinct (map fst (rcItems cl))" using assms(1) by (simp_all add: follows_def)
    have dist: "distinct (map fst (rcItems cl'))" using old(2) by (simp add: reads distinct_update)
    have now: "expectedItem d idx = (if idx = 1 then Some ?msg else expectedItem c idx)"
    proof -
      have "scStarted d" "scContentStarted d" "scOutputText d = scOutputText c" "scReasoningText d = scReasoningText c" "scResponsesTools d = scResponsesTools c"
        using E(4) by simp_all
      then show ?thesis using st mi by (simp add: expectedItem_def Let_def)
    qed
    have zero: "expectedItem c 0 = Some \<lparr>oiID = responseReasoningID, oiText = scReasoningText c, oiPart = True, oiDone = False\<rparr>"
      using st by (simp add: expectedItem_def mi Let_def)
    have "scContentStarted c \<Longrightarrow> expectedItem c 1 = Some ?msg" using st by (simp add: expectedItem_def mi Let_def)
    then have "map_of (rcItems cl') idx = (if idx < 1 then map_option (oiDone_update (\<lambda>_. True)) (expectedItem d idx) else expectedItem d idx)"
      using zero now old(1) by (auto simp: reads update_conv')
    then show ?thesis using dist fl by (simp add: mi reads)
  qed
  then show "rcOk cl' \<and> \<not> rcCompleted cl' \<and> rcCreated cl'" "distinct (map fst (rcItems cl'))"
    "map_of (rcItems cl') idx = (if idx < responsesMessageIndex d then map_option (oiDone_update (\<lambda>_. True)) (expectedItem d idx) else expectedItem d idx)"
    by blast+
qed

text \<open>The closing of the calls.\<close>

lemma toolClosing_reads:
  assumes "rcOk cl \<and> \<not> rcCompleted cl \<and> rcCreated cl" "distinct (map fst (rcItems cl))"
    "map_of (rcItems cl) (rtOutputIndex t) = (if rtAnnounced t then Some \<lparr>oiID = rtItemID t, oiText = rtArgs t, oiPart = False, oiDone = False\<rparr> else None)"
  defines "cl' \<equiv> clientReads cl (toolClosing t)"
  shows "rcOk cl' \<and> \<not> rcCompleted cl' \<and> rcCreated cl'" "distinct (map fst (rcItems cl'))"
    "map_of (rcItems cl') = (map_of (rcItems cl))(rtOutputIndex t \<mapsto> \<lparr>oiID = rtItemID t, oiText = finalizedArgs t, oiPart = False, oiDone = True\<rparr>)"
proof -
  have reads: "cl' = cl\<lparr>rcItems := AList.update (rtOutputIndex t) \<lparr>oiID = rtItemID t, oiText = finalizedArgs t, oiPart = False, oiDone = True\<rparr> (rcItems cl)\<rparr>"
  proof (cases "rtAnnounced t")
    case True
    then show ?thesis
      using assms(1,3) by (simp add: cl'_def toolClosing_def itemDone_def clientOut_item clientEvent_def onItem_def itemIdent_def toolItem_def
          entry_Cons Let_def update_conv' finalizedArgs_def)
  next
    case False
    then show ?thesis
      using assms(1,3) by (simp add: cl'_def toolClosing_def announceTool_def itemAdded_def itemDone_def clientOut_item clientEvent_def onItem_def itemIdent_def
          toolItem_def entry_Cons Let_def update_conv' plain_eval)
  qed
  show "rcOk cl' \<and> \<not> rcCompleted cl' \<and> rcCreated cl'" "distinct (map fst (rcItems cl'))"
    "map_of (rcItems cl') = (map_of (rcItems cl))(rtOutputIndex t \<mapsto> \<lparr>oiID = rtItemID t, oiText = finalizedArgs t, oiPart = False, oiDone = True\<rparr>)"
    using assms(1,2) by (simp_all add: reads distinct_update update_conv')
qed

lemma toolClosings_read:
  assumes "rcOk cl \<and> \<not> rcCompleted cl \<and> rcCreated cl" "distinct (map fst (rcItems cl))" "distinct (map rtOutputIndex ts)"
    "\<forall>t \<in> set ts. map_of (rcItems cl) (rtOutputIndex t) =
        (if rtAnnounced t then Some \<lparr>oiID = rtItemID t, oiText = rtArgs t, oiPart = False, oiDone = False\<rparr> else None)"
  shows "let cl' = clientReads cl (concat (map toolClosing ts)) in (rcOk cl' \<and> \<not> rcCompleted cl' \<and> rcCreated cl') \<and> distinct (map fst (rcItems cl')) \<and>
    (\<forall>t \<in> set ts. map_of (rcItems cl') (rtOutputIndex t) = Some \<lparr>oiID = rtItemID t, oiText = finalizedArgs t, oiPart = False, oiDone = True\<rparr>) \<and>
    (\<forall>idx. idx \<notin> rtOutputIndex ` set ts \<longrightarrow> map_of (rcItems cl') idx = map_of (rcItems cl) idx)"
  using assms
proof (induction ts arbitrary: cl)
  case (Cons t ts)
  have "map_of (rcItems cl) (rtOutputIndex t) = (if rtAnnounced t then Some \<lparr>oiID = rtItemID t, oiText = rtArgs t, oiPart = False, oiDone = False\<rparr> else None)"
    using Cons.prems(4) by simp
  note T = toolClosing_reads [OF Cons.prems(1,2) this]
  let ?cl = "clientReads cl (toolClosing t)"
  have fresh: "rtOutputIndex t \<notin> rtOutputIndex ` set ts" using Cons.prems(3) by simp
  have ts: "\<forall>u \<in> set ts. map_of (rcItems ?cl) (rtOutputIndex u) =
        (if rtAnnounced u then Some \<lparr>oiID = rtItemID u, oiText = rtArgs u, oiPart = False, oiDone = False\<rparr> else None)"
  proof
    fix u assume "u \<in> set ts"
    moreover from this fresh have "rtOutputIndex u \<noteq> rtOutputIndex t" by (metis imageI)
    ultimately show "map_of (rcItems ?cl) (rtOutputIndex u) =
        (if rtAnnounced u then Some \<lparr>oiID = rtItemID u, oiText = rtArgs u, oiPart = False, oiDone = False\<rparr> else None)"
      using Cons.prems(4) by (simp add: T(3))
  qed
  note IH = Cons.IH [OF T(1,2) _ ts, unfolded Let_def]
  show ?case using IH Cons.prems(3) fresh T(3) by (simp add: Let_def)
qed simp

subsection \<open>The finished answer\<close>

text \<open>The name and the content of an item of the final answer, and of an item the client holds.\<close>

definition itemView :: "json \<Rightarrow> string \<times> string" where
  "itemView item = (case objectValue item of None \<Rightarrow> ([], []) | Some m \<Rightarrow>
     (let parts = (\<lambda>field0. concat (map (\<lambda>p. case objectValue p of None \<Rightarrow> [] | Some q \<Rightarrow> stringValue (entry q ''text'')) (arrayValue (entry m field0))));
          kind = stringValue (entry m ''type'')
      in (stringValue (entry m ''id''),
          if kind = ''message'' then parts ''content'' else if kind = ''reasoning'' then parts ''summary'' else stringValue (entry m ''arguments''))))"

definition heldItem :: "respClient \<Rightarrow> nat \<Rightarrow> (string \<times> string) option" where
  "heldItem cl idx = map_option (\<lambda>it. (oiID it, oiText it)) (map_of (rcItems cl) idx)"

lemma views:
  "scContentStarted c \<Longrightarrow> itemView (responseOutputItem c) = (responseMessageID, scOutputText c)"
  "itemView (responseReasoningItem c) = (responseReasoningID, scReasoningText c)"
  "itemView (toolItem t s a) = (rtItemID t, a)"
  by (simp_all add: itemView_def responseOutputItem_def responseReasoningItem_def toolItem_def summaryPart_def entry_Cons Let_def plain_eval)

lemma sorted_upt_id: "map f xs = [a..<b] \<Longrightarrow> sort_key f xs = xs"
  by (intro sort_key_id_if_sorted) simp

text \<open>What the client holds at the end, and the output of the answer that ends the stream.\<close>

definition finalItem :: "streamConverter \<Rightarrow> nat \<Rightarrow> openItem option" where
  "finalItem c idx =
     (let mi = responsesMessageIndex c in
      if idx = mi then Some \<lparr>oiID = responseMessageID, oiText = scOutputText c, oiPart = True, oiDone = True\<rparr>
      else if idx < mi then Some \<lparr>oiID = responseReasoningID, oiText = scReasoningText c, oiPart = True, oiDone = True\<rparr>
      else if idx - (mi + 1) < length (scResponsesTools c) then
        (let t = snd (scResponsesTools c ! (idx - (mi + 1))) in Some \<lparr>oiID = rtItemID t, oiText = finalizedArgs t, oiPart = False, oiDone = True\<rparr>)
      else None)"

lemma textClosing_reads:
  assumes "rcOk cl \<and> \<not> rcCompleted cl \<and> rcCreated cl" "scContentStarted c"
    "map_of (rcItems cl) (responsesMessageIndex c) = Some \<lparr>oiID = responseMessageID, oiText = scOutputText c, oiPart = True, oiDone = False\<rparr>"
  shows "clientReads cl (textClosing c) = cl"
  using assms update_triv [OF assms(3)]
  by (simp add: textClosing_def textPartEvent_def clientOut_item clientEvent_def onItem_def entry_Cons Let_def)

lemma ending_reads:
  fixes t :: json and m :: goMap
  assumes "rcOk cl \<and> \<not> rcCompleted cl \<and> rcCreated cl" "distinct (map fst (rcItems cl))"
    "map_of (rcItems cl) (responsesMessageIndex c) = Some \<lparr>oiID = responseMessageID, oiText = scOutputText c, oiPart = True, oiDone = False\<rparr>"
    "\<And>idx. idx \<noteq> responsesMessageIndex c \<Longrightarrow> map_of (rcItems cl) idx = finalItem c idx"
  defines "cl' \<equiv> clientReads cl [itemDone (responsesMessageIndex c) (responseOutputItem c), SseEvent ''response.completed'' (JObj ((''type'', t) # m))]"
  shows "rcOk cl' \<and> rcCompleted cl'" "map_of (rcItems cl') idx = finalItem c idx"
proof -
  let ?cl = "cl\<lparr>rcItems := AList.update (responsesMessageIndex c) \<lparr>oiID = responseMessageID, oiText = scOutputText c, oiPart = True, oiDone = True\<rparr> (rcItems cl)\<rparr>"
  have one: "clientOut cl (itemDone (responsesMessageIndex c) (responseOutputItem c)) = ?cl"
    using assms(1,3) by (simp add: itemDone_def clientOut_item clientEvent_def onItem_def itemIdent_def responseOutputItem_def entry_Cons Let_def)
  have items: "map_of (rcItems ?cl) idx = finalItem c idx" for idx
    using assms(4) by (simp add: update_conv' finalItem_def)
  have "oiDone it" if "finalItem c i = Some it" for i it
    using that by (auto simp: finalItem_def Let_def split: if_splits)
  moreover have "map_of (rcItems ?cl) i = Some it" if "(i, it) \<in> set (rcItems ?cl)" for i it
    using that assms(2) by (simp add: distinct_update)
  ultimately have "list_all (\<lambda>(i, it). oiDone it) (rcItems ?cl)"
    unfolding items list_all_iff by blast
  then have "cl' = ?cl\<lparr>rcCompleted := True\<rparr>"
    unfolding cl'_def clientReads_simps one using assms(1) by (simp add: clientOut_def clientEvent_def Let_def)
  then show "rcOk cl' \<and> rcCompleted cl'" "map_of (rcItems cl') idx = finalItem c idx" using items assms(1) by simp_all
qed

lemma tools_in_order:
  assumes "toolsOk c"
  shows "sortedResponsesTools c = map snd (scResponsesTools c)" "distinct (map rtOutputIndex (sortedResponsesTools c))"
proof -
  have ix: "map rtOutputIndex (map snd (scResponsesTools c)) = [responsesMessageIndex c + 1 ..< responsesMessageIndex c + 1 + scResponsesToolSeq c]"
    using assms by (simp add: toolsOk_def del: upt_Suc)
  then show eq: "sortedResponsesTools c = map snd (scResponsesTools c)" unfolding sortedResponsesTools_def by (rule sorted_upt_id)
  show "distinct (map rtOutputIndex (sortedResponsesTools c))" unfolding eq ix by simp
qed

lemma tool_index_range:
  assumes "toolsOk c"
  shows "idx \<in> rtOutputIndex ` set (sortedResponsesTools c) \<longleftrightarrow>
    responsesMessageIndex c + 1 \<le> idx \<and> idx - (responsesMessageIndex c + 1) < length (scResponsesTools c)"
proof -
  have "rtOutputIndex ` set (sortedResponsesTools c) = set (map (rtOutputIndex \<circ> snd) (scResponsesTools c))"
    using tools_in_order(1) [OF assms] by (simp add: image_image)
  also have "\<dots> = {responsesMessageIndex c + 1 ..< responsesMessageIndex c + 1 + length (scResponsesTools c)}"
    using assms by (simp only: toolsOk_def) (simp del: upt_Suc)
  finally show ?thesis by auto
qed

text \<open>Once the calls are closed, the client lacks only the end of the message.\<close>

lemma closing_reads:
  assumes "follows c cl" "scReasoningStarted c \<longleftrightarrow> scReasoningText c \<noteq> []" "ensureResponsesTextStarted c = (out, d)"
  defines "cl' \<equiv> clientReads cl (reasoningClosing c @ out @ textClosing d @ concat (map toolClosing (sortedResponsesTools d)))"
  shows "rcOk cl' \<and> \<not> rcCompleted cl' \<and> rcCreated cl'" "distinct (map fst (rcItems cl'))"
    "map_of (rcItems cl') (responsesMessageIndex d) = Some \<lparr>oiID = responseMessageID, oiText = scOutputText d, oiPart = True, oiDone = False\<rparr>"
    "idx \<noteq> responsesMessageIndex d \<Longrightarrow> map_of (rcItems cl') idx = finalItem d idx"
proof -
  define cl0 where "cl0 = clientReads cl (reasoningClosing c @ out)"
  note O = opening_reads [OF assms(1-3), folded cl0_def]
  let ?mi = "responsesMessageIndex d"
  have d: "scStarted d" "scContentStarted d" using O(5) by simp_all
  have msg: "map_of (rcItems cl0) ?mi = Some \<lparr>oiID = responseMessageID, oiText = scOutputText d, oiPart = True, oiDone = False\<rparr>"
    using d by (simp add: O(3) expectedItem_def Let_def)
  have cl': "cl' = clientReads cl0 (concat (map toolClosing (sortedResponsesTools d)))"
    using textClosing_reads [OF O(1) d(2) msg] unfolding cl'_def append_assoc [symmetric] by (simp add: cl0_def)
  note range = tool_index_range [OF O(4)]
  have tool: "\<exists>j < length (scResponsesTools d). t = snd (scResponsesTools d ! j) \<and> rtOutputIndex t = ?mi + 1 + j" if mem: "t \<in> set (sortedResponsesTools d)" for t
  proof -
    obtain j where "j < length (scResponsesTools d)" "t = snd (scResponsesTools d ! j)"
      using mem by (fastforce simp: tools_in_order(1) [OF O(4)] in_set_conv_nth)
    then show ?thesis using toolsOk_nth(1) [OF O(4)] by blast
  qed
  have "map_of (rcItems cl0) (rtOutputIndex t) =
        (if rtAnnounced t then Some \<lparr>oiID = rtItemID t, oiText = rtArgs t, oiPart = False, oiDone = False\<rparr> else None)"
    if "t \<in> set (sortedResponsesTools d)" for t
    using tool [OF that] d by (auto simp: O(3) expectedItem_def Let_def)
  then have "\<forall>t \<in> set (sortedResponsesTools d). map_of (rcItems cl0) (rtOutputIndex t) =
        (if rtAnnounced t then Some \<lparr>oiID = rtItemID t, oiText = rtArgs t, oiPart = False, oiDone = False\<rparr> else None)" by blast
  note C = toolClosings_read [OF O(1,2) tools_in_order(2) [OF O(4)] this, unfolded Let_def, folded cl']
  then show "rcOk cl' \<and> \<not> rcCompleted cl' \<and> rcCreated cl'" "distinct (map fst (rcItems cl'))" by blast+
  have keep: "map_of (rcItems cl') k = map_of (rcItems cl0) k" if "k \<notin> rtOutputIndex ` set (sortedResponsesTools d)" for k using C that by blast
  have "?mi \<notin> rtOutputIndex ` set (sortedResponsesTools d)" by (simp add: range)
  then show "map_of (rcItems cl') ?mi = Some \<lparr>oiID = responseMessageID, oiText = scOutputText d, oiPart = True, oiDone = False\<rparr>"
    using keep msg by simp
  show "map_of (rcItems cl') idx = finalItem d idx" if "idx \<noteq> ?mi"
  proof (cases "idx \<in> rtOutputIndex ` set (sortedResponsesTools d)")
    case True
    then obtain t where t: "t \<in> set (sortedResponsesTools d)" "idx = rtOutputIndex t" by blast
    then show ?thesis using tool [OF t(1)] C by (auto simp: finalItem_def Let_def)
  next
    case False
    then show ?thesis using keep [OF False] that d by (auto simp: range O(3) finalItem_def expectedItem_def Let_def)
  qed
qed

lemma final_output:
  assumes "toolsOk c" "scContentStarted c" "\<not> scReasoningAfterMessage c"
  defines "d \<equiv> c\<lparr>scResponsesTools := map (\<lambda>(i, t). (i, t\<lparr>rtAnnounced := True\<rparr>)) (scResponsesTools c)\<rparr>"
  shows "map_option (\<lambda>it. (oiID it, oiText it)) (finalItem c idx) =
    (if idx < length (responseOutput d) then Some (itemView (responseOutput d ! idx)) else None)"
proof -
  let ?mi = "responsesMessageIndex c" and ?f = "\<lambda>t. toolItem t ''completed'' (finalizedArgs t)"
  have ix: "map rtOutputIndex (map snd (scResponsesTools d)) = [?mi + 1 ..< ?mi + 1 + scResponsesToolSeq c]"
    using assms(1) by (simp add: d_def toolsOk_def comp_def case_prod_unfold del: upt_Suc)
  then have "sortedResponsesTools d = map snd (scResponsesTools d)" unfolding sortedResponsesTools_def by (rule sorted_upt_id)
  then have tools: "filter rtAnnounced (sortedResponsesTools d) = map (\<lambda>(i, t). t\<lparr>rtAnnounced := True\<rparr>) (scResponsesTools c)"
    by (simp add: d_def filter_map comp_def case_prod_unfold)
  have pre: "(if scReasoningStarted d \<and> \<not> scReasoningAfterMessage d then [responseReasoningItem d] else []) = (if ?mi = 1 then [responseReasoningItem d] else [])"
    using assms(3) by (simp add: d_def responsesMessageIndex_def)
  have out: "responseOutput d = (if ?mi = 1 then [responseReasoningItem d] else []) @ responseOutputItem d #
      map (\<lambda>(i, t). ?f (t\<lparr>rtAnnounced := True\<rparr>)) (scResponsesTools c)"
    using assms(3) unfolding responseOutput_def pre tools by (simp add: d_def comp_def case_prod_unfold)
  have v: "itemView (responseOutputItem d) = (responseMessageID, scOutputText c)" "itemView (responseReasoningItem d) = (responseReasoningID, scReasoningText c)"
    using assms(2) by (simp_all add: d_def views)
  have mi: "?mi = 0 \<or> ?mi = 1" by (simp add: responsesMessageIndex_def)
  have t: "itemView (case scResponsesTools c ! j of (i, t) \<Rightarrow> ?f (t\<lparr>rtAnnounced := True\<rparr>)) = (rtItemID (snd (scResponsesTools c ! j)), finalizedArgs (snd (scResponsesTools c ! j)))" for j
    by (simp add: case_prod_unfold views finalizedArgs_def)
  show ?thesis
    using mi v t by (auto simp: out finalItem_def Let_def nth_append nth_Cons' less_Suc_eq_le)
qed

lemma complete_reads:
  assumes "follows c cl" "scReasoningStarted c \<longleftrightarrow> scReasoningText c \<noteq> []" "completeResponsesStream c = (out, d)"
  shows "rcOk (clientReads cl out) \<and> rcCompleted (clientReads cl out)"
    "heldItem (clientReads cl out) idx = (if idx < length (responseOutput d) then Some (itemView (responseOutput d ! idx)) else None)"
    "heldItem (clientReads cl out) (responsesMessageIndex d) = Some (responseMessageID, scOutputText c)"
    "scReasoningText c \<noteq> [] \<Longrightarrow> heldItem (clientReads cl out) 0 = Some (responseReasoningID, scReasoningText c)"
proof -
  obtain o1 c1 where one: "ensureResponsesTextStarted c = (o1, c1)" by (cases "ensureResponsesTextStarted c")
  note C = closing_reads [OF assms(1,2) one]
  note O = opening_reads [OF assms(1,2) one]
  let ?pre = "reasoningClosing c @ o1 @ textClosing c1 @ concat (map toolClosing (sortedResponsesTools c1))"
  have d: "d = c1\<lparr>scResponsesTools := map (\<lambda>(i, t). (i, t\<lparr>rtAnnounced := True\<rparr>)) (scResponsesTools c1)\<rparr>"
    using assms(3) one by (simp add: completeResponsesStream_def Let_def)
  have same: "responsesMessageIndex d = responsesMessageIndex c1" "responseOutputItem d = responseOutputItem c1"
    by (simp_all add: d responsesMessageIndex_def responseOutputItem_def)
  define m where "m = [(''response'', JObj (responseObject d ''completed'' @ optionalField ''usage'' (map_option (\<lambda>u. JObj (chatUsageToResponse u)) (scUsage c1))))]"
  have out: "out = ?pre @ [itemDone (responsesMessageIndex c1) (responseOutputItem c1), SseEvent ''response.completed'' (JObj ((''type'', JStr ''response.completed'') # m))]"
    using assms(3) one by (simp add: completeResponsesStream_def Let_def d [symmetric] same m_def)
  let ?cl = "clientReads (clientReads cl ?pre) [itemDone (responsesMessageIndex c1) (responseOutputItem c1), SseEvent ''response.completed'' (JObj ((''type'', JStr ''response.completed'') # m))]"
  note E = ending_reads [OF C(1-3) C(4), where t = "JStr ''response.completed''" and m = m]
  have cl: "clientReads cl out = ?cl" by (simp only: out clientReads_simps(3))
  have held: "heldItem ?cl k = map_option (\<lambda>it. (oiID it, oiText it)) (finalItem c1 k)" for k unfolding heldItem_def using E(2) [of k] by simp
  show "rcOk (clientReads cl out) \<and> rcCompleted (clientReads cl out)" unfolding cl by (rule E(1))
  show "heldItem (clientReads cl out) idx = (if idx < length (responseOutput d) then Some (itemView (responseOutput d ! idx)) else None)"
    unfolding cl held d by (rule final_output) (use O(4-6) in simp_all)
  show "heldItem (clientReads cl out) (responsesMessageIndex d) = Some (responseMessageID, scOutputText c)"
    unfolding cl held same using O(5) by (simp add: finalItem_def)
  assume "scReasoningText c \<noteq> []"
  then have "scReasoningStarted c1" using assms(2) O(5) by simp
  then have "responsesMessageIndex c1 = 1" using O(6) by (simp add: responsesMessageIndex_def)
  then show "heldItem (clientReads cl out) 0 = Some (responseReasoningID, scReasoningText c)"
    unfolding cl held using O(5) by (simp add: finalItem_def)
qed


lemma parseNat_zero [simp]: "parseNat ''0'' = Some 0"
  by code_simp

text \<open>A chunk with the given delta.\<close>

definition deltaChunk :: "goMap \<Rightarrow> json" where
  "deltaChunk delta = JObj [(''choices'', JArr [JObj [(''delta'', JObj delta)]])]"

definition callDelta :: "string \<Rightarrow> string \<Rightarrow> goMap" where
  "callDelta name args = [(''tool_calls'', JArr [JObj [(''index'', jInt 0), (''function'', JObj [(''name'', JStr name), (''arguments'', JStr args)])]])]"

definition plainStreamEnv :: streamEnv where
  "plainStreamEnv = \<lparr>seGjson = \<lparr>gjNum = (\<lambda>t. t), gjRaw = (\<lambda>_. []), gjInt = (\<lambda>_. 0)\<rparr>, seNum = (\<lambda>t. t), seValue = (\<lambda>_. 0)\<rparr>"

definition chatChunks :: "json list" where
  "chatChunks = [deltaChunk [(''reasoning_content'', JStr ''so'')], deltaChunk [(''content'', JStr ''He'')], deltaChunk (callDelta ''read'' ''{a''),
     deltaChunk [(''content'', JStr ''y'')], deltaChunk (callDelta [] ''}'')]"


subsection \<open>Where the streams go wrong\<close>

text \<open>
  The last chunk of a Chat stream, with the usage and no choices, is dropped: the gateway asks the upstream for this
  chunk, and the answer to the client has no usage.
\<close>

lemma usage_chunk_dropped: "scUsage (snd (chatToResponses env (JObj [(''choices'', JArr []), (''usage'', u)]) c)) = scUsage c"
  by (simp add: chatToResponses_def captureChatMetadata_def Let_def split: option.splits)

text \<open>A delta with the calls null makes a call without name, and the answer ends with it.\<close>

lemma null_calls_make_a_call:
  "let c = snd (chatToResponses plainStreamEnv (deltaChunk [(''tool_calls'', JNull)]) (NewStreamConverter ResponsesToChat 0))
   in map snd (map itemView (responseOutput (snd (completeResponsesStream c)))) = [[], ''{}'']"
  by (simp add: chatToResponses_def captureChatMetadata_def deltaChunk_def chatDeltaReasoning_def reasoningPiece_def textPiece_def
      toolCallPiece_def responsesToolFor_def NewStreamConverter_def setTool_def completeResponsesStream_def ensureResponsesTextStarted_def
      ensureResponsesStarted_def responseOutput_def sortedResponsesTools_def views finalizedArgs_def plainStreamEnv_def plain_eval Let_def gjEach_def)

text \<open>Reasoning that starts after the text and a call is announced with the index of the call.\<close>

lemma late_reasoning_collides:
  assumes "follows c cl" "scStarted c" "\<not> scReasoningStarted c" "scResponsesTools c \<noteq> []"
  shows "responsesReasoningIndex (snd (ensureResponsesReasoningStarted c)) = rtOutputIndex (snd (hd (scResponsesTools c)))"
proof -
  have "rtOutputIndex (snd (scResponsesTools c ! 0)) = responsesMessageIndex c + 1 + 0"
    using assms by (intro toolsOk_nth(1)) (simp_all add: follows_def)
  then show ?thesis
    using assms by (simp add: ensureResponsesReasoningStarted_def responsesReasoningIndex_def responsesMessageIndex_def hd_conv_nth Let_def)
qed

text \<open>The text of an Anthropic stream is kept twice on its way to a Responses client.\<close>

lemma anthropic_text_doubled:
  "scOutputText (snd (anthropicToResponses plainStreamEnv
      (JObj [(''type'', JStr ''content_block_delta''), (''delta'', JObj [(''type'', JStr ''text_delta''), (''text'', JStr ''Hey'')])])
      (NewStreamConverter ResponsesToAnthropic 0))) = ''HeyHey''"
  by (simp add: anthropicToResponses_def anthropicToChatChunks_def captureAnthropicMetadata_def anthropicDelta_def chatRoleAndChunk_def chatRoleChunks_def
      newChatChunk_def optionalField_def chatToResponses_def captureChatMetadata_def chatDeltaReasoning_def reasoningPiece_def textPiece_def
      ensureResponsesTextStarted_def ensureResponsesStarted_def NewStreamConverter_def gjEach_def Let_def)

end
