(* ===== verification/Api_Keys.thy ===== *)
theory Api_Keys
  imports Accounts
begin

text \<open>
  The API keys of the clients (\<^verbatim>\<open>internal/logic/apikey\<close>): authentication with its cache, the policy of a key, creation,
  change, deletion and disclosure; from \<^verbatim>\<open>internal/logic/user/service.go\<close> the channel groups and the deletion of a user.

  The tables are the record \<open>keyDb\<close>; soft deletion takes a row out of it.  Which statements and cache commands fail is
  a function of their names; the digest, the cipher and the order of text columns are parameters.  The cache holds the
  key as it was encoded: the JSON of an \<^verbatim>\<open>AuthKey\<close> decodes to the same value.
\<close>

subsection \<open>Data\<close>

record 'f keyRow =
  kwUser :: id
  kwName :: string
  kwHash :: string
  kwCipher :: string
  kwStatus :: int
  kwSpendLimit :: "'f option"
  kwDailyLimit :: "'f option"
  kwSpend :: "'f apiKeyRow"
  kwExpiresAt :: "gotime option"

record keyUser =
  kuRole :: string
  kuCasdoor :: bool

record 'f keyDb =
  kdKeys :: "(id \<times> 'f keyRow) list"
  kdModels :: "(id \<times> string) list"
  kdKeyGroups :: "(id \<times> id) list"
  kdUsers :: "(id \<times> keyUser) list"
  kdUserGroups :: "(id \<times> id) list"
  kdLogs :: "(string \<times> id) list"

record 'f authKey =
  auId :: id
  auUser :: id
  auName :: string
  auHash :: string
  auStatus :: int
  auSpendLimit :: "'f option"
  auDailyLimit :: "'f option"
  auSpend :: "'f apiKeyRow"
  auModels :: "string list"
  auGroups :: "id list"
  auRole :: string
  auUserGroups :: "id list"
  auExpiresAt :: "gotime option"

record 'f keyState =
  ksDb :: "'f keyDb"
  ksCache :: "string \<Rightarrow> ('f authKey \<times> gotime) option"
  ksTouchLock :: "id \<Rightarrow> gotime option"
  ksLastUsed :: "id \<Rightarrow> gotime option"
  ksNotices :: "(string \<times> id) list"

record 'f keyEnv =
  kyWorker :: bool
  kyFails :: "string \<Rightarrow> bool"
  kyScanMissing :: bool
  kyFloats :: "'f floatOps"
  kyHash :: "string \<Rightarrow> string"
  kyDecrypt :: "string \<Rightarrow> string option"
  kyAdminRoles :: "string list"
  kyDay :: "gotime \<Rightarrow> int"
  kyOrder :: "string list \<Rightarrow> string list"

datatype keyError =
    InvalidKey | DailySpendLimitReached | KeyQueryFailed string | NoSuchKey | NotSignedIn | NotOwner | CipherMissing | CipherBroken
  | CipherMismatch | SystemUser | OwnAccount | UserMissing | NotSynchronised | GroupsNotSaved

definition apiKeyCacheTTL :: duration where "apiKeyCacheTTL = minutes 5"
definition APIKeyPrefix :: string where "APIKeyPrefix = ''sk-''"
definition legacyAPIKeyPrefix :: string where "legacyAPIKeyPrefix = ''af_''"

definition HasAPIKeyPrefix :: "string \<Rightarrow> bool" where
  "HasAPIKeyPrefix value = (hasPrefix value APIKeyPrefix \<or> hasPrefix value legacyAPIKeyPrefix)"

subsection \<open>Policies\<close>

definition normalizeModels :: "string list \<Rightarrow> string list" where
  "normalizeModels values = sort (remdups (filter (\<lambda>v. v \<noteq> []) (map trimSpace values)))"

definition uniqueIDs :: "id list \<Rightarrow> id list" where
  "uniqueIDs values = sort (remdups (filter (\<lambda>v. v > 0) values))"

definition listModels :: "'f keyEnv \<Rightarrow> 'f keyDb \<Rightarrow> id \<Rightarrow> string list" where
  "listModels env db keyID = kyOrder env (map snd (filter (\<lambda>(k, m). k = keyID) (kdModels db)))"

definition listGroupIDs :: "'f keyDb \<Rightarrow> id \<Rightarrow> id list" where
  "listGroupIDs db keyID = sort (map snd (filter (\<lambda>(k, g). k = keyID) (kdKeyGroups db)))"

definition userGroupIDs :: "'f keyDb \<Rightarrow> id \<Rightarrow> id list" where
  "userGroupIDs db uid = sort (map snd (filter (\<lambda>(u, g). u = uid) (kdUserGroups db)))"

definition replacePolicy :: "'f keyEnv \<Rightarrow> 'f keyDb \<Rightarrow> id \<Rightarrow> string list \<Rightarrow> id list \<Rightarrow> keyError + 'f keyDb" where
  "replacePolicy env db keyID models groups =
     (if kyFails env ''clear models'' then Inl (KeyQueryFailed ''clear key model policy'')
      else if kyFails env ''clear groups'' then Inl (KeyQueryFailed ''clear key group policy'')
      else if kyFails env ''save model'' \<and> normalizeModels models \<noteq> [] then Inl (KeyQueryFailed ''save key model policy'')
      else if kyFails env ''save group'' \<and> uniqueIDs groups \<noteq> [] then Inl (KeyQueryFailed ''save key group policy'')
      else Inr (db\<lparr>kdModels := filter (\<lambda>(k, m). k \<noteq> keyID) (kdModels db) @ map (Pair keyID) (normalizeModels models),
                   kdKeyGroups := filter (\<lambda>(k, g). k \<noteq> keyID) (kdKeyGroups db) @ map (Pair keyID) (uniqueIDs groups)\<rparr>))"

definition CanUseModel :: "'f authKey \<Rightarrow> string \<Rightarrow> bool" where
  "CanUseModel key model = (auModels key = [] \<or> model \<in> set (auModels key))"

definition CanUseChannelGroups :: "'f authKey \<Rightarrow> id list \<Rightarrow> bool" where
  "CanUseChannelGroups key groupIDs = (auGroups key = [] \<or> list_ex (\<lambda>g. g \<in> set (auGroups key)) groupIDs)"

subsection \<open>Authentication\<close>

definition findKeyByHash :: "'f keyDb \<Rightarrow> string \<Rightarrow> (id \<times> 'f keyRow) option" where
  "findKeyByHash db hash = find (\<lambda>(i, r). kwHash r = hash) (kdKeys db)"

text \<open>\<^verbatim>\<open>populateAuthPolicy\<close> with \<^verbatim>\<open>populateUserPolicy\<close>.\<close>

definition populateAuthPolicy :: "'f keyEnv \<Rightarrow> 'f keyDb \<Rightarrow> 'f authKey \<Rightarrow> keyError + 'f authKey" where
  "populateAuthPolicy env db key =
     (if kyFails env ''list models'' then Inl (KeyQueryFailed ''list key model policy'')
      else if kyFails env ''list groups'' then Inl (KeyQueryFailed ''list key group policy'')
      else if kyFails env ''load role'' \<or> kyScanMissing env \<and> map_of (kdUsers db) (auUser key) = None then Inl (KeyQueryFailed ''load user role'')
      else if kyFails env ''load user groups'' then Inl (KeyQueryFailed ''load user channel groups'')
      else Inr (key\<lparr>auModels := listModels env db (auId key), auGroups := listGroupIDs db (auId key),
                    auRole := (case map_of (kdUsers db) (auUser key) of None \<Rightarrow> [] | Some u \<Rightarrow> kuRole u),
                    auUserGroups := userGroupIDs db (auUser key)\<rparr>))"

definition scanKey :: "id \<Rightarrow> 'f keyRow \<Rightarrow> 'f authKey" where
  "scanKey i r =
     \<lparr>auId = i, auUser = kwUser r, auName = kwName r, auHash = kwHash r, auStatus = kwStatus r, auSpendLimit = kwSpendLimit r,
      auDailyLimit = kwDailyLimit r, auSpend = kwSpend r, auModels = [], auGroups = [], auRole = [], auUserGroups = [], auExpiresAt = kwExpiresAt r\<rparr>"

definition loadKey :: "'f keyEnv \<Rightarrow> 'f keyDb \<Rightarrow> string \<Rightarrow> keyError + 'f authKey option" where
  "loadKey env db hash =
     (if kyFails env ''find key'' then Inl (KeyQueryFailed ''find API key'')
      else case findKeyByHash db hash of
             None \<Rightarrow> if kyScanMissing env then Inl (KeyQueryFailed ''find API key'') else Inr None
           | Some (i, r) \<Rightarrow>
               (case populateAuthPolicy env db (scanKey i r) of Inl e \<Rightarrow> Inl e | Inr k \<Rightarrow> Inr (Some k)))"

definition readKeyCache :: "'f keyEnv \<Rightarrow> gotime \<Rightarrow> 'f keyState \<Rightarrow> string \<Rightarrow> keyError + 'f authKey option" where
  "readKeyCache env t st hash =
     (if kyFails env ''read cache'' then Inl (KeyQueryFailed ''read API key cache'')
      else case ksCache st hash of
             None \<Rightarrow> Inr None
           | Some (k, expiry) \<Rightarrow> Inr (if t < expiry then Some k else None))"

definition fillKeyCache :: "'f keyEnv \<Rightarrow> gotime \<Rightarrow> string \<Rightarrow> 'f authKey \<Rightarrow> 'f keyState \<Rightarrow> 'f keyState" where
  "fillKeyCache env t hash k st =
     (if kyFails env ''write cache'' then st else st\<lparr>ksCache := (ksCache st)(hash \<mapsto> (k, t + apiKeyCacheTTL))\<rparr>)"

definition getCached :: "'f keyEnv \<Rightarrow> gotime \<Rightarrow> string \<Rightarrow> 'f keyState \<Rightarrow> (keyError + 'f authKey option) \<times> 'f keyState" where
  "getCached env t hash st =
     (case (if kyWorker env then Inr None else readKeyCache env t st hash) of
        Inl e \<Rightarrow> (Inl e, st)
      | Inr (Some k) \<Rightarrow> (Inr (Some k), st)
      | Inr None \<Rightarrow>
          (case loadKey env (ksDb st) hash of
             Inl e \<Rightarrow> (Inl e, st)
           | Inr None \<Rightarrow> (Inr None, st)
           | Inr (Some k) \<Rightarrow> (Inr (Some k), if kyWorker env then st else fillKeyCache env t hash k st)))"

text \<open>The checks on the key, at the time of the request.\<close>

definition keyDailyLimitReached :: "'f keyEnv \<Rightarrow> gotime \<Rightarrow> 'f authKey \<Rightarrow> bool" where
  "keyDailyLimitReached env t key = dailyLimitReached (kyFloats env) (auDailyLimit key) (auSpend key) (kyDay env t)"

definition acceptKey :: "'f keyEnv \<Rightarrow> gotime \<Rightarrow> 'f authKey option \<Rightarrow> keyError + 'f authKey" where
  "acceptKey env t found =
     (case found of
        None \<Rightarrow> Inl InvalidKey
      | Some key \<Rightarrow>
          if auStatus key \<noteq> 1 \<or> (case auExpiresAt key of None \<Rightarrow> False | Some e \<Rightarrow> e < t)
             \<or> (case auSpendLimit key of None \<Rightarrow> False | Some l \<Rightarrow> fLe (kyFloats env) l (akSpent (auSpend key))) then Inl InvalidKey
          else if keyDailyLimitReached env t key then Inl DailySpendLimitReached
          else Inr key)"

definition touchLastUsed :: "'f keyEnv \<Rightarrow> gotime \<Rightarrow> id \<Rightarrow> 'f keyState \<Rightarrow> 'f keyState" where
  "touchLastUsed env t i st =
     (if kyFails env ''touch lock'' \<or> (case ksTouchLock st i of None \<Rightarrow> False | Some e \<Rightarrow> t < e) then st
      else let st1 = st\<lparr>ksTouchLock := (ksTouchLock st)(i \<mapsto> t + minutes 1)\<rparr> in
        if kyFails env ''touch'' then st1 else st1\<lparr>ksLastUsed := (ksLastUsed st1)(i \<mapsto> t)\<rparr>)"

definition Authenticate :: "'f keyEnv \<Rightarrow> gotime \<Rightarrow> string \<Rightarrow> 'f keyState \<Rightarrow> (keyError + 'f authKey) \<times> 'f keyState" where
  "Authenticate env t bearer st =
     (if \<not> HasAPIKeyPrefix bearer then (Inl InvalidKey, st)
      else case getCached env t (kyHash env bearer) st of
             (Inl e, st1) \<Rightarrow> (Inl e, st1)
           | (Inr found, st1) \<Rightarrow>
               (case acceptKey env t found of
                  Inl e \<Rightarrow> (Inl e, st1)
                | Inr key \<Rightarrow> (Inr key, touchLastUsed env t (auId key) st1)))"

subsection \<open>Administration of keys\<close>

text \<open>The signed-in user is an id with a role.\<close>

record 'f keyInput =
  kiName :: string
  kiStatus :: int
  kiSpendLimit :: "'f option"
  kiDailyLimit :: "'f option"
  kiExpiresAt :: "gotime option"
  kiModels :: "string list"
  kiGroups :: "id list"

definition ensureAccess :: "'f keyEnv \<Rightarrow> (id \<times> string) option \<Rightarrow> id \<Rightarrow> keyError option" where
  "ensureAccess env user owner =
     (case user of
        None \<Rightarrow> Some NotSignedIn
      | Some (uid, role) \<Rightarrow> if uid \<noteq> owner \<and> \<not> IsAdminRole (kyAdminRoles env) role then Some NotOwner else None)"

text \<open>The row of a key by its id, with the check of access; what \<^verbatim>\<open>Update\<close>, \<^verbatim>\<open>Delete\<close> and \<^verbatim>\<open>Reveal\<close> begin with.\<close>

definition accessKey :: "'f keyEnv \<Rightarrow> 'f keyDb \<Rightarrow> (id \<times> string) option \<Rightarrow> id \<Rightarrow> keyError + 'f keyRow" where
  "accessKey env db user i =
     (if kyFails env ''find key by id'' then Inl (KeyQueryFailed ''find API key'')
      else case map_of (kdKeys db) i of
             None \<Rightarrow> Inl (if kyScanMissing env then KeyQueryFailed ''find API key'' else NoSuchKey)
           | Some r \<Rightarrow> (case ensureAccess env user (kwUser r) of Some e \<Rightarrow> Inl e | None \<Rightarrow> Inr r))"

definition notifyKeyChanged :: "id \<Rightarrow> 'f keyState \<Rightarrow> 'f keyState" where
  "notifyKeyChanged i st = st\<lparr>ksNotices := ksNotices st @ [(''api_key'', i)]\<rparr>"

text \<open>The deletion of the cached key; its error is the answer of the operation.\<close>

definition dropCachedKey :: "'f keyEnv \<Rightarrow> string \<Rightarrow> 'f keyState \<Rightarrow> keyError option \<times> 'f keyState" where
  "dropCachedKey env hash st =
     (if kyFails env ''drop cache'' then (Some (KeyQueryFailed ''drop cache''), st)
      else (None, st\<lparr>ksCache := (ksCache st)(hash := None)\<rparr>))"

text \<open>\<open>i\<close> is the id that the database gives to a new row, the texts are those of \<^verbatim>\<open>GenerateAPIKey\<close> and \<^verbatim>\<open>Encrypt\<close>.\<close>

definition createKeyRow :: "'f keyEnv \<Rightarrow> id \<Rightarrow> id \<Rightarrow> string \<Rightarrow> string \<Rightarrow> 'f keyInput \<Rightarrow> 'f keyRow" where
  "createKeyRow env uid i plainText cipher input =
     \<lparr>kwUser = uid, kwName = trimSpace (kiName input), kwHash = kyHash env plainText, kwCipher = cipher, kwStatus = 1,
      kwSpendLimit = kiSpendLimit input, kwDailyLimit = kiDailyLimit input,
      kwSpend = \<lparr>akSpent = fZero (kyFloats env), akDailySpent = fZero (kyFloats env), akDailyDate = None\<rparr>, kwExpiresAt = kiExpiresAt input\<rparr>"

definition CreateKey :: "'f keyEnv \<Rightarrow> (id \<times> string) option \<Rightarrow> id \<Rightarrow> string \<Rightarrow> string option \<Rightarrow> 'f keyInput \<Rightarrow> 'f keyState \<Rightarrow> (keyError + id) \<times> 'f keyState" where
  "CreateKey env user i plainText encrypted input st =
     (case user of
        None \<Rightarrow> (Inl NotSignedIn, st)
      | Some (uid, role) \<Rightarrow>
          (case encrypted of
             None \<Rightarrow> (Inl (KeyQueryFailed ''encrypt API key''), st)
           | Some cipher \<Rightarrow>
               let row = createKeyRow env uid i plainText cipher input; db = ksDb st in
               if kyFails env ''insert key'' \<or> i \<in> fst ` set (kdKeys db) \<or> kwHash row \<in> (kwHash \<circ> snd) ` set (kdKeys db)
               then (Inl (KeyQueryFailed ''create API key''), st)
               else (case replacePolicy env (db\<lparr>kdKeys := kdKeys db @ [(i, row)]\<rparr>) i (kiModels input) (kiGroups input) of
                       Inl e \<Rightarrow> (Inl e, st)
                     | Inr db1 \<Rightarrow> (Inr i, notifyKeyChanged i (st\<lparr>ksDb := db1\<rparr>)))))"

definition updateKeyRow :: "'f keyInput \<Rightarrow> 'f keyRow \<Rightarrow> 'f keyRow" where
  "updateKeyRow input r =
     r\<lparr>kwName := trimSpace (kiName input), kwStatus := kiStatus input, kwSpendLimit := kiSpendLimit input, kwDailyLimit := kiDailyLimit input,
       kwExpiresAt := kiExpiresAt input\<rparr>"

definition mapRow :: "id \<Rightarrow> ('r \<Rightarrow> 'r) \<Rightarrow> (id \<times> 'r) list \<Rightarrow> (id \<times> 'r) list" where
  "mapRow i f rows = map (\<lambda>(k, r). (k, if k = i then f r else r)) rows"

definition UpdateKey :: "'f keyEnv \<Rightarrow> (id \<times> string) option \<Rightarrow> id \<Rightarrow> 'f keyInput \<Rightarrow> 'f keyState \<Rightarrow> keyError option \<times> 'f keyState" where
  "UpdateKey env user i input st =
     (case accessKey env (ksDb st) user i of
        Inl e \<Rightarrow> (Some e, st)
      | Inr r \<Rightarrow>
          if kyFails env ''update key'' then (Some (KeyQueryFailed ''update API key''), st)
          else (case replacePolicy env ((ksDb st)\<lparr>kdKeys := mapRow i (updateKeyRow input) (kdKeys (ksDb st))\<rparr>) i (kiModels input) (kiGroups input) of
                  Inl e \<Rightarrow> (Some e, st)
                | Inr db1 \<Rightarrow> dropCachedKey env (kwHash r) (notifyKeyChanged i (st\<lparr>ksDb := db1\<rparr>))))"

definition DeleteKey :: "'f keyEnv \<Rightarrow> (id \<times> string) option \<Rightarrow> id \<Rightarrow> 'f keyState \<Rightarrow> keyError option \<times> 'f keyState" where
  "DeleteKey env user i st =
     (case accessKey env (ksDb st) user i of
        Inl e \<Rightarrow> (Some e, st)
      | Inr r \<Rightarrow>
          if kyFails env ''delete models'' then (Some (KeyQueryFailed ''delete key model policy''), st)
          else if kyFails env ''delete groups'' then (Some (KeyQueryFailed ''delete key group policy''), st)
          else if kyFails env ''delete key'' then (Some (KeyQueryFailed ''delete API key''), st)
          else let db = ksDb st;
                   db1 = db\<lparr>kdKeys := filter (\<lambda>(k, r). k \<noteq> i) (kdKeys db), kdModels := filter (\<lambda>(k, m). k \<noteq> i) (kdModels db),
                            kdKeyGroups := filter (\<lambda>(k, g). k \<noteq> i) (kdKeyGroups db)\<rparr>
            in dropCachedKey env (kwHash r) (notifyKeyChanged i (st\<lparr>ksDb := db1\<rparr>)))"

definition Reveal :: "'f keyEnv \<Rightarrow> (id \<times> string) option \<Rightarrow> id \<Rightarrow> 'f keyState \<Rightarrow> keyError + string" where
  "Reveal env user i st =
     (case accessKey env (ksDb st) user i of
        Inl e \<Rightarrow> Inl e
      | Inr r \<Rightarrow>
          if trimSpace (kwCipher r) = [] then Inl CipherMissing
          else (case kyDecrypt env (kwCipher r) of
                  None \<Rightarrow> Inl CipherBroken
                | Some plainText \<Rightarrow> if kyHash env plainText \<noteq> kwHash r then Inl CipherMismatch else Inr plainText))"

text \<open>
  The spend of a request (\<^verbatim>\<open>addSpend\<close>) on this table.  The accounting calls it inside its own transaction, so the cached
  key is dropped first and the row changes for other readers when that transaction is committed.
\<close>

definition commitSpend :: "'f keyEnv \<Rightarrow> id \<Rightarrow> 'f \<Rightarrow> int \<Rightarrow> 'f keyDb \<Rightarrow> 'f keyDb" where
  "commitSpend env i amount today db =
     db\<lparr>kdKeys := mapRow i (\<lambda>r. r\<lparr>kwSpend := spendRow (kyFloats env) (kwSpend r) amount today\<rparr>) (kdKeys db)\<rparr>"

subsection \<open>Users\<close>

definition findUser :: "'f keyEnv \<Rightarrow> 'f keyDb \<Rightarrow> id \<Rightarrow> keyError + keyUser" where
  "findUser env db uid =
     (if kyFails env ''find user'' then Inl (KeyQueryFailed ''find user'')
      else case map_of (kdUsers db) uid of
             None \<Rightarrow> Inl (if kyScanMissing env then KeyQueryFailed ''find user'' else UserMissing)
           | Some u \<Rightarrow> Inr u)"

definition ListChannelGroupIDs :: "'f keyEnv \<Rightarrow> 'f keyDb \<Rightarrow> id \<Rightarrow> keyError + id list" where
  "ListChannelGroupIDs env db uid =
     (case findUser env db uid of
        Inl e \<Rightarrow> Inl e
      | Inr _ \<Rightarrow> if kyFails env ''list user groups'' then Inl (KeyQueryFailed ''list user channel groups'') else Inr (userGroupIDs db uid))"

text \<open>The ids without zero, the first occurrence of each.\<close>

definition firstGroups :: "id list \<Rightarrow> id list" where
  "firstGroups groups = dedupOn (\<lambda>g. g) (filter (\<lambda>g. g \<noteq> 0) groups)"

definition ReplaceChannelGroupIDs :: "'f keyEnv \<Rightarrow> 'f keyDb \<Rightarrow> id \<Rightarrow> id list \<Rightarrow> (keyError + id list) \<times> 'f keyDb" where
  "ReplaceChannelGroupIDs env db uid groups =
     (case findUser env db uid of
        Inl e \<Rightarrow> (Inl e, db)
      | Inr _ \<Rightarrow>
          let gs = firstGroups groups in
          if kyFails env ''clear user groups'' then (Inl (KeyQueryFailed ''clear user channel groups''), db)
          else if kyFails env ''insert user group'' \<and> gs \<noteq> [] then (Inl (KeyQueryFailed ''insert user channel group''), db)
          else let db1 = db\<lparr>kdUserGroups := filter (\<lambda>(u, g). u \<noteq> uid) (kdUserGroups db) @ map (Pair uid) gs\<rparr> in
            (case ListChannelGroupIDs env db1 uid of
               Inl e \<Rightarrow> (Inl e, db1)
             | Inr persisted \<Rightarrow>
                 if length persisted \<noteq> length gs \<or> \<not> list_all (\<lambda>g. g \<in> set persisted) gs then (Inl GroupsNotSaved, db1)
                 else (Inr persisted, db1)))"

definition DeleteUser :: "'f keyEnv \<Rightarrow> id \<Rightarrow> id \<Rightarrow> 'f keyState \<Rightarrow> keyError option \<times> 'f keyState" where
  "DeleteUser env uid operator st =
     (let db = ksDb st in
      if uid = 1 then (Some SystemUser, st)
      else if uid = operator then (Some OwnAccount, st)
      else case findUser env db uid of
             Inl e \<Rightarrow> (Some e, st)
           | Inr u \<Rightarrow>
               if \<not> kuCasdoor u then (Some NotSynchronised, st)
               else if kyFails env ''list user keys'' then (Some (KeyQueryFailed ''list user API keys for deletion''), st)
               else let keys = filter (\<lambda>(i, r). kwUser r = uid) (kdKeys db); ids = map fst keys in
                 if kyFails env ''delete user logs'' then (Some (KeyQueryFailed ''delete user usage logs''), st)
                 else if ids \<noteq> [] \<and> kyFails env ''delete models'' then (Some (KeyQueryFailed ''delete user API key model policies''), st)
                 else if ids \<noteq> [] \<and> kyFails env ''delete groups'' then (Some (KeyQueryFailed ''delete user API key channel policies''), st)
                 else if kyFails env ''delete keys'' then (Some (KeyQueryFailed ''delete user API keys''), st)
                 else if kyFails env ''delete user'' then (Some (KeyQueryFailed ''delete user''), st)
                 else let db1 = db\<lparr>kdKeys := filter (\<lambda>(i, r). kwUser r \<noteq> uid) (kdKeys db),
                              kdModels := filter (\<lambda>(i, m). i \<notin> set ids) (kdModels db), kdKeyGroups := filter (\<lambda>(i, g). i \<notin> set ids) (kdKeyGroups db),
                              kdUsers := filter (\<lambda>(i, u). i \<noteq> uid) (kdUsers db), kdLogs := filter (\<lambda>(l, i). i \<noteq> uid) (kdLogs db)\<rparr>;
                          hashes = map (kwHash \<circ> snd) keys
                   in (None, st\<lparr>ksDb := db1, ksCache := (if kyFails env ''drop cache'' then ksCache st
                         else (\<lambda>h. if h \<in> set hashes then None else ksCache st h))\<rparr>))"

subsection \<open>A revoked key is refused\<close>

text \<open>No row and no cached key with the digest is active.\<close>

definition keyGone :: "string \<Rightarrow> 'f keyState \<Rightarrow> bool" where
  "keyGone hash st \<longleftrightarrow> (\<forall>(i, r) \<in> set (kdKeys (ksDb st)). kwHash r = hash \<longrightarrow> kwStatus r \<noteq> 1) \<and>
     (\<forall>k expiry. ksCache st hash = Some (k, expiry) \<longrightarrow> auStatus k \<noteq> 1)"

lemma acceptKey_Inr: "acceptKey env t found = Inr k \<Longrightarrow> found = Some k \<and> auStatus k = 1"
  by (auto simp: acceptKey_def split: option.splits if_splits)

lemma loadKey_Some:
  assumes "loadKey env db hash = Inr (Some k)"
  obtains i r where "(i, r) \<in> set (kdKeys db)" "kwHash r = hash" "auId k = i" "auStatus k = kwStatus r" "auSpend k = kwSpend r"
proof -
  obtain i r where f: "findKeyByHash db hash = Some (i, r)" "populateAuthPolicy env db (scanKey i r) = Inr k"
    using assms by (auto simp: loadKey_def split: if_splits option.splits sum.splits)
  have "(i, r) \<in> set (kdKeys db)" "kwHash r = hash"
    using f(1) unfolding findKeyByHash_def find_Some_iff by (metis (mono_tags, lifting) nth_mem, auto)
  moreover have "auId k = i" "auStatus k = kwStatus r" "auSpend k = kwSpend r"
    using f(2) by (auto simp: populateAuthPolicy_def scanKey_def split: if_splits)
  ultimately show thesis by (rule that)
qed

lemma touch_keeps [simp]: "ksDb (touchLastUsed env t i st) = ksDb st" "ksCache (touchLastUsed env t i st) = ksCache st"
  by (simp_all add: touchLastUsed_def Let_def)

lemma fill_keeps [simp]: "ksDb (fillKeyCache env t h k st) = ksDb st"
  by (simp add: fillKeyCache_def)

lemma Authenticate_db: "ksDb (snd (Authenticate env t bearer st)) = ksDb st"
  by (auto simp: Authenticate_def getCached_def split: sum.splits option.splits)

lemma getCached_gone:
  assumes "keyGone hash st" "getCached env t h st = (found, st1)"
  shows "keyGone hash st1" "h = hash \<Longrightarrow> found \<noteq> Inr (Some k) \<or> auStatus k \<noteq> 1"
proof -
  have load: "auStatus k \<noteq> 1" if "loadKey env (ksDb st) hash = Inr (Some k)" for k
    using that assms(1) by (elim loadKey_Some) (auto simp: keyGone_def)
  show "keyGone hash st1"
    using assms load by (auto simp: getCached_def fillKeyCache_def keyGone_def split: sum.splits option.splits if_splits)
  assume "h = hash"
  then show "found \<noteq> Inr (Some k) \<or> auStatus k \<noteq> 1"
    using assms load by (auto simp: getCached_def readKeyCache_def keyGone_def split: sum.splits option.splits if_splits)
qed

lemma Authenticate_gone:
  assumes "keyGone hash st"
  shows "keyGone hash (snd (Authenticate env t bearer st))" "kyHash env bearer = hash \<Longrightarrow> \<exists>e. fst (Authenticate env t bearer st) = Inl e"
proof -
  obtain found st1 where g: "getCached env t (kyHash env bearer) st = (found, st1)" by (cases "getCached env t (kyHash env bearer) st")
  note G = getCached_gone [OF assms g]
  show "keyGone hash (snd (Authenticate env t bearer st))"
    using G(1) assms by (auto simp: Authenticate_def g keyGone_def split: sum.splits)
  assume "kyHash env bearer = hash"
  then show "\<exists>e. fst (Authenticate env t bearer st) = Inl e"
    using G(2) by (auto simp: Authenticate_def g split: sum.splits dest!: acceptKey_Inr)
qed

definition authenticateAll :: "'f keyEnv \<Rightarrow> (gotime \<times> string) list \<Rightarrow> 'f keyState \<Rightarrow> 'f keyState" where
  "authenticateAll env calls st = foldl (\<lambda>s (t, bearer). snd (Authenticate env t bearer s)) st calls"

lemma authenticateAll_gone: "keyGone hash st \<Longrightarrow> keyGone hash (authenticateAll env calls st)"
  unfolding authenticateAll_def by (induction calls arbitrary: st) (auto simp: Authenticate_gone(1))

definition keyTableOk :: "'f keyDb \<Rightarrow> bool" where
  "keyTableOk db \<longleftrightarrow> distinct (map fst (kdKeys db)) \<and> distinct (map (kwHash \<circ> snd) (kdKeys db))"

lemma accessKey_Inr: "accessKey env db user i = Inr r \<Longrightarrow> map_of (kdKeys db) i = Some r \<and> ensureAccess env user (kwUser r) = None"
  by (auto simp: accessKey_def split: if_splits option.splits)

lemma same_hash_same_key:
  assumes "keyTableOk db" "(i, r) \<in> set (kdKeys db)" "(j, q) \<in> set (kdKeys db)" "kwHash r = kwHash q"
  shows "i = j \<and> r = q"
proof -
  have "inj_on (kwHash \<circ> snd) (set (kdKeys db))" using assms(1) by (simp add: keyTableOk_def distinct_map)
  then show ?thesis using assms(2-4) inj_onD [of "kwHash \<circ> snd" "set (kdKeys db)" "(i, r)" "(j, q)"] by simp
qed

lemma replacePolicy_keys: "replacePolicy env db i ms gs = Inr db1 \<Longrightarrow> kdKeys db1 = kdKeys db"
  by (auto simp: replacePolicy_def split: if_splits)

lemma DeleteKey_gone:
  assumes "keyTableOk (ksDb st)" "map_of (kdKeys (ksDb st)) i = Some r" "DeleteKey env user i st = (None, st1)"
  shows "keyGone (kwHash r) st1"
proof -
  have "kdKeys (ksDb st1) = filter (\<lambda>(k, r). k \<noteq> i) (kdKeys (ksDb st))" "ksCache st1 (kwHash r) = None"
    using assms(2,3) by (auto simp: DeleteKey_def dropCachedKey_def notifyKeyChanged_def Let_def split: sum.splits if_splits dest!: accessKey_Inr)
  then show ?thesis
    using same_hash_same_key [OF assms(1) map_of_SomeD [OF assms(2)]] by (auto simp: keyGone_def)
qed

lemma UpdateKey_gone:
  assumes "keyTableOk (ksDb st)" "map_of (kdKeys (ksDb st)) i = Some r" "UpdateKey env user i input st = (None, st1)" "kiStatus input \<noteq> 1"
  shows "keyGone (kwHash r) st1"
proof -
  have "kdKeys (ksDb st1) = mapRow i (updateKeyRow input) (kdKeys (ksDb st))" "ksCache st1 (kwHash r) = None"
    using assms(2,3) by (auto simp: UpdateKey_def dropCachedKey_def notifyKeyChanged_def split: sum.splits if_splits dest!: accessKey_Inr replacePolicy_keys)
  moreover have "kwStatus (if k = i then updateKeyRow input q else q) \<noteq> 1"
    if "(k, q) \<in> set (kdKeys (ksDb st))" "kwHash (if k = i then updateKeyRow input q else q) = kwHash r" for k q
  proof (cases "k = i")
    case False
    then have "kwHash q = kwHash r" using that(2) by simp
    then show ?thesis using same_hash_same_key [OF assms(1) that(1) map_of_SomeD [OF assms(2)]] False by simp
  qed (simp add: updateKeyRow_def assms(4))
  ultimately show ?thesis by (auto simp: keyGone_def mapRow_def)
qed


subsection \<open>How stale a cached key can be\<close>

text \<open>
  Requests on several goroutines and gateways: a request that misses the cache reads the tables, and writes the key
  into the cache some time later; the tables change and cached keys are dropped at any moment in between, in any order
  and also without the drop that should follow a change.  A read takes at most \<open>L\<close>.  \<open>raChanged\<close> remembers when the
  grant of a digest, all that decides about its requests but the money spent, changed last.
\<close>

record 'f keyRace =
  raState :: "'f keyState"
  raLoads :: "(string \<times> 'f authKey \<times> gotime) list"
  raNow :: gotime
  raChanged :: "string \<Rightarrow> gotime"

type_synonym 'f keyGrant = "id \<times> id \<times> int \<times> 'f option \<times> 'f option \<times> gotime option \<times> string list \<times> id list"

definition grantOf :: "'f authKey \<Rightarrow> 'f keyGrant" where
  "grantOf k = (auId k, auUser k, auStatus k, auSpendLimit k, auDailyLimit k, auExpiresAt k, auModels k, auGroups k)"

definition keyGrant :: "'f keyEnv \<Rightarrow> 'f keyDb \<Rightarrow> string \<Rightarrow> 'f keyGrant option" where
  "keyGrant env db hash =
     map_option (\<lambda>(i, r). (i, kwUser r, kwStatus r, kwSpendLimit r, kwDailyLimit r, kwExpiresAt r, listModels env db i, listGroupIDs db i))
       (findKeyByHash db hash)"

inductive keyStep :: "'f keyEnv \<Rightarrow> duration \<Rightarrow> 'f keyRace \<Rightarrow> 'f keyRace \<Rightarrow> bool" for env L where
  Tick: "raNow s \<le> t \<Longrightarrow> \<forall>(h, k, t0) \<in> set (raLoads s). t \<le> t0 + L \<Longrightarrow> keyStep env L s (s\<lparr>raNow := t\<rparr>)"
| Load: "readKeyCache env (raNow s) (raState s) h = Inr None \<Longrightarrow> loadKey env (ksDb (raState s)) h = Inr (Some k) \<Longrightarrow>
    keyStep env L s (s\<lparr>raLoads := (h, k, raNow s) # raLoads s\<rparr>)"
| Fill: "(h, k, t0) \<in> set (raLoads s) \<Longrightarrow>
    keyStep env L s (s\<lparr>raLoads := remove1 (h, k, t0) (raLoads s), raState := fillKeyCache env (raNow s) h k (raState s)\<rparr>)"
| Drop: "keyStep env L s (s\<lparr>raState := snd (dropCachedKey env h (raState s))\<rparr>)"
| Change: "keyStep env L s (s\<lparr>raState := (raState s)\<lparr>ksDb := db\<rparr>,
    raChanged := (\<lambda>h. if keyGrant env db h = keyGrant env (ksDb (raState s)) h then raChanged s h else raNow s)\<rparr>)"

definition freshOrOld :: "'f keyEnv \<Rightarrow> 'f keyRace \<Rightarrow> string \<Rightarrow> 'f authKey \<Rightarrow> gotime \<Rightarrow> bool" where
  "freshOrOld env s h k t \<longleftrightarrow> keyGrant env (ksDb (raState s)) h = Some (grantOf k) \<or> t \<le> raChanged s h"

definition raceOk :: "'f keyEnv \<Rightarrow> duration \<Rightarrow> 'f keyRace \<Rightarrow> bool" where
  "raceOk env L s \<longleftrightarrow> (\<forall>h. raChanged s h \<le> raNow s) \<and>
     (\<forall>(h, k, t0) \<in> set (raLoads s). raNow s \<le> t0 + L \<and> t0 \<le> raNow s \<and> freshOrOld env s h k t0) \<and>
     (\<forall>h k expiry. ksCache (raState s) h = Some (k, expiry) \<longrightarrow> expiry \<le> raNow s + apiKeyCacheTTL \<and> freshOrOld env s h k (expiry - apiKeyCacheTTL - L))"

lemma loadKey_grant:
  assumes "loadKey env db h = Inr (Some k)"
  shows "keyGrant env db h = Some (grantOf k)"
proof -
  obtain i r where f: "findKeyByHash db h = Some (i, r)" "populateAuthPolicy env db (scanKey i r) = Inr k"
    using assms by (auto simp: loadKey_def split: if_splits option.splits sum.splits)
  then show ?thesis
    by (auto simp: keyGrant_def grantOf_def populateAuthPolicy_def scanKey_def split: if_splits)
qed

lemma freshOrOld_mono: "freshOrOld env s h k t \<Longrightarrow> t' \<le> t \<Longrightarrow> freshOrOld env s h k t'"
  by (auto simp: freshOrOld_def)

lemma raceOk_step:
  assumes "keyStep env L s s'" "0 \<le> L" "raceOk env L s"
  shows "raceOk env L s'"
  using assms
proof (cases rule: keyStep.cases)
  case (Tick t)
  have same: "freshOrOld env s' h k u = freshOrOld env s h k u" for h k u by (simp add: Tick freshOrOld_def)
  have now: "raNow s' = t" "raNow s \<le> t" and keep: "raLoads s' = raLoads s" "raChanged s' = raChanged s" "raState s' = raState s"
    using Tick by simp_all
  have "\<forall>(h, k, t0) \<in> set (raLoads s). raNow s' \<le> t0 + L \<and> t0 \<le> raNow s' \<and> freshOrOld env s h k t0"
    using assms(3) Tick(3) now by (fastforce simp: raceOk_def)
  moreover have "raChanged s h \<le> raNow s'" for h using assms(3) now by (meson order_trans raceOk_def)
  moreover have "expiry \<le> raNow s' + apiKeyCacheTTL \<and> freshOrOld env s h k (expiry - apiKeyCacheTTL - L)"
    if "ksCache (raState s) h = Some (k, expiry)" for h k expiry
    using assms(3) that now by (fastforce simp: raceOk_def)
  ultimately show ?thesis unfolding raceOk_def same keep by blast
next
  case (Load h k)
  have "freshOrOld env s' h' k' u = freshOrOld env s h' k' u" for h' k' u by (simp add: Load freshOrOld_def)
  moreover have "freshOrOld env s h k (raNow s)" using loadKey_grant [OF Load(3)] by (simp add: freshOrOld_def)
  ultimately show ?thesis using assms(2,3) Load by (simp add: raceOk_def)
next
  case (Fill h k t0)
  have same: "freshOrOld env s' h' k' u = freshOrOld env s h' k' u" for h' k' u by (simp add: Fill freshOrOld_def)
  have "freshOrOld env s h k t0" "raNow s \<le> t0 + L" using assms(3) Fill(2) by (auto simp: raceOk_def)
  then have "freshOrOld env s h k (raNow s - L)" by (auto intro: freshOrOld_mono)
  moreover have "set (remove1 (h, k, t0) (raLoads s)) \<subseteq> set (raLoads s)" by (rule set_remove1_subset)
  ultimately show ?thesis
    using assms(2,3) unfolding raceOk_def same by (auto simp: Fill(1) fillKeyCache_def split: if_splits)
next
  case (Drop h)
  have "freshOrOld env s' h' k' u = freshOrOld env s h' k' u" for h' k' u by (simp add: Drop freshOrOld_def dropCachedKey_def)
  then show ?thesis using assms(3) by (auto simp: raceOk_def Drop dropCachedKey_def)
next
  case (Change db)
  have old: "freshOrOld env s' h k u" if "freshOrOld env s h k u" "u \<le> raNow s" "raChanged s h \<le> raNow s" for h k u
    using that by (auto simp: freshOrOld_def Change)
  have "freshOrOld env s' h k (expiry - apiKeyCacheTTL - L)" if "ksCache (raState s) h = Some (k, expiry)" for h k expiry
  proof (rule old)
    have "expiry \<le> raNow s + apiKeyCacheTTL" using that assms(3) by (simp add: raceOk_def)
    then show "expiry - apiKeyCacheTTL - L \<le> raNow s" using assms(2) by simp
  qed (use that assms(3) in \<open>simp_all add: raceOk_def\<close>)
  then show ?thesis using assms(3) old by (auto simp: raceOk_def) (auto simp: Change)
qed

definition startRace :: "'f keyState \<Rightarrow> gotime \<Rightarrow> 'f keyRace" where
  "startRace st t = \<lparr>raState = st\<lparr>ksCache := (\<lambda>_. None)\<rparr>, raLoads = [], raNow = t, raChanged = (\<lambda>_. t)\<rparr>"

lemma raceOk_reachable:
  assumes "(keyStep env L)\<^sup>*\<^sup>* (startRace st t) s" "0 \<le> L"
  shows "raceOk env L s"
  using assms(1)
proof (induction rule: rtranclp_induct)
  case base
  show ?case by (simp add: raceOk_def startRace_def)
next
  case (step s s')
  then show ?case using raceOk_step assms(2) by blast
qed

text \<open>
  Whatever requests, changes of the tables and dropped or forgotten deletions of cached keys interleave, a key
  that the cache answers with grants what the tables grant, or the grant changed less than the life time of a cached
  key and of one read ago.
\<close>

theorem cached_key_staleness_bounded:
  assumes "(keyStep env L)\<^sup>*\<^sup>* (startRace st t) s" "0 \<le> L" "readKeyCache env (raNow s) (raState s) h = Inr (Some k)"
  shows "keyGrant env (ksDb (raState s)) h = Some (grantOf k) \<or> raNow s < raChanged s h + apiKeyCacheTTL + L"
proof -
  obtain expiry where e: "ksCache (raState s) h = Some (k, expiry)" "raNow s < expiry"
    using assms(3) by (auto simp: readKeyCache_def split: if_splits option.splits)
  then have "freshOrOld env s h k (expiry - apiKeyCacheTTL - L)"
    using raceOk_reachable [OF assms(1,2)] by (simp add: raceOk_def)
  then show ?thesis using e(2) by (auto simp: freshOrOld_def)
qed

text \<open>A key of one user; money counts in whole units here.\<close>

definition exampleKeyEnv :: "int keyEnv" where
  "exampleKeyEnv = \<lparr>kyWorker = False, kyFails = (\<lambda>_. False), kyScanMissing = True,
     kyFloats = \<lparr>fAdd = (+), fSub = (-), fZero = 0, fLe = (\<le>)\<rparr>, kyHash = (\<lambda>s. s), kyDecrypt = Some, kyAdminRoles = [''admin''],
     kyDay = (\<lambda>t. 0), kyOrder = (\<lambda>ms. ms)\<rparr>"

definition exampleKeyRow :: "int keyRow" where
  "exampleKeyRow = \<lparr>kwUser = 7, kwName = ''k'', kwHash = ''sk-a'', kwCipher = ''c'', kwStatus = 1, kwSpendLimit = Some 10, kwDailyLimit = None,
     kwSpend = \<lparr>akSpent = 0, akDailySpent = 0, akDailyDate = None\<rparr>, kwExpiresAt = None\<rparr>"

definition exampleKeyState :: "int keyState" where
  "exampleKeyState = \<lparr>ksDb = \<lparr>kdKeys = [(1, exampleKeyRow)], kdModels = [], kdKeyGroups = [], kdUsers = [(7, \<lparr>kuRole = ''user'', kuCasdoor = True\<rparr>)],
     kdUserGroups = [(7, 3)], kdLogs = []\<rparr>, ksCache = (\<lambda>_. None), ksTouchLock = (\<lambda>_. None), ksLastUsed = (\<lambda>_. None), ksNotices = []\<rparr>"

definition exampleKey :: "int authKey" where
  "exampleKey = (scanKey 1 exampleKeyRow)\<lparr>auRole := ''user'', auUserGroups := [3]\<rparr>"

lemmas exampleKey_defs = exampleKeyEnv_def exampleKeyRow_def exampleKeyState_def exampleKey_def

lemma exampleKey_loaded: "loadKey exampleKeyEnv (ksDb exampleKeyState) ''sk-a'' = Inr (Some exampleKey)"
  by (simp add: loadKey_def findKeyByHash_def populateAuthPolicy_def scanKey_def listModels_def listGroupIDs_def userGroupIDs_def exampleKey_defs)

lemma example_accepted: "fst (Authenticate exampleKeyEnv 5 ''sk-a'' exampleKeyState) = Inr exampleKey"
  by (simp add: Authenticate_def HasAPIKeyPrefix_def hasPrefix_def APIKeyPrefix_def getCached_def readKeyCache_def loadKey_def findKeyByHash_def
      populateAuthPolicy_def scanKey_def listModels_def listGroupIDs_def userGroupIDs_def acceptKey_def keyDailyLimitReached_def dailyLimitReached_def exampleKey_defs)


theorem cached_key_staleness_bounded_witness:
  "keyGrant exampleKeyEnv (ksDb exampleKeyState) ''sk-a'' = Some (grantOf exampleKey) \<or> (0::int) < 0 + apiKeyCacheTTL + 10"
proof -
  let ?s0 = "startRace exampleKeyState 0"
  let ?s1 = "?s0\<lparr>raLoads := [(''sk-a'', exampleKey, 0)]\<rparr>"
  let ?s2 = "?s1\<lparr>raLoads := [], raState := fillKeyCache exampleKeyEnv 0 ''sk-a'' exampleKey (raState ?s1)\<rparr>"
  have "keyStep exampleKeyEnv 10 ?s0 ?s1"
    using keyStep.Load [of exampleKeyEnv ?s0 "''sk-a''" exampleKey 10] exampleKey_loaded
    by (simp add: startRace_def readKeyCache_def exampleKeyEnv_def)
  moreover have "keyStep exampleKeyEnv 10 ?s1 ?s2"
    using keyStep.Fill [of "''sk-a''" exampleKey 0 ?s1 exampleKeyEnv 10] by (simp add: startRace_def)
  ultimately have run: "(keyStep exampleKeyEnv 10)\<^sup>*\<^sup>* ?s0 ?s2" by (meson converse_rtranclp_into_rtranclp rtranclp.rtrancl_refl)
  have read: "readKeyCache exampleKeyEnv (raNow ?s2) (raState ?s2) ''sk-a'' = Inr (Some exampleKey)"
    by (simp add: readKeyCache_def fillKeyCache_def exampleKeyEnv_def startRace_def apiKeyCacheTTL_def duration_defs)
  have "ksDb (raState ?s2) = ksDb exampleKeyState" "raNow ?s2 = 0" "raChanged ?s2 ''sk-a'' = 0"
    by (simp_all add: startRace_def)
  then show ?thesis using cached_key_staleness_bounded [OF run _ read] by simp
qed

subsection \<open>What the cache hides\<close>

text \<open>
  The accounting drops the cached key before its transaction is committed.  A request in between reads the row without
  the spend and puts it into the cache for five minutes: the key is accepted although its limit is used up.
\<close>

lemma spend_seen_late:
  "let read = snd (Authenticate exampleKeyEnv 5 ''sk-a'' (snd (dropCachedKey exampleKeyEnv ''sk-a'' exampleKeyState)));
       spent = read\<lparr>ksDb := commitSpend exampleKeyEnv 1 10 0 (ksDb read)\<rparr>
   in fst (Authenticate exampleKeyEnv 6 ''sk-a'' (spent\<lparr>ksCache := (\<lambda>_. None)\<rparr>)) = Inl InvalidKey \<and>
      fst (Authenticate exampleKeyEnv 6 ''sk-a'' spent) = Inr exampleKey"
  by (simp add: Authenticate_def HasAPIKeyPrefix_def hasPrefix_def APIKeyPrefix_def getCached_def readKeyCache_def fillKeyCache_def loadKey_def findKeyByHash_def
      populateAuthPolicy_def scanKey_def listModels_def listGroupIDs_def userGroupIDs_def acceptKey_def keyDailyLimitReached_def dailyLimitReached_def
      touchLastUsed_def dropCachedKey_def commitSpend_def mapRow_def spendRow_def apiKeyCacheTTL_def duration_defs exampleKey_defs Let_def)

text \<open>A change of the channel groups of a user drops no cached key, so the key keeps the groups it was cached with.\<close>

lemma withdrawn_group_kept:
  assumes "\<not> kyWorker env" "ksCache st (kyHash env bearer) = Some (k, expiry)" "t < expiry"
  shows "fst (Authenticate env t bearer (st\<lparr>ksDb := snd (ReplaceChannelGroupIDs env (ksDb st) uid groups)\<rparr>)) = fst (Authenticate env t bearer st)"
  using assms by (simp add: Authenticate_def getCached_def readKeyCache_def split: sum.split)

subsection \<open>Access\<close>

text \<open>Nobody but the owner and an administrator changes, deletes or sees a key.\<close>

lemma key_of_others_untouched:
  assumes "map_of (kdKeys (ksDb st)) i = Some r" "uid \<noteq> kwUser r" "\<not> IsAdminRole (kyAdminRoles env) role"
  shows "\<exists>e. UpdateKey env (Some (uid, role)) i input st = (Some e, st)" "\<exists>e. DeleteKey env (Some (uid, role)) i st = (Some e, st)"
    "\<exists>e. Reveal env (Some (uid, role)) i st = Inl e"
  using assms by (simp_all add: UpdateKey_def DeleteKey_def Reveal_def accessKey_def ensureAccess_def)

text \<open>A key that was created can be shown again, by its owner or an administrator.\<close>

lemma created_key_revealed:
  assumes "CreateKey env (Some (uid, role)) i plainText (Some cipher) input st = (Inr i, st1)" "kyDecrypt env cipher = Some plainText"
    "trimSpace cipher \<noteq> []" "\<not> kyFails env ''find key by id''"
  shows "Reveal env (Some (uid, role)) i st1 = Inr plainText"
proof -
  have "kdKeys (ksDb st1) = kdKeys (ksDb st) @ [(i, createKeyRow env uid i plainText cipher input)]" "i \<notin> fst ` set (kdKeys (ksDb st))"
    using assms(1) by (auto simp: CreateKey_def notifyKeyChanged_def Let_def split: if_splits sum.splits dest!: replacePolicy_keys)
  then have "map_of (kdKeys (ksDb st1)) i = Some (createKeyRow env uid i plainText cipher input)"
    by (simp add: map_add_dom_app_simps(3) dom_map_of_conv_image_fst)
  then show ?thesis using assms(2-4) by (simp add: Reveal_def accessKey_def ensureAccess_def createKeyRow_def)
qed

lemma filter_replaced: "filter (\<lambda>(k, v). k = i) (filter (\<lambda>(k, v). k \<noteq> i) xs @ map (Pair i) ys) = map (Pair i) ys"
proof -
  have "filter (\<lambda>(k, v). k = i) (filter (\<lambda>(k, v). k \<noteq> i) xs) = []" by (induction xs) auto
  moreover have "filter (\<lambda>(k, v). k = i) (map (Pair i) ys) = map (Pair i) ys" by (induction ys) auto
  ultimately show ?thesis by (simp only: filter_append append_Nil)
qed

text \<open>The policy that is stored is the one that was asked for, without blanks, zeros and repetitions.\<close>

lemma stored_policy:
  assumes "replacePolicy env db i ms gs = Inr db1" "\<And>xs. set (kyOrder env xs) = set xs"
  shows "set (listModels env db1 i) = set (normalizeModels ms)" "listGroupIDs db1 i = uniqueIDs gs"
proof -
  have db1: "kdModels db1 = filter (\<lambda>(k, m). k \<noteq> i) (kdModels db) @ map (Pair i) (normalizeModels ms)"
    "kdKeyGroups db1 = filter (\<lambda>(k, g). k \<noteq> i) (kdKeyGroups db) @ map (Pair i) (uniqueIDs gs)"
    using assms(1) by (auto simp: replacePolicy_def split: if_splits)
  have "listModels env db1 i = kyOrder env (normalizeModels ms)" "listGroupIDs db1 i = sort (uniqueIDs gs)"
    unfolding listModels_def listGroupIDs_def db1 filter_replaced by (simp_all add: comp_def)
  then show "set (listModels env db1 i) = set (normalizeModels ms)" "listGroupIDs db1 i = uniqueIDs gs"
    using assms(2) by (simp_all add: uniqueIDs_def sorted_sort_id)
qed

end
