(* ===== verification/Go_Regexp.thy ===== *)
theory Go_Regexp
  imports Prelude
begin

text \<open>
  What the code uses of Go's package \<^verbatim>\<open>regexp\<close>: the expressions of \<^verbatim>\<open>sensitive_data.go\<close> and \<^verbatim>\<open>price_expr*.go\<close> are built from classes of
  bytes, sequences, alternatives that prefer the first, repeated classes, word boundaries, the ends of the text and
  groups.  The search is leftmost and prefers earlier alternatives, as the package documents; a text is the list of its
  bytes, and a class that excludes ASCII blanks matches every byte of a longer character.
\<close>

datatype rx =
    Byte "char \<Rightarrow> bool"
  | Empty
  | Seq rx rx
  | Alt rx rx
  | Many "char \<Rightarrow> bool"
  | Few "char \<Rightarrow> bool"
  | WordEdge
  | TextStart
  | TextEnd
  | Group nat rx
  | Close nat string

record rxState =
  rxPrev :: "char option"
  rxRest :: string
  rxGroups :: "(nat \<times> string) list"

definition inRange :: "char \<Rightarrow> char \<Rightarrow> char \<Rightarrow> bool" where
  "inRange lo hi c \<longleftrightarrow> of_char lo \<le> (of_char c :: nat) \<and> (of_char c :: nat) \<le> of_char hi"

definition isLower :: "char \<Rightarrow> bool" where "isLower = inRange (CHR ''a'') (CHR ''z'')"
definition isUpper :: "char \<Rightarrow> bool" where "isUpper = inRange (CHR ''A'') (CHR ''Z'')"
definition isAlpha :: "char \<Rightarrow> bool" where "isAlpha c \<longleftrightarrow> isLower c \<or> isUpper c"
definition isAlnum :: "char \<Rightarrow> bool" where "isAlnum c \<longleftrightarrow> isAlpha c \<or> isDigit c"
definition isWord :: "char \<Rightarrow> bool" where "isWord c \<longleftrightarrow> isAlnum c \<or> c = CHR ''_''"

text \<open>The class of blanks: tab, line feed, form feed, carriage return and space.\<close>

definition isBlank :: "char \<Rightarrow> bool" where "isBlank c \<longleftrightarrow> (of_char c :: nat) \<in> {9, 10, 12, 13, 32}"

definition stepOver :: "rxState \<Rightarrow> rxState" where
  "stepOver st = (case rxRest st of [] \<Rightarrow> st | c # cs \<Rightarrow> st\<lparr>rxPrev := Some c, rxRest := cs\<rparr>)"

definition headSatisfies :: "(char \<Rightarrow> bool) \<Rightarrow> rxState \<Rightarrow> bool" where
  "headSatisfies P st = (case rxRest st of [] \<Rightarrow> False | c # _ \<Rightarrow> P c)"

definition atWordEdge :: "rxState \<Rightarrow> bool" where
  "atWordEdge st = ((case rxPrev st of None \<Rightarrow> False | Some c \<Rightarrow> isWord c) \<noteq> headSatisfies isWord st)"

text \<open>The matcher: a stack of expressions still to be matched, tried in order of preference.\<close>

function rxGo :: "rx list \<Rightarrow> rxState \<Rightarrow> rxState option" where
  "rxGo [] st = Some st"
| "rxGo (Byte P # rs) st = (if headSatisfies P st then rxGo rs (stepOver st) else None)"
| "rxGo (Empty # rs) st = rxGo rs st"
| "rxGo (Seq a b # rs) st = rxGo (a # b # rs) st"
| "rxGo (Alt a b # rs) st = (case rxGo (a # rs) st of Some r \<Rightarrow> Some r | None \<Rightarrow> rxGo (b # rs) st)"
| "rxGo (Many P # rs) st =
     (if headSatisfies P st then (case rxGo (Many P # rs) (stepOver st) of Some r \<Rightarrow> Some r | None \<Rightarrow> rxGo rs st) else rxGo rs st)"
| "rxGo (Few P # rs) st =
     (case rxGo rs st of Some r \<Rightarrow> Some r | None \<Rightarrow> if headSatisfies P st then rxGo (Few P # rs) (stepOver st) else None)"
| "rxGo (WordEdge # rs) st = (if atWordEdge st then rxGo rs st else None)"
| "rxGo (TextStart # rs) st = (if rxPrev st = None then rxGo rs st else None)"
| "rxGo (Group n a # rs) st = rxGo (a # Close n (rxRest st) # rs) st"
| "rxGo (Close n from0 # rs) st =
     rxGo rs (st\<lparr>rxGroups := (n, take (length from0 - length (rxRest st)) from0) # rxGroups st\<rparr>)"
| "rxGo (TextEnd # rs) st = (if rxRest st = [] then rxGo rs st else None)"
  by pat_completeness auto

fun rxSize :: "rx \<Rightarrow> nat" where
  "rxSize (Seq a b) = 1 + rxSize a + rxSize b"
| "rxSize (Alt a b) = 1 + rxSize a + rxSize b"
| "rxSize (Group _ a) = 3 + rxSize a"
| "rxSize _ = 1"

lemma stepOver_shorter: "headSatisfies P st \<Longrightarrow> length (rxRest (stepOver st)) < length (rxRest st)"
  by (auto simp: headSatisfies_def stepOver_def split: list.splits)

lemma rxSize_pos: "0 < rxSize r"
  by (cases r) simp_all

termination rxGo
  by (relation "measures [\<lambda>(rs, st). length (rxRest st), \<lambda>(rs, st). sum_list (map rxSize rs)]")
    (auto simp: stepOver_shorter rxSize_pos)

text \<open>A match leaves a suffix of the text.\<close>

definition leftOver :: "rxState \<Rightarrow> rxState \<Rightarrow> bool" where
  "leftOver st' st \<longleftrightarrow> (\<exists>u. rxRest st = u @ rxRest st')"

lemma leftOver_refl [simp]: "leftOver st st"
  by (simp add: leftOver_def)

lemma leftOver_step: "leftOver st' (stepOver st) \<Longrightarrow> leftOver st' st"
  by (cases "rxRest st") (auto simp: leftOver_def stepOver_def)

lemma leftOver_groups [simp]: "leftOver st' (st\<lparr>rxGroups := g\<rparr>) = leftOver st' st"
  by (simp add: leftOver_def)

lemma rxGo_leftOver: "rxGo rs st = Some st' \<Longrightarrow> leftOver st' st"
proof (induction rs st rule: rxGo.induct)
  case (5 a b rs st)
  then show ?case by (cases "rxGo (a # rs) st") simp_all
next
  case (6 P rs st)
  show ?case
  proof (cases "headSatisfies P st")
    case True
    show ?thesis
    proof (cases "rxGo (Many P # rs) (stepOver st)")
      case None
      then show ?thesis using True 6 by (simp add: rxGo.simps(6) [of P rs st] del: rxGo.simps(6))
    next
      case (Some r)
      then have "r = st'" using True 6(4) by (simp add: rxGo.simps(6) [of P rs st] del: rxGo.simps(6))
      then show ?thesis using 6(1) [OF True] Some leftOver_step by blast
    qed
  next
    case False
    then show ?thesis using 6 by simp
  qed
next
  case (7 P rs st)
  show ?case
  proof (cases "rxGo rs st")
    case None
    then have "headSatisfies P st" "rxGo (Few P # rs) (stepOver st) = Some st'"
      using 7(3) by (simp_all add: rxGo.simps(7) [of P rs st] del: rxGo.simps(7) split: if_splits)
    then show ?thesis using 7(2) [OF None] leftOver_step by blast
  next
    case (Some r)
    then have "r = st'" using 7(3) by (simp add: rxGo.simps(7) [of P rs st] del: rxGo.simps(7))
    then show ?thesis using 7(1) Some by blast
  qed
qed (simp_all add: leftOver_step split: if_splits)

subsection \<open>Searching and replacing\<close>

text \<open>The first match: the text before it and the state after it.\<close>

fun rxFind :: "rx \<Rightarrow> char option \<Rightarrow> string \<Rightarrow> (string \<times> rxState) option" where
  "rxFind r prev s =
     (case rxGo [r] \<lparr>rxPrev = prev, rxRest = s, rxGroups = []\<rparr> of
        Some st \<Rightarrow> Some ([], st)
      | None \<Rightarrow> (case s of [] \<Rightarrow> None | c # cs \<Rightarrow> map_option (\<lambda>(gap, st). (c # gap, st)) (rxFind r (Some c) cs)))"

declare rxFind.simps [simp del]

lemma rxFind_split: "rxFind r prev s = Some (gap, st) \<Longrightarrow> \<exists>u. s = gap @ u @ rxRest st"
proof (induction s arbitrary: prev gap)
  case Nil
  then show ?case
    by (cases "rxGo [r] \<lparr>rxPrev = prev, rxRest = [], rxGroups = []\<rparr>") (auto simp: rxFind.simps [of r prev "[]"] leftOver_def dest!: rxGo_leftOver)
next
  case (Cons c cs)
  show ?case
  proof (cases "rxGo [r] \<lparr>rxPrev = prev, rxRest = c # cs, rxGroups = []\<rparr>")
    case None
    then show ?thesis using Cons by (auto simp: rxFind.simps [of r prev "c # cs"])
  next
    case (Some st')
    then show ?thesis using Cons.prems rxGo_leftOver [OF Some] by (auto simp: rxFind.simps [of r prev "c # cs"] leftOver_def)
  qed
qed

definition groupText :: "rxState \<Rightarrow> nat \<Rightarrow> string" where
  "groupText st n = (case map_of (rxGroups st) n of None \<Rightarrow> [] | Some t \<Rightarrow> t)"

text \<open>\<^verbatim>\<open>FindStringSubmatch\<close>.\<close>

definition rxSubmatch :: "rx \<Rightarrow> string \<Rightarrow> rxState option" where
  "rxSubmatch r s = map_option snd (rxFind r None s)"

text \<open>
  \<^verbatim>\<open>ReplaceAllStringFunc\<close> and the loops over \<^verbatim>\<open>FindAllStringIndex\<close>: the matches from left to right, each replaced by
  a function with a state.  The expressions of the code match no empty text.
\<close>

function rxReplace :: "rx \<Rightarrow> (string \<Rightarrow> 's \<Rightarrow> string \<times> 's) \<Rightarrow> char option \<Rightarrow> string \<Rightarrow> 's \<Rightarrow> string \<times> 's" where
  "rxReplace r f prev s x =
     (case rxFind r prev s of
        None \<Rightarrow> (s, x)
      | Some (gap, st) \<Rightarrow>
          if length (rxRest st) < length s - length gap then
            (let found = take (length s - length gap - length (rxRest st)) (drop (length gap) s);
                 (new, x1) = f found x; (tail, x2) = rxReplace r f (rxPrev st) (rxRest st) x1
             in (gap @ new @ tail, x2))
          else (s, x))"
  by pat_completeness auto
termination
  by (relation "measure (\<lambda>(r, f, prev, s, x). length s)") auto

declare rxReplace.simps [simp del]

lemma rxReplace_none: "rxFind r prev s = None \<Longrightarrow> rxReplace r f prev s x = (s, x)"
  by (simp add: rxReplace.simps)

text \<open>A function that keeps what it is given keeps the text.\<close>

lemma rxReplace_id:
  assumes "\<And>m y. f m y = (m, y)"
  shows "rxReplace r f prev s x = (s, x)"
  using assms
proof (induction r f prev s x rule: rxReplace.induct)
  case (1 r f prev s x)
  show ?case
  proof (cases "rxFind r prev s")
    case None
    then show ?thesis by (rule rxReplace_none)
  next
    case (Some p)
    obtain gap st where p: "p = (gap, st)" by (cases p)
    obtain u where s: "s = gap @ u @ rxRest st" using rxFind_split Some p by blast
    show ?thesis
    proof (cases "u = []")
      case True
      then have "\<not> length (rxRest st) < length s - length gap" using s by simp
      then show ?thesis using Some by (simp add: rxReplace.simps [of r f prev s x] p)
    next
      case False
      then have less: "length (rxRest st) < length s - length gap" using s by simp
      have found: "take (length s - length gap - length (rxRest st)) (drop (length gap) s) = u" using s by simp
      have "rxReplace r f (rxPrev st) (rxRest st) x = (rxRest st, x)"
        by (rule 1(1) [OF Some p [symmetric] less refl refl, of u x]) (simp_all only: found 1(2))
      have "rxReplace r f prev s x = (case f u x of (new, x1) \<Rightarrow> case rxReplace r f (rxPrev st) (rxRest st) x1 of (tail, x2) \<Rightarrow> (gap @ new @ tail, x2))"
        using less by (simp only: rxReplace.simps [of r f prev s x] Some p option.case prod.case Let_def found if_True)
      also have "\<dots> = (gap @ u @ rxRest st, x)"
        by (simp only: 1(2) prod.case \<open>rxReplace r f (rxPrev st) (rxRest st) x = (rxRest st, x)\<close>)
      finally show ?thesis using s by simp
    qed
  qed
qed

text \<open>\<^verbatim>\<open>FindAllStringSubmatch\<close>: the groups of every match.\<close>

function rxAll :: "rx \<Rightarrow> char option \<Rightarrow> string \<Rightarrow> rxState list" where
  "rxAll r prev s =
     (case rxFind r prev s of
        None \<Rightarrow> []
      | Some (gap, st) \<Rightarrow> if length (rxRest st) < length s - length gap then st # rxAll r (rxPrev st) (rxRest st) else [])"
  by pat_completeness auto
termination
  by (relation "measure (\<lambda>(r, prev, s). length s)") auto

declare rxAll.simps [simp del]

text \<open>What the function keeps of its state, the replacement keeps.\<close>

lemma rxReplace_inv:
  assumes "\<And>u y. Q y \<Longrightarrow> Q (snd (f u y))" "Q x"
  shows "Q (snd (rxReplace r f prev s x))"
  using assms
proof (induction r f prev s x rule: rxReplace.induct)
  case (1 r f prev s x)
  show ?case
  proof (cases "rxFind r prev s")
    case None
    then show ?thesis using 1(3) by (simp add: rxReplace_none)
  next
    case (Some p)
    obtain gap st where p: "p = (gap, st)" by (cases p)
    show ?thesis
    proof (cases "length (rxRest st) < length s - length gap")
      case False
      then show ?thesis using 1(3) by (simp add: rxReplace.simps [of r f prev s x] Some p)
    next
      case True
      define found where "found = take (length s - length gap - length (rxRest st)) (drop (length gap) s)"
      obtain new x1 where f: "f found x = (new, x1)" by (cases "f found x")
      obtain tail x2 where t: "rxReplace r f (rxPrev st) (rxRest st) x1 = (tail, x2)" by (cases "rxReplace r f (rxPrev st) (rxRest st) x1")
      have q: "Q x1" using 1(2) [OF 1(3), of found] f by simp
      have "Q (snd (rxReplace r f (rxPrev st) (rxRest st) x1))"
        by (rule 1(1) [OF Some p [symmetric] True found_def refl f [symmetric]]) (erule 1(2), rule q)
      then show ?thesis using True f t
        by (simp only: rxReplace.simps [of r f prev s x] Some p option.case prod.case Let_def found_def [symmetric] if_True snd_conv)
    qed
  qed
qed

subsection \<open>Building expressions\<close>

definition lit :: "string \<Rightarrow> rx" where "lit s = foldr (\<lambda>c r. Seq (Byte (\<lambda>d. d = c)) r) s Empty"
definition litFold :: "string \<Rightarrow> rx" where "litFold s = foldr (\<lambda>c r. Seq (Byte (\<lambda>d. lowerChar d = lowerChar c)) r) s Empty"
definition seqs :: "rx list \<Rightarrow> rx" where "seqs rs = foldr Seq rs Empty"
definition many1 :: "(char \<Rightarrow> bool) \<Rightarrow> rx" where "many1 P = Seq (Byte P) (Many P)"
definition opt :: "rx \<Rightarrow> rx" where "opt r = Alt r Empty"
definition alts :: "rx list \<Rightarrow> rx" where "alts rs = (case rs of [] \<Rightarrow> Empty | r # rest0 \<Rightarrow> foldl Alt r rest0)"

fun upTo :: "nat \<Rightarrow> rx \<Rightarrow> rx" where
  "upTo 0 r = Empty"
| "upTo (Suc n) r = opt (Seq r (upTo n r))"

definition between :: "nat \<Rightarrow> nat \<Rightarrow> rx \<Rightarrow> rx" where
  "between lo hi r = Seq (seqs (replicate lo r)) (upTo (hi - lo) r)"

definition atLeast0 :: "nat \<Rightarrow> (char \<Rightarrow> bool) \<Rightarrow> rx" where
  "atLeast0 n P = Seq (seqs (replicate n (Byte P))) (Many P)"

end
