(* ===== verification/Sensitive_Data.thy ===== *)
theory Sensitive_Data
  imports Go_Regexp Go_Json
begin

text \<open>
  The masking of secrets in requests (\<^verbatim>\<open>relay/sensitive_data.go\<close>) and their return in answers
  (\<^verbatim>\<open>relay/sensitive_data_restore.go\<close>).  A secret is replaced by a placeholder, and the restorer of the request remembers
  what it stands for.  The maps of the code are lists in the order of insertion; where the code walks over one, in an
  order the language leaves open, the order is an argument.
\<close>

subsection \<open>The expressions\<close>

abbreviation notSep :: "char \<Rightarrow> bool" where
  "notSep c \<equiv> \<not> isBlank c \<and> c \<noteq> CHR '','' \<and> c \<noteq> CHR '';''"

definition assignmentPattern :: rx where
  "assignmentPattern = seqs
     [Group 1 (Alt TextStart (Byte (\<lambda>c. \<not> isAlnum c))),
      Group 2 (Seq (Byte isAlpha) (Many (\<lambda>c. isAlnum c \<or> c = CHR ''_'' \<or> c = CHR ''-''))),
      Group 3 (seqs [Many isBlank, Byte (\<lambda>c. c = CHR ''='' \<or> c = CHR '':''), Many isBlank]),
      Group 4 (seqs [opt (Seq (litFold ''bearer'') (many1 isBlank)), many1 notSep])]"

definition chinesePasswordPattern :: rx where
  "chinesePasswordPattern = seqs
     [lit (bytes [0xE5, 0xAF, 0x86, 0xE7, 0xA0, 0x81]), Many isBlank,
      alts [lit (bytes [0xE4, 0xB8, 0xBA]), lit (bytes [0xE6, 0x98, 0xAF]), lit ''='', lit '':''], Many isBlank, Group 1 (many1 notSep)]"

definition basicAuthURLPattern :: rx where
  "basicAuthURLPattern = seqs
     [Group 1 (seqs [Byte isAlpha, Many (\<lambda>c. isAlnum c \<or> c \<in> {CHR ''+'', CHR ''.'', CHR ''-''}), lit ''://'',
        many1 (\<lambda>c. \<not> isBlank c \<and> c \<notin> {CHR ''/'', CHR '':'', CHR ''@''}), lit '':'']),
      Group 2 (many1 (\<lambda>c. \<not> isBlank c \<and> c \<notin> {CHR ''@'', CHR ''/''})), Group 3 (lit ''@'')]"

definition bearerTokenPattern :: rx where
  "bearerTokenPattern = seqs
     [WordEdge, litFold ''bearer'', many1 isBlank,
      many1 (\<lambda>c. isAlnum c \<or> c \<in> {CHR ''.'', CHR ''_'', CHR ''~'', CHR ''+'', CHR ''/'', CHR ''='', CHR ''-''})]"

definition commonTokenPattern :: rx where
  "commonTokenPattern = Alt
     (seqs [WordEdge, alts [lit ''sk'', lit ''rk'', lit ''pk''], lit ''-'', atLeast0 8 (\<lambda>c. isAlnum c \<or> c \<in> {CHR ''_'', CHR ''-''}), WordEdge])
     (seqs [WordEdge, Alt (lit ''AKIA'') (lit ''ASIA''), between 16 16 (Byte (\<lambda>c. isUpper c \<or> isDigit c)), WordEdge])"

definition privateKeyLine :: "string \<Rightarrow> rx" where
  "privateKeyLine word = seqs [litFold (''-----'' @ word), opt (Seq (lit '' '') (many1 isAlnum)), litFold '' PRIVATE KEY-----'']"

definition privateKeyPattern :: rx where
  "privateKeyPattern = seqs [privateKeyLine ''BEGIN'', Few (\<lambda>_. True), privateKeyLine ''END'']"

definition emailPattern :: rx where
  "emailPattern = seqs
     [WordEdge, many1 (\<lambda>c. isAlnum c \<or> c \<in> {CHR ''.'', CHR ''_'', CHR ''%'', CHR ''+'', CHR ''-''}), lit ''@'',
      many1 (\<lambda>c. isAlnum c \<or> c \<in> {CHR ''.'', CHR ''-''}), lit ''.'', atLeast0 2 isAlpha, WordEdge]"

definition mainlandPhonePattern :: rx where
  "mainlandPhonePattern = seqs
     [opt (seqs [opt (lit ''+''), lit ''86'', opt (Byte (\<lambda>c. c = CHR ''-'' \<or> c = CHR '' ''))]),
      lit ''1'', Byte (inRange (CHR ''3'') (CHR ''9'')), between 9 9 (Byte isDigit)]"

definition chineseIDPattern :: rx where
  "chineseIDPattern = seqs
     [WordEdge, Byte (inRange (CHR ''1'') (CHR ''9'')), between 16 16 (Byte isDigit), Byte (\<lambda>c. isDigit c \<or> c = CHR ''X'' \<or> c = CHR ''x''), WordEdge]"

definition bankCardPattern :: rx where
  "bankCardPattern = seqs
     [WordEdge, between 12 18 (Seq (Byte isDigit) (opt (Byte (\<lambda>c. c = CHR '' '' \<or> c = CHR ''-'')))), Byte isDigit, WordEdge]"

subsection \<open>Placeholders\<close>

record restorer =
  rsID :: string
  rsReplacements :: "(string \<times> string) list"
  rsNext :: nat

text \<open>\<^verbatim>\<open>alphabeticID\<close>: the number in letters, most significant first.\<close>

fun letters :: "nat \<Rightarrow> string" where
  "letters n = (if n = 0 then [] else letters (n div 26) @ [char_of (97 + n mod 26)])"

declare letters.simps [simp del]

definition alphabeticID :: "nat \<Rightarrow> string" where
  "alphabeticID n = (if n = 0 then ''a'' else letters n)"

text \<open>The request id has its digits replaced by letters.\<close>

definition requestLetters :: "string \<Rightarrow> string" where
  "requestLetters = map (\<lambda>c. if isDigit c then char_of (97 + (of_char c - 48) :: nat) else c)"

definition newSensitiveDataRestorer :: "string \<Rightarrow> restorer" where
  "newSensitiveDataRestorer hex = \<lparr>rsID = requestLetters hex, rsReplacements = [], rsNext = 0\<rparr>"

definition placeholder :: "restorer \<Rightarrow> nat \<Rightarrow> string" where
  "placeholder r n = ''aiferry_ref_'' @ rsID r @ ''_'' @ alphabeticID n @ ''_''"

definition redact :: "string \<Rightarrow> restorer \<Rightarrow> string \<times> restorer" where
  "redact value r =
     (let n = rsNext r + 1; p = placeholder r n in
      (p, r\<lparr>rsNext := n, rsReplacements := AList.update p value (rsReplacements r)\<rparr>))"

definition redactTextMatch :: "string \<Rightarrow> restorer \<Rightarrow> string \<times> restorer" where
  "redactTextMatch value r = (if list_ex (\<lambda>(p, _). containsSub value p) (rsReplacements r) then (value, r) else redact value r)"

subsection \<open>Fields\<close>

record redactionSettings =
  SensitiveDataRedactionEnabled :: bool
  PasswordRedactionEnabled :: bool
  TokenRedactionEnabled :: bool
  PersonalDataRedactionEnabled :: bool

definition normalizeSensitiveKey :: "string \<Rightarrow> string" where
  "normalizeSensitiveKey value = toLower (filter (\<lambda>c. c \<notin> {CHR ''_'', CHR ''-'', CHR ''.''}) (trimSpace value))"

definition hasSuffix :: "string \<Rightarrow> string \<Rightarrow> bool" where
  "hasSuffix s t \<longleftrightarrow> length t \<le> length s \<and> drop (length s - length t) s = t"

definition isPasswordField :: "string \<Rightarrow> bool" where
  "isPasswordField v \<longleftrightarrow> containsSub v ''password'' \<or> v = ''passwd'' \<or> v = ''pwd''"

definition isTokenField :: "string \<Rightarrow> bool" where
  "isTokenField v =
     (if v \<in> {''token'', ''accesstoken'', ''refreshtoken'', ''idtoken'', ''bearertoken'', ''authtoken'', ''authorization'', ''auth'', ''cookie'',
              ''apikey'', ''accesskey'', ''privatekey'', ''secret'', ''clientsecret'', ''secretkey''} then True
      else if hasSuffix v ''apikey'' \<or> hasSuffix v ''accesskey'' \<or> hasSuffix v ''secret'' \<or> hasSuffix v ''secretkey'' then True
      else if \<not> hasSuffix v ''token'' then False
      else list_all (\<lambda>p. \<not> hasPrefix v p) [''max'', ''input'', ''output'', ''cached'', ''total'', ''prompt'', ''completion'', ''reasoning''])"

fun isSensitiveScalar :: "json \<Rightarrow> bool" where
  "isSensitiveScalar (JStr _) = True"
| "isSensitiveScalar (JNum _) = True"
| "isSensitiveScalar (JBool _) = True"
| "isSensitiveScalar _ = False"

fun sensitiveScalarString :: "json \<Rightarrow> string" where
  "sensitiveScalarString (JStr s) = s"
| "sensitiveScalarString (JNum t) = t"
| "sensitiveScalarString (JBool b) = (if b then ''true'' else ''false'')"
| "sensitiveScalarString _ = []"

definition sensitiveFieldShouldRedact :: "redactionSettings \<Rightarrow> string \<Rightarrow> json \<Rightarrow> bool" where
  "sensitiveFieldShouldRedact settings key value =
     (let normalized = normalizeSensitiveKey key in
      isSensitiveScalar value \<and>
      (PasswordRedactionEnabled settings \<and> isPasswordField normalized \<or>
       TokenRedactionEnabled settings \<and> isTokenField normalized \<or>
       PersonalDataRedactionEnabled settings \<and>
         list_ex (containsSub normalized) [''email'', ''phone'', ''mobile'', ''idcard'', ''identity'', ''bankcard'']))"

subsection \<open>Texts\<close>

definition validChineseID :: "string \<Rightarrow> bool" where
  "validChineseID value =
     (length value = 18 \<and> list_all isDigit (take 17 value) \<and>
      (let sum = sum_list (map2 (\<lambda>c w. digitVal c * w) (take 17 value) [7, 9, 10, 5, 8, 4, 2, 1, 6, 3, 7, 9, 10, 5, 8, 4, 2])
       in lowerChar (value ! 17) = lowerChar (''10X98765432'' ! (sum mod 11))))"

text \<open>The digits from the last to the first, every second one doubled.\<close>

definition luhnSum :: "nat list \<Rightarrow> nat" where
  "luhnSum digits = sum_list (map2 (\<lambda>i d. if i mod 2 = 1 then (if d * 2 > 9 then d * 2 - 9 else d * 2) else d) [0..<length digits] (rev digits))"

definition validBankCard :: "string \<Rightarrow> bool" where
  "validBankCard value =
     (let digits = map digitVal (filter isDigit value) in 13 \<le> length digits \<and> length digits \<le> 19 \<and> luhnSum digits mod 10 = 0)"

definition redactAssignment :: "(string \<Rightarrow> bool) \<Rightarrow> string \<Rightarrow> restorer \<Rightarrow> string \<times> restorer" where
  "redactAssignment sensitive assignment r =
     (case rxSubmatch assignmentPattern assignment of
        None \<Rightarrow> (assignment, r)
      | Some st \<Rightarrow>
          if \<not> sensitive (normalizeSensitiveKey (groupText st 2)) then (assignment, r)
          else let (p, r1) = redactTextMatch (groupText st 4) r in (groupText st 1 @ groupText st 2 @ groupText st 3 @ p, r1))"

definition redactAssignments :: "(string \<Rightarrow> bool) \<Rightarrow> string \<Rightarrow> restorer \<Rightarrow> string \<times> restorer" where
  "redactAssignments sensitive value r = rxReplace assignmentPattern (redactAssignment sensitive) None value r"

definition redactValidatedMatches :: "rx \<Rightarrow> (string \<Rightarrow> bool) \<Rightarrow> string \<Rightarrow> restorer \<Rightarrow> string \<times> restorer" where
  "redactValidatedMatches pattern valid value r =
     rxReplace pattern (\<lambda>found s. if valid found then redactTextMatch found s else (found, s)) None value r"

definition redactChinesePassword :: "string \<Rightarrow> restorer \<Rightarrow> string \<times> restorer" where
  "redactChinesePassword found r =
     (let secret = (case rxSubmatch chinesePasswordPattern found of None \<Rightarrow> [] | Some st \<Rightarrow> groupText st 1); (p, r1) = redactTextMatch secret r
      in (bytes [0xE5, 0xAF, 0x86, 0xE7, 0xA0, 0x81] @ ''='' @ p, r1))"

definition redactBasicAuth :: "string \<Rightarrow> restorer \<Rightarrow> string \<times> restorer" where
  "redactBasicAuth found r =
     (case rxSubmatch basicAuthURLPattern found of
        None \<Rightarrow> (found, r)
      | Some st \<Rightarrow> let (p, r1) = redactTextMatch (groupText st 2) r in (groupText st 1 @ p @ groupText st 3, r1))"

definition redactBearer :: "string \<Rightarrow> restorer \<Rightarrow> string \<times> restorer" where
  "redactBearer found r = (let (p, r1) = redactTextMatch (trimSpace (drop 7 found)) r in (''Bearer '' @ p, r1))"

definition redactPasswords :: "string \<Rightarrow> restorer \<Rightarrow> string \<times> restorer" where
  "redactPasswords v0 r0 =
     (let (v1, r1) = redactAssignments isPasswordField v0 r0; (v2, r2) = rxReplace chinesePasswordPattern redactChinesePassword None v1 r1
      in rxReplace basicAuthURLPattern redactBasicAuth None v2 r2)"

definition redactTokens :: "string \<Rightarrow> restorer \<Rightarrow> string \<times> restorer" where
  "redactTokens v0 r0 =
     (let (v1, r1) = rxReplace privateKeyPattern redactTextMatch None v0 r0; (v2, r2) = redactAssignments isTokenField v1 r1;
          (v3, r3) = rxReplace bearerTokenPattern redactBearer None v2 r2
      in rxReplace commonTokenPattern redactTextMatch None v3 r3)"

definition redactPersonalData :: "string \<Rightarrow> restorer \<Rightarrow> string \<times> restorer" where
  "redactPersonalData v0 r0 =
     (let (v1, r1) = rxReplace emailPattern redactTextMatch None v0 r0; (v2, r2) = redactValidatedMatches chineseIDPattern validChineseID v1 r1;
          (v3, r3) = redactValidatedMatches bankCardPattern validBankCard v2 r2
      in rxReplace mainlandPhonePattern redactTextMatch None v3 r3)"

definition redactSensitiveText :: "redactionSettings \<Rightarrow> string \<Rightarrow> restorer \<Rightarrow> string \<times> restorer" where
  "redactSensitiveText settings v0 r0 =
     (let (v1, r1) = (if PasswordRedactionEnabled settings then redactPasswords v0 r0 else (v0, r0));
          (v2, r2) = (if TokenRedactionEnabled settings then redactTokens v1 r1 else (v1, r1))
      in if PersonalDataRedactionEnabled settings then redactPersonalData v2 r2 else (v2, r2))"

subsection \<open>Documents\<close>

fun redactSensitiveValue :: "redactionSettings \<Rightarrow> json \<Rightarrow> restorer \<Rightarrow> json \<times> restorer"
  and redactSensitiveItems :: "redactionSettings \<Rightarrow> json list \<Rightarrow> restorer \<Rightarrow> json list \<times> restorer"
  and redactSensitiveFields :: "redactionSettings \<Rightarrow> (string \<times> json) list \<Rightarrow> restorer \<Rightarrow> (string \<times> json) list \<times> restorer" where
  "redactSensitiveValue settings (JObj fs) r = (let (gs, r1) = redactSensitiveFields settings fs r in (JObj gs, r1))"
| "redactSensitiveValue settings (JArr xs) r = (let (ys, r1) = redactSensitiveItems settings xs r in (JArr ys, r1))"
| "redactSensitiveValue settings (JStr s) r = (let (t, r1) = redactSensitiveText settings s r in (JStr t, r1))"
| "redactSensitiveValue settings j r = (j, r)"
| "redactSensitiveItems settings [] r = ([], r)"
| "redactSensitiveItems settings (x # xs) r =
     (let (y, r1) = redactSensitiveValue settings x r; (ys, r2) = redactSensitiveItems settings xs r1 in (y # ys, r2))"
| "redactSensitiveFields settings [] r = ([], r)"
| "redactSensitiveFields settings ((k, v) # fs) r =
     (let (w, r1) = (if sensitiveFieldShouldRedact settings k v then (let (p, r1) = redact (sensitiveScalarString v) r in (JStr p, r1))
                     else redactSensitiveValue settings v r);
          (gs, r2) = redactSensitiveFields settings fs r1
      in ((k, w) # gs, r2))"

text \<open>\<open>None\<close>: the request is sent as it came, without a restorer.  The document is the decoded body.\<close>

definition redactSensitiveDataWithRestore :: "redactionSettings \<Rightarrow> string \<Rightarrow> json \<Rightarrow> (json \<times> restorer) option" where
  "redactSensitiveDataWithRestore settings hex payload =
     (if \<not> SensitiveDataRedactionEnabled settings then None
      else let (redacted, r) = redactSensitiveValue settings payload (newSensitiveDataRestorer hex) in
        if rsReplacements r = [] then None else Some (redacted, r))"

end
