(* ===== verification/Sensitive_Restore.thy ===== *)
theory Sensitive_Restore
  imports Sensitive_Data
begin

text \<open>
  The return of the masked secrets: in a finished answer (\<^verbatim>\<open>restoreBufferedResponse\<close>) and line by line in a stream
  (\<^verbatim>\<open>restoreSSELine\<close>), from \<^verbatim>\<open>relay/sensitive_data_restore.go\<close>.  The orders in which the code walks over its maps of
  placeholders are arguments.
\<close>

subsection \<open>Texts\<close>

text \<open>\<^verbatim>\<open>strings.ReplaceAll\<close> of a text that is not empty.\<close>

function replaceSub :: "string \<Rightarrow> string \<Rightarrow> string \<Rightarrow> string" where
  "replaceSub s old new =
     (if old = [] then s
      else if hasPrefix s old then new @ replaceSub (drop (length old) s) old new
      else case s of [] \<Rightarrow> [] | c # cs \<Rightarrow> c # replaceSub cs old new)"
  by pat_completeness auto
termination
  by (relation "measure (\<lambda>(s, old, new). length s)") (auto dest!: hasPrefix_length intro!: diff_less)

declare replaceSub.simps [simp del]

definition restoreOnce :: "(string \<times> string) list \<Rightarrow> string \<Rightarrow> string" where
  "restoreOnce reps value = foldl (\<lambda>v (p, original). replaceSub v p original) value reps"

text \<open>\<open>ord n\<close> is the order of the map in the round with \<open>n\<close> rounds to go.\<close>

type_synonym mapOrder = "nat \<Rightarrow> (string \<times> string) list \<Rightarrow> (string \<times> string) list"

fun restoreRounds :: "mapOrder \<Rightarrow> (string \<times> string) list \<Rightarrow> nat \<Rightarrow> string \<Rightarrow> string" where
  "restoreRounds ord reps 0 value = value"
| "restoreRounds ord reps (Suc n) value =
     (let restored = restoreOnce (ord n reps) value in if restored = value then restored else restoreRounds ord reps n restored)"

definition restoreString :: "mapOrder \<Rightarrow> restorer \<Rightarrow> string \<Rightarrow> string" where
  "restoreString ord r value = restoreRounds ord (rsReplacements r) (length (rsReplacements r)) value"

fun restoreSensitiveJSONValue :: "(string \<Rightarrow> string) \<Rightarrow> json \<Rightarrow> json" where
  "restoreSensitiveJSONValue f (JObj fs) = JObj (map (\<lambda>(k, v). (k, restoreSensitiveJSONValue f v)) fs)"
| "restoreSensitiveJSONValue f (JArr xs) = JArr (map (restoreSensitiveJSONValue f) xs)"
| "restoreSensitiveJSONValue f (JStr s) = JStr (f s)"
| "restoreSensitiveJSONValue f j = j"

text \<open>The document is the decoded body; without a restorer, or one without placeholders, the body passes as it is.\<close>

definition restoreBufferedResponse :: "mapOrder \<Rightarrow> restorer option \<Rightarrow> json \<Rightarrow> json" where
  "restoreBufferedResponse ord restorer0 body =
     (case restorer0 of
        None \<Rightarrow> body
      | Some r \<Rightarrow> if rsReplacements r = [] then body else restoreSensitiveJSONValue (restoreString ord r) body)"

subsection \<open>Streams\<close>

record pendingValue =
  pvValue :: string
  pvTemplate :: "json option"
  pvPath :: "string list"

record streamRestorer =
  srRestorer :: restorer
  srPending :: "(string \<times> pendingValue) list"
  srListed :: "string list"
  srOrder :: "string list"

definition newSensitiveDataStreamRestorer :: "restorer option \<Rightarrow> streamRestorer option" where
  "newSensitiveDataStreamRestorer restorer0 =
     (case restorer0 of
        None \<Rightarrow> None
      | Some r \<Rightarrow> if rsReplacements r = [] then None else Some \<lparr>srRestorer = r, srPending = [], srListed = [], srOrder = []\<rparr>)"

text \<open>The longest proper prefix of the placeholder that ends the text.\<close>

definition prefixSuffix :: "string \<Rightarrow> string \<Rightarrow> string" where
  "prefixSuffix p value =
     (let limit = min (length p - 1) (length value);
          candidates = map (\<lambda>size0. drop (length value - size0) value) (rev [1..<limit + 1])
      in case find (hasPrefix p) candidates of None \<Rightarrow> [] | Some c \<Rightarrow> c)"

text \<open>The first placeholder in the order of the map that has one decides.\<close>

definition placeholderPrefixSuffix :: "(string \<times> string) list \<Rightarrow> string \<Rightarrow> string" where
  "placeholderPrefixSuffix reps value =
     (case find (\<lambda>(p, _). prefixSuffix p value \<noteq> []) reps of None \<Rightarrow> [] | Some (p, _) \<Rightarrow> prefixSuffix p value)"

definition pendingKey :: "string \<Rightarrow> string list \<Rightarrow> string" where
  "pendingKey eventType path = eventType @ '':'' @ joinStr ''.'' path"

definition restoreStreamString :: "mapOrder \<Rightarrow> string \<Rightarrow> string list \<Rightarrow> string \<Rightarrow> streamRestorer \<Rightarrow> string \<times> string list \<times> streamRestorer" where
  "restoreStreamString ord eventType path typed sr =
     (let key = pendingKey eventType path;
          before = (case map_of (srPending sr) key of None \<Rightarrow> [] | Some p \<Rightarrow> pvValue p);
          sr1 = (if before = [] then sr else sr\<lparr>srPending := AList.delete key (srPending sr)\<rparr>);
          restored = restoreString ord (srRestorer sr) (before @ typed);
          tail = placeholderPrefixSuffix (ord 0 (rsReplacements (srRestorer sr))) restored
      in if tail = [] then (restored, [], sr1)
         else (take (length restored - length tail) restored, [key],
               (if key \<in> set (srListed sr1) then sr1 else sr1\<lparr>srOrder := srOrder sr1 @ [key], srListed := key # srListed sr1\<rparr>)
                 \<lparr>srPending := AList.update key \<lparr>pvValue = tail, pvTemplate = None, pvPath = path\<rparr> (srPending sr1)\<rparr>))"

text \<open>A text that is the whole document is not replaced, although what is pending changes.\<close>

fun restoreStreamValue :: "mapOrder \<Rightarrow> string \<Rightarrow> string list \<Rightarrow> json \<Rightarrow> streamRestorer \<Rightarrow> json \<times> string list \<times> streamRestorer"
  and restoreStreamItems :: "mapOrder \<Rightarrow> string \<Rightarrow> string list \<Rightarrow> nat \<Rightarrow> json list \<Rightarrow> streamRestorer \<Rightarrow> json list \<times> string list \<times> streamRestorer"
  and restoreStreamFields :: "mapOrder \<Rightarrow> string \<Rightarrow> string list \<Rightarrow> (string \<times> json) list \<Rightarrow> streamRestorer \<Rightarrow> (string \<times> json) list \<times> string list \<times> streamRestorer" where
  "restoreStreamValue ord ev path (JObj fs) sr = (let (gs, ks, sr1) = restoreStreamFields ord ev path fs sr in (JObj gs, ks, sr1))"
| "restoreStreamValue ord ev path (JArr xs) sr = (let (ys, ks, sr1) = restoreStreamItems ord ev path 0 xs sr in (JArr ys, ks, sr1))"
| "restoreStreamValue ord ev path (JStr s) sr =
     (let (t, ks, sr1) = restoreStreamString ord ev path s sr in (JStr (if path = [] then s else t), ks, sr1))"
| "restoreStreamValue ord ev path j sr = (j, [], sr)"
| "restoreStreamItems ord ev path n [] sr = ([], [], sr)"
| "restoreStreamItems ord ev path n (x # xs) sr =
     (let (y, ks, sr1) = restoreStreamValue ord ev (path @ [showNat n]) x sr; (ys, ls, sr2) = restoreStreamItems ord ev path (n + 1) xs sr1
      in (y # ys, ks @ ls, sr2))"
| "restoreStreamFields ord ev path [] sr = ([], [], sr)"
| "restoreStreamFields ord ev path ((k, v) # fs) sr =
     (let (w, ks, sr1) = restoreStreamValue ord ev (path @ [k]) v sr; (gs, ls, sr2) = restoreStreamFields ord ev path fs sr1
      in ((k, w) # gs, ks @ ls, sr2))"

text \<open>\<^verbatim>\<open>replaceStreamString\<close>: the text at a path of the document; a path that leads nowhere changes nothing.\<close>

fun replaceStreamString :: "json \<Rightarrow> string list \<Rightarrow> string \<Rightarrow> json" where
  "replaceStreamString j [] new = j"
| "replaceStreamString (JObj fs) [k] new = JObj (AList.update k (JStr new) fs)"
| "replaceStreamString (JObj fs) (k # k' # ks) new =
     (case map_of fs k of None \<Rightarrow> JObj fs | Some v \<Rightarrow> JObj (AList.update k (replaceStreamString v (k' # ks) new) fs))"
| "replaceStreamString (JArr xs) [k] new =
     (case parseNat k of Some i \<Rightarrow> JArr (if i < length xs then xs[i := JStr new] else xs) | None \<Rightarrow> JArr xs)"
| "replaceStreamString (JArr xs) (k # k' # ks) new =
     (case parseNat k of
        Some i \<Rightarrow> JArr (if i < length xs then xs[i := replaceStreamString (xs ! i) (k' # ks) new] else xs)
      | None \<Rightarrow> JArr xs)"
| "replaceStreamString j (k # ks) new = j"

text \<open>A line that is passed on, or a line \<^verbatim>\<open>data:\<close> with a document and one line feed.\<close>

datatype restoredLine = PassedLine string | DataLine json

text \<open>The held documents are decoded again, their numbers as floating-point numbers.\<close>

definition flushRestorer :: "(string \<Rightarrow> string) \<Rightarrow> streamRestorer \<Rightarrow> restoredLine list \<times> streamRestorer" where
  "flushRestorer num sr =
     (concat (map (\<lambda>key. case map_of (srPending sr) key of
          None \<Rightarrow> []
        | Some p \<Rightarrow> (case pvTemplate p of None \<Rightarrow> [] | Some t \<Rightarrow> [DataLine (replaceStreamString (unmarshalAny num t) (pvPath p) (pvValue p))])) (srOrder sr)),
      sr\<lparr>srPending := [], srListed := [], srOrder := []\<rparr>)"

definition isSensitiveStreamTerminal :: "string \<Rightarrow> bool" where
  "isSensitiveStreamTerminal ev \<longleftrightarrow> ev = ''response.completed'' \<or> ev = ''response.failed'' \<or> hasSuffix ev ''.done''"

definition eventTypeOf :: "json \<Rightarrow> string" where
  "eventTypeOf j = (case objectValue j of None \<Rightarrow> [] | Some m \<Rightarrow> stringValue (entry m ''type''))"

definition setTemplates :: "json \<Rightarrow> string list \<Rightarrow> streamRestorer \<Rightarrow> streamRestorer" where
  "setTemplates j keys sr =
     sr\<lparr>srPending := map (\<lambda>(k, p). (k, if k \<in> set keys then p\<lparr>pvTemplate := Some j\<rparr> else p)) (srPending sr)\<rparr>"

datatype dataLine = NoData | DataDone | DataPayload json

text \<open>\<^verbatim>\<open>relaySSEDataPayload\<close> with the decoding of its text.\<close>

definition relaySSEDataPayload :: "(string \<Rightarrow> json option) \<Rightarrow> string \<Rightarrow> dataLine" where
  "relaySSEDataPayload parse line =
     (let t = trimSpace line in
      if \<not> hasPrefix t ''data:'' then NoData
      else let v = trimSpace (drop 5 t) in
        if v = ''[DONE]'' then DataDone else case parse v of None \<Rightarrow> NoData | Some j \<Rightarrow> DataPayload j)"

definition restoreSSELine :: "mapOrder \<Rightarrow> (string \<Rightarrow> string) \<Rightarrow> (string \<Rightarrow> json option) \<Rightarrow> string \<Rightarrow> streamRestorer option \<Rightarrow> restoredLine list \<times> streamRestorer option" where
  "restoreSSELine ord num parse line sr0 =
     (case sr0 of
        None \<Rightarrow> ([PassedLine line], None)
      | Some sr \<Rightarrow>
          (case relaySSEDataPayload parse line of
             NoData \<Rightarrow> ([PassedLine line], Some sr)
           | DataDone \<Rightarrow> let (out, sr1) = flushRestorer num sr in (out @ [PassedLine line], Some sr1)
           | DataPayload j \<Rightarrow>
               let ev = eventTypeOf j; (restored, keys, sr1) = restoreStreamValue ord ev [] j sr; sr2 = setTemplates restored keys sr1;
                   (flushed, sr3) = (if isSensitiveStreamTerminal ev then flushRestorer num sr2 else ([], sr2))
               in (flushed @ [DataLine restored], Some sr3)))"

subsection \<open>Replacing\<close>

lemma replaceSub_absent: "\<not> containsSub s old \<Longrightarrow> replaceSub s old new = s"
proof (induction s)
  case Nil
  then show ?case by (simp add: replaceSub.simps [of "[]"] hasPrefix_def)
next
  case (Cons c cs)
  then show ?case by (simp add: replaceSub.simps [of "c # cs"])
qed

lemma replaceSub_whole: "old \<noteq> [] \<Longrightarrow> replaceSub old old new = new"
  by (simp add: replaceSub.simps [of old] replaceSub.simps [of "[]"] hasPrefix_def)

lemma restoreOnce_absent: "\<forall>(p, q) \<in> set reps. \<not> containsSub s p \<Longrightarrow> restoreOnce reps s = s"
  unfolding restoreOnce_def by (induction reps) (auto simp: replaceSub_absent)

lemma restoreOnce_placeholder:
  assumes "(p, original) \<in> set reps" "p \<noteq> []" "distinct (map fst reps)"
    "\<forall>(q, _) \<in> set reps. q \<noteq> p \<longrightarrow> \<not> containsSub p q" "\<forall>(q, _) \<in> set reps. \<not> containsSub original q"
  shows "restoreOnce reps p = original"
  using assms
proof (induction reps)
  case (Cons x reps)
  obtain q v where x: "x = (q, v)" by (cases x)
  show ?case
  proof (cases "q = p")
    case True
    then have "v = original" using Cons.prems(1,3) by (auto simp: x image_iff)
    moreover have "restoreOnce reps original = original" using Cons.prems(5) by (intro restoreOnce_absent) auto
    ultimately show ?thesis using True Cons.prems(2) by (simp add: x restoreOnce_def replaceSub_whole)
  next
    case False
    then have "replaceSub p q v = p" using Cons.prems(4) by (intro replaceSub_absent) (auto simp: x)
    then show ?thesis using Cons False by (auto simp: x restoreOnce_def)
  qed
qed simp

definition orderOk :: "mapOrder \<Rightarrow> bool" where
  "orderOk ord \<longleftrightarrow> (\<forall>n xs. mset (ord n xs) = mset xs)"

lemma orderOk_facts:
  assumes "orderOk ord"
  shows "set (ord n xs) = set xs" "distinct (map fst (ord n xs)) = distinct (map fst xs)"
proof -
  have m: "mset (ord n xs) = mset xs" using assms by (simp add: orderOk_def)
  show "set (ord n xs) = set xs" using m by (rule mset_eq_setD)
  have "mset (map fst (ord n xs)) = mset (map fst xs)" using m by simp
  then show "distinct (map fst (ord n xs)) = distinct (map fst xs)" by (rule mset_eq_imp_distinct_iff)
qed

lemma restoreRounds_absent:
  "orderOk ord \<Longrightarrow> \<forall>(p, q) \<in> set reps. \<not> containsSub s p \<Longrightarrow> restoreRounds ord reps n s = s"
  by (cases n) (simp_all add: restoreOnce_absent orderOk_facts(1))

lemma restoreString_absent:
  "orderOk ord \<Longrightarrow> \<forall>(p, q) \<in> set (rsReplacements r). \<not> containsSub s p \<Longrightarrow> restoreString ord r s = s"
  by (simp add: restoreString_def restoreRounds_absent)

lemma restoreString_placeholder:
  assumes "orderOk ord" "(p, original) \<in> set (rsReplacements r)" "p \<noteq> []" "distinct (map fst (rsReplacements r))"
    "\<forall>(q, _) \<in> set (rsReplacements r). q \<noteq> p \<longrightarrow> \<not> containsSub p q" "\<forall>(q, _) \<in> set (rsReplacements r). \<not> containsSub original q"
  shows "restoreString ord r p = original"
proof -
  obtain n where n: "length (rsReplacements r) = Suc n" using assms(2) by (cases "rsReplacements r") auto
  note O = orderOk_facts [OF assms(1)]
  have "restoreOnce (ord n (rsReplacements r)) p = original"
    by (rule restoreOnce_placeholder) (use assms O in simp_all)
  moreover have "restoreRounds ord (rsReplacements r) n original = original" using assms(1,6) by (rule restoreRounds_absent)
  ultimately show ?thesis by (simp add: restoreString_def n Let_def)
qed

subsection \<open>Placeholders are distinct\<close>

lemma letters_digits: "set (letters n) \<subseteq> {c. isLower c}"
proof (induction n rule: letters.induct)
  case (1 n)
  have "isLower (char_of (97 + n mod 26))"
  proof -
    have "n mod 26 < 26" by simp
    then have "(97 + n mod 26) < 256" by linarith
    then show ?thesis using \<open>n mod 26 < 26\<close> by (simp add: isLower_def inRange_def)
  qed
  then show ?case using 1 by (subst letters.simps) auto
qed

lemma letters_inj: "letters m = letters n \<Longrightarrow> m = n"
proof (induction m arbitrary: n rule: letters.induct)
  case (1 m)
  show ?case
  proof (cases "m = 0 \<or> n = 0")
    case True
    then show ?thesis using 1(2) by (auto simp: letters.simps [of m] letters.simps [of n] split: if_splits)
  next
    case False
    then have eq: "letters (m div 26) @ [char_of (97 + m mod 26)] = letters (n div 26) @ [char_of (97 + n mod 26)]"
      using 1(2) by (simp add: letters.simps [of m] letters.simps [of n])
    have b: "97 + k mod 26 < 256" for k :: nat using mod_less_divisor [of 26 k] by linarith
    have "(of_char (char_of (97 + m mod 26)) :: nat) = of_char (char_of (97 + n mod 26))" using eq by simp
    then have "m mod 26 = n mod 26" using b [of m] b [of n] by (simp add: of_char_of)
    moreover have "m div 26 = n div 26" using 1(1) False eq by simp
    ultimately show ?thesis by (metis div_mult_mod_eq)
  qed
qed

lemma isLower_no_underscore: "isLower c \<Longrightarrow> c \<noteq> CHR ''_''"
  by (auto simp: isLower_def inRange_def)

lemma alphabeticID_no_underscore: "CHR ''_'' \<notin> set (alphabeticID n)"
  using letters_digits [of n] isLower_no_underscore by (auto simp: alphabeticID_def)

lemma alphabeticID_inj: "0 < m \<Longrightarrow> 0 < n \<Longrightarrow> alphabeticID m = alphabeticID n \<Longrightarrow> m = n"
  using letters_inj by (simp add: alphabeticID_def)

lemma first_cut: "x \<notin> set a \<Longrightarrow> x \<notin> set b \<Longrightarrow> a @ x # c = b @ x # d \<Longrightarrow> a = b \<and> c = d"
proof (induction a arbitrary: b)
  case Nil
  then show ?case by (cases b) auto
next
  case (Cons y a)
  then show ?case by (cases b) auto
qed

text \<open>A placeholder holds no other placeholder of the same request.\<close>

lemma placeholder_apart:
  assumes "CHR ''_'' \<notin> set (rsID r)" "0 < m" "0 < n" "containsSub (placeholder r m) (placeholder r n)"
  shows "m = n"
proof -
  define form where "form k = ''aiferry'' @ CHR ''_'' # ''ref'' @ CHR ''_'' # rsID r @ CHR ''_'' # alphabeticID k @ [CHR ''_'']" for k
  have form: "placeholder r k = form k" for k by (simp add: placeholder_def form_def)
  obtain u v where uv: "form m = u @ form n @ v" using assms(4) by (auto simp: containsSub_iff form)
  have count4: "length (filter (\<lambda>c. c = CHR ''_'') (form k)) = 4" for k
  proof -
    have "filter (\<lambda>c. c = CHR ''_'') (rsID r) = []" "filter (\<lambda>c. c = CHR ''_'') (alphabeticID k) = []"
      using alphabeticID_no_underscore [of k] assms(1) by (auto simp: filter_empty_conv)
    then show ?thesis by (simp add: form_def)
  qed
  have none: "filter (\<lambda>c. c = CHR ''_'') u = []" "filter (\<lambda>c. c = CHR ''_'') v = []"
    using arg_cong [OF uv, of "\<lambda>s. length (filter (\<lambda>c. c = CHR ''_'') s)"] count4 by auto
  then have u: "CHR ''_'' \<notin> set u" by (auto simp: filter_empty_conv)
  have "''aiferry'' @ CHR ''_'' # ''ref'' @ CHR ''_'' # rsID r @ CHR ''_'' # alphabeticID m @ [CHR ''_'']
      = (u @ ''aiferry'') @ CHR ''_'' # ''ref'' @ CHR ''_'' # rsID r @ CHR ''_'' # alphabeticID n @ CHR ''_'' # v"
    using uv by (simp add: form_def)
  from first_cut [OF _ _ this] u have "CHR ''_'' # rsID r @ CHR ''_'' # alphabeticID m @ [CHR ''_'']
      = CHR ''_'' # rsID r @ CHR ''_'' # alphabeticID n @ CHR ''_'' # v" by simp
  then have "alphabeticID m @ CHR ''_'' # [] = alphabeticID n @ CHR ''_'' # v" by simp
  from first_cut [OF alphabeticID_no_underscore alphabeticID_no_underscore this] show ?thesis using alphabeticID_inj assms(2,3) by simp
qed

subsection \<open>A masked document comes back\<close>

text \<open>The placeholders of a restorer are those of the numbers it has given out, in order.\<close>

definition restorerOk :: "string \<Rightarrow> restorer \<Rightarrow> bool" where
  "restorerOk requestID r \<longleftrightarrow> rsID r = requestID \<and> map fst (rsReplacements r) = map (placeholder r) [1..<Suc (rsNext r)]"

lemma placeholder_same_id: "rsID r = rsID q \<Longrightarrow> placeholder r n = placeholder q n"
  by (simp add: placeholder_def)

lemma update_fresh: "k \<notin> set (map fst xs) \<Longrightarrow> AList.update k v xs = xs @ [(k, v)]"
  by (induction xs) auto

lemma placeholder_inj:
  assumes "CHR ''_'' \<notin> set (rsID r)"
  shows "inj_on (placeholder r) {1..}"
proof (rule inj_onI)
  fix m n assume mn: "m \<in> {1..}" "n \<in> {1..}" "placeholder r m = placeholder r n"
  have "containsSub (placeholder r n) (placeholder r n)" unfolding containsSub_iff by (metis append_Nil append_Nil2)
  with mn show "m = n" using placeholder_apart [OF assms, of m n] by simp
qed

lemma redact_appends:
  assumes "restorerOk i r" "CHR ''_'' \<notin> set i" "redact value r = (p, r1)"
  shows "restorerOk i r1" "rsReplacements r1 = rsReplacements r @ [(p, value)]"
proof -
  let ?n = "rsNext r + 1"
  have id: "rsID r = i" and keys: "map fst (rsReplacements r) = map (placeholder r) [1..<?n]" using assms(1) by (simp_all add: restorerOk_def)
  have fresh: "placeholder r ?n \<notin> set (map fst (rsReplacements r))"
  proof
    assume "placeholder r ?n \<in> set (map fst (rsReplacements r))"
    then have "placeholder r ?n \<in> placeholder r ` {1..<?n}" unfolding keys by (simp del: upt_Suc)
    then obtain k where k: "k \<in> {1..<?n}" "placeholder r ?n = placeholder r k" by blast
    from inj_onD [OF placeholder_inj [of r] k(2)] id assms(2) k(1) show False by auto
  qed
  from assms(3) have p: "p = placeholder r ?n"
    and r1: "r1 = r\<lparr>rsNext := ?n, rsReplacements := AList.update (placeholder r ?n) value (rsReplacements r)\<rparr>"
    by (auto simp: redact_def Let_def)
  show reps: "rsReplacements r1 = rsReplacements r @ [(p, value)]" unfolding r1 p using update_fresh [OF fresh] by simp
  have same: "rsID r1 = rsID r" "rsNext r1 = ?n" unfolding r1 by simp_all
  have "map fst (rsReplacements r1) = map (placeholder r) [1..<?n] @ [placeholder r ?n]" unfolding reps map_append keys p by simp
  also have "\<dots> = map (placeholder r) [1..<Suc ?n]" by simp
  finally show "restorerOk i r1" using placeholder_same_id [OF same(1)] id same by (simp add: restorerOk_def del: upt_Suc)
qed

text \<open>Whatever a text is, its masking only adds placeholders in this order, and forgets none.\<close>

definition extends0 :: "string \<Rightarrow> restorer \<Rightarrow> restorer \<Rightarrow> bool" where
  "extends0 i r0 r \<longleftrightarrow> CHR ''_'' \<notin> set i \<and> restorerOk i r \<and> (\<exists>ext. rsReplacements r = rsReplacements r0 @ ext)"

lemma extends0_redact: "extends0 i r0 r \<Longrightarrow> extends0 i r0 (snd (redact secret0 r))"
  using redact_appends [of i r secret0] by (cases "redact secret0 r") (auto simp: extends0_def)

lemma extends0_match: "extends0 i r0 r \<Longrightarrow> extends0 i r0 (snd (redactTextMatch value r))"
  by (simp add: redactTextMatch_def extends0_redact)

lemma extends0_steps:
  assumes "extends0 i r0 r"
  shows "extends0 i r0 (snd (redactAssignment sensitive value r))" "extends0 i r0 (snd (redactChinesePassword value r))"
    "extends0 i r0 (snd (redactBasicAuth value r))" "extends0 i r0 (snd (redactBearer value r))"
    "extends0 i r0 (snd (if valid value then redactTextMatch value r else (value, r)))"
  using assms extends0_match [OF assms]
  by (simp_all add: redactAssignment_def redactChinesePassword_def redactBasicAuth_def redactBearer_def Let_def split_beta split: option.splits)

lemma extends0_text:
  assumes "extends0 i r0 r"
  shows "extends0 i r0 (snd (redactSensitiveText settings v r))"
proof -
  note keeps = rxReplace_inv [of "extends0 i r0"]
  have A: "extends0 i r0 q \<Longrightarrow> extends0 i r0 (snd (redactAssignments f v q))" for f v q
    unfolding redactAssignments_def by (rule keeps) (rule extends0_steps)
  have V: "extends0 i r0 q \<Longrightarrow> extends0 i r0 (snd (redactValidatedMatches rx f v q))" for rx f v q
    unfolding redactValidatedMatches_def by (rule keeps) (rule extends0_steps)
  have M: "extends0 i r0 q \<Longrightarrow> extends0 i r0 (snd (rxReplace rx redactTextMatch None v q))" for rx v q
    by (rule keeps) (rule extends0_match)
  have P: "extends0 i r0 q \<Longrightarrow> extends0 i r0 (snd (redactPasswords v q))" for v q
    unfolding redactPasswords_def Let_def split_beta
    by (rule keeps, rule extends0_steps, assumption, rule keeps, rule extends0_steps, assumption, rule A)
  have T: "extends0 i r0 q \<Longrightarrow> extends0 i r0 (snd (redactTokens v q))" for v q
    unfolding redactTokens_def Let_def split_beta by (rule M, rule keeps, rule extends0_steps, assumption, rule A, rule M)
  have D: "extends0 i r0 q \<Longrightarrow> extends0 i r0 (snd (redactPersonalData v q))" for v q
    unfolding redactPersonalData_def Let_def split_beta by (rule M, rule V, rule V, rule M)
  show ?thesis using assms P T D by (simp add: redactSensitiveText_def split_beta)
qed

lemma extends0_document:
  "extends0 i r0 r \<Longrightarrow> extends0 i r0 (snd (redactSensitiveValue settings j r))"
  "extends0 i r0 r \<Longrightarrow> extends0 i r0 (snd (redactSensitiveItems settings js r))"
  "extends0 i r0 r \<Longrightarrow> extends0 i r0 (snd (redactSensitiveFields settings fs r))"
proof (induction settings j r and settings js r and settings fs r
    rule: redactSensitiveValue_redactSensitiveItems_redactSensitiveFields.induct)
  case (6 settings x xs r)
  then show ?case by (cases "redactSensitiveValue settings x r") (simp add: split_beta)
next
  case (8 settings k v fs r)
  show ?case
  proof (cases "sensitiveFieldShouldRedact settings k v")
    case True
    then show ?thesis using 8 extends0_redact [of i r0 r] by (simp add: Let_def split_beta)
  next
    case False
    then show ?thesis using 8 by (cases "redactSensitiveValue settings v r") (simp add: Let_def split_beta)
  qed
qed (simp_all add: extends0_text Let_def split_beta)

text \<open>
  The texts of a document outside its sensitive fields, the secrets of these fields, and the document with the secrets
  as texts, which is what a masked document comes back as.
\<close>

fun plainTexts :: "redactionSettings \<Rightarrow> json \<Rightarrow> string list" where
  "plainTexts settings (JObj fs) = concat (map (\<lambda>(k, v). if sensitiveFieldShouldRedact settings k v then [] else plainTexts settings v) fs)"
| "plainTexts settings (JArr xs) = concat (map (plainTexts settings) xs)"
| "plainTexts settings (JStr s) = [s]"
| "plainTexts settings j = []"

fun secretTexts :: "redactionSettings \<Rightarrow> json \<Rightarrow> string list" where
  "secretTexts settings (JObj fs) =
     concat (map (\<lambda>(k, v). if sensitiveFieldShouldRedact settings k v then [sensitiveScalarString v] else secretTexts settings v) fs)"
| "secretTexts settings (JArr xs) = concat (map (secretTexts settings) xs)"
| "secretTexts settings j = []"

fun secretsAsText :: "redactionSettings \<Rightarrow> json \<Rightarrow> json" where
  "secretsAsText settings (JObj fs) =
     JObj (map (\<lambda>(k, v). (k, if sensitiveFieldShouldRedact settings k v then JStr (sensitiveScalarString v) else secretsAsText settings v)) fs)"
| "secretsAsText settings (JArr xs) = JArr (map (secretsAsText settings) xs)"
| "secretsAsText settings j = j"

definition quietTexts :: "redactionSettings \<Rightarrow> string list \<Rightarrow> bool" where
  "quietTexts settings ts \<longleftrightarrow> (\<forall>t \<in> set ts. \<forall>r. redactSensitiveText settings t r = (t, r))"

lemma quietTexts_simps [simp]:
  "quietTexts settings []" "quietTexts settings (ts @ us) \<longleftrightarrow> quietTexts settings ts \<and> quietTexts settings us"
  "quietTexts settings [t] \<longleftrightarrow> (\<forall>r. redactSensitiveText settings t r = (t, r))"
  by (auto simp: quietTexts_def)

text \<open>What the restorer of a document with quiet texts remembers, and what a function that undoes it makes of the document.\<close>

definition undoes :: "(string \<Rightarrow> string) \<Rightarrow> restorer \<Rightarrow> bool" where
  "undoes f r \<longleftrightarrow> (\<forall>(p, original) \<in> set (rsReplacements r). f p = original)"

lemma undoes_extended: "extends0 i r0 r \<Longrightarrow> undoes f r \<Longrightarrow> undoes f r0"
  unfolding extends0_def undoes_def by (metis UnCI set_append)

lemma extends0_self: "extends0 i r0 r \<Longrightarrow> extends0 i r r"
  by (simp add: extends0_def)

lemma redact_remembers: "extends0 i r r \<Longrightarrow> undoes f (snd (redact secret0 r)) \<Longrightarrow> f (fst (redact secret0 r)) = secret0"
  using redact_appends(2) [of i r secret0] by (cases "redact secret0 r") (auto simp: extends0_def undoes_def)

lemma redacted_undone:
  "extends0 i r r \<Longrightarrow> quietTexts settings (plainTexts settings j) \<Longrightarrow> undoes f (snd (redactSensitiveValue settings j r)) \<Longrightarrow>
    (\<forall>t \<in> set (plainTexts settings j). f t = t) \<Longrightarrow>
    restoreSensitiveJSONValue f (fst (redactSensitiveValue settings j r)) = secretsAsText settings j"
  "extends0 i r r \<Longrightarrow> quietTexts settings (plainTexts settings (JArr js)) \<Longrightarrow> undoes f (snd (redactSensitiveItems settings js r)) \<Longrightarrow>
    (\<forall>t \<in> set (plainTexts settings (JArr js)). f t = t) \<Longrightarrow>
    map (restoreSensitiveJSONValue f) (fst (redactSensitiveItems settings js r)) = map (secretsAsText settings) js"
  "extends0 i r r \<Longrightarrow> quietTexts settings (plainTexts settings (JObj fs)) \<Longrightarrow> undoes f (snd (redactSensitiveFields settings fs r)) \<Longrightarrow>
    (\<forall>t \<in> set (plainTexts settings (JObj fs)). f t = t) \<Longrightarrow>
    JObj (map (\<lambda>(k, v). (k, restoreSensitiveJSONValue f v)) (fst (redactSensitiveFields settings fs r))) = secretsAsText settings (JObj fs)"
proof (induction settings j r and settings js r and settings fs r
    rule: redactSensitiveValue_redactSensitiveItems_redactSensitiveFields.induct)
  case (6 settings x xs r)
  obtain y r1 where y: "redactSensitiveValue settings x r = (y, r1)" by (cases "redactSensitiveValue settings x r")
  have e1: "extends0 i r r1" using extends0_document(1) [OF 6(3), of settings x] y by simp
  have e2: "extends0 i r1 (snd (redactSensitiveItems settings xs r1))" by (rule extends0_document(2)) (rule extends0_self [OF e1])
  have u: "undoes f (snd (redactSensitiveItems settings xs r1))" using 6(5) y by (simp add: split_beta)
  have "map (restoreSensitiveJSONValue f) (fst (redactSensitiveItems settings xs r1)) = map (secretsAsText settings) xs"
    using 6(2) [OF y [symmetric] refl extends0_self [OF e1] _ u] 6(4,6) by simp
  moreover have "restoreSensitiveJSONValue f y = secretsAsText settings x"
    using 6(1) [OF 6(3)] 6(4,6) undoes_extended [OF e2 u] y by simp
  ultimately show ?case using y by (simp add: split_beta)
next
  case (8 settings k v fs r)
  define step0 where "step0 = (if sensitiveFieldShouldRedact settings k v then (let (p, r1) = redact (sensitiveScalarString v) r in (JStr p, r1))
     else redactSensitiveValue settings v r)"
  obtain w r1 where w: "step0 = (w, r1)" by (cases step0)
  have fields: "redactSensitiveFields settings ((k, v) # fs) r = (case redactSensitiveFields settings fs r1 of (gs, r2) \<Rightarrow> ((k, w) # gs, r2))"
    unfolding redactSensitiveFields.simps step0_def [symmetric] using w by (simp only: Let_def prod.case)
  have e1: "extends0 i r r1" using extends0_redact [OF 8(3), of "sensitiveScalarString v"] extends0_document(1) [OF 8(3), of settings v] w
    by (simp add: step0_def split_beta split: if_splits)
  have e2: "extends0 i r1 (snd (redactSensitiveFields settings fs r1))" by (rule extends0_document(3)) (rule extends0_self [OF e1])
  have u: "undoes f (snd (redactSensitiveFields settings fs r1))" using 8(5) unfolding fields by (simp add: split_beta)
  have u1: "undoes f r1" by (rule undoes_extended [OF e2 u])
  have tail: "JObj (map (\<lambda>(k, v). (k, restoreSensitiveJSONValue f v)) (fst (redactSensitiveFields settings fs r1))) = secretsAsText settings (JObj fs)"
    using 8(2) [OF w [symmetric, unfolded step0_def] refl extends0_self [OF e1] _ u] 8(4,6) by simp
  have "restoreSensitiveJSONValue f w = (if sensitiveFieldShouldRedact settings k v then JStr (sensitiveScalarString v) else secretsAsText settings v)"
  proof (cases "sensitiveFieldShouldRedact settings k v")
    case True
    then show ?thesis using w u1 redact_remembers [OF 8(3), of f "sensitiveScalarString v"] by (auto simp: step0_def split_beta)
  next
    case False
    then show ?thesis using w u1 8(1) [OF False 8(3)] 8(4,6) by (simp add: step0_def)
  qed
  then show ?case using tail unfolding fields by (cases "redactSensitiveFields settings fs r1") simp
qed (simp_all add: Let_def split_beta)

text \<open>With quiet texts only the sensitive fields are remembered.\<close>

definition remembers :: "string list \<Rightarrow> restorer \<Rightarrow> bool" where
  "remembers secrets r \<longleftrightarrow> snd ` set (rsReplacements r) \<subseteq> set secrets"

lemma update_values: "snd ` set (AList.update k v xs) \<subseteq> insert v (snd ` set xs)"
  by (induction xs) auto

lemma remembers_redact: "secret0 \<in> set secrets \<Longrightarrow> remembers secrets r \<Longrightarrow> remembers secrets (snd (redact secret0 r))"
proof -
  assume "secret0 \<in> set secrets" "remembers secrets r"
  then have "insert secret0 (snd ` set (rsReplacements r)) \<subseteq> set secrets" by (simp add: remembers_def)
  with update_values have "snd ` set (AList.update (placeholder r (rsNext r + 1)) secret0 (rsReplacements r)) \<subseteq> set secrets"
    by (rule order_trans)
  then show ?thesis by (simp add: remembers_def redact_def Let_def)
qed

lemma remembers_document:
  "quietTexts settings (plainTexts settings j) \<Longrightarrow> set (secretTexts settings j) \<subseteq> set secrets \<Longrightarrow> remembers secrets r \<Longrightarrow>
    remembers secrets (snd (redactSensitiveValue settings j r))"
  "quietTexts settings (plainTexts settings (JArr js)) \<Longrightarrow> set (secretTexts settings (JArr js)) \<subseteq> set secrets \<Longrightarrow> remembers secrets r \<Longrightarrow>
    remembers secrets (snd (redactSensitiveItems settings js r))"
  "quietTexts settings (plainTexts settings (JObj fs)) \<Longrightarrow> set (secretTexts settings (JObj fs)) \<subseteq> set secrets \<Longrightarrow> remembers secrets r \<Longrightarrow>
    remembers secrets (snd (redactSensitiveFields settings fs r))"
proof (induction settings j r and settings js r and settings fs r
    rule: redactSensitiveValue_redactSensitiveItems_redactSensitiveFields.induct)
  case (6 settings x xs r)
  then show ?case by (cases "redactSensitiveValue settings x r") (simp add: split_beta)
next
  case (8 settings k v fs r)
  show ?case
  proof (cases "sensitiveFieldShouldRedact settings k v")
    case True
    then show ?thesis using 8 remembers_redact [of "sensitiveScalarString v" secrets r] by (simp add: Let_def split_beta)
  next
    case False
    then show ?thesis using 8 by (cases "redactSensitiveValue settings v r") (simp add: Let_def split_beta)
  qed
qed (simp_all add: Let_def split_beta)

text \<open>A restorer undoes its own placeholders, in every order of its map, when no secret looks like a placeholder.\<close>

definition placeholderMark :: string where
  "placeholderMark = ''aiferry_ref_''"

lemma containsSub_start: "containsSub s (p @ q) \<Longrightarrow> containsSub s p"
  by (auto simp: containsSub_iff)

lemma placeholder_mark: "containsSub s (placeholder r n) \<Longrightarrow> containsSub s placeholderMark"
  unfolding placeholder_def placeholderMark_def by (rule containsSub_start)

lemma own_placeholder:
  "restorerOk i r \<Longrightarrow> (p, v) \<in> set (rsReplacements r) \<Longrightarrow> \<exists>n>0. p = placeholder r n"
proof -
  assume ok: "restorerOk i r" and mem: "(p, v) \<in> set (rsReplacements r)"
  have "p \<in> set (map fst (rsReplacements r))" using mem by force
  moreover have "map fst (rsReplacements r) = map (placeholder r) [1..<Suc (rsNext r)]" using ok by (simp add: restorerOk_def)
  ultimately have "p \<in> placeholder r ` {1..<Suc (rsNext r)}" by (simp only: set_map set_upt)
  then obtain x where "x \<in> {1..<Suc (rsNext r)}" "p = placeholder r x" by (rule imageE)
  then show ?thesis by (intro exI [of _ x]) simp
qed

lemma restoreString_undoes:
  assumes "orderOk ord" "CHR ''_'' \<notin> set i" "restorerOk i r"
    and secrets: "\<And>p original. (p, original) \<in> set (rsReplacements r) \<Longrightarrow> \<not> containsSub original placeholderMark"
  shows "undoes (restoreString ord r) r"
  unfolding undoes_def
proof safe
  fix p original assume mem: "(p, original) \<in> set (rsReplacements r)"
  have id: "CHR ''_'' \<notin> set (rsID r)" and keys: "map fst (rsReplacements r) = map (placeholder r) [1..<Suc (rsNext r)]"
    using assms(2,3) by (simp_all add: restorerOk_def)
  have d: "distinct (map fst (rsReplacements r))"
    unfolding keys distinct_map by (rule conjI, rule distinct_upt, rule inj_on_subset [OF placeholder_inj [OF id]]) (auto simp del: upt_Suc)
  obtain m where m: "0 < m" "p = placeholder r m" using own_placeholder [OF assms(3) mem] by blast
  show "restoreString ord r p = original"
  proof (rule restoreString_placeholder [OF assms(1) mem _ d])
    show "p \<noteq> []" by (simp add: m placeholder_def)
    show "\<forall>(q, _) \<in> set (rsReplacements r). q \<noteq> p \<longrightarrow> \<not> containsSub p q"
      using own_placeholder [OF assms(3)] placeholder_apart [OF id] m by blast
    show "\<forall>(q, _) \<in> set (rsReplacements r). \<not> containsSub original q"
      using own_placeholder [OF assms(3)] placeholder_mark secrets [OF mem] by blast
  qed
qed

lemma restoreString_plain:
  assumes "orderOk ord" "restorerOk i r" "\<not> containsSub t placeholderMark"
  shows "restoreString ord r t = t"
  by (rule restoreString_absent [OF assms(1)]) (use own_placeholder [OF assms(2)] placeholder_mark assms(3) in blast)

lemma new_restorer_ok: "CHR ''_'' \<notin> set hex \<Longrightarrow> extends0 (requestLetters hex) (newSensitiveDataRestorer hex) (newSensitiveDataRestorer hex)"
proof -
  assume hex: "CHR ''_'' \<notin> set hex"
  have "CHR ''_'' \<notin> set (requestLetters hex)"
  proof
    assume "CHR ''_'' \<in> set (requestLetters hex)"
    then obtain c where c: "c \<in> set hex" "CHR ''_'' = (if isDigit c then char_of (97 + (of_char c - 48) :: nat) else c)"
      by (auto simp: requestLetters_def)
    then have digit: "isDigit c" using hex by (auto split: if_splits)
    then have "(97 + (of_char c - 48) :: nat) < 256" "(97 + (of_char c - 48) :: nat) \<noteq> 95" by (auto simp: isDigit_def inRange_def Let_def)
    moreover have "(of_char CHR ''_'' :: nat) = of_char (char_of (97 + (of_char c - 48) :: nat) :: char)" using c(2) digit by simp
    ultimately show False by (simp add: of_char_of)
  qed
  then show ?thesis by (simp add: extends0_def restorerOk_def newSensitiveDataRestorer_def)
qed

text \<open>A sensitive field that holds a placeholder of the request, at every depth.\<close>

definition isPlaceholderOf :: "restorer \<Rightarrow> json \<Rightarrow> bool" where
  "isPlaceholderOf r v = (case v of JStr p \<Rightarrow> p \<in> set (map fst (rsReplacements r)) | _ \<Rightarrow> False)"

fun fieldsMasked :: "redactionSettings \<Rightarrow> restorer \<Rightarrow> json \<Rightarrow> bool" where
  "fieldsMasked settings r (JObj fs) =
     list_all (\<lambda>(k, v). if sensitiveFieldShouldRedact settings k v then isPlaceholderOf r v else fieldsMasked settings r v) fs"
| "fieldsMasked settings r (JArr xs) = list_all (fieldsMasked settings r) xs"
| "fieldsMasked settings r j = True"

lemma scalar_kept:
  "isSensitiveScalar (fst (redactSensitiveValue settings v r)) = isSensitiveScalar v"
  by (cases v) (simp_all add: split_beta)

lemma masked_fields:
  "extends0 i r r \<Longrightarrow> extends0 i (snd (redactSensitiveValue settings j r)) R \<Longrightarrow> fieldsMasked settings R (fst (redactSensitiveValue settings j r))"
  "extends0 i r r \<Longrightarrow> extends0 i (snd (redactSensitiveItems settings js r)) R \<Longrightarrow> fieldsMasked settings R (JArr (fst (redactSensitiveItems settings js r)))"
  "extends0 i r r \<Longrightarrow> extends0 i (snd (redactSensitiveFields settings fs r)) R \<Longrightarrow> fieldsMasked settings R (JObj (fst (redactSensitiveFields settings fs r)))"
proof (induction settings j r and settings js r and settings fs r
    rule: redactSensitiveValue_redactSensitiveItems_redactSensitiveFields.induct)
  case (6 settings x xs r)
  obtain y r1 where y: "redactSensitiveValue settings x r = (y, r1)" by (cases "redactSensitiveValue settings x r")
  have e1: "extends0 i r1 r1" using extends0_self [OF extends0_document(1) [OF 6(3), of settings x]] y by simp
  have R: "extends0 i (snd (redactSensitiveItems settings xs r1)) R" using 6(4) y by (simp add: split_beta)
  have "extends0 i r1 R" using R extends0_document(2) [OF e1, of settings xs] by (auto simp: extends0_def)
  then show ?case using 6(1) [OF 6(3)] 6(2) [OF y [symmetric] refl e1 R] y by (simp add: split_beta)
next
  case (8 settings k v fs r)
  show ?case
  proof (cases "sensitiveFieldShouldRedact settings k v")
    case True
    obtain p r1 where p: "redact (sensitiveScalarString v) r = (p, r1)" by (cases "redact (sensitiveScalarString v) r")
    have e1: "extends0 i r1 r1" using extends0_self [OF extends0_redact [OF 8(3), of "sensitiveScalarString v"]] p by simp
    have R: "extends0 i (snd (redactSensitiveFields settings fs r1)) R" using 8(4) p True by (simp add: split_beta Let_def)
    have "extends0 i r1 R" using R extends0_document(3) [OF e1, of settings fs] by (auto simp: extends0_def)
    moreover have "(p, sensitiveScalarString v) \<in> set (rsReplacements r1)" using redact_appends(2) [OF _ _ p] 8(3) by (auto simp: extends0_def)
    ultimately have "isPlaceholderOf R (JStr p)" by (force simp: isPlaceholderOf_def extends0_def)
    moreover have "sensitiveFieldShouldRedact settings k (JStr p)" using True by (simp add: sensitiveFieldShouldRedact_def Let_def)
    moreover have "fieldsMasked settings R (JObj (fst (redactSensitiveFields settings fs r1)))" by (rule 8(2) [OF _ refl e1 R]) (simp add: True p)
    ultimately show ?thesis using p True by (simp add: split_beta Let_def)
  next
    case False
    obtain y r1 where y: "redactSensitiveValue settings v r = (y, r1)" by (cases "redactSensitiveValue settings v r")
    have e1: "extends0 i r1 r1" using extends0_self [OF extends0_document(1) [OF 8(3), of settings v]] y by simp
    have R: "extends0 i (snd (redactSensitiveFields settings fs r1)) R" using 8(4) y False by (simp add: split_beta)
    have "extends0 i r1 R" using R extends0_document(3) [OF e1, of settings fs] by (auto simp: extends0_def)
    moreover have "\<not> sensitiveFieldShouldRedact settings k y"
      using False scalar_kept [of settings v r] y by (simp add: sensitiveFieldShouldRedact_def Let_def)
    moreover have "fieldsMasked settings R (JObj (fst (redactSensitiveFields settings fs r1)))" by (rule 8(2) [OF _ refl e1 R]) (simp add: False y)
    ultimately show ?thesis using y False 8(1) [OF False 8(3)] by (simp add: split_beta)
  qed
qed (simp_all add: Let_def split_beta)

subsection \<open>Requests and answers\<close>

lemma redacted_document:
  assumes "CHR ''_'' \<notin> set hex" "redactSensitiveDataWithRestore settings hex payload = Some (redacted, r)"
  shows "extends0 (requestLetters hex) r r" "redactSensitiveValue settings payload (newSensitiveDataRestorer hex) = (redacted, r)" "rsReplacements r \<noteq> []"
proof -
  show d: "redactSensitiveValue settings payload (newSensitiveDataRestorer hex) = (redacted, r)" and "rsReplacements r \<noteq> []"
    using assms(2) by (auto simp: redactSensitiveDataWithRestore_def split_beta Let_def split: if_splits)
  show "extends0 (requestLetters hex) r r"
    using extends0_self [OF extends0_document(1) [OF new_restorer_ok [OF assms(1)], of settings payload]] d by simp
qed



definition exampleLogin :: json where
  "exampleLogin = JObj [(''user'', JStr ''ann''), (''password'', JStr ''hunter2''), (''pin_password'', JNum ''1234'')]"

definition passwordsOnly :: redactionSettings where
  "passwordsOnly = \<lparr>SensitiveDataRedactionEnabled = True, PasswordRedactionEnabled = True, TokenRedactionEnabled = False, PersonalDataRedactionEnabled = False\<rparr>"

lemma ann_quiet: "redactSensitiveText passwordsOnly ''ann'' r = (''ann'', r)"
proof -
  have "rxFind assignmentPattern None ''ann'' = None" "rxFind chinesePasswordPattern None ''ann'' = None" "rxFind basicAuthURLPattern None ''ann'' = None"
    by code_simp+
  then show ?thesis by (simp add: redactSensitiveText_def passwordsOnly_def redactPasswords_def redactAssignments_def rxReplace_none)
qed

definition exampleRestorer :: restorer where
  "exampleRestorer = \<lparr>rsID = ''baa'', rsReplacements = [(''aiferry_ref_baa_b_'', ''hunter2''), (''aiferry_ref_baa_c_'', ''1234'')], rsNext = 2\<rparr>"

lemma example_fields:
  "sensitiveFieldShouldRedact passwordsOnly ''user'' (JStr t) = False" "sensitiveFieldShouldRedact passwordsOnly ''password'' (JStr t) = True"
  "sensitiveFieldShouldRedact passwordsOnly ''pin_password'' (JNum t) = True" "sensitiveFieldShouldRedact passwordsOnly ''pin_password'' (JStr t) = True"
proof -
  have n: "normalizeSensitiveKey ''user'' = toLower ''user''" "normalizeSensitiveKey ''password'' = toLower ''password''"
    "normalizeSensitiveKey ''pin_password'' = toLower ''pinpassword''"
    by (simp_all add: normalizeSensitiveKey_def plain_eval)
  have "isPasswordField (toLower ''user'') = False" "isPasswordField (toLower ''password'')" "isPasswordField (toLower ''pinpassword'')"
    by code_simp+
  then show "sensitiveFieldShouldRedact passwordsOnly ''user'' (JStr t) = False" "sensitiveFieldShouldRedact passwordsOnly ''password'' (JStr t) = True"
    "sensitiveFieldShouldRedact passwordsOnly ''pin_password'' (JNum t) = True" "sensitiveFieldShouldRedact passwordsOnly ''pin_password'' (JStr t) = True"
    by (simp_all add: sensitiveFieldShouldRedact_def n Let_def) (simp_all add: passwordsOnly_def)
qed

lemma example_redacted:
  "redactSensitiveDataWithRestore passwordsOnly ''100'' exampleLogin
   = Some (JObj [(''user'', JStr ''ann''), (''password'', JStr ''aiferry_ref_baa_b_''), (''pin_password'', JStr ''aiferry_ref_baa_c_'')], exampleRestorer)"
proof -
  have "redactSensitiveValue passwordsOnly exampleLogin (newSensitiveDataRestorer ''100'')
      = (JObj [(''user'', JStr ''ann''), (''password'', JStr ''aiferry_ref_baa_b_''), (''pin_password'', JStr ''aiferry_ref_baa_c_'')], exampleRestorer)"
  proof -
    have a: "redact ''hunter2'' (newSensitiveDataRestorer ''100'') = (''aiferry_ref_baa_b_'', \<lparr>rsID = ''baa'', rsReplacements = [(''aiferry_ref_baa_b_'', ''hunter2'')], rsNext = 1\<rparr>)"
      by code_simp
    have b: "redact ''1234'' \<lparr>rsID = ''baa'', rsReplacements = [(''aiferry_ref_baa_b_'', ''hunter2'')], rsNext = 1\<rparr> = (''aiferry_ref_baa_c_'', exampleRestorer)"
      by code_simp
    show ?thesis by (simp add: exampleLogin_def ann_quiet example_fields a b [unfolded One_nat_def] Let_def)
  qed
  moreover have "SensitiveDataRedactionEnabled passwordsOnly" "rsReplacements exampleRestorer \<noteq> []"
    by (simp_all add: passwordsOnly_def exampleRestorer_def)
  ultimately show ?thesis by (simp add: redactSensitiveDataWithRestore_def)
qed



subsection \<open>Streams that end like a placeholder\<close>

text \<open>Every text of an event is held back when it ends like the start of a placeholder, its type too.\<close>

definition exampleStream :: streamRestorer where
  "exampleStream = \<lparr>srRestorer = exampleRestorer, srPending = [], srListed = [], srOrder = []\<rparr>"

lemma event_type_cut:
  "fst (restoreStreamValue (\<lambda>n xs. xs) ''response.output_text.delta'' [] (JObj [(''type'', JStr ''response.output_text.delta''), (''delta'', JStr ''hi'')]) exampleStream)
   = JObj [(''type'', JStr ''response.output_text.delt''), (''delta'', JStr ''hi'')]"
  by code_simp

text \<open>An event with its name before its data is passed on with the placeholders in it.\<close>

lemma trimSpace_start: "plainChar (hd s) \<Longrightarrow> \<exists>v. s = trimSpace s @ v"
proof -
  assume "plainChar (hd s)"
  then have "\<not> hasPrefix s p" if "p \<in> set space_seqs" "p \<noteq> []" for p
    using that space_seqs_not_plain [of p] by (auto simp: hasPrefix_iff)
  then have "trimSeqs space_seqs s = s" by (rule trimSeqs_fixed)
  then obtain u where "rev s = u @ rev (trimSpace s)" using trimSeqs_suffix [of "rev s" "map rev space_seqs"] by (auto simp: trimSpace_def)
  then show ?thesis by (metis rev_append rev_rev_ident)
qed

lemma named_event_not_restored:
  assumes "plainChar (hd line)" "\<not> hasPrefix line ''data:''"
  shows "restoreSSELine ord num parse line (Some sr) = ([PassedLine line], Some sr)"
proof -
  have "\<not> hasPrefix (trimSpace line) ''data:''"
  proof
    assume "hasPrefix (trimSpace line) ''data:''"
    then obtain t where "trimSpace line = ''data:'' @ t" by (auto simp: hasPrefix_iff)
    with trimSpace_start [OF assms(1)] obtain v where "line = ''data:'' @ t @ v" by auto
    then show False using assms(2) by (simp add: hasPrefix_iff)
  qed
  then show ?thesis by (simp add: restoreSSELine_def relaySSEDataPayload_def)
qed

text \<open>Whether the start of a placeholder is held back entirely depends on the order of the map.\<close>

lemma tail_depends_on_order:
  "placeholderPrefixSuffix [(''aiferry_ref_b_c_'', s), (''aiferry_ref_b_ba_'', t)] ''aiferry_ref_b_ba'' \<noteq>
   placeholderPrefixSuffix [(''aiferry_ref_b_ba_'', t), (''aiferry_ref_b_c_'', s)] ''aiferry_ref_b_ba''"
  by (simp add: placeholderPrefixSuffix_def prefixSuffix_def hasPrefix_def upt_rec)

end
