(* ===== verification/Price_Expression.thy ===== *)
theory Price_Expression
  imports Go_Regexp Usage_Pricing Resilience_Settings "HOL-Library.AList"
begin

text \<open>
  The price expressions of upstream catalogues (\<^verbatim>\<open>internal/logic/channel/price_expr.go\<close>, \<^verbatim>\<open>price_expr_condition.go\<close>,
  \<^verbatim>\<open>price_expr_rates.go\<close>): conditions on the time, the input length or a request parameter choose among leaves of rates.
  The code walks the text of an expression and writes one price rule per leaf.

  Floating-point numbers, their text, and the encoder of JSON are parameters; maps are lists in the order of insertion.
  An error keeps the text it is about before that is shortened for the message.
\<close>

subsection \<open>Values\<close>

record 'f floatText =
  ftZero :: 'f
  ftAdd :: "'f \<Rightarrow> 'f \<Rightarrow> 'f"
  ftIsZero :: "'f \<Rightarrow> bool"
  ftParse :: "string \<Rightarrow> 'f option"
  ftText :: "'f \<Rightarrow> string"

type_synonym 'f rateMap = "(string \<times> 'f) list"

datatype priceExprError =
    EmptyExpression | NoBranch | PricesNothing | NoPricedTerm
  | BadLeaf string | BadTerm string | BadVariable string | BadCoefficient string
  | BadCondition string | BadLength string | LengthOutOfRange string
  | NoTimezone string | BadHours string | HoursOutOfRange string | NoHour string

record 'f billingExprBreakdown =
  bkTier :: string
  bkRates :: "'f rateMap"
  bkTimezone :: string
  bkWeekdays :: "nat list"
  bkHourRanges :: "(string \<times> string) list"
  bkMinInput :: "u64 option"
  bkMaxInput :: "u64 option"
  bkNote :: string

definition emptyBreakdown :: "'f billingExprBreakdown" where
  "emptyBreakdown = \<lparr>bkTier = [], bkRates = [], bkTimezone = [], bkWeekdays = [], bkHourRanges = [], bkMinInput = None,
     bkMaxInput = None, bkNote = []\<rparr>"

definition billingExprRuleName :: string where
  "billingExprRuleName = ''BaseLLM '' @ bytes [0xE5, 0xAE, 0x98, 0xE6, 0x96, 0xB9, 0xE6, 0xA8, 0xA1, 0xE5, 0x9E, 0x8B, 0xE4, 0xBB, 0xB7, 0xE6, 0xA0, 0xBC]"

abbreviation dquote :: char where "dquote \<equiv> CHR 0x22"

subsection \<open>Rates\<close>

definition billingExprRateKeys :: "string \<Rightarrow> string option" where
  "billingExprRateKeys = map_of
     [(''p'', ''inputPerMillion''), (''c'', ''outputPerMillion''), (''cr'', ''cachedInputPerMillion''), (''cc'', ''cacheWritePerMillion''),
      (''ai'', ''audioInputPerMillion''), (''ao'', ''audioOutputPerMillion'')]"

definition billingExprCacheWriteFallbacks :: "string list" where
  "billingExprCacheWriteFallbacks = [''cc1h'', ''cc12h'']"

definition isBillingExprKnownVariable :: "string \<Rightarrow> bool" where
  "isBillingExprKnownVariable variable \<longleftrightarrow>
     billingExprRateKeys variable \<noteq> None \<or> variable = ''fixed'' \<or> variable \<in> set billingExprCacheWriteFallbacks"

definition rxNumber :: rx where
  "rxNumber = seqs [Many isDigit, opt (lit ''.''), many1 isDigit]"

definition rxName :: rx where
  "rxName = Seq (Byte isAlpha) (Many (\<lambda>c. isAlnum c \<or> c = CHR ''_''))"

definition billingExprLeafPattern :: rx where
  "billingExprLeafPattern = seqs
     [TextStart, lit (''tier('' @ [dquote]), Group 1 (Many (\<lambda>c. c \<noteq> dquote)), lit [dquote], Many isBlank, lit '','', Many isBlank,
      Group 2 (many1 (\<lambda>c. c \<noteq> CHR 0x0A)), lit '')'', TextEnd]"

definition billingExprVariableTerm :: rx where
  "billingExprVariableTerm = seqs [TextStart, Group 1 rxName, Many isBlank, lit ''*'', Many isBlank, Group 2 rxNumber, TextEnd]"

definition billingExprNumberTerm :: rx where
  "billingExprNumberTerm = seqs [TextStart, Group 1 rxNumber, Many isBlank, lit ''*'', Many isBlank, Group 2 rxName, TextEnd]"

definition billingExprFixedTerm :: rx where
  "billingExprFixedTerm = seqs [TextStart, lit ''fixed('', Group 1 rxNumber, lit '')'', TextEnd]"

definition billingExprImageCountSuffix :: rx where
  "billingExprImageCountSuffix = seqs [Many isBlank, lit ''*'', Many isBlank, lit ''image_count'', Many isBlank, TextEnd]"

text \<open>One term: its variable and the text of its coefficient.\<close>

definition billingTerm :: "string \<Rightarrow> (string \<times> string) option" where
  "billingTerm term0 =
     (case rxSubmatch billingExprVariableTerm term0 of
        Some m \<Rightarrow> Some (groupText m 1, groupText m 2)
      | None \<Rightarrow> (case rxSubmatch billingExprNumberTerm term0 of
          Some m \<Rightarrow> Some (groupText m 2, groupText m 1)
        | None \<Rightarrow> (case rxSubmatch billingExprFixedTerm term0 of
            Some m \<Rightarrow> Some (''fixed'', groupText m 1)
          | None \<Rightarrow> None)))"

definition addTo :: "'f floatText \<Rightarrow> string \<Rightarrow> 'f \<Rightarrow> 'f rateMap \<Rightarrow> 'f rateMap" where
  "addTo fl key v m = AList.update key (ftAdd fl (case map_of m key of None \<Rightarrow> ftZero fl | Some w \<Rightarrow> w) v) m"

fun collectTerms :: "'f floatText \<Rightarrow> string list \<Rightarrow> 'f rateMap \<Rightarrow> priceExprError + 'f rateMap" where
  "collectTerms fl [] terms = Inr terms"
| "collectTerms fl (raw # raws) terms =
     (let term0 = trimSpace raw in
      if term0 = [] then collectTerms fl raws terms
      else case billingTerm term0 of
             None \<Rightarrow> Inl (BadTerm term0)
           | Some (variable, coefficient) \<Rightarrow>
               (case ftParse fl coefficient of
                  None \<Rightarrow> Inl (BadCoefficient term0)
                | Some v \<Rightarrow> collectTerms fl raws (addTo fl variable v terms)))"

fun ratesOfTerms :: "'f floatText \<Rightarrow> 'f rateMap \<Rightarrow> 'f rateMap \<Rightarrow> priceExprError + 'f rateMap" where
  "ratesOfTerms fl [] rates = Inr rates"
| "ratesOfTerms fl ((variable, v) # terms) rates =
     (if \<not> isBillingExprKnownVariable variable then Inl (BadVariable variable)
      else if ftIsZero fl v then ratesOfTerms fl terms rates
      else if variable = ''fixed'' then ratesOfTerms fl terms (addTo fl ''request'' v rates)
      else if variable \<in> set billingExprCacheWriteFallbacks then ratesOfTerms fl terms rates
      else case billingExprRateKeys variable of
             None \<Rightarrow> ratesOfTerms fl terms rates
           | Some key \<Rightarrow> ratesOfTerms fl terms (addTo fl key v rates))"

definition coefficientOf :: "'f floatText \<Rightarrow> 'f rateMap \<Rightarrow> string \<Rightarrow> 'f" where
  "coefficientOf fl terms variable = (case map_of terms variable of None \<Rightarrow> ftZero fl | Some v \<Rightarrow> v)"

definition billingExprRatesFromTerms :: "'f floatText \<Rightarrow> 'f rateMap \<Rightarrow> priceExprError + 'f rateMap" where
  "billingExprRatesFromTerms fl terms =
     (case ratesOfTerms fl terms [] of
        Inl e \<Rightarrow> Inl e
      | Inr rates \<Rightarrow>
          if rates = [] then Inl PricesNothing
          else if map_of rates ''cacheWritePerMillion'' \<noteq> None then Inr rates
          else (case find (\<lambda>variable. \<not> ftIsZero fl (coefficientOf fl terms variable)) billingExprCacheWriteFallbacks of
                  None \<Rightarrow> Inr rates
                | Some variable \<Rightarrow> Inr (AList.update ''cacheWritePerMillion'' (coefficientOf fl terms variable) rates)))"

definition parseBillingLinearRates :: "'f floatText \<Rightarrow> string \<Rightarrow> priceExprError + 'f rateMap" where
  "parseBillingLinearRates fl expression =
     (case collectTerms fl (splitOn (CHR ''+'') (trimSpace expression)) [] of
        Inl e \<Rightarrow> Inl e
      | Inr terms \<Rightarrow> if terms = [] then Inl NoPricedTerm else billingExprRatesFromTerms fl terms)"

definition parseBillingLeaf :: "'f floatText \<Rightarrow> string \<Rightarrow> priceExprError + 'f billingExprBreakdown" where
  "parseBillingLeaf fl expression =
     (let leaf = trimSpace (fst (rxReplace billingExprImageCountSuffix (\<lambda>_ u. ([], u)) None (trimSpace expression) ()))
      in case rxSubmatch billingExprLeafPattern leaf of
           None \<Rightarrow> Inl (BadLeaf leaf)
         | Some m \<Rightarrow>
             (case parseBillingLinearRates fl (groupText m 2) of
                Inl e \<Rightarrow> Inl e
              | Inr rates \<Rightarrow> Inr (emptyBreakdown\<lparr>bkTier := groupText m 1, bkRates := rates\<rparr>)))"

subsection \<open>Conditions\<close>

datatype conditionKind = ConditionUnknown | ConditionSchedule | ConditionLength | ConditionParam

definition classifyBillingCondition :: "string \<Rightarrow> conditionKind" where
  "classifyBillingCondition condition0 =
     (let condition1 = trimSpace condition0 in
      if containsSub condition1 ''weekday('' \<or> containsSub condition1 ''hour('' then ConditionSchedule
      else if hasPrefix condition1 ''len'' then ConditionLength
      else if hasPrefix condition1 ''param('' then ConditionParam
      else ConditionUnknown)"

text \<open>The places of the question mark and the colon outside brackets and texts.\<close>

fun ternaryMarks :: "string \<Rightarrow> nat \<Rightarrow> int \<Rightarrow> nat option \<Rightarrow> bool \<Rightarrow> (nat \<times> nat) option" where
  "ternaryMarks [] i depth question quoted = None"
| "ternaryMarks (c # cs) i depth question True =
     (if c = CHR 0x5C then (case cs of [] \<Rightarrow> None | _ # ds \<Rightarrow> ternaryMarks ds (i + 2) depth question True)
      else ternaryMarks cs (i + 1) depth question (c \<noteq> dquote))"
| "ternaryMarks (c # cs) i depth question False =
     (if c = dquote then ternaryMarks cs (i + 1) depth question True
      else if c = CHR ''('' then ternaryMarks cs (i + 1) (depth + 1) question False
      else if c = CHR '')'' then ternaryMarks cs (i + 1) (depth - 1) question False
      else if c = CHR ''?'' \<and> depth = 0 \<and> question = None then ternaryMarks cs (i + 1) depth (Some i) False
      else if c = CHR '':'' \<and> depth = 0 \<and> question \<noteq> None then Some (the question, i)
      else ternaryMarks cs (i + 1) depth question False)"

definition splitBillingTernary :: "string \<Rightarrow> (string \<times> string \<times> string) option" where
  "splitBillingTernary expression =
     (case ternaryMarks expression 0 0 None False of
        None \<Rightarrow> None
      | Some (q, i) \<Rightarrow> Some (trimSpace (take q expression), trimSpace (drop (q + 1) (take i expression)), trimSpace (drop (i + 1) expression)))"

fun parensWrap :: "int \<Rightarrow> string \<Rightarrow> bool" where
  "parensWrap depth [] = (depth = 0)"
| "parensWrap depth (c # cs) =
     (if c = CHR ''('' then parensWrap (depth + 1) cs
      else if c = CHR '')'' then (if depth - 1 = 0 \<and> cs \<noteq> [] then False else parensWrap (depth - 1) cs)
      else parensWrap depth cs)"

definition billingExprOuterParensWrap :: "string \<Rightarrow> bool" where
  "billingExprOuterParensWrap expression = parensWrap 0 expression"

lemma trimSpace_length: "length (trimSpace s) \<le> length s"
proof -
  have shorter: "length (trimSeqs ps t) \<le> length t" for ps t using trimSeqs_suffix [of t ps] by (metis le_add2 length_append)
  show ?thesis unfolding trimSpace_def using shorter [of "map rev space_seqs" "rev (trimSeqs space_seqs s)"] shorter [of space_seqs s] by simp
qed

function unwrapBillingParens :: "string \<Rightarrow> string" where
  "unwrapBillingParens expression =
     (if 2 \<le> length expression \<and> hd expression = CHR ''('' \<and> last expression = CHR '')'' \<and> billingExprOuterParensWrap expression
      then unwrapBillingParens (trimSpace (butlast (tl expression))) else expression)"
  by pat_completeness auto
termination
proof (relation "measure length")
  fix expression :: string
  assume "2 \<le> length expression \<and> hd expression = CHR ''('' \<and> last expression = CHR '')'' \<and> billingExprOuterParensWrap expression"
  then show "(trimSpace (butlast (tl expression)), expression) \<in> measure length"
    using trimSpace_length [of "butlast (tl expression)"] by (auto intro!: le_less_trans [OF trimSpace_length])
qed simp

declare unwrapBillingParens.simps [simp del]

datatype lengthOp = LenLe | LenLt | LenGe | LenGt

definition billingExprLengthCondition :: rx where
  "billingExprLengthCondition = seqs
     [TextStart, lit ''len'', Many isBlank, Group 1 (alts [lit ''<='', lit ''<'', lit ''>='', lit ''>'']), Many isBlank, Group 2 (many1 isDigit), TextEnd]"

definition lengthOpOf :: "string \<Rightarrow> lengthOp" where
  "lengthOpOf op = (if op = ''<='' then LenLe else if op = ''<'' then LenLt else if op = ''>='' then LenGe else LenGt)"

text \<open>The comparison that a condition on the input length makes.\<close>

definition lengthComparison :: "string \<Rightarrow> priceExprError + lengthOp \<times> u64" where
  "lengthComparison condition0 =
     (case rxSubmatch billingExprLengthCondition (trimSpace condition0) of
        None \<Rightarrow> Inl (BadLength condition0)
      | Some m \<Rightarrow>
          (case parseUint 64 (groupText m 2) of
             None \<Rightarrow> Inl (LengthOutOfRange condition0)
           | Some bound \<Rightarrow> if bound = 0 then Inl (LengthOutOfRange condition0) else Inr (lengthOpOf (groupText m 1), of_nat bound)))"

record billingExprLengthBounds =
  WhenTrueMin :: "u64 option"
  WhenTrueMax :: "u64 option"
  WhenFalseMin :: "u64 option"
  WhenFalseMax :: "u64 option"

fun lengthBounds :: "lengthOp \<Rightarrow> u64 \<Rightarrow> billingExprLengthBounds" where
  "lengthBounds LenLe b = \<lparr>WhenTrueMin = None, WhenTrueMax = Some b, WhenFalseMin = Some (b + 1), WhenFalseMax = None\<rparr>"
| "lengthBounds LenLt b = \<lparr>WhenTrueMin = None, WhenTrueMax = Some (b - 1), WhenFalseMin = Some b, WhenFalseMax = None\<rparr>"
| "lengthBounds LenGe b = \<lparr>WhenTrueMin = Some b, WhenTrueMax = None, WhenFalseMin = None, WhenFalseMax = Some (b - 1)\<rparr>"
| "lengthBounds LenGt b = \<lparr>WhenTrueMin = Some (b + 1), WhenTrueMax = None, WhenFalseMin = None, WhenFalseMax = Some b\<rparr>"

definition parseBillingLengthCondition :: "string \<Rightarrow> priceExprError + billingExprLengthBounds" where
  "parseBillingLengthCondition condition0 =
     (case lengthComparison condition0 of Inl e \<Rightarrow> Inl e | Inr (op, bound) \<Rightarrow> Inr (lengthBounds op bound))"

definition largerBound :: "u64 option \<Rightarrow> u64 option \<Rightarrow> u64 option" where
  "largerBound minimum lower =
     (case lower of None \<Rightarrow> minimum | Some l \<Rightarrow> (case minimum of None \<Rightarrow> Some l | Some m \<Rightarrow> if m < l then Some l else Some m))"

definition smallerBound :: "u64 option \<Rightarrow> u64 option \<Rightarrow> u64 option" where
  "smallerBound maximum upper =
     (case upper of None \<Rightarrow> maximum | Some u \<Rightarrow> (case maximum of None \<Rightarrow> Some u | Some m \<Rightarrow> if u < m then Some u else Some m))"

definition mergeBillingInputBounds :: "u64 option \<Rightarrow> u64 option \<Rightarrow> u64 option \<Rightarrow> u64 option \<Rightarrow> u64 option \<times> u64 option" where
  "mergeBillingInputBounds minimum maximum lower upper = (largerBound minimum lower, smallerBound maximum upper)"

definition quotedCall :: "string \<Rightarrow> rx" where
  "quotedCall name = seqs [lit (name @ ''('' @ [dquote]), Many (\<lambda>c. c \<noteq> dquote), lit (dquote # '')'')]"

definition billingExprTimezonePattern :: rx where
  "billingExprTimezonePattern = seqs
     [alts [lit ''weekday'', lit ''hour''], lit (''('' @ [dquote]), Group 1 (many1 (\<lambda>c. c \<noteq> dquote)), lit (dquote # '')'')]"

definition billingExprWeekdayCondition :: rx where
  "billingExprWeekdayCondition = seqs
     [quotedCall ''weekday'', Many isBlank, Group 1 (alts [lit ''>='', lit ''<='', lit ''=='']), Many isBlank, Group 2 (many1 isDigit)]"

definition billingExprHourCondition :: rx where
  "billingExprHourCondition = seqs
     [quotedCall ''hour'', Many isBlank, Group 1 (alts [lit ''>='', lit ''>'']), Many isBlank, Group 2 (many1 isDigit), Many isBlank, lit ''&&'',
      Many isBlank, quotedCall ''hour'', Many isBlank, Group 3 (alts [lit ''<='', lit ''<'']), Many isBlank, Group 4 (many1 isDigit)]"

definition billingExprParamCondition :: rx where
  "billingExprParamCondition = seqs
     [TextStart, lit (''param('' @ [dquote]), Group 1 (Many (\<lambda>c. c \<noteq> dquote)), lit (dquote # '')''), Many isBlank, lit ''=='', Many isBlank,
      Group 2 (many1 (\<lambda>c. c \<noteq> CHR 0x0A)), TextEnd]"

text \<open>The comparisons of the weekday, from left to right: the lower bound, the upper bound and the exact day.\<close>

definition weekdayMatch :: "string \<Rightarrow> string \<Rightarrow> nat \<times> nat \<times> nat \<Rightarrow> nat \<times> nat \<times> nat" where
  "weekdayMatch op digits days =
     (case days of (lower, upper, exact) \<Rightarrow>
        (case parseInt digits of
           None \<Rightarrow> days
         | Some v \<Rightarrow>
             if v < 0 \<or> v > 7 then days
             else if op = ''>='' then (nat v, upper, exact)
             else if op = ''<='' then (lower, nat v, exact)
             else if op = ''=='' then (lower, upper, nat v) else days))"

definition weekdaysOf :: "nat \<times> nat \<times> nat \<Rightarrow> nat list" where
  "weekdaysOf days =
     (case days of (lower, upper, exact) \<Rightarrow>
        if exact > 0 then [exact]
        else if lower = 0 \<and> upper = 0 then []
        else let lo = (if lower = 0 then 1 else lower); hi = (if upper = 0 then 7 else upper) in if lo > hi then [] else [lo..<hi + 1])"

definition parseBillingWeekdays :: "string \<Rightarrow> nat list" where
  "parseBillingWeekdays condition0 =
     (let matches = rxAll billingExprWeekdayCondition None condition0 in
      if matches = [] then [] else weekdaysOf (foldl (\<lambda>days m. weekdayMatch (groupText m 1) (groupText m 2) days) (0, 0, 0) matches))"

definition clockText :: "nat \<Rightarrow> string" where
  "clockText h = (if h < 10 then ''0'' else []) @ showNat h @ '':00''"

text \<open>The hours of one clause; the sign of the first comparison is not looked at.\<close>

definition hourClause :: "string \<Rightarrow> string \<Rightarrow> string \<Rightarrow> (nat \<times> nat) option" where
  "hourClause from0 upper to0 =
     (case (parseInt from0, parseInt to0) of
        (Some a, Some b) \<Rightarrow>
          if a < 0 \<or> a > 24 \<or> b < 0 \<or> b > 24 then None
          else Some (nat a, min 24 (if upper = ''<='' then nat b + 1 else nat b))
      | _ \<Rightarrow> None)"

fun hourRanges :: "string \<Rightarrow> rxState list \<Rightarrow> priceExprError + (string \<times> string) list" where
  "hourRanges condition0 [] = Inr []"
| "hourRanges condition0 (m # ms) =
     (case hourClause (groupText m 2) (groupText m 3) (groupText m 4) of
        None \<Rightarrow> Inl (HoursOutOfRange condition0)
      | Some (start, stop) \<Rightarrow>
          (case hourRanges condition0 ms of
             Inl e \<Rightarrow> Inl e
           | Inr rs \<Rightarrow> Inr (if start \<ge> stop then rs else (clockText start, clockText stop) # rs)))"

definition parseBillingHourRanges :: "string \<Rightarrow> priceExprError + (string \<times> string) list" where
  "parseBillingHourRanges condition0 =
     (if \<not> containsSub condition0 ''hour('' then Inr []
      else let matches = rxAll billingExprHourCondition None condition0 in
        if matches = [] then Inl (BadHours condition0)
        else case hourRanges condition0 matches of
               Inl e \<Rightarrow> Inl e
             | Inr rs \<Rightarrow> if rs = [] then Inl (NoHour condition0) else Inr rs)"

record billingSchedule =
  bsTimezone :: string
  bsWeekdays :: "nat list"
  bsHours :: "(string \<times> string) list"

definition noSchedule :: billingSchedule where
  "noSchedule = \<lparr>bsTimezone = [], bsWeekdays = [], bsHours = []\<rparr>"

definition parseBillingScheduleCondition :: "string \<Rightarrow> priceExprError + billingSchedule" where
  "parseBillingScheduleCondition condition0 =
     (case rxFind billingExprTimezonePattern None condition0 of
        None \<Rightarrow> Inl (NoTimezone condition0)
      | Some (gap, m) \<Rightarrow>
          (case parseBillingHourRanges condition0 of
             Inl e \<Rightarrow> Inl e
           | Inr ranges \<Rightarrow> Inr \<lparr>bsTimezone = groupText m 1, bsWeekdays = parseBillingWeekdays condition0, bsHours = ranges\<rparr>))"

subsection \<open>The walk over an expression\<close>

text \<open>What the branches above a leaf give to it.\<close>

record branchContext =
  cxSchedule :: billingSchedule
  cxMin :: "u64 option"
  cxMax :: "u64 option"
  cxNote :: string

definition inContext :: "branchContext \<Rightarrow> 'f billingExprBreakdown \<Rightarrow> 'f billingExprBreakdown" where
  "inContext cx b =
     b\<lparr>bkTimezone := bsTimezone (cxSchedule cx), bkWeekdays := bsWeekdays (cxSchedule cx), bkHourRanges := bsHours (cxSchedule cx),
       bkMinInput := cxMin cx, bkMaxInput := cxMax cx, bkNote := cxNote cx\<rparr>"

definition withLengths :: "branchContext \<Rightarrow> u64 option \<Rightarrow> u64 option \<Rightarrow> branchContext" where
  "withLengths cx lower upper =
     (let (lo, hi) = mergeBillingInputBounds (cxMin cx) (cxMax cx) lower upper in cx\<lparr>cxMin := lo, cxMax := hi\<rparr>)"

definition noteOffPeak :: string where "noteOffPeak = bytes [0xE9, 0x9D, 0x9E, 0xE9, 0xAB, 0x98, 0xE5, 0xB3, 0xB0, 0xE6, 0xA1, 0xA3]"
definition notePeak :: string where "notePeak = bytes [0xE9, 0xAB, 0x98, 0xE5, 0xB3, 0xB0, 0xE6, 0x97, 0xB6, 0xE6, 0xAE, 0xB5]"

definition paramNote :: "string \<Rightarrow> string" where
  "paramNote condition0 =
     (let role = (case rxSubmatch billingExprParamCondition condition0 of
                    Some m \<Rightarrow> if trimSpace (groupText m 1) \<noteq> [] then trimSpace (groupText m 1) else bytes [0xE8, 0xAF, 0xB7, 0xE6, 0xB1, 0x82, 0xE5, 0x8F, 0x82, 0xE6, 0x95, 0xB0]
                  | None \<Rightarrow> bytes [0xE8, 0xAF, 0xB7, 0xE6, 0xB1, 0x82, 0xE5, 0x8F, 0x82, 0xE6, 0x95, 0xB0])
      in role @ '' '' @ bytes [0xE6, 0x9C, 0xAA, 0xE5, 0xBC, 0x80, 0xE5, 0x90, 0xAF, 0xE6, 0xA1, 0xA3])"

lemma ternaryMarks_bounds:
  "ternaryMarks s i depth question quoted = Some (q, j) \<Longrightarrow> (\<forall>k. question = Some k \<longrightarrow> k < i) \<Longrightarrow> q < j \<and> i \<le> j \<and> j < i + length s"
proof (induction s i depth question quoted arbitrary: q j rule: ternaryMarks.induct)
  case (2 c cs i depth question)
  show ?case
  proof (cases "c = CHR 0x5C")
    case True
    then obtain d ds where cs: "cs = d # ds" using 2(3) by (cases cs) auto
    then show ?thesis using 2(1) [OF True cs, of q j] 2(3,4) True by fastforce
  next
    case False
    then show ?thesis using 2(2) [OF False, of q j] 2(3,4) by fastforce
  qed
next
  case (3 c cs i depth question)
  then show ?case by (fastforce split: if_splits)
qed simp

lemma split_shorter:
  assumes "splitBillingTernary s = Some (c, a, b)"
  shows "length a < length s" "length b < length s"
proof -
  obtain q j where m: "ternaryMarks s 0 0 None False = Some (q, j)" and ab: "a = trimSpace (drop (q + 1) (take j s))" "b = trimSpace (drop (j + 1) s)"
    using assms by (auto simp: splitBillingTernary_def split: option.splits)
  have "q < j" "j < length s" using ternaryMarks_bounds [OF m] by auto
  then have "length (drop (q + 1) (take j s)) < length s" "length (drop (j + 1) s) < length s" by auto
  then show "length a < length s" "length b < length s" unfolding ab using trimSpace_length le_less_trans by blast+
qed

lemma unwrap_length: "length (unwrapBillingParens s) \<le> length s"
proof (induction s rule: unwrapBillingParens.induct)
  case (1 s)
  show ?case
  proof (cases "2 \<le> length s \<and> hd s = CHR ''('' \<and> last s = CHR '')'' \<and> billingExprOuterParensWrap s")
    case True
    have "length (unwrapBillingParens s) \<le> length (trimSpace (butlast (tl s)))" using 1 [OF True] True by (simp add: unwrapBillingParens.simps [of s])
    then show ?thesis using trimSpace_length [of "butlast (tl s)"] by simp
  next
    case False
    then have "unwrapBillingParens s = s" by (simp only: unwrapBillingParens.simps [of s] if_False)
    then show ?thesis by simp
  qed
qed

definition bareExpression :: "string \<Rightarrow> string" where
  "bareExpression expression = unwrapBillingParens (trimSpace expression)"

lemma bare_split_shorter:
  assumes "splitBillingTernary (bareExpression s) = Some (c, a, b)"
  shows "length a < length s" "length b < length s"
proof -
  have "length (bareExpression s) \<le> length s" unfolding bareExpression_def using unwrap_length trimSpace_length le_trans by blast
  then show "length a < length s" "length b < length s" using split_shorter [OF assms] by simp_all
qed

text \<open>The rules of an expression in the order in which the code appends them.\<close>

function walkBillingExpression :: "'f floatText \<Rightarrow> string \<Rightarrow> branchContext \<Rightarrow> priceExprError + 'f billingExprBreakdown list" where
  "walkBillingExpression fl expression cx =
     (case splitBillingTernary (bareExpression expression) of
        None \<Rightarrow>
          (case parseBillingLeaf fl (bareExpression expression) of
             Inl e \<Rightarrow> Inl e
           | Inr b \<Rightarrow> Inr [inContext cx b])
      | Some (condition0, whenTrue, whenFalse) \<Rightarrow>
          (case classifyBillingCondition condition0 of
             ConditionSchedule \<Rightarrow>
               (case parseBillingScheduleCondition condition0 of
                  Inl e \<Rightarrow> Inl e
                | Inr schedule \<Rightarrow>
                    (case walkBillingExpression fl whenFalse (cx\<lparr>cxSchedule := noSchedule, cxNote := noteOffPeak\<rparr>) of
                       Inl e \<Rightarrow> Inl e
                     | Inr others \<Rightarrow>
                         (case walkBillingExpression fl whenTrue (cx\<lparr>cxSchedule := schedule, cxNote := notePeak\<rparr>) of
                            Inl e \<Rightarrow> Inl e
                          | Inr hits \<Rightarrow> Inr (others @ hits))))
           | ConditionLength \<Rightarrow>
               (case parseBillingLengthCondition condition0 of
                  Inl e \<Rightarrow> Inl e
                | Inr bounds \<Rightarrow>
                    (case walkBillingExpression fl whenTrue (withLengths cx (WhenTrueMin bounds) (WhenTrueMax bounds)) of
                       Inl e \<Rightarrow> Inl e
                     | Inr hits \<Rightarrow>
                         (case walkBillingExpression fl whenFalse (withLengths cx (WhenFalseMin bounds) (WhenFalseMax bounds)) of
                            Inl e \<Rightarrow> Inl e
                          | Inr others \<Rightarrow> Inr (hits @ others))))
           | ConditionParam \<Rightarrow> walkBillingExpression fl whenFalse (cx\<lparr>cxNote := paramNote condition0\<rparr>)
           | ConditionUnknown \<Rightarrow> Inl (BadCondition condition0)))"
  by pat_completeness auto
termination
  by (relation "measure (\<lambda>(fl, s, cx). length s)") (auto dest: bare_split_shorter)

declare walkBillingExpression.simps [simp del]

definition emptyContext :: branchContext where
  "emptyContext = \<lparr>cxSchedule = noSchedule, cxMin = None, cxMax = None, cxNote = []\<rparr>"

definition parseBillingExpression :: "'f floatText \<Rightarrow> string \<Rightarrow> priceExprError + 'f billingExprBreakdown list" where
  "parseBillingExpression fl expression =
     (let trimmed = trimSpace expression in
      if trimmed = [] then Inl EmptyExpression
      else case walkBillingExpression fl trimmed emptyContext of
             Inl e \<Rightarrow> Inl e
           | Inr bs \<Rightarrow> if bs = [] then Inl NoBranch else Inr bs)"

subsection \<open>What an expression means\<close>

text \<open>
  The expression as a tree, read by the same splitting.  A leaf is its rates; a length condition its comparison; a
  schedule the window it is written as; of a parameter condition only the branch for an absent parameter is read.
\<close>

datatype 'f tierTree =
    TierLeaf "'f billingExprBreakdown"
  | TierSchedule billingSchedule "'f tierTree" "'f tierTree"
  | TierLength lengthOp u64 "'f tierTree" "'f tierTree"
  | TierParam string "'f tierTree"

function tiersOf :: "'f floatText \<Rightarrow> string \<Rightarrow> priceExprError + 'f tierTree" where
  "tiersOf fl expression =
     (case splitBillingTernary (bareExpression expression) of
        None \<Rightarrow> (case parseBillingLeaf fl (bareExpression expression) of Inl e \<Rightarrow> Inl e | Inr b \<Rightarrow> Inr (TierLeaf b))
      | Some (condition0, whenTrue, whenFalse) \<Rightarrow>
          (case classifyBillingCondition condition0 of
             ConditionSchedule \<Rightarrow>
               (case parseBillingScheduleCondition condition0 of
                  Inl e \<Rightarrow> Inl e
                | Inr schedule \<Rightarrow>
                    (case tiersOf fl whenFalse of
                       Inl e \<Rightarrow> Inl e
                     | Inr b \<Rightarrow> (case tiersOf fl whenTrue of Inl e \<Rightarrow> Inl e | Inr a \<Rightarrow> Inr (TierSchedule schedule a b))))
           | ConditionLength \<Rightarrow>
               (case lengthComparison condition0 of
                  Inl e \<Rightarrow> Inl e
                | Inr (op, bound) \<Rightarrow>
                    (case tiersOf fl whenTrue of
                       Inl e \<Rightarrow> Inl e
                     | Inr a \<Rightarrow> (case tiersOf fl whenFalse of Inl e \<Rightarrow> Inl e | Inr b \<Rightarrow> Inr (TierLength op bound a b))))
           | ConditionParam \<Rightarrow> (case tiersOf fl whenFalse of Inl e \<Rightarrow> Inl e | Inr b \<Rightarrow> Inr (TierParam (paramNote condition0) b))
           | ConditionUnknown \<Rightarrow> Inl (BadCondition condition0)))"
  by pat_completeness auto
termination
  by (relation "measure (\<lambda>(fl, s). length s)") (auto dest: bare_split_shorter)

declare tiersOf.simps [simp del]

fun lengthHolds :: "lengthOp \<Rightarrow> u64 \<Rightarrow> u64 \<Rightarrow> bool" where
  "lengthHolds LenLe b n \<longleftrightarrow> n \<le> b"
| "lengthHolds LenLt b n \<longleftrightarrow> n < b"
| "lengthHolds LenGe b n \<longleftrightarrow> b \<le> n"
| "lengthHolds LenGt b n \<longleftrightarrow> b < n"

text \<open>The leaf a request with \<open>n\<close> input tokens pays, where \<open>inTime\<close> says in which schedules its time lies.\<close>

fun tierFor :: "(billingSchedule \<Rightarrow> bool) \<Rightarrow> u64 \<Rightarrow> 'f tierTree \<Rightarrow> 'f billingExprBreakdown" where
  "tierFor inTime n (TierLeaf b) = b"
| "tierFor inTime n (TierSchedule s a b) = (if inTime s then tierFor inTime n a else tierFor inTime n b)"
| "tierFor inTime n (TierLength op bound a b) = (if lengthHolds op bound n then tierFor inTime n a else tierFor inTime n b)"
| "tierFor inTime n (TierParam note b) = tierFor inTime n b"

fun flatten :: "'f tierTree \<Rightarrow> branchContext \<Rightarrow> 'f billingExprBreakdown list" where
  "flatten (TierLeaf b) cx = [inContext cx b]"
| "flatten (TierSchedule s a b) cx =
     flatten b (cx\<lparr>cxSchedule := noSchedule, cxNote := noteOffPeak\<rparr>) @ flatten a (cx\<lparr>cxSchedule := s, cxNote := notePeak\<rparr>)"
| "flatten (TierLength op bound a b) cx =
     flatten a (withLengths cx (WhenTrueMin (lengthBounds op bound)) (WhenTrueMax (lengthBounds op bound))) @
     flatten b (withLengths cx (WhenFalseMin (lengthBounds op bound)) (WhenFalseMax (lengthBounds op bound)))"
| "flatten (TierParam note b) cx = flatten b (cx\<lparr>cxNote := note\<rparr>)"

text \<open>The walk succeeds exactly when the expression has a tree, and gives the leaves of the tree.\<close>

lemma walk_flatten:
  "walkBillingExpression fl s cx = (case tiersOf fl s of Inl e \<Rightarrow> Inl e | Inr tree \<Rightarrow> Inr (flatten tree cx))"
proof (induction fl s arbitrary: cx rule: tiersOf.induct)
  case (1 fl s)
  show ?case
  proof (cases "splitBillingTernary (bareExpression s)")
    case None
    then show ?thesis by (simp add: walkBillingExpression.simps [of fl s] tiersOf.simps [of fl s] split: sum.split)
  next
    case (Some p)
    obtain c a b where p: "p = (c, a, b)" by (cases p)
    note S = Some [unfolded p]
    show ?thesis
    proof (cases "classifyBillingCondition c")
      case ConditionUnknown
      then show ?thesis using S by (simp add: walkBillingExpression.simps [of fl s] tiersOf.simps [of fl s])
    next
      case ConditionSchedule
      show ?thesis
      proof (cases "parseBillingScheduleCondition c")
        case (Inl e)
        then show ?thesis using S ConditionSchedule by (simp add: walkBillingExpression.simps [of fl s] tiersOf.simps [of fl s])
      next
        case (Inr sched)
        note IHb = 1(1) [OF Some p [symmetric] refl ConditionSchedule Inr]
        show ?thesis
        proof (cases "tiersOf fl b")
          case E: (Inl e)
          then show ?thesis using S ConditionSchedule Inr IHb by (simp add: walkBillingExpression.simps [of fl s] tiersOf.simps [of fl s])
        next
          case B: (Inr tb)
          note IHa = 1(2) [OF Some p [symmetric] refl ConditionSchedule Inr B]
          show ?thesis using S ConditionSchedule Inr IHb IHa B
            by (cases "tiersOf fl a") (simp_all add: walkBillingExpression.simps [of fl s] tiersOf.simps [of fl s])
        qed
      qed
    next
      case ConditionLength
      show ?thesis
      proof (cases "lengthComparison c")
        case (Inl e)
        then show ?thesis using S ConditionLength
          by (simp add: walkBillingExpression.simps [of fl s] tiersOf.simps [of fl s] parseBillingLengthCondition_def)
      next
        case (Inr q)
        obtain op bound where q: "q = (op, bound)" by (cases q)
        note IHa = 1(3) [OF Some p [symmetric] refl ConditionLength Inr q [symmetric]]
        show ?thesis
        proof (cases "tiersOf fl a")
          case E: (Inl e)
          then show ?thesis using S ConditionLength Inr q IHa
            by (simp add: walkBillingExpression.simps [of fl s] tiersOf.simps [of fl s] parseBillingLengthCondition_def)
        next
          case A: (Inr ta)
          note IHb = 1(4) [OF Some p [symmetric] refl ConditionLength Inr q [symmetric] A]
          show ?thesis using S ConditionLength Inr q IHa IHb A
            by (cases "tiersOf fl b") (simp_all add: walkBillingExpression.simps [of fl s] tiersOf.simps [of fl s] parseBillingLengthCondition_def)
        qed
      qed
    next
      case ConditionParam
      note IHb = 1(5) [OF Some p [symmetric] refl ConditionParam]
      show ?thesis using S ConditionParam IHb
        by (cases "tiersOf fl b") (simp_all add: walkBillingExpression.simps [of fl s] tiersOf.simps [of fl s])
    qed
  qed
qed

subsection \<open>The rules of an expression charge the tier it means\<close>

definition bkSchedule :: "'f billingExprBreakdown \<Rightarrow> billingSchedule" where
  "bkSchedule b = \<lparr>bsTimezone = bkTimezone b, bsWeekdays = bkWeekdays b, bsHours = bkHourRanges b\<rparr>"

definition withinBounds :: "u64 option \<Rightarrow> u64 option \<Rightarrow> u64 \<Rightarrow> bool" where
  "withinBounds lo hi n \<longleftrightarrow> (case lo of None \<Rightarrow> True | Some l \<Rightarrow> l \<le> n) \<and> (case hi of None \<Rightarrow> True | Some h \<Rightarrow> n \<le> h)"

definition scheduleAllows :: "(billingSchedule \<Rightarrow> bool) \<Rightarrow> billingSchedule \<Rightarrow> bool" where
  "scheduleAllows inTime s \<longleftrightarrow> bsTimezone s = [] \<or> inTime s"

definition tierApplies :: "(billingSchedule \<Rightarrow> bool) \<Rightarrow> u64 \<Rightarrow> 'f billingExprBreakdown \<Rightarrow> bool" where
  "tierApplies inTime n b \<longleftrightarrow> scheduleAllows inTime (bkSchedule b) \<and> withinBounds (bkMinInput b) (bkMaxInput b) n"

definition contextApplies :: "(billingSchedule \<Rightarrow> bool) \<Rightarrow> u64 \<Rightarrow> branchContext \<Rightarrow> bool" where
  "contextApplies inTime n cx \<longleftrightarrow> scheduleAllows inTime (cxSchedule cx) \<and> withinBounds (cxMin cx) (cxMax cx) n"

definition conditional :: "'f billingExprBreakdown \<Rightarrow> bool" where
  "conditional b \<longleftrightarrow> bkTimezone b \<noteq> [] \<or> bkMinInput b \<noteq> None \<or> bkMaxInput b \<noteq> None"

fun hasSchedule :: "'f tierTree \<Rightarrow> bool" where
  "hasSchedule (TierLeaf b) = False"
| "hasSchedule (TierSchedule s a b) = True"
| "hasSchedule (TierLength op bound a b) = (hasSchedule a \<or> hasSchedule b)"
| "hasSchedule (TierParam note b) = hasSchedule b"

text \<open>
  The layers that the catalogues use: no schedule inside the branch of another schedule, and no comparison with the
  largest number, whose successor is 0.
\<close>

fun layered :: "'f tierTree \<Rightarrow> bool" where
  "layered (TierLeaf b) = True"
| "layered (TierSchedule s a b) \<longleftrightarrow> bsTimezone s \<noteq> [] \<and> \<not> hasSchedule a \<and> layered a \<and> layered b"
| "layered (TierLength op bound a b) \<longleftrightarrow> 0 < bound \<and> bound + 1 \<noteq> 0 \<and> layered a \<and> layered b"
| "layered (TierParam note b) = layered b"

lemma merged_bounds:
  "withinBounds (largerBound lo l) (smallerBound hi h) n \<longleftrightarrow> withinBounds lo hi n \<and> withinBounds l h n"
  by (auto simp: withinBounds_def largerBound_def smallerBound_def split: option.splits)

lemma word_succ: "bound + 1 \<noteq> 0 \<Longrightarrow> bound + 1 \<le> n \<longleftrightarrow> bound < (n :: u64)"
  using unatSuc [of bound] by (simp add: word_le_nat_alt word_less_nat_alt add.commute Suc_le_eq)

lemma word_pred: "0 < bound \<Longrightarrow> n \<le> bound - 1 \<longleftrightarrow> n < (bound :: u64)"
proof -
  assume "0 < bound"
  then have "bound \<noteq> 0" by auto
  then have "unat (bound - 1) = unat bound - 1" "0 < unat bound" by (simp_all add: unat_minus_one unat_gt_0)
  then show ?thesis by (auto simp: word_le_nat_alt word_less_nat_alt)
qed

lemma lengthBounds_hit:
  "0 < bound \<Longrightarrow> bound + 1 \<noteq> 0 \<Longrightarrow>
     withinBounds (WhenTrueMin (lengthBounds op bound)) (WhenTrueMax (lengthBounds op bound)) n \<longleftrightarrow> lengthHolds op bound n"
  by (cases op) (simp_all add: withinBounds_def word_succ word_pred)

lemma lengthBounds_other:
  "0 < bound \<Longrightarrow> bound + 1 \<noteq> 0 \<Longrightarrow>
     withinBounds (WhenFalseMin (lengthBounds op bound)) (WhenFalseMax (lengthBounds op bound)) n \<longleftrightarrow> \<not> lengthHolds op bound n"
  by (cases op) (auto simp: withinBounds_def word_succ word_pred)

lemma withLengths_applies:
  "contextApplies inTime n (withLengths cx lower upper) \<longleftrightarrow> contextApplies inTime n cx \<and> withinBounds lower upper n"
  by (auto simp: contextApplies_def withLengths_def mergeBillingInputBounds_def merged_bounds)

lemma withLengths_schedule [simp]: "cxSchedule (withLengths cx lower upper) = cxSchedule cx"
  by (simp add: withLengths_def mergeBillingInputBounds_def)

lemma inContext_applies: "tierApplies inTime n (inContext cx b) = contextApplies inTime n cx"
  by (cases "cxSchedule cx") (simp add: tierApplies_def contextApplies_def inContext_def bkSchedule_def)

lemma inContext_price [simp]: "bkTier (inContext cx b) = bkTier b" "bkRates (inContext cx b) = bkRates b"
  by (simp_all add: inContext_def)

definition priceOf :: "'f billingExprBreakdown \<Rightarrow> string \<times> 'f rateMap" where
  "priceOf b = (bkTier b, bkRates b)"

text \<open>The last of the rules that applies charges the tier the expression means, and none applies outside the branch.\<close>

lemma flatten_picks:
  assumes "layered tree" "hasSchedule tree \<longrightarrow> cxSchedule cx = noSchedule"
  shows "map_option priceOf (find (tierApplies inTime n) (rev (flatten tree cx))) =
    (if contextApplies inTime n cx then Some (priceOf (tierFor inTime n tree)) else None)"
  using assms
proof (induction tree arbitrary: cx)
  case (TierLeaf b)
  then show ?case by (simp add: inContext_applies priceOf_def)
next
  case (TierSchedule s a b)
  let ?other = "cx\<lparr>cxSchedule := noSchedule, cxNote := noteOffPeak\<rparr>" and ?hit = "cx\<lparr>cxSchedule := s, cxNote := notePeak\<rparr>"
  have hit: "contextApplies inTime n ?hit \<longleftrightarrow> contextApplies inTime n cx \<and> inTime s" and other: "contextApplies inTime n ?other \<longleftrightarrow> contextApplies inTime n cx"
    using TierSchedule.prems by (auto simp: contextApplies_def scheduleAllows_def noSchedule_def)
  have A: "map_option priceOf (find (tierApplies inTime n) (rev (flatten a ?hit))) =
      (if contextApplies inTime n ?hit then Some (priceOf (tierFor inTime n a)) else None)"
    by (rule TierSchedule.IH) (use TierSchedule.prems in simp_all)
  have B: "map_option priceOf (find (tierApplies inTime n) (rev (flatten b ?other))) =
      (if contextApplies inTime n ?other then Some (priceOf (tierFor inTime n b)) else None)"
    by (rule TierSchedule.IH) (use TierSchedule.prems in simp_all)
  show ?case using A B unfolding hit other by (auto simp: find_append_last split: option.splits if_splits)
next
  case (TierLength op bound a b)
  let ?other = "withLengths cx (WhenFalseMin (lengthBounds op bound)) (WhenFalseMax (lengthBounds op bound))"
  let ?hit = "withLengths cx (WhenTrueMin (lengthBounds op bound)) (WhenTrueMax (lengthBounds op bound))"
  have pos: "0 < bound" "bound + 1 \<noteq> 0" using TierLength.prems by simp_all
  have hit: "contextApplies inTime n ?hit \<longleftrightarrow> contextApplies inTime n cx \<and> lengthHolds op bound n"
    and other: "contextApplies inTime n ?other \<longleftrightarrow> contextApplies inTime n cx \<and> \<not> lengthHolds op bound n"
    using lengthBounds_hit [OF pos] lengthBounds_other [OF pos] by (simp_all add: withLengths_applies)
  have A: "map_option priceOf (find (tierApplies inTime n) (rev (flatten a ?hit))) =
      (if contextApplies inTime n ?hit then Some (priceOf (tierFor inTime n a)) else None)"
    by (rule TierLength.IH) (use TierLength.prems in simp_all)
  have B: "map_option priceOf (find (tierApplies inTime n) (rev (flatten b ?other))) =
      (if contextApplies inTime n ?other then Some (priceOf (tierFor inTime n b)) else None)"
    by (rule TierLength.IH) (use TierLength.prems in simp_all)
  show ?case using A B unfolding hit other by (auto simp: find_append_last split: option.splits if_splits)
next
  case (TierParam role b)
  have "contextApplies inTime n (cx\<lparr>cxNote := role\<rparr>) = contextApplies inTime n cx" by (simp add: contextApplies_def)
  then show ?case using TierParam.IH [of "cx\<lparr>cxNote := role\<rparr>"] TierParam.prems by simp
qed

text \<open>Only the first rule of an expression can be without conditions, so putting such rules first changes nothing.\<close>

lemma flatten_bounded:
  "cxMin cx \<noteq> None \<or> cxMax cx \<noteq> None \<Longrightarrow> list_all conditional (flatten tree cx)"
proof (induction tree arbitrary: cx)
  case (TierLength op bound a b)
  then have "cxMin (withLengths cx l u) \<noteq> None \<or> cxMax (withLengths cx l u) \<noteq> None" for l u
    by (auto simp: withLengths_def mergeBillingInputBounds_def largerBound_def smallerBound_def split: option.splits)
  then show ?case using TierLength by simp
qed (auto simp: conditional_def inContext_def)

lemma flatten_scheduled:
  "bsTimezone (cxSchedule cx) \<noteq> [] \<Longrightarrow> \<not> hasSchedule tree \<Longrightarrow> list_all conditional (flatten tree cx)"
  by (induction tree arbitrary: cx) (auto simp: conditional_def inContext_def)

lemma flatten_nonempty [simp]: "flatten tree cx \<noteq> []"
  by (induction tree arbitrary: cx) auto

lemma lengths_bounded:
  "cxMin (withLengths cx (WhenTrueMin (lengthBounds op bound)) (WhenTrueMax (lengthBounds op bound))) \<noteq> None \<or>
   cxMax (withLengths cx (WhenTrueMin (lengthBounds op bound)) (WhenTrueMax (lengthBounds op bound))) \<noteq> None"
  "cxMin (withLengths cx (WhenFalseMin (lengthBounds op bound)) (WhenFalseMax (lengthBounds op bound))) \<noteq> None \<or>
   cxMax (withLengths cx (WhenFalseMin (lengthBounds op bound)) (WhenFalseMax (lengthBounds op bound))) \<noteq> None"
  by (cases op; auto simp: withLengths_def mergeBillingInputBounds_def largerBound_def smallerBound_def split: option.splits)+

lemma flatten_first:
  "layered tree \<Longrightarrow> list_all conditional (tl (flatten tree cx))"
proof (induction tree arbitrary: cx)
  case (TierSchedule s a b)
  then have "list_all conditional (flatten a (cx\<lparr>cxSchedule := s, cxNote := notePeak\<rparr>))" by (intro flatten_scheduled) simp_all
  then show ?case using TierSchedule by simp
next
  case (TierLength op bound a b)
  let ?xs = "flatten (TierLength op bound a b) cx"
  have "list_all conditional ?xs" by (simp add: flatten_bounded [OF lengths_bounded(1)] flatten_bounded [OF lengths_bounded(2)])
  moreover have "list_all conditional xs \<Longrightarrow> list_all conditional (tl xs)" for xs :: "'a billingExprBreakdown list" by (cases xs) simp_all
  ultimately show ?case by blast
qed auto

end
