(* ===== verification/Price_Rules.thy ===== *)
theory Price_Rules
  imports Price_Expression "HOL-Library.List_Lexorder"
begin

text \<open>
  From the answer of a price source to price rules (\<^verbatim>\<open>price_expr.go\<close>, \<^verbatim>\<open>price_payload.go\<close>), from rules to the
  models they are for (\<^verbatim>\<open>price_name.go\<close>), and the rules and public prices in the database (\<^verbatim>\<open>price_rules_sync.go\<close>,
  \<^verbatim>\<open>price_public.go\<close>).  Maps are lists in the order in which the code walks over them.
\<close>

subsection \<open>Rules of expressions\<close>

record syncedRule =
  sdModel :: string
  sdName :: string
  sdCurrency :: string
  sdConditions :: string
  sdRates :: string

datatype skipReason =
    NotTiered string | NotCharged | NotParsed priceExprError | ZeroRatio | ZeroRequestPrice | ZeroRates

record PriceSyncSkip =
  skModel :: string
  skReason :: skipReason

datatype priceSyncError =
    NoDataObject | NoUsableModel nat | NoModelRatio | NotAnArray | NoPriceRules | SyncQueryFailed string

definition scheduleBlock :: "billingSchedule \<Rightarrow> json" where
  "scheduleBlock s = JObj
     ((if bsHours s = [] then [] else [(''ranges'', JArr (map (\<lambda>(a, b). JArr [JStr a, JStr b]) (bsHours s)))]) @
      [(''tz'', JStr (bsTimezone s))] @
      (if bsWeekdays s = [] then [] else [(''weekdays'', JArr (map (\<lambda>d. JNum (showNat d)) (bsWeekdays s)))]))"

definition ruleConditions :: "'f billingExprBreakdown \<Rightarrow> (string \<times> json) list" where
  "ruleConditions b =
     (case bkMinInput b of None \<Rightarrow> [] | Some n \<Rightarrow> [(''inputTokensAtLeast'', JNum (showNat (unat n)))]) @
     (case bkMaxInput b of None \<Rightarrow> [] | Some n \<Rightarrow> [(''inputTokensAtMost'', JNum (showNat (unat n)))]) @
     (if bkTimezone b = [] then [] else [(''time'', scheduleBlock (bkSchedule b))])"

text \<open>The keys of the rates in the order of the encoder.\<close>

definition rateOrder :: "string list" where
  "rateOrder = [''audioInputPerMillion'', ''audioOutputPerMillion'', ''cacheWritePerMillion'', ''cachedInputPerMillion'',
     ''inputPerMillion'', ''outputPerMillion'', ''request'']"

definition ruleRates :: "'f floatText \<Rightarrow> 'f rateMap \<Rightarrow> (string \<times> json) list" where
  "ruleRates fl rates =
     List.map_filter (\<lambda>k. map_option (\<lambda>v. (k, JNum (ftText fl v))) (map_of rates k)) rateOrder"

definition billingExprRuleNameFor :: "'f billingExprBreakdown \<Rightarrow> string" where
  "billingExprRuleNameFor b =
     (let suffix = (if bkNote b = [] \<and> (bkTimezone b \<noteq> [] \<or> bkMinInput b \<noteq> None \<or> bkMaxInput b \<noteq> None) then bkTier b else bkNote b)
      in if trimSpace suffix = [] then billingExprRuleName else billingExprRuleName @ bytes [0xEF, 0xBC, 0x88] @ suffix @ bytes [0xEF, 0xBC, 0x89])"

definition billingExprSyncedRule :: "'f floatText \<Rightarrow> (json \<Rightarrow> string) \<Rightarrow> string \<Rightarrow> 'f billingExprBreakdown \<Rightarrow> syncedRule" where
  "billingExprSyncedRule fl enc model b =
     \<lparr>sdModel = model, sdName = billingExprRuleNameFor b, sdCurrency = ''USD'', sdConditions = enc (JObj (ruleConditions b)),
      sdRates = enc (JObj (ruleRates fl (bkRates b)))\<rparr>"

definition billingExprSkipReason :: "priceExprError \<Rightarrow> skipReason" where
  "billingExprSkipReason e = (if e = PricesNothing then NotCharged else NotParsed e)"

definition billingExprTieredMode :: string where "billingExprTieredMode = ''tiered_expr''"

text \<open>One model of the catalogue; \<open>modeOf\<close> is the lookup of gjson in the map of modes.\<close>

definition expressionRules :: "'f floatText \<Rightarrow> (json \<Rightarrow> string) \<Rightarrow> (string \<Rightarrow> string) \<Rightarrow> string \<times> string \<Rightarrow> syncedRule list \<times> PriceSyncSkip list" where
  "expressionRules fl enc modeOf entry0 =
     (let name = trimSpace (fst entry0); mode = trimSpace (modeOf name) in
      if name = [] then ([], [])
      else if mode \<noteq> [] \<and> mode \<noteq> billingExprTieredMode then ([], [\<lparr>skModel = name, skReason = NotTiered mode\<rparr>])
      else case parseBillingExpression fl (snd entry0) of
             Inl e \<Rightarrow> ([], [\<lparr>skModel = name, skReason = billingExprSkipReason e\<rparr>])
           | Inr bs \<Rightarrow> (map (billingExprSyncedRule fl enc name) bs, []))"

definition syncedRulesFromBillingExpressions :: "'f floatText \<Rightarrow> (json \<Rightarrow> string) \<Rightarrow> (string \<Rightarrow> string) \<Rightarrow> (string \<times> string) list \<Rightarrow>
    (priceSyncError + syncedRule list) \<times> PriceSyncSkip list" where
  "syncedRulesFromBillingExpressions fl enc modeOf entries =
     (let parts = map (expressionRules fl enc modeOf) entries; rules = concat (map fst parts); skips = concat (map snd parts) in
      if rules = [] then (Inl (NoUsableModel (length skips)), skips) else (Inr (sort_key sdModel rules), skips))"

subsection \<open>Order of the rules in the database\<close>

definition ruleHasConditions :: "syncedRule \<Rightarrow> bool" where
  "ruleHasConditions rule = (let c = trimSpace (sdConditions rule) in c \<noteq> [] \<and> c \<noteq> ''{}'' \<and> c \<noteq> ''null'')"

definition orderSyncedRules :: "syncedRule list \<Rightarrow> syncedRule list" where
  "orderSyncedRules rules = sort_key ruleHasConditions rules"

text \<open>The row of a rule; the id is the one the database gives.\<close>

definition ruleRow :: "id \<Rightarrow> string \<Rightarrow> syncedRule \<Rightarrow> ModelPriceRule" where
  "ruleRow i model rule =
     \<lparr>mrId = i, mrModel = model, mrName = sdName rule, mrSource = ''sync'', mrPriority = 0, mrCurrency = sdCurrency rule,
      mrConditions = sdConditions rule, mrRates = sdRates rule, mrStatus = 1\<rparr>"

subsection \<open>The rules of an expression bill the tier it means\<close>

definition conditionKeys :: "string list" where
  "conditionKeys = [''endpoint'', ''inputTokensAtLeast'', ''inputTokensAtMost'', ''outputTokensAtLeast'', ''outputTokensAtMost'',
     ''totalTokensAtLeast'', ''totalTokensAtMost'', ''time'']"

text \<open>
  What gjson documents about the objects the encoder writes: a field is found when it is there, with its text, its
  number as an unsigned integer and as a floating-point number.
\<close>

definition readsObject :: "('g, 'f) gjsonOps \<Rightarrow> 'f floatText \<Rightarrow> (json \<Rightarrow> string) \<Rightarrow> (string \<times> json) list \<Rightarrow> bool" where
  "readsObject js fl enc fs \<longleftrightarrow>
     (\<forall>key \<in> set (conditionKeys @ ''imageInputPerMillion'' # rateOrder).
        let g = gGet js (gParse js (enc (JObj fs))) key in
        (case map_of fs key of
           None \<Rightarrow> \<not> gExists js g \<and> gString js g = []
         | Some v \<Rightarrow> gExists js g \<and> gRaw js g = enc v \<and> (\<forall>n. v = JNum (showNat n) \<longrightarrow> n < 2 ^ 64 \<longrightarrow> gUint js g = of_nat n) \<and>
             (\<forall>x. v = JNum (ftText fl x) \<longrightarrow> gIsNumber js g \<and> gFloat js g = x)))"

text \<open>A rule without conditions is recognised by its text.\<close>

definition encodesConditions :: "(json \<Rightarrow> string) \<Rightarrow> (string \<times> json) list \<Rightarrow> bool" where
  "encodesConditions enc fs \<longleftrightarrow> (trimSpace (enc (JObj fs)) \<in> {[], ''{}'', ''null''} \<longleftrightarrow> fs = [])"

definition scheduleHolds :: "('d, 'f, 'g) priceEnv \<Rightarrow> (json \<Rightarrow> string) \<Rightarrow> gotime \<Rightarrow> billingSchedule \<Rightarrow> bool" where
  "scheduleHolds env enc t s =
     (case Parse (peTree env) (peZones env) (enc (scheduleBlock s)) of Inl _ \<Rightarrow> False | Inr w \<Rightarrow> Allows (peZones env) w t)"

definition ratesRecord :: "'f rateMap \<Rightarrow> 'f PriceRates" where
  "ratesRecord rates =
     \<lparr>prInput = map_of rates ''inputPerMillion'', prCachedInput = map_of rates ''cachedInputPerMillion'',
      prCacheWrite = map_of rates ''cacheWritePerMillion'', prOutput = map_of rates ''outputPerMillion'', prImageInput = None,
      prAudioInput = map_of rates ''audioInputPerMillion'', prAudioOutput = map_of rates ''audioOutputPerMillion'',
      prRequest = map_of rates ''request''\<rparr>"

lemma map_of_map_filter:
  "map_of (List.map_filter (\<lambda>k. map_option (\<lambda>v. (k, f v)) (m k)) ks) k = (if k \<in> set ks then map_option f (m k) else None)"
  by (induction ks) (auto simp: map_filter_simps split: option.splits)

lemma map_of_ruleRates:
  "k \<in> set rateOrder \<Longrightarrow> map_of (ruleRates fl rates) k = map_option (\<lambda>v. JNum (ftText fl v)) (map_of rates k)"
  "map_of (ruleRates fl rates) ''imageInputPerMillion'' = None"
  unfolding ruleRates_def map_of_map_filter by (simp_all add: rateOrder_def)

abbreviation fieldOf :: "('g, 'f) gjsonOps \<Rightarrow> (json \<Rightarrow> string) \<Rightarrow> (string \<times> json) list \<Rightarrow> string \<Rightarrow> 'g" where
  "fieldOf js enc fs key \<equiv> gGet js (gParse js (enc (JObj fs))) key"

lemma field_absent:
  assumes "readsObject js fl enc fs" "map_of fs key = None" "key \<in> set (conditionKeys @ ''imageInputPerMillion'' # rateOrder)"
  shows "\<not> gExists js (fieldOf js enc fs key)" "gString js (fieldOf js enc fs key) = []"
  using bspec [OF assms(1) [unfolded readsObject_def] assms(3)] assms(2) by (simp_all add: Let_def)

lemma field_present:
  assumes "readsObject js fl enc fs" "map_of fs key = Some v" "key \<in> set (conditionKeys @ ''imageInputPerMillion'' # rateOrder)"
  shows "gExists js (fieldOf js enc fs key)" "gRaw js (fieldOf js enc fs key) = enc v"
    "v = JNum (showNat n) \<Longrightarrow> n < 2 ^ 64 \<Longrightarrow> gUint js (fieldOf js enc fs key) = of_nat n"
    "v = JNum (ftText fl x) \<Longrightarrow> gIsNumber js (fieldOf js enc fs key)" "v = JNum (ftText fl x) \<Longrightarrow> gFloat js (fieldOf js enc fs key) = x"
  using bspec [OF assms(1) [unfolded readsObject_def] assms(3)] assms(2) by (simp_all add: Let_def)

lemma rates_read:
  assumes "readsObject js fl enc (ruleRates fl rates)"
  shows "rulePriceRates js (enc (JObj (ruleRates fl rates))) = ratesRecord rates"
proof -
  have found: "priceRate js (fieldOf js enc (ruleRates fl rates) k) = map_of rates k" if "k \<in> set rateOrder" for k
  proof (cases "map_of rates k")
    case None
    then show ?thesis using field_absent(1) [OF assms, of k] map_of_ruleRates(1) [OF that, of fl rates] that by (simp add: priceRate_def)
  next
    case (Some v)
    then show ?thesis using field_present [OF assms, of k] map_of_ruleRates(1) [OF that, of fl rates] that by (simp add: priceRate_def)
  qed
  have image: "priceRate js (fieldOf js enc (ruleRates fl rates) ''imageInputPerMillion'') = None"
    using field_absent(1) [OF assms map_of_ruleRates(2)] by (simp add: priceRate_def)
  show ?thesis unfolding rulePriceRates_def ratesRecord_def Let_def image by (simp add: found rateOrder_def)
qed

lemma range_absent:
  assumes "readsObject js fl enc fs" "map_of fs (prefix @ ''AtLeast'') = None" "map_of fs (prefix @ ''AtMost'') = None"
    "prefix @ ''AtLeast'' \<in> set conditionKeys" "prefix @ ''AtMost'' \<in> set conditionKeys"
  shows "matchesTokenRange js (gParse js (enc (JObj fs))) prefix n"
  using field_absent(1) [OF assms(1,2)] field_absent(1) [OF assms(1,3)] assms(4,5) by (simp add: matchesTokenRange_def Let_def)

lemma conditions_lookup:
  "map_of (ruleConditions b) ''inputTokensAtLeast'' = map_option (\<lambda>n. JNum (showNat (unat n))) (bkMinInput b)"
  "map_of (ruleConditions b) ''inputTokensAtMost'' = map_option (\<lambda>n. JNum (showNat (unat n))) (bkMaxInput b)"
  "map_of (ruleConditions b) ''time'' = (if bkTimezone b = [] then None else Some (scheduleBlock (bkSchedule b)))"
  "k \<notin> {''inputTokensAtLeast'', ''inputTokensAtMost'', ''time''} \<Longrightarrow> map_of (ruleConditions b) k = None"
  by (auto simp: ruleConditions_def map_add_def split: option.splits)

lemma input_range_read:
  assumes "readsObject js fl enc (ruleConditions b)"
  shows "matchesTokenRange js (gParse js (enc (JObj (ruleConditions b)))) ''inputTokens'' n \<longleftrightarrow> withinBounds (bkMinInput b) (bkMaxInput b) n"
proof -
  have keys: "''inputTokensAtLeast'' \<in> set (conditionKeys @ ''imageInputPerMillion'' # rateOrder)" "''inputTokensAtMost'' \<in> set (conditionKeys @ ''imageInputPerMillion'' # rateOrder)"
    by (simp_all add: conditionKeys_def)
  have small: "unat w < 2 ^ 64" for w :: u64
  proof -
    have "unat w < 2 ^ LENGTH(64)" by (rule unsigned_less)
    then show ?thesis by simp
  qed
  have lo: "(gExists js (fieldOf js enc (ruleConditions b) ''inputTokensAtLeast'') \<and> n < gUint js (fieldOf js enc (ruleConditions b) ''inputTokensAtLeast''))
      \<longleftrightarrow> (\<exists>l. bkMinInput b = Some l \<and> n < l)"
  proof (cases "bkMinInput b")
    case None
    then show ?thesis using field_absent(1) [OF assms _ keys(1)] by (simp add: conditions_lookup(1))
  next
    case (Some l)
    then have "map_of (ruleConditions b) ''inputTokensAtLeast'' = Some (JNum (showNat (unat l)))" by (simp add: conditions_lookup(1))
    from field_present(1) [OF assms this keys(1)] field_present(3) [OF assms this keys(1) refl small] show ?thesis using Some by simp
  qed
  have hi: "(gExists js (fieldOf js enc (ruleConditions b) ''inputTokensAtMost'') \<and> gUint js (fieldOf js enc (ruleConditions b) ''inputTokensAtMost'') < n)
      \<longleftrightarrow> (\<exists>h. bkMaxInput b = Some h \<and> h < n)"
  proof (cases "bkMaxInput b")
    case None
    then show ?thesis using field_absent(1) [OF assms _ keys(2)] by (simp add: conditions_lookup(2))
  next
    case (Some h)
    then have "map_of (ruleConditions b) ''inputTokensAtMost'' = Some (JNum (showNat (unat h)))" by (simp add: conditions_lookup(2))
    from field_present(1) [OF assms this keys(2)] field_present(3) [OF assms this keys(2) refl small] show ?thesis using Some by simp
  qed
  have "matchesTokenRange js (gParse js (enc (JObj (ruleConditions b)))) ''inputTokens'' n \<longleftrightarrow>
      \<not> (\<exists>l. bkMinInput b = Some l \<and> n < l) \<and> \<not> (\<exists>h. bkMaxInput b = Some h \<and> h < n)"
    unfolding lo [symmetric] hi [symmetric] by (auto simp: matchesTokenRange_def Let_def)
  then show ?thesis by (auto simp: withinBounds_def not_less split: option.splits)
qed

lemma conditions_read:
  assumes "readsObject (peJson env) fl enc (ruleConditions b)"
  shows "RuleMatches env (enc (JObj (ruleConditions b))) endpoint tokens t \<longleftrightarrow>
    tierApplies (scheduleHolds env enc t) (tokenCount (tkInput tokens)) b"
proof -
  let ?js = "peJson env" and ?fs = "ruleConditions b"
  note input = input_range_read [OF assms]
  have endpoint: "gString ?js (fieldOf ?js enc ?fs ''endpoint'') = []"
    by (rule field_absent(2) [OF assms]) (simp_all add: conditions_lookup(4) conditionKeys_def)
  have others: "matchesTokenRange ?js (gParse ?js (enc (JObj ?fs))) ''outputTokens'' n" "matchesTokenRange ?js (gParse ?js (enc (JObj ?fs))) ''totalTokens'' n" for n
    by (rule range_absent [OF assms]; simp add: conditions_lookup(4) conditionKeys_def)+
  have time_key: "''time'' \<in> set (conditionKeys @ ''imageInputPerMillion'' # rateOrder)" by (simp add: conditionKeys_def)
  have time: "matchesTimeCondition env (gParse ?js (enc (JObj ?fs))) t \<longleftrightarrow> scheduleAllows (scheduleHolds env enc t) (bkSchedule b)"
  proof (cases "bkTimezone b = []")
    case True
    then have "map_of ?fs ''time'' = None" by (simp add: conditions_lookup(3))
    from field_absent(1) [OF assms this time_key] show ?thesis using True
      by (simp add: matchesTimeCondition_def Let_def scheduleAllows_def bkSchedule_def)
  next
    case False
    then have "map_of ?fs ''time'' = Some (scheduleBlock (bkSchedule b))" by (simp add: conditions_lookup(3))
    from field_present(1,2) [OF assms this time_key] show ?thesis using False
      by (simp add: matchesTimeCondition_def Let_def scheduleAllows_def bkSchedule_def scheduleHolds_def)
  qed
  show ?thesis using endpoint others time input by (simp add: RuleMatches_def Let_def tierApplies_def)
qed

text \<open>The rows of the rules, numbered from \<open>i\<close> in the order of their insertion.\<close>

definition numberedRows :: "id \<Rightarrow> string \<Rightarrow> syncedRule list \<Rightarrow> ModelPriceRule list" where
  "numberedRows i model rules = map2 (\<lambda>k rule. ruleRow k model rule) [i..<i + length rules] rules"

lemma numberedRows_simps [simp]: "length (numberedRows i model rules) = length rules" "map mrId (numberedRows i model rules) = [i..<i + length rules]"
  by (simp_all add: numberedRows_def map_fst_zip ruleRow_def cong: map_cong) (simp add: comp_def case_prod_beta ruleRow_def flip: map_map)

lemma numberedRows_nth: "k < length rules \<Longrightarrow> numberedRows i model rules ! k = ruleRow (i + k) model (rules ! k)"
  by (simp add: numberedRows_def)

lemma newest_first: "sort_key ruleKey (numberedRows i model rules) = rev (numberedRows i model rules)"
proof -
  let ?rows = "numberedRows i model rules"
  have "ruleKey (rev ?rows ! a) \<le> ruleKey (rev ?rows ! b)" if "a \<le> b" "b < length ?rows" for a b
  proof -
    have "rev ?rows ! a = ?rows ! (length rules - Suc a)" "rev ?rows ! b = ?rows ! (length rules - Suc b)" using that by (simp_all add: rev_nth)
    then show ?thesis using that by (simp add: numberedRows_nth ruleKey_def ruleRow_def)
  qed
  then have "sorted (map ruleKey (rev ?rows))" by (simp add: sorted_iff_nth_mono)
  then show ?thesis by (intro sort_rules_unique [symmetric]) simp_all
qed

definition rowOf :: "'f floatText \<Rightarrow> (json \<Rightarrow> string) \<Rightarrow> ModelPriceRule \<Rightarrow> 'f billingExprBreakdown \<Rightarrow> bool" where
  "rowOf fl enc r b \<longleftrightarrow> mrConditions r = enc (JObj (ruleConditions b)) \<and> mrRates r = enc (JObj (ruleRates fl (bkRates b))) \<and> mrCurrency r = ''USD''"

lemma rows_of_rules:
  "list_all2 (rowOf fl enc) (numberedRows i model (map (billingExprSyncedRule fl enc m) bs)) bs"
  by (rule list_all2_all_nthI) (simp_all add: numberedRows_nth rowOf_def ruleRow_def billingExprSyncedRule_def)

text \<open>The law of the reader for every rule of an expression.\<close>

definition readsRules :: "('g, 'f) gjsonOps \<Rightarrow> 'f floatText \<Rightarrow> (json \<Rightarrow> string) \<Rightarrow> 'f billingExprBreakdown list \<Rightarrow> bool" where
  "readsRules js fl enc bs \<longleftrightarrow>
     (\<forall>b \<in> set bs. readsObject js fl enc (ruleConditions b) \<and> readsObject js fl enc (ruleRates fl (bkRates b)) \<and> encodesConditions enc (ruleConditions b))"

lemma rule_breakdown:
  assumes "readsObject (peJson env) fl enc (ruleConditions b)" "readsObject (peJson env) fl enc (ruleRates fl (bkRates b))" "rowOf fl enc r b"
  shows "RuleBreakdown env failure (mrConditions r) (mrRates r) endpoint tokens t =
    (if tierApplies (scheduleHolds env enc t) (tokenCount (tkInput tokens)) b then estimateFor env failure tokens (ratesRecord (bkRates b)) else None)"
  using assms(3) conditions_read [OF assms(1)] rates_read [OF assms(2)] by (simp add: RuleBreakdown_def rowOf_def estimateFor_def)

lemma first_applicable:
  assumes "list_all2 (rowOf fl enc) rows bs" "readsRules (peJson env) fl enc bs"
    "find (tierApplies (scheduleHolds env enc t) (tokenCount (tkInput tokens))) bs = Some b"
    "estimateFor env failure tokens (ratesRecord (bkRates b)) = Some bill"
  shows "\<exists>r. firstRule env failure storedCurrency endpoint tokens t rows =
    Some (bill\<lparr>bbMode := ''rules'', bbCurrency := storedCurrency ''USD'', bbRule := Some (ruleSnapshot r)\<rparr>)"
  using assms(1-3)
proof (induction rule: list_all2_induct)
  case Nil
  then show ?case by simp
next
  case (Cons r rows c bs)
  have step: "RuleBreakdown env failure (mrConditions r) (mrRates r) endpoint tokens t =
    (if tierApplies (scheduleHolds env enc t) (tokenCount (tkInput tokens)) c then estimateFor env failure tokens (ratesRecord (bkRates c)) else None)"
    by (rule rule_breakdown) (use Cons in \<open>simp_all add: readsRules_def\<close>)
  have usd: "mrCurrency r = ''USD''" using Cons(1) by (simp add: rowOf_def)
  show ?case
  proof (cases "tierApplies (scheduleHolds env enc t) (tokenCount (tkInput tokens)) c")
    case True
    then have "c = b" using Cons.prems(2) by simp
    then show ?thesis using step True assms(4) usd by auto
  next
    case False
    then show ?thesis using step Cons by (simp add: readsRules_def)
  qed
qed

lemma conditions_empty: "ruleConditions b = [] \<longleftrightarrow> \<not> conditional b"
  by (auto simp: ruleConditions_def conditional_def split: option.splits)

lemma rules_in_order:
  assumes "layered tree" "readsRules js fl enc (flatten tree cx)"
  shows "orderSyncedRules (map (billingExprSyncedRule fl enc model) (flatten tree cx)) = map (billingExprSyncedRule fl enc model) (flatten tree cx)"
proof -
  let ?rules = "map (billingExprSyncedRule fl enc model) (flatten tree cx)"
  have has: "ruleHasConditions (billingExprSyncedRule fl enc model b) = conditional b" if "b \<in> set (flatten tree cx)" for b
    using assms(2) that conditions_empty [of b] by (auto simp: readsRules_def encodesConditions_def ruleHasConditions_def billingExprSyncedRule_def Let_def)
  obtain x xs where xs: "flatten tree cx = x # xs" by (cases "flatten tree cx") auto
  have "\<forall>b \<in> set xs. conditional b" using flatten_first [OF assms(1), of cx] xs by (simp add: list_all_iff)
  then have "map ruleHasConditions ?rules = conditional x # replicate (length xs) True"
    using has xs by (simp add: comp_def map_replicate_const [symmetric])
  moreover have "sorted (conditional x # replicate (length xs) True)" by (simp add: sorted_replicate)
  ultimately have "sorted (map ruleHasConditions ?rules)" by simp
  then show ?thesis unfolding orderSyncedRules_def by (rule sort_key_id_if_sorted)
qed


subsection \<open>An example\<close>

definition ratFloats :: "rat floatText" where
  "ratFloats = \<lparr>ftZero = 0, ftAdd = (+), ftIsZero = (\<lambda>a. a = 0), ftParse = (\<lambda>s. map_option of_nat (parseNat s)), ftText = ratText\<rparr>"

definition tierExpression :: string where
  "tierExpression = ''len<=64?tier('' @ [dquote] @ ''s'' @ [dquote] @ '',p*2):tier('' @ [dquote] @ ''l'' @ [dquote] @ '',p*3)''"

definition exampleTier :: "string \<Rightarrow> rat \<Rightarrow> rat billingExprBreakdown" where
  "exampleTier tier v = emptyBreakdown\<lparr>bkTier := tier, bkRates := [(''inputPerMillion'', v)]\<rparr>"

definition exampleTree :: "rat tierTree" where
  "exampleTree = TierLength LenLe 64 (TierLeaf (exampleTier ''s'' 2)) (TierLeaf (exampleTier ''l'' 3))"

definition printExample :: "json \<Rightarrow> string" where
  "printExample j =
     (case j of JObj fs \<Rightarrow> ''{'' @ concat (map (\<lambda>(k, v). k @ '':'' @ (case v of JNum t \<Rightarrow> t | _ \<Rightarrow> []) @ '';'') fs) @ ''}'' | _ \<Rightarrow> [])"

lemma plainTrim: "trimSpace ''len<=64'' = ''len<=64''" "trimSpace tierExpression = tierExpression"
  by (simp_all add: plain_eval tierExpression_def)

lemma leafExample:
  "trimSpace (''tier('' @ [dquote] @ [c] @ [dquote] @ '',p*'' @ [d] @ '')'') = ''tier('' @ [dquote] @ [c] @ [dquote] @ '',p*'' @ [d] @ '')''"
  by (simp add: plain_eval)

definition leafText :: "char \<Rightarrow> char \<Rightarrow> string" where
  "leafText c d = ''tier('' @ [dquote] @ [c] @ [dquote] @ '',p*'' @ [d] @ '')''"

lemma leafText_trim: "trimSpace (leafText c d) = leafText c d"
  unfolding leafText_def by (rule leafExample)

lemma exampleTerm: "trimSpace (''p*'' @ [d]) = ''p*'' @ [d]" if "plainChar d"
  using that by (simp add: plain_eval)

lemma exampleLeaf:
  "parseBillingLeaf ratFloats (leafText (CHR ''s'') (CHR ''2'')) = Inr (exampleTier ''s'' 2)"
  "parseBillingLeaf ratFloats (leafText (CHR ''l'') (CHR ''3'')) = Inr (exampleTier ''l'' 3)"
proof -
  have none: "rxFind billingExprImageCountSuffix None (leafText (CHR ''s'') (CHR ''2'')) = None" "rxFind billingExprImageCountSuffix None (leafText (CHR ''l'') (CHR ''3'')) = None"
    by code_simp+
  have m: "map_option (\<lambda>m. (groupText m 1, groupText m 2)) (rxSubmatch billingExprLeafPattern (leafText (CHR ''s'') (CHR ''2''))) = Some (''s'', ''p*2'')"
    "map_option (\<lambda>m. (groupText m 1, groupText m 2)) (rxSubmatch billingExprLeafPattern (leafText (CHR ''l'') (CHR ''3''))) = Some (''l'', ''p*3'')"
    by code_simp+
  have t: "trimSpace ''p*2'' = ''p*2''" "trimSpace ''p*3'' = ''p*3''" by (simp_all add: plain_eval)
  have split0: "splitOn (CHR ''+'') ''p*2'' = [''p*2'']" "splitOn (CHR ''+'') ''p*3'' = [''p*3'']" by code_simp+
  have terms: "billingTerm ''p*2'' = Some (''p'', ''2'')" "billingTerm ''p*3'' = Some (''p'', ''3'')" by code_simp+
  have num: "parseNat ''2'' = Some 2" "parseNat ''3'' = Some 3" by code_simp+
  have known: "isBillingExprKnownVariable ''p''" "billingExprRateKeys ''p'' = Some ''inputPerMillion''" by code_simp+
  have rates: "parseBillingLinearRates ratFloats ''p*2'' = Inr [(''inputPerMillion'', 2)]" "parseBillingLinearRates ratFloats ''p*3'' = Inr [(''inputPerMillion'', 3)]"
    by (simp_all add: parseBillingLinearRates_def t split0 terms num known ratFloats_def addTo_def billingExprRatesFromTerms_def Let_def
        coefficientOf_def billingExprCacheWriteFallbacks_def)
  show "parseBillingLeaf ratFloats (leafText (CHR ''s'') (CHR ''2'')) = Inr (exampleTier ''s'' 2)"
    "parseBillingLeaf ratFloats (leafText (CHR ''l'') (CHR ''3'')) = Inr (exampleTier ''l'' 3)"
    using m by (auto simp: parseBillingLeaf_def leafText_trim rxReplace_none [OF none(1)] rxReplace_none [OF none(2)] rates exampleTier_def)
qed

lemma exampleTree: "tiersOf ratFloats tierExpression = Inr exampleTree"
proof -
  have bare: "bareExpression tierExpression = tierExpression" "bareExpression (leafText (CHR ''s'') (CHR ''2'')) = leafText (CHR ''s'') (CHR ''2'')"
      "bareExpression (leafText (CHR ''l'') (CHR ''3'')) = leafText (CHR ''l'') (CHR ''3'')"
    unfolding bareExpression_def plainTrim leafText_trim by (simp_all add: unwrapBillingParens.simps tierExpression_def leafText_def)
  have "map_option (\<lambda>(q, i). (q, i, take q tierExpression, drop (q + 1) (take i tierExpression), drop (i + 1) tierExpression)) (ternaryMarks tierExpression 0 0 None False)
      = Some (7, 21, ''len<=64'', leafText (CHR ''s'') (CHR ''2''), leafText (CHR ''l'') (CHR ''3''))"
    by code_simp
  then have split0: "splitBillingTernary tierExpression = Some (''len<=64'', leafText (CHR ''s'') (CHR ''2''), leafText (CHR ''l'') (CHR ''3''))"
    by (auto simp: splitBillingTernary_def plainTrim leafText_trim)
  have leaves: "splitBillingTernary (leafText (CHR ''s'') (CHR ''2'')) = None" "splitBillingTernary (leafText (CHR ''l'') (CHR ''3'')) = None"
  proof -
    have "ternaryMarks (leafText (CHR ''s'') (CHR ''2'')) 0 0 None False = None" "ternaryMarks (leafText (CHR ''l'') (CHR ''3'')) 0 0 None False = None"
      by code_simp+
    then show "splitBillingTernary (leafText (CHR ''s'') (CHR ''2'')) = None" "splitBillingTernary (leafText (CHR ''l'') (CHR ''3'')) = None"
      by (simp_all add: splitBillingTernary_def)
  qed
  have kind: "classifyBillingCondition ''len<=64'' = ConditionLength"
  proof -
    have "\<not> containsSub ''len<=64'' ''weekday(''" "\<not> containsSub ''len<=64'' ''hour(''" "hasPrefix ''len<=64'' ''len''" by code_simp+
    then show ?thesis by (simp add: classifyBillingCondition_def plainTrim)
  qed
  have "map_option (\<lambda>m. (groupText m 1, groupText m 2)) (rxSubmatch billingExprLengthCondition ''len<=64'') = Some (''<='', ''64'')" "parseNat ''64'' = Some 64"
    by code_simp+
  then have comparison: "lengthComparison ''len<=64'' = Inr (LenLe, 64)"
    by (auto simp: lengthComparison_def plainTrim parseUint_def lengthOpOf_def)
  show ?thesis
    by (simp add: tiersOf.simps [of ratFloats tierExpression] tiersOf.simps [of ratFloats "leafText c d" for c d] bare split0 leaves kind comparison exampleLeaf
        exampleTree_def)
qed

definition exampleRules :: "rat billingExprBreakdown list" where
  "exampleRules = flatten exampleTree emptyContext"

definition exampleDocs :: "json list" where
  "exampleDocs = map (\<lambda>b. JObj (ruleConditions b)) exampleRules @ map (\<lambda>b. JObj (ruleRates ratFloats (bkRates b))) exampleRules"

definition docReader :: "json list \<Rightarrow> (json option, rat) gjsonOps" where
  "docReader docs = \<lparr>gParse = \<lambda>s. find (\<lambda>j. printExample j = s) docs,
     gGet = \<lambda>g k. (case g of Some (JObj kvs) \<Rightarrow> map_of kvs k | _ \<Rightarrow> None), gExists = \<lambda>g. g \<noteq> None,
     gString = \<lambda>g. (case g of Some (JStr s) \<Rightarrow> s | _ \<Rightarrow> []), gUint = \<lambda>g. (case g of Some (JNum t) \<Rightarrow> of_nat (the (parseNat t)) | _ \<Rightarrow> 0),
     gRaw = \<lambda>g. (case g of Some j \<Rightarrow> printExample j | None \<Rightarrow> []), gIsNumber = \<lambda>g. (case g of Some (JNum _) \<Rightarrow> True | _ \<Rightarrow> False),
     gFloat = \<lambda>g. (case g of Some (JNum t) \<Rightarrow> the (ratParse t) | _ \<Rightarrow> 0)\<rparr>"

lemma docReader_reads:
  assumes "gParse (docReader docs) (printExample (JObj fs)) = Some (JObj fs)"
  shows "readsObject (docReader docs) ratFloats printExample fs"
  unfolding readsObject_def Let_def assms
  by (auto simp: docReader_def ratFloats_def ratParse_ratText split: option.split)

lemma exampleDocs:
  "map (\<lambda>b. (bkTier b, map (\<lambda>(k, v). k) (ruleConditions b))) exampleRules = [(''s'', [''inputTokensAtMost'']), (''l'', [''inputTokensAtLeast''])]"
  "distinct (map printExample exampleDocs)"
  by code_simp+

lemma exampleReads: "readsRules (docReader exampleDocs) ratFloats printExample exampleRules"
proof -
  have found: "find (\<lambda>j. printExample j = printExample d) docs = Some d" if "distinct (map printExample docs)" "d \<in> set docs" for d docs
    using that by (induction docs) (auto simp: image_iff)
  have parse: "gParse (docReader exampleDocs) (printExample d) = Some d" if "d \<in> set exampleDocs" for d
    using found [OF exampleDocs(2) that] by (simp add: docReader_def)
  have braces: "\<exists>body. printExample (JObj fs) = CHR ''{'' # body @ [CHR ''}''] \<and> (body = [] \<longleftrightarrow> fs = [])" for fs
    by (cases fs) (auto simp: printExample_def)
  have encodes: "encodesConditions printExample fs" for fs
  proof -
    obtain body where body: "printExample (JObj fs) = CHR ''{'' # body @ [CHR ''}'']" "body = [] \<longleftrightarrow> fs = []" using braces by blast
    have "trimSpace (CHR ''{'' # body @ [CHR ''}'']) = CHR ''{'' # body @ [CHR ''}'']" by (rule trimSpace_plain) (simp_all add: plainChar_def)
    then show ?thesis using body by (simp add: encodesConditions_def)
  qed
  have "JObj (ruleConditions b) \<in> set exampleDocs" "JObj (ruleRates ratFloats (bkRates b)) \<in> set exampleDocs" if "b \<in> set exampleRules" for b
    using that by (simp_all add: exampleDocs_def)
  then show ?thesis unfolding readsRules_def using encodes docReader_reads parse by blast
qed

definition exampleRows :: "ModelPriceRule list" where
  "exampleRows = numberedRows 7 ''m'' (orderSyncedRules (map (billingExprSyncedRule ratFloats printExample ''m'') exampleRules))"

definition exampleSyncEnv :: "(rat, rat, json option) priceEnv" where
  "exampleSyncEnv = \<lparr>peDecimal = ratOps, peJson = docReader exampleDocs, peTree = \<lambda>_. None, peZones = \<lambda>_. None\<rparr>"

definition longRates :: "rat PriceRates" where
  "longRates = ratesRecord [(''inputPerMillion'', 3)]"

definition longBill :: BillingBreakdown where
  "longBill = settleBill ratOps (runBill ratOps exampleTokens longRates False)"

lemma longBill: "EstimateBreakdown ratOps exampleTokens longRates = Some longBill"
  by (simp add: EstimateBreakdown_def estimateBreakdown_def longBill_def runBill_def chargeRequest_def chargeOutputs_def chargeInputs_def chargeRest_def chargeTokens_def
      exampleTokens_def longRates_def ratesRecord_def addTokenItem_def Let_def tokenCount_def boundedTokenCount_def preferredPrice_def)


end
