(* ===== verification/Price_Plan.thy ===== *)
theory Price_Plan
  imports Price_Rules
begin

text \<open>
  Which local models a price entry is for (\<^verbatim>\<open>price_name.go\<close>, \<^verbatim>\<open>buildPublicRulePlan\<close>), and the transaction that
  writes the rules and merges the public prices (\<^verbatim>\<open>price_rules_sync.go\<close>, \<^verbatim>\<open>price_public.go\<close>).  An update of a row
  reports the row as affected whether or not its values change.
\<close>

subsection \<open>Names\<close>

record chanModel =
  cmId :: id
  cmPublic :: string
  cmUpstream :: string

definition ruleMatchVariant :: nat where "ruleMatchVariant = 1"
definition ruleMatchSuffix :: nat where "ruleMatchSuffix = 2"
definition ruleMatchFold :: nat where "ruleMatchFold = 3"
definition ruleMatchExact :: nat where "ruleMatchExact = 4"

text \<open>\<^verbatim>\<open>m[key] = append(m[key], x)\<close>, and the value of a missing key.\<close>

definition valuesAt :: "('k \<times> 'v list) list \<Rightarrow> 'k \<Rightarrow> 'v list" where
  "valuesAt m key = (case map_of m key of None \<Rightarrow> [] | Some vs \<Rightarrow> vs)"

definition appendAt :: "'k \<Rightarrow> 'v \<Rightarrow> ('k \<times> 'v list) list \<Rightarrow> ('k \<times> 'v list) list" where
  "appendAt key x m = AList.update key (valuesAt m key @ [x]) m"

fun cutBefore :: "string \<Rightarrow> string \<Rightarrow> string" where
  "cutBefore sub [] = []"
| "cutBefore sub (c # cs) = (if hasPrefix (c # cs) sub then [] else c # cutBefore sub cs)"

definition afterLastSlash :: "string \<Rightarrow> string" where
  "afterLastSlash s = rev (takeWhile (\<lambda>c. c \<noteq> CHR ''/'') (rev s))"

definition isVariantModelName :: "string \<Rightarrow> bool" where
  "isVariantModelName name \<longleftrightarrow> containsSub (toLower name) '':peft:'' \<or> containsSub (toLower name) '':sampling-''"

lemma cutBefore_shorter: "cutBefore sub s \<noteq> s \<Longrightarrow> length (cutBefore sub s) < length s"
  by (induction s) auto

lemma cutBefore_length: "length (cutBefore sub s) \<le> length s"
  using cutBefore_shorter [of sub s] by (cases "cutBefore sub s = s") auto

function stripVariants :: "string \<Rightarrow> string" where
  "stripVariants name =
     (let stripped = cutBefore '':sampling-'' (cutBefore '':peft:'' name) in if stripped = name then name else stripVariants stripped)"
  by pat_completeness auto
termination
proof (relation "measure length")
  fix name stripped :: string
  assume s: "stripped = cutBefore '':sampling-'' (cutBefore '':peft:'' name)" "stripped \<noteq> name"
  show "(stripped, name) \<in> measure length"
  proof (cases "cutBefore '':peft:'' name = name")
    case True
    then show ?thesis using s cutBefore_shorter [of "'':sampling-''" name] by simp
  next
    case False
    then show ?thesis using s cutBefore_shorter [of "'':peft:''" name] cutBefore_length [of "'':sampling-''" "cutBefore '':peft:'' name"] by simp
  qed
qed simp

declare stripVariants.simps [simp del]

definition normalizeModelName :: "string \<Rightarrow> string" where
  "normalizeModelName name = trimSpace (afterLastSlash (stripVariants (toLower (trimSpace name))))"

record nameLookup =
  nlByName :: "(string \<times> chanModel list) list"
  nlByFold :: "(string \<times> string list) list"
  nlByNormalized :: "(string \<times> string list) list"

definition newNameLookup :: "(string \<times> chanModel list) list \<Rightarrow> nameLookup" where
  "newNameLookup byName =
     \<lparr>nlByName = byName,
      nlByFold = foldl (\<lambda>m (key, _). appendAt (toLower key) key m) [] byName,
      nlByNormalized = foldl (\<lambda>m (key, _). if normalizeModelName key = [] then m else appendAt (normalizeModelName key) key m) [] byName\<rparr>"

type_synonym ruleModelMatch = "chanModel \<times> nat"

definition ruleModelMatches :: "chanModel list \<Rightarrow> nat \<Rightarrow> ruleModelMatch list" where
  "ruleModelMatches models rank = map (\<lambda>m. (m, rank)) models"

definition matchFolded :: "nameLookup \<Rightarrow> string \<Rightarrow> nat \<Rightarrow> ruleModelMatch list" where
  "matchFolded l name rank = concat (map (\<lambda>key. ruleModelMatches (valuesAt (nlByName l) key) rank) (valuesAt (nlByFold l) (toLower name)))"

definition matchNormalized :: "nameLookup \<Rightarrow> string \<Rightarrow> ruleModelMatch list" where
  "matchNormalized l normalized =
     (if normalized = [] then []
      else concat (map (\<lambda>key. ruleModelMatches (valuesAt (nlByName l) key) ruleMatchVariant) (valuesAt (nlByNormalized l) normalized)))"

text \<open>The name after the last slash, when there is one; \<open>None\<close> when it gives no match.\<close>

definition matchSuffix :: "nameLookup \<Rightarrow> string \<Rightarrow> ruleModelMatch list option" where
  "matchSuffix l name =
     (let suffix = trimSpace (afterLastSlash name) in
      if CHR ''/'' \<notin> set name \<or> suffix = [] then None
      else case map_of (nlByName l) suffix of
             Some models \<Rightarrow> Some (ruleModelMatches models ruleMatchSuffix)
           | None \<Rightarrow> let ms = matchFolded l suffix ruleMatchSuffix in if ms = [] then None else Some ms)"

definition matchName :: "nameLookup \<Rightarrow> string \<Rightarrow> ruleModelMatch list" where
  "matchName l ruleModel =
     (let name = trimSpace ruleModel in
      if name = [] then []
      else case map_of (nlByName l) name of
             Some models \<Rightarrow> ruleModelMatches models ruleMatchExact
           | None \<Rightarrow>
               (let folded = matchFolded l name ruleMatchFold in
                if folded \<noteq> [] then folded
                else case matchSuffix l name of
                       Some ms \<Rightarrow> ms
                     | None \<Rightarrow> if \<not> isVariantModelName name then [] else matchNormalized l (normalizeModelName name)))"

subsection \<open>The plan\<close>

record ruleBucket =
  rbRanks :: "(string \<times> nat) list"
  rbRules :: "(string \<times> syncedRule list) list"
  rbCanonical :: "(string \<times> id) list"
  rbExcluded :: "string list"

definition newRuleBucket :: ruleBucket where
  "newRuleBucket = \<lparr>rbRanks = [], rbRules = [], rbCanonical = [], rbExcluded = []\<rparr>"

definition bucketAdd :: "chanModel \<Rightarrow> syncedRule \<Rightarrow> nat \<Rightarrow> ruleBucket \<Rightarrow> ruleBucket" where
  "bucketAdd model rule rank b =
     (let name = cmPublic model in
      if name \<in> set (rbExcluded b) then b
      else let b1 = (case map_of (rbRanks b) name of
                 None \<Rightarrow> b\<lparr>rbRanks := AList.update name rank (rbRanks b), rbRules := AList.update name [rule] (rbRules b)\<rparr>
               | Some current \<Rightarrow>
                   if rank > current then b\<lparr>rbRanks := AList.update name rank (rbRanks b), rbRules := AList.update name [rule] (rbRules b)\<rparr>
                   else if rank = current then b\<lparr>rbRules := appendAt name rule (rbRules b)\<rparr>
                   else b);
               canonical = (case map_of (rbCanonical b1) name of None \<Rightarrow> 0 | Some i \<Rightarrow> i)
           in if canonical = 0 \<or> cmId model < canonical then b1\<lparr>rbCanonical := AList.update name (cmId model) (rbCanonical b1)\<rparr> else b1)"

definition matchPublicModels :: "nameLookup \<Rightarrow> string \<Rightarrow> ruleModelMatch list" where
  "matchPublicModels l ruleModel = dedupOn (\<lambda>(m, _). cmPublic m) (matchName l ruleModel)"

definition fillBucket :: "nameLookup \<Rightarrow> syncedRule list \<Rightarrow> ruleBucket \<Rightarrow> ruleBucket" where
  "fillBucket l rules b =
     foldl (\<lambda>b rule. foldl (\<lambda>b (m, rank). bucketAdd m rule rank b) b (matchPublicModels l (sdModel rule))) b rules"

definition buildPublicRulePlan :: "(string \<times> chanModel list) list \<Rightarrow> (string \<times> chanModel list) list \<Rightarrow> syncedRule list \<Rightarrow>
    (string \<times> syncedRule list) list \<times> (string \<times> id) list" where
  "buildPublicRulePlan byPublic byUpstream rules =
     (let direct = fillBucket (newNameLookup byPublic) rules newRuleBucket;
          alias = fillBucket (newNameLookup byUpstream) rules (newRuleBucket\<lparr>rbExcluded := map fst (rbRules direct)\<rparr>)
      in (rbRules direct @ rbRules alias, rbCanonical direct @ rbCanonical alias))"

definition indexModels :: "(chanModel \<Rightarrow> string) \<Rightarrow> chanModel list \<Rightarrow> (string \<times> chanModel list) list" where
  "indexModels name models = foldl (\<lambda>m model. appendAt (name model) model m) [] models"

subsection \<open>Prices of rules\<close>

record ('g, 'f) priceReader =
  rdJson :: "('g, 'f) gjsonOps"
  rdIsObject :: "'g \<Rightarrow> bool"
  rdIsZero :: "'f \<Rightarrow> bool"

definition priceRateFields :: "string list" where
  "priceRateFields = [''inputPerMillion'', ''cachedInputPerMillion'', ''cacheWritePerMillion'', ''outputPerMillion'',
     ''imageInputPerMillion'', ''audioInputPerMillion'', ''audioOutputPerMillion'', ''request'']"

definition rulePricesNothing :: "('g, 'f) priceReader \<Rightarrow> syncedRule \<Rightarrow> bool" where
  "rulePricesNothing rd rule =
     (let js = rdJson rd; rates = gParse js (sdRates rule) in
      if \<not> rdIsObject rd rates then True
      else \<not> list_ex (\<lambda>field. let v = gGet js rates field in gExists js v \<and> gIsNumber js v \<and> \<not> rdIsZero rd (gFloat js v)) priceRateFields)"

definition splitZeroPricedRules :: "('g, 'f) priceReader \<Rightarrow> syncedRule list \<Rightarrow> syncedRule list \<times> PriceSyncSkip list" where
  "splitZeroPricedRules rd rules =
     (filter (\<lambda>r. \<not> rulePricesNothing rd r) rules, map (\<lambda>r. \<lparr>skModel = sdModel r, skReason = ZeroRates\<rparr>) (filter (rulePricesNothing rd) rules))"

definition staleSyncedPriceModels :: "(string \<times> chanModel list) list \<Rightarrow> (string \<times> chanModel list) list \<Rightarrow> (string \<times> syncedRule list) list \<Rightarrow>
    PriceSyncSkip list \<Rightarrow> string list" where
  "staleSyncedPriceModels byPublic byUpstream planned skips =
     (let matches = concat (map (\<lambda>skip. matchName (newNameLookup byPublic) (skModel skip) @ matchName (newNameLookup byUpstream) (skModel skip)) skips)
      in sort (remdups (filter (\<lambda>name. map_of planned name = None) (map (\<lambda>(m, _). cmPublic m) matches))))"

definition jsonPriceValue :: "('g, 'f) gjsonOps \<Rightarrow> 'g \<Rightarrow> 'f option" where
  "jsonPriceValue js v = (if gExists js v then Some (gFloat js v) else None)"

definition hasAny :: "'f PriceRates \<Rightarrow> bool" where
  "hasAny r \<longleftrightarrow> prInput r \<noteq> None \<or> prCachedInput r \<noteq> None \<or> prCacheWrite r \<noteq> None \<or> prOutput r \<noteq> None \<or> prImageInput r \<noteq> None \<or>
     prAudioInput r \<noteq> None \<or> prAudioOutput r \<noteq> None \<or> prRequest r \<noteq> None"

definition modelPriceValuesFromRule :: "('g, 'f) priceReader \<Rightarrow> syncedRule \<Rightarrow> 'f PriceRates option" where
  "modelPriceValuesFromRule rd rule =
     (if ruleHasConditions rule then None
      else let js = rdJson rd; rates = gParse js (sdRates rule); price = (\<lambda>k. jsonPriceValue js (gGet js rates k));
               values = \<lparr>prInput = price ''inputPerMillion'', prCachedInput = price ''cachedInputPerMillion'',
                 prCacheWrite = price ''cacheWritePerMillion'', prOutput = price ''outputPerMillion'', prImageInput = price ''imageInputPerMillion'',
                 prAudioInput = price ''audioInputPerMillion'', prAudioOutput = price ''audioOutputPerMillion'', prRequest = price ''request''\<rparr>
           in if hasAny values then Some values else None)"

subsection \<open>Public prices\<close>

definition keepUnset :: "('f \<Rightarrow> bool) \<Rightarrow> 'f option \<Rightarrow> 'f option \<Rightarrow> 'f option" where
  "keepUnset isZero synced current =
     (case current of
        None \<Rightarrow> synced
      | Some c \<Rightarrow> (case synced of None \<Rightarrow> None | Some v \<Rightarrow> if \<not> isZero v \<and> isZero c then Some v else None))"

text \<open>A function on pairs of the fields of two price rows.\<close>

definition zipPrices :: "('f option \<Rightarrow> 'f option \<Rightarrow> 'f option) \<Rightarrow> 'f PriceRates \<Rightarrow> 'f PriceRates \<Rightarrow> 'f PriceRates" where
  "zipPrices h a b =
     \<lparr>prInput = h (prInput a) (prInput b), prCachedInput = h (prCachedInput a) (prCachedInput b), prCacheWrite = h (prCacheWrite a) (prCacheWrite b),
      prOutput = h (prOutput a) (prOutput b), prImageInput = h (prImageInput a) (prImageInput b), prAudioInput = h (prAudioInput a) (prAudioInput b),
      prAudioOutput = h (prAudioOutput a) (prAudioOutput b), prRequest = h (prRequest a) (prRequest b)\<rparr>"

definition missingPublicPriceValues :: "('f \<Rightarrow> bool) \<Rightarrow> 'f PriceRates \<Rightarrow> 'f PriceRates \<Rightarrow> 'f PriceRates" where
  "missingPublicPriceValues isZero values current = zipPrices (keepUnset isZero) values current"

record storedRule = ModelPriceRule +
  stRef :: string
  stChannelModel :: id

record 'f priceDb =
  pdModels :: "chanModel list"
  pdPrices :: "'f publicModelPrice list"
  pdRules :: "storedRule list"
  pdNext :: id

definition currentPrices :: "'f priceDb \<Rightarrow> string \<Rightarrow> 'f PriceRates" where
  "currentPrices db name = (case find (\<lambda>p. mpName p = name) (pdPrices db) of None \<Rightarrow> noRates | Some p \<Rightarrow> mpRates p)"

text \<open>The fields that are given replace those of the row; with \<open>replaceToken\<close> or \<open>replaceRequest\<close> also those that are not given.\<close>

definition writtenPrices :: "bool \<Rightarrow> bool \<Rightarrow> 'f PriceRates \<Rightarrow> 'f PriceRates \<Rightarrow> 'f PriceRates" where
  "writtenPrices replaceToken replaceRequest values old =
     (zipPrices (\<lambda>v w. if replaceToken \<or> v \<noteq> None then v else w) values old)
       \<lparr>prRequest := if replaceRequest \<or> prRequest values \<noteq> None then prRequest values else prRequest old\<rparr>"

definition savePublicPrice :: "(string \<Rightarrow> bool) \<Rightarrow> string \<Rightarrow> 'f PriceRates \<Rightarrow> bool \<Rightarrow> bool \<Rightarrow> string \<Rightarrow> 'f priceDb \<Rightarrow> priceSyncError + 'f priceDb" where
  "savePublicPrice fails name values replaceToken replaceRequest mode db =
     (if fails ''update public model price'' then Inl (SyncQueryFailed ''update public model price'')
      else if list_ex (\<lambda>p. mpName p = name) (pdPrices db)
      then Inr (db\<lparr>pdPrices := map (\<lambda>p. if mpName p = name
               then p\<lparr>mpMode := if mode = [] then mpMode p else mode, mpRates := writtenPrices replaceToken replaceRequest values (mpRates p)\<rparr>
               else p) (pdPrices db)\<rparr>)
      else if fails ''create public model price'' then Inl (SyncQueryFailed ''create public model price'')
      else Inr (db\<lparr>pdPrices := pdPrices db @ [\<lparr>mpName = name, mpMode = if mode = [] then ''token'' else mode,
               mpRates = writtenPrices replaceToken replaceRequest values noRates\<rparr>]\<rparr>))"

definition mergePublicPrice :: "('f \<Rightarrow> bool) \<Rightarrow> (string \<Rightarrow> bool) \<Rightarrow> string \<Rightarrow> 'f PriceRates \<Rightarrow> 'f priceDb \<Rightarrow> priceSyncError + 'f priceDb" where
  "mergePublicPrice isZero fails name values db =
     (if fails ''load current public model price'' then Inl (SyncQueryFailed ''load current public model price'')
      else let missing = missingPublicPriceValues isZero values (currentPrices db name) in
        if \<not> hasAny missing then Inr db else savePublicPrice fails name missing False False [] db)"

definition replacePublicPrice :: "(string \<Rightarrow> bool) \<Rightarrow> string \<Rightarrow> 'f PriceRates \<Rightarrow> 'f priceDb \<Rightarrow> priceSyncError + 'f priceDb" where
  "replacePublicPrice fails name values db = savePublicPrice fails name values True False ''token'' db"

text \<open>\<open>None\<close>: the mode is not supported.\<close>

definition inputBillingMode :: "string \<Rightarrow> string option" where
  "inputBillingMode v =
     (let m = trimSpace v in
      if m = [] \<or> m = ''token'' then Some ''token'' else if m = ''request'' \<or> m = ''rules'' then Some m else None)"

definition updatePublicModelPrice :: "(string \<Rightarrow> bool) \<Rightarrow> string \<Rightarrow> string \<Rightarrow> 'f PriceRates \<Rightarrow> 'f priceDb \<Rightarrow> priceSyncError option + 'f priceDb" where
  "updatePublicModelPrice fails name inputMode values db =
     (case inputBillingMode inputMode of
        None \<Rightarrow> Inl None
      | Some mode \<Rightarrow>
          (case savePublicPrice fails name values (mode = ''token'') (mode = ''request'') mode db of Inl e \<Rightarrow> Inl (Some e) | Inr db1 \<Rightarrow> Inr db1))"

definition setPublicBillingMode :: "(string \<Rightarrow> bool) \<Rightarrow> string \<Rightarrow> string \<Rightarrow> 'f priceDb \<Rightarrow> priceSyncError + 'f priceDb" where
  "setPublicBillingMode fails name mode db =
     (if fails ''load current public model price mode'' then Inl (SyncQueryFailed ''load current public model price mode'')
      else case find (\<lambda>p. mpName p = name) (pdPrices db) of
             None \<Rightarrow>
               if fails ''create public model price for rules billing'' then Inl (SyncQueryFailed ''create public model price for rules billing'')
               else Inr (db\<lparr>pdPrices := pdPrices db @ [\<lparr>mpName = name, mpMode = mode, mpRates = noRates\<rparr>]\<rparr>)
           | Some current \<Rightarrow>
               if mpMode current = mode then Inr db
               else if fails ''switch public model price to rules billing'' then Inl (SyncQueryFailed ''switch public model price to rules billing'')
               else Inr (db\<lparr>pdPrices := map (\<lambda>p. if mpName p = name then p\<lparr>mpMode := mode\<rparr> else p) (pdPrices db)\<rparr>))"

definition clearedZero :: "('f \<Rightarrow> bool) \<Rightarrow> 'f option \<Rightarrow> 'f option" where
  "clearedZero isZero v = (case v of None \<Rightarrow> None | Some x \<Rightarrow> if isZero x then None else Some x)"

definition clearZeroPublicPrice :: "('f \<Rightarrow> bool) \<Rightarrow> (string \<Rightarrow> bool) \<Rightarrow> string \<Rightarrow> 'f priceDb \<Rightarrow> priceSyncError + 'f priceDb" where
  "clearZeroPublicPrice isZero fails name db =
     (if fails ''load public price for zero price cleanup'' then Inl (SyncQueryFailed ''load public price for zero price cleanup'')
      else let clear = (\<lambda>r. zipPrices (\<lambda>v _. clearedZero isZero v) r r) in
        if clear (currentPrices db name) = currentPrices db name then Inr db
        else if fails ''clear zero public price'' then Inl (SyncQueryFailed ''clear zero public price'')
        else Inr (db\<lparr>pdPrices := map (\<lambda>p. if mpName p = name then p\<lparr>mpRates := clear (mpRates p)\<rparr> else p) (pdPrices db)\<rparr>))"

subsection \<open>The transaction\<close>

fun foldE :: "('a \<Rightarrow> 's \<Rightarrow> 'e + 's) \<Rightarrow> 'a list \<Rightarrow> 's \<Rightarrow> 'e + 's" where
  "foldE f [] s = Inr s"
| "foldE f (x # xs) s = (case f x s of Inl e \<Rightarrow> Inl e | Inr s1 \<Rightarrow> foldE f xs s1)"

definition storeRule :: "id \<Rightarrow> string \<Rightarrow> string \<Rightarrow> id \<Rightarrow> syncedRule \<Rightarrow> storedRule" where
  "storeRule i name endpoint modelID rule = ModelPriceRule.extend (ruleRow i name rule) \<lparr>stRef = endpoint, stChannelModel = modelID\<rparr>"

definition deleteSynced :: "(string \<Rightarrow> bool) \<Rightarrow> string \<Rightarrow> string \<Rightarrow> 'f priceDb \<Rightarrow> priceSyncError + 'f priceDb" where
  "deleteSynced fails what name db =
     (if fails what then Inl (SyncQueryFailed what)
      else Inr (db\<lparr>pdRules := filter (\<lambda>r. \<not> (mrModel r = name \<and> mrSource r = ''sync'')) (pdRules db)\<rparr>))"

definition insertSyncedRule :: "('g, 'f) priceReader \<Rightarrow> (string \<Rightarrow> bool) \<Rightarrow> string \<Rightarrow> id \<Rightarrow> string \<Rightarrow> syncedRule \<Rightarrow> 'f priceDb \<Rightarrow> priceSyncError + 'f priceDb" where
  "insertSyncedRule rd fails endpoint modelID name rule db =
     (if fails ''save synced price rule'' then Inl (SyncQueryFailed ''save synced price rule'')
      else let db1 = db\<lparr>pdRules := pdRules db @ [storeRule (pdNext db) name endpoint modelID rule], pdNext := pdNext db + 1\<rparr> in
        (case modelPriceValuesFromRule rd rule of
           None \<Rightarrow> Inr db1
         | Some values \<Rightarrow> mergePublicPrice (rdIsZero rd) fails name values db1))"

definition writeModelRules :: "('g, 'f) priceReader \<Rightarrow> (string \<Rightarrow> bool) \<Rightarrow> string \<Rightarrow> (string \<times> id) list \<Rightarrow> string \<times> syncedRule list \<Rightarrow> 'f priceDb \<Rightarrow>
    priceSyncError + 'f priceDb" where
  "writeModelRules rd fails endpoint canonical planned db =
     (let (name, rules) = planned; modelID = (case map_of canonical name of None \<Rightarrow> 0 | Some i \<Rightarrow> i) in
      case deleteSynced fails ''replace synced price rules'' name db of
        Inl e \<Rightarrow> Inl e
      | Inr db1 \<Rightarrow>
          (case foldE (insertSyncedRule rd fails endpoint modelID name) (orderSyncedRules rules) db1 of
             Inl e \<Rightarrow> Inl e
           | Inr db2 \<Rightarrow> if list_ex ruleHasConditions rules then setPublicBillingMode fails name ''rules'' db2 else Inr db2))"

definition clearStale :: "('f \<Rightarrow> bool) \<Rightarrow> (string \<Rightarrow> bool) \<Rightarrow> string \<Rightarrow> 'f priceDb \<Rightarrow> priceSyncError + 'f priceDb" where
  "clearStale isZero fails name db =
     (case deleteSynced fails ''clear skipped synced price rules'' name db of
        Inl e \<Rightarrow> Inl e
      | Inr db1 \<Rightarrow> clearZeroPublicPrice isZero fails name db1)"

text \<open>The number of rules written, the skipped entries, and the database; a failure rolls the transaction back.\<close>

definition saveSyncedPriceRules :: "('g, 'f) priceReader \<Rightarrow> (string \<Rightarrow> bool) \<Rightarrow> string \<Rightarrow> syncedRule list \<Rightarrow> PriceSyncSkip list \<Rightarrow> 'f priceDb \<Rightarrow>
    (priceSyncError + nat \<times> PriceSyncSkip list) \<times> 'f priceDb" where
  "saveSyncedPriceRules rd fails endpoint rules skips0 db =
     (if fails ''load public models for prices'' then (Inl (SyncQueryFailed ''load public models for prices''), db)
      else let byPublic = indexModels cmPublic (pdModels db); byUpstream = indexModels cmUpstream (pdModels db);
               (usable, zeroSkips) = splitZeroPricedRules rd rules; skips = skips0 @ zeroSkips;
               (plan, canonical) = buildPublicRulePlan byPublic byUpstream usable;
               stale = staleSyncedPriceModels byPublic byUpstream plan skips
           in case foldE (writeModelRules rd fails endpoint canonical) plan db of
                Inl e \<Rightarrow> (Inl e, db)
              | Inr db1 \<Rightarrow>
                  (case foldE (clearStale (rdIsZero rd) fails) stale db1 of
                     Inl e \<Rightarrow> (Inl e, db)
                   | Inr db2 \<Rightarrow>
                       if fails ''load price cache'' then (Inl (SyncQueryFailed ''load price cache''), db2)
                       else (Inr (sum_list (map (length \<circ> snd) plan), skips), db2)))"

definition syncPricesFromPayload :: "('g, 'f) priceReader \<Rightarrow> (string \<Rightarrow> bool) \<Rightarrow> string \<Rightarrow> (priceSyncError + syncedRule list \<times> PriceSyncSkip list) \<Rightarrow>
    'f priceDb \<Rightarrow> (priceSyncError + nat \<times> PriceSyncSkip list) \<times> 'f priceDb" where
  "syncPricesFromPayload rd fails endpoint parsed db =
     (case parsed of
        Inl e \<Rightarrow> (Inl e, db)
      | Inr (rules, skips) \<Rightarrow> if rules = [] then (Inl NoPriceRules, db) else saveSyncedPriceRules rd fails endpoint rules skips db)"

subsection \<open>Manual prices survive a synchronisation\<close>

definition fieldKept :: "('f \<Rightarrow> bool) \<Rightarrow> 'f option \<Rightarrow> 'f option \<Rightarrow> bool" where
  "fieldKept isZero a b \<longleftrightarrow> (\<forall>v. a = Some v \<longrightarrow> \<not> isZero v \<longrightarrow> b = Some v)"

definition pricesKept :: "('f \<Rightarrow> bool) \<Rightarrow> 'f PriceRates \<Rightarrow> 'f PriceRates \<Rightarrow> bool" where
  "pricesKept isZero a b \<longleftrightarrow>
     fieldKept isZero (prInput a) (prInput b) \<and> fieldKept isZero (prCachedInput a) (prCachedInput b) \<and>
     fieldKept isZero (prCacheWrite a) (prCacheWrite b) \<and> fieldKept isZero (prOutput a) (prOutput b) \<and>
     fieldKept isZero (prImageInput a) (prImageInput b) \<and> fieldKept isZero (prAudioInput a) (prAudioInput b) \<and>
     fieldKept isZero (prAudioOutput a) (prAudioOutput b) \<and> fieldKept isZero (prRequest a) (prRequest b)"

text \<open>From one database to another: the manual rules are the same, the price rows are still there and their prices kept.\<close>

definition dbKept :: "('f \<Rightarrow> bool) \<Rightarrow> 'f priceDb \<Rightarrow> 'f priceDb \<Rightarrow> bool" where
  "dbKept isZero db db' \<longleftrightarrow>
     filter (\<lambda>r. mrSource r \<noteq> ''sync'') (pdRules db') = filter (\<lambda>r. mrSource r \<noteq> ''sync'') (pdRules db) \<and>
     (\<forall>p \<in> set (pdPrices db). \<exists>q \<in> set (pdPrices db'). mpName q = mpName p \<and> pricesKept isZero (mpRates p) (mpRates q)) \<and>
     (distinct (map mpName (pdPrices db)) \<longrightarrow> distinct (map mpName (pdPrices db')))"

lemma fieldKept_refl [simp]: "fieldKept isZero a a"
  by (simp add: fieldKept_def)

lemma pricesKept_refl [simp]: "pricesKept isZero a a"
  by (simp add: pricesKept_def)

lemma pricesKept_trans: "pricesKept isZero a b \<Longrightarrow> pricesKept isZero b c \<Longrightarrow> pricesKept isZero a c"
  unfolding pricesKept_def fieldKept_def by blast

lemma dbKept_refl [simp]: "dbKept isZero db db"
  by (auto simp: dbKept_def)

lemma dbKept_trans: "dbKept isZero a b \<Longrightarrow> dbKept isZero b c \<Longrightarrow> dbKept isZero a c"
  unfolding dbKept_def using pricesKept_trans by (metis (no_types, lifting))

lemma foldE_keeps:
  assumes "\<And>x s s'. P s \<Longrightarrow> f x s = Inr s' \<Longrightarrow> P s' \<and> R s s'" "\<And>s. R s s" "\<And>a b c. R a b \<Longrightarrow> R b c \<Longrightarrow> R a c" "P s" "foldE f xs s = Inr s'"
  shows "P s' \<and> R s s'"
  using assms(4,5)
proof (induction xs arbitrary: s)
  case Nil
  then show ?case using assms(2) by simp
next
  case (Cons x xs)
  then show ?case using assms(1,3) by (cases "f x s") (auto, blast+)
qed

definition pricesDistinct :: "'f priceDb \<Rightarrow> bool" where
  "pricesDistinct db \<longleftrightarrow> distinct (map mpName (pdPrices db))"

lemma dbKept_mapPrices:
  assumes "\<And>p. p \<in> set (pdPrices db) \<Longrightarrow> mpName (h p) = mpName p \<and> pricesKept isZero (mpRates p) (mpRates (h p))"
  shows "dbKept isZero db (db\<lparr>pdPrices := map h (pdPrices db)\<rparr>)"
proof -
  have "map mpName (map h (pdPrices db)) = map mpName (pdPrices db)" using assms by simp
  then show ?thesis using assms unfolding dbKept_def by (auto simp del: map_map)
qed

lemma dbKept_addPrice: "mpName p \<notin> mpName ` set (pdPrices db) \<Longrightarrow> dbKept isZero db (db\<lparr>pdPrices := pdPrices db @ [p]\<rparr>)"
  unfolding dbKept_def by auto

lemma keepUnset_kept: "fieldKept isZero c (case keepUnset isZero v c of None \<Rightarrow> c | Some w \<Rightarrow> Some w)"
  by (auto simp: fieldKept_def keepUnset_def split: option.splits)

lemma orElse: "(if v \<noteq> None then v else w) = (case v of None \<Rightarrow> w | Some x \<Rightarrow> Some x)"
  by (cases v) simp_all

lemma written_kept: "pricesKept isZero current (writtenPrices False False (missingPublicPriceValues isZero values current) current)"
  unfolding writtenPrices_def missingPublicPriceValues_def zipPrices_def pricesKept_def simp_thms orElse by (simp add: keepUnset_kept)

lemma current_row:
  assumes "pricesDistinct db" "p \<in> set (pdPrices db)" "mpName p = name"
  shows "currentPrices db name = mpRates p" "find (\<lambda>p. mpName p = name) (pdPrices db) = Some p"
proof -
  have "find (\<lambda>p. mpName p = name) ps = Some p" if "distinct (map mpName ps)" "p \<in> set ps" for ps
    using that assms(3) by (induction ps) (auto simp: image_iff)
  then show "find (\<lambda>p. mpName p = name) (pdPrices db) = Some p" using assms(1,2) by (simp add: pricesDistinct_def)
  then show "currentPrices db name = mpRates p" by (simp add: currentPrices_def)
qed

lemma merge_keeps:
  assumes "pricesDistinct db" "mergePublicPrice isZero fails name values db = Inr db'"
  shows "dbKept isZero db db'"
proof (cases "list_ex (\<lambda>p. mpName p = name) (pdPrices db)")
  case True
  let ?missing = "missingPublicPriceValues isZero values (currentPrices db name)"
  let ?h = "\<lambda>p. if mpName p = name then p\<lparr>mpMode := mpMode p, mpRates := writtenPrices False False ?missing (mpRates p)\<rparr> else p"
  have "dbKept isZero db (db\<lparr>pdPrices := map ?h (pdPrices db)\<rparr>)"
    by (rule dbKept_mapPrices) (use written_kept current_row(1) [OF assms(1)] in fastforce)
  then show ?thesis using assms(2) True by (auto simp: mergePublicPrice_def savePublicPrice_def Let_def split: if_splits cong: if_cong)
next
  case False
  then have fresh: "name \<notin> mpName ` set (pdPrices db)" by (auto simp: list_ex_iff)
  from False consider "db' = db" | mode r where "db' = db\<lparr>pdPrices := pdPrices db @ [\<lparr>mpName = name, mpMode = mode, mpRates = r\<rparr>]\<rparr>"
    using assms(2) by (auto simp: mergePublicPrice_def savePublicPrice_def Let_def split: if_splits)
  then show ?thesis
  proof cases
    case 2
    show ?thesis unfolding 2 by (rule dbKept_addPrice) (use fresh in simp)
  qed simp
qed

lemma setMode_keeps: "setPublicBillingMode fails name mode db = Inr db' \<Longrightarrow> dbKept isZero db db'"
proof -
  assume set0: "setPublicBillingMode fails name mode db = Inr db'"
  have "dbKept isZero db (db\<lparr>pdPrices := map (\<lambda>p. if mpName p = name then p\<lparr>mpMode := mode\<rparr> else p) (pdPrices db)\<rparr>)"
    by (rule dbKept_mapPrices) simp
  moreover have "find (\<lambda>p. mpName p = name) (pdPrices db) = None \<Longrightarrow> name \<notin> mpName ` set (pdPrices db)" by (auto simp: find_None_iff)
  then have "find (\<lambda>p. mpName p = name) (pdPrices db) = None \<Longrightarrow>
      dbKept isZero db (db\<lparr>pdPrices := pdPrices db @ [\<lparr>mpName = name, mpMode = mode, mpRates = noRates\<rparr>]\<rparr>)"
    by (intro dbKept_addPrice) simp
  ultimately show ?thesis using set0 by (auto simp: setPublicBillingMode_def split: if_splits option.splits)
qed

lemma cleared_kept: "pricesKept isZero r (zipPrices (\<lambda>v _. clearedZero isZero v) r r)"
  by (simp add: pricesKept_def zipPrices_def fieldKept_def clearedZero_def)

lemma clearZero_keeps: "clearZeroPublicPrice isZero fails name db = Inr db' \<Longrightarrow> dbKept isZero db db'"
proof -
  assume clear: "clearZeroPublicPrice isZero fails name db = Inr db'"
  have "dbKept isZero db (db\<lparr>pdPrices := map (\<lambda>p. if mpName p = name then p\<lparr>mpRates := zipPrices (\<lambda>v _. clearedZero isZero v) (mpRates p) (mpRates p)\<rparr> else p) (pdPrices db)\<rparr>)"
    by (rule dbKept_mapPrices) (simp add: cleared_kept)
  then show ?thesis using clear by (auto simp: clearZeroPublicPrice_def Let_def split: if_splits)
qed

lemma deleteSynced_keeps: "deleteSynced fails what name db = Inr db' \<Longrightarrow> dbKept isZero db db'"
proof -
  assume "deleteSynced fails what name db = Inr db'"
  then have db': "db' = db\<lparr>pdRules := filter (\<lambda>r. \<not> (mrModel r = name \<and> mrSource r = ''sync'')) (pdRules db)\<rparr>"
    by (auto simp: deleteSynced_def split: if_splits)
  have "filter (\<lambda>r. mrSource r \<noteq> ''sync'') (filter (\<lambda>r. \<not> (mrModel r = name \<and> mrSource r = ''sync'')) rs) = filter (\<lambda>r. mrSource r \<noteq> ''sync'') rs" for rs :: "storedRule list"
    by (induction rs) auto
  then show ?thesis unfolding db' dbKept_def by auto
qed

lemma storeRule_fields: "mrSource (storeRule i name endpoint m rule) = ''sync''" "mrRates (storeRule i name endpoint m rule) = sdRates rule"
    "mrModel (storeRule i name endpoint m rule) = name" "mrConditions (storeRule i name endpoint m rule) = sdConditions rule"
  by (simp_all add: storeRule_def ruleRow_def ModelPriceRule.defs)

lemma dbKept_distinct: "dbKept isZero db db' \<Longrightarrow> pricesDistinct db \<Longrightarrow> pricesDistinct db'"
  by (simp add: dbKept_def pricesDistinct_def)

lemma insertRule_keeps:
  assumes "pricesDistinct db" "insertSyncedRule rd fails endpoint modelID name rule db = Inr db'"
  shows "dbKept (rdIsZero rd) db db'"
proof -
  define db1 where "db1 = db\<lparr>pdRules := pdRules db @ [storeRule (pdNext db) name endpoint modelID rule], pdNext := pdNext db + 1\<rparr>"
  have k1: "dbKept (rdIsZero rd) db db1" by (auto simp: dbKept_def db1_def storeRule_fields)
  have step0: "insertSyncedRule rd fails endpoint modelID name rule db =
      (if fails ''save synced price rule'' then Inl (SyncQueryFailed ''save synced price rule'')
       else case modelPriceValuesFromRule rd rule of None \<Rightarrow> Inr db1 | Some values \<Rightarrow> mergePublicPrice (rdIsZero rd) fails name values db1)"
    by (simp only: insertSyncedRule_def db1_def Let_def)
  have "dbKept (rdIsZero rd) db1 db'"
  proof (cases "modelPriceValuesFromRule rd rule")
    case None
    then show ?thesis using assms(2) unfolding step0 by (simp split: if_splits)
  next
    case (Some prices)
    then have "mergePublicPrice (rdIsZero rd) fails name prices db1 = Inr db'" using assms(2) unfolding step0 by (simp split: if_splits)
    then show ?thesis by (rule merge_keeps [OF dbKept_distinct [OF k1 assms(1)]])
  qed
  then show ?thesis using k1 dbKept_trans by blast
qed

lemma writeRules_keeps:
  assumes "pricesDistinct db" "writeModelRules rd fails endpoint canonical planned db = Inr db'"
  shows "dbKept (rdIsZero rd) db db'"
proof -
  obtain name rules where planned: "planned = (name, rules)" by (cases planned)
  define m where "m = (case map_of canonical name of None \<Rightarrow> 0 | Some i \<Rightarrow> i)"
  from assms(2) obtain db1 db2 where
      d1: "deleteSynced fails ''replace synced price rules'' name db = Inr db1"
    and d2: "foldE (insertSyncedRule rd fails endpoint m name) (orderSyncedRules rules) db1 = Inr db2"
    and d3: "(if list_ex ruleHasConditions rules then setPublicBillingMode fails name ''rules'' db2 else Inr db2) = Inr db'"
    by (auto simp: writeModelRules_def planned m_def [symmetric] Let_def split: sum.splits)
  note k1 = deleteSynced_keeps [OF d1, of "rdIsZero rd"]
  have "pricesDistinct db2 \<and> dbKept (rdIsZero rd) db1 db2"
    by (rule foldE_keeps [OF _ _ _ _ d2]) (use insertRule_keeps dbKept_distinct dbKept_trans dbKept_refl k1 assms(1) in blast)+
  moreover have "dbKept (rdIsZero rd) db2 db'" using d3 setMode_keeps by (auto split: if_splits)
  ultimately show ?thesis using k1 dbKept_trans by blast
qed

lemma clearStale_keeps: "clearStale isZero fails name db = Inr db' \<Longrightarrow> dbKept isZero db db'"
  unfolding clearStale_def by (auto split: sum.splits intro: dbKept_trans [OF deleteSynced_keeps clearZero_keeps])

text \<open>C33: A synchronisation of prices leaves the manual work alone, whatever it is given and wherever it fails: the rules that were
  not synchronised stay as they are, no price row disappears, and every price of a row that is set and not 0 keeps its
  value.\<close>

theorem manual_prices_kept:
  assumes "pricesDistinct db" "saveSyncedPriceRules rd fails endpoint rules skips db = (res, db')"
  shows "filter (\<lambda>r. mrSource r \<noteq> ''sync'') (pdRules db') = filter (\<lambda>r. mrSource r \<noteq> ''sync'') (pdRules db) \<and>
    (\<forall>p \<in> set (pdPrices db). \<exists>q \<in> set (pdPrices db'). mpName q = mpName p \<and> pricesKept (rdIsZero rd) (mpRates p) (mpRates q))"
proof -
  have kept: "dbKept (rdIsZero rd) db db'"
  proof (cases "db' = db")
    case False
    obtain plan canonical where plan: "buildPublicRulePlan (indexModels cmPublic (pdModels db)) (indexModels cmUpstream (pdModels db))
        (fst (splitZeroPricedRules rd rules)) = (plan, canonical)" by (cases "buildPublicRulePlan (indexModels cmPublic (pdModels db)) (indexModels cmUpstream (pdModels db))
        (fst (splitZeroPricedRules rd rules))")
    from assms(2) False obtain db1 stale where
        d1: "foldE (writeModelRules rd fails endpoint canonical) plan db = Inr db1" and d2: "foldE (clearStale (rdIsZero rd) fails) stale db1 = Inr db'"
      by (auto simp: saveSyncedPriceRules_def Let_def plan split_beta split: if_splits sum.splits)
    have "pricesDistinct db1 \<and> dbKept (rdIsZero rd) db db1"
      by (rule foldE_keeps [OF _ _ _ _ d1]) (use writeRules_keeps dbKept_distinct dbKept_trans dbKept_refl assms(1) in blast)+
    moreover have "True \<and> dbKept (rdIsZero rd) db1 db'"
      by (rule foldE_keeps [where P = "\<lambda>_. True", OF _ _ _ _ d2]) (use clearStale_keeps dbKept_trans dbKept_refl in blast)+
    ultimately show ?thesis using dbKept_trans by blast
  qed simp
  then show ?thesis unfolding dbKept_def by blast
qed

subsection \<open>The strongest match decides\<close>

definition matchRank :: "nameLookup \<Rightarrow> string \<Rightarrow> syncedRule \<Rightarrow> nat option" where
  "matchRank l name rule = map_option snd (find (\<lambda>(m, _). cmPublic m = name) (matchPublicModels l (sdModel rule)))"

definition strongest :: "nameLookup \<Rightarrow> string \<Rightarrow> syncedRule list \<Rightarrow> syncedRule list" where
  "strongest l name rules =
     filter (\<lambda>r. matchRank l name r \<noteq> None \<and> (\<forall>r' \<in> set rules. \<forall>k. matchRank l name r' = Some k \<longrightarrow> k \<le> the (matchRank l name r))) rules"

text \<open>What a bucket knows of one name: the rank and the rules.\<close>

definition knows :: "ruleBucket \<Rightarrow> string \<Rightarrow> (nat \<times> syncedRule list) option \<Rightarrow> bool" where
  "knows b name v \<longleftrightarrow> map_of (rbRanks b) name = map_option fst v \<and> map_of (rbRules b) name = map_option snd v"

definition addKnown :: "nat \<Rightarrow> syncedRule \<Rightarrow> (nat \<times> syncedRule list) option \<Rightarrow> (nat \<times> syncedRule list) option" where
  "addKnown rank rule v =
     (case v of
        None \<Rightarrow> Some (rank, [rule])
      | Some (current, rs) \<Rightarrow> if rank > current then Some (rank, [rule]) else if rank = current then Some (current, rs @ [rule]) else Some (current, rs))"

lemma bucketAdd_excluded [simp]: "rbExcluded (bucketAdd m rule rank b) = rbExcluded b"
  by (simp add: bucketAdd_def Let_def split: option.split)

lemma bucketAdd_skips: "cmPublic m \<in> set (rbExcluded b) \<Longrightarrow> bucketAdd m rule rank b = b"
  by (simp add: bucketAdd_def)

lemma bucketAdd_same:
  assumes "knows b (cmPublic m) v" "cmPublic m \<notin> set (rbExcluded b)"
  shows "knows (bucketAdd m rule rank b) (cmPublic m) (addKnown rank rule v)"
  using assms by (cases v) (auto simp: knows_def bucketAdd_def addKnown_def appendAt_def valuesAt_def update_conv' Let_def)

lemma bucketAdd_other:
  assumes "knows b name v" "cmPublic m \<noteq> name"
  shows "knows (bucketAdd m rule rank b) name v"
  using assms by (auto simp: knows_def bucketAdd_def appendAt_def update_conv' Let_def split: option.split)

lemma bucket_matches:
  assumes "distinct (map (cmPublic \<circ> fst) ms)" "knows b name v" "name \<notin> set (rbExcluded b)"
  shows "knows (foldl (\<lambda>b (m, rank). bucketAdd m rule rank b) b ms) name
    (case find (\<lambda>(m, _). cmPublic m = name) ms of None \<Rightarrow> v | Some (_, rank) \<Rightarrow> addKnown rank rule v)"
  using assms
proof (induction ms arbitrary: b v)
  case (Cons q ms)
  obtain m rank where q: "q = (m, rank)" by (cases q)
  show ?case
  proof (cases "cmPublic m = name")
    case True
    then have "knows (bucketAdd m rule rank b) name (addKnown rank rule v)" using bucketAdd_same Cons.prems(2,3) by blast
    moreover have "find (\<lambda>(m, _). cmPublic m = name) ms = None" using Cons.prems(1) True by (force simp: q find_None_iff)
    ultimately show ?thesis using Cons.IH [of "bucketAdd m rule rank b" "addKnown rank rule v"] Cons.prems(1,3) True by (simp add: q)
  next
    case False
    then have "knows (bucketAdd m rule rank b) name v" using bucketAdd_other Cons.prems(2) by blast
    then show ?thesis using Cons.IH [of "bucketAdd m rule rank b" v] Cons.prems(1,3) False by (simp add: q)
  qed
qed simp

lemma bucket_excluded: "rbExcluded (foldl (\<lambda>b (m, rank). bucketAdd m rule rank b) b ms) = rbExcluded b"
  by (induction ms arbitrary: b) auto

lemma matchPublic_distinct: "distinct (map (cmPublic \<circ> fst) (matchPublicModels l model))"
  using dedupOn_distinct [of "\<lambda>(m, _). cmPublic m" "matchName l model"] unfolding matchPublicModels_def by (simp add: case_prod_unfold comp_def)

definition knownRules :: "nameLookup \<Rightarrow> string \<Rightarrow> syncedRule list \<Rightarrow> (nat \<times> syncedRule list) option" where
  "knownRules l name rules = foldl (\<lambda>v r. case matchRank l name r of None \<Rightarrow> v | Some k \<Rightarrow> addKnown k r v) None rules"

lemma fillBucket_knows:
  assumes "name \<notin> set (rbExcluded b)" "knows b name v"
  shows "knows (fillBucket l rules b) name (foldl (\<lambda>v r. case matchRank l name r of None \<Rightarrow> v | Some k \<Rightarrow> addKnown k r v) v rules)"
  using assms
proof (induction rules arbitrary: b v)
  case (Cons r rules)
  let ?b = "foldl (\<lambda>b (m, rank). bucketAdd m r rank b) b (matchPublicModels l (sdModel r))"
  have "knows ?b name (case matchRank l name r of None \<Rightarrow> v | Some k \<Rightarrow> addKnown k r v)"
    using bucket_matches [OF matchPublic_distinct [of l "sdModel r"] Cons.prems(2,1), of r] by (auto simp: matchRank_def split: option.splits prod.splits)
  then show ?case using Cons.IH [of ?b] Cons.prems(1) by (simp add: fillBucket_def bucket_excluded)
qed (simp add: fillBucket_def)

lemma fillBucket_excluded: "map_of (rbRules b) name = None \<Longrightarrow> name \<in> set (rbExcluded b) \<Longrightarrow> map_of (rbRules (fillBucket l rules b)) name = None"
proof -
  have one: "map_of (rbRules (foldl (\<lambda>b (m, rank). bucketAdd m r rank b) b ms)) name = None \<and> rbExcluded (foldl (\<lambda>b (m, rank). bucketAdd m r rank b) b ms) = rbExcluded b"
    if "map_of (rbRules b) name = None" "name \<in> set (rbExcluded b)" for b r ms
    using that
  proof (induction ms arbitrary: b)
    case (Cons q ms)
    obtain m rank where q: "q = (m, rank)" by (cases q)
    have "map_of (rbRules (bucketAdd m r rank b)) name = None"
    proof (cases "cmPublic m = name")
      case True
      then show ?thesis using bucketAdd_skips Cons.prems by simp
    next
      case False
      then show ?thesis using Cons.prems by (auto simp: bucketAdd_def appendAt_def update_conv' Let_def split: option.split)
    qed
    then show ?case using Cons.IH [of "bucketAdd m r rank b"] Cons.prems(2) by (simp add: q)
  qed simp
  assume "map_of (rbRules b) name = None" "name \<in> set (rbExcluded b)"
  then show ?thesis unfolding fillBucket_def by (induction rules arbitrary: b) (simp_all add: one)
qed

lemma knownRules_strongest:
  "knownRules l name rules =
    (if strongest l name rules = [] then None else Some (Max {k. \<exists>r \<in> set rules. matchRank l name r = Some k}, strongest l name rules)) \<and>
   (strongest l name rules = [] \<longleftrightarrow> (\<forall>r \<in> set rules. matchRank l name r = None))"
proof -
  define best where "best k rs \<longleftrightarrow> (\<exists>r \<in> set rs. matchRank l name r = Some k) \<and> (\<forall>r \<in> set rs. \<forall>j. matchRank l name r = Some j \<longrightarrow> j \<le> k)" for k rs
  have sel: "strongest l name rs = filter (\<lambda>r. matchRank l name r = Some k) rs" if b: "best k rs" for k rs
    unfolding strongest_def
  proof (rule filter_cong [OF refl])
    fix x assume x: "x \<in> set rs"
    obtain r where r: "r \<in> set rs" "matchRank l name r = Some k" using b by (auto simp: best_def)
    have le: "\<forall>r \<in> set rs. \<forall>j. matchRank l name r = Some j \<longrightarrow> j \<le> k" using b by (simp add: best_def)
    show "(matchRank l name x \<noteq> None \<and> (\<forall>r' \<in> set rs. \<forall>j. matchRank l name r' = Some j \<longrightarrow> j \<le> the (matchRank l name x))) = (matchRank l name x = Some k)"
    proof (cases "matchRank l name x")
      case (Some y)
      then have "y \<le> k" using le x by blast
      moreover have "(\<forall>r' \<in> set rs. \<forall>j. matchRank l name r' = Some j \<longrightarrow> j \<le> y) \<longleftrightarrow> k \<le> y" using r le order_trans by blast
      ultimately show ?thesis using Some by auto
    qed simp
  qed
  have none: "strongest l name rs = []" if "\<forall>r \<in> set rs. matchRank l name r = None" for rs using that by (simp add: strongest_def filter_empty_conv)
  have inv: "(if \<forall>r \<in> set rules. matchRank l name r = None then knownRules l name rules = None
     else \<exists>k. best k rules \<and> knownRules l name rules = Some (k, filter (\<lambda>r. matchRank l name r = Some k) rules))"
  proof (induction rules rule: rev_induct)
    case (snoc x rules)
    have step: "knownRules l name (rules @ [x]) = (case matchRank l name x of None \<Rightarrow> knownRules l name rules | Some k \<Rightarrow> addKnown k x (knownRules l name rules))"
      unfolding knownRules_def by simp
    show ?case
    proof (cases "matchRank l name x")
      case None
      have "best k (rules @ [x]) \<longleftrightarrow> best k rules" for k using None by (auto simp: best_def)
      moreover have "(\<forall>r \<in> set (rules @ [x]). matchRank l name r = None) \<longleftrightarrow> (\<forall>r \<in> set rules. matchRank l name r = None)" using None by simp
      ultimately show ?thesis using snoc step None by simp
    next
      case (Some j)
      show ?thesis
      proof (cases "\<forall>r \<in> set rules. matchRank l name r = None")
        case True
        then have "knownRules l name (rules @ [x]) = Some (j, [x])" "best j (rules @ [x])" "filter (\<lambda>r. matchRank l name r = Some j) (rules @ [x]) = [x]"
          using snoc step Some by (auto simp: addKnown_def best_def filter_empty_conv)
        then show ?thesis using Some by auto
      next
        case False
        then obtain k where k: "best k rules" "knownRules l name rules = Some (k, filter (\<lambda>r. matchRank l name r = Some k) rules)"
          using snoc unfolding if_not_P [OF False] by blast
        have "\<exists>i. best i (rules @ [x]) \<and> knownRules l name (rules @ [x]) = Some (i, filter (\<lambda>r. matchRank l name r = Some i) (rules @ [x]))"
        proof (cases "k < j")
          case True
          then have "filter (\<lambda>r. matchRank l name r = Some j) rules = []" using k(1) by (fastforce simp: best_def filter_empty_conv)
          moreover have "best j (rules @ [x])" using k(1) True Some by (fastforce simp: best_def)
          ultimately show ?thesis using step Some k(2) True by (auto simp: addKnown_def)
        next
          case not_less: False
          have "best k (rules @ [x])" using k(1) not_less Some by (auto simp: best_def)
          then show ?thesis using step Some k(2) not_less by (auto simp: addKnown_def)
        qed
        then show ?thesis using Some by auto
      qed
    qed
  qed (simp add: knownRules_def)
  show ?thesis
  proof (cases "\<forall>r \<in> set rules. matchRank l name r = None")
    case True
    then show ?thesis using inv none by simp
  next
    case False
    then obtain k where k: "best k rules" "knownRules l name rules = Some (k, filter (\<lambda>r. matchRank l name r = Some k) rules)"
      using inv unfolding if_not_P [OF False] by blast
    have "strongest l name rules \<noteq> []" using k(1) sel [OF k(1)] by (auto simp: best_def filter_empty_conv)
    moreover have "Max {k. \<exists>r \<in> set rules. matchRank l name r = Some k} = k"
    proof (rule Max_eqI)
      have "{k. \<exists>r \<in> set rules. matchRank l name r = Some k} \<subseteq> (\<lambda>r. the (matchRank l name r)) ` set rules" by force
      then show "finite {k. \<exists>r \<in> set rules. matchRank l name r = Some k}" by (rule finite_subset) simp
    qed (use k(1) in \<open>auto simp: best_def\<close>)
    ultimately show ?thesis using k(2) sel [OF k(1)] False by auto
  qed
qed

lemma fresh_knows: "knows (newRuleBucket\<lparr>rbExcluded := ns\<rparr>) name None" "knows newRuleBucket name None"
  by (simp_all add: knows_def newRuleBucket_def)

text \<open>A public model gets exactly the entries of the price source that match its name most closely, in their order: those that match
  its public name when there are any, and only otherwise those that match the name its channels use upstream.\<close>

theorem plan_takes_strongest:
  "valuesAt (fst (buildPublicRulePlan byPublic byUpstream rules)) name =
    (let direct = strongest (newNameLookup byPublic) name rules in
     if direct \<noteq> [] then direct else strongest (newNameLookup byUpstream) name rules)"
proof -
  let ?lp = "newNameLookup byPublic" and ?lu = "newNameLookup byUpstream"
  define direct where "direct = fillBucket ?lp rules newRuleBucket"
  define other where "other = fillBucket ?lu rules (newRuleBucket\<lparr>rbExcluded := map fst (rbRules direct)\<rparr>)"
  have plan: "fst (buildPublicRulePlan byPublic byUpstream rules) = rbRules direct @ rbRules other"
    by (simp add: buildPublicRulePlan_def direct_def other_def Let_def)
  have kd: "knows direct name (knownRules ?lp name rules)"
    unfolding direct_def knownRules_def by (rule fillBucket_knows [OF _ fresh_knows(2)]) (simp add: newRuleBucket_def)
  show ?thesis
  proof (cases "strongest ?lp name rules = []")
    case True
    then have none: "map_of (rbRules direct) name = None" using kd knownRules_strongest [of ?lp name rules] by (simp add: knows_def)
    then have "name \<notin> set (map fst (rbRules direct))" by (simp add: map_of_eq_None_iff)
    then have "knows other name (knownRules ?lu name rules)"
      unfolding other_def knownRules_def by (intro fillBucket_knows [OF _ fresh_knows(1)]) simp
    then have "valuesAt (rbRules other) name = strongest ?lu name rules"
      using knownRules_strongest [of ?lu name rules] by (auto simp: knows_def valuesAt_def split: if_splits)
    then show ?thesis using True none by (simp add: plan valuesAt_def map_of_append map_add_def Let_def)
  next
    case False
    then have "map_of (rbRules direct) name = Some (strongest ?lp name rules)" using kd knownRules_strongest [of ?lp name rules] by (simp add: knows_def)
    moreover have "name \<in> set (map fst (rbRules direct))" using calculation by (force dest: map_of_SomeD)
    then have "map_of (rbRules other) name = None"
      unfolding other_def by (intro fillBucket_excluded) (simp_all add: newRuleBucket_def)
    ultimately show ?thesis using False by (simp add: plan valuesAt_def map_of_append map_add_def Let_def)
  qed
qed

subsection \<open>Nothing is saved at a price of zero\<close>

definition plannedRules :: "(string \<times> syncedRule list) list \<Rightarrow> syncedRule set" where
  "plannedRules plan = (\<Union>(name, rules) \<in> set plan. set rules)"

lemma plannedRules_update: "plannedRules (AList.update k v plan) \<subseteq> set v \<union> plannedRules plan"
proof -
  have "set (AList.update k v plan) \<subseteq> insert (k, v) (set plan)" by (induction plan) auto
  then show ?thesis by (auto simp: plannedRules_def)
qed

lemma plannedRules_at: "set (valuesAt plan k) \<subseteq> plannedRules plan"
proof (cases "map_of plan k")
  case (Some rs)
  then have "(k, rs) \<in> set plan" by (rule map_of_SomeD)
  then show ?thesis using Some by (auto simp: plannedRules_def valuesAt_def)
qed (simp add: valuesAt_def)

lemma bucketAdd_rules: "plannedRules (rbRules (bucketAdd m rule rank b)) \<subseteq> insert rule (plannedRules (rbRules b))"
proof -
  have "plannedRules (AList.update k [rule] (rbRules b)) \<subseteq> insert rule (plannedRules (rbRules b))" for k using plannedRules_update by fastforce
  moreover have "plannedRules (appendAt k rule (rbRules b)) \<subseteq> insert rule (plannedRules (rbRules b))" for k
    unfolding appendAt_def using plannedRules_update [of k "valuesAt (rbRules b) k @ [rule]"] plannedRules_at [of "rbRules b" k] by auto
  ultimately show ?thesis by (auto simp: bucketAdd_def Let_def split: option.split)
qed

lemma fillBucket_rules: "plannedRules (rbRules (fillBucket l rules b)) \<subseteq> set rules \<union> plannedRules (rbRules b)"
proof -
  have one: "plannedRules (rbRules (foldl (\<lambda>b (m, rank). bucketAdd m r rank b) b ms)) \<subseteq> insert r (plannedRules (rbRules b))" for b r and ms :: "ruleModelMatch list"
  proof (induction ms arbitrary: b)
    case (Cons q ms)
    obtain m rank where q: "q = (m, rank)" by (cases q)
    show ?case using Cons.IH [of "bucketAdd m r rank b"] bucketAdd_rules [of m r rank b] by (auto simp: q)
  qed auto
  show ?thesis unfolding fillBucket_def
  proof (induction rules arbitrary: b)
    case (Cons r rules)
    show ?case using Cons.IH [of "foldl (\<lambda>b (m, rank). bucketAdd m r rank b) b (matchPublicModels l (sdModel r))"]
        one [of r b "matchPublicModels l (sdModel r)"] by auto
  qed simp
qed

lemma plan_rules: "plannedRules (fst (buildPublicRulePlan byPublic byUpstream rules)) \<subseteq> set rules"
proof -
  have both: "plannedRules (xs @ ys) = plannedRules xs \<union> plannedRules ys" for xs ys by (auto simp: plannedRules_def)
  have "plannedRules (rbRules newRuleBucket) = {}" by (simp add: plannedRules_def newRuleBucket_def)
  then show ?thesis using fillBucket_rules [of "newNameLookup byPublic" rules newRuleBucket]
      fillBucket_rules [of "newNameLookup byUpstream" rules "newRuleBucket\<lparr>rbExcluded := map fst (rbRules (fillBucket (newNameLookup byPublic) rules newRuleBucket))\<rparr>"]
    by (auto simp: buildPublicRulePlan_def Let_def both)
qed

text \<open>Every rule of the database is an old one or a synchronised one with a rate that is not 0.\<close>

definition ratesPriceNothing :: "('g, 'f) priceReader \<Rightarrow> string \<Rightarrow> bool" where
  "ratesPriceNothing rd rates = rulePricesNothing rd \<lparr>sdModel = [], sdName = [], sdCurrency = [], sdConditions = [], sdRates = rates\<rparr>"

lemma ratesPriceNothing_rule: "rulePricesNothing rd rule = ratesPriceNothing rd (sdRates rule)"
  by (simp add: ratesPriceNothing_def rulePricesNothing_def)

definition onlyPriced :: "('g, 'f) priceReader \<Rightarrow> 'f priceDb \<Rightarrow> 'f priceDb \<Rightarrow> bool" where
  "onlyPriced rd db0 db \<longleftrightarrow> (\<forall>r \<in> set (pdRules db). r \<in> set (pdRules db0) \<or> mrSource r = ''sync'' \<and> \<not> ratesPriceNothing rd (mrRates r))"

lemma savePublicPrice_rules: "savePublicPrice fails name v a b mode db = Inr db' \<Longrightarrow> pdRules db' = pdRules db"
  by (auto simp: savePublicPrice_def split: if_splits)

lemma merge_rules: "mergePublicPrice isZero fails name v db = Inr db' \<Longrightarrow> pdRules db' = pdRules db"
  by (auto simp: mergePublicPrice_def Let_def split: if_splits dest: savePublicPrice_rules)

lemma setMode_rules: "setPublicBillingMode fails name mode db = Inr db' \<Longrightarrow> pdRules db' = pdRules db"
  by (auto simp: setPublicBillingMode_def split: if_splits option.splits)

lemma clearZero_rules: "clearZeroPublicPrice isZero fails name db = Inr db' \<Longrightarrow> pdRules db' = pdRules db"
  by (auto simp: clearZeroPublicPrice_def Let_def split: if_splits)

lemma deleteSynced_rules: "deleteSynced fails what name db = Inr db' \<Longrightarrow> set (pdRules db') \<subseteq> set (pdRules db)"
  by (auto simp: deleteSynced_def split: if_splits)

lemma insertRule_rules:
  "insertSyncedRule rd fails endpoint m name rule db = Inr db' \<Longrightarrow> \<exists>i. pdRules db' = pdRules db @ [storeRule i name endpoint m rule]"
  by (auto simp: insertSyncedRule_def Let_def split: if_splits option.splits dest!: merge_rules)

lemma writeRules_priced:
  assumes "onlyPriced rd db0 db" "\<forall>rule \<in> set rules. \<not> rulePricesNothing rd rule" "writeModelRules rd fails endpoint canonical (name, rules) db = Inr db'"
  shows "onlyPriced rd db0 db'"
proof -
  define m where "m = (case map_of canonical name of None \<Rightarrow> 0 | Some i \<Rightarrow> i)"
  from assms(3) obtain db1 db2 where
      d1: "deleteSynced fails ''replace synced price rules'' name db = Inr db1"
    and d2: "foldE (insertSyncedRule rd fails endpoint m name) (orderSyncedRules rules) db1 = Inr db2"
    and d3: "(if list_ex ruleHasConditions rules then setPublicBillingMode fails name ''rules'' db2 else Inr db2) = Inr db'"
    by (auto simp: writeModelRules_def m_def [symmetric] Let_def split: sum.splits)
  have "onlyPriced rd db0 db1" using deleteSynced_rules [OF d1] assms(1) by (auto simp: onlyPriced_def)
  have "foldE (insertSyncedRule rd fails endpoint m name) rs a = Inr b \<Longrightarrow> \<forall>rule \<in> set rs. \<not> rulePricesNothing rd rule \<Longrightarrow> onlyPriced rd db0 a \<Longrightarrow> onlyPriced rd db0 b" for rs a b
  proof (induction rs arbitrary: a)
    case (Cons x rs)
    then obtain c where c: "insertSyncedRule rd fails endpoint m name x a = Inr c" "foldE (insertSyncedRule rd fails endpoint m name) rs c = Inr b"
      by (auto split: sum.splits)
    have "onlyPriced rd db0 c" using insertRule_rules [OF c(1)] Cons.prems(2,3) by (auto simp: onlyPriced_def storeRule_fields ratesPriceNothing_rule)
    then show ?case using Cons.IH [OF c(2)] Cons.prems(2) by simp
  qed simp
  from this [OF d2 _ \<open>onlyPriced rd db0 db1\<close>] have "onlyPriced rd db0 db2" using assms(2) by (simp add: orderSyncedRules_def)
  moreover have "pdRules db' = pdRules db2" using d3 setMode_rules by (auto split: if_splits)
  ultimately show ?thesis by (simp add: onlyPriced_def)
qed

text \<open>A synchronisation saves no rule whose rates are all 0 or missing, whatever the source sends: a model without a price never
  counts as priced because of it.\<close>

theorem no_free_rule_saved:
  assumes "saveSyncedPriceRules rd fails endpoint rules skips db = (res, db')" "r \<in> set (pdRules db')" "r \<notin> set (pdRules db)"
  shows "mrSource r = ''sync'' \<and> \<not> ratesPriceNothing rd (mrRates r)"
proof -
  let ?plan = "buildPublicRulePlan (indexModels cmPublic (pdModels db)) (indexModels cmUpstream (pdModels db)) (fst (splitZeroPricedRules rd rules))"
  obtain plan canonical where plan: "?plan = (plan, canonical)" by (cases ?plan)
  have "plannedRules plan \<subseteq> set (fst (splitZeroPricedRules rd rules))"
    using plan_rules [of "indexModels cmPublic (pdModels db)" "indexModels cmUpstream (pdModels db)" "fst (splitZeroPricedRules rd rules)"] by (simp add: plan)
  then have "\<forall>rule \<in> plannedRules plan. \<not> rulePricesNothing rd rule" by (auto simp: splitZeroPricedRules_def)
  then have priced: "\<forall>(name, rs) \<in> set plan. \<forall>rule \<in> set rs. \<not> rulePricesNothing rd rule" unfolding plannedRules_def by blast
  have "db' \<noteq> db" using assms(2,3) by auto
  with assms(1) obtain db1 stale where
      d1: "foldE (writeModelRules rd fails endpoint canonical) plan db = Inr db1" and d2: "foldE (clearStale (rdIsZero rd) fails) stale db1 = Inr db'"
    by (auto simp: saveSyncedPriceRules_def Let_def plan split_beta split: if_splits sum.splits)
  have "foldE (writeModelRules rd fails endpoint canonical) ps a = Inr b \<Longrightarrow> \<forall>(name, rs) \<in> set ps. \<forall>rule \<in> set rs. \<not> rulePricesNothing rd rule \<Longrightarrow>
      onlyPriced rd db a \<Longrightarrow> onlyPriced rd db b" for ps a b
  proof (induction ps arbitrary: a)
    case (Cons q ps)
    obtain name rs where q: "q = (name, rs)" by (cases q)
    from Cons.prems(1) obtain c where c: "writeModelRules rd fails endpoint canonical (name, rs) a = Inr c" "foldE (writeModelRules rd fails endpoint canonical) ps c = Inr b"
      by (auto simp: q split: sum.splits)
    have "onlyPriced rd db c" by (rule writeRules_priced [OF Cons.prems(3) _ c(1)]) (use Cons.prems(2) in \<open>simp add: q\<close>)
    then show ?case using Cons.IH [OF c(2)] Cons.prems(2) by simp
  qed simp
  from this [OF d1 priced] have "onlyPriced rd db db1" by (simp add: onlyPriced_def)
  moreover have "True \<and> set (pdRules db') \<subseteq> set (pdRules db1)"
  proof (rule foldE_keeps [where P = "\<lambda>_. True" and R = "\<lambda>a b. set (pdRules b) \<subseteq> set (pdRules a)", OF _ _ _ _ d2])
    show "True \<and> set (pdRules b) \<subseteq> set (pdRules a)" if "clearStale (rdIsZero rd) fails x a = Inr b" for x a b
      using that by (auto simp: clearStale_def split: sum.splits dest!: deleteSynced_rules clearZero_rules)
  qed auto
  ultimately show ?thesis using assms(2,3) by (auto simp: onlyPriced_def)
qed

subsection \<open>An example\<close>

definition exampleReader :: "(json option, rat) priceReader" where
  "exampleReader = \<lparr>rdJson = exampleJson, rdIsObject = (\<lambda>_. True), rdIsZero = (\<lambda>x. x = 0)\<rparr>"

definition exampleSyncRule :: syncedRule where
  "exampleSyncRule = \<lparr>sdModel = ''m'', sdName = ''n'', sdCurrency = ''USD'', sdConditions = ''{}'', sdRates = ''r''\<rparr>"

definition exampleOldRule :: storedRule where
  "exampleOldRule = ModelPriceRule.extend (exampleRule 4 ''manual'') \<lparr>stRef = [], stChannelModel = 1\<rparr>"

definition examplePriceDb :: "rat priceDb" where
  "examplePriceDb = \<lparr>pdModels = [\<lparr>cmId = 1, cmPublic = ''m'', cmUpstream = ''up''\<rparr>], pdPrices = [\<lparr>mpName = ''m'', mpMode = ''token'', mpRates = noRates\<lparr>prInput := Some 5\<rparr>\<rparr>],
     pdRules = [exampleOldRule], pdNext = 9\<rparr>"

definition exampleSynced :: "rat priceDb" where
  "exampleSynced = examplePriceDb\<lparr>pdRules := [exampleOldRule, storeRule 9 ''m'' ''https'' 1 exampleSyncRule], pdNext := 10\<rparr>"

lemma exampleRuleValues:
  "ruleHasConditions exampleSyncRule = False" "rulePricesNothing exampleReader exampleSyncRule = False"
  "modelPriceValuesFromRule exampleReader exampleSyncRule = Some (noRates\<lparr>prInput := Some 2\<rparr>)"
proof -
  have t: "trimSpace ''{}'' = ''{}''" by (simp add: plain_eval)
  show c: "ruleHasConditions exampleSyncRule = False" by (simp add: ruleHasConditions_def exampleSyncRule_def t)
  show "rulePricesNothing exampleReader exampleSyncRule = False"
    by (simp add: rulePricesNothing_def exampleReader_def exampleSyncRule_def exampleJson_def priceRateFields_def Let_def)
  show "modelPriceValuesFromRule exampleReader exampleSyncRule = Some (noRates\<lparr>prInput := Some 2\<rparr>)"
    by (simp add: modelPriceValuesFromRule_def c) (simp add: exampleReader_def exampleSyncRule_def exampleJson_def jsonPriceValue_def hasAny_def noRates_def Let_def)
qed

lemma exampleSync:
  "saveSyncedPriceRules exampleReader (\<lambda>_. False) ''https'' [exampleSyncRule] [] examplePriceDb = (Inr (1, []), exampleSynced)"
proof -
  let ?m = "\<lparr>cmId = 1, cmPublic = ''m'', cmUpstream = ''up''\<rparr>"
  have split0: "splitZeroPricedRules exampleReader [exampleSyncRule] = ([exampleSyncRule], [])" by (simp add: splitZeroPricedRules_def exampleRuleValues)
  have t: "trimSpace ''m'' = ''m''" by (simp add: plain_eval)
  have index0: "indexModels cmPublic [?m] = [(''m'', [?m])]" "indexModels cmUpstream [?m] = [(''up'', [?m])]"
    by (simp_all add: indexModels_def appendAt_def valuesAt_def)
  have direct: "fillBucket (newNameLookup [(''m'', [?m])]) [exampleSyncRule] newRuleBucket =
      \<lparr>rbRanks = [(''m'', 4)], rbRules = [(''m'', [exampleSyncRule])], rbCanonical = [(''m'', 1)], rbExcluded = []\<rparr>"
    by (simp add: fillBucket_def matchPublicModels_def matchName_def newNameLookup_def t exampleSyncRule_def ruleModelMatches_def ruleMatchExact_def dedupOn_def
        newRuleBucket_def bucketAdd_def Let_def)
  have folded: "toLower ''m'' = ''m''" "toLower ''up'' = ''up''" by code_simp+
  have variant: "isVariantModelName ''m'' = False" by code_simp
  have other: "fillBucket (newNameLookup [(''up'', [?m])]) [exampleSyncRule] (newRuleBucket\<lparr>rbExcluded := [''m'']\<rparr>) = newRuleBucket\<lparr>rbExcluded := [''m'']\<rparr>"
    by (simp add: fillBucket_def matchPublicModels_def matchName_def newNameLookup_def t exampleSyncRule_def matchFolded_def matchSuffix_def folded variant
        appendAt_def valuesAt_def dedupOn_def Let_def)
  have plan: "buildPublicRulePlan [(''m'', [?m])] [(''up'', [?m])] [exampleSyncRule] = ([(''m'', [exampleSyncRule])], [(''m'', 1)])"
    unfolding buildPublicRulePlan_def Let_def direct by (simp add: other [unfolded One_nat_def]) (simp add: newRuleBucket_def)
  have zero: "rdIsZero exampleReader = (\<lambda>x. x = 0)" by (simp add: exampleReader_def)
  have written: "writeModelRules exampleReader (\<lambda>_. False) ''https'' [(''m'', 1)] (''m'', [exampleSyncRule]) examplePriceDb = Inr exampleSynced"
    by (simp add: writeModelRules_def deleteSynced_def orderSyncedRules_def insertSyncedRule_def exampleRuleValues mergePublicPrice_def zero
        missingPublicPriceValues_def zipPrices_def keepUnset_def hasAny_def currentPrices_def noRates_def examplePriceDb_def exampleSynced_def exampleOldRule_def exampleRule_def
        ModelPriceRule.defs Let_def)
  have models: "pdModels examplePriceDb = [?m]" by (simp add: examplePriceDb_def)
  show ?thesis unfolding saveSyncedPriceRules_def split0 models index0
    by (simp add: staleSyncedPriceModels_def Let_def plan [unfolded One_nat_def] written [unfolded One_nat_def])
qed

theorem manual_prices_kept_witness:
  "filter (\<lambda>r. mrSource r \<noteq> ''sync'') (pdRules exampleSynced) = filter (\<lambda>r. mrSource r \<noteq> ''sync'') (pdRules examplePriceDb) \<and>
   (\<exists>q \<in> set (pdPrices exampleSynced). mpName q = ''m'' \<and> pricesKept (rdIsZero exampleReader) (noRates\<lparr>prInput := Some 5\<rparr>) (mpRates q))"
  using manual_prices_kept [OF _ exampleSync] by (simp add: pricesDistinct_def examplePriceDb_def)

theorem no_free_rule_saved_witness:
  "mrSource (storeRule 9 ''m'' ''https'' 1 exampleSyncRule) = ''sync'' \<and> \<not> ratesPriceNothing exampleReader (mrRates (storeRule 9 ''m'' ''https'' 1 exampleSyncRule))"
  by (rule no_free_rule_saved [OF exampleSync])
    (simp_all add: exampleSynced_def examplePriceDb_def storeRule_def exampleOldRule_def ModelPriceRule.defs ruleRow_def exampleRule_def)

end
