(* ===== verification/Channel_Types.thy ===== *)
theory Channel_Types
  imports Channel_Config
begin

text \<open>
  Channel types (\<^verbatim>\<open>channeltype/config.go\<close>, \<^verbatim>\<open>protocol.go\<close> and \<^verbatim>\<open>service.go\<close>): the configuration of a type with its defaults,
  how its document is read and checked, and the table of types with its cache.  A stored configuration reads back
  as itself.
\<close>

subsection \<open>Trimmed text in lower and upper case\<close>

lemma changed_plain:
  "lowerChar c \<noteq> c \<Longrightarrow> plainChar c \<and> plainChar (lowerChar c)" "upperChar c \<noteq> c \<Longrightarrow> plainChar c \<and> plainChar (upperChar c)"
  by (auto simp: lowerChar_def upperChar_def plainChar_def Let_def of_char_of split: if_splits)

lemma hasPrefix_map:
  assumes "\<And>c. f c \<noteq> c \<Longrightarrow> plainChar c \<and> plainChar (f c)" and "\<And>c. c \<in> set p \<Longrightarrow> \<not> plainChar c"
  shows "hasPrefix (map f s) p = hasPrefix s p"
proof -
  have "map f t = p \<longleftrightarrow> t = p" for t
    using assms(2)
  proof (induction t arbitrary: p)
    case (Cons c t)
    have "f c = d \<longleftrightarrow> c = d" if "\<not> plainChar d" for d using assms(1) [of c] that by metis
    with Cons show ?case by (cases p) auto
  qed simp
  then show ?thesis by (simp add: hasPrefix_def take_map)
qed

lemma trimmed_ends:
  assumes "p \<in> set space_seqs"
  shows "\<not> hasPrefix (trimSpace s) p" "\<not> hasPrefix (rev (trimSpace s)) (rev p)"
proof -
  have p: "p \<noteq> []" using assms by (rule space_seqs_nonempty)
  let ?l = "trimSeqs space_seqs s"
  let ?r = "trimSeqs (map rev space_seqs) (rev ?l)"
  show "\<not> hasPrefix (rev (trimSpace s)) (rev p)"
    using trimSeqs_no_prefix [of "rev p" "map rev space_seqs" "rev ?l"] assms p by (simp add: trimSpace_def)
  obtain u where "rev ?l = u @ ?r" using trimSeqs_suffix by blast
  then have "?l = rev ?r @ rev u" by (metis rev_append rev_rev_ident)
  then show "\<not> hasPrefix (trimSpace s) p"
    using trimSeqs_no_prefix [OF assms p, of s] by (auto simp: trimSpace_def hasPrefix_iff)
qed

lemma trimSpace_map:
  assumes "\<And>c. f c \<noteq> c \<Longrightarrow> plainChar c \<and> plainChar (f c)"
  shows "trimSpace (map f (trimSpace s)) = map f (trimSpace s)"
proof -
  let ?t = "map f (trimSpace s)"
  have "\<not> hasPrefix ?t p" if "p \<in> set space_seqs" for p
    using trimmed_ends(1) [OF that] hasPrefix_map [OF assms] space_seqs_no_plain [OF that] by simp
  then have left: "trimSeqs space_seqs ?t = ?t" by (intro trimSeqs_fixed) auto
  have "\<not> hasPrefix (rev ?t) (rev p)" if "p \<in> set space_seqs" for p
    using trimmed_ends(2) [OF that] hasPrefix_map [OF assms, of "rev p"] space_seqs_no_plain [OF that] by (simp add: rev_map)
  then have "trimSeqs (map rev space_seqs) (rev ?t) = rev ?t" by (intro trimSeqs_fixed) auto
  with left show ?thesis by (simp add: trimSpace_def)
qed

lemma trim_case [simp]:
  "trimSpace (toLower (trimSpace s)) = toLower (trimSpace s)" "trimSpace (toUpper (trimSpace s)) = toUpper (trimSpace s)"
  by (simp_all add: toLower_def toUpper_def trimSpace_map changed_plain)

lemma case_idem [simp]: "toLower (toLower s) = toLower s" "toUpper (toUpper s) = toUpper s"
  by (auto simp: toLower_def toUpper_def lowerChar_def upperChar_def Let_def of_char_of)

lemma case_Nil [simp]: "toLower s = [] \<longleftrightarrow> s = []" "toUpper s = [] \<longleftrightarrow> s = []"
  by (simp_all add: toLower_def toUpper_def)

subsection \<open>Structs as JSON\<close>

text \<open>
  A field of a struct has its name in the document, its value as JSON, and the reading of a value into the struct;
  null leaves a text, a flag or an inner struct as it is.  Unknown names are errors.
\<close>

type_synonym 'r goField = "string \<times> ('r \<Rightarrow> json) \<times> (json \<Rightarrow> 'r \<Rightarrow> 'r option)"

definition textField :: "string \<Rightarrow> ('r \<Rightarrow> string) \<Rightarrow> ((string \<Rightarrow> string) \<Rightarrow> 'r \<Rightarrow> 'r) \<Rightarrow> 'r goField" where
  "textField name get put =
     (name, (\<lambda>r. JStr (get r)), (\<lambda>v r. case v of JNull \<Rightarrow> Some r | JStr s \<Rightarrow> Some (put (\<lambda>_. s) r) | _ \<Rightarrow> None))"

definition flagField :: "string \<Rightarrow> ('r \<Rightarrow> bool) \<Rightarrow> ((bool \<Rightarrow> bool) \<Rightarrow> 'r \<Rightarrow> 'r) \<Rightarrow> 'r goField" where
  "flagField name get put =
     (name, (\<lambda>r. JBool (get r)), (\<lambda>v r. case v of JNull \<Rightarrow> Some r | JBool b \<Rightarrow> Some (put (\<lambda>_. b) r) | _ \<Rightarrow> None))"

definition textsField :: "string \<Rightarrow> ('r \<Rightarrow> string list) \<Rightarrow> ((string list \<Rightarrow> string list) \<Rightarrow> 'r \<Rightarrow> 'r) \<Rightarrow> 'r goField" where
  "textsField name get put =
     (name, (\<lambda>r. JArr (map JStr (get r))), (\<lambda>v r. map_option (\<lambda>xs. put (\<lambda>_. xs) r) (decodeSlice decodeString v)))"

fun decodeFields :: "'r goField list \<Rightarrow> (string \<times> json) list \<Rightarrow> 'r \<Rightarrow> 'r option" where
  "decodeFields layout [] r = Some r"
| "decodeFields layout ((k, v) # kvs) r =
     (case find (\<lambda>(name, _). toLower name = toLower k) layout of
        None \<Rightarrow> None
      | Some (_, _, dec) \<Rightarrow> (case dec v r of None \<Rightarrow> None | Some r1 \<Rightarrow> decodeFields layout kvs r1))"

definition decodeStruct :: "'r goField list \<Rightarrow> json \<Rightarrow> 'r \<Rightarrow> 'r option" where
  "decodeStruct layout v r = (case v of JNull \<Rightarrow> Some r | JObj kvs \<Rightarrow> decodeFields layout kvs r | _ \<Rightarrow> None)"

definition encodeStruct :: "'r goField list \<Rightarrow> 'r \<Rightarrow> json" where
  "encodeStruct layout r = JObj (map (\<lambda>(name, enc, _). (name, enc r)) layout)"

definition structField :: "string \<Rightarrow> 'a goField list \<Rightarrow> ('r \<Rightarrow> 'a) \<Rightarrow> (('a \<Rightarrow> 'a) \<Rightarrow> 'r \<Rightarrow> 'r) \<Rightarrow> 'r goField" where
  "structField name layout get put =
     (name, (\<lambda>r. encodeStruct layout (get r)), (\<lambda>v r. map_option (\<lambda>x. put (\<lambda>_. x) r) (decodeStruct layout v (get r))))"

text \<open>What is written, field by field, is what is read.\<close>

fun refill :: "'r goField list \<Rightarrow> 'r \<Rightarrow> 'r \<Rightarrow> 'r option" where
  "refill [] r old = Some old"
| "refill ((name, enc, dec) # layout) r old = (case dec (enc r) old of None \<Rightarrow> None | Some old1 \<Rightarrow> refill layout r old1)"

lemma find_field:
  assumes "distinct (map (toLower \<circ> fst) layout)" "(name, field) \<in> set layout"
  shows "find (\<lambda>(n, _). toLower n = toLower name) layout = Some (name, field)"
  using assms by (induction layout) (auto simp: rev_image_eqI)

lemma decodeStruct_refill:
  assumes "distinct (map (toLower \<circ> fst) layout)"
  shows "decodeStruct layout (encodeStruct layout r) old = refill layout r old"
proof -
  have "decodeFields layout (map (\<lambda>(name, enc, _). (name, enc r)) sub) old = refill sub r old" if "set sub \<subseteq> set layout" for sub
    using that
  proof (induction sub arbitrary: old)
    case (Cons f sub)
    obtain name enc dec where f: "f = (name, enc, dec)" by (cases f)
    then have "find (\<lambda>(n, _). toLower n = toLower name) layout = Some (name, enc, dec)"
      using Cons.prems by (intro find_field [OF assms]) simp
    then show ?case using Cons by (simp add: f split: option.split)
  qed simp
  then show ?thesis by (simp add: decodeStruct_def encodeStruct_def)
qed

definition readsBack :: "'r goField list \<Rightarrow> bool" where
  "readsBack layout \<longleftrightarrow> (\<forall>r old. decodeStruct layout (encodeStruct layout r) old = Some r)"

lemma readsBackI:
  "distinct (map (toLower \<circ> fst) layout) \<Longrightarrow> (\<And>r old. refill layout r old = Some r) \<Longrightarrow> readsBack layout"
  by (simp add: readsBack_def decodeStruct_refill)

lemma refill_fields [simp]:
  "refill (textField name get put # layout) r old = refill layout r (put (\<lambda>_. get r) old)"
  "refill (flagField name get1 put1 # layout) r old = refill layout r (put1 (\<lambda>_. get1 r) old)"
  "refill (textsField name get2 put2 # layout) r old = refill layout r (put2 (\<lambda>_. get2 r) old)"
  "readsBack inner \<Longrightarrow> refill (structField name inner get3 put3 # layout) r old = refill layout r (put3 (\<lambda>_. get3 r) old)"
  by (simp_all add: textField_def flagField_def textsField_def structField_def readsBack_def decodeAll_map)


subsection \<open>Addresses\<close>

text \<open>
  What \<^verbatim>\<open>url.Parse\<close> of \<^verbatim>\<open>net/url\<close> accepts with the scheme http or https and a host.  Percent signs must start an escape;
  in a host most other characters are errors.
\<close>

definition isLetter :: "char \<Rightarrow> bool" where
  "isLetter c \<longleftrightarrow> (let n = of_char c :: nat in 65 \<le> n \<and> n \<le> 90 \<or> 97 \<le> n \<and> n \<le> 122)"

definition isHex :: "char \<Rightarrow> bool" where
  "isHex c \<longleftrightarrow> isDigit c \<or> c \<in> set ''abcdefABCDEF''"

definition isLowHex :: "char \<Rightarrow> bool" where "isLowHex c \<longleftrightarrow> c \<in> set ''01234567''"

definition hostChar :: "char \<Rightarrow> bool" where
  "hostChar c \<longleftrightarrow> isLetter c \<or> isDigit c \<or> 128 \<le> (of_char c :: nat) \<or> c \<in> set (CHR 0x22 # CHR 0x27 # ''!$&()*+,;=:[]<>-_.~'')"

text \<open>Escapes are well formed, and those of a host are of bytes outside ASCII or of the percent sign.\<close>

fun escapesOk :: "bool \<Rightarrow> string \<Rightarrow> bool" where
  "escapesOk host [] = True"
| "escapesOk host (c # cs) =
     (if c = CHR ''%'' then
        (case cs of
           a # b # ds \<Rightarrow> isHex a \<and> isHex b \<and> (\<not> host \<or> \<not> isLowHex a \<or> a = CHR ''2'' \<and> b = CHR ''5'') \<and> escapesOk host ds
         | _ \<Rightarrow> False)
      else (\<not> host \<or> hostChar c) \<and> escapesOk host cs)"

text \<open>In the zone of an address in brackets a space and the characters of a host may be escaped as well.\<close>

definition hexValue :: "char \<Rightarrow> nat" where
  "hexValue c = (if isDigit c then digitVal c else (of_char (lowerChar c) :: nat) - 87)"

fun zoneOk :: "string \<Rightarrow> bool" where
  "zoneOk [] = True"
| "zoneOk (c # cs) =
     (if c = CHR ''%'' then
        (case cs of
           a # b # ds \<Rightarrow> isHex a \<and> isHex b \<and>
             (let v = char_of (16 * hexValue a + hexValue b) :: char
              in [a, b] = ''25'' \<or> v = CHR '' '' \<or> hostChar v \<and> (of_char v :: nat) < 128) \<and> zoneOk ds
         | _ \<Rightarrow> False)
      else hostChar c \<and> zoneOk cs)"

definition portOk :: "string \<Rightarrow> bool" where
  "portOk p = (case p of [] \<Rightarrow> True | c # cs \<Rightarrow> c = CHR '':'' \<and> list_all isDigit cs)"

definition lastPart :: "char \<Rightarrow> string \<Rightarrow> string" where
  "lastPart c s = rev (takeWhile (\<lambda>d. d \<noteq> c) (rev s))"

text \<open>The text before the last \<open>c\<close>, if there is one.\<close>

definition beforeLast :: "char \<Rightarrow> string \<Rightarrow> string option" where
  "beforeLast c s = (if c \<in> set s then Some (rev (tl (dropWhile (\<lambda>d. d \<noteq> c) (rev s)))) else None)"

fun cutAt :: "string \<Rightarrow> string \<Rightarrow> string \<times> string option" where
  "cutAt sep [] = ([], if sep = [] then Some [] else None)"
| "cutAt sep (c # cs) =
     (if hasPrefix (c # cs) sep then ([], Some (drop (length sep) (c # cs)))
      else (case cutAt sep cs of (a, b) \<Rightarrow> (c # a, b)))"

definition hostOk :: "string \<Rightarrow> bool" where
  "hostOk host =
     (if hasPrefix host ''['' then
        (case beforeLast (CHR '']'') host of
           None \<Rightarrow> False
         | Some inner \<Rightarrow>
             portOk (lastPart (CHR '']'') host) \<and>
             (case cutAt ''%25'' inner of
                (a, None) \<Rightarrow> escapesOk True host
              | (a, Some z) \<Rightarrow> escapesOk True a \<and> zoneOk (''%25'' @ z) \<and> escapesOk True (lastPart (CHR '']'') host)))
      else (CHR '':'' \<in> set host \<longrightarrow> portOk (CHR '':'' # lastPart (CHR '':'') host)) \<and> escapesOk True host)"

definition userOk :: "string \<Rightarrow> bool" where
  "userOk u \<longleftrightarrow>
     list_all (\<lambda>c. isLetter c \<or> isDigit c \<or> c \<in> set (CHR 0x27 # ''-._:~!$&()*+,;=%@'')) u \<and>
     (case cutAt '':'' u of (a, b) \<Rightarrow> escapesOk False a \<and> escapesOk False (case b of None \<Rightarrow> [] | Some p \<Rightarrow> p))"

definition authorityOk :: "string \<Rightarrow> bool" where
  "authorityOk a =
     (case beforeLast (CHR ''@'') a of
        None \<Rightarrow> hostOk a \<and> a \<noteq> []
      | Some user \<Rightarrow> userOk user \<and> hostOk (lastPart (CHR ''@'') a) \<and> lastPart (CHR ''@'') a \<noteq> [])"

definition absoluteURL :: "string \<Rightarrow> bool" where
  "absoluteURL s =
     (let (u, fragment) = cutAt ''#'' s in
      list_all (\<lambda>c. 32 \<le> (of_char c :: nat) \<and> (of_char c :: nat) \<noteq> 127) u \<and>
      (case cutAt '':'' u of
         (scheme, None) \<Rightarrow> False
       | (scheme, Some rest) \<Rightarrow>
           toLower scheme \<in> {''http'', ''https''} \<and>
           (let hier = fst (cutAt ''?'' rest) in
            hasPrefix hier ''//'' \<and>
            (let a = takeWhile (\<lambda>c. c \<noteq> CHR ''/'') (drop 2 hier); path = dropWhile (\<lambda>c. c \<noteq> CHR ''/'') (drop 2 hier)
             in authorityOk a \<and> escapesOk False path))) \<and>
      escapesOk False (case fragment of None \<Rightarrow> [] | Some f \<Rightarrow> f))"

definition IsAbsoluteHTTPURL :: "string \<Rightarrow> bool" where
  "IsAbsoluteHTTPURL value0 = absoluteURL (trimSpace value0)"


subsection \<open>The configuration of a type\<close>

record ModelConfig =
  mcMethod :: string
  mcPath :: string
  mcListPath :: string
  mcIDPath :: string
  mcAuthType :: string
  mcHeaderName :: string
  mcHeaderPrefix :: string

definition modelConfigFields :: "ModelConfig goField list" where
  "modelConfigFields =
     [textField ''method'' mcMethod mcMethod_update, textField ''path'' mcPath mcPath_update,
      textField ''listPath'' mcListPath mcListPath_update, textField ''idPath'' mcIDPath mcIDPath_update,
      textField ''authType'' mcAuthType mcAuthType_update, textField ''headerName'' mcHeaderName mcHeaderName_update,
      textField ''headerPrefix'' mcHeaderPrefix mcHeaderPrefix_update]"

record CostConfig =
  ccAdapter :: string
  ccValueType :: string
  ccMethod :: string
  ccPath :: string
  ccAuthType :: string
  ccHeaderName :: string
  ccHeaderPrefix :: string
  ccUsedPath :: string
  ccRemainingPath :: string
  ccCurrencyPath :: string
  ccFixedCurrency :: string
  ccUsagePath :: string
  ccUsageUnit :: string
  ccUsageType :: string
  ccUsageDimension :: string

definition costConfigFields :: "CostConfig goField list" where
  "costConfigFields =
     [textField ''adapter'' ccAdapter ccAdapter_update, textField ''valueType'' ccValueType ccValueType_update,
      textField ''method'' ccMethod ccMethod_update, textField ''path'' ccPath ccPath_update,
      textField ''authType'' ccAuthType ccAuthType_update, textField ''headerName'' ccHeaderName ccHeaderName_update,
      textField ''headerPrefix'' ccHeaderPrefix ccHeaderPrefix_update, textField ''usedPath'' ccUsedPath ccUsedPath_update,
      textField ''remainingPath'' ccRemainingPath ccRemainingPath_update, textField ''currencyPath'' ccCurrencyPath ccCurrencyPath_update,
      textField ''fixedCurrency'' ccFixedCurrency ccFixedCurrency_update, textField ''usagePath'' ccUsagePath ccUsagePath_update,
      textField ''usageUnit'' ccUsageUnit ccUsageUnit_update, textField ''usageType'' ccUsageType ccUsageType_update,
      textField ''usageDimension'' ccUsageDimension ccUsageDimension_update]"

record PricingConfig =
  prAdapter :: string
  prMethod :: string
  prPath :: string
  prAuthType :: string
  prHeaderName :: string
  prHeaderPrefix :: string
  prListPath :: string
  prModelPath :: string
  prNamePath :: string
  prCurrencyPath :: string
  prConditionsPath :: string
  prRatesPath :: string
  prInputPricePath :: string
  prCachedInputPricePath :: string
  prCacheWritePricePath :: string
  prOutputPricePath :: string
  prImageInputPricePath :: string
  prAudioInputPricePath :: string
  prAudioOutputPricePath :: string
  prRequestPricePath :: string

definition pricingConfigFields :: "PricingConfig goField list" where
  "pricingConfigFields =
     [textField ''adapter'' prAdapter prAdapter_update, textField ''method'' prMethod prMethod_update,
      textField ''path'' prPath prPath_update, textField ''authType'' prAuthType prAuthType_update,
      textField ''headerName'' prHeaderName prHeaderName_update, textField ''headerPrefix'' prHeaderPrefix prHeaderPrefix_update,
      textField ''listPath'' prListPath prListPath_update, textField ''modelPath'' prModelPath prModelPath_update,
      textField ''namePath'' prNamePath prNamePath_update, textField ''currencyPath'' prCurrencyPath prCurrencyPath_update,
      textField ''conditionsPath'' prConditionsPath prConditionsPath_update, textField ''ratesPath'' prRatesPath prRatesPath_update,
      textField ''inputPricePath'' prInputPricePath prInputPricePath_update, textField ''cachedInputPricePath'' prCachedInputPricePath prCachedInputPricePath_update,
      textField ''cacheWritePricePath'' prCacheWritePricePath prCacheWritePricePath_update, textField ''outputPricePath'' prOutputPricePath prOutputPricePath_update,
      textField ''imageInputPricePath'' prImageInputPricePath prImageInputPricePath_update, textField ''audioInputPricePath'' prAudioInputPricePath prAudioInputPricePath_update,
      textField ''audioOutputPricePath'' prAudioOutputPricePath prAudioOutputPricePath_update, textField ''requestPricePath'' prRequestPricePath prRequestPricePath_update]"

record EndpointConfig =
  ecMethod :: string
  ecPath :: string
  ecRequestBody :: string
  ecSupportsStream :: bool
  ecAuthType :: string
  ecHeaderName :: string
  ecHeaderPrefix :: string

definition endpointConfigFields :: "EndpointConfig goField list" where
  "endpointConfigFields =
     [textField ''method'' ecMethod ecMethod_update, textField ''path'' ecPath ecPath_update,
      textField ''requestBody'' ecRequestBody ecRequestBody_update, flagField ''supportsStream'' ecSupportsStream ecSupportsStream_update,
      textField ''authType'' ecAuthType ecAuthType_update, textField ''headerName'' ecHeaderName ecHeaderName_update,
      textField ''headerPrefix'' ecHeaderPrefix ecHeaderPrefix_update]"

record ProtocolConfig =
  poChatCompletionsOnly :: bool
  poMessagesPath :: string
  poMessagesModels :: "string list"
  poForceUpstreamStream :: bool
  poRerankModels :: "string list"

definition protocolConfigFields :: "ProtocolConfig goField list" where
  "protocolConfigFields =
     [flagField ''chatCompletionsOnly'' poChatCompletionsOnly poChatCompletionsOnly_update, textField ''messagesPath'' poMessagesPath poMessagesPath_update,
      textsField ''messagesModels'' poMessagesModels poMessagesModels_update, flagField ''forceUpstreamStream'' poForceUpstreamStream poForceUpstreamStream_update,
      textsField ''rerankModels'' poRerankModels poRerankModels_update]"

record LoginConfig =
  lgAdapter :: string
  lgPlatform :: string
  lgPrefixPath :: string

definition loginConfigFields :: "LoginConfig goField list" where
  "loginConfigFields =
     [textField ''adapter'' lgAdapter lgAdapter_update, textField ''platform'' lgPlatform lgPlatform_update,
      textField ''prefixPath'' lgPrefixPath lgPrefixPath_update]"

record QuotaConfig =
  qcAdapter :: string
  qcMethod :: string
  qcPath :: string
  qcAuthType :: string
  qcHeaderName :: string
  qcHeaderPrefix :: string

definition quotaConfigFields :: "QuotaConfig goField list" where
  "quotaConfigFields =
     [textField ''adapter'' qcAdapter qcAdapter_update, textField ''method'' qcMethod qcMethod_update,
      textField ''path'' qcPath qcPath_update, textField ''authType'' qcAuthType qcAuthType_update,
      textField ''headerName'' qcHeaderName qcHeaderName_update, textField ''headerPrefix'' qcHeaderPrefix qcHeaderPrefix_update]"

record AudioConfig =
  auAdapter :: string

definition audioConfigFields :: "AudioConfig goField list" where
  "audioConfigFields =
     [textField ''adapter'' auAdapter auAdapter_update]"

record VideoConfig =
  viAdapter :: string

definition videoConfigFields :: "VideoConfig goField list" where
  "videoConfigFields =
     [textField ''adapter'' viAdapter viAdapter_update]"

record Config =
  cfBaseURL :: string
  cfModels :: ModelConfig
  cfCosts :: CostConfig
  cfPricing :: PricingConfig
  cfAudio :: AudioConfig
  cfVideo :: VideoConfig
  cfQuota :: QuotaConfig
  cfLogin :: LoginConfig
  cfProtocol :: ProtocolConfig
  cfEndpoints :: "(string \<times> EndpointConfig) list"

text \<open>The zero values.\<close>

definition noModelConfig :: ModelConfig where
  "noModelConfig = \<lparr>mcMethod = [], mcPath = [], mcListPath = [], mcIDPath = [], mcAuthType = [], mcHeaderName = [], mcHeaderPrefix = []\<rparr>"

definition noCostConfig :: CostConfig where
  "noCostConfig = \<lparr>ccAdapter = [], ccValueType = [], ccMethod = [], ccPath = [], ccAuthType = [], ccHeaderName = [], ccHeaderPrefix = [], ccUsedPath = [], ccRemainingPath = [], ccCurrencyPath = [], ccFixedCurrency = [], ccUsagePath = [], ccUsageUnit = [], ccUsageType = [], ccUsageDimension = []\<rparr>"

definition noPricingConfig :: PricingConfig where
  "noPricingConfig = \<lparr>prAdapter = [], prMethod = [], prPath = [], prAuthType = [], prHeaderName = [], prHeaderPrefix = [], prListPath = [], prModelPath = [], prNamePath = [], prCurrencyPath = [], prConditionsPath = [], prRatesPath = [], prInputPricePath = [], prCachedInputPricePath = [], prCacheWritePricePath = [], prOutputPricePath = [], prImageInputPricePath = [], prAudioInputPricePath = [], prAudioOutputPricePath = [], prRequestPricePath = []\<rparr>"

definition noEndpointConfig :: EndpointConfig where
  "noEndpointConfig = \<lparr>ecMethod = [], ecPath = [], ecRequestBody = [], ecSupportsStream = False, ecAuthType = [], ecHeaderName = [], ecHeaderPrefix = []\<rparr>"

definition noProtocolConfig :: ProtocolConfig where
  "noProtocolConfig = \<lparr>poChatCompletionsOnly = False, poMessagesPath = [], poMessagesModels = [], poForceUpstreamStream = False, poRerankModels = []\<rparr>"

definition noLoginConfig :: LoginConfig where
  "noLoginConfig = \<lparr>lgAdapter = [], lgPlatform = [], lgPrefixPath = []\<rparr>"

definition noQuotaConfig :: QuotaConfig where
  "noQuotaConfig = \<lparr>qcAdapter = [], qcMethod = [], qcPath = [], qcAuthType = [], qcHeaderName = [], qcHeaderPrefix = []\<rparr>"

definition noAudioConfig :: AudioConfig where
  "noAudioConfig = \<lparr>auAdapter = []\<rparr>"

definition noVideoConfig :: VideoConfig where
  "noVideoConfig = \<lparr>viAdapter = []\<rparr>"

text \<open>
  The map of endpoints by name.  Reading adds to the map that is there, null clears it; every value is read into a fresh one.
\<close>

definition endpointMap :: "(string \<times> EndpointConfig) list \<Rightarrow> (string \<times> EndpointConfig) list" where
  "endpointMap es = sort_key fst (dedupOn fst (rev es))"

definition decodeEndpoint :: "string \<times> json \<Rightarrow> (string \<times> EndpointConfig) option" where
  "decodeEndpoint kv = map_option (Pair (fst kv)) (decodeStruct endpointConfigFields (snd kv) noEndpointConfig)"

fun decodeEndpoints :: "(string \<times> json) list \<Rightarrow> (string \<times> EndpointConfig) list option" where
  "decodeEndpoints [] = Some []"
| "decodeEndpoints (kv # kvs) =
     (case decodeEndpoint kv of None \<Rightarrow> None | Some e \<Rightarrow> map_option (Cons e) (decodeEndpoints kvs))"

definition endpointsField :: "Config goField" where
  "endpointsField =
     (''endpoints'', (\<lambda>c. JObj (map (\<lambda>(name, e). (name, encodeStruct endpointConfigFields e)) (cfEndpoints c))),
      (\<lambda>v c. case v of
         JNull \<Rightarrow> Some (c\<lparr>cfEndpoints := []\<rparr>)
       | JObj kvs \<Rightarrow> map_option (\<lambda>es. c\<lparr>cfEndpoints := endpointMap (cfEndpoints c @ es)\<rparr>) (decodeEndpoints kvs)
       | _ \<Rightarrow> None))"

definition configFields :: "Config goField list" where
  "configFields =
     [textField ''baseUrl'' cfBaseURL cfBaseURL_update,
      structField ''models'' modelConfigFields cfModels cfModels_update,
      structField ''costs'' costConfigFields cfCosts cfCosts_update,
      structField ''pricing'' pricingConfigFields cfPricing cfPricing_update,
      structField ''audio'' audioConfigFields cfAudio cfAudio_update,
      structField ''video'' videoConfigFields cfVideo cfVideo_update,
      structField ''quota'' quotaConfigFields cfQuota cfQuota_update,
      structField ''login'' loginConfigFields cfLogin cfLogin_update,
      structField ''protocol'' protocolConfigFields cfProtocol cfProtocol_update,
      endpointsField]"

lemma modelConfigFields_read [simp]: "readsBack modelConfigFields"
  by (rule readsBackI) (code_simp, simp add: modelConfigFields_def)

lemma costConfigFields_read [simp]: "readsBack costConfigFields"
  by (rule readsBackI) (code_simp, simp add: costConfigFields_def)

lemma pricingConfigFields_read [simp]: "readsBack pricingConfigFields"
  by (rule readsBackI) (code_simp, simp add: pricingConfigFields_def)

lemma endpointConfigFields_read [simp]: "readsBack endpointConfigFields"
  by (rule readsBackI) (code_simp, simp add: endpointConfigFields_def)

lemma protocolConfigFields_read [simp]: "readsBack protocolConfigFields"
  by (rule readsBackI) (code_simp, simp add: protocolConfigFields_def)

lemma loginConfigFields_read [simp]: "readsBack loginConfigFields"
  by (rule readsBackI) (code_simp, simp add: loginConfigFields_def)

lemma quotaConfigFields_read [simp]: "readsBack quotaConfigFields"
  by (rule readsBackI) (code_simp, simp add: quotaConfigFields_def)

lemma audioConfigFields_read [simp]: "readsBack audioConfigFields"
  by (rule readsBackI) (code_simp, simp add: audioConfigFields_def)

lemma videoConfigFields_read [simp]: "readsBack videoConfigFields"
  by (rule readsBackI) (code_simp, simp add: videoConfigFields_def)

subsection \<open>Defaults\<close>

definition defaultEndpoint :: "string \<Rightarrow> string \<Rightarrow> string \<Rightarrow> bool \<Rightarrow> EndpointConfig" where
  "defaultEndpoint method path requestBody supportsStream =
     \<lparr>ecMethod = method, ecPath = path, ecRequestBody = requestBody, ecSupportsStream = supportsStream,
      ecAuthType = ''channel_key'', ecHeaderName = ''Authorization'', ecHeaderPrefix = ''Bearer ''\<rparr>"

definition DefaultConfig :: Config where
  "DefaultConfig =
     \<lparr>cfBaseURL = ''https://api.openai.com/v1'',
      cfModels = \<lparr>mcMethod = ''GET'', mcPath = ''/models'', mcListPath = ''data'', mcIDPath = ''id'', mcAuthType = ''channel_key'',
        mcHeaderName = ''Authorization'', mcHeaderPrefix = ''Bearer ''\<rparr>,
      cfCosts = noCostConfig\<lparr>ccAdapter := ''openai_costs'', ccValueType := ''cost'', ccMethod := ''GET'', ccPath := ''/organization/costs'',
        ccAuthType := ''management_key'', ccHeaderName := ''Authorization'', ccHeaderPrefix := ''Bearer '', ccFixedCurrency := ''USD''\<rparr>,
      cfPricing = noPricingConfig\<lparr>prAdapter := ''none'', prMethod := ''GET'', prAuthType := ''channel_key'',
        prHeaderName := ''Authorization'', prHeaderPrefix := ''Bearer ''\<rparr>,
      cfAudio = \<lparr>auAdapter = ''openai''\<rparr>, cfVideo = \<lparr>viAdapter = ''openai''\<rparr>,
      cfQuota = noQuotaConfig, cfLogin = noLoginConfig, cfProtocol = noProtocolConfig,
      cfEndpoints = endpointMap
        [(''chatCompletions'', defaultEndpoint ''POST'' ''/chat/completions'' ''json'' True),
         (''responses'', defaultEndpoint ''POST'' ''/responses'' ''json'' True),
         (''embeddings'', defaultEndpoint ''POST'' ''/embeddings'' ''json'' False),
         (''rerank'', defaultEndpoint ''POST'' ''/rerank'' ''json'' False),
         (''imagesGenerations'', defaultEndpoint ''POST'' ''/images/generations'' ''json'' False),
         (''imagesEdits'', defaultEndpoint ''POST'' ''/images/edits'' ''multipart'' False),
         (''audioSpeech'', defaultEndpoint ''POST'' ''/audio/speech'' ''json'' False),
         (''audioTranscriptions'', defaultEndpoint ''POST'' ''/audio/transcriptions'' ''multipart'' False),
         (''audioTranslations'', defaultEndpoint ''POST'' ''/audio/translations'' ''multipart'' False),
         (''videoGenerations'', defaultEndpoint ''POST'' ''/videos'' ''json'' False),
         (''videoRetrieve'', defaultEndpoint ''GET'' ''/videos/{video_id}'' ''none'' False),
         (''videoContent'', defaultEndpoint ''GET'' ''/videos/{video_id}/content'' ''none'' False),
         (''videoRemix'', defaultEndpoint ''POST'' ''/videos/{video_id}/remix'' ''multipart'' False),
         (''moderations'', defaultEndpoint ''POST'' ''/moderations'' ''json'' False),
         (''files'', defaultEndpoint ''POST'' ''/files'' ''multipart'' False),
         (''batches'', defaultEndpoint ''POST'' ''/batches'' ''json'' False),
         (''fineTuningJobs'', defaultEndpoint ''POST'' ''/fine_tuning/jobs'' ''json'' False),
         (''realtimeSessions'', defaultEndpoint ''POST'' ''/realtime/sessions'' ''json'' False),
         (''realtimeClientSecrets'', defaultEndpoint ''POST'' ''/realtime/client_secrets'' ''json'' False)]\<rparr>"

subsection \<open>Normal forms\<close>

datatype type_error =
    TypeJSON | BaseURLInvalid | ModelsIncomplete | ModelsMethod | ModelsAuth
  | CostsAdapter | CostsValueType | CostsMethod | CostsAuth | CostsPath | CostsPaths | CostsUsagePaths
  | QuotaMethod | QuotaPath | QuotaAuth | QuotaAdapter | LoginPlatform | LoginPrefix | LoginAdapter
  | EndpointsEmpty | EndpointPath | EndpointMethod string | EndpointBody string | EndpointAuth string | RerankEndpoint
  | AudioAdapter | VideoAdapter
  | PricingPath | PricingMethod | PricingAuth | PricingModelPath | PricingPaths | PricingAdapter | PricingPublicOnly

definition normalizeMethod :: "string \<Rightarrow> string" where
  "normalizeMethod v = (let u = toUpper (trimSpace v) in if u = [] then ''GET'' else u)"

definition normalizeAuth :: "string \<Rightarrow> string" where
  "normalizeAuth v = (let t = trimSpace v in if t = [] then ''none'' else t)"

definition normalizeHeader :: "string \<Rightarrow> string \<Rightarrow> string" where
  "normalizeHeader v authType = (let t = trimSpace v in if t = [] \<and> authType \<noteq> ''none'' then ''Authorization'' else t)"

definition validAuth :: "string \<Rightarrow> bool" where
  "validAuth v \<longleftrightarrow> v \<in> {''none'', ''channel_key'', ''management_key''}"

definition validCostAdapter :: "string \<Rightarrow> bool" where
  "validCostAdapter v \<longleftrightarrow> v \<in> set [''none'', ''openai_costs'', ''sub2api_usage'', ''newapi_balance'', ''custom_json'', ''qiniu_costs'',
     ''siliconflow_balance'', ''openrouter_credits'', ''qiniu_usage'', ''workbuddy_credits'']"

definition validatePathField :: "string \<Rightarrow> bool" where
  "validatePathField v \<longleftrightarrow> hasPrefix v ''/'' \<or> IsAbsoluteHTTPURL v"

definition normalizeBaseURL :: "string \<Rightarrow> type_error + string" where
  "normalizeBaseURL v =
     (let u = trimRightSlash (trimSpace v)
      in if u = [] then Inr [] else if absoluteURL u then Inr u else Inl BaseURLInvalid)"

definition normalizeModelConfig :: "ModelConfig \<Rightarrow> type_error + ModelConfig" where
  "normalizeModelConfig c =
     (let auth = normalizeAuth (mcAuthType c);
          c = c\<lparr>mcMethod := normalizeMethod (mcMethod c), mcPath := trimSpace (mcPath c), mcListPath := trimSpace (mcListPath c),
            mcIDPath := trimSpace (mcIDPath c), mcAuthType := auth, mcHeaderName := normalizeHeader (mcHeaderName c) auth\<rparr>
      in if mcPath c = [] \<or> mcIDPath c = [] then Inl ModelsIncomplete
         else if mcMethod c \<noteq> ''GET'' then Inl ModelsMethod
         else if \<not> validAuth (mcAuthType c) then Inl ModelsAuth
         else Inr c)"

text \<open>An empty value type is a cost; the credits of WorkBuddy are always a count.\<close>

definition costValueType :: "string \<Rightarrow> string \<Rightarrow> string" where
  "costValueType adapter v =
     (let t = (if adapter = ''workbuddy_credits'' then ''usage'' else trimSpace v) in if t = [] then ''cost'' else t)"

definition adapterName :: "string \<Rightarrow> string" where
  "adapterName v = (let t = trimSpace v in if t = [] then ''none'' else t)"

definition trimmedCosts :: "CostConfig \<Rightarrow> CostConfig" where
  "trimmedCosts c =
     (let adapter = adapterName (ccAdapter c); auth = normalizeAuth (ccAuthType c)
      in c\<lparr>ccAdapter := adapter, ccValueType := costValueType adapter (ccValueType c), ccMethod := normalizeMethod (ccMethod c),
           ccPath := trimSpace (ccPath c), ccAuthType := auth, ccHeaderName := normalizeHeader (ccHeaderName c) auth,
           ccFixedCurrency := toUpper (trimSpace (ccFixedCurrency c)), ccUsagePath := trimSpace (ccUsagePath c),
           ccUsageUnit := trimSpace (ccUsageUnit c), ccUsageType := trimSpace (ccUsageType c),
           ccUsageDimension := trimSpace (ccUsageDimension c)\<rparr>)"

definition workBuddyCosts :: "CostConfig \<Rightarrow> type_error + CostConfig" where
  "workBuddyCosts c =
     (let method = (let u = toUpper (trimSpace (ccMethod c)) in if u = [] then ''POST'' else u);
          auth = (let a = normalizeAuth (ccAuthType c) in if a = ''none'' then ''channel_key'' else a)
      in if method \<noteq> ''POST'' then Inl CostsMethod
         else if \<not> validAuth auth then Inl CostsAuth
         else Inr (c\<lparr>ccMethod := method, ccAuthType := auth, ccHeaderName := normalizeHeader (ccHeaderName c) auth\<rparr>))"

definition normalizeCostConfig :: "CostConfig \<Rightarrow> type_error + CostConfig" where
  "normalizeCostConfig c0 =
     (let c = trimmedCosts c0 in
      if \<not> validCostAdapter (ccAdapter c) then Inl CostsAdapter
      else if ccValueType c \<noteq> ''cost'' \<and> ccValueType c \<noteq> ''usage'' then Inl CostsValueType
      else if ccAdapter c = ''none'' then Inr c
      else if ccAdapter c = ''workbuddy_credits'' then workBuddyCosts c
      else if ccPath c = [] then Inl CostsPath
      else if ccMethod c \<noteq> ''GET'' then Inl CostsMethod
      else if \<not> validAuth (ccAuthType c) then Inl CostsAuth
      else if ccAdapter c = ''custom_json'' \<and> ccValueType c = ''cost'' \<and> ccUsedPath c = [] \<and> ccRemainingPath c = [] then Inl CostsPaths
      else if ccAdapter c = ''custom_json'' \<and> ccValueType c = ''usage'' \<and> ccUsagePath c = [] \<and> ccUsedPath c = [] then Inl CostsUsagePaths
      else Inr c)"

text \<open>The request of a quota page: \<open>emptyPath\<close> is what an empty path stands for.\<close>

definition quotaAuthorised :: "QuotaConfig \<Rightarrow> type_error + QuotaConfig" where
  "quotaAuthorised c =
     (let auth = (let a = normalizeAuth (qcAuthType c) in if a = ''none'' then ''channel_key'' else a)
      in if \<not> validAuth auth then Inl QuotaAuth
         else Inr (c\<lparr>qcAuthType := auth, qcHeaderName := normalizeHeader (qcHeaderName c) auth\<rparr>))"

definition normalizeQuotaConfig :: "QuotaConfig \<Rightarrow> type_error + QuotaConfig" where
  "normalizeQuotaConfig c0 =
     (let adapter = toLower (trimSpace (qcAdapter c0)); c = c0\<lparr>qcAdapter := adapter\<rparr>;
          method = toUpper (trimSpace (qcMethod c)); path = trimSpace (qcPath c)
      in if adapter = [] \<or> adapter = ''none'' then Inr (noQuotaConfig\<lparr>qcAdapter := ''none''\<rparr>)
         else if adapter = ''opencode_go_usage'' then
           Inr (c\<lparr>qcMethod := ''GET'', qcAuthType := ''channel_key'', qcHeaderName := ''Authorization'', qcHeaderPrefix := ''Bearer ''\<rparr>)
         else if adapter = ''volcengine_afp'' then
           Inr (c\<lparr>qcMethod := ''GET'', qcAuthType := ''management_key'', qcHeaderName := ''Authorization'', qcHeaderPrefix := ''Bearer '',
             qcPath := (if hasPrefix (qcPath c) ''/'' then qcPath c else ''/'')\<rparr>)
         else if adapter = ''workbuddy_credits'' then
           (if (if method = [] then ''POST'' else method) \<noteq> ''POST'' then Inl QuotaMethod
            else if path \<noteq> [] \<and> \<not> validatePathField path then Inl QuotaPath
            else quotaAuthorised (c\<lparr>qcMethod := ''POST'', qcPath := path\<rparr>))
         else if adapter \<noteq> ''zhipu_coding_plan'' then Inl QuotaAdapter
         else if (if method = [] then ''GET'' else method) \<noteq> ''GET'' then Inl QuotaMethod
         else let path = (if path = [] then ''/api/monitor/usage/quota/limit'' else path) in
           if \<not> validatePathField path then Inl QuotaPath
           else quotaAuthorised (c\<lparr>qcMethod := ''GET'', qcPath := path\<rparr>))"

definition normalizeLoginConfig :: "LoginConfig \<Rightarrow> type_error + LoginConfig" where
  "normalizeLoginConfig c =
     (let adapter = toLower (trimSpace (lgAdapter c)); platform = toLower (trimSpace (lgPlatform c)); path = trimSpace (lgPrefixPath c)
      in if adapter = [] \<or> adapter = ''none'' then Inr noLoginConfig
         else if adapter \<noteq> ''external_link'' then Inl LoginAdapter
         else if platform = [] then Inl LoginPlatform
         else if path = [] then Inr \<lparr>lgAdapter = adapter, lgPlatform = platform, lgPrefixPath = ''/plugin''\<rparr>
         else if \<not> hasPrefix path ''/'' then Inl LoginPrefix
         else Inr \<lparr>lgAdapter = adapter, lgPlatform = platform, lgPrefixPath = path\<rparr>)"

text \<open>The endpoints are looked at in the order of their names; in the code the order of a map decides which of several errors is reported.\<close>

definition trimmedEndpoint :: "EndpointConfig \<Rightarrow> EndpointConfig" where
  "trimmedEndpoint c =
     (let auth = normalizeAuth (ecAuthType c)
      in c\<lparr>ecMethod := toUpper (trimSpace (ecMethod c)), ecPath := trimSpace (ecPath c),
           ecRequestBody := toLower (trimSpace (ecRequestBody c)), ecAuthType := auth, ecHeaderName := normalizeHeader (ecHeaderName c) auth\<rparr>)"

definition normalizeEndpoint :: "string \<Rightarrow> EndpointConfig \<Rightarrow> type_error + EndpointConfig" where
  "normalizeEndpoint name c0 =
     (let c = trimmedEndpoint c0
      in if name = [] \<or> ecPath c = [] \<or> \<not> hasPrefix (ecPath c) ''/'' then Inl EndpointPath
         else if ecMethod c \<notin> {''GET'', ''POST'', ''DELETE''} then Inl (EndpointMethod name)
         else if ecRequestBody c \<notin> {''json'', ''multipart'', ''none''} then Inl (EndpointBody name)
         else if \<not> validAuth (ecAuthType c) then Inl (EndpointAuth name)
         else if name = ''rerank'' \<and> (ecMethod c \<noteq> ''POST'' \<or> ecRequestBody c \<noteq> ''json'' \<or> ecSupportsStream c) then Inl RerankEndpoint
         else Inr c)"

fun normalizeEndpoints :: "(string \<times> EndpointConfig) list \<Rightarrow> type_error + (string \<times> EndpointConfig) list" where
  "normalizeEndpoints [] = Inr []"
| "normalizeEndpoints ((name, c) # es) =
     (case normalizeEndpoint name c of
        Inl e \<Rightarrow> Inl e
      | Inr c1 \<Rightarrow> (case normalizeEndpoints es of Inl e \<Rightarrow> Inl e | Inr es1 \<Rightarrow> Inr ((name, c1) # es1)))"

definition normalizeEndpointConfigs :: "(string \<times> EndpointConfig) list \<Rightarrow> type_error + (string \<times> EndpointConfig) list" where
  "normalizeEndpointConfigs es = (if es = [] then Inl EndpointsEmpty else normalizeEndpoints es)"

definition pricePathsEmpty :: "PricingConfig \<Rightarrow> bool" where
  "pricePathsEmpty c \<longleftrightarrow>
     prRatesPath c = [] \<and> prInputPricePath c = [] \<and> prCachedInputPricePath c = [] \<and> prCacheWritePricePath c = [] \<and> prOutputPricePath c = [] \<and>
     prImageInputPricePath c = [] \<and> prAudioInputPricePath c = [] \<and> prAudioOutputPricePath c = [] \<and> prRequestPricePath c = []"

definition trimmedPricing :: "PricingConfig \<Rightarrow> PricingConfig" where
  "trimmedPricing c =
     (let auth = normalizeAuth (prAuthType c)
      in c\<lparr>prAdapter := adapterName (prAdapter c), prMethod := normalizeMethod (prMethod c), prPath := trimSpace (prPath c), prAuthType := auth,
           prHeaderName := normalizeHeader (prHeaderName c) auth, prListPath := trimSpace (prListPath c), prModelPath := trimSpace (prModelPath c)\<rparr>)"

definition ParsePricingConfig :: "PricingConfig \<Rightarrow> type_error + PricingConfig" where
  "ParsePricingConfig c0 =
     (let c = trimmedPricing c0
      in if prAdapter c = ''none'' then Inr c
         else if prPath c = [] then Inl PricingPath
         else if prMethod c \<noteq> ''GET'' then Inl PricingMethod
         else if \<not> validAuth (prAuthType c) then Inl PricingAuth
         else if prAdapter c = ''json'' then
           (if prModelPath c = [] then Inl PricingModelPath else if pricePathsEmpty c then Inl PricingPaths else Inr c)
         else if prAdapter c = ''newapi_ratio'' then Inr c
         else Inl PricingAdapter)"

definition normalizeAudio :: "string \<Rightarrow> type_error + string" where
  "normalizeAudio v =
     (let t = toLower (trimSpace v)
      in if t = [] \<or> t = ''openai'' then Inr ''openai'' else if t = ''chat'' then Inr t else Inl AudioAdapter)"

definition normalizeVideo :: "string \<Rightarrow> type_error + string" where
  "normalizeVideo v =
     (let t = toLower (trimSpace v)
      in if t = [] \<or> t = ''openai'' then Inr ''openai'' else if t \<in> {''minimax'', ''volcengine_ark''} then Inr t else Inl VideoAdapter)"

subsection \<open>Reading a configuration\<close>

text \<open>The parts given replace the defaults of the endpoints, the audio and the video adapter as a whole.\<close>

definition supplies :: "string \<Rightarrow> json \<Rightarrow> bool" where
  "supplies name v = (case v of JObj kvs \<Rightarrow> list_ex (\<lambda>(k, _). toLower k = name) kvs | _ \<Rightarrow> False)"

definition suppliedDefaults :: "json \<Rightarrow> Config" where
  "suppliedDefaults v =
     DefaultConfig\<lparr>cfEndpoints := (if supplies ''endpoints'' v then [] else cfEndpoints DefaultConfig),
       cfAudio := (if supplies ''audio'' v then noAudioConfig else cfAudio DefaultConfig),
       cfVideo := (if supplies ''video'' v then noVideoConfig else cfVideo DefaultConfig)\<rparr>"

abbreviation onRight :: "'e + 'a \<Rightarrow> ('a \<Rightarrow> 'e + 'b) \<Rightarrow> 'e + 'b" where
  "onRight r f \<equiv> (case r of Inl e \<Rightarrow> Inl e | Inr x \<Rightarrow> f x)"

definition normalizeConfig :: "Config \<Rightarrow> type_error + Config" where
  "normalizeConfig c =
     onRight (normalizeBaseURL (cfBaseURL c)) (\<lambda>base.
     onRight (normalizeModelConfig (cfModels c)) (\<lambda>models.
     onRight (normalizeCostConfig (cfCosts c)) (\<lambda>costs.
     onRight (normalizeQuotaConfig (cfQuota c)) (\<lambda>quota.
     onRight (normalizeLoginConfig (cfLogin c)) (\<lambda>login.
     onRight (normalizeEndpointConfigs (cfEndpoints c)) (\<lambda>endpoints.
     onRight (normalizeAudio (auAdapter (cfAudio c))) (\<lambda>audio.
     onRight (normalizeVideo (viAdapter (cfVideo c))) (\<lambda>video.
     onRight (ParsePricingConfig (cfPricing c)) (\<lambda>pricing.
       if prAdapter pricing = ''newapi_ratio'' then Inl PricingPublicOnly
       else Inr \<lparr>cfBaseURL = base, cfModels = models, cfCosts = costs, cfPricing = pricing, cfAudio = \<lparr>auAdapter = audio\<rparr>,
         cfVideo = \<lparr>viAdapter = video\<rparr>, cfQuota = quota, cfLogin = login, cfProtocol = cfProtocol c, cfEndpoints = endpoints\<rparr>)))))))))"

text \<open>\<open>tree\<close> gives the document of a text.\<close>

definition ParseConfig :: "(string \<Rightarrow> json option) \<Rightarrow> string \<Rightarrow> type_error + Config" where
  "ParseConfig tree raw =
     (if trimSpace raw = [] \<or> trimSpace raw = ''null'' then normalizeConfig DefaultConfig
      else case tree (trimSpace raw) of
        None \<Rightarrow> Inl TypeJSON
      | Some v \<Rightarrow>
          (case decodeStruct configFields v (suppliedDefaults v) of
             None \<Rightarrow> Inl TypeJSON
           | Some c \<Rightarrow> normalizeConfig c))"

definition configJson :: "Config \<Rightarrow> json" where
  "configJson c = encodeStruct configFields c"

subsection \<open>A stored configuration reads back as itself\<close>

lemma plain_literals [simp]:
  "trimSpace ''GET'' = ''GET''" "trimSpace ''POST'' = ''POST''" "trimSpace ''none'' = ''none''" "trimSpace ''channel_key'' = ''channel_key''"
  "trimSpace ''Authorization'' = ''Authorization''" "trimSpace ''cost'' = ''cost''" "trimSpace ''usage'' = ''usage''" "trimSpace ''/'' = ''/''"
  "trimSpace ''/plugin'' = ''/plugin''" "trimSpace ''/api/monitor/usage/quota/limit'' = ''/api/monitor/usage/quota/limit''"
  "trimSpace ''openai'' = ''openai''" "trimSpace ''management_key'' = ''management_key''" "trimSpace ''chat'' = ''chat''"
  "trimSpace ''minimax'' = ''minimax''" "trimSpace ''volcengine_ark'' = ''volcengine_ark''" "trimSpace ''opencode_go_usage'' = ''opencode_go_usage''"
  "trimSpace ''volcengine_afp'' = ''volcengine_afp''" "trimSpace ''workbuddy_credits'' = ''workbuddy_credits''"
  "trimSpace ''zhipu_coding_plan'' = ''zhipu_coding_plan''" "trimSpace ''external_link'' = ''external_link''"
  "trimSpace ''json'' = ''json''" "trimSpace ''newapi_ratio'' = ''newapi_ratio''"
  by (simp_all add: trimSpace_plain plainChar_def)

lemma case_literals [simp]:
  "toUpper ''GET'' = ''GET''" "toUpper ''POST'' = ''POST''" "toLower ''none'' = ''none''" "toLower ''openai'' = ''openai''"
  "toLower ''chat'' = ''chat''" "toLower ''minimax'' = ''minimax''" "toLower ''volcengine_ark'' = ''volcengine_ark''"
  "toLower ''opencode_go_usage'' = ''opencode_go_usage''" "toLower ''volcengine_afp'' = ''volcengine_afp''"
  "toLower ''workbuddy_credits'' = ''workbuddy_credits''" "toLower ''zhipu_coding_plan'' = ''zhipu_coding_plan''"
  "toLower ''external_link'' = ''external_link''" "toLower ''json'' = ''json''"
  by code_simp+

lemma normal_literals [simp]:
  "normalizeMethod ''GET'' = ''GET''" "normalizeMethod ''POST'' = ''POST''" "normalizeAuth ''none'' = ''none''"
  "normalizeAuth ''channel_key'' = ''channel_key''" "normalizeAuth ''management_key'' = ''management_key''"
  "validAuth ''channel_key''" "validatePathField ''/api/monitor/usage/quota/limit''" "hasPrefix ''/'' ''/''" "hasPrefix ''/plugin'' ''/''"
  by (simp_all add: normalizeMethod_def normalizeAuth_def validAuth_def validatePathField_def hasPrefix_def)

lemma normal_method [simp]: "normalizeMethod (normalizeMethod v) = normalizeMethod v"
  by (simp add: normalizeMethod_def Let_def)

lemma normal_auth [simp]: "normalizeAuth (normalizeAuth v) = normalizeAuth v"
  by (simp add: normalizeAuth_def Let_def)

lemma normal_header [simp]: "normalizeHeader (normalizeHeader v a) a = normalizeHeader v a"
  by (simp add: normalizeHeader_def Let_def)

lemma models_again: "normalizeModelConfig c = Inr d \<Longrightarrow> normalizeModelConfig d = Inr d"
  by (cases c) (auto simp: normalizeModelConfig_def Let_def split: if_splits)

lemma costValueType_again [simp]: "costValueType a (costValueType a v) = costValueType a v"
  by (simp add: costValueType_def Let_def)

lemma adapterName_again [simp]: "adapterName (adapterName v) = adapterName v"
  by (simp add: adapterName_def Let_def)

lemma trimmedEndpoint_again [simp]: "trimmedEndpoint (trimmedEndpoint c) = trimmedEndpoint c"
  by (cases c) (simp add: trimmedEndpoint_def Let_def)

lemma trimmedPricing_again [simp]: "trimmedPricing (trimmedPricing c) = trimmedPricing c"
  by (cases c) (simp add: trimmedPricing_def Let_def)

lemma trimmedCosts_again [simp]: "trimmedCosts (trimmedCosts c) = trimmedCosts c"
  by (cases c) (simp add: trimmedCosts_def Let_def)

lemma trimmedCosts_set:
  "trimmedCosts t = t \<Longrightarrow> normalizeMethod m = m \<Longrightarrow> normalizeAuth a = a \<Longrightarrow> normalizeHeader h a = h \<Longrightarrow>
    trimmedCosts (t\<lparr>ccMethod := m, ccAuthType := a, ccHeaderName := h\<rparr>) = t\<lparr>ccMethod := m, ccAuthType := a, ccHeaderName := h\<rparr>"
  by (cases t) (clarsimp simp: trimmedCosts_def Let_def)

lemma workBuddyCosts_again:
  assumes "workBuddyCosts t = Inr d" "trimmedCosts t = t"
  shows "workBuddyCosts d = Inr d \<and> trimmedCosts d = d \<and> ccAdapter d = ccAdapter t \<and> ccValueType d = ccValueType t"
proof -
  let ?auth = "if normalizeAuth (ccAuthType t) = ''none'' then ''channel_key'' else normalizeAuth (ccAuthType t)"
  from assms(1) have d: "d = t\<lparr>ccMethod := ''POST'', ccAuthType := ?auth, ccHeaderName := normalizeHeader (ccHeaderName t) ?auth\<rparr>"
    and ok: "validAuth ?auth"
    by (auto simp: workBuddyCosts_def Let_def split: if_splits)
  have auth: "normalizeAuth ?auth = ?auth" "?auth \<noteq> ''none''" by auto
  have "trimmedCosts d = d" unfolding d by (rule trimmedCosts_set [OF assms(2)]) (use auth in simp_all)
  moreover have "workBuddyCosts d = Inr d" unfolding d workBuddyCosts_def Let_def using ok auth by (simp del: if_split)
  ultimately show ?thesis by (simp add: d)
qed

lemma costs_again:
  assumes "normalizeCostConfig c = Inr d"
  shows "normalizeCostConfig d = Inr d"
proof (cases "ccAdapter (trimmedCosts c) = ''workbuddy_credits''")
  case True
  with assms have w: "workBuddyCosts (trimmedCosts c) = Inr d" by (simp add: normalizeCostConfig_def Let_def split: if_splits)
  from workBuddyCosts_again [OF w] assms True show ?thesis by (simp add: normalizeCostConfig_def Let_def split: if_splits)
next
  case False
  with assms have "d = trimmedCosts c" by (simp add: normalizeCostConfig_def Let_def split: if_splits)
  moreover have "normalizeCostConfig (trimmedCosts c) = normalizeCostConfig c" by (simp add: normalizeCostConfig_def)
  ultimately show ?thesis using assms by simp
qed

lemma quotaAuthorised_again: "quotaAuthorised c = Inr d \<Longrightarrow> quotaAuthorised d = Inr d"
  by (cases c) (auto simp: quotaAuthorised_def Let_def split: if_splits)

lemma quotaAuthorised_kept:
  "quotaAuthorised c = Inr d \<Longrightarrow> qcAdapter d = qcAdapter c \<and> qcMethod d = qcMethod c \<and> qcPath d = qcPath c"
  by (auto simp: quotaAuthorised_def Let_def split: if_splits)

lemma quota_same: "qcAdapter d = a \<Longrightarrow> qcMethod d = m \<Longrightarrow> qcPath d = p \<Longrightarrow> d\<lparr>qcAdapter := a, qcMethod := m, qcPath := p\<rparr> = d"
  by (cases d) simp

lemma quota_again:
  assumes "normalizeQuotaConfig c = Inr d"
  shows "normalizeQuotaConfig d = Inr d"
proof -
  let ?a = "toLower (trimSpace (qcAdapter c))" let ?p = "trimSpace (qcPath c)"
  let ?q = "if ?p = [] then ''/api/monitor/usage/quota/limit'' else ?p"
  consider "?a = [] \<or> ?a = ''none''" | "?a = ''opencode_go_usage''" | "?a = ''volcengine_afp''" | "?a = ''workbuddy_credits''" | "?a = ''zhipu_coding_plan''"
    using assms by (auto simp: normalizeQuotaConfig_def Let_def split: if_splits)
  then show ?thesis
  proof cases
    case 1
    with assms show ?thesis by (auto simp: normalizeQuotaConfig_def)
  next
    case 2
    with assms show ?thesis by (cases c; cases d) (auto simp: normalizeQuotaConfig_def Let_def hasPrefix_def)
  next
    case 3
    show ?thesis
    proof (cases "hasPrefix (qcPath c) ''/''")
      case True
      with 3 assms have "d = c\<lparr>qcAdapter := ''volcengine_afp'', qcMethod := ''GET'', qcAuthType := ''management_key'',
          qcHeaderName := ''Authorization'', qcHeaderPrefix := ''Bearer ''\<rparr>"
        by (simp add: normalizeQuotaConfig_def)
      then show ?thesis using True by (simp add: normalizeQuotaConfig_def)
    next
      case False
      with 3 assms have "d = c\<lparr>qcAdapter := ''volcengine_afp'', qcMethod := ''GET'', qcAuthType := ''management_key'',
          qcHeaderName := ''Authorization'', qcHeaderPrefix := ''Bearer '', qcPath := ''/''\<rparr>"
        by (simp add: normalizeQuotaConfig_def)
      then show ?thesis by (simp add: normalizeQuotaConfig_def)
    qed
  next
    case 4
    with assms have a: "quotaAuthorised (c\<lparr>qcAdapter := ?a, qcMethod := ''POST'', qcPath := ?p\<rparr>) = Inr d" and p: "?p = [] \<or> validatePathField ?p"
      by (auto simp: normalizeQuotaConfig_def Let_def split: if_splits)
    from quotaAuthorised_kept [OF a] 4 have d: "qcAdapter d = ''workbuddy_credits''" "qcMethod d = ''POST''" "qcPath d = ?p" by simp_all
    then show ?thesis using p quotaAuthorised_again [OF a]
      by (simp add: normalizeQuotaConfig_def Let_def quota_same)
  next
    case 5
    with assms have a: "quotaAuthorised (c\<lparr>qcAdapter := ?a, qcMethod := ''GET'', qcPath := ?q\<rparr>) = Inr d" and q: "validatePathField ?q"
      by (auto simp: normalizeQuotaConfig_def Let_def split: if_splits)
    from quotaAuthorised_kept [OF a] 5 have d: "qcAdapter d = ''zhipu_coding_plan''" "qcMethod d = ''GET''" "qcPath d = ?q" by simp_all
    have t: "trimSpace ?q = ?q" "?q \<noteq> []" by simp_all
    show ?thesis using q quotaAuthorised_again [OF a] d t
      by (simp add: normalizeQuotaConfig_def Let_def quota_same del: if_split)
  qed
qed

lemma login_again: "normalizeLoginConfig c = Inr d \<Longrightarrow> normalizeLoginConfig d = Inr d"
  by (auto simp: normalizeLoginConfig_def noLoginConfig_def hasPrefix_def Let_def split: if_splits)

lemma endpoint_again:
  assumes "normalizeEndpoint name c = Inr d"
  shows "normalizeEndpoint name d = Inr d"
proof -
  from assms have "d = trimmedEndpoint c" by (simp add: normalizeEndpoint_def Let_def split: if_splits)
  moreover have "normalizeEndpoint name (trimmedEndpoint c) = normalizeEndpoint name c" by (simp add: normalizeEndpoint_def)
  ultimately show ?thesis using assms by simp
qed

lemma endpoints_again: "normalizeEndpoints es = Inr fs \<Longrightarrow> normalizeEndpoints fs = Inr fs \<and> map fst fs = map fst es"
  by (induction es arbitrary: fs) (auto simp: endpoint_again split: sum.splits)

lemma endpointConfigs_again: "normalizeEndpointConfigs es = Inr fs \<Longrightarrow> normalizeEndpointConfigs fs = Inr fs \<and> map fst fs = map fst es"
  using endpoints_again [of es fs] by (auto simp: normalizeEndpointConfigs_def split: if_splits)

lemma pricing_again:
  assumes "ParsePricingConfig c = Inr d"
  shows "ParsePricingConfig d = Inr d"
proof -
  from assms have "d = trimmedPricing c" by (simp add: ParsePricingConfig_def Let_def split: if_splits)
  moreover have "ParsePricingConfig (trimmedPricing c) = ParsePricingConfig c" by (simp add: ParsePricingConfig_def)
  ultimately show ?thesis using assms by simp
qed

lemma audio_again: "normalizeAudio v = Inr t \<Longrightarrow> normalizeAudio t = Inr t"
  by (auto simp: normalizeAudio_def Let_def split: if_splits)

lemma video_again: "normalizeVideo v = Inr t \<Longrightarrow> normalizeVideo t = Inr t"
  by (auto simp: normalizeVideo_def Let_def split: if_splits)

text \<open>Everything but the address is in normal form; an address may still end with a blank.\<close>

lemma normalizeConfig_again:
  assumes "normalizeConfig c = Inr d" "trimSpace (cfBaseURL d) = cfBaseURL d"
  shows "normalizeConfig d = Inr d"
proof -
  from assms(1) obtain base models costs quota login endpoints audio video pricing
    where n: "normalizeBaseURL (cfBaseURL c) = Inr base" "normalizeModelConfig (cfModels c) = Inr models" "normalizeCostConfig (cfCosts c) = Inr costs"
      "normalizeQuotaConfig (cfQuota c) = Inr quota" "normalizeLoginConfig (cfLogin c) = Inr login"
      "normalizeEndpointConfigs (cfEndpoints c) = Inr endpoints" "normalizeAudio (auAdapter (cfAudio c)) = Inr audio"
      "normalizeVideo (viAdapter (cfVideo c)) = Inr video" "ParsePricingConfig (cfPricing c) = Inr pricing" "prAdapter pricing \<noteq> ''newapi_ratio''"
    and d: "d = \<lparr>cfBaseURL = base, cfModels = models, cfCosts = costs, cfPricing = pricing, cfAudio = \<lparr>auAdapter = audio\<rparr>,
         cfVideo = \<lparr>viAdapter = video\<rparr>, cfQuota = quota, cfLogin = login, cfProtocol = cfProtocol c, cfEndpoints = endpoints\<rparr>"
    by (auto simp: normalizeConfig_def split: sum.splits if_splits)
  have slash: "trimRightSlash (trimRightSlash s) = trimRightSlash s" for s
    by (simp add: trimRightSlash_def dropWhile_idem)
  have "normalizeBaseURL base = Inr base"
    using n(1) assms(2) by (auto simp: normalizeBaseURL_def d Let_def slash split: if_splits) (simp add: trimRightSlash_def)
  then show ?thesis
    using models_again [OF n(2)] costs_again [OF n(3)] quota_again [OF n(4)] login_again [OF n(5)] endpointConfigs_again [OF n(6)]
      audio_again [OF n(7)] video_again [OF n(8)] pricing_again [OF n(9)] n(10)
    by (simp add: normalizeConfig_def d)
qed

end
