(* ===== verification/Type_Store.thy ===== *)
theory Type_Store
  imports Channel_Types Protocol_Plan
begin

text \<open>
  The table of channel types (\<^verbatim>\<open>channeltype/service.go\<close>) with its cache, the choice of the protocol for a request
  (\<^verbatim>\<open>channeltype/protocol.go\<close>, \<^verbatim>\<open>relay/protocol_attempt.go\<close>), and the round trip of stored configurations.
\<close>

subsection \<open>Reading back\<close>

definition canonical :: "(string \<times> 'a) list \<Rightarrow> bool" where
  "canonical es \<longleftrightarrow> distinct (map fst es) \<and> sorted (map fst es)"

lemma endpointMap_canonical [simp]: "canonical (endpointMap es)"
proof -
  have d: "distinct (map fst (dedupOn fst (rev es)))" by (rule dedupOn_distinct)
  have "mset (map fst (sort_key fst (dedupOn fst (rev es)))) = mset (map fst (dedupOn fst (rev es)))" by simp
  then have "distinct (map fst (sort_key fst (dedupOn fst (rev es))))" using d by (metis mset_eq_imp_distinct_iff)
  then show ?thesis by (simp add: canonical_def endpointMap_def)
qed

lemma canonical_Nil [simp]: "canonical []"
  by (simp add: canonical_def)

lemma endpointMap_same:
  assumes "canonical es"
  shows "endpointMap es = es"
proof -
  have i: "inj_on fst (set es)" using assms by (simp add: canonical_def distinct_map)
  have "dedupOn fst (rev es) = rev es" using assms by (intro dedupOn_fixed) (simp add: canonical_def rev_map [symmetric])
  moreover have "sort_key fst (rev es) = es"
    using i assms by (intro sort_key_inj_key_eq) (auto simp: canonical_def)
  ultimately show ?thesis by (simp add: endpointMap_def)
qed

lemma decodeEndpoints_encoded:
  "decodeEndpoints (map (\<lambda>(name, e). (name, encodeStruct endpointConfigFields e)) es) = Some es"
  using endpointConfigFields_read by (induction es) (auto simp: decodeEndpoint_def readsBack_def)

lemma refill_endpoints [simp]:
  "refill (endpointsField # layout) c old = refill layout c (old\<lparr>cfEndpoints := endpointMap (cfEndpoints old @ cfEndpoints c)\<rparr>)"
  by (simp add: endpointsField_def decodeEndpoints_encoded)

lemma config_distinct: "distinct (map (toLower \<circ> fst) configFields)"
  by code_simp

lemma decode_config:
  assumes "canonical (cfEndpoints c)" "cfEndpoints old = []"
  shows "decodeStruct configFields (configJson c) old = Some c"
  unfolding configJson_def decodeStruct_refill [OF config_distinct]
  using assms by (simp add: configFields_def endpointMap_same)

text \<open>The map of a configuration that was read is in its normal form.\<close>

lemma decodeFields_keeps:
  assumes "\<And>name enc dec v r r1. (name, enc, dec) \<in> set layout \<Longrightarrow> P r \<Longrightarrow> dec v r = Some r1 \<Longrightarrow> P r1"
  shows "P r \<Longrightarrow> decodeFields layout kvs r = Some r1 \<Longrightarrow> P r1"
proof (induction kvs arbitrary: r)
  case (Cons kv kvs)
  obtain k v where kv: "kv = (k, v)" by (cases kv)
  from Cons.prems(2) kv obtain name enc dec r2 where f: "find (\<lambda>(name, _). toLower name = toLower k) layout = Some (name, enc, dec)"
    and d: "dec v r = Some r2" "decodeFields layout kvs r2 = Some r1" by (auto split: option.splits prod.splits)
  from f have "(name, enc, dec) \<in> set layout" by (auto simp: find_Some_iff dest: nth_mem)
  from assms [OF this Cons.prems(1) d(1)] Cons.IH [OF _ d(2)] show ?case by simp
qed simp

definition keepsEndpoints :: "Config goField \<Rightarrow> bool" where
  "keepsEndpoints f \<longleftrightarrow> (\<forall>v c d. canonical (cfEndpoints c) \<longrightarrow> snd (snd f) v c = Some d \<longrightarrow> canonical (cfEndpoints d))"

lemma keepsEndpointsI:
  "(\<And>f c. cfEndpoints (put f c) = cfEndpoints c) \<Longrightarrow> keepsEndpoints (textField name get put)"
  "(\<And>f c. cfEndpoints (put3 f c) = cfEndpoints c) \<Longrightarrow> keepsEndpoints (structField name layout get3 put3)"
  by (auto simp: keepsEndpoints_def textField_def structField_def split: json.splits)

lemma keepsEndpoints_map: "keepsEndpoints endpointsField"
  by (auto simp: keepsEndpoints_def endpointsField_def split: json.splits)

lemma fields_keep_endpoints:
  assumes "(name, enc, dec) \<in> set configFields" "canonical (cfEndpoints c)" "dec v c = Some d"
  shows "canonical (cfEndpoints d)"
proof -
  have "list_all keepsEndpoints configFields"
    by (simp add: configFields_def keepsEndpointsI keepsEndpoints_map)
  with assms(1) have "keepsEndpoints (name, enc, dec)" unfolding list_all_iff by (rule bspec [rotated])
  with assms(2,3) show ?thesis by (auto simp: keepsEndpoints_def)
qed

lemma decoded_canonical:
  assumes "decodeStruct configFields v c = Some d" "canonical (cfEndpoints c)"
  shows "canonical (cfEndpoints d)"
proof (cases v)
  case (JObj kvs)
  with assms(1) have "decodeFields configFields kvs c = Some d" by (simp add: decodeStruct_def)
  with fields_keep_endpoints assms(2) show ?thesis by (rule decodeFields_keeps [where P = "\<lambda>c. canonical (cfEndpoints c)"])
qed (use assms in \<open>simp_all add: decodeStruct_def\<close>)

lemma stored_reads_back:
  assumes "ParseConfig tree raw = Inr c" and "trimSpace (cfBaseURL c) = cfBaseURL c" and "faithfulText tree enc (configJson c)"
  shows "ParseConfig tree (enc (configJson c)) = Inr c"
proof -
  let ?t = "trimSpace (enc (configJson c))"
  obtain d where d: "normalizeConfig d = Inr c" "canonical (cfEndpoints d)"
  proof (cases "trimSpace raw = [] \<or> trimSpace raw = ''null''")
    case True
    with assms(1) that [of DefaultConfig] show ?thesis by (simp add: ParseConfig_def DefaultConfig_def)
  next
    case False
    with assms(1) obtain v d where d: "decodeStruct configFields v (suppliedDefaults v) = Some d" "normalizeConfig d = Inr c"
      by (auto simp: ParseConfig_def split: option.splits)
    have "canonical (cfEndpoints (suppliedDefaults v))" by (simp add: suppliedDefaults_def DefaultConfig_def)
    from decoded_canonical [OF d(1) this] d(2) that show ?thesis by blast
  qed
  from d obtain es where "normalizeEndpointConfigs (cfEndpoints d) = Inr es" "cfEndpoints c = es"
    by (auto simp: normalizeConfig_def split: sum.splits if_splits)
  with endpointConfigs_again d(2) have c: "canonical (cfEndpoints c)" by (simp add: canonical_def)
  have supplied: "cfEndpoints (suppliedDefaults (configJson c)) = []"
    by (simp add: suppliedDefaults_def supplies_def configJson_def encodeStruct_def configFields_def endpointsField_def textField_def structField_def toLower_def lowerChar_def)
  have text0: "?t \<noteq> []" "?t \<noteq> ''null''" "tree ?t = Some (configJson c)"
    using assms(3) by (auto simp: faithfulText_def configJson_def encodeStruct_def hasPrefix_def split: if_splits)
  show ?thesis using text0 decode_config [OF c supplied] normalizeConfig_again [OF d(1) assms(2)] by (simp add: ParseConfig_def)
qed


definition exampleType :: Config where
  "exampleType = DefaultConfig\<lparr>cfQuota := noQuotaConfig\<lparr>qcAdapter := ''none''\<rparr>\<rparr>"

lemma normalizeEndpoints_fixed:
  "(\<And>name e. (name, e) \<in> set es \<Longrightarrow> normalizeEndpoint name e = Inr e) \<Longrightarrow> normalizeEndpoints es = Inr es"
  by (induction es) auto

lemma default_endpoint:
  assumes "hasPrefix path ''/''" "trimSpace path = path" "name \<noteq> []" "method \<in> {''GET'', ''POST''}" "kind \<in> {''json'', ''multipart'', ''none''}"
    "name \<noteq> ''rerank'' \<or> method = ''POST'' \<and> kind = ''json'' \<and> \<not> stream"
  shows "normalizeEndpoint name (defaultEndpoint method path kind stream) = Inr (defaultEndpoint method path kind stream)"
proof -
  have k: "toLower (trimSpace kind) = kind" using assms(5) by (auto simp: plain_eval toLower_def lowerChar_def)
  have m: "toUpper (trimSpace method) = method" using assms(4) by auto
  have "trimmedEndpoint (defaultEndpoint method path kind stream) = defaultEndpoint method path kind stream"
    by (simp add: trimmedEndpoint_def defaultEndpoint_def k m assms(2) normalizeHeader_def Let_def)
  moreover from assms(1) have "path \<noteq> []" by (auto simp: hasPrefix_def)
  ultimately show ?thesis using assms by (auto simp: normalizeEndpoint_def Let_def defaultEndpoint_def)
qed

lemma default_endpoints: "normalizeEndpointConfigs (cfEndpoints DefaultConfig) = Inr (cfEndpoints DefaultConfig)"
proof -
  have sub: "set (endpointMap es) \<subseteq> set es" for es :: "(string \<times> EndpointConfig) list"
    using dedupOn_subset [of fst "rev es"] by (auto simp: endpointMap_def)
  have "normalizeEndpoint name e = Inr e" if "(name, e) \<in> set (cfEndpoints DefaultConfig)" for name e
  proof -
    from that have "(name, e) \<in> set (cfEndpoints DefaultConfig)" .
    then show ?thesis unfolding DefaultConfig_def Config.select_convs
      by (drule_tac subsetD [OF sub]) (auto simp: default_endpoint plain_eval hasPrefix_def)
  qed
  then have "normalizeEndpoints (cfEndpoints DefaultConfig) = Inr (cfEndpoints DefaultConfig)" by (rule normalizeEndpoints_fixed)
  moreover have "endpointMap es = [] \<longleftrightarrow> es = []" for es :: "(string \<times> EndpointConfig) list"
    by (metis dedupOn_eq_Nil endpointMap_def length_0_conv length_sort rev_is_Nil_conv)
  then have "cfEndpoints DefaultConfig \<noteq> []" by (simp add: DefaultConfig_def)
  ultimately show ?thesis by (simp add: normalizeEndpointConfigs_def)
qed

lemma default_normal: "normalizeConfig DefaultConfig = Inr exampleType"
proof -
  have base: "normalizeBaseURL ''https://api.openai.com/v1'' = Inr ''https://api.openai.com/v1''"
  proof -
    have "trimSpace ''https://api.openai.com/v1'' = ''https://api.openai.com/v1''" by (simp add: plain_eval)
    moreover have "trimRightSlash ''https://api.openai.com/v1'' = ''https://api.openai.com/v1''" by code_simp
    moreover have "absoluteURL ''https://api.openai.com/v1''" by code_simp
    ultimately show ?thesis by (simp add: normalizeBaseURL_def)
  qed
  have t [simp]: "trimSpace ''USD'' = ''USD''" "trimSpace ''/models'' = ''/models''" "trimSpace ''data'' = ''data''" "trimSpace ''id'' = ''id''"
    "trimSpace ''openai_costs'' = ''openai_costs''" "trimSpace ''/organization/costs'' = ''/organization/costs''" "toUpper ''USD'' = ''USD''"
    by (simp_all add: plain_eval toUpper_def upperChar_def)
  show ?thesis
    unfolding normalizeConfig_def using default_endpoints
    by (simp add: exampleType_def DefaultConfig_def base normalizeModelConfig_def normalizeCostConfig_def trimmedCosts_def adapterName_def
        costValueType_def noCostConfig_def validAuth_def validCostAdapter_def normalizeQuotaConfig_def noQuotaConfig_def normalizeLoginConfig_def
        noLoginConfig_def normalizeAudio_def normalizeVideo_def ParsePricingConfig_def trimmedPricing_def noPricingConfig_def normalizeHeader_def Let_def)
qed



subsection \<open>The table and its cache\<close>

record builtinType =
  bnID :: nat
  bnName :: string
  bnCode :: string
  bnConfig :: string

record typeRow =
  tyID :: nat
  tyName :: string
  tyCode :: string
  tyConfig :: string
  tyStatus :: int
  tyBuiltIn :: int

datatype typeOp = FindType | InsertType | UpdateType | CountChannels | DeleteType | ListTypes

datatype store_error =
  StoreConfig type_error | TypeNotFound | TypeDatabase typeOp | CodeMalformed | CodeBuiltIn | TypeBuiltIn | CodeChanged | TypeInUse

text \<open>The registry of built-in types, the reader and writer of documents, whether there is a cache, and which calls of the database fail.\<close>

record typeEnv =
  teBuiltins :: "builtinType list"
  teTree :: "string \<Rightarrow> json option"
  teEnc :: "json \<Rightarrow> string"
  teCached :: bool
  teFails :: "typeOp \<Rightarrow> bool"

text \<open>
  The rows of the table, the codes of the types that channels have, and the cache: a row, none when its text cannot be
  read, with the time at which it expires.
\<close>

record typeState =
  tsRows :: "typeRow list"
  tsNext :: nat
  tsUsed :: "string list"
  tsCache :: "string \<Rightarrow> (typeRow option \<times> gotime) option"

definition customTypeCacheTTL :: duration where "customTypeCacheTTL = minutes 5"

definition customTypeCacheKey :: "string \<Rightarrow> string" where "customTypeCacheKey code = ''aiferry:channel-type:'' @ code"

definition ChannelTypeByID :: "typeEnv \<Rightarrow> nat \<Rightarrow> builtinType option" where
  "ChannelTypeByID env i = find (\<lambda>b. bnID b = i) (teBuiltins env)"

definition ChannelTypeByCode :: "typeEnv \<Rightarrow> string \<Rightarrow> builtinType option" where
  "ChannelTypeByCode env code = find (\<lambda>b. bnCode b = trimSpace code) (teBuiltins env)"

definition builtinEntity :: "builtinType \<Rightarrow> typeRow" where
  "builtinEntity b = \<lparr>tyID = bnID b, tyName = bnName b, tyCode = bnCode b, tyConfig = bnConfig b, tyStatus = 1, tyBuiltIn = 1\<rparr>"

definition readType :: "typeEnv \<Rightarrow> typeRow \<Rightarrow> store_error + typeRow \<times> Config" where
  "readType env row = (case ParseConfig (teTree env) (tyConfig row) of Inl e \<Rightarrow> Inl (StoreConfig e) | Inr c \<Rightarrow> Inr (row, c))"

definition invalidateCustomType :: "typeEnv \<Rightarrow> string \<Rightarrow> typeState \<Rightarrow> typeState" where
  "invalidateCustomType env code st =
     (if teCached env then st\<lparr>tsCache := (tsCache st)(customTypeCacheKey code := None)\<rparr> else st)"

text \<open>Every view is a row with its configuration; one configuration that does not read fails the whole list.\<close>

fun readAllTypes :: "typeEnv \<Rightarrow> typeRow list \<Rightarrow> store_error + (typeRow \<times> Config) list" where
  "readAllTypes env [] = Inr []"
| "readAllTypes env (row # rows) =
     (case readType env row of
        Inl e \<Rightarrow> Inl e
      | Inr v \<Rightarrow> (case readAllTypes env rows of Inl e \<Rightarrow> Inl e | Inr vs \<Rightarrow> Inr (v # vs)))"

definition listTypes :: "typeEnv \<Rightarrow> typeState \<Rightarrow> store_error + (typeRow \<times> Config) list" where
  "listTypes env st =
     (if teFails env ListTypes then Inl (TypeDatabase ListTypes)
      else readAllTypes env (map builtinEntity (teBuiltins env) @ sort_key tyName (filter (\<lambda>r. tyBuiltIn r = 0) (tsRows st))))"

definition getType :: "typeEnv \<Rightarrow> nat \<Rightarrow> typeState \<Rightarrow> store_error + typeRow \<times> Config" where
  "getType env i st =
     (case ChannelTypeByID env i of
        Some b \<Rightarrow> readType env (builtinEntity b)
      | None \<Rightarrow>
          if teFails env FindType then Inl (TypeDatabase FindType)
          else case find (\<lambda>r. tyID r = i \<and> tyBuiltIn r = 0) (tsRows st) of None \<Rightarrow> Inl TypeNotFound | Some row \<Rightarrow> readType env row)"

definition loadByCode :: "typeEnv \<Rightarrow> gotime \<Rightarrow> string \<Rightarrow> typeState \<Rightarrow> (store_error + typeRow \<times> Config) \<times> typeState" where
  "loadByCode env now code st =
     (if teFails env FindType then (Inl (TypeDatabase FindType), st)
      else case find (\<lambda>r. tyCode r = trimSpace code \<and> tyBuiltIn r = 0) (tsRows st) of
        None \<Rightarrow> (Inl TypeNotFound, st)
      | Some row \<Rightarrow>
          (case readType env row of
             Inl e \<Rightarrow> (Inl e, st)
           | Inr v \<Rightarrow> (Inr v, if teCached env
               then st\<lparr>tsCache := (tsCache st)(customTypeCacheKey code \<mapsto> (Some row, now + customTypeCacheTTL))\<rparr> else st)))"

definition GetByCode :: "typeEnv \<Rightarrow> gotime \<Rightarrow> string \<Rightarrow> typeState \<Rightarrow> (store_error + typeRow \<times> Config) \<times> typeState" where
  "GetByCode env now code st =
     (case ChannelTypeByCode env code of
        Some b \<Rightarrow> (readType env (builtinEntity b), st)
      | None \<Rightarrow>
          if \<not> teCached env then loadByCode env now code st
          else case tsCache st (customTypeCacheKey code) of
            None \<Rightarrow> loadByCode env now code st
          | Some (cached, expiry) \<Rightarrow>
              if expiry \<le> now then loadByCode env now code st
              else case cached of
                Some row \<Rightarrow> (readType env row, st)
              | None \<Rightarrow> loadByCode env now code (invalidateCustomType env code st))"

definition codeChar :: "char \<Rightarrow> bool" where
  "codeChar c \<longleftrightarrow> isDigit c \<or> c \<in> set ''_-abcdefghijklmnopqrstuvwxyz''"

definition codePattern :: "string \<Rightarrow> bool" where
  "codePattern code \<longleftrightarrow>
     (case code of [] \<Rightarrow> False | c # cs \<Rightarrow> c \<in> set ''abcdefghijklmnopqrstuvwxyz'' \<and> list_all codeChar cs \<and> 1 \<le> length cs \<and> length cs \<le> 63)"

text \<open>The code of a type is unique in the table.\<close>

definition createType :: "typeEnv \<Rightarrow> string \<Rightarrow> string \<Rightarrow> string \<Rightarrow> typeState \<Rightarrow> (store_error + nat) \<times> typeState" where
  "createType env name code0 config st =
     (let code = trimSpace code0 in
      if \<not> codePattern code then (Inl CodeMalformed, st)
      else if ChannelTypeByCode env code \<noteq> None then (Inl CodeBuiltIn, st)
      else case ParseConfig (teTree env) config of
        Inl e \<Rightarrow> (Inl (StoreConfig e), st)
      | Inr c \<Rightarrow>
          if teFails env InsertType \<or> (\<exists>r \<in> set (tsRows st). tyCode r = code) then (Inl (TypeDatabase InsertType), st)
          else (Inr (tsNext st),
            st\<lparr>tsRows := tsRows st @ [\<lparr>tyID = tsNext st, tyName = trimSpace name, tyCode = code, tyConfig = teEnc env (configJson c),
                 tyStatus = 1, tyBuiltIn = 0\<rparr>], tsNext := tsNext st + 1\<rparr>))"

definition changeType :: "nat \<Rightarrow> (typeRow \<Rightarrow> typeRow) \<Rightarrow> typeState \<Rightarrow> typeState" where
  "changeType i f st = st\<lparr>tsRows := map (\<lambda>r. if tyID r = i then f r else r) (tsRows st)\<rparr>"

definition updateType :: "typeEnv \<Rightarrow> nat \<Rightarrow> string \<Rightarrow> string \<Rightarrow> string \<Rightarrow> typeState \<Rightarrow> store_error option \<times> typeState" where
  "updateType env i name code config st =
     (case getType env i st of
        Inl e \<Rightarrow> (Some e, st)
      | Inr (current, _) \<Rightarrow>
          if tyBuiltIn current = 1 then (Some TypeBuiltIn, st)
          else if trimSpace code \<noteq> tyCode current then (Some CodeChanged, st)
          else case ParseConfig (teTree env) config of
            Inl e \<Rightarrow> (Some (StoreConfig e), st)
          | Inr c \<Rightarrow>
              if teFails env UpdateType then (Some (TypeDatabase UpdateType), st)
              else (None, changeType i (\<lambda>r. r\<lparr>tyName := trimSpace name, tyConfig := teEnc env (configJson c)\<rparr>) st))"

definition setTypeStatus :: "typeEnv \<Rightarrow> nat \<Rightarrow> int \<Rightarrow> typeState \<Rightarrow> store_error option \<times> typeState" where
  "setTypeStatus env i status0 st =
     (case getType env i st of
        Inl e \<Rightarrow> (Some e, st)
      | Inr (current, _) \<Rightarrow>
          if tyBuiltIn current = 1 then (Some TypeBuiltIn, st)
          else if teFails env UpdateType then (Some (TypeDatabase UpdateType), st)
          else (None, invalidateCustomType env (tyCode current) (changeType i (\<lambda>r. r\<lparr>tyStatus := (if status0 = 0 then 0 else 1)\<rparr>) st)))"

definition deleteType :: "typeEnv \<Rightarrow> nat \<Rightarrow> typeState \<Rightarrow> store_error option \<times> typeState" where
  "deleteType env i st =
     (case getType env i st of
        Inl e \<Rightarrow> (Some e, st)
      | Inr (current, _) \<Rightarrow>
          if tyBuiltIn current = 1 then (Some TypeBuiltIn, st)
          else if teFails env CountChannels then (Some (TypeDatabase CountChannels), st)
          else if tyCode current \<in> set (tsUsed st) then (Some TypeInUse, st)
          else if teFails env DeleteType then (Some (TypeDatabase DeleteType), st)
          else (None, st\<lparr>tsRows := filter (\<lambda>r. tyID r \<noteq> i) (tsRows st)\<rparr>))"

text \<open>A type that was created is found by its code with the configuration given, on any later read that is not answered from the cache.\<close>

lemma created_type_found:
  assumes c: "createType env name code config st = (Inr i, st')" and p: "ParseConfig (teTree env) config = Inr t"
    and base: "trimSpace (cfBaseURL t) = cfBaseURL t" and enc: "faithfulText (teTree env) (teEnc env) (configJson t)"
    and cold: "tsCache st (customTypeCacheKey (trimSpace code)) = None" and fails: "\<not> teFails env FindType"
  shows "\<exists>row. fst (GetByCode env now (trimSpace code) st') = Inr (row, t) \<and> tyID row = i"
proof -
  let ?row = "\<lparr>tyID = tsNext st, tyName = trimSpace name, tyCode = trimSpace code, tyConfig = teEnc env (configJson t), tyStatus = 1, tyBuiltIn = 0\<rparr>"
  from c p have i: "i = tsNext st" and st': "st' = st\<lparr>tsRows := tsRows st @ [?row], tsNext := tsNext st + 1\<rparr>"
    and new: "\<forall>r \<in> set (tsRows st). tyCode r \<noteq> trimSpace code" and builtin: "ChannelTypeByCode env (trimSpace code) = None"
    by (auto simp: createType_def Let_def split: if_splits)
  have "find (\<lambda>r. tyCode r = trimSpace code \<and> tyBuiltIn r = 0) (tsRows st) = None" using new by (auto simp: find_None_iff)
  then have "find (\<lambda>r. tyCode r = trimSpace code \<and> tyBuiltIn r = 0) (tsRows st') = Some ?row" by (simp add: st' find_append_last)
  moreover have "readType env ?row = Inr (?row, t)" using stored_reads_back [OF p base enc] by (simp add: readType_def)
  ultimately have "fst (loadByCode env now (trimSpace code) st') = Inr (?row, t)" using fails by (simp add: loadByCode_def)
  then show ?thesis using builtin cold i by (simp add: GetByCode_def st')
qed

text \<open>A change of a type and its deletion are not seen while the cache holds the old row.\<close>

lemma change_not_seen:
  assumes "updateType env i name code0 config st = (e, st') \<or> deleteType env i st = (e, st')" "teCached env" "ChannelTypeByCode env code = None"
    "tsCache st (customTypeCacheKey code) = Some (Some row, expiry)" "now < expiry"
  shows "GetByCode env now code st' = (readType env row, st')"
proof -
  have "tsCache st' = tsCache st" using assms(1)
    by (auto simp: updateType_def deleteType_def changeType_def split: sum.splits if_splits prod.splits)
  then show ?thesis using assms(2-) by (simp add: GetByCode_def)
qed

end
