(* ===== verification/Sse_Lines.thy ===== *)
theory Sse_Lines
  imports Sensitive_Restore Stream_Convert Relay_Flow
begin

text \<open>
  What the relay reads of one line of an upstream's stream (\<^verbatim>\<open>relay/stream_failure.go\<close>, \<^verbatim>\<open>model_quality.go\<close>,
  \<^verbatim>\<open>reasoning_echo.go\<close>, \<^verbatim>\<open>payload_log.go\<close>, \<^verbatim>\<open>usage/response.go\<close>): whether it reports a failure, whether the client sees
  something of it, what the logs keep and the token counts.  A line is its text; the environment gives the document of
  a text, the text of a document (\<^verbatim>\<open>json.Marshal\<close>), the source text of a value and the unsigned value of a number.
\<close>

record lineEnv =
  leParse :: "string \<Rightarrow> json option"
  leEnc :: "json \<Rightarrow> string"
  leRaw :: "json \<Rightarrow> string"
  leUint :: "string \<Rightarrow> u64"
  leStream :: streamEnv

abbreviation textIn :: "lineEnv \<Rightarrow> json \<Rightarrow> string list \<Rightarrow> string" where
  "textIn env payload path \<equiv> textAt (leStream env) payload path"

abbreviation intIn :: "lineEnv \<Rightarrow> json \<Rightarrow> string list \<Rightarrow> int" where
  "intIn env payload path \<equiv> gjInteger (seGjson (leStream env)) (gjGet payload path)"

abbreviation lineFeed :: char where "lineFeed \<equiv> CHR 0x0A"

abbreviation quoteMark :: char where "quoteMark \<equiv> CHR 0x22"

abbreviation dataOf :: "lineEnv \<Rightarrow> string \<Rightarrow> dataLine" where
  "dataOf env line \<equiv> relaySSEDataPayload (leParse env) line"

text \<open>The text behind \<^verbatim>\<open>data:\<close>, the first result of \<^verbatim>\<open>relaySSEDataPayload\<close>.\<close>

definition payloadText :: "string \<Rightarrow> string" where
  "payloadText line = trimSpace (drop 5 (trimSpace line))"

subsection \<open>Runes\<close>

text \<open>The length of the first rune of a text that is not empty: a byte that starts no rune counts alone (\<^verbatim>\<open>unicode/utf8\<close>).\<close>

abbreviation byteOf :: "char \<Rightarrow> nat" where "byteOf c \<equiv> of_char c"

definition tailByte :: "char \<Rightarrow> bool" where
  "tailByte c \<longleftrightarrow> 0x80 \<le> byteOf c \<and> byteOf c \<le> 0xBF"

definition secondByte :: "nat \<Rightarrow> nat \<Rightarrow> bool" where
  "secondByte first b =
     (if first = 0xE0 then 0xA0 \<le> b \<and> b \<le> 0xBF
      else if first = 0xED then 0x80 \<le> b \<and> b \<le> 0x9F
      else if first = 0xF0 then 0x90 \<le> b \<and> b \<le> 0xBF
      else if first = 0xF4 then 0x80 \<le> b \<and> b \<le> 0x8F
      else 0x80 \<le> b \<and> b \<le> 0xBF)"

definition runeLength :: "string \<Rightarrow> nat" where
  "runeLength s =
     (case s of
        [] \<Rightarrow> 1
      | c # cs \<Rightarrow>
          let first = byteOf c;
              need = (if 0xC2 \<le> first \<and> first \<le> 0xDF then 1 else if 0xE0 \<le> first \<and> first \<le> 0xEF then 2
                else if 0xF0 \<le> first \<and> first \<le> 0xF4 then 3 else 0)
          in if length (take need cs) = need \<and> (0 < need \<longrightarrow> secondByte first (byteOf (cs ! 0))) \<and> list_all tailByte (drop 1 (take need cs))
             then 1 + need else 1)"

lemma runeLength_pos: "0 < runeLength s"
  by (simp add: runeLength_def Let_def split: list.split)

function runesOf :: "string \<Rightarrow> string list" where
  "runesOf s = (if s = [] then [] else take (runeLength s) s # runesOf (drop (runeLength s) s))"
  by pat_completeness auto
termination
  by (relation "measure length") (use runeLength_pos in \<open>auto intro!: diff_less\<close>)

declare runesOf.simps [simp del]

definition runeCount :: "string \<Rightarrow> nat" where
  "runeCount s = length (runesOf s)"

text \<open>A byte that is no rune becomes U+FFFD when the text is made of its runes again.\<close>

definition validRune :: "string \<Rightarrow> string" where
  "validRune r = (case r of [c] \<Rightarrow> if byteOf c < 0x80 then r else bytes [0xEF, 0xBF, 0xBD] | _ \<Rightarrow> r)"

definition truncateQualityText :: "string \<Rightarrow> nat \<Rightarrow> string" where
  "truncateQualityText value maxRunes =
     (if maxRunes = 0 \<or> value = [] then []
      else if runeCount value \<le> maxRunes then value
      else concat (take maxRunes (map validRune (runesOf value))))"

subsection \<open>Failures inside a stream\<close>

definition maxPendingStreamBytes :: nat where "maxPendingStreamBytes = 1048576"

record streamFailure =
  sfStatus :: int
  sfBody :: string
  sfMessage :: string

definition reportedError :: "json \<Rightarrow> string list \<Rightarrow> json option" where
  "reportedError payload path = (case gjGet payload path of None \<Rightarrow> None | Some JNull \<Rightarrow> None | Some v \<Rightarrow> Some v)"

definition errorDocument :: "lineEnv \<Rightarrow> json \<Rightarrow> string" where
  "errorDocument env v = ''{'' @ [quoteMark] @ ''error'' @ [quoteMark] @ '':'' @ leRaw env v @ ''}''"

definition streamFailureBody :: "lineEnv \<Rightarrow> string \<Rightarrow> json \<Rightarrow> string option" where
  "streamFailureBody env payload0 payload =
     (case reportedError payload [''error''] of
        Some v \<Rightarrow> Some (errorDocument env v)
      | None \<Rightarrow>
          (case reportedError payload [''response'', ''error''] of
             Some v \<Rightarrow> Some (errorDocument env v)
           | None \<Rightarrow>
               let eventType = textIn env payload [''type'']; status0 = textIn env payload [''response'', ''status''] in
               if eventType = ''error'' \<or> eventType = ''response.failed'' \<or>
                  eventType = ''response.completed'' \<and> (status0 = ''failed'' \<or> status0 = ''incomplete'')
               then Some payload0
               else if gjGet payload [''code''] \<noteq> None \<and> gjGet payload [''message''] \<noteq> None then Some payload0
               else None))"

definition statusCode :: "lineEnv \<Rightarrow> json \<Rightarrow> string list \<Rightarrow> int" where
  "statusCode env payload path =
     (let number = intIn env payload path in
      if 100 \<le> number \<and> number \<le> 599 then number
      else case parseInt (trimSpace (textIn env payload path)) of
             None \<Rightarrow> 0
           | Some n \<Rightarrow> if 100 \<le> n \<and> n \<le> 599 then n else 0)"

definition statusPaths :: "string list list" where
  "statusPaths = [[''error'', ''status''], [''response'', ''error'', ''status''], [''error'', ''code''], [''response'', ''error'', ''code''],
     [''status''], [''code'']]"

definition paymentWords :: "string list" where
  "paymentWords = [''quota'', ''balance'', ''billing'', ''payment'', ''insufficient'']"

definition streamFailureStatus :: "lineEnv \<Rightarrow> json \<Rightarrow> string \<Rightarrow> int" where
  "streamFailureStatus env payload body0 =
     (case find (\<lambda>path. statusCode env payload path \<noteq> 0) statusPaths of
        Some path \<Rightarrow> statusCode env payload path
      | None \<Rightarrow> if list_ex (containsSub (toLower body0)) paymentWords then 402 else 502)"

text \<open>\<open>errText\<close> is \<^verbatim>\<open>upstreamerror.Message\<close>.\<close>

definition parseStreamFailure :: "lineEnv \<Rightarrow> (string \<Rightarrow> string \<Rightarrow> string) \<Rightarrow> string \<Rightarrow> streamFailure option" where
  "parseStreamFailure env errText line =
     (case dataOf env line of
        DataPayload payload \<Rightarrow>
          (case streamFailureBody env (payloadText line) payload of
             None \<Rightarrow> None
           | Some b \<Rightarrow> Some \<lparr>sfStatus = streamFailureStatus env payload b, sfBody = b, sfMessage = errText b ''upstream stream failed''\<rparr>)
      | _ \<Rightarrow> None)"

subsection \<open>Visible output\<close>

definition textDeltaEvents :: "string list" where
  "textDeltaEvents = [''response.output_text.delta'', ''response.refusal.delta'', ''response.function_call_arguments.delta'',
     ''response.reasoning_summary_text.delta'', ''response.reasoning_text.delta'']"

definition someText :: "lineEnv \<Rightarrow> json option \<Rightarrow> string list \<Rightarrow> bool" where
  "someText env v fields0 \<longleftrightarrow> list_ex (\<lambda>f. trimSpace (gjString (seGjson (leStream env)) (gjSub v [f])) \<noteq> []) fields0"

definition arrayLength :: "json option \<Rightarrow> nat" where
  "arrayLength v = (case v of Some (JArr xs) \<Rightarrow> length xs | _ \<Rightarrow> 0)"

definition streamPayloadHasVisibleOutput :: "lineEnv \<Rightarrow> string \<Rightarrow> bool" where
  "streamPayloadHasVisibleOutput env line =
     (case dataOf env line of
        DataPayload payload \<Rightarrow>
          let eventType = textIn env payload [''type''] in
          if eventType \<in> set textDeltaEvents then trimSpace (textIn env payload [''delta'']) \<noteq> []
          else if eventType = ''content_block_delta'' then someText env (gjGet payload [''delta'']) [''text'', ''thinking'', ''partial_json'']
          else if eventType = ''response.output_item.added'' then textIn env payload [''item'', ''type''] = ''function_call''
          else (case gjGet payload [''choices'', ''0''] of
                  None \<Rightarrow> False
                | Some choice \<Rightarrow>
                    let delta = gjGet choice [''delta''] in
                    someText env delta [''content'', ''reasoning_content'', ''reasoning'', ''thinking''] \<or> 0 < arrayLength (gjSub delta [''tool_calls'']))
      | _ \<Rightarrow> False)"

subsection \<open>The closing lines of a broken stream\<close>

text \<open>The text of an output of the converter.\<close>

definition sseText :: "lineEnv \<Rightarrow> sseOut \<Rightarrow> string" where
  "sseText env out =
     (case out of
        SseData j \<Rightarrow> ''data: '' @ leEnc env j @ [lineFeed, lineFeed]
      | SseEvent name j \<Rightarrow> ''event: '' @ name @ [lineFeed] @ ''data: '' @ leEnc env j @ [lineFeed, lineFeed]
      | SseDone \<Rightarrow> ''data: [DONE]'' @ [lineFeed, lineFeed]
      | SseLine line \<Rightarrow> line)"

definition streamTerminalLines :: "lineEnv \<Rightarrow> string \<Rightarrow> int \<Rightarrow> string \<Rightarrow> string list" where
  "streamTerminalLines env client status0 message0 =
     (let code = (if status0 < 400 \<or> 599 < status0 then 502 else status0);
          message = (if trimSpace message0 = [] then streamTruncatedReason else trimSpace message0);
          err = JObj [(''message'', JStr message), (''type'', JStr ''upstream_error''), (''code'', jInt code)]
      in if client = ResponsesEndpoint then [sseText env (SseEvent ''error'' (JObj [(''type'', JStr ''error''), (''error'', err)]))]
         else [sseText env (SseData (JObj [(''error'', err)])), sseText env SseDone])"

subsection \<open>What the logs keep\<close>

definition maxQualityTextRunes :: nat where "maxQualityTextRunes = 12000"

record streamResponseCapture =
  scEndpoint :: string
  scText :: string
  scSeenModel :: string
  scDone :: bool
  scToolCalls :: bool

definition newStreamResponseCapture :: "string \<Rightarrow> streamResponseCapture" where
  "newStreamResponseCapture endpoint = \<lparr>scEndpoint = endpoint, scText = [], scSeenModel = [], scDone = False, scToolCalls = False\<rparr>"

definition captureAppend :: "string \<Rightarrow> streamResponseCapture \<Rightarrow> streamResponseCapture" where
  "captureAppend value0 c =
     (let size0 = runeCount (scText c) in
      if value0 = [] \<or> maxQualityTextRunes \<le> size0 then c
      else c\<lparr>scText := scText c @ truncateQualityText value0 (maxQualityTextRunes - size0)\<rparr>)"

definition captureObserve :: "lineEnv \<Rightarrow> string \<Rightarrow> streamResponseCapture \<Rightarrow> streamResponseCapture" where
  "captureObserve env line c =
     (case dataOf env line of
        NoData \<Rightarrow> c
      | DataDone \<Rightarrow> c\<lparr>scDone := True\<rparr>
      | DataPayload payload \<Rightarrow>
          if scEndpoint c = ChatCompletionsEndpoint then
            let c1 = (if scSeenModel c = [] then c\<lparr>scSeenModel := textIn env payload [''model'']\<rparr> else c);
                c2 = (if gjGet payload [''choices'', ''0'', ''delta'', ''tool_calls''] \<noteq> None then c1\<lparr>scToolCalls := True\<rparr> else c1)
            in captureAppend (textIn env payload [''choices'', ''0'', ''delta'', ''content'']) c2
          else if scEndpoint c \<noteq> ResponsesEndpoint then c
          else
            let c1 = (if scSeenModel c = [] then c\<lparr>scSeenModel := textIn env payload [''response'', ''model'']\<rparr> else c);
                kind = textIn env payload [''type'']
            in if kind = ''response.output_text.delta'' then captureAppend (textIn env payload [''delta'']) c1
               else if kind = ''response.completed'' then c1\<lparr>scDone := True\<rparr>
               else c1)"

record reasoningCapture =
  rcEndpoint :: string
  rcText :: string
  rcField :: string
  rcCalls :: "string list"

definition newReasoningCapture :: "string \<Rightarrow> reasoningCapture" where
  "newReasoningCapture endpoint = \<lparr>rcEndpoint = endpoint, rcText = [], rcField = [], rcCalls = []\<rparr>"

definition reasoningFromContainer :: "lineEnv \<Rightarrow> json option \<Rightarrow> string \<times> string" where
  "reasoningFromContainer env container =
     (let get = (\<lambda>f. gjString (seGjson (leStream env)) (gjSub container [f])) in
      if get ''reasoning_content'' \<noteq> [] then (get ''reasoning_content'', ''reasoning_content'')
      else if get ''reasoning'' \<noteq> [] then (get ''reasoning'', ''reasoning'')
      else ([], []))"

definition addToolCall :: "string \<Rightarrow> reasoningCapture \<Rightarrow> reasoningCapture" where
  "addToolCall id0 c =
     (let i = trimSpace id0 in if i = [] \<or> i \<in> set (rcCalls c) then c else c\<lparr>rcCalls := rcCalls c @ [i]\<rparr>)"

definition reasoningObserve :: "lineEnv \<Rightarrow> string \<Rightarrow> reasoningCapture \<Rightarrow> reasoningCapture" where
  "reasoningObserve env line c =
     (if rcEndpoint c \<noteq> ChatCompletionsEndpoint then c
      else if \<not> containsSub line ''reasoning'' \<and> \<not> containsSub line ''tool_calls'' then c
      else case dataOf env line of
        DataPayload payload \<Rightarrow>
          let delta = gjGet payload [''choices'', ''0'', ''delta''];
              (found, field) = reasoningFromContainer env delta;
              c1 = (if found = [] then c
                else c\<lparr>rcField := (if rcField c = [] then field else rcField c), rcText := rcText c @ found\<rparr>)
          in foldl (\<lambda>c v. addToolCall (textIn env v [''id'']) c) c1 (gjArray (gjSub delta [''tool_calls'']))
      | _ \<Rightarrow> c)"

definition reasoningField :: "reasoningCapture \<Rightarrow> string" where
  "reasoningField c = (if rcField c = [] then ''reasoning_content'' else rcField c)"

definition maxPayloadFieldBytes :: nat where "maxPayloadFieldBytes = 8388608"

record payloadStreamCapture =
  pcEndpoint :: string
  pcContent :: string
  pcReasoning :: string

definition newPayloadStreamCapture :: "string \<Rightarrow> payloadStreamCapture" where
  "newPayloadStreamCapture client = \<lparr>pcEndpoint = client, pcContent = [], pcReasoning = []\<rparr>"

definition appendField :: "string \<Rightarrow> string \<Rightarrow> string" where
  "appendField builder value0 =
     (if value0 = [] \<or> maxPayloadFieldBytes \<le> length builder then builder
      else if maxPayloadFieldBytes < length builder + length value0 then builder @ take (maxPayloadFieldBytes - length builder) value0
      else builder @ value0)"

definition payloadObserve :: "lineEnv \<Rightarrow> string \<Rightarrow> payloadStreamCapture \<Rightarrow> payloadStreamCapture" where
  "payloadObserve env line c =
     (case dataOf env line of
        DataPayload payload \<Rightarrow>
          if pcEndpoint c = ResponsesEndpoint then
            let kind = textIn env payload [''type'']; delta = textIn env payload [''delta''] in
            if kind = ''response.output_text.delta'' then c\<lparr>pcContent := appendField (pcContent c) delta\<rparr>
            else if kind = ''response.reasoning_text.delta'' \<or> kind = ''response.reasoning_summary_text.delta''
            then c\<lparr>pcReasoning := appendField (pcReasoning c) delta\<rparr>
            else c
          else c\<lparr>pcContent := appendField (pcContent c) (textIn env payload [''choices'', ''0'', ''delta'', ''content'']),
                 pcReasoning := appendField (pcReasoning c) (textIn env payload [''choices'', ''0'', ''delta'', ''reasoning_content''])\<rparr>
      | _ \<Rightarrow> c)"

subsection \<open>Token counts\<close>

fun optionalUint :: "lineEnv \<Rightarrow> json \<Rightarrow> string list list \<Rightarrow> u64 option" where
  "optionalUint env payload [] = None"
| "optionalUint env payload (path # paths) =
     (case gjGet payload path of Some (JNum t) \<Rightarrow> Some (leUint env t) | _ \<Rightarrow> optionalUint env payload paths)"

definition inUsage :: "string list \<Rightarrow> string list" where "inUsage path = ''usage'' # path"
definition inResponse :: "string list \<Rightarrow> string list" where "inResponse path = ''response'' # ''usage'' # path"

definition inDetails :: "string \<Rightarrow> string list list" where
  "inDetails name = [inUsage [''input_tokens_details'', name], inUsage [''prompt_tokens_details'', name]]"

definition outDetails :: "string \<Rightarrow> string list list" where
  "outDetails name = [inUsage [''output_tokens_details'', name], inUsage [''completion_tokens_details'', name]]"

text \<open>A body that is no JSON has no counts.\<close>

definition ParseJSONUsage :: "lineEnv \<Rightarrow> json \<Rightarrow> TokenUsage" where
  "ParseJSONUsage env payload =
     (let get = optionalUint env payload;
          input = get [inUsage [''input_tokens''], inUsage [''prompt_tokens''], inResponse [''input_tokens'']];
          out = get [inUsage [''output_tokens''], inUsage [''completion_tokens''], inResponse [''output_tokens'']];
          total = get [inUsage [''total_tokens''], inResponse [''total_tokens'']]
      in \<lparr>tkInput = input,
          tkCachedInput = get (inDetails ''cached_tokens'' @ [inResponse [''input_tokens_details'', ''cached_tokens''],
            inUsage [''prompt_cache_hit_tokens''], inResponse [''prompt_cache_hit_tokens'']]),
          tkCacheWrite = get ([inUsage [''cache_write_tokens''], inUsage [''cache_creation_input_tokens''], inUsage [''cache_creation_tokens'']]
            @ inDetails ''cache_write_tokens'' @ inDetails ''cache_creation_tokens''),
          tkCacheMiss = get [inUsage [''prompt_cache_miss_tokens''], inResponse [''prompt_cache_miss_tokens'']],
          tkImageInput = get (inUsage [''image_tokens''] # inDetails ''image_tokens''),
          tkAudioInput = get (inUsage [''audio_tokens''] # inDetails ''audio_tokens''),
          tkOutput = out,
          tkAudioOutput = get (inUsage [''output_audio_tokens''] # outDetails ''audio_tokens''),
          tkTotal = (case total of Some t \<Rightarrow> Some t
            | None \<Rightarrow> (case (input, out) of (Some i, Some n) \<Rightarrow> Some (i + n) | _ \<Rightarrow> None))\<rparr>)"

definition hasTokenUsage :: "TokenUsage \<Rightarrow> bool" where
  "hasTokenUsage t \<longleftrightarrow> tkInput t \<noteq> None \<or> tkCachedInput t \<noteq> None \<or> tkCacheWrite t \<noteq> None \<or> tkCacheMiss t \<noteq> None \<or>
     tkImageInput t \<noteq> None \<or> tkAudioInput t \<noteq> None \<or> tkOutput t \<noteq> None \<or> tkAudioOutput t \<noteq> None"

definition newer :: "u64 option \<Rightarrow> u64 option \<Rightarrow> u64 option" where
  "newer parsed target = (case parsed of None \<Rightarrow> target | Some v \<Rightarrow> Some v)"

definition mergeTokens :: "TokenUsage \<Rightarrow> TokenUsage \<Rightarrow> TokenUsage" where
  "mergeTokens parsed target =
     \<lparr>tkInput = newer (tkInput parsed) (tkInput target), tkCachedInput = newer (tkCachedInput parsed) (tkCachedInput target),
      tkCacheWrite = newer (tkCacheWrite parsed) (tkCacheWrite target), tkCacheMiss = newer (tkCacheMiss parsed) (tkCacheMiss target),
      tkImageInput = newer (tkImageInput parsed) (tkImageInput target), tkAudioInput = newer (tkAudioInput parsed) (tkAudioInput target),
      tkOutput = newer (tkOutput parsed) (tkOutput target), tkAudioOutput = newer (tkAudioOutput parsed) (tkAudioOutput target),
      tkTotal = newer (tkTotal parsed) (tkTotal target)\<rparr>"

definition ParseSSEUsage :: "lineEnv \<Rightarrow> string \<Rightarrow> TokenUsage \<Rightarrow> TokenUsage" where
  "ParseSSEUsage env line target =
     (case dataOf env line of
        DataPayload payload \<Rightarrow>
          let parsed = ParseJSONUsage env payload in if hasTokenUsage parsed then mergeTokens parsed target else target
      | _ \<Rightarrow> target)"

definition tokenValue :: "u64 option \<Rightarrow> u64" where
  "tokenValue v = (case v of None \<Rightarrow> 0 | Some n \<Rightarrow> n)"

definition ParseRerankUsage :: "lineEnv \<Rightarrow> json \<Rightarrow> TokenUsage" where
  "ParseRerankUsage env payload =
     (let tokens = ParseJSONUsage env payload in
      if hasTokenUsage tokens then tokens
      else let input = optionalUint env payload [[''meta'', ''tokens'', ''input_tokens'']];
               out = optionalUint env payload [[''meta'', ''tokens'', ''output_tokens'']] in
        if input \<noteq> None \<or> out \<noteq> None
        then noTokens\<lparr>tkInput := input, tkOutput := out, tkTotal := Some (tokenValue input + tokenValue out)\<rparr>
        else if tkTotal tokens \<noteq> None then tokens\<lparr>tkInput := tkTotal tokens, tkOutput := Some 0\<rparr>
        else tokens)"

definition parseResponseUsage :: "lineEnv \<Rightarrow> string \<Rightarrow> json option \<Rightarrow> TokenUsage" where
  "parseResponseUsage env client doc =
     (case doc of
        None \<Rightarrow> noTokens
      | Some payload \<Rightarrow> if client = ''/rerank'' then ParseRerankUsage env payload else ParseJSONUsage env payload)"

text \<open>
  Anthropic reports the tokens of a stream in two events: of the counts of several lines the last one of each kind
  stands, and a line without counts changes nothing.
\<close>

lemma newer_assoc: "newer a (newer b c) = newer (newer a b) c"
  by (simp add: newer_def split: option.split)

lemma mergeTokens_assoc: "mergeTokens a (mergeTokens b c) = mergeTokens (mergeTokens a b) c"
  by (simp add: mergeTokens_def newer_assoc)

end
