(* ===== verification/Body_Transform.thy ===== *)
theory Body_Transform
  imports Sse_Lines Channel_Config
begin

text \<open>
  What the relay changes in the bodies it passes on: the request for a channel (\<^verbatim>\<open>relay/transform.go\<close>), the fields that
  steer the upstream's prompt cache (\<^verbatim>\<open>channel/prompt_cache.go\<close>, \<^verbatim>\<open>relay/prompt_cache.go\<close>), the metadata of an answer, and
  the answer put together from a stream that was forced on the upstream (\<^verbatim>\<open>relay/open_code_free_sse.go\<close>).
\<close>

datatype bodyError = BodyDecode | BodyPanic

text \<open>\<^verbatim>\<open>json.Unmarshal\<close> into a map: null leaves the map nil, which reads as an empty one but cannot be written to.\<close>

datatype decodedMap = NotAnObject | NilMap | DecodedMap goMap

definition decodeMap :: "lineEnv \<Rightarrow> string \<Rightarrow> decodedMap" where
  "decodeMap env body0 =
     (case leParse env body0 of
        Some JNull \<Rightarrow> NilMap
      | Some (JObj fs) \<Rightarrow> (case unmarshalAny (seNum (leStream env)) (JObj fs) of JObj m \<Rightarrow> DecodedMap m | _ \<Rightarrow> NotAnObject)
      | _ \<Rightarrow> NotAnObject)"

subsection \<open>The fields of a request\<close>

definition commonRequestFields :: "string list" where
  "commonRequestFields = [''model'', ''stream'', ''user'', ''prompt_cache_key'', ''prompt_cache_options'', ''prompt_cache_retention'']"

definition endpointRequestFields :: "string \<Rightarrow> string list" where
  "endpointRequestFields endpoint =
     (if endpoint = ''/chat/completions'' then
        [''messages'', ''audio'', ''frequency_penalty'', ''logit_bias'', ''logprobs'', ''max_completion_tokens'', ''max_tokens'', ''modalities'', ''n'',
         ''parallel_tool_calls'', ''prediction'', ''presence_penalty'', ''reasoning_effort'', ''response_format'', ''seed'', ''stop'', ''stream_options'',
         ''temperature'', ''tool_choice'', ''tools'', ''top_logprobs'', ''top_p'', ''web_search_options'']
      else if endpoint = ''/responses'' then
        [''input'', ''instructions'', ''background'', ''max_output_tokens'', ''max_tool_calls'', ''metadata'', ''parallel_tool_calls'',
         ''previous_response_id'', ''prompt'', ''reasoning'', ''temperature'', ''text'', ''tool_choice'', ''tools'', ''top_logprobs'', ''top_p'', ''truncation'']
      else if endpoint = ''/embeddings'' then [''input'', ''dimensions'', ''encoding_format'']
      else if endpoint = ''/rerank'' then
        [''query'', ''documents'', ''top_n'', ''return_documents'', ''max_chunks_per_doc'', ''rank_fields'', ''max_tokens_per_doc'', ''truncate_input'',
         ''truncation'', ''overlap_tokens'']
      else if endpoint = ''/images/generations'' then
        [''prompt'', ''background'', ''moderation'', ''n'', ''output_compression'', ''output_format'', ''partial_images'', ''quality'', ''response_format'',
         ''size'', ''style'']
      else [])"

definition switchedFields :: "AdvancedConfig \<Rightarrow> (string \<times> bool) list" where
  "switchedFields config =
     [(''service_tier'', AllowServiceTier config), (''store'', \<not> BlockStore config), (''safety_identifier'', AllowSafetyIdentifier config),
      (''include'', AllowInclude config), (''inference_geo'', AllowInferenceGeo config)]"

definition supportedRequestFields :: "string \<Rightarrow> goMap \<Rightarrow> AdvancedConfig \<Rightarrow> goMap" where
  "supportedRequestFields endpoint payload config =
     copyProtocolFields payload (commonRequestFields @ endpointRequestFields endpoint @ map fst (filter snd (switchedFields config)))"

definition applyRestrictedFields :: "goMap \<Rightarrow> AdvancedConfig \<Rightarrow> goMap" where
  "applyRestrictedFields payload config = foldl (\<lambda>m (field, allowed). if allowed then m else AList.delete field m) payload (switchedFields config)"

subsection \<open>The system prompt of a channel\<close>

definition joinSystemPrompt :: "string \<Rightarrow> string \<Rightarrow> string" where
  "joinSystemPrompt channelPrompt userPrompt = channelPrompt @ [lineFeed, lineFeed] @ userPrompt"

fun isSystemMessage :: "json \<Rightarrow> bool" where
  "isSystemMessage (JObj m) \<longleftrightarrow> entry m ''role'' = JStr ''system'' \<or> entry m ''role'' = JStr ''developer''"
| "isSystemMessage _ = False"

text \<open>The first system message of the list with its prompt joined, if it is a text and the channel appends.\<close>

fun joinFirstSystem :: "AdvancedConfig \<Rightarrow> json list \<Rightarrow> json list" where
  "joinFirstSystem config [] = []"
| "joinFirstSystem config (x # xs) =
     (if isSystemMessage x then
        (case x of
           JObj m \<Rightarrow>
             (case entry m ''content'' of
                JStr content \<Rightarrow>
                  if AppendSystemPrompt config then JObj (AList.update ''content'' (JStr (joinSystemPrompt (SystemPrompt config) content)) m) # xs
                  else x # xs
              | _ \<Rightarrow> x # xs)
         | _ \<Rightarrow> x # xs)
      else x # joinFirstSystem config xs)"

definition applyChatSystemPrompt :: "goMap \<Rightarrow> AdvancedConfig \<Rightarrow> goMap" where
  "applyChatSystemPrompt payload config =
     (case entry payload ''messages'' of
        JArr messages \<Rightarrow>
          AList.update ''messages''
            (JArr (if list_ex isSystemMessage messages then joinFirstSystem config messages
                   else JObj [(''role'', JStr ''system''), (''content'', JStr (SystemPrompt config))] # messages)) payload
      | _ \<Rightarrow> payload)"

definition applyResponseInstructions :: "goMap \<Rightarrow> AdvancedConfig \<Rightarrow> goMap" where
  "applyResponseInstructions payload config =
     (let instructions = stringValue (entry payload ''instructions'') in
      if instructions = [] then AList.update ''instructions'' (JStr (SystemPrompt config)) payload
      else if AppendSystemPrompt config then AList.update ''instructions'' (JStr (joinSystemPrompt (SystemPrompt config) instructions)) payload
      else payload)"

definition applyDefaultSystemPrompt :: "string \<Rightarrow> goMap \<Rightarrow> AdvancedConfig \<Rightarrow> goMap" where
  "applyDefaultSystemPrompt endpoint payload config =
     (if SystemPrompt config = [] then payload
      else if endpoint = ''/chat/completions'' then applyChatSystemPrompt payload config
      else if endpoint = ''/responses'' then applyResponseInstructions payload config
      else payload)"

definition askForUsage :: "goMap \<Rightarrow> goMap" where
  "askForUsage payload =
     AList.update ''stream_options''
       (JObj (AList.update ''include_usage'' (JBool True) (case entry payload ''stream_options'' of JObj m \<Rightarrow> m | _ \<Rightarrow> []))) payload"

definition upstreamPayload :: "string \<Rightarrow> goMap \<Rightarrow> string \<Rightarrow> AdvancedConfig \<Rightarrow> goMap" where
  "upstreamPayload endpoint payload0 upstreamModel config =
     (let payload1 = (if PassthroughRequestBody config then payload0 else supportedRequestFields endpoint payload0 config);
          payload2 = (if endpoint = ''/rerank'' then AList.delete ''stream'' payload1 else payload1);
          payload3 = applyDefaultSystemPrompt endpoint (applyRestrictedFields payload2 config) config;
          payload4 = AList.update ''model'' (JStr upstreamModel) payload3
      in if endpoint = ''/chat/completions'' \<and> entry payload4 ''stream'' = JBool True then askForUsage payload4 else payload4)"

definition prepareRequestBody :: "lineEnv \<Rightarrow> string \<Rightarrow> string \<Rightarrow> string \<Rightarrow> AdvancedConfig \<Rightarrow> bodyError + goMap" where
  "prepareRequestBody env endpoint originalBody upstreamModel config =
     (case decodeMap env originalBody of
        NotAnObject \<Rightarrow> Inl BodyDecode
      | NilMap \<Rightarrow> if PassthroughRequestBody config then Inl BodyPanic else Inr (upstreamPayload endpoint [] upstreamModel config)
      | DecodedMap payload \<Rightarrow> Inr (upstreamPayload endpoint payload upstreamModel config))"

subsection \<open>The prompt cache of an upstream\<close>

datatype promptCacheMode = CacheStable | CacheOff | CachePassthrough

definition ResolvePromptCacheMode :: "AdvancedConfig \<Rightarrow> promptCacheMode" where
  "ResolvePromptCacheMode config =
     (if PassthroughPromptCache config then CachePassthrough
      else if PromptCacheMode config = ''off'' then CacheOff
      else if PromptCacheMode config = ''passthrough'' then CachePassthrough
      else CacheStable)"

definition promptCacheControlFields :: "string list" where
  "promptCacheControlFields = [''prompt_cache_key'', ''prompt_cache_options'', ''prompt_cache_retention'', ''prompt_cache_breakpoint'']"

fun removePromptCacheControls :: "json \<Rightarrow> json" where
  "removePromptCacheControls (JObj fs) =
     JObj (map (\<lambda>(k, v). (k, removePromptCacheControls v)) (filter (\<lambda>(k, v). k \<notin> set promptCacheControlFields) fs))"
| "removePromptCacheControls (JArr xs) = JArr (map removePromptCacheControls xs)"
| "removePromptCacheControls j = j"

text \<open>\<open>digest\<close> is the hexadecimal text of the first half of the SHA-256 of a text.\<close>

definition PromptCacheKey :: "(string \<Rightarrow> string) \<Rightarrow> string \<Rightarrow> string" where
  "PromptCacheKey digest identity = ''aiferry:'' @ digest identity"

definition promptCacheIdentity :: "id \<Rightarrow> string \<Rightarrow> id \<Rightarrow> id \<Rightarrow> string" where
  "promptCacheIdentity user0 publicName0 channel0 key0 =
     ''v1|u:'' @ showNat user0 @ ''|m:'' @ publicName0 @ ''|c:'' @ showNat channel0 @ ''|k:'' @ showNat key0"

text \<open>The body is a text when it passes as it is.\<close>

datatype sentBody = SentText string | SentMap goMap

definition ApplyPromptCachePolicy :: "lineEnv \<Rightarrow> (string \<Rightarrow> string) \<Rightarrow> string \<Rightarrow> AdvancedConfig \<Rightarrow> string \<Rightarrow> bodyError + sentBody" where
  "ApplyPromptCachePolicy env digest body0 config identity =
     (if ResolvePromptCacheMode config = CachePassthrough then Inr (SentText body0)
      else case decodeMap env body0 of
             NotAnObject \<Rightarrow> Inl BodyDecode
           | NilMap \<Rightarrow> if ResolvePromptCacheMode config = CacheStable \<and> identity \<noteq> [] then Inl BodyPanic else Inr (SentText (leEnc env JNull))
           | DecodedMap payload \<Rightarrow>
               (case removePromptCacheControls (JObj payload) of
                  JObj cleared \<Rightarrow>
                    Inr (SentMap (if ResolvePromptCacheMode config = CacheStable \<and> identity \<noteq> []
                      then AList.update ''prompt_cache_key'' (JStr (PromptCacheKey digest identity)) cleared else cleared))
                | _ \<Rightarrow> Inl BodyDecode))"

text \<open>The body sent to an upstream that no vendor rule changes further: both steps, one after the other.\<close>

definition upstreamBody :: "lineEnv \<Rightarrow> (string \<Rightarrow> string) \<Rightarrow> string \<Rightarrow> string \<Rightarrow> string \<Rightarrow> AdvancedConfig \<Rightarrow> string \<Rightarrow> bodyError + sentBody" where
  "upstreamBody env digest endpoint originalBody upstreamModel config identity =
     (case prepareRequestBody env endpoint originalBody upstreamModel config of
        Inl e \<Rightarrow> Inl e
      | Inr m \<Rightarrow> ApplyPromptCachePolicy env digest (leEnc env (JObj m)) config identity)"

subsection \<open>Nothing forbidden reaches the upstream\<close>

fun noCacheFields :: "json \<Rightarrow> bool" where
  "noCacheFields (JObj fs) \<longleftrightarrow> (\<forall>(k, v) \<in> set fs. k \<notin> set promptCacheControlFields \<and> noCacheFields v)"
| "noCacheFields (JArr xs) \<longleftrightarrow> (\<forall>x \<in> set xs. noCacheFields x)"
| "noCacheFields _ = True"

lemma controls_removed: "noCacheFields (removePromptCacheControls j)"
  by (induction j rule: removePromptCacheControls.induct) auto

lemma map_of_cleared:
  "map_of (map (\<lambda>(k, v). (k, f v)) (filter (\<lambda>(k, v). k \<notin> K) fs)) k = (if k \<in> K then None else map_option f (map_of fs k))"
  by (induction fs) auto

lemma map_of_withoutFields:
  "map_of (foldl (\<lambda>m (field, allowed). if allowed then m else AList.delete field m) m0 xs) f = (if (f, False) \<in> set xs then None else map_of m0 f)"
  by (induction xs arbitrary: m0) (auto simp: delete_conv' split: if_splits)

lemma restricted_absent:
  "(field, False) \<in> set (switchedFields config) \<Longrightarrow> map_of (applyRestrictedFields payload config) field = None"
  by (simp add: applyRestrictedFields_def map_of_withoutFields)

lemma promptKept:
  "field \<notin> {''messages'', ''instructions''} \<Longrightarrow> map_of (applyDefaultSystemPrompt endpoint payload config) field = map_of payload field"
  by (auto simp: applyDefaultSystemPrompt_def applyChatSystemPrompt_def applyResponseInstructions_def update_conv' Let_def split: json.split)

lemma upstreamPayload_facts:
  "entry (upstreamPayload endpoint payload model config) ''model'' = JStr model"
  "(field, False) \<in> set (switchedFields config) \<Longrightarrow> map_of (upstreamPayload endpoint payload model config) field = None"
proof -
  show "entry (upstreamPayload endpoint payload model config) ''model'' = JStr model"
    by (simp add: upstreamPayload_def askForUsage_def entry_update Let_def)
  assume field: "(field, False) \<in> set (switchedFields config)"
  then have "field \<notin> {''messages'', ''instructions'', ''model'', ''stream_options''}" by (auto simp: switchedFields_def)
  then show "map_of (upstreamPayload endpoint payload model config) field = None"
    using restricted_absent [OF field] promptKept [of field] by (simp add: upstreamPayload_def askForUsage_def update_conv' Let_def)
qed

lemma prepared_facts:
  assumes "prepareRequestBody env endpoint originalBody model config = Inr m"
  shows "entry m ''model'' = JStr model" "(field, False) \<in> set (switchedFields config) \<Longrightarrow> map_of m field = None"
  using assms upstreamPayload_facts by (auto simp: prepareRequestBody_def split: decodedMap.splits if_splits)

subsection \<open>Whose cache a request uses\<close>

lemma identity_inject:
  "promptCacheIdentity u p c k = promptCacheIdentity u' p' c' k' \<longleftrightarrow> u = u' \<and> p = p' \<and> c = c' \<and> k = k'"
proof
  assume same: "promptCacheIdentity u p c k = promptCacheIdentity u' p' c' k'"
  have colon: "CHR '':'' \<notin> set (rev (showNat n))" "CHR ''|'' \<notin> set (showNat n)" for n
    using showNat_all_digits [of "CHR '':''" n] showNat_all_digits [of "CHR ''|''" n] by (auto simp: isDigit_def)
  from same have "showNat u @ CHR ''|'' # (''m:'' @ p @ ''|c:'' @ showNat c @ ''|k:'' @ showNat k) =
      showNat u' @ CHR ''|'' # (''m:'' @ p' @ ''|c:'' @ showNat c' @ ''|k:'' @ showNat k')"
    by (simp add: promptCacheIdentity_def)
  then have u: "u = u'" and rest: "p @ ''|c:'' @ showNat c @ ''|k:'' @ showNat k = p' @ ''|c:'' @ showNat c' @ ''|k:'' @ showNat k'"
    using append_sep_inject [OF colon(2) colon(2)] by auto
  from rest have "rev (p @ ''|c:'' @ showNat c @ ''|k:'' @ showNat k) = rev (p' @ ''|c:'' @ showNat c' @ ''|k:'' @ showNat k')" by simp
  then have "rev (showNat k) @ CHR '':'' # (''k|'' @ rev (showNat c) @ '':c|'' @ rev p) =
      rev (showNat k') @ CHR '':'' # (''k|'' @ rev (showNat c') @ '':c|'' @ rev p')" by simp
  then have k: "k = k'" and rest: "rev (showNat c) @ CHR '':'' # (''c|'' @ rev p) = rev (showNat c') @ CHR '':'' # (''c|'' @ rev p')"
    using append_sep_inject [OF colon(1) colon(1)] by auto
  from rest have "c = c'" "p = p'" using append_sep_inject [OF colon(1) colon(1)] by auto
  with u k show "u = u' \<and> p = p' \<and> c = c' \<and> k = k'" by simp
qed simp


definition exampleRequest :: goMap where
  "exampleRequest =
     [(''model'', JStr ''public''), (''store'', JBool True), (''prompt_cache_key'', JStr ''mine''),
      (''messages'', JArr [JObj [(''role'', JStr ''user''), (''content'', JStr ''hi''), (''prompt_cache_breakpoint'', JNull)]])]"

definition exampleUpstream :: goMap where
  "exampleUpstream = upstreamPayload ''/chat/completions'' exampleRequest ''upstream'' DefaultAdvancedConfig"

definition exampleBodyEnv :: lineEnv where
  "exampleBodyEnv = \<lparr>leParse = (\<lambda>t. if t = ''request'' then Some (JObj exampleRequest) else if t = ''upstream'' then Some (JObj exampleUpstream) else None),
     leEnc = (\<lambda>_. ''upstream''), leRaw = (\<lambda>_. []), leUint = (\<lambda>_. 0),
     leStream = \<lparr>seGjson = \<lparr>gjNum = (\<lambda>t. t), gjRaw = (\<lambda>_. []), gjInt = (\<lambda>_. 0)\<rparr>, seNum = (\<lambda>t. t), seValue = (\<lambda>_. 0)\<rparr>\<rparr>"

definition exampleSent :: goMap where
  "exampleSent =
     [(''model'', JStr ''upstream''),
      (''messages'', JArr [JObj [(''role'', JStr ''user''), (''content'', JStr ''hi'')]]),
      (''prompt_cache_key'', JStr (PromptCacheKey (\<lambda>s. s) (promptCacheIdentity 42 ''public'' 1 2)))]"

lemma exampleUpstream_eq:
  "exampleUpstream =
     [(''model'', JStr ''upstream''), (''prompt_cache_key'', JStr ''mine''),
      (''messages'', JArr [JObj [(''role'', JStr ''user''), (''content'', JStr ''hi''), (''prompt_cache_breakpoint'', JNull)]])]"
  by (simp add: exampleUpstream_def upstreamPayload_def exampleRequest_def supportedRequestFields_def copyProtocolFields_def commonRequestFields_def
      endpointRequestFields_def switchedFields_def applyRestrictedFields_def applyDefaultSystemPrompt_def DefaultAdvancedConfig_def entry_def)

lemma example_decoded:
  "decodeMap exampleBodyEnv ''request'' = DecodedMap exampleRequest" "decodeMap exampleBodyEnv ''upstream'' = DecodedMap exampleUpstream"
  unfolding exampleUpstream_eq by (simp_all add: decodeMap_def exampleBodyEnv_def exampleUpstream_eq exampleRequest_def lastWins_def)

lemma example_prepared:
  "prepareRequestBody exampleBodyEnv ''/chat/completions'' ''request'' ''upstream'' DefaultAdvancedConfig = Inr exampleUpstream"
  by (simp add: prepareRequestBody_def example_decoded exampleUpstream_def)

lemma example_sent:
  "upstreamBody exampleBodyEnv (\<lambda>s. s) ''/chat/completions'' ''request'' ''upstream'' DefaultAdvancedConfig (promptCacheIdentity 42 ''public'' 1 2) =
     Inr (SentMap exampleSent)"
proof -
  have "leEnc exampleBodyEnv (JObj exampleUpstream) = ''upstream''" by (simp add: exampleBodyEnv_def)
  moreover have "promptCacheIdentity 42 ''public'' 1 2 \<noteq> []" by (simp add: promptCacheIdentity_def)
  moreover have "ResolvePromptCacheMode DefaultAdvancedConfig = CacheStable" by (simp add: ResolvePromptCacheMode_def DefaultAdvancedConfig_def)
  ultimately show ?thesis
    by (simp add: upstreamBody_def example_prepared ApplyPromptCachePolicy_def example_decoded)
      (simp add: exampleUpstream_eq exampleSent_def promptCacheControlFields_def)
qed


subsection \<open>The metadata of an answer\<close>

text \<open>\<open>now\<close> is the time in seconds. Writing to the map of a body that is null panics.\<close>

definition addUnless :: "bool \<Rightarrow> string \<Rightarrow> json \<Rightarrow> goMap \<Rightarrow> goMap" where
  "addUnless skip k v m = (if skip \<or> map_of m k \<noteq> None then m else AList.update k v m)"

definition applyOpenAIResponseMetadata :: "string \<Rightarrow> goMap \<Rightarrow> string \<Rightarrow> int \<Rightarrow> goMap" where
  "applyOpenAIResponseMetadata endpoint payload upstreamModel now =
     (let m = addUnless False ''created'' (jInt now) (addUnless (upstreamModel = []) ''model'' (JStr upstreamModel) payload) in
      if endpoint = ''/chat/completions'' then addUnless False ''object'' (JStr ''chat.completion'') m
      else if endpoint = ''/responses'' then addUnless False ''object'' (JStr ''response'') m
      else if endpoint = ''/embeddings'' then addUnless False ''object'' (JStr ''list'') m
      else m)"

text \<open>None is a panic.\<close>

definition normalizeResponseBody :: "lineEnv \<Rightarrow> string \<Rightarrow> string \<Rightarrow> string \<Rightarrow> AdvancedConfig \<Rightarrow> int \<Rightarrow> string option" where
  "normalizeResponseBody env endpoint body0 upstreamModel config now =
     (if \<not> ForceOpenAIFormat config \<or> endpoint = ''/rerank'' then Some body0
      else case decodeMap env body0 of
             NotAnObject \<Rightarrow> Some body0
           | NilMap \<Rightarrow> None
           | DecodedMap payload \<Rightarrow> Some (leEnc env (JObj (applyOpenAIResponseMetadata endpoint payload upstreamModel now))))"

definition normalizeSSELine :: "lineEnv \<Rightarrow> string \<Rightarrow> string \<Rightarrow> string \<Rightarrow> AdvancedConfig \<Rightarrow> int \<Rightarrow> string option" where
  "normalizeSSELine env endpoint line upstreamModel config now =
     (let payload = payloadText line in
      if \<not> ForceOpenAIFormat config \<or> \<not> hasPrefix (trimSpace line) ''data:'' \<or> payload = [] \<or> payload = ''[DONE]'' then Some line
      else case normalizeResponseBody env endpoint payload upstreamModel config now of
             None \<Rightarrow> None
           | Some normalized \<Rightarrow> Some (if normalized = payload then line else ''data: '' @ normalized @ [lineFeed]))"

subsection \<open>An answer put together from a stream\<close>

record toolSlot =
  tsID :: string
  tsName :: string
  tsArguments :: string

record aggregated =
  agContent :: string
  agReasoning :: string
  agRole :: string
  agModel :: string
  agID :: string
  agCreated :: int
  agFinish :: string
  agTools :: "(int \<times> toolSlot) list"
  agUsage :: "json option"
  agSawFrame :: bool

definition emptyAggregate :: aggregated where
  "emptyAggregate = \<lparr>agContent = [], agReasoning = [], agRole = ''assistant'', agModel = [], agID = [], agCreated = 0, agFinish = [],
     agTools = [], agUsage = None, agSawFrame = False\<rparr>"

fun splitLines :: "string \<Rightarrow> string \<Rightarrow> string list" where
  "splitLines acc [] = [rev acc]"
| "splitLines acc (c # cs) = (if c = lineFeed then rev acc # splitLines [] cs else splitLines (c # acc) cs)"

definition dropReturn :: "string \<Rightarrow> string" where
  "dropReturn line = (if line \<noteq> [] \<and> last line = CHR 0x0D then butlast line else line)"

definition splitSSELines :: "string \<Rightarrow> string list" where
  "splitSSELines raw = filter (\<lambda>l. l \<noteq> []) (map dropReturn (splitLines [] raw))"

definition unlessEmpty :: "string \<Rightarrow> string \<Rightarrow> string" where
  "unlessEmpty v old = (if v = [] then old else v)"

definition addToolPiece :: "lineEnv \<Rightarrow> aggregated \<Rightarrow> json \<Rightarrow> aggregated" where
  "addToolPiece env a call =
     (let index = intIn env call [''index'']; callID = textIn env call [''id''];
          slot = (case map_of (agTools a) index of None \<Rightarrow> \<lparr>tsID = callID, tsName = [], tsArguments = []\<rparr> | Some t \<Rightarrow> t)
      in a\<lparr>agTools := AList.update index
            (slot\<lparr>tsID := (if tsID slot = [] then callID else tsID slot), tsName := tsName slot @ textIn env call [''function'', ''name''],
               tsArguments := tsArguments slot @ textIn env call [''function'', ''arguments'']\<rparr>) (agTools a)\<rparr>)"

definition aggregateLine :: "lineEnv \<Rightarrow> aggregated \<Rightarrow> string \<Rightarrow> aggregated" where
  "aggregateLine env a line =
     (case dataOf env line of
        DataPayload payload \<Rightarrow>
          let created = intIn env payload [''created''];
              a1 = a\<lparr>agSawFrame := True, agModel := unlessEmpty (textIn env payload [''model'']) (agModel a),
                agID := unlessEmpty (textIn env payload [''id'']) (agID a), agCreated := (if created = 0 then agCreated a else created),
                agUsage := (case gjGet payload [''usage''] of None \<Rightarrow> agUsage a | Some JNull \<Rightarrow> agUsage a | Some u \<Rightarrow> Some u),
                agFinish := unlessEmpty (textIn env payload [''choices'', ''0'', ''finish_reason'']) (agFinish a)\<rparr>
          in (case gjGet payload [''choices'', ''0'', ''delta''] of
                None \<Rightarrow>
                  (case gjGet payload [''choices'', ''0'', ''message''] of
                     None \<Rightarrow> a1
                   | Some message \<Rightarrow> a1\<lparr>agContent := agContent a1 @ textIn env message [''content''],
                       agReasoning := agReasoning a1 @ textIn env message [''reasoning_content'']\<rparr>)
              | Some delta \<Rightarrow>
                  foldl (addToolPiece env)
                    (a1\<lparr>agRole := unlessEmpty (textIn env delta [''role'']) (agRole a1), agContent := agContent a1 @ textIn env delta [''content''],
                        agReasoning := agReasoning a1 @ textIn env delta [''reasoning_content'']\<rparr>)
                    (gjArray (gjGet delta [''tool_calls''])))
      | _ \<Rightarrow> a)"

definition toolSlotJson :: "int \<Rightarrow> toolSlot \<Rightarrow> json" where
  "toolSlotJson index t =
     JObj [(''index'', jInt index), (''id'', JStr (tsID t)), (''type'', JStr ''function''),
       (''function'', JObj [(''name'', JStr (tsName t)), (''arguments'', JStr (tsArguments t))])]"

text \<open>Only the calls with the first indexes are listed, as many as there are calls.\<close>

definition orderedTools :: "(int \<times> toolSlot) list \<Rightarrow> json list" where
  "orderedTools tools =
     concat (map (\<lambda>i. case map_of tools (int i) of None \<Rightarrow> [] | Some t \<Rightarrow> [toolSlotJson (int i) t]) [0..<length tools])"

definition aggregateDocument :: "aggregated \<Rightarrow> goMap" where
  "aggregateDocument a =
     (let message = [(''role'', JStr (agRole a)), (''content'', JStr (agContent a))]
            @ (if agReasoning a = [] then [] else [(''reasoning_content'', JStr (agReasoning a))])
            @ (if agTools a = [] then [] else [(''tool_calls'', JArr (orderedTools (agTools a)))])
      in [(''id'', JStr (agID a)), (''object'', JStr ''chat.completion''), (''created'', jInt (agCreated a)), (''model'', JStr (agModel a)),
          (''choices'', JArr [JObj ([(''index'', jInt 0), (''message'', JObj message)]
             @ (if agFinish a = [] then [] else [(''finish_reason'', JStr (agFinish a))]))])]
         @ optionalField ''usage'' (agUsage a))"

definition aggregateChatCompletionSSE :: "lineEnv \<Rightarrow> string \<Rightarrow> string" where
  "aggregateChatCompletionSSE env raw =
     (let a = foldl (aggregateLine env) emptyAggregate (splitSSELines raw) in
      if agSawFrame a then leEnc env (JObj (aggregateDocument a)) else raw)"

text \<open>The text of the answer is that of its pieces in their order.\<close>

definition chunkText :: "lineEnv \<Rightarrow> string \<Rightarrow> string" where
  "chunkText env line =
     (case dataOf env line of
        DataPayload payload \<Rightarrow>
          (if gjGet payload [''choices'', ''0'', ''delta''] = None then textIn env payload [''choices'', ''0'', ''message'', ''content'']
           else textIn env payload [''choices'', ''0'', ''delta'', ''content''])
      | _ \<Rightarrow> [])"

lemma gjGet_append: "gjGet j (a @ b) = (case gjGet j a of None \<Rightarrow> None | Some v \<Rightarrow> gjGet v b)"
  by (induction j a rule: gjGet.induct) (auto split: option.split)

lemma addToolPieces_content: "agContent (foldl (addToolPiece env) a calls) = agContent a"
  by (induction calls arbitrary: a) (simp_all add: addToolPiece_def Let_def)

lemma aggregateLine_content: "agContent (aggregateLine env a line) = agContent a @ chunkText env line"
proof (cases "dataOf env line")
  case (DataPayload payload)
  have m: "gjGet payload [''choices'', ''0'', ''message'', ''content''] =
      (case gjGet payload [''choices'', ''0'', ''message''] of None \<Rightarrow> None | Some v \<Rightarrow> gjGet v [''content''])"
    using gjGet_append [of payload "[''choices'', ''0'', ''message'']" "[''content'']"] by simp
  have d: "gjGet payload [''choices'', ''0'', ''delta'', ''content''] =
      (case gjGet payload [''choices'', ''0'', ''delta''] of None \<Rightarrow> None | Some v \<Rightarrow> gjGet v [''content''])"
    using gjGet_append [of payload "[''choices'', ''0'', ''delta'']" "[''content'']"] by simp
  show ?thesis unfolding aggregateLine_def chunkText_def DataPayload dataLine.case m d Let_def
    by (simp add: addToolPieces_content del: gjGet.simps split: option.split)
qed (simp_all add: aggregateLine_def chunkText_def)

lemma aggregated_content: "agContent (foldl (aggregateLine env) a lines0) = agContent a @ concat (map (chunkText env) lines0)"
  by (induction lines0 arbitrary: a) (simp_all add: aggregateLine_content)

text \<open>A call is lost when the indexes of the calls do not start at zero.\<close>

lemma call_lost: "orderedTools [(1, t), (2, t')] = [toolSlotJson 1 t]"
  by (simp add: orderedTools_def upt_rec)

end
