(* ===== verification/Endpoint_Choice.thy ===== *)
theory Endpoint_Choice
  imports Type_Store Body_Transform Resilience_Settings Routing Protocol_Anthropic
begin

text \<open>
  Where a request goes and what is sent there (\<^verbatim>\<open>channeltype/protocol.go\<close>, \<^verbatim>\<open>relay/protocol_attempt.go\<close>, \<^verbatim>\<open>relay/rerank.go\<close>):
  the lists of models that speak another protocol, the plan of a request, the address, and the body for upstreams
  without vendor rules of their own.
\<close>

subsection \<open>Lists of models\<close>

text \<open>A pattern with a star at its end matches by prefix; blank patterns match nothing.\<close>

definition matchesPattern :: "string \<Rightarrow> string \<Rightarrow> bool" where
  "matchesPattern model pattern0 =
     (let p = toLower (trimSpace pattern0)
      in p \<noteq> [] \<and> (if last p = CHR ''*'' then hasPrefix model (butlast p) else model = p))"

definition matchMessagePatterns :: "string list \<Rightarrow> string \<Rightarrow> bool" where
  "matchMessagePatterns patterns model0 =
     (let model = toLower (trimSpace model0) in model \<noteq> [] \<and> list_ex (matchesPattern model) patterns)"

definition MatchesMessagesModel :: "Config \<Rightarrow> string \<Rightarrow> bool" where
  "MatchesMessagesModel config model = matchMessagePatterns (poMessagesModels (cfProtocol config)) model"

definition MatchesRerankModel :: "Config \<Rightarrow> string \<Rightarrow> bool" where
  "MatchesRerankModel config model \<longleftrightarrow>
     matchMessagePatterns (poRerankModels (cfProtocol config)) model \<or> containsSub (toLower (trimSpace model)) ''rerank''"

definition MessagesEndpointURL :: "Config \<Rightarrow> string" where
  "MessagesEndpointURL config = (let path = trimSpace (poMessagesPath (cfProtocol config)) in if path = [] then MessagesEndpoint else path)"

text \<open>Empty when the model is on no list.\<close>

definition ResolveMessagesEndpoint :: "Config \<Rightarrow> ResilienceSettings \<Rightarrow> string \<Rightarrow> string" where
  "ResolveMessagesEndpoint config settings model =
     (if MatchesMessagesModel config model then MessagesEndpointURL config
      else if matchMessagePatterns (MessagesModels settings) model then MessagesEndpoint
      else [])"

subsection \<open>The plan of a request\<close>

text \<open>The configuration of the candidate's type, none when there are no types or the reading fails.\<close>

definition protocolTypeConfig :: "typeEnv option \<Rightarrow> gotime \<Rightarrow> Candidate \<Rightarrow> typeState \<Rightarrow> Config option \<times> typeState" where
  "protocolTypeConfig types now candidate st =
     (case types of
        None \<Rightarrow> (None, st)
      | Some env \<Rightarrow> (case GetByCode env now (ChannelType candidate) st of
          (Inl e, st1) \<Rightarrow> (None, st1) | (Inr (row, config), st1) \<Rightarrow> (Some config, st1)))"

definition isZhipuResponsesBaseURL :: "string \<Rightarrow> bool" where
  "isZhipuResponsesBaseURL baseURL \<longleftrightarrow> toLower (trimRightSlash (trimSpace baseURL)) = ''https://open.bigmodel.cn/api/v1''"

definition noConfig :: Config where
  "noConfig = \<lparr>cfBaseURL = [], cfModels = noModelConfig, cfCosts = noCostConfig, cfPricing = noPricingConfig, cfAudio = noAudioConfig,
     cfVideo = noVideoConfig, cfQuota = noQuotaConfig, cfLogin = noLoginConfig, cfProtocol = noProtocolConfig, cfEndpoints = []\<rparr>"

definition preferredProtocolPlan :: "Config option \<Rightarrow> string \<Rightarrow> Candidate \<Rightarrow> bool \<Rightarrow> ResilienceSettings \<Rightarrow> plan" where
  "preferredProtocolPlan typeConfig endpoint candidate allowConversion settings =
     (if \<not> allowConversion \<or> endpoint \<noteq> ChatCompletionsEndpoint \<and> endpoint \<noteq> ResponsesEndpoint then directPlan endpoint
      else if (case typeConfig of None \<Rightarrow> False | Some c \<Rightarrow> poChatCompletionsOnly (cfProtocol c)) then PreferredChatCompletionsPlan endpoint
      else let config = (case typeConfig of None \<Rightarrow> noConfig | Some c \<Rightarrow> c);
               messagesURL = ResolveMessagesEndpoint config settings (UpstreamName candidate)
           in if messagesURL \<noteq> [] then PreferredAnthropicPlan endpoint messagesURL
              else if ChannelType candidate = ''zhipu'' \<and> isZhipuResponsesBaseURL (BaseURL candidate) then PreferredResponsesPlan endpoint
              else PreferredPlan endpoint (UpstreamName candidate))"

subsection \<open>Addresses\<close>

definition resolveUpstreamURL :: "string \<Rightarrow> string \<Rightarrow> string" where
  "resolveUpstreamURL baseURL endpoint = (if IsAbsoluteHTTPURL endpoint then endpoint else baseURL @ endpoint)"

definition rerankUpstreamURL :: "Config option \<Rightarrow> Candidate \<Rightarrow> string" where
  "rerankUpstreamURL typeConfig candidate =
     resolveUpstreamURL (trimRightSlash (BaseURL candidate))
       (case typeConfig of
          None \<Rightarrow> ''/rerank''
        | Some c \<Rightarrow> (case map_of (cfEndpoints c) ''rerank'' of
            Some e \<Rightarrow> if trimSpace (ecPath e) \<noteq> [] then ecPath e else ''/rerank'' | None \<Rightarrow> ''/rerank''))"

text \<open>The shape that all rerank upstreams share; a number reads as it is, \<open>topOk\<close> being the test for a positive integer.\<close>

datatype rerank_error = RerankQuery | RerankDocuments | RerankDocument | RerankStream | RerankTop

definition validateRerankRequest :: "(string \<Rightarrow> bool) \<Rightarrow> json option \<Rightarrow> rerank_error option" where
  "validateRerankRequest topOk doc =
     (if (case gjSub doc [''query''] of Some (JStr q) \<Rightarrow> trimSpace q = [] | _ \<Rightarrow> True) then Some RerankQuery
      else case gjSub doc [''documents''] of
        Some (JArr (d # ds)) \<Rightarrow>
          (if \<not> list_all (\<lambda>x. case x of JStr s \<Rightarrow> True | JObj kvs \<Rightarrow> True | _ \<Rightarrow> False) (d # ds) then Some RerankDocument
           else if (case gjSub doc [''stream''] of None \<Rightarrow> False | Some (JBool False) \<Rightarrow> False | _ \<Rightarrow> True) then Some RerankStream
           else if (case gjSub doc [''top_n''] of None \<Rightarrow> False | Some (JNum n) \<Rightarrow> \<not> topOk n | _ \<Rightarrow> True) then Some RerankTop
           else None)
      | _ \<Rightarrow> Some RerankDocuments)"

subsection \<open>The body\<close>

text \<open>Types whose requests are rewritten for the vendor are left out of the following.\<close>

definition IsOpenCodeFreeLane :: "string \<Rightarrow> bool" where
  "IsOpenCodeFreeLane channelType \<longleftrightarrow> trimSpace channelType = ''opencode_zen''"

definition plainChannel :: "Candidate \<Rightarrow> bool" where
  "plainChannel candidate \<longleftrightarrow> ChannelType candidate \<noteq> ''workbuddy'' \<and> \<not> IsOpenCodeFreeLane (ChannelType candidate)"

definition declaresUpstreamStreamOnly :: "Config option \<Rightarrow> bool" where
  "declaresUpstreamStreamOnly typeConfig = (case typeConfig of None \<Rightarrow> False | Some c \<Rightarrow> poForceUpstreamStream (cfProtocol c))"

text \<open>\<^verbatim>\<open>sjson.SetBytes\<close> of the flag in the options of the stream: options that are no object are replaced.\<close>

definition setIncludeUsage :: "goMap \<Rightarrow> goMap" where
  "setIncludeUsage m =
     AList.update ''stream_options''
       (JObj (AList.update ''include_usage'' (JBool True) (case map_of m ''stream_options'' of Some (JObj o1) \<Rightarrow> o1 | _ \<Rightarrow> []))) m"

text \<open>
  The request asks for a stream where the type demands it, the second result, and for the usage in every stream.  A body
  that is sent as it came is decoded for that.
\<close>

definition gjFlag :: "(string \<Rightarrow> bool) \<Rightarrow> json option \<Rightarrow> bool" where
  "gjFlag nonZero v =
     (case v of Some (JBool b) \<Rightarrow> b | Some (JNum n) \<Rightarrow> nonZero n | Some (JStr s) \<Rightarrow> toLower s \<in> {''1'', ''t'', ''true''} | _ \<Rightarrow> False)"

definition streamFlags :: "(string \<Rightarrow> bool) \<Rightarrow> Config option \<Rightarrow> plan \<Rightarrow> bool \<Rightarrow> goMap \<Rightarrow> goMap \<times> bool" where
  "streamFlags nonZero typeConfig p stream m =
     (let chat = (plan.upstreamEndpoint p = ChatCompletionsEndpoint);
          forced = (chat \<and> declaresUpstreamStreamOnly typeConfig \<and> \<not> gjFlag nonZero (map_of m ''stream''));
          m1 = (if forced then setIncludeUsage (AList.update ''stream'' (JBool True) m) else m)
      in (if stream \<and> chat then setIncludeUsage m1 else m1, forced))"

text \<open>
  The body that goes out for a plain channel: converted, prepared, with the cache policy except for rerank requests, and
  with the flags of the stream.  None stands for an error of one of the steps.
\<close>

definition flaggedBody :: "lineEnv \<Rightarrow> (string \<Rightarrow> bool) \<Rightarrow> Config option \<Rightarrow> plan \<Rightarrow> bool \<Rightarrow> sentBody \<Rightarrow> (goMap \<times> bool) option" where
  "flaggedBody env nonZero typeConfig p stream b =
     (case b of
        SentMap m \<Rightarrow> Some (streamFlags nonZero typeConfig p stream m)
      | SentText t \<Rightarrow> (case decodeMap env t of DecodedMap m \<Rightarrow> Some (streamFlags nonZero typeConfig p stream m) | _ \<Rightarrow> None))"

definition requestBody :: "lineEnv \<Rightarrow> (string \<Rightarrow> string) \<Rightarrow> (string \<Rightarrow> bool) \<Rightarrow> Config option \<Rightarrow> AdvancedConfig \<Rightarrow> string \<Rightarrow> plan \<Rightarrow> string \<Rightarrow> bool \<Rightarrow> string \<Rightarrow>
    (goMap \<times> bool) option" where
  "requestBody env digest nonZero typeConfig config identity p model stream original =
     (case ConvertRequest (leParse env) (seNum (leStream env)) (leEnc env) p original of
        None \<Rightarrow> None
      | Some converted \<Rightarrow>
          (case prepareRequestBody env (plan.upstreamEndpoint p) converted model config of
             Inl e \<Rightarrow> None
           | Inr m \<Rightarrow>
               if clientEndpoint p = ''/rerank'' then Some (streamFlags nonZero typeConfig p stream m)
               else case ApplyPromptCachePolicy env digest (leEnc env (JObj m)) config identity of
                 Inl e \<Rightarrow> None
               | Inr b \<Rightarrow> flaggedBody env nonZero typeConfig p stream b))"

subsection \<open>Every plan can be carried out\<close>

text \<open>A plan converts only between the endpoints that its conversion is made for.\<close>

definition coherentPlan :: "string \<Rightarrow> plan \<Rightarrow> bool" where
  "coherentPlan endpoint p \<longleftrightarrow>
     clientEndpoint p = endpoint \<and> plan.upstreamEndpoint p \<noteq> [] \<and>
     (case planConversion p of
        NoConversion \<Rightarrow> plan.upstreamEndpoint p = endpoint
      | ChatToResponses \<Rightarrow> endpoint = ChatCompletionsEndpoint \<and> plan.upstreamEndpoint p = ResponsesEndpoint
      | ResponsesToChat \<Rightarrow> endpoint = ResponsesEndpoint \<and> plan.upstreamEndpoint p = ChatCompletionsEndpoint
      | ChatToAnthropic \<Rightarrow> endpoint = ChatCompletionsEndpoint
      | ResponsesToAnthropic \<Rightarrow> endpoint = ResponsesEndpoint)"

lemma alternate_coherent: "endpoint \<noteq> [] \<Longrightarrow> AlternatePlan endpoint p = Some q \<Longrightarrow> coherentPlan endpoint q"
  by (auto simp: AlternatePlan_def fallbackPlan_def directPlan_def chatToResponsesPlan_def responsesToChatPlan_def coherentPlan_def endpoint_defs split: if_splits)

lemma plan_makers_coherent:
  "endpoint \<noteq> [] \<Longrightarrow> coherentPlan endpoint (directPlan endpoint)"
  "endpoint \<in> {ChatCompletionsEndpoint, ResponsesEndpoint} \<Longrightarrow> coherentPlan endpoint (PreferredAnthropicPlan endpoint url)"
  "endpoint \<in> {ChatCompletionsEndpoint, ResponsesEndpoint} \<Longrightarrow> coherentPlan endpoint (PreferredResponsesPlan endpoint)"
  "endpoint \<in> {ChatCompletionsEndpoint, ResponsesEndpoint} \<Longrightarrow> coherentPlan endpoint (PreferredChatCompletionsPlan endpoint)"
  "endpoint \<in> {ChatCompletionsEndpoint, ResponsesEndpoint} \<Longrightarrow> coherentPlan endpoint (PreferredPlan endpoint model)"
  by (auto simp: coherentPlan_def directPlan_def PreferredAnthropicPlan_def PreferredResponsesPlan_def PreferredChatCompletionsPlan_def
      PreferredPlan_def fallbackPlan_def chatToResponsesPlan_def responsesToChatPlan_def Let_def endpoint_defs)



subsection \<open>The usage is asked for\<close>

lemma setIncludeUsage_entry:
  "\<exists>o1. map_of (setIncludeUsage m) ''stream_options'' = Some (JObj o1) \<and> map_of o1 ''include_usage'' = Some (JBool True)"
  by (simp add: setIncludeUsage_def update_conv')

lemma setIncludeUsage_other: "k \<noteq> ''stream_options'' \<Longrightarrow> map_of (setIncludeUsage m) k = map_of m k"
  by (simp add: setIncludeUsage_def update_conv')

lemma streamFlags_usage:
  assumes "streamFlags nonZero typeConfig p stream m = (m', forced)" "plan.upstreamEndpoint p = ChatCompletionsEndpoint" "stream \<or> forced"
  shows "(\<exists>o1. map_of m' ''stream_options'' = Some (JObj o1) \<and> map_of o1 ''include_usage'' = Some (JBool True)) \<and>
    (forced \<longrightarrow> map_of m' ''stream'' = Some (JBool True)) \<and> (forced \<longleftrightarrow> declaresUpstreamStreamOnly typeConfig \<and> \<not> gjFlag nonZero (map_of m ''stream''))"
  using assms by (auto simp: streamFlags_def Let_def setIncludeUsage_entry setIncludeUsage_other update_conv' split: if_splits)


lemma example_request_body:
  "requestBody exampleBodyEnv (\<lambda>s. s) (\<lambda>_. True) None DefaultAdvancedConfig (promptCacheIdentity 42 ''public'' 1 2) (directPlan ''/chat/completions'')
     ''upstream'' True ''request'' = Some (setIncludeUsage exampleSent, False)"
proof -
  have c: "ConvertRequest parse num enc (directPlan e) body = Some body" for parse num enc e body
    by (simp add: ConvertRequest_def directPlan_def)
  have "ApplyPromptCachePolicy exampleBodyEnv (\<lambda>s. s) (leEnc exampleBodyEnv (JObj exampleUpstream)) DefaultAdvancedConfig (promptCacheIdentity 42 ''public'' 1 2) =
      Inr (SentMap exampleSent)"
    using example_sent by (simp add: upstreamBody_def example_prepared)
  moreover have "clientEndpoint (directPlan e) = e" "plan.upstreamEndpoint (directPlan e) = e" for e by (simp_all add: directPlan_def)
  ultimately show ?thesis
    by (simp add: requestBody_def c example_prepared flaggedBody_def streamFlags_def declaresUpstreamStreamOnly_def ChatCompletionsEndpoint_def
        del: One_nat_def)
qed


end
