(* ===== verification/Content_Guard.thy ===== *)
theory Content_Guard
  imports Sse_Lines
begin

text \<open>
  The guard against answers that are internal markup of an upstream's own client (\<^verbatim>\<open>relay/content_guard.go\<close>,
  \<^verbatim>\<open>content_guard_buffered.go\<close>).  In a stream it holds back the first pieces of the text until it knows whether they
  start with a marker; what it holds is shown to be neither lost nor changed, and an answer that starts with a marker to
  be refused before a piece of it has passed.
\<close>

subsection \<open>Markers\<close>

definition guardProbeLimit :: nat where "guardProbeLimit = 24"

text \<open>The fullwidth vertical bar.\<close>

definition wideBar :: string where "wideBar = bytes [0xEF, 0xBD, 0x9C]"

definition markupLeakPrefixes :: "string list" where
  "markupLeakPrefixes =
     [''<tool_result'', ''<tool_calls>'', ''<tool_calls '', ''<tool_call>'', ''<tool_call '',
      ''<tool invoke'', ''<function_results'', ''<function_calls'', ''<'' @ wideBar, wideBar @ ''DSML'' @ wideBar, ''<|tool'',
      ''<summary>'']"

datatype guardDecision = GuardUndecided | GuardNone | GuardMarkup

definition blankChar :: "char \<Rightarrow> bool" where
  "blankChar c \<longleftrightarrow> c = CHR '' '' \<or> c = CHR 0x09 \<or> c = CHR 0x0D \<or> c = CHR 0x0A"

definition isMarkupPrefix :: "string \<Rightarrow> bool" where
  "isMarkupPrefix s \<longleftrightarrow> list_ex (\<lambda>p. hasPrefix p s) markupLeakPrefixes"

definition classifyGuardPrefix :: "string \<Rightarrow> guardDecision" where
  "classifyGuardPrefix raw =
     (let s = dropWhile blankChar raw in
      if s = [] then GuardUndecided
      else if list_ex (hasPrefix s) markupLeakPrefixes then GuardMarkup
      else if isMarkupPrefix s then GuardUndecided
      else GuardNone)"

definition hasAngleBracket :: "string \<Rightarrow> bool" where
  "hasAngleBracket s \<longleftrightarrow> containsSub s ''<'' \<or> containsSub s ([CHR 0x5C] @ ''u003c'') \<or> containsSub s ([CHR 0x5C] @ ''u003C'')"

subsection \<open>Finished answers\<close>

definition choiceContent :: "json \<Rightarrow> string option" where
  "choiceContent choice =
     (case objectValue choice of
        None \<Rightarrow> None
      | Some c \<Rightarrow> (case entry c ''message'' of
            JObj m \<Rightarrow> (case entry m ''content'' of JStr s \<Rightarrow> if trimSpace s = [] then None else Some s | _ \<Rightarrow> None)
          | _ \<Rightarrow> None))"

definition inspectBufferedMarkup :: "lineEnv \<Rightarrow> string \<Rightarrow> string \<Rightarrow> bool" where
  "inspectBufferedMarkup env endpoint body0 =
     (if endpoint \<noteq> ChatCompletionsEndpoint \<or> \<not> hasAngleBracket body0 then False
      else case decodeProtocolObject (leParse env) (seNum (leStream env)) body0 of
             None \<Rightarrow> False
           | Some payload \<Rightarrow>
               list_ex (\<lambda>choice. case choiceContent choice of None \<Rightarrow> False
                   | Some s \<Rightarrow> classifyGuardPrefix (dropWhile blankChar s) = GuardMarkup)
                 (arrayValue (entry payload ''choices'')))"

subsection \<open>Streams\<close>

datatype guardState = GuardIdle | GuardProbing | GuardDone

record streamContentGuard =
  cgState :: guardState
  cgBuffer :: string
  cgTemplate :: goMap

definition newStreamContentGuard :: "string \<Rightarrow> streamContentGuard option" where
  "newStreamContentGuard endpoint =
     (if endpoint \<noteq> ChatCompletionsEndpoint then None else Some \<lparr>cgState = GuardIdle, cgBuffer = [], cgTemplate = []\<rparr>)"

text \<open>\<^verbatim>\<open>chatDelta\<close>: the delta of the first choice; the second definition replaces its text.\<close>

definition guardDelta :: "goMap \<Rightarrow> goMap option" where
  "guardDelta m =
     (case entry m ''choices'' of
        JArr (JObj choice # _) \<Rightarrow> (case entry choice ''delta'' of JObj d \<Rightarrow> Some d | _ \<Rightarrow> None)
      | _ \<Rightarrow> None)"

definition setGuardContent :: "string \<Rightarrow> goMap \<Rightarrow> goMap" where
  "setGuardContent s m =
     (case entry m ''choices'' of
        JArr (JObj choice # rest0) \<Rightarrow>
          (case entry choice ''delta'' of
             JObj d \<Rightarrow> AList.update ''choices'' (JArr (JObj (AList.update ''delta'' (JObj (AList.update ''content'' (JStr s) d)) choice) # rest0)) m
           | _ \<Rightarrow> m)
      | _ \<Rightarrow> m)"

definition hasGuardToolCalls :: "goMap \<Rightarrow> bool" where
  "hasGuardToolCalls delta =
     (case entry delta ''tool_calls'' of
        JArr xs \<Rightarrow> xs \<noteq> [] \<and> list_all (\<lambda>x. case x of JObj m \<Rightarrow> m \<noteq> [] | _ \<Rightarrow> False) xs
      | _ \<Rightarrow> False)"

definition encodeGuardLine :: "lineEnv \<Rightarrow> goMap \<Rightarrow> string" where
  "encodeGuardLine env m = ''data: '' @ leEnc env (JObj m) @ [lineFeed]"

text \<open>Each step gives the line to pass on, if any, whether the answer is refused, and the guard after it.\<close>

type_synonym guardStep = "string option \<times> bool \<times> streamContentGuard"

definition guardReject :: "streamContentGuard \<Rightarrow> guardStep" where
  "guardReject g = (None, True, g\<lparr>cgState := GuardDone, cgBuffer := [], cgTemplate := []\<rparr>)"

definition flushAsContent :: "lineEnv \<Rightarrow> streamContentGuard \<Rightarrow> guardStep" where
  "flushAsContent env g =
     (let g1 = g\<lparr>cgState := GuardDone\<rparr> in
      case guardDelta (cgTemplate g) of
        None \<Rightarrow> (None, False, g1)
      | Some _ \<Rightarrow> (Some (encodeGuardLine env (setGuardContent (cgBuffer g) (cgTemplate g))), False,
                   g1\<lparr>cgTemplate := setGuardContent (cgBuffer g) (cgTemplate g)\<rparr>))"

definition guardProbe :: "lineEnv \<Rightarrow> streamContentGuard \<Rightarrow> guardStep" where
  "guardProbe env g =
     (case classifyGuardPrefix (cgBuffer g) of
        GuardMarkup \<Rightarrow> guardReject g
      | GuardNone \<Rightarrow> flushAsContent env g
      | GuardUndecided \<Rightarrow> if guardProbeLimit < length (cgBuffer g) then flushAsContent env g else (None, False, g))"

definition settleToolCall :: "lineEnv \<Rightarrow> string \<Rightarrow> goMap \<Rightarrow> goMap \<Rightarrow> streamContentGuard \<Rightarrow> guardStep" where
  "settleToolCall env line doc delta g =
     (if cgState g \<noteq> GuardProbing then (Some line, False, g\<lparr>cgState := GuardDone\<rparr>)
      else let buffered = cgBuffer g; g1 = g\<lparr>cgBuffer := []\<rparr> in
        if classifyGuardPrefix buffered = GuardMarkup then guardReject g1
        else let g2 = g1\<lparr>cgState := GuardDone\<rparr> in
          if buffered = [] then (Some line, False, g2)
          else (Some (encodeGuardLine env (setGuardContent (buffered @ stringValue (entry delta ''content'')) doc)), False, g2))"

text \<open>The decoded document of a line, null being the empty map, and its delta.\<close>

definition guardDocument :: "lineEnv \<Rightarrow> string \<Rightarrow> goMap option" where
  "guardDocument env line =
     (case dataOf env line of
        DataPayload j \<Rightarrow> (case j of JNull \<Rightarrow> Some [] | _ \<Rightarrow> objectValue (unmarshalAny (seNum (leStream env)) j))
      | _ \<Rightarrow> None)"

definition guardObserve :: "lineEnv \<Rightarrow> string \<Rightarrow> streamContentGuard \<Rightarrow> guardStep" where
  "guardObserve env line g =
     (if cgState g = GuardDone then (Some line, False, g)
      else case guardDocument env line of
        None \<Rightarrow> (Some line, False, g)
      | Some doc \<Rightarrow>
          (case guardDelta doc of
             None \<Rightarrow> (Some line, False, g)
           | Some delta \<Rightarrow>
               if hasGuardToolCalls delta then settleToolCall env line doc delta g
               else let content = stringValue (entry delta ''content'') in
                 if content = [] then (Some line, False, g)
                 else if cgState g = GuardIdle then
                   (case classifyGuardPrefix content of
                      GuardMarkup \<Rightarrow> guardReject g
                    | GuardNone \<Rightarrow> (Some line, False, g\<lparr>cgState := GuardDone\<rparr>)
                    | GuardUndecided \<Rightarrow> guardProbe env (g\<lparr>cgState := GuardProbing, cgTemplate := doc, cgBuffer := cgBuffer g @ content\<rparr>))
                 else guardProbe env (g\<lparr>cgBuffer := cgBuffer g @ content\<rparr>)))"

text \<open>Without a guard every line passes.\<close>

definition guardLine :: "lineEnv \<Rightarrow> string \<Rightarrow> streamContentGuard option \<Rightarrow> string option \<times> bool \<times> streamContentGuard option" where
  "guardLine env line g0 =
     (case g0 of None \<Rightarrow> (Some line, False, None)
      | Some g \<Rightarrow> (let (out, refused, g1) = guardObserve env line g in (out, refused, Some g1)))"

subsection \<open>The text of an answer\<close>

text \<open>The piece of text that a line carries, and the whole run of the guard over the lines of a stream up to a refusal.\<close>

definition lineContent :: "lineEnv \<Rightarrow> string \<Rightarrow> string" where
  "lineContent env line =
     (case guardDocument env line of
        None \<Rightarrow> []
      | Some doc \<Rightarrow> (case guardDelta doc of None \<Rightarrow> [] | Some d \<Rightarrow> stringValue (entry d ''content'')))"

definition linesContent :: "lineEnv \<Rightarrow> string list \<Rightarrow> string" where
  "linesContent env lines0 = concat (map (lineContent env) lines0)"

definition callsTool :: "lineEnv \<Rightarrow> string \<Rightarrow> bool" where
  "callsTool env line \<longleftrightarrow> (\<exists>doc d. guardDocument env line = Some doc \<and> guardDelta doc = Some d \<and> hasGuardToolCalls d)"

fun guardRun :: "lineEnv \<Rightarrow> string list \<Rightarrow> streamContentGuard \<Rightarrow> string list \<times> bool \<times> streamContentGuard" where
  "guardRun env [] g = ([], False, g)"
| "guardRun env (line # lines0) g =
     (case guardObserve env line g of
        (_, True, g1) \<Rightarrow> ([], True, g1)
      | (out, False, g1) \<Rightarrow>
          (let (outs, refused, g2) = guardRun env lines0 g1 in ((case out of None \<Rightarrow> [] | Some l \<Rightarrow> [l]) @ outs, refused, g2)))"

definition heldBack :: "streamContentGuard \<Rightarrow> string" where
  "heldBack g = (if cgState g = GuardProbing then cgBuffer g else [])"

text \<open>The encoder and the decoder of the environment fit together on the documents that the guard writes.\<close>

definition encodesLines :: "lineEnv \<Rightarrow> bool" where
  "encodesLines env \<longleftrightarrow>
     (\<forall>line doc s. guardDocument env line = Some doc \<longrightarrow>
        guardDocument env (encodeGuardLine env (setGuardContent s doc)) = Some (setGuardContent s doc))"

lemma guardDelta_set:
  "guardDelta m = Some d \<Longrightarrow> guardDelta (setGuardContent s m) = Some (AList.update ''content'' (JStr s) d)"
  by (auto simp: guardDelta_def setGuardContent_def entry_update split: json.splits list.splits)

lemma lineContent_encoded:
  assumes "encodesLines env" "guardDocument env line = Some m" "guardDelta m = Some d"
  shows "lineContent env (encodeGuardLine env (setGuardContent s m)) = s"
proof -
  have "guardDocument env (encodeGuardLine env (setGuardContent s m)) = Some (setGuardContent s m)"
    using assms(1,2) by (simp add: encodesLines_def)
  then show ?thesis using assms(3) by (simp add: lineContent_def guardDelta_set entry_update)
qed

subsection \<open>One line\<close>

definition outContent :: "lineEnv \<Rightarrow> string option \<Rightarrow> string" where
  "outContent env out = (case out of None \<Rightarrow> [] | Some l \<Rightarrow> lineContent env l)"

definition guardOk :: "lineEnv \<Rightarrow> streamContentGuard \<Rightarrow> bool" where
  "guardOk env g \<longleftrightarrow>
     (case cgState g of
        GuardIdle \<Rightarrow> cgBuffer g = []
      | GuardDone \<Rightarrow> True
      | GuardProbing \<Rightarrow> classifyGuardPrefix (cgBuffer g) = GuardUndecided \<and> length (cgBuffer g) \<le> guardProbeLimit \<and>
          (\<exists>line d. guardDocument env line = Some (cgTemplate g) \<and> guardDelta (cgTemplate g) = Some d))"

lemma guardOk_new: "newStreamContentGuard endpoint = Some g \<Longrightarrow> guardOk env g \<and> heldBack g = [] \<and> cgState g \<noteq> GuardDone"
  by (auto simp: newStreamContentGuard_def guardOk_def heldBack_def split: if_splits)

lemma lineContent_doc:
  "guardDocument env line = None \<Longrightarrow> lineContent env line = []"
  "guardDocument env line = Some doc \<Longrightarrow> guardDelta doc = None \<Longrightarrow> lineContent env line = []"
  "guardDocument env line = Some doc \<Longrightarrow> guardDelta doc = Some d \<Longrightarrow> lineContent env line = stringValue (entry d ''content'')"
  by (simp_all add: lineContent_def)

text \<open>What a probe makes of a buffer that is held back.\<close>

lemma probe_result:
  assumes "encodesLines env" "cgState g = GuardProbing" "guardDocument env line = Some (cgTemplate g)" "guardDelta (cgTemplate g) = Some d"
    and "guardProbe env g = (out, refused, g1)"
  shows "if refused then classifyGuardPrefix (cgBuffer g) = GuardMarkup
    else outContent env out @ heldBack g1 = cgBuffer g \<and> guardOk env g1 \<and> (cgState g1 \<noteq> GuardDone \<longrightarrow> out = None)"
proof -
  have flushed: ?thesis if "flushAsContent env g = (out, refused, g1)"
    using that assms(4) lineContent_encoded [OF assms(1,3,4)]
    by (auto simp: flushAsContent_def outContent_def heldBack_def guardOk_def Let_def)
  show ?thesis
  proof (cases "classifyGuardPrefix (cgBuffer g)")
    case GuardUndecided
    then show ?thesis using assms flushed
      by (auto simp: guardProbe_def outContent_def heldBack_def guardOk_def split: if_splits)
  next
    case GuardNone
    then show ?thesis using assms(5) flushed by (simp add: guardProbe_def)
  next
    case GuardMarkup
    then show ?thesis using assms(5) by (auto simp: guardProbe_def guardReject_def)
  qed
qed

text \<open>
  A line is refused only when the text held back and its own start with a marker; otherwise no text is lost, and text
  passes only when the guard is done.
\<close>

lemma guardObserve_result:
  assumes E: "encodesLines env" and ok: "guardOk env g" and step: "guardObserve env line g = (out, refused, g1)"
  shows "if refused then classifyGuardPrefix (heldBack g @ lineContent env line) = GuardMarkup \<and> cgState g \<noteq> GuardDone
    else outContent env out @ heldBack g1 = heldBack g @ lineContent env line \<and> guardOk env g1 \<and>
      (cgState g1 \<noteq> GuardDone \<longrightarrow> outContent env out = [])"
proof (cases "cgState g = GuardDone")
  case True
  then show ?thesis using step by (auto simp: guardObserve_def outContent_def heldBack_def guardOk_def)
next
  case False
  note live = False
  show ?thesis
  proof (cases "guardDocument env line")
    case None
    then show ?thesis using step live ok lineContent_doc(1) [OF None] by (auto simp: guardObserve_def outContent_def)
  next
    case doc: (Some doc)
    show ?thesis
    proof (cases "guardDelta doc")
      case None
      then show ?thesis using step live ok doc lineContent_doc(2) [OF doc None] by (auto simp: guardObserve_def outContent_def)
    next
      case delta: (Some d)
      note content = lineContent_doc(3) [OF doc delta]
      consider (tool) "hasGuardToolCalls d" | (empty) "\<not> hasGuardToolCalls d" "lineContent env line = []"
        | (piece) "\<not> hasGuardToolCalls d" "lineContent env line \<noteq> []" by blast
      then show ?thesis
      proof cases
        case tool
        then have "settleToolCall env line doc d g = (out, refused, g1)" using step live doc delta by (simp add: guardObserve_def)
        then show ?thesis using ok live content lineContent_encoded [OF E doc delta]
          by (cases "cgState g") (auto simp: settleToolCall_def outContent_def heldBack_def guardOk_def Let_def split: if_splits)
      next
        case empty
        then show ?thesis using step live doc delta content ok by (auto simp: guardObserve_def outContent_def)
      next
        case piece
        show ?thesis
        proof (cases "cgState g = GuardIdle")
          case True
          then have held: "heldBack g = []" "cgBuffer g = []" using ok by (simp_all add: heldBack_def guardOk_def)
          let ?g = "g\<lparr>cgState := GuardProbing, cgTemplate := doc, cgBuffer := cgBuffer g @ lineContent env line\<rparr>"
          show ?thesis
          proof (cases "classifyGuardPrefix (lineContent env line)")
            case GuardUndecided
            then have "guardProbe env ?g = (out, refused, g1)" using step live doc delta piece content True by (simp add: guardObserve_def)
            from probe_result [OF E _ _ _ this, of line d] show ?thesis using doc delta held live by (auto simp: outContent_def split: if_splits)
          next
            case GuardNone
            then show ?thesis using step live doc delta piece content True held
              by (auto simp: guardObserve_def outContent_def heldBack_def guardOk_def)
          next
            case GuardMarkup
            then show ?thesis using step live doc delta piece content True held by (auto simp: guardObserve_def guardReject_def)
          qed
        next
          case False
          then have P: "cgState g = GuardProbing" using live by (cases "cgState g") auto
          then obtain l d' where t: "guardDocument env l = Some (cgTemplate g)" "guardDelta (cgTemplate g) = Some d'" using ok by (auto simp: guardOk_def)
          let ?g = "g\<lparr>cgBuffer := cgBuffer g @ lineContent env line\<rparr>"
          have "guardProbe env ?g = (out, refused, g1)" using step live doc delta piece content False by (simp add: guardObserve_def)
          from probe_result [OF E _ _ _ this, of l d'] show ?thesis using t P by (auto simp: heldBack_def outContent_def split: if_splits)
        qed
      qed
    qed
  qed
qed

subsection \<open>A whole stream\<close>

lemma guardDone_passes: "cgState g = GuardDone \<Longrightarrow> guardRun env lines0 g = (lines0, False, g)"
  by (induction lines0) (simp_all add: guardObserve_def)

lemma linesContent_Cons: "linesContent env (case out of None \<Rightarrow> [] | Some l \<Rightarrow> [l]) = outContent env out"
  by (simp add: linesContent_def outContent_def split: option.split)

lemma linesContent_append: "linesContent env (a @ b) = linesContent env a @ linesContent env b"
  by (simp add: linesContent_def)

lemma guardRun_result:
  assumes E: "encodesLines env"
  shows "guardOk env g \<Longrightarrow> guardRun env lines0 g = (outs, refused, g1) \<Longrightarrow>
    if refused then linesContent env outs = [] \<and> (\<exists>k. classifyGuardPrefix (heldBack g @ linesContent env (take k lines0)) = GuardMarkup)
    else linesContent env outs @ heldBack g1 = heldBack g @ linesContent env lines0 \<and> guardOk env g1"
proof (induction lines0 arbitrary: g outs)
  case Nil
  then show ?case by (simp add: linesContent_def)
next
  case (Cons line lines0)
  obtain out r g' where step: "guardObserve env line g = (out, r, g')" by (metis prod_cases3)
  note S = guardObserve_result [OF E Cons.prems(1) step]
  show ?case
  proof (cases r)
    case True
    then have "refused" "outs = []" using Cons.prems(2) step by auto
    moreover have "classifyGuardPrefix (heldBack g @ linesContent env (take 1 (line # lines0))) = GuardMarkup"
      using S True by (simp add: linesContent_def)
    ultimately show ?thesis using True by (auto simp: linesContent_def simp del: take_Suc_Cons intro: exI [of _ 1])
  next
    case False
    obtain outs' where tail: "guardRun env lines0 g' = (outs', refused, g1)" "outs = (case out of None \<Rightarrow> [] | Some l \<Rightarrow> [l]) @ outs'"
      using Cons.prems(2) step False by (auto split: prod.splits)
    have ok: "guardOk env g'" "outContent env out @ heldBack g' = heldBack g @ lineContent env line"
      "cgState g' \<noteq> GuardDone \<longrightarrow> outContent env out = []"
      using S False by simp_all
    note IH = Cons.IH [OF ok(1) tail(1)]
    show ?thesis
    proof (cases refused)
      case True
      then have "cgState g' \<noteq> GuardDone" using guardDone_passes tail(1) by force
      then have silent: "outContent env out = []" using ok(3) by blast
      from True IH obtain k where k: "classifyGuardPrefix (heldBack g' @ linesContent env (take k lines0)) = GuardMarkup" by auto
      have "heldBack g' = heldBack g @ lineContent env line" using ok(2) silent by simp
      then have "classifyGuardPrefix (heldBack g @ linesContent env (take (Suc k) (line # lines0))) = GuardMarkup"
        using k by (simp add: linesContent_def)
      then show ?thesis using True IH silent tail(2) by (auto simp: linesContent_append linesContent_Cons intro: exI [of _ "Suc k"])
    next
      case False
      then show ?thesis using IH ok(2) tail(2)
        by (simp add: linesContent_append linesContent_Cons) (simp add: linesContent_def)
    qed
  qed
qed

subsection \<open>Marked answers\<close>

text \<open>A text that starts with a marker, at most blanks before it, both together within the limit of the probe.\<close>

definition markedText :: "string \<Rightarrow> bool" where
  "markedText s \<longleftrightarrow>
     (\<exists>blanks p rest0. s = blanks @ p @ rest0 \<and> list_all blankChar blanks \<and> p \<in> set markupLeakPrefixes \<and> length blanks + length p \<le> guardProbeLimit)"

lemma marker_head: "p \<in> set markupLeakPrefixes \<Longrightarrow> p \<noteq> [] \<and> \<not> blankChar (hd p)"
  by (auto simp: markupLeakPrefixes_def wideBar_def bytes_def blankChar_def char_of_def)

lemma dropBlanks:
  "list_all blankChar blanks \<Longrightarrow> q \<noteq> [] \<Longrightarrow> \<not> blankChar (hd q) \<Longrightarrow> dropWhile blankChar (blanks @ q) = q"
  by (induction blanks) (auto simp: neq_Nil_conv)

lemma dropAllBlanks: "list_all blankChar blanks \<Longrightarrow> dropWhile blankChar blanks = []"
  by (simp add: list_all_iff)

lemma marked_prefix:
  assumes "markedText s" "s = b @ c"
  shows "classifyGuardPrefix b \<noteq> GuardNone" "guardProbeLimit < length b \<Longrightarrow> classifyGuardPrefix b = GuardMarkup"
proof -
  from assms(1) obtain blanks p rest0 where s: "s = blanks @ p @ rest0" and bl: "list_all blankChar blanks"
    and p: "p \<in> set markupLeakPrefixes" and len: "length blanks + length p \<le> guardProbeLimit" by (auto simp: markedText_def)
  note hd_p = marker_head [OF p]
  have "(classifyGuardPrefix b \<noteq> GuardNone) \<and> (guardProbeLimit < length b \<longrightarrow> classifyGuardPrefix b = GuardMarkup)"
  proof -
    have "blanks @ (p @ rest0) = b @ c" using s assms(2) by simp
    then consider (inside) us where "blanks = b @ us" | (beyond) q where "b = blanks @ q" "q @ c = p @ rest0"
      by (auto simp: append_eq_append_conv2)
    then show ?thesis
    proof cases
      case inside
      then have "list_all blankChar b" using bl by simp
      then show ?thesis using inside len by (simp add: classifyGuardPrefix_def dropAllBlanks)
    next
      case beyond
      show ?thesis
      proof (cases "q = []")
        case True
        then show ?thesis using beyond bl len by (simp add: classifyGuardPrefix_def dropAllBlanks)
      next
        case q: False
        then have "hd q = hd p" using beyond(2) hd_p by (metis hd_append2)
        then have cut: "dropWhile blankChar b = q" using beyond(1) bl q hd_p by (simp add: dropBlanks)
        from beyond(2) consider (long) us where "q = p @ us" | (short) us where "p = q @ us" by (auto simp: append_eq_append_conv2)
        then show ?thesis
        proof cases
          case long
          then have "list_ex (hasPrefix q) markupLeakPrefixes" using p hasPrefix_append by (auto simp: list_ex_iff intro: bexI [of _ p])
          then show ?thesis using cut q by (simp add: classifyGuardPrefix_def)
        next
          case short
          then have "isMarkupPrefix q" using p hasPrefix_append by (auto simp: isMarkupPrefix_def list_ex_iff intro: bexI [of _ p])
          then show ?thesis using cut q beyond(1) len short by (auto simp: classifyGuardPrefix_def)
        qed
      qed
    qed
  qed
  then show "classifyGuardPrefix b \<noteq> GuardNone" "guardProbeLimit < length b \<Longrightarrow> classifyGuardPrefix b = GuardMarkup" by blast+
qed

lemma not_marked_held: "classifyGuardPrefix b = GuardUndecided \<Longrightarrow> length b \<le> guardProbeLimit \<Longrightarrow> \<not> markedText b"
proof
  assume u: "classifyGuardPrefix b = GuardUndecided" and "markedText b"
  then obtain blanks p rest0 where b: "b = blanks @ p @ rest0" and bl: "list_all blankChar blanks" and p: "p \<in> set markupLeakPrefixes"
    by (auto simp: markedText_def)
  have "dropWhile blankChar b = p @ rest0" unfolding b
    using marker_head [OF p] by (intro dropBlanks [OF bl]) auto
  moreover have "list_ex (hasPrefix (p @ rest0)) markupLeakPrefixes" using p hasPrefix_append by (auto simp: list_ex_iff intro: bexI [of _ p])
  ultimately have "classifyGuardPrefix b = GuardMarkup" using marker_head [OF p] by (simp add: classifyGuardPrefix_def)
  with u show False by simp
qed

text \<open>The guard becomes done at a call of a tool, or when the text so far starts with no marker or is long.\<close>

lemma probe_done:
  "guardProbe env g = (out, False, g1) \<Longrightarrow> cgState g \<noteq> GuardDone \<Longrightarrow> cgState g1 = GuardDone \<Longrightarrow>
   classifyGuardPrefix (cgBuffer g) = GuardNone \<or> classifyGuardPrefix (cgBuffer g) = GuardUndecided \<and> guardProbeLimit < length (cgBuffer g)"
  by (auto simp: guardProbe_def guardReject_def split: guardDecision.splits if_splits)

lemma guard_done_cause:
  assumes ok: "guardOk env g" "cgState g \<noteq> GuardDone" and step: "guardObserve env line g = (out, False, g1)" and D: "cgState g1 = GuardDone"
    and plain: "\<not> callsTool env line"
  defines "b \<equiv> heldBack g @ lineContent env line"
  shows "classifyGuardPrefix b = GuardNone \<or> classifyGuardPrefix b = GuardUndecided \<and> guardProbeLimit < length b"
proof (cases "guardDocument env line")
  case None
  then show ?thesis using step ok(2) D by (simp add: guardObserve_def)
next
  case doc: (Some doc)
  show ?thesis
  proof (cases "guardDelta doc")
    case None
    then show ?thesis using step ok(2) D doc by (simp add: guardObserve_def)
  next
    case delta: (Some d)
    have tool: "\<not> hasGuardToolCalls d" using plain doc delta by (simp add: callsTool_def)
    note content = lineContent_doc(3) [OF doc delta]
    have some: "lineContent env line \<noteq> []" using step ok(2) D doc delta tool content by (auto simp: guardObserve_def)
    show ?thesis
    proof (cases "cgState g = GuardIdle")
      case True
      then have b: "b = lineContent env line" "cgBuffer g = []" using ok(1) by (simp_all add: b_def heldBack_def guardOk_def)
      show ?thesis
      proof (cases "classifyGuardPrefix b")
        case GuardUndecided
        then have "guardProbe env (g\<lparr>cgState := GuardProbing, cgTemplate := doc, cgBuffer := cgBuffer g @ b\<rparr>) = (out, False, g1)"
          using step ok(2) doc delta tool content some True b by (simp add: guardObserve_def)
        from probe_done [OF this _ D] show ?thesis using b by simp
      next
        case GuardMarkup
        then show ?thesis using step ok(2) doc delta tool content some True b by (simp add: guardObserve_def guardReject_def)
      qed simp
    next
      case False
      then have P: "cgState g = GuardProbing" using ok(2) by (cases "cgState g") auto
      then have "guardProbe env (g\<lparr>cgBuffer := b\<rparr>) = (out, False, g1)"
        using step doc delta tool content some by (simp add: guardObserve_def b_def heldBack_def)
      from probe_done [OF this _ D] show ?thesis using P by simp
    qed
  qed
qed

lemma marked_refused:
  assumes E: "encodesLines env"
  shows "guardOk env g \<Longrightarrow> cgState g \<noteq> GuardDone \<Longrightarrow> \<forall>line \<in> set lines0. \<not> callsTool env line \<Longrightarrow>
    markedText (heldBack g @ linesContent env lines0) \<Longrightarrow> fst (snd (guardRun env lines0 g))"
proof (induction lines0 arbitrary: g)
  case Nil
  then have "markedText (heldBack g)" by (simp add: linesContent_def)
  moreover have "\<not> markedText (heldBack g)"
  proof (cases "cgState g")
    case GuardProbing
    then show ?thesis using Nil.prems(1) not_marked_held by (auto simp: heldBack_def guardOk_def)
  qed (auto simp: heldBack_def markedText_def dest: marker_head)
  ultimately show ?case by simp
next
  case (Cons line lines0)
  obtain out r g' where step: "guardObserve env line g = (out, r, g')" by (metis prod_cases3)
  note S = guardObserve_result [OF E Cons.prems(1) step]
  show ?case
  proof (cases r)
    case True
    then show ?thesis using step by simp
  next
    case False
    then have ok: "guardOk env g'" "outContent env out @ heldBack g' = heldBack g @ lineContent env line"
      "cgState g' \<noteq> GuardDone \<longrightarrow> outContent env out = []" using S by simp_all
    let ?b = "heldBack g @ lineContent env line"
    have whole: "heldBack g @ linesContent env (line # lines0) = ?b @ linesContent env lines0" by (simp add: linesContent_def)
    note M = marked_prefix [OF Cons.prems(4) whole]
    have "cgState g' \<noteq> GuardDone"
    proof
      assume "cgState g' = GuardDone"
      moreover have "\<not> callsTool env line" using Cons.prems(3) by simp
      ultimately have "classifyGuardPrefix ?b = GuardNone \<or> classifyGuardPrefix ?b = GuardUndecided \<and> guardProbeLimit < length ?b"
        using guard_done_cause [OF Cons.prems(1,2)] step False by simp
      then show False using M by auto
    qed
    moreover from this have "outContent env out = []" using ok(3) by blast
    then have "heldBack g' = ?b" using ok(2) by simp
    ultimately have "fst (snd (guardRun env lines0 g'))"
      using Cons.IH [OF ok(1)] Cons.prems(3,4) whole by simp
    then show ?thesis using step False by (auto split: prod.splits)
  qed
qed


subsection \<open>An example\<close>

lemma trimSpace_newline:
  assumes "plainChar (hd s)" "plainChar (last s)" "s \<noteq> []"
  shows "trimSpace (s @ [lineFeed]) = s"
proof -
  have "\<not> hasPrefix (s @ [lineFeed]) p" if "p \<in> set space_seqs" "p \<noteq> []" for p
    using that assms space_seqs_not_plain [of p] by (auto simp: hasPrefix_iff neq_Nil_conv)
  then have left: "trimSeqs space_seqs (s @ [lineFeed]) = s @ [lineFeed]" by (rule trimSeqs_fixed)
  have "find (\<lambda>p. p \<noteq> [] \<and> hasPrefix (lineFeed # rev s) p) (map rev space_seqs) = Some [lineFeed]"
    by (simp add: space_seqs_def bytes_def hasPrefix_def char_of_def bit_0)
  then have "trimSeqs (map rev space_seqs) (lineFeed # rev s) = trimSeqs (map rev space_seqs) (rev s)"
    by (simp add: trimSeqs.simps [of _ "lineFeed # rev s"])
  moreover have "trimSpace s = s" "trimSeqs space_seqs s = s"
    using assms(1,2) trimSpace_plain [of s] by (auto intro!: trimSeqs_fixed simp: hasPrefix_iff dest!: space_seqs_not_plain)
  ultimately show ?thesis using left by (simp add: trimSpace_def)
qed

lemma trimSpace_after_blank:
  assumes "plainChar (hd s)" "plainChar (last s)" "s \<noteq> []"
  shows "trimSpace (CHR '' '' # s) = s"
proof -
  have "find (\<lambda>p. p \<noteq> [] \<and> hasPrefix (CHR '' '' # s) p) space_seqs = Some ('' '')"
    by (simp add: space_seqs_def bytes_def hasPrefix_def char_of_def bit_0)
  then have "trimSeqs space_seqs (CHR '' '' # s) = trimSeqs space_seqs s"
    by (simp add: trimSeqs.simps [of _ "CHR '' '' # s"])
  then show ?thesis using trimSpace_plain [OF assms(1,2)] by (simp add: trimSpace_def)
qed

text \<open>The document of a piece, with the piece as its text between braces.\<close>

definition pieceDocument :: "string \<Rightarrow> goMap" where
  "pieceDocument s = [(''choices'', JArr [JObj [(''delta'', JObj [(''content'', JStr s)])]])]"

definition pieceText :: "json \<Rightarrow> string" where
  "pieceText j = (case j of JObj m \<Rightarrow> (case guardDelta m of None \<Rightarrow> [] | Some d \<Rightarrow> ''{'' @ stringValue (entry d ''content'') @ ''}'') | _ \<Rightarrow> [])"

definition pieceEnv :: lineEnv where
  "pieceEnv = \<lparr>leParse = (\<lambda>t. if hasPrefix t ''{'' \<and> last t = CHR ''}'' \<and> 2 \<le> length t then Some (JObj (pieceDocument (butlast (tl t)))) else None),
     leEnc = pieceText, leRaw = (\<lambda>_. []), leUint = (\<lambda>_. 0),
     leStream = \<lparr>seGjson = \<lparr>gjNum = (\<lambda>t. t), gjRaw = (\<lambda>_. []), gjInt = (\<lambda>_. 0)\<rparr>, seNum = (\<lambda>t. t), seValue = (\<lambda>_. 0)\<rparr>\<rparr>"

lemma pieceDocument_facts:
  "guardDelta (pieceDocument s) = Some [(''content'', JStr s)]" "setGuardContent t (pieceDocument s) = pieceDocument t"
  "unmarshalAny num (JObj (pieceDocument s)) = JObj (pieceDocument s)" "encodeGuardLine pieceEnv (pieceDocument s) = ''data: {'' @ s @ ''}'' @ [lineFeed]"
  by (simp_all add: pieceDocument_def guardDelta_def setGuardContent_def lastWins_def encodeGuardLine_def pieceEnv_def pieceText_def entry_def)

lemma piece_document: "guardDocument pieceEnv (''data: {'' @ s @ ''}'' @ [lineFeed]) = Some (pieceDocument s)"
proof -
  have line: "trimSpace (''data: {'' @ s @ ''}'' @ [lineFeed]) = ''data: {'' @ s @ ''}''"
    using trimSpace_newline [of "''data: {'' @ s @ ''}''"] by (simp add: plainChar_def)
  have "trimSpace ('' {'' @ s @ ''}'') = ''{'' @ s @ ''}''"
    using trimSpace_after_blank [of "''{'' @ s @ ''}''"] by (simp add: plainChar_def)
  then have "relaySSEDataPayload (leParse pieceEnv) (''data: {'' @ s @ ''}'' @ [lineFeed]) = DataPayload (JObj (pieceDocument s))"
    unfolding relaySSEDataPayload_def line by (simp add: hasPrefix_def pieceEnv_def)
  then show ?thesis using pieceDocument_facts(3) by (simp add: guardDocument_def)
qed

lemma piece_encodes: "encodesLines pieceEnv"
proof -
  have "\<exists>s. doc = pieceDocument s" if "guardDocument pieceEnv line = Some doc" for line doc
    using that pieceDocument_facts(3)
    by (auto simp: guardDocument_def relaySSEDataPayload_def pieceEnv_def Let_def split: dataLine.splits if_splits)
  then show ?thesis unfolding encodesLines_def using pieceDocument_facts(2,4) piece_document by fastforce
qed

lemma piece_content: "lineContent pieceEnv (''data: {'' @ s @ ''}'' @ [lineFeed]) = s"
  by (simp only: lineContent_def piece_document option.case pieceDocument_facts(1)) (simp add: entry_def)

text \<open>A marker in two pieces is refused, a comparison passes, in one line when its second piece has come.\<close>

abbreviation pieceLine :: "string \<Rightarrow> string" where "pieceLine s \<equiv> ''data: {'' @ s @ ''}'' @ [lineFeed]"

lemma piece_runs:
  "guardRun pieceEnv [pieceLine ''<summ'', pieceLine ''ary> of''] \<lparr>cgState = GuardIdle, cgBuffer = [], cgTemplate = []\<rparr> =
     ([], True, \<lparr>cgState = GuardDone, cgBuffer = [], cgTemplate = []\<rparr>)"
  "guardRun pieceEnv [pieceLine ''<'', pieceLine ''5 is true''] \<lparr>cgState = GuardIdle, cgBuffer = [], cgTemplate = []\<rparr> =
     ([pieceLine ''<5 is true''], False, \<lparr>cgState = GuardDone, cgBuffer = ''<5 is true'', cgTemplate = pieceDocument ''<5 is true''\<rparr>)"
proof -
  have step: "guardObserve pieceEnv (pieceLine s) g =
      (if cgState g = GuardDone then (Some (pieceLine s), False, g)
       else if s = [] then (Some (pieceLine s), False, g)
       else if cgState g = GuardIdle then
         (case classifyGuardPrefix s of GuardMarkup \<Rightarrow> guardReject g | GuardNone \<Rightarrow> (Some (pieceLine s), False, g\<lparr>cgState := GuardDone\<rparr>)
          | GuardUndecided \<Rightarrow> guardProbe pieceEnv (g\<lparr>cgState := GuardProbing, cgTemplate := pieceDocument s, cgBuffer := cgBuffer g @ s\<rparr>))
       else guardProbe pieceEnv (g\<lparr>cgBuffer := cgBuffer g @ s\<rparr>))" for s g
    unfolding guardObserve_def piece_document option.case pieceDocument_facts(1)
    by (simp add: hasGuardToolCalls_def entry_def)
  have c: "classifyGuardPrefix ''<summ'' = GuardUndecided" "classifyGuardPrefix ''<summary> of'' = GuardMarkup"
    "classifyGuardPrefix ''<'' = GuardUndecided" "classifyGuardPrefix ''<5 is true'' = GuardNone" by code_simp+
  show "guardRun pieceEnv [pieceLine ''<summ'', pieceLine ''ary> of''] \<lparr>cgState = GuardIdle, cgBuffer = [], cgTemplate = []\<rparr> =
     ([], True, \<lparr>cgState = GuardDone, cgBuffer = [], cgTemplate = []\<rparr>)"
    by (simp only: guardRun.simps step) (simp add: c guardProbe_def guardReject_def guardProbeLimit_def)
  show "guardRun pieceEnv [pieceLine ''<'', pieceLine ''5 is true''] \<lparr>cgState = GuardIdle, cgBuffer = [], cgTemplate = []\<rparr> =
     ([pieceLine ''<5 is true''], False, \<lparr>cgState = GuardDone, cgBuffer = ''<5 is true'', cgTemplate = pieceDocument ''<5 is true''\<rparr>)"
    by (simp only: guardRun.simps step) (simp add: c guardProbe_def flushAsContent_def pieceDocument_facts guardProbeLimit_def)
qed


text \<open>A text that ends while it may still become a marker is never passed on: the stream ends with it held back.\<close>

lemma short_answer_lost:
  "guardRun pieceEnv [pieceLine ''<tool''] \<lparr>cgState = GuardIdle, cgBuffer = [], cgTemplate = []\<rparr> =
     ([], False, \<lparr>cgState = GuardProbing, cgBuffer = ''<tool'', cgTemplate = pieceDocument ''<tool''\<rparr>)"
proof -
  have c: "classifyGuardPrefix ''<tool'' = GuardUndecided" by code_simp
  have "guardObserve pieceEnv (pieceLine ''<tool'') \<lparr>cgState = GuardIdle, cgBuffer = [], cgTemplate = []\<rparr> =
      (None, False, \<lparr>cgState = GuardProbing, cgBuffer = ''<tool'', cgTemplate = pieceDocument ''<tool''\<rparr>)"
    unfolding guardObserve_def piece_document option.case pieceDocument_facts(1)
    by (simp add: hasGuardToolCalls_def entry_def c guardProbe_def guardProbeLimit_def Let_def)
  then show ?thesis by (simp only: guardRun.simps) simp
qed

end
