(* ===== verification/Relay_Stream.thy ===== *)
theory Relay_Stream
  imports Content_Guard Body_Transform
begin

text \<open>
  What the relay makes of the answer of an upstream (\<^verbatim>\<open>attemptWithProtocol\<close> of \<^verbatim>\<open>relay/protocol_attempt.go\<close> from the
  response on): a stream is guarded, normalised, converted and restored line by line, its first lines are held until
  something visible comes, and a stream that breaks is ended with explicit lines; any other answer is read whole.  What
  the client has been sent is part of the state.
\<close>

subsection \<open>Surroundings\<close>

text \<open>
  Clocks are functions of the number of lines read; \<open>ioWriteFails\<close> tells whether the next write to the client fails,
  given what was written before.  The headers are left out.
\<close>

record deliveryEnv =
  ioLine :: lineEnv
  ioErrorText :: "string \<Rightarrow> string \<Rightarrow> string"
  ioOrder :: mapOrder
  ioUnix :: "nat \<Rightarrow> int"
  ioMillis :: "nat \<Rightarrow> int"
  ioWriteFails :: "string list \<Rightarrow> bool"
  ioWriteError :: string
  ioClientGone :: "nat \<Rightarrow> bool"
  ioEmptyMessage :: string

record clientConn =
  ccStatus :: "int option"
  ccSent :: "string list"

definition untouched :: clientConn where
  "untouched = \<lparr>ccStatus = None, ccSent = []\<rparr>"

record deliverySetup =
  suPlan :: plan
  suCode :: int
  suModel :: string
  suConfig :: AdvancedConfig
  suSettings :: ResilienceSettings

abbreviation suUpstream :: "deliverySetup \<Rightarrow> string" where "suUpstream su \<equiv> plan.upstreamEndpoint (suPlan su)"
abbreviation suClient :: "deliverySetup \<Rightarrow> string" where "suClient su \<equiv> clientEndpoint (suPlan su)"

record delivery =
  dsResult :: attemptResult
  dsGuard :: "streamContentGuard option"
  dsConverter :: "streamConverter option"
  dsCapture :: streamResponseCapture
  dsReasoning :: reasoningCapture
  dsPayload :: payloadStreamCapture
  dsRestorer :: "streamRestorer option"
  dsPending :: "string list"
  dsSize :: nat
  dsCommitted :: bool
  dsClient :: clientConn
  dsLines :: nat

definition conversionName :: "conversion \<Rightarrow> string" where
  "conversionName c =
     (case c of NoConversion \<Rightarrow> [] | ChatToResponses \<Rightarrow> ''chat_to_responses'' | ResponsesToChat \<Rightarrow> ''responses_to_chat''
      | ChatToAnthropic \<Rightarrow> ''chat_to_anthropic'' | ResponsesToAnthropic \<Rightarrow> ''responses_to_anthropic'')"

definition openAIErrorBody :: "lineEnv \<Rightarrow> string \<Rightarrow> string \<Rightarrow> string" where
  "openAIErrorBody env kind message =
     leEnc env (JObj [(''error'', JObj [(''type'', JStr kind), (''message'', JStr message)])])"

text \<open>The message of a refused answer, in UTF-8.\<close>

definition markupLeakMessage :: string where
  "markupLeakMessage =
     bytes [0xE4, 0xB8, 0x8A, 0xE6, 0xB8, 0xB8, 0xE6, 0x8A, 0x8A, 0xE5, 0xAE, 0xA2, 0xE6, 0x88, 0xB7, 0xE7, 0xAB, 0xAF, 0xE5, 0x86, 0x85, 0xE9, 0x83, 0xA8,
       0xE6, 0xA0, 0x87, 0xE8, 0xAE, 0xB0, 0xEF, 0xBC, 0x88, 0xE5, 0xB7, 0xA5, 0xE5, 0x85, 0xB7, 0xE5, 0x8D, 0x8F, 0xE8, 0xAE, 0xAE, 0xE6, 0x88, 0x96, 0xE6,
       0x91, 0x98, 0xE8, 0xA6, 0x81, 0xE4, 0xBF, 0xA1, 0xE5, 0xB0, 0x81, 0xEF, 0xBC, 0x89, 0xE5, 0x86, 0x99, 0xE8, 0xBF, 0x9B, 0xE4, 0xBA, 0x86, 0xE6, 0xAD,
       0xA3, 0xE6, 0x96, 0x87, 0xEF, 0xBC, 0x8C, 0xE6, 0x9C, 0xAA, 0xE4, 0xBD, 0x9C, 0xE4, 0xB8, 0xBA, 0xE5, 0x9B, 0x9E, 0xE7, 0xAD, 0x94, 0xE4, 0xBA, 0xA4,
       0xE4, 0xBB, 0x98]"

subsection \<open>Writing to the client\<close>

definition recordFirstStreamOutput :: "int \<Rightarrow> attemptResult \<Rightarrow> attemptResult" where
  "recordFirstStreamOutput ms r = (if firstTokenMs r = None then r\<lparr>firstTokenMs := Some ms\<rparr> else r)"

definition noteFirstOutput :: "deliveryEnv \<Rightarrow> delivery \<Rightarrow> delivery" where
  "noteFirstOutput io d = d\<lparr>dsResult := recordFirstStreamOutput (ioMillis io (dsLines d)) (dsResult d)\<rparr>"

definition writeOutput :: "deliveryEnv \<Rightarrow> deliverySetup \<Rightarrow> string \<Rightarrow> delivery \<Rightarrow> bool \<times> delivery" where
  "writeOutput io su out d =
     (let d1 = d\<lparr>dsPayload := payloadObserve (ioLine io) out (dsPayload d)\<rparr>;
          d2 = (if wroteBytes (dsResult d1) then d1 else (noteFirstOutput io d1)\<lparr>dsClient := (dsClient d1)\<lparr>ccStatus := Some (suCode su)\<rparr>\<rparr>)
      in if ioWriteFails io (ccSent (dsClient d2)) then (False, d2\<lparr>dsResult := (dsResult d2)\<lparr>writerFailed := True\<rparr>\<rparr>)
         else (True, d2\<lparr>dsResult := (dsResult d2)\<lparr>wroteBytes := True\<rparr>,
                 dsClient := (dsClient d2)\<lparr>ccSent := ccSent (dsClient d2) @ [out]\<rparr>\<rparr>))"

fun writeAll :: "deliveryEnv \<Rightarrow> deliverySetup \<Rightarrow> string list \<Rightarrow> delivery \<Rightarrow> bool \<times> delivery" where
  "writeAll io su [] d = (True, d)"
| "writeAll io su (out # outs) d =
     (case writeOutput io su out d of (False, d1) \<Rightarrow> (False, d1) | (True, d1) \<Rightarrow> writeAll io su outs d1)"

definition flushPending :: "deliveryEnv \<Rightarrow> deliverySetup \<Rightarrow> delivery \<Rightarrow> bool \<times> delivery" where
  "flushPending io su d =
     (case writeAll io su (dsPending d) d of
        (False, d1) \<Rightarrow> (False, d1)
      | (True, d1) \<Rightarrow> (True, d1\<lparr>dsPending := [], dsSize := 0\<rparr>))"

text \<open>One restored line: held while nothing visible has come and the held lines are few, otherwise written after them.\<close>

definition emitLine :: "deliveryEnv \<Rightarrow> deliverySetup \<Rightarrow> bool \<Rightarrow> string \<Rightarrow> delivery \<Rightarrow> bool \<times> delivery" where
  "emitLine io su visible out d =
     (if \<not> dsCommitted d \<and> \<not> visible then
        (let d1 = d\<lparr>dsPending := dsPending d @ [out], dsSize := dsSize d + length out\<rparr> in
         if dsSize d1 \<le> maxPendingStreamBytes then (True, d1) else flushPending io su (d1\<lparr>dsCommitted := True\<rparr>))
      else case flushPending io su (d\<lparr>dsCommitted := True\<rparr>) of
             (False, d1) \<Rightarrow> (False, d1)
           | (True, d1) \<Rightarrow> writeOutput io su out d1)"

fun emitLines :: "deliveryEnv \<Rightarrow> deliverySetup \<Rightarrow> bool \<Rightarrow> string list \<Rightarrow> delivery \<Rightarrow> bool \<times> delivery" where
  "emitLines io su visible [] d = (True, d)"
| "emitLines io su visible (out # outs) d =
     (case emitLine io su visible out d of (False, d1) \<Rightarrow> (False, d1) | (True, d1) \<Rightarrow> emitLines io su visible outs d1)"

text \<open>A closing line is never held.\<close>

definition emitClosing :: "deliveryEnv \<Rightarrow> deliverySetup \<Rightarrow> string \<Rightarrow> delivery \<Rightarrow> bool \<times> delivery" where
  "emitClosing io su out d =
     (if dsCommitted d then writeOutput io su out d
      else case flushPending io su (d\<lparr>dsCommitted := True\<rparr>) of (False, d1) \<Rightarrow> (False, d1) | (True, d1) \<Rightarrow> writeOutput io su out d1)"

fun emitClosings :: "deliveryEnv \<Rightarrow> deliverySetup \<Rightarrow> string list \<Rightarrow> delivery \<Rightarrow> bool \<times> delivery" where
  "emitClosings io su [] d = (True, d)"
| "emitClosings io su (out # outs) d =
     (case emitClosing io su out d of (False, d1) \<Rightarrow> (False, d1) | (True, d1) \<Rightarrow> emitClosings io su outs d1)"

subsection \<open>The lines for a client\<close>

definition restoredText :: "lineEnv \<Rightarrow> restoredLine \<Rightarrow> string" where
  "restoredText env l = (case l of PassedLine s \<Rightarrow> s | DataLine j \<Rightarrow> ''data: '' @ leEnc env j @ [lineFeed])"

definition restoredLines :: "deliveryEnv \<Rightarrow> string \<Rightarrow> delivery \<Rightarrow> string list \<times> delivery" where
  "restoredLines io line d =
     (let env = ioLine io;
          (outs, sr) = restoreSSELine (ioOrder io) (seNum (leStream env)) (leParse env) line (dsRestorer d)
      in (map (restoredText env) outs, d\<lparr>dsRestorer := sr\<rparr>))"

text \<open>How the treatment of a line ends: on to the next one, at the end of the attempt with its mark \<open>handled\<close>, or in a panic.\<close>

datatype streamStep = Going delivery | Ended delivery bool | Panicked delivery

definition writeFailed :: "deliveryEnv \<Rightarrow> delivery \<Rightarrow> streamStep" where
  "writeFailed io d = Ended (d\<lparr>dsResult := (dsResult d)\<lparr>errorMessage := ioWriteError io\<rparr>\<rparr>) True"

definition afterWrites :: "deliveryEnv \<Rightarrow> bool \<times> delivery \<Rightarrow> streamStep" where
  "afterWrites io r = (case r of (True, d) \<Rightarrow> Going d | (False, d) \<Rightarrow> writeFailed io d)"

text \<open>The outputs of the converter, normalised and restored, and then written by \<open>emit\<close>.\<close>

fun sendOutputs :: "deliveryEnv \<Rightarrow> deliverySetup \<Rightarrow> (string list \<Rightarrow> delivery \<Rightarrow> bool \<times> delivery) \<Rightarrow> string list \<Rightarrow> delivery \<Rightarrow> streamStep" where
  "sendOutputs io su emit [] d = Going d"
| "sendOutputs io su emit (out # outs) d =
     (if out = [] then sendOutputs io su emit outs d
      else case normalizeSSELine (ioLine io) (suClient su) out (suModel su) (suConfig su) (ioUnix io (dsLines d)) of
             None \<Rightarrow> Panicked d
           | Some normalized \<Rightarrow>
               (case restoredLines io normalized d of
                  (restored, d1) \<Rightarrow>
                    (case afterWrites io (emit restored d1) of Going d2 \<Rightarrow> sendOutputs io su emit outs d2 | s \<Rightarrow> s)))"

definition convertLine :: "deliveryEnv \<Rightarrow> string \<Rightarrow> delivery \<Rightarrow> string list \<times> delivery" where
  "convertLine io line d =
     (case dsConverter d of
        None \<Rightarrow> ([line], d)
      | Some c \<Rightarrow> (let (outs, c1) = Transform (leParse (ioLine io)) (leStream (ioLine io)) line c
                   in (map (sseText (ioLine io)) outs, d\<lparr>dsConverter := Some c1\<rparr>)))"

subsection \<open>Broken streams\<close>

fun writeTerminal :: "deliveryEnv \<Rightarrow> string list \<Rightarrow> delivery \<Rightarrow> bool \<times> delivery" where
  "writeTerminal io [] d = (True, d)"
| "writeTerminal io (out # outs) d =
     (if ioWriteFails io (ccSent (dsClient d)) then (False, d\<lparr>dsResult := (dsResult d)\<lparr>writerFailed := True\<rparr>\<rparr>)
      else writeTerminal io outs (d\<lparr>dsClient := (dsClient d)\<lparr>ccSent := ccSent (dsClient d) @ [out]\<rparr>\<rparr>))"

fun writeTerminals :: "deliveryEnv \<Rightarrow> string list \<Rightarrow> delivery \<Rightarrow> delivery" where
  "writeTerminals io [] d = d"
| "writeTerminals io (line # lines0) d =
     (case restoredLines io line d of
        (restored, d1) \<Rightarrow> (case writeTerminal io restored d1 of (True, d2) \<Rightarrow> writeTerminals io lines0 d2 | (False, d2) \<Rightarrow> d2))"

definition terminateTruncated :: "deliveryEnv \<Rightarrow> deliverySetup \<Rightarrow> int \<Rightarrow> string \<Rightarrow> delivery \<Rightarrow> delivery" where
  "terminateTruncated io su status0 message d =
     (if \<not> StreamFailureEventEnabled (suSettings su) \<or> \<not> wroteBytes (dsResult d) \<or> writerFailed (dsResult d) \<or> ioClientGone io (dsLines d) then d
      else writeTerminals io (streamTerminalLines (ioLine io) (suClient su) status0 message) d)"

text \<open>The end of a stream at a failure: once something was written, the client is told.\<close>

definition failStream :: "deliveryEnv \<Rightarrow> deliverySetup \<Rightarrow> int \<Rightarrow> string \<Rightarrow> string \<Rightarrow> delivery \<Rightarrow> streamStep" where
  "failStream io su status0 body0 message d =
     (let d1 = d\<lparr>dsResult := (dsResult d)\<lparr>status := status0, body := body0, errorMessage := message\<rparr>\<rparr> in
      if wroteBytes (dsResult d1) then Ended (terminateTruncated io su status0 message d1) True else Ended d1 False)"

subsection \<open>A stream\<close>

definition relayLine :: "deliveryEnv \<Rightarrow> deliverySetup \<Rightarrow> string \<Rightarrow> delivery \<Rightarrow> streamStep" where
  "relayLine io su line d0 =
     (let env = ioLine io;
          d = d0\<lparr>dsLines := dsLines d0 + 1\<rparr>;
          (guarded, refused, g) = guardLine env line (dsGuard d);
          d = d\<lparr>dsGuard := g\<rparr>
      in if refused then failStream io su 502 (openAIErrorBody env ''upstream_error'' markupLeakMessage) markupLeakMessage d
         else case guarded of
           None \<Rightarrow> Going d
         | Some line1 \<Rightarrow>
             (let d = d\<lparr>dsReasoning := reasoningObserve env line1 (dsReasoning d)\<rparr> in
              case normalizeSSELine env (suUpstream su) line1 (suModel su) (suConfig su) (ioUnix io (dsLines d)) of
                None \<Rightarrow> Panicked d
              | Some line2 \<Rightarrow>
                  (let d = d\<lparr>dsCapture := captureObserve env line2 (dsCapture d)\<rparr> in
                   case parseStreamFailure env (ioErrorText io) line2 of
                     Some f \<Rightarrow> failStream io su (sfStatus f) (sfBody f) (sfMessage f) d
                   | None \<Rightarrow>
                       (let visible = streamPayloadHasVisibleOutput env line2;
                            d = (if visible then noteFirstOutput io d else d);
                            d = d\<lparr>dsResult := (dsResult d)\<lparr>resTokens := ParseSSEUsage env line2 (resTokens (dsResult d))\<rparr>\<rparr>;
                            (outs, d) = convertLine io line2 d
                        in sendOutputs io su (emitLines io su visible) outs d))))"

fun relayLines :: "deliveryEnv \<Rightarrow> deliverySetup \<Rightarrow> string list \<Rightarrow> delivery \<Rightarrow> streamStep" where
  "relayLines io su [] d = Going d"
| "relayLines io su (line # lines0) d = (case relayLine io su line d of Going d1 \<Rightarrow> relayLines io su lines0 d1 | s \<Rightarrow> s)"

text \<open>What the converter has left to say at the end.\<close>

definition closeConverter :: "deliveryEnv \<Rightarrow> deliverySetup \<Rightarrow> delivery \<Rightarrow> streamStep" where
  "closeConverter io su d =
     (case dsConverter d of
        None \<Rightarrow> Going d
      | Some c \<Rightarrow> (let (outs, c1) = CompleteStream (leStream (ioLine io)) c
                   in sendOutputs io su (emitClosings io su) (map (sseText (ioLine io)) outs) (d\<lparr>dsConverter := Some c1\<rparr>)))"

text \<open>The result of an attempt, with the mark \<open>handled\<close>, an error, and what the client has.\<close>

record keptTexts =
  ktText :: string
  ktModel :: string
  ktToolCalls :: bool
  ktReasoning :: string
  ktField :: string
  ktCallIDs :: "string list"

definition noTexts :: keptTexts where
  "noTexts = \<lparr>ktText = [], ktModel = [], ktToolCalls = False, ktReasoning = [], ktField = [], ktCallIDs = []\<rparr>"

record attemptEnd =
  aeResult :: attemptResult
  aeHandled :: bool
  aeError :: "call_error option"
  aeClient :: clientConn
  aeTexts :: keptTexts
  aePanic :: bool

definition endOf :: "delivery \<Rightarrow> bool \<Rightarrow> call_error option \<Rightarrow> attemptEnd" where
  "endOf d handled0 err = \<lparr>aeResult = dsResult d, aeHandled = handled0, aeError = err, aeClient = dsClient d, aeTexts = noTexts, aePanic = False\<rparr>"

definition stepEnd :: "streamStep \<Rightarrow> (delivery \<Rightarrow> attemptEnd) \<Rightarrow> attemptEnd" where
  "stepEnd s continue =
     (case s of Going d \<Rightarrow> continue d | Ended d h \<Rightarrow> endOf d h None | Panicked d \<Rightarrow> (endOf d False None)\<lparr>aePanic := True\<rparr>)"

text \<open>The lines still held are written now, and then what the restorer holds.\<close>

definition closeRestorer :: "deliveryEnv \<Rightarrow> deliverySetup \<Rightarrow> delivery \<Rightarrow> streamStep" where
  "closeRestorer io su d =
     (case dsRestorer d of
        None \<Rightarrow> Going d
      | Some sr \<Rightarrow>
          (let (outs, sr1) = flushRestorer (seNum (leStream (ioLine io))) sr
           in afterWrites io (emitClosings io su (map (restoredText (ioLine io)) outs) (d\<lparr>dsRestorer := Some sr1\<rparr>))))"

definition streamTexts :: "delivery \<Rightarrow> keptTexts" where
  "streamTexts d =
     \<lparr>ktText = trimSpace (scText (dsCapture d)), ktModel = scSeenModel (dsCapture d), ktToolCalls = scToolCalls (dsCapture d),
      ktReasoning = rcText (dsReasoning d), ktField = reasoningField (dsReasoning d), ktCallIDs = rcCalls (dsReasoning d)\<rparr>"

definition finishStream :: "deliveryEnv \<Rightarrow> deliverySetup \<Rightarrow> delivery \<Rightarrow> attemptEnd" where
  "finishStream io su d =
     (let d1 = d\<lparr>dsResult := (dsResult d)\<lparr>streamCompleted := scDone (dsCapture d)\<rparr>\<rparr>;
          d2 = (if streamTruncated True (dsResult d1) then terminateTruncated io su (status (dsResult d1)) (errorMessage (dsResult d1)) d1 else d1)
      in (endOf d2 True None)\<lparr>aeTexts := streamTexts d\<rparr>)"

definition wrapError :: "string \<Rightarrow> call_error \<Rightarrow> call_error" where
  "wrapError what e = CallError (what @ '': '' @ callErrorText e) (isUpstreamTimeout e)"

definition closeStream :: "deliveryEnv \<Rightarrow> deliverySetup \<Rightarrow> call_error option \<Rightarrow> delivery \<Rightarrow> attemptEnd" where
  "closeStream io su end0 d =
     stepEnd (closeConverter io su d) (\<lambda>d.
       let d1 = (case end0 of None \<Rightarrow> d
           | Some e \<Rightarrow> d\<lparr>dsResult := (dsResult d)\<lparr>errorMessage := callErrorText e, timedOut := isUpstreamTimeout e\<rparr>\<rparr>)
       in if end0 \<noteq> None \<and> \<not> wroteBytes (dsResult d1) then endOf d1 False (map_option (wrapError ''read upstream stream'') end0)
          else stepEnd (if wroteBytes (dsResult d1) then Going d1 else afterWrites io (flushPending io su d1)) (\<lambda>d2.
            stepEnd (closeRestorer io su d2) (finishStream io su)))"

definition startResult :: "deliverySetup \<Rightarrow> attemptResult" where
  "startResult su = zeroResult\<lparr>status := suCode su, attemptResult.upstreamEndpoint := suUpstream su,
     protocolConversion := conversionName (planConversion (suPlan su))\<rparr>"

definition startDelivery :: "deliveryEnv \<Rightarrow> deliverySetup \<Rightarrow> restorer option \<Rightarrow> clientConn \<Rightarrow> delivery" where
  "startDelivery io su restorer0 client =
     \<lparr>dsResult = startResult su, dsGuard = newStreamContentGuard (suUpstream su),
      dsConverter = (if Converts (suPlan su) then Some (NewStreamConverter (planConversion (suPlan su)) (ioUnix io 0)) else None),
      dsCapture = newStreamResponseCapture (suUpstream su), dsReasoning = newReasoningCapture (suUpstream su),
      dsPayload = newPayloadStreamCapture (suClient su), dsRestorer = newSensitiveDataStreamRestorer restorer0,
      dsPending = [], dsSize = 0, dsCommitted = False, dsClient = client, dsLines = 0\<rparr>"

text \<open>
  The lines are those of \<^verbatim>\<open>bufio.Scanner\<close>, without their ends; \<open>end0\<close> is the error that stopped the reading, if any, and
  \<open>late\<close> holds when the time for the first byte was over before the reading began.
\<close>

definition deliverStream :: "deliveryEnv \<Rightarrow> deliverySetup \<Rightarrow> restorer option \<Rightarrow> bool \<Rightarrow> string list \<Rightarrow> call_error option \<Rightarrow> clientConn \<Rightarrow> attemptEnd" where
  "deliverStream io su restorer0 late lines0 end0 client =
     (let d = startDelivery io su restorer0 client in
      if late then endOf d False (Some (CallError ''upstream stream first-byte timeout'' True))
      else stepEnd (relayLines io su (map (\<lambda>l. l @ [lineFeed]) lines0) d) (closeStream io su end0))"

subsection \<open>Any other answer\<close>

text \<open>What came from the upstream: the code with its text, the lines and their end for a stream, the body and an error of its reading otherwise.\<close>

record upstreamAnswer =
  uaCode :: int
  uaStatusText :: string
  uaForcedStream :: bool
  uaLate :: bool
  uaLines :: "string list"
  uaEnd :: "call_error option"
  uaBody :: string
  uaReadError :: "call_error option"

abbreviation successCode :: "int \<Rightarrow> bool" where "successCode code \<equiv> 200 \<le> code \<and> code < 300"

definition upstreamEmptyCompletionMessage :: string where
  "upstreamEmptyCompletionMessage =
     bytes [0xE4, 0xB8, 0x8A, 0xE6, 0xB8, 0xB8, 0xE8, 0xBF, 0x94, 0xE5, 0x9B, 0x9E, 0xE4, 0xBA, 0x86, 0xE7, 0xA9, 0xBA, 0xE5, 0x93, 0x8D, 0xE5, 0xBA, 0x94,
       0xEF, 0xBC, 0x9A, 0xE6, 0xB8, 0xA0, 0xE9, 0x81, 0x93, 0xE5, 0x9B, 0x9E, 0xE5, 0x8C, 0x85, 0xE4, 0xB8, 0xAD, 0xE6, 0xB2, 0xA1, 0xE6, 0x9C, 0x89, 0xE4,
       0xBB, 0xBB, 0xE4, 0xBD, 0x95, 0xE6, 0xAD, 0xA3, 0xE6, 0x96, 0x87, 0xE6, 0x88, 0x96, 0xE5, 0xB7, 0xA5, 0xE5, 0x85, 0xB7, 0xE8, 0xB0, 0x83, 0xE7, 0x94,
       0xA8, 0xEF, 0xBC, 0x8C, 0xE6, 0x97, 0xA0, 0xE6, 0xB3, 0x95, 0xE4, 0xBA, 0xA4, 0xE4, 0xBB, 0x98, 0xE7, 0xBB, 0x99, 0xE5, 0xAE, 0xA2, 0xE6, 0x88, 0xB7,
       0xE7, 0xAB, 0xAF]"

definition captureBufferedReasoning :: "lineEnv \<Rightarrow> string \<Rightarrow> json option \<Rightarrow> string \<times> string \<times> string list" where
  "captureBufferedReasoning env endpoint doc =
     (let message = gjSub doc [''choices'', ''0'', ''message''] in
      if endpoint \<noteq> ChatCompletionsEndpoint \<or> message = None then ([], [], [])
      else let (found, field) = reasoningFromContainer env message in
        (found, field, filter (\<lambda>i. i \<noteq> []) (map (\<lambda>v. trimSpace (textIn env v [''id''])) (gjArray (gjSub message [''tool_calls''])))))"

definition textParts :: "string list" where "textParts = [''text'', ''input_text'', ''output_text'']"

text \<open>The texts of a list of parts, read until there are enough of them.\<close>

fun takeTexts :: "(json \<Rightarrow> string) \<Rightarrow> json list \<Rightarrow> string \<Rightarrow> string" where
  "takeTexts f [] acc = acc"
| "takeTexts f (x # xs) acc = (let next0 = acc @ f x in if runeCount next0 < maxQualityTextRunes then takeTexts f xs next0 else next0)"

definition responseContentText :: "lineEnv \<Rightarrow> json option \<Rightarrow> string" where
  "responseContentText env content =
     (case content of
        Some (JStr s) \<Rightarrow> s
      | _ \<Rightarrow> takeTexts (\<lambda>item. if textIn env item [''type''] \<in> set textParts then textIn env item [''text''] else []) (gjEach content) [])"

definition captureBufferedResponse :: "lineEnv \<Rightarrow> string \<Rightarrow> json option \<Rightarrow> string \<times> string" where
  "captureBufferedResponse env endpoint doc =
     (let model = gjString (seGjson (leStream env)) (gjSub doc [''model'']);
          found = (if endpoint = ChatCompletionsEndpoint then responseContentText env (gjSub doc [''choices'', ''0'', ''message'', ''content''])
            else if endpoint = ResponsesEndpoint then
              takeTexts (\<lambda>out. if textIn env out [''type''] = ''message'' then responseContentText env (gjGet out [''content'']) else [])
                (gjEach (gjSub doc [''output''])) []
            else if endpoint = MessagesEndpoint then
              takeTexts (\<lambda>b. if textIn env b [''type''] = ''text'' then textIn env b [''text''] else []) (gjEach (gjSub doc [''content''])) []
            else [])
      in (truncateQualityText found maxQualityTextRunes, model))"

definition plainEnd :: "attemptResult \<Rightarrow> call_error option \<Rightarrow> keptTexts \<Rightarrow> clientConn \<Rightarrow> attemptEnd" where
  "plainEnd r err texts client = \<lparr>aeResult = r, aeHandled = False, aeError = err, aeClient = client, aeTexts = texts, aePanic = False\<rparr>"

definition maxBufferedBytes :: nat where "maxBufferedBytes = 67108864"

definition bufferedBody :: "lineEnv \<Rightarrow> bool \<Rightarrow> upstreamAnswer \<Rightarrow> string" where
  "bufferedBody env stream a =
     (let whole = take maxBufferedBytes (uaBody a) in
      if uaForcedStream a \<and> \<not> stream \<and> successCode (uaCode a) \<and> uaReadError a = None then aggregateChatCompletionSSE env whole else whole)"

definition refusedResult :: "lineEnv \<Rightarrow> string \<Rightarrow> attemptResult" where
  "refusedResult env message = zeroResult\<lparr>status := 502, body := openAIErrorBody env ''upstream_error'' message, errorMessage := message\<rparr>"

definition convertAnswer :: "deliveryEnv \<Rightarrow> deliverySetup \<Rightarrow> string \<Rightarrow> string" where
  "convertAnswer io su body0 =
     (let env = ioLine io in
      ConvertResponse (leParse env) (seNum (leStream env)) (leEnc env) (seValue (leStream env)) (ioUnix io 0) (ioEmptyMessage io) (suPlan su) body0)"

definition deliverBuffered :: "deliveryEnv \<Rightarrow> deliverySetup \<Rightarrow> bool \<Rightarrow> upstreamAnswer \<Rightarrow> clientConn \<Rightarrow> attemptEnd" where
  "deliverBuffered io su stream a client =
     (let env = ioLine io; body1 = bufferedBody env stream a; endpoint = suUpstream su;
          named = (\<lambda>r. r\<lparr>attemptResult.upstreamEndpoint := endpoint, protocolConversion := conversionName (planConversion (suPlan su))\<rparr>)
      in if inspectBufferedMarkup env endpoint body1 then plainEnd (refusedResult env markupLeakMessage) None noTexts client
         else case normalizeResponseBody env endpoint body1 (suModel su) (suConfig su) (ioUnix io 0) of
           None \<Rightarrow> (plainEnd zeroResult None noTexts client)\<lparr>aePanic := True\<rparr>
         | Some body2 \<Rightarrow>
             (if successCode (uaCode a) \<and> EmptyCompletion (seGjson (leStream env)) (suPlan su) (leParse env body2)
              then plainEnd (named (refusedResult env upstreamEmptyCompletionMessage)) None noTexts client
              else
                let r = named (zeroResult\<lparr>status := uaCode a, body := convertAnswer io su body2,
                      resTokens := parseResponseUsage env (suClient su) (leParse env body2),
                      errorMessage := (if successCode (uaCode a) then [] else ioErrorText io body2 (uaStatusText a))\<rparr>);
                    (reasoning, field, ids) = captureBufferedReasoning env endpoint (leParse env body1);
                    (found, model) = captureBufferedResponse env endpoint (leParse env body2)
                in plainEnd r (map_option (wrapError ''read upstream response'') (uaReadError a))
                     \<lparr>ktText = found, ktModel = model, ktToolCalls = False, ktReasoning = reasoning, ktField = field, ktCallIDs = ids\<rparr> client))"

subsection \<open>An attempt\<close>

text \<open>
  The call of an upstream with a plan (\<open>exchange\<close>: the request, its headers and the network) is an argument, over the state
  of the world; \<open>ioAt\<close> gives the surroundings of the delivery after it.
\<close>

definition attemptWithProtocol :: "('w \<Rightarrow> deliveryEnv) \<Rightarrow> ('w \<Rightarrow> plan \<Rightarrow> (call_error + upstreamAnswer) \<times> 'w) \<Rightarrow> ResilienceSettings \<Rightarrow> AdvancedConfig \<Rightarrow>
    string \<Rightarrow> bool \<Rightarrow> restorer option \<Rightarrow> plan \<Rightarrow> 'w \<Rightarrow> clientConn \<Rightarrow> attemptEnd \<times> 'w" where
  "attemptWithProtocol ioAt exchange settings config model stream restorer0 p w client =
     (case exchange w p of
        (Inl e, w1) \<Rightarrow> (plainEnd zeroResult (Some e) noTexts client, w1)
      | (Inr a, w1) \<Rightarrow>
          (let su = \<lparr>suPlan = p, suCode = uaCode a, suModel = model, suConfig = config, suSettings = settings\<rparr> in
           (if \<not> stream \<or> \<not> successCode (uaCode a) then deliverBuffered (ioAt w1) su stream a client
            else deliverStream (ioAt w1) su restorer0 (uaLate a) (uaLines a) (uaEnd a) client, w1)))"

definition conversionEnabled :: "ResilienceSettings \<Rightarrow> AdvancedConfig \<Rightarrow> bool" where
  "conversionEnabled settings config = (case ProtocolConversion config of None \<Rightarrow> ProtocolConversionEnabled settings | Some b \<Rightarrow> b)"

text \<open>\<open>missing\<close> is \<^verbatim>\<open>missingBillableUsage\<close> of the candidate at the endpoint; \<open>primary\<close> the preferred plan.\<close>

definition attempt :: "'w attemptEnv \<Rightarrow> ('w \<Rightarrow> deliveryEnv) \<Rightarrow> ('w \<Rightarrow> plan \<Rightarrow> (call_error + upstreamAnswer) \<times> 'w) \<Rightarrow> (attemptResult \<Rightarrow> bool) \<Rightarrow>
    ResilienceSettings \<Rightarrow> AdvancedConfig \<Rightarrow> Candidate \<Rightarrow> string \<Rightarrow> bool \<Rightarrow> restorer option \<Rightarrow> plan \<Rightarrow> 'w \<Rightarrow> clientConn \<Rightarrow> attemptEnd \<times> 'w" where
  "attempt env ioAt exchange missing settings config candidate endpoint stream restorer0 primary w client =
     (let run = attemptWithProtocol ioAt exchange settings config (UpstreamName candidate) stream restorer0;
          (e, w1) = run primary w client;
          r = (aeResult e)\<lparr>latency := worldNow env w1 - worldNow env w\<rparr>;
          line = ioLine (ioAt w1);
          needsFallback = (ShouldFallback (seGjson (leStream line)) (status r) (body r) (leParse line (body r)) \<or> missing r)
      in if aePanic e \<or> aeHandled e \<or> aeError e \<noteq> None \<or> \<not> needsFallback \<or> \<not> conversionEnabled settings config then (e\<lparr>aeResult := r\<rparr>, w1)
         else case AlternatePlan endpoint primary of
           None \<Rightarrow> (e\<lparr>aeResult := r\<rparr>, w1)
         | Some fallback \<Rightarrow>
             (let (e2, w2) = run fallback w1 (aeClient e) in
              (e2\<lparr>aeResult := (aeResult e2)\<lparr>precedingFlow := precedingFlow (aeResult e2) @ [newAttemptFlowStep env (ChannelName candidate) r]\<rparr>\<rparr>, w2)))"

end
