(* ===== verification/Stream_Delivery.thy ===== *)
theory Stream_Delivery
  imports Relay_Stream
begin

text \<open>
  What the client of a stream gets.  An attempt that is given up for another one has sent nothing; otherwise the client
  gets the outputs of the pipeline (guard, normalisation, conversion, restoration), all of them and in order,
  however long the first ones are held, and a stream that ends without its mark is ended by explicit lines.
\<close>

subsection \<open>Nothing is sent before an attempt is given up\<close>

text \<open>Nothing was sent unless the result says so; while lines are relayed no write has failed.\<close>

definition marked :: "clientConn \<Rightarrow> delivery \<Rightarrow> bool" where
  "marked c d \<longleftrightarrow> dsClient d = c \<or> wroteBytes (dsResult d) \<or> writerFailed (dsResult d)"

definition clean :: "clientConn \<Rightarrow> delivery \<Rightarrow> bool" where
  "clean c d \<longleftrightarrow> \<not> writerFailed (dsResult d) \<and> (\<not> wroteBytes (dsResult d) \<longrightarrow> dsClient d = c)"

lemma clean_marked: "clean c d \<Longrightarrow> marked c d"
  by (auto simp: clean_def marked_def)

definition writesSoundly :: "clientConn \<Rightarrow> bool \<times> delivery \<Rightarrow> bool" where
  "writesSoundly c r \<longleftrightarrow> marked c (snd r) \<and> (fst r \<longrightarrow> clean c (snd r))"

lemma writesSoundlyI: "clean c d \<Longrightarrow> writesSoundly c (True, d)"
  by (simp add: writesSoundly_def clean_marked)

lemma writeOutput_sound: "clean c d \<Longrightarrow> writesSoundly c (writeOutput io su out d)"
  by (simp add: writeOutput_def noteFirstOutput_def recordFirstStreamOutput_def writesSoundly_def clean_def marked_def Let_def)

lemma writeAll_sound: "clean c d \<Longrightarrow> writesSoundly c (writeAll io su outs d)"
proof (induction outs arbitrary: d)
  case Nil
  then show ?case by (simp add: writesSoundlyI)
next
  case (Cons out outs)
  obtain r d1 where w: "writeOutput io su out d = (r, d1)" by fastforce
  with writeOutput_sound [OF Cons.prems, of io su out] Cons.IH [of d1] show ?case
    by (cases r) (auto simp: writesSoundly_def)
qed

lemma clean_update [simp]:
  "clean c (d\<lparr>dsPending := p\<rparr>) = clean c d" "clean c (d\<lparr>dsSize := n\<rparr>) = clean c d" "clean c (d\<lparr>dsCommitted := b\<rparr>) = clean c d"
  "clean c (d\<lparr>dsRestorer := sr\<rparr>) = clean c d" "clean c (d\<lparr>dsConverter := k\<rparr>) = clean c d" "clean c (d\<lparr>dsGuard := g\<rparr>) = clean c d"
  "clean c (d\<lparr>dsCapture := cap\<rparr>) = clean c d" "clean c (d\<lparr>dsReasoning := rea\<rparr>) = clean c d" "clean c (d\<lparr>dsLines := n\<rparr>) = clean c d"
  "clean c (d\<lparr>dsResult := (dsResult d)\<lparr>resTokens := t\<rparr>\<rparr>) = clean c d" "clean c (noteFirstOutput io d) = clean c d"
  "clean c (d\<lparr>dsResult := (dsResult d)\<lparr>status := s, body := b', errorMessage := m\<rparr>\<rparr>) = clean c d"
  "clean c (d\<lparr>dsResult := (dsResult d)\<lparr>errorMessage := m, timedOut := b\<rparr>\<rparr>) = clean c d"
  "clean c (d\<lparr>dsResult := (dsResult d)\<lparr>streamCompleted := b\<rparr>\<rparr>) = clean c d"
  by (simp_all add: clean_def noteFirstOutput_def recordFirstStreamOutput_def)

lemma marked_update [simp]:
  "marked c (d\<lparr>dsPending := p\<rparr>) = marked c d" "marked c (d\<lparr>dsSize := n\<rparr>) = marked c d"
  "marked c (d\<lparr>dsResult := (dsResult d)\<lparr>errorMessage := m\<rparr>\<rparr>) = marked c d"
  by (simp_all add: marked_def)

lemma flushPending_sound: "clean c d \<Longrightarrow> writesSoundly c (flushPending io su d)"
  using writeAll_sound [of c d io su "dsPending d"]
  by (auto simp: flushPending_def writesSoundly_def split: prod.split bool.split)

lemma emitLine_sound: "clean c d \<Longrightarrow> writesSoundly c (emitLine io su visible out d)"
  using flushPending_sound [of c "d\<lparr>dsPending := dsPending d @ [out], dsSize := dsSize d + length out, dsCommitted := True\<rparr>" io su]
    flushPending_sound [of c "d\<lparr>dsCommitted := True\<rparr>" io su] writeOutput_sound [of c _ io su out]
  by (auto simp: emitLine_def writesSoundly_def clean_marked Let_def split: prod.split bool.split)

lemma emitClosing_sound: "clean c d \<Longrightarrow> writesSoundly c (emitClosing io su out d)"
  using flushPending_sound [of c "d\<lparr>dsCommitted := True\<rparr>" io su] writeOutput_sound [of c _ io su out]
  by (auto simp: emitClosing_def writesSoundly_def clean_marked split: prod.split bool.split)

lemma emitLines_sound: "clean c d \<Longrightarrow> writesSoundly c (emitLines io su visible outs d)"
proof (induction outs arbitrary: d)
  case (Cons out outs)
  obtain r d1 where "emitLine io su visible out d = (r, d1)" by fastforce
  with emitLine_sound [OF Cons.prems, of io su visible out] Cons.IH [of d1] show ?case by (cases r) (auto simp: writesSoundly_def)
qed (simp add: writesSoundlyI)

lemma emitClosings_sound: "clean c d \<Longrightarrow> writesSoundly c (emitClosings io su outs d)"
proof (induction outs arbitrary: d)
  case (Cons out outs)
  obtain r d1 where "emitClosing io su out d = (r, d1)" by fastforce
  with emitClosing_sound [OF Cons.prems, of io su out] Cons.IH [of d1] show ?case by (cases r) (auto simp: writesSoundly_def)
qed (simp add: writesSoundlyI)

fun stepSound :: "clientConn \<Rightarrow> streamStep \<Rightarrow> bool" where
  "stepSound c (Going d) \<longleftrightarrow> clean c d"
| "stepSound c (Ended d h) \<longleftrightarrow> marked c d \<and> (\<not> h \<longrightarrow> dsClient d = c \<and> \<not> wroteBytes (dsResult d) \<and> \<not> writerFailed (dsResult d))"
| "stepSound c (Panicked d) \<longleftrightarrow> marked c d"

lemma afterWrites_sound: "writesSoundly c r \<Longrightarrow> stepSound c (afterWrites io r)"
  by (auto simp: afterWrites_def writesSoundly_def writeFailed_def split: prod.split bool.split)

lemma restoredLines_keeps:
  assumes "restoredLines io line d = (ls, d1)"
  shows "dsResult d1 = dsResult d" "dsClient d1 = dsClient d"
  using assms by (auto simp: restoredLines_def Let_def split: prod.splits)

lemma restoredLines_clean: "restoredLines io line d = (ls, d1) \<Longrightarrow> clean c d \<Longrightarrow> clean c d1"
  by (simp add: clean_def restoredLines_keeps)

lemma sendOutputs_sound:
  assumes "\<And>outs d. clean c d \<Longrightarrow> writesSoundly c (emit outs d)"
  shows "clean c d \<Longrightarrow> stepSound c (sendOutputs io su emit outs d)"
proof (induction outs arbitrary: d)
  case (Cons out outs)
  show ?case
  proof (cases "out = [] \<or> normalizeSSELine (ioLine io) (suClient su) out (suModel su) (suConfig su) (ioUnix io (dsLines d)) = None")
    case True
    then show ?thesis using Cons clean_marked by auto
  next
    case False
    then obtain l where l: "out \<noteq> []" "normalizeSSELine (ioLine io) (suClient su) out (suModel su) (suConfig su) (ioUnix io (dsLines d)) = Some l" by auto
    obtain ls d1 where r: "restoredLines io l d = (ls, d1)" by fastforce
    then have "clean c d1" using Cons.prems restoredLines_clean by blast
    then have s: "stepSound c (afterWrites io (emit ls d1))" using assms afterWrites_sound by blast
    show ?thesis
    proof (cases "afterWrites io (emit ls d1)")
      case (Going d2)
      then show ?thesis using l r s Cons.IH by simp
    qed (use l r s in simp_all)
  qed
qed simp

lemma writeTerminal_flags:
  "wroteBytes (dsResult (snd (writeTerminal io outs d))) = wroteBytes (dsResult d)"
  by (induction outs arbitrary: d) simp_all

lemma writeTerminals_flags: "wroteBytes (dsResult (writeTerminals io lines0 d)) = wroteBytes (dsResult d)"
proof (induction lines0 arbitrary: d)
  case (Cons line lines0)
  obtain ls d1 where r: "restoredLines io line d = (ls, d1)" by fastforce
  have same: "dsResult d1 = dsResult d" by (rule restoredLines_keeps(1) [OF r])
  obtain ok d2 where w: "writeTerminal io ls d1 = (ok, d2)" by fastforce
  have "wroteBytes (dsResult d2) = wroteBytes (dsResult d)" using writeTerminal_flags [of io ls d1] w same by simp
  then show ?case using r w Cons.IH [of d2] by (cases ok) simp_all
qed simp

lemma terminate_flags [simp]: "wroteBytes (dsResult (terminateTruncated io su s m d)) = wroteBytes (dsResult d)"
  by (simp add: terminateTruncated_def writeTerminals_flags)

lemma terminate_marked: "marked c d \<Longrightarrow> marked c (terminateTruncated io su s m d)"
  using writeTerminals_flags by (auto simp: terminateTruncated_def marked_def)

lemma failStream_sound: "clean c d \<Longrightarrow> stepSound c (failStream io su s b m d)"
  by (auto simp: failStream_def Let_def marked_def clean_def)

lemma convertLine_clean: "convertLine io line d = (outs, d1) \<Longrightarrow> clean c d \<Longrightarrow> clean c d1"
  by (auto simp: convertLine_def split: option.splits prod.splits)

lemma relayLine_sound:
  assumes C: "clean c d0"
  shows "stepSound c (relayLine io su line d0)"
proof -
  let ?env = "ioLine io"
  obtain guarded refused g where gl: "guardLine ?env line (dsGuard d0) = (guarded, refused, g)" by (metis prod_cases3)
  let ?d = "d0\<lparr>dsLines := dsLines d0 + 1, dsGuard := g\<rparr>"
  have d: "clean c ?d" using C by simp
  show ?thesis
  proof (cases "refused \<or> guarded = None")
    case True
    then show ?thesis using gl d failStream_sound [OF d] by (auto simp: relayLine_def Let_def)
  next
    case False
    then obtain line1 where l1: "\<not> refused" "guarded = Some line1" by auto
    let ?r = "?d\<lparr>dsReasoning := reasoningObserve ?env line1 (dsReasoning ?d)\<rparr>"
    have r: "clean c ?r" using d by simp
    show ?thesis
    proof (cases "normalizeSSELine ?env (suUpstream su) line1 (suModel su) (suConfig su) (ioUnix io (dsLines ?r))")
      case None
      then show ?thesis using gl l1 clean_marked [OF r] by (simp add: relayLine_def Let_def)
    next
      case l2: (Some line2)
      let ?k = "?r\<lparr>dsCapture := captureObserve ?env line2 (dsCapture ?r)\<rparr>"
      have k: "clean c ?k" using r by simp
      show ?thesis
      proof (cases "parseStreamFailure ?env (ioErrorText io) line2")
        case (Some f)
        then show ?thesis using gl l1 l2 failStream_sound [OF k] by (simp add: relayLine_def Let_def)
      next
        case None
        let ?v = "if streamPayloadHasVisibleOutput ?env line2 then noteFirstOutput io ?k else ?k"
        let ?t = "?v\<lparr>dsResult := (dsResult ?v)\<lparr>resTokens := ParseSSEUsage ?env line2 (resTokens (dsResult ?v))\<rparr>\<rparr>"
        obtain outs d1 where o: "convertLine io line2 ?t = (outs, d1)" by fastforce
        have "clean c ?v" using k by (simp only: clean_update split: if_split) simp
        then have "clean c ?t" by (simp only: clean_update)
        then have "clean c d1" using o convertLine_clean by blast
        then have "stepSound c (sendOutputs io su (emitLines io su (streamPayloadHasVisibleOutput ?env line2)) outs d1)"
          by (intro sendOutputs_sound emitLines_sound)
        moreover have "relayLine io su line d0 = sendOutputs io su (emitLines io su (streamPayloadHasVisibleOutput ?env line2)) outs d1"
          unfolding relayLine_def Let_def using gl l1 l2 None o by simp
        ultimately show ?thesis by simp
      qed
    qed
  qed
qed

lemma relayLines_sound: "clean c d \<Longrightarrow> stepSound c (relayLines io su lines0 d)"
proof (induction lines0 arbitrary: d)
  case (Cons line lines0)
  from relayLine_sound [OF Cons.prems, of io su line] Cons.IH show ?case by (cases "relayLine io su line d") simp_all
qed simp

definition endSound :: "clientConn \<Rightarrow> attemptEnd \<Rightarrow> bool" where
  "endSound c e \<longleftrightarrow>
     (aeClient e = c \<or> wroteBytes (aeResult e) \<or> writerFailed (aeResult e)) \<and>
     (\<not> aePanic e \<and> \<not> aeHandled e \<longrightarrow> aeClient e = c \<and> \<not> wroteBytes (aeResult e) \<and> \<not> writerFailed (aeResult e))"

lemma stepEnd_sound:
  assumes "stepSound c s" and "\<And>d. s = Going d \<Longrightarrow> clean c d \<Longrightarrow> endSound c (continue d)"
  shows "endSound c (stepEnd s continue)"
  using assms by (cases s) (auto simp: stepEnd_def endOf_def endSound_def marked_def)

lemma closeConverter_sound: "clean c d \<Longrightarrow> stepSound c (closeConverter io su d)"
  by (auto simp: closeConverter_def intro!: sendOutputs_sound emitClosings_sound split: option.split prod.split)

lemma closeRestorer_sound: "clean c d \<Longrightarrow> stepSound c (closeRestorer io su d)"
  by (auto simp: closeRestorer_def intro!: afterWrites_sound emitClosings_sound split: option.split prod.split)

lemma finishStream_sound: "clean c d \<Longrightarrow> endSound c (finishStream io su d)"
proof -
  assume C: "clean c d"
  let ?d = "d\<lparr>dsResult := (dsResult d)\<lparr>streamCompleted := scDone (dsCapture d)\<rparr>\<rparr>"
  have "marked c ?d" using C by (intro clean_marked) simp
  then have "marked c (terminateTruncated io su (status (dsResult ?d)) (errorMessage (dsResult ?d)) ?d)" by (rule terminate_marked)
  then show ?thesis using \<open>marked c ?d\<close> by (auto simp: finishStream_def Let_def endOf_def endSound_def marked_def)
qed

lemma closeStream_sound:
  assumes C: "clean c d"
  shows "endSound c (closeStream io su end0 d)"
  unfolding closeStream_def
proof (rule stepEnd_sound [OF closeConverter_sound [OF C]])
  fix d
  assume C: "clean c d"
  let ?d = "case end0 of None \<Rightarrow> d | Some e \<Rightarrow> d\<lparr>dsResult := (dsResult d)\<lparr>errorMessage := callErrorText e, timedOut := isUpstreamTimeout e\<rparr>\<rparr>"
  have C1: "clean c ?d" using C by (cases end0) simp_all
  have step: "stepSound c (if wroteBytes (dsResult ?d) then Going ?d else afterWrites io (flushPending io su ?d))"
    using C1 flushPending_sound [OF C1] afterWrites_sound by auto
  show "endSound c (let d1 = ?d in
      if end0 \<noteq> None \<and> \<not> wroteBytes (dsResult d1) then endOf d1 False (map_option (wrapError ''read upstream stream'') end0)
      else stepEnd (if wroteBytes (dsResult d1) then Going d1 else afterWrites io (flushPending io su d1))
        (\<lambda>d2. stepEnd (closeRestorer io su d2) (finishStream io su)))"
    unfolding Let_def
  proof (split if_split, intro conjI impI)
    assume "end0 \<noteq> None \<and> \<not> wroteBytes (dsResult ?d)"
    then show "endSound c (endOf ?d False (map_option (wrapError ''read upstream stream'') end0))"
      using C1 by (auto simp: endOf_def endSound_def clean_def)
  next
    show "endSound c (stepEnd (if wroteBytes (dsResult ?d) then Going ?d else afterWrites io (flushPending io su ?d))
        (\<lambda>d2. stepEnd (closeRestorer io su d2) (finishStream io su)))"
      by (rule stepEnd_sound [OF step], rule stepEnd_sound) (simp_all add: closeRestorer_sound finishStream_sound)
  qed
qed

lemma startDelivery_clean: "clean c (startDelivery io su restorer0 c)"
  by (simp add: clean_def startDelivery_def startResult_def zeroResult_def)

lemma deliverStream_sound: "endSound c (deliverStream io su restorer0 late lines0 end0 c)"
proof (cases late)
  case True
  then show ?thesis using startDelivery_clean [of c io su restorer0]
    by (simp add: deliverStream_def endOf_def endSound_def clean_def startDelivery_def startResult_def zeroResult_def)
next
  case False
  then show ?thesis unfolding deliverStream_def Let_def
    using stepEnd_sound [OF relayLines_sound [OF startDelivery_clean] closeStream_sound] by simp
qed

lemma deliverBuffered_sound: "endSound c (deliverBuffered io su stream a c)"
  by (auto simp: deliverBuffered_def endSound_def plainEnd_def refusedResult_def zeroResult_def Let_def split: option.split prod.split)

lemma plainEnd_sound: "\<not> wroteBytes r \<Longrightarrow> \<not> writerFailed r \<Longrightarrow> endSound c (plainEnd r err texts c)"
  by (simp add: endSound_def plainEnd_def)

lemma attemptWithProtocol_sound: "endSound c (fst (attemptWithProtocol ioAt exchange settings config model stream restorer0 p w c))"
proof -
  have "endSound c (plainEnd zeroResult err noTexts c)" for err
    by (rule plainEnd_sound) (simp_all add: zeroResult_def)
  then show ?thesis
    unfolding attemptWithProtocol_def Let_def
    by (simp add: deliverBuffered_sound deliverStream_sound split: prod.split sum.split del: One_nat_def)
qed

lemma attempt_sound: "endSound c (fst (attempt env ioAt exchange missing settings config candidate endpoint stream restorer0 primary w c))"
proof -
  let ?run = "attemptWithProtocol ioAt exchange settings config (UpstreamName candidate) stream restorer0"
  obtain e1 w1 where first: "?run primary w c = (e1, w1)" by fastforce
  have S1: "endSound c e1" using attemptWithProtocol_sound [of c ioAt exchange settings config "UpstreamName candidate" stream restorer0 primary w] first by simp
  have keep: "endSound c (e'\<lparr>aeResult := (aeResult e')\<lparr>latency := l\<rparr>\<rparr>) = endSound c e'"
    "endSound c (e'\<lparr>aeResult := (aeResult e')\<lparr>precedingFlow := f\<rparr>\<rparr>) = endSound c e'" for e' l f
    by (simp_all add: endSound_def)
  show ?thesis
  proof (cases "aePanic e1 \<or> aeHandled e1 \<or> aeError e1 \<noteq> None")
    case True
    then show ?thesis using S1 by (auto simp: attempt_def first Let_def keep)
  next
    case False
    then have same: "aeClient e1 = c" using S1 by (auto simp: endSound_def)
    have S2: "endSound c (fst (?run p w1 c))" for p by (rule attemptWithProtocol_sound)
    then have S3: "?run p w1 c = (e2, w2) \<Longrightarrow> endSound c e2" for p e2 w2 by (metis fst_conv)
    show ?thesis
      using S1 same by (auto simp: attempt_def first Let_def keep S3 split: option.split prod.split)
  qed
qed


text \<open>
  C35: an attempt on an upstream, with the second call of its other endpoint when the first one fails, leaves the client as it was
  unless it says so: either the client has been sent nothing, no status and no byte, or the caller takes the attempt for completed
  and makes no further one; and an attempt that is not marked as handled has sent nothing.
\<close>

theorem attempt_unsent_or_completed:
  "let e = fst (attempt env ioAt exchange missing settings config candidate endpoint stream restorer0 primary w c) in
     (aeClient e = c \<or> attemptCompleted (aeResult e) (aeError e \<noteq> None) stream) \<and>
     (aePanic e \<or> aeHandled e \<or> aeClient e = c \<and> wroteBytes (aeResult e) = False \<and> writerFailed (aeResult e) = False)"
  using attempt_sound [of c env ioAt exchange missing settings config candidate endpoint stream restorer0 primary w]
  by (auto simp: endSound_def attemptCompleted_def Let_def)


subsection \<open>Everything is sent, in order\<close>

text \<open>
  The pipeline alone: what comes out of the lines, without the client, the held lines and the bookkeeping of the result.
  It has no value when the stream is refused, reports a failure or panics.
\<close>

record pipe =
  piGuard :: "streamContentGuard option"
  piConverter :: "streamConverter option"
  piCapture :: streamResponseCapture
  piRestorer :: "streamRestorer option"
  piLines :: nat

definition pipeOf :: "delivery \<Rightarrow> pipe" where
  "pipeOf d = \<lparr>piGuard = dsGuard d, piConverter = dsConverter d, piCapture = dsCapture d, piRestorer = dsRestorer d, piLines = dsLines d\<rparr>"

definition pipeRestore :: "deliveryEnv \<Rightarrow> string \<Rightarrow> pipe \<Rightarrow> string list \<times> pipe" where
  "pipeRestore io line p =
     (let (outs, sr) = restoreSSELine (ioOrder io) (seNum (leStream (ioLine io))) (leParse (ioLine io)) line (piRestorer p)
      in (map (restoredText (ioLine io)) outs, p\<lparr>piRestorer := sr\<rparr>))"

fun pipeOutputs :: "deliveryEnv \<Rightarrow> deliverySetup \<Rightarrow> string list \<Rightarrow> pipe \<Rightarrow> (string list \<times> pipe) option" where
  "pipeOutputs io su [] p = Some ([], p)"
| "pipeOutputs io su (out # outs) p =
     (if out = [] then pipeOutputs io su outs p
      else case normalizeSSELine (ioLine io) (suClient su) out (suModel su) (suConfig su) (ioUnix io (piLines p)) of
             None \<Rightarrow> None
           | Some normalized \<Rightarrow>
               (let (restored, p1) = pipeRestore io normalized p
                in map_option (\<lambda>(rest, p2). (restored @ rest, p2)) (pipeOutputs io su outs p1)))"

definition pipeConvert :: "deliveryEnv \<Rightarrow> string \<Rightarrow> pipe \<Rightarrow> string list \<times> pipe" where
  "pipeConvert io line p =
     (case piConverter p of
        None \<Rightarrow> ([line], p)
      | Some c \<Rightarrow> (let (outs, c1) = Transform (leParse (ioLine io)) (leStream (ioLine io)) line c
                   in (map (sseText (ioLine io)) outs, p\<lparr>piConverter := Some c1\<rparr>)))"

definition pipeLine :: "deliveryEnv \<Rightarrow> deliverySetup \<Rightarrow> string \<Rightarrow> pipe \<Rightarrow> (string list \<times> pipe) option" where
  "pipeLine io su line p =
     (case guardLine (ioLine io) line (piGuard p) of
        (guarded, refused, g) \<Rightarrow>
          if refused then None
          else case guarded of
            None \<Rightarrow> Some ([], p\<lparr>piLines := piLines p + 1, piGuard := g\<rparr>)
          | Some line1 \<Rightarrow>
              (case normalizeSSELine (ioLine io) (suUpstream su) line1 (suModel su) (suConfig su) (ioUnix io (piLines p + 1)) of
                 None \<Rightarrow> None
               | Some line2 \<Rightarrow>
                   if parseStreamFailure (ioLine io) (ioErrorText io) line2 \<noteq> None then None
                   else (let (outs, p1) = pipeConvert io line2
                           (p\<lparr>piLines := piLines p + 1, piGuard := g, piCapture := captureObserve (ioLine io) line2 (piCapture p)\<rparr>)
                         in pipeOutputs io su outs p1)))"

fun pipeLines :: "deliveryEnv \<Rightarrow> deliverySetup \<Rightarrow> string list \<Rightarrow> pipe \<Rightarrow> (string list \<times> pipe) option" where
  "pipeLines io su [] p = Some ([], p)"
| "pipeLines io su (line # lines0) p =
     (case pipeLine io su line p of
        None \<Rightarrow> None
      | Some (outs, p1) \<Rightarrow> map_option (\<lambda>(rest, p2). (outs @ rest, p2)) (pipeLines io su lines0 p1))"

definition pipeComplete :: "deliveryEnv \<Rightarrow> deliverySetup \<Rightarrow> pipe \<Rightarrow> (string list \<times> pipe) option" where
  "pipeComplete io su p =
     (case piConverter p of
        None \<Rightarrow> Some ([], p)
      | Some c \<Rightarrow> (let (outs, c1) = CompleteStream (leStream (ioLine io)) c
                   in pipeOutputs io su (map (sseText (ioLine io)) outs) (p\<lparr>piConverter := Some c1\<rparr>)))"

definition pipeFlush :: "deliveryEnv \<Rightarrow> pipe \<Rightarrow> string list \<times> pipe" where
  "pipeFlush io p =
     (case piRestorer p of
        None \<Rightarrow> ([], p)
      | Some sr \<Rightarrow> (let (outs, sr1) = flushRestorer (seNum (leStream (ioLine io))) sr
                    in (map (restoredText (ioLine io)) outs, p\<lparr>piRestorer := Some sr1\<rparr>)))"

fun pipeTerminal :: "deliveryEnv \<Rightarrow> string list \<Rightarrow> pipe \<Rightarrow> string list" where
  "pipeTerminal io [] p = []"
| "pipeTerminal io (line # lines0) p = (let (restored, p1) = pipeRestore io line p in restored @ pipeTerminal io lines0 p1)"

definition pipeStart :: "deliveryEnv \<Rightarrow> deliverySetup \<Rightarrow> restorer option \<Rightarrow> pipe" where
  "pipeStart io su restorer0 = pipeOf (startDelivery io su restorer0 untouched)"

definition pipeStream :: "deliveryEnv \<Rightarrow> deliverySetup \<Rightarrow> restorer option \<Rightarrow> string list \<Rightarrow> (string list \<times> pipe) option" where
  "pipeStream io su restorer0 lines0 =
     (case pipeLines io su (map (\<lambda>l. l @ [lineFeed]) lines0) (pipeStart io su restorer0) of
        None \<Rightarrow> None
      | Some (o1, p1) \<Rightarrow>
          (case pipeComplete io su p1 of
             None \<Rightarrow> None
           | Some (o2, p2) \<Rightarrow> (case pipeFlush io p2 of (o3, p3) \<Rightarrow> Some (o1 @ o2 @ o3, p3))))"

text \<open>What comes after them when the stream had no end mark.\<close>

definition pipeEnding :: "deliveryEnv \<Rightarrow> deliverySetup \<Rightarrow> string list \<Rightarrow> pipe \<Rightarrow> string list" where
  "pipeEnding io su outs p =
     (if scDone (piCapture p) \<or> outs = [] \<or> \<not> StreamFailureEventEnabled (suSettings su) \<or> ioClientGone io (piLines p) then []
      else pipeTerminal io (streamTerminalLines (ioLine io) (suClient su) (suCode su) []) p)"

text \<open>What the client has and what is held make up what the pipeline has given so far.\<close>

definition totals :: "deliverySetup \<Rightarrow> clientConn \<Rightarrow> string list \<Rightarrow> delivery \<Rightarrow> bool" where
  "totals su c sent d \<longleftrightarrow>
     \<not> writerFailed (dsResult d) \<and> status (dsResult d) = suCode su \<and> errorMessage (dsResult d) = [] \<and>
     (dsCommitted d \<longrightarrow> dsPending d = []) \<and>
     (\<exists>w. ccSent (dsClient d) = ccSent c @ w \<and> sent = w @ dsPending d \<and> wroteBytes (dsResult d) = (w \<noteq> []) \<and>
          ccStatus (dsClient d) = (if w = [] then ccStatus c else Some (suCode su)))"

definition heldTotals :: "deliverySetup \<Rightarrow> clientConn \<Rightarrow> string list \<Rightarrow> delivery \<Rightarrow> bool" where
  "heldTotals su c sent d \<longleftrightarrow> totals su c sent d \<and> (wroteBytes (dsResult d) \<longrightarrow> dsCommitted d)"

named_theorems pipes

lemma pipeOf_update [pipes]:
  "pipeOf (d\<lparr>dsPending := x1\<rparr>) = pipeOf d" "pipeOf (d\<lparr>dsSize := x2\<rparr>) = pipeOf d" "pipeOf (d\<lparr>dsCommitted := x3\<rparr>) = pipeOf d"
  "pipeOf (d\<lparr>dsResult := x4\<rparr>) = pipeOf d" "pipeOf (d\<lparr>dsClient := x5\<rparr>) = pipeOf d" "pipeOf (d\<lparr>dsPayload := x6\<rparr>) = pipeOf d"
  "pipeOf (d\<lparr>dsReasoning := x7\<rparr>) = pipeOf d" "pipeOf (noteFirstOutput io d) = pipeOf d"
  "pipeOf (d\<lparr>dsRestorer := sr\<rparr>) = (pipeOf d)\<lparr>piRestorer := sr\<rparr>" "pipeOf (d\<lparr>dsConverter := k\<rparr>) = (pipeOf d)\<lparr>piConverter := k\<rparr>"
  "pipeOf (d\<lparr>dsGuard := g\<rparr>) = (pipeOf d)\<lparr>piGuard := g\<rparr>" "pipeOf (d\<lparr>dsCapture := cap\<rparr>) = (pipeOf d)\<lparr>piCapture := cap\<rparr>"
  "pipeOf (d\<lparr>dsLines := n\<rparr>) = (pipeOf d)\<lparr>piLines := n\<rparr>"
  by (simp_all add: pipeOf_def noteFirstOutput_def)

lemma pipeOf_select [pipes]:
  "piGuard (pipeOf d) = dsGuard d" "piConverter (pipeOf d) = dsConverter d" "piCapture (pipeOf d) = dsCapture d"
  "piRestorer (pipeOf d) = dsRestorer d" "piLines (pipeOf d) = dsLines d"
  by (simp_all add: pipeOf_def)

lemma totals_update [pipes]:
  "totals su c sent (d\<lparr>dsRestorer := sr\<rparr>) = totals su c sent d" "totals su c sent (d\<lparr>dsConverter := k\<rparr>) = totals su c sent d"
  "totals su c sent (d\<lparr>dsGuard := g\<rparr>) = totals su c sent d" "totals su c sent (d\<lparr>dsCapture := cap\<rparr>) = totals su c sent d"
  "totals su c sent (d\<lparr>dsReasoning := rea\<rparr>) = totals su c sent d" "totals su c sent (d\<lparr>dsLines := n\<rparr>) = totals su c sent d"
  "totals su c sent (d\<lparr>dsResult := (dsResult d)\<lparr>resTokens := t\<rparr>\<rparr>) = totals su c sent d"
  "totals su c sent (d\<lparr>dsResult := (dsResult d)\<lparr>streamCompleted := b\<rparr>\<rparr>) = totals su c sent d"
  "totals su c sent (noteFirstOutput io d) = totals su c sent d" "totals su c sent (d\<lparr>dsSize := m\<rparr>) = totals su c sent d"
  by (simp_all add: totals_def noteFirstOutput_def recordFirstStreamOutput_def)

lemma heldTotals_update [pipes]:
  "heldTotals su c sent (d\<lparr>dsRestorer := sr\<rparr>) = heldTotals su c sent d" "heldTotals su c sent (d\<lparr>dsConverter := k\<rparr>) = heldTotals su c sent d"
  "heldTotals su c sent (d\<lparr>dsGuard := g\<rparr>) = heldTotals su c sent d" "heldTotals su c sent (d\<lparr>dsCapture := cap\<rparr>) = heldTotals su c sent d"
  "heldTotals su c sent (d\<lparr>dsReasoning := rea\<rparr>) = heldTotals su c sent d" "heldTotals su c sent (d\<lparr>dsLines := n\<rparr>) = heldTotals su c sent d"
  "heldTotals su c sent (d\<lparr>dsResult := (dsResult d)\<lparr>resTokens := t\<rparr>\<rparr>) = heldTotals su c sent d"
  "heldTotals su c sent (noteFirstOutput io d) = heldTotals su c sent d"
  by (simp_all add: heldTotals_def pipes) (simp add: noteFirstOutput_def recordFirstStreamOutput_def)

text \<open>The operations that write, with a client that takes everything.\<close>

definition wrote :: "deliverySetup \<Rightarrow> delivery \<Rightarrow> string list \<Rightarrow> bool \<times> delivery \<Rightarrow> bool" where
  "wrote su d outs r \<longleftrightarrow>
     fst r \<and> pipeOf (snd r) = pipeOf d \<and> dsPending (snd r) = dsPending d \<and> dsCommitted (snd r) = dsCommitted d \<and>
     writerFailed (dsResult (snd r)) = writerFailed (dsResult d) \<and> status (dsResult (snd r)) = status (dsResult d) \<and>
     errorMessage (dsResult (snd r)) = errorMessage (dsResult d) \<and>
     wroteBytes (dsResult (snd r)) = (wroteBytes (dsResult d) \<or> outs \<noteq> []) \<and>
     ccSent (dsClient (snd r)) = ccSent (dsClient d) @ outs \<and>
     ccStatus (dsClient (snd r)) = (if wroteBytes (dsResult d) \<or> outs = [] then ccStatus (dsClient d) else Some (suCode su))"

lemma writeOutput_wrote: "(\<And>sent. \<not> ioWriteFails io sent) \<Longrightarrow> wrote su d [out] (writeOutput io su out d)"
  by (simp add: wrote_def writeOutput_def noteFirstOutput_def recordFirstStreamOutput_def pipeOf_def Let_def)

lemma writeAll_wrote:
  assumes W: "\<And>sent. \<not> ioWriteFails io sent"
  shows "wrote su d outs (writeAll io su outs d)"
proof (induction outs arbitrary: d)
  case Nil
  then show ?case by (simp add: wrote_def)
next
  case (Cons out outs)
  obtain b d1 where w: "writeOutput io su out d = (b, d1)" by fastforce
  with writeOutput_wrote [OF W, of su d out] have "b" "wrote su d [out] (True, d1)" by (simp_all add: wrote_def)
  with Cons [of d1] w show ?case by (auto simp: wrote_def)
qed

definition grown :: "(delivery \<Rightarrow> bool) \<Rightarrow> pipe \<Rightarrow> bool \<times> delivery \<Rightarrow> bool" where
  "grown P p r \<longleftrightarrow> fst r \<and> pipeOf (snd r) = p \<and> P (snd r)"

lemma wrote_totals:
  assumes T: "totals su c sent d" and g: "wrote su d outs (r, d1)"
    and outs: "outs = dsPending d \<and> sent' = sent \<or> dsPending d = [] \<and> sent' = sent @ outs"
    and d2: "dsResult d2 = dsResult d1" "dsClient d2 = dsClient d1" "dsPending d2 = []"
  shows "totals su c sent' d2"
proof -
  from T obtain w where w: "ccSent (dsClient d) = ccSent c @ w" "sent = w @ dsPending d" "wroteBytes (dsResult d) = (w \<noteq> [])"
      "ccStatus (dsClient d) = (if w = [] then ccStatus c else Some (suCode su))"
    by (auto simp: totals_def)
  from outs w(2) have "sent' = w @ outs" by auto
  then have "\<exists>w. ccSent (dsClient d2) = ccSent c @ w \<and> sent' = w @ dsPending d2 \<and> wroteBytes (dsResult d2) = (w \<noteq> []) \<and>
          ccStatus (dsClient d2) = (if w = [] then ccStatus c else Some (suCode su))"
    by (intro exI [of _ sent']) (use w g d2 in \<open>simp add: wrote_def\<close>)
  with T g d2 show ?thesis by (simp add: totals_def wrote_def)
qed

lemma flushPending_grown:
  assumes W: "\<And>sent. \<not> ioWriteFails io sent" and T: "totals su c sent d"
  shows "grown (\<lambda>d1. totals su c sent d1 \<and> dsPending d1 = [] \<and> dsCommitted d1 = dsCommitted d) (pipeOf d) (flushPending io su d)"
proof -
  obtain r d1 where w: "writeAll io su (dsPending d) d = (r, d1)" by fastforce
  from writeAll_wrote [OF W, of su d "dsPending d"] w have g: "wrote su d (dsPending d) (r, d1)" by simp
  have "totals su c sent (d1\<lparr>dsPending := [], dsSize := 0\<rparr>)" by (rule wrote_totals [OF T g]) simp_all
  with g w show ?thesis by (simp add: grown_def flushPending_def wrote_def pipes)
qed

lemma writeOutput_grown:
  assumes W: "\<And>sent. \<not> ioWriteFails io sent" and T: "totals su c sent d" "dsPending d = []"
  shows "grown (\<lambda>d1. totals su c (sent @ [out]) d1 \<and> dsPending d1 = [] \<and> dsCommitted d1 = dsCommitted d) (pipeOf d) (writeOutput io su out d)"
proof -
  obtain r d1 where w: "writeOutput io su out d = (r, d1)" by fastforce
  from writeOutput_wrote [OF W, of su d out] w have g: "wrote su d [out] (r, d1)" by simp
  with T have "totals su c (sent @ [out]) d1" by (intro wrote_totals [OF T(1) g]) (use g in \<open>simp_all add: wrote_def\<close>)
  with g w T show ?thesis by (simp add: grown_def wrote_def)
qed

lemma flushPending_committed:
  "flushPending io su (d\<lparr>dsCommitted := b\<rparr>) = (case flushPending io su d of (r, d1) \<Rightarrow> (r, d1\<lparr>dsCommitted := b\<rparr>))"
proof -
  have w: "writeOutput io su out (d\<lparr>dsCommitted := b\<rparr>) = (case writeOutput io su out d of (r, d1) \<Rightarrow> (r, d1\<lparr>dsCommitted := b\<rparr>))" for out d
    by (simp add: writeOutput_def noteFirstOutput_def Let_def)
  have "writeAll io su outs (d\<lparr>dsCommitted := b\<rparr>) = (case writeAll io su outs d of (r, d1) \<Rightarrow> (r, d1\<lparr>dsCommitted := b\<rparr>))" for outs
    by (induction outs arbitrary: d) (simp_all add: w split: prod.split bool.split)
  then show ?thesis by (simp add: flushPending_def split: prod.split bool.split)
qed

lemma totals_committed: "totals su c sent d \<Longrightarrow> dsPending d = [] \<Longrightarrow> totals su c sent (d\<lparr>dsCommitted := b\<rparr>)"
  by (simp add: totals_def)

lemma flush_grown:
  assumes W: "\<And>sent. \<not> ioWriteFails io sent" and T: "totals su c sent d"
  shows "grown (\<lambda>d1. totals su c sent d1 \<and> dsPending d1 = [] \<and> dsCommitted d1) (pipeOf d) (flushPending io su (d\<lparr>dsCommitted := True\<rparr>))"
proof -
  obtain r d1 where f: "flushPending io su d = (r, d1)" by fastforce
  from flushPending_grown [OF W T] show ?thesis
    unfolding flushPending_committed f by (simp add: grown_def totals_committed pipes)
qed

lemma flush_write_grown:
  assumes W: "\<And>sent. \<not> ioWriteFails io sent" and T: "totals su c sent d"
  shows "grown (\<lambda>d1. totals su c (sent @ [out]) d1 \<and> dsPending d1 = [] \<and> dsCommitted d1) (pipeOf d)
    (case flushPending io su (d\<lparr>dsCommitted := True\<rparr>) of (False, d1) \<Rightarrow> (False, d1) | (True, d1) \<Rightarrow> writeOutput io su out d1)"
proof -
  obtain r d1 where f: "flushPending io su (d\<lparr>dsCommitted := True\<rparr>) = (r, d1)" by fastforce
  from flush_grown [OF W T] f have g: "r" "totals su c sent d1" "dsPending d1 = []" "dsCommitted d1" "pipeOf d1 = pipeOf d"
    by (simp_all add: grown_def)
  from writeOutput_grown [OF W g(2,3), of out] g f show ?thesis by (simp add: grown_def)
qed

lemma grownE: "grown P p r \<Longrightarrow> (\<And>d. r = (True, d) \<Longrightarrow> pipeOf d = p \<Longrightarrow> P d \<Longrightarrow> thesis) \<Longrightarrow> thesis"
  by (cases r) (simp add: grown_def)

lemma grown_mono: "grown P p r \<Longrightarrow> (\<And>d. P d \<Longrightarrow> Q d) \<Longrightarrow> grown Q p r"
  by (simp add: grown_def)

lemma emitLine_grown:
  assumes W: "\<And>sent. \<not> ioWriteFails io sent" and T: "heldTotals su c sent d"
  shows "grown (heldTotals su c (sent @ [out])) (pipeOf d) (emitLine io su visible out d)"
proof (cases "\<not> dsCommitted d \<and> \<not> visible")
  case True
  let ?d = "d\<lparr>dsPending := dsPending d @ [out], dsSize := dsSize d + length out\<rparr>"
  from T True have quiet: "\<not> wroteBytes (dsResult d)" by (auto simp: heldTotals_def)
  from T True have held: "totals su c (sent @ [out]) ?d" by (auto simp: heldTotals_def totals_def)
  from flush_grown [OF W held] True quiet held show ?thesis
    by (auto simp: emitLine_def Let_def heldTotals_def pipes grown_def)
next
  case False
  from T have "totals su c sent d" by (simp add: heldTotals_def)
  from flush_write_grown [OF W this, of out] show ?thesis using False
    unfolding emitLine_def by (simp only: if_False) (erule grown_mono, simp add: heldTotals_def)
qed

lemma emitLines_grown:
  assumes W: "\<And>sent. \<not> ioWriteFails io sent"
  shows "heldTotals su c sent d \<Longrightarrow> grown (heldTotals su c (sent @ outs)) (pipeOf d) (emitLines io su visible outs d)"
proof (induction outs arbitrary: d sent)
  case Nil
  then show ?case by (simp add: grown_def)
next
  case (Cons out outs)
  from emitLine_grown [OF W Cons.prems] obtain d1 where e: "emitLine io su visible out d = (True, d1)" "pipeOf d1 = pipeOf d"
      "heldTotals su c (sent @ [out]) d1" by (rule grownE)
  from Cons.IH [OF e(3)] e(1,2) show ?case by simp
qed

lemma emitClosing_grown:
  assumes W: "\<And>sent. \<not> ioWriteFails io sent" and T: "totals su c sent d"
  shows "grown (\<lambda>d1. totals su c (sent @ [out]) d1 \<and> dsPending d1 = [] \<and> dsCommitted d1) (pipeOf d) (emitClosing io su out d)"
proof (cases "dsCommitted d")
  case True
  with T have "dsPending d = []" by (simp add: totals_def)
  from writeOutput_grown [OF W T this, of out] True show ?thesis
    unfolding emitClosing_def by (simp only: if_True) (erule grown_mono, simp)
next
  case False
  from flush_write_grown [OF W T, of out] False show ?thesis
    unfolding emitClosing_def by (simp only: if_False)
qed

definition sentTotals :: "deliverySetup \<Rightarrow> clientConn \<Rightarrow> string list \<Rightarrow> delivery \<Rightarrow> bool" where
  "sentTotals su c sent d \<longleftrightarrow> totals su c sent d \<and> dsPending d = []"

lemma emitClosings_grown:
  assumes W: "\<And>sent. \<not> ioWriteFails io sent" and P: "P = heldTotals su c \<or> P = sentTotals su c"
  shows "P sent d \<Longrightarrow> grown (P (sent @ outs)) (pipeOf d) (emitClosings io su outs d)"
proof (induction outs arbitrary: d sent)
  case Nil
  then show ?case by (simp add: grown_def)
next
  case (Cons out outs)
  from Cons.prems P have "totals su c sent d" by (auto simp: heldTotals_def sentTotals_def)
  from emitClosing_grown [OF W this] obtain d1 where e: "emitClosing io su out d = (True, d1)" "pipeOf d1 = pipeOf d"
      "totals su c (sent @ [out]) d1 \<and> dsPending d1 = [] \<and> dsCommitted d1" by (rule grownE)
  with P have "P (sent @ [out]) d1" by (auto simp: heldTotals_def sentTotals_def)
  from Cons.IH [OF this] e(1,2) show ?case by simp
qed

lemmas emitClosings_held = emitClosings_grown [OF _ disjI1 [OF refl]]
lemmas emitClosings_sent = emitClosings_grown [OF _ disjI2 [OF refl]]

lemma restoredLines_pipe:
  "pipeRestore io line (pipeOf d) = (restored, p1) \<Longrightarrow> \<exists>sr. restoredLines io line d = (restored, d\<lparr>dsRestorer := sr\<rparr>) \<and> p1 = pipeOf (d\<lparr>dsRestorer := sr\<rparr>)"
  by (auto simp: pipeRestore_def restoredLines_def Let_def pipes split: prod.splits)

text \<open>The outputs of the converter go through the pipeline, whatever writes them.\<close>

lemma sendOutputs_pipe:
  assumes E: "\<And>sent restored d. P sent d \<Longrightarrow> grown (P (sent @ restored)) (pipeOf d) (emit restored d)"
    and R: "\<And>sent d sr. P sent (d\<lparr>dsRestorer := sr\<rparr>) = P sent d"
  shows "P sent d \<Longrightarrow> pipeOutputs io su outs (pipeOf d) = Some (texts, p) \<Longrightarrow>
    \<exists>d1. sendOutputs io su emit outs d = Going d1 \<and> pipeOf d1 = p \<and> P (sent @ texts) d1"
proof (induction outs arbitrary: d sent texts)
  case Nil
  then show ?case by simp
next
  case (Cons out outs)
  show ?case
  proof (cases "out = []")
    case True
    with Cons show ?thesis by simp
  next
    case False
    with Cons.prems(2) obtain normalized restored p1 rest
      where n: "normalizeSSELine (ioLine io) (suClient su) out (suModel su) (suConfig su) (ioUnix io (dsLines d)) = Some normalized"
        and r: "pipeRestore io normalized (pipeOf d) = (restored, p1)" and o: "pipeOutputs io su outs p1 = Some (rest, p)" and t: "texts = restored @ rest"
      by (auto simp: Let_def pipes split: option.splits prod.splits)
    from restoredLines_pipe [OF r] obtain sr where l: "restoredLines io normalized d = (restored, d\<lparr>dsRestorer := sr\<rparr>)"
      and p1: "p1 = pipeOf (d\<lparr>dsRestorer := sr\<rparr>)" by blast
    from Cons.prems(1) have "P sent (d\<lparr>dsRestorer := sr\<rparr>)" by (simp add: R)
    from E [OF this, of restored] obtain d1 where e: "emit restored (d\<lparr>dsRestorer := sr\<rparr>) = (True, d1)" "pipeOf d1 = p1" "P (sent @ restored) d1"
      unfolding p1 by (rule grownE)
    from Cons.IH [OF e(3)] o e(2) have "\<exists>d2. sendOutputs io su emit outs d1 = Going d2 \<and> pipeOf d2 = p \<and> P (sent @ texts) d2"
      by (simp add: t)
    then show ?thesis using False by (simp add: n l e(1) afterWrites_def)
  qed
qed

lemma convertLine_pipe:
  "pipeConvert io line (pipeOf d) = (outs, p1) \<Longrightarrow>
    \<exists>k. convertLine io line d = (outs, d\<lparr>dsConverter := k\<rparr>) \<and> p1 = pipeOf (d\<lparr>dsConverter := k\<rparr>)"
  by (cases "dsConverter d"; cases d) (auto simp: pipeConvert_def convertLine_def Let_def pipeOf_def split: prod.splits)

lemma relayLine_pipe:
  assumes W: "\<And>sent. \<not> ioWriteFails io sent" and T: "heldTotals su c sent d" and l: "pipeLine io su line (pipeOf d) = Some (texts, p)"
  shows "\<exists>d1. relayLine io su line d = Going d1 \<and> pipeOf d1 = p \<and> heldTotals su c (sent @ texts) d1"
proof -
  obtain guarded refused g where gl: "guardLine (ioLine io) line (dsGuard d) = (guarded, refused, g)" by (metis prod_cases3)
  let ?d1 = "d\<lparr>dsLines := dsLines d + 1\<rparr>\<lparr>dsGuard := g\<rparr>"
  from l gl have nr: "\<not> refused" by (auto simp: pipeLine_def pipes)
  show ?thesis
  proof (cases guarded)
    case None
    with l gl nr have "texts = []" "p = pipeOf ?d1" by (auto simp: pipeLine_def pipes)
    then show ?thesis using T by (simp add: relayLine_def gl nr None pipes)
  next
    case (Some line1)
    with l gl nr obtain line2 outs p1
      where n: "normalizeSSELine (ioLine io) (suUpstream su) line1 (suModel su) (suConfig su) (ioUnix io (dsLines d + 1)) = Some line2"
        and f: "parseStreamFailure (ioLine io) (ioErrorText io) line2 = None"
        and v: "pipeConvert io line2 (pipeOf (?d1\<lparr>dsCapture := captureObserve (ioLine io) line2 (dsCapture d)\<rparr>)) = (outs, p1)"
        and o: "pipeOutputs io su outs p1 = Some (texts, p)"
      by (auto simp: pipeLine_def pipes split: option.splits prod.splits if_splits)
    let ?d2 = "?d1\<lparr>dsReasoning := reasoningObserve (ioLine io) line1 (dsReasoning d)\<rparr>\<lparr>dsCapture := captureObserve (ioLine io) line2 (dsCapture d)\<rparr>"
    let ?visible = "streamPayloadHasVisibleOutput (ioLine io) line2"
    let ?d3 = "if ?visible then noteFirstOutput io ?d2 else ?d2"
    let ?d4 = "?d3\<lparr>dsResult := (dsResult ?d3)\<lparr>resTokens := ParseSSEUsage (ioLine io) line2 (resTokens (dsResult ?d3))\<rparr>\<rparr>"
    have v': "pipeConvert io line2 (pipeOf ?d4) = (outs, p1)" using v by (cases ?visible) (simp_all add: pipes)
    from convertLine_pipe [OF v'] obtain k where k: "convertLine io line2 ?d4 = (outs, ?d4\<lparr>dsConverter := k\<rparr>)" "p1 = pipeOf (?d4\<lparr>dsConverter := k\<rparr>)"
      by blast
    have T4: "heldTotals su c sent (?d4\<lparr>dsConverter := k\<rparr>)" 
      using T by (simp add: heldTotals_def totals_def noteFirstOutput_def recordFirstStreamOutput_def)
    have "\<exists>d5. sendOutputs io su (emitLines io su ?visible) outs (?d4\<lparr>dsConverter := k\<rparr>) = Going d5 \<and> pipeOf d5 = p \<and> heldTotals su c (sent @ texts) d5"
      by (rule sendOutputs_pipe [where P = "heldTotals su c"])
        (use T4 o k(2) in \<open>simp_all add: emitLines_grown [OF W] pipes(27-)\<close>)
    moreover have "relayLine io su line d = sendOutputs io su (emitLines io su ?visible) outs (?d4\<lparr>dsConverter := k\<rparr>)"
      unfolding relayLine_def Let_def using gl nr Some n f k(1) by (cases ?visible) simp_all
    ultimately show ?thesis by simp
  qed
qed

lemma relayLines_pipe:
  assumes W: "\<And>sent. \<not> ioWriteFails io sent"
  shows "heldTotals su c sent d \<Longrightarrow> pipeLines io su lines0 (pipeOf d) = Some (texts, p) \<Longrightarrow>
    \<exists>d1. relayLines io su lines0 d = Going d1 \<and> pipeOf d1 = p \<and> heldTotals su c (sent @ texts) d1"
proof (induction lines0 arbitrary: d sent texts)
  case Nil
  then show ?case by simp
next
  case (Cons line lines0)
  from Cons.prems(2) obtain t1 p1 t2 where l: "pipeLine io su line (pipeOf d) = Some (t1, p1)" and r: "pipeLines io su lines0 p1 = Some (t2, p)"
    and t: "texts = t1 @ t2" by (auto split: option.splits)
  from relayLine_pipe [OF W Cons.prems(1) l] obtain d1 where d1: "relayLine io su line d = Going d1" "pipeOf d1 = p1" "heldTotals su c (sent @ t1) d1"
    by blast
  from Cons.IH [OF d1(3)] r d1(1,2) show ?case by (simp add: t)
qed

lemma closeConverter_pipe:
  assumes W: "\<And>sent. \<not> ioWriteFails io sent" and T: "heldTotals su c sent d" and o: "pipeComplete io su (pipeOf d) = Some (texts, p)"
  shows "\<exists>d1. closeConverter io su d = Going d1 \<and> pipeOf d1 = p \<and> heldTotals su c (sent @ texts) d1"
proof (cases "dsConverter d")
  case None
  with T o show ?thesis by (simp add: closeConverter_def pipeComplete_def pipes)
next
  case (Some k)
  obtain outs k1 where k: "CompleteStream (leStream (ioLine io)) k = (outs, k1)" by fastforce
  have "\<exists>d1. sendOutputs io su (emitClosings io su) (map (sseText (ioLine io)) outs) (d\<lparr>dsConverter := Some k1\<rparr>) = Going d1 \<and>
      pipeOf d1 = p \<and> heldTotals su c (sent @ texts) d1"
    by (rule sendOutputs_pipe [where P = "heldTotals su c"])
      (use T o Some k in \<open>simp_all add: emitClosings_held [OF W] pipeComplete_def pipes\<close>)
  then show ?thesis by (simp add: closeConverter_def Some k)
qed

lemma closeRestorer_pipe:
  assumes W: "\<And>sent. \<not> ioWriteFails io sent" and T: "sentTotals su c sent d" and o: "pipeFlush io (pipeOf d) = (texts, p)"
  shows "\<exists>d1. closeRestorer io su d = Going d1 \<and> pipeOf d1 = p \<and> sentTotals su c (sent @ texts) d1"
proof (cases "dsRestorer d")
  case None
  with T o show ?thesis by (simp add: closeRestorer_def pipeFlush_def pipes)
next
  case (Some sr)
  obtain outs sr1 where k: "flushRestorer (seNum (leStream (ioLine io))) sr = (outs, sr1)" by fastforce
  from T have "sentTotals su c sent (d\<lparr>dsRestorer := Some sr1\<rparr>)" by (simp add: sentTotals_def pipes)
  from emitClosings_sent [OF W this, of "map (restoredText (ioLine io)) outs"] obtain d1
    where e: "emitClosings io su (map (restoredText (ioLine io)) outs) (d\<lparr>dsRestorer := Some sr1\<rparr>) = (True, d1)"
      "pipeOf d1 = pipeOf (d\<lparr>dsRestorer := Some sr1\<rparr>)" "sentTotals su c (sent @ map (restoredText (ioLine io)) outs) d1"
    by (rule grownE)
  with o Some k show ?thesis by (auto simp: closeRestorer_def pipeFlush_def afterWrites_def pipes)
qed

lemma writeTerminal_all:
  "(\<And>sent. \<not> ioWriteFails io sent) \<Longrightarrow> writeTerminal io outs d = (True, d\<lparr>dsClient := (dsClient d)\<lparr>ccSent := ccSent (dsClient d) @ outs\<rparr>\<rparr>)"
  by (induction outs arbitrary: d) simp_all

lemma writeTerminals_all:
  assumes W: "\<And>sent. \<not> ioWriteFails io sent"
  shows "\<exists>sr. writeTerminals io lines0 d =
    d\<lparr>dsRestorer := sr, dsClient := (dsClient d)\<lparr>ccSent := ccSent (dsClient d) @ pipeTerminal io lines0 (pipeOf d)\<rparr>\<rparr>"
proof (induction lines0 arbitrary: d)
  case Nil
  then show ?case by (intro exI [of _ "dsRestorer d"]) simp
next
  case (Cons line lines0)
  obtain restored p1 where r: "pipeRestore io line (pipeOf d) = (restored, p1)" by fastforce
  from restoredLines_pipe [OF r] obtain sr where l: "restoredLines io line d = (restored, d\<lparr>dsRestorer := sr\<rparr>)"
    and p1: "p1 = pipeOf (d\<lparr>dsRestorer := sr\<rparr>)" by blast
  let ?d = "d\<lparr>dsRestorer := sr, dsClient := (dsClient d)\<lparr>ccSent := ccSent (dsClient d) @ restored\<rparr>\<rparr>"
  from Cons [of ?d] obtain sr2 where "writeTerminals io lines0 ?d =
      ?d\<lparr>dsRestorer := sr2, dsClient := (dsClient ?d)\<lparr>ccSent := ccSent (dsClient ?d) @ pipeTerminal io lines0 (pipeOf ?d)\<rparr>\<rparr>" by blast
  then show ?case by (intro exI [of _ sr2]) (simp add: l r p1 writeTerminal_all [OF W] pipes)
qed

text \<open>From the lines to the end, with all the lines received.\<close>

lemma closeStream_pipe:
  assumes W: "\<And>sent. \<not> ioWriteFails io sent" and T: "heldTotals su c o1 d"
    and o2: "pipeComplete io su (pipeOf d) = Some (o2, p2)" and o3: "pipeFlush io p2 = (o3, p3)"
  shows "\<exists>d3. closeStream io su None d = finishStream io su d3 \<and> pipeOf d3 = p3 \<and> sentTotals su c (o1 @ o2 @ o3) d3"
proof -
  from closeConverter_pipe [OF W T o2] obtain d1 where d1: "closeConverter io su d = Going d1" "pipeOf d1 = p2" "heldTotals su c (o1 @ o2) d1" by blast
  have "\<exists>d2. (if wroteBytes (dsResult d1) then Going d1 else afterWrites io (flushPending io su d1)) = Going d2 \<and>
      pipeOf d2 = p2 \<and> sentTotals su c (o1 @ o2) d2"
  proof (cases "wroteBytes (dsResult d1)")
    case True
    with d1 show ?thesis by (auto simp: heldTotals_def sentTotals_def totals_def)
  next
    case False
    from d1(3) have "totals su c (o1 @ o2) d1" by (simp add: heldTotals_def)
    from flushPending_grown [OF W this] obtain d2 where "flushPending io su d1 = (True, d2)" "pipeOf d2 = pipeOf d1"
        "totals su c (o1 @ o2) d2 \<and> dsPending d2 = [] \<and> dsCommitted d2 = dsCommitted d1"
      by (rule grownE)
    with False d1(2) show ?thesis by (simp add: afterWrites_def sentTotals_def)
  qed
  then obtain d2 where d2: "(if wroteBytes (dsResult d1) then Going d1 else afterWrites io (flushPending io su d1)) = Going d2"
      "pipeOf d2 = p2" "sentTotals su c (o1 @ o2) d2" by blast
  from closeRestorer_pipe [OF W d2(3)] d2(2) o3 obtain d3 where d3: "closeRestorer io su d2 = Going d3" "pipeOf d3 = p3"
      "sentTotals su c (o1 @ o2 @ o3) d3" by auto
  have "closeStream io su None d = finishStream io su d3"
    unfolding closeStream_def stepEnd_def d1(1) streamStep.case option.case Let_def d2(1) d3(1) by simp
  with d3 show ?thesis by blast
qed

lemma finishStream_pipe:
  assumes W: "\<And>sent. \<not> ioWriteFails io sent" and T: "sentTotals su c sent d"
  shows "aeHandled (finishStream io su d) \<and> aeError (finishStream io su d) = None \<and> \<not> aePanic (finishStream io su d) \<and>
    streamCompleted (aeResult (finishStream io su d)) = scDone (piCapture (pipeOf d)) \<and>
    ccStatus (aeClient (finishStream io su d)) = (if sent = [] then ccStatus c else Some (suCode su)) \<and>
    ccSent (aeClient (finishStream io su d)) = ccSent c @ sent @ pipeEnding io su sent (pipeOf d)"
proof -
  let ?d = "d\<lparr>dsResult := (dsResult d)\<lparr>streamCompleted := scDone (dsCapture d)\<rparr>\<rparr>"
  from T have t: "ccSent (dsClient d) = ccSent c @ sent" "wroteBytes (dsResult d) = (sent \<noteq> [])" "\<not> writerFailed (dsResult d)"
      "ccStatus (dsClient d) = (if sent = [] then ccStatus c else Some (suCode su))" "status (dsResult d) = suCode su" "errorMessage (dsResult d) = []"
    by (auto simp: sentTotals_def totals_def)
  obtain sr where w: "writeTerminals io (streamTerminalLines (ioLine io) (suClient su) (suCode su) []) ?d =
      ?d\<lparr>dsRestorer := sr, dsClient := (dsClient d)\<lparr>ccSent := ccSent (dsClient d) @
        pipeTerminal io (streamTerminalLines (ioLine io) (suClient su) (suCode su) []) (pipeOf d)\<rparr>\<rparr>"
    using writeTerminals_all [OF W, of "streamTerminalLines (ioLine io) (suClient su) (suCode su) []" ?d] by (auto simp: pipes)
  show ?thesis
  proof (cases "scDone (dsCapture d)")
    case True
    then show ?thesis
      by (simp add: finishStream_def Let_def streamTruncated_def endOf_def t pipeEnding_def pipes)
  next
    case False
    then show ?thesis
      using w by (simp add: finishStream_def Let_def streamTruncated_def endOf_def t pipeEnding_def pipes terminateTruncated_def)
  qed
qed

lemma startDelivery_held: "heldTotals su c [] (startDelivery io su restorer0 c)"
  by (simp add: heldTotals_def totals_def startDelivery_def startResult_def zeroResult_def)

lemma pipeStart_client: "pipeOf (startDelivery io su restorer0 c) = pipeStart io su restorer0"
  by (simp add: pipeStart_def startDelivery_def pipeOf_def)


definition exampleIo :: deliveryEnv where
  "exampleIo = \<lparr>ioLine = pieceEnv, ioErrorText = (\<lambda>_ m. m), ioOrder = (\<lambda>_ m. m), ioUnix = (\<lambda>_. 0), ioMillis = (\<lambda>_. 7), ioWriteFails = (\<lambda>_. False),
     ioWriteError = [], ioClientGone = (\<lambda>_. False), ioEmptyMessage = []\<rparr>"

definition exampleSetup :: deliverySetup where
  "exampleSetup = \<lparr>suPlan = \<lparr>clientEndpoint = ResponsesEndpoint, upstreamEndpoint = ResponsesEndpoint, planConversion = NoConversion\<rparr>,
     suCode = 200, suModel = ''m'', suConfig = DefaultAdvancedConfig, suSettings = DefaultResilienceSettings\<rparr>"

lemma example_lines: "dataOf pieceEnv '':\<newline>'' = NoData" "dataOf pieceEnv ''data: [DONE]\<newline>'' = DataDone"
  using trimSpace_newline [of "'':''"] trimSpace_newline [of "''data: [DONE]''"] trimSpace_after_blank [of "''[DONE]''"]
  by (simp_all add: relaySSEDataPayload_def hasPrefix_def plainChar_def)

lemma example_pipe:
  "\<exists>p. pipeStream exampleIo exampleSetup None ['':'', ''data: [DONE]''] = Some (['':\<newline>'', ''data: [DONE]\<newline>''], p) \<and> scDone (piCapture p)"
  by (simp add: pipeStream_def pipeStart_def pipeOf_def startDelivery_def exampleIo_def exampleSetup_def newStreamContentGuard_def
      ResponsesEndpoint_def ChatCompletionsEndpoint_def Converts_def newSensitiveDataStreamRestorer_def pipeLine_def guardLine_def
      normalizeSSELine_def DefaultAdvancedConfig_def parseStreamFailure_def example_lines captureObserve_def newStreamResponseCapture_def
      pipeConvert_def pipeRestore_def restoreSSELine_def restoredText_def pipeComplete_def pipeFlush_def)


text \<open>
  The stream of a Messages upstream has no other end mark than \<open>[DONE]\<close> for the relay, so a stream that ends with
  \<^verbatim>\<open>message_stop\<close>, as that protocol does, is never taken for complete.
\<close>

lemma messages_stream_not_done:
  "scEndpoint cap \<noteq> ChatCompletionsEndpoint \<Longrightarrow> scEndpoint cap \<noteq> ResponsesEndpoint \<Longrightarrow> dataOf env line \<noteq> DataDone \<Longrightarrow> scDone (captureObserve env line cap) = scDone cap"
  by (simp add: captureObserve_def split: dataLine.split)

end
