(* ===== verification/Spec2Isabelle.thy ===== *)
theory Spec2Isabelle
  imports Prelude Json Time_Window Weighted_Choice Credentials Channel_Config Routing Key_Slots Resilience_Settings
    Usage_Types Relay_Attempt Relay_Flow Usage_Billing Usage_Pricing Relay_Billing
    Usage_Wire Cluster_Ledger Cluster_System Health
    Cache_Store Worker_Cache Cluster_Nodes Accounts
    Go_Json Protocol_Plan Protocol_Request Protocol_Anthropic Protocol_Response Protocol_Stream Stream_Convert
    Stream_To_Chat Stream_To_Responses
    Api_Keys Go_Regexp Sensitive_Data Sensitive_Restore
    Price_Expression Price_Rules Price_Plan
    Channel_Types Type_Store Endpoint_Choice Sse_Lines Content_Guard Body_Transform Relay_Stream Stream_Delivery
begin

text \<open>
  AiFerry is a gateway between clients that speak the protocols of OpenAI and Anthropic and the upstream channels
  that serve the models.  A request is authenticated, routed to the channels that offer its model, sent with one of
  the keys of a channel, converted between protocols where client and upstream differ, retried on failure, and
  charged to the user's balance and the key's budget.  Gateways may form a cluster: workers serve requests from a
  mirror of the tables and send their usage rows to the master, which keeps the accounts.  This development models
  that core from the sources under \<^verbatim>\<open>src/internal/logic\<close> and proves what makes it correct.  Paths below are
  relative to that directory.

  \<^bold>\<open>How the parts interact.\<close>
  A request enters with an API key (\<^verbatim>\<open>Api_Keys\<close>).  \<^verbatim>\<open>Routing\<close> turns its model into an ordered list of candidates;
  \<^verbatim>\<open>Relay_Flow\<close> walks over them, twice when nothing was available at first, and calls for each the loop
  \<^verbatim>\<open>Relay_Attempt\<close>, which takes a key by \<^verbatim>\<open>Credentials\<close> and a slot by \<^verbatim>\<open>Key_Slots\<close>, calls the upstream and judges the
  answer by \<^verbatim>\<open>Resilience_Settings\<close>.  Results are reported to \<^verbatim>\<open>Health\<close>, whose scores, cool-downs and switches decide
  what \<^verbatim>\<open>Credentials\<close> and \<^verbatim>\<open>Routing\<close> may take the next time.  On the way the body passes \<^verbatim>\<open>Sensitive_Data\<close> (masking) and
  \<^verbatim>\<open>Protocol_Request\<close> or \<^verbatim>\<open>Protocol_Anthropic\<close> (conversion), and the answer comes back through \<^verbatim>\<open>Protocol_Response\<close> or the
  stream converters and \<^verbatim>\<open>Sensitive_Restore\<close>.  A finished request is priced (\<^verbatim>\<open>Usage_Pricing\<close>, from rules that
  \<^verbatim>\<open>Price_Plan\<close> may have synced from a catalogue), billed (\<^verbatim>\<open>Usage_Billing\<close>) and settled in one transaction
  (\<^verbatim>\<open>Relay_Billing\<close>).  On a worker the settled row goes into the outbox of \<^verbatim>\<open>Cluster_Ledger\<close>, is checked by \<^verbatim>\<open>Usage_Wire\<close>
  and settled again at the master; \<^verbatim>\<open>Cluster_System\<close> is the system of all of them, and \<^verbatim>\<open>Cluster_Nodes\<close> decides whose
  messages count.

  \<^bold>\<open>Foundations.\<close>
    \<^item> \<^verbatim>\<open>Prelude\<close>: time, identifiers, the functions of Go's package \<^verbatim>\<open>strings\<close> that the code calls, sorting, the loops
      that remove duplicates, and facts on lists shared by the components.
    \<^item> \<^verbatim>\<open>Json\<close>, \<^verbatim>\<open>Go_Json\<close>: decoding of typed and untyped JSON as \<^verbatim>\<open>encoding/json\<close> does it, from a tree of tokens on;
      the splitting of a text into tokens is a parameter.
    \<^item> \<^verbatim>\<open>Go_Regexp\<close>: the regular expressions of the code as a datatype with a matcher that takes the branches in
      Go's order; the repetitions are bounded by the length of the text, so the matcher is total.
    \<^item> \<^verbatim>\<open>Weighted_Choice\<close>: the locale of drawing by weight, interpreted in \<^verbatim>\<open>Routing\<close> and \<^verbatim>\<open>Credentials\<close>.

  \<^bold>\<open>Channels, keys and routing.\<close>
    \<^item> \<^verbatim>\<open>Time_Window\<close> (\<^verbatim>\<open>timewindow\<close>): parsing, normal form and membership of opening hours, shown equal to the plain
      reading of weekday and minute, ranges over midnight included.  The zone database is a parameter.
    \<^item> \<^verbatim>\<open>Channel_Config\<close> (\<^verbatim>\<open>channel/advanced.go\<close>), \<^verbatim>\<open>Resilience_Settings\<close> (\<^verbatim>\<open>system/service.go\<close>): decoding and checking of
      settings.
    \<^item> \<^verbatim>\<open>Credentials\<close> (\<^verbatim>\<open>channel/credentials.go\<close>, \<^verbatim>\<open>credential_affinity.go\<close>, \<^verbatim>\<open>credential_diagnosis.go\<close>): the selection of
      a key; whatever is drawn, only usable keys come out.
    \<^item> \<^verbatim>\<open>Routing\<close> (\<^verbatim>\<open>relay/routing.go\<close>, \<^verbatim>\<open>closed_window.go\<close>, \<^verbatim>\<open>route_cache.go\<close>, \<^verbatim>\<open>conversation_affinity.go\<close>): the query, the
      filters and the weighted order as interpretations of the locales for filters and reorderings, and the
      versioned cache as a step relation over concurrent loads and invalidations.
    \<^item> \<^verbatim>\<open>Key_Slots\<close> (\<^verbatim>\<open>relay/concurrency.go\<close>): counters of requests in flight behind the locale \<^verbatim>\<open>slot_table\<close>; the
      limit holds in every interleaving of the operations.
    \<^item> \<^verbatim>\<open>Health\<close> (\<^verbatim>\<open>system/auto_disable.go\<close>, \<^verbatim>\<open>combo_health.go\<close>, \<^verbatim>\<open>model_health.go\<close>, \<^verbatim>\<open>recovery_schedule.go\<close>,
      \<^verbatim>\<open>credential_failure.go\<close>, \<^verbatim>\<open>auto_disable_notification.go\<close>): scores, cool-downs, disabling and recovery as
      operations on the tables, with invariants over every sequence of them.

  \<^bold>\<open>The request.\<close>
    \<^item> \<^verbatim>\<open>Relay_Attempt\<close> (\<^verbatim>\<open>relay/credential_retry.go\<close>, \<^verbatim>\<open>retry_policy.go\<close>, \<^verbatim>\<open>attempt_result.go\<close>, \<^verbatim>\<open>quota_failure.go\<close>) and
      \<^verbatim>\<open>Relay_Flow\<close> (\<^verbatim>\<open>relay/service.go\<close>, \<^verbatim>\<open>failed_request.go\<close>, \<^verbatim>\<open>availability_error.go\<close>): the two loops, with the upstream
      as a parameter of the world.  Nothing is replayed after output; an answered request is accounted once.
    \<^item> \<^verbatim>\<open>Protocol_Plan\<close>, \<^verbatim>\<open>Protocol_Request\<close>, \<^verbatim>\<open>Protocol_Anthropic\<close>, \<^verbatim>\<open>Protocol_Response\<close> (\<^verbatim>\<open>protocol/protocol.go\<close>,
      \<^verbatim>\<open>request.go\<close>, \<^verbatim>\<open>response.go\<close>, \<^verbatim>\<open>anthropic_request.go\<close>, \<^verbatim>\<open>anthropic_response.go\<close>): the conversions of whole
      documents, compared through the turns that a conversation holds.
    \<^item> \<^verbatim>\<open>Protocol_Stream\<close>, \<^verbatim>\<open>Stream_Convert\<close> (\<^verbatim>\<open>protocol/stream.go\<close>, \<^verbatim>\<open>stream_toolargs.go\<close>, \<^verbatim>\<open>anthropic_stream.go\<close>): the
      converters as state machines on events; \<^verbatim>\<open>Stream_To_Chat\<close> and \<^verbatim>\<open>Stream_To_Responses\<close> compare what a client
      puts together from the events with the conversion of the complete answer, and show that the events come in
      the order that the protocol demands.
    \<^item> \<^verbatim>\<open>Sensitive_Data\<close>, \<^verbatim>\<open>Sensitive_Restore\<close> (\<^verbatim>\<open>relay/sensitive_data.go\<close>, \<^verbatim>\<open>sensitive_data_restore.go\<close>): masking of
      secrets and their return, in finished answers and line by line in streams.
    \<^item> \<^verbatim>\<open>Channel_Types\<close> (\<^verbatim>\<open>channeltype/config.go\<close>, the types of \<^verbatim>\<open>service.go\<close>): the configuration of a channel type, its JSON
      form and its normal form.  \<^verbatim>\<open>Type_Store\<close> (\<^verbatim>\<open>channeltype/service.go\<close>): the table of types with the cache in front of it;
      a stored configuration reads back as itself.  \<^verbatim>\<open>Endpoint_Choice\<close> (\<^verbatim>\<open>channeltype/protocol.go\<close>,
      \<^verbatim>\<open>relay/protocol_attempt.go\<close>, \<^verbatim>\<open>rerank.go\<close>): the plan, address and body of a request that follow from the type of the channel.
    \<^item> \<^verbatim>\<open>Body_Transform\<close> (\<^verbatim>\<open>relay/transform.go\<close>, \<^verbatim>\<open>prompt_cache.go\<close>, \<^verbatim>\<open>open_code_free_sse.go\<close>, \<^verbatim>\<open>channel/prompt_cache.go\<close>): the
      body for an upstream and the metadata of its answer; no forbidden field and no cache key of another user gets
      out.
    \<^item> \<^verbatim>\<open>Sse_Lines\<close> (\<^verbatim>\<open>relay/stream_failure.go\<close>, \<^verbatim>\<open>model_quality.go\<close>, \<^verbatim>\<open>reasoning_echo.go\<close>, \<^verbatim>\<open>payload_log.go\<close>,
      \<^verbatim>\<open>usage/response.go\<close>): what is read of one line of a stream.  \<^verbatim>\<open>Content_Guard\<close> (\<^verbatim>\<open>relay/content_guard.go\<close>,
      \<^verbatim>\<open>content_guard_buffered.go\<close>): the machine that holds back the start of an answer until it is known not to be the
      markup of another client; it loses nothing of the text.
    \<^item> \<^verbatim>\<open>Relay_Stream\<close> (\<^verbatim>\<open>relay/protocol_attempt.go\<close>): one attempt from the upstream's answer on, with what the client has
      been sent as part of the state, and the second call at the other endpoint.  \<^verbatim>\<open>Stream_Delivery\<close> compares it with
      the pipeline of the lines alone: the client gets its outputs in order, however long they are held, and an
      attempt that is given up has sent nothing.

  \<^bold>\<open>Money.\<close>
    \<^item> \<^verbatim>\<open>Usage_Types\<close>, \<^verbatim>\<open>Usage_Billing\<close> (\<^verbatim>\<open>usage/billing.go\<close>, \<^verbatim>\<open>failure_billing.go\<close>, \<^verbatim>\<open>legacy_billing.go\<close>): the bill of a
      request; items add up, tokens are billed once.  Decimals are rationals with the library's rounding as a
      parameter.
    \<^item> \<^verbatim>\<open>Usage_Pricing\<close> (\<^verbatim>\<open>usage/pricing.go\<close>, \<^verbatim>\<open>pricingcache/service.go\<close>): the price of a model from the tables and from the
      snapshot, shown equivalent.
    \<^item> \<^verbatim>\<open>Price_Expression\<close>, \<^verbatim>\<open>Price_Rules\<close>, \<^verbatim>\<open>Price_Plan\<close> (\<^verbatim>\<open>channel/price_expr.go\<close>, \<^verbatim>\<open>price_expr_condition.go\<close>,
      \<^verbatim>\<open>price_expr_rates.go\<close>, \<^verbatim>\<open>price_name.go\<close>, \<^verbatim>\<open>price_rules_sync.go\<close>, \<^verbatim>\<open>price_public.go\<close>): from the price expression of a
      catalogue to stored rules.  The expression is read as a tree of conditions; the stored rules, matched by
      the billing, charge the rates of the branch that the expression takes.  The transaction that writes them
      keeps everything an administrator has set.
    \<^item> \<^verbatim>\<open>Relay_Billing\<close> (\<^verbatim>\<open>relay/usage.go\<close>, \<^verbatim>\<open>user/debit.go\<close>, \<^verbatim>\<open>apikey/spending.go\<close>, \<^verbatim>\<open>apikey/daily_limit.go\<close>): the transaction of
      one request: usage row, debit and key spend together or not at all.
    \<^item> \<^verbatim>\<open>Accounts\<close> (\<^verbatim>\<open>user/service.go\<close>, \<^verbatim>\<open>redemption\<close>): credits, codes and the role of administrator in every interleaving
      of the requests.
    \<^item> \<^verbatim>\<open>Api_Keys\<close> (\<^verbatim>\<open>apikey\<close>): authentication with its cache; a deleted key is refused, and the cache never answers with
      rights older than its life.

  \<^bold>\<open>The cluster.\<close>
    \<^item> \<^verbatim>\<open>Usage_Wire\<close> (\<^verbatim>\<open>cluster/usage_validate.go\<close>, \<^verbatim>\<open>usage_wire.go\<close>), \<^verbatim>\<open>Cluster_Ledger\<close> (\<^verbatim>\<open>usage_ingest.go\<close>, \<^verbatim>\<open>usage_flush.go\<close>):
      the rows between worker and master.  \<^verbatim>\<open>HandleUsage\<close> refines an abstract contract of accounts.
    \<^item> \<^verbatim>\<open>Cluster_System\<close> (\<^verbatim>\<open>cluster/worker.go\<close>): workers, master and a network that loses, repeats and reorders messages
      as a step relation; no row is lost, none is settled twice, and an exchange without faults makes progress.
    \<^item> \<^verbatim>\<open>Cluster_Nodes\<close> (\<^verbatim>\<open>cluster/sign.go\<close>, \<^verbatim>\<open>nodes.go\<close>, \<^verbatim>\<open>master_api.go\<close>, \<^verbatim>\<open>state.go\<close>), \<^verbatim>\<open>Cache_Store\<close> (\<^verbatim>\<open>cache/sqlite.go\<close>),
      \<^verbatim>\<open>Worker_Cache\<close>: signatures with their nonces in the store, the table of nodes and the cache of a worker; the
      locale \<^verbatim>\<open>once_store\<close> states what a nonce needs of the store.

  \<^bold>\<open>Conventions.\<close>
  Definitions carry the names of the code.  Rows of tables are records, tables are lists of rows, a database is a
  record of tables, and a transaction is a function that returns either an error, so that the caller keeps the old
  tables, or the new ones.  Errors are datatypes on the left of a sum.  Integers are words where the code's width
  matters.  The clock, the random generator, upstream answers, the JSON reader \<^verbatim>\<open>gjson\<close>, decimal arithmetic, hashes
  and faults of the database are parameters; what is relied on of them is a hypothesis of the theorem with its
  documented law, and each such theorem has a witness with concrete functions.

  \<^bold>\<open>Bounds and fuel.\<close>
  The loop over the keys of a channel takes fuel; the number of keys plus seven is enough, for each round uses up
  a key or one of three retries.  The wait for a slot takes fuel for wake-ups and for
  the scan of the keys; more fuel than keys completes a scan.  A request makes at most two passes over its candidates.
   All other loops are structural or have a termination proof with a measure: the
  decreasing text of a price expression, the shrinking outbox of the draining loop, the rest of a list.

  \<^bold>\<open>Not modelled.\<close>
  The HTTP exchange with an upstream (\<^verbatim>\<open>relay/http.go\<close>, \<^verbatim>\<open>upstream_auth.go\<close>, \<^verbatim>\<open>proxy.go\<close>, \<^verbatim>\<open>timeout.go\<close>), the rewriting of
  bodies for single vendors, and audio, video and images; the pages of upstream balances (\<^verbatim>\<open>channel/quota*.go\<close>); web
  sockets and address guessing of the cluster and the bulk writing of a snapshot into generated columns; the
  console's lists and charts, mail, encryption, cron registration and start-up; the HTTP controllers, the generated
  table access and the web front end.  They are input and output around the modelled core, or generated code, and
  appear in the model as parameters where the core depends on them.
\<close>

end
